(* ===== verification/Base.thy ===== *)
theory Base
  imports "HOL-Library.Word" "HOL-Library.Multiset" "HOL-Library.AList" "HOL-Library.Product_Lexorder"
begin

text \<open>
  Prelude of the development: names for the machine types, the model of the few functions of the
  C++ standard library that the modelled code uses (\<open>std::to_string\<close> on integers, \<open>std::sort\<close>,
  \<open>vector::erase\<close>/\<open>push_back\<close> on a bounded vector, an in-place write through the
  iterator of \<open>std::find_if\<close>), and the lemmas on lists that several components share.

  Conventions used everywhere:
  \<^item> \<open>uint64_t\<close>, \<open>size_t\<close> and \<open>uint32_t\<close> are words of that width where the code does arithmetic
    on them or compares them; \<open>int\<close> and \<open>int64_t\<close> are \<open>int\<close> (signed overflow is undefined in C++).
  \<^item> \<open>double\<close> and \<open>float\<close> are \<open>real\<close>: comparisons and copies are exact, NaN and rounding are not
    modelled.
  \<^item> \<open>std::string\<close> is \<open>string\<close>, a list of bytes.
  \<^item> \<open>std::map\<close> and \<open>std::unordered_map\<close> are association lists with distinct keys (\<open>AList\<close>), whose
    order is the iteration order. For an unordered map C++ leaves that order open; statements about
    such maps speak of sets or multisets of entries.
  \<^item> the time a method reads from a clock is an argument of its model.
  \<^item> a method that holds its mutex for its whole body is one atomic step; a method that locks a
    \<open>std::mutex\<close> its caller already holds is the error \<open>SelfDeadlock\<close>.
\<close>

type_synonym u64 = "64 word"
type_synonym u32 = "32 word"

named_theorems inv_intros \<open>invariant preservation, one fact per operation\<close>
named_theorems machine_simps \<open>unfolding of the operations of the component in scope\<close>

section \<open>Errors and callbacks\<close>

text \<open>What the modelled code can do instead of returning normally.\<close>

datatype fault =
    SelfDeadlock        \<comment> \<open>a non-recursive mutex locked twice by one thread\<close>
  | OutOfRange          \<comment> \<open>an iterator or index moved past the end of its container\<close>
  | Thrown string       \<comment> \<open>a C++ exception that leaves the method\<close>

text \<open>A user callback that returns a \<open>bool\<close> either returns it or throws.\<close>

datatype callback_result = Returns bool | Throws

section \<open>Decimal printing: std::to_string\<close>

definition digit_char :: "nat \<Rightarrow> char" where
  "digit_char d = char_of (48 + d)"

fun digits_of :: "nat \<Rightarrow> string" where
  "digits_of n = (if n < 10 then [digit_char n] else digits_of (n div 10) @ [digit_char (n mod 10)])"

declare digits_of.simps [simp del]

definition to_string :: "int \<Rightarrow> string" where
  "to_string i = (if i < 0 then CHR ''-'' # digits_of (nat (- i)) else digits_of (nat i))"

definition of_digits :: "string \<Rightarrow> nat" where
  "of_digits s = foldl (\<lambda>a c. 10 * a + (of_char c - 48)) 0 s"

lemma of_char_digit_char: "d < 10 \<Longrightarrow> of_char (digit_char d) = 48 + d"
  by (simp add: digit_char_def)

lemma of_digits_digits_of [simp]: "of_digits (digits_of n) = n"
proof (induction n rule: digits_of.induct)
  case (1 n)
  show ?case
  proof (cases "n < 10")
    case True
    then show ?thesis
      by (subst digits_of.simps) (simp add: of_digits_def of_char_digit_char)
  next
    case False
    with 1 have "of_digits (digits_of (n div 10)) = n div 10" by simp
    with False show ?thesis
      by (subst digits_of.simps) (simp add: of_digits_def of_char_digit_char)
  qed
qed

lemma digits_of_range: "c \<in> set (digits_of n) \<Longrightarrow> 48 \<le> (of_char c :: nat) \<and> (of_char c :: nat) \<le> 57"
proof (induction n rule: digits_of.induct)
  case (1 n)
  have d: "48 \<le> (of_char (digit_char k) :: nat) \<and> (of_char (digit_char k) :: nat) \<le> 57" if "k < 10" for k
    using that by (simp add: of_char_digit_char)
  from 1 d show ?case
    by (cases "n < 10") (auto simp: digits_of.simps [of n])
qed

lemma digits_of_no_sep: "CHR '':'' \<notin> set (digits_of n)" "CHR ''-'' \<notin> set (digits_of n)"
  using digits_of_range by fastforce+

lemma digits_of_nonempty [simp]: "digits_of n \<noteq> []"
  by (subst digits_of.simps) simp

lemma to_string_no_colon: "CHR '':'' \<notin> set (to_string i)"
  by (auto simp: to_string_def digits_of_no_sep)

lemma to_string_inj: "to_string i = to_string j \<Longrightarrow> i = j"
proof -
  assume eq: "to_string i = to_string j"
  have sign: "(i < 0) = (j < 0)"
  proof (rule ccontr)
    assume "(i < 0) \<noteq> (j < 0)"
    then have "\<exists>n m. CHR ''-'' # digits_of n = digits_of m"
      using eq by (auto simp: to_string_def split: if_splits intro: sym)
    then obtain n m where *: "CHR ''-'' # digits_of n = digits_of m" by blast
    have "CHR ''-'' \<in> set (digits_of m)" unfolding * [symmetric] by simp
    then show False by (simp add: digits_of_no_sep)
  qed
  with eq have "digits_of (nat \<bar>i\<bar>) = digits_of (nat \<bar>j\<bar>)"
    by (auto simp: to_string_def split: if_splits)
  then have "of_digits (digits_of (nat \<bar>i\<bar>)) = of_digits (digits_of (nat \<bar>j\<bar>))" by simp
  then have "\<bar>i\<bar> = \<bar>j\<bar>" by simp
  with sign show "i = j" by auto
qed

text \<open>
  The composite keys the code builds, \<open>to_string(task) + ":" + epc\<close>, determine both parts: the
  decimal print holds no colon, so the first colon separates them.
\<close>

lemma split_at_first:
  assumes "c \<notin> set xs" "c \<notin> set ys" "xs @ c # us = ys @ c # vs"
  shows "xs = ys \<and> us = vs"
  using assms
proof (induction xs arbitrary: ys)
  case Nil
  then show ?case by (cases ys) auto
next
  case (Cons x xs)
  then show ?case by (cases ys) auto
qed

definition task_key :: "int \<Rightarrow> string \<Rightarrow> string" where
  "task_key t e = to_string t @ '':'' @ e"

lemma task_key_inj [simp]: "task_key t e = task_key t' e' \<longleftrightarrow> t = t' \<and> e = e'"
  using split_at_first [OF to_string_no_colon to_string_no_colon, of t e t' e'] to_string_inj
  by (auto simp: task_key_def)

section \<open>Bounded vectors\<close>

text \<open>
  \<^verbatim>\<open>if (v.size() >= CAP) v.erase(v.begin()); v.push_back(x);\<close>
\<close>

definition bounded_push :: "nat \<Rightarrow> 'a list \<Rightarrow> 'a \<Rightarrow> 'a list" where
  "bounded_push cap xs x = (if cap \<le> length xs then tl xs else xs) @ [x]"

lemma length_bounded_push: "0 < cap \<Longrightarrow> length xs \<le> cap \<Longrightarrow> length (bounded_push cap xs x) \<le> cap"
  by (auto simp: bounded_push_def)

text \<open>The vector always is the tail of everything pushed, cut to the capacity.\<close>

definition last_n :: "nat \<Rightarrow> 'a list \<Rightarrow> 'a list" where
  "last_n n xs = drop (length xs - n) xs"

lemma last_n_snoc:
  "0 < n \<Longrightarrow> last_n n (xs @ [x]) = (if n \<le> length (last_n n xs) then tl (last_n n xs) else last_n n xs) @ [x]"
  by (auto simp: last_n_def tl_drop drop_Suc [symmetric] Suc_diff_le drop_tl)

lemma bounded_push_last_n: "0 < n \<Longrightarrow> bounded_push n (last_n n xs) x = last_n n (xs @ [x])"
  by (simp add: bounded_push_def last_n_snoc)

lemma foldl_bounded_push: "0 < n \<Longrightarrow> foldl (bounded_push n) (last_n n xs) ys = last_n n (xs @ ys)"
proof (induction ys arbitrary: xs)
  case Nil
  then show ?case by simp
next
  case (Cons y ys)
  then show ?case using Cons.IH [of "xs @ [y]"] by (simp add: bounded_push_last_n)
qed

lemma length_last_n [simp]: "length (last_n n xs) = min n (length xs)"
  by (simp add: last_n_def)

lemma set_last_n: "set (last_n n xs) \<subseteq> set xs"
  by (auto simp: last_n_def dest: in_set_dropD)

lemma last_n_all [simp]: "length xs \<le> n \<Longrightarrow> last_n n xs = xs"
  by (simp add: last_n_def)

section \<open>Writing through the iterator of std::find\_if\<close>

fun update_first :: "('a \<Rightarrow> bool) \<Rightarrow> ('a \<Rightarrow> 'a) \<Rightarrow> 'a list \<Rightarrow> 'a list" where
  "update_first P f [] = []"
| "update_first P f (x # xs) = (if P x then f x # xs else x # update_first P f xs)"

lemma length_update_first [simp]: "length (update_first P f xs) = length xs"
  by (induction xs) auto

lemma update_first_none: "find P xs = None \<Longrightarrow> update_first P f xs = xs"
  by (induction xs) (auto split: if_splits)

lemma update_first_append:
  "update_first P f (xs @ ys) =
     (if find P xs = None then xs @ update_first P f ys else update_first P f xs @ ys)"
  by (induction xs) auto

lemma map_update_first: "(\<And>x. P x \<Longrightarrow> g (f x) = g x) \<Longrightarrow> map g (update_first P f xs) = map g xs"
  by (induction xs) auto

lemma find_update_first:
  "(\<And>x. P x \<Longrightarrow> P (f x)) \<Longrightarrow> find P (update_first P f xs) = map_option f (find P xs)"
  by (induction xs) auto

lemma find_update_first_other:
  "(\<And>x. P x \<Longrightarrow> \<not> Q x) \<Longrightarrow> (\<And>x. P x \<Longrightarrow> \<not> Q (f x)) \<Longrightarrow> find Q (update_first P f xs) = find Q xs"
  by (induction xs) auto

lemma find_app: "find P (xs @ ys) = (case find P xs of None \<Rightarrow> find P ys | Some x \<Rightarrow> Some x)"
  by (induction xs) auto

lemma find_Some_iff_mem: "(find P xs \<noteq> None) \<longleftrightarrow> (\<exists>x \<in> set xs. P x)"
  by (auto simp: find_None_iff)

section \<open>std::sort\<close>

text \<open>
  \<open>std::sort\<close> with a comparator, as a stable insertion sort. C++ leaves the order of equivalent
  elements open; the two facts below (a permutation, ordered by the comparator) are its contract,
  and the properties of this development rest on them only.
\<close>

fun insort_by :: "('a \<Rightarrow> 'a \<Rightarrow> bool) \<Rightarrow> 'a \<Rightarrow> 'a list \<Rightarrow> 'a list" where
  "insort_by lt x [] = [x]"
| "insort_by lt x (y # ys) = (if lt y x then y # insort_by lt x ys else x # y # ys)"

definition std_sort :: "('a \<Rightarrow> 'a \<Rightarrow> bool) \<Rightarrow> 'a list \<Rightarrow> 'a list" where
  "std_sort lt xs = foldr (insort_by lt) xs []"

lemma mset_insort_by: "mset (insort_by lt x xs) = add_mset x (mset xs)"
  by (induction xs) auto

lemma mset_std_sort [simp]: "mset (std_sort lt xs) = mset xs"
  unfolding std_sort_def by (induction xs) (auto simp: mset_insort_by)

lemma set_std_sort [simp]: "set (std_sort lt xs) = set xs"
  by (metis mset_std_sort set_mset_mset)

lemma length_std_sort [simp]: "length (std_sort lt xs) = length xs"
  by (metis mset_std_sort size_mset)

lemma std_sort_Nil_iff [simp]: "std_sort lt xs = [] \<longleftrightarrow> xs = []"
  by (metis length_0_conv length_std_sort)

lemma std_sort_empty [simp]: "std_sort lt [] = []"
  by (simp add: std_sort_def)

lemma sorted_insort_by:
  assumes asym: "\<And>a b. lt a b \<Longrightarrow> \<not> lt b a"
    and ntrans: "\<And>a b c. \<not> lt a b \<Longrightarrow> \<not> lt b c \<Longrightarrow> \<not> lt a c"
    and "sorted_wrt (\<lambda>a b. \<not> lt b a) xs"
  shows "sorted_wrt (\<lambda>a b. \<not> lt b a) (insort_by lt x xs)"
  using assms(3)
proof (induction xs)
  case Nil
  then show ?case by simp
next
  case (Cons y ys)
  have mem: "set (insort_by lt x ys) = insert x (set ys)"
    by (metis mset_insort_by set_mset_add_mset_insert set_mset_mset)
  show ?case
  proof (cases "lt y x")
    case True
    with Cons mem show ?thesis by (auto dest: asym)
  next
    case False
    with Cons.prems ntrans show ?thesis by auto
  qed
qed

lemma sorted_std_sort:
  assumes "\<And>a b. lt a b \<Longrightarrow> \<not> lt b a"
    and "\<And>a b c. \<not> lt a b \<Longrightarrow> \<not> lt b c \<Longrightarrow> \<not> lt a c"
  shows "sorted_wrt (\<lambda>a b. \<not> lt b a) (std_sort lt xs)"
  unfolding std_sort_def
proof (induction xs)
  case Nil
  then show ?case by simp
next
  case (Cons x xs)
  then show ?case using sorted_insort_by [OF assms] by simp
qed

text \<open>Vectors whose elements have pairwise distinct keys: lookup by key, and sorting by key.\<close>

lemma find_distinct_key:
  "distinct (map k xs) \<Longrightarrow> find (\<lambda>x. k x = key) xs = Some r \<longleftrightarrow> r \<in> set xs \<and> k r = key"
  by (induction xs) (auto simp: image_iff)

lemma find_key_None: "find (\<lambda>x. k x = key) xs = None \<longleftrightarrow> key \<notin> k ` set xs"
  by (auto simp: find_None_iff)

lemma find_key_same_set:
  assumes "distinct (map k xs)" "distinct (map k ys)" "set xs = set ys"
  shows "find (\<lambda>x. k x = key) xs = find (\<lambda>x. k x = key) ys"
proof (cases "find (\<lambda>x. k x = key) xs")
  case None
  then have "find (\<lambda>x. k x = key) ys = None" using assms(3) by (simp only: find_key_None simp_thms)
  with None show ?thesis by simp
next
  case (Some r)
  then show ?thesis
    using assms find_distinct_key [OF assms(1), of key r] find_distinct_key [OF assms(2), of key r]
    by simp
qed

lemma sorted_wrt_key_unique:
  fixes k :: "'a \<Rightarrow> 'b :: linorder"
  assumes "mset xs = mset ys" "distinct (map k xs)"
    and "sorted_wrt (\<lambda>a b. k a \<le> k b) xs" "sorted_wrt (\<lambda>a b. k a \<le> k b) ys"
  shows "xs = ys"
proof -
  have inj: "inj_on k (set xs)" using assms(2) by (simp add: distinct_map)
  have "sorted (map k xs)" "sorted (map k ys)" using assms(3,4) by (simp_all add: sorted_wrt_map)
  moreover have "mset (map k xs) = mset (map k ys)" using assms(1) by simp
  ultimately have "map k xs = map k ys" by (metis properties_for_sort sorted_sort_id)
  moreover have "set xs = set ys" using assms(1) by (metis set_mset_mset)
  ultimately show ?thesis using inj by (metis inj_on_map_eq_map Un_absorb)
qed

text \<open>Sorting by a key with \<open><\<close>: sorted, and independent of the order the elements came in.\<close>

lemma sorted_std_sort_key:
  fixes k :: "'a \<Rightarrow> 'b :: linorder"
  shows "sorted_wrt (\<lambda>a b. k a \<le> k b) (std_sort (\<lambda>a b. k a < k b) xs)"
  using sorted_std_sort [of "\<lambda>a b. k a < k b" xs] by (simp add: not_less)

lemma std_sort_key_perm:
  fixes k :: "'a \<Rightarrow> 'b :: linorder"
  assumes "mset xs = mset ys" "distinct (map k xs)"
  shows "std_sort (\<lambda>a b. k a < k b) xs = std_sort (\<lambda>a b. k a < k b) ys"
proof (rule sorted_wrt_key_unique)
  show "distinct (map k (std_sort (\<lambda>a b. k a < k b) xs))"
    using assms(2) by (metis mset_map mset_std_sort mset_eq_imp_distinct_iff)
qed (simp_all add: assms(1) sorted_std_sort_key)

lemma sorted_key_strict:
  fixes k :: "'a \<Rightarrow> 'b :: linorder"
  shows "sorted_wrt (\<lambda>a b. k a \<le> k b) xs \<Longrightarrow> distinct (map k xs) \<Longrightarrow> sorted_wrt (\<lambda>a b. k a < k b) xs"
  by (induction xs) (auto simp: le_less image_iff)

section \<open>std::find\_if as an index\<close>

text \<open>The index of the first match, or the length, which stands for \<open>end()\<close>.\<close>

definition find_index_if :: "('a \<Rightarrow> bool) \<Rightarrow> 'a list \<Rightarrow> nat" where
  "find_index_if P xs = length (takeWhile (\<lambda>x. \<not> P x) xs)"

lemma find_index_if_le: "find_index_if P xs \<le> length xs"
  by (simp add: find_index_if_def length_takeWhile_le)

lemma find_index_if_less: "find_index_if P xs < length xs \<longleftrightarrow> (\<exists>x \<in> set xs. P x)"
  by (induction xs) (auto simp: find_index_if_def)

lemma find_index_if_nth: "find_index_if P xs < length xs \<Longrightarrow> P (xs ! find_index_if P xs)"
  unfolding find_index_if_def using nth_length_takeWhile by blast

end
