(* ===== verification/Guarded_Machine.thy ===== *)
theory Guarded_Machine
  imports Base
begin

text \<open>
  The contract that the state machines of the system share: a current state, a transition table
  and a request operation that moves to the requested state exactly when the table allows it and
  says so in its result. \<open>Runtime_State_Machine\<close>, \<open>Reader_State_Machine\<close> and \<open>Asset_Service\<close>
  interpret the locale on their own operations; what holds for every sequence of requests is
  proved here once.
\<close>

definition run_requests :: "('m \<Rightarrow> 's \<Rightarrow> 'r \<Rightarrow> bool \<times> 'm) \<Rightarrow> 'm \<Rightarrow> ('s \<times> 'r) list \<Rightarrow> 'm" where
  "run_requests request m reqs = foldl (\<lambda>m (t, r). snd (request m t r)) m reqs"

lemma run_requests_simps [simp]:
  "run_requests request m [] = m"
  "run_requests request m ((t, r) # reqs) = run_requests request (snd (request m t r)) reqs"
  by (simp_all add: run_requests_def)

lemma run_requests_append [simp]:
  "run_requests request m (xs @ ys) = run_requests request (run_requests request m xs) ys"
  by (simp add: run_requests_def)

text \<open>How many of the requests the machine accepts.\<close>

fun accepted :: "('m \<Rightarrow> 's \<Rightarrow> 'r \<Rightarrow> bool \<times> 'm) \<Rightarrow> 'm \<Rightarrow> ('s \<times> 'r) list \<Rightarrow> nat" where
  "accepted request m [] = 0"
| "accepted request m ((t, r) # reqs) =
     (if fst (request m t r) then 1 else 0) + accepted request (snd (request m t r)) reqs"

locale guarded_machine =
  fixes valid :: "'s \<Rightarrow> 's \<Rightarrow> bool"
    and cur :: "'m \<Rightarrow> 's"
    and request :: "'m \<Rightarrow> 's \<Rightarrow> 'r \<Rightarrow> bool \<times> 'm"
  assumes request_result: "fst (request m t r) = valid (cur m) t"
    and request_cur: "cur (snd (request m t r)) = (if valid (cur m) t then t else cur m)"
begin

lemma run_closed:
  assumes closed: "\<And>s t. s \<in> S \<Longrightarrow> valid s t \<Longrightarrow> t \<in> S"
  shows "cur m \<in> S \<Longrightarrow> cur (run_requests request m reqs) \<in> S"
proof (induction reqs arbitrary: m)
  case Nil
  then show ?case by simp
next
  case (Cons a reqs)
  obtain t r where a: "a = (t, r)" by (cases a)
  have "cur (snd (request m t r)) \<in> S"
    using Cons.prems closed by (simp add: request_cur)
  then show ?case unfolding a by (simp add: Cons.IH)
qed

lemma run_absorbing:
  assumes "\<And>t. \<not> valid s t" and "cur m = s"
  shows "cur (run_requests request m reqs) = s"
proof -
  have "cur (run_requests request m reqs) \<in> {s}"
    by (rule run_closed) (use assms in auto)
  then show ?thesis by simp
qed

lemma run_path: "valid\<^sup>*\<^sup>* (cur m) (cur (run_requests request m reqs))"
proof -
  have "cur (run_requests request m reqs) \<in> {t. valid\<^sup>*\<^sup>* (cur m) t}"
    by (rule run_closed) (auto intro: rtranclp.rtrancl_into_rtrancl)
  then show ?thesis by simp
qed

lemma path_run: "valid\<^sup>*\<^sup>* s t \<Longrightarrow> \<exists>reqs. \<forall>m. cur m = s \<longrightarrow> cur (run_requests request m reqs) = t"
proof (induction rule: rtranclp_induct)
  case base
  show ?case by (rule exI [of _ "[]"]) simp
next
  case (step t u)
  then obtain reqs where "\<forall>m. cur m = s \<longrightarrow> cur (run_requests request m reqs) = t" by blast
  with step.hyps(2) show ?case
    by (intro exI [of _ "reqs @ [(u, undefined)]"]) (simp add: request_cur)
qed

text \<open>The states a machine can be brought to are exactly those the table connects.\<close>

lemma reachable_iff: "(\<exists>reqs. cur (run_requests request m reqs) = t) \<longleftrightarrow> valid\<^sup>*\<^sup>* (cur m) t"
  using run_path path_run by metis

lemma refused_unchanged: "\<not> fst (request m t r) \<Longrightarrow> cur (snd (request m t r)) = cur m"
  by (simp add: request_result request_cur)

text \<open>A state that only \<open>P\<close>-states may enter is entered from a \<open>P\<close>-state.\<close>

lemma entered_from:
  assumes guard: "\<And>s. valid s g \<Longrightarrow> P s"
    and "cur m \<noteq> g" and "cur (run_requests request m reqs) = g"
  shows "\<exists>pre post. reqs = pre @ post \<and> P (cur (run_requests request m pre))"
  using assms(2,3)
proof (induction reqs rule: rev_induct)
  case Nil
  then show ?case by simp
next
  case (snoc a reqs)
  obtain t r where a: "a = (t, r)" by (cases a)
  show ?case
  proof (cases "cur (run_requests request m reqs) = g")
    case True
    with snoc show ?thesis by fastforce
  next
    case False
    with snoc.prems guard show ?thesis
      by (auto simp: a request_cur split: if_splits)
  qed
qed

end

end
