(* ===== verification/Runtime_State_Machine.thy ===== *)
theory Runtime_State_Machine
  imports Guarded_Machine
begin

text \<open>
  \<open>server/runtime/runtime_state_machine.\{h,cpp\}\<close>: the lifecycle of the runtime. The record holds
  the data members of \<open>RuntimeStateMachine\<close>; the change callbacks are user code whose exceptions
  \<open>transition\<close> swallows, so each call of a callback appears in the trace the operation returns
  and has no other effect on the machine.
\<close>

datatype RuntimeState =
  INIT | RUNNING | DEGRADED | INSPECT | PAUSED | RECOVERING | EMERGENCY_STOP | SHUTDOWN

definition STATE_NAMES :: "string list" where
  "STATE_NAMES = [''INIT'', ''RUNNING'', ''DEGRADED'', ''INSPECT'', ''PAUSED'', ''RECOVERING'',
     ''EMERGENCY_STOP'', ''SHUTDOWN'']"

text \<open>\<open>static_cast<int>\<close> of the enumeration.\<close>

fun RuntimeState_index :: "RuntimeState \<Rightarrow> nat" where
  "RuntimeState_index INIT = 0"
| "RuntimeState_index RUNNING = 1"
| "RuntimeState_index DEGRADED = 2"
| "RuntimeState_index INSPECT = 3"
| "RuntimeState_index PAUSED = 4"
| "RuntimeState_index RECOVERING = 5"
| "RuntimeState_index EMERGENCY_STOP = 6"
| "RuntimeState_index SHUTDOWN = 7"

text \<open>Callbacks are identified by a number: the position at which user code registered them.\<close>

record RuntimeStateMachine =
  rsm_state :: RuntimeState
  rsm_state_name :: string
  rsm_last_reason :: string
  rsm_callbacks :: "nat list"
  rsm_state_change_count :: u64

definition rsm_new :: RuntimeStateMachine where
  "rsm_new = \<lparr>rsm_state = INIT, rsm_state_name = ''INIT'', rsm_last_reason = '''',
     rsm_callbacks = [], rsm_state_change_count = 0\<rparr>"

definition rsm_initialize :: "RuntimeStateMachine \<Rightarrow> RuntimeStateMachine" where
  "rsm_initialize m = m\<lparr>rsm_state := INIT, rsm_state_name := STATE_NAMES ! 0,
     rsm_last_reason := ''System initialized'', rsm_state_change_count := 0\<rparr>"

definition rsm_shutdown :: "RuntimeStateMachine \<Rightarrow> RuntimeStateMachine" where
  "rsm_shutdown m = m\<lparr>rsm_state := SHUTDOWN, rsm_state_name := STATE_NAMES ! 7,
     rsm_last_reason := ''System shutdown''\<rparr>"

definition rsm_current :: "RuntimeStateMachine \<Rightarrow> RuntimeState" where
  "rsm_current m = rsm_state m"

fun rsm_isValidTransition :: "RuntimeState \<Rightarrow> RuntimeState \<Rightarrow> bool" where
  "rsm_isValidTransition INIT t = (t = RUNNING \<or> t = SHUTDOWN)"
| "rsm_isValidTransition RUNNING t =
     (t = DEGRADED \<or> t = INSPECT \<or> t = PAUSED \<or> t = EMERGENCY_STOP \<or> t = SHUTDOWN)"
| "rsm_isValidTransition DEGRADED t =
     (t = RUNNING \<or> t = INSPECT \<or> t = PAUSED \<or> t = EMERGENCY_STOP \<or> t = SHUTDOWN)"
| "rsm_isValidTransition INSPECT t =
     (t = RUNNING \<or> t = DEGRADED \<or> t = PAUSED \<or> t = EMERGENCY_STOP \<or> t = SHUTDOWN)"
| "rsm_isValidTransition PAUSED t =
     (t = RUNNING \<or> t = DEGRADED \<or> t = RECOVERING \<or> t = EMERGENCY_STOP \<or> t = SHUTDOWN)"
| "rsm_isValidTransition RECOVERING t =
     (t = RUNNING \<or> t = DEGRADED \<or> t = EMERGENCY_STOP \<or> t = SHUTDOWN)"
| "rsm_isValidTransition EMERGENCY_STOP t = (t = RECOVERING \<or> t = SHUTDOWN)"
| "rsm_isValidTransition SHUTDOWN t = False"

text \<open>
  \<open>transition\<close>: the result, the new machine, and the callback invocations in order, each with the
  old and the new state.
\<close>

definition rsm_transition_trace ::
  "RuntimeStateMachine \<Rightarrow> RuntimeState \<Rightarrow> string \<Rightarrow>
   bool \<times> RuntimeStateMachine \<times> (nat \<times> RuntimeState \<times> RuntimeState) list" where
  "rsm_transition_trace m target reason =
     (let frm = rsm_state m in
      if \<not> rsm_isValidTransition frm target then (False, m, [])
      else (True,
            m\<lparr>rsm_state := target, rsm_state_name := STATE_NAMES ! RuntimeState_index target,
              rsm_last_reason := reason, rsm_state_change_count := rsm_state_change_count m + 1\<rparr>,
            map (\<lambda>cb. (cb, frm, target)) (rsm_callbacks m)))"

definition rsm_transition ::
  "RuntimeStateMachine \<Rightarrow> RuntimeState \<Rightarrow> string \<Rightarrow> bool \<times> RuntimeStateMachine" where
  "rsm_transition m target reason =
     (case rsm_transition_trace m target reason of (ok, m', _) \<Rightarrow> (ok, m'))"

definition rsm_isHealthy :: "RuntimeStateMachine \<Rightarrow> bool" where
  "rsm_isHealthy m \<longleftrightarrow> rsm_state m = RUNNING \<or> rsm_state m = DEGRADED"

definition rsm_canRunAI :: "RuntimeStateMachine \<Rightarrow> bool" where
  "rsm_canRunAI m = (case rsm_state m of
     RUNNING \<Rightarrow> True | DEGRADED \<Rightarrow> True
   | INSPECT \<Rightarrow> False | PAUSED \<Rightarrow> False | RECOVERING \<Rightarrow> False
   | EMERGENCY_STOP \<Rightarrow> False | SHUTDOWN \<Rightarrow> False | INIT \<Rightarrow> False)"

definition rsm_canRenderGPU :: "RuntimeStateMachine \<Rightarrow> bool" where
  "rsm_canRenderGPU m = (case rsm_state m of
     RUNNING \<Rightarrow> True | DEGRADED \<Rightarrow> True | INSPECT \<Rightarrow> True
   | PAUSED \<Rightarrow> False | RECOVERING \<Rightarrow> False
   | EMERGENCY_STOP \<Rightarrow> False | SHUTDOWN \<Rightarrow> False | INIT \<Rightarrow> False)"

definition rsm_canScheduleFrame :: "RuntimeStateMachine \<Rightarrow> bool" where
  "rsm_canScheduleFrame m = (case rsm_state m of
     RUNNING \<Rightarrow> True | DEGRADED \<Rightarrow> True | RECOVERING \<Rightarrow> True | INSPECT \<Rightarrow> True
   | PAUSED \<Rightarrow> False
   | EMERGENCY_STOP \<Rightarrow> False | SHUTDOWN \<Rightarrow> False | INIT \<Rightarrow> False)"

definition rsm_canUpdatePolicy :: "RuntimeStateMachine \<Rightarrow> bool" where
  "rsm_canUpdatePolicy m = (case rsm_state m of
     RUNNING \<Rightarrow> True | DEGRADED \<Rightarrow> True
   | RECOVERING \<Rightarrow> False | INSPECT \<Rightarrow> False | PAUSED \<Rightarrow> False
   | EMERGENCY_STOP \<Rightarrow> False | SHUTDOWN \<Rightarrow> False | INIT \<Rightarrow> False)"

definition rsm_canWriteDecision :: "RuntimeStateMachine \<Rightarrow> bool" where
  "rsm_canWriteDecision m = (case rsm_state m of
     RUNNING \<Rightarrow> True | DEGRADED \<Rightarrow> True
   | INSPECT \<Rightarrow> False | PAUSED \<Rightarrow> False | RECOVERING \<Rightarrow> False
   | EMERGENCY_STOP \<Rightarrow> False | SHUTDOWN \<Rightarrow> False | INIT \<Rightarrow> False)"

definition rsm_getCurrentStateName :: "RuntimeStateMachine \<Rightarrow> string" where
  "rsm_getCurrentStateName m = rsm_state_name m"

definition rsm_getLastTransitionReason :: "RuntimeStateMachine \<Rightarrow> string" where
  "rsm_getLastTransitionReason m = rsm_last_reason m"

definition rsm_registerStateChangeCallback :: "RuntimeStateMachine \<Rightarrow> nat \<Rightarrow> RuntimeStateMachine" where
  "rsm_registerStateChangeCallback m cb = m\<lparr>rsm_callbacks := rsm_callbacks m @ [cb]\<rparr>"

definition rsm_getStateChangeCount :: "RuntimeStateMachine \<Rightarrow> u64" where
  "rsm_getStateChangeCount m = rsm_state_change_count m"

section \<open>Requests follow the transition table\<close>

lemma rsm_transition_eq:
  "rsm_transition m t r =
     (if rsm_isValidTransition (rsm_state m) t
      then (True, m\<lparr>rsm_state := t, rsm_state_name := STATE_NAMES ! RuntimeState_index t,
              rsm_last_reason := r, rsm_state_change_count := rsm_state_change_count m + 1\<rparr>)
      else (False, m))"
  by (simp add: rsm_transition_def rsm_transition_trace_def Let_def)

interpretation rsm: guarded_machine rsm_isValidTransition rsm_state rsm_transition
  by unfold_locales (simp_all add: rsm_transition_eq)

definition rsm_run :: "RuntimeStateMachine \<Rightarrow> (RuntimeState \<times> string) list \<Rightarrow> RuntimeStateMachine" where
  "rsm_run = run_requests rsm_transition"

text \<open>Everything a client can do to the machine, as one step relation.\<close>

inductive rsm_step :: "RuntimeStateMachine \<Rightarrow> RuntimeStateMachine \<Rightarrow> bool" where
  initialize: "rsm_step m (rsm_initialize m)"
| shutdown: "rsm_step m (rsm_shutdown m)"
| transition: "rsm_step m (snd (rsm_transition m t r))"
| callback: "rsm_step m (rsm_registerStateChangeCallback m cb)"

inductive_cases rsm_stepE: "rsm_step m m'"

definition rsm_inv :: "RuntimeStateMachine \<Rightarrow> bool" where
  "rsm_inv m \<longleftrightarrow> rsm_state_name m = STATE_NAMES ! RuntimeState_index (rsm_state m)"

lemma rsm_inv_new: "rsm_inv rsm_new"
  by (simp add: rsm_inv_def rsm_new_def STATE_NAMES_def)

lemma rsm_step_inv: "rsm_step m m' \<Longrightarrow> rsm_inv m \<Longrightarrow> rsm_inv m'"
  by (erule rsm_stepE)
     (auto simp: rsm_inv_def rsm_initialize_def rsm_shutdown_def rsm_transition_eq
        rsm_registerStateChangeCallback_def)

lemma rsm_reachable_inv: "rsm_step\<^sup>*\<^sup>* rsm_new m \<Longrightarrow> rsm_inv m"
  by (induction rule: rtranclp_induct) (auto intro: rsm_inv_new rsm_step_inv)

lemma STATE_NAMES_inj: "STATE_NAMES ! RuntimeState_index s = STATE_NAMES ! RuntimeState_index t \<Longrightarrow> s = t"
  by (cases s; cases t) (simp_all add: STATE_NAMES_def)

lemma rsm_run_count:
  "rsm_state_change_count (rsm_run m reqs) = rsm_state_change_count m + of_nat (accepted rsm_transition m reqs)"
  unfolding rsm_run_def
  by (induction rsm_transition m reqs rule: accepted.induct) (auto simp: rsm_transition_eq algebra_simps)

lemma rsm_valid_to_running:
  "s \<noteq> SHUTDOWN \<Longrightarrow> s \<noteq> RUNNING \<Longrightarrow> s \<noteq> EMERGENCY_STOP \<Longrightarrow> rsm_isValidTransition s RUNNING"
  by (cases s) auto

lemma rsm_into_recovering: "rsm_isValidTransition s RECOVERING \<Longrightarrow> s = PAUSED \<or> s = EMERGENCY_STOP"
  by (cases s) auto

lemma rsm_never_init: "\<not> rsm_isValidTransition s INIT"
  by (cases s) auto

lemma rsm_closure:
  "rsm_isValidTransition\<^sup>*\<^sup>* s t \<longleftrightarrow> t = s \<or> s \<noteq> SHUTDOWN \<and> t \<noteq> INIT"
proof
  assume "rsm_isValidTransition\<^sup>*\<^sup>* s t"
  then show "t = s \<or> s \<noteq> SHUTDOWN \<and> t \<noteq> INIT"
    by (induction rule: rtranclp_induct) (auto simp: rsm_never_init)
next
  assume t: "t = s \<or> s \<noteq> SHUTDOWN \<and> t \<noteq> INIT"
  show "rsm_isValidTransition\<^sup>*\<^sup>* s t"
  proof (cases "t = s")
    case False
    with t have s: "s \<noteq> SHUTDOWN" and ti: "t \<noteq> INIT" by auto
    have step: "rsm_isValidTransition x y \<Longrightarrow> rsm_isValidTransition\<^sup>*\<^sup>* x y" for x y
      by (rule r_into_rtranclp)
    have two: "rsm_isValidTransition x y \<Longrightarrow> rsm_isValidTransition y z \<Longrightarrow>
        rsm_isValidTransition\<^sup>*\<^sup>* x z" for x y z
      by (rule converse_rtranclp_into_rtranclp, assumption, rule step)
    have "rsm_isValidTransition\<^sup>*\<^sup>* s RUNNING"
    proof -
      consider "s = RUNNING" | "s = EMERGENCY_STOP" | "rsm_isValidTransition s RUNNING"
        using rsm_valid_to_running [OF s] by blast
      then show ?thesis
        by cases (simp, rule two [of _ RECOVERING], simp_all add: step)
    qed
    moreover have "rsm_isValidTransition\<^sup>*\<^sup>* RUNNING t"
    proof -
      consider "t = RUNNING" | "t = RECOVERING" | "rsm_isValidTransition RUNNING t"
        using ti by (cases t) simp_all
      then show ?thesis
        by cases (simp, rule two [of _ PAUSED], simp_all add: step)
    qed
    ultimately show ?thesis by (rule rtranclp_trans)
  qed simp
qed

section \<open>Properties\<close>

text \<open>C16: The states that a sequence of transition requests can bring the runtime to: from every
  state but SHUTDOWN all states except INIT can be reached; SHUTDOWN can only be kept; nothing
  returns to INIT.\<close>

theorem rsm_reachable_states:
  "(\<exists>reqs. rsm_state (rsm_run m reqs) = t) \<longleftrightarrow>
   t = rsm_state m \<or> (rsm_state m \<noteq> SHUTDOWN \<and> t \<noteq> INIT)"
  unfolding rsm_run_def rsm.reachable_iff by (rule rsm_closure)

text \<open>In every machine reachable through the public operations the published state name is the
  name of the state, and the capabilities form a hierarchy: what may run the AI may render and
  schedule frames, policies and decisions may be written exactly when the AI may run, which is
  exactly when the runtime is healthy, and RECOVERING is the only state that schedules frames
  without rendering them.\<close>

theorem rsm_capabilities:
  assumes "rsm_step\<^sup>*\<^sup>* rsm_new m"
  shows "rsm_getCurrentStateName m = STATE_NAMES ! RuntimeState_index (rsm_current m) \<and>
    rsm_canRunAI m = rsm_isHealthy m \<and>
    rsm_canUpdatePolicy m = rsm_canRunAI m \<and>
    rsm_canWriteDecision m = rsm_canRunAI m \<and>
    (rsm_canRunAI m \<longrightarrow> rsm_canRenderGPU m) \<and>
    (rsm_canRenderGPU m \<longrightarrow> rsm_canScheduleFrame m) \<and>
    (rsm_canScheduleFrame m \<and> \<not> rsm_canRenderGPU m) = (rsm_getCurrentStateName m = ''RECOVERING'')"
proof -
  have "rsm_state_name m = STATE_NAMES ! RuntimeState_index (rsm_state m)"
    using rsm_reachable_inv [OF assms] by (simp add: rsm_inv_def)
  then show ?thesis
    by (cases "rsm_state m") (simp_all add: STATE_NAMES_def rsm_getCurrentStateName_def rsm_current_def
        rsm_canRunAI_def rsm_isHealthy_def rsm_canUpdatePolicy_def rsm_canWriteDecision_def
        rsm_canRenderGPU_def rsm_canScheduleFrame_def)
qed

lemma rsm_capabilities_witness:
  "rsm_canRunAI (snd (rsm_transition rsm_new RUNNING ''start'')) =
   rsm_isHealthy (snd (rsm_transition rsm_new RUNNING ''start''))"
  by (rule rsm_capabilities [THEN conjunct2, THEN conjunct1]) (auto intro: rsm_step.transition)

text \<open>A runtime that stands in RECOVERING after any requests, and did not start there, passed
  through PAUSED or EMERGENCY_STOP on the way; the change counter counts the accepted requests
  (modulo its 64 bits).\<close>

theorem rsm_recovering_entry:
  assumes "rsm_state m \<noteq> RECOVERING" and "rsm_state (rsm_run m reqs) = RECOVERING"
  shows "(\<exists>pre post. reqs = pre @ post \<and> rsm_state (rsm_run m pre) \<in> {PAUSED, EMERGENCY_STOP}) \<and>
         rsm_getStateChangeCount (rsm_run m reqs) =
         rsm_getStateChangeCount m + of_nat (accepted rsm_transition m reqs)"
  using rsm.entered_from [of RECOVERING "\<lambda>s. s \<in> {PAUSED, EMERGENCY_STOP}" m reqs] assms
  by (auto simp: rsm_run_def rsm_getStateChangeCount_def rsm_run_count [unfolded rsm_run_def]
      dest: rsm_into_recovering)

lemma rsm_recovering_entry_witness:
  "\<exists>pre post. [(RUNNING, ''a''), (PAUSED, ''b''), (RECOVERING, ''c'')] = pre @ post \<and>
     rsm_state (rsm_run rsm_new pre) \<in> {PAUSED, EMERGENCY_STOP}"
  by (rule rsm_recovering_entry [THEN conjunct1]) (simp_all add: rsm_new_def rsm_run_def rsm_transition_eq)

end
