(* ===== verification/Reader_State_Machine.thy ===== *)
theory Reader_State_Machine
  imports Guarded_Machine
begin

text \<open>
  \<open>server/reader_runtime/reader_state_machine.\{h,cpp\}\<close>: the lifecycle of one RFID reader. The time
  stamp of a transition is the constant 0 in the code. The first read of \<open>getLastTransition\<close> before
  any transition sees an uninitialised struct in C++; the model gives it the value-initialised one.
\<close>

datatype ReaderState =
  OFFLINE | BOOTING | INITIALIZING | ONLINE | DEGRADED | MAINTENANCE | ERROR | SHUTDOWN

record StateTransition =
  st_from :: ReaderState
  st_to :: ReaderState
  st_timestamp :: u64
  st_reason :: string

record ReaderStateMachine =
  rd_current_state :: ReaderState
  rd_last_transition :: StateTransition

definition rd_new :: ReaderStateMachine where
  "rd_new = \<lparr>rd_current_state = OFFLINE,
     rd_last_transition = \<lparr>st_from = OFFLINE, st_to = OFFLINE, st_timestamp = 0, st_reason = ''''\<rparr>\<rparr>"

fun rd_isValidTransition :: "ReaderState \<Rightarrow> ReaderState \<Rightarrow> bool" where
  "rd_isValidTransition OFFLINE t = (t = BOOTING)"
| "rd_isValidTransition BOOTING t = (t = INITIALIZING \<or> t = ERROR)"
| "rd_isValidTransition INITIALIZING t = (t = ONLINE \<or> t = ERROR)"
| "rd_isValidTransition ONLINE t = (t = DEGRADED \<or> t = MAINTENANCE \<or> t = SHUTDOWN)"
| "rd_isValidTransition DEGRADED t = (t = ONLINE \<or> t = MAINTENANCE \<or> t = ERROR)"
| "rd_isValidTransition MAINTENANCE t = (t = ONLINE \<or> t = SHUTDOWN)"
| "rd_isValidTransition ERROR t = (t = BOOTING \<or> t = SHUTDOWN)"
| "rd_isValidTransition SHUTDOWN t = (t = BOOTING)"

definition rd_transition :: "ReaderStateMachine \<Rightarrow> ReaderState \<Rightarrow> string \<Rightarrow> bool \<times> ReaderStateMachine" where
  "rd_transition m new_state reason =
     (if \<not> rd_isValidTransition (rd_current_state m) new_state then (False, m)
      else (True, m\<lparr>rd_last_transition := \<lparr>st_from = rd_current_state m, st_to = new_state,
                       st_timestamp = 0, st_reason = reason\<rparr>,
                     rd_current_state := new_state\<rparr>))"

definition rd_getCurrentState :: "ReaderStateMachine \<Rightarrow> ReaderState" where
  "rd_getCurrentState m = rd_current_state m"

definition rd_isOnline :: "ReaderStateMachine \<Rightarrow> bool" where
  "rd_isOnline m \<longleftrightarrow> rd_current_state m = ONLINE \<or> rd_current_state m = DEGRADED"

definition rd_isHealthy :: "ReaderStateMachine \<Rightarrow> bool" where
  "rd_isHealthy m \<longleftrightarrow> rd_current_state m = ONLINE"

definition rd_getLastTransition :: "ReaderStateMachine \<Rightarrow> StateTransition" where
  "rd_getLastTransition m = rd_last_transition m"

definition rd_reset :: "ReaderStateMachine \<Rightarrow> ReaderStateMachine" where
  "rd_reset m = m\<lparr>rd_current_state := OFFLINE\<rparr>"

interpretation rd: guarded_machine rd_isValidTransition rd_current_state rd_transition
  by unfold_locales (simp_all add: rd_transition_def)

definition rd_run :: "ReaderStateMachine \<Rightarrow> (ReaderState \<times> string) list \<Rightarrow> ReaderStateMachine" where
  "rd_run = run_requests rd_transition"

text \<open>The shortest way up takes three accepted requests.\<close>

lemma rd_bring_up:
  "rd_current_state m = OFFLINE \<Longrightarrow>
   rd_current_state (rd_run m [(BOOTING, a), (INITIALIZING, b), (ONLINE, c)]) = ONLINE"
  by (simp add: rd_run_def rd_transition_def)

text \<open>
  How far a reader is from being on line: every accepted request lowers this count by one at most.
\<close>

fun rd_distance :: "ReaderState \<Rightarrow> nat" where
  "rd_distance ONLINE = 0"
| "rd_distance DEGRADED = 1"
| "rd_distance MAINTENANCE = 1"
| "rd_distance INITIALIZING = 1"
| "rd_distance BOOTING = 2"
| "rd_distance OFFLINE = 3"
| "rd_distance ERROR = 3"
| "rd_distance SHUTDOWN = 3"

lemma rd_valid_distance: "rd_isValidTransition s t \<Longrightarrow> rd_distance s \<le> Suc (rd_distance t)"
  by (cases s; cases t) auto

lemma rd_run_distance:
  "rd_distance (rd_current_state m) \<le>
   accepted rd_transition m reqs + rd_distance (rd_current_state (rd_run m reqs))"
  unfolding rd_run_def
proof (induction reqs arbitrary: m)
  case Nil
  then show ?case by simp
next
  case (Cons a reqs)
  obtain t r where a: "a = (t, r)" by (cases a)
  show ?case
    using Cons.IH [of "snd (rd_transition m t r)"] rd_valid_distance [of "rd_current_state m" t]
    by (auto simp: a rd_transition_def)
qed

lemma rd_step_towards:
  "s \<noteq> ONLINE \<Longrightarrow> \<exists>t. rd_isValidTransition s t \<and> rd_distance s = Suc (rd_distance t)"
  by (cases s) (auto intro: exI [of _ BOOTING] exI [of _ INITIALIZING] exI [of _ ONLINE])

lemma rd_online_exists:
  "\<exists>reqs. rd_current_state (rd_run m reqs) = ONLINE \<and> length reqs = rd_distance (rd_current_state m)"
proof (induction "rd_distance (rd_current_state m)" arbitrary: m)
  case 0
  then show ?case
    by (cases "rd_current_state m") (auto intro: exI [of _ "[]"] simp: rd_run_def)
next
  case (Suc n)
  then have "rd_current_state m \<noteq> ONLINE" by auto
  then obtain t where t: "rd_isValidTransition (rd_current_state m) t"
      "rd_distance (rd_current_state m) = Suc (rd_distance t)"
    using rd_step_towards by blast
  let ?m = "snd (rd_transition m t '''')"
  have m: "rd_current_state ?m = t" using t by (simp add: rd_transition_def)
  with Suc(2) t(2) have "n = rd_distance (rd_current_state ?m)" by simp
  from Suc(1) [OF this] obtain reqs where
    "rd_current_state (rd_run ?m reqs) = ONLINE \<and> length reqs = rd_distance (rd_current_state ?m)"
    by blast
  with t m show ?case
    by (intro exI [of _ "(t, '''') # reqs"]) (simp add: rd_run_def)
qed

section \<open>Properties\<close>

text \<open>A reader can always be brought on line: from every state some sequence of requests ends in
  ONLINE, no sequence with fewer accepted requests than the distance of the state does, and the
  distance (at most three) is attained.\<close>

theorem rd_online_distance:
  "(\<exists>reqs. rd_isHealthy (rd_run m reqs) \<and> length reqs = rd_distance (rd_getCurrentState m)) \<and>
   (rd_isHealthy (rd_run m reqs) \<longrightarrow>
      rd_distance (rd_getCurrentState m) \<le> accepted rd_transition m reqs)"
  using rd_online_exists [of m] rd_run_distance [of m reqs]
  by (auto simp: rd_isHealthy_def rd_getCurrentState_def)

lemma rd_online_distance_witness:
  "rd_distance (rd_getCurrentState rd_new) \<le>
   accepted rd_transition rd_new [(BOOTING, ''''), (INITIALIZING, ''''), (ONLINE, '''')]"
  by (rule rd_online_distance [THEN conjunct2, rule_format])
    (simp add: rd_isHealthy_def rd_new_def rd_run_def rd_transition_def)

end
