(* ===== verification/Event_Log.thy ===== *)
theory Event_Log
  imports Base
begin

text \<open>
  The contract shared by the event stores of the runtime (\<open>RuntimeFailureBus\<close>, \<open>RuntimeEventBus\<close>):
  a vector of recent events that drops its oldest element when it is full, and a counter per event
  kind that \<open>publish\<close> increments. Both buses interpret the locales.
\<close>

definition publish_all :: "('a \<Rightarrow> 's \<Rightarrow> 's) \<Rightarrow> 's \<Rightarrow> 'a list \<Rightarrow> 's" where
  "publish_all publish s xs = foldl (\<lambda>s x. publish x s) s xs"

lemma publish_all_simps [simp]:
  "publish_all publish s [] = s"
  "publish_all publish s (x # xs) = publish_all publish (publish x s) xs"
  by (simp_all add: publish_all_def)

locale event_log =
  fixes entries :: "'s \<Rightarrow> 'e list"
    and publish :: "'a \<Rightarrow> 's \<Rightarrow> 's"
    and stamp :: "'a \<Rightarrow> 'e"
    and cap :: nat
  assumes cap_pos: "0 < cap"
    and publish_entries: "entries (publish a s) = bounded_push cap (entries s) (stamp a)"
begin

lemma publish_bounded: "length (entries s) \<le> cap \<Longrightarrow> length (entries (publish a s)) \<le> cap"
  by (simp add: publish_entries cap_pos length_bounded_push)

lemma publish_last [simp]: "last (entries (publish a s)) = stamp a"
  by (simp add: publish_entries bounded_push_def)

lemma publish_all_entries_from:
  "entries s = last_n cap old \<Longrightarrow>
   entries (publish_all publish s xs) = last_n cap (old @ map stamp xs)"
proof (induction xs arbitrary: s old)
  case Nil
  then show ?case by simp
next
  case (Cons x xs)
  have "entries (publish x s) = last_n cap (old @ [stamp x])"
    using Cons.prems by (simp add: publish_entries bounded_push_last_n cap_pos)
  from Cons.IH [OF this] show ?case by simp
qed

lemma publish_all_entries:
  "entries s = [] \<Longrightarrow> entries (publish_all publish s xs) = last_n cap (map stamp xs)"
  using publish_all_entries_from [of s "[]" xs] by (simp add: last_n_def)

lemma publish_all_bounded:
  "length (entries s) \<le> cap \<Longrightarrow> length (entries (publish_all publish s xs)) \<le> cap"
  by (induction xs arbitrary: s) (auto intro: publish_bounded)

end

text \<open>With counters: one word per kind, which wraps as the \<open>atomic<size_t>\<close> does.\<close>

locale counted_event_log = event_log entries publish stamp cap
  for entries :: "'s \<Rightarrow> 'e list" and publish :: "'a \<Rightarrow> 's \<Rightarrow> 's" and stamp :: "'a \<Rightarrow> 'e" and cap :: nat +
  fixes kind :: "'e \<Rightarrow> 'k"
    and tally :: "'s \<Rightarrow> 'k \<Rightarrow> u64"
  assumes publish_tally: "tally (publish a s) k = tally s k + (if kind (stamp a) = k then 1 else 0)"
begin

lemma publish_all_tally:
  "tally (publish_all publish s xs) k =
   tally s k + of_nat (length (filter (\<lambda>x. kind (stamp x) = k) xs))"
  by (induction xs arbitrary: s) (auto simp: publish_tally algebra_simps)

end

end
