(* ===== verification/Failure_Bus.thy ===== *)
theory Failure_Bus
  imports Event_Log Complex_Main
begin

text \<open>
  \<open>server/runtime/runtime_failure_bus.\{h,cpp\}\<close>: the store of recent failures. The eleven atomic
  counters are a function on the array index. Callbacks run while the bus mutex is held and their
  exceptions are swallowed: \<open>fb_publish_trace\<close> also returns the calls made, in order.
\<close>

datatype FailureType =
    FRAME_HASH_MISMATCH | GPU_OVERRUN | AI_CONVERGENCE_COLLAPSE | REPLAY_DESYNC | FACTORY_DESYNC
  | POLICY_CORRUPTION | MEMORY_LEAK_DETECTED | NETWORK_TIMEOUT | SPATIAL_LOCALIZATION_DRIFT | UNKNOWN

fun FailureType_index :: "FailureType \<Rightarrow> nat" where
  "FailureType_index FRAME_HASH_MISMATCH = 0"
| "FailureType_index GPU_OVERRUN = 1"
| "FailureType_index AI_CONVERGENCE_COLLAPSE = 2"
| "FailureType_index REPLAY_DESYNC = 3"
| "FailureType_index FACTORY_DESYNC = 4"
| "FailureType_index POLICY_CORRUPTION = 5"
| "FailureType_index MEMORY_LEAK_DETECTED = 6"
| "FailureType_index NETWORK_TIMEOUT = 7"
| "FailureType_index SPATIAL_LOCALIZATION_DRIFT = 8"
| "FailureType_index UNKNOWN = 9"

record FailureEvent =
  fe_type :: FailureType
  fe_frame_id :: u64
  fe_timestamp :: u64
  fe_message :: string
  fe_severity :: real
  fe_acknowledged :: bool
  fe_tag_id :: "string option"
  fe_error_value :: "real option"
  fe_threshold :: "real option"

text \<open>The default constructor of \<open>FailureEvent\<close>.\<close>

definition fe_default :: FailureEvent where
  "fe_default = \<lparr>fe_type = UNKNOWN, fe_frame_id = 0, fe_timestamp = 0, fe_message = '''',
     fe_severity = 0, fe_acknowledged = False, fe_tag_id = None, fe_error_value = None,
     fe_threshold = None\<rparr>"

definition MAX_RECENT_FAILURES :: nat where
  "MAX_RECENT_FAILURES = 500"

definition CRITICAL_SEVERITY_THRESHOLD :: real where
  "CRITICAL_SEVERITY_THRESHOLD = 8 / 10"

record RuntimeFailureBus =
  fb_recent_failures :: "FailureEvent list"
  fb_callbacks :: "nat list"
  fb_failure_counts :: "nat \<Rightarrow> u64"
  fb_has_critical :: bool

definition fb_new :: RuntimeFailureBus where
  "fb_new = \<lparr>fb_recent_failures = [], fb_callbacks = [], fb_failure_counts = (\<lambda>_. 0),
     fb_has_critical = False\<rparr>"

definition fb_initialize :: "RuntimeFailureBus \<Rightarrow> RuntimeFailureBus" where
  "fb_initialize b = b\<lparr>fb_recent_failures := [], fb_has_critical := False,
     fb_failure_counts := (\<lambda>i. if i < 11 then 0 else fb_failure_counts b i)\<rparr>"

definition fb_shutdown :: "RuntimeFailureBus \<Rightarrow> RuntimeFailureBus" where
  "fb_shutdown b = b\<lparr>fb_recent_failures := [], fb_callbacks := []\<rparr>"

definition fb_publish_trace ::
  "FailureEvent \<Rightarrow> u64 \<Rightarrow> RuntimeFailureBus \<Rightarrow> RuntimeFailureBus \<times> (nat \<times> FailureEvent) list" where
  "fb_publish_trace event now b =
     (let e = event\<lparr>fe_timestamp := now\<rparr>;
          recent = bounded_push MAX_RECENT_FAILURES (fb_recent_failures b) e;
          i = FailureType_index (fe_type e);
          counts = (if i < 11 then (fb_failure_counts b)(i := fb_failure_counts b i + 1)
                    else fb_failure_counts b);
          crit = (if fe_severity e \<ge> CRITICAL_SEVERITY_THRESHOLD then True else fb_has_critical b)
      in (b\<lparr>fb_recent_failures := recent, fb_failure_counts := counts, fb_has_critical := crit\<rparr>,
          map (\<lambda>cb. (cb, e)) (fb_callbacks b)))"

definition fb_publish :: "FailureEvent \<times> u64 \<Rightarrow> RuntimeFailureBus \<Rightarrow> RuntimeFailureBus" where
  "fb_publish a b = (case a of (event, now) \<Rightarrow> fst (fb_publish_trace event now b))"

definition fb_unacked_critical :: "FailureEvent \<Rightarrow> bool" where
  "fb_unacked_critical f \<longleftrightarrow> \<not> fe_acknowledged f \<and> fe_severity f \<ge> CRITICAL_SEVERITY_THRESHOLD"

definition fb_acknowledge :: "FailureType \<Rightarrow> u64 \<Rightarrow> RuntimeFailureBus \<Rightarrow> RuntimeFailureBus" where
  "fb_acknowledge ty frameId b =
     (let recent = map (\<lambda>f. if fe_type f = ty \<and> fe_frame_id f = frameId
                            then f\<lparr>fe_acknowledged := True\<rparr> else f) (fb_recent_failures b)
      in b\<lparr>fb_recent_failures := recent,
           fb_has_critical := list_ex fb_unacked_critical recent\<rparr>)"

text \<open>
  \<open>getRecent(int n)\<close>: \<open>n\<close> is compared as an \<open>int\<close> and then subtracted from a \<open>size_t\<close>, which wraps
  for a negative \<open>n\<close>.
\<close>

definition fb_getRecent :: "RuntimeFailureBus \<Rightarrow> int \<Rightarrow> FailureEvent list" where
  "fb_getRecent b n =
     (let size = length (fb_recent_failures b);
          start = (if n \<ge> int size then 0 else unat (of_nat size - of_int n :: u64))
      in drop start (fb_recent_failures b))"

definition fb_getUnacknowledged :: "RuntimeFailureBus \<Rightarrow> FailureEvent list" where
  "fb_getUnacknowledged b = filter (\<lambda>f. \<not> fe_acknowledged f) (fb_recent_failures b)"

definition fb_hasCriticalFailure :: "RuntimeFailureBus \<Rightarrow> bool" where
  "fb_hasCriticalFailure b = fb_has_critical b"

definition fb_getFailureCount :: "RuntimeFailureBus \<Rightarrow> FailureType \<Rightarrow> u64" where
  "fb_getFailureCount b ty =
     (if FailureType_index ty < 11 then fb_failure_counts b (FailureType_index ty) else 0)"

definition fb_getTotalFailureCount :: "RuntimeFailureBus \<Rightarrow> u64" where
  "fb_getTotalFailureCount b = foldl (\<lambda>total i. total + fb_failure_counts b i) 0 [0..<11]"

definition fb_clear :: "RuntimeFailureBus \<Rightarrow> RuntimeFailureBus" where
  "fb_clear b = b\<lparr>fb_recent_failures := [], fb_has_critical := False\<rparr>"

definition fb_registerFailureCallback :: "nat \<Rightarrow> RuntimeFailureBus \<Rightarrow> RuntimeFailureBus" where
  "fb_registerFailureCallback cb b = b\<lparr>fb_callbacks := fb_callbacks b @ [cb]\<rparr>"

section \<open>The bus is a counted event log\<close>

lemma FailureType_index_bound [simp]: "FailureType_index t < 11"
  by (cases t) auto

lemma FailureType_index_inj [simp]: "FailureType_index s = FailureType_index t \<longleftrightarrow> s = t"
  by (cases s; cases t) auto

lemma fb_publish_fields [simp]:
  "fb_recent_failures (fb_publish (e, now) b) =
     bounded_push MAX_RECENT_FAILURES (fb_recent_failures b) (e\<lparr>fe_timestamp := now\<rparr>)"
  "fb_failure_counts (fb_publish (e, now) b) =
     (fb_failure_counts b)(FailureType_index (fe_type e) :=
        fb_failure_counts b (FailureType_index (fe_type e)) + 1)"
  "fb_has_critical (fb_publish (e, now) b) =
     (fe_severity e \<ge> CRITICAL_SEVERITY_THRESHOLD \<or> fb_has_critical b)"
  by (simp_all add: fb_publish_def fb_publish_trace_def Let_def)

definition fb_stamp :: "FailureEvent \<times> u64 \<Rightarrow> FailureEvent" where
  "fb_stamp a = (fst a)\<lparr>fe_timestamp := snd a\<rparr>"

interpretation fb: counted_event_log fb_recent_failures fb_publish fb_stamp MAX_RECENT_FAILURES
    fe_type fb_getFailureCount
proof
  show "0 < MAX_RECENT_FAILURES" by (simp add: MAX_RECENT_FAILURES_def)
  fix a b k
  show "fb_recent_failures (fb_publish a b) =
      bounded_push MAX_RECENT_FAILURES (fb_recent_failures b) (fb_stamp a)"
    by (cases a) (simp add: fb_stamp_def)
  show "fb_getFailureCount (fb_publish a b) k =
      fb_getFailureCount b k + (if fe_type (fb_stamp a) = k then 1 else 0)"
    by (cases a) (auto simp: fb_getFailureCount_def fb_stamp_def)
qed

section \<open>What the critical flag says\<close>

definition fb_crit_inv :: "RuntimeFailureBus \<Rightarrow> bool" where
  "fb_crit_inv b \<longleftrightarrow>
     length (fb_recent_failures b) \<le> MAX_RECENT_FAILURES \<and>
     (list_ex fb_unacked_critical (fb_recent_failures b) \<longrightarrow> fb_has_critical b)"

inductive fb_step :: "RuntimeFailureBus \<Rightarrow> RuntimeFailureBus \<Rightarrow> bool" where
  initialize: "fb_step b (fb_initialize b)"
| shutdown: "fb_step b (fb_shutdown b)"
| publish: "fb_step b (fb_publish (e, now) b)"
| acknowledge: "fb_step b (fb_acknowledge ty frameId b)"
| clear: "fb_step b (fb_clear b)"
| register: "fb_step b (fb_registerFailureCallback cb b)"

inductive_cases fb_stepE: "fb_step b b'"

lemma fb_publish_crit_inv: "fb_crit_inv b \<Longrightarrow> fb_crit_inv (fb_publish (e, now) b)"
proof -
  assume inv: "fb_crit_inv b"
  have bound: "length (fb_recent_failures (fb_publish (e, now) b)) \<le> MAX_RECENT_FAILURES"
    using inv by (intro fb.publish_bounded) (simp add: fb_crit_inv_def)
  have "list_ex fb_unacked_critical (fb_recent_failures (fb_publish (e, now) b)) \<Longrightarrow>
      list_ex fb_unacked_critical (fb_recent_failures b) \<or> fb_unacked_critical (e\<lparr>fe_timestamp := now\<rparr>)"
    by (auto simp: bounded_push_def list_ex_iff dest: list.set_sel(2) split: if_splits)
      (metis list.sel(2) list.set_sel(2))
  with inv bound show ?thesis
    by (auto simp: fb_crit_inv_def fb_unacked_critical_def)
qed

lemma fb_other_crit_inv:
  "fb_crit_inv b \<Longrightarrow> fb_crit_inv (fb_initialize b)"
  "fb_crit_inv b \<Longrightarrow> fb_crit_inv (fb_shutdown b)"
  "fb_crit_inv b \<Longrightarrow> fb_crit_inv (fb_acknowledge ty frameId b)"
  "fb_crit_inv b \<Longrightarrow> fb_crit_inv (fb_clear b)"
  "fb_crit_inv b \<Longrightarrow> fb_crit_inv (fb_registerFailureCallback cb b)"
  by (simp_all add: fb_crit_inv_def fb_initialize_def fb_shutdown_def fb_acknowledge_def
      fb_clear_def fb_registerFailureCallback_def Let_def)

lemma fb_step_crit_inv: "fb_step b b' \<Longrightarrow> fb_crit_inv b \<Longrightarrow> fb_crit_inv b'"
  by (erule fb_stepE) (simp_all only: fb_publish_crit_inv fb_other_crit_inv)

lemma fb_reachable_crit_inv: "fb_step\<^sup>*\<^sup>* fb_new b \<Longrightarrow> fb_crit_inv b"
proof (induction rule: rtranclp_induct)
  case base
  show ?case by (simp add: fb_crit_inv_def fb_new_def)
next
  case (step b c)
  then show ?case by (blast intro: fb_step_crit_inv)
qed

lemma fb_has_critical_publish_all:
  "fb_has_critical (publish_all fb_publish b xs) \<longleftrightarrow>
   fb_has_critical b \<or> (\<exists>x \<in> set xs. fe_severity (fst x) \<ge> CRITICAL_SEVERITY_THRESHOLD)"
  by (induction xs arbitrary: b) auto

section \<open>Properties\<close>

text \<open>C17: After any sequence of publications on an initialised bus the retained failures are the last
  500 published ones, each stamped with its time of publication, in order; the counter of every
  failure type is the number of publications of that type modulo its width; and a critical
  failure is reported exactly when one was published.\<close>

theorem fb_publications:
  "fb_recent_failures (publish_all fb_publish (fb_initialize b) xs) =
     last_n MAX_RECENT_FAILURES (map fb_stamp xs) \<and>
   fb_getFailureCount (publish_all fb_publish (fb_initialize b) xs) ty =
     of_nat (length (filter (\<lambda>x. fe_type (fst x) = ty) xs)) \<and>
   fb_hasCriticalFailure (publish_all fb_publish (fb_initialize b) xs) =
     list_ex (\<lambda>x. fe_severity (fst x) \<ge> CRITICAL_SEVERITY_THRESHOLD) xs"
proof (intro conjI)
  show "fb_recent_failures (publish_all fb_publish (fb_initialize b) xs) =
      last_n MAX_RECENT_FAILURES (map fb_stamp xs)"
    by (rule fb.publish_all_entries) (simp add: fb_initialize_def)
  have [simp]: "fe_type (fb_stamp x) = fe_type (fst x)" for x by (simp add: fb_stamp_def)
  show "fb_getFailureCount (publish_all fb_publish (fb_initialize b) xs) ty =
      of_nat (length (filter (\<lambda>x. fe_type (fst x) = ty) xs))"
    unfolding fb.publish_all_tally by (simp add: fb_getFailureCount_def fb_initialize_def)
  show "fb_hasCriticalFailure (publish_all fb_publish (fb_initialize b) xs) =
      list_ex (\<lambda>x. fe_severity (fst x) \<ge> CRITICAL_SEVERITY_THRESHOLD) xs"
    unfolding fb_hasCriticalFailure_def fb_has_critical_publish_all
    by (simp add: fb_initialize_def list_ex_iff)
qed

text \<open>On every bus reachable through the public operations a retained critical failure that nobody
  acknowledged is reported by \<open>hasCriticalFailure\<close>, and an acknowledgement makes the report exact:
  afterwards it holds if and only if such a failure is retained.\<close>

theorem fb_critical_reported:
  assumes "fb_step\<^sup>*\<^sup>* fb_new b"
  shows "(list_ex (\<lambda>f. fe_severity f \<ge> CRITICAL_SEVERITY_THRESHOLD) (fb_getUnacknowledged b) \<longrightarrow>
          fb_hasCriticalFailure b) \<and>
         fb_hasCriticalFailure (fb_acknowledge ty frameId b) =
         list_ex (\<lambda>f. fe_severity f \<ge> CRITICAL_SEVERITY_THRESHOLD)
           (fb_getUnacknowledged (fb_acknowledge ty frameId b))"
  using fb_reachable_crit_inv [OF assms]
  by (auto simp: fb_crit_inv_def fb_acknowledge_def Let_def fb_hasCriticalFailure_def
      fb_getUnacknowledged_def list_ex_iff fb_unacked_critical_def)

definition fb_example :: RuntimeFailureBus where
  "fb_example = fb_publish (fe_default\<lparr>fe_severity := 1\<rparr>, 7) fb_new"

lemma fb_example_reachable: "fb_step\<^sup>*\<^sup>* fb_new fb_example"
  unfolding fb_example_def by (intro r_into_rtranclp fb_step.publish)

lemma fb_critical_reported_witness: "fb_hasCriticalFailure fb_example"
  by (rule fb_critical_reported [THEN conjunct1, rule_format, OF fb_example_reachable])
    (simp add: fb_example_def fb_getUnacknowledged_def fb_new_def bounded_push_def
      MAX_RECENT_FAILURES_def fe_default_def CRITICAL_SEVERITY_THRESHOLD_def)

lemma fb_flushed:
  assumes "fb_crit_inv b" "length xs = MAX_RECENT_FAILURES"
  shows "fb_recent_failures (publish_all fb_publish b xs) = map fb_stamp xs"
proof -
  have "fb_recent_failures b = last_n MAX_RECENT_FAILURES (fb_recent_failures b)"
    using assms(1) by (simp add: fb_crit_inv_def)
  from fb.publish_all_entries_from [OF this, of xs] assms(2) show ?thesis
    by (simp add: last_n_def)
qed

text \<open>The report outlives its cause: once 500 further failures below the threshold are published,
  no critical failure is retained, yet \<open>hasCriticalFailure\<close> still holds (only an acknowledgement, a
  clear or a restart resets it).\<close>

theorem fb_critical_outlives_entry:
  assumes "fb_step\<^sup>*\<^sup>* fb_new b" and "fb_hasCriticalFailure b" and "length xs = MAX_RECENT_FAILURES"
    and low: "\<forall>x \<in> set xs. fe_severity (fst x) < CRITICAL_SEVERITY_THRESHOLD"
  shows "fb_hasCriticalFailure (publish_all fb_publish b xs) \<and>
         \<not> list_ex fb_unacked_critical (fb_recent_failures (publish_all fb_publish b xs))"
  using assms fb_flushed [OF fb_reachable_crit_inv, of b xs]
  by (auto simp: fb_hasCriticalFailure_def fb_has_critical_publish_all list_ex_iff
      fb_unacked_critical_def fb_stamp_def dest!: bspec)

lemma fb_critical_outlives_entry_witness:
  "fb_hasCriticalFailure (publish_all fb_publish fb_example (replicate 500 (fe_default, 9))) \<and>
   \<not> list_ex fb_unacked_critical
       (fb_recent_failures (publish_all fb_publish fb_example (replicate 500 (fe_default, 9))))"
  by (rule fb_critical_outlives_entry [OF fb_example_reachable])
    (simp_all add: fb_example_def fb_hasCriticalFailure_def fb_new_def fe_default_def
      MAX_RECENT_FAILURES_def CRITICAL_SEVERITY_THRESHOLD_def)

end
