(* ===== verification/Event_Bus.thy ===== *)
theory Event_Bus
  imports Event_Log Complex_Main
begin

text \<open>
  \<open>server/runtime/runtime_event_bus.\{h,cpp\}\<close>: the store of recent runtime events. The two publishing
  entry points differ in the fields they fill; a callback runs while the bus mutex is held and its
  exceptions are swallowed, so a publication also returns the trace of calls. \<open>unsubscribe\<close> compares
  two \<open>std::function\<close> objects, which has no meaning in C++ (the method does not compile) and is not
  modelled.
\<close>

datatype RuntimeEventType =
    GPU_RESET | REPLAY_SEEK | FRAME_DROP | DECISION_MISMATCH | BANDIT_COLLAPSE | BUFFER_OVERFLOW
  | SUBSCRIBER_SLOW | BUDGET_WARNING | VRAM_WARNING | CONNECTION_LOST

fun RuntimeEventType_index :: "RuntimeEventType \<Rightarrow> nat" where
  "RuntimeEventType_index GPU_RESET = 0"
| "RuntimeEventType_index REPLAY_SEEK = 1"
| "RuntimeEventType_index FRAME_DROP = 2"
| "RuntimeEventType_index DECISION_MISMATCH = 3"
| "RuntimeEventType_index BANDIT_COLLAPSE = 4"
| "RuntimeEventType_index BUFFER_OVERFLOW = 5"
| "RuntimeEventType_index SUBSCRIBER_SLOW = 6"
| "RuntimeEventType_index BUDGET_WARNING = 7"
| "RuntimeEventType_index VRAM_WARNING = 8"
| "RuntimeEventType_index CONNECTION_LOST = 9"

record RuntimeEvent =
  ev_type :: RuntimeEventType
  ev_timestamp :: u64
  ev_frame_id :: u64
  ev_message :: string
  ev_value :: real

definition MAX_RECENT_EVENTS :: nat where
  "MAX_RECENT_EVENTS = 1000"

record RuntimeEventBus =
  eb_callbacks :: "nat list"
  eb_recent_events :: "RuntimeEvent list"
  eb_event_counts :: "nat \<Rightarrow> u64"

definition eb_new :: RuntimeEventBus where
  "eb_new = \<lparr>eb_callbacks = [], eb_recent_events = [], eb_event_counts = (\<lambda>_. 0)\<rparr>"

definition eb_initialize :: "RuntimeEventBus \<Rightarrow> RuntimeEventBus" where
  "eb_initialize b = b\<lparr>eb_recent_events := [],
     eb_event_counts := (\<lambda>i. if i < 10 then 0 else eb_event_counts b i)\<rparr>"

definition eb_shutdown :: "RuntimeEventBus \<Rightarrow> RuntimeEventBus" where
  "eb_shutdown b = b\<lparr>eb_callbacks := [], eb_recent_events := []\<rparr>"

definition eb_subscribe :: "nat \<Rightarrow> RuntimeEventBus \<Rightarrow> RuntimeEventBus" where
  "eb_subscribe cb b = b\<lparr>eb_callbacks := eb_callbacks b @ [cb]\<rparr>"

text \<open>The common tail of the two publishing methods: append, count, call.\<close>

definition eb_store :: "RuntimeEvent \<Rightarrow> RuntimeEventBus \<Rightarrow> RuntimeEventBus \<times> (nat \<times> RuntimeEvent) list" where
  "eb_store e b =
     (let i = RuntimeEventType_index (ev_type e) in
      (b\<lparr>eb_recent_events := bounded_push MAX_RECENT_EVENTS (eb_recent_events b) e,
         eb_event_counts := (eb_event_counts b)(i := eb_event_counts b i + 1)\<rparr>,
       map (\<lambda>cb. (cb, e)) (eb_callbacks b)))"

definition eb_publish_trace ::
  "RuntimeEventType \<Rightarrow> string \<Rightarrow> real \<Rightarrow> u64 \<Rightarrow> RuntimeEventBus \<Rightarrow>
   RuntimeEventBus \<times> (nat \<times> RuntimeEvent) list" where
  "eb_publish_trace ty message val now b =
     eb_store \<lparr>ev_type = ty, ev_timestamp = now, ev_frame_id = 0, ev_message = message,
               ev_value = val\<rparr> b"

definition eb_publishFrameEvent_trace ::
  "RuntimeEventType \<Rightarrow> u64 \<Rightarrow> string \<Rightarrow> u64 \<Rightarrow> RuntimeEventBus \<Rightarrow>
   RuntimeEventBus \<times> (nat \<times> RuntimeEvent) list" where
  "eb_publishFrameEvent_trace ty frameId message now b =
     eb_store \<lparr>ev_type = ty, ev_timestamp = now, ev_frame_id = frameId, ev_message = message,
               ev_value = 0\<rparr> b"

text \<open>
  \<open>getRecentEvents\<close>. The count is narrowed to \<open>int\<close> only when it is below the number of events, so
  the bound of 1000 events makes the narrowing exact.
\<close>

definition eb_getRecentEvents :: "RuntimeEventBus \<Rightarrow> nat \<Rightarrow> RuntimeEvent list" where
  "eb_getRecentEvents b n =
     (if n \<ge> length (eb_recent_events b) then eb_recent_events b
      else drop (length (eb_recent_events b) - n) (eb_recent_events b))"

definition eb_getEventCount :: "RuntimeEventBus \<Rightarrow> RuntimeEventType \<Rightarrow> u64" where
  "eb_getEventCount b ty = eb_event_counts b (RuntimeEventType_index ty)"

section \<open>The bus is a counted event log\<close>

text \<open>A call of either publishing method, as data.\<close>

datatype eb_call =
    Publish RuntimeEventType string real u64
  | PublishFrameEvent RuntimeEventType u64 string u64

fun eb_publish :: "eb_call \<Rightarrow> RuntimeEventBus \<Rightarrow> RuntimeEventBus" where
  "eb_publish (Publish ty message val now) b = fst (eb_publish_trace ty message val now b)"
| "eb_publish (PublishFrameEvent ty frameId message now) b =
     fst (eb_publishFrameEvent_trace ty frameId message now b)"

fun eb_event :: "eb_call \<Rightarrow> RuntimeEvent" where
  "eb_event (Publish ty message val now) =
     \<lparr>ev_type = ty, ev_timestamp = now, ev_frame_id = 0, ev_message = message, ev_value = val\<rparr>"
| "eb_event (PublishFrameEvent ty frameId message now) =
     \<lparr>ev_type = ty, ev_timestamp = now, ev_frame_id = frameId, ev_message = message, ev_value = 0\<rparr>"

lemma RuntimeEventType_index_inj [simp]:
  "RuntimeEventType_index s = RuntimeEventType_index t \<longleftrightarrow> s = t"
  by (cases s; cases t) auto

lemma eb_publish_store: "eb_publish a b = fst (eb_store (eb_event a) b)"
  by (cases a) (simp_all add: eb_publish_trace_def eb_publishFrameEvent_trace_def)

interpretation eb: counted_event_log eb_recent_events eb_publish eb_event MAX_RECENT_EVENTS
    ev_type eb_getEventCount
  by unfold_locales
    (auto simp: MAX_RECENT_EVENTS_def eb_publish_store eb_store_def eb_getEventCount_def Let_def)

lemma RuntimeEventType_index_bound [simp]: "RuntimeEventType_index t < 10"
  by (cases t) auto

lemma eb_getRecentEvents_last_n: "eb_getRecentEvents b n = last_n n (eb_recent_events b)"
  by (simp add: eb_getRecentEvents_def last_n_def)

lemma last_n_last_n: "last_n n (last_n m xs) = last_n (min n m) xs"
  by (cases "m \<le> length xs") (auto simp: last_n_def min_def add.commute intro: arg_cong [where f = "\<lambda>k. drop k xs"])

section \<open>Properties\<close>

text \<open>After any calls of the two publishing methods on an initialised event bus, asking for the \<open>n\<close>
  most recent events gives the last \<open>min n 1000\<close> published ones in order, whichever method
  published them, and the counter of a type counts its publications (modulo 64 bits).\<close>

theorem eb_recent_events_exact:
  "eb_getRecentEvents (publish_all eb_publish (eb_initialize b) calls) n =
     last_n (min n MAX_RECENT_EVENTS) (map eb_event calls) \<and>
   eb_getEventCount (publish_all eb_publish (eb_initialize b) calls) ty =
     of_nat (length (filter (\<lambda>c. ev_type (eb_event c) = ty) calls))"
proof
  have "eb_recent_events (publish_all eb_publish (eb_initialize b) calls) =
      last_n MAX_RECENT_EVENTS (map eb_event calls)"
    by (rule eb.publish_all_entries) (simp add: eb_initialize_def)
  then show "eb_getRecentEvents (publish_all eb_publish (eb_initialize b) calls) n =
      last_n (min n MAX_RECENT_EVENTS) (map eb_event calls)"
    by (simp add: eb_getRecentEvents_last_n last_n_last_n)
  show "eb_getEventCount (publish_all eb_publish (eb_initialize b) calls) ty =
      of_nat (length (filter (\<lambda>c. ev_type (eb_event c) = ty) calls))"
    unfolding eb.publish_all_tally by (simp add: eb_getEventCount_def eb_initialize_def)
qed

end
