(* ===== verification/Control_Plane.thy ===== *)
theory Control_Plane
  imports Base Complex_Main
begin

text \<open>
  \<open>server/runtime/runtime_control_plane.\{h,cpp\}\<close>: the operator's commands to the runtime. Every
  operation that changes the state derives the mode again and calls the callbacks, whose exceptions
  are swallowed; the trace of an operation is the list of callbacks called, each with the state it
  is given.
\<close>

datatype RuntimeMode = NORMAL | INSPECT | DEBUG | EMERGENCY

datatype ControlCommand =
    STOP_AI | RESUME_AI | PAUSE_FRAME | RESUME_FRAME | ROLLBACK_REPLAY | ISOLATE_FACTORY
  | RESTORE_FACTORY | THROTTLE_GPU | RESTORE_GPU | FORCE_INSPECT_MODE | EXIT_INSPECT_MODE
  | SHUTDOWN | RESTART

record ControlState =
  cs_ai_enabled :: bool
  cs_frame_paused :: bool
  cs_gpu_throttled :: bool
  cs_inspect_mode :: bool
  cs_emergency_mode :: bool
  cs_current_mode :: RuntimeMode
  cs_isolated_factory :: u32
  cs_gpu_throttle_level :: real
  cs_last_command_timestamp :: u64

definition cs_default :: ControlState where
  "cs_default = \<lparr>cs_ai_enabled = True, cs_frame_paused = False, cs_gpu_throttled = False,
     cs_inspect_mode = False, cs_emergency_mode = False, cs_current_mode = NORMAL,
     cs_isolated_factory = 0, cs_gpu_throttle_level = 1, cs_last_command_timestamp = 0\<rparr>"

definition MIN_THROTTLE_LEVEL :: real where
  "MIN_THROTTLE_LEVEL = 1 / 10"

record RuntimeControlPlane =
  cp_state :: ControlState
  cp_callbacks :: "nat list"

definition cp_new :: RuntimeControlPlane where
  "cp_new = \<lparr>cp_state = cs_default, cp_callbacks = []\<rparr>"

definition cp_initialize :: "RuntimeControlPlane \<Rightarrow> RuntimeControlPlane" where
  "cp_initialize p = p\<lparr>cp_state := cs_default\<rparr>"

definition cp_shutdown :: "RuntimeControlPlane \<Rightarrow> RuntimeControlPlane" where
  "cp_shutdown p = p\<lparr>cp_callbacks := []\<rparr>"

definition cs_updateMode :: "ControlState \<Rightarrow> ControlState" where
  "cs_updateMode s = s\<lparr>cs_current_mode :=
     (if cs_emergency_mode s then EMERGENCY else if cs_inspect_mode s then INSPECT else NORMAL)\<rparr>"

definition cp_notifyStateChange :: "RuntimeControlPlane \<Rightarrow> (nat \<times> ControlState) list" where
  "cp_notifyStateChange p = map (\<lambda>cb. (cb, cp_state p)) (cp_callbacks p)"

text \<open>The switch of \<open>executeCommand\<close>; every command of the enumeration has a case.\<close>

fun cs_command :: "ControlCommand \<Rightarrow> u32 \<Rightarrow> real \<Rightarrow> ControlState \<Rightarrow> ControlState" where
  "cs_command STOP_AI f p s = s\<lparr>cs_ai_enabled := False\<rparr>"
| "cs_command RESUME_AI f p s = s\<lparr>cs_ai_enabled := True\<rparr>"
| "cs_command PAUSE_FRAME f p s = s\<lparr>cs_frame_paused := True\<rparr>"
| "cs_command RESUME_FRAME f p s = s\<lparr>cs_frame_paused := False\<rparr>"
| "cs_command ROLLBACK_REPLAY f p s = s"
| "cs_command ISOLATE_FACTORY f p s = s\<lparr>cs_isolated_factory := f\<rparr>"
| "cs_command RESTORE_FACTORY f p s =
     (if cs_isolated_factory s = f then s\<lparr>cs_isolated_factory := 0\<rparr> else s)"
| "cs_command THROTTLE_GPU f p s =
     s\<lparr>cs_gpu_throttled := True,
       cs_gpu_throttle_level := (if MIN_THROTTLE_LEVEL < p then p else MIN_THROTTLE_LEVEL)\<rparr>"
| "cs_command RESTORE_GPU f p s = s\<lparr>cs_gpu_throttled := False, cs_gpu_throttle_level := 1\<rparr>"
| "cs_command FORCE_INSPECT_MODE f p s = s\<lparr>cs_inspect_mode := True\<rparr>"
| "cs_command EXIT_INSPECT_MODE f p s = s\<lparr>cs_inspect_mode := False\<rparr>"
| "cs_command SHUTDOWN f p s = s"
| "cs_command RESTART f p s = s"

text \<open>The common tail of the state-changing operations: derive the mode, notify.\<close>

definition cp_commit ::
  "(ControlState \<Rightarrow> ControlState) \<Rightarrow> RuntimeControlPlane \<Rightarrow>
   RuntimeControlPlane \<times> (nat \<times> ControlState) list" where
  "cp_commit f p =
     (let p' = p\<lparr>cp_state := cs_updateMode (f (cp_state p))\<rparr> in (p', cp_notifyStateChange p'))"

definition cp_executeCommand ::
  "ControlCommand \<Rightarrow> u32 \<Rightarrow> real \<Rightarrow> u64 \<Rightarrow> RuntimeControlPlane \<Rightarrow>
   bool \<times> RuntimeControlPlane \<times> (nat \<times> ControlState) list" where
  "cp_executeCommand command factoryId parameter now p =
     (True, cp_commit (\<lambda>s. (cs_command command factoryId parameter s)\<lparr>cs_last_command_timestamp := now\<rparr>) p)"

definition cp_getCurrentState :: "RuntimeControlPlane \<Rightarrow> ControlState" where
  "cp_getCurrentState p = cp_state p"

definition cp_getCurrentMode :: "RuntimeControlPlane \<Rightarrow> RuntimeMode" where
  "cp_getCurrentMode p = cs_current_mode (cp_state p)"

definition cp_isAIEnabled :: "RuntimeControlPlane \<Rightarrow> bool" where
  "cp_isAIEnabled p = cs_ai_enabled (cp_state p)"

definition cp_isFramePaused :: "RuntimeControlPlane \<Rightarrow> bool" where
  "cp_isFramePaused p = cs_frame_paused (cp_state p)"

definition cp_isGPUThrottled :: "RuntimeControlPlane \<Rightarrow> bool" where
  "cp_isGPUThrottled p = cs_gpu_throttled (cp_state p)"

definition cp_setInspectMode ::
  "bool \<Rightarrow> RuntimeControlPlane \<Rightarrow> RuntimeControlPlane \<times> (nat \<times> ControlState) list" where
  "cp_setInspectMode enabled p = cp_commit (\<lambda>s. s\<lparr>cs_inspect_mode := enabled\<rparr>) p"

definition cp_enterEmergencyMode ::
  "RuntimeControlPlane \<Rightarrow> RuntimeControlPlane \<times> (nat \<times> ControlState) list" where
  "cp_enterEmergencyMode p =
     cp_commit (\<lambda>s. s\<lparr>cs_emergency_mode := True, cs_ai_enabled := False\<rparr>) p"

definition cp_exitEmergencyMode ::
  "RuntimeControlPlane \<Rightarrow> RuntimeControlPlane \<times> (nat \<times> ControlState) list" where
  "cp_exitEmergencyMode p =
     cp_commit (\<lambda>s. s\<lparr>cs_emergency_mode := False, cs_ai_enabled := True\<rparr>) p"

definition cp_registerStateChangeCallback :: "nat \<Rightarrow> RuntimeControlPlane \<Rightarrow> RuntimeControlPlane" where
  "cp_registerStateChangeCallback cb p = p\<lparr>cp_callbacks := cp_callbacks p @ [cb]\<rparr>"

fun RuntimeMode_text :: "RuntimeMode \<Rightarrow> string" where
  "RuntimeMode_text NORMAL = ''NORMAL''"
| "RuntimeMode_text INSPECT = ''INSPECT''"
| "RuntimeMode_text DEBUG = ''DEBUG''"
| "RuntimeMode_text EMERGENCY = ''EMERGENCY''"

definition cp_getStatusString :: "RuntimeControlPlane \<Rightarrow> string" where
  "cp_getStatusString p =
     (let s = cp_state p in
      RuntimeMode_text (cs_current_mode s)
      @ '' | AI:'' @ (if cs_ai_enabled s then ''ON'' else ''OFF'')
      @ '' | Frame:'' @ (if cs_frame_paused s then ''PAUSED'' else ''RUNNING'')
      @ '' | GPU:'' @ (if cs_gpu_throttled s then ''THROTTLED'' else ''NORMAL''))"

section \<open>Invariant\<close>

inductive cp_step :: "RuntimeControlPlane \<Rightarrow> RuntimeControlPlane \<Rightarrow> bool" where
  initialize: "cp_step p (cp_initialize p)"
| shutdown: "cp_step p (cp_shutdown p)"
| command: "cp_executeCommand c f x now p = (ok, p', tr) \<Longrightarrow> cp_step p p'"
| inspect: "cp_setInspectMode b p = (p', tr) \<Longrightarrow> cp_step p p'"
| enter: "cp_enterEmergencyMode p = (p', tr) \<Longrightarrow> cp_step p p'"
| exit: "cp_exitEmergencyMode p = (p', tr) \<Longrightarrow> cp_step p p'"
| register: "cp_step p (cp_registerStateChangeCallback cb p)"

inductive_cases cp_stepE: "cp_step p p'"

definition cs_inv :: "ControlState \<Rightarrow> bool" where
  "cs_inv s \<longleftrightarrow>
     cs_current_mode s = (if cs_emergency_mode s then EMERGENCY
                          else if cs_inspect_mode s then INSPECT else NORMAL) \<and>
     cs_gpu_throttle_level s \<ge> MIN_THROTTLE_LEVEL \<and>
     (cs_gpu_throttled s \<or> cs_gpu_throttle_level s = 1)"

text \<open>The part of the invariant that the switch itself keeps.\<close>

definition cs_gpu_inv :: "ControlState \<Rightarrow> bool" where
  "cs_gpu_inv s \<longleftrightarrow> cs_gpu_throttle_level s \<ge> MIN_THROTTLE_LEVEL \<and>
     (cs_gpu_throttled s \<or> cs_gpu_throttle_level s = 1)"

lemma cs_inv_gpu: "cs_inv s \<Longrightarrow> cs_gpu_inv s"
  by (simp add: cs_inv_def cs_gpu_inv_def)

lemma cs_command_gpu: "cs_gpu_inv s \<Longrightarrow> cs_gpu_inv (cs_command c f p s)"
  by (cases c) (auto simp: cs_gpu_inv_def MIN_THROTTLE_LEVEL_def)

lemma cs_updateMode_inv: "cs_gpu_inv s \<Longrightarrow> cs_inv (cs_updateMode s)"
  by (simp add: cs_inv_def cs_gpu_inv_def cs_updateMode_def)

lemma cp_commit_inv:
  "cs_gpu_inv (f (cp_state p)) \<Longrightarrow> cp_commit f p = (p', tr) \<Longrightarrow> cs_inv (cp_state p')"
  by (auto simp: cp_commit_def Let_def intro: cs_updateMode_inv)

lemma cs_gpu_inv_upd [simp]:
  "cs_gpu_inv (s\<lparr>cs_last_command_timestamp := t\<rparr>) = cs_gpu_inv s"
  "cs_gpu_inv (s\<lparr>cs_inspect_mode := b\<rparr>) = cs_gpu_inv s"
  "cs_gpu_inv (s\<lparr>cs_emergency_mode := b, cs_ai_enabled := a\<rparr>) = cs_gpu_inv s"
  by (simp_all add: cs_gpu_inv_def)

lemma cs_inv_default: "cs_inv cs_default"
  by (simp add: cs_inv_def cs_default_def MIN_THROTTLE_LEVEL_def)

lemma cp_step_inv: "cp_step p p' \<Longrightarrow> cs_inv (cp_state p) \<Longrightarrow> cs_inv (cp_state p')"
  by (erule cp_stepE)
     (auto simp: cp_initialize_def cp_shutdown_def cp_registerStateChangeCallback_def
        cs_inv_default cp_executeCommand_def cp_setInspectMode_def cp_enterEmergencyMode_def
        cp_exitEmergencyMode_def cs_inv_gpu cs_command_gpu elim!: cp_commit_inv [rotated])

lemma cp_reachable_inv: "cp_step\<^sup>*\<^sup>* cp_new p \<Longrightarrow> cs_inv (cp_state p)"
proof (induction rule: rtranclp_induct)
  case base
  show ?case by (simp add: cp_new_def cs_inv_default)
next
  case (step p q)
  then show ?case by (blast intro: cp_step_inv)
qed

section \<open>Properties\<close>

text \<open>On every reachable control plane the reported mode is EMERGENCY exactly under the emergency
  flag, otherwise INSPECT exactly under the inspect flag, otherwise NORMAL, and so never DEBUG; the
  GPU throttle level is at least 0.1, and is 1 unless the GPU is throttled.\<close>

theorem cp_mode_invariant:
  assumes "cp_step\<^sup>*\<^sup>* cp_new p"
  shows "cp_getCurrentMode p = (if cs_emergency_mode (cp_getCurrentState p) then EMERGENCY
           else if cs_inspect_mode (cp_getCurrentState p) then INSPECT else NORMAL) \<and>
         cp_getCurrentMode p \<noteq> DEBUG \<and>
         cs_gpu_throttle_level (cp_getCurrentState p) \<ge> MIN_THROTTLE_LEVEL \<and>
         (cp_isGPUThrottled p \<or> cs_gpu_throttle_level (cp_getCurrentState p) = 1)"
  using cp_reachable_inv [OF assms]
  by (auto simp: cs_inv_def cp_getCurrentMode_def cp_getCurrentState_def cp_isGPUThrottled_def)

lemma cp_mode_invariant_witness:
  "cp_getCurrentMode (fst (cp_enterEmergencyMode cp_new)) \<noteq> DEBUG"
  by (rule cp_mode_invariant [THEN conjunct2, THEN conjunct1])
     (metis cp_step.enter prod.collapse r_into_rtranclp)

text \<open>Emergency mode does not keep the AI off: it is off right after entering, but the operator
  command RESUME_AI switches it on while the mode stays EMERGENCY, and leaving the emergency
  switches it on even if the operator had stopped it before.\<close>

theorem cp_emergency_ai:
  "(case cp_enterEmergencyMode p of (p1, _) \<Rightarrow>
      \<not> cp_isAIEnabled p1 \<and> cp_getCurrentMode p1 = EMERGENCY \<and>
      (case cp_executeCommand RESUME_AI f x now p1 of (ok, p2, _) \<Rightarrow>
         ok \<and> cp_isAIEnabled p2 \<and> cp_getCurrentMode p2 = EMERGENCY)) \<and>
   (case cp_executeCommand STOP_AI f x now p of (_, q1, _) \<Rightarrow>
      \<not> cp_isAIEnabled q1 \<and> cp_isAIEnabled (fst (cp_exitEmergencyMode (fst (cp_enterEmergencyMode q1)))))"
  by (simp add: cp_enterEmergencyMode_def cp_exitEmergencyMode_def cp_executeCommand_def
      cp_commit_def cs_updateMode_def cp_isAIEnabled_def cp_getCurrentMode_def Let_def)

end
