(* ===== verification/Consistency_Checker.thy ===== *)
theory Consistency_Checker
  imports Base Complex_Main
begin

text \<open>
  \<open>server/runtime/system_consistency_checker.\{h,cpp\}\<close>: the comparison of the hashes of the live and
  the replayed pipeline, and the count of consecutive failures.
\<close>

record ConsistencyResult =
  cr_frame_consistent :: bool
  cr_ai_consistent :: bool
  cr_gpu_consistent :: bool
  cr_confidence :: real
  cr_violations :: "string list"

record ConsistencyInput =
  ci_frame_hash :: u64
  ci_replay_frame_hash :: u64
  ci_ai_hash :: u64
  ci_replay_ai_hash :: u64
  ci_gpu_hash :: u64
  ci_render_hash :: u64
  ci_frame_id :: u64

record SystemConsistencyChecker =
  cc_last_frame_ok :: bool
  cc_last_ai_ok :: bool
  cc_last_gpu_ok :: bool
  cc_failure_streak :: int

definition cc_new :: SystemConsistencyChecker where
  "cc_new = \<lparr>cc_last_frame_ok = True, cc_last_ai_ok = True, cc_last_gpu_ok = True,
     cc_failure_streak = 0\<rparr>"

definition cc_verifyFrame ::
  "u64 \<Rightarrow> u64 \<Rightarrow> SystemConsistencyChecker \<Rightarrow> bool \<times> SystemConsistencyChecker" where
  "cc_verifyFrame realtime_hash replay_hash c =
     (let ok = (realtime_hash = replay_hash) in (ok, c\<lparr>cc_last_frame_ok := ok\<rparr>))"

definition cc_verifyAI ::
  "u64 \<Rightarrow> u64 \<Rightarrow> SystemConsistencyChecker \<Rightarrow> bool \<times> SystemConsistencyChecker" where
  "cc_verifyAI ai_hash replay_ai_hash c =
     (let ok = (ai_hash = replay_ai_hash) in (ok, c\<lparr>cc_last_ai_ok := ok\<rparr>))"

definition cc_verifyGPU ::
  "u64 \<Rightarrow> u64 \<Rightarrow> SystemConsistencyChecker \<Rightarrow> bool \<times> SystemConsistencyChecker" where
  "cc_verifyGPU gpu_hash render_hash c =
     (let ok = (gpu_hash = render_hash) in (ok, c\<lparr>cc_last_gpu_ok := ok\<rparr>))"

definition cc_calculateConfidence :: "bool \<Rightarrow> bool \<Rightarrow> bool \<Rightarrow> real" where
  "cc_calculateConfidence f a g =
     (let score = (if f then 1 else 0) + (if a then 1 else 0) + (if g then 1 else 0) in score / 3)"

definition cc_verify ::
  "ConsistencyInput \<Rightarrow> SystemConsistencyChecker \<Rightarrow> ConsistencyResult \<times> SystemConsistencyChecker" where
  "cc_verify i c =
     (let (f, c1) = cc_verifyFrame (ci_frame_hash i) (ci_replay_frame_hash i) c;
          v1 = (if \<not> f then [''FRAME_MISMATCH''] else []);
          (a, c2) = cc_verifyAI (ci_ai_hash i) (ci_replay_ai_hash i) c1;
          v2 = (if \<not> a then v1 @ [''AI_MISMATCH''] else v1);
          (g, c3) = cc_verifyGPU (ci_gpu_hash i) (ci_render_hash i) c2;
          v3 = (if \<not> g then v2 @ [''GPU_MISMATCH''] else v2);
          conf = cc_calculateConfidence f a g;
          streak = (if \<not> f \<or> \<not> a \<or> \<not> g then cc_failure_streak c3 + 1 else 0)
      in (\<lparr>cr_frame_consistent = f, cr_ai_consistent = a, cr_gpu_consistent = g,
           cr_confidence = conf, cr_violations = v3\<rparr>,
          c3\<lparr>cc_failure_streak := streak\<rparr>))"

definition cc_isSystemAtRisk :: "SystemConsistencyChecker \<Rightarrow> bool" where
  "cc_isSystemAtRisk c \<longleftrightarrow> cc_failure_streak c \<ge> 3"

definition cc_getFailureStreak :: "SystemConsistencyChecker \<Rightarrow> int" where
  "cc_getFailureStreak c = cc_failure_streak c"

definition cc_reset :: "SystemConsistencyChecker \<Rightarrow> SystemConsistencyChecker" where
  "cc_reset c = c\<lparr>cc_failure_streak := 0, cc_last_frame_ok := True, cc_last_ai_ok := True,
     cc_last_gpu_ok := True\<rparr>"

section \<open>What the checker computes\<close>

definition ci_ok :: "ConsistencyInput \<Rightarrow> bool" where
  "ci_ok i \<longleftrightarrow> ci_frame_hash i = ci_replay_frame_hash i \<and> ci_ai_hash i = ci_replay_ai_hash i \<and>
     ci_gpu_hash i = ci_render_hash i"

lemma cc_verify_result:
  "cr_frame_consistent (fst (cc_verify i c)) = (ci_frame_hash i = ci_replay_frame_hash i)"
  "cr_ai_consistent (fst (cc_verify i c)) = (ci_ai_hash i = ci_replay_ai_hash i)"
  "cr_gpu_consistent (fst (cc_verify i c)) = (ci_gpu_hash i = ci_render_hash i)"
  "cr_violations (fst (cc_verify i c)) =
     (if ci_frame_hash i = ci_replay_frame_hash i then [] else [''FRAME_MISMATCH'']) @
     (if ci_ai_hash i = ci_replay_ai_hash i then [] else [''AI_MISMATCH'']) @
     (if ci_gpu_hash i = ci_render_hash i then [] else [''GPU_MISMATCH''])"
  "cc_failure_streak (snd (cc_verify i c)) = (if ci_ok i then 0 else cc_failure_streak c + 1)"
  by (auto simp: cc_verify_def cc_verifyFrame_def cc_verifyAI_def cc_verifyGPU_def ci_ok_def Let_def)

lemma cc_verify_confidence:
  "cr_confidence (fst (cc_verify i c)) =
     cc_calculateConfidence (ci_frame_hash i = ci_replay_frame_hash i)
       (ci_ai_hash i = ci_replay_ai_hash i) (ci_gpu_hash i = ci_render_hash i)"
  by (simp add: cc_verify_def cc_verifyFrame_def cc_verifyAI_def cc_verifyGPU_def Let_def)

lemma cc_calculateConfidence_range:
  "0 \<le> cc_calculateConfidence f a g" "cc_calculateConfidence f a g \<le> 1"
  "cc_calculateConfidence f a g < 6 / 10 \<longleftrightarrow> \<not> (f \<and> a) \<and> \<not> (f \<and> g) \<and> \<not> (a \<and> g)"
  by (auto simp: cc_calculateConfidence_def Let_def)

text \<open>A session of verifications since the last reset, newest last.\<close>

definition cc_run :: "SystemConsistencyChecker \<Rightarrow> ConsistencyInput list \<Rightarrow> SystemConsistencyChecker" where
  "cc_run c is = foldl (\<lambda>c i. snd (cc_verify i c)) c is"

lemma cc_run_streak:
  "cc_failure_streak c = 0 \<Longrightarrow>
   cc_failure_streak (cc_run c is) = int (length (takeWhile (\<lambda>i. \<not> ci_ok i) (rev is)))"
  by (induction "is" rule: rev_induct) (auto simp: cc_run_def cc_verify_result(5))

lemma takeWhile_length_ge:
  "n \<le> length (takeWhile P xs) \<longleftrightarrow> n \<le> length xs \<and> list_all P (take n xs)"
proof (induction xs arbitrary: n)
  case Nil
  then show ?case by auto
next
  case (Cons x xs)
  then show ?case by (cases n) auto
qed

section \<open>Properties\<close>

text \<open>After a reset and any verifications the system is reported at risk exactly when at least three
  were made and the last three all failed, where a verification fails exactly when one of the three
  pairs of hashes differs; the violations it lists are exactly the differing pairs, and its
  confidence lies between 0 and 1 and is 1 exactly without violations.\<close>

theorem cc_at_risk_exact:
  "(cc_isSystemAtRisk (cc_run (cc_reset c) is) \<longleftrightarrow>
      3 \<le> length is \<and> list_all (\<lambda>i. cr_violations (fst (cc_verify i c)) \<noteq> []) (take 3 (rev is))) \<and>
   (cr_violations (fst (cc_verify i c)) = []) = ci_ok i \<and>
   cr_confidence (fst (cc_verify i c)) \<in> {0..1} \<and>
   (cr_confidence (fst (cc_verify i c)) = 1) = ci_ok i"
proof (intro conjI)
  have viol: "(cr_violations (fst (cc_verify i c)) \<noteq> []) = (\<not> ci_ok i)" for i c
    by (simp add: cc_verify_result(4) ci_ok_def)
  have "cc_failure_streak (cc_run (cc_reset c) is) =
      int (length (takeWhile (\<lambda>i. \<not> ci_ok i) (rev is)))"
    by (rule cc_run_streak) (simp add: cc_reset_def)
  then show "cc_isSystemAtRisk (cc_run (cc_reset c) is) \<longleftrightarrow>
      3 \<le> length is \<and> list_all (\<lambda>i. cr_violations (fst (cc_verify i c)) \<noteq> []) (take 3 (rev is))"
    using takeWhile_length_ge [of 3 "\<lambda>i. \<not> ci_ok i" "rev is"]
    by (simp add: cc_isSystemAtRisk_def viol)
  show "(cr_violations (fst (cc_verify i c)) = []) = ci_ok i" using viol [of i c] by blast
  show "cr_confidence (fst (cc_verify i c)) \<in> {0..1}"
    by (simp add: cc_verify_confidence cc_calculateConfidence_range)
  show "(cr_confidence (fst (cc_verify i c)) = 1) = ci_ok i"
    by (simp add: cc_verify_confidence cc_calculateConfidence_def Let_def ci_ok_def)
qed

end
