(* ===== verification/Proof_Ledger.thy ===== *)
theory Proof_Ledger
  imports Base
begin

text \<open>
  \<open>server/runtime/proof_ledger.\{h,cpp\}\<close>: one proof record per frame, kept sorted by frame. The locale
  \<open>proof_store\<close> is what the proof engine uses of it. Advancing the iterator of \<open>verifyChain\<close> past the
  end of the vector and reading there, which C++ leaves undefined, is the error \<open>OutOfRange\<close>.
\<close>

record ProofRecord =
  pr_frame_id :: u64
  pr_frame_hash :: u64
  pr_gpu_hash :: u64
  pr_ai_hash :: u64
  pr_decision_hash :: u64
  pr_recovery_hash :: u64
  pr_verified :: bool
  pr_signature :: string
  pr_timestamp :: u64

definition pr_default :: ProofRecord where
  "pr_default = \<lparr>pr_frame_id = 0, pr_frame_hash = 0, pr_gpu_hash = 0, pr_ai_hash = 0,
     pr_decision_hash = 0, pr_recovery_hash = 0, pr_verified = False, pr_signature = '''',
     pr_timestamp = 0\<rparr>"

record ProofLedger =
  pl_records :: "ProofRecord list"

definition pl_new :: ProofLedger where
  "pl_new = \<lparr>pl_records = []\<rparr>"

definition pl_initialize :: "ProofLedger \<Rightarrow> ProofLedger" where
  "pl_initialize l = l\<lparr>pl_records := []\<rparr>"

definition pl_shutdown :: "ProofLedger \<Rightarrow> ProofLedger" where
  "pl_shutdown l = l\<lparr>pl_records := []\<rparr>"

definition pl_append :: "ProofRecord \<Rightarrow> ProofLedger \<Rightarrow> ProofLedger" where
  "pl_append rec l =
     (let same = (\<lambda>r. pr_frame_id r = pr_frame_id rec);
          recs = (if find same (pl_records l) \<noteq> None
                  then update_first same (\<lambda>_. rec) (pl_records l)
                  else pl_records l @ [rec])
      in l\<lparr>pl_records := std_sort (\<lambda>a b. pr_frame_id a < pr_frame_id b) recs\<rparr>)"

text \<open>The loop of \<open>verifyChain\<close>: from the iterator at \<open>i\<close> until it equals the one at \<open>j\<close>.\<close>

function pl_walk :: "ProofRecord list \<Rightarrow> nat \<Rightarrow> nat \<Rightarrow> fault + bool" where
  "pl_walk rs i j =
     (if i = j then Inr True
      else if i \<ge> length rs then Inl OutOfRange
      else if \<not> pr_verified (rs ! i) then Inr False
      else pl_walk rs (i + 1) j)"
  by pat_completeness auto
termination by (relation "measure (\<lambda>(rs, i, j). length rs - i)") auto

declare pl_walk.simps [simp del]

definition pl_verifyChain :: "u64 \<Rightarrow> u64 \<Rightarrow> ProofLedger \<Rightarrow> fault + bool" where
  "pl_verifyChain fromFrameId toFrameId l =
     (let rs = pl_records l;
          i = find_index_if (\<lambda>r. pr_frame_id r = fromFrameId) rs;
          j = find_index_if (\<lambda>r. pr_frame_id r = toFrameId) rs
      in if i = length rs \<or> j = length rs then Inr False else pl_walk rs i j)"

definition pl_verifyFrame :: "u64 \<Rightarrow> ProofLedger \<Rightarrow> bool" where
  "pl_verifyFrame frameId l =
     (case find (\<lambda>r. pr_frame_id r = frameId) (pl_records l) of
        None \<Rightarrow> False | Some r \<Rightarrow> pr_verified r)"

definition pl_query :: "u64 \<Rightarrow> ProofLedger \<Rightarrow> ProofRecord list" where
  "pl_query frameId l =
     (case find (\<lambda>r. pr_frame_id r = frameId) (pl_records l) of None \<Rightarrow> [] | Some r \<Rightarrow> [r])"

definition pl_getRange :: "u64 \<Rightarrow> u64 \<Rightarrow> ProofLedger \<Rightarrow> ProofRecord list" where
  "pl_getRange startFrameId endFrameId l =
     filter (\<lambda>r. pr_frame_id r \<ge> startFrameId \<and> pr_frame_id r \<le> endFrameId) (pl_records l)"

definition pl_verifyFullChain :: "ProofLedger \<Rightarrow> bool" where
  "pl_verifyFullChain l = list_all pr_verified (pl_records l)"

definition pl_getRecordCount :: "ProofLedger \<Rightarrow> nat" where
  "pl_getRecordCount l = length (pl_records l)"

definition pl_clear :: "ProofLedger \<Rightarrow> ProofLedger" where
  "pl_clear l = l\<lparr>pl_records := []\<rparr>"

section \<open>Invariant: strictly sorted by frame\<close>

definition pl_inv :: "ProofLedger \<Rightarrow> bool" where
  "pl_inv l \<longleftrightarrow> sorted_wrt (\<lambda>a b. pr_frame_id a < pr_frame_id b) (pl_records l)"

lemma pl_inv_distinct: "pl_inv l \<Longrightarrow> distinct (map pr_frame_id (pl_records l))"
  by (simp add: pl_inv_def strict_sorted_iff flip: sorted_wrt_map)

text \<open>The vector before it is sorted: distinct frames, and the new record is the one of its frame.\<close>

definition pl_put :: "ProofRecord \<Rightarrow> ProofRecord list \<Rightarrow> ProofRecord list" where
  "pl_put rec rs =
     (if find (\<lambda>r. pr_frame_id r = pr_frame_id rec) rs \<noteq> None
      then update_first (\<lambda>r. pr_frame_id r = pr_frame_id rec) (\<lambda>_. rec) rs else rs @ [rec])"

lemma pl_append_records:
  "pl_records (pl_append rec l) = std_sort (\<lambda>a b. pr_frame_id a < pr_frame_id b) (pl_put rec (pl_records l))"
  by (simp add: pl_append_def pl_put_def Let_def)

lemma pl_put_distinct:
  "distinct (map pr_frame_id rs) \<Longrightarrow> distinct (map pr_frame_id (pl_put rec rs))"
  by (auto simp: pl_put_def map_update_first find_None_iff)

lemma pl_put_find:
  "find (\<lambda>r. pr_frame_id r = f) (pl_put rec rs) =
     (if f = pr_frame_id rec then Some rec else find (\<lambda>r. pr_frame_id r = f) rs)"
proof (cases "find (\<lambda>r. pr_frame_id r = pr_frame_id rec) rs")
  case None
  then have n: "find (\<lambda>r. pr_frame_id r = pr_frame_id rec) rs = None" .
  have app: "find P (rs @ [rec]) = (case find P rs of None \<Rightarrow> (if P rec then Some rec else None) | Some r \<Rightarrow> Some r)"
    for P by (induction rs) auto
  show ?thesis using n by (auto simp: pl_put_def app split: option.split)
next
  case (Some r)
  then show ?thesis
    by (cases "f = pr_frame_id rec")
      (simp_all add: pl_put_def find_update_first find_update_first_other)
qed

lemma pl_append_inv: "pl_inv l \<Longrightarrow> pl_inv (pl_append rec l)"
proof -
  assume "pl_inv l"
  then have d: "distinct (map pr_frame_id (pl_put rec (pl_records l)))"
    by (intro pl_put_distinct pl_inv_distinct)
  then have "distinct (map pr_frame_id (pl_records (pl_append rec l)))"
    unfolding pl_append_records by (metis mset_map mset_std_sort mset_eq_imp_distinct_iff)
  then show ?thesis
    unfolding pl_inv_def by (intro sorted_key_strict) (simp_all add: pl_append_records sorted_std_sort_key)
qed

lemma pl_append_find:
  assumes "pl_inv l"
  shows "find (\<lambda>r. pr_frame_id r = f) (pl_records (pl_append rec l)) =
     (if f = pr_frame_id rec then Some rec else find (\<lambda>r. pr_frame_id r = f) (pl_records l))"
  using find_key_same_set [of pr_frame_id "pl_records (pl_append rec l)" "pl_put rec (pl_records l)" f]
    pl_inv_distinct [OF pl_append_inv [OF assms]] pl_put_distinct [OF pl_inv_distinct [OF assms]]
  by (simp add: pl_append_records pl_put_find)

section \<open>The contract towards the proof engine\<close>

locale proof_store =
  fixes empty :: 'l
    and append :: "'r \<Rightarrow> 'l \<Rightarrow> 'l"
    and lookup :: "'k \<Rightarrow> 'l \<Rightarrow> 'r list"
    and key :: "'r \<Rightarrow> 'k"
    and ok :: "'l \<Rightarrow> bool"
  assumes empty_ok: "ok empty"
    and append_ok: "ok l \<Longrightarrow> ok (append r l)"
    and lookup_empty: "lookup k empty = []"
    and lookup_append: "ok l \<Longrightarrow> lookup k (append r l) = (if k = key r then [r] else lookup k l)"
begin

lemma fold_append_ok: "ok l \<Longrightarrow> ok (fold append rs l)"
  by (induction rs arbitrary: l) (auto intro: append_ok)

lemma lookup_fold_append:
  "ok l \<Longrightarrow> lookup k (fold append rs l) =
     (case find (\<lambda>r. key r = k) (rev rs) of None \<Rightarrow> lookup k l | Some r \<Rightarrow> [r])"
proof (induction rs rule: rev_induct)
  case Nil
  then show ?case by simp
next
  case (snoc r rs)
  then show ?case by (auto simp: lookup_append fold_append_ok split: option.splits)
qed

text \<open>The latest record of a key is the one returned; a key never appended is not found.\<close>

lemma lookup_history:
  "lookup k (fold append rs empty) = (case find (\<lambda>r. key r = k) (rev rs) of None \<Rightarrow> [] | Some r \<Rightarrow> [r])"
  by (simp add: lookup_fold_append empty_ok lookup_empty split: option.split)

end

interpretation pl: proof_store pl_new pl_append pl_query pr_frame_id pl_inv
  by unfold_locales (auto simp: pl_inv_def pl_new_def pl_query_def pl_append_find [unfolded pl_inv_def]
      pl_append_inv [unfolded pl_inv_def] split: option.split)

section \<open>verifyChain\<close>

lemma pl_walk_forward:
  "i \<le> j \<Longrightarrow> j \<le> length rs \<Longrightarrow> pl_walk rs i j = Inr (\<forall>k \<in> {i..<j}. pr_verified (rs ! k))"
proof (induction "j - i" arbitrary: i)
  case 0
  then show ?case by (simp add: pl_walk.simps)
next
  case (Suc n)
  then have "pl_walk rs (Suc i) j = Inr (\<forall>k \<in> {Suc i..<j}. pr_verified (rs ! k))" by simp
  moreover from Suc have "{i..<j} = insert i {Suc i..<j}" by auto
  ultimately show ?case using Suc by (subst pl_walk.simps) auto
qed

lemma pl_walk_backward:
  "j < i \<Longrightarrow> i \<le> length rs \<Longrightarrow> pl_walk rs i j \<noteq> Inr True"
proof (induction "length rs - i" arbitrary: i)
  case 0
  then show ?case by (subst pl_walk.simps) simp
next
  case (Suc n)
  then show ?case by (subst pl_walk.simps) auto
qed

lemma pl_index_of:
  assumes "pl_inv l" "i < length (pl_records l)"
  shows "find_index_if (\<lambda>r. pr_frame_id r = pr_frame_id (pl_records l ! i)) (pl_records l) = i"
proof -
  let ?j = "find_index_if (\<lambda>r. pr_frame_id r = pr_frame_id (pl_records l ! i)) (pl_records l)"
  have "?j < length (pl_records l)" using assms(2) by (simp add: find_index_if_less) (use assms(2) nth_mem in blast)
  moreover from find_index_if_nth [OF this]
  have "map pr_frame_id (pl_records l) ! ?j = map pr_frame_id (pl_records l) ! i"
    using assms(2) calculation by simp
  ultimately show ?thesis
    using pl_inv_distinct [OF assms(1)] assms(2) by (metis length_map nth_eq_iff_index_eq)
qed

lemma pl_index_mono:
  assumes "pl_inv l" "i < length (pl_records l)" "k < length (pl_records l)"
  shows "pr_frame_id (pl_records l ! i) < pr_frame_id (pl_records l ! k) \<longleftrightarrow> i < k"
  using assms unfolding pl_inv_def
  by (metis linorder_neqE_nat not_less_iff_gr_or_eq sorted_wrt_nth_less)

lemma pl_index_mono_le:
  assumes "pl_inv l" "i < length (pl_records l)" "k < length (pl_records l)"
  shows "pr_frame_id (pl_records l ! i) \<le> pr_frame_id (pl_records l ! k) \<longleftrightarrow> i \<le> k"
    and "pr_frame_id (pl_records l ! i) = pr_frame_id (pl_records l ! k) \<longleftrightarrow> i = k"
  using pl_index_mono [OF assms(1,2,3)] pl_index_mono [OF assms(1,3,2)] by auto

lemma pl_present:
  "find_index_if (\<lambda>r. pr_frame_id r = f) (pl_records l) < length (pl_records l) \<longleftrightarrow> pl_query f l \<noteq> []"
  unfolding find_index_if_less pl_query_def find_Some_iff_mem [symmetric]
  by (simp split: option.split)

lemma pl_between:
  assumes "pl_inv l" "i < length (pl_records l)" "j < length (pl_records l)"
  shows "(\<forall>k \<in> {i..<j}. pr_verified (pl_records l ! k)) =
     list_all pr_verified
       (filter (\<lambda>r. pr_frame_id r \<noteq> pr_frame_id (pl_records l ! j))
         (pl_getRange (pr_frame_id (pl_records l ! i)) (pr_frame_id (pl_records l ! j)) l))"
proof -
  let ?rs = "pl_records l" and ?id = "\<lambda>k. pr_frame_id (pl_records l ! k)"
  have "list_all pr_verified (filter (\<lambda>r. pr_frame_id r \<noteq> ?id j) (pl_getRange (?id i) (?id j) l)) =
      (\<forall>k < length ?rs. ?id i \<le> ?id k \<and> ?id k \<le> ?id j \<and> ?id k \<noteq> ?id j \<longrightarrow> pr_verified (?rs ! k))"
    by (auto simp: pl_getRange_def list_all_iff in_set_conv_nth)
  also have "\<dots> = (\<forall>k < length ?rs. i \<le> k \<and> k < j \<longrightarrow> pr_verified (?rs ! k))"
    using pl_index_mono_le [OF assms(1)] assms(2,3) by (simp add: less_le)
  also have "\<dots> = (\<forall>k \<in> {i..<j}. pr_verified (?rs ! k))"
    using assms(3) by auto
  finally show ?thesis by simp
qed

section \<open>Properties\<close>

text \<open>C8: After any sequence of appends to an empty ledger the records are strictly sorted by frame, and
  a query returns exactly the record appended last for the frame, or nothing if there was none.\<close>

theorem pl_append_history:
  "sorted_wrt (<) (map pr_frame_id (pl_records (fold pl_append rs pl_new))) \<and>
   pl_query f (fold pl_append rs pl_new) =
     (case find (\<lambda>r. pr_frame_id r = f) (rev rs) of None \<Rightarrow> [] | Some r \<Rightarrow> [r])"
proof
  show "sorted_wrt (<) (map pr_frame_id (pl_records (fold pl_append rs pl_new)))"
    using pl.fold_append_ok [OF pl.empty_ok, of rs] by (simp add: pl_inv_def sorted_wrt_map)
qed (rule pl.lookup_history)

text \<open>On a sorted ledger \<open>verifyChain\<close> for an ordered pair of frames returns normally and holds
  exactly when both frames are recorded and every record of the range except the last frame's own is
  verified: the record of \<open>toFrameId\<close> itself is not looked at. For a reversed pair it never
  confirms the chain: it returns false or runs past the end of the records.\<close>

theorem pl_verifyChain_exact:
  assumes "pl_inv l"
  shows "(a \<le> b \<longrightarrow> pl_verifyChain a b l =
            Inr (pl_query a l \<noteq> [] \<and> pl_query b l \<noteq> [] \<and>
                 list_all pr_verified (filter (\<lambda>r. pr_frame_id r \<noteq> b) (pl_getRange a b l)))) \<and>
         (b < a \<longrightarrow> pl_verifyChain a b l \<noteq> Inr True)"
proof (cases "pl_query a l = [] \<or> pl_query b l = []")
  case True
  then show ?thesis
    using pl_present [of a l] pl_present [of b l]
      find_index_if_le [of "\<lambda>r. pr_frame_id r = a" "pl_records l"]
      find_index_if_le [of "\<lambda>r. pr_frame_id r = b" "pl_records l"]
    by (auto simp: pl_verifyChain_def Let_def)
next
  case False
  let ?i = "find_index_if (\<lambda>r. pr_frame_id r = a) (pl_records l)"
  let ?j = "find_index_if (\<lambda>r. pr_frame_id r = b) (pl_records l)"
  have i: "?i < length (pl_records l)" "pr_frame_id (pl_records l ! ?i) = a"
    and j: "?j < length (pl_records l)" "pr_frame_id (pl_records l ! ?j) = b"
    using False pl_present [of a l] pl_present [of b l] by (auto dest: find_index_if_nth)
  then have eq: "pl_verifyChain a b l = pl_walk (pl_records l) ?i ?j"
    by (simp add: pl_verifyChain_def Let_def)
  have ord: "?i \<le> ?j \<longleftrightarrow> a \<le> b" using pl_index_mono_le(1) [OF assms i(1) j(1)] i j by simp
  show ?thesis
  proof (cases "a \<le> b")
    case True
    moreover from True have "\<not> b < a" by simp
    ultimately show ?thesis
      using pl_walk_forward [of ?i ?j "pl_records l"] pl_between [OF assms i(1) j(1)] ord i j False
      by (simp add: eq)
  next
    case False
    then show ?thesis
      using pl_walk_backward [of ?j ?i "pl_records l"] ord i by (simp add: eq)
  qed
qed

lemma pl_verifyChain_exact_witness:
  "pl_verifyChain 1 2 \<lparr>pl_records = [pr_default\<lparr>pr_frame_id := 1, pr_verified := True\<rparr>,
                                  pr_default\<lparr>pr_frame_id := 2\<rparr>]\<rparr> = Inr True"
  by (subst pl_verifyChain_exact [THEN conjunct1, rule_format])
    (simp_all add: pl_inv_def pr_default_def pl_query_def pl_getRange_def)

end
