(* ===== verification/Proof_Engine.thy ===== *)
theory Proof_Engine
  imports Proof_Ledger Complex_Main
begin

text \<open>
  \<open>server/runtime/system_proof_engine.\{h,cpp\}\<close>: what can be proved of a frame from the ledger.
  \<open>verifyDeterminism\<close> asks \<open>SystemConsistencyChecker::instance().isConsistent()\<close>, which the checker does
  not declare: its answer is the parameter \<open>consistent\<close>.
\<close>

record ProofResult =
  px_valid :: bool
  px_deterministic_ok :: bool
  px_causal_ok :: bool
  px_recovery_ok :: bool
  px_confidence :: real
  px_violations :: "string list"

definition px_default :: ProofResult where
  "px_default = \<lparr>px_valid = False, px_deterministic_ok = False, px_causal_ok = False,
     px_recovery_ok = False, px_confidence = 0, px_violations = []\<rparr>"

definition pe_verifyDeterminism :: "bool \<Rightarrow> u64 \<Rightarrow> bool" where
  "pe_verifyDeterminism consistent frameId = consistent"

definition pe_verifyCausality :: "ProofLedger \<Rightarrow> u64 \<Rightarrow> bool" where
  "pe_verifyCausality l frameId =
     (case pl_query frameId l of
        [] \<Rightarrow> False
      | rec # _ \<Rightarrow> if pr_frame_hash rec = 0 \<or> pr_ai_hash rec = 0 then False else True)"

definition pe_verifyRecoveryState :: "ProofLedger \<Rightarrow> u64 \<Rightarrow> bool" where
  "pe_verifyRecoveryState l frameId =
     (case pl_query frameId l of [] \<Rightarrow> False | rec # _ \<Rightarrow> pr_recovery_hash rec \<noteq> 0)"

definition pe_frame_text :: "u64 \<Rightarrow> string" where
  "pe_frame_text frameId = to_string (uint frameId)"

definition pe_proveFrame :: "bool \<Rightarrow> ProofLedger \<Rightarrow> u64 \<Rightarrow> ProofResult" where
  "pe_proveFrame consistent l frameId =
     (let det_ok = pe_verifyDeterminism consistent frameId;
          causal_ok = pe_verifyCausality l frameId;
          v1 = (if \<not> det_ok then [''Determinism violation in frame '' @ pe_frame_text frameId] else []);
          v2 = (if \<not> causal_ok then v1 @ [''Causality violation in frame '' @ pe_frame_text frameId] else v1)
      in px_default\<lparr>px_deterministic_ok := det_ok, px_causal_ok := causal_ok, px_recovery_ok := True,
           px_valid := det_ok \<and> causal_ok, px_violations := v2,
           px_confidence := (if det_ok then 4 / 10 else 0) + (if causal_ok then 4 / 10 else 0) + 2 / 10\<rparr>)"

definition pe_proveAI :: "bool \<Rightarrow> ProofLedger \<Rightarrow> u64 \<Rightarrow> ProofResult" where
  "pe_proveAI consistent l frameId =
     (let det_ok = pe_verifyDeterminism consistent frameId;
          causal_ok = pe_verifyCausality l frameId;
          v1 = (if \<not> det_ok then [''AI determinism violation in frame '' @ pe_frame_text frameId] else []);
          v2 = (if \<not> causal_ok then v1 @ [''AI causality violation in frame '' @ pe_frame_text frameId] else v1)
      in px_default\<lparr>px_deterministic_ok := det_ok, px_causal_ok := causal_ok, px_recovery_ok := True,
           px_valid := det_ok \<and> causal_ok, px_violations := v2,
           px_confidence := (if det_ok then 5 / 10 else 0) + (if causal_ok then 5 / 10 else 0)\<rparr>)"

definition pe_proveRecovery :: "ProofLedger \<Rightarrow> u64 \<Rightarrow> ProofResult" where
  "pe_proveRecovery l frameId =
     (let recovery_ok = pe_verifyRecoveryState l frameId
      in px_default\<lparr>px_deterministic_ok := True, px_causal_ok := True, px_recovery_ok := recovery_ok,
           px_valid := recovery_ok,
           px_violations := (if \<not> recovery_ok
              then [''Recovery state violation in frame '' @ pe_frame_text frameId] else []),
           px_confidence := (if recovery_ok then 1 else 0)\<rparr>)"

definition pe_proveSystemHealth :: "bool \<Rightarrow> ProofLedger \<Rightarrow> ProofResult" where
  "pe_proveSystemHealth consistent l =
     (let det_ok = pe_verifyDeterminism consistent 0;
          causal_ok = pe_verifyCausality l 0;
          recovery_ok = pe_verifyRecoveryState l 0;
          v1 = (if \<not> det_ok then [''System-wide determinism violation''] else []);
          v2 = (if \<not> causal_ok then v1 @ [''System-wide causality violation''] else v1);
          v3 = (if \<not> recovery_ok then v2 @ [''System-wide recovery state violation''] else v2)
      in px_default\<lparr>px_deterministic_ok := det_ok, px_causal_ok := causal_ok,
           px_recovery_ok := recovery_ok, px_valid := det_ok \<and> causal_ok \<and> recovery_ok,
           px_violations := v3,
           px_confidence := (if det_ok then 33 / 100 else 0) + (if causal_ok then 33 / 100 else 0)
             + (if recovery_ok then 34 / 100 else 0)\<rparr>)"

section \<open>What the verdicts mean\<close>

lemma pe_proveFrame_simps [simp]:
  "px_deterministic_ok (pe_proveFrame c l f) = c"
  "px_causal_ok (pe_proveFrame c l f) = pe_verifyCausality l f"
  "px_valid (pe_proveFrame c l f) = (c \<and> pe_verifyCausality l f)"
  "px_recovery_ok (pe_proveFrame c l f)"
  by (simp_all add: pe_proveFrame_def Let_def pe_verifyDeterminism_def)

lemma pe_verifyCausality_history:
  "pe_verifyCausality (fold pl_append rs pl_new) f =
     (case find (\<lambda>r. pr_frame_id r = f) (rev rs) of
        None \<Rightarrow> False | Some r \<Rightarrow> pr_frame_hash r \<noteq> 0 \<and> pr_ai_hash r \<noteq> 0)"
  by (simp add: pe_verifyCausality_def pl.lookup_history split: option.split)

lemma pe_verifyRecoveryState_history:
  "pe_verifyRecoveryState (fold pl_append rs pl_new) f =
     (case find (\<lambda>r. pr_frame_id r = f) (rev rs) of None \<Rightarrow> False | Some r \<Rightarrow> pr_recovery_hash r \<noteq> 0)"
  by (simp add: pe_verifyRecoveryState_def pl.lookup_history split: option.split)

section \<open>Properties\<close>

text \<open>Over the whole history of the ledger: a frame is proved valid exactly when the checker is
  consistent and the record appended last for the frame has a frame hash and an AI hash; its
  confidence then is 1. A frame proof never looks at the recovery state, so it claims it to be fine
  even when the recovery proof of the same frame fails. A frame that was never appended is neither
  valid nor recovered, with confidence at most 0.6.\<close>

theorem pe_proofs_of_history:
  "px_valid (pe_proveFrame consistent (fold pl_append rs pl_new) f) =
     (consistent \<and> (case find (\<lambda>r. pr_frame_id r = f) (rev rs) of
        None \<Rightarrow> False | Some r \<Rightarrow> pr_frame_hash r \<noteq> 0 \<and> pr_ai_hash r \<noteq> 0)) \<and>
   px_recovery_ok (pe_proveFrame consistent (fold pl_append rs pl_new) f) \<and>
   px_valid (pe_proveRecovery (fold pl_append rs pl_new) f) =
     (case find (\<lambda>r. pr_frame_id r = f) (rev rs) of None \<Rightarrow> False | Some r \<Rightarrow> pr_recovery_hash r \<noteq> 0) \<and>
   (px_confidence (pe_proveFrame consistent (fold pl_append rs pl_new) f) = 1) =
     px_valid (pe_proveFrame consistent (fold pl_append rs pl_new) f) \<and>
   (f \<in> pr_frame_id ` set rs \<or>
     \<not> px_valid (pe_proveFrame consistent (fold pl_append rs pl_new) f) \<and>
     \<not> px_valid (pe_proveRecovery (fold pl_append rs pl_new) f) \<and>
     px_confidence (pe_proveFrame consistent (fold pl_append rs pl_new) f) \<le> 6 / 10)"
proof (intro conjI)
  have none: "f \<notin> pr_frame_id ` set rs \<Longrightarrow> find (\<lambda>r. pr_frame_id r = f) (rev rs) = None"
    by (simp add: find_key_None)
  show "f \<in> pr_frame_id ` set rs \<or>
     \<not> px_valid (pe_proveFrame consistent (fold pl_append rs pl_new) f) \<and>
     \<not> px_valid (pe_proveRecovery (fold pl_append rs pl_new) f) \<and>
     px_confidence (pe_proveFrame consistent (fold pl_append rs pl_new) f) \<le> 6 / 10"
  proof (cases "f \<in> pr_frame_id ` set rs")
    case False
    from none [OF this] show ?thesis
      by (simp add: pe_verifyCausality_history pe_proveFrame_def pe_proveRecovery_def
          pe_verifyRecoveryState_history Let_def)
  qed simp
qed (auto simp: pe_verifyCausality_history pe_proveRecovery_def pe_verifyRecoveryState_history
    pe_proveFrame_def pe_verifyDeterminism_def Let_def)

end
