(* ===== verification/Recovery_Engine.thy ===== *)
theory Recovery_Engine
  imports Failure_Bus
begin

text \<open>
  \<open>server/runtime/runtime_recovery_engine.\{h,cpp\}\<close>: the mapping of failures to recovery actions and
  the execution of an action through user callbacks. A recovery callback returns a \<open>bool\<close> or throws;
  its answer is given by an environment \<open>env\<close> (callback, action). The calls made are returned as a
  trace. The locale \<open>recovery_service\<close> is the contract the kernel components rely on.
\<close>

datatype RecoveryAction =
    NONE | RESTART_AI | RESET_GPU | ROLLBACK_FRAME | ISOLATE_FACTORY | SWITCH_TO_SAFE_POLICY
  | REDUCE_FRAME_RATE | DISABLE_OVERLAY | RESTART_SUBSYSTEM | EMERGENCY_STOP

record RuntimeRecoveryEngine =
  re_in_recovery :: bool
  re_recovery_count :: u64
  re_last_action :: RecoveryAction
  re_last_action_reason :: string
  re_recovery_callbacks :: "nat list"
  re_start_callbacks :: "nat list"
  re_end_callbacks :: "nat list"

datatype re_call =
    StartCall nat RecoveryAction string
  | RecoveryCall nat RecoveryAction
  | EndCall nat RecoveryAction bool

type_synonym re_env = "nat \<Rightarrow> RecoveryAction \<Rightarrow> callback_result"

definition re_new :: RuntimeRecoveryEngine where
  "re_new = \<lparr>re_in_recovery = False, re_recovery_count = 0, re_last_action = NONE,
     re_last_action_reason = '''', re_recovery_callbacks = [], re_start_callbacks = [],
     re_end_callbacks = []\<rparr>"

definition re_initialize :: "RuntimeRecoveryEngine \<Rightarrow> RuntimeRecoveryEngine" where
  "re_initialize e = e\<lparr>re_in_recovery := False, re_recovery_count := 0, re_last_action := NONE,
     re_last_action_reason := ''''\<rparr>"

definition re_shutdown :: "RuntimeRecoveryEngine \<Rightarrow> RuntimeRecoveryEngine" where
  "re_shutdown e = e\<lparr>re_in_recovery := False, re_recovery_callbacks := [],
     re_start_callbacks := [], re_end_callbacks := []\<rparr>"

fun re_mapFailureToAction :: "FailureType \<Rightarrow> RecoveryAction" where
  "re_mapFailureToAction GPU_OVERRUN = RESET_GPU"
| "re_mapFailureToAction AI_CONVERGENCE_COLLAPSE = SWITCH_TO_SAFE_POLICY"
| "re_mapFailureToAction FRAME_HASH_MISMATCH = ROLLBACK_FRAME"
| "re_mapFailureToAction REPLAY_DESYNC = ROLLBACK_FRAME"
| "re_mapFailureToAction FACTORY_DESYNC = ISOLATE_FACTORY"
| "re_mapFailureToAction MEMORY_LEAK_DETECTED = REDUCE_FRAME_RATE"
| "re_mapFailureToAction POLICY_CORRUPTION = SWITCH_TO_SAFE_POLICY"
| "re_mapFailureToAction NETWORK_TIMEOUT = RESTART_SUBSYSTEM"
| "re_mapFailureToAction _ = NONE"

definition re_decide :: "FailureEvent \<Rightarrow> RecoveryAction" where
  "re_decide event = re_mapFailureToAction (fe_type event)"

definition re_beginRecovery ::
  "RecoveryAction \<Rightarrow> string \<Rightarrow> RuntimeRecoveryEngine \<Rightarrow> RuntimeRecoveryEngine \<times> re_call list" where
  "re_beginRecovery action reason e =
     (e\<lparr>re_in_recovery := True, re_last_action := action, re_last_action_reason := reason\<rparr>,
      map (\<lambda>cb. StartCall cb action reason) (re_start_callbacks e))"

definition re_endRecovery ::
  "bool \<Rightarrow> RuntimeRecoveryEngine \<Rightarrow> RuntimeRecoveryEngine \<times> re_call list" where
  "re_endRecovery success e =
     (e\<lparr>re_in_recovery := False,
        re_recovery_count := (if success then re_recovery_count e + 1 else re_recovery_count e)\<rparr>,
      map (\<lambda>cb. EndCall cb (re_last_action e) success) (re_end_callbacks e))"

text \<open>The loop over the recovery callbacks, which stops at the first refusal or exception.\<close>

fun re_run_callbacks :: "re_env \<Rightarrow> RecoveryAction \<Rightarrow> nat list \<Rightarrow> bool \<times> re_call list" where
  "re_run_callbacks env action [] = (True, [])"
| "re_run_callbacks env action (cb # cbs) =
     (case env cb action of
        Returns True \<Rightarrow>
          (case re_run_callbacks env action cbs of (ok, tr) \<Rightarrow> (ok, RecoveryCall cb action # tr))
      | Returns False \<Rightarrow> (False, [RecoveryCall cb action])
      | Throws \<Rightarrow> (False, [RecoveryCall cb action]))"

definition re_execute_trace ::
  "re_env \<Rightarrow> RecoveryAction \<Rightarrow> RuntimeRecoveryEngine \<Rightarrow> bool \<times> RuntimeRecoveryEngine \<times> re_call list" where
  "re_execute_trace env action e =
     (if action = NONE then (True, e, [])
      else let (e1, t1) = re_beginRecovery action '''' e;
               (ok, t2) = re_run_callbacks env action (re_recovery_callbacks e1);
               (e2, t3) = re_endRecovery ok e1
           in (ok, e2, t1 @ t2 @ t3))"

definition re_execute ::
  "re_env \<Rightarrow> RecoveryAction \<Rightarrow> RuntimeRecoveryEngine \<Rightarrow> bool \<times> RuntimeRecoveryEngine" where
  "re_execute env action e = (case re_execute_trace env action e of (ok, e', _) \<Rightarrow> (ok, e'))"

definition re_inRecovery :: "RuntimeRecoveryEngine \<Rightarrow> bool" where
  "re_inRecovery e = re_in_recovery e"

definition re_getRecoveryCount :: "RuntimeRecoveryEngine \<Rightarrow> u64" where
  "re_getRecoveryCount e = re_recovery_count e"

definition re_getLastAction :: "RuntimeRecoveryEngine \<Rightarrow> RecoveryAction" where
  "re_getLastAction e = re_last_action e"

definition re_getLastActionReason :: "RuntimeRecoveryEngine \<Rightarrow> string" where
  "re_getLastActionReason e = re_last_action_reason e"

definition re_registerRecoveryCallback :: "nat \<Rightarrow> RuntimeRecoveryEngine \<Rightarrow> RuntimeRecoveryEngine" where
  "re_registerRecoveryCallback cb e = e\<lparr>re_recovery_callbacks := re_recovery_callbacks e @ [cb]\<rparr>"

definition re_registerRecoveryStartCallback :: "nat \<Rightarrow> RuntimeRecoveryEngine \<Rightarrow> RuntimeRecoveryEngine" where
  "re_registerRecoveryStartCallback cb e = e\<lparr>re_start_callbacks := re_start_callbacks e @ [cb]\<rparr>"

definition re_registerRecoveryEndCallback :: "nat \<Rightarrow> RuntimeRecoveryEngine \<Rightarrow> RuntimeRecoveryEngine" where
  "re_registerRecoveryEndCallback cb e = e\<lparr>re_end_callbacks := re_end_callbacks e @ [cb]\<rparr>"

section \<open>The contract towards clients\<close>

text \<open>Several actions executed one after the other, results ignored, as the kernel does it.\<close>

definition execute_all :: "('a \<Rightarrow> 'e \<Rightarrow> bool \<times> 'e) \<Rightarrow> 'a list \<Rightarrow> 'e \<Rightarrow> 'e" where
  "execute_all exec acts e = foldl (\<lambda>e a. snd (exec a e)) e acts"

lemma execute_all_simps [simp]:
  "execute_all exec [] e = e"
  "execute_all exec (a # acts) e = execute_all exec acts (snd (exec a e))"
  "execute_all exec (acts @ acts') e = execute_all exec acts' (execute_all exec acts e)"
  by (simp_all add: execute_all_def)

locale recovery_service =
  fixes exec :: "'a \<Rightarrow> 'e \<Rightarrow> bool \<times> 'e"
    and busy :: "'e \<Rightarrow> bool"
    and last_done :: "'e \<Rightarrow> 'a"
    and successes :: "'e \<Rightarrow> u64"
    and accepts :: "'a \<Rightarrow> 'e \<Rightarrow> bool"
    and noop :: 'a
  assumes exec_noop: "snd (exec noop e) = e"
    and exec_idle: "a \<noteq> noop \<Longrightarrow> \<not> busy (snd (exec a e))"
    and exec_last: "a \<noteq> noop \<Longrightarrow> last_done (snd (exec a e)) = a"
    and exec_successes: "a \<noteq> noop \<Longrightarrow>
      successes (snd (exec a e)) = successes e + (if accepts a e then 1 else 0)"
    and exec_accepts: "accepts b (snd (exec a e)) = accepts b e"
begin

lemma execute_all_last:
  "acts \<noteq> [] \<Longrightarrow> noop \<notin> set acts \<Longrightarrow> last_done (execute_all exec acts e) = last acts"
  by (induction acts rule: rev_induct) (auto simp: exec_last)

lemma execute_all_idle:
  "\<not> busy e \<or> acts \<noteq> [] \<Longrightarrow> noop \<notin> set acts \<Longrightarrow> \<not> busy (execute_all exec acts e)"
  by (induction acts rule: rev_induct) (auto simp: exec_idle)

lemma execute_all_successes:
  "noop \<notin> set acts \<Longrightarrow>
   successes (execute_all exec acts e) = successes e + of_nat (length (filter (\<lambda>a. accepts a e) acts))"
proof (induction acts arbitrary: e)
  case Nil
  then show ?case by simp
next
  case (Cons a acts)
  then have "a \<noteq> noop" by auto
  with Cons show ?case by (simp add: exec_successes exec_accepts algebra_simps)
qed

end

lemma re_run_callbacks_ok:
  "fst (re_run_callbacks env a cbs) \<longleftrightarrow> (\<forall>cb \<in> set cbs. env cb a = Returns True)"
  by (induction cbs) (auto split: callback_result.split bool.split prod.split)

definition re_accepts :: "re_env \<Rightarrow> RecoveryAction \<Rightarrow> RuntimeRecoveryEngine \<Rightarrow> bool" where
  "re_accepts env a e \<longleftrightarrow> list_all (\<lambda>cb. env cb a = Returns True) (re_recovery_callbacks e)"

lemma re_execute_eq:
  "re_execute env a e =
     (if a = NONE then (True, e)
      else (re_accepts env a e,
            e\<lparr>re_in_recovery := False, re_last_action := a, re_last_action_reason := '''',
              re_recovery_count := re_recovery_count e + (if re_accepts env a e then 1 else 0)\<rparr>))"
  using re_run_callbacks_ok [of env a "re_recovery_callbacks e"]
  by (auto simp: re_execute_def re_execute_trace_def re_beginRecovery_def re_endRecovery_def
      re_accepts_def list_all_iff split: prod.split)

interpretation re: recovery_service "re_execute env" re_in_recovery re_last_action re_recovery_count
    "re_accepts env" NONE
  for env :: re_env
  by unfold_locales (auto simp: re_execute_eq re_accepts_def)

section \<open>Properties\<close>

lemma re_run_callbacks_trace:
  "snd (re_run_callbacks env a cbs) =
     map (\<lambda>cb. RecoveryCall cb a)
       (takeWhile (\<lambda>cb. env cb a = Returns True) cbs @
        take 1 (dropWhile (\<lambda>cb. env cb a = Returns True) cbs))"
  by (induction cbs) (auto split: callback_result.split bool.split prod.split)

text \<open>Executing a recovery action succeeds exactly when every recovery callback returns true; the
  callbacks are called in order up to and including the first one that refuses or throws, between
  the start callbacks and the end callbacks; afterwards the engine is idle, remembers the action,
  and has counted it if it succeeded. The action NONE succeeds without touching anything.\<close>

theorem re_execute_exact:
  "re_execute_trace env a e =
     (if a = NONE then (True, e, [])
      else (re_accepts env a e,
            e\<lparr>re_in_recovery := False, re_last_action := a, re_last_action_reason := '''',
              re_recovery_count := re_recovery_count e + (if re_accepts env a e then 1 else 0)\<rparr>,
            map (\<lambda>cb. StartCall cb a '''') (re_start_callbacks e) @
            map (\<lambda>cb. RecoveryCall cb a)
              (takeWhile (\<lambda>cb. env cb a = Returns True) (re_recovery_callbacks e) @
               take 1 (dropWhile (\<lambda>cb. env cb a = Returns True) (re_recovery_callbacks e))) @
            map (\<lambda>cb. EndCall cb a (re_accepts env a e)) (re_end_callbacks e)))"
  using re_run_callbacks_ok [of env a "re_recovery_callbacks e"]
    re_run_callbacks_trace [of env a "re_recovery_callbacks e"]
  by (auto simp: re_execute_trace_def re_beginRecovery_def re_endRecovery_def re_accepts_def
      list_all_iff split: prod.split)

text \<open>The failures that trigger no recovery are exactly UNKNOWN and SPATIAL_LOCALIZATION_DRIFT: the
  code has no case for the drift failures that the truth gate publishes, so they fall through to
  the default and deciding and executing on one leaves the engine as it was.\<close>

theorem re_decide_none:
  "(re_decide event = NONE \<longleftrightarrow>
      fe_type event = UNKNOWN \<or> fe_type event = SPATIAL_LOCALIZATION_DRIFT) \<and>
   (re_decide event = NONE \<longleftrightarrow>
      (\<forall>e. re_execute_trace env (re_decide event) e = (True, e, [])))"
proof
  show "re_decide event = NONE \<longleftrightarrow>
      fe_type event = UNKNOWN \<or> fe_type event = SPATIAL_LOCALIZATION_DRIFT"
    by (cases "fe_type event") (simp_all add: re_decide_def)
  have "a = NONE" if *: "\<forall>e. re_execute_trace env a e = (True, e, [])" for a
  proof (rule ccontr)
    let ?e = "re_new\<lparr>re_in_recovery := True\<rparr>"
    assume "a \<noteq> NONE"
    then have "\<not> re_in_recovery (snd (re_execute env a ?e))" by (simp add: re_execute_eq)
    moreover from * have "snd (re_execute env a ?e) = ?e" by (simp add: re_execute_def)
    ultimately show False by simp
  qed
  then show "re_decide event = NONE \<longleftrightarrow>
      (\<forall>e. re_execute_trace env (re_decide event) e = (True, e, []))"
    by (metis re_execute_trace_def)
qed

end
