(* ===== verification/Spatial_Frame.thy ===== *)
theory Spatial_Frame
  imports Base "HOL-Library.List_Lexorder" "HOL-Library.Char_ord"
begin

text \<open>
  \<open>server/runtime/spatial_frame.\{h,cpp\}\<close>: the frame that the runtime produces, streams, records and
  replays, and its hash. A frame's \<open>double\<close> and \<open>float\<close> members are only copied and hashed through
  their bits here, so they are their IEEE bit patterns (64 and 32 bit words). \<open>std::map\<close> from strings
  is an association list in key order. \<open>std::hash\<close> of the integer types is implementation defined: it
  is the parameter \<open>H\<close> of the hash functions.
\<close>

unbundle bit_operations_syntax

type_synonym f64 = "64 word"
type_synonym f32 = "32 word"

record AssetPosition =
  ap_asset_id :: int
  ap_asset_name :: string
  ap_tag_id :: string
  ap_x :: f64
  ap_y :: f64
  ap_vx :: f64
  ap_vy :: f64
  ap_risk_score :: f64
  ap_state :: int
  ap_size :: f32
  ap_action_scores :: "(string \<times> f64) list"
  ap_top_action :: string
  ap_top_score :: f64
  ap_predicted_x :: f64
  ap_predicted_y :: f64
  ap_prediction_confidence :: f64

record HeatCell =
  hc_x :: int
  hc_y :: int
  hc_value :: f32

record CongestionZone =
  cz_id :: int
  cz_name :: string
  cz_x :: f32
  cz_y :: f32
  cz_radius :: f32
  cz_density :: f32
  cz_asset_count :: int
  cz_level :: string

record DecisionPoint =
  dp_asset_id :: int
  dp_action :: string
  dp_confidence :: f64
  dp_expected_reward :: f64
  dp_reason :: string

record PathPrediction =
  pp_asset_id :: int
  pp_x :: f64
  pp_y :: f64
  pp_confidence :: f64
  pp_timestamp :: int

text \<open>\<open>reason\<close> is the array of 128 characters.\<close>

record DecisionOverlay =
  ov_asset_id :: u64
  ov_x :: f32
  ov_y :: f32
  ov_action :: u32
  ov_confidence :: f32
  ov_missing_risk :: f32
  ov_abnormal_risk :: f32
  ov_inactivity_risk :: f32
  ov_reason :: string
  ov_timestamp :: u64

record SpatialFrame =
  sf_timestamp :: int
  sf_frame_id :: u64
  sf_assets :: "AssetPosition list"
  sf_heatmap :: "HeatCell list"
  sf_congestion :: "CongestionZone list"
  sf_decisions :: "DecisionPoint list"
  sf_predictions :: "PathPrediction list"
  sf_overlays :: "DecisionOverlay list"
  sf_processing_time_ms :: f64
  sf_is_key_frame :: bool
  sf_decision_hash :: u64
  sf_collect_ms :: f64
  sf_heatmap_ms :: f64
  sf_congestion_ms :: f64
  sf_decision_ms :: f64
  sf_overlay_ms :: f64
  sf_upload_ms :: f64
  sf_render_ms :: f64

definition sf_clear :: "SpatialFrame \<Rightarrow> SpatialFrame" where
  "sf_clear f = f\<lparr>sf_timestamp := 0, sf_frame_id := 0, sf_assets := [], sf_heatmap := [],
     sf_congestion := [], sf_decisions := [], sf_predictions := [], sf_overlays := [],
     sf_processing_time_ms := 0, sf_is_key_frame := False, sf_decision_hash := 0,
     sf_collect_ms := 0, sf_heatmap_ms := 0, sf_congestion_ms := 0, sf_decision_ms := 0,
     sf_overlay_ms := 0, sf_upload_ms := 0, sf_render_ms := 0\<rparr>"

definition sf_totalSize :: "SpatialFrame \<Rightarrow> nat" where
  "sf_totalSize f = length (sf_assets f) + length (sf_heatmap f) + length (sf_congestion f)
     + length (sf_decisions f) + length (sf_predictions f) + length (sf_overlays f)"

text \<open>An empty frame, for examples.\<close>

definition sf_zero :: SpatialFrame where
  "sf_zero = \<lparr>sf_timestamp = 0, sf_frame_id = 0, sf_assets = [], sf_heatmap = [],
     sf_congestion = [], sf_decisions = [], sf_predictions = [], sf_overlays = [],
     sf_processing_time_ms = 0, sf_is_key_frame = False, sf_decision_hash = 0,
     sf_collect_ms = 0, sf_heatmap_ms = 0, sf_congestion_ms = 0, sf_decision_ms = 0,
     sf_overlay_ms = 0, sf_upload_ms = 0, sf_render_ms = 0\<rparr>"

section \<open>The hash\<close>

text \<open>What \<open>hashCombine\<close> is instantiated with: its argument, tagged with its C++ type.\<close>

datatype hash_arg = HI32 int | HI64 int | HU32 u32 | HU64 u64

type_synonym std_hash = "hash_arg \<Rightarrow> u64"

definition hashCombine :: "std_hash \<Rightarrow> u64 \<Rightarrow> hash_arg \<Rightarrow> u64" where
  "hashCombine H seed val =
     seed XOR (H val + 0x9e3779b9 + push_bit 6 seed + drop_bit 2 seed)"

definition hashDouble :: "f64 \<Rightarrow> u64" where
  "hashDouble d = d"

definition hashFloat :: "f32 \<Rightarrow> u64" where
  "hashFloat f = ucast f"

text \<open>A \<open>char\<close> is signed: converting it to 64 bits extends its sign.\<close>

definition char_u64 :: "char \<Rightarrow> u64" where
  "char_u64 c = scast (of_char c :: 8 word)"

definition hashString :: "string \<Rightarrow> u64" where
  "hashString s = foldl (\<lambda>hash c. (hash XOR char_u64 c) * 0x100000001b3) 0xcbf29ce484222325 s"

text \<open>The arguments of the successive calls of \<open>hashCombine\<close>, vector by vector.\<close>

definition ap_hash_args :: "AssetPosition \<Rightarrow> hash_arg list" where
  "ap_hash_args a =
     [HI32 (ap_asset_id a), HU64 (hashString (ap_asset_name a)), HU64 (hashString (ap_tag_id a)),
      HU64 (hashDouble (ap_x a)), HU64 (hashDouble (ap_y a)), HU64 (hashDouble (ap_vx a)),
      HU64 (hashDouble (ap_vy a)), HU64 (hashDouble (ap_risk_score a)), HI32 (ap_state a),
      HU64 (hashFloat (ap_size a)), HU64 (hashString (ap_top_action a)),
      HU64 (hashDouble (ap_top_score a)), HU64 (hashDouble (ap_predicted_x a)),
      HU64 (hashDouble (ap_predicted_y a)), HU64 (hashDouble (ap_prediction_confidence a))]
     @ concat (map (\<lambda>(k, v). [HU64 (hashString k), HU64 (hashDouble v)])
                 (std_sort (\<lambda>p q. fst p < fst q) (ap_action_scores a)))"

definition hc_hash_args :: "HeatCell \<Rightarrow> hash_arg list" where
  "hc_hash_args c = [HI32 (hc_x c), HI32 (hc_y c), HU64 (hashFloat (hc_value c))]"

definition cz_hash_args :: "CongestionZone \<Rightarrow> hash_arg list" where
  "cz_hash_args z =
     [HI32 (cz_id z), HU64 (hashString (cz_name z)), HU64 (hashFloat (cz_x z)),
      HU64 (hashFloat (cz_y z)), HU64 (hashFloat (cz_radius z)), HU64 (hashFloat (cz_density z)),
      HI32 (cz_asset_count z), HU64 (hashString (cz_level z))]"

definition dp_hash_args :: "DecisionPoint \<Rightarrow> hash_arg list" where
  "dp_hash_args d =
     [HI32 (dp_asset_id d), HU64 (hashString (dp_action d)), HU64 (hashDouble (dp_confidence d)),
      HU64 (hashDouble (dp_expected_reward d)), HU64 (hashString (dp_reason d))]"

definition pp_hash_args :: "PathPrediction \<Rightarrow> hash_arg list" where
  "pp_hash_args p =
     [HI32 (pp_asset_id p), HU64 (hashDouble (pp_x p)), HU64 (hashDouble (pp_y p)),
      HU64 (hashDouble (pp_confidence p)), HI64 (pp_timestamp p)]"

definition ov_hash_args :: "DecisionOverlay \<Rightarrow> hash_arg list" where
  "ov_hash_args v =
     [HU64 (ov_asset_id v), HU64 (hashFloat (ov_x v)), HU64 (hashFloat (ov_y v)),
      HU32 (ov_action v), HU64 (hashFloat (ov_confidence v)), HU64 (hashFloat (ov_missing_risk v)),
      HU64 (hashFloat (ov_abnormal_risk v)), HU64 (hashFloat (ov_inactivity_risk v)),
      HU64 (ov_timestamp v)]
     @ map (\<lambda>c. HU64 (char_u64 c)) (takeWhile (\<lambda>c. c \<noteq> CHR 0x00) (take 128 (ov_reason v)))"

definition sf_hash_args :: "SpatialFrame \<Rightarrow> hash_arg list" where
  "sf_hash_args f =
     [HI64 (sf_timestamp f), HU64 (sf_frame_id f)]
     @ concat (map ap_hash_args (std_sort (\<lambda>a b. ap_asset_id a < ap_asset_id b) (sf_assets f)))
     @ concat (map hc_hash_args
         (std_sort (\<lambda>a b. if hc_x a \<noteq> hc_x b then hc_x a < hc_x b else hc_y a < hc_y b) (sf_heatmap f)))
     @ concat (map cz_hash_args (std_sort (\<lambda>a b. cz_id a < cz_id b) (sf_congestion f)))
     @ concat (map dp_hash_args (std_sort (\<lambda>a b. dp_asset_id a < dp_asset_id b) (sf_decisions f)))
     @ concat (map pp_hash_args (std_sort (\<lambda>a b. pp_asset_id a < pp_asset_id b) (sf_predictions f)))
     @ concat (map ov_hash_args (std_sort (\<lambda>a b. ov_asset_id a < ov_asset_id b) (sf_overlays f)))
     @ [HU64 (sf_decision_hash f)]"

definition sf_hash :: "std_hash \<Rightarrow> SpatialFrame \<Rightarrow> u64" where
  "sf_hash H f = foldl (hashCombine H) 0 (sf_hash_args f)"

section \<open>Independence of the order of the vectors\<close>

text \<open>
  Frames that differ only in the order of their vectors, in which no two different elements of one
  vector have the same sort key.
\<close>

definition sf_reordered :: "SpatialFrame \<Rightarrow> SpatialFrame \<Rightarrow> bool" where
  "sf_reordered f g \<longleftrightarrow>
     sf_timestamp f = sf_timestamp g \<and> sf_frame_id f = sf_frame_id g \<and>
     sf_decision_hash f = sf_decision_hash g \<and>
     mset (sf_assets f) = mset (sf_assets g) \<and> inj_on ap_asset_id (set (sf_assets f)) \<and>
     mset (sf_heatmap f) = mset (sf_heatmap g) \<and> inj_on (\<lambda>c. (hc_x c, hc_y c)) (set (sf_heatmap f)) \<and>
     mset (sf_congestion f) = mset (sf_congestion g) \<and> inj_on cz_id (set (sf_congestion f)) \<and>
     mset (sf_decisions f) = mset (sf_decisions g) \<and> inj_on dp_asset_id (set (sf_decisions f)) \<and>
     mset (sf_predictions f) = mset (sf_predictions g) \<and> inj_on pp_asset_id (set (sf_predictions f)) \<and>
     mset (sf_overlays f) = mset (sf_overlays g) \<and> inj_on ov_asset_id (set (sf_overlays f))"

lemma std_sort_key_perm_inj:
  fixes k :: "'a \<Rightarrow> 'k::linorder"
  assumes "mset xs = mset ys" "inj_on k (set xs)"
  shows "std_sort (\<lambda>a b. k a < k b) xs = std_sort (\<lambda>a b. k a < k b) ys"
proof -
  let ?s = "std_sort (\<lambda>a b. k a < k b)"
  have "sorted (map k (?s zs))" for zs using sorted_std_sort_key [of k zs] by (simp add: sorted_wrt_map)
  moreover have "mset (map k (?s xs)) = mset (map k (?s ys))" using assms(1) by simp
  ultimately have "map k (?s xs) = map k (?s ys)" by (metis properties_for_sort sorted_sort_id)
  moreover have "set ys = set xs" using assms(1) by (metis set_mset_mset)
  then have "inj_on k (set (?s xs) \<union> set (?s ys))" using assms(2) by simp
  ultimately show ?thesis by (simp add: inj_on_map_eq_map)
qed

lemma hc_less:
  "(\<lambda>a b. if hc_x a \<noteq> hc_x b then hc_x a < hc_x b else hc_y a < hc_y b) =
   (\<lambda>a b. (hc_x a, hc_y a) < (hc_x b, hc_y b))"
  by (intro ext) auto

lemma sf_hash_args_reordered: "sf_reordered f g \<Longrightarrow> sf_hash_args f = sf_hash_args g"
  unfolding sf_reordered_def sf_hash_args_def hc_less
  using std_sort_key_perm_inj [of "sf_assets f" "sf_assets g" ap_asset_id]
    std_sort_key_perm_inj [of "sf_heatmap f" "sf_heatmap g" "\<lambda>c. (hc_x c, hc_y c)"]
    std_sort_key_perm_inj [of "sf_congestion f" "sf_congestion g" cz_id]
    std_sort_key_perm_inj [of "sf_decisions f" "sf_decisions g" dp_asset_id]
    std_sort_key_perm_inj [of "sf_predictions f" "sf_predictions g" pp_asset_id]
    std_sort_key_perm_inj [of "sf_overlays f" "sf_overlays g" ov_asset_id]
  by simp

section \<open>Properties\<close>

text \<open>The \<open>std::hash\<close> of the integer types in libstdc++: the value itself, converted to \<open>size_t\<close>.\<close>

fun std_hash_id :: std_hash where
  "std_hash_id (HI32 i) = word_of_int i"
| "std_hash_id (HI64 i) = word_of_int i"
| "std_hash_id (HU32 w) = ucast w"
| "std_hash_id (HU64 w) = w"

definition pp_example :: "f64 \<Rightarrow> PathPrediction" where
  "pp_example x = \<lparr>pp_asset_id = 1, pp_x = x, pp_y = 0, pp_confidence = 0, pp_timestamp = 0\<rparr>"

text \<open>C7: When the frame hash depends on the order of the frame's vectors. As long as no two different
  elements of one vector have the same sort key (the asset id, the zone id, the coordinates of the cell),
  it does not depend on the order in which assets, heat cells, congestion zones, decisions,
  predictions and overlays were added to the frame, whatever \<open>std::hash\<close> is; it ignores the key-frame
  flag and all timings. The condition is needed: \<open>std::sort\<close> leaves the order of elements with the same key
  open, libstdc++'s insertion sort of short vectors keeps the one they were added in, and then two
  predictions for one asset, in the one order and in the other, give different hashes.\<close>

theorem sf_hash_order_independent:
  assumes "sf_reordered f g"
  shows "sf_hash H f = sf_hash H g \<and>
    sf_hash std_hash_id (sf_zero\<lparr>sf_predictions := [pp_example 1, pp_example 2]\<rparr>) \<noteq>
    sf_hash std_hash_id (sf_zero\<lparr>sf_predictions := [pp_example 2, pp_example 1]\<rparr>)"
proof
  show "sf_hash H f = sf_hash H g"
    using sf_hash_args_reordered [OF assms] by (simp add: sf_hash_def)
  show "sf_hash std_hash_id (sf_zero\<lparr>sf_predictions := [pp_example 1, pp_example 2]\<rparr>) \<noteq>
    sf_hash std_hash_id (sf_zero\<lparr>sf_predictions := [pp_example 2, pp_example 1]\<rparr>)"
    by code_simp
qed

definition ap_example :: "int \<Rightarrow> AssetPosition" where
  "ap_example i = \<lparr>ap_asset_id = i, ap_asset_name = ''a'', ap_tag_id = ''t'', ap_x = 0, ap_y = 0,
     ap_vx = 0, ap_vy = 0, ap_risk_score = 0, ap_state = 0, ap_size = 0,
     ap_action_scores = [(''A'', 1), (''B'', 2)], ap_top_action = ''A'', ap_top_score = 0,
     ap_predicted_x = 0, ap_predicted_y = 0, ap_prediction_confidence = 0\<rparr>"

lemma sf_hash_order_independent_witness:
  "sf_hash (\<lambda>_. 0) (sf_zero\<lparr>sf_assets := [ap_example 1, ap_example 2]\<rparr>) =
   sf_hash (\<lambda>_. 0) (sf_zero\<lparr>sf_assets := [ap_example 2, ap_example 1]\<rparr>)"
  by (rule sf_hash_order_independent [THEN conjunct1]) (simp add: sf_reordered_def sf_zero_def ap_example_def)

end
