(* ===== verification/Runtime_Kernel.thy ===== *)
theory Runtime_Kernel
  imports Consistency_Checker Proof_Engine Recovery_Engine Spatial_Frame
begin

text \<open>
  \<open>server/runtime/kernel/\<close>: the kernels that turn verification results into a trust score and recovery
  actions. \<open>RuntimeKernel\<close> (with its own checker, the shared ledger and the shared recovery engine),
  the gates around it, \<open>SelfHealingController\<close>, and the \<open>MicroKernel\<close> with its pipeline and router.
  The kernels use the recovery engine through the contract \<open>recovery_service\<close>.
\<close>

section \<open>RuntimeKernel\<close>

record RuntimeKernel =
  rk_checker :: SystemConsistencyChecker
  rk_trust_score :: int

definition rk_new :: RuntimeKernel where
  "rk_new = \<lparr>rk_checker = cc_new, rk_trust_score = 100\<rparr>"

text \<open>\<open>std::max(0, std::min(100, x))\<close>.\<close>

definition clamp_score :: "int \<Rightarrow> int" where
  "clamp_score x = max 0 (min 100 x)"

definition rk_evaluateConsistency :: "ConsistencyInput \<Rightarrow> RuntimeKernel \<Rightarrow> RuntimeKernel" where
  "rk_evaluateConsistency i k =
     (let (result, c) = cc_verify i (rk_checker k);
          t0 = rk_trust_score k;
          t1 = (if \<not> cr_frame_consistent result then t0 - 20 else t0);
          t2 = (if \<not> cr_ai_consistent result then t1 - 30 else t1);
          t3 = (if \<not> cr_gpu_consistent result then t2 - 30 else t2);
          t4 = (if cr_confidence result < 6 / 10 then t3 - 10 else t3)
      in k\<lparr>rk_checker := c, rk_trust_score := clamp_score t4\<rparr>)"

definition rk_evaluateProof :: "bool \<Rightarrow> ProofLedger \<Rightarrow> u64 \<Rightarrow> RuntimeKernel \<Rightarrow> RuntimeKernel" where
  "rk_evaluateProof consistent l frame_id k =
     (let result = pe_proveFrame consistent l frame_id;
          t0 = rk_trust_score k;
          t1 = (if \<not> px_valid result then t0 - 25 else t0);
          t2 = (if \<not> px_deterministic_ok result then t1 - 25 else t1);
          t3 = (if \<not> px_causal_ok result then t2 - 20 else t2)
      in k\<lparr>rk_trust_score := clamp_score t3\<rparr>)"

definition rk_evaluateCausality :: "u64 \<Rightarrow> RuntimeKernel \<Rightarrow> RuntimeKernel" where
  "rk_evaluateCausality frame_id k = k\<lparr>rk_trust_score := clamp_score (rk_trust_score k)\<rparr>"

definition rk_triggerHealingIfNeeded ::
  "re_env \<Rightarrow> RuntimeKernel \<Rightarrow> RuntimeRecoveryEngine \<Rightarrow> RuntimeRecoveryEngine" where
  "rk_triggerHealingIfNeeded env k e =
     (let t = rk_trust_score k in
      if t > 80 then e
      else let e1 = (if t < 50 then snd (re_execute env SWITCH_TO_SAFE_POLICY e) else e);
               e2 = (if t < 30 then snd (re_execute env RESTART_SUBSYSTEM e1) else e1)
           in (if t < 10 then snd (re_execute env EMERGENCY_STOP e2) else e2))"

definition rk_tick ::
  "re_env \<Rightarrow> bool \<Rightarrow> ProofLedger \<Rightarrow> ConsistencyInput \<Rightarrow>
   RuntimeKernel \<times> RuntimeRecoveryEngine \<Rightarrow> RuntimeKernel \<times> RuntimeRecoveryEngine" where
  "rk_tick env consistent l i s =
     (let k1 = rk_evaluateConsistency i (fst s);
          k2 = rk_evaluateProof consistent l (ci_frame_id i) k1;
          k3 = rk_evaluateCausality (ci_frame_id i) k2
      in (k3, rk_triggerHealingIfNeeded env k3 (snd s)))"

definition rk_isSystemTrusted :: "RuntimeKernel \<Rightarrow> bool" where
  "rk_isSystemTrusted k \<longleftrightarrow> rk_trust_score k > 70"

definition rk_getTrustScore :: "RuntimeKernel \<Rightarrow> int" where
  "rk_getTrustScore k = rk_trust_score k"

definition rk_resetTrustScore :: "RuntimeKernel \<Rightarrow> RuntimeKernel" where
  "rk_resetTrustScore k = k\<lparr>rk_trust_score := 100\<rparr>"

section \<open>The gates\<close>

record TruthConsistencyGate =
  tg_checker :: SystemConsistencyChecker
  tg_last_result :: ConsistencyResult
  tg_last_score :: int

definition tg_new :: TruthConsistencyGate where
  "tg_new = \<lparr>tg_checker = cc_new,
     tg_last_result = \<lparr>cr_frame_consistent = False, cr_ai_consistent = False,
       cr_gpu_consistent = False, cr_confidence = 0, cr_violations = []\<rparr>,
     tg_last_score = 0\<rparr>"

definition tg_evaluate :: "ConsistencyInput \<Rightarrow> TruthConsistencyGate \<Rightarrow> int \<times> TruthConsistencyGate" where
  "tg_evaluate i g =
     (let (r, c) = cc_verify i (tg_checker g);
          score = (if cr_frame_consistent r then 34 else 0) + (if cr_ai_consistent r then 33 else 0)
                  + (if cr_gpu_consistent r then 33 else 0)
      in (score, g\<lparr>tg_checker := c, tg_last_result := r, tg_last_score := score\<rparr>))"

definition tg_getLastResult :: "TruthConsistencyGate \<Rightarrow> ConsistencyResult" where
  "tg_getLastResult g = tg_last_result g"

definition tg_isValid :: "TruthConsistencyGate \<Rightarrow> bool" where
  "tg_isValid g \<longleftrightarrow> cr_frame_consistent (tg_last_result g) \<and> cr_ai_consistent (tg_last_result g) \<and>
     cr_gpu_consistent (tg_last_result g)"

record ProofVerificationGate =
  vg_last_result :: ProofResult

definition vg_new :: ProofVerificationGate where
  "vg_new = \<lparr>vg_last_result = px_default\<rparr>"

definition vg_verify ::
  "bool \<Rightarrow> ProofLedger \<Rightarrow> u64 \<Rightarrow> ProofVerificationGate \<Rightarrow> bool \<times> ProofVerificationGate" where
  "vg_verify consistent l frame_id g =
     (let r = pe_proveFrame consistent l frame_id in (px_valid r, g\<lparr>vg_last_result := r\<rparr>))"

definition vg_getLastResult :: "ProofVerificationGate \<Rightarrow> ProofResult" where
  "vg_getLastResult g = vg_last_result g"

definition vg_getConfidence :: "ProofVerificationGate \<Rightarrow> real" where
  "vg_getConfidence g = px_confidence (vg_last_result g)"

section \<open>SelfHealingController\<close>

text \<open>\<open>is_recovering_\<close> is only ever set to false in the code.\<close>

record SelfHealingController =
  sh_is_recovering :: bool
  sh_last_action :: RecoveryAction

definition sh_new :: SelfHealingController where
  "sh_new = \<lparr>sh_is_recovering = False, sh_last_action = NONE\<rparr>"

definition sh_triggerRecovery ::
  "re_env \<Rightarrow> int \<Rightarrow> SelfHealingController \<times> RuntimeRecoveryEngine \<Rightarrow>
   SelfHealingController \<times> RuntimeRecoveryEngine" where
  "sh_triggerRecovery env t s =
     (let run = (\<lambda>a. ((fst s)\<lparr>sh_last_action := a\<rparr>, snd (re_execute env a (snd s)))) in
      if t > 80 then s
      else if t < 10 then run EMERGENCY_STOP
      else if t < 30 then run RESTART_SUBSYSTEM
      else if t < 50 then run SWITCH_TO_SAFE_POLICY
      else if t < 70 then run REDUCE_FRAME_RATE
      else s)"

definition sh_update ::
  "re_env \<Rightarrow> int \<Rightarrow> ConsistencyResult \<Rightarrow> SelfHealingController \<times> RuntimeRecoveryEngine \<Rightarrow>
   SelfHealingController \<times> RuntimeRecoveryEngine" where
  "sh_update env t consistency s = (if sh_is_recovering (fst s) then s else sh_triggerRecovery env t s)"

definition sh_isRecovering :: "SelfHealingController \<times> RuntimeRecoveryEngine \<Rightarrow> bool" where
  "sh_isRecovering s = re_inRecovery (snd s)"

definition sh_getLastAction :: "SelfHealingController \<Rightarrow> RecoveryAction" where
  "sh_getLastAction c = sh_last_action c"

definition sh_reset :: "SelfHealingController \<Rightarrow> SelfHealingController" where
  "sh_reset c = c\<lparr>sh_is_recovering := False, sh_last_action := NONE\<rparr>"

section \<open>MicroKernel\<close>

datatype KernelMode = NORMAL | DEGRADED | SAFE | INSPECT | EMERGENCY

record KernelABI =
  ka_frame_id :: u64
  ka_timestamp :: u64
  ka_frame_hash :: u64
  ka_ai_hash :: u64
  ka_gpu_hash :: u64
  ka_trust_score :: real
  ka_mode :: KernelMode
  ka_deterministic_ok :: bool
  ka_causal_ok :: bool
  ka_recovery_ok :: bool

datatype KernelAction = NONE | CONTINUE | DOWNGRADE | RECOVER | EMERGENCY_STOP

record KernelTickResult =
  kr_abi :: KernelABI
  kr_action :: KernelAction
  kr_violations :: "string list"

text \<open>The type of \<open>ai_context\<close> is not defined in the sources; no code reads it.\<close>

record 'ai KernelTickContext =
  kc_frame :: SpatialFrame
  kc_ai_context :: 'ai
  kc_replay_mode :: bool
  kc_force_safe_policy :: bool

definition kp_checkConsistency :: "'ai KernelTickContext \<Rightarrow> bool" where
  "kp_checkConsistency ctx = True"

definition kp_verifyProof :: "'ai KernelTickContext \<Rightarrow> bool" where
  "kp_verifyProof ctx = True"

definition kp_heal :: "'ai KernelTickContext \<Rightarrow> KernelAction" where
  "kp_heal ctx = (if kc_force_safe_policy ctx then RECOVER else CONTINUE)"

definition mk_mode :: "int \<Rightarrow> KernelMode" where
  "mk_mode t = (if t > 80 then NORMAL else if t > 50 then DEGRADED else if t > 30 then SAFE
     else if t > 10 then INSPECT else EMERGENCY)"

text \<open>
  \<open>MicroKernel::tick\<close> on its trust score. The three hashes of the result are left uninitialised by the
  code: they are the argument \<open>junk\<close>.
\<close>

definition mk_tick ::
  "u64 \<times> u64 \<times> u64 \<Rightarrow> 'ai KernelTickContext \<Rightarrow> int \<Rightarrow> KernelTickResult \<times> int" where
  "mk_tick junk ctx trust =
     (let consistency_ok = kp_checkConsistency ctx;
          proof_ok = kp_verifyProof ctx;
          t1 = (if \<not> consistency_ok then trust - 20 else trust);
          t2 = (if \<not> proof_ok then t1 - 15 else t1);
          t = clamp_score t2
      in (\<lparr>kr_abi = \<lparr>ka_frame_id = sf_frame_id (kc_frame ctx),
                     ka_timestamp = word_of_int (sf_timestamp (kc_frame ctx)),
                     ka_frame_hash = fst junk, ka_ai_hash = fst (snd junk),
                     ka_gpu_hash = snd (snd junk), ka_trust_score = real_of_int t,
                     ka_mode = mk_mode t, ka_deterministic_ok = consistency_ok,
                     ka_causal_ok = proof_ok, ka_recovery_ok = True\<rparr>,
           kr_action = kp_heal ctx, kr_violations = []\<rparr>, t))"

definition mk_initial_trust :: int where
  "mk_initial_trust = 100"

definition mk_resetTrustScore :: "int \<Rightarrow> int" where
  "mk_resetTrustScore trust = 100"

fun kr_route :: "KernelMode \<Rightarrow> int \<Rightarrow> KernelAction" where
  "kr_route NORMAL t = CONTINUE"
| "kr_route DEGRADED t = DOWNGRADE"
| "kr_route SAFE t = RECOVER"
| "kr_route INSPECT t = RECOVER"
| "kr_route EMERGENCY t = EMERGENCY_STOP"

definition kr_shouldReduceFrameRate :: "KernelMode \<Rightarrow> bool" where
  "kr_shouldReduceFrameRate m \<longleftrightarrow> m = DEGRADED \<or> m = SAFE"

definition kr_shouldDisableAI :: "KernelMode \<Rightarrow> bool" where
  "kr_shouldDisableAI m \<longleftrightarrow> m = INSPECT \<or> m = EMERGENCY"

definition kr_shouldSwitchToSafePolicy :: "KernelMode \<Rightarrow> bool" where
  "kr_shouldSwitchToSafePolicy m \<longleftrightarrow> m = SAFE \<or> m = INSPECT"

section \<open>What a tick does to the trust\<close>

definition rk_consistency_penalty :: "ConsistencyInput \<Rightarrow> int" where
  "rk_consistency_penalty i =
     (let f = (ci_frame_hash i = ci_replay_frame_hash i); a = (ci_ai_hash i = ci_replay_ai_hash i);
          g = (ci_gpu_hash i = ci_render_hash i)
      in (if f then 0 else 20) + (if a then 0 else 30) + (if g then 0 else 30)
         + (if \<not> (f \<and> a) \<and> \<not> (f \<and> g) \<and> \<not> (a \<and> g) then 10 else 0))"

definition rk_proof_penalty :: "bool \<Rightarrow> ProofLedger \<Rightarrow> u64 \<Rightarrow> int" where
  "rk_proof_penalty consistent l f =
     (if consistent \<and> pe_verifyCausality l f then 0 else 25) + (if consistent then 0 else 25)
     + (if pe_verifyCausality l f then 0 else 20)"

definition rk_penalty :: "bool \<times> ProofLedger \<times> ConsistencyInput \<Rightarrow> int" where
  "rk_penalty x = (case x of (consistent, l, i) \<Rightarrow>
     rk_consistency_penalty i + rk_proof_penalty consistent l (ci_frame_id i))"

lemma rk_penalty_nonneg: "0 \<le> rk_consistency_penalty i" "0 \<le> rk_proof_penalty c l f" "0 \<le> rk_penalty x"
  by (auto simp: rk_penalty_def rk_consistency_penalty_def rk_proof_penalty_def Let_def split: prod.split)

lemma rk_evaluateConsistency_trust:
  "rk_trust_score (rk_evaluateConsistency i k) = clamp_score (rk_trust_score k - rk_consistency_penalty i)"
proof -
  obtain r c where v: "cc_verify i (rk_checker k) = (r, c)" by (metis prod.exhaust)
  have "cr_frame_consistent r = (ci_frame_hash i = ci_replay_frame_hash i)"
    "cr_ai_consistent r = (ci_ai_hash i = ci_replay_ai_hash i)"
    "cr_gpu_consistent r = (ci_gpu_hash i = ci_render_hash i)"
    using cc_verify_result [of i "rk_checker k"] by (simp_all add: v)
  moreover have "cr_confidence r < 6 / 10 \<longleftrightarrow>
      \<not> (ci_frame_hash i = ci_replay_frame_hash i \<and> ci_ai_hash i = ci_replay_ai_hash i) \<and>
      \<not> (ci_frame_hash i = ci_replay_frame_hash i \<and> ci_gpu_hash i = ci_render_hash i) \<and>
      \<not> (ci_ai_hash i = ci_replay_ai_hash i \<and> ci_gpu_hash i = ci_render_hash i)"
    using cc_verify_confidence [of i "rk_checker k"]
    by (simp only: v fst_conv cc_calculateConfidence_range(3))
  ultimately show ?thesis
    by (simp only: rk_evaluateConsistency_def v rk_consistency_penalty_def Let_def prod.case)
      (simp add: diff_diff_eq)
qed

lemma rk_evaluateProof_trust:
  "rk_trust_score (rk_evaluateProof c l f k) = clamp_score (rk_trust_score k - rk_proof_penalty c l f)"
  by (simp add: rk_evaluateProof_def rk_proof_penalty_def Let_def diff_diff_eq)

lemma clamp_score_twice:
  "t \<le> 100 \<Longrightarrow> 0 \<le> p \<Longrightarrow> 0 \<le> q \<Longrightarrow>
   clamp_score (clamp_score (clamp_score (t - p) - q)) = max 0 (t - p - q)"
  by (auto simp: clamp_score_def)

lemma rk_tick_trust:
  "rk_trust_score (fst s) \<le> 100 \<Longrightarrow>
   rk_trust_score (fst (rk_tick env c l i s)) = max 0 (rk_trust_score (fst s) - rk_penalty (c, l, i))"
  by (simp add: rk_tick_def Let_def rk_evaluateCausality_def rk_evaluateProof_trust
      rk_evaluateConsistency_trust clamp_score_twice rk_penalty_nonneg rk_penalty_def diff_diff_eq)

text \<open>The ticks of a session: what the checker answers, the ledger and the input of each.\<close>

definition rk_session ::
  "re_env \<Rightarrow> (bool \<times> ProofLedger \<times> ConsistencyInput) list \<Rightarrow>
   RuntimeKernel \<times> RuntimeRecoveryEngine \<Rightarrow> RuntimeKernel \<times> RuntimeRecoveryEngine" where
  "rk_session env xs s = foldl (\<lambda>s (c, l, i). rk_tick env c l i s) s xs"

lemma rk_session_trust_from:
  "0 \<le> rk_trust_score (fst s) \<Longrightarrow> rk_trust_score (fst s) \<le> 100 \<Longrightarrow>
   rk_trust_score (fst (rk_session env xs s)) = max 0 (rk_trust_score (fst s) - sum_list (map rk_penalty xs))"
proof (induction xs rule: rev_induct)
  case Nil
  then show ?case by (simp add: rk_session_def)
next
  case (snoc x xs)
  obtain c l i where x: "x = (c, l, i)" by (cases x)
  have nn: "0 \<le> sum_list (map rk_penalty xs)"
    by (rule sum_list_nonneg) (auto simp: rk_penalty_nonneg)
  have "rk_trust_score (fst (rk_session env (xs @ [x]) s)) =
      max 0 (rk_trust_score (fst (rk_session env xs s)) - rk_penalty x)"
    using snoc nn unfolding rk_session_def x by (simp add: rk_tick_trust)
  with snoc nn rk_penalty_nonneg(3) [of x] show ?case by simp
qed

lemma rk_missing_penalty:
  "pl_query (ci_frame_id i) l = [] \<Longrightarrow> 45 \<le> rk_penalty (c, l, i)"
  using rk_penalty_nonneg(1) [of i]
  by (simp add: rk_penalty_def rk_proof_penalty_def pe_verifyCausality_def)

section \<open>Which actions a tick executes\<close>

definition rk_healing :: "int \<Rightarrow> RecoveryAction list" where
  "rk_healing t = (if t < 50 then [SWITCH_TO_SAFE_POLICY] else []) @
     (if t < 30 then [RESTART_SUBSYSTEM] else []) @
     (if t < 10 then [RecoveryAction.EMERGENCY_STOP] else [])"

lemma rk_healing_noop [simp]: "RecoveryAction.NONE \<notin> set (rk_healing t)"
  by (simp add: rk_healing_def)

lemma rk_triggerHealing_all:
  "rk_triggerHealingIfNeeded env k e = execute_all (re_execute env) (rk_healing (rk_trust_score k)) e"
  by (simp add: rk_triggerHealingIfNeeded_def rk_healing_def Let_def)

lemma rk_tick_engine:
  "snd (rk_tick env c l i s) =
     execute_all (re_execute env) (rk_healing (rk_trust_score (fst (rk_tick env c l i s)))) (snd s)"
  by (simp add: rk_tick_def Let_def rk_triggerHealing_all)

section \<open>Properties\<close>

text \<open>C10: Starting from a new kernel the trust score after any ticks is 100 minus the sum of the ticks'
  penalties, cut off at 0; so it stays between 0 and 100 and no tick can raise it: the system stays
  trusted exactly while the penalties add up to less than 30, and only a reset restores trust.\<close>

theorem rk_trust_is_penalty_sum:
  "rk_getTrustScore (fst (rk_session env xs (rk_new, e))) = max 0 (100 - sum_list (map rk_penalty xs)) \<and>
   rk_isSystemTrusted (fst (rk_session env xs (rk_new, e))) = (sum_list (map rk_penalty xs) < 30) \<and>
   rk_getTrustScore (fst (rk_session env (xs @ ys) (rk_new, e)))
     \<le> rk_getTrustScore (fst (rk_session env xs (rk_new, e))) \<and>
   rk_getTrustScore (rk_resetTrustScore k) = 100"
proof -
  have "0 \<le> sum_list (map rk_penalty ys)"
    by (rule sum_list_nonneg) (auto simp: rk_penalty_nonneg)
  then show ?thesis
    using rk_session_trust_from [of "(rk_new, e)" env]
    by (auto simp: rk_new_def rk_getTrustScore_def rk_isSystemTrusted_def rk_resetTrustScore_def)
qed

text \<open>A tick executes exactly the healing actions of its new trust score, mildest first: none from 50
  up, SWITCH_TO_SAFE_POLICY below 50, then RESTART_SUBSYSTEM below 30, then EMERGENCY_STOP below 10.
  The recovery engine afterwards is idle if it acted or was idle, remembers the harshest of them, and
  its counter grows by the number of actions that its callbacks accept.\<close>

theorem rk_tick_heals:
  fixes env c l i s
  defines "s' \<equiv> rk_tick env c l i s"
  shows "snd s' = execute_all (re_execute env) (rk_healing (rk_getTrustScore (fst s'))) (snd s) \<and>
    (re_inRecovery (snd s') \<longrightarrow> re_inRecovery (snd s) \<and> rk_getTrustScore (fst s') \<ge> 50) \<and>
    (rk_getTrustScore (fst s') < 50 \<longrightarrow>
       re_getLastAction (snd s') = last (rk_healing (rk_getTrustScore (fst s')))) \<and>
    re_getRecoveryCount (snd s') = re_getRecoveryCount (snd s) +
      of_nat (length (filter (\<lambda>a. re_accepts env a (snd s)) (rk_healing (rk_getTrustScore (fst s')))))"
proof (intro conjI)
  let ?acts = "rk_healing (rk_trust_score (fst s'))"
  have eng: "snd s' = execute_all (re_execute env) ?acts (snd s)"
    unfolding s'_def by (rule rk_tick_engine)
  have nil: "?acts = [] \<longleftrightarrow> rk_trust_score (fst s') \<ge> 50" by (simp add: rk_healing_def)
  show "snd s' = execute_all (re_execute env) (rk_healing (rk_getTrustScore (fst s'))) (snd s)"
    using eng by (simp add: rk_getTrustScore_def)
  show "re_inRecovery (snd s') \<longrightarrow> re_inRecovery (snd s) \<and> rk_getTrustScore (fst s') \<ge> 50"
    using re.execute_all_idle [of "snd s" ?acts env] nil
    by (auto simp: re_inRecovery_def rk_getTrustScore_def eng)
  show "rk_getTrustScore (fst s') < 50 \<longrightarrow>
      re_getLastAction (snd s') = last (rk_healing (rk_getTrustScore (fst s')))"
    using re.execute_all_last [of ?acts env "snd s"] nil
    by (auto simp: re_getLastAction_def rk_getTrustScore_def eng)
  show "re_getRecoveryCount (snd s') = re_getRecoveryCount (snd s) +
      of_nat (length (filter (\<lambda>a. re_accepts env a (snd s)) (rk_healing (rk_getTrustScore (fst s')))))"
    using re.execute_all_successes [of ?acts env "snd s"]
    by (simp add: re_getRecoveryCount_def rk_getTrustScore_def eng)
qed

definition ci_example :: ConsistencyInput where
  "ci_example = \<lparr>ci_frame_hash = 1, ci_replay_frame_hash = 1, ci_ai_hash = 2, ci_replay_ai_hash = 2,
     ci_gpu_hash = 3, ci_render_hash = 3, ci_frame_id = 7\<rparr>"

lemma ci_example_penalty: "rk_penalty (False, pl_new, ci_example) = 70"
  by (simp add: rk_penalty_def rk_consistency_penalty_def rk_proof_penalty_def ci_example_def
      pe_verifyCausality_def pl_query_def pl_new_def Let_def)

lemma rk_tick_heals_witness:
  "re_getLastAction (snd (rk_tick (\<lambda>_ _. Returns True) False pl_new ci_example (rk_new, re_new))) =
   SWITCH_TO_SAFE_POLICY"
proof -
  let ?s = "rk_tick (\<lambda>_ _. Returns True) False pl_new ci_example (rk_new, re_new)"
  have t: "rk_getTrustScore (fst ?s) = 30"
    by (simp add: rk_getTrustScore_def rk_tick_trust rk_new_def ci_example_penalty)
  have "re_getLastAction (snd ?s) = last (rk_healing (rk_getTrustScore (fst ?s)))"
    by (rule rk_tick_heals [THEN conjunct2, THEN conjunct2, THEN conjunct1, rule_format]) (simp add: t)
  then show ?thesis by (simp add: t rk_healing_def)
qed

text \<open>Three ticks for frames that were never entered in the ledger bring a kernel to an emergency stop,
  whatever it was before (within its score range), even when all hashes agree and the checker is
  consistent: the last tick executes EMERGENCY_STOP last.\<close>

theorem rk_three_missing_frames:
  assumes "0 \<le> rk_trust_score k" and "rk_trust_score k \<le> 100"
    and "pl_query (ci_frame_id i1) l1 = []" "pl_query (ci_frame_id i2) l2 = []"
      "pl_query (ci_frame_id i3) l3 = []"
  shows "rk_getTrustScore (fst (rk_session env [(c1, l1, i1), (c2, l2, i2), (c3, l3, i3)] (k, e))) = 0 \<and>
    re_getLastAction (snd (rk_session env [(c1, l1, i1), (c2, l2, i2), (c3, l3, i3)] (k, e))) =
      RecoveryAction.EMERGENCY_STOP"
proof -
  let ?s2 = "rk_session env [(c1, l1, i1), (c2, l2, i2)] (k, e)"
  let ?s3 = "rk_session env [(c1, l1, i1), (c2, l2, i2), (c3, l3, i3)] (k, e)"
  have t: "rk_trust_score (fst ?s3) = 0"
    using rk_session_trust_from [of "(k, e)" env "[(c1, l1, i1), (c2, l2, i2), (c3, l3, i3)]"]
      assms(1,2) rk_missing_penalty [OF assms(3), of c1] rk_missing_penalty [OF assms(4), of c2]
      rk_missing_penalty [OF assms(5), of c3]
    by simp
  have step: "?s3 = rk_tick env c3 l3 i3 ?s2" by (simp add: rk_session_def)
  have "snd ?s3 = execute_all (re_execute env) (rk_healing (rk_trust_score (fst ?s3))) (snd ?s2)"
    unfolding step by (rule rk_tick_engine)
  then have "re_last_action (snd ?s3) = last (rk_healing 0)"
    using re.execute_all_last [of "rk_healing 0" env "snd ?s2"] t by (simp add: rk_healing_def)
  with t show ?thesis by (simp add: rk_getTrustScore_def re_getLastAction_def rk_healing_def)
qed

lemma rk_three_missing_frames_witness:
  "rk_getTrustScore (fst (rk_session (\<lambda>_ _. Throws)
     [(True, pl_new, ci_example), (True, pl_new, ci_example), (True, pl_new, ci_example)] (rk_new, re_new))) = 0"
  by (rule rk_three_missing_frames [THEN conjunct1]) (simp_all add: rk_new_def pl_query_def pl_new_def)

text \<open>Below 50 the self-healing controller and the kernel agree on the last recovery action for the same
  score; from 50 to 69 only the controller acts (it reduces the frame rate), and from 70 on neither
  does. The controller never refuses because of a running recovery: its own flag stays unset.\<close>

theorem sh_agrees_with_kernel:
  assumes "\<not> sh_is_recovering h"
  shows "(let (h', e') = sh_update env (rk_trust_score k) r (h, e);
              ek = rk_triggerHealingIfNeeded env k e
          in \<not> sh_is_recovering h' \<and>
             (if rk_trust_score k < 50
              then re_getLastAction e' = re_getLastAction ek \<and> sh_getLastAction h' = re_getLastAction ek
              else if rk_trust_score k < 70
              then re_getLastAction e' = REDUCE_FRAME_RATE \<and> ek = e
              else e' = e \<and> ek = e \<and> h' = h))"
  using assms
  by (auto simp: sh_update_def sh_triggerRecovery_def rk_triggerHealingIfNeeded_def Let_def
      re_execute_eq re_getLastAction_def sh_getLastAction_def)

lemma sh_agrees_with_kernel_witness:
  "\<not> sh_is_recovering (fst (sh_update (\<lambda>_ _. Throws) 100
      (fst (cc_verify ci_example cc_new)) (sh_new, re_new)))"
  using sh_agrees_with_kernel [of sh_new "\<lambda>_ _. Throws" rk_new "fst (cc_verify ci_example cc_new)" re_new]
  by (simp add: Let_def sh_new_def rk_new_def split: prod.splits)

text \<open>Ticks of the microkernel, from its initial trust.\<close>

definition mk_run :: "'ai KernelTickContext list \<Rightarrow> int" where
  "mk_run ctxs = foldl (\<lambda>t ctx. snd (mk_tick (0, 0, 0) ctx t)) mk_initial_trust ctxs"

text \<open>The microkernel cannot lose trust: after any ticks its score is 100 and the next tick reports mode
  NORMAL with both gates passed, because the gates of its pipeline accept every context; the only
  thing that makes it recover is the caller's force flag, and routing its mode never degrades.\<close>

theorem mk_never_degrades:
  "mk_run ctxs = 100 \<and>
   (case mk_tick junk ctx (mk_run ctxs) of (result, t) \<Rightarrow>
      t = 100 \<and> ka_mode (kr_abi result) = NORMAL \<and> ka_deterministic_ok (kr_abi result) \<and>
      ka_causal_ok (kr_abi result) \<and>
      kr_action result = (if kc_force_safe_policy ctx then RECOVER else CONTINUE) \<and>
      kr_route (ka_mode (kr_abi result)) t = CONTINUE)"
proof -
  have "mk_run ctxs = 100" for ctxs :: "'a KernelTickContext list"
    unfolding mk_run_def
    by (induction ctxs rule: rev_induct)
      (simp_all add: mk_initial_trust_def mk_tick_def kp_checkConsistency_def kp_verifyProof_def
        clamp_score_def Let_def)
  then show ?thesis
    by (simp add: mk_tick_def kp_checkConsistency_def kp_verifyProof_def clamp_score_def Let_def
        mk_mode_def kp_heal_def)
qed

end
