(* ===== verification/Spatial_Random.thy ===== *)
theory Spatial_Random
  imports Base Complex_Main
begin

text \<open>
  \<open>server/runtime/spatial_random.\{h,cpp\}\<close>: the seeded generator that the deterministic runtime draws
  from, a linear congruential generator on 64 bit words. Draws converted to floating point are exact
  reals here (the conversion to \<open>float\<close> or \<open>double\<close> rounds in C++).
\<close>

record SpatialRandom =
  rnd_state :: u64
  rnd_seed :: u64

definition RND_DEFAULT_SEED :: u64 where
  "RND_DEFAULT_SEED = 0xdeadbeefdeadbeef"

definition RND_MULTIPLIER :: u64 where
  "RND_MULTIPLIER = 6364136223846793005"

definition RND_INCREMENT :: u64 where
  "RND_INCREMENT = 1442695040888963407"

definition rnd_new :: SpatialRandom where
  "rnd_new = \<lparr>rnd_state = RND_DEFAULT_SEED, rnd_seed = RND_DEFAULT_SEED\<rparr>"

definition rnd_setSeed :: "u64 \<Rightarrow> SpatialRandom \<Rightarrow> SpatialRandom" where
  "rnd_setSeed seed g = g\<lparr>rnd_seed := seed, rnd_state := seed\<rparr>"

definition rnd_getSeed :: "SpatialRandom \<Rightarrow> u64" where
  "rnd_getSeed g = rnd_seed g"

definition rnd_reset :: "SpatialRandom \<Rightarrow> SpatialRandom" where
  "rnd_reset g = g\<lparr>rnd_state := rnd_seed g\<rparr>"

definition rnd_next :: "SpatialRandom \<Rightarrow> u64 \<times> SpatialRandom" where
  "rnd_next g = (let s = rnd_state g * RND_MULTIPLIER + RND_INCREMENT in (s, g\<lparr>rnd_state := s\<rparr>))"

definition rnd_nextUInt :: "SpatialRandom \<Rightarrow> u32 \<times> SpatialRandom" where
  "rnd_nextUInt g = (case rnd_next g of (x, g') \<Rightarrow> (ucast x, g'))"

definition rnd_nextUInt64 :: "SpatialRandom \<Rightarrow> u64 \<times> SpatialRandom" where
  "rnd_nextUInt64 g = rnd_next g"

definition rnd_nextFloat :: "SpatialRandom \<Rightarrow> real \<times> SpatialRandom" where
  "rnd_nextFloat g =
     (case rnd_next g of (x, g') \<Rightarrow> (real (unat (drop_bit 12 x)) * (1 / 4294967296), g'))"

definition rnd_nextFloat_range :: "real \<Rightarrow> real \<Rightarrow> SpatialRandom \<Rightarrow> real \<times> SpatialRandom" where
  "rnd_nextFloat_range lo hi g = (case rnd_nextFloat g of (x, g') \<Rightarrow> (lo + x * (hi - lo), g'))"

definition rnd_nextDouble :: "SpatialRandom \<Rightarrow> real \<times> SpatialRandom" where
  "rnd_nextDouble g = (case rnd_next g of (x, g') \<Rightarrow> (real (unat x) * (1 / 18446744073709551616), g'))"

definition rnd_nextDouble_range :: "real \<Rightarrow> real \<Rightarrow> SpatialRandom \<Rightarrow> real \<times> SpatialRandom" where
  "rnd_nextDouble_range lo hi g = (case rnd_nextDouble g of (x, g') \<Rightarrow> (lo + x * (hi - lo), g'))"

text \<open>Conversion of a floating-point value to an integer type truncates towards zero.\<close>

definition trunc_int :: "real \<Rightarrow> int" where
  "trunc_int r = (if r \<ge> 0 then \<lfloor>r\<rfloor> else \<lceil>r\<rceil>)"

definition rnd_nextInt :: "int \<Rightarrow> int \<Rightarrow> SpatialRandom \<Rightarrow> int \<times> SpatialRandom" where
  "rnd_nextInt lo hi g =
     (if lo \<ge> hi then (lo, g)
      else case rnd_nextDouble g of (x, g') \<Rightarrow>
        (trunc_int (real_of_int lo + x * real_of_int (hi - lo)), g'))"

definition rnd_nextUInt_range :: "nat \<Rightarrow> nat \<Rightarrow> SpatialRandom \<Rightarrow> nat \<times> SpatialRandom" where
  "rnd_nextUInt_range lo hi g =
     (if lo \<ge> hi then (lo, g)
      else case rnd_nextDouble g of (x, g') \<Rightarrow>
        (nat (trunc_int (real lo + x * real (hi - lo))), g'))"

definition rnd_nextBool :: "SpatialRandom \<Rightarrow> bool \<times> SpatialRandom" where
  "rnd_nextBool g = (case rnd_next g of (x, g') \<Rightarrow> (take_bit 1 x = 1, g'))"

section \<open>Ranges of the draws\<close>

lemma u64_lt: "unat (x :: u64) < 18446744073709551616"
  using unsigned_less [of x] by simp

lemma scaled_unit: "n < 18446744073709551616 \<Longrightarrow> real n * (1 / 18446744073709551616) < 1"
  by (simp add: field_simps)

lemma rnd_nextDouble_bounds: "0 \<le> fst (rnd_nextDouble g)" "fst (rnd_nextDouble g) < 1"
proof -
  have eq: "fst (rnd_nextDouble g) = real (unat (fst (rnd_next g))) * (1 / 18446744073709551616)"
    by (simp only: rnd_nextDouble_def case_prod_beta fst_conv)
  show "0 \<le> fst (rnd_nextDouble g)" unfolding eq by (intro mult_nonneg_nonneg of_nat_0_le_iff) simp
  show "fst (rnd_nextDouble g) < 1" unfolding eq by (rule scaled_unit) (rule u64_lt)
qed

lemma trunc_int_between:
  "real_of_int lo \<le> r \<Longrightarrow> r \<le> real_of_int hi \<Longrightarrow> lo \<le> trunc_int r \<and> trunc_int r \<le> hi"
proof -
  assume lo: "real_of_int lo \<le> r" and hi: "r \<le> real_of_int hi"
  show ?thesis
  proof (cases "r \<ge> 0")
    case True
    then show ?thesis using lo hi by (auto simp: trunc_int_def le_floor_iff floor_le_iff)
  next
    case False
    then show ?thesis using lo hi by (auto simp: trunc_int_def ceiling_le_iff le_ceiling_iff)
  qed
qed

lemma rnd_nextInt_bounds:
  assumes "lo \<le> hi"
  shows "lo \<le> fst (rnd_nextInt lo hi g)" "fst (rnd_nextInt lo hi g) \<le> hi"
proof -
  obtain x g' where x: "rnd_nextDouble g = (x, g')" by (metis prod.exhaust)
  have b: "0 \<le> x" "x < 1" using rnd_nextDouble_bounds [of g] by (simp_all add: x)
  let ?r = "real_of_int lo + x * real_of_int (hi - lo)"
  have d: "0 \<le> real_of_int (hi - lo)" using assms by simp
  have "real_of_int lo \<le> ?r" using b(1) d by simp
  moreover have "x * real_of_int (hi - lo) \<le> 1 * real_of_int (hi - lo)"
    using b d by (intro mult_right_mono) simp_all
  then have "?r \<le> real_of_int hi" by simp
  ultimately have "lo \<le> trunc_int ?r \<and> trunc_int ?r \<le> hi" by (rule trunc_int_between)
  then show "lo \<le> fst (rnd_nextInt lo hi g)" "fst (rnd_nextInt lo hi g) \<le> hi"
    using assms by (simp_all add: rnd_nextInt_def x)
qed

section \<open>Properties\<close>

text \<open>The values of \<open>n\<close> draws in a row.\<close>

fun rnd_draws :: "nat \<Rightarrow> SpatialRandom \<Rightarrow> u64 list" where
  "rnd_draws 0 g = []"
| "rnd_draws (Suc n) g = (case rnd_nextUInt64 g of (x, g') \<Rightarrow> x # rnd_draws n g')"

definition rnd_after :: "nat \<Rightarrow> SpatialRandom \<Rightarrow> SpatialRandom" where
  "rnd_after n g = ((\<lambda>g. snd (rnd_next g)) ^^ n) g"

lemma rnd_after_seed [simp]: "rnd_seed (rnd_after n g) = rnd_seed g"
  by (induction n) (simp_all add: rnd_after_def rnd_next_def Let_def)

lemma rnd_draws_state: "rnd_state g = rnd_state h \<Longrightarrow> rnd_draws n g = rnd_draws n h"
proof (induction n arbitrary: g h)
  case 0
  then show ?case by simp
next
  case (Suc n)
  then have "fst (rnd_next g) = fst (rnd_next h)"
    and eq: "rnd_state (snd (rnd_next g)) = rnd_state (snd (rnd_next h))"
    by (simp_all add: rnd_next_def Let_def)
  with Suc.IH [OF eq] show ?case by (simp add: rnd_nextUInt64_def case_prod_beta)
qed

text \<open>Replay is deterministic: after a seed is set, resetting the generator after any number of draws
  gives the same draws again, and a draw of an integer in a range, of a double in the unit interval
  stays in its range.\<close>

theorem rnd_reset_replays:
  "rnd_draws n (rnd_reset (rnd_after m (rnd_setSeed seed g))) = rnd_draws n (rnd_setSeed seed h) \<and>
   fst (rnd_nextInt (min a b) (max a b) g) \<in> {min a b..max a b} \<and>
   fst (rnd_nextDouble g) \<in> {0..<1}"
  using rnd_nextInt_bounds [of "min a b" "max a b" g] rnd_nextDouble_bounds [of g]
  by (auto intro!: rnd_draws_state simp: rnd_reset_def rnd_setSeed_def)

lemma rnd_next_onto: "\<exists>s. fst (rnd_next (rnd_setSeed s g)) = 0xFFFFFFFFFFFFFFFF"
  by (rule exI [of _ 15635871386175874928])
    (simp add: rnd_next_def rnd_setSeed_def RND_MULTIPLIER_def RND_INCREMENT_def Let_def)

text \<open>\<open>nextFloat\<close> does not draw from the unit interval: its values range over 0 to \<open>2 ^ 20\<close> (52 bits
  scaled by \<open>2 ^ -32\<close>), and some seed makes it return more than a million.\<close>

theorem rnd_nextFloat_not_unit:
  "fst (rnd_nextFloat g) \<in> {0..<2 ^ 20} \<and>
   (\<exists>seed. fst (rnd_nextFloat (rnd_setSeed seed g)) > 1000000)"
proof -
  have eq: "fst (rnd_nextFloat h) = real (unat (fst (rnd_next h)) div 2 ^ 12) * (1 / 4294967296)" for h
    by (simp only: rnd_nextFloat_def case_prod_beta fst_conv unat_drop_bit_eq) (simp only: drop_bit_eq_div)
  have "real n * (1 / 4294967296) < 2 ^ 20" if "n < 2 ^ 52" for n :: nat
    using that by (simp add: field_simps)
  moreover have "unat (fst (rnd_next g)) div 2 ^ 12 < 2 ^ 52"
    using u64_lt [of "fst (rnd_next g)"] by (simp add: div_less_iff_less_mult)
  ultimately have "fst (rnd_nextFloat g) \<in> {0..<2 ^ 20}" by (simp only: eq) simp
  moreover obtain s where s: "fst (rnd_next (rnd_setSeed s g)) = 0xFFFFFFFFFFFFFFFF"
    using rnd_next_onto by blast
  have "fst (rnd_nextFloat (rnd_setSeed s g)) > 1000000"
    by (simp only: eq s) simp
  ultimately show ?thesis by blast
qed

end
