(* ===== verification/Chaos.thy ===== *)
theory Chaos
  imports Runtime_Kernel Spatial_Random
begin

text \<open>
  \<open>server/runtime/kernel/chaos/\<close>: fault injection. The kernel samples a policy from the trust score,
  draws again, and may inject a fault; the faults of this code sleep or do nothing, so an injection is
  the number of milliseconds slept. The scoreboard counts failures and recoveries.
\<close>

datatype ChaosFaultType =
    GPU_STALL | FRAME_DROP | AI_LATENCY_SPIKE | MEMORY_LEAK_SIM | NETWORK_PARTITION
  | DECISION_CORRUPTION | RANDOM_POLICY_FLIP

fun ChaosFaultType_index :: "ChaosFaultType \<Rightarrow> int" where
  "ChaosFaultType_index GPU_STALL = 0"
| "ChaosFaultType_index FRAME_DROP = 1"
| "ChaosFaultType_index AI_LATENCY_SPIKE = 2"
| "ChaosFaultType_index MEMORY_LEAK_SIM = 3"
| "ChaosFaultType_index NETWORK_PARTITION = 4"
| "ChaosFaultType_index DECISION_CORRUPTION = 5"
| "ChaosFaultType_index RANDOM_POLICY_FLIP = 6"

section \<open>Policy and injection\<close>

record ChaosPolicy =
  cy_probability :: real
  cy_severity :: real
  cy_type :: ChaosFaultType

definition cy_selectFaultType :: "real \<Rightarrow> SpatialRandom \<Rightarrow> ChaosFaultType \<times> SpatialRandom" where
  "cy_selectFaultType trust_score g =
     (case rnd_nextDouble g of (r, g') \<Rightarrow>
        (if trust_score > 80 then
           (if r < 3 / 10 then GPU_STALL
            else if r < 5 / 10 then AI_LATENCY_SPIKE
            else if r < 7 / 10 then FRAME_DROP
            else if r < 85 / 100 then DECISION_CORRUPTION
            else RANDOM_POLICY_FLIP)
         else (if r < 5 / 10 then FRAME_DROP else AI_LATENCY_SPIKE), g'))"

definition cy_sample :: "real \<Rightarrow> SpatialRandom \<Rightarrow> ChaosPolicy \<times> SpatialRandom" where
  "cy_sample trust_score g =
     (let p = (if trust_score > 80 then 3 / 10 else if trust_score > 50 then 2 / 10 else 1 / 10)
      in case cy_selectFaultType trust_score g of (ty, g') \<Rightarrow>
           (\<lparr>cy_probability = p, cy_severity = p, cy_type = ty\<rparr>, g'))"

text \<open>\<open>FaultInjector::inject\<close> and its private methods: the time slept, in milliseconds.\<close>

definition fi_injectGPUStall :: "real \<Rightarrow> int" where
  "fi_injectGPUStall intensity = trunc_int (100 + intensity * 400)"

definition fi_injectAILatency :: "real \<Rightarrow> int" where
  "fi_injectAILatency intensity = trunc_int (50 + intensity * 300)"

fun fi_inject :: "ChaosFaultType \<Rightarrow> real \<Rightarrow> int" where
  "fi_inject GPU_STALL i = fi_injectGPUStall i"
| "fi_inject FRAME_DROP i = 0"
| "fi_inject AI_LATENCY_SPIKE i = fi_injectAILatency i"
| "fi_inject MEMORY_LEAK_SIM i = 0"
| "fi_inject NETWORK_PARTITION i = 0"
| "fi_inject DECISION_CORRUPTION i = 0"
| "fi_inject RANDOM_POLICY_FLIP i = 0"

record ChaosKernel =
  ck_chaos_enabled :: bool

definition ck_new :: ChaosKernel where
  "ck_new = \<lparr>ck_chaos_enabled = False\<rparr>"

definition ck_enableChaos :: "bool \<Rightarrow> ChaosKernel \<Rightarrow> ChaosKernel" where
  "ck_enableChaos enable k = k\<lparr>ck_chaos_enabled := enable\<rparr>"

definition ck_isChaosEnabled :: "ChaosKernel \<Rightarrow> bool" where
  "ck_isChaosEnabled k = ck_chaos_enabled k"

text \<open>The tick on the microkernel's trust: the fault injected with its severity, if any.\<close>

definition ck_tick ::
  "int \<Rightarrow> ChaosKernel \<Rightarrow> SpatialRandom \<Rightarrow> (ChaosFaultType \<times> real) option \<times> SpatialRandom" where
  "ck_tick trust k g =
     (if \<not> ck_chaos_enabled k then (None, g)
      else case cy_sample (real_of_int trust) g of (policy, g1) \<Rightarrow>
           (case rnd_nextDouble g1 of (r, g2) \<Rightarrow>
              (if r < cy_probability policy then Some (cy_type policy, cy_severity policy) else None, g2)))"

section \<open>Scoreboard and contract\<close>

record RecoveryScoreboard =
  sb_failure_count :: "(int \<times> int) list"
  sb_recovery_time :: "(int \<times> real) list"
  sb_total_failures :: int
  sb_successful_recoveries :: int
  sb_total_recovery_time :: real

definition sb_new :: RecoveryScoreboard where
  "sb_new = \<lparr>sb_failure_count = [], sb_recovery_time = [], sb_total_failures = 0,
     sb_successful_recoveries = 0, sb_total_recovery_time = 0\<rparr>"

text \<open>\<open>m[k]\<close> on a map inserts the default value 0 for a new key.\<close>

definition at_default :: "('k \<times> 'v::zero) list \<Rightarrow> 'k \<Rightarrow> 'v" where
  "at_default m k = (case map_of m k of None \<Rightarrow> 0 | Some v \<Rightarrow> v)"

definition sb_recordFailure :: "ChaosFaultType \<Rightarrow> RecoveryScoreboard \<Rightarrow> RecoveryScoreboard" where
  "sb_recordFailure ty b =
     (let i = ChaosFaultType_index ty in
      b\<lparr>sb_failure_count := AList.update i (at_default (sb_failure_count b) i + 1) (sb_failure_count b),
        sb_total_failures := sb_total_failures b + 1\<rparr>)"

definition sb_recordRecovery :: "ChaosFaultType \<Rightarrow> real \<Rightarrow> RecoveryScoreboard \<Rightarrow> RecoveryScoreboard" where
  "sb_recordRecovery ty time_ms b =
     (let i = ChaosFaultType_index ty in
      b\<lparr>sb_recovery_time := AList.update i (at_default (sb_recovery_time b) i + time_ms) (sb_recovery_time b),
        sb_successful_recoveries := sb_successful_recoveries b + 1,
        sb_total_recovery_time := sb_total_recovery_time b + time_ms\<rparr>)"

definition sb_getMTTR :: "RecoveryScoreboard \<Rightarrow> real" where
  "sb_getMTTR b = (if sb_successful_recoveries b = 0 then 0
     else sb_total_recovery_time b / real_of_int (sb_successful_recoveries b))"

definition sb_getRecoveryRate :: "RecoveryScoreboard \<Rightarrow> real" where
  "sb_getRecoveryRate b = (if sb_total_failures b = 0 then 1
     else real_of_int (sb_successful_recoveries b) / real_of_int (sb_total_failures b))"

definition sb_getResilienceScore :: "RecoveryScoreboard \<Rightarrow> real" where
  "sb_getResilienceScore b =
     (if sb_total_failures b = 0 then 100
      else let rate = real_of_int (sb_successful_recoveries b) / real_of_int (sb_total_failures b);
               mttr_score = max 0 (1 - sb_getMTTR b / 500)
           in rate * 60 + mttr_score * 40)"

definition sb_reset :: "RecoveryScoreboard \<Rightarrow> RecoveryScoreboard" where
  "sb_reset b = sb_new"

definition ssc_MIN_TRUST_SCORE :: real where
  "ssc_MIN_TRUST_SCORE = 10"

definition ssc_isRecoverableState :: "int \<Rightarrow> bool" where
  "ssc_isRecoverableState trust_score \<longleftrightarrow> real_of_int trust_score \<ge> ssc_MIN_TRUST_SCORE"

record RecoveryResult =
  rr_recovered :: bool
  rr_recovery_time_ms :: real
  rr_post_recovery_trust :: real
  rr_system_consistent :: bool

text \<open>\<open>recovery_time_ms\<close> is left uninitialised by the code: the argument \<open>junk\<close>.\<close>

definition rv_verify ::
  "real \<Rightarrow> int \<Rightarrow> bool \<Rightarrow> ProofLedger \<Rightarrow> 'ai KernelTickContext \<Rightarrow> 'ai KernelTickContext \<Rightarrow> RecoveryResult" where
  "rv_verify junk trust consistent l before after =
     \<lparr>rr_recovered = True, rr_recovery_time_ms = junk, rr_post_recovery_trust = real_of_int trust,
      rr_system_consistent = px_valid (pe_proveFrame consistent l (sf_frame_id (kc_frame after)))\<rparr>"

section \<open>Scores of a session\<close>

datatype sb_event = Failure ChaosFaultType | Recovery ChaosFaultType real

fun sb_apply :: "RecoveryScoreboard \<Rightarrow> sb_event \<Rightarrow> RecoveryScoreboard" where
  "sb_apply b (Failure ty) = sb_recordFailure ty b"
| "sb_apply b (Recovery ty t) = sb_recordRecovery ty t b"

fun sb_failures :: "sb_event list \<Rightarrow> nat" where
  "sb_failures [] = 0"
| "sb_failures (Failure ty # es) = Suc (sb_failures es)"
| "sb_failures (Recovery ty t # es) = sb_failures es"

fun sb_times :: "sb_event list \<Rightarrow> real list" where
  "sb_times [] = []"
| "sb_times (Failure ty # es) = sb_times es"
| "sb_times (Recovery ty t # es) = t # sb_times es"

lemma sb_session:
  "sb_total_failures (foldl sb_apply b es) = sb_total_failures b + int (sb_failures es)"
  "sb_successful_recoveries (foldl sb_apply b es) = sb_successful_recoveries b + int (length (sb_times es))"
  "sb_total_recovery_time (foldl sb_apply b es) = sb_total_recovery_time b + sum_list (sb_times es)"
  by (induction es arbitrary: b rule: sb_failures.induct)
    (simp_all add: sb_recordFailure_def sb_recordRecovery_def Let_def)

section \<open>Properties\<close>

text \<open>A tick of the chaos kernel draws nothing and injects nothing while chaos is off; while it is on
  it draws exactly twice, and what it injects is never a memory leak or a network partition and sleeps
  at most 220 ms, and at trust 80 or less is a dropped frame or an AI delay of at most 110 ms.\<close>

theorem ck_tick_bounded:
  "(\<not> ck_isChaosEnabled k \<longrightarrow> ck_tick trust k g = (None, g)) \<and>
   (ck_isChaosEnabled k \<longrightarrow> snd (ck_tick trust k g) = rnd_after 2 g) \<and>
   (case fst (ck_tick trust k g) of None \<Rightarrow> True
    | Some (ty, severity) \<Rightarrow>
        ty \<noteq> MEMORY_LEAK_SIM \<and> ty \<noteq> NETWORK_PARTITION \<and> fi_inject ty severity \<in> {0..220} \<and>
        (trust \<le> 80 \<longrightarrow> ty \<in> {FRAME_DROP, AI_LATENCY_SPIKE} \<and> fi_inject ty severity \<le> 110))"
  by (simp add: ck_tick_def ck_isChaosEnabled_def cy_sample_def cy_selectFaultType_def
      rnd_nextDouble_def rnd_after_def numeral_2_eq_2 case_prod_beta Let_def
      fi_injectGPUStall_def fi_injectAILatency_def trunc_int_def)

lemma ck_tick_bounded_witness:
  "ck_tick 100 ck_new rnd_new = (None, rnd_new)"
  by (rule ck_tick_bounded [THEN conjunct1, rule_format]) (simp add: ck_new_def ck_isChaosEnabled_def)

text \<open>As long as recoveries do not outnumber failures and no recovery time is negative, the resilience
  score lies between 0 and 100; but a run of failures without a single recovery still scores 40,
  because no recovery counts as a recovery time of 0.\<close>

theorem sb_resilience_bounds:
  assumes "length (sb_times es) \<le> sb_failures es" and "list_all (\<lambda>t. 0 \<le> t) (sb_times es)"
  shows "sb_getResilienceScore (foldl sb_apply sb_new es) \<in> {0..100} \<and>
    (0 < sb_failures es \<and> sb_times es = [] \<longrightarrow> sb_getResilienceScore (foldl sb_apply sb_new es) = 40)"
proof (cases "sb_failures es = 0")
  case True
  then show ?thesis by (simp add: sb_getResilienceScore_def sb_session sb_new_def)
next
  case False
  define rate where "rate = real (length (sb_times es)) / real (sb_failures es)"
  define m where "m = max 0 (1 - sb_getMTTR (foldl sb_apply sb_new es) / 500)"
  have score: "sb_getResilienceScore (foldl sb_apply sb_new es) = rate * 60 + m * 40"
    using False by (simp add: sb_getResilienceScore_def sb_session sb_new_def rate_def m_def)
  have "0 \<le> sum_list (sb_times es)" using assms(2) by (intro sum_list_nonneg) (auto simp: list_all_iff)
  then have "0 \<le> sb_getMTTR (foldl sb_apply sb_new es)"
    by (simp add: sb_getMTTR_def sb_session sb_new_def)
  then have m: "0 \<le> m" "m \<le> 1" by (simp_all add: m_def)
  have r: "0 \<le> rate" "rate \<le> 1" using assms(1) False by (simp_all add: rate_def)
  have "rate * 60 + m * 40 \<in> {0..100}" using m r by simp
  moreover have "sb_times es = [] \<longrightarrow> rate * 60 + m * 40 = 40"
    by (simp add: sb_getMTTR_def sb_session sb_new_def rate_def m_def)
  ultimately show ?thesis unfolding score by blast
qed

lemma sb_resilience_bounds_witness:
  "sb_getResilienceScore (foldl sb_apply sb_new [Failure GPU_STALL, Failure FRAME_DROP]) = 40"
  by (rule sb_resilience_bounds [THEN conjunct2, rule_format]) simp_all

end
