(* ===== verification/Replay_Validator.thy ===== *)
theory Replay_Validator
  imports Spatial_Frame
begin

text \<open>
  \<open>server/runtime/replay_validator.\{h,cpp\}\<close>: the comparison of a live frame with its replay. The
  method \<open>hashCombine\<close> of this class takes its seed by value and returns the new one; only
  \<open>computeGPUUploadHash\<close> uses the result, the other two hashes call it for nothing.
\<close>

record ValidationResult =
  vr_valid :: bool
  vr_frame_index :: u64
  vr_expected_hash :: u64
  vr_actual_hash :: u64
  vr_mismatch_type :: string
  vr_message :: string

definition rv_hashCombine :: "u64 \<Rightarrow> u64 \<Rightarrow> u64" where
  "rv_hashCombine seed val = seed XOR (val + 0x9e3779b9 + push_bit 6 seed + drop_bit 2 seed)"

definition rv_hashFloat :: "f32 \<Rightarrow> u64" where
  "rv_hashFloat v = ucast v"

text \<open>
  A call whose result is dropped, as a statement on the local variable \<open>result\<close>. The conversion
  from \<open>double\<close> to \<open>float\<close> of an asset position, on bit patterns, is the parameter \<open>to_float\<close>.
\<close>

definition rv_drop_result :: "u64 \<Rightarrow> u64 \<Rightarrow> u64" where
  "rv_drop_result result val = (let unused = rv_hashCombine result val in result)"

definition rv_computeFrameHash :: "(f64 \<Rightarrow> f32) \<Rightarrow> SpatialFrame \<Rightarrow> u64" where
  "rv_computeFrameHash to_float f =
     (let r0 = 17;
          r1 = rv_drop_result r0 (sf_frame_id f);
          r2 = rv_drop_result r1 (word_of_int (sf_timestamp f));
          r3 = foldl (\<lambda>r a. rv_drop_result
                       (rv_drop_result (rv_drop_result r (word_of_int (ap_asset_id a)))
                          (rv_hashFloat (to_float (ap_x a))))
                       (rv_hashFloat (to_float (ap_y a)))) r2 (sf_assets f)
      in foldl (\<lambda>r v. rv_drop_result
                  (rv_drop_result (rv_drop_result r (ov_asset_id v)) (ucast (ov_action v)))
                  (rv_hashFloat (ov_confidence v))) r3 (sf_overlays f))"

definition rv_computeOverlayHash :: "SpatialFrame \<Rightarrow> u64" where
  "rv_computeOverlayHash f =
     foldl (\<lambda>r v. foldl rv_drop_result r
        [ov_asset_id v, ucast (ov_action v), rv_hashFloat (ov_x v), rv_hashFloat (ov_y v),
         rv_hashFloat (ov_confidence v), rv_hashFloat (ov_missing_risk v),
         rv_hashFloat (ov_abnormal_risk v), rv_hashFloat (ov_inactivity_risk v), ov_timestamp v])
       37 (sf_overlays f)"

definition rv_computeGPUUploadHash :: "SpatialFrame \<Rightarrow> u64" where
  "rv_computeGPUUploadHash f =
     (let r0 = 59;
          r1 = rv_hashCombine r0 (of_nat (length (sf_assets f)));
          r2 = rv_hashCombine r1 (of_nat (length (sf_overlays f)))
      in rv_hashCombine r2 (of_nat (length (sf_heatmap f))))"

definition rv_validateDecisionHash :: "std_hash \<Rightarrow> SpatialFrame \<Rightarrow> bool" where
  "rv_validateDecisionHash H f \<longleftrightarrow> sf_hash H f = sf_decision_hash f"

definition rv_validateFrame ::
  "std_hash \<Rightarrow> (f64 \<Rightarrow> f32) \<Rightarrow> SpatialFrame \<Rightarrow> SpatialFrame \<Rightarrow> ValidationResult" where
  "rv_validateFrame H to_float realtime replay =
     (let realtimeHash = rv_computeFrameHash to_float realtime;
          replayHash = rv_computeFrameHash to_float replay;
          result = \<lparr>vr_valid = True, vr_frame_index = sf_frame_id realtime,
                    vr_expected_hash = replayHash, vr_actual_hash = realtimeHash,
                    vr_mismatch_type = '''', vr_message = ''''\<rparr>;
          at_frame = to_string (uint (sf_frame_id realtime))
      in if realtimeHash \<noteq> replayHash then
           result\<lparr>vr_valid := False, vr_mismatch_type := ''FRAME_HASH'',
             vr_message := ''Frame hash mismatch at frame '' @ at_frame\<rparr>
         else if rv_computeOverlayHash realtime \<noteq> rv_computeOverlayHash replay then
           result\<lparr>vr_valid := False, vr_mismatch_type := ''OVERLAY_HASH'',
             vr_message := ''Overlay hash mismatch at frame '' @ at_frame\<rparr>
         else if \<not> rv_validateDecisionHash H realtime then
           result\<lparr>vr_valid := False, vr_mismatch_type := ''DECISION_HASH'',
             vr_message := ''Decision hash validation failed at frame '' @ at_frame\<rparr>
         else result\<lparr>vr_message := ''Validation passed''\<rparr>)"

definition rv_validateRecording :: "string \<Rightarrow> ValidationResult list" where
  "rv_validateRecording recordingPath = []"

section \<open>The hashes are constants\<close>

lemma rv_drop_result_id [simp]: "rv_drop_result r v = r"
  by (simp add: rv_drop_result_def)

lemma foldl_const: "(\<And>r x. f r x = r) \<Longrightarrow> foldl f r xs = r"
  by (induction xs) auto

lemma rv_computeFrameHash_17: "rv_computeFrameHash to_float f = 17"
  by (simp add: rv_computeFrameHash_def Let_def foldl_const)

lemma rv_computeOverlayHash_37: "rv_computeOverlayHash f = 37"
  by (simp add: rv_computeOverlayHash_def foldl_const)

section \<open>Properties\<close>

text \<open>The verdict on a replay does not look at the replay: any two replays of a live frame get the same
  result, a frame or overlay mismatch is never reported, both reported hashes are 17, and the frame is
  accepted exactly when its own hash equals its decision hash.\<close>

theorem rv_validateFrame_ignores_replay:
  "rv_validateFrame H to_float realtime replay = rv_validateFrame H to_float realtime replay' \<and>
   vr_valid (rv_validateFrame H to_float realtime replay) = (sf_hash H realtime = sf_decision_hash realtime) \<and>
   vr_mismatch_type (rv_validateFrame H to_float realtime replay) \<in> {'''', ''DECISION_HASH''} \<and>
   vr_expected_hash (rv_validateFrame H to_float realtime replay) = 17 \<and>
   vr_actual_hash (rv_validateFrame H to_float realtime replay) = 17"
  by (simp add: rv_validateFrame_def Let_def rv_computeFrameHash_17 rv_computeOverlayHash_37
      rv_validateDecisionHash_def)

end
