(* ===== verification/Frame_Recording.thy ===== *)
theory Frame_Recording
  imports Spatial_Frame Complex_Main
begin

text \<open>
  \<open>server/runtime/spatial_frame_recorder.\{h,cpp\}\<close> and \<open>spatial_frame_player.\{h,cpp\}\<close>: frames written
  to a file. A file is a list of bytes. The messages are those of
  \<open>protocol/spatial_frame.proto\<close>; the protobuf encoder and parser are the parameters \<open>ser\<close> and
  \<open>parse\<close>. The header is the struct as x86-64 lays it out: two 64 bit and two 32 bit little-endian
  words, without padding. \<open>Frame_Player\<close> holds the reading side.
\<close>

type_synonym byte = "8 word"

section \<open>Little-endian words\<close>

fun le_bytes :: "nat \<Rightarrow> 'a::len word \<Rightarrow> byte list" where
  "le_bytes 0 w = []"
| "le_bytes (Suc n) w = ucast w # le_bytes n (drop_bit 8 w)"

fun le_word :: "byte list \<Rightarrow> 'a::len word" where
  "le_word [] = 0"
| "le_word (b # bs) = ucast b OR push_bit 8 (le_word bs)"

lemma length_le_bytes [simp]: "length (le_bytes n w) = n"
  by (induction n arbitrary: w) auto

lemma le_word_bytes: "le_word (le_bytes n w) = take_bit (8 * n) (w :: 'a::len word)"
proof (induction n arbitrary: w)
  case 0
  then show ?case by simp
next
  case (Suc n)
  have "ucast (ucast w :: byte) OR push_bit 8 (take_bit (8 * n) (drop_bit 8 w)) =
      take_bit (8 * Suc n) w"
    by (rule bit_word_eqI)
      (auto simp: bit_or_iff bit_push_bit_iff bit_take_bit_iff bit_drop_bit_eq bit_ucast_iff)
  then show ?case by (simp add: Suc)
qed

lemma le_word_bytes_full: "LENGTH('a) \<le> 8 * n \<Longrightarrow> le_word (le_bytes n w) = (w :: 'a::len word)"
  by (simp add: le_word_bytes take_bit_word_eq_self)

section \<open>The record header\<close>

record FrameRecordHeader =
  frh_magic :: u64
  frh_timestamp :: u64
  frh_payload_size :: u32
  frh_checksum :: u32

definition FRAME_MAGIC :: u64 where
  "FRAME_MAGIC = 0x5350415449414C46"

definition header_bytes :: "FrameRecordHeader \<Rightarrow> byte list" where
  "header_bytes h = le_bytes 8 (frh_magic h) @ le_bytes 8 (frh_timestamp h)
     @ le_bytes 4 (frh_payload_size h) @ le_bytes 4 (frh_checksum h)"

definition header_of_bytes :: "byte list \<Rightarrow> FrameRecordHeader" where
  "header_of_bytes bs = \<lparr>frh_magic = le_word (take 8 bs),
     frh_timestamp = le_word (take 8 (drop 8 bs)),
     frh_payload_size = le_word (take 4 (drop 16 bs)),
     frh_checksum = le_word (take 4 (drop 20 bs))\<rparr>"

lemma length_header_bytes [simp]: "length (header_bytes h) = 24"
  by (simp add: header_bytes_def)

lemma header_roundtrip [simp]: "header_of_bytes (header_bytes h) = h"
  by (simp add: header_of_bytes_def header_bytes_def le_word_bytes_full)

section \<open>The checksum\<close>

definition crc_bit :: "u32 \<Rightarrow> u32" where
  "crc_bit crc = drop_bit 1 crc XOR (if crc AND 1 \<noteq> 0 then 0xEDB88320 else 0)"

definition crc_byte :: "u32 \<Rightarrow> byte \<Rightarrow> u32" where
  "crc_byte crc b = (crc_bit ^^ 8) (crc XOR ucast b)"

definition sr_computeChecksum :: "byte list \<Rightarrow> u32" where
  "sr_computeChecksum data = NOT (foldl crc_byte 0xFFFFFFFF data)"

text \<open>The player's own loop, over the first \<open>payload_size\<close> bytes of its buffer.\<close>

definition sp_verifyChecksum :: "FrameRecordHeader \<Rightarrow> byte list \<Rightarrow> bool" where
  "sp_verifyChecksum h data =
     (NOT (foldl crc_byte 0xFFFFFFFF (take (unat (frh_payload_size h)) data)) = frh_checksum h)"

section \<open>The messages\<close>

record pb_AssetPosition =
  pa_asset_id :: int
  pa_asset_name :: string
  pa_tag_id :: string
  pa_x :: f64
  pa_y :: f64
  pa_vx :: f64
  pa_vy :: f64
  pa_risk_score :: f64
  pa_state :: int
  pa_size :: f32
  pa_action_scores :: "(string \<times> f64) list"
  pa_top_action :: string
  pa_top_score :: f64
  pa_predicted_x :: f64
  pa_predicted_y :: f64
  pa_prediction_confidence :: f64

record pb_HeatCell =
  ph_x :: int
  ph_y :: int
  ph_value :: f32

record pb_CongestionZone =
  pz_id :: int
  pz_name :: string
  pz_x :: f32
  pz_y :: f32
  pz_radius :: f32
  pz_density :: f32
  pz_asset_count :: int
  pz_level :: string

record pb_DecisionPoint =
  pd_asset_id :: int
  pd_action :: string
  pd_confidence :: f64
  pd_expected_reward :: f64
  pd_reason :: string

record pb_PathPrediction =
  pq_asset_id :: int
  pq_x :: f64
  pq_y :: f64
  pq_confidence :: f64
  pq_timestamp :: int

record pb_SpatialFrame =
  pf_timestamp :: int
  pf_frame_id :: u64
  pf_assets :: "pb_AssetPosition list"
  pf_heatmap :: "pb_HeatCell list"
  pf_congestion :: "pb_CongestionZone list"
  pf_decisions :: "pb_DecisionPoint list"
  pf_predictions :: "pb_PathPrediction list"
  pf_processing_time_ms :: f64
  pf_is_key_frame :: bool
  pf_frame_hash :: u64

text \<open>
  Assignment to a key of a map, message map or \<open>std::map\<close>: kept in key order. The order in which
  protobuf enumerates a map is not fixed and does not matter: assignments to distinct keys commute.
\<close>

fun omap_set :: "string \<Rightarrow> 'v \<Rightarrow> (string \<times> 'v) list \<Rightarrow> (string \<times> 'v) list" where
  "omap_set k v [] = [(k, v)]"
| "omap_set k v ((k', v') # m) =
     (if k < k' then (k, v) # (k', v') # m
      else if k = k' then (k, v) # m else (k', v') # omap_set k v m)"

definition omap_copy :: "(string \<times> 'v) list \<Rightarrow> (string \<times> 'v) list" where
  "omap_copy m = foldl (\<lambda>acc (k, v). omap_set k v acc) [] m"

section \<open>The recorder\<close>

definition pb_of_asset :: "AssetPosition \<Rightarrow> pb_AssetPosition" where
  "pb_of_asset a = \<lparr>pa_asset_id = ap_asset_id a, pa_asset_name = ap_asset_name a,
     pa_tag_id = ap_tag_id a, pa_x = ap_x a, pa_y = ap_y a, pa_vx = ap_vx a, pa_vy = ap_vy a,
     pa_risk_score = ap_risk_score a, pa_state = ap_state a, pa_size = ap_size a,
     pa_action_scores = omap_copy (ap_action_scores a), pa_top_action = ap_top_action a,
     pa_top_score = ap_top_score a, pa_predicted_x = ap_predicted_x a,
     pa_predicted_y = ap_predicted_y a, pa_prediction_confidence = ap_prediction_confidence a\<rparr>"

definition pb_of_cell :: "HeatCell \<Rightarrow> pb_HeatCell" where
  "pb_of_cell c = \<lparr>ph_x = hc_x c, ph_y = hc_y c, ph_value = hc_value c\<rparr>"

definition pb_of_zone :: "CongestionZone \<Rightarrow> pb_CongestionZone" where
  "pb_of_zone z = \<lparr>pz_id = cz_id z, pz_name = cz_name z, pz_x = cz_x z, pz_y = cz_y z,
     pz_radius = cz_radius z, pz_density = cz_density z, pz_asset_count = cz_asset_count z,
     pz_level = cz_level z\<rparr>"

definition pb_of_decision :: "DecisionPoint \<Rightarrow> pb_DecisionPoint" where
  "pb_of_decision d = \<lparr>pd_asset_id = dp_asset_id d, pd_action = dp_action d,
     pd_confidence = dp_confidence d, pd_expected_reward = dp_expected_reward d,
     pd_reason = dp_reason d\<rparr>"

definition pb_of_prediction :: "PathPrediction \<Rightarrow> pb_PathPrediction" where
  "pb_of_prediction p = \<lparr>pq_asset_id = pp_asset_id p, pq_x = pp_x p, pq_y = pp_y p,
     pq_confidence = pp_confidence p, pq_timestamp = pp_timestamp p\<rparr>"

definition pb_of_frame :: "std_hash \<Rightarrow> SpatialFrame \<Rightarrow> pb_SpatialFrame" where
  "pb_of_frame H f = \<lparr>pf_timestamp = sf_timestamp f, pf_frame_id = sf_frame_id f,
     pf_assets = map pb_of_asset (sf_assets f), pf_heatmap = map pb_of_cell (sf_heatmap f),
     pf_congestion = map pb_of_zone (sf_congestion f),
     pf_decisions = map pb_of_decision (sf_decisions f),
     pf_predictions = map pb_of_prediction (sf_predictions f),
     pf_processing_time_ms = sf_processing_time_ms f, pf_is_key_frame = sf_is_key_frame f,
     pf_frame_hash = sf_hash H f\<rparr>"

text \<open>
  The \<open>ofstream\<close> is buffered: \<open>sr_file\<close> is what the file holds, \<open>sr_buffer\<close> what has been written to the
  stream and has not reached the file. The disk takes every byte it is given.
\<close>

record SpatialFrameRecorder =
  sr_file :: "byte list"
  sr_buffer :: "byte list"
  sr_total_frames :: u64
  sr_total_bytes :: u64
  sr_opened :: bool

definition sr_new :: SpatialFrameRecorder where
  "sr_new = \<lparr>sr_file = [], sr_buffer = [], sr_total_frames = 0, sr_total_bytes = 0, sr_opened = False\<rparr>"

definition sr_flush :: "SpatialFrameRecorder \<Rightarrow> SpatialFrameRecorder" where
  "sr_flush r = (if sr_opened r then r\<lparr>sr_file := sr_file r @ sr_buffer r, sr_buffer := []\<rparr> else r)"

text \<open>\<open>close\<close>, called without the mutex held.\<close>

definition sr_close :: "SpatialFrameRecorder \<Rightarrow> SpatialFrameRecorder" where
  "sr_close r = (if sr_opened r then (sr_flush r)\<lparr>sr_opened := False\<rparr> else r)"

text \<open>
  \<open>open\<close> holds the mutex and calls \<open>close\<close>, which locks it again, when a file is open. \<open>content\<close> is
  what the file held before, or \<open>None\<close> when it cannot be opened for appending.
\<close>

definition sr_open :: "byte list option \<Rightarrow> SpatialFrameRecorder \<Rightarrow> fault + (bool \<times> SpatialFrameRecorder)" where
  "sr_open content r =
     (if sr_opened r then Inl SelfDeadlock
      else case content of
        None \<Rightarrow> Inr (False, r)
      | Some bs \<Rightarrow> Inr (True, r\<lparr>sr_file := bs, sr_buffer := [], sr_opened := True\<rparr>))"

definition sr_isOpen :: "SpatialFrameRecorder \<Rightarrow> bool" where
  "sr_isOpen r = sr_opened r"

text \<open>
  \<open>append\<close> writes to the stream. How much of what the stream holds then passes to the file is up to
  the library: the first \<open>spill\<close> bytes, for any \<open>spill\<close>.
\<close>

definition sr_append ::
  "std_hash \<Rightarrow> (pb_SpatialFrame \<Rightarrow> byte list) \<Rightarrow> nat \<Rightarrow> SpatialFrame \<Rightarrow>
   SpatialFrameRecorder \<Rightarrow> SpatialFrameRecorder" where
  "sr_append H ser spill f r =
     (if \<not> sr_opened r then r
      else let serialized = ser (pb_of_frame H f);
               header = \<lparr>frh_magic = FRAME_MAGIC, frh_timestamp = word_of_int (sf_timestamp f),
                         frh_payload_size = of_nat (length serialized),
                         frh_checksum = sr_computeChecksum serialized\<rparr>;
               pending = sr_buffer r @ header_bytes header @ serialized
           in r\<lparr>sr_file := sr_file r @ take spill pending, sr_buffer := drop spill pending,
                sr_total_frames := sr_total_frames r + 1,
                sr_total_bytes := sr_total_bytes r + (24 + of_nat (length serialized))\<rparr>)"

definition sr_totalFrames :: "SpatialFrameRecorder \<Rightarrow> u64" where
  "sr_totalFrames r = sr_total_frames r"

definition sr_totalBytes :: "SpatialFrameRecorder \<Rightarrow> u64" where
  "sr_totalBytes r = sr_total_bytes r"

section \<open>Input streams\<close>

text \<open>An \<open>std::ifstream\<close>: the bytes of the file, the position, and the two state bits that matter.\<close>

record ifstream =
  is_bytes :: "byte list"
  is_pos :: nat
  is_eof :: bool
  is_fail :: bool

definition is_good :: "ifstream \<Rightarrow> bool" where
  "is_good s \<longleftrightarrow> \<not> is_eof s \<and> \<not> is_fail s"

text \<open>\<open>read(p, n)\<close>: the bytes extracted. A stream that is not good fails; a short read sets both bits.\<close>

definition is_read :: "nat \<Rightarrow> ifstream \<Rightarrow> byte list \<times> ifstream" where
  "is_read n s =
     (if \<not> is_good s then ([], s\<lparr>is_fail := True\<rparr>)
      else let bs = take n (drop (is_pos s) (is_bytes s)); s' = s\<lparr>is_pos := is_pos s + length bs\<rparr>
           in if length bs = n then (bs, s') else (bs, s'\<lparr>is_eof := True, is_fail := True\<rparr>))"

text \<open>\<open>seekg\<close>: clears the end-of-file bit, then does nothing on a failed stream.\<close>

definition is_seek :: "nat \<Rightarrow> ifstream \<Rightarrow> ifstream" where
  "is_seek p s = (let s' = s\<lparr>is_eof := False\<rparr> in if is_fail s then s' else s'\<lparr>is_pos := p\<rparr>)"

definition is_clear :: "ifstream \<Rightarrow> ifstream" where
  "is_clear s = s\<lparr>is_eof := False, is_fail := False\<rparr>"

definition is_open_file :: "byte list \<Rightarrow> ifstream" where
  "is_open_file bs = \<lparr>is_bytes = bs, is_pos = 0, is_eof = False, is_fail = False\<rparr>"

end
