(* ===== verification/Frame_Player.thy ===== *)
theory Frame_Player
  imports Frame_Recording "HOL-Library.Sublist"
begin

text \<open>
  \<open>server/runtime/spatial_frame_player.\{h,cpp\}\<close>: the index of a recording, reading frames by index,
  seeking, and one iteration of the playback thread (its wait, a sleep and the interleaving with
  other threads are not modelled: an iteration runs when its wait condition holds). The frame index
  is a \<open>nat\<close>: it is only set below, or incremented from below, the number of frames.
\<close>

datatype PlaybackState = STOPPED | PLAYING | PAUSED

record SpatialFramePlayer =
  sp_file :: "ifstream option"
  sp_framePositions :: "nat list"
  sp_frameTimestamps :: "u64 list"
  sp_state :: PlaybackState
  sp_speed :: real
  sp_currentFrameIndex :: nat
  sp_lastFrameHash :: u64
  sp_frameQueue :: "SpatialFrame list"
  sp_running :: bool

definition sp_new :: SpatialFramePlayer where
  "sp_new = \<lparr>sp_file = None, sp_framePositions = [], sp_frameTimestamps = [], sp_state = STOPPED,
     sp_speed = 1, sp_currentFrameIndex = 0, sp_lastFrameHash = 0, sp_frameQueue = [],
     sp_running = False\<rparr>"

definition sp_readHeader :: "ifstream \<Rightarrow> bool \<times> FrameRecordHeader \<times> ifstream" where
  "sp_readHeader s =
     (let (bs, s') = is_read 24 s; h = header_of_bytes bs
      in (is_good s' \<and> frh_magic h = FRAME_MAGIC, h, s'))"

lemma is_seek_simps [simp]:
  "is_bytes (is_seek p s) = is_bytes s" "is_fail (is_seek p s) = is_fail s"
  "\<not> is_fail s \<Longrightarrow> is_pos (is_seek p s) = p" "\<not> is_eof (is_seek p s)"
  by (simp_all add: is_seek_def Let_def)

lemma is_read_good:
  assumes "is_read n s = (bs, s')" "is_good s'"
  shows "is_pos s' = is_pos s + n" "is_pos s + n \<le> length (is_bytes s) \<or> n = 0" "is_bytes s' = is_bytes s"
    "bs = take n (drop (is_pos s) (is_bytes s))"
  using assms by (auto simp: is_read_def is_good_def Let_def split: if_splits)

lemma sp_readHeader_ok:
  assumes "sp_readHeader s = (True, h, s')"
  shows "is_pos s' = is_pos s + 24" "is_pos s + 24 \<le> length (is_bytes s)" "is_bytes s' = is_bytes s"
    "\<not> is_fail s'"
proof -
  obtain bs where r: "is_read 24 s = (bs, s')" and g: "is_good s'"
    using assms by (auto simp: sp_readHeader_def Let_def split: prod.splits)
  from is_read_good [OF r g] g show "is_pos s' = is_pos s + 24"
    "is_pos s + 24 \<le> length (is_bytes s)" "is_bytes s' = is_bytes s" "\<not> is_fail s'"
    by (auto simp: is_good_def)
qed

lemma sp_index_decreases:
  assumes "sp_readHeader s = (True, h, s')"
  shows "length (is_bytes (is_seek (is_pos s' + n) s')) - is_pos (is_seek (is_pos s' + n) s')
    < length (is_bytes s) - is_pos s"
  using sp_readHeader_ok [OF assms] by simp

text \<open>The loop of \<open>loadIndex\<close>: positions and time stamps. Every iteration consumes a header.\<close>

function sp_index_loop :: "ifstream \<Rightarrow> (nat \<times> u64) list \<times> ifstream" where
  "sp_index_loop s =
     (case sp_readHeader s of (ok, h, s1) \<Rightarrow>
        if ok then
          (case sp_index_loop (is_seek (is_pos s1 + unat (frh_payload_size h)) s1) of
             (rest, s2) \<Rightarrow> ((is_pos s1 - 24, frh_timestamp h) # rest, s2))
        else ([], s1))"
  by pat_completeness auto
termination
  by (relation "measure (\<lambda>s. length (is_bytes s) - is_pos s)")
    (simp_all only: wf_measure in_measure, metis sp_index_decreases)

declare sp_index_loop.simps [simp del]

definition sp_loadIndex :: "ifstream \<Rightarrow> SpatialFramePlayer \<Rightarrow> SpatialFramePlayer" where
  "sp_loadIndex s p =
     (case sp_index_loop (is_seek 0 s) of (entries, s') \<Rightarrow>
        p\<lparr>sp_file := Some (is_seek 0 (is_clear s')), sp_framePositions := map fst entries,
          sp_frameTimestamps := map snd entries\<rparr>)"

text \<open>\<open>open\<close> holds the mutex and calls \<open>close\<close>, which locks it again, when a file is open.\<close>

definition sp_open :: "byte list option \<Rightarrow> SpatialFramePlayer \<Rightarrow> fault + (bool \<times> SpatialFramePlayer)" where
  "sp_open content p =
     (if sp_file p \<noteq> None then Inl SelfDeadlock
      else case content of
        None \<Rightarrow> Inr (False, p)
      | Some bs \<Rightarrow> Inr (True, sp_loadIndex (is_open_file bs) p))"

definition sp_close :: "SpatialFramePlayer \<Rightarrow> SpatialFramePlayer" where
  "sp_close p = p\<lparr>sp_running := False, sp_file := None, sp_framePositions := [],
     sp_frameTimestamps := [], sp_state := STOPPED, sp_currentFrameIndex := 0\<rparr>"

definition sp_isOpen :: "SpatialFramePlayer \<Rightarrow> bool" where
  "sp_isOpen p \<longleftrightarrow> sp_file p \<noteq> None"

text \<open>\<open>std::lower_bound\<close> on time stamps in ascending order (its precondition).\<close>

definition sp_seek :: "u64 \<Rightarrow> SpatialFramePlayer \<Rightarrow> bool \<times> SpatialFramePlayer" where
  "sp_seek ts p =
     (let i = find_index_if (\<lambda>t. \<not> t < ts) (sp_frameTimestamps p)
      in if i \<noteq> length (sp_frameTimestamps p) then (True, p\<lparr>sp_currentFrameIndex := i\<rparr>) else (False, p))"

definition sp_seekToFrame :: "u64 \<Rightarrow> SpatialFramePlayer \<Rightarrow> bool \<times> SpatialFramePlayer" where
  "sp_seekToFrame frameId p =
     (if unat frameId < length (sp_framePositions p) then (True, p\<lparr>sp_currentFrameIndex := unat frameId\<rparr>)
      else (False, p))"

definition asset_of_pb :: "pb_AssetPosition \<Rightarrow> AssetPosition" where
  "asset_of_pb a = \<lparr>ap_asset_id = pa_asset_id a, ap_asset_name = pa_asset_name a,
     ap_tag_id = pa_tag_id a, ap_x = pa_x a, ap_y = pa_y a, ap_vx = pa_vx a, ap_vy = pa_vy a,
     ap_risk_score = pa_risk_score a, ap_state = pa_state a, ap_size = pa_size a,
     ap_action_scores = omap_copy (pa_action_scores a), ap_top_action = pa_top_action a,
     ap_top_score = pa_top_score a, ap_predicted_x = pa_predicted_x a,
     ap_predicted_y = pa_predicted_y a, ap_prediction_confidence = pa_prediction_confidence a\<rparr>"

definition cell_of_pb :: "pb_HeatCell \<Rightarrow> HeatCell" where
  "cell_of_pb c = \<lparr>hc_x = ph_x c, hc_y = ph_y c, hc_value = ph_value c\<rparr>"

definition zone_of_pb :: "pb_CongestionZone \<Rightarrow> CongestionZone" where
  "zone_of_pb z = \<lparr>cz_id = pz_id z, cz_name = pz_name z, cz_x = pz_x z, cz_y = pz_y z,
     cz_radius = pz_radius z, cz_density = pz_density z, cz_asset_count = pz_asset_count z,
     cz_level = pz_level z\<rparr>"

definition decision_of_pb :: "pb_DecisionPoint \<Rightarrow> DecisionPoint" where
  "decision_of_pb d = \<lparr>dp_asset_id = pd_asset_id d, dp_action = pd_action d,
     dp_confidence = pd_confidence d, dp_expected_reward = pd_expected_reward d,
     dp_reason = pd_reason d\<rparr>"

definition prediction_of_pb :: "pb_PathPrediction \<Rightarrow> PathPrediction" where
  "prediction_of_pb p = \<lparr>pp_asset_id = pq_asset_id p, pp_x = pq_x p, pp_y = pq_y p,
     pp_confidence = pq_confidence p, pp_timestamp = pq_timestamp p\<rparr>"

definition frame_of_pb :: "pb_SpatialFrame \<Rightarrow> SpatialFrame \<Rightarrow> SpatialFrame" where
  "frame_of_pb m f = (sf_clear f)\<lparr>sf_timestamp := pf_timestamp m, sf_frame_id := pf_frame_id m,
     sf_processing_time_ms := pf_processing_time_ms m, sf_is_key_frame := pf_is_key_frame m,
     sf_assets := map asset_of_pb (pf_assets m), sf_heatmap := map cell_of_pb (pf_heatmap m),
     sf_congestion := map zone_of_pb (pf_congestion m),
     sf_decisions := map decision_of_pb (pf_decisions m),
     sf_predictions := map prediction_of_pb (pf_predictions m)\<rparr>"

text \<open>
  \<open>readFrameAt\<close>: whether a frame was read, the caller's frame after the call, the player. The buffer
  is zero where the file ends early.
\<close>

definition sp_readFrameAt ::
  "(byte list \<Rightarrow> pb_SpatialFrame option) \<Rightarrow> nat \<Rightarrow> SpatialFrame \<Rightarrow> SpatialFramePlayer \<Rightarrow>
   bool \<times> SpatialFrame \<times> SpatialFramePlayer" where
  "sp_readFrameAt parse index f p =
     (case sp_file p of
        None \<Rightarrow> (False, f, p)
      | Some s \<Rightarrow>
        if index \<ge> length (sp_framePositions p) then (False, f, p)
        else
          (case sp_readHeader (is_seek (sp_framePositions p ! index) s) of (ok, h, s1) \<Rightarrow>
             if \<not> ok then (False, f, p\<lparr>sp_file := Some s1\<rparr>)
             else
               (case is_read (unat (frh_payload_size h)) s1 of (data, s2) \<Rightarrow>
                  let buffer = data @ replicate (unat (frh_payload_size h) - length data) 0;
                      p2 = p\<lparr>sp_file := Some s2\<rparr>
                  in if \<not> sp_verifyChecksum h buffer then (False, f, p2)
                     else (case parse buffer of
                             None \<Rightarrow> (False, f, p2)
                           | Some m \<Rightarrow> (True, frame_of_pb m f, p2\<lparr>sp_lastFrameHash := pf_frame_hash m\<rparr>)))))"

definition sp_nextFrame ::
  "(byte list \<Rightarrow> pb_SpatialFrame option) \<Rightarrow> SpatialFrame \<Rightarrow> SpatialFramePlayer \<Rightarrow>
   bool \<times> SpatialFrame \<times> SpatialFramePlayer" where
  "sp_nextFrame parse f p =
     (if sp_currentFrameIndex p \<ge> length (sp_framePositions p) then (False, f, p)
      else sp_readFrameAt parse (sp_currentFrameIndex p) f
             (p\<lparr>sp_currentFrameIndex := sp_currentFrameIndex p + 1\<rparr>))"

definition sp_setSpeed :: "real \<Rightarrow> SpatialFramePlayer \<Rightarrow> SpatialFramePlayer" where
  "sp_setSpeed speed p = p\<lparr>sp_speed := max (1 / 10) (min 16 speed)\<rparr>"

definition sp_play :: "SpatialFramePlayer \<Rightarrow> SpatialFramePlayer" where
  "sp_play p = (if sp_state p = PLAYING then p else p\<lparr>sp_state := PLAYING, sp_running := True\<rparr>)"

definition sp_pause :: "SpatialFramePlayer \<Rightarrow> SpatialFramePlayer" where
  "sp_pause p = p\<lparr>sp_state := PAUSED\<rparr>"

definition sp_stop :: "SpatialFramePlayer \<Rightarrow> SpatialFramePlayer" where
  "sp_stop p = p\<lparr>sp_state := STOPPED, sp_currentFrameIndex := 0, sp_frameQueue := []\<rparr>"

definition sp_totalFrames :: "SpatialFramePlayer \<Rightarrow> nat" where
  "sp_totalFrames p = length (sp_framePositions p)"

definition sp_firstTimestamp :: "SpatialFramePlayer \<Rightarrow> u64" where
  "sp_firstTimestamp p = (if sp_frameTimestamps p = [] then 0 else hd (sp_frameTimestamps p))"

definition sp_lastTimestamp :: "SpatialFramePlayer \<Rightarrow> u64" where
  "sp_lastTimestamp p = (if sp_frameTimestamps p = [] then 0 else last (sp_frameTimestamps p))"

definition sp_currentTimestamp :: "SpatialFramePlayer \<Rightarrow> u64" where
  "sp_currentTimestamp p =
     (if sp_currentFrameIndex p < length (sp_frameTimestamps p)
      then sp_frameTimestamps p ! sp_currentFrameIndex p else 0)"

definition MAX_QUEUE_SIZE :: nat where
  "MAX_QUEUE_SIZE = 3"

text \<open>One iteration of the playback thread.\<close>

definition sp_playback_step ::
  "(byte list \<Rightarrow> pb_SpatialFrame option) \<Rightarrow> SpatialFramePlayer \<Rightarrow> SpatialFramePlayer" where
  "sp_playback_step parse p =
     (if \<not> sp_running p \<or> sp_state p \<noteq> PLAYING then p
      else let queue = (if length (sp_frameQueue p) \<ge> MAX_QUEUE_SIZE
                        then drop (length (sp_frameQueue p) - (MAX_QUEUE_SIZE - 1)) (sp_frameQueue p)
                        else sp_frameQueue p)
           in case sp_nextFrame parse sf_zero (p\<lparr>sp_frameQueue := queue\<rparr>) of
                (False, _, p') \<Rightarrow> p'\<lparr>sp_state := STOPPED\<rparr>
              | (True, f, p') \<Rightarrow> p'\<lparr>sp_frameQueue := sp_frameQueue p' @ [f]\<rparr>)"

section \<open>Ordered maps survive the copy\<close>

definition omap_ok :: "(string \<times> 'v) list \<Rightarrow> bool" where
  "omap_ok m \<longleftrightarrow> sorted_wrt (<) (map fst m)"

lemma omap_set_last: "list_all (\<lambda>p. fst p < k) m \<Longrightarrow> omap_set k v m = m @ [(k, v)]"
  by (induction m) (auto dest: less_imp_not_eq2 less_imp_not_less)

lemma omap_copy_ok: "omap_ok m \<Longrightarrow> omap_copy m = m"
proof (induction m rule: rev_induct)
  case Nil
  then show ?case by (simp add: omap_copy_def)
next
  case (snoc p m)
  obtain k v where p: "p = (k, v)" by (cases p)
  have "omap_ok m" and "list_all (\<lambda>p. fst p < k) m"
    using snoc.prems by (auto simp: omap_ok_def sorted_wrt_append p list_all_iff)
  with snoc.IH show ?case by (simp add: p omap_copy_def omap_set_last)
qed

section \<open>What a recording keeps of a frame\<close>

text \<open>
  The overlays, the decision hash and the timings are not recorded; the members of \<open>std::map\<close> type are
  in key order in every C++ value, which \<open>sf_maps_ok\<close> says.
\<close>

definition sf_recorded :: "SpatialFrame \<Rightarrow> SpatialFrame" where
  "sf_recorded f = sf_zero\<lparr>sf_timestamp := sf_timestamp f, sf_frame_id := sf_frame_id f,
     sf_assets := sf_assets f, sf_heatmap := sf_heatmap f, sf_congestion := sf_congestion f,
     sf_decisions := sf_decisions f, sf_predictions := sf_predictions f,
     sf_processing_time_ms := sf_processing_time_ms f, sf_is_key_frame := sf_is_key_frame f\<rparr>"

definition sf_maps_ok :: "SpatialFrame \<Rightarrow> bool" where
  "sf_maps_ok f \<longleftrightarrow> list_all (\<lambda>a. omap_ok (ap_action_scores a)) (sf_assets f)"

lemma asset_of_pb_of: "omap_ok (ap_action_scores a) \<Longrightarrow> asset_of_pb (pb_of_asset a) = a"
  by (simp add: asset_of_pb_def pb_of_asset_def omap_copy_ok)

lemma parts_of_pb_of [simp]:
  "cell_of_pb (pb_of_cell c) = c" "zone_of_pb (pb_of_zone z) = z"
  "decision_of_pb (pb_of_decision d) = d" "prediction_of_pb (pb_of_prediction q) = q"
  by (simp_all add: cell_of_pb_def pb_of_cell_def zone_of_pb_def pb_of_zone_def decision_of_pb_def
      pb_of_decision_def prediction_of_pb_def pb_of_prediction_def)

lemma frame_of_pb_of: "sf_maps_ok f \<Longrightarrow> frame_of_pb (pb_of_frame H f) g = sf_recorded f"
  by (simp add: frame_of_pb_def pb_of_frame_def sf_recorded_def sf_clear_def sf_zero_def o_def
      sf_maps_ok_def list_all_iff asset_of_pb_of map_idI)

section \<open>A file of records and its index\<close>

text \<open>The bytes that \<open>append\<close> writes for a frame.\<close>

definition frame_header :: "byte list \<Rightarrow> SpatialFrame \<Rightarrow> FrameRecordHeader" where
  "frame_header payload f = \<lparr>frh_magic = FRAME_MAGIC, frh_timestamp = word_of_int (sf_timestamp f),
     frh_payload_size = of_nat (length payload), frh_checksum = sr_computeChecksum payload\<rparr>"

definition frame_bytes :: "std_hash \<Rightarrow> (pb_SpatialFrame \<Rightarrow> byte list) \<Rightarrow> SpatialFrame \<Rightarrow> byte list" where
  "frame_bytes H ser f =
     (let payload = ser (pb_of_frame H f) in header_bytes (frame_header payload f) @ payload)"

text \<open>What is done with an open recorder: frames appended, each with its spill, and flushes.\<close>

datatype recorder_op = RecAppend SpatialFrame nat | RecFlush

fun sr_step ::
  "std_hash \<Rightarrow> (pb_SpatialFrame \<Rightarrow> byte list) \<Rightarrow> recorder_op \<Rightarrow>
   SpatialFrameRecorder \<Rightarrow> SpatialFrameRecorder" where
  "sr_step H ser (RecAppend f spill) r = sr_append H ser spill f r"
| "sr_step H ser RecFlush r = sr_flush r"

fun recorded_frames :: "recorder_op list \<Rightarrow> SpatialFrame list" where
  "recorded_frames [] = []"
| "recorded_frames (RecAppend f spill # ops) = f # recorded_frames ops"
| "recorded_frames (RecFlush # ops) = recorded_frames ops"

text \<open>The file and the stream together always hold the records of all frames, in order.\<close>

lemma sr_steps_bytes:
  assumes "sr_opened r"
  shows "sr_file (fold (sr_step H ser) ops r) @ sr_buffer (fold (sr_step H ser) ops r) =
      sr_file r @ sr_buffer r @ concat (map (frame_bytes H ser) (recorded_frames ops)) \<and>
    sr_opened (fold (sr_step H ser) ops r)"
  using assms
proof (induction ops arbitrary: r rule: recorded_frames.induct)
  case (2 f spill ops)
  then have "sr_opened (sr_append H ser spill f r)"
    and "sr_file (sr_append H ser spill f r) @ sr_buffer (sr_append H ser spill f r) =
      sr_file r @ sr_buffer r @ frame_bytes H ser f"
    by (simp_all add: sr_append_def Let_def frame_bytes_def frame_header_def del: take_append drop_append)
  with 2 show ?case by simp
qed (simp_all add: sr_flush_def)

lemma sr_steps_unspilled:
  "sr_file r = [] \<Longrightarrow> \<forall>op \<in> set ops. \<exists>f. op = RecAppend f 0 \<Longrightarrow>
    sr_file (fold (sr_step H ser) ops r) = []"
proof (induction ops arbitrary: r)
  case (Cons op ops)
  then obtain f where op: "op = RecAppend f 0" by auto
  have "sr_file (sr_append H ser 0 f r) = []" using Cons.prems(1) by (simp add: sr_append_def Let_def)
  with Cons show ?case by (simp add: op)
qed simp

text \<open>A stream in good state that stands at \<open>p\<close>.\<close>

definition is_at :: "byte list \<Rightarrow> nat \<Rightarrow> ifstream \<Rightarrow> bool" where
  "is_at bs p s \<longleftrightarrow> is_bytes s = bs \<and> is_pos s = p \<and> is_good s"

lemma is_read_at:
  assumes "is_at (pre @ mid @ post) (length pre) s" "length mid = n"
  shows "\<exists>s'. is_read n s = (mid, s') \<and> is_at (pre @ mid @ post) (length pre + n) s'"
  using assms by (auto simp: is_read_def is_at_def is_good_def Let_def)

lemma is_seek_at: "is_at bs p s \<Longrightarrow> is_at bs q (is_seek q s)"
  by (auto simp: is_at_def is_good_def)

lemma sp_readHeader_at:
  assumes "is_at (pre @ header_bytes h @ post) (length pre) s" "frh_magic h = FRAME_MAGIC"
  shows "\<exists>s'. sp_readHeader s = (True, h, s') \<and> is_at (pre @ header_bytes h @ post) (length pre + 24) s'"
  using is_read_at [OF assms(1), of 24] assms(2)
  by (auto simp: sp_readHeader_def is_at_def)

lemma sp_readHeader_end: "is_at bs (length bs) s \<Longrightarrow> \<exists>h s'. sp_readHeader s = (False, h, s')"
  by (auto simp: sp_readHeader_def is_read_def is_at_def is_good_def Let_def)

text \<open>The offsets of consecutive records.\<close>

fun offsets :: "nat \<Rightarrow> byte list list \<Rightarrow> nat list" where
  "offsets p [] = []"
| "offsets p (r # rs) = p # offsets (p + length r) rs"

lemma length_offsets [simp]: "length (offsets p rs) = length rs"
  by (induction rs arbitrary: p) auto

lemma offsets_nth: "i < length rs \<Longrightarrow> offsets p rs ! i = p + length (concat (take i rs))"
  by (induction rs arbitrary: p i) (auto simp: nth_Cons split: nat.split)

lemma sp_index_loop_records:
  assumes "\<And>f. f \<in> set fs \<Longrightarrow> length (ser (pb_of_frame H f)) < 2 ^ 32"
    and "is_at (pre @ concat (map (frame_bytes H ser) fs) @ tail) (length pre) s"
  shows "\<exists>rest s'. sp_index_loop s =
      (zip (offsets (length pre) (map (frame_bytes H ser) fs)) (map (\<lambda>f. word_of_int (sf_timestamp f)) fs) @ rest, s')
      \<and> (tail = [] \<longrightarrow> rest = [])"
  using assms
proof (induction fs arbitrary: pre s)
  case Nil
  obtain rest s' where l: "sp_index_loop s = (rest, s')" by (metis prod.exhaust)
  moreover have "rest = []" if "tail = []"
  proof -
    from Nil(2) that obtain h s1 where "sp_readHeader s = (False, h, s1)"
      using sp_readHeader_end [of pre s] by auto
    with l show ?thesis by (subst (asm) sp_index_loop.simps) simp
  qed
  ultimately show ?case by simp
next
  case (Cons f fs)
  let ?pay = "ser (pb_of_frame H f)"
  let ?h = "frame_header ?pay f"
  let ?rest = "concat (map (frame_bytes H ser) fs) @ tail"
  have bytes: "frame_bytes H ser f = header_bytes ?h @ ?pay" by (simp add: frame_bytes_def Let_def)
  have size: "unat (frh_payload_size ?h) = length ?pay"
    using Cons.prems(1) [of f] by (simp add: frame_header_def unat_of_nat take_bit_nat_eq_self)
  have "is_at (pre @ header_bytes ?h @ (?pay @ ?rest)) (length pre) s"
    using Cons.prems(2) by (simp add: bytes)
  from sp_readHeader_at [OF this] obtain s1 where s1: "sp_readHeader s = (True, ?h, s1)"
      "is_at (pre @ header_bytes ?h @ ?pay @ ?rest) (length pre + 24) s1"
    by (auto simp: frame_header_def)
  let ?s2 = "is_seek (is_pos s1 + unat (frh_payload_size ?h)) s1"
  have at2: "is_at ((pre @ frame_bytes H ser f) @ ?rest) (length (pre @ frame_bytes H ser f)) ?s2"
    using is_seek_at [OF s1(2), of "length (pre @ frame_bytes H ser f)"] s1(2) size
    by (simp add: bytes is_at_def add.assoc)
  from Cons.IH [OF Cons.prems(1) at2] obtain rest s' where "sp_index_loop ?s2 =
      (zip (offsets (length (pre @ frame_bytes H ser f)) (map (frame_bytes H ser) fs))
         (map (\<lambda>f. word_of_int (sf_timestamp f)) fs) @ rest, s')" "tail = [] \<longrightarrow> rest = []"
    by auto
  with s1 show ?case
    by (subst sp_index_loop.simps) (simp add: is_at_def frame_header_def bytes)
qed

lemma sp_readHeader_bytes: "sp_readHeader s = (ok, h, s') \<Longrightarrow> is_bytes s' = is_bytes s"
  by (auto simp: sp_readHeader_def is_read_def Let_def split: prod.splits if_splits)

lemma sp_index_loop_bytes: "sp_index_loop s = (es, s') \<Longrightarrow> is_bytes s' = is_bytes s"
proof (induction s arbitrary: es rule: sp_index_loop.induct)
  case (1 s)
  obtain ok h s1 where r: "sp_readHeader s = (ok, h, s1)" by (metis prod_cases3)
  show ?case
  proof (cases ok)
    case True
    obtain rest s2 where l: "sp_index_loop (is_seek (is_pos s1 + unat (frh_payload_size h)) s1) = (rest, s2)"
      by (metis prod.exhaust)
    with 1(2) r True have "s' = s2" by (subst (asm) sp_index_loop.simps) simp
    with 1(1) [OF r [symmetric] refl True, of rest] l sp_readHeader_bytes [OF r] show ?thesis by simp
  next
    case False
    with 1(2) r have "s' = s1" by (subst (asm) sp_index_loop.simps) simp
    with sp_readHeader_bytes [OF r] show ?thesis by simp
  qed
qed

section \<open>Reading the recording back\<close>

text \<open>
  The player has a file open that begins with the records of \<open>fs\<close>; they are indexed first, and the
  stream is in good state.
\<close>

definition sp_holds ::
  "std_hash \<Rightarrow> (pb_SpatialFrame \<Rightarrow> byte list) \<Rightarrow> SpatialFrame list \<Rightarrow> SpatialFramePlayer \<Rightarrow> bool" where
  "sp_holds H ser fs p \<longleftrightarrow>
     (\<exists>s. sp_file p = Some s \<and> is_good s \<and>
        (\<exists>tail. is_bytes s = concat (map (frame_bytes H ser) fs) @ tail)) \<and>
     (\<exists>ps. sp_framePositions p = offsets 0 (map (frame_bytes H ser) fs) @ ps) \<and>
     (\<exists>ts. sp_frameTimestamps p = map (\<lambda>f. word_of_int (sf_timestamp f)) fs @ ts)"

text \<open>What is asked of the encoder and the parser on the recorded frames.\<close>

definition codec_ok ::
  "std_hash \<Rightarrow> (pb_SpatialFrame \<Rightarrow> byte list) \<Rightarrow> (byte list \<Rightarrow> pb_SpatialFrame option) \<Rightarrow>
   SpatialFrame \<Rightarrow> bool" where
  "codec_ok H ser parse f \<longleftrightarrow>
     parse (ser (pb_of_frame H f)) = Some (pb_of_frame H f) \<and>
     length (ser (pb_of_frame H f)) < 2 ^ 32 \<and> sf_maps_ok f"

lemma sp_open_holds:
  assumes "list_all (codec_ok H ser parse) fs"
    and "sp_open (Some (concat (map (frame_bytes H ser) fs) @ tail)) q = Inr (True, p)"
  shows "sp_holds H ser fs p \<and> (tail = [] \<longrightarrow> sp_totalFrames p = length fs)"
proof -
  let ?bs = "concat (map (frame_bytes H ser) fs) @ tail"
  have len: "length (ser (pb_of_frame H f)) < 2 ^ 32" if "f \<in> set fs" for f
    using assms(1) that by (auto simp: list_all_iff codec_ok_def)
  have "is_at ([] @ ?bs) (length []) (is_seek 0 (is_open_file ?bs))"
    by (simp add: is_at_def is_open_file_def is_good_def is_seek_def)
  from sp_index_loop_records [OF len this] obtain rest s' where
    loop: "sp_index_loop (is_seek 0 (is_open_file ?bs)) =
      (zip (offsets 0 (map (frame_bytes H ser) fs)) (map (\<lambda>f. word_of_int (sf_timestamp f)) fs) @ rest, s')"
    "tail = [] \<longrightarrow> rest = []"
    by auto
  have "is_bytes s' = ?bs" using sp_index_loop_bytes [OF loop(1)] by (simp add: is_open_file_def)
  with assms(2) loop show ?thesis
    by (auto simp: sp_open_def sp_loadIndex_def sp_holds_def is_good_def is_clear_def sp_totalFrames_def
        split: if_splits)
qed

lemma sp_read_recorded:
  assumes ok: "list_all (codec_ok H ser parse) fs" and holds: "sp_holds H ser fs p"
    and i: "i < length fs"
  shows "\<exists>p'. sp_readFrameAt parse i g p = (True, sf_recorded (fs ! i), p') \<and> sp_holds H ser fs p' \<and>
     sp_currentFrameIndex p' = sp_currentFrameIndex p \<and> sp_totalFrames p' = sp_totalFrames p \<and>
     sp_lastFrameHash p' = sf_hash H (fs ! i)"
proof -
  let ?pay = "ser (pb_of_frame H (fs ! i))"
  let ?h = "frame_header ?pay (fs ! i)"
  let ?pre = "concat (map (frame_bytes H ser) (take i fs))"
  obtain s tail ps where s: "sp_file p = Some s" "is_good s"
      "is_bytes s = concat (map (frame_bytes H ser) fs) @ tail"
    and pos: "sp_framePositions p = offsets 0 (map (frame_bytes H ser) fs) @ ps"
    using holds by (auto simp: sp_holds_def)
  let ?post = "concat (map (frame_bytes H ser) (drop (Suc i) fs)) @ tail"
  have c: "codec_ok H ser parse (fs ! i)" using ok i by (auto simp: list_all_iff)
  have size: "unat (frh_payload_size ?h) = length ?pay"
    using c by (simp add: frame_header_def codec_ok_def unat_of_nat take_bit_nat_eq_self)
  have "fs = take i fs @ fs ! i # drop (Suc i) fs" using i by (rule id_take_nth_drop)
  then have "concat (map (frame_bytes H ser) fs) @ tail = ?pre @ frame_bytes H ser (fs ! i) @ ?post"
    by (metis (no_types, lifting) append.assoc concat.simps(2) concat_append list.simps(9) map_append)
  then have bytes: "is_bytes s = ?pre @ header_bytes ?h @ ?pay @ ?post"
    using s(3) by (simp add: frame_bytes_def Let_def)
  have at: "sp_framePositions p ! i = length ?pre"
    using i by (simp add: pos nth_append offsets_nth take_map)
  have "is_at (?pre @ header_bytes ?h @ (?pay @ ?post)) (length ?pre) (is_seek (sp_framePositions p ! i) s)"
    using s(2) bytes by (simp add: at is_at_def is_good_def)
  from sp_readHeader_at [OF this] obtain s1 where s1:
    "sp_readHeader (is_seek (sp_framePositions p ! i) s) = (True, ?h, s1)"
    "is_at (?pre @ header_bytes ?h @ ?pay @ ?post) (length ?pre + 24) s1"
    by (auto simp: frame_header_def)
  have "is_at ((?pre @ header_bytes ?h) @ ?pay @ ?post) (length (?pre @ header_bytes ?h)) s1"
    using s1(2) by simp
  from is_read_at [OF this size [symmetric]] obtain s2 where s2:
    "is_read (unat (frh_payload_size ?h)) s1 = (?pay, s2)" "is_good s2" "is_bytes s2 = is_bytes s"
    by (auto simp: is_at_def bytes)
  have crc: "sp_verifyChecksum ?h ?pay"
    using size by (simp add: sp_verifyChecksum_def) (simp add: frame_header_def sr_computeChecksum_def)
  have "sp_readFrameAt parse i g p = (True, sf_recorded (fs ! i),
      p\<lparr>sp_file := Some s2, sp_lastFrameHash := sf_hash H (fs ! i)\<rparr>)"
    using i c s1(1) s2(1) crc size
    by (simp add: sp_readFrameAt_def s(1) pos codec_ok_def frame_of_pb_of Let_def)
      (simp add: pb_of_frame_def)
  then show ?thesis using s2(2,3) s(3) holds by (simp add: sp_holds_def sp_totalFrames_def)
qed

text \<open>At most \<open>n\<close> calls of \<open>nextFrame\<close>, until one returns false: the frames read.\<close>

fun sp_read_next ::
  "(byte list \<Rightarrow> pb_SpatialFrame option) \<Rightarrow> nat \<Rightarrow> SpatialFramePlayer \<Rightarrow> SpatialFrame list" where
  "sp_read_next parse 0 p = []"
| "sp_read_next parse (Suc n) p =
     (case sp_nextFrame parse sf_zero p of
        (True, f, p') \<Rightarrow> f # sp_read_next parse n p'
      | (False, _, _) \<Rightarrow> [])"

lemma sp_read_next_recorded:
  assumes "list_all (codec_ok H ser parse) fs" "sp_holds H ser fs p"
    and "sp_currentFrameIndex p + n \<le> length fs \<or> sp_totalFrames p = length fs"
  shows "sp_read_next parse n p = map sf_recorded (take n (drop (sp_currentFrameIndex p) fs))"
  using assms(2,3)
proof (induction n arbitrary: p)
  case 0
  then show ?case by simp
next
  case (Suc n)
  let ?i = "sp_currentFrameIndex p"
  have len: "length (sp_framePositions p) \<ge> length fs" using Suc.prems(1) by (auto simp: sp_holds_def)
  show ?case
  proof (cases "?i < length fs")
    case False
    with Suc.prems(2) show ?thesis by (simp add: sp_nextFrame_def sp_totalFrames_def)
  next
    case True
    have "sp_holds H ser fs (p\<lparr>sp_currentFrameIndex := ?i + 1\<rparr>)"
      using Suc.prems(1) by (simp add: sp_holds_def)
    from sp_read_recorded [OF assms(1) this True] obtain p' where p':
      "sp_nextFrame parse sf_zero p = (True, sf_recorded (fs ! ?i), p')"
      "sp_holds H ser fs p'" "sp_currentFrameIndex p' = Suc ?i" "sp_totalFrames p' = sp_totalFrames p"
      using True len by (auto simp: sp_nextFrame_def sp_totalFrames_def)
    have "sp_currentFrameIndex p' + n \<le> length fs \<or> sp_totalFrames p' = length fs"
      using Suc.prems(2) p'(3,4) by auto
    from Suc.IH [OF p'(2) this] True p' show ?thesis by (simp add: Cons_nth_drop_Suc [symmetric])
  qed
qed

lemma concat_map_split: "concat (map f (take k xs)) @ concat (map f (drop k xs)) = concat (map f xs)"
  by (simp flip: concat_append map_append)

lemma append_cut: "a @ b = c @ d \<Longrightarrow> length c \<le> length a \<Longrightarrow> a = c @ drop (length c) a"
proof -
  assume eq: "a @ b = c @ d" and le: "length c \<le> length a"
  from arg_cong [OF eq, of "take (length c)"] le have "take (length c) a = c" by simp
  with append_take_drop_id [of "length c" a] show ?thesis by simp
qed

text \<open>Seeking to frame \<open>i\<close> and reading \<open>n\<close> frames on.\<close>

lemma sp_seek_read:
  assumes "list_all (codec_ok H ser parse) fs" "sp_holds H ser fs p" "unat i < length fs"
    and "unat i + n \<le> length fs \<or> sp_totalFrames p = length fs"
  shows "case sp_seekToFrame i p of (ok, p') \<Rightarrow>
     ok \<and> sp_read_next parse n p' = map sf_recorded (take n (drop (unat i) fs))"
proof -
  have "sp_holds H ser fs (p\<lparr>sp_currentFrameIndex := unat i\<rparr>)" using assms(2) by (simp add: sp_holds_def)
  from sp_read_next_recorded [OF assms(1) this, of n] assms(4)
  have "sp_read_next parse n (p\<lparr>sp_currentFrameIndex := unat i\<rparr>) =
      map sf_recorded (take n (drop (unat i) fs))"
    by (simp add: sp_totalFrames_def)
  moreover have "unat i < length (sp_framePositions p)" using assms(2,3) by (auto simp: sp_holds_def)
  ultimately show ?thesis by (simp add: sp_seekToFrame_def)
qed

section \<open>Properties\<close>

text \<open>C1: Recording and replay. Frames are appended to a new file by an open recorder, with flushes
  anywhere in between; the stream passes bytes to the file whenever it likes. After \<open>close\<close> (or
  \<open>flush\<close>, which leaves the same bytes) a player that opens the file counts all frames, and after
  seeking to frame \<open>i\<close> reading on yields exactly the recorded part of the frames from \<open>i\<close> on, in order,
  and then stops. Before that the file is only a beginning of the recording: a player that opens it
  then still reads back the first \<open>k\<close> frames, for every \<open>k\<close> such that all their bytes have left the
  stream, and when nothing has left it the player finds no frame at all. The recorded part lacks the
  overlays, the decision hash and the timings. The protobuf encoder and parser are only assumed to
  round-trip these frames within 32 bits of length.\<close>

theorem recording_roundtrip:
  assumes "list_all (codec_ok H ser parse) (recorded_frames ops)"
    and "sr_open (Some []) r = Inr (True, r0)" and "r1 = fold (sr_step H ser) ops r0"
    and "sp_open (Some (sr_file (sr_close r1))) q = Inr (True, p)"
    and "sp_open (Some (sr_file r1)) q = Inr (True, p1)"
    and "unat i < length (recorded_frames ops)"
  shows "sr_file (sr_flush r1) = sr_file (sr_close r1) \<and>
    sp_totalFrames p = length (recorded_frames ops) \<and>
    (case sp_seekToFrame i p of (ok, p') \<Rightarrow>
       ok \<and> sp_read_next parse (length (recorded_frames ops)) p' =
         map sf_recorded (drop (unat i) (recorded_frames ops))) \<and>
    prefix (sr_file r1) (sr_file (sr_close r1)) \<and>
    (\<forall>k. unat i < k \<and> k \<le> length (recorded_frames ops) \<and>
        length (concat (map (frame_bytes H ser) (take k (recorded_frames ops)))) \<le> length (sr_file r1) \<longrightarrow>
      (case sp_seekToFrame i p1 of (ok, p') \<Rightarrow>
         ok \<and> sp_read_next parse (k - unat i) p' =
           map sf_recorded (drop (unat i) (take k (recorded_frames ops))))) \<and>
    ((\<forall>op \<in> set ops. \<exists>f. op = RecAppend f 0) \<longrightarrow> sp_totalFrames p1 = 0)"
proof -
  let ?fs = "recorded_frames ops"
  let ?bs = "\<lambda>fs. concat (map (frame_bytes H ser) fs)"
  have r0: "sr_opened r0" "sr_file r0 = []" "sr_buffer r0 = []"
    using assms(2) by (auto simp: sr_open_def split: if_splits)
  have r1: "sr_file r1 @ sr_buffer r1 = ?bs ?fs" "sr_opened r1"
    using sr_steps_bytes [OF r0(1), of H ser ops] r0(2,3) by (simp_all add: assms(3))
  have closed: "sr_file (sr_close r1) = ?bs ?fs" "sr_file (sr_flush r1) = ?bs ?fs"
    using r1 by (simp_all add: sr_close_def sr_flush_def)
  have p: "sp_holds H ser ?fs p" "sp_totalFrames p = length ?fs"
    using sp_open_holds [OF assms(1), of "[]" q p] assms(4) closed(1) by simp_all
  have "case sp_seekToFrame i p1 of (ok, p') \<Rightarrow>
      ok \<and> sp_read_next parse (k - unat i) p' = map sf_recorded (drop (unat i) (take k ?fs))"
    if k: "unat i < k" "k \<le> length ?fs" "length (?bs (take k ?fs)) \<le> length (sr_file r1)" for k
  proof -
    have "sr_file r1 @ sr_buffer r1 = ?bs (take k ?fs) @ ?bs (drop k ?fs)"
      unfolding r1(1) concat_map_split ..
    from append_cut [OF this k(3)]
    have whole: "?bs (take k ?fs) @ drop (length (?bs (take k ?fs))) (sr_file r1) = sr_file r1" by (rule sym)
    have ok: "list_all (codec_ok H ser parse) (take k ?fs)"
      using assms(1) by (auto simp: list_all_iff dest: in_set_takeD)
    have "sp_open (Some (?bs (take k ?fs) @ drop (length (?bs (take k ?fs))) (sr_file r1))) q = Inr (True, p1)"
      unfolding whole by (rule assms(5))
    from sp_open_holds [OF ok this] have "sp_holds H ser (take k ?fs) p1" ..
    from sp_seek_read [OF ok this, of i "k - unat i"] k(1,2) show ?thesis by simp
  qed
  moreover have "sp_totalFrames p1 = 0" if "\<forall>op \<in> set ops. \<exists>f. op = RecAppend f 0"
    using sr_steps_unspilled [OF r0(2) that] sp_open_holds [of H ser parse "[]" "[]" q p1] assms(3,5)
    by simp
  moreover have "prefix (sr_file r1) (sr_file (sr_close r1))" unfolding closed(1) r1(1) [symmetric] by simp
  ultimately show ?thesis
    using p sp_seek_read [OF assms(1) p(1) assms(6), of "length ?fs"] closed by simp
qed

text \<open>A codec for the witness: a single message, encoded as one byte.\<close>

definition example_frame :: SpatialFrame where
  "example_frame = sf_zero\<lparr>sf_frame_id := 5, sf_timestamp := 77\<rparr>"

definition example_ser :: "pb_SpatialFrame \<Rightarrow> byte list" where
  "example_ser m = [ucast (pf_frame_id m)]"

definition example_parse :: "byte list \<Rightarrow> pb_SpatialFrame option" where
  "example_parse bs = (if bs = [5] then Some (pb_of_frame (\<lambda>_. 0) example_frame) else None)"

lemma recording_roundtrip_witness:
  "\<exists>p p1. sp_totalFrames p = 2 \<and> map sf_frame_id (sp_read_next example_parse 2 p) = [5, 5] \<and>
     sp_totalFrames p1 = 0"
proof -
  let ?H = "\<lambda>_. 0 :: u64"
  let ?ops = "[RecAppend example_frame 0, RecAppend example_frame 0]"
  let ?r0 = "sr_new\<lparr>sr_opened := True\<rparr>"
  let ?r1 = "fold (sr_step ?H example_ser) ?ops ?r0"
  obtain p where p: "sp_open (Some (sr_file (sr_close ?r1))) sp_new = Inr (True, p)"
      "sp_currentFrameIndex p = 0"
    by (simp add: sp_open_def sp_new_def sp_loadIndex_def split: prod.splits)
  obtain p1 where p1: "sp_open (Some (sr_file ?r1)) sp_new = Inr (True, p1)"
    by (simp add: sp_open_def sp_new_def)
  have ok: "list_all (codec_ok ?H example_ser example_parse) (recorded_frames ?ops)"
    by (simp add: codec_ok_def example_ser_def example_parse_def pb_of_frame_def example_frame_def
        sf_maps_ok_def sf_zero_def)
  have opened: "sr_open (Some []) sr_new = Inr (True, ?r0)"
    by (simp add: sr_open_def sr_new_def)
  have i: "unat (0 :: u64) < length (recorded_frames ?ops)" by simp
  note T = recording_roundtrip [OF ok opened refl p(1) p1 i]
  note C = T [THEN conjunct2, THEN conjunct1]
    T [THEN conjunct2, THEN conjunct2, THEN conjunct1]
    T [THEN conjunct2, THEN conjunct2, THEN conjunct2, THEN conjunct2, THEN conjunct2]
  have "sp_seekToFrame 0 p = (True, p)"
    using C(1) p(2) by (simp add: sp_seekToFrame_def sp_totalFrames_def)
  then have "sp_read_next example_parse 2 p = [sf_recorded example_frame, sf_recorded example_frame]"
    using C(2) by (simp add: numeral_2_eq_2)
  moreover have "sf_frame_id (sf_recorded example_frame) = 5"
    by (simp add: sf_recorded_def example_frame_def)
  ultimately show ?thesis using C(1,3) by (intro exI [of _ p] exI [of _ p1]) simp
qed

text \<open>The hash a recording reports for a frame is not the hash of the replayed frame: it is the hash of
  the live frame, and for a frame that only differs from its recorded part by its decision hash the
  two hashes differ as soon as \<open>std::hash\<close> separates that decision hash from 0.\<close>

theorem recorded_hash_differs:
  assumes "list_all (codec_ok H ser parse) fs" and "sp_holds H ser fs p" and "i < length fs"
    and "sf_overlays (fs ! i) = []" and "H (HU64 (sf_decision_hash (fs ! i))) \<noteq> H (HU64 0)"
  shows "case sp_readFrameAt parse i g p of (ok, f, p') \<Rightarrow>
    ok \<and> sp_lastFrameHash p' = sf_hash H (fs ! i) \<and> sp_lastFrameHash p' \<noteq> sf_hash H f"
proof -
  have eq: "a XOR x = a XOR y \<longleftrightarrow> x = y" for a x y :: u64
    by (simp add: bit_eq_iff bit_xor_iff) (metis (full_types))
  define pre where "pre = butlast (sf_hash_args (fs ! i))"
  have "sf_hash_args (fs ! i) = pre @ [HU64 (sf_decision_hash (fs ! i))]"
    by (simp add: pre_def sf_hash_args_def butlast_append)
  moreover have "sf_hash_args (sf_recorded (fs ! i)) = pre @ [HU64 0]"
    using assms(4) by (simp add: pre_def sf_hash_args_def sf_recorded_def sf_zero_def butlast_append)
  ultimately have "sf_hash H (fs ! i) \<noteq> sf_hash H (sf_recorded (fs ! i))"
    using assms(5) unfolding sf_hash_def by (simp add: hashCombine_def eq)
  with sp_read_recorded [OF assms(1-3), of g] show ?thesis by auto
qed

lemma recorded_hash_differs_witness:
  "\<exists>(p :: SpatialFramePlayer) f. sp_lastFrameHash p \<noteq> sf_hash (\<lambda>a. if a = HU64 9 then 1 else 0) f"
proof -
  let ?H = "\<lambda>a. if a = HU64 9 then 1 else (0 :: u64)"
  let ?f = "example_frame\<lparr>sf_decision_hash := 9\<rparr>"
  let ?parse = "\<lambda>bs :: byte list. Some (pb_of_frame ?H ?f)"
  have ok: "list_all (codec_ok ?H example_ser ?parse) [?f]"
    by (simp add: codec_ok_def example_ser_def sf_maps_ok_def example_frame_def sf_zero_def)
  obtain p where "sp_open (Some (concat (map (frame_bytes ?H example_ser) [?f]))) sp_new = Inr (True, p)"
    by (simp add: sp_open_def sp_new_def)
  then have "sp_holds ?H example_ser [?f] p" using sp_open_holds [OF ok, of "[]"] by simp
  then have C: "case sp_readFrameAt ?parse 0 sf_zero p of (ok, f, p') \<Rightarrow>
      ok \<and> sp_lastFrameHash p' = sf_hash ?H ([?f] ! 0) \<and> sp_lastFrameHash p' \<noteq> sf_hash ?H f"
    by (rule recorded_hash_differs [OF ok]) (simp_all add: example_frame_def sf_zero_def)
  obtain b f q where eq: "sp_readFrameAt ?parse 0 sf_zero p = (b, f, q)" by (metis prod_cases3)
  from C [unfolded eq prod.case] have "sp_lastFrameHash q \<noteq> sf_hash ?H f" by (elim conjE)
  then show ?thesis by blast
qed

lemma sp_nextFrame_queue: "sp_nextFrame parse f p = (ok, f', p') \<Longrightarrow> sp_frameQueue p' = sp_frameQueue p"
  by (auto simp: sp_nextFrame_def sp_readFrameAt_def Let_def split: if_splits option.splits prod.splits)

text \<open>An iteration of the playback thread keeps at most three frames queued and only drops frames from
  the front: the new queue is a suffix of the old one, followed by at most the frame just read; a
  player that is not playing is left alone.\<close>

theorem sp_playback_queue:
  assumes "length (sp_frameQueue p) \<le> MAX_QUEUE_SIZE"
  shows "length (sp_frameQueue (sp_playback_step parse p)) \<le> MAX_QUEUE_SIZE \<and>
    (\<exists>n new. sp_frameQueue (sp_playback_step parse p) = drop n (sp_frameQueue p) @ new \<and> length new \<le> 1) \<and>
    (sp_state p \<noteq> PLAYING \<longrightarrow> sp_playback_step parse p = p)"
proof (cases "\<not> sp_running p \<or> sp_state p \<noteq> PLAYING")
  case True
  with assms show ?thesis
    by (auto simp: sp_playback_step_def intro: exI [of _ 0] exI [of _ "[]"])
next
  case False
  let ?n = "if length (sp_frameQueue p) \<ge> MAX_QUEUE_SIZE
      then length (sp_frameQueue p) - (MAX_QUEUE_SIZE - 1) else 0"
  let ?p = "p\<lparr>sp_frameQueue := drop ?n (sp_frameQueue p)\<rparr>"
  obtain ok f p' where next_frame: "sp_nextFrame parse sf_zero ?p = (ok, f, p')" by (metis prod_cases3)
  have queue: "sp_frameQueue p' = drop ?n (sp_frameQueue p)"
    using sp_nextFrame_queue [OF next_frame] by simp
  have "sp_frameQueue (sp_playback_step parse p) = drop ?n (sp_frameQueue p) @ (if ok then [f] else [])"
    using False next_frame queue by (cases ok) (auto simp: sp_playback_step_def Let_def)
  moreover have "length (drop ?n (sp_frameQueue p)) \<le> 2"
    using assms by (auto simp: MAX_QUEUE_SIZE_def)
  ultimately show ?thesis
    using False
    by (intro conjI exI [of _ ?n] exI [of _ "if ok then [f] else []"])
      (simp_all add: MAX_QUEUE_SIZE_def del: length_drop)
qed

lemma sp_playback_queue_witness:
  "length (sp_frameQueue (sp_playback_step example_parse (sp_play sp_new))) \<le> MAX_QUEUE_SIZE"
  by (rule sp_playback_queue [THEN conjunct1]) (simp add: sp_play_def sp_new_def MAX_QUEUE_SIZE_def)

end
