(* ===== verification/Causal_Chain.thy ===== *)
theory Causal_Chain
  imports Base
begin

text \<open>
  \<open>server/runtime/causal_chain_tracker.\{h,cpp\}\<close>: the graph of causes. A node names its parents;
  \<open>traceDecision\<close> collects the ancestors of a node by depth-first search over an explicit stack. The
  stack is a list whose head is \<open>back()\<close>; \<open>visited\<close> is the list of ids marked true.
\<close>

record CausalNode =
  cn_id :: u64
  cn_type :: string
  cn_parents :: "u64 list"
  cn_data_hash :: string
  cn_timestamp :: u64

record CausalChainTracker =
  ct_nodes :: "(u64 \<times> CausalNode) list"

definition ct_new :: CausalChainTracker where
  "ct_new = \<lparr>ct_nodes = []\<rparr>"

definition ct_initialize :: "CausalChainTracker \<Rightarrow> CausalChainTracker" where
  "ct_initialize t = t\<lparr>ct_nodes := []\<rparr>"

definition ct_shutdown :: "CausalChainTracker \<Rightarrow> CausalChainTracker" where
  "ct_shutdown t = t\<lparr>ct_nodes := []\<rparr>"

definition ct_addNode ::
  "u64 \<Rightarrow> string \<Rightarrow> u64 list \<Rightarrow> string \<Rightarrow> u64 \<Rightarrow> CausalChainTracker \<Rightarrow> CausalChainTracker" where
  "ct_addNode i ty parents dataHash now t =
     t\<lparr>ct_nodes := AList.update i
        \<lparr>cn_id = i, cn_type = ty, cn_parents = parents, cn_data_hash = dataHash, cn_timestamp = now\<rparr>
        (ct_nodes t)\<rparr>"

text \<open>Pushing the parents that are not visited, in order.\<close>

definition ct_push :: "u64 list \<Rightarrow> u64 list \<Rightarrow> u64 list \<Rightarrow> u64 list" where
  "ct_push visited parents stack =
     foldl (\<lambda>st p. if p \<notin> set visited then p # st else st) stack parents"

function ct_search ::
  "(u64 \<times> CausalNode) list \<Rightarrow> u64 list \<Rightarrow> u64 list \<Rightarrow> CausalNode list \<Rightarrow> CausalNode list" where
  "ct_search nodes visited [] chain = chain"
| "ct_search nodes visited (cur # stack) chain =
     (if cur \<in> set visited then ct_search nodes visited stack chain
      else case map_of nodes cur of
        None \<Rightarrow> ct_search nodes (cur # visited) stack chain
      | Some n \<Rightarrow>
          ct_search nodes (cur # visited) (ct_push (cur # visited) (cn_parents n) stack) (chain @ [n]))"
  by pat_completeness auto
termination
proof (relation "inv_image (less_than <*lex*> less_than)
    (\<lambda>(nodes, visited, stack, _). (card (fst ` set nodes - set visited), length stack))", goal_cases)
  case 1
  show ?case by auto
next
  case (2 nodes visited cur stack chain)
  then show ?case by simp
next
  case (3 nodes visited cur stack chain)
  then have "fst ` set nodes - set (cur # visited) = fst ` set nodes - set visited"
    by (auto simp: map_of_eq_None_iff)
  then show ?case by simp
next
  case (4 nodes visited cur stack chain n)
  then have "cur \<in> fst ` set nodes" by (metis domI dom_map_of_conv_image_fst)
  with 4 have "fst ` set nodes - set (cur # visited) \<subset> fst ` set nodes - set visited" by auto
  then have "card (fst ` set nodes - set (cur # visited)) < card (fst ` set nodes - set visited)"
    by (intro psubset_card_mono) auto
  then show ?case by simp
qed

definition ct_traceDecision :: "u64 \<Rightarrow> CausalChainTracker \<Rightarrow> CausalNode list" where
  "ct_traceDecision decisionId t =
     (case map_of (ct_nodes t) decisionId of
        None \<Rightarrow> []
      | Some _ \<Rightarrow> rev (ct_search (ct_nodes t) [] [decisionId] []))"

text \<open>\<open>explainFailure\<close>; its parameter \<open>frameId\<close> is not used by the code.\<close>

definition ct_explainFailure :: "u64 \<Rightarrow> CausalChainTracker \<Rightarrow> u64 list" where
  "ct_explainFailure frameId t =
     concat (map (\<lambda>(k, n). if cn_type n = ''FAILURE'' \<or> cn_type n = ''DECISION''
                        then filter (\<lambda>p. map_of (ct_nodes t) p \<noteq> None) (cn_parents n) else [])
       (ct_nodes t))"

definition ct_getNodeChain :: "u64 \<Rightarrow> CausalChainTracker \<Rightarrow> CausalNode list" where
  "ct_getNodeChain nodeId t = (case map_of (ct_nodes t) nodeId of None \<Rightarrow> [] | Some n \<Rightarrow> [n])"

text \<open>The loop of \<open>verifyChain\<close> over neighbouring elements.\<close>

fun ct_links :: "CausalNode list \<Rightarrow> bool" where
  "ct_links (a # b # ns) = (cn_id a \<in> set (cn_parents b) \<and> ct_links (b # ns))"
| "ct_links _ = True"

definition ct_verifyChain :: "CausalNode list \<Rightarrow> bool" where
  "ct_verifyChain chain = (if chain = [] then False else ct_links chain)"

definition ct_getNodeCount :: "CausalChainTracker \<Rightarrow> nat" where
  "ct_getNodeCount t = length (ct_nodes t)"

section \<open>The graph\<close>

definition ct_edge :: "(u64 \<times> CausalNode) list \<Rightarrow> u64 \<Rightarrow> u64 \<Rightarrow> bool" where
  "ct_edge nodes a b \<longleftrightarrow> (\<exists>n. map_of nodes a = Some n \<and> b \<in> set (cn_parents n))"

text \<open>Every node is stored under its own id, once.\<close>

definition ct_inv :: "CausalChainTracker \<Rightarrow> bool" where
  "ct_inv t \<longleftrightarrow> distinct (map fst (ct_nodes t)) \<and> (\<forall>(k, n) \<in> set (ct_nodes t). cn_id n = k)"

lemma ct_inv_new: "ct_inv ct_new"
  by (simp add: ct_inv_def ct_new_def)

lemma ct_inv_addNode: "ct_inv t \<Longrightarrow> ct_inv (ct_addNode i ty ps h now t)"
proof -
  assume inv: "ct_inv t"
  let ?n = "\<lparr>cn_id = i, cn_type = ty, cn_parents = ps, cn_data_hash = h, cn_timestamp = now\<rparr>"
  have "cn_id n = k" if "(k, n) \<in> set (AList.update i ?n (ct_nodes t))" for k n
  proof -
    from that have "map_of (AList.update i ?n (ct_nodes t)) k = Some n"
      using inv by (intro map_of_is_SomeI) (simp_all add: ct_inv_def distinct_update)
    then have "k = i \<and> n = ?n \<or> map_of (ct_nodes t) k = Some n"
      by (auto simp: update_conv' split: if_splits)
    with inv show ?thesis by (auto simp: ct_inv_def dest: map_of_SomeD)
  qed
  with inv show ?thesis by (auto simp: ct_inv_def ct_addNode_def distinct_update)
qed

text \<open>A tracker filled by calls of \<open>addNode\<close>.\<close>

definition ct_build :: "(u64 \<times> string \<times> u64 list \<times> string \<times> u64) list \<Rightarrow> CausalChainTracker" where
  "ct_build calls = foldl (\<lambda>t (i, ty, ps, h, now). ct_addNode i ty ps h now t) ct_new calls"

lemma ct_build_inv: "ct_inv (ct_build calls)"
  unfolding ct_build_def
  by (induction calls rule: rev_induct) (auto intro: ct_inv_new ct_inv_addNode split: prod.split)

section \<open>The search\<close>

lemma set_ct_push: "set (ct_push visited ps stack) = set stack \<union> (set ps - set visited)"
  unfolding ct_push_def by (induction ps arbitrary: stack) auto

text \<open>The loop invariant: everything seen is reachable, and what is visited is expanded.\<close>

definition ct_search_inv ::
  "(u64 \<times> CausalNode) list \<Rightarrow> u64 \<Rightarrow> u64 list \<Rightarrow> u64 list \<Rightarrow> CausalNode list \<Rightarrow> bool" where
  "ct_search_inv nodes d visited stack chain \<longleftrightarrow>
     (\<forall>x \<in> set visited \<union> set stack. (ct_edge nodes)\<^sup>*\<^sup>* d x) \<and>
     d \<in> set visited \<union> set stack \<and>
     (\<forall>a \<in> set visited. \<forall>b. ct_edge nodes a b \<longrightarrow> b \<in> set visited \<union> set stack) \<and>
     distinct (map cn_id chain) \<and>
     set chain = {n. \<exists>a \<in> set visited. map_of nodes a = Some n}"

lemma ct_search_sound:
  assumes ids: "\<And>a n. map_of nodes a = Some n \<Longrightarrow> cn_id n = a"
    and "ct_search_inv nodes d visited stack chain"
  shows "distinct (map cn_id (ct_search nodes visited stack chain)) \<and>
    set (ct_search nodes visited stack chain) =
      {n. \<exists>a. (ct_edge nodes)\<^sup>*\<^sup>* d a \<and> map_of nodes a = Some n}"
  using assms(2,1)
proof (induction nodes visited stack chain rule: ct_search.induct)
  case (1 nodes visited chain)
  from 1(1) have d: "d \<in> set visited"
    and closed: "\<And>a b. a \<in> set visited \<Longrightarrow> ct_edge nodes a b \<Longrightarrow> b \<in> set visited"
    and sound: "\<And>x. x \<in> set visited \<Longrightarrow> (ct_edge nodes)\<^sup>*\<^sup>* d x"
    by (auto simp: ct_search_inv_def)
  have "(ct_edge nodes)\<^sup>*\<^sup>* d x \<Longrightarrow> x \<in> set visited" for x
    by (induction rule: rtranclp_induct) (simp add: d, rule closed)
  then have iff: "(ct_edge nodes)\<^sup>*\<^sup>* d x \<longleftrightarrow> x \<in> set visited" for x using sound by blast
  from 1(1) show ?case unfolding iff by (simp add: ct_search_inv_def Bex_def)
next
  case (2 nodes visited cur stack chain)
  show ?case
  proof (cases "cur \<in> set visited")
    case True
    then have "ct_search_inv nodes d visited stack chain"
      using 2(4) by (auto simp: ct_search_inv_def)
    with 2(1) [OF True _ 2(5)] True show ?thesis by simp
  next
    case False
    show ?thesis
    proof (cases "map_of nodes cur")
      case None
      then have "ct_search_inv nodes d (cur # visited) stack chain"
        using 2(4) by (auto simp: ct_search_inv_def ct_edge_def)
      with 2(2) [OF False None _ 2(5)] False None show ?thesis by simp
    next
      case (Some n)
      have edge: "ct_edge nodes cur b \<longleftrightarrow> b \<in> set (cn_parents n)" for b
        using Some by (simp add: ct_edge_def)
      have "ct_search_inv nodes d (cur # visited) (ct_push (cur # visited) (cn_parents n) stack) (chain @ [n])"
        unfolding ct_search_inv_def set_ct_push
      proof (intro conjI)
        have cur: "(ct_edge nodes)\<^sup>*\<^sup>* d cur" using 2(4) by (simp add: ct_search_inv_def)
        then have "(ct_edge nodes)\<^sup>*\<^sup>* d b" if "b \<in> set (cn_parents n)" for b
          using that edge by (meson rtranclp.rtrancl_into_rtrancl)
        with cur 2(4) show "\<forall>x \<in> set (cur # visited) \<union>
            (set stack \<union> (set (cn_parents n) - set (cur # visited))). (ct_edge nodes)\<^sup>*\<^sup>* d x"
          by (auto simp: ct_search_inv_def)
        show "d \<in> set (cur # visited) \<union> (set stack \<union> (set (cn_parents n) - set (cur # visited)))"
          using 2(4) by (auto simp: ct_search_inv_def)
        show "\<forall>a \<in> set (cur # visited). \<forall>b. ct_edge nodes a b \<longrightarrow> b \<in> set (cur # visited) \<union>
            (set stack \<union> (set (cn_parents n) - set (cur # visited)))"
          using 2(4) edge by (auto simp: ct_search_inv_def)
        have "cn_id n \<notin> cn_id ` set chain"
          using 2(4) False 2(5) [OF Some] 2(5) by (auto simp: ct_search_inv_def)
        with 2(4) show "distinct (map cn_id (chain @ [n]))" by (simp add: ct_search_inv_def)
        show "set (chain @ [n]) = {n. \<exists>a \<in> set (cur # visited). map_of nodes a = Some n}"
          using 2(4) Some by (auto simp: ct_search_inv_def)
      qed
      with 2(3) [OF False Some _ 2(5)] show ?thesis using False Some by simp
    qed
  qed
qed

lemma ct_search_prefix: "\<exists>new. ct_search nodes visited stack chain = chain @ new"
proof (induction nodes visited stack chain rule: ct_search.induct)
  case (1 nodes visited chain)
  show ?case by simp
next
  case (2 nodes visited cur stack chain)
  then show ?case by (cases "cur \<in> set visited"; cases "map_of nodes cur") auto
qed

lemma ct_inv_ids: "ct_inv t \<Longrightarrow> map_of (ct_nodes t) a = Some n \<Longrightarrow> cn_id n = a"
  by (auto simp: ct_inv_def dest: map_of_SomeD)

section \<open>Chains of single parents\<close>

text \<open>With one parent at most per node the stack never holds more than the parent of the last node.\<close>

definition ct_single :: "(u64 \<times> CausalNode) list \<Rightarrow> bool" where
  "ct_single nodes \<longleftrightarrow> (\<forall>n \<in> snd ` set nodes. length (cn_parents n) \<le> 1)"


lemma ct_links_Cons: "ns \<noteq> [] \<Longrightarrow> ct_links (a # ns) \<longleftrightarrow> cn_id a \<in> set (cn_parents (hd ns)) \<and> ct_links ns"
  by (cases ns) auto

lemma ct_search_single:
  assumes ids: "\<And>a n. map_of nodes a = Some n \<Longrightarrow> cn_id n = a" and single: "ct_single nodes"
    and "length stack \<le> 1" and "ct_links (rev chain)"
    and "\<And>c. c \<in> set stack \<Longrightarrow> chain = [] \<or> c \<in> set (cn_parents (last chain))"
  shows "ct_links (rev (ct_search nodes visited stack chain))"
  using assms(3-5,1,2)
proof (induction nodes visited stack chain rule: ct_search.induct)
  case (1 nodes visited chain)
  then show ?case by simp
next
  case (2 nodes visited cur stack chain)
  then have stack: "stack = []" by simp
  show ?case
  proof (cases "cur \<in> set visited \<or> map_of nodes cur = None")
    case True
    then show ?thesis using 2(5) stack by auto
  next
    case False
    then obtain n where n: "map_of nodes cur = Some n" by auto
    let ?st = "ct_push (cur # visited) (cn_parents n) stack"
    have "length (cn_parents n) \<le> 1"
      using 2(8) map_of_SomeD [OF n] by (force simp: ct_single_def)
    then have len: "length ?st \<le> 1"
      by (cases "cn_parents n") (auto simp: ct_push_def stack)
    have links: "ct_links (rev (chain @ [n]))"
      using 2(5) 2(6) [of cur] 2(7) [OF n] by (cases "chain = []") (auto simp: ct_links_Cons hd_rev)
    show ?thesis using 2(3) [of n] 2(7,8) False n len links by (auto simp: set_ct_push stack)
  qed
qed

section \<open>Properties\<close>

text \<open>C6: On a tracker filled by any calls of \<open>addNode\<close>, tracing a decision terminates and yields exactly
  the recorded nodes reachable from it over parent links (through recorded nodes), cycles and
  missing parents included, each once, and the decision itself last; an unknown decision gives the
  empty chain.\<close>

theorem ct_trace_exact:
  "distinct (map cn_id (ct_traceDecision d (ct_build calls))) \<and>
   set (ct_traceDecision d (ct_build calls)) =
     {n. \<exists>a. (ct_edge (ct_nodes (ct_build calls)))\<^sup>*\<^sup>* d a \<and>
             map_of (ct_nodes (ct_build calls)) a = Some n} \<and>
   (case map_of (ct_nodes (ct_build calls)) d of
      None \<Rightarrow> ct_traceDecision d (ct_build calls) = []
    | Some n \<Rightarrow> ct_traceDecision d (ct_build calls) \<noteq> [] \<and> last (ct_traceDecision d (ct_build calls)) = n)"
proof (cases "map_of (ct_nodes (ct_build calls)) d")
  case None
  have "a = d" if "(ct_edge (ct_nodes (ct_build calls)))\<^sup>*\<^sup>* d a" for a
    using that None by (induction rule: rtranclp_induct) (auto simp: ct_edge_def)
  then have "{n. \<exists>a. (ct_edge (ct_nodes (ct_build calls)))\<^sup>*\<^sup>* d a \<and>
      map_of (ct_nodes (ct_build calls)) a = Some n} = {}"
    using None by fastforce
  with None show ?thesis by (simp add: ct_traceDecision_def)
next
  case (Some n)
  have inv: "ct_search_inv (ct_nodes (ct_build calls)) d [] [d] []"
    by (simp add: ct_search_inv_def)
  obtain new where "ct_search (ct_nodes (ct_build calls)) [] [d] [] = [n] @ new"
    using ct_search_prefix [of "ct_nodes (ct_build calls)" "[d]" _ "[n]"] Some by fastforce
  with ct_search_sound [OF ct_inv_ids [OF ct_build_inv] inv] Some show ?thesis
    by (simp add: ct_traceDecision_def rev_map [symmetric])
qed

text \<open>The chain verifier accepts the trace of a recorded decision when every recorded node has at most
  one parent; but it rejects the trace of any decision with two distinct recorded parents that have
  none themselves, because it links each node to its neighbour in the trace only.\<close>

theorem ct_trace_verified_iff_linear:
  assumes "ct_inv t" and "map_of (ct_nodes t) d = Some n"
  shows "(ct_single (ct_nodes t) \<longrightarrow> ct_verifyChain (ct_traceDecision d t)) \<and>
    (cn_parents n = [p, q] \<and> p \<noteq> q \<and> p \<noteq> d \<and> q \<noteq> d \<and>
     map_option cn_parents (map_of (ct_nodes t) p) = Some [] \<and>
     map_option cn_parents (map_of (ct_nodes t) q) = Some [] \<longrightarrow>
     \<not> ct_verifyChain (ct_traceDecision d t))"
proof
  obtain new where new: "ct_search (ct_nodes t) [] [d] [] = [n] @ new"
    using ct_search_prefix [of "ct_nodes t" "[d]" _ "[n]"] assms(2) by fastforce
  have "ct_links (rev (ct_search (ct_nodes t) [] [d] []))" if "ct_single (ct_nodes t)"
    using that by (intro ct_search_single) (auto intro: ct_inv_ids [OF assms(1)])
  then show "ct_single (ct_nodes t) \<longrightarrow> ct_verifyChain (ct_traceDecision d t)"
    using assms(2) unfolding new by (simp add: ct_traceDecision_def ct_verifyChain_def new del: ct_search.simps)
qed (use assms(2) in \<open>auto simp: ct_traceDecision_def ct_push_def ct_verifyChain_def\<close>)

definition ct_example :: CausalChainTracker where
  "ct_example = ct_build [(1, ''FRAME'', [], ''a'', 0), (2, ''AI'', [], ''b'', 0), (3, ''DECISION'', [1, 2], ''c'', 0)]"

lemma ct_trace_verified_iff_linear_witness:
  "\<not> ct_verifyChain (ct_traceDecision 3 ct_example)"
proof -
  let ?n = "\<lparr>cn_id = 3, cn_type = ''DECISION'', cn_parents = [1, 2], cn_data_hash = ''c'', cn_timestamp = 0\<rparr>"
  have n: "map_of (ct_nodes ct_example) 3 = Some ?n"
    by (simp add: ct_example_def ct_build_def ct_addNode_def ct_new_def)
  have "ct_inv ct_example" unfolding ct_example_def by (rule ct_build_inv)
  from ct_trace_verified_iff_linear [OF this n, of 1 2] show ?thesis
    by (simp add: ct_example_def ct_build_def ct_addNode_def ct_new_def)
qed

end
