(* ===== verification/AI_Frame_Locking.thy ===== *)
theory AI_Frame_Locking
  imports Base Complex_Main
begin

text \<open>
  \<open>server/runtime/ai_frame_locking.\{h,cpp\}\<close>: the binding of AI results to frames. Steady-clock times
  are integers in microseconds, not negative and not decreasing; the latency of a binding is the
  exact quotient by 1000.
\<close>

record AIFrameBinding =
  ab_frame_id :: u64
  ab_ai_result_id :: u64
  ab_latency_ms :: real
  ab_timestamp :: u64
  ab_is_bound :: bool

definition ab_default :: AIFrameBinding where
  "ab_default = \<lparr>ab_frame_id = 0, ab_ai_result_id = 0, ab_latency_ms = 0, ab_timestamp = 0,
     ab_is_bound = False\<rparr>"

record FrameLock =
  fl_frame_id :: u64
  fl_lock_id :: u64
  fl_lock_time :: int
  fl_binding :: AIFrameBinding

record AIFrameLocking =
  al_locks :: "FrameLock list"
  al_next_lock_id :: u64

definition al_new :: AIFrameLocking where
  "al_new = \<lparr>al_locks = [], al_next_lock_id = 1\<rparr>"

definition al_initialize :: "AIFrameLocking \<Rightarrow> AIFrameLocking" where
  "al_initialize a = a\<lparr>al_next_lock_id := 1\<rparr>"

definition al_shutdown :: "AIFrameLocking \<Rightarrow> AIFrameLocking" where
  "al_shutdown a = a\<lparr>al_locks := []\<rparr>"

definition al_acquireFrameLock :: "u64 \<Rightarrow> int \<Rightarrow> AIFrameLocking \<Rightarrow> u64 \<times> AIFrameLocking" where
  "al_acquireFrameLock frameId now a =
     (let lockId = al_next_lock_id a;
          fl = \<lparr>fl_frame_id = frameId, fl_lock_id = lockId, fl_lock_time = now,
                fl_binding = ab_default\<lparr>ab_frame_id := frameId, ab_is_bound := False\<rparr>\<rparr>
      in (lockId, a\<lparr>al_locks := al_locks a @ [fl], al_next_lock_id := lockId + 1\<rparr>))"

definition al_bindAIResult ::
  "u64 \<Rightarrow> u64 \<Rightarrow> int \<Rightarrow> u64 \<Rightarrow> AIFrameLocking \<Rightarrow> bool \<times> AIFrameLocking" where
  "al_bindAIResult frameId aiResultId now system_now a =
     (let same = (\<lambda>fl. fl_frame_id fl = frameId) in
      if find same (al_locks a) \<noteq> None then
        (True, a\<lparr>al_locks := update_first same
           (\<lambda>fl. fl\<lparr>fl_binding := (fl_binding fl)\<lparr>ab_ai_result_id := aiResultId,
                     ab_latency_ms := real_of_int (now - fl_lock_time fl) / 1000,
                     ab_timestamp := system_now, ab_is_bound := True\<rparr>\<rparr>) (al_locks a)\<rparr>)
      else (False, a))"

definition al_isFrameLocked :: "u64 \<Rightarrow> AIFrameLocking \<Rightarrow> bool" where
  "al_isFrameLocked frameId a \<longleftrightarrow> find (\<lambda>fl. fl_frame_id fl = frameId) (al_locks a) \<noteq> None"

definition al_getBinding :: "u64 \<Rightarrow> AIFrameLocking \<Rightarrow> AIFrameBinding" where
  "al_getBinding frameId a =
     (case find (\<lambda>fl. fl_frame_id fl = frameId) (al_locks a) of
        Some fl \<Rightarrow> fl_binding fl | None \<Rightarrow> ab_default)"

definition al_releaseFrameLock :: "u64 \<Rightarrow> AIFrameLocking \<Rightarrow> AIFrameLocking" where
  "al_releaseFrameLock frameId a =
     a\<lparr>al_locks := filter (\<lambda>fl. \<not> fl_frame_id fl = frameId) (al_locks a)\<rparr>"

text \<open>The age is a signed count of milliseconds, compared after conversion to \<open>uint64_t\<close>.\<close>

definition al_cleanupOldBindings :: "u64 \<Rightarrow> int \<Rightarrow> AIFrameLocking \<Rightarrow> AIFrameLocking" where
  "al_cleanupOldBindings maxAgeMs now a =
     a\<lparr>al_locks := filter (\<lambda>fl. \<not> word_of_int ((now - fl_lock_time fl) div 1000) > maxAgeMs) (al_locks a)\<rparr>"

definition al_getActiveBindingCount :: "AIFrameLocking \<Rightarrow> nat" where
  "al_getActiveBindingCount a = length (filter (\<lambda>fl. ab_is_bound (fl_binding fl)) (al_locks a))"

definition al_getAverageLatency :: "AIFrameLocking \<Rightarrow> real" where
  "al_getAverageLatency a =
     (let bound = filter (\<lambda>fl. ab_is_bound (fl_binding fl)) (al_locks a);
          sum = foldl (\<lambda>s fl. s + ab_latency_ms (fl_binding fl)) 0 bound
      in if length bound > 0 then sum / real (length bound) else 0)"

section \<open>Properties\<close>

text \<open>Locks are not exclusive: a frame that is locked can be locked again, with a fresh id; a result
  bound afterwards reaches the older lock only and is the one \<open>getBinding\<close> returns, with the time
  since that lock as latency; the binding is all that a bind changes for the frame; and releasing the
  frame drops every lock on it and no other.\<close>

theorem al_lock_lifecycle:
  assumes "\<not> al_isFrameLocked f a"
  shows "(case al_acquireFrameLock f t1 a of (i, a1) \<Rightarrow>
           case al_acquireFrameLock f t2 a1 of (j, a2) \<Rightarrow>
           case al_bindAIResult f r t3 s a2 of (ok, a3) \<Rightarrow>
             i \<noteq> j \<and> ok \<and> al_isFrameLocked f a3 \<and>
             al_getBinding f a3 = \<lparr>ab_frame_id = f, ab_ai_result_id = r,
               ab_latency_ms = real_of_int (t3 - t1) / 1000, ab_timestamp = s, ab_is_bound = True\<rparr> \<and>
             al_getActiveBindingCount a3 = al_getActiveBindingCount a + 1 \<and>
             al_locks (al_releaseFrameLock f a3) = al_locks a \<and>
             \<not> al_isFrameLocked f (al_releaseFrameLock f a3))"
proof -
  have none: "find (\<lambda>fl. fl_frame_id fl = f) (al_locks a) = None"
    using assms by (simp add: al_isFrameLocked_def)
  then have keep: "filter (\<lambda>fl. fl_frame_id fl \<noteq> f) (al_locks a) = al_locks a"
    by (simp add: find_None_iff filter_id_conv)
  have upd: "update_first (\<lambda>fl. fl_frame_id fl = f) g (al_locks a @ x # xs) = al_locks a @ g x # xs"
    if "fl_frame_id x = f" for g x xs
    using none that by (simp add: update_first_append update_first_none)
  show ?thesis
    using none keep upd
    by (simp add: al_acquireFrameLock_def al_bindAIResult_def Let_def find_app al_isFrameLocked_def
        al_getBinding_def al_getActiveBindingCount_def al_releaseFrameLock_def ab_default_def)
qed

lemma al_lock_lifecycle_witness:
  "(case al_acquireFrameLock 7 0 al_new of (i, a1) \<Rightarrow>
    case al_acquireFrameLock 7 1 a1 of (j, a2) \<Rightarrow>
    case al_bindAIResult 7 9 5 0 a2 of (ok, a3) \<Rightarrow>
      i \<noteq> j \<and> ok \<and> al_isFrameLocked 7 a3 \<and>
      al_getBinding 7 a3 = \<lparr>ab_frame_id = 7, ab_ai_result_id = 9,
        ab_latency_ms = real_of_int (5 - 0) / 1000, ab_timestamp = 0, ab_is_bound = True\<rparr> \<and>
      al_getActiveBindingCount a3 = al_getActiveBindingCount al_new + 1 \<and>
      al_locks (al_releaseFrameLock 7 a3) = al_locks al_new \<and>
      \<not> al_isFrameLocked 7 (al_releaseFrameLock 7 a3))"
  by (rule al_lock_lifecycle) (simp add: al_new_def al_isFrameLocked_def)

text \<open>Restarting the component repeats lock ids: \<open>initialize\<close> resets the id counter but keeps the locks,
  so the lock taken after a restart has the id of the one taken after the previous start, which is
  still held.\<close>

theorem al_initialize_repeats_ids:
  "(case al_acquireFrameLock f t1 (al_initialize a) of (i, a1) \<Rightarrow>
    case al_acquireFrameLock g t2 (al_initialize a1) of (j, a2) \<Rightarrow>
      i = j \<and> al_isFrameLocked f a2 \<and> al_isFrameLocked g a2)"
  by (simp add: al_acquireFrameLock_def al_initialize_def Let_def al_isFrameLocked_def find_app
      split: option.split)

end
