(* ===== verification/EPC_Buffer.thy ===== *)
theory EPC_Buffer
  imports Base
begin

text \<open>
  \<open>server/core/epc_buffer.\{h,cpp\}\<close>: tag reads waiting to be processed, in one bucket per task, with a
  set of recently seen EPCs that suppresses repeats. The background thread of this file's
  \<open>EPCProcessor\<close> is one iteration of its loop (\<open>bp_iteration\<close>); the database query is not modelled.
\<close>

record EPCEntry =
  ee_epc :: string
  ee_task_id :: int
  ee_timestamp_ms :: int
  ee_rssi :: int
  ee_reader_id :: string

definition MAX_BUFFER_SIZE :: nat where
  "MAX_BUFFER_SIZE = 10000"

definition DUPLICATE_WINDOW_MS :: int where
  "DUPLICATE_WINDOW_MS = 1000"

record EPCBuffer =
  bf_taskBuffers :: "(int \<times> EPCEntry list) list"
  bf_recentEPCs :: "string set"
  bf_lastCleanupTime :: int
  bf_totalProcessed :: u64
  bf_totalDuplicates :: u64

definition bf_new :: EPCBuffer where
  "bf_new = \<lparr>bf_taskBuffers = [], bf_recentEPCs = {}, bf_lastCleanupTime = 0,
     bf_totalProcessed = 0, bf_totalDuplicates = 0\<rparr>"

definition bf_isDuplicate :: "string \<Rightarrow> int \<Rightarrow> EPCBuffer \<Rightarrow> bool" where
  "bf_isDuplicate epc now_ms b \<longleftrightarrow> epc \<in> bf_recentEPCs b"

definition bf_totalSize :: "EPCBuffer \<Rightarrow> nat" where
  "bf_totalSize b = foldl (\<lambda>total p. total + length (snd p)) 0 (bf_taskBuffers b)"

text \<open>\<open>m[k]\<close> on the map of buckets: the bucket, or a new empty one.\<close>

definition bucket :: "(int \<times> 'e list) list \<Rightarrow> int \<Rightarrow> 'e list" where
  "bucket m k = (case map_of m k of None \<Rightarrow> [] | Some es \<Rightarrow> es)"

definition bf_push :: "EPCEntry \<Rightarrow> EPCBuffer \<Rightarrow> EPCBuffer" where
  "bf_push e b =
     (let now_ms = ee_timestamp_ms e in
      if bf_isDuplicate (ee_epc e) now_ms b then b\<lparr>bf_totalDuplicates := bf_totalDuplicates b + 1\<rparr>
      else if bf_totalSize b \<ge> MAX_BUFFER_SIZE then b
      else
        let b1 = b\<lparr>bf_taskBuffers :=
                     AList.update (ee_task_id e) (bucket (bf_taskBuffers b) (ee_task_id e) @ [e]) (bf_taskBuffers b),
                   bf_recentEPCs := insert (ee_epc e) (bf_recentEPCs b),
                   bf_totalProcessed := bf_totalProcessed b + 1\<rparr>
        in if now_ms - bf_lastCleanupTime b1 > DUPLICATE_WINDOW_MS * 2
           then b1\<lparr>bf_recentEPCs := {}, bf_lastCleanupTime := now_ms\<rparr> else b1)"

text \<open>The overload that builds the entry from its parts and the time.\<close>

definition bf_push_parts :: "string \<Rightarrow> int \<Rightarrow> int \<Rightarrow> string \<Rightarrow> int \<Rightarrow> EPCBuffer \<Rightarrow> EPCBuffer" where
  "bf_push_parts epc task_id rssi reader_id now b =
     bf_push \<lparr>ee_epc = epc, ee_task_id = task_id, ee_timestamp_ms = now, ee_rssi = rssi,
               ee_reader_id = reader_id\<rparr> b"

definition bf_flush :: "int \<Rightarrow> EPCBuffer \<Rightarrow> EPCEntry list \<times> EPCBuffer" where
  "bf_flush task_id b =
     (case map_of (bf_taskBuffers b) task_id of
        None \<Rightarrow> ([], b)
      | Some es \<Rightarrow> (es, b\<lparr>bf_taskBuffers := AList.delete task_id (bf_taskBuffers b)\<rparr>))"

definition bf_flushAll :: "EPCBuffer \<Rightarrow> EPCEntry list \<times> EPCBuffer" where
  "bf_flushAll b = (concat (map snd (bf_taskBuffers b)), b\<lparr>bf_taskBuffers := []\<rparr>)"

definition bf_size :: "int \<Rightarrow> EPCBuffer \<Rightarrow> nat" where
  "bf_size task_id b = (case map_of (bf_taskBuffers b) task_id of Some es \<Rightarrow> length es | None \<Rightarrow> 0)"

definition bf_empty :: "EPCBuffer \<Rightarrow> bool" where
  "bf_empty b \<longleftrightarrow> bf_taskBuffers b = []"

definition bf_clear :: "int \<Rightarrow> EPCBuffer \<Rightarrow> EPCBuffer" where
  "bf_clear task_id b = b\<lparr>bf_taskBuffers := AList.delete task_id (bf_taskBuffers b)\<rparr>"

definition bf_clearAll :: "EPCBuffer \<Rightarrow> EPCBuffer" where
  "bf_clearAll b = b\<lparr>bf_taskBuffers := [], bf_recentEPCs := {}\<rparr>"

text \<open>
  One iteration of \<open>processingLoop\<close> of a running processor: what is passed to the callback, if it is
  set and there is something to pass; an exception of the callback is caught.
\<close>

definition bp_iteration :: "bool \<Rightarrow> EPCBuffer \<Rightarrow> EPCEntry list option \<times> EPCBuffer" where
  "bp_iteration callback_set b =
     (case bf_flushAll b of (entries, b') \<Rightarrow>
        (if entries \<noteq> [] \<and> callback_set then Some entries else None, b'))"

section \<open>Buckets\<close>

definition bf_entries :: "EPCBuffer \<Rightarrow> EPCEntry list" where
  "bf_entries b = concat (map snd (bf_taskBuffers b))"

lemma bf_totalSize_entries: "bf_totalSize b = length (bf_entries b)"
proof -
  have "foldl (\<lambda>total p. total + length (snd p)) n m = n + length (concat (map snd m))"
    for n and m :: "(int \<times> EPCEntry list) list"
    by (induction m arbitrary: n) auto
  then show ?thesis by (simp add: bf_totalSize_def bf_entries_def)
qed

lemma mset_bucket_push:
  "distinct (map fst m) \<Longrightarrow>
   mset (concat (map snd (AList.update k (bucket m k @ [e]) m))) = add_mset e (mset (concat (map snd m)))"
proof (induction m)
  case Nil
  then show ?case by (simp add: bucket_def)
next
  case (Cons p m)
  obtain k' es where p: "p = (k', es)" by (cases p)
  show ?case
  proof (cases "k' = k")
    case True
    then show ?thesis by (simp add: p bucket_def)
  next
    case False
    then have "bucket (p # m) k = bucket m k" by (simp add: p bucket_def)
    with False Cons show ?thesis by (simp add: p)
  qed
qed

lemma mset_bucket_delete:
  "distinct (map fst m) \<Longrightarrow>
   mset (concat (map snd m)) = mset (bucket m k) + mset (concat (map snd (AList.delete k m)))"
proof (induction m)
  case Nil
  then show ?case by (simp add: bucket_def)
next
  case (Cons p m)
  obtain k' es where p: "p = (k', es)" by (cases p)
  show ?case
  proof (cases "k' = k")
    case True
    with Cons.prems have "AList.delete k m = m"
      by (intro delete_id) (auto simp: p)
    with True show ?thesis by (simp add: p bucket_def)
  next
    case False
    then have "bucket (p # m) k = bucket m k" by (simp add: p bucket_def)
    with False Cons show ?thesis by (simp add: p)
  qed
qed

definition bf_inv :: "EPCBuffer \<Rightarrow> bool" where
  "bf_inv b \<longleftrightarrow> distinct (map fst (bf_taskBuffers b)) \<and>
     list_all (\<lambda>(t, es). es \<noteq> [] \<and> list_all (\<lambda>e. ee_task_id e = t) es) (bf_taskBuffers b) \<and>
     bf_totalSize b \<le> MAX_BUFFER_SIZE"

lemma bf_inv_new: "bf_inv bf_new"
  by (simp add: bf_inv_def bf_new_def bf_totalSize_def)

text \<open>Whether a push stores its entry.\<close>

definition bf_accepts :: "EPCEntry \<Rightarrow> EPCBuffer \<Rightarrow> bool" where
  "bf_accepts e b \<longleftrightarrow> ee_epc e \<notin> bf_recentEPCs b \<and> bf_totalSize b < MAX_BUFFER_SIZE"

lemma bf_push_buffers:
  "bf_taskBuffers (bf_push e b) =
     (if bf_accepts e b
      then AList.update (ee_task_id e) (bucket (bf_taskBuffers b) (ee_task_id e) @ [e]) (bf_taskBuffers b)
      else bf_taskBuffers b)"
  by (auto simp: bf_push_def bf_accepts_def bf_isDuplicate_def Let_def)

lemma bf_push_counts:
  "bf_totalProcessed (bf_push e b) = bf_totalProcessed b + (if bf_accepts e b then 1 else 0)"
  "bf_totalDuplicates (bf_push e b) = bf_totalDuplicates b + (if ee_epc e \<in> bf_recentEPCs b then 1 else 0)"
  by (auto simp: bf_push_def bf_accepts_def bf_isDuplicate_def Let_def)

lemma bf_push_entries:
  "bf_inv b \<Longrightarrow> mset (bf_entries (bf_push e b)) =
     mset (bf_entries b) + (if bf_accepts e b then {#e#} else {#})"
  by (simp add: bf_entries_def bf_push_buffers mset_bucket_push bf_inv_def)

lemma bf_buckets_update:
  assumes "list_all (\<lambda>(t, es). es \<noteq> [] \<and> list_all (\<lambda>e. ee_task_id e = t) es) m"
  shows "list_all (\<lambda>(t, es). es \<noteq> [] \<and> list_all (\<lambda>e. ee_task_id e = t) es)
     (AList.update (ee_task_id e) (bucket m (ee_task_id e) @ [e]) m)"
  using assms
proof (induction m)
  case Nil
  then show ?case by (simp add: bucket_def)
next
  case (Cons p m)
  obtain k' es where p: "p = (k', es)" by (cases p)
  show ?case
  proof (cases "k' = ee_task_id e")
    case True
    then show ?thesis using Cons.prems by (simp add: p bucket_def)
  next
    case False
    then have "bucket (p # m) (ee_task_id e) = bucket m (ee_task_id e)" by (simp add: p bucket_def)
    with False Cons show ?thesis by (simp add: p)
  qed
qed

lemma bf_push_inv: "bf_inv b \<Longrightarrow> bf_inv (bf_push e b)"
proof -
  assume inv: "bf_inv b"
  have "size (mset (bf_entries (bf_push e b))) \<le> MAX_BUFFER_SIZE"
    using bf_push_entries [OF inv, of e] inv
    by (auto simp: bf_accepts_def bf_inv_def bf_totalSize_entries)
  then have "bf_totalSize (bf_push e b) \<le> MAX_BUFFER_SIZE" by (simp add: bf_totalSize_entries)
  with inv bf_buckets_update [of "bf_taskBuffers b" e] show ?thesis
    by (simp add: bf_inv_def bf_push_buffers distinct_update)
qed

lemma list_all_delete: "list_all P m \<Longrightarrow> list_all P (AList.delete k m)"
  by (induction m) auto

lemma bf_flush_split:
  "bf_inv b \<Longrightarrow> bf_flush t b = (es, b') \<Longrightarrow> mset (bf_entries b) = mset es + mset (bf_entries b')"
  using mset_bucket_delete [of "bf_taskBuffers b" t]
  by (cases "map_of (bf_taskBuffers b) t")
    (auto simp: bf_flush_def bf_entries_def bf_inv_def bucket_def simp del: map_of_eq_Some_iff)

lemma bf_flush_inv: "bf_inv b \<Longrightarrow> bf_flush t b = (es, b') \<Longrightarrow> bf_inv b'"
proof -
  assume inv: "bf_inv b" and f: "bf_flush t b = (es, b')"
  have "size (mset (bf_entries b')) \<le> size (mset (bf_entries b))"
    using bf_flush_split [OF inv f] by simp
  then have "bf_totalSize b' \<le> MAX_BUFFER_SIZE" using inv by (simp add: bf_totalSize_entries bf_inv_def)
  with inv f show ?thesis
    by (auto simp: bf_flush_def bf_inv_def distinct_delete list_all_delete split: option.splits)
qed

lemma bf_flushAll_split:
  "bf_flushAll b = (es, b') \<Longrightarrow> es = bf_entries b \<and> bf_entries b' = [] \<and> (bf_inv b \<longrightarrow> bf_inv b')"
  by (auto simp: bf_flushAll_def bf_entries_def bf_inv_def bf_totalSize_def)

section \<open>Sessions of pushes and flushes\<close>

datatype bf_op = Push EPCEntry | Flush int | FlushAll

text \<open>A step collects what was accepted and what was handed out.\<close>

fun bf_op_step ::
  "EPCEntry list \<times> EPCEntry list \<times> EPCBuffer \<Rightarrow> bf_op \<Rightarrow> EPCEntry list \<times> EPCEntry list \<times> EPCBuffer" where
  "bf_op_step (acc, out, b) (Push e) = (if bf_accepts e b then acc @ [e] else acc, out, bf_push e b)"
| "bf_op_step (acc, out, b) (Flush t) = (case bf_flush t b of (es, b') \<Rightarrow> (acc, out @ es, b'))"
| "bf_op_step (acc, out, b) FlushAll = (case bf_flushAll b of (es, b') \<Rightarrow> (acc, out @ es, b'))"

definition bf_session :: "bf_op list \<Rightarrow> EPCEntry list \<times> EPCEntry list \<times> EPCBuffer" where
  "bf_session ops = foldl bf_op_step ([], [], bf_new) ops"

definition bf_session_inv :: "EPCEntry list \<times> EPCEntry list \<times> EPCBuffer \<Rightarrow> bool" where
  "bf_session_inv s \<longleftrightarrow> (case s of (acc, out, b) \<Rightarrow>
     bf_inv b \<and> mset acc = mset out + mset (bf_entries b) \<and> bf_totalProcessed b = of_nat (length acc))"

lemma bf_op_step_inv: "bf_session_inv s \<Longrightarrow> bf_session_inv (bf_op_step s op)"
proof (cases op)
  case (Push e)
  assume "bf_session_inv s"
  with Push show ?thesis
    by (cases s) (auto simp: bf_session_inv_def bf_push_inv bf_push_entries bf_push_counts)
next
  case (Flush t)
  assume inv: "bf_session_inv s"
  obtain acc out b where s: "s = (acc, out, b)" by (cases s)
  obtain es b' where f: "bf_flush t b = (es, b')" by (metis prod.exhaust)
  have "bf_totalProcessed b' = bf_totalProcessed b"
    using f by (auto simp: bf_flush_def split: option.splits)
  with inv f Flush bf_flush_split [OF _ f] bf_flush_inv [OF _ f] show ?thesis
    by (simp add: bf_session_inv_def s)
next
  case FlushAll
  assume inv: "bf_session_inv s"
  obtain acc out b where s: "s = (acc, out, b)" by (cases s)
  obtain es b' where f: "bf_flushAll b = (es, b')" by (metis prod.exhaust)
  have "bf_totalProcessed b' = bf_totalProcessed b"
    using f by (auto simp: bf_flushAll_def)
  with inv f FlushAll bf_flushAll_split [OF f] show ?thesis
    by (simp add: bf_session_inv_def s)
qed

lemma bf_session_ok: "bf_session_inv (bf_session ops)"
  unfolding bf_session_def
proof (induction ops rule: rev_induct)
  case Nil
  then show ?case by (simp add: bf_session_inv_def bf_inv_new) (simp add: bf_new_def bf_entries_def)
next
  case (snoc op ops)
  then show ?case by (simp add: bf_op_step_inv)
qed

section \<open>Properties\<close>

text \<open>C9: In any session of pushes and flushes from an empty buffer no accepted read is lost, duplicated or
  filed under another task: the accepted entries are, as a multiset, those handed out plus those still
  buffered; at most 10000 are buffered; every bucket is nonempty and holds its own task's reads; and the
  processed counter counts the accepted entries (modulo its width).\<close>

theorem bf_conservation:
  "case bf_session ops of (acc, out, b) \<Rightarrow>
     mset acc = mset out + mset (bf_entries b) \<and>
     bf_totalSize b \<le> MAX_BUFFER_SIZE \<and>
     bf_empty b = (bf_totalSize b = 0) \<and>
     list_all (\<lambda>(t, es). list_all (\<lambda>e. ee_task_id e = t) es) (bf_taskBuffers b) \<and>
     bf_totalProcessed b = of_nat (length acc)"
proof -
  obtain acc out b where s: "bf_session ops = (acc, out, b)" by (metis prod_cases3)
  from bf_session_ok [of ops] have inv: "bf_inv b" and "mset acc = mset out + mset (bf_entries b)"
    "bf_totalProcessed b = of_nat (length acc)"
    by (simp_all add: s bf_session_inv_def)
  moreover from inv have "bf_empty b = (bf_totalSize b = 0)"
    by (cases "bf_taskBuffers b")
      (auto simp: bf_empty_def bf_totalSize_entries bf_entries_def bf_inv_def list_all_iff)
  ultimately show ?thesis
    by (auto simp: s bf_inv_def list_all_iff)
qed

text \<open>The duplicate window is not a window in time: while only one tag is read and its EPC is
  remembered, every further read of it is dropped, however late it comes, because the memory is
  cleared by an accepted push only.\<close>

theorem bf_lone_tag_suppressed:
  assumes "epc \<in> bf_recentEPCs b" and "list_all (\<lambda>e. ee_epc e = epc) es"
  shows "foldl (\<lambda>b e. bf_push e b) b es =
    b\<lparr>bf_totalDuplicates := bf_totalDuplicates b + of_nat (length es)\<rparr>"
  using assms
proof (induction es arbitrary: b)
  case Nil
  then show ?case by simp
next
  case (Cons e es)
  then have "bf_push e b = b\<lparr>bf_totalDuplicates := bf_totalDuplicates b + 1\<rparr>"
    by (simp add: bf_push_def bf_isDuplicate_def Let_def)
  with Cons.IH [of "b\<lparr>bf_totalDuplicates := bf_totalDuplicates b + 1\<rparr>"] Cons.prems show ?case
    by (simp add: algebra_simps)
qed

definition ee_at :: "int \<Rightarrow> EPCEntry" where
  "ee_at t = \<lparr>ee_epc = ''E1'', ee_task_id = 1, ee_timestamp_ms = t, ee_rssi = -50, ee_reader_id = ''R''\<rparr>"

lemma bf_lone_tag_suppressed_witness:
  "foldl (\<lambda>b e. bf_push e b) (bf_push (ee_at 100) bf_new) [ee_at 900000] =
   (bf_push (ee_at 100) bf_new)\<lparr>bf_totalDuplicates := bf_totalDuplicates (bf_push (ee_at 100) bf_new) + of_nat 1\<rparr>"
  using bf_lone_tag_suppressed [of "''E1''" "bf_push (ee_at 100) bf_new" "[ee_at 900000]"]
  by (simp add: bf_push_def bf_new_def ee_at_def bf_isDuplicate_def bf_totalSize_def MAX_BUFFER_SIZE_def
      DUPLICATE_WINDOW_MS_def Let_def)

text \<open>Nor does the memory hold for the window: on a new buffer the first read (at any present-day time)
  forgets its own EPC, so the same tag read again at the same instant is accepted a second time.\<close>

theorem bf_first_duplicate_accepted:
  assumes "ee_timestamp_ms e > DUPLICATE_WINDOW_MS * 2"
  shows "bf_entries (bf_push e (bf_push e bf_new)) = [e, e] \<and>
    bf_totalDuplicates (bf_push e (bf_push e bf_new)) = 0"
  using assms
  by (simp add: bf_push_def bf_new_def bf_isDuplicate_def bf_totalSize_def MAX_BUFFER_SIZE_def
      DUPLICATE_WINDOW_MS_def Let_def bf_entries_def bucket_def)

lemma bf_first_duplicate_accepted_witness:
  "bf_entries (bf_push (ee_at 1700000000000) (bf_push (ee_at 1700000000000) bf_new)) =
   [ee_at 1700000000000, ee_at 1700000000000]"
  by (rule bf_first_duplicate_accepted [THEN conjunct1]) (simp add: ee_at_def DUPLICATE_WINDOW_MS_def)

end
