(* ===== verification/EPC_Validator.thy ===== *)
theory EPC_Validator
  imports Base
begin

text \<open>
  \<open>server/core/epc_validator.\{h,cpp\}\<close>: which strings are EPCs and their normal form. \<open>std::toupper\<close>
  and \<open>std::isxdigit\<close> are those of the "C" locale (\<open>toupper\<close> on a byte from 128 up, which C++ leaves
  undefined for a signed \<open>char\<close>, keeps the byte).
\<close>

definition std_toupper :: "char \<Rightarrow> char" where
  "std_toupper c = (let n = of_char c :: nat in if 97 \<le> n \<and> n \<le> 122 then char_of (n - 32) else c)"

definition std_isxdigit :: "char \<Rightarrow> bool" where
  "std_isxdigit c \<longleftrightarrow> (let n = of_char c :: nat in
     48 \<le> n \<and> n \<le> 57 \<or> 65 \<le> n \<and> n \<le> 70 \<or> 97 \<le> n \<and> n \<le> 102)"

definition ev_separator :: "char \<Rightarrow> bool" where
  "ev_separator c \<longleftrightarrow> c = CHR '' '' \<or> c = CHR ''-'' \<or> c = CHR '':''"

definition ev_normalizeEPC :: "string \<Rightarrow> string" where
  "ev_normalizeEPC epc = map std_toupper (filter (\<lambda>c. \<not> ev_separator c) epc)"

definition ev_isHex :: "string \<Rightarrow> bool" where
  "ev_isHex s = list_all std_isxdigit s"

definition ev_hasValidLength :: "string \<Rightarrow> bool" where
  "ev_hasValidLength epc \<longleftrightarrow>
     (let len = length epc in len = 24 \<or> len = 16 \<or> len = 12 \<or> len = 8)"

definition ev_isValidEPC :: "string \<Rightarrow> bool" where
  "ev_isValidEPC epc =
     (if epc = [] then False
      else let normalized = ev_normalizeEPC epc in
        if \<not> ev_hasValidLength normalized then False
        else if \<not> ev_isHex normalized then False else True)"

definition ev_validateAndNormalize :: "string \<Rightarrow> string option" where
  "ev_validateAndNormalize epc =
     (let normalized = ev_normalizeEPC epc in if ev_isValidEPC normalized then Some normalized else None)"

definition ev_filterValidEPCs :: "string list \<Rightarrow> string list" where
  "ev_filterValidEPCs epcs =
     foldl (\<lambda>valid epc. case ev_validateAndNormalize epc of Some n \<Rightarrow> valid @ [n] | None \<Rightarrow> valid) [] epcs"

definition ev_filterInvalidEPCs :: "string list \<Rightarrow> string list" where
  "ev_filterInvalidEPCs epcs = filter (\<lambda>epc. \<not> ev_isValidEPC (ev_normalizeEPC epc)) epcs"

section \<open>The normal form\<close>

lemma of_char_toupper:
  "of_char (std_toupper c) = (let n = of_char c :: nat in if 97 \<le> n \<and> n \<le> 122 then n - 32 else n)"
proof -
  have m: "(n - 32) mod 256 = n - 32" if "n \<le> 122" for n :: nat
    using that by (intro mod_less) arith
  show ?thesis by (auto simp: std_toupper_def Let_def m)
qed

lemma std_toupper_idem [simp]: "std_toupper (std_toupper c) = std_toupper c"
proof -
  have "\<not> (97 \<le> (of_char (std_toupper c) :: nat) \<and> (of_char (std_toupper c) :: nat) \<le> 122)"
    unfolding of_char_toupper Let_def by (simp, arith)
  then show ?thesis by (subst std_toupper_def) (auto simp: Let_def)
qed

lemma ev_separator_code: "ev_separator c \<longleftrightarrow> (of_char c :: nat) \<in> {32, 45, 58}"
proof -
  have "c = d" if "(of_char c :: nat) = of_char d" for d
    using that by simp
  from this [of "CHR '' ''"] this [of "CHR ''-''"] this [of "CHR '':''"] show ?thesis
    by (auto simp: ev_separator_def)
qed

lemma ev_separator_toupper: "\<not> ev_separator c \<Longrightarrow> \<not> ev_separator (std_toupper c)"
  by (auto simp: ev_separator_code of_char_toupper Let_def split: if_splits)

lemma ev_normalize_idem [simp]: "ev_normalizeEPC (ev_normalizeEPC epc) = ev_normalizeEPC epc"
  unfolding ev_normalizeEPC_def
  by (induction epc) (auto simp: ev_separator_toupper)

lemma ev_isValidEPC_iff:
  "ev_isValidEPC epc \<longleftrightarrow> ev_hasValidLength (ev_normalizeEPC epc) \<and> ev_isHex (ev_normalizeEPC epc)"
  by (auto simp: ev_isValidEPC_def Let_def ev_normalizeEPC_def ev_hasValidLength_def)

lemma ev_validate_eq:
  "ev_validateAndNormalize epc = (if ev_isValidEPC epc then Some (ev_normalizeEPC epc) else None)"
  by (simp add: ev_validateAndNormalize_def ev_isValidEPC_iff Let_def)

lemma ev_filterValid_eq:
  "ev_filterValidEPCs epcs = map ev_normalizeEPC (filter ev_isValidEPC epcs)"
proof -
  have "foldl (\<lambda>valid epc. case ev_validateAndNormalize epc of Some n \<Rightarrow> valid @ [n] | None \<Rightarrow> valid) acc epcs
      = acc @ map ev_normalizeEPC (filter ev_isValidEPC epcs)" for acc
    by (induction epcs arbitrary: acc) (auto simp: ev_validate_eq)
  then show ?thesis by (simp add: ev_filterValidEPCs_def)
qed

lemma ev_filterInvalid_eq: "ev_filterInvalidEPCs epcs = filter (\<lambda>e. \<not> ev_isValidEPC e) epcs"
  by (simp add: ev_filterInvalidEPCs_def ev_isValidEPC_iff)

section \<open>Properties\<close>

text \<open>The digits 0 to 9 and the letters A to F.\<close>

definition upper_hex :: "char \<Rightarrow> bool" where
  "upper_hex c \<longleftrightarrow> (let n = of_char c :: nat in 48 \<le> n \<and> n \<le> 57 \<or> 65 \<le> n \<and> n \<le> 70)"

lemma upper_hex_toupper: "std_isxdigit (std_toupper c) \<Longrightarrow> upper_hex (std_toupper c)"
  by (auto simp: std_isxdigit_def upper_hex_def of_char_toupper Let_def split: if_splits)

text \<open>Validation splits every batch: an EPC is kept exactly when it is not rejected, the kept ones are
  replaced by their normal forms in order, each of which is 8, 12, 16 or 24 upper-case hexadecimal
  digits, is its own normal form and is valid again; the rejected ones are returned as they came.\<close>

theorem ev_batch_partition:
  "mset (ev_filterValidEPCs epcs) + image_mset ev_normalizeEPC (mset (ev_filterInvalidEPCs epcs)) =
     image_mset ev_normalizeEPC (mset epcs) \<and>
   set (ev_filterInvalidEPCs epcs) = {e \<in> set epcs. ev_validateAndNormalize e = None} \<and>
   list_all (\<lambda>n. length n \<in> {8, 12, 16, 24} \<and> list_all upper_hex n \<and> ev_normalizeEPC n = n \<and>
                 ev_validateAndNormalize n = Some n) (ev_filterValidEPCs epcs)"
proof (intro conjI)
  have "mset epcs = filter_mset ev_isValidEPC (mset epcs) + filter_mset (\<lambda>e. \<not> ev_isValidEPC e) (mset epcs)"
    by (simp add: multiset_partition)
  then show "mset (ev_filterValidEPCs epcs) + image_mset ev_normalizeEPC (mset (ev_filterInvalidEPCs epcs)) =
      image_mset ev_normalizeEPC (mset epcs)"
    by (metis ev_filterInvalid_eq ev_filterValid_eq image_mset_union mset_filter mset_map)
  show "set (ev_filterInvalidEPCs epcs) = {e \<in> set epcs. ev_validateAndNormalize e = None}"
    by (auto simp: ev_filterInvalid_eq ev_validate_eq)
  have "list_all upper_hex (ev_normalizeEPC e)" if "ev_isHex (ev_normalizeEPC e)" for e
    using that upper_hex_toupper by (auto simp: ev_isHex_def ev_normalizeEPC_def list_all_iff)
  then show "list_all (\<lambda>n. length n \<in> {8, 12, 16, 24} \<and> list_all upper_hex n \<and> ev_normalizeEPC n = n \<and>
      ev_validateAndNormalize n = Some n) (ev_filterValidEPCs epcs)"
    by (auto simp: ev_filterValid_eq list_all_iff ev_isValidEPC_iff ev_validate_eq ev_hasValidLength_def Let_def)
qed

end
