(* ===== verification/EPC_Reading.thy ===== *)
theory EPC_Reading
  imports Base
begin

text \<open>
  \<open>server/rfid/reader.\{h,cpp\}\<close> and \<open>epc_processor.\{h,cpp\}\<close>: from the bytes a reader sends to
  aggregated reads. Modelled are the splitting of the byte stream into lines, the parsing of a line
  (the same code in the serial and the TCP reader), the simulator's filter, the
  aggregation by task and EPC, and the \<open>EPCProcessor\<close> with its cache. Opening devices, threads and
  logging are not.
\<close>

record EPCEvent =
  ev_epc :: string
  ev_reader_id :: string
  ev_task_id :: int
  ev_rssi :: int
  ev_timestamp_ms :: int

record EPCData =
  ed_epc :: string
  ed_task_id :: int
  ed_best_reader_id :: string
  ed_best_rssi :: int
  ed_latest_timestamp :: int
  ed_reader_ids :: "string list"

section \<open>Lines\<close>

text \<open>
  The loop that cuts complete lines off the front of the receive buffer: the lines, in order, and what
  remains.
\<close>

fun cut_lines :: "string \<Rightarrow> string \<Rightarrow> string list \<times> string" where
  "cut_lines cur [] = ([], cur)"
| "cut_lines cur (c # cs) =
     (if c = CHR 0x0A then (case cut_lines [] cs of (ls, r) \<Rightarrow> (cur # ls, r))
      else cut_lines (cur @ [c]) cs)"

text \<open>
  One \<open>read\<close>: the chunk becomes a C string (it ends at its first NUL) that is appended to the buffer;
  the buffer never holds a newline afterwards.
\<close>

definition rd_feed :: "string \<Rightarrow> string \<Rightarrow> string list \<times> string" where
  "rd_feed buffer chunk = cut_lines [] (buffer @ takeWhile (\<lambda>c. c \<noteq> CHR 0x00) chunk)"

text \<open>All chunks one after the other: the lines parsed, and the final buffer.\<close>

fun rd_feed_all :: "string \<Rightarrow> string list \<Rightarrow> string list \<times> string" where
  "rd_feed_all buffer [] = ([], buffer)"
| "rd_feed_all buffer (chunk # chunks) =
     (case rd_feed buffer chunk of (ls, b) \<Rightarrow> (case rd_feed_all b chunks of (ls', b') \<Rightarrow> (ls @ ls', b')))"

lemma cut_lines_append:
  "cut_lines cur (xs @ ys) =
     (case cut_lines cur xs of (ls, r) \<Rightarrow> (case cut_lines r ys of (ls', r') \<Rightarrow> (ls @ ls', r')))"
  by (induction cur xs rule: cut_lines.induct) (auto split: prod.splits)

lemma cut_lines_start: "CHR 0x0A \<notin> set cur \<Longrightarrow> cut_lines [] (cur @ xs) = cut_lines cur xs"
proof -
  have "CHR 0x0A \<notin> set cur \<Longrightarrow> cut_lines acc (cur @ xs) = cut_lines (acc @ cur) xs" for acc
    by (induction cur arbitrary: acc) auto
  then show "CHR 0x0A \<notin> set cur \<Longrightarrow> cut_lines [] (cur @ xs) = cut_lines cur xs" by simp
qed

lemma cut_lines_rest: "CHR 0x0A \<notin> set cur \<Longrightarrow> cut_lines cur xs = (ls, r) \<Longrightarrow> CHR 0x0A \<notin> set r"
  by (induction cur xs arbitrary: ls rule: cut_lines.induct) (auto split: prod.splits if_splits)

section \<open>Parsing a line\<close>

text \<open>\<open>trimmed.erase(trimmed.find_last_not_of("\r\n") + 1)\<close>.\<close>

definition rd_trim :: "string \<Rightarrow> string" where
  "rd_trim line = rev (dropWhile (\<lambda>c. c = CHR 0x0D \<or> c = CHR 0x0A) (rev line))"

text \<open>The loop of \<open>std::getline(iss, token, ',')\<close>: an empty token after the last comma is not produced.\<close>

fun rd_tokens :: "string \<Rightarrow> string \<Rightarrow> string list" where
  "rd_tokens cur [] = (if cur = [] then [] else [cur])"
| "rd_tokens cur (c # cs) = (if c = CHR '','' then cur # rd_tokens [] cs else rd_tokens (cur @ [c]) cs)"

definition is_digit_char :: "char \<Rightarrow> bool" where
  "is_digit_char c \<longleftrightarrow> (let n = of_char c :: nat in 48 \<le> n \<and> n \<le> 57)"

definition is_space_char :: "char \<Rightarrow> bool" where
  "is_space_char c \<longleftrightarrow> (let n = of_char c :: nat in n = 32 \<or> 9 \<le> n \<and> n \<le> 13)"

text \<open>
  \<open>std::stoi\<close>: leading white space, an optional sign, then digits up to the first other character. No
  digits, or a value outside \<open>int\<close>, is an exception.
\<close>

definition std_stoi :: "string \<Rightarrow> fault + int" where
  "std_stoi s =
     (let t = dropWhile is_space_char s;
          neg = (t \<noteq> [] \<and> hd t = CHR ''-'');
          body = (if t \<noteq> [] \<and> (hd t = CHR ''-'' \<or> hd t = CHR ''+'') then tl t else t);
          ds = takeWhile is_digit_char body
      in if ds = [] then Inl (Thrown ''std::invalid_argument'')
         else let v = (if neg then - int (of_digits ds) else int (of_digits ds))
              in if v < - (2 ^ 31) \<or> v \<ge> 2 ^ 31 then Inl (Thrown ''std::out_of_range'') else Inr v)"

text \<open>
  \<open>parseLine\<close>: the event passed to the callback, if one is passed. An exception of \<open>std::stoi\<close> leaves
  the method and, uncaught, the reader's thread.
\<close>

definition rd_parseLine :: "string \<Rightarrow> int \<Rightarrow> int \<Rightarrow> string \<Rightarrow> fault + EPCEvent option" where
  "rd_parseLine readerId rssiThreshold now_ms line =
     (let trimmed = rd_trim line in
      if trimmed = [] then Inr None
      else let tokens = rd_tokens [] trimmed in
        if length tokens \<ge> 2 \<and> tokens ! 0 = ''EPC'' then
          (let epc = tokens ! 1 in
           case (if length tokens > 2 then std_stoi (tokens ! 2) else Inr (-50)) of
             Inl e \<Rightarrow> Inl e
           | Inr rssi \<Rightarrow>
               if rssi \<ge> rssiThreshold then
                 Inr (Some \<lparr>ev_epc = epc, ev_reader_id = readerId, ev_task_id = 0, ev_rssi = rssi,
                            ev_timestamp_ms = now_ms\<rparr>)
               else Inr None)
        else Inr None)"

text \<open>The simulator's single scan: the batch passed to the callback.\<close>

definition rd_simulateScan ::
  "string \<Rightarrow> int \<Rightarrow> bool \<Rightarrow> bool \<Rightarrow> int \<Rightarrow> string \<Rightarrow> int \<Rightarrow> EPCEvent list" where
  "rd_simulateScan readerId rssiThreshold scanning connected now_ms epc rssi =
     (if \<not> scanning \<or> \<not> connected then []
      else if rssi < rssiThreshold then []
      else [\<lparr>ev_epc = epc, ev_reader_id = readerId, ev_task_id = 0, ev_rssi = rssi,
             ev_timestamp_ms = now_ms\<rparr>])"

text \<open>The simulator's batch: \<open>rands\<close> are the values \<open>rand()\<close> returns, one per EPC.\<close>

definition rd_simulateScanBatch ::
  "string \<Rightarrow> int \<Rightarrow> bool \<Rightarrow> bool \<Rightarrow> int \<Rightarrow> int list \<Rightarrow> string list \<Rightarrow> EPCEvent list" where
  "rd_simulateScanBatch readerId rssiThreshold scanning connected now_ms rands epcs =
     (if \<not> scanning \<or> \<not> connected then []
      else List.map_filter (\<lambda>(epc, r).
        (let rssi = -50 + r mod 20 in
         if rssi < rssiThreshold then None
         else Some \<lparr>ev_epc = epc, ev_reader_id = readerId, ev_task_id = 0, ev_rssi = rssi,
                    ev_timestamp_ms = now_ms\<rparr>)) (zip epcs rands))"

definition MAX_RECONNECT_ATTEMPTS :: nat where
  "MAX_RECONNECT_ATTEMPTS = 5"

section \<open>Aggregation\<close>

definition rm_new_data :: "EPCEvent \<Rightarrow> EPCData" where
  "rm_new_data e = \<lparr>ed_epc = ev_epc e, ed_task_id = ev_task_id e, ed_best_reader_id = ev_reader_id e,
     ed_best_rssi = ev_rssi e, ed_latest_timestamp = ev_timestamp_ms e, ed_reader_ids = [ev_reader_id e]\<rparr>"

definition rm_merge_data :: "EPCEvent \<Rightarrow> EPCData \<Rightarrow> EPCData" where
  "rm_merge_data e d =
     (let d1 = d\<lparr>ed_reader_ids := ed_reader_ids d @ [ev_reader_id e]\<rparr>;
          d2 = (if ev_rssi e > ed_best_rssi d1
                then d1\<lparr>ed_best_rssi := ev_rssi e, ed_best_reader_id := ev_reader_id e\<rparr> else d1)
      in if ev_timestamp_ms e > ed_latest_timestamp d2
         then d2\<lparr>ed_latest_timestamp := ev_timestamp_ms e\<rparr> else d2)"

definition rm_add :: "(string \<times> EPCData) list \<Rightarrow> EPCEvent \<Rightarrow> (string \<times> EPCData) list" where
  "rm_add m e =
     (let key = task_key (ev_task_id e) (ev_epc e) in
      case map_of m key of
        None \<Rightarrow> AList.update key (rm_new_data e) m
      | Some d \<Rightarrow> AList.update key (rm_merge_data e d) m)"

definition rm_aggregateEPCs :: "EPCEvent list \<Rightarrow> EPCData list" where
  "rm_aggregateEPCs events = map snd (foldl rm_add [] events)"

section \<open>The processor\<close>

record CacheEntry =
  ce_lastTimestamp :: int
  ce_bestRssi :: int

record EPCProcessor =
  ep_callback_set :: bool
  ep_duplicateFilterWindowMs :: int
  ep_maxCacheSize :: nat
  ep_epcCache :: "(string \<times> CacheEntry) list"
  ep_processedCount :: u64
  ep_filteredCount :: u64












definition ep_clearCache :: "EPCProcessor \<Rightarrow> EPCProcessor" where
  "ep_clearCache p = p\<lparr>ep_epcCache := [], ep_processedCount := 0, ep_filteredCount := 0\<rparr>"

definition ep_setDuplicateFilterWindow :: "int \<Rightarrow> EPCProcessor \<Rightarrow> EPCProcessor" where
  "ep_setDuplicateFilterWindow w p = p\<lparr>ep_duplicateFilterWindowMs := w\<rparr>"

definition ep_setMaxCacheSize :: "nat \<Rightarrow> EPCProcessor \<Rightarrow> EPCProcessor" where
  "ep_setMaxCacheSize n p = p\<lparr>ep_maxCacheSize := n\<rparr>"


definition ep_getProcessedCount :: "EPCProcessor \<Rightarrow> u64" where
  "ep_getProcessedCount p = ep_processedCount p"

definition ep_getFilteredCount :: "EPCProcessor \<Rightarrow> u64" where
  "ep_getFilteredCount p = ep_filteredCount p"

section \<open>The reading thread\<close>

text \<open>
  The lines one after the other; \<open>clk n\<close> is the time read for the \<open>n\<close>th of them. The events given to
  the callback, and the exception that ended the thread, if one did.
\<close>

fun rd_parse_all :: "string \<Rightarrow> int \<Rightarrow> (nat \<Rightarrow> int) \<Rightarrow> string list \<Rightarrow> EPCEvent list \<times> fault option" where
  "rd_parse_all rid thr clk [] = ([], None)"
| "rd_parse_all rid thr clk (l # ls) =
     (case rd_parseLine rid thr (clk 0) l of
        Inl e \<Rightarrow> ([], Some e)
      | Inr r \<Rightarrow> (case rd_parse_all rid thr (\<lambda>n. clk (Suc n)) ls of
          (evs, e) \<Rightarrow> ((case r of None \<Rightarrow> evs | Some ev \<Rightarrow> ev # evs), e)))"

text \<open>\<open>readLoop\<close> on the chunks that \<open>read\<close> returns, from an empty buffer.\<close>

definition rd_readLoop :: "string \<Rightarrow> int \<Rightarrow> (nat \<Rightarrow> int) \<Rightarrow> string list \<Rightarrow> EPCEvent list \<times> fault option" where
  "rd_readLoop rid thr clk chunks = rd_parse_all rid thr clk (fst (rd_feed_all [] chunks))"

lemma rd_feed_all_concat:
  "\<forall>ch \<in> set chunks. CHR 0x00 \<notin> set ch \<Longrightarrow> CHR 0x0A \<notin> set buffer \<Longrightarrow>
   rd_feed_all buffer chunks = cut_lines buffer (concat chunks)"
proof (induction chunks arbitrary: buffer)
  case Nil
  then show ?case by simp
next
  case (Cons ch chunks)
  have tw: "takeWhile (\<lambda>c. c \<noteq> CHR 0x00) ch = ch"
    using Cons.prems(1) by (auto simp: takeWhile_eq_all_conv)
  obtain ls r where lr: "cut_lines buffer ch = (ls, r)" by (cases "cut_lines buffer ch")
  then have "CHR 0x0A \<notin> set r" using cut_lines_rest Cons.prems(2) by blast
  then have "rd_feed_all r chunks = cut_lines r (concat chunks)" using Cons by simp
  moreover have "rd_feed buffer ch = (ls, r)"
    unfolding rd_feed_def tw cut_lines_start [OF Cons.prems(2)] by (rule lr)
  ultimately show ?case
    unfolding concat.simps cut_lines_append [of buffer] lr by simp
qed

lemma cut_lines_line:
  "CHR 0x0A \<notin> set l \<Longrightarrow> cut_lines cur (l @ CHR 0x0A # rest) =
     (case cut_lines [] rest of (ls, r) \<Rightarrow> ((cur @ l) # ls, r))"
  by (induction l arbitrary: cur) (auto split: prod.splits)

lemma cut_lines_lines:
  "\<forall>l \<in> set lines. CHR 0x0A \<notin> set l \<Longrightarrow>
   cut_lines [] (concat (map (\<lambda>l. l @ [CHR 0x0A]) lines)) = (lines, [])"
  by (induction lines) (auto simp: cut_lines_line)

lemma rd_tokens_last: "CHR '','' \<notin> set t \<Longrightarrow> cur @ t \<noteq> [] \<Longrightarrow> rd_tokens cur t = [cur @ t]"
  by (induction t arbitrary: cur) auto

lemma rd_tokens_comma: "CHR '','' \<notin> set t \<Longrightarrow> rd_tokens cur (t @ CHR '','' # r) = (cur @ t) # rd_tokens [] r"
  by (induction t arbitrary: cur) auto

lemma rd_tokens_epc_line:
  assumes "CHR '','' \<notin> set epc" "CHR '','' \<notin> set y" "y \<noteq> []"
  shows "rd_tokens [] (''EPC,'' @ epc @ '','' @ y) = [''EPC'', epc, y]"
  using rd_tokens_comma [of "''EPC''" "[]" "epc @ '','' @ y"] rd_tokens_comma [OF assms(1), of "[]" y]
    rd_tokens_last [OF assms(2), of "[]"] assms(3) by simp

lemma rd_trim_id: "l \<noteq> [] \<Longrightarrow> last l \<noteq> CHR 0x0D \<Longrightarrow> last l \<noteq> CHR 0x0A \<Longrightarrow> rd_trim l = l"
  by (cases l rule: rev_cases) (auto simp: rd_trim_def)

lemma rd_trim_cr: "rd_trim (l @ [CHR 0x0D]) = rd_trim l"
  by (simp add: rd_trim_def)

lemma digits_are_digits: "c \<in> set (digits_of n) \<Longrightarrow> is_digit_char c"
  using digits_of_range by (simp add: is_digit_char_def Let_def)

lemma not_digit_char: "\<not> is_digit_char (CHR ''-'')" "\<not> is_digit_char (CHR ''+'')" "\<not> is_digit_char (CHR '','')"
  "\<not> is_digit_char (CHR 0x0D)" "\<not> is_digit_char (CHR 0x0A)" "\<not> is_digit_char (CHR 0x00)"
  by (simp_all add: is_digit_char_def)

lemma digit_not_space: "is_digit_char c \<Longrightarrow> \<not> is_space_char c"
  by (auto simp: is_digit_char_def is_space_char_def Let_def)

lemma std_stoi_to_string:
  assumes "- (2 ^ 31) \<le> n" "n < 2 ^ 31"
  shows "std_stoi (to_string n) = Inr n"
proof (cases "n < 0")
  case True
  have tw: "takeWhile is_digit_char (digits_of (nat (- n))) = digits_of (nat (- n))"
    by (simp add: takeWhile_eq_all_conv digits_are_digits)
  have "\<not> is_space_char (CHR ''-'')" by (simp add: is_space_char_def)
  with True assms show ?thesis by (simp add: std_stoi_def to_string_def Let_def tw)
next
  case False
  obtain d ds where d: "digits_of (nat n) = d # ds" by (cases "digits_of (nat n)") auto
  then have dig: "is_digit_char d" using digits_are_digits [of d "nat n"] by simp
  have tw: "takeWhile is_digit_char (digits_of (nat n)) = digits_of (nat n)"
    by (simp add: takeWhile_eq_all_conv digits_are_digits)
  have hd: "dropWhile is_space_char (digits_of (nat n)) = digits_of (nat n)"
    "hd (digits_of (nat n)) \<noteq> CHR ''-''" "hd (digits_of (nat n)) \<noteq> CHR ''+''"
    using dig not_digit_char digit_not_space by (auto simp: d)
  with False assms show ?thesis by (simp add: std_stoi_def to_string_def Let_def tw)
qed

lemma to_string_chars: "c \<in> set (to_string n) \<Longrightarrow> is_digit_char c \<or> c = CHR ''-''"
  by (auto simp: to_string_def digits_are_digits split: if_splits)

lemma to_string_nonempty: "to_string n \<noteq> []"
  by (simp add: to_string_def)

text \<open>A read as a line: \<open>EPC,<epc>,<rssi>\<close>, with or without a carriage return.\<close>

definition rd_line :: "bool \<Rightarrow> string \<times> int \<Rightarrow> string" where
  "rd_line cr r = ''EPC,'' @ fst r @ '','' @ to_string (snd r) @ (if cr then [CHR 0x0D] else [])"

definition rd_printable :: "string \<times> int \<Rightarrow> bool" where
  "rd_printable r \<longleftrightarrow> set (fst r) \<inter> {CHR '','', CHR 0x0A, CHR 0x00} = {} \<and> - (2 ^ 31) \<le> snd r \<and> snd r < 2 ^ 31"

lemma rd_parseLine_line:
  assumes "rd_printable r"
  shows "rd_parseLine rid thr now (rd_line cr r) =
    Inr (if snd r \<ge> thr then Some \<lparr>ev_epc = fst r, ev_reader_id = rid, ev_task_id = 0, ev_rssi = snd r,
                                 ev_timestamp_ms = now\<rparr> else None)"
proof -
  let ?t = "''EPC,'' @ fst r @ '','' @ to_string (snd r)"
  have "is_digit_char (last (to_string (snd r))) \<or> last (to_string (snd r)) = CHR ''-''"
    using to_string_nonempty by (intro to_string_chars [of _ "snd r"]) simp
  then have "last (to_string (snd r)) \<noteq> CHR 0x0D" "last (to_string (snd r)) \<noteq> CHR 0x0A"
    using not_digit_char(4,5) by (cases "last (to_string (snd r)) = CHR ''-''"; fastforce)+
  then have "last ?t \<noteq> CHR 0x0D" "last ?t \<noteq> CHR 0x0A"
    using to_string_nonempty by simp_all
  then have trim: "rd_trim (rd_line cr r) = ?t"
    using rd_trim_id [of ?t] rd_trim_cr [of ?t] by (cases cr) (simp_all add: rd_line_def)
  have "CHR '','' \<notin> set (to_string (snd r))" using to_string_chars not_digit_char by fastforce
  then have "rd_tokens [] ?t = [''EPC'', fst r, to_string (snd r)]"
    using assms to_string_nonempty by (intro rd_tokens_epc_line) (auto simp: rd_printable_def)
  moreover have "std_stoi (to_string (snd r)) = Inr (snd r)"
    using assms by (intro std_stoi_to_string) (auto simp: rd_printable_def)
  ultimately show ?thesis unfolding rd_parseLine_def trim by (simp add: Let_def)
qed

lemma rd_parse_all_lines:
  assumes "\<forall>r \<in> set reads. rd_printable r"
  shows "snd (rd_parse_all rid thr clk (map (rd_line cr) reads)) = None \<and>
    map (\<lambda>e. (ev_epc e, ev_rssi e)) (fst (rd_parse_all rid thr clk (map (rd_line cr) reads))) =
      filter (\<lambda>(_, n). n \<ge> thr) reads \<and>
    (\<forall>e \<in> set (fst (rd_parse_all rid thr clk (map (rd_line cr) reads))). ev_reader_id e = rid \<and> ev_task_id e = 0)"
  using assms
proof (induction reads arbitrary: clk)
  case Nil
  then show ?case by simp
next
  case (Cons r reads)
  have "rd_printable r" using Cons.prems by simp
  note line = rd_parseLine_line [OF this, of rid thr "clk 0" cr]
  obtain evs e where "rd_parse_all rid thr (\<lambda>n. clk (Suc n)) (map (rd_line cr) reads) = (evs, e)"
    by (cases "rd_parse_all rid thr (\<lambda>n. clk (Suc n)) (map (rd_line cr) reads)")
  with Cons.IH [of "\<lambda>n. clk (Suc n)"] Cons.prems line show ?case by (cases r) auto
qed

lemma rd_line_chars: "rd_printable r \<Longrightarrow> CHR 0x0A \<notin> set (rd_line cr r) \<and> CHR 0x00 \<notin> set (rd_line cr r)"
  using to_string_chars [of "CHR 0x0A" "snd r"] to_string_chars [of "CHR 0x00" "snd r"] not_digit_char
  by (auto simp: rd_line_def rd_printable_def)

text \<open>C2: Reads are recovered from the byte stream whatever the chunks it arrives in. When a device prints
  the reads \<open>(epc, rssi)\<close>, one \<open>EPC,<epc>,<rssi>\<close> line each, and \<open>read\<close> returns the bytes cut at any
  places (inside a line, a number, or between the carriage return and the newline), the thread hands
  the callback exactly the reads at or above the threshold, in order, as events of this reader
  with task 0, and no exception ends it.\<close>

theorem rd_stream_exact:
  assumes "\<forall>r \<in> set reads. rd_printable r"
    and "concat chunks = concat (map (\<lambda>r. rd_line cr r @ [CHR 0x0A]) reads)"
  shows "snd (rd_readLoop rid thr clk chunks) = None \<and>
    map (\<lambda>e. (ev_epc e, ev_rssi e)) (fst (rd_readLoop rid thr clk chunks)) = filter (\<lambda>(_, n). n \<ge> thr) reads \<and>
    (\<forall>e \<in> set (fst (rd_readLoop rid thr clk chunks)). ev_reader_id e = rid \<and> ev_task_id e = 0)"
proof -
  have "CHR 0x00 \<notin> set (concat chunks)"
    unfolding assms(2) using assms(1) rd_line_chars by auto
  then have "\<forall>ch \<in> set chunks. CHR 0x00 \<notin> set ch" by auto
  then have "rd_feed_all [] chunks = cut_lines [] (concat (map (\<lambda>l. l @ [CHR 0x0A]) (map (rd_line cr) reads)))"
    using rd_feed_all_concat [of chunks "[]"] assms(2) by (simp add: o_def)
  also have "\<dots> = (map (rd_line cr) reads, [])"
    using assms(1) rd_line_chars by (intro cut_lines_lines) auto
  finally show ?thesis using rd_parse_all_lines [OF assms(1), of rid thr clk cr] by (simp add: rd_readLoop_def)
qed

lemma rd_stream_exact_witness:
  "map (\<lambda>e. (ev_epc e, ev_rssi e))
     (fst (rd_readLoop ''r1'' (-70) (\<lambda>n. int n) [''EPC,A1,-'', ''30'', [CHR 0x0A, CHR ''E''], ''PC,B,-80'' @ [CHR 0x0A]])) =
   [(''A1'', -30)]"
proof -
  let ?reads = "[(''A1'', -30), (''B'', -80)] :: (string \<times> int) list"
  have p: "to_string (-30) = ''-30''" "to_string (-80) = ''-80''"
    by code_simp+
  show ?thesis
    using rd_stream_exact [of ?reads "[''EPC,A1,-'', ''30'', [CHR 0x0A, CHR ''E''], ''PC,B,-80'' @ [CHR 0x0A]]"
        False "''r1''" "-70" "\<lambda>n. int n"]
    by (simp add: rd_printable_def rd_line_def p)
qed

lemma rd_parse_all_append:
  "rd_parse_all rid thr clk (xs @ ys) =
     (case rd_parse_all rid thr clk xs of
        (evs, Some e) \<Rightarrow> (evs, Some e)
      | (evs, None) \<Rightarrow> (case rd_parse_all rid thr (\<lambda>n. clk (n + length xs)) ys of
          (evs', e) \<Rightarrow> (evs @ evs', e)))"
  by (induction xs arbitrary: clk) (auto split: sum.splits prod.splits option.splits)

text \<open>One malformed strength ends the reading thread. A line \<open>EPC,<epc>,<x>\<close> whose third field starts
  with neither white space, a digit nor a sign makes \<open>std::stoi\<close> throw, and nothing catches it: the
  events of the lines before it are all there is, whatever well-formed reads follow.\<close>

theorem rd_bad_strength_ends_thread:
  assumes "CHR '','' \<notin> set epc" "CHR '','' \<notin> set (c # x)"
    and "\<not> is_space_char c" "\<not> is_digit_char c" "c \<notin> {CHR ''-'', CHR ''+''}"
    and "last (c # x) \<notin> {CHR 0x0D, CHR 0x0A}"
    and "snd (rd_parse_all rid thr clk before) = None"
  shows "rd_parse_all rid thr clk (before @ (''EPC,'' @ epc @ '','' @ c # x) # after) =
    (fst (rd_parse_all rid thr clk before), Some (Thrown ''std::invalid_argument''))"
proof -
  have t: "rd_tokens [] (''EPC,'' @ epc @ '','' @ c # x) = [''EPC'', epc, c # x]"
    using assms(1,2) by (intro rd_tokens_epc_line) auto
  have trim: "rd_trim (''EPC,'' @ epc @ '','' @ c # x) = ''EPC,'' @ epc @ '','' @ c # x"
    using assms(6) by (intro rd_trim_id) auto
  have "std_stoi (c # x) = Inl (Thrown ''std::invalid_argument'')"
    using assms(3-5) by (simp add: std_stoi_def)
  with t have "rd_parseLine rid thr now (''EPC,'' @ epc @ '','' @ c # x) = Inl (Thrown ''std::invalid_argument'')" for now
    unfolding rd_parseLine_def trim by (simp add: Let_def)
  with assms(7) show ?thesis
    by (cases "rd_parse_all rid thr clk before") (simp add: rd_parse_all_append del: append.simps)
qed

lemma rd_bad_strength_ends_thread_witness:
  "rd_parse_all ''r1'' (-70) (\<lambda>_. 0) ([] @ (''EPC,'' @ ''A1'' @ '','' @ ''n/a'') # [''EPC,B,-30'']) =
   ([], Some (Thrown ''std::invalid_argument''))"
proof -
  have "\<not> is_space_char (CHR ''n'')" "\<not> is_digit_char (CHR ''n'')"
    by (simp_all add: is_space_char_def is_digit_char_def)
  then show ?thesis
    using rd_bad_strength_ends_thread [of "''A1''" "CHR ''n''" "''/a''" "''r1''" "-70" "\<lambda>_. 0" "[]" "[''EPC,B,-30'']"]
    by simp
qed

section \<open>What aggregation and the processor compute\<close>

definition event_key :: "EPCEvent \<Rightarrow> int \<times> string" where
  "event_key e = (ev_task_id e, ev_epc e)"

definition data_key :: "EPCData \<Rightarrow> int \<times> string" where
  "data_key d = (ed_task_id d, ed_epc d)"

text \<open>The datum of the events of one key, in order.\<close>

fun rm_datum :: "EPCEvent list \<Rightarrow> EPCData option" where
  "rm_datum [] = None"
| "rm_datum (e # es) = Some (foldl (\<lambda>d e. rm_merge_data e d) (rm_new_data e) es)"

lemma rm_datum_snoc:
  "rm_datum (es @ [e]) = Some (case rm_datum es of None \<Rightarrow> rm_new_data e | Some d \<Rightarrow> rm_merge_data e d)"
  by (cases es) auto

definition rm_map :: "EPCEvent list \<Rightarrow> (string \<times> EPCData) list" where
  "rm_map events = foldl rm_add [] events"

lemma rm_map_simps [simp]: "rm_map [] = []" "rm_map (es @ [e]) = rm_add (rm_map es) e"
  by (simp_all add: rm_map_def)

lemma rm_map_distinct: "distinct (map fst (rm_map es))"
  by (induction es rule: rev_induct)
    (auto simp: rm_add_def Let_def distinct_update split: option.split)

lemma rm_map_lookup:
  "map_of (rm_map es) (task_key t c) = rm_datum (filter (\<lambda>e. event_key e = (t, c)) es)"
proof (induction es rule: rev_induct)
  case Nil
  then show ?case by simp
next
  case (snoc e es)
  show ?case
  proof (cases "event_key e = (t, c)")
    case True
    then show ?thesis using snoc
      by (auto simp: rm_add_def Let_def rm_datum_snoc event_key_def update_conv' split: option.split)
  next
    case False
    then show ?thesis using snoc
      by (auto simp: rm_add_def Let_def event_key_def update_conv' split: option.split)
  qed
qed

lemma rm_map_keys: "fst ` set (rm_map es) = (\<lambda>e. task_key (ev_task_id e) (ev_epc e)) ` set es"
  by (induction es rule: rev_induct) (auto simp: rm_add_def Let_def dom_update split: option.split)

lemma rm_datum_facts:
  assumes "\<forall>e \<in> set es. event_key e = k" "es \<noteq> []"
  shows "\<exists>d. rm_datum es = Some d \<and> data_key d = k \<and> ed_reader_ids d = map ev_reader_id es \<and>
    ed_best_rssi d = Max (ev_rssi ` set es) \<and> ed_latest_timestamp d = Max (ev_timestamp_ms ` set es) \<and>
    (\<exists>e \<in> set es. ev_reader_id e = ed_best_reader_id d \<and> ev_rssi e = ed_best_rssi d)"
  using assms
proof (induction es rule: rev_induct)
  case Nil
  then show ?case by simp
next
  case (snoc e es)
  show ?case
  proof (cases "es = []")
    case True
    with snoc.prems show ?thesis
      by (simp add: rm_new_data_def data_key_def event_key_def)
  next
    case False
    have "\<forall>e \<in> set es. event_key e = k" using snoc.prems by simp
    from snoc.IH [OF this False] obtain d where d: "rm_datum es = Some d" "data_key d = k" "ed_reader_ids d = map ev_reader_id es"
      "ed_best_rssi d = Max (ev_rssi ` set es)" "ed_latest_timestamp d = Max (ev_timestamp_ms ` set es)"
      "\<exists>e \<in> set es. ev_reader_id e = ed_best_reader_id d \<and> ev_rssi e = ed_best_rssi d" by blast
    obtain R T where R: "Max (ev_rssi ` set es) = R" and T: "Max (ev_timestamp_ms ` set es) = T" by blast
    have "Max (ev_rssi ` set (es @ [e])) = max (ev_rssi e) R"
      "Max (ev_timestamp_ms ` set (es @ [e])) = max (ev_timestamp_ms e) T"
      using False by (simp_all add: R [symmetric] T [symmetric])
    moreover have "event_key e = k" using snoc.prems by simp
    moreover have "(\<exists>x \<in> set (es @ [e]). P x) \<longleftrightarrow> P e \<or> (\<exists>x \<in> set es. P x)" for P by auto
    ultimately show ?thesis using d unfolding R T
      by (auto simp: rm_datum_snoc rm_merge_data_def Let_def data_key_def max_def simp del: set_append)
  qed
qed

text \<open>C20: Aggregation reports every tag once, from all its reads. For each task and EPC among the events there is
  exactly one datum: it lists the readers of all reads of that tag in order, its strength is the
  largest and its time the latest of them, and its best reader is one that read it with that
  strength; no other data are reported.\<close>

theorem rm_aggregate_exact:
  "distinct (map data_key (rm_aggregateEPCs events)) \<and>
   data_key ` set (rm_aggregateEPCs events) = event_key ` set events \<and>
   (\<forall>d \<in> set (rm_aggregateEPCs events). \<exists>es. es = filter (\<lambda>e. event_key e = data_key d) events \<and>
      ed_reader_ids d = map ev_reader_id es \<and>
      ed_best_rssi d = Max (ev_rssi ` set es) \<and> ed_latest_timestamp d = Max (ev_timestamp_ms ` set es) \<and>
      (\<exists>e \<in> set es. ev_reader_id e = ed_best_reader_id d \<and> ev_rssi e = ed_best_rssi d))"
proof -
  have entry: "k = task_key (fst (data_key d)) (snd (data_key d)) \<and> data_key d \<in> event_key ` set events \<and>
      rm_datum (filter (\<lambda>e. event_key e = data_key d) events) = Some d"
    if kd: "(k, d) \<in> set (rm_map events)" for k d
  proof -
    have "k \<in> fst ` set (rm_map events)" using kd by force
    then obtain e where e: "e \<in> set events" "k = task_key (ev_task_id e) (ev_epc e)"
      unfolding rm_map_keys by auto
    let ?es = "filter (\<lambda>e'. event_key e' = event_key e) events"
    have ne: "?es \<noteq> []" using e(1) by (auto simp: filter_empty_conv)
    have "map_of (rm_map events) k = Some d" using kd rm_map_distinct by simp
    then have dat: "rm_datum ?es = Some d" unfolding e(2) rm_map_lookup by (simp add: event_key_def)
    have "data_key d = event_key e" using rm_datum_facts [of ?es, OF _ ne] dat by auto
    with dat e show ?thesis by (simp add: event_key_def)
  qed
  have agg: "rm_aggregateEPCs events = map snd (rm_map events)"
    by (simp add: rm_aggregateEPCs_def rm_map_def)
  have "map fst (rm_map events) = map (\<lambda>(t, c). task_key t c) (map data_key (rm_aggregateEPCs events))"
    unfolding agg using entry by (fastforce simp: split_beta)
  then have dis: "distinct (map data_key (rm_aggregateEPCs events))"
    using rm_map_distinct [of events] by (metis distinct_map)
  have "event_key e \<in> data_key ` set (rm_aggregateEPCs events)" if "e \<in> set events" for e
  proof -
    have "task_key (ev_task_id e) (ev_epc e) \<in> fst ` set (rm_map events)" unfolding rm_map_keys using that by blast
    then obtain d where "(task_key (ev_task_id e) (ev_epc e), d) \<in> set (rm_map events)" by force
    with entry [OF this] show ?thesis by (force simp: agg event_key_def)
  qed
  then have keys: "data_key ` set (rm_aggregateEPCs events) = event_key ` set events"
    using entry by (force simp: agg)
  have "\<exists>es. es = filter (\<lambda>e. event_key e = data_key d) events \<and>
      ed_reader_ids d = map ev_reader_id es \<and>
      ed_best_rssi d = Max (ev_rssi ` set es) \<and> ed_latest_timestamp d = Max (ev_timestamp_ms ` set es) \<and>
      (\<exists>e \<in> set es. ev_reader_id e = ed_best_reader_id d \<and> ev_rssi e = ed_best_rssi d)"
    if "d \<in> set (rm_aggregateEPCs events)" for d
  proof -
    from that obtain k where "(k, d) \<in> set (rm_map events)" by (auto simp: agg)
    note d = entry [OF this]
    then have "filter (\<lambda>e. event_key e = data_key d) events \<noteq> []" by (auto simp: filter_empty_conv)
    with rm_datum_facts [of "filter (\<lambda>e. event_key e = data_key d) events" "data_key d"] d
    show ?thesis by auto
  qed
  with dis keys show ?thesis by blast
qed

section \<open>The processor's cache\<close>








definition ee_read :: "int \<Rightarrow> EPCEvent" where
  "ee_read t = \<lparr>ev_epc = ''A'', ev_reader_id = ''r1'', ev_task_id = 1, ev_rssi = -40, ev_timestamp_ms = t\<rparr>"


lemma rm_aggregate_exact_witness:
  "distinct (map data_key (rm_aggregateEPCs [ee_read 5, ee_read 6])) \<and>
   data_key ` set (rm_aggregateEPCs [ee_read 5, ee_read 6]) = {(1, ''A'')}"
  using rm_aggregate_exact [of "[ee_read 5, ee_read 6]"] by (simp add: event_key_def ee_read_def)

end
