(* ===== verification/Reader_Link.thy ===== *)
theory Reader_Link
  imports EPC_Reading
begin

text \<open>
  The life of a serial or TCP reader (\<open>server/rfid/reader.cpp\<close>): connecting, scanning, the loss of the
  connection and the reconnect loop, and the manager that starts and stops all readers. The two kinds
  differ only in the system calls that produce the descriptor, whose outcome is an argument here:
  a descriptor, or a negative number when it fails.
\<close>

record ReaderLink =
  lk_readerId :: string
  lk_fd :: int
  lk_connected :: bool
  lk_scanning :: bool
  lk_looping :: bool                  \<comment> \<open>the reading thread is inside its loop\<close>
  lk_autoReconnectEnabled :: bool
  lk_reconnecting :: bool
  lk_open_fds :: "int list"           \<comment> \<open>descriptors opened and not closed\<close>

definition lk_new :: "string \<Rightarrow> ReaderLink" where
  "lk_new rid = \<lparr>lk_readerId = rid, lk_fd = -1, lk_connected = False, lk_scanning = False, lk_looping = False,
     lk_autoReconnectEnabled = True, lk_reconnecting = False, lk_open_fds = []\<rparr>"

definition lk_connect :: "int \<Rightarrow> ReaderLink \<Rightarrow> bool \<times> ReaderLink" where
  "lk_connect opened l =
     (if opened < 0 then (False, l\<lparr>lk_fd := -1\<rparr>)
      else (True, l\<lparr>lk_fd := opened, lk_open_fds := opened # lk_open_fds l, lk_connected := True\<rparr>))"

definition lk_disconnect :: "ReaderLink \<Rightarrow> ReaderLink" where
  "lk_disconnect l =
     (let l1 = (if lk_fd l \<ge> 0 then l\<lparr>lk_open_fds := remove1 (lk_fd l) (lk_open_fds l), lk_fd := -1\<rparr> else l)
      in l1\<lparr>lk_connected := False\<rparr>)"

definition lk_isConnected :: "ReaderLink \<Rightarrow> bool" where
  "lk_isConnected l \<longleftrightarrow> lk_connected l \<and> lk_fd l \<ge> 0"

text \<open>
  \<open>None\<close>: the call waits in \<open>join\<close> for a thread whose loop goes on, since \<open>scanning_\<close> is (again) true.
\<close>

definition lk_startScanning :: "ReaderLink \<Rightarrow> ReaderLink option" where
  "lk_startScanning l =
     (if \<not> lk_connected l then Some l
      else let l1 = l\<lparr>lk_scanning := True\<rparr> in
        if lk_looping l1 then None else Some (l1\<lparr>lk_looping := True\<rparr>))"

text \<open>The loop reads the flag at least every second, so this \<open>join\<close> returns.\<close>

definition lk_stopScanning :: "ReaderLink \<Rightarrow> ReaderLink" where
  "lk_stopScanning l = l\<lparr>lk_scanning := False, lk_looping := False\<rparr>"

definition lk_isScanning :: "ReaderLink \<Rightarrow> bool" where
  "lk_isScanning l = lk_scanning l"

text \<open>\<open>triggerReconnect\<close>: whether it starts the reconnect thread.\<close>

definition lk_triggerReconnect :: "ReaderLink \<Rightarrow> bool \<times> ReaderLink" where
  "lk_triggerReconnect l =
     (if lk_reconnecting l \<or> \<not> lk_autoReconnectEnabled l then (False, l)
      else (True, l\<lparr>lk_reconnecting := True\<rparr>))"

text \<open>The status reported to the callback, whether a reconnect starts, and the reader.\<close>

definition lk_onConnectionLost :: "ReaderLink \<Rightarrow> (string \<times> bool) list \<times> bool \<times> ReaderLink" where
  "lk_onConnectionLost l =
     ([(lk_readerId l, False)],
      (if lk_autoReconnectEnabled l then lk_triggerReconnect l else (False, l)))"

text \<open>
  The reconnect thread from attempt \<open>n\<close> on, \<open>opened k\<close> being what attempt \<open>k\<close> gets: the statuses reported
  and the reader.
\<close>

function lk_reconnectLoop :: "(nat \<Rightarrow> int) \<Rightarrow> nat \<Rightarrow> ReaderLink \<Rightarrow> (string \<times> bool) list \<times> ReaderLink" where
  "lk_reconnectLoop opened attempts l =
     (if attempts < MAX_RECONNECT_ATTEMPTS then
        (case lk_connect (opened attempts) l of
           (True, l1) \<Rightarrow> ([(lk_readerId l1, True)], l1\<lparr>lk_reconnecting := False\<rparr>)
         | (False, l1) \<Rightarrow> lk_reconnectLoop opened (attempts + 1) l1)
      else ([], l\<lparr>lk_reconnecting := False\<rparr>))"
  by pat_completeness auto
termination by (relation "measure (\<lambda>(_, n, _). MAX_RECONNECT_ATTEMPTS - n)") auto

declare lk_reconnectLoop.simps [simp del]

datatype read_result = SelectError | SelectTimeout | ReadError | PeerClosed | ReadAgain | ReadData

text \<open>One round of the reading loop, up to what it does with data: how it goes on.\<close>

definition lk_loop_round :: "read_result \<Rightarrow> ReaderLink \<Rightarrow> (string \<times> bool) list \<times> bool \<times> ReaderLink" where
  "lk_loop_round r l =
     (if \<not> (lk_scanning l \<and> lk_connected l) then ([], False, l\<lparr>lk_looping := False\<rparr>)
      else if r \<in> {SelectError, ReadError, PeerClosed} then
        (case lk_onConnectionLost l of (st, re, l1) \<Rightarrow> (st, re, l1\<lparr>lk_looping := False\<rparr>))
      else ([], False, l))"

text \<open>The loss of a connection with all that follows from it.\<close>

definition lk_loss :: "read_result \<Rightarrow> (nat \<Rightarrow> int) \<Rightarrow> ReaderLink \<Rightarrow> (string \<times> bool) list \<times> ReaderLink" where
  "lk_loss r opened l =
     (case lk_loop_round r l of (st, re, l1) \<Rightarrow>
        if re then (case lk_reconnectLoop opened 0 l1 of (st', l2) \<Rightarrow> (st @ st', l2)) else (st, l1))"

section \<open>The manager of the readers\<close>

definition lk_addReader :: "ReaderLink \<Rightarrow> (string \<times> ReaderLink) list \<Rightarrow> (string \<times> ReaderLink) list" where
  "lk_addReader l m = AList.update (lk_readerId l) l m"

definition lk_removeReader :: "string \<Rightarrow> (string \<times> ReaderLink) list \<Rightarrow> (string \<times> ReaderLink) list" where
  "lk_removeReader rid m = AList.delete rid m"

text \<open>\<open>opened rid\<close> is what a connect of that reader gets. \<open>None\<close>: the call does not return.\<close>

fun lk_startAll :: "(string \<Rightarrow> int) \<Rightarrow> (string \<times> ReaderLink) list \<Rightarrow> (string \<times> ReaderLink) list option" where
  "lk_startAll opened [] = Some []"
| "lk_startAll opened ((rid, l) # m) =
     (let l1 = (if \<not> lk_isConnected l then snd (lk_connect (opened rid) l) else l) in
      case lk_startScanning l1 of
        None \<Rightarrow> None
      | Some l2 \<Rightarrow> (case lk_startAll opened m of None \<Rightarrow> None | Some m' \<Rightarrow> Some ((rid, l2) # m')))"

definition lk_stopAll :: "(string \<times> ReaderLink) list \<Rightarrow> (string \<times> ReaderLink) list" where
  "lk_stopAll m = map (\<lambda>(rid, l). (rid, lk_disconnect (lk_stopScanning l))) m"

definition lk_getReader :: "string \<Rightarrow> (string \<times> ReaderLink) list \<Rightarrow> ReaderLink option" where
  "lk_getReader rid m = map_of m rid"

definition lk_getReaderIds :: "(string \<times> ReaderLink) list \<Rightarrow> string list" where
  "lk_getReaderIds m = map fst m"

definition lk_getReaderCount :: "(string \<times> ReaderLink) list \<Rightarrow> nat" where
  "lk_getReaderCount m = length m"

definition lk_getConnectedReaderCount :: "(string \<times> ReaderLink) list \<Rightarrow> nat" where
  "lk_getConnectedReaderCount m = length (filter (\<lambda>(_, l). lk_isConnected l) m)"

section \<open>What a loss leaves behind\<close>

lemma lk_reconnectLoop_facts:
  "lk_reconnectLoop opened n l = (st, l') \<Longrightarrow>
     (let ok = (\<exists>k. n \<le> k \<and> k < MAX_RECONNECT_ATTEMPTS \<and> opened k \<ge> 0) in
      st = (if ok then [(lk_readerId l, True)] else []) \<and>
      lk_readerId l' = lk_readerId l \<and> lk_scanning l' = lk_scanning l \<and> lk_looping l' = lk_looping l \<and>
      (n < MAX_RECONNECT_ATTEMPTS \<longrightarrow> (lk_fd l' \<ge> 0) = ok) \<and> lk_connected l' = (lk_connected l \<or> ok) \<and>
      \<not> lk_reconnecting l' \<and> set (lk_open_fds l) \<subseteq> set (lk_open_fds l'))"
proof (induction opened n l arbitrary: st l' rule: lk_reconnectLoop.induct)
  case (1 opened n l)
  show ?case
  proof (cases "n < MAX_RECONNECT_ATTEMPTS")
    case False
    then show ?thesis using 1(2) by (auto simp: lk_reconnectLoop.simps [of _ n] Let_def)
  next
    case True
    show ?thesis
    proof (cases "opened n < 0")
      case False
      then have "\<exists>k. n \<le> k \<and> k < MAX_RECONNECT_ATTEMPTS \<and> opened k \<ge> 0" using True by (intro exI [of _ n]) auto
      then show ?thesis using 1(2) True False
        by (auto simp: lk_reconnectLoop.simps [of _ n] lk_connect_def Let_def)
    next
      case neg: True
      have step: "lk_connect (opened n) l = (False, l\<lparr>lk_fd := -1\<rparr>)" using neg by (simp add: lk_connect_def)
      have eq: "lk_reconnectLoop opened (n + 1) (l\<lparr>lk_fd := -1\<rparr>) = (st, l')"
        using 1(2) True step by (simp add: lk_reconnectLoop.simps [of _ n])
      have ok: "(\<exists>k. n \<le> k \<and> k < MAX_RECONNECT_ATTEMPTS \<and> opened k \<ge> 0) \<longleftrightarrow>
          (\<exists>k. n + 1 \<le> k \<and> k < MAX_RECONNECT_ATTEMPTS \<and> opened k \<ge> 0)"
        using neg by (metis Suc_eq_plus1 Suc_le_eq le_eq_less_or_eq not_less)
      have last: "lk_fd l' = -1" if "\<not> n + 1 < MAX_RECONNECT_ATTEMPTS"
        using that eq by (auto simp: lk_reconnectLoop.simps [of _ "Suc n"])
      have "\<not> (\<exists>k. n + 1 \<le> k \<and> k < MAX_RECONNECT_ATTEMPTS \<and> opened k \<ge> 0)" if "\<not> n + 1 < MAX_RECONNECT_ATTEMPTS"
        using that by auto
      with 1(1) [OF True step [symmetric] refl eq] last show ?thesis
        unfolding ok Let_def by (cases "n + 1 < MAX_RECONNECT_ATTEMPTS") auto
    qed
  qed
qed

text \<open>After a connection is lost a reader that reconnects stays deaf. When the reading loop of a scanning
  reader meets an error or the end of the stream, it reports the loss and tries at most five times
  to reconnect, reporting success iff one attempt gets a descriptor; but nothing starts its loop
  again although it still says that it is scanning, and the lost descriptor is never closed.\<close>

theorem lk_loss_leaves_deaf:
  assumes "lk_scanning l" "lk_connected l" "lk_autoReconnectEnabled l" "\<not> lk_reconnecting l"
    and "r \<in> {SelectError, ReadError, PeerClosed}" "lk_loss r opened l = (st, l')"
  shows "st = (lk_readerId l, False) # (if \<exists>k < 5. opened k \<ge> 0 then [(lk_readerId l, True)] else []) \<and>
    lk_isConnected l' = (\<exists>k < 5. opened k \<ge> 0) \<and> lk_isScanning l' \<and> \<not> lk_looping l' \<and>
    set (lk_open_fds l) \<subseteq> set (lk_open_fds l')"
proof -
  let ?l1 = "l\<lparr>lk_reconnecting := True, lk_looping := False\<rparr>"
  obtain st2 where loop: "lk_reconnectLoop opened 0 ?l1 = (st2, l')" and st: "st = (lk_readerId l, False) # st2"
    using assms by (auto simp: lk_loss_def lk_loop_round_def lk_onConnectionLost_def lk_triggerReconnect_def
      split: prod.splits)
  from lk_reconnectLoop_facts [OF loop] st assms show ?thesis
    by (auto simp: Let_def MAX_RECONNECT_ATTEMPTS_def lk_isConnected_def lk_isScanning_def)
qed

lemma lk_loss_leaves_deaf_witness:
  "\<exists>st l'. lk_loss PeerClosed (\<lambda>k. if k = 2 then 7 else -1)
      ((lk_new ''r1'')\<lparr>lk_fd := 5, lk_connected := True, lk_scanning := True, lk_looping := True\<rparr>) = (st, l') \<and>
    st = [(''r1'', False), (''r1'', True)] \<and> \<not> lk_looping l'"
proof -
  let ?l = "(lk_new ''r1'')\<lparr>lk_fd := 5, lk_connected := True, lk_scanning := True, lk_looping := True\<rparr>"
  let ?o = "\<lambda>k :: nat. if k = 2 then 7 else -1 :: int"
  obtain st l' where e: "lk_loss PeerClosed ?o ?l = (st, l')" by (cases "lk_loss PeerClosed ?o ?l")
  show ?thesis using lk_loss_leaves_deaf [OF _ _ _ _ _ e] e by (auto simp: lk_new_def)
qed

section \<open>Starting the readers\<close>

lemma lk_startAll_stopped:
  "\<forall>(rid, l) \<in> set m. \<not> lk_looping l \<Longrightarrow>
   \<exists>m'. lk_startAll opened m = Some m' \<and> map fst m' = map fst m \<and>
     ((\<forall>rid. opened rid \<ge> 0) \<longrightarrow> (\<forall>(rid, l) \<in> set m'. lk_isConnected l \<and> lk_scanning l \<and> lk_looping l))"
proof (induction m)
  case Nil
  then show ?case by simp
next
  case (Cons x m)
  obtain rid l where x: "x = (rid, l)" by (cases x)
  obtain m' where m': "lk_startAll opened m = Some m'" "map fst m' = map fst m"
    "(\<forall>rid. opened rid \<ge> 0) \<longrightarrow> (\<forall>(rid, l) \<in> set m'. lk_isConnected l \<and> lk_scanning l \<and> lk_looping l)"
    using Cons by auto
  have "\<not> lk_looping l" using Cons.prems x by auto
  then show ?case using m'
    by (cases "opened rid < 0")
      (auto simp: x Let_def lk_startScanning_def lk_connect_def lk_isConnected_def not_le intro: exI [of _ rid])
qed

lemma lk_startAll_looping:
  "(rid, l) \<in> set m \<Longrightarrow> lk_isConnected l \<Longrightarrow> lk_looping l \<Longrightarrow> lk_startAll opened m = None"
  by (induction m) (auto simp: Let_def lk_startScanning_def lk_isConnected_def split: option.split)

text \<open>Starting all readers works once. From readers whose loops are not running, \<open>startAll\<close> returns with all of
  them connected, scanning and reading when every device opens; calling it again, while they read,
  never returns (it waits for a thread that its own flag keeps running, holding the manager's mutex);
  after \<open>stopAll\<close> it returns again.\<close>

theorem lk_startAll_once:
  assumes "m \<noteq> []" "\<forall>(rid, l) \<in> set m. \<not> lk_looping l" "\<forall>rid. opened rid \<ge> 0"
  shows "\<exists>m'. lk_startAll opened m = Some m' \<and> lk_getReaderIds m' = lk_getReaderIds m \<and>
    lk_getConnectedReaderCount m' = lk_getReaderCount m \<and>
    lk_startAll opened' m' = None \<and> lk_startAll opened' (lk_stopAll m') \<noteq> None"
proof -
  obtain m' where m': "lk_startAll opened m = Some m'" "map fst m' = map fst m"
    "\<forall>(rid, l) \<in> set m'. lk_isConnected l \<and> lk_scanning l \<and> lk_looping l"
    using lk_startAll_stopped [OF assms(2), of opened] assms(3) by blast
  have len: "length m' = length m" using m'(2) by (metis length_map)
  have "filter (\<lambda>(_, l). lk_isConnected l) m' = m'" using m'(3) by (auto simp: filter_id_conv)
  then have "lk_getConnectedReaderCount m' = lk_getReaderCount m"
    by (simp add: lk_getConnectedReaderCount_def lk_getReaderCount_def len)
  moreover obtain rid l where "(rid, l) \<in> set m'" using assms(1) len by (cases m') auto
  then have "lk_startAll opened' m' = None" using m'(3) lk_startAll_looping by blast
  moreover have "\<forall>(rid, l) \<in> set (lk_stopAll m'). \<not> lk_looping l"
    by (auto simp: lk_stopAll_def lk_stopScanning_def lk_disconnect_def Let_def split: if_splits)
  then have "lk_startAll opened' (lk_stopAll m') \<noteq> None" using lk_startAll_stopped by blast
  ultimately show ?thesis using m'(1,2) by (auto simp: lk_getReaderIds_def)
qed

lemma lk_startAll_once_witness:
  "\<exists>m'. lk_startAll (\<lambda>_. 3) [(''r1'', lk_new ''r1'')] = Some m' \<and> lk_startAll (\<lambda>_. 4) m' = None"
  using lk_startAll_once [of "[(''r1'', lk_new ''r1'')]" "\<lambda>_. 3" "\<lambda>_. 4"] by (auto simp: lk_new_def)

end
