(* ===== verification/Idempotency.thy ===== *)
theory Idempotency
  imports Base
begin

text \<open>
  \<open>server/core/idempotency_manager.\{h,cpp\}\<close>: the reads already processed, as one set of strings
  \<open>task:epc\<close>. The set of pairs it stands for is the specification the operations refine.
\<close>

record IdempotencyManager =
  im_processedKeys :: "string list"
  im_lastCleanup :: int

definition im_new :: "int \<Rightarrow> IdempotencyManager" where
  "im_new now = \<lparr>im_processedKeys = [], im_lastCleanup = now\<rparr>"

definition im_generateKey :: "int \<Rightarrow> string \<Rightarrow> string" where
  "im_generateKey taskId epc = task_key taskId epc"

text \<open>\<open>cleanupExpired\<close> only writes a log line.\<close>

definition im_cleanupExpired :: "int \<Rightarrow> IdempotencyManager \<Rightarrow> IdempotencyManager" where
  "im_cleanupExpired maxAgeSeconds m = m"

text \<open>Times are in seconds.\<close>

definition im_isProcessed :: "int \<Rightarrow> int \<Rightarrow> string \<Rightarrow> IdempotencyManager \<Rightarrow> bool \<times> IdempotencyManager" where
  "im_isProcessed now taskId epc m =
     (let m' = (if now - im_lastCleanup m > 3600 then (im_cleanupExpired 3600 m)\<lparr>im_lastCleanup := now\<rparr> else m)
      in (im_generateKey taskId epc \<in> set (im_processedKeys m'), m'))"

definition im_markProcessed :: "int \<Rightarrow> string \<Rightarrow> IdempotencyManager \<Rightarrow> IdempotencyManager" where
  "im_markProcessed taskId epc m = m\<lparr>im_processedKeys := List.insert (im_generateKey taskId epc) (im_processedKeys m)\<rparr>"

text \<open>Every key is compared with the prefix \<open>task:\<close>.\<close>

definition im_removeTask :: "int \<Rightarrow> IdempotencyManager \<Rightarrow> IdempotencyManager" where
  "im_removeTask taskId m =
     (let pre = to_string taskId @ '':'' in
      m\<lparr>im_processedKeys := filter (\<lambda>k. take (length pre) k \<noteq> pre) (im_processedKeys m)\<rparr>)"

definition im_getCacheSize :: "IdempotencyManager \<Rightarrow> nat" where
  "im_getCacheSize m = length (im_processedKeys m)"

definition im_clear :: "IdempotencyManager \<Rightarrow> IdempotencyManager" where
  "im_clear m = m\<lparr>im_processedKeys := []\<rparr>"

section \<open>The specification: a set of pairs\<close>

datatype im_op = Mark int string | Query int int string | RemoveTask int | Cleanup int | ClearAll

fun im_step :: "IdempotencyManager \<Rightarrow> im_op \<Rightarrow> IdempotencyManager" where
  "im_step m (Mark t e) = im_markProcessed t e m"
| "im_step m (Query now t e) = snd (im_isProcessed now t e m)"
| "im_step m (RemoveTask t) = im_removeTask t m"
| "im_step m (Cleanup a) = im_cleanupExpired a m"
| "im_step m ClearAll = im_clear m"

fun im_spec_step :: "(int \<times> string) set \<Rightarrow> im_op \<Rightarrow> (int \<times> string) set" where
  "im_spec_step S (Mark t e) = insert (t, e) S"
| "im_spec_step S (Query now t e) = S"
| "im_spec_step S (RemoveTask t) = {(t', e) \<in> S. t' \<noteq> t}"
| "im_spec_step S (Cleanup a) = S"
| "im_spec_step S ClearAll = {}"

definition im_rel :: "IdempotencyManager \<Rightarrow> (int \<times> string) set \<Rightarrow> bool" where
  "im_rel m S \<longleftrightarrow> distinct (im_processedKeys m) \<and> set (im_processedKeys m) = (\<lambda>(t, e). task_key t e) ` S"

lemma task_key_prefix:
  "take (length (to_string t @ '':'')) (task_key t' e) = to_string t @ '':'' \<longleftrightarrow> t' = t"
proof
  assume *: "take (length (to_string t @ '':'')) (task_key t' e) = to_string t @ '':''"
  have "task_key t' e = take (length (to_string t @ '':'')) (task_key t' e) @
      drop (length (to_string t @ '':'')) (task_key t' e)" by simp
  then have "task_key t' e = task_key t (drop (length (to_string t @ '':'')) (task_key t' e))"
    unfolding * by (simp add: task_key_def)
  then show "t' = t" by (metis task_key_inj)
qed (simp add: task_key_def)

lemma im_query_keys [simp]: "im_processedKeys (snd (im_isProcessed now t e m)) = im_processedKeys m"
  by (simp add: im_isProcessed_def im_cleanupExpired_def Let_def)

lemma im_step_rel:
  assumes "im_rel m S"
  shows "im_rel (im_step m op) (im_spec_step S op)"
proof (cases op)
  case (Mark t e)
  with assms show ?thesis
    by (auto simp: im_rel_def im_markProcessed_def im_generateKey_def)
next
  case (RemoveTask t)
  have "set (im_processedKeys (im_removeTask t m)) =
      {k \<in> set (im_processedKeys m). take (length (to_string t @ '':'')) k \<noteq> to_string t @ '':''}"
    by (simp add: im_removeTask_def Let_def)
  also have "\<dots> = (\<lambda>(t, e). task_key t e) ` {(t', e) \<in> S. t' \<noteq> t}"
    using assms by (auto simp: im_rel_def task_key_prefix simp del: length_append append.simps)
  finally show ?thesis using assms RemoveTask
    by (simp add: im_rel_def) (simp add: im_removeTask_def Let_def)
qed (use assms in \<open>auto simp: im_rel_def im_cleanupExpired_def im_clear_def\<close>)

lemma im_run_rel: "im_rel m S \<Longrightarrow> im_rel (foldl im_step m ops) (foldl im_spec_step S ops)"
  by (induction ops arbitrary: m S) (auto simp: im_step_rel)

lemma im_isProcessed_rel: "im_rel m S \<Longrightarrow> fst (im_isProcessed now t e m) \<longleftrightarrow> (t, e) \<in> S"
proof -
  have "fst (im_isProcessed now t e m) \<longleftrightarrow> task_key t e \<in> set (im_processedKeys m)"
    by (simp add: im_isProcessed_def im_cleanupExpired_def im_generateKey_def Let_def)
  then show "im_rel m S \<Longrightarrow> fst (im_isProcessed now t e m) \<longleftrightarrow> (t, e) \<in> S"
    by (auto simp: im_rel_def)
qed

lemma im_getCacheSize_rel: "im_rel m S \<Longrightarrow> im_getCacheSize m = card S"
proof -
  assume "im_rel m S"
  then have "im_getCacheSize m = card ((\<lambda>(t, e). task_key t e) ` S)"
    by (simp add: im_rel_def im_getCacheSize_def distinct_card flip: distinct_card)
  also have "\<dots> = card S" by (rule card_image) (auto simp: inj_on_def)
  finally show "im_getCacheSize m = card S" .
qed

text \<open>C11: The manager implements a set of (task, EPC) pairs. After any calls, a pair counts as processed iff it was
  marked after the last removal of its task and the last clear; removing a task never touches
  another one, whatever the EPCs contain; the size is the number of such pairs; and neither queries,
  the hourly clean-up they trigger, nor \<open>cleanupExpired\<close> itself ever forgets a pair.\<close>

theorem im_refines_pair_set:
  "fst (im_isProcessed now t e (foldl im_step (im_new t0) ops)) = ((t, e) \<in> foldl im_spec_step {} ops) \<and>
   im_getCacheSize (foldl im_step (im_new t0) ops) = card (foldl im_spec_step {} ops)"
proof -
  have "im_rel (im_new t0) {}" by (simp add: im_rel_def im_new_def)
  from im_run_rel [OF this, of ops] show ?thesis
    by (simp add: im_isProcessed_rel im_getCacheSize_rel)
qed

end
