(* ===== verification/Rate_Limiter.thy ===== *)
theory Rate_Limiter
  imports Complex_Main Base
begin

text \<open>
  \<open>server/core/rate_limiter.\{h,cpp\}\<close>: the sliding window of request times and the request counters.
  Times are in nanoseconds of the steady clock, which never goes back. The request time-out, which
  only runs a function on another thread, is not modelled.
\<close>

definition ONE_SECOND :: int where
  "ONE_SECOND = 1000000000"

record RateLimiter =
  rl_maxRequestsPerSecond :: nat
  rl_timestamps :: "int list"
  rl_currentRate :: nat

definition rl_new :: "nat \<Rightarrow> RateLimiter" where
  "rl_new m = \<lparr>rl_maxRequestsPerSecond = m, rl_timestamps = [], rl_currentRate = 0\<rparr>"

text \<open>The loop that pops the front while it is older than a second.\<close>

definition rl_cleanOldTimestamps :: "int \<Rightarrow> RateLimiter \<Rightarrow> RateLimiter" where
  "rl_cleanOldTimestamps now l = l\<lparr>rl_timestamps := dropWhile (\<lambda>t. t < now - ONE_SECOND) (rl_timestamps l)\<rparr>"

text \<open>The clock is read twice: in the clean-up and for the new time stamp.\<close>

definition rl_tryAcquire :: "int \<Rightarrow> int \<Rightarrow> RateLimiter \<Rightarrow> bool \<times> RateLimiter" where
  "rl_tryAcquire now1 now2 l =
     (let l1 = rl_cleanOldTimestamps now1 l in
      if length (rl_timestamps l1) \<ge> rl_maxRequestsPerSecond l1 then (False, l1)
      else let ts = rl_timestamps l1 @ [now2]
           in (True, l1\<lparr>rl_timestamps := ts, rl_currentRate := length ts\<rparr>))"

definition rl_release :: "RateLimiter \<Rightarrow> RateLimiter" where
  "rl_release l =
     (if rl_timestamps l \<noteq> [] then
        (let ts = tl (rl_timestamps l) in l\<lparr>rl_timestamps := ts, rl_currentRate := length ts\<rparr>)
      else l)"

definition rl_getCurrentRate :: "RateLimiter \<Rightarrow> nat" where
  "rl_getCurrentRate l = length (rl_timestamps l)"

definition rl_isOverloaded :: "RateLimiter \<Rightarrow> bool" where
  "rl_isOverloaded l \<longleftrightarrow> real (length (rl_timestamps l)) \<ge> real (rl_maxRequestsPerSecond l) * (8 / 10)"

section \<open>Request counters\<close>

record ServerStats =
  ss_startTime :: int
  ss_totalRequests :: u64
  ss_activeRequests :: u64
  ss_errorCount :: u64

definition ss_recordRequest :: "ServerStats \<Rightarrow> ServerStats" where
  "ss_recordRequest s = s\<lparr>ss_totalRequests := ss_totalRequests s + 1, ss_activeRequests := ss_activeRequests s + 1\<rparr>"

definition ss_recordResponse :: "int \<Rightarrow> ServerStats \<Rightarrow> ServerStats" where
  "ss_recordResponse statusCode s =
     (let s1 = s\<lparr>ss_activeRequests := ss_activeRequests s - 1\<rparr>
      in if statusCode \<ge> 400 then s1\<lparr>ss_errorCount := ss_errorCount s1 + 1\<rparr> else s1)"

definition ss_recordError :: "ServerStats \<Rightarrow> ServerStats" where
  "ss_recordError s = s\<lparr>ss_errorCount := ss_errorCount s + 1\<rparr>"

definition ss_getUptimeSeconds :: "int \<Rightarrow> ServerStats \<Rightarrow> int" where
  "ss_getUptimeSeconds now s = (now - ss_startTime s) div ONE_SECOND"

definition ss_getTotalRequests :: "ServerStats \<Rightarrow> u64" where
  "ss_getTotalRequests s = ss_totalRequests s"

definition ss_getActiveRequests :: "ServerStats \<Rightarrow> u64" where
  "ss_getActiveRequests s = ss_activeRequests s"

definition ss_getErrorRate :: "ServerStats \<Rightarrow> real" where
  "ss_getErrorRate s =
     (if ss_totalRequests s = 0 then 0
      else real (unat (ss_errorCount s)) / real (unat (ss_totalRequests s)))"

definition ss_setStartTime :: "int \<Rightarrow> ServerStats \<Rightarrow> ServerStats" where
  "ss_setStartTime now s = s\<lparr>ss_startTime := now\<rparr>"

section \<open>The rate that is admitted\<close>

text \<open>Calls one after the other, a request with its two clock readings: the times admitted.\<close>

datatype rl_op = Acquire int int | Release

fun rl_run :: "RateLimiter \<Rightarrow> rl_op list \<Rightarrow> int list \<times> RateLimiter" where
  "rl_run l [] = ([], l)"
| "rl_run l (Acquire n1 n2 # ops) =
     (case rl_tryAcquire n1 n2 l of (ok, l1) \<Rightarrow>
      (case rl_run l1 ops of (acc, l2) \<Rightarrow> ((if ok then n2 # acc else acc), l2)))"
| "rl_run l (Release # ops) = rl_run (rl_release l) ops"

text \<open>The readings of a clock that never goes back.\<close>

fun clock_from :: "int \<Rightarrow> rl_op list \<Rightarrow> bool" where
  "clock_from t [] = True"
| "clock_from t (Acquire n1 n2 # ops) = (t \<le> n1 \<and> n1 \<le> n2 \<and> clock_from n2 ops)"
| "clock_from t (Release # ops) = clock_from t ops"

text \<open>The calls made in the second from \<open>t\<close> on: from its first request to the first request after it.\<close>

fun rl_before :: "int \<Rightarrow> rl_op \<Rightarrow> bool" where
  "rl_before t (Acquire n1 n2) = (n2 < t)"
| "rl_before t Release = True"

definition rl_calls_in_second :: "int \<Rightarrow> rl_op list \<Rightarrow> rl_op list" where
  "rl_calls_in_second t ops = takeWhile (rl_before (t + ONE_SECOND + 1)) (dropWhile (rl_before t) ops)"

definition rl_releases :: "rl_op list \<Rightarrow> nat" where
  "rl_releases ops = length (filter (\<lambda>op. op = Release) ops)"

lemma rl_run_append:
  "rl_run l (xs @ ys) = (case rl_run l xs of (a, l1) \<Rightarrow> (case rl_run l1 ys of (b, l2) \<Rightarrow> (a @ b, l2)))"
  by (induction l xs rule: rl_run.induct) (auto split: prod.split)

lemma rl_run_times: "a \<in> set (fst (rl_run l ops)) \<Longrightarrow> \<exists>n1. Acquire n1 a \<in> set ops"
  by (induction l ops rule: rl_run.induct) (auto split: prod.splits if_splits)

lemma clock_from_mem: "clock_from t0 ops \<Longrightarrow> Acquire n1 n2 \<in> set ops \<Longrightarrow> t0 \<le> n1 \<and> n1 \<le> n2"
  by (induction t0 ops rule: clock_from.induct) fastforce+

lemma clock_from_late:
  "clock_from t0 ops \<Longrightarrow> Acquire n1 n2 \<in> set (dropWhile (rl_before t) ops) \<Longrightarrow> t \<le> n2"
  by (induction t0 ops rule: clock_from.induct) (fastforce split: if_splits dest: clock_from_mem)+

lemma clock_from_append: "clock_from t0 (xs @ ys) \<Longrightarrow> \<exists>t1. clock_from t1 ys"
  by (induction t0 xs rule: clock_from.induct) auto

lemma rl_run_sorted:
  "clock_from t ops \<Longrightarrow> sorted (fst (rl_run l ops)) \<and> (\<forall>a \<in> set (fst (rl_run l ops)). t \<le> a)"
proof (induction l ops arbitrary: t rule: rl_run.induct)
  case (2 l n1 n2 ops)
  obtain ok l1 where a: "rl_tryAcquire n1 n2 l = (ok, l1)" by (cases "rl_tryAcquire n1 n2 l")
  obtain acc l2 where r: "rl_run l1 ops = (acc, l2)" by (cases "rl_run l1 ops")
  have "sorted acc" "\<forall>a \<in> set acc. n2 \<le> a" using 2(1) [OF a [symmetric], of n2] 2(2) r by simp_all
  then show ?case using 2(2) by (auto simp: a r intro: order_trans)
qed auto

lemma rl_run_max: "rl_maxRequestsPerSecond (snd (rl_run l ops)) = rl_maxRequestsPerSecond l"
proof (induction l ops rule: rl_run.induct)
  case (2 l n1 n2 ops)
  obtain ok l1 where a: "rl_tryAcquire n1 n2 l = (ok, l1)" by (cases "rl_tryAcquire n1 n2 l")
  then have "rl_maxRequestsPerSecond l1 = rl_maxRequestsPerSecond l"
    by (auto simp: rl_tryAcquire_def rl_cleanOldTimestamps_def Let_def split: if_splits)
  with 2 [OF a [symmetric]] show ?case by (cases "rl_run l1 ops") (simp add: a)
qed (simp_all add: rl_release_def Let_def)

lemma dropWhile_keep: "\<forall>x \<in> set ys. \<not> P x \<Longrightarrow> dropWhile P (xs @ ys) = dropWhile P xs @ ys"
  by (induction xs) (auto simp: dropWhile_eq_self_iff)

text \<open>
  The invariant of a second: \<open>young\<close> are its admissions still in the deque, of which the clean-up takes
  none. There are never more than the maximum of them, and only releases take any out.
\<close>

lemma rl_second:
  assumes "rl_timestamps l = old @ young" "\<forall>x \<in> set young. t \<le> x"
    and "length young \<le> rl_maxRequestsPerSecond l"
    and "\<And>n1 n2. Acquire n1 n2 \<in> set ops \<Longrightarrow> n1 \<le> t + ONE_SECOND \<and> t \<le> n2"
  shows "length (fst (rl_run l ops)) + length young \<le> rl_maxRequestsPerSecond l + rl_releases ops"
  using assms
proof (induction l ops arbitrary: old young rule: rl_run.induct)
  case (1 l)
  then show ?case by simp
next
  case (2 l n1 n2 ops)
  let ?old = "dropWhile (\<lambda>x. x < n1 - ONE_SECOND) old"
  obtain ok l1 where a: "rl_tryAcquire n1 n2 l = (ok, l1)" by (cases "rl_tryAcquire n1 n2 l")
  have bounds: "n1 \<le> t + ONE_SECOND" "t \<le> n2" using 2(5) [of n1 n2] by simp_all
  have "\<forall>x \<in> set young. \<not> x < n1 - ONE_SECOND" using 2(3) bounds(1) by fastforce
  then have clean: "dropWhile (\<lambda>x. x < n1 - ONE_SECOND) (rl_timestamps l) = ?old @ young"
    unfolding 2(2) by (rule dropWhile_keep)
  have ops: "k1 \<le> t + ONE_SECOND \<and> t \<le> k2" if "Acquire k1 k2 \<in> set ops" for k1 k2
    using 2(5) [of k1 k2] that by simp
  show ?case
  proof (cases ok)
    case True
    then have l1: "rl_timestamps l1 = ?old @ young @ [n2]" "length young < rl_maxRequestsPerSecond l"
      "rl_maxRequestsPerSecond l1 = rl_maxRequestsPerSecond l"
      using a by (auto simp: rl_tryAcquire_def rl_cleanOldTimestamps_def Let_def clean split: if_splits)
    have "length (fst (rl_run l1 ops)) + length (young @ [n2]) \<le> rl_maxRequestsPerSecond l1 + rl_releases ops"
      by (rule 2(1) [OF a [symmetric] l1(1) _ _ ops]) (use 2(3) bounds l1 in auto)
    then show ?thesis using True l1(3) by (cases "rl_run l1 ops") (simp add: a rl_releases_def)
  next
    case False
    then have l1: "rl_timestamps l1 = ?old @ young" "rl_maxRequestsPerSecond l1 = rl_maxRequestsPerSecond l"
      using a by (auto simp: rl_tryAcquire_def rl_cleanOldTimestamps_def Let_def clean split: if_splits)
    have "length (fst (rl_run l1 ops)) + length young \<le> rl_maxRequestsPerSecond l1 + rl_releases ops"
      by (rule 2(1) [OF a [symmetric] l1(1) 2(3) _ ops]) (use 2(4) l1 in auto)
    then show ?thesis using False l1(2) by (cases "rl_run l1 ops") (simp add: a rl_releases_def)
  qed
next
  case (3 l ops)
  have ops: "k1 \<le> t + ONE_SECOND \<and> t \<le> k2" if "Acquire k1 k2 \<in> set ops" for k1 k2
    using 3(5) [of k1 k2] that by simp
  obtain old' young' where r: "rl_timestamps (rl_release l) = old' @ young'" "set young' \<subseteq> set young"
      "length young \<le> Suc (length young')" "length young' \<le> length young"
  proof (cases old)
    case Nil
    then show ?thesis using 3(2) by (cases young) (auto simp: rl_release_def Let_def intro: that [of "[]" "tl young"])
  next
    case (Cons x xs)
    then show ?thesis using 3(2) by (intro that [of xs young]) (auto simp: rl_release_def Let_def)
  qed
  have m: "rl_maxRequestsPerSecond (rl_release l) = rl_maxRequestsPerSecond l"
    by (simp add: rl_release_def Let_def)
  have "length (fst (rl_run (rl_release l) ops)) + length young' \<le>
      rl_maxRequestsPerSecond (rl_release l) + rl_releases ops"
    by (rule 3(1) [OF r(1) _ _ ops]) (use 3(3,4) r(2,4) m in auto)
  then show ?case using r(3) m by (simp add: rl_releases_def)
qed

text \<open>C12: The rate that the limiter enforces. Whatever requests and releases come, with a clock that never
  goes back: in no closed second are more admitted than the maximum plus the number of calls of
  \<open>release\<close> made after the first request of that second and before the first request after it; when there
  is none, never more than the maximum. The admissions are in the order of the clock. The bound needs the
  releases: a client that releases what it acquired is admitted \<open>n\<close> times in one instant, for every
  \<open>n\<close>, as soon as the maximum is positive.\<close>

theorem rl_rate_enforced:
  assumes "clock_from t0 ops"
  shows "length (filter (\<lambda>a. t \<le> a \<and> a \<le> t + ONE_SECOND) (fst (rl_run (rl_new m) ops)))
      \<le> m + rl_releases (rl_calls_in_second t ops) \<and>
    sorted (fst (rl_run (rl_new m) ops)) \<and>
    fst (rl_run (rl_new (Suc m)) (concat (replicate n [Acquire t t, Release]))) = replicate n t"
proof (intro conjI)
  let ?pre = "takeWhile (rl_before t) ops" and ?rest = "dropWhile (rl_before t) ops"
  let ?seg = "rl_calls_in_second t ops" and ?post = "dropWhile (rl_before (t + ONE_SECOND + 1)) (dropWhile (rl_before t) ops)"
  let ?P = "\<lambda>a. t \<le> a \<and> a \<le> t + ONE_SECOND"
  have split: "ops = ?pre @ ?seg @ ?post" by (simp add: rl_calls_in_second_def)
  obtain a1 l1 where r1: "rl_run (rl_new m) ?pre = (a1, l1)" by (cases "rl_run (rl_new m) ?pre")
  obtain a2 l2 where r2: "rl_run l1 ?seg = (a2, l2)" by (cases "rl_run l1 ?seg")
  obtain a3 l3 where r3: "rl_run l2 ?post = (a3, l3)" by (cases "rl_run l2 ?post")
  have run: "fst (rl_run (rl_new m) ops) = a1 @ a2 @ a3"
    by (subst split) (simp add: rl_run_append r1 r2 r3)
  have late: "t \<le> n2" if "Acquire n1 n2 \<in> set ?rest" for n1 n2
    using clock_from_late [OF assms that] .
  obtain t1 where clock: "clock_from t1 ?rest"
    using clock_from_append [of t0 ?pre ?rest] assms by auto
  have "n1 \<le> t + ONE_SECOND \<and> t \<le> n2" if s: "Acquire n1 n2 \<in> set ?seg" for n1 n2
  proof -
    have "Acquire n1 n2 \<in> set ?rest" "rl_before (t + ONE_SECOND + 1) (Acquire n1 n2)"
      using s by (auto simp: rl_calls_in_second_def dest: set_takeWhileD)
    with late clock_from_mem [OF clock] show ?thesis by fastforce
  qed
  moreover have "rl_maxRequestsPerSecond l1 = m"
    using rl_run_max [of "rl_new m" ?pre] r1 by (simp add: rl_new_def)
  ultimately have "length a2 \<le> m + rl_releases ?seg"
    using rl_second [of l1 "rl_timestamps l1" "[]" t ?seg] r2 by auto
  moreover have "filter ?P a1 = []"
  proof -
    have "a < t" if "a \<in> set a1" for a
      using rl_run_times [of a "rl_new m" ?pre] that r1 by (fastforce dest: set_takeWhileD)
    then show ?thesis by (fastforce simp: filter_empty_conv)
  qed
  moreover have "filter ?P a3 = []"
  proof -
    have "t + ONE_SECOND + 1 \<le> a" if "a \<in> set a3" for a
      using rl_run_times [of a l2 ?post] that r3 clock_from_late [OF clock] by fastforce
    then show ?thesis by (fastforce simp: filter_empty_conv)
  qed
  ultimately show "length (filter ?P (fst (rl_run (rl_new m) ops))) \<le> m + rl_releases ?seg"
    unfolding run using le_trans [OF length_filter_le, of a2] by simp
  show "sorted (fst (rl_run (rl_new m) ops))" using rl_run_sorted [OF assms] by blast
  have pair: "rl_tryAcquire t t (rl_new (Suc m)) = (True, l) \<Longrightarrow> rl_release l = rl_new (Suc m)" for l
    by (auto simp: rl_tryAcquire_def rl_cleanOldTimestamps_def rl_release_def rl_new_def Let_def)
  have ok: "\<exists>l. rl_tryAcquire t t (rl_new (Suc m)) = (True, l)"
    by (simp add: rl_tryAcquire_def rl_cleanOldTimestamps_def rl_new_def Let_def)
  show "fst (rl_run (rl_new (Suc m)) (concat (replicate n [Acquire t t, Release]))) = replicate n t"
    using ok by (induction n) (auto simp: pair split: prod.split)
qed

lemma rl_rate_enforced_witness:
  "length (filter (\<lambda>a. 1 \<le> a \<and> a \<le> 1 + ONE_SECOND)
     (fst (rl_run (rl_new 2) [Acquire 1 2, Acquire 3 4, Acquire 5 6, Release, Acquire 7 8, Acquire 9 9]))) \<le> 3"
  using rl_rate_enforced [of 0 "[Acquire 1 2, Acquire 3 4, Acquire 5 6, Release, Acquire 7 8, Acquire 9 9]" 1 2]
  by (simp add: rl_calls_in_second_def rl_releases_def ONE_SECOND_def)

text \<open>Releasing defeats the rate. \<open>release\<close> takes the oldest admission out of the window, so a client that
  releases each request when it is done is admitted without limit: any number of
  acquire/release pairs in one instant all succeed, as soon as the maximum is positive.\<close>

theorem rl_release_defeats_rate:
  "((\<lambda>(oks, l). case rl_tryAcquire now now l of (ok, l') \<Rightarrow> (oks @ [ok], rl_release l')) ^^ n) ([], rl_new (Suc m)) =
   (replicate n True, rl_new (Suc m))"
proof (induction n)
  case 0
  then show ?case by simp
next
  case (Suc n)
  then show ?case
    by (simp add: rl_tryAcquire_def rl_cleanOldTimestamps_def rl_release_def rl_new_def Let_def replicate_append_same)
qed

end
