(* ===== verification/Decimal.thy ===== *)
theory Decimal
  imports Complex_Main EPC_Reading "HOL-Library.List_Lexorder" "HOL-Library.Char_ord"
begin

text \<open>
  More of the C++ standard library: \<open>std::to_string\<close> and \<open>std::stod\<close> on \<open>double\<close>, and \<open>std::map\<close>
  as an association list kept in the order of its keys, which is its iteration order.
\<close>

section \<open>Printing and parsing doubles\<close>

text \<open>\<open>std::to_string(double)\<close> is \<open>sprintf("%f")\<close>: six decimals, ties to even.\<close>

definition round_even :: "real \<Rightarrow> int" where
  "round_even x =
     (let f = floor x; d = x - of_int f in
      if d < 1 / 2 then f else if d > 1 / 2 then f + 1 else if even f then f else f + 1)"

definition micros :: "real \<Rightarrow> nat" where
  "micros x = nat (round_even (\<bar>x\<bar> * 1000000))"

definition six_digits :: "nat \<Rightarrow> string" where
  "six_digits k = map (\<lambda>d. digit_char (k div d mod 10)) [100000, 10000, 1000, 100, 10, 1]"

definition fixed6 :: "real \<Rightarrow> string" where
  "fixed6 x =
     (if x < 0 then ''-'' else '''') @ digits_of (micros x div 1000000) @ ''.'' @ six_digits (micros x mod 1000000)"

text \<open>
  \<open>std::stod\<close>: leading white space, a sign, digits with a point, an exponent, up to the first other
  character. The rounding to a double, underflow, hexadecimal numbers, infinities and NaN are left out.
\<close>

definition std_exponent :: "string \<Rightarrow> int" where
  "std_exponent s =
     (if s \<noteq> [] \<and> (hd s = CHR ''e'' \<or> hd s = CHR ''E'') then
        let t = tl s;
            neg = (t \<noteq> [] \<and> hd t = CHR ''-'');
            ds = takeWhile is_digit_char (if t \<noteq> [] \<and> (hd t = CHR ''-'' \<or> hd t = CHR ''+'') then tl t else t)
        in if neg then - int (of_digits ds) else int (of_digits ds)
      else 0)"

definition DBL_LIMIT :: real where
  "DBL_LIMIT = 2 ^ 1024"

definition std_magnitude :: "string \<Rightarrow> real option" where
  "std_magnitude body =
     (let ip = takeWhile is_digit_char body;
          r1 = dropWhile is_digit_char body;
          point = (r1 \<noteq> [] \<and> hd r1 = CHR ''.'');
          fp = (if point then takeWhile is_digit_char (tl r1) else []);
          e = std_exponent (if point then dropWhile is_digit_char (tl r1) else r1);
          m = real (of_digits (ip @ fp)) / 10 ^ length fp
      in if ip = [] \<and> fp = [] then None
         else Some (if e < 0 then m / 10 ^ nat (- e) else m * 10 ^ nat e))"

definition std_stod :: "string \<Rightarrow> fault + real" where
  "std_stod s =
     (let t = dropWhile is_space_char s;
          neg = (t \<noteq> [] \<and> hd t = CHR ''-'');
          body = (if t \<noteq> [] \<and> (hd t = CHR ''-'' \<or> hd t = CHR ''+'') then tl t else t)
      in case std_magnitude body of
           None \<Rightarrow> Inl (Thrown ''std::invalid_argument'')
         | Some v \<Rightarrow> if v \<ge> DBL_LIMIT then Inl (Thrown ''std::out_of_range'') else Inr (if neg then - v else v))"

lemma round_even_bound: "\<bar>real_of_int (round_even x) - x\<bar> \<le> 1 / 2"
proof -
  have "0 \<le> x - of_int (floor x)" "x - of_int (floor x) < 1" by linarith+
  then show ?thesis by (simp add: round_even_def Let_def abs_le_iff)
qed

lemma round_even_nonneg: "0 \<le> x \<Longrightarrow> 0 \<le> round_even x"
  by (simp add: round_even_def Let_def)

lemma micros_bound: "\<bar>real (micros x) - \<bar>x\<bar> * 1000000\<bar> \<le> 1 / 2"
  using round_even_bound [of "\<bar>x\<bar> * 1000000"] round_even_nonneg [of "\<bar>x\<bar> * 1000000"]
  by (simp add: micros_def)

lemma is_digit_digit_char: "d < 10 \<Longrightarrow> is_digit_char (digit_char d)"
  by (simp add: is_digit_char_def of_char_digit_char)

lemma is_digit_digits_of: "c \<in> set (digits_of n) \<Longrightarrow> is_digit_char c"
  using digits_of_range [of c n] by (simp add: is_digit_char_def)

lemma six_digits_digit: "c \<in> set (six_digits k) \<Longrightarrow> is_digit_char c"
  by (auto simp: six_digits_def intro!: is_digit_digit_char)

lemma length_six: "length (six_digits k) = 6"
  by (simp add: six_digits_def)

lemma of_digits_snoc [simp]: "of_digits (s @ [c]) = 10 * of_digits s + (of_char c - 48)"
  by (simp add: of_digits_def)

lemma of_digits_append: "of_digits (s @ t) = of_digits s * 10 ^ length t + of_digits t"
proof (induction t rule: rev_induct)
  case Nil
  then show ?case by (simp add: of_digits_def)
next
  case (snoc c t)
  then show ?case using of_digits_snoc [of "s @ t" c] by (simp add: algebra_simps)
qed

lemma of_digits_six: "k < 1000000 \<Longrightarrow> of_digits (six_digits k) = k"
proof -
  assume lt: "k < 1000000"
  have step: "10 * (k div (10 * d)) + k div d mod 10 = k div d" for d
    using div_mult_mod_eq [of "k div d" 10] div_mult2_eq [of k d 10] by (simp add: mult.commute)
  have "k div 100000 mod 10 = k div 100000" "k div 100000 < 10" using lt by simp_all
  then show ?thesis
    using step [of 10000] step [of 1000] step [of 100] step [of 10] step [of 1]
    by (simp add: of_digits_def six_digits_def of_char_digit_char)
qed

lemma digit_not_special: "is_digit_char c \<Longrightarrow> c \<noteq> CHR ''-'' \<and> c \<noteq> CHR ''+'' \<and> c \<noteq> CHR ''.'' \<and> \<not> is_space_char c"
  by (auto simp: is_digit_char_def is_space_char_def Let_def)

text \<open>What is printed is read back as the nearest multiple of a millionth.\<close>

lemma stod_fixed6:
  assumes "\<bar>x\<bar> \<le> 2 ^ 1000"
  shows "std_stod (fixed6 x) = Inr (sgn x * (real (micros x) / 1000000))"
proof -
  let ?m = "micros x"
  let ?ip = "digits_of (?m div 1000000)" and ?fp = "six_digits (?m mod 1000000)"
  let ?body = "?ip @ CHR ''.'' # ?fp"
  obtain c ip where c: "?ip = c # ip" "is_digit_char c"
    using digits_of_nonempty is_digit_digits_of by (metis list.exhaust list.set_intros(1))
  note cs = digit_not_special [OF c(2)]
  have tw: "takeWhile is_digit_char ?body = ?ip" "dropWhile is_digit_char ?body = CHR ''.'' # ?fp"
    using is_digit_digits_of by (simp_all add: takeWhile_append dropWhile_append is_digit_char_def)
  have tf: "takeWhile is_digit_char ?fp = ?fp" "dropWhile is_digit_char ?fp = []"
    using six_digits_digit by (simp_all add: takeWhile_eq_all_conv dropWhile_eq_Nil_conv)
  have "of_digits (?ip @ ?fp) = ?m"
    using of_digits_six [of "?m mod 1000000"] length_six [of "?m mod 1000000"] by (simp add: of_digits_append)
  then have v: "real (of_digits (?ip @ ?fp)) / 10 ^ length ?fp = real ?m / 1000000" by (simp add: length_six)
  have "real ?m / 1000000 \<le> \<bar>x\<bar> + 1" using micros_bound [of x] unfolding abs_le_iff [of "_ - _"] by simp
  also have "\<dots> \<le> 2 ^ 1000 + 1" using assms by (rule add_right_mono)
  also have "\<dots> < DBL_LIMIT" by (simp add: DBL_LIMIT_def)
  finally have lt: "\<not> DBL_LIMIT \<le> real ?m / 1000000" unfolding not_le .
  have e: "std_exponent [] = 0" by (simp add: std_exponent_def)
  have mag: "std_magnitude ?body = Some (real ?m / 1000000)"
    unfolding std_magnitude_def tw Let_def using v by (simp add: tf e)
  have strip: "dropWhile is_space_char (fixed6 x) = (if x < 0 then ''-'' else '''') @ ?body"
    using cs by (simp add: fixed6_def c(1) is_space_char_def)
  have hd: "hd ?body = c" "?body \<noteq> []" by (simp_all add: c(1))
  have "std_stod (fixed6 x) = Inr (if x < 0 then - (real ?m / 1000000) else real ?m / 1000000)"
  proof (cases "x < 0")
    case True
    have "std_stod (fixed6 x) = (case std_magnitude ?body of None \<Rightarrow> Inl (Thrown ''std::invalid_argument'')
         | Some v \<Rightarrow> if v \<ge> DBL_LIMIT then Inl (Thrown ''std::out_of_range'') else Inr (- v))"
      using True unfolding std_stod_def strip Let_def
      by (simp only: if_True append_Cons append_Nil list.sel list.distinct simp_thms not_False_eq_True)
    then show ?thesis unfolding mag using lt True by simp
  next
    case False
    have "hd ?body \<noteq> CHR ''-''" "hd ?body \<noteq> CHR ''+''" using cs hd by simp_all
    then have "std_stod (fixed6 x) = (case std_magnitude ?body of None \<Rightarrow> Inl (Thrown ''std::invalid_argument'')
         | Some v \<Rightarrow> if v \<ge> DBL_LIMIT then Inl (Thrown ''std::out_of_range'') else Inr v)"
      using False unfolding std_stod_def strip Let_def by (simp only: if_False append_Nil simp_thms)
    then show ?thesis unfolding mag using lt False by simp
  qed
  moreover have "x = 0 \<Longrightarrow> ?m = 0" by (simp add: micros_def round_even_def)
  ultimately show ?thesis by (cases x "0 :: real" rule: linorder_cases) simp_all
qed

lemma stod_fixed6_close:
  assumes "\<bar>x\<bar> \<le> 2 ^ 1000"
  shows "\<exists>y. std_stod (fixed6 x) = Inr y \<and> \<bar>y - x\<bar> \<le> 1 / 2000000"
proof -
  have "\<bar>sgn x * (real (micros x) / 1000000) - x\<bar> \<le> 1 / 2000000"
  proof (cases x "0 :: real" rule: linorder_cases)
    case less
    then show ?thesis using micros_bound [of x] by (simp add: abs_if field_simps split: if_splits)
  next
    case greater
    then show ?thesis using micros_bound [of x] by (simp add: abs_if field_simps split: if_splits)
  qed simp
  then show ?thesis using stod_fixed6 [OF assms] by blast
qed

section \<open>std::map\<close>

fun om_put :: "'k :: linorder \<Rightarrow> 'v \<Rightarrow> ('k \<times> 'v) list \<Rightarrow> ('k \<times> 'v) list" where
  "om_put k v [] = [(k, v)]"
| "om_put k v ((k', v') # xs) =
     (if k < k' then (k, v) # (k', v') # xs else if k = k' then (k, v) # xs else (k', v') # om_put k v xs)"

definition om_ok :: "('k :: linorder \<times> 'v) list \<Rightarrow> bool" where
  "om_ok xs \<longleftrightarrow> sorted_wrt (<) (map fst xs)"

lemma om_ok_Nil [simp]: "om_ok []"
  by (simp add: om_ok_def)

lemma om_ok_Cons [simp]: "om_ok (x # xs) \<longleftrightarrow> (\<forall>y \<in> set xs. fst x < fst y) \<and> om_ok xs"
  by (simp add: om_ok_def)

lemma map_of_om_put [simp]: "map_of (om_put k v xs) = (map_of xs)(k \<mapsto> v)"
  by (induction k v xs rule: om_put.induct) auto

lemma fst_set_om_put [simp]: "fst ` set (om_put k v xs) = insert k (fst ` set xs)"
  by (induction k v xs rule: om_put.induct) auto

lemma om_put_set_fst: "y \<in> set (om_put k v xs) \<Longrightarrow> fst y = k \<or> y \<in> set xs"
  by (induction k v xs rule: om_put.induct) (auto split: if_splits)

lemma om_put_ok [intro]: "om_ok xs \<Longrightarrow> om_ok (om_put k v xs)"
proof (induction k v xs rule: om_put.induct)
  case (2 k v k' v' xs)
  then show ?case by (auto dest!: om_put_set_fst)
qed simp

lemma om_ok_distinct: "om_ok xs \<Longrightarrow> distinct (map fst xs)"
  by (simp add: om_ok_def strict_sorted_iff)

lemma om_set: "om_ok xs \<Longrightarrow> (k, v) \<in> set xs \<longleftrightarrow> map_of xs k = Some v"
  by (simp add: om_ok_distinct map_of_eq_Some_iff)

lemma om_ok_keys [intro]: "sorted_wrt (<) ks \<Longrightarrow> om_ok (map (\<lambda>k. (k, f k)) ks)"
  by (simp add: om_ok_def o_def)

lemma map_of_keys: "map_of (map (\<lambda>k. (k, f k)) ks) k = (if k \<in> set ks then Some (f k) else None)"
  by (induction ks) auto

lemma om_ext: "om_ok xs \<Longrightarrow> om_ok ys \<Longrightarrow> map_of xs = map_of ys \<Longrightarrow> xs = ys"
proof -
  assume ok: "om_ok xs" "om_ok ys" and eq: "map_of xs = map_of ys"
  have d: "distinct (map fst xs)" "distinct (map fst ys)" using ok by (simp_all add: om_ok_distinct)
  have "set xs = set ys" using ok eq by (auto simp: om_set)
  then have "mset xs = mset ys" using d by (simp add: distinct_map set_eq_iff_mset_eq_distinct)
  then show "xs = ys"
    by (rule sorted_wrt_key_unique [where k = fst]) (use ok d in \<open>simp_all add: om_ok_def strict_sorted_iff sorted_map\<close>)
qed

text \<open>A map given by its lookups is the list of its keys in order with their values.\<close>

lemma om_by_lookup:
  assumes "om_ok m" "finite S" "\<And>k. map_of m k = (if k \<in> S then Some (f k) else None)"
  shows "m = map (\<lambda>k. (k, f k)) (sorted_list_of_set S)"
  by (rule om_ext) (use assms in \<open>auto simp: map_of_keys strict_sorted_iff fun_eq_iff\<close>)

end
