(* ===== verification/Society.thy ===== *)
theory Society
  imports Complex_Main Decimal
begin

text \<open>
  \<open>server/society\<close>: how the agents decide together. \<open>VotingSystem\<close> (proposals and votes),
  \<open>ConsensusEngine\<close> (weighted preferences) and \<open>AgentBus\<close> (messages between agents, whose callbacks run
  while the bus holds its mutex).
\<close>

section \<open>Voting\<close>

datatype VoteOption = YES | NO | ABSTAIN

record Vote =
  vt_vote_id :: u64
  vt_voter :: string
  vt_option :: VoteOption
  vt_reason :: string
  vt_timestamp :: u64

record Proposal =
  pr_proposal_id :: u64
  pr_title :: string
  pr_description :: string
  pr_proposer :: string
  pr_timestamp :: u64
  pr_votes :: "Vote list"

record VotingSystem =
  vs_proposals :: "(u64 \<times> Proposal) list"
  vs_next_proposal_id :: u64

definition vs_new :: VotingSystem where
  "vs_new = \<lparr>vs_proposals = [], vs_next_proposal_id = 1\<rparr>"

definition vs_createProposal :: "u64 \<Rightarrow> string \<Rightarrow> string \<Rightarrow> string \<Rightarrow> VotingSystem \<Rightarrow> u64 \<times> VotingSystem" where
  "vs_createProposal now title description proposer s =
     (let pid = vs_next_proposal_id s;
          p = \<lparr>pr_proposal_id = pid, pr_title = title, pr_description = description, pr_proposer = proposer,
               pr_timestamp = now, pr_votes = []\<rparr>
      in (pid, s\<lparr>vs_next_proposal_id := pid + 1, vs_proposals := AList.update pid p (vs_proposals s)\<rparr>))"

text \<open>\<open>r\<close> is the value of \<open>rand()\<close>.\<close>

definition vs_castVote ::
  "u64 \<Rightarrow> u64 \<Rightarrow> u64 \<Rightarrow> string \<Rightarrow> VoteOption \<Rightarrow> string \<Rightarrow> VotingSystem \<Rightarrow> bool \<times> VotingSystem" where
  "vs_castVote r now pid voter option reason s =
     (case map_of (vs_proposals s) pid of
        None \<Rightarrow> (False, s)
      | Some p \<Rightarrow>
          if \<exists>v \<in> set (pr_votes p). vt_voter v = voter then (False, s)
          else let v = \<lparr>vt_vote_id = r, vt_voter = voter, vt_option = option, vt_reason = reason, vt_timestamp = now\<rparr>
               in (True, s\<lparr>vs_proposals := AList.update pid (p\<lparr>pr_votes := pr_votes p @ [v]\<rparr>) (vs_proposals s)\<rparr>))"

definition vs_getVoteResults :: "u64 \<Rightarrow> VotingSystem \<Rightarrow> VoteOption \<Rightarrow> int" where
  "vs_getVoteResults pid s =
     (case map_of (vs_proposals s) pid of
        None \<Rightarrow> (\<lambda>_. 0)
      | Some p \<Rightarrow> foldl (\<lambda>results v. results(vt_option v := results (vt_option v) + 1)) (\<lambda>_. 0) (pr_votes p))"

definition vs_isProposalPassed :: "u64 \<Rightarrow> VotingSystem \<Rightarrow> bool" where
  "vs_isProposalPassed pid s =
     (let results = vs_getVoteResults pid s;
          yes = results YES; no = results NO; total = yes + no
      in if total = 0 then False else (yes * 100) div total > 50)"

definition vs_getProposal :: "u64 \<Rightarrow> VotingSystem \<Rightarrow> Proposal option" where
  "vs_getProposal pid s = map_of (vs_proposals s) pid"

definition vs_getActiveProposals :: "VotingSystem \<Rightarrow> Proposal list" where
  "vs_getActiveProposals s = map snd (vs_proposals s)"

section \<open>Consensus\<close>

datatype ConsensusResult = CONSENSUS_REACHED | NO_CONSENSUS | DEADLOCK | ABSTAINED

record ConsensusVote =
  cv_agent :: string
  cv_preferred_action :: string
  cv_confidence :: real
  cv_reason :: string

record ConsensusEngine =
  ce_final_decision :: string
  ce_conflicting_agents :: "string list"

definition ce_new :: ConsensusEngine where
  "ce_new = \<lparr>ce_final_decision = [], ce_conflicting_agents = []\<rparr>"

definition ce_score :: "(string \<times> real) list \<Rightarrow> ConsensusVote \<Rightarrow> (string \<times> real) list" where
  "ce_score m v =
     AList.update (cv_preferred_action v)
       ((case map_of m (cv_preferred_action v) of None \<Rightarrow> 0 | Some x \<Rightarrow> x) + cv_confidence v) m"

text \<open>
  \<open>std::sort\<close> on the reverse iterators with \<open>a.second > b.second\<close>: the vector read backwards is sorted
  in descending order.
\<close>

definition ce_sorted_actions :: "ConsensusVote list \<Rightarrow> (string \<times> real) list" where
  "ce_sorted_actions votes = rev (std_sort (\<lambda>a b. snd a > snd b) (rev (foldl ce_score [] votes)))"

text \<open>The proposal, which the code does not read, is left out.\<close>

definition ce_reachConsensus :: "ConsensusVote list \<Rightarrow> ConsensusEngine \<Rightarrow> ConsensusResult \<times> ConsensusEngine" where
  "ce_reachConsensus votes e =
     (if votes = [] then (ABSTAINED, e)
      else let actions = ce_sorted_actions votes in
        if length actions \<ge> 2 \<and> snd (actions ! 0) - snd (actions ! 1) < 1 / 10 then
          (NO_CONSENSUS, e\<lparr>ce_conflicting_agents :=
             map cv_agent (filter (\<lambda>v. cv_preferred_action v \<noteq> fst (actions ! 0)) votes)\<rparr>)
        else (CONSENSUS_REACHED, e\<lparr>ce_final_decision := fst (actions ! 0)\<rparr>))"

definition ce_getFinalDecision :: "ConsensusEngine \<Rightarrow> string" where
  "ce_getFinalDecision e = ce_final_decision e"

definition ce_getConflictingAgents :: "ConsensusEngine \<Rightarrow> string list" where
  "ce_getConflictingAgents e = ce_conflicting_agents e"

section \<open>Messages\<close>

datatype MessageType = REQUEST | RESPONSE | NOTIFICATION | VOTE | PROPOSAL

record AgentMessage =
  am_message_id :: u64
  am_sender :: string
  am_recipient :: string
  am_type :: MessageType
  am_content :: string
  am_timestamp :: u64

text \<open>
  The callbacks are code of the agents: an \<open>agent_callback\<close> only tells them apart. What each of them does
  with a message is given with every call of the bus: it returns, throws, or calls the bus again.
\<close>

type_synonym agent_callback = nat

datatype ab_reaction = Returns | Throws string | CallsBus

type_synonym ab_reactions = "agent_callback \<Rightarrow> AgentMessage \<Rightarrow> ab_reaction"

text \<open>The subscribers are a \<open>std::map\<close>: in the order of their names.\<close>

record AgentBus =
  ab_messages :: "AgentMessage list"
  ab_subscribers :: "(string \<times> agent_callback) list"

definition ab_new :: AgentBus where
  "ab_new = \<lparr>ab_messages = [], ab_subscribers = []\<rparr>"

text \<open>How the call of a callback ends: \<open>None\<close> when it returns.\<close>

definition ab_call :: "ab_reactions \<Rightarrow> agent_callback \<Rightarrow> AgentMessage \<Rightarrow> fault option" where
  "ab_call react cb msg =
     (case react cb msg of Returns \<Rightarrow> None | Throws e \<Rightarrow> Some (Thrown e) | CallsBus \<Rightarrow> Some SelfDeadlock)"

text \<open>
  How an operation ends, what it has handed to which callback, and the bus it leaves. An exception of
  a callback leaves the operation at once; what has been queued and handed over by then stays so.
\<close>

definition ab_sendMessage ::
  "ab_reactions \<Rightarrow> AgentMessage \<Rightarrow> AgentBus \<Rightarrow> fault option \<times> (agent_callback \<times> AgentMessage) list \<times> AgentBus" where
  "ab_sendMessage react msg b =
     (let b1 = b\<lparr>ab_messages := ab_messages b @ [msg]\<rparr> in
      case map_of (ab_subscribers b1) (am_recipient msg) of
        None \<Rightarrow> (None, [], b1)
      | Some cb \<Rightarrow> (ab_call react cb msg, [(cb, msg)], b1))"

fun ab_broadcast_loop ::
  "ab_reactions \<Rightarrow> AgentMessage \<Rightarrow> (string \<times> agent_callback) list \<Rightarrow> AgentBus \<Rightarrow>
   fault option \<times> (agent_callback \<times> AgentMessage) list \<times> AgentBus" where
  "ab_broadcast_loop react msg [] b = (None, [], b)"
| "ab_broadcast_loop react msg ((name, cb) # subs) b =
     (let m = msg\<lparr>am_recipient := name\<rparr>; b1 = b\<lparr>ab_messages := ab_messages b @ [m]\<rparr> in
      case ab_call react cb m of
        Some e \<Rightarrow> (Some e, [(cb, m)], b1)
      | None \<Rightarrow> (case ab_broadcast_loop react msg subs b1 of (e, ds, b2) \<Rightarrow> (e, (cb, m) # ds, b2)))"

definition ab_broadcastMessage ::
  "ab_reactions \<Rightarrow> AgentMessage \<Rightarrow> AgentBus \<Rightarrow> fault option \<times> (agent_callback \<times> AgentMessage) list \<times> AgentBus" where
  "ab_broadcastMessage react msg b = ab_broadcast_loop react msg (ab_subscribers b) b"

definition ab_getMessagesFor :: "string \<Rightarrow> AgentBus \<Rightarrow> AgentMessage list" where
  "ab_getMessagesFor recipient b = filter (\<lambda>m. am_recipient m = recipient) (ab_messages b)"

definition ab_subscribe :: "string \<Rightarrow> agent_callback \<Rightarrow> AgentBus \<Rightarrow> AgentBus" where
  "ab_subscribe name cb b = b\<lparr>ab_subscribers := om_put name cb (ab_subscribers b)\<rparr>"

definition ab_unsubscribe :: "string \<Rightarrow> AgentBus \<Rightarrow> AgentBus" where
  "ab_unsubscribe name b = b\<lparr>ab_subscribers := filter (\<lambda>s. fst s \<noteq> name) (ab_subscribers b)\<rparr>"

section \<open>Who wins a vote\<close>

type_synonym ballot = "u64 \<times> u64 \<times> string \<times> VoteOption \<times> string"

definition vs_casts :: "u64 \<Rightarrow> ballot list \<Rightarrow> VotingSystem \<Rightarrow> VotingSystem" where
  "vs_casts pid bs s =
     foldl (\<lambda>s (r, now, voter, option, reason). snd (vs_castVote r now pid voter option reason s)) s bs"

definition ballot_choice :: "ballot \<Rightarrow> string \<times> VoteOption" where
  "ballot_choice b = (case b of (r, now, voter, option, reason) \<Rightarrow> (voter, option))"

definition vote_choice :: "Vote \<Rightarrow> string \<times> VoteOption" where
  "vote_choice v = (vt_voter v, vt_option v)"

text \<open>The voters whose first ballot is the given option.\<close>

definition first_choices :: "VoteOption \<Rightarrow> ballot list \<Rightarrow> string set" where
  "first_choices opt bs = {v. map_of (map ballot_choice bs) v = Some opt}"

lemma map_of_snoc:
  "map_of (xs @ [(k, v)]) = (if map_of xs k = None then (map_of xs)(k \<mapsto> v) else map_of xs)"
  by (auto simp: fun_eq_iff map_add_def split: option.split)

lemma vs_casts_votes:
  assumes "map_of (vs_proposals s) pid = Some p" "pr_votes p = []"
  shows "\<exists>p'. map_of (vs_proposals (vs_casts pid bs s)) pid = Some p' \<and>
    distinct (map fst (map vote_choice (pr_votes p'))) \<and>
    map_of (map vote_choice (pr_votes p')) = map_of (map ballot_choice bs)"
proof (induction bs rule: rev_induct)
  case Nil
  then show ?case using assms by (simp add: vs_casts_def)
next
  case (snoc b bs)
  obtain r now voter opt reason where b: "b = (r, now, voter, opt, reason)" by (metis prod_cases5)
  obtain p' where p': "map_of (vs_proposals (vs_casts pid bs s)) pid = Some p'"
    "distinct (map fst (map vote_choice (pr_votes p')))"
    "map_of (map vote_choice (pr_votes p')) = map_of (map ballot_choice bs)" using snoc by blast
  have step: "vs_casts pid (bs @ [b]) s = snd (vs_castVote r now pid voter opt reason (vs_casts pid bs s))"
    by (simp add: vs_casts_def b)
  have voted: "(\<exists>v \<in> set (pr_votes p'). vt_voter v = voter) \<longleftrightarrow> voter \<in> dom (map_of (map ballot_choice bs))"
    unfolding p'(3) [symmetric] by (auto simp: dom_map_of_conv_image_fst vote_choice_def image_iff)
  have bc: "map ballot_choice (bs @ [b]) = map ballot_choice bs @ [(voter, opt)]"
    by (simp add: b ballot_choice_def)
  show ?case
  proof (cases "\<exists>v \<in> set (pr_votes p'). vt_voter v = voter")
    case True
    then have "map_of (map ballot_choice bs) voter \<noteq> None" using voted by blast
    then have "map_of (map ballot_choice (bs @ [b])) = map_of (map ballot_choice bs)"
      unfolding bc map_of_snoc by (rule if_not_P)
    then show ?thesis using p' True unfolding step by (auto simp: vs_castVote_def)
  next
    case False
    then have none: "map_of (map ballot_choice bs) voter = None" using voted by blast
    let ?v = "\<lparr>vt_vote_id = r, vt_voter = voter, vt_option = opt, vt_reason = reason, vt_timestamp = now\<rparr>"
    let ?p = "p'\<lparr>pr_votes := pr_votes p' @ [?v]\<rparr>"
    have "map_of (vs_proposals (vs_casts pid (bs @ [b]) s)) pid = Some ?p"
      using False p'(1) unfolding step by (auto simp: vs_castVote_def Let_def update_conv')
    moreover have vc: "map vote_choice (pr_votes ?p) = map vote_choice (pr_votes p') @ [(voter, opt)]"
      by (simp add: vote_choice_def)
    have "map_of (map vote_choice (pr_votes ?p)) = map_of (map ballot_choice (bs @ [b]))"
      unfolding vc bc map_of_snoc p'(3) ..
    moreover have "distinct (map fst (map vote_choice (pr_votes ?p)))"
      using p'(2) False unfolding vc by (auto simp: vote_choice_def)
    ultimately show ?thesis by blast
  qed
qed

lemma vs_count_votes:
  "foldl (\<lambda>results v. results(vt_option v := results (vt_option v) + 1)) f votes opt =
   f opt + int (length (filter (\<lambda>v. vt_option v = opt) votes))"
  by (induction votes arbitrary: f) auto

lemma vs_count_choices:
  assumes "distinct (map fst (map vote_choice votes))"
  shows "length (filter (\<lambda>v. vt_option v = opt) votes) = card {v. map_of (map vote_choice votes) v = Some opt}"
proof -
  have "{v. map_of (map vote_choice votes) v = Some opt} = vt_voter ` set (filter (\<lambda>v. vt_option v = opt) votes)"
    using assms by (auto simp: vote_choice_def image_iff)
  also have "card \<dots> = length (map vt_voter (filter (\<lambda>v. vt_option v = opt) votes))"
    using assms by (subst set_map [symmetric], intro distinct_card)
      (simp add: vote_choice_def o_def distinct_map_filter)
  finally show ?thesis by simp
qed

text \<open>C21: When a proposal passes. However often the agents vote on a new proposal, each one counts once, with the
  first vote it casts, abstentions do not count, and the proposal has passed iff some agent said
  yes and at least 51 percent of the yes and no votes are yes: because the percentage is rounded
  down, a majority between 50 and 51 percent is rejected.\<close>

theorem vs_passed_exact:
  assumes "vs_createProposal now title description proposer s = (pid, s')"
  shows "vs_isProposalPassed pid (vs_casts pid bs s') \<longleftrightarrow>
    0 < card (first_choices YES bs) \<and> 51 * card (first_choices NO bs) \<le> 49 * card (first_choices YES bs)"
proof -
  have "\<exists>p. map_of (vs_proposals s') pid = Some p \<and> pr_votes p = []"
    using assms by (auto simp: vs_createProposal_def Let_def update_conv')
  then obtain p' where p': "map_of (vs_proposals (vs_casts pid bs s')) pid = Some p'"
    "distinct (map fst (map vote_choice (pr_votes p')))"
    "map_of (map vote_choice (pr_votes p')) = map_of (map ballot_choice bs)"
    using vs_casts_votes by blast
  let ?y = "card (first_choices YES bs)" and ?n = "card (first_choices NO bs)"
  have "vs_getVoteResults pid (vs_casts pid bs s') opt = int (card (first_choices opt bs))" for opt
    using vs_count_choices [OF p'(2), of opt] unfolding p'(3)
    by (simp add: vs_getVoteResults_def p'(1) vs_count_votes first_choices_def)
  then have "vs_isProposalPassed pid (vs_casts pid bs s') \<longleftrightarrow>
      int ?y + int ?n \<noteq> 0 \<and> 51 \<le> (int ?y * 100) div (int ?y + int ?n)"
    by (auto simp: vs_isProposalPassed_def Let_def)
  also have "\<dots> \<longleftrightarrow> ?y + ?n \<noteq> 0 \<and> 51 \<le> (?y * 100) div (?y + ?n)"
  proof -
    have "(int ?y * 100) div (int ?y + int ?n) = int ((?y * 100) div (?y + ?n))" by (simp add: zdiv_int)
    then show ?thesis by linarith
  qed
  also have "\<dots> \<longleftrightarrow> ?y + ?n \<noteq> 0 \<and> 51 * (?y + ?n) \<le> ?y * 100"
    using less_eq_div_iff_mult_less_eq [of "?y + ?n" 51 "?y * 100"] by auto
  also have "\<dots> \<longleftrightarrow> 0 < ?y \<and> 51 * ?n \<le> 49 * ?y" by (cases "?y = 0") auto
  finally show ?thesis .
qed

lemma vs_passed_exact_witness:
  "\<not> vs_isProposalPassed 1 (vs_casts 1 [(7, 0, ''a'', YES, []), (8, 0, ''b'', NO, []), (9, 0, ''b'', YES, [])]
     (snd (vs_createProposal 0 ''t'' [] ''a'' vs_new)))"
proof -
  let ?bs = "[(7, 0, ''a'', YES, []), (8, 0, ''b'', NO, []), (9, 0, ''b'', YES, [])] :: ballot list"
  have e: "vs_createProposal 0 ''t'' [] ''a'' vs_new = (1, snd (vs_createProposal 0 ''t'' [] ''a'' vs_new))"
    by (simp add: vs_createProposal_def vs_new_def Let_def)
  have "first_choices YES ?bs = {''a''}" "first_choices NO ?bs = {''b''}"
    by (auto simp: first_choices_def ballot_choice_def)
  then show ?thesis using vs_passed_exact [OF e, of ?bs] by simp
qed

section \<open>What consensus means\<close>

definition action_score :: "ConsensusVote list \<Rightarrow> string \<Rightarrow> real" where
  "action_score votes a = sum_list (map cv_confidence (filter (\<lambda>v. cv_preferred_action v = a) votes))"

lemma ce_scores:
  "map_of (foldl ce_score [] votes) a =
     (if a \<in> cv_preferred_action ` set votes then Some (action_score votes a) else None) \<and>
   distinct (map fst (foldl ce_score [] votes))"
proof (induction votes arbitrary: a rule: rev_induct)
  case Nil
  then show ?case by simp
next
  case (snoc v votes)
  have zero: "action_score votes b = 0" if "b \<notin> cv_preferred_action ` set votes" for b
  proof -
    have "filter (\<lambda>v. cv_preferred_action v = b) votes = []" using that by (auto simp: filter_empty_conv)
    then show ?thesis by (simp add: action_score_def)
  qed
  show ?case using snoc zero
    by (auto simp: ce_score_def update_conv' action_score_def distinct_update image_iff)
qed

lemma ce_sorted_facts:
  "set (map fst (ce_sorted_actions votes)) = cv_preferred_action ` set votes \<and>
   distinct (map fst (ce_sorted_actions votes)) \<and>
   (\<forall>(a, x) \<in> set (ce_sorted_actions votes). x = action_score votes a) \<and>
   sorted_wrt (\<lambda>a b. snd a \<le> snd b) (ce_sorted_actions votes)"
proof -
  let ?m = "foldl ce_score [] votes"
  have ms: "mset (ce_sorted_actions votes) = mset ?m" by (simp add: ce_sorted_actions_def)
  then have set: "set (ce_sorted_actions votes) = set ?m" by (metis set_mset_mset)
  have dm: "distinct (map fst ?m)" using ce_scores by blast
  have "dom (map_of ?m) = cv_preferred_action ` set votes" using ce_scores [of votes] by (auto split: if_splits)
  then have keys: "set (map fst (ce_sorted_actions votes)) = cv_preferred_action ` set votes"
    by (simp add: set dom_map_of_conv_image_fst)
  have dis: "distinct (map fst (ce_sorted_actions votes))"
    using dm ms by (metis mset_map mset_eq_imp_distinct_iff)
  have "x = action_score votes a" if "(a, x) \<in> set (ce_sorted_actions votes)" for a x
  proof -
    have "map_of ?m a = Some x" using that set dm by simp
    then show ?thesis using ce_scores [of votes a] by (auto split: if_splits)
  qed
  moreover have "sorted_wrt (\<lambda>a b. \<not> snd b > snd a) (std_sort (\<lambda>a b. snd a > snd b) (rev ?m))"
    by (rule sorted_std_sort) auto
  then have "sorted_wrt (\<lambda>a b. snd a \<le> snd b) (ce_sorted_actions votes)"
    by (simp add: ce_sorted_actions_def sorted_wrt_rev not_less)
  ultimately show ?thesis using keys dis by blast
qed

text \<open>Consensus is unanimity. Because the scores are sorted in ascending order, the best two actions are never
  compared: consensus is reached iff all votes prefer one action, whatever the confidences; as soon
  as two actions are preferred there is none, however large the lead, and the agents reported as conflicting
  are those that do not prefer one of the actions with the lowest score. The final decision changes
  only on unanimous votes.\<close>

theorem ce_consensus_exact:
  "(votes = [] \<longrightarrow> ce_reachConsensus votes e = (ABSTAINED, e)) \<and>
   (\<forall>a. cv_preferred_action ` set votes = {a} \<longrightarrow>
      ce_reachConsensus votes e = (CONSENSUS_REACHED, e\<lparr>ce_final_decision := a\<rparr>)) \<and>
   (1 < card (cv_preferred_action ` set votes) \<longrightarrow>
      (\<exists>a \<in> cv_preferred_action ` set votes.
         (\<forall>b \<in> cv_preferred_action ` set votes. action_score votes a \<le> action_score votes b) \<and>
         ce_reachConsensus votes e =
           (NO_CONSENSUS, e\<lparr>ce_conflicting_agents := map cv_agent (filter (\<lambda>v. cv_preferred_action v \<noteq> a) votes)\<rparr>)))"
proof (intro conjI allI impI)
  show "votes = [] \<Longrightarrow> ce_reachConsensus votes e = (ABSTAINED, e)" by (simp add: ce_reachConsensus_def)
next
  fix a
  assume one: "cv_preferred_action ` set votes = {a}"
  note fs = ce_sorted_facts [of votes]
  have "length (ce_sorted_actions votes) = 1"
    using fs one distinct_card [of "map fst (ce_sorted_actions votes)"] by simp
  then obtain x where x: "ce_sorted_actions votes = [x]" by (auto simp: length_Suc_conv)
  then have "fst x = a" using fs one by simp
  with x one show "ce_reachConsensus votes e = (CONSENSUS_REACHED, e\<lparr>ce_final_decision := a\<rparr>)"
    by (auto simp: ce_reachConsensus_def)
next
  assume two: "1 < card (cv_preferred_action ` set votes)"
  note fs = ce_sorted_facts [of votes]
  have "1 < length (ce_sorted_actions votes)"
    using fs two distinct_card [of "map fst (ce_sorted_actions votes)"] by simp
  then obtain x y zs where xs: "ce_sorted_actions votes = x # y # zs"
    by (metis One_nat_def Suc_less_eq length_Cons less_nat_zero_code list.exhaust list.size(3) not_less_eq)
  have low: "snd x \<le> snd z" if "z \<in> set (ce_sorted_actions votes)" for z
    using fs that unfolding xs by auto
  have score: "snd z = action_score votes (fst z)" if "z \<in> set (ce_sorted_actions votes)" for z
    using fs that by (cases z) auto
  have min: "action_score votes (fst x) \<le> action_score votes b" if "b \<in> cv_preferred_action ` set votes" for b
  proof -
    have "b \<in> set (map fst (ce_sorted_actions votes))" using fs that by blast
    then obtain z where "z \<in> set (ce_sorted_actions votes)" "b = fst z" by auto
    then show ?thesis using low score score [of x] xs by auto
  qed
  have "fst x \<in> cv_preferred_action ` set votes" using fs unfolding xs by auto
  moreover have "votes \<noteq> []" using two by auto
  moreover have "snd x - snd y < 1 / 10" using low [of y] by (simp add: xs)
  ultimately show "\<exists>a \<in> cv_preferred_action ` set votes.
         (\<forall>b \<in> cv_preferred_action ` set votes. action_score votes a \<le> action_score votes b) \<and>
         ce_reachConsensus votes e =
           (NO_CONSENSUS, e\<lparr>ce_conflicting_agents := map cv_agent (filter (\<lambda>v. cv_preferred_action v \<noteq> a) votes)\<rparr>)"
    using min by (intro bexI [of _ "fst x"]) (simp_all add: ce_reachConsensus_def xs)
qed

definition cv_of :: "string \<Rightarrow> string \<Rightarrow> real \<Rightarrow> ConsensusVote" where
  "cv_of agent action c = \<lparr>cv_agent = agent, cv_preferred_action = action, cv_confidence = c, cv_reason = []\<rparr>"

lemma ce_consensus_exact_witness:
  "fst (ce_reachConsensus [cv_of ''a1'' ''stop'' 1, cv_of ''a2'' ''stop'' 1, cv_of ''a3'' ''go'' 0] ce_new) =
     NO_CONSENSUS \<and>
   ce_reachConsensus [cv_of ''a1'' ''go'' 0] ce_new = (CONSENSUS_REACHED, ce_new\<lparr>ce_final_decision := ''go''\<rparr>)"
  using ce_consensus_exact [of "[cv_of ''a1'' ''stop'' 1, cv_of ''a2'' ''stop'' 1, cv_of ''a3'' ''go'' 0]" ce_new]
    ce_consensus_exact [of "[cv_of ''a1'' ''go'' 0]" ce_new]
  by (auto simp: cv_of_def card_insert_if)

section \<open>Mailboxes\<close>

text \<open>The calls of the bus; those that run callbacks come with what the callbacks do.\<close>

datatype ab_op =
    Send ab_reactions AgentMessage
  | Broadcast ab_reactions AgentMessage
  | Subscribe string agent_callback
  | Unsubscribe string

fun ab_step :: "ab_op \<Rightarrow> AgentBus \<Rightarrow> fault option \<times> (agent_callback \<times> AgentMessage) list \<times> AgentBus" where
  "ab_step (Send react m) b = ab_sendMessage react m b"
| "ab_step (Broadcast react m) b = ab_broadcastMessage react m b"
| "ab_step (Subscribe n cb) b = (None, [], ab_subscribe n cb b)"
| "ab_step (Unsubscribe n) b = (None, [], ab_unsubscribe n b)"

text \<open>
  A session: how each call ended, everything handed to callbacks, in order, and the final bus. After an
  exception the bus can be used again; after a deadlock its mutex is held for ever and nothing follows.
\<close>

fun ab_session ::
  "ab_op list \<Rightarrow> AgentBus \<Rightarrow> fault option list \<times> (agent_callback \<times> AgentMessage) list \<times> AgentBus" where
  "ab_session [] b = ([], [], b)"
| "ab_session (x # xs) b =
     (case ab_step x b of (e, ds, b1) \<Rightarrow>
        if e = Some SelfDeadlock then ([e], ds, b1)
        else (case ab_session xs b1 of (es, ds', b2) \<Rightarrow> (e # es, ds @ ds', b2)))"

text \<open>No callback calls the bus.\<close>

fun ab_no_reentry :: "ab_op \<Rightarrow> bool" where
  "ab_no_reentry (Send react m) = (\<forall>cb m'. react cb m' \<noteq> CallsBus)"
| "ab_no_reentry (Broadcast react m) = (\<forall>cb m'. react cb m' \<noteq> CallsBus)"
| "ab_no_reentry _ = True"

text \<open>
  The specification, from the subscriptions \<open>S\<close>. A broadcast reaches a subscriber when the callbacks
  of all subscribers with smaller names return.
\<close>

definition ab_reaches ::
  "ab_reactions \<Rightarrow> (string \<rightharpoonup> agent_callback) \<Rightarrow> AgentMessage \<Rightarrow> string \<Rightarrow> bool" where
  "ab_reaches react S m r \<longleftrightarrow> r \<in> dom S \<and>
     (\<forall>n cb. n < r \<and> S n = Some cb \<longrightarrow> ab_call react cb (m\<lparr>am_recipient := n\<rparr>) = None)"

text \<open>For one recipient: the messages in its mailbox, and what is handed to callbacks for it.\<close>

fun ab_mail ::
  "string \<Rightarrow> (string \<rightharpoonup> agent_callback) \<Rightarrow> ab_op list \<Rightarrow>
   AgentMessage list \<times> (agent_callback \<times> AgentMessage) list" where
  "ab_mail r S [] = ([], [])"
| "ab_mail r S (Send react m # xs) = (case ab_mail r S xs of (box, got) \<Rightarrow>
     if am_recipient m = r
     then (m # box, (case S r of None \<Rightarrow> got | Some cb \<Rightarrow> (cb, m) # got)) else (box, got))"
| "ab_mail r S (Broadcast react m # xs) = (case ab_mail r S xs of (box, got) \<Rightarrow>
     if ab_reaches react S m r
     then (m\<lparr>am_recipient := r\<rparr> # box, (the (S r), m\<lparr>am_recipient := r\<rparr>) # got) else (box, got))"
| "ab_mail r S (Subscribe n cb # xs) = ab_mail r (S(n \<mapsto> cb)) xs"
| "ab_mail r S (Unsubscribe n # xs) = ab_mail r (S(n := None)) xs"

text \<open>Which calls return: those none of whose callbacks throws.\<close>

fun ab_returns :: "(string \<rightharpoonup> agent_callback) \<Rightarrow> ab_op list \<Rightarrow> bool list" where
  "ab_returns S [] = []"
| "ab_returns S (Send react m # xs) =
     (\<forall>cb. S (am_recipient m) = Some cb \<longrightarrow> ab_call react cb m = None) # ab_returns S xs"
| "ab_returns S (Broadcast react m # xs) =
     (\<forall>n cb. S n = Some cb \<longrightarrow> ab_call react cb (m\<lparr>am_recipient := n\<rparr>) = None) # ab_returns S xs"
| "ab_returns S (Subscribe n cb # xs) = True # ab_returns (S(n \<mapsto> cb)) xs"
| "ab_returns S (Unsubscribe n # xs) = True # ab_returns (S(n := None)) xs"

lemma ab_reaches_Cons:
  assumes "om_ok ((name, cb) # subs)"
  shows "ab_reaches react (map_of ((name, cb) # subs)) m r \<longleftrightarrow>
    r = name \<or> ab_call react cb (m\<lparr>am_recipient := name\<rparr>) = None \<and> ab_reaches react (map_of subs) m r"
proof -
  have late: "name < n" if "map_of subs n = Some c" for n c
    using assms map_of_SomeD [OF that] by fastforce
  then have notin: "map_of subs name = None" using late [of name] by (cases "map_of subs name") auto
  show ?thesis
  proof (cases "r = name")
    case True
    have "\<not> n < name" if "map_of ((name, cb) # subs) n = Some c" for n c
      using that late [of n c] by (auto split: if_splits)
    then show ?thesis using True by (auto simp: ab_reaches_def)
  next
    case False
    then show ?thesis using late notin unfolding ab_reaches_def by (fastforce split: if_splits)
  qed
qed

lemma ab_call_no_reentry: "\<forall>cb m'. react cb m' \<noteq> CallsBus \<Longrightarrow> ab_call react cb m \<noteq> Some SelfDeadlock"
  by (auto simp: ab_call_def split: ab_reaction.split)

lemma ab_broadcast_loop_facts:
  assumes "\<forall>cb m'. react cb m' \<noteq> CallsBus" "om_ok subs"
  shows "\<exists>e ds b' new. ab_broadcast_loop react m subs b = (e, ds, b') \<and> e \<noteq> Some SelfDeadlock \<and>
     ab_subscribers b' = ab_subscribers b \<and> ab_messages b' = ab_messages b @ new \<and>
     filter (\<lambda>x. am_recipient x = r) new =
       (if ab_reaches react (map_of subs) m r then [m\<lparr>am_recipient := r\<rparr>] else []) \<and>
     filter (\<lambda>d. am_recipient (snd d) = r) ds =
       (if ab_reaches react (map_of subs) m r then [(the (map_of subs r), m\<lparr>am_recipient := r\<rparr>)] else []) \<and>
     (e = None \<longleftrightarrow> (\<forall>n cb. map_of subs n = Some cb \<longrightarrow> ab_call react cb (m\<lparr>am_recipient := n\<rparr>) = None))"
  using assms(2)
proof (induction subs arbitrary: b)
  case Nil
  then show ?case by (simp add: ab_reaches_def)
next
  case (Cons s subs)
  obtain name cb where s: "s = (name, cb)" by (cases s)
  let ?m = "m\<lparr>am_recipient := name\<rparr>"
  note reach = ab_reaches_Cons [OF Cons.prems [unfolded s], of react m r]
  have late: "name < n" if "map_of subs n = Some c" for n c
    using Cons.prems map_of_SomeD [OF that] by (fastforce simp: s)
  then have notin: "map_of subs name = None" using late [of name] by (cases "map_of subs name") auto
  have ok: "om_ok subs" using Cons.prems by simp
  have b1: "ab_subscribers (b\<lparr>ab_messages := ms\<rparr>) = ab_subscribers b"
    "ab_messages (b\<lparr>ab_messages := ms\<rparr>) = ms" for ms by simp_all
  show ?case
  proof (cases "ab_call react cb ?m")
    case None
    obtain e ds b' new where ih: "ab_broadcast_loop react m subs (b\<lparr>ab_messages := ab_messages b @ [?m]\<rparr>) = (e, ds, b')"
      "e \<noteq> Some SelfDeadlock" "ab_subscribers b' = ab_subscribers b" "ab_messages b' = (ab_messages b @ [?m]) @ new"
      "filter (\<lambda>x. am_recipient x = r) new =
        (if ab_reaches react (map_of subs) m r then [m\<lparr>am_recipient := r\<rparr>] else [])"
      "filter (\<lambda>d. am_recipient (snd d) = r) ds =
        (if ab_reaches react (map_of subs) m r then [(the (map_of subs r), m\<lparr>am_recipient := r\<rparr>)] else [])"
      "e = None \<longleftrightarrow> (\<forall>n cb. map_of subs n = Some cb \<longrightarrow> ab_call react cb (m\<lparr>am_recipient := n\<rparr>) = None)"
      using Cons.IH [OF ok, of "b\<lparr>ab_messages := ab_messages b @ [?m]\<rparr>"] unfolding b1 by blast
    have "ab_broadcast_loop react m (s # subs) b = (e, (cb, ?m) # ds, b')"
      by (simp add: s Let_def None ih(1))
    moreover have "\<not> ab_reaches react (map_of subs) m name" using notin by (auto simp: ab_reaches_def)
    moreover have "e = None \<longleftrightarrow>
        (\<forall>n c. map_of (s # subs) n = Some c \<longrightarrow> ab_call react c (m\<lparr>am_recipient := n\<rparr>) = None)"
      unfolding ih(7) using None notin by (simp add: s) (metis option.distinct(1))
    moreover have "ab_reaches react (map_of (s # subs)) m r \<longleftrightarrow> r = name \<or> ab_reaches react (map_of subs) m r"
      using reach None by (simp add: s del: map_of.simps)
    moreover have "map_of (s # subs) r = (if r = name then Some cb else map_of subs r)" by (simp add: s)
    ultimately show ?thesis
      using ih(2-6)
      by (intro exI [of _ e] exI [of _ "(cb, ?m) # ds"] exI [of _ b'] exI [of _ "?m # new"])
        (auto simp del: map_of.simps ab_broadcast_loop.simps)
  next
    case (Some e)
    then have "e \<noteq> SelfDeadlock" using ab_call_no_reentry [OF assms(1), of cb ?m] by auto
    moreover have "ab_broadcast_loop react m (s # subs) b = (Some e, [(cb, ?m)], b\<lparr>ab_messages := ab_messages b @ [?m]\<rparr>)"
      by (simp add: s Let_def Some)
    moreover have "ab_reaches react (map_of (s # subs)) m r \<longleftrightarrow> r = name"
      using reach Some by (simp add: s del: map_of.simps)
    moreover have look: "map_of (s # subs) name = Some cb" by (simp add: s)
    moreover have "\<not> (\<forall>n c. map_of (s # subs) n = Some c \<longrightarrow> ab_call react c (m\<lparr>am_recipient := n\<rparr>) = None)"
      using look Some by (metis option.distinct(1))
    ultimately show ?thesis by (auto simp del: map_of.simps ab_broadcast_loop.simps)
  qed
qed

lemma map_of_without: "map_of (filter (\<lambda>s. fst s \<noteq> n) m) = (map_of m)(n := None)"
  by (induction m) auto

text \<open>One call, for the recipient \<open>r\<close>: what the session that begins with it adds to the rest.\<close>

lemma ab_step_mail:
  assumes "om_ok (ab_subscribers b)" "ab_no_reentry x"
  shows "\<exists>e ds b' new. ab_step x b = (e, ds, b') \<and> e \<noteq> Some SelfDeadlock \<and> om_ok (ab_subscribers b') \<and>
    ab_messages b' = ab_messages b @ new \<and>
    (\<forall>xs. ab_mail r (map_of (ab_subscribers b)) (x # xs) =
       (case ab_mail r (map_of (ab_subscribers b')) xs of (box, got) \<Rightarrow>
          (filter (\<lambda>m. am_recipient m = r) new @ box, filter (\<lambda>d. am_recipient (snd d) = r) ds @ got)) \<and>
     ab_returns (map_of (ab_subscribers b)) (x # xs) = (e = None) # ab_returns (map_of (ab_subscribers b')) xs)"
proof (cases x)
  case (Send react m)
  with assms ab_call_no_reentry [of react] show ?thesis
    by (auto simp: ab_sendMessage_def Let_def split: option.split prod.split)
next
  case (Broadcast react m)
  then have "\<forall>cb m'. react cb m' \<noteq> CallsBus" using assms(2) by simp
  from ab_broadcast_loop_facts [OF this assms(1), of m b r] obtain e ds b' new where
    "ab_broadcast_loop react m (ab_subscribers b) b = (e, ds, b')" "e \<noteq> Some SelfDeadlock"
    "ab_subscribers b' = ab_subscribers b" "ab_messages b' = ab_messages b @ new"
    "filter (\<lambda>x. am_recipient x = r) new =
       (if ab_reaches react (map_of (ab_subscribers b)) m r then [m\<lparr>am_recipient := r\<rparr>] else [])"
    "filter (\<lambda>d. am_recipient (snd d) = r) ds =
       (if ab_reaches react (map_of (ab_subscribers b)) m r
        then [(the (map_of (ab_subscribers b) r), m\<lparr>am_recipient := r\<rparr>)] else [])"
    "e = None \<longleftrightarrow> (\<forall>n cb. map_of (ab_subscribers b) n = Some cb \<longrightarrow>
       ab_call react cb (m\<lparr>am_recipient := n\<rparr>) = None)"
    by blast
  then show ?thesis using assms(1)
    by (intro exI [of _ e] exI [of _ ds] exI [of _ b'] exI [of _ new])
      (simp add: Broadcast ab_broadcastMessage_def split: prod.split)
next
  case (Subscribe n cb)
  with assms(1) show ?thesis by (auto simp: ab_subscribe_def split: prod.split)
next
  case (Unsubscribe n)
  moreover have "om_ok (filter (\<lambda>s. fst s \<noteq> n) (ab_subscribers b))"
    using assms(1) by (simp add: om_ok_def sorted_wrt_map sorted_wrt_filter)
  ultimately show ?thesis by (auto simp: ab_unsubscribe_def map_of_without split: prod.split)
qed

lemma ab_session_mail:
  assumes "om_ok (ab_subscribers b)" "\<forall>x \<in> set ops. ab_no_reentry x"
  shows "\<exists>es ds b' new. ab_session ops b = (es, ds, b') \<and> Some SelfDeadlock \<notin> set es \<and>
    map (\<lambda>e. e = None) es = ab_returns (map_of (ab_subscribers b)) ops \<and>
    ab_messages b' = ab_messages b @ new \<and>
    ab_mail r (map_of (ab_subscribers b)) ops =
      (filter (\<lambda>m. am_recipient m = r) new, filter (\<lambda>d. am_recipient (snd d) = r) ds)"
  using assms
proof (induction ops arbitrary: b)
  case Nil
  then show ?case by simp
next
  case (Cons x xs)
  obtain e ds b1 new where st: "ab_step x b = (e, ds, b1)" "e \<noteq> Some SelfDeadlock" "om_ok (ab_subscribers b1)"
    "ab_messages b1 = ab_messages b @ new"
    "ab_mail r (map_of (ab_subscribers b)) (x # xs) =
       (case ab_mail r (map_of (ab_subscribers b1)) xs of (box, got) \<Rightarrow>
          (filter (\<lambda>m. am_recipient m = r) new @ box, filter (\<lambda>d. am_recipient (snd d) = r) ds @ got))"
    "ab_returns (map_of (ab_subscribers b)) (x # xs) = (e = None) # ab_returns (map_of (ab_subscribers b1)) xs"
    using ab_step_mail [OF Cons.prems(1), of x r] Cons.prems(2) by auto
  obtain es ds' b2 new' where ih: "ab_session xs b1 = (es, ds', b2)" "Some SelfDeadlock \<notin> set es"
    "map (\<lambda>e. e = None) es = ab_returns (map_of (ab_subscribers b1)) xs"
    "ab_messages b2 = ab_messages b1 @ new'"
    "ab_mail r (map_of (ab_subscribers b1)) xs =
      (filter (\<lambda>m. am_recipient m = r) new', filter (\<lambda>d. am_recipient (snd d) = r) ds')"
    using Cons.IH [OF st(3)] Cons.prems(2) by auto
  have "ab_session (x # xs) b = (e # es, ds @ ds', b2)" using st(1,2) ih(1) by simp
  with st(2,4,5,6) ih(2-5) show ?case
    by (intro exI [of _ "e # es"] exI [of _ "ds @ ds'"] exI [of _ b2] exI [of _ "new @ new'"]) simp
qed

text \<open>C18: The bus delivers like a set of mailboxes, callbacks that throw included. As long as no callback calls
  the bus, no session of sends, broadcasts, subscriptions and unsubscriptions from an empty bus ever
  gets stuck, and exactly those calls return that run no callback that throws. For every agent the mailbox
  holds, in order, exactly the messages sent to it (subscribed or not) and the broadcasts that reached it:
  those made while it was subscribed and cut short by no subscriber with a smaller name. Its callback,
  the last one it subscribed, is handed exactly those of them that came while it was subscribed.\<close>

theorem ab_mailboxes:
  assumes "\<forall>x \<in> set ops. ab_no_reentry x"
  shows "case ab_session ops ab_new of (es, ds, b) \<Rightarrow>
    Some SelfDeadlock \<notin> set es \<and> map (\<lambda>e. e = None) es = ab_returns (\<lambda>_. None) ops \<and>
    (ab_getMessagesFor r b, filter (\<lambda>d. am_recipient (snd d) = r) ds) = ab_mail r (\<lambda>_. None) ops"
  using ab_session_mail [of ab_new ops r] assms
  by (auto simp: ab_new_def ab_getMessagesFor_def)

definition am_to :: "string \<Rightarrow> string \<Rightarrow> AgentMessage" where
  "am_to r c = \<lparr>am_message_id = 1, am_sender = ''s'', am_recipient = r, am_type = NOTIFICATION, am_content = c,
     am_timestamp = 0\<rparr>"

text \<open>The callback of \<open>b\<close>, number 1, throws on the broadcast: \<open>a\<close> gets it, \<open>c\<close> does not.\<close>

definition ab_example :: "ab_op list" where
  "ab_example = [Send (\<lambda>_ _. Returns) (am_to ''a'' ''early''), Subscribe ''c'' 2, Subscribe ''a'' 0, Subscribe ''b'' 1,
     Broadcast (\<lambda>cb _. if cb = 1 then Throws ''bad'' else Returns) (am_to [] ''all'')]"

lemma ab_mailboxes_witness:
  "case ab_session ab_example ab_new of (es, ds, b) \<Rightarrow>
     map (\<lambda>e. e = None) es = [True, True, True, True, False] \<and>
     ab_getMessagesFor ''a'' b = [am_to ''a'' ''early'', am_to ''a'' ''all''] \<and>
     ab_getMessagesFor ''b'' b = [am_to ''b'' ''all''] \<and> ab_getMessagesFor ''c'' b = []"
proof -
  have ok: "\<forall>x \<in> set ab_example. ab_no_reentry x" by (simp add: ab_example_def)
  have returns: "ab_returns (\<lambda>_. None) ab_example = [True, True, True, True, False]"
    by (auto simp: ab_example_def ab_call_def intro!: exI [of _ "''b''"])
  have reaches: "ab_reaches (\<lambda>cb _. if cb = 1 then Throws ''bad'' else Returns)
      ([''c'' \<mapsto> 2, ''a'' \<mapsto> 0, ''b'' \<mapsto> 1] :: string \<rightharpoonup> agent_callback) (am_to [] ''all'') r \<longleftrightarrow> r = ''a'' \<or> r = ''b''" for r
    by (auto simp: ab_reaches_def ab_call_def)
  have mail: "fst (ab_mail ''a'' (\<lambda>_. None) ab_example) = [am_to ''a'' ''early'', am_to ''a'' ''all'']"
    "fst (ab_mail ''b'' (\<lambda>_. None) ab_example) = [am_to ''b'' ''all'']"
    "fst (ab_mail ''c'' (\<lambda>_. None) ab_example) = []"
    using reaches by (simp_all add: ab_example_def am_to_def)
  show ?thesis
    using ab_mailboxes [OF ok, of "''a''"] ab_mailboxes [OF ok, of "''b''"] ab_mailboxes [OF ok, of "''c''"] mail
    by (auto simp: returns split: prod.splits) (metis fst_conv)+
qed

text \<open>One callback that uses the bus blocks it: sending to its agent, or a broadcast that reaches it, never returns.\<close>

lemma ab_reentrant_callback_deadlocks:
  assumes "om_ok (ab_subscribers b)" "map_of (ab_subscribers b) n = Some cb" "\<And>m. react cb m = CallsBus"
  shows "fst (ab_sendMessage react (m\<lparr>am_recipient := n\<rparr>) b) = Some SelfDeadlock \<and>
    (ab_reaches react (map_of (ab_subscribers b)) m n \<longrightarrow>
      fst (ab_broadcastMessage react m b) = Some SelfDeadlock)"
proof
  show "fst (ab_sendMessage react (m\<lparr>am_recipient := n\<rparr>) b) = Some SelfDeadlock"
    using assms(2,3) by (simp add: ab_sendMessage_def Let_def ab_call_def)
  have "om_ok subs \<Longrightarrow> map_of subs n = Some cb \<Longrightarrow> ab_reaches react (map_of subs) m n \<Longrightarrow>
      fst (ab_broadcast_loop react m subs b) = Some SelfDeadlock" for subs b
  proof (induction subs arbitrary: b)
    case (Cons s subs)
    obtain name c where s: "s = (name, c)" by (cases s)
    show ?case
    proof (cases "n = name")
      case True
      then have "c = cb" using Cons.prems(2) by (simp add: s)
      then show ?thesis by (simp add: s Let_def ab_call_def assms(3))
    next
      case False
      then have "ab_call react c (m\<lparr>am_recipient := name\<rparr>) = None" "ab_reaches react (map_of subs) m n"
        "map_of subs n = Some cb" "om_ok subs"
        using Cons.prems ab_reaches_Cons [of name c subs react m n] by (simp_all add: s del: map_of.simps) (simp_all add: map_of.simps)
      with Cons.IH [OF this(4,3,2)] show ?thesis by (simp add: s Let_def split: prod.split) (metis fst_conv)
    qed
  qed simp
  with assms(1,2) show "ab_reaches react (map_of (ab_subscribers b)) m n \<longrightarrow>
      fst (ab_broadcastMessage react m b) = Some SelfDeadlock"
    by (simp add: ab_broadcastMessage_def)
qed

end
