(* ===== verification/DB_Pool.thy ===== *)
theory DB_Pool
  imports Base
begin

text \<open>
  \<open>server/db/db_pool.\{h,cpp\}\<close>: the pool of database connections. A connection is a number; what the
  database library says about one (open, alive) and what opening a new one gives are arguments.
  \<open>acquire\<close> is split where it waits: the part before the wait, and the part after it, on the pool
  as other threads have left it.
\<close>

type_synonym conn = nat

record DBPool =
  db_pool :: "conn list"
  db_availableConnections :: "conn list"
  db_inUseCount :: nat

text \<open>\<open>en_valid\<close> is \<open>isValidConnection\<close>; \<open>en_create\<close> is \<open>createConnection\<close>, \<open>None\<close> when it throws.\<close>

record DBEnv =
  en_valid :: "conn \<Rightarrow> bool"
  en_create :: "DBPool \<Rightarrow> conn option"

definition MAX_CONNECTIONS :: nat where
  "MAX_CONNECTIONS = 20"

definition MAX_DB_RECONNECT_ATTEMPTS :: nat where
  "MAX_DB_RECONNECT_ATTEMPTS = 5"

text \<open>The constructor: \<open>created\<close> is the outcome of each of the connection attempts it makes.\<close>

definition db_new :: "conn option list \<Rightarrow> DBPool" where
  "db_new created =
     (let cs = List.map_filter (\<lambda>x. x) created
      in \<lparr>db_pool = cs, db_availableConnections = cs, db_inUseCount = 0\<rparr>)"

text \<open>Up to the wait: the connection handed out, or \<open>None\<close> if the call goes on to wait.\<close>

definition db_acquire_start :: "DBEnv \<Rightarrow> DBPool \<Rightarrow> conn option \<times> DBPool" where
  "db_acquire_start env p =
     (case dropWhile (\<lambda>c. \<not> en_valid env c) (db_availableConnections p) of
        c # cs \<Rightarrow> (Some c, p\<lparr>db_availableConnections := cs, db_inUseCount := db_inUseCount p + 1\<rparr>)
      | [] \<Rightarrow>
          let p1 = p\<lparr>db_availableConnections := []\<rparr> in
          if length (db_pool p1) < MAX_CONNECTIONS then
            (case en_create env p1 of
               Some c \<Rightarrow> (Some c, p1\<lparr>db_pool := db_pool p1 @ [c], db_inUseCount := db_inUseCount p1 + 1\<rparr>)
             | None \<Rightarrow> (None, p1))
          else (None, p1))"

text \<open>After the wait, on a pool with an available connection: \<open>None\<close> if it throws.\<close>

definition db_acquire_woken :: "DBEnv \<Rightarrow> DBPool \<Rightarrow> conn option \<times> DBPool" where
  "db_acquire_woken env p =
     (let c = last (db_availableConnections p);
          p1 = p\<lparr>db_availableConnections := butlast (db_availableConnections p)\<rparr>
      in if \<not> en_valid env c then
           (case en_create env p1 of
              Some n \<Rightarrow> (Some n, p1\<lparr>db_inUseCount := db_inUseCount p1 + 1\<rparr>)
            | None \<Rightarrow> (None, p1))
         else (Some c, p1\<lparr>db_inUseCount := db_inUseCount p1 + 1\<rparr>))"

text \<open>\<open>acquire\<close> when no other thread gives a connection back within the time-out.\<close>

definition db_acquire :: "DBEnv \<Rightarrow> DBPool \<Rightarrow> (fault + conn) \<times> DBPool" where
  "db_acquire env p =
     (case db_acquire_start env p of
        (Some c, p1) \<Rightarrow> (Inr c, p1)
      | (None, p1) \<Rightarrow> (Inl (Thrown ''DB connection acquire timeout''), p1))"

definition db_release :: "DBEnv \<Rightarrow> conn \<Rightarrow> DBPool \<Rightarrow> DBPool" where
  "db_release env c p =
     (let p1 = (if db_inUseCount p > 0 then p\<lparr>db_inUseCount := db_inUseCount p - 1\<rparr> else p) in
      if en_valid env c then p1\<lparr>db_availableConnections := db_availableConnections p1 @ [c]\<rparr>
      else let p2 = p1\<lparr>db_pool := remove1 c (db_pool p1)\<rparr> in
        case en_create env p2 of
          Some n \<Rightarrow> p2\<lparr>db_pool := db_pool p2 @ [n], db_availableConnections := db_availableConnections p2 @ [n]\<rparr>
        | None \<Rightarrow> p2)"

definition db_isConnected :: "(conn \<Rightarrow> bool) \<Rightarrow> DBPool \<Rightarrow> bool" where
  "db_isConnected is_open p \<longleftrightarrow> (\<exists>c \<in> set (db_pool p). is_open c)"

text \<open>The attempts for one slot of the pool: the first success of at most five, else the old connection.\<close>

function db_reconnect_slot :: "(nat \<Rightarrow> conn option) \<Rightarrow> nat \<Rightarrow> conn \<Rightarrow> conn" where
  "db_reconnect_slot created attempts old =
     (if attempts < MAX_DB_RECONNECT_ATTEMPTS then
        (case created attempts of Some c \<Rightarrow> c | None \<Rightarrow> db_reconnect_slot created (attempts + 1) old)
      else old)"
  by pat_completeness auto
termination by (relation "measure (\<lambda>(_, n, _). MAX_DB_RECONNECT_ATTEMPTS - n)") auto

declare db_reconnect_slot.simps [simp del]

definition db_reconnectAll :: "(conn \<Rightarrow> bool) \<Rightarrow> (nat \<Rightarrow> nat \<Rightarrow> conn option) \<Rightarrow> DBPool \<Rightarrow> DBPool" where
  "db_reconnectAll is_open created p =
     (let cs = map (\<lambda>i. db_reconnect_slot (created i) 0 (db_pool p ! i)) [0 ..< length (db_pool p)]
      in p\<lparr>db_pool := cs, db_availableConnections := filter is_open cs\<rparr>)"

section \<open>Exclusive use\<close>

text \<open>
  The pool together with the connections its clients hold, under calls of \<open>acquire\<close> and \<open>release\<close> by any
  threads: a client releases only what it holds, and a new connection is none of those that exist.
\<close>

definition env_fresh :: "DBEnv \<Rightarrow> DBPool \<Rightarrow> conn set \<Rightarrow> bool" where
  "env_fresh env p held \<longleftrightarrow>
     (\<forall>q c. en_create env q = Some c \<longrightarrow> c \<notin> set (db_pool p) \<union> set (db_availableConnections p) \<union> held)"

inductive db_step :: "DBPool \<times> conn set \<Rightarrow> DBPool \<times> conn set \<Rightarrow> bool" where
  acquired: "env_fresh env p held \<Longrightarrow> db_acquire_start env p = (Some c, p') \<Longrightarrow>
     db_step (p, held) (p', insert c held)"
| waiting: "db_acquire_start env p = (None, p') \<Longrightarrow> db_step (p, held) (p', held)"
| woken: "env_fresh env p held \<Longrightarrow> db_availableConnections p \<noteq> [] \<Longrightarrow> db_acquire_woken env p = (Some c, p') \<Longrightarrow>
     db_step (p, held) (p', insert c held)"
| woken_failed: "db_availableConnections p \<noteq> [] \<Longrightarrow> db_acquire_woken env p = (None, p') \<Longrightarrow>
     db_step (p, held) (p', held)"
| released: "env_fresh env p held \<Longrightarrow> c \<in> held \<Longrightarrow> db_step (p, held) (db_release env c p, held - {c})"

inductive db_reachable :: "DBPool \<times> conn set \<Rightarrow> bool" where
  start: "distinct (List.map_filter (\<lambda>x. x) created) \<Longrightarrow> db_reachable (db_new created, {})"
| step: "db_reachable s \<Longrightarrow> db_step s s' \<Longrightarrow> db_reachable s'"

definition db_inv :: "DBPool \<times> conn set \<Rightarrow> bool" where
  "db_inv s \<longleftrightarrow> (case s of (p, held) \<Rightarrow>
     finite held \<and> distinct (db_availableConnections p) \<and> set (db_availableConnections p) \<inter> held = {} \<and>
     db_inUseCount p = card held)"

lemma db_acquire_start_cases:
  assumes "db_acquire_start env p = (r, p')"
  shows "case r of
     None \<Rightarrow> p' = p\<lparr>db_availableConnections := []\<rparr>
   | Some c \<Rightarrow> db_inUseCount p' = db_inUseCount p + 1 \<and>
       (c \<in> set (db_availableConnections p) \<and>
          (\<exists>gone. db_availableConnections p = gone @ c # db_availableConnections p') \<or>
        db_availableConnections p' = [] \<and> (\<exists>q. en_create env q = Some c))"
proof (cases "dropWhile (\<lambda>c. \<not> en_valid env c) (db_availableConnections p)")
  case Nil
  show ?thesis using assms unfolding db_acquire_start_def Nil list.case Let_def
    by (auto split: if_splits option.splits)
next
  case (Cons c cs)
  have "db_availableConnections p =
      takeWhile (\<lambda>c. \<not> en_valid env c) (db_availableConnections p) @ c # cs"
    unfolding Cons [symmetric] by simp
  then have mem: "db_availableConnections p = gone @ c # cs \<Longrightarrow> c \<in> set (db_availableConnections p)" for gone
    by simp
  have "r = Some c \<and> p' = p\<lparr>db_availableConnections := cs, db_inUseCount := db_inUseCount p + 1\<rparr>"
    using assms unfolding db_acquire_start_def Cons list.case by simp
  with \<open>db_availableConnections p = _ @ c # cs\<close> show ?thesis
    by (auto intro: mem)
qed

lemma db_acquire_start_inv:
  assumes "db_inv (p, held)" "env_fresh env p held" "db_acquire_start env p = (Some c, p')"
  shows "c \<notin> held \<and> db_inv (p', insert c held)"
  using db_acquire_start_cases [OF assms(3)] assms(1,2)
  by (auto simp: db_inv_def env_fresh_def)

lemma db_acquire_woken_inv:
  assumes "db_inv (p, held)" "env_fresh env p held" "db_availableConnections p \<noteq> []"
    "db_acquire_woken env p = (Some c, p')"
  shows "c \<notin> held \<and> db_inv (p', insert c held)"
proof -
  obtain as a where as: "db_availableConnections p = as @ [a]" using assms(3) by (metis rev_exhaust)
  show ?thesis using assms as
    by (auto simp: db_inv_def env_fresh_def db_acquire_woken_def Let_def split: if_splits option.splits)
qed

lemma db_release_inv:
  assumes "db_inv (p, held)" "env_fresh env p held" "c \<in> held"
  shows "db_inv (db_release env c p, held - {c})"
  using assms
  by (auto simp: db_inv_def env_fresh_def db_release_def Let_def card_gt_0_iff split: option.splits)

lemma db_step_inv: "db_step s s' \<Longrightarrow> db_inv s \<Longrightarrow> db_inv s'"
proof (induction rule: db_step.induct)
  case (waiting env p p' held)
  then show ?case using db_acquire_start_cases [OF waiting(1)] by (auto simp: db_inv_def)
next
  case (woken_failed p env p' held)
  obtain as a where "db_availableConnections p = as @ [a]" using woken_failed(1) by (metis rev_exhaust)
  then show ?case using woken_failed
    by (auto simp: db_inv_def db_acquire_woken_def Let_def split: if_splits option.splits)
qed (auto simp: db_acquire_start_inv db_acquire_woken_inv db_release_inv)

lemma db_reachable_inv: "db_reachable s \<Longrightarrow> db_inv s"
proof (induction rule: db_reachable.induct)
  case (start created)
  then show ?case by (simp add: db_inv_def db_new_def Let_def)
next
  case (step s s')
  then show ?case using db_step_inv by blast
qed

text \<open>C4: A connection has one holder at a time. Whatever the threads do with \<open>acquire\<close>, waits and \<open>release\<close>, and
  however connections die and new ones fail, the connection that \<open>acquire\<close> hands out is held by no one
  else, the counter of connections in use is exact, and nothing held is listed as available.\<close>

theorem db_exclusive:
  assumes "db_reachable (p, held)" "env_fresh env p held"
  shows "(\<forall>c p'. db_acquire_start env p = (Some c, p') \<longrightarrow> c \<notin> held) \<and>
    (\<forall>c p'. db_availableConnections p \<noteq> [] \<longrightarrow> db_acquire_woken env p = (Some c, p') \<longrightarrow> c \<notin> held) \<and>
    db_inUseCount p = card held \<and> set (db_availableConnections p) \<inter> held = {}"
proof -
  have inv: "db_inv (p, held)" using assms(1) by (rule db_reachable_inv)
  then have "db_inUseCount p = card held \<and> set (db_availableConnections p) \<inter> held = {}"
    by (simp add: db_inv_def)
  with db_acquire_start_inv [OF inv assms(2)] db_acquire_woken_inv [OF inv assms(2)] show ?thesis by blast
qed

definition env_dead :: DBEnv where
  "env_dead = \<lparr>en_valid = \<lambda>_. False, en_create = \<lambda>_. None\<rparr>"

lemma db_exclusive_witness: "db_inUseCount (db_new [Some 1, None, Some 2]) = card ({} :: conn set)"
proof -
  have "db_reachable (db_new [Some 1, None, Some 2], {})" by (rule db_reachable.start) (simp add: List.map_filter_def)
  moreover have "env_fresh env_dead (db_new [Some 1, None, Some 2]) {}" by (simp add: env_fresh_def env_dead_def)
  ultimately show ?thesis using db_exclusive by blast
qed

section \<open>What breaks it\<close>

text \<open>
  Successive calls of \<open>acquire\<close>, each in its own environment, with nothing released in between.
\<close>

fun db_acquires :: "DBEnv list \<Rightarrow> DBPool \<Rightarrow> (fault + conn) list \<times> DBPool" where
  "db_acquires [] p = ([], p)"
| "db_acquires (env # envs) p =
     (case db_acquire env p of (r, p1) \<Rightarrow> (case db_acquires envs p1 of (rs, p2) \<Rightarrow> (r # rs, p2)))"

text \<open>C35: A restart of the database starves a full pool. When a pool of twenty connections has none in use and
  all of them have died, every \<open>acquire\<close> from then on times out, even though new connections could be
  opened: dead connections are dropped from the list of available ones but still count as
  the pool's, so no new one is made.\<close>

theorem db_restart_starves:
  assumes "length (db_pool p) \<ge> MAX_CONNECTIONS"
    and "\<forall>env \<in> set envs. \<forall>c \<in> set (db_availableConnections p). \<not> en_valid env c"
  shows "fst (db_acquires envs p) = replicate (length envs) (Inl (Thrown ''DB connection acquire timeout''))"
  using assms
proof (induction envs arbitrary: p)
  case Nil
  then show ?case by simp
next
  case (Cons env envs)
  have drop: "dropWhile (\<lambda>c. \<not> en_valid env c) (db_availableConnections p) = []" using Cons.prems(2) by simp
  have "db_acquire env p = (Inl (Thrown ''DB connection acquire timeout''), p\<lparr>db_availableConnections := []\<rparr>)"
    unfolding db_acquire_def db_acquire_start_def drop using Cons.prems(1) by (simp add: Let_def)
  moreover have "fst (db_acquires envs (p\<lparr>db_availableConnections := []\<rparr>)) =
      replicate (length envs) (Inl (Thrown ''DB connection acquire timeout''))"
    using Cons.prems by (intro Cons.IH) auto
  ultimately show ?case by (simp add: split_beta)
qed

lemma db_restart_starves_witness:
  "fst (db_acquires [\<lparr>en_valid = \<lambda>c. c \<ge> 20, en_create = \<lambda>_. Some 77\<rparr>] (db_new (map Some [0 ..< 20]))) =
   [Inl (Thrown ''DB connection acquire timeout'')]"
proof -
  have "List.map_filter (\<lambda>x. x) (map Some [0 ..< 20]) = [0 ..< 20]" by (simp add: List.map_filter_def o_def)
  then show ?thesis
    using db_restart_starves [of "db_new (map Some [0 ..< 20])" "[\<lparr>en_valid = \<lambda>c. c \<ge> 20, en_create = \<lambda>_. Some 77\<rparr>]"]
    by (simp add: db_new_def Let_def MAX_CONNECTIONS_def)
qed

lemma db_reconnect_slot_fails:
  "(\<forall>a. created a = None) \<Longrightarrow> db_reconnect_slot created n old = old"
  by (induction created n old rule: db_reconnect_slot.induct) (simp add: db_reconnect_slot.simps)

lemma db_acquires_in_order:
  "\<forall>c \<in> set (db_availableConnections p). en_valid env c \<Longrightarrow>
   fst (db_acquires (replicate (length (db_availableConnections p)) env) p) = map Inr (db_availableConnections p)"
proof (induction "db_availableConnections p" arbitrary: p)
  case Nil
  then show ?case by (simp flip: Nil)
next
  case (Cons c cs)
  have a: "db_acquire env p = (Inr c, p\<lparr>db_availableConnections := cs, db_inUseCount := db_inUseCount p + 1\<rparr>)"
    using Cons.prems by (simp add: db_acquire_def db_acquire_start_def flip: Cons.hyps(2))
  show ?case
    using Cons.hyps(1) [of "p\<lparr>db_availableConnections := cs, db_inUseCount := db_inUseCount p + 1\<rparr>"] Cons.prems a
    by (simp flip: Cons.hyps(2) add: split_beta)
qed

text \<open>Reconnecting all breaks exclusive use. When \<open>reconnectAll\<close> cannot open new connections it lists every
  open connection of the pool as available, those in use included: the next calls of \<open>acquire\<close>
  hand out, in order, all of them, so a connection that a thread is using is given to a second one.\<close>

theorem db_reconnect_shares:
  assumes "\<forall>i a. created i a = None"
    and "q = db_reconnectAll (en_valid env) created p"
  shows "db_availableConnections q = filter (en_valid env) (db_pool p) \<and>
    fst (db_acquires (replicate (length (db_availableConnections q)) env) q) = map Inr (filter (en_valid env) (db_pool p)) \<and>
    (\<forall>c. c \<in> set (db_pool p) \<and> en_valid env c \<longrightarrow>
       Inr c \<in> set (fst (db_acquires (replicate (length (db_availableConnections q)) env) q)))"
proof -
  have "map (\<lambda>i. db_reconnect_slot (created i) 0 (db_pool p ! i)) [0 ..< length (db_pool p)] = db_pool p"
    using assms(1) by (simp add: db_reconnect_slot_fails map_nth)
  then have av: "db_availableConnections q = filter (en_valid env) (db_pool p)"
    by (simp add: assms(2) db_reconnectAll_def Let_def)
  moreover have "fst (db_acquires (replicate (length (db_availableConnections q)) env) q) =
      map Inr (db_availableConnections q)" by (rule db_acquires_in_order) (simp add: av)
  ultimately show ?thesis by auto
qed

lemma db_reconnect_shares_witness:
  "\<exists>p1. db_acquire \<lparr>en_valid = \<lambda>_. True, en_create = \<lambda>_. None\<rparr> (db_new [Some 1]) = (Inr 1, p1) \<and>
     fst (db_acquires [\<lparr>en_valid = \<lambda>_. True, en_create = \<lambda>_. None\<rparr>]
       (db_reconnectAll (\<lambda>_. True) (\<lambda>_ _. None) p1)) = [Inr 1]"
proof -
  let ?env = "\<lparr>en_valid = \<lambda>_. True, en_create = \<lambda>_. None\<rparr> :: DBEnv"
  let ?p = "\<lparr>db_pool = [1], db_availableConnections = [], db_inUseCount = 1\<rparr> :: DBPool"
  have "db_acquire ?env (db_new [Some 1]) = (Inr 1, ?p)"
    by (simp add: db_acquire_def db_acquire_start_def db_new_def Let_def List.map_filter_def)
  moreover have "fst (db_acquires [?env] (db_reconnectAll (\<lambda>_. True) (\<lambda>_ _. None) ?p)) = [Inr 1]"
  proof -
    let ?q = "db_reconnectAll (en_valid ?env) (\<lambda>_ _. None) ?p"
    have th: "db_availableConnections ?q = filter (en_valid ?env) (db_pool ?p) \<and>
        fst (db_acquires (replicate (length (db_availableConnections ?q)) ?env) ?q) =
          map Inr (filter (en_valid ?env) (db_pool ?p))"
      using db_reconnect_shares [of "\<lambda>_ _. None" ?q ?env ?p] by blast
    then have av: "db_availableConnections ?q = [1]" by simp
    show ?thesis using th unfolding av by (simp del: db_acquires.simps)
  qed
  ultimately show ?thesis by blast
qed

end
