(* ===== verification/Asset_Service.thy ===== *)
theory Asset_Service
  imports DB_Pool
begin

text \<open>
  \<open>server/models/asset.\{h,cpp\}\<close>, \<open>server/services/asset_service.\{h,cpp\}\<close> and
  \<open>asset_code_generator.\{h,cpp\}\<close>: the status machine of assets and the operations on the asset table. The
  SQL statements are modelled by what they do to the table of \<open>scripts/init_db.sql\<close> (unique asset codes and
  EPCs, ids from a sequence that a failed insert advances too); committing is assumed to succeed. The
  operations take and return connections of the pool as the code does, on its error paths too. A change of
  status reads the row with one statement and writes it with another, in a transaction of the default
  isolation level and without a lock: it is two steps here, and what other threads do may come in between. The
  other operations have one statement on the table each and are one step. The environment of the pool
  is the same during one step.
\<close>

section \<open>The status machine\<close>

datatype AssetStatus = IN_STOCK | IN_USE | REPAIR | SCRAPPED

fun asm_canTransition :: "AssetStatus \<Rightarrow> AssetStatus \<Rightarrow> bool" where
  "asm_canTransition IN_STOCK t = (t = IN_USE \<or> t = REPAIR)"
| "asm_canTransition IN_USE t = (t = IN_STOCK \<or> t = REPAIR \<or> t = SCRAPPED)"
| "asm_canTransition REPAIR t = (t = IN_STOCK \<or> t = SCRAPPED)"
| "asm_canTransition SCRAPPED t = False"

fun asm_statusToString :: "AssetStatus \<Rightarrow> string" where
  "asm_statusToString IN_STOCK = ''IN_STOCK''"
| "asm_statusToString IN_USE = ''IN_USE''"
| "asm_statusToString REPAIR = ''REPAIR''"
| "asm_statusToString SCRAPPED = ''SCRAPPED''"

definition asm_stringToStatus :: "string \<Rightarrow> AssetStatus" where
  "asm_stringToStatus s =
     (if s = ''IN_STOCK'' then IN_STOCK
      else if s = ''IN_USE'' then IN_USE
      else if s = ''REPAIR'' then REPAIR
      else if s = ''SCRAPPED'' then SCRAPPED
      else IN_STOCK)"

definition asm_isValidStatus :: "string \<Rightarrow> bool" where
  "asm_isValidStatus s \<longleftrightarrow> s = ''IN_STOCK'' \<or> s = ''IN_USE'' \<or> s = ''REPAIR'' \<or> s = ''SCRAPPED''"

lemma asm_string_roundtrip [simp]: "asm_stringToStatus (asm_statusToString s) = s"
  by (cases s) (simp_all add: asm_stringToStatus_def)

lemma asm_valid_string: "asm_isValidStatus s \<longleftrightarrow> asm_statusToString (asm_stringToStatus s) = s"
  by (auto simp: asm_isValidStatus_def asm_stringToStatus_def)

lemma asm_valid_statusToString [simp]: "asm_isValidStatus (asm_statusToString s)"
  by (cases s) (simp_all add: asm_isValidStatus_def)

section \<open>Asset codes\<close>

record AssetCodeGenerator =
  ag_counter :: int
  ag_baseYear :: int
  ag_lastGeneratedCode :: int

definition ag_new :: AssetCodeGenerator where
  "ag_new = \<lparr>ag_counter = 1, ag_baseYear = 2026, ag_lastGeneratedCode = 0\<rparr>"

definition ag_generate :: "string \<Rightarrow> AssetCodeGenerator \<Rightarrow> string \<times> AssetCodeGenerator" where
  "ag_generate pre g =
     (let code = ag_lastGeneratedCode g + 1 in
      (pre @ ''-'' @ to_string (ag_baseYear g) @ ''-'' @ to_string code, g\<lparr>ag_lastGeneratedCode := code\<rparr>))"

definition ag_setBaseYear :: "int \<Rightarrow> AssetCodeGenerator \<Rightarrow> AssetCodeGenerator" where
  "ag_setBaseYear year g = g\<lparr>ag_baseYear := year\<rparr>"

definition ag_setStartNumber :: "int \<Rightarrow> AssetCodeGenerator \<Rightarrow> AssetCodeGenerator" where
  "ag_setStartNumber n g = g\<lparr>ag_lastGeneratedCode := n\<rparr>"

section \<open>The table and its operations\<close>

record AssetRow =
  ar_id :: int
  ar_asset_code :: string
  ar_name :: string
  ar_type :: string
  ar_rfid_epc :: string
  ar_location :: string
  ar_status :: string
  ar_created_at :: int
  ar_updated_at :: int

record AssetLog =
  al_asset_id :: int
  al_action :: string
  al_old_status :: string
  al_new_status :: string
  al_operator :: string
  al_details :: string

record Asset =
  as_id :: int
  as_asset_code :: string
  as_name :: string
  as_type :: string
  as_rfid_epc :: string
  as_location :: string
  as_status :: AssetStatus

record AssetStatistics =
  st_total_assets :: nat
  st_in_stock_count :: nat
  st_in_use_count :: nat
  st_repair_count :: nat
  st_scrapped_count :: nat

record CreateAssetParams =
  cp_name :: string
  cp_type :: string
  cp_asset_code :: string
  cp_rfid_epc :: string
  cp_location :: string
  cp_operator_name :: string

text \<open>
  What the service works on: the pool, the generator, and the database: rows, the next id, the log, and whether
  the table \<open>asset_logs\<close>, which none of the scripts creates, exists.
\<close>

record AssetWorld =
  aw_pool :: DBPool
  aw_gen :: AssetCodeGenerator
  aw_assets :: "AssetRow list"
  aw_next_id :: int
  aw_log_table :: bool
  aw_logs :: "AssetLog list"

definition SQL_ERROR :: fault where
  "SQL_ERROR = Thrown ''pqxx::sql_error''"

definition as_find :: "int \<Rightarrow> AssetWorld \<Rightarrow> AssetRow option" where
  "as_find i w = find (\<lambda>r. ar_id r = i) (aw_assets w)"

text \<open>The exception of the log statement is caught, its connection not released.\<close>

definition as_logAssetOperation :: "DBEnv \<Rightarrow> AssetLog \<Rightarrow> AssetWorld \<Rightarrow> AssetWorld" where
  "as_logAssetOperation env l w =
     (case db_acquire env (aw_pool w) of
        (Inl e, p1) \<Rightarrow> w\<lparr>aw_pool := p1\<rparr>
      | (Inr c, p1) \<Rightarrow>
          if aw_log_table w
          then w\<lparr>aw_logs := aw_logs w @ [l], aw_pool := db_release env c p1\<rparr>
          else w\<lparr>aw_pool := p1\<rparr>)"

text \<open>The asset code of a new asset: the given one, or a generated one.\<close>

definition as_assetCode :: "CreateAssetParams \<Rightarrow> AssetWorld \<Rightarrow> string \<times> AssetCodeGenerator" where
  "as_assetCode params w =
     (if cp_asset_code params = [] then ag_generate ''IT-SZ'' (aw_gen w) else (cp_asset_code params, aw_gen w))"

definition as_createAsset :: "DBEnv \<Rightarrow> int \<Rightarrow> CreateAssetParams \<Rightarrow> AssetWorld \<Rightarrow> (fault + int) \<times> AssetWorld" where
  "as_createAsset env now params w =
     (case db_acquire env (aw_pool w) of
        (Inl e, p1) \<Rightarrow> (Inl e, w\<lparr>aw_pool := p1\<rparr>)
      | (Inr c, p1) \<Rightarrow>
          (let (assetCode, g) = as_assetCode params w;
               i = aw_next_id w;
               w1 = w\<lparr>aw_pool := p1, aw_gen := g, aw_next_id := i + 1\<rparr>
           in if \<exists>r \<in> set (aw_assets w). ar_asset_code r = assetCode \<or> ar_rfid_epc r = cp_rfid_epc params
              then (Inl SQL_ERROR, w1)
              else
                let row = \<lparr>ar_id = i, ar_asset_code = assetCode, ar_name = cp_name params, ar_type = cp_type params,
                           ar_rfid_epc = cp_rfid_epc params, ar_location = cp_location params,
                           ar_status = ''IN_STOCK'', ar_created_at = now, ar_updated_at = now\<rparr>;
                    w2 = w1\<lparr>aw_assets := aw_assets w1 @ [row]\<rparr>;
                    w3 = as_logAssetOperation env
                           \<lparr>al_asset_id = i, al_action = ''CREATE'', al_old_status = [], al_new_status = ''IN_STOCK'',
                            al_operator = cp_operator_name params, al_details = ''Asset created with code: '' @ assetCode\<rparr> w2
                in (Inr i, w3\<lparr>aw_pool := db_release env c (aw_pool w3)\<rparr>)))"

definition as_of_row :: "AssetRow \<Rightarrow> Asset" where
  "as_of_row r = \<lparr>as_id = ar_id r, as_asset_code = ar_asset_code r, as_name = ar_name r, as_type = ar_type r,
     as_rfid_epc = ar_rfid_epc r, as_location = ar_location r, as_status = asm_stringToStatus (ar_status r)\<rparr>"

definition as_getAsset :: "DBEnv \<Rightarrow> int \<Rightarrow> AssetWorld \<Rightarrow> (fault + Asset) \<times> AssetWorld" where
  "as_getAsset env i w =
     (case db_acquire env (aw_pool w) of
        (Inl e, p1) \<Rightarrow> (Inl e, w\<lparr>aw_pool := p1\<rparr>)
      | (Inr c, p1) \<Rightarrow>
          (let w1 = w\<lparr>aw_pool := db_release env c p1\<rparr> in
           case as_find i w of
             None \<Rightarrow> (Inl (Thrown ''AssetNotFoundException''), w1)
           | Some r \<Rightarrow> (Inr (as_of_row r), w1)))"

text \<open>
  \<open>updateAssetStatus\<close> up to and with its check: the call is over (\<open>Inl\<close>), or it goes on with its connection
  and the status it has read.
\<close>

definition as_readStatus ::
  "DBEnv \<Rightarrow> int \<Rightarrow> string \<Rightarrow> AssetWorld \<Rightarrow> ((fault + bool) + (conn \<times> string)) \<times> AssetWorld" where
  "as_readStatus env i newStatus w =
     (if \<not> asm_isValidStatus newStatus then (Inl (Inr False), w)
      else case db_acquire env (aw_pool w) of
        (Inl e, p1) \<Rightarrow> (Inl (Inl e), w\<lparr>aw_pool := p1\<rparr>)
      | (Inr c, p1) \<Rightarrow>
          (case as_find i w of
             None \<Rightarrow> (Inl (Inl (Thrown ''AssetNotFoundException'')), w\<lparr>aw_pool := db_release env c p1\<rparr>)
           | Some r \<Rightarrow>
               (let oldStatus = asm_stringToStatus (ar_status r); newStatusEnum = asm_stringToStatus newStatus in
                if \<not> asm_canTransition oldStatus newStatusEnum
                then (Inl (Inl (Thrown ''InvalidStatusTransitionException'')), w\<lparr>aw_pool := db_release env c p1\<rparr>)
                else (Inr (c, ar_status r), w\<lparr>aw_pool := p1\<rparr>))))"

text \<open>The rest: the \<open>UPDATE\<close> of whatever the row is by now, at time \<open>now\<close>, the log, and the connection given back.\<close>

definition as_writeStatus ::
  "DBEnv \<Rightarrow> int \<Rightarrow> int \<Rightarrow> string \<Rightarrow> string \<Rightarrow> conn \<times> string \<Rightarrow> AssetWorld \<Rightarrow> AssetWorld" where
  "as_writeStatus env now i newStatus operatorName found w =
     (let (c, oldStatusStr) = found;
          w1 = w\<lparr>aw_assets := map (\<lambda>x. if ar_id x = i then x\<lparr>ar_status := newStatus, ar_updated_at := now\<rparr> else x)
                 (aw_assets w)\<rparr>;
          w2 = as_logAssetOperation env
                 \<lparr>al_asset_id = i, al_action = ''STATUS_CHANGE'', al_old_status = oldStatusStr,
                  al_new_status = newStatus, al_operator = operatorName, al_details = []\<rparr> w1
      in w2\<lparr>aw_pool := db_release env c (aw_pool w2)\<rparr>)"

text \<open>A call during which no other thread runs.\<close>

definition as_updateAssetStatus ::
  "DBEnv \<Rightarrow> int \<Rightarrow> int \<Rightarrow> string \<Rightarrow> string \<Rightarrow> AssetWorld \<Rightarrow> (fault + bool) \<times> AssetWorld" where
  "as_updateAssetStatus env now i newStatus operatorName w =
     (case as_readStatus env i newStatus w of
        (Inl result, w1) \<Rightarrow> (result, w1)
      | (Inr found, w1) \<Rightarrow> (Inr True, as_writeStatus env now i newStatus operatorName found w1))"

text \<open>A negative \<open>LIMIT\<close> or \<open>OFFSET\<close> is an error of the statement, which leaves the method.\<close>

definition as_listAssets ::
  "DBEnv \<Rightarrow> int \<Rightarrow> int \<Rightarrow> string \<Rightarrow> AssetWorld \<Rightarrow> (fault + Asset list) \<times> AssetWorld" where
  "as_listAssets env page page_size status_filter w =
     (case db_acquire env (aw_pool w) of
        (Inl e, p1) \<Rightarrow> (Inl e, w\<lparr>aw_pool := p1\<rparr>)
      | (Inr c, p1) \<Rightarrow>
          (let offset = (page - 1) * page_size;
               rows = std_sort (\<lambda>a b. ar_created_at a > ar_created_at b)
                        (filter (\<lambda>r. status_filter \<noteq> [] \<longrightarrow> ar_status r = status_filter) (aw_assets w))
           in if page_size < 0 \<or> offset < 0 then (Inl SQL_ERROR, w\<lparr>aw_pool := p1\<rparr>)
              else (Inr (map as_of_row (take (nat page_size) (drop (nat offset) rows))),
                    w\<lparr>aw_pool := db_release env c p1\<rparr>)))"

definition as_getTotalCount :: "DBEnv \<Rightarrow> string \<Rightarrow> AssetWorld \<Rightarrow> (fault + nat) \<times> AssetWorld" where
  "as_getTotalCount env statusFilter w =
     (case db_acquire env (aw_pool w) of
        (Inl e, p1) \<Rightarrow> (Inl e, w\<lparr>aw_pool := p1\<rparr>)
      | (Inr c, p1) \<Rightarrow>
          (Inr (length (filter (\<lambda>r. statusFilter \<noteq> [] \<longrightarrow> ar_status r = statusFilter) (aw_assets w))),
           w\<lparr>aw_pool := db_release env c p1\<rparr>))"

text \<open>On an empty table the sums are null, which the library does not convert to a number.\<close>

definition as_getAssetStatistics :: "DBEnv \<Rightarrow> AssetWorld \<Rightarrow> (fault + AssetStatistics) \<times> AssetWorld" where
  "as_getAssetStatistics env w =
     (case db_acquire env (aw_pool w) of
        (Inl e, p1) \<Rightarrow> (Inl e, w\<lparr>aw_pool := p1\<rparr>)
      | (Inr c, p1) \<Rightarrow>
          (let n = (\<lambda>s. length (filter (\<lambda>r. ar_status r = s) (aw_assets w))) in
           if aw_assets w = [] then (Inl (Thrown ''pqxx::conversion_error''), w\<lparr>aw_pool := p1\<rparr>)
           else (Inr \<lparr>st_total_assets = length (aw_assets w), st_in_stock_count = n ''IN_STOCK'',
                      st_in_use_count = n ''IN_USE'', st_repair_count = n ''REPAIR'', st_scrapped_count = n ''SCRAPPED''\<rparr>,
                 w\<lparr>aw_pool := db_release env c p1\<rparr>)))"

section \<open>The life of an asset\<close>

datatype as_op =
    Create int CreateAssetParams
  | Fetch int
  | ListPage int int string
  | TotalCount string
  | Statistics

fun as_step :: "DBEnv \<Rightarrow> as_op \<Rightarrow> AssetWorld \<Rightarrow> AssetWorld" where
  "as_step env (Create now params) w = snd (as_createAsset env now params w)"
| "as_step env (Fetch i) w = snd (as_getAsset env i w)"
| "as_step env (ListPage page n flt) w = snd (as_listAssets env page n flt w)"
| "as_step env (TotalCount flt) w = snd (as_getTotalCount env flt w)"
| "as_step env Statistics w = snd (as_getAssetStatistics env w)"

text \<open>A change of status that a thread has begun: its row, the new status, and what \<open>as_readStatus\<close> found.\<close>

record as_pending =
  up_id :: int
  up_status :: string
  up_operator :: string
  up_found :: "conn \<times> string"

type_synonym as_state = "AssetWorld \<times> (nat \<times> as_pending) list"

text \<open>
  What the threads of the server do, in any order: an operation of one step; a thread that is not within a
  change of status begins one; a thread that is within one finishes it.
\<close>

datatype as_event =
    RunOp DBEnv as_op
  | BeginUpdate nat DBEnv int string string
  | FinishUpdate nat DBEnv int

fun as_event_step :: "as_state \<Rightarrow> as_event \<Rightarrow> as_state" where
  "as_event_step (w, ps) (RunOp env op) = (as_step env op w, ps)"
| "as_event_step (w, ps) (BeginUpdate t env i s u) =
     (if t \<in> fst ` set ps then (w, ps)
      else case as_readStatus env i s w of
        (Inl result, w1) \<Rightarrow> (w1, ps)
      | (Inr found, w1) \<Rightarrow>
          (w1, (t, \<lparr>up_id = i, up_status = s, up_operator = u, up_found = found\<rparr>) # ps))"
| "as_event_step (w, ps) (FinishUpdate t env now) =
     (case map_of ps t of
        None \<Rightarrow> (w, ps)
      | Some p \<Rightarrow> (as_writeStatus env now (up_id p) (up_status p) (up_operator p) (up_found p) w,
                   filter (\<lambda>q. fst q \<noteq> t) ps))"

abbreviation as_run :: "as_state \<Rightarrow> as_event list \<Rightarrow> as_state" where
  "as_run \<equiv> foldl as_event_step"

text \<open>No change of an asset's status is begun while another one of the same asset is under way.\<close>

fun as_no_overlap :: "as_state \<Rightarrow> as_event list \<Rightarrow> bool" where
  "as_no_overlap st [] = True"
| "as_no_overlap st (BeginUpdate t env i s u # es) =
     ((\<forall>p \<in> set (snd st). up_id (snd p) \<noteq> i) \<and> as_no_overlap (as_event_step st (BeginUpdate t env i s u)) es)"
| "as_no_overlap st (e # es) = as_no_overlap (as_event_step st e) es"

text \<open>Beginning and finishing at once is the whole call.\<close>

lemma as_update_two_events:
  "t \<notin> fst ` set ps \<Longrightarrow>
   as_run (w, ps) [BeginUpdate t env i s u, FinishUpdate t env now] =
     (snd (as_updateAssetStatus env now i s u w), ps)"
proof -
  assume t: "t \<notin> fst ` set ps"
  then have "map_of ps t = None" "filter (\<lambda>q. fst q \<noteq> t) ps = ps"
    by (auto simp: map_of_eq_None_iff filter_id_conv)
  with t show ?thesis by (simp add: as_updateAssetStatus_def split: prod.split sum.split)
qed

definition as_inv :: "AssetWorld \<Rightarrow> bool" where
  "as_inv w \<longleftrightarrow> distinct (map ar_id (aw_assets w)) \<and> distinct (map ar_asset_code (aw_assets w)) \<and>
     distinct (map ar_rfid_epc (aw_assets w)) \<and>
     (\<forall>r \<in> set (aw_assets w). ar_id r < aw_next_id w \<and> asm_isValidStatus (ar_status r))"

text \<open>The same asset later: only its status and the time of the last change may be other.\<close>

definition as_same_asset :: "AssetRow \<Rightarrow> AssetRow \<Rightarrow> bool" where
  "as_same_asset r r' \<longleftrightarrow> r' = r\<lparr>ar_status := ar_status r', ar_updated_at := ar_updated_at r'\<rparr>"

text \<open>Its status came about by allowed transitions, and a scrapped asset has not been touched.\<close>

definition as_evolves :: "AssetRow \<Rightarrow> AssetRow \<Rightarrow> bool" where
  "as_evolves r r' \<longleftrightarrow> as_same_asset r r' \<and>
     asm_canTransition\<^sup>*\<^sup>* (asm_stringToStatus (ar_status r)) (asm_stringToStatus (ar_status r')) \<and>
     (asm_stringToStatus (ar_status r) = SCRAPPED \<longrightarrow> r' = r)"

lemma as_same_refl [simp]: "as_same_asset r r"
  by (simp add: as_same_asset_def)

lemma as_same_trans: "as_same_asset r s \<Longrightarrow> as_same_asset s t \<Longrightarrow> as_same_asset r t"
  by (cases r; cases s; cases t) (simp add: as_same_asset_def)

lemma as_evolves_refl [simp]: "as_evolves r r"
  by (simp add: as_evolves_def)

lemma as_evolves_trans: "as_evolves r s \<Longrightarrow> as_evolves s t \<Longrightarrow> as_evolves r t"
  unfolding as_evolves_def by (metis as_same_trans rtranclp_trans)

lemma as_log_fields [simp]:
  "aw_assets (as_logAssetOperation env l w) = aw_assets w"
  "aw_next_id (as_logAssetOperation env l w) = aw_next_id w"
  by (auto simp: as_logAssetOperation_def split: prod.split sum.split)

lemma as_write_fields [simp]:
  "aw_assets (as_writeStatus env now i s u found w) =
     map (\<lambda>x. if ar_id x = i then x\<lparr>ar_status := s, ar_updated_at := now\<rparr> else x) (aw_assets w)"
  "aw_next_id (as_writeStatus env now i s u found w) = aw_next_id w"
  by (simp_all add: as_writeStatus_def Let_def split: prod.split)

lemma as_read_fields:
  assumes "as_readStatus env i s w = (res, w1)"
  shows "aw_assets w1 = aw_assets w" "aw_next_id w1 = aw_next_id w"
    and "res = Inr found \<Longrightarrow> asm_isValidStatus s \<and> (\<exists>r. as_find i w = Some r \<and>
      asm_canTransition (asm_stringToStatus (ar_status r)) (asm_stringToStatus s) \<and> snd found = ar_status r)"
  using assms
  by (auto simp: as_readStatus_def Let_def split: if_splits prod.splits sum.splits option.splits)

definition as_new_row :: "int \<Rightarrow> CreateAssetParams \<Rightarrow> string \<Rightarrow> AssetWorld \<Rightarrow> AssetRow" where
  "as_new_row now params code w =
     \<lparr>ar_id = aw_next_id w, ar_asset_code = code, ar_name = cp_name params, ar_type = cp_type params,
      ar_rfid_epc = cp_rfid_epc params, ar_location = cp_location params, ar_status = ''IN_STOCK'',
      ar_created_at = now, ar_updated_at = now\<rparr>"

lemma as_create_table:
  assumes "db_acquire env (aw_pool w) = (Inr c, p1)" "as_assetCode params w = (code, g)"
  shows "aw_assets (snd (as_createAsset env now params w)) =
      (if \<exists>r \<in> set (aw_assets w). ar_asset_code r = code \<or> ar_rfid_epc r = cp_rfid_epc params
       then aw_assets w else aw_assets w @ [as_new_row now params code w])"
    and "aw_next_id (snd (as_createAsset env now params w)) = aw_next_id w + 1"
  using assms by (simp_all add: as_createAsset_def as_new_row_def Let_def)

text \<open>An operation of one step leaves the table alone or adds a row of its own.\<close>

lemma as_step_table:
  obtains (same) "aw_assets (as_step env op w) = aw_assets w" "aw_next_id w \<le> aw_next_id (as_step env op w)"
  | (added) r where "aw_assets (as_step env op w) = aw_assets w @ [r]" "ar_id r = aw_next_id w"
      "aw_next_id (as_step env op w) = aw_next_id w + 1" "ar_status r = ''IN_STOCK''"
      "ar_asset_code r \<notin> ar_asset_code ` set (aw_assets w)" "ar_rfid_epc r \<notin> ar_rfid_epc ` set (aw_assets w)"
proof (cases op)
  case (Create now params)
  show ?thesis
  proof (cases "aw_assets (as_step env op w) = aw_assets w")
    case True
    then show ?thesis
      by (rule same) (auto simp: Create as_createAsset_def Let_def split: prod.split sum.split)
  next
    case False
    obtain c p1 where acq: "db_acquire env (aw_pool w) = (Inr c, p1)"
      using False by (auto simp: Create as_createAsset_def split: prod.splits sum.splits)
    obtain code g where cg: "as_assetCode params w = (code, g)" by (metis surj_pair)
    note table = as_create_table [OF acq cg, of now]
    have new: "\<not> (\<exists>r \<in> set (aw_assets w). ar_asset_code r = code \<or> ar_rfid_epc r = cp_rfid_epc params)"
      using False unfolding Create as_step.simps table(1) by (rule contrapos_nn) (rule if_P)
    show ?thesis
      by (rule added [of "as_new_row now params code w"])
        (use new table in \<open>auto simp: Create as_new_row_def\<close>)
  qed
qed (rule same; auto simp: as_getAsset_def as_listAssets_def as_getTotalCount_def as_getAssetStatistics_def
    Let_def split: prod.split sum.split option.split)+

lemma eq_key_imp_eq: "distinct (map k xs) \<Longrightarrow> x \<in> set xs \<Longrightarrow> y \<in> set xs \<Longrightarrow> k x = k y \<Longrightarrow> x = y"
  by (auto simp: distinct_map inj_on_def)

text \<open>All connections are alive and the pool is full, so none is opened.\<close>

definition pool_ready :: "DBEnv \<Rightarrow> DBPool \<Rightarrow> bool" where
  "pool_ready env p \<longleftrightarrow> (\<forall>c. en_valid env c) \<and> length (db_pool p) \<ge> MAX_CONNECTIONS"

lemma ready_acquire:
  assumes "pool_ready env p"
  shows "db_acquire env p =
    (case db_availableConnections p of
       [] \<Rightarrow> (Inl (Thrown ''DB connection acquire timeout''), p)
     | c # cs \<Rightarrow> (Inr c, p\<lparr>db_availableConnections := cs, db_inUseCount := db_inUseCount p + 1\<rparr>))"
  using assms
  by (cases p) (auto simp: pool_ready_def db_acquire_def db_acquire_start_def Let_def split: list.split)

lemma ready_release:
  "pool_ready env p \<Longrightarrow> db_release env c p =
     p\<lparr>db_inUseCount := db_inUseCount p - 1, db_availableConnections := db_availableConnections p @ [c]\<rparr>"
  by (cases p) (simp add: pool_ready_def db_release_def Let_def)

lemma pool_ready_update [simp]:
  "pool_ready env (p\<lparr>db_availableConnections := a\<rparr>) = pool_ready env p"
  "pool_ready env (p\<lparr>db_inUseCount := n\<rparr>) = pool_ready env p"
  by (simp_all add: pool_ready_def)

text \<open>What every interleaving keeps.\<close>

definition as_wf :: "as_state \<Rightarrow> bool" where
  "as_wf st \<longleftrightarrow> as_inv (fst st) \<and> (\<forall>p \<in> set (snd st). asm_isValidStatus (up_status (snd p)))"

text \<open>
  What it takes for changes of status to be checked against the status they overwrite: no two of one
  asset at a time, and each allowed from what its row holds.
\<close>

definition as_checked :: "as_state \<Rightarrow> bool" where
  "as_checked st \<longleftrightarrow> distinct (map (\<lambda>p. up_id (snd p)) (snd st)) \<and>
     (\<forall>p \<in> set (snd st). \<exists>r \<in> set (aw_assets (fst st)). ar_id r = up_id (snd p) \<and>
        asm_canTransition (asm_stringToStatus (ar_status r)) (asm_stringToStatus (up_status (snd p))))"

definition as_rows_rel :: "(AssetRow \<Rightarrow> AssetRow \<Rightarrow> bool) \<Rightarrow> AssetWorld \<Rightarrow> AssetWorld \<Rightarrow> bool" where
  "as_rows_rel R w w' \<longleftrightarrow> (\<forall>r \<in> set (aw_assets w). \<exists>r' \<in> set (aw_assets w'). R r r')"

lemma as_rows_rel_same: "(\<And>r. R r r) \<Longrightarrow> set (aw_assets w) \<subseteq> set (aw_assets w') \<Longrightarrow> as_rows_rel R w w'"
  by (auto simp: as_rows_rel_def)

lemma as_rows_rel_map:
  "(\<And>r. r \<in> set (aw_assets w) \<Longrightarrow> R r (f r)) \<Longrightarrow> aw_assets w' = map f (aw_assets w) \<Longrightarrow> as_rows_rel R w w'"
  by (auto simp: as_rows_rel_def)

lemma as_rows_rel_trans:
  "(\<And>r s t. R r s \<Longrightarrow> R s t \<Longrightarrow> R r t) \<Longrightarrow> as_rows_rel R w w1 \<Longrightarrow> as_rows_rel R w1 w2 \<Longrightarrow> as_rows_rel R w w2"
  unfolding as_rows_rel_def by meson

lemma as_step_keeps:
  assumes "as_inv w"
  shows "as_inv (as_step env op w)" "set (aw_assets w) \<subseteq> set (aw_assets (as_step env op w))"
proof -
  have "as_inv (as_step env op w) \<and> set (aw_assets w) \<subseteq> set (aw_assets (as_step env op w))"
  proof (cases rule: as_step_table [of env op w])
    case same
    then show ?thesis using assms by (auto simp: as_inv_def)
  next
    case (added r)
    then have "asm_isValidStatus (ar_status r)" by (simp add: asm_isValidStatus_def)
    with added assms show ?thesis by (auto simp: as_inv_def)
  qed
  then show "as_inv (as_step env op w)" "set (aw_assets w) \<subseteq> set (aw_assets (as_step env op w))" by blast+
qed

lemma as_write_inv: "as_inv w \<Longrightarrow> asm_isValidStatus s \<Longrightarrow> as_inv (as_writeStatus env now i s u found w)"
proof -
  let ?f = "\<lambda>y. if ar_id y = i then y\<lparr>ar_status := s, ar_updated_at := now\<rparr> else y"
  have keys: "map ar_id (map ?f rs) = map ar_id rs" "map ar_asset_code (map ?f rs) = map ar_asset_code rs"
    "map ar_rfid_epc (map ?f rs) = map ar_rfid_epc rs" for rs by auto
  assume "as_inv w" "asm_isValidStatus s"
  then show ?thesis unfolding as_inv_def as_write_fields keys by auto
qed

lemma as_read_inv: "as_readStatus env i s w = (res, w1) \<Longrightarrow> as_inv w1 = as_inv w"
  by (simp add: as_inv_def as_read_fields)

lemma as_event_keeps:
  assumes "as_wf st"
  shows "as_wf (as_event_step st e) \<and> as_rows_rel as_same_asset (fst st) (fst (as_event_step st e))"
proof (cases st)
  case (Pair w ps)
  show ?thesis
  proof (cases e)
    case (RunOp env op)
    with assms show ?thesis
      using as_step_keeps [of w env op] by (auto simp: Pair as_wf_def intro!: as_rows_rel_same)
  next
    case (BeginUpdate t env i s u)
    obtain res w1 where r: "as_readStatus env i s w = (res, w1)" by (cases "as_readStatus env i s w")
    with assms as_read_fields [OF r] show ?thesis
      by (auto simp: Pair BeginUpdate as_wf_def as_read_inv [OF r] split: sum.split intro!: as_rows_rel_same)
  next
    case (FinishUpdate t env now)
    show ?thesis
    proof (cases "map_of ps t")
      case None
      with assms show ?thesis by (auto simp: Pair FinishUpdate intro: as_rows_rel_same)
    next
      case (Some p)
      then have "asm_isValidStatus (up_status p)"
        using assms by (auto simp: as_wf_def Pair dest!: map_of_SomeD)
      moreover have "as_rows_rel as_same_asset (fst st) (fst (as_event_step st e))"
        by (rule as_rows_rel_map [where f = "\<lambda>x. if ar_id x = up_id p
              then x\<lparr>ar_status := up_status p, ar_updated_at := now\<rparr> else x"])
          (simp_all add: Pair FinishUpdate Some as_same_asset_def)
      ultimately show ?thesis
        using assms Some by (simp add: Pair FinishUpdate as_wf_def as_write_inv)
    qed
  qed
qed

lemma as_write_evolves:
  assumes "as_wf (w, ps)" "as_checked (w, ps)" "map_of ps t = Some p"
  shows "as_checked (as_event_step (w, ps) (FinishUpdate t env now)) \<and>
    as_rows_rel as_evolves w (fst (as_event_step (w, ps) (FinishUpdate t env now)))"
proof -
  let ?f = "\<lambda>y. if ar_id y = up_id p then y\<lparr>ar_status := up_status p, ar_updated_at := now\<rparr> else y"
  have p: "(t, p) \<in> set ps" using assms(3) by (rule map_of_SomeD)
  have ids: "distinct (map ar_id (aw_assets w))" using assms(1) by (simp add: as_wf_def as_inv_def)
  have "as_evolves r (?f r)" if r: "r \<in> set (aw_assets w)" for r
  proof (cases "ar_id r = up_id p")
    case True
    obtain r1 where r1: "r1 \<in> set (aw_assets w)" "ar_id r1 = up_id p"
      "asm_canTransition (asm_stringToStatus (ar_status r1)) (asm_stringToStatus (up_status p))"
      using assms(2) p unfolding as_checked_def fst_conv snd_conv by (metis snd_conv)
    then have "r1 = r" using eq_key_imp_eq [OF ids r1(1) r] True by simp
    with r1(3) have "asm_canTransition (asm_stringToStatus (ar_status r)) (asm_stringToStatus (up_status p))"
      by simp
    then show ?thesis using True by (auto simp: as_evolves_def as_same_asset_def)
  qed simp
  then have "as_rows_rel as_evolves w (fst (as_event_step (w, ps) (FinishUpdate t env now)))"
    by (rule as_rows_rel_map) (simp_all add: assms(3))
  moreover have "as_checked (as_event_step (w, ps) (FinishUpdate t env now))"
  proof -
    have "\<exists>r \<in> ?f ` set (aw_assets w). ar_id r = up_id (snd q) \<and>
        asm_canTransition (asm_stringToStatus (ar_status r)) (asm_stringToStatus (up_status (snd q)))"
      if q: "q \<in> set ps" "fst q \<noteq> t" for q
    proof -
      have "distinct (map (\<lambda>p. up_id (snd p)) ps)" using assms(2) by (simp add: as_checked_def)
      from eq_key_imp_eq [OF this q(1) p] q(2) have ne: "up_id (snd q) \<noteq> up_id p" by auto
      obtain r where r: "r \<in> set (aw_assets w)" "ar_id r = up_id (snd q)"
        "asm_canTransition (asm_stringToStatus (ar_status r)) (asm_stringToStatus (up_status (snd q)))"
        using assms(2) q(1) unfolding as_checked_def fst_conv snd_conv by blast
      have "r \<in> ?f ` set (aw_assets w)"
        by (rule image_eqI [OF _ r(1)]) (simp add: r(2) ne)
      with r(2,3) show ?thesis by blast
    qed
    moreover have "distinct (map (\<lambda>p. up_id (snd p)) (filter (\<lambda>q. fst q \<noteq> t) ps))"
      using assms(2) by (simp add: as_checked_def distinct_map_filter)
    ultimately show ?thesis using assms(3) by (simp add: as_checked_def)
  qed
  ultimately show ?thesis by blast
qed

lemma as_event_evolves:
  assumes "as_wf st" "as_checked st" "as_no_overlap st (e # es)"
  shows "as_checked (as_event_step st e) \<and> as_rows_rel as_evolves (fst st) (fst (as_event_step st e)) \<and>
    as_no_overlap (as_event_step st e) es"
proof (cases st)
  case (Pair w ps)
  show ?thesis
  proof (cases e)
    case (RunOp env op)
    have keep: "set (aw_assets w) \<subseteq> set (aw_assets (as_step env op w))"
      using as_step_keeps(2) assms(1) by (simp add: Pair as_wf_def)
    then have "as_checked (as_event_step st e)"
      using assms(2) unfolding Pair RunOp as_checked_def as_event_step.simps fst_conv snd_conv by blast
    moreover have "as_rows_rel as_evolves (fst st) (fst (as_event_step st e))"
      using keep by (simp add: Pair RunOp as_rows_rel_same)
    ultimately show ?thesis using assms(3) by (simp add: Pair RunOp)
  next
    case (BeginUpdate t env i s u)
    obtain res w1 where r: "as_readStatus env i s w = (res, w1)" by (cases "as_readStatus env i s w")
    note f = as_read_fields [OF r]
    have "as_checked (as_event_step st e)"
    proof (cases res)
      case (Inl a)
      with assms(2) f(1) show ?thesis by (simp add: Pair BeginUpdate r as_checked_def)
    next
      case (Inr found)
      from f(3) [OF this] obtain row where "as_find i w = Some row"
        "asm_canTransition (asm_stringToStatus (ar_status row)) (asm_stringToStatus s)" by blast
      moreover from this(1) have "row \<in> set (aw_assets w)" "ar_id row = i"
        by (auto simp: as_find_def find_Some_iff)
      ultimately show ?thesis
        using assms(2,3) f(1) Inr by (auto simp: Pair BeginUpdate r as_checked_def)
    qed
    with assms(3) f(1) r show ?thesis
      by (auto simp: Pair BeginUpdate split: sum.split intro!: as_rows_rel_same)
  next
    case (FinishUpdate t env now)
    show ?thesis
    proof (cases "map_of ps t")
      case None
      with assms show ?thesis by (auto simp: Pair FinishUpdate intro: as_rows_rel_same)
    next
      case (Some p)
      with as_write_evolves [of w ps t p env now] assms show ?thesis
        by (simp only: Pair FinishUpdate fst_conv as_no_overlap.simps)
    qed
  qed
qed

lemma as_run_keeps:
  "as_wf st \<Longrightarrow> as_wf (as_run st es) \<and> as_rows_rel as_same_asset (fst st) (fst (as_run st es))"
proof (induction es arbitrary: st)
  case Nil
  then show ?case by (auto intro: as_rows_rel_same)
next
  case (Cons e es)
  note ev = as_event_keeps [OF Cons.prems, of e]
  note ih = Cons.IH [OF ev [THEN conjunct1]]
  from as_rows_rel_trans [OF as_same_trans ev [THEN conjunct2] ih [THEN conjunct2]] ih show ?case by simp
qed

lemma as_run_evolves:
  "as_wf st \<Longrightarrow> as_checked st \<Longrightarrow> as_no_overlap st es \<Longrightarrow> as_rows_rel as_evolves (fst st) (fst (as_run st es))"
proof (induction es arbitrary: st)
  case Nil
  then show ?case by (auto intro: as_rows_rel_same)
next
  case (Cons e es)
  note ev = as_event_evolves [OF Cons.prems]
  have "as_rows_rel as_evolves (fst (as_event_step st e)) (fst (as_run (as_event_step st e) es))"
    using Cons.IH as_event_keeps [OF Cons.prems(1), of e] ev by blast
  from as_rows_rel_trans [OF as_evolves_trans _ this] ev show ?case by simp
qed

text \<open>Two threads that change the same asset: both have read it before either writes it.\<close>

definition as_race :: "DBEnv \<Rightarrow> int \<Rightarrow> int \<Rightarrow> as_event list" where
  "as_race env now i =
     [BeginUpdate 0 env i ''SCRAPPED'' ''a'', BeginUpdate 1 env i ''IN_STOCK'' ''b'',
      FinishUpdate 0 env now, FinishUpdate 1 env now]"

lemma as_race_statuses:
  assumes "as_inv w" "r \<in> set (aw_assets w)" "ar_status r = ''IN_USE''"
    and "pool_ready env (aw_pool w)" "2 \<le> length (db_availableConnections (aw_pool w))"
  shows "r\<lparr>ar_status := ''SCRAPPED'', ar_updated_at := now\<rparr> \<in>
      set (aw_assets (fst (as_run (w, []) (take 3 (as_race env now (ar_id r))))))"
    and "r\<lparr>ar_status := ''IN_STOCK'', ar_updated_at := now\<rparr> \<in>
      set (aw_assets (fst (as_run (w, []) (as_race env now (ar_id r)))))"
proof -
  obtain c1 c2 cs where av: "db_availableConnections (aw_pool w) = c1 # c2 # cs"
    using assms(5) by (cases "db_availableConnections (aw_pool w)"; cases "tl (db_availableConnections (aw_pool w))") auto
  have find: "find (\<lambda>x. ar_id x = ar_id r) (aw_assets w) = Some r"
    using assms(1,2) by (simp add: as_inv_def find_distinct_key)
  have read: "as_readStatus env (ar_id r) s w1 = (Inr (c, ''IN_USE''),
      w1\<lparr>aw_pool := (aw_pool w1)\<lparr>db_availableConnections := ds, db_inUseCount := db_inUseCount (aw_pool w1) + 1\<rparr>\<rparr>)"
    if "s = ''SCRAPPED'' \<or> s = ''IN_STOCK''" "aw_assets w1 = aw_assets w" "pool_ready env (aw_pool w1)"
      "db_availableConnections (aw_pool w1) = c # ds" for s w1 c ds
    using that find assms(3)
    by (auto simp: as_readStatus_def asm_isValidStatus_def as_find_def ready_acquire asm_stringToStatus_def)
  show "r\<lparr>ar_status := ''SCRAPPED'', ar_updated_at := now\<rparr> \<in>
      set (aw_assets (fst (as_run (w, []) (take 3 (as_race env now (ar_id r))))))"
    "r\<lparr>ar_status := ''IN_STOCK'', ar_updated_at := now\<rparr> \<in>
      set (aw_assets (fst (as_run (w, []) (as_race env now (ar_id r)))))"
    using assms(2,4) by (force simp: as_race_def read av)+
qed

text \<open>C5: Assets and their status machine. Threads call the operations in any interleaving, a change of status
  being two steps (read and check, then write). Whatever they do and in whatever state the pool is, no asset
  disappears, its id, code, tag and everything but its status and \<open>updated_at\<close> never change, ids, codes
  and tags stay unique and every status is a valid one. As long as no two changes of the same asset
  overlap (in particular when calls follow one another), a status moves by allowed transitions only
  and a scrapped asset is not touched any more. Without that the transitions are not kept: of two
  overlapping changes of an asset in use, one scraps it and the other then puts it back into stock.\<close>

theorem as_lifecycle:
  assumes "as_inv w"
  shows "as_inv (fst (as_run (w, []) es)) \<and>
    (\<forall>r \<in> set (aw_assets w). \<exists>r' \<in> set (aw_assets (fst (as_run (w, []) es))). as_same_asset r r') \<and>
    (as_no_overlap (w, []) es \<longrightarrow>
      (\<forall>r \<in> set (aw_assets w). \<exists>r' \<in> set (aw_assets (fst (as_run (w, []) es))). as_evolves r r')) \<and>
    (\<forall>r \<in> set (aw_assets w). \<forall>env now. ar_status r = ''IN_USE'' \<and> pool_ready env (aw_pool w) \<and>
        2 \<le> length (db_availableConnections (aw_pool w)) \<longrightarrow>
      r\<lparr>ar_status := ''SCRAPPED'', ar_updated_at := now\<rparr> \<in>
        set (aw_assets (fst (as_run (w, []) (take 3 (as_race env now (ar_id r)))))) \<and>
      r\<lparr>ar_status := ''IN_STOCK'', ar_updated_at := now\<rparr> \<in>
        set (aw_assets (fst (as_run (w, []) (as_race env now (ar_id r))))))"
proof -
  have wf: "as_wf (w, [])" and checked: "as_checked (w, [])"
    using assms by (simp_all add: as_wf_def as_checked_def)
  show ?thesis
    using as_run_keeps [OF wf, of es] as_run_evolves [OF wf checked, of es] as_race_statuses [OF assms]
    unfolding as_rows_rel_def as_wf_def fst_conv by blast
qed

definition sample_params :: "string \<Rightarrow> string \<Rightarrow> CreateAssetParams" where
  "sample_params code epc = \<lparr>cp_name = ''drill'', cp_type = ''tool'', cp_asset_code = code, cp_rfid_epc = epc,
     cp_location = ''A1'', cp_operator_name = ''op''\<rparr>"

definition aw_new :: "DBPool \<Rightarrow> bool \<Rightarrow> AssetWorld" where
  "aw_new p log = \<lparr>aw_pool = p, aw_gen = ag_new, aw_assets = [], aw_next_id = 1, aw_log_table = log, aw_logs = []\<rparr>"

lemma as_inv_new: "as_inv (aw_new p log)"
  by (simp add: as_inv_def aw_new_def)

definition env_full :: DBEnv where
  "env_full = \<lparr>en_valid = \<lambda>_. True, en_create = \<lambda>_. None\<rparr>"

definition full_world :: "bool \<Rightarrow> AssetWorld" where
  "full_world log = (aw_new (db_new (map Some [0 ..< 20])) log)
     \<lparr>aw_assets := [as_new_row 0 (sample_params ''c'' []) ''c'' (aw_new (db_new []) log)], aw_next_id := 2\<rparr>"

lemma full_world_ready: "pool_ready env_full (aw_pool (full_world log))" "db_availableConnections (aw_pool (full_world log)) = [0 ..< 20]"
  by (simp_all add: pool_ready_def env_full_def full_world_def aw_new_def db_new_def Let_def List.map_filter_def
      MAX_CONNECTIONS_def o_def)

text \<open>An asset put into use, scrapped, and asked back into stock, which is refused.\<close>

definition life_events :: "as_event list" where
  "life_events = [BeginUpdate 7 env_full 1 ''IN_USE'' ''op'', FinishUpdate 7 env_full 3,
     RunOp env_full (Create 4 (sample_params ''d'' ''e'')),
     BeginUpdate 8 env_full 1 ''SCRAPPED'' ''op'', FinishUpdate 8 env_full 5,
     BeginUpdate 7 env_full 1 ''IN_STOCK'' ''op'', FinishUpdate 7 env_full 6]"

lemma life_run:
  "as_inv (full_world True)" "as_no_overlap (full_world True, []) life_events"
  "map (\<lambda>r. (ar_id r, ar_status r, ar_updated_at r)) (aw_assets (fst (as_run (full_world True, []) life_events))) =
     [(1, ''SCRAPPED'', 5), (2, ''IN_STOCK'', 4)]"
  by code_simp+

lemma as_lifecycle_witness:
  "as_inv (fst (as_run (full_world True, []) life_events)) \<and>
   (\<exists>r' \<in> set (aw_assets (fst (as_run (full_world True, []) life_events))).
      as_evolves (hd (aw_assets (full_world True))) r' \<and> ar_status r' = ''SCRAPPED'')"
proof -
  note T = as_lifecycle [OF life_run(1), of life_events]
  let ?r = "hd (aw_assets (full_world True))"
  let ?A = "aw_assets (fst (as_run (full_world True, []) life_events))"
  have r: "?r \<in> set (aw_assets (full_world True))" "ar_id ?r = 1"
    by (simp_all add: full_world_def as_new_row_def aw_new_def)
  from T r(1) life_run(2) obtain r' where r': "r' \<in> set ?A" "as_evolves ?r r'" by blast
  then have "ar_id r' = 1" using r(2) by (metis AssetRow.simps(1,2,3) AssetRow.select_convs(1) AssetRow.surjective AssetRow.update_convs(7,9) as_evolves_def as_same_asset_def)
  moreover have "(ar_id r', ar_status r', ar_updated_at r') \<in> set [(1, ''SCRAPPED'', 5), (2, ''IN_STOCK'', 4)]"
    unfolding life_run(3) [symmetric] using r'(1) by auto
  ultimately show ?thesis using T r' by auto
qed

section \<open>Connections that are not given back\<close>

text \<open>
  One accepted change of status when the log's table is missing: of at least two connections one is gone; a
  last one survives, because the log then gets none.
\<close>

lemma as_update_leaks:
  assumes "pool_ready env (aw_pool w)" "\<not> aw_log_table w" "db_availableConnections (aw_pool w) \<noteq> []"
    and "as_updateAssetStatus env now i s u w = (Inr True, w')"
  shows "pool_ready env (aw_pool w') \<and> \<not> aw_log_table w' \<and>
    length (db_availableConnections (aw_pool w')) = max 1 (length (db_availableConnections (aw_pool w)) - 1) \<and>
    db_inUseCount (aw_pool w') = db_inUseCount (aw_pool w) +
      (length (db_availableConnections (aw_pool w)) - length (db_availableConnections (aw_pool w')))"
proof -
  obtain c cs where av: "db_availableConnections (aw_pool w) = c # cs" using assms(3) by (cases "db_availableConnections (aw_pool w)") auto
  obtain l r where w': "w' = (let w2 = as_logAssetOperation env l
        (w\<lparr>aw_pool := (aw_pool w)\<lparr>db_availableConnections := cs, db_inUseCount := db_inUseCount (aw_pool w) + 1\<rparr>,
           aw_assets := map (\<lambda>x. if ar_id x = i then x\<lparr>ar_status := s, ar_updated_at := now\<rparr> else x) (aw_assets w)\<rparr>)
      in w2\<lparr>aw_pool := db_release env c (aw_pool w2)\<rparr>)" "as_find i w = Some r"
    using assms(4) by (auto simp: as_updateAssetStatus_def as_readStatus_def as_writeStatus_def ready_acquire [OF assms(1)] av Let_def
        split: if_splits option.splits)
  show ?thesis
  proof (cases cs)
    case Nil
    then show ?thesis using assms(1,2) av
      by (simp add: w' as_logAssetOperation_def ready_acquire ready_release Let_def)
  next
    case (Cons c2 cs2)
    then show ?thesis using assms(1,2) av
      by (simp add: w' as_logAssetOperation_def ready_acquire ready_release Let_def)
  qed
qed

text \<open>Successive changes of status, all accepted.\<close>

fun as_updates :: "DBEnv \<Rightarrow> (int \<times> int \<times> string \<times> string) list \<Rightarrow> AssetWorld \<Rightarrow> AssetWorld option" where
  "as_updates env [] w = Some w"
| "as_updates env ((now, i, s, u) # xs) w =
     (case as_updateAssetStatus env now i s u w of (Inr True, w1) \<Rightarrow> as_updates env xs w1 | _ \<Rightarrow> None)"

lemma drain_arith:
  fixes n m k i :: nat
  assumes "0 < n" "m = max 1 (n - 1)"
  shows "max 1 (m - k) = max 1 (n - Suc k) \<and> i + (n - m) + min k (m - 1) = i + min (Suc k) (n - 1)"
  using assms by (auto simp: max_def min_def)

text \<open>The operation log drains the pool. No script creates the table the log writes to; without it, each
  accepted change of status leaves the log's connection in use for ever: after \<open>k\<close> changes only
  \<open>n - k\<close> of \<open>n\<close> connections are left, and once one is left the log times out instead.\<close>

theorem as_missing_log_drains:
  assumes "pool_ready env (aw_pool w)" "\<not> aw_log_table w" "db_availableConnections (aw_pool w) \<noteq> []"
    and "as_updates env xs w = Some w'"
  shows "length (db_availableConnections (aw_pool w')) =
      max 1 (length (db_availableConnections (aw_pool w)) - length xs) \<and>
    db_inUseCount (aw_pool w') =
      db_inUseCount (aw_pool w) + min (length xs) (length (db_availableConnections (aw_pool w)) - 1)"
  using assms
proof (induction xs arbitrary: w)
  case Nil
  then show ?case by (cases "db_availableConnections (aw_pool w)") auto
next
  case (Cons x xs)
  obtain now i s u where x: "x = (now, i, s, u)" by (metis prod_cases4)
  obtain w1 where up: "as_updateAssetStatus env now i s u w = (Inr True, w1)" "as_updates env xs w1 = Some w'"
    using Cons.prems(4) by (auto simp: x split: prod.splits sum.splits bool.splits)
  let ?n = "length (db_availableConnections (aw_pool w))" and ?m = "length (db_availableConnections (aw_pool w1))"
  from as_update_leaks [OF Cons.prems(1-3) up(1)]
  have l: "pool_ready env (aw_pool w1)" "\<not> aw_log_table w1" "?m = max 1 (?n - 1)"
    "db_inUseCount (aw_pool w1) = db_inUseCount (aw_pool w) + (?n - ?m)" by blast+
  have "0 < ?m" unfolding l(3) by simp
  then have ne: "db_availableConnections (aw_pool w1) \<noteq> []" by (rule length_greater_0_conv [THEN iffD1])
  have "0 < ?n" using Cons.prems(3) by simp
  from drain_arith [OF this l(3)] Cons.IH [OF l(1,2) ne up(2)] show ?case
    unfolding l(4) length_Cons by presburger
qed

lemma as_missing_log_drains_witness:
  "\<exists>w'. as_updates env_full [(3, 1, ''IN_USE'', ''op''), (4, 1, ''IN_STOCK'', ''op'')] (full_world False) = Some w' \<and>
     length (db_availableConnections (aw_pool w')) = 18"
proof -
  have "as_updates env_full [(3, 1, ''IN_USE'', ''op''), (4, 1, ''IN_STOCK'', ''op'')] (full_world False) \<noteq> None"
    by code_simp
  then obtain w' where w': "as_updates env_full [(3, 1, ''IN_USE'', ''op''), (4, 1, ''IN_STOCK'', ''op'')] (full_world False) = Some w'"
    by blast
  have "\<not> aw_log_table (full_world False)" by (simp add: full_world_def aw_new_def)
  then show ?thesis
    using as_missing_log_drains [OF full_world_ready(1) _ _ w'] w' by (simp add: full_world_ready(2))
qed

text \<open>
  The tag of an asset without one is the empty string, which is unique as any other; so a second asset without
  tag, like any repeated tag or code, makes the insert fail, and the connection of the failed call is lost.
\<close>

lemma as_duplicate_create:
  assumes "pool_ready env (aw_pool w)" "db_availableConnections (aw_pool w) = c # cs"
    and "\<exists>r \<in> set (aw_assets w). ar_rfid_epc r = cp_rfid_epc params"
  shows "fst (as_createAsset env now params w) = Inl SQL_ERROR \<and>
    aw_assets (snd (as_createAsset env now params w)) = aw_assets w \<and>
    aw_pool (snd (as_createAsset env now params w)) =
      (aw_pool w)\<lparr>db_availableConnections := cs, db_inUseCount := db_inUseCount (aw_pool w) + 1\<rparr>"
proof -
  have "\<exists>r \<in> set (aw_assets w). ar_asset_code r = code \<or> ar_rfid_epc r = cp_rfid_epc params" for code
    using assms(3) by blast
  then show ?thesis
    by (simp add: as_createAsset_def ready_acquire [OF assms(1)] assms(2) Let_def split: prod.split)
qed

text \<open>Failing creations shut the service down. With \<open>n\<close> connections free, \<open>n\<close> attempts to create an asset whose tag is
  already in the table (a second asset without tag, say) each throw the database's error and keep
  their connection; the assets are unchanged, but from then on every call times out.\<close>

theorem as_duplicate_creates_exhaust:
  assumes "pool_ready env (aw_pool w)" "\<exists>r \<in> set (aw_assets w). ar_rfid_epc r = cp_rfid_epc params"
    and "n = length (db_availableConnections (aw_pool w))"
    and "f = (\<lambda>w. snd (as_createAsset env now params w))"
  shows "(\<forall>k < n. fst (as_createAsset env now params ((f ^^ k) w)) = Inl SQL_ERROR) \<and>
    aw_assets ((f ^^ n) w) = aw_assets w \<and>
    fst (as_getAsset env i ((f ^^ n) w)) = Inl (Thrown ''DB connection acquire timeout'')"
proof -
  have run: "k \<le> n \<Longrightarrow> aw_assets ((f ^^ k) w) = aw_assets w \<and> pool_ready env (aw_pool ((f ^^ k) w)) \<and>
      db_availableConnections (aw_pool ((f ^^ k) w)) = drop k (db_availableConnections (aw_pool w))" for k
  proof (induction k)
    case 0
    then show ?case using assms(1) by simp
  next
    case (Suc k)
    let ?w = "(f ^^ k) w"
    have k: "k < length (db_availableConnections (aw_pool w))" using Suc.prems assms(3) by simp
    have "db_availableConnections (aw_pool ?w) =
        db_availableConnections (aw_pool w) ! k # drop (Suc k) (db_availableConnections (aw_pool w))"
      using Suc by (simp add: Cons_nth_drop_Suc [OF k])
    from as_duplicate_create [OF _ this, of env params now] Suc assms(2) show ?case by (simp add: assms(4))
  qed
  have "fst (as_createAsset env now params ((f ^^ k) w)) = Inl SQL_ERROR" if "k < n" for k
  proof -
    have "drop k (db_availableConnections (aw_pool w)) \<noteq> []" using that assms(3) by simp
    then obtain c cs where "drop k (db_availableConnections (aw_pool w)) = c # cs" by (meson list.exhaust)
    with run [of k] that assms(2) show ?thesis
      using as_duplicate_create [of env "(f ^^ k) w" c cs params now] by simp
  qed
  moreover have "fst (as_getAsset env i ((f ^^ n) w)) = Inl (Thrown ''DB connection acquire timeout'')"
    using run [of n] assms(3) by (simp add: as_getAsset_def ready_acquire)
  ultimately show ?thesis using run [of n] by simp
qed

lemma as_duplicate_creates_exhaust_witness:
  "fst (as_getAsset env_full 1 (((\<lambda>w. snd (as_createAsset env_full 0 (sample_params [] []) w)) ^^ 20) (full_world True))) =
   Inl (Thrown ''DB connection acquire timeout'')"
proof -
  have "\<exists>r \<in> set (aw_assets (full_world True)). ar_rfid_epc r = cp_rfid_epc (sample_params [] [])"
    by (simp add: full_world_def as_new_row_def sample_params_def)
  from as_duplicate_creates_exhaust [OF full_world_ready(1) this refl refl] show ?thesis
    unfolding full_world_ready(2) by simp
qed

section \<open>Generated codes\<close>

fun ag_codes :: "nat \<Rightarrow> string \<Rightarrow> AssetCodeGenerator \<Rightarrow> string list" where
  "ag_codes 0 pre g = []"
| "ag_codes (Suc n) pre g = (case ag_generate pre g of (c, g') \<Rightarrow> c # ag_codes n pre g')"

lemma ag_codes_eq:
  "ag_codes n pre g =
   map (\<lambda>k. pre @ ''-'' @ to_string (ag_baseYear g) @ ''-'' @ to_string (ag_lastGeneratedCode g + 1 + int k)) [0 ..< n]"
proof (induction n arbitrary: g)
  case 0
  then show ?case by simp
next
  case (Suc n)
  have "[0 ..< Suc n] = 0 # map Suc [0 ..< n]" by (simp add: map_Suc_upt upt_conv_Cons)
  then show ?case by (simp add: Suc ag_generate_def Let_def ac_simps)
qed

text \<open>A run of the generator never repeats a code, but a restart of the server repeats them all: the
  counter is kept in memory only and always starts at the same number.\<close>

theorem ag_codes_distinct:
  "distinct (ag_codes n pre g) \<and>
   (m \<le> n \<longrightarrow> ag_codes m pre ag_new = take m (ag_codes n pre ag_new))"
proof -
  have "distinct (ag_codes n pre g)"
    by (auto simp: ag_codes_eq distinct_map inj_on_def dest: to_string_inj)
  then show ?thesis by (auto simp: ag_codes_eq take_map)
qed

lemma ag_codes_distinct_witness: "ag_codes 1 ''IT-SZ'' ag_new = take 1 (ag_codes 3 ''IT-SZ'' ag_new)"
  using ag_codes_distinct [of 3 "''IT-SZ''" ag_new 1] by simp

end
