(* ===== verification/Inventory.thy ===== *)
theory Inventory
  imports Complex_Main Asset_Service EPC_Validator Idempotency
begin

text \<open>
  \<open>server/services/inventory_service.\{h,cpp\}\<close> and \<open>reconciliation_service.\{h,cpp\}\<close>: inventory tasks, scans of
  EPCs against the asset table, and reconciliation. The services compose the EPC validator, the
  idempotency manager, the connection pool and the database; the SQL is modelled by what it reads and writes.
  Statements on existing tables succeed, with one exception: \<open>IN ()\<close> with no element is an error of the
  database. Iteration over a C++ set of strings is in the order of first occurrence.
\<close>

record InventoryTask =
  it_id :: int
  it_task_name :: string
  it_status :: string
  it_scanned_count :: nat
  it_found_count :: nat
  it_missing_count :: nat
  it_extra_count :: nat
  it_location :: string
  it_operator_name :: string

record InventoryResult =
  ir_found :: "string list"
  ir_missing :: "string list"
  ir_extra :: "string list"

record ScanResultDetail =
  sd_epc :: string
  sd_asset_id :: int
  sd_asset_code :: string
  sd_asset_name :: string
  sd_status :: string

record InventoryWorld =
  iw_pool :: DBPool
  iw_idem :: IdempotencyManager
  iw_assets :: "AssetRow list"
  iw_tasks :: "InventoryTask list"
  iw_next_task :: int
  iw_scan_records :: "((int \<times> string) \<times> nat) list"
  iw_dirty :: "(string \<times> string \<times> string) list"

section \<open>Tasks\<close>

definition is_startTask :: "DBEnv \<Rightarrow> string \<Rightarrow> string \<Rightarrow> string \<Rightarrow> InventoryWorld \<Rightarrow> (fault + int) \<times> InventoryWorld" where
  "is_startTask env taskName location operatorName w =
     (case db_acquire env (iw_pool w) of
        (Inl e, p1) \<Rightarrow> (Inl e, w\<lparr>iw_pool := p1\<rparr>)
      | (Inr c, p1) \<Rightarrow>
          (let i = iw_next_task w;
               t = \<lparr>it_id = i, it_task_name = taskName, it_status = ''PENDING'', it_scanned_count = 0, it_found_count = 0,
                    it_missing_count = 0, it_extra_count = 0, it_location = location, it_operator_name = operatorName\<rparr>
           in (Inr i, w\<lparr>iw_tasks := iw_tasks w @ [t], iw_next_task := i + 1, iw_pool := db_release env c p1\<rparr>)))"

definition is_updateTask ::
  "DBEnv \<Rightarrow> int \<Rightarrow> nat \<Rightarrow> nat \<Rightarrow> nat \<Rightarrow> nat \<Rightarrow> InventoryWorld \<Rightarrow> (fault + bool) \<times> InventoryWorld" where
  "is_updateTask env taskId scanned found missing extra w =
     (case db_acquire env (iw_pool w) of
        (Inl e, p1) \<Rightarrow> (Inl e, w\<lparr>iw_pool := p1\<rparr>)
      | (Inr c, p1) \<Rightarrow>
          (Inr True, w\<lparr>iw_tasks := map (\<lambda>t. if it_id t = taskId
               then t\<lparr>it_scanned_count := scanned, it_found_count := found, it_missing_count := missing,
                      it_extra_count := extra, it_status := ''IN_PROGRESS''\<rparr> else t) (iw_tasks w),
             iw_pool := db_release env c p1\<rparr>))"

definition is_completeTask :: "DBEnv \<Rightarrow> int \<Rightarrow> InventoryWorld \<Rightarrow> (fault + bool) \<times> InventoryWorld" where
  "is_completeTask env taskId w =
     (case db_acquire env (iw_pool w) of
        (Inl e, p1) \<Rightarrow> (Inl e, w\<lparr>iw_pool := p1\<rparr>)
      | (Inr c, p1) \<Rightarrow>
          (Inr True, w\<lparr>iw_tasks := map (\<lambda>t. if it_id t = taskId then t\<lparr>it_status := ''COMPLETED''\<rparr> else t) (iw_tasks w),
             iw_pool := db_release env c p1\<rparr>))"

text \<open>The value-initialised task stands for a task that is not found.\<close>

definition is_no_task :: InventoryTask where
  "is_no_task = \<lparr>it_id = 0, it_task_name = [], it_status = [], it_scanned_count = 0, it_found_count = 0,
     it_missing_count = 0, it_extra_count = 0, it_location = [], it_operator_name = []\<rparr>"

definition is_getTask :: "DBEnv \<Rightarrow> int \<Rightarrow> InventoryWorld \<Rightarrow> (fault + InventoryTask) \<times> InventoryWorld" where
  "is_getTask env taskId w =
     (case db_acquire env (iw_pool w) of
        (Inl e, p1) \<Rightarrow> (Inl e, w\<lparr>iw_pool := p1\<rparr>)
      | (Inr c, p1) \<Rightarrow>
          (Inr (case find (\<lambda>t. it_id t = taskId) (iw_tasks w) of Some t \<Rightarrow> t | None \<Rightarrow> is_no_task),
           w\<lparr>iw_pool := db_release env c p1\<rparr>))"

section \<open>Dirty data\<close>

text \<open>Exceptions are caught.\<close>

definition rs_recordDirtyData :: "DBEnv \<Rightarrow> string \<Rightarrow> string \<Rightarrow> string \<Rightarrow> InventoryWorld \<Rightarrow> InventoryWorld" where
  "rs_recordDirtyData env rawEPC reason sourceReader w =
     (case db_acquire env (iw_pool w) of
        (Inl e, p1) \<Rightarrow> w\<lparr>iw_pool := p1\<rparr>
      | (Inr c, p1) \<Rightarrow> w\<lparr>iw_dirty := iw_dirty w @ [(rawEPC, reason, sourceReader)], iw_pool := db_release env c p1\<rparr>)"

definition rs_getDirtyDataCount :: "DBEnv \<Rightarrow> InventoryWorld \<Rightarrow> nat \<times> InventoryWorld" where
  "rs_getDirtyDataCount env w =
     (case db_acquire env (iw_pool w) of
        (Inl e, p1) \<Rightarrow> (0, w\<lparr>iw_pool := p1\<rparr>)
      | (Inr c, p1) \<Rightarrow> (length (iw_dirty w), w\<lparr>iw_pool := db_release env c p1\<rparr>))"

definition rs_clearDirtyData :: "DBEnv \<Rightarrow> InventoryWorld \<Rightarrow> InventoryWorld" where
  "rs_clearDirtyData env w =
     (case db_acquire env (iw_pool w) of
        (Inl e, p1) \<Rightarrow> w\<lparr>iw_pool := p1\<rparr>
      | (Inr c, p1) \<Rightarrow> w\<lparr>iw_dirty := [], iw_pool := db_release env c p1\<rparr>)"

section \<open>Scans\<close>

text \<open>The loop over the idempotency manager: the EPCs to process, each marked as it is taken.\<close>

fun is_fresh :: "int \<Rightarrow> int \<Rightarrow> string list \<Rightarrow> IdempotencyManager \<Rightarrow> string list \<times> IdempotencyManager" where
  "is_fresh now taskId [] m = ([], m)"
| "is_fresh now taskId (e # es) m =
     (case im_isProcessed now taskId e m of
        (True, m1) \<Rightarrow> is_fresh now taskId es m1
      | (False, m1) \<Rightarrow>
          (case is_fresh now taskId es (im_markProcessed taskId e m1) of (es', m2) \<Rightarrow> (e # es', m2)))"

text \<open>
  What both kinds of scan do before they use the database: the invalid EPCs are recorded, the valid ones
  normalised, made unique and, in a task, reduced to those not yet processed.
\<close>

definition is_prepare :: "DBEnv \<Rightarrow> int \<Rightarrow> string list \<Rightarrow> int \<Rightarrow> InventoryWorld \<Rightarrow> string list \<times> InventoryWorld" where
  "is_prepare env now epcs taskId w =
     (let w1 = foldl (\<lambda>w e. rs_recordDirtyData env e ''Invalid EPC format'' [] w) w (ev_filterInvalidEPCs epcs);
          uniqueEpcs = remdups (ev_filterValidEPCs epcs)
      in if taskId > 0 then
           (case is_fresh now taskId uniqueEpcs (iw_idem w1) of (es, m) \<Rightarrow> (es, w1\<lparr>iw_idem := m\<rparr>))
         else (uniqueEpcs, w1))"

text \<open>The upsert of a scan record.\<close>

definition is_record_scan :: "int \<Rightarrow> ((int \<times> string) \<times> nat) list \<Rightarrow> string \<Rightarrow> ((int \<times> string) \<times> nat) list" where
  "is_record_scan taskId m e =
     AList.update (taskId, e) (case map_of m (taskId, e) of None \<Rightarrow> 1 | Some k \<Rightarrow> k + 1) m"

text \<open>
  The classification of the EPCs to process: \<open>allAssetEPCs\<close> and \<open>foundEPCs\<close> are what the two queries return.
\<close>

definition is_classify :: "string list \<Rightarrow> AssetRow list \<Rightarrow> InventoryResult" where
  "is_classify toProcess assets =
     (let allAssetEPCs = remdups (map ar_rfid_epc (filter (\<lambda>r. ar_status r \<noteq> ''SCRAPPED'') assets));
          foundEPCs = filter (\<lambda>e. e \<in> set toProcess) (map ar_rfid_epc assets)
      in \<lparr>ir_found = filter (\<lambda>e. e \<in> set foundEPCs) toProcess,
          ir_missing = filter (\<lambda>e. e \<notin> set foundEPCs) allAssetEPCs,
          ir_extra = filter (\<lambda>e. e \<notin> set foundEPCs) toProcess\<rparr>)"

definition is_scanEPCs ::
  "DBEnv \<Rightarrow> int \<Rightarrow> string list \<Rightarrow> int \<Rightarrow> InventoryWorld \<Rightarrow> (fault + InventoryResult) \<times> InventoryWorld" where
  "is_scanEPCs env now epcs taskId w =
     (case is_prepare env now epcs taskId w of (toProcess, w1) \<Rightarrow>
      (case db_acquire env (iw_pool w1) of
         (Inl e, p1) \<Rightarrow> (Inl e, w1\<lparr>iw_pool := p1\<rparr>)
       | (Inr c, p1) \<Rightarrow>
           (let w2 = w1\<lparr>iw_pool := p1\<rparr> in
            if toProcess = [] then (Inl SQL_ERROR, w2)
            else
              let res = is_classify toProcess (iw_assets w2)
              in if taskId > 0 then
                   (case is_updateTask env taskId (length toProcess) (length (ir_found res)) (length (ir_missing res))
                           (length (ir_extra res)) w2 of
                      (Inl e, w3) \<Rightarrow> (Inl e, w3)
                    | (Inr _, w3) \<Rightarrow>
                        (Inr res, w3\<lparr>iw_scan_records := foldl (is_record_scan taskId) (iw_scan_records w3) (ir_found res),
                           iw_pool := db_release env c (iw_pool w3)\<rparr>))
                 else (Inr res, w2\<lparr>iw_pool := db_release env c p1\<rparr>))))"

definition is_scanEPCsWithDetails ::
  "DBEnv \<Rightarrow> int \<Rightarrow> string list \<Rightarrow> int \<Rightarrow> InventoryWorld \<Rightarrow> (fault + ScanResultDetail list) \<times> InventoryWorld" where
  "is_scanEPCsWithDetails env now epcs taskId w =
     (case is_prepare env now epcs taskId w of (toProcess, w1) \<Rightarrow>
      (case db_acquire env (iw_pool w1) of
         (Inl e, p1) \<Rightarrow> (Inl e, w1\<lparr>iw_pool := p1\<rparr>)
       | (Inr c, p1) \<Rightarrow>
           (if toProcess = [] then (Inr [], w1\<lparr>iw_pool := db_release env c p1\<rparr>)
            else
              let details = map (\<lambda>r. \<lparr>sd_epc = ar_rfid_epc r, sd_asset_id = ar_id r, sd_asset_code = ar_asset_code r,
                                     sd_asset_name = ar_name r, sd_status = ar_status r\<rparr>)
                              (filter (\<lambda>r. ar_rfid_epc r \<in> set toProcess) (iw_assets w1));
                  w2 = (if taskId > 0
                        then w1\<lparr>iw_scan_records := foldl (is_record_scan taskId) (iw_scan_records w1) (map sd_epc details)\<rparr>
                        else w1)
              in (Inr details, w2\<lparr>iw_pool := db_release env c p1\<rparr>))))"

section \<open>Reconciliation\<close>

record ReconciliationResult =
  rr_total_expected :: nat
  rr_total_found :: nat
  rr_total_missing :: nat
  rr_total_extra :: nat
  rr_accuracy_rate :: real
  rr_profit_rate :: real
  rr_loss_rate :: real
  rr_missing_epcs :: "string list"
  rr_extra_epcs :: "string list"
  rr_found_epcs :: "string list"

text \<open>
  \<open>None\<close> when no connection is had: the caller then gets a result whose numbers are not initialised. A task
  that does not exist has no location, so nothing is expected.
\<close>

definition rs_reconcile ::
  "DBEnv \<Rightarrow> int \<Rightarrow> string list \<Rightarrow> InventoryWorld \<Rightarrow> ReconciliationResult option \<times> InventoryWorld" where
  "rs_reconcile env taskId scannedEPCs w =
     (case db_acquire env (iw_pool w) of
        (Inl e, p1) \<Rightarrow> (None, w\<lparr>iw_pool := p1\<rparr>)
      | (Inr c, p1) \<Rightarrow>
          (let expected = (case find (\<lambda>t. it_id t = taskId) (iw_tasks w) of
                 None \<Rightarrow> []
               | Some t \<Rightarrow> remdups (map ar_rfid_epc
                   (filter (\<lambda>r. ar_location r = it_location t \<and> ar_status r \<noteq> ''SCRAPPED'') (iw_assets w))));
               scanned = remdups scannedEPCs;
               found = filter (\<lambda>e. e \<in> set scanned) expected;
               missing = filter (\<lambda>e. e \<notin> set scanned) expected;
               extra = filter (\<lambda>e. e \<notin> set expected) scanned;
               n = length expected;
               rate = (\<lambda>k. if n > 0 then real k / real n else 0)
           in (Some \<lparr>rr_total_expected = n, rr_total_found = length found, rr_total_missing = length missing,
                 rr_total_extra = length extra, rr_accuracy_rate = rate (length found),
                 rr_profit_rate = rate (length extra), rr_loss_rate = rate (length missing),
                 rr_missing_epcs = missing, rr_extra_epcs = extra, rr_found_epcs = found\<rparr>,
               w\<lparr>iw_pool := db_release env c p1\<rparr>)))"

section \<open>What a scan works on\<close>

text \<open>The normal forms of the valid EPCs of a batch, and whether a pair counts as processed.\<close>

definition is_batch :: "string list \<Rightarrow> string set" where
  "is_batch epcs = ev_normalizeEPC ` {e \<in> set epcs. ev_isValidEPC e}"

definition is_seen :: "IdempotencyManager \<Rightarrow> int \<Rightarrow> string \<Rightarrow> bool" where
  "is_seen m t e \<longleftrightarrow> task_key t e \<in> set (im_processedKeys m)"

lemma is_seen_query: "fst (im_isProcessed now t e m) = is_seen m t e"
  by (simp add: is_seen_def im_isProcessed_def im_cleanupExpired_def im_generateKey_def Let_def)

lemma is_seen_mark: "is_seen (im_markProcessed t e m) t' e' \<longleftrightarrow> is_seen m t' e' \<or> t' = t \<and> e' = e"
  by (auto simp: is_seen_def im_markProcessed_def im_generateKey_def)

lemma is_seen_after_query [simp]: "is_seen (snd (im_isProcessed now t e m)) = is_seen m"
  by (simp add: is_seen_def fun_eq_iff)

lemma is_fresh_facts:
  "distinct es \<Longrightarrow> is_fresh now t es m = (es', m') \<Longrightarrow>
   es' = filter (\<lambda>e. \<not> is_seen m t e) es \<and>
   (\<forall>t' e. is_seen m' t' e \<longleftrightarrow> is_seen m t' e \<or> t' = t \<and> e \<in> set es)"
proof (induction es arbitrary: m es')
  case Nil
  then show ?case by simp
next
  case (Cons e es)
  obtain b m1 where q: "im_isProcessed now t e m = (b, m1)" by (cases "im_isProcessed now t e m")
  have b: "b = is_seen m t e" and m1: "is_seen m1 = is_seen m"
    using is_seen_query [of now t e m] is_seen_after_query [of now t e m] by (simp_all add: q)
  show ?case
  proof (cases b)
    case True
    then show ?thesis using Cons.IH [of m1 es'] Cons.prems q b by (auto simp: m1)
  next
    case False
    obtain es2 where es2: "is_fresh now t es (im_markProcessed t e m1) = (es2, m')" "es' = e # es2"
      using Cons.prems(2) q False by (auto split: prod.splits)
    from Cons.IH [OF _ es2(1)] Cons.prems(1) False b es2(2) show ?thesis
      by (auto simp: is_seen_mark m1 intro!: filter_cong)
  qed
qed

lemma rs_record_fields [simp]:
  "iw_idem (rs_recordDirtyData env e r s w) = iw_idem w"
  "iw_assets (rs_recordDirtyData env e r s w) = iw_assets w"
  "iw_tasks (rs_recordDirtyData env e r s w) = iw_tasks w"
  by (auto simp: rs_recordDirtyData_def split: prod.split sum.split)

lemma rs_records_fields [simp]:
  "iw_idem (foldl (\<lambda>w e. rs_recordDirtyData env e r s w) w es) = iw_idem w"
  "iw_assets (foldl (\<lambda>w e. rs_recordDirtyData env e r s w) w es) = iw_assets w"
  "iw_tasks (foldl (\<lambda>w e. rs_recordDirtyData env e r s w) w es) = iw_tasks w"
  by (induction es arbitrary: w) simp_all

text \<open>Recording dirty data gives its connection back.\<close>

lemma rs_records_pool:
  "pool_ready env (iw_pool w) \<Longrightarrow>
   pool_ready env (iw_pool (foldl (\<lambda>w e. rs_recordDirtyData env e r s w) w es)) \<and>
   length (db_availableConnections (iw_pool (foldl (\<lambda>w e. rs_recordDirtyData env e r s w) w es))) =
     length (db_availableConnections (iw_pool w))"
proof (induction es arbitrary: w)
  case Nil
  then show ?case by simp
next
  case (Cons e es)
  have "pool_ready env (iw_pool (rs_recordDirtyData env e r s w)) \<and>
      length (db_availableConnections (iw_pool (rs_recordDirtyData env e r s w))) =
        length (db_availableConnections (iw_pool w))"
    using Cons.prems by (auto simp: rs_recordDirtyData_def ready_acquire ready_release split: list.split)
  then show ?case using Cons.IH by simp
qed

lemma is_prepare_facts:
  assumes "is_prepare env now epcs taskId w = (es, w1)"
  shows "set es = {e \<in> is_batch epcs. taskId > 0 \<longrightarrow> \<not> is_seen (iw_idem w) taskId e} \<and> distinct es \<and>
    iw_assets w1 = iw_assets w \<and> iw_tasks w1 = iw_tasks w \<and>
    (\<forall>t e. is_seen (iw_idem w1) t e \<longleftrightarrow> is_seen (iw_idem w) t e \<or> taskId > 0 \<and> t = taskId \<and> e \<in> is_batch epcs) \<and>
    iw_pool w1 = iw_pool (foldl (\<lambda>w e. rs_recordDirtyData env e ''Invalid EPC format'' [] w) w (ev_filterInvalidEPCs epcs))"
proof (cases "taskId > 0")
  case False
  then show ?thesis using assms
    by (auto simp: is_prepare_def Let_def is_batch_def ev_filterValid_eq)
next
  case True
  let ?w = "foldl (\<lambda>w e. rs_recordDirtyData env e ''Invalid EPC format'' [] w) w (ev_filterInvalidEPCs epcs)"
  obtain m where m: "is_fresh now taskId (remdups (ev_filterValidEPCs epcs)) (iw_idem w) = (es, m)" "w1 = ?w\<lparr>iw_idem := m\<rparr>"
    using assms True by (auto simp: is_prepare_def Let_def split: prod.splits)
  have batch: "set (ev_filterValidEPCs epcs) = is_batch epcs" by (simp add: is_batch_def ev_filterValid_eq)
  from is_fresh_facts [OF _ m(1)] show ?thesis by (auto simp: m(2) True batch)
qed

lemma is_classify_facts:
  "set (ir_found (is_classify es rs)) = set es \<inter> ar_rfid_epc ` set rs \<and>
   set (ir_extra (is_classify es rs)) = set es - ar_rfid_epc ` set rs \<and>
   set (ir_missing (is_classify es rs)) = ar_rfid_epc ` {r \<in> set rs. ar_status r \<noteq> ''SCRAPPED''} - set es \<and>
   (distinct es \<longrightarrow> distinct (ir_found (is_classify es rs) @ ir_extra (is_classify es rs)))"
  by (auto simp: is_classify_def Let_def)

lemma is_classify_length:
  "length (ir_found (is_classify es rs)) + length (ir_extra (is_classify es rs)) = length es"
  unfolding is_classify_def Let_def InventoryResult.simps by (rule sum_length_filter_compl)

lemma is_scan_success:
  assumes "is_scanEPCs env now epcs taskId w = (Inr res, w')" "is_prepare env now epcs taskId w = (es, w1)"
  shows "es \<noteq> [] \<and> res = is_classify es (iw_assets w1) \<and> iw_assets w' = iw_assets w1 \<and> iw_idem w' = iw_idem w1 \<and>
    (taskId > 0 \<longrightarrow> iw_tasks w' = map (\<lambda>t. if it_id t = taskId
       then t\<lparr>it_scanned_count := length es, it_found_count := length (ir_found res),
              it_missing_count := length (ir_missing res), it_extra_count := length (ir_extra res),
              it_status := ''IN_PROGRESS''\<rparr> else t) (iw_tasks w1))"
  using assms
  by (auto simp: is_scanEPCs_def is_updateTask_def Let_def split: prod.splits sum.splits if_splits)

section \<open>Properties of scans\<close>

text \<open>C3: What a successful scan reports. The EPCs it is about are the normal forms of the valid ones of the batch, in a
  task without those the task has already seen; found and extra split them, without repetition, by
  whether the table has an asset with that tag (scrapped ones included), missing are the tags of all other
  assets that are not scrapped; the assets do not change, and the task now has seen the whole batch.\<close>

theorem is_scan_exact:
  assumes "is_scanEPCs env now epcs taskId w = (Inr res, w')"
    and "P = {e \<in> is_batch epcs. taskId > 0 \<longrightarrow> \<not> is_seen (iw_idem w) taskId e}"
  shows "P \<noteq> {} \<and> distinct (ir_found res @ ir_extra res) \<and>
    set (ir_found res) = P \<inter> ar_rfid_epc ` set (iw_assets w) \<and>
    set (ir_extra res) = P - ar_rfid_epc ` set (iw_assets w) \<and>
    set (ir_missing res) = ar_rfid_epc ` {r \<in> set (iw_assets w). ar_status r \<noteq> ''SCRAPPED''} - P \<and>
    iw_assets w' = iw_assets w \<and>
    (taskId > 0 \<longrightarrow> (\<forall>e \<in> is_batch epcs. is_seen (iw_idem w') taskId e))"
proof -
  obtain es w1 where p: "is_prepare env now epcs taskId w = (es, w1)" by (cases "is_prepare env now epcs taskId w")
  note pf = is_prepare_facts [OF p]
  have "es \<noteq> []" and res: "res = is_classify es (iw_assets w)"
    and w': "iw_assets w' = iw_assets w1" "iw_idem w' = iw_idem w1"
    using is_scan_success [OF assms(1) p] pf by auto
  have P: "set es = P" using pf unfolding assms(2) by (rule conjunct1)
  have "P \<noteq> {}" using \<open>es \<noteq> []\<close> P by auto
  moreover have "distinct es" "iw_assets w1 = iw_assets w" using pf by simp_all
  moreover have "taskId > 0 \<longrightarrow> (\<forall>e \<in> is_batch epcs. is_seen (iw_idem w') taskId e)" using pf w'(2) by simp
  ultimately show ?thesis using is_classify_facts [of es "iw_assets w"] w'(1) unfolding res P by simp blast
qed

text \<open>C37: A second scan of the same tags fails. After a scan of a batch in a task has succeeded, scanning any batch with
  no tags beyond it in that task leaves nothing to look up: the query \<open>IN ()\<close> is rejected by the database, the
  exception leaves the method, and the connection is lost to the pool.\<close>

theorem is_rescan_fails:
  assumes "is_scanEPCs env now epcs taskId w = (Inr res, w')" "taskId > 0" "is_batch epcs' \<subseteq> is_batch epcs"
    and "pool_ready env' (iw_pool w')" "db_availableConnections (iw_pool w') \<noteq> []"
  shows "\<exists>w''. is_scanEPCs env' now' epcs' taskId w' = (Inl SQL_ERROR, w'') \<and>
    length (db_availableConnections (iw_pool w'')) = length (db_availableConnections (iw_pool w')) - 1"
proof -
  obtain es w1 where p: "is_prepare env' now' epcs' taskId w' = (es, w1)" by (cases "is_prepare env' now' epcs' taskId w'")
  note pf = is_prepare_facts [OF p]
  have "\<forall>e \<in> is_batch epcs'. is_seen (iw_idem w') taskId e"
    using is_scan_exact [OF assms(1) refl] assms(2,3) by blast
  then have "set es = {}" using pf assms(2) by auto
  then have es: "es = []" by simp
  have ready: "pool_ready env' (iw_pool w1)"
    "length (db_availableConnections (iw_pool w1)) = length (db_availableConnections (iw_pool w'))"
    using pf rs_records_pool [OF assms(4)] by simp_all
  then obtain c cs where "db_availableConnections (iw_pool w1) = c # cs"
    using assms(5) by (cases "db_availableConnections (iw_pool w1)") auto
  then show ?thesis using ready p
    by (simp add: is_scanEPCs_def es ready_acquire Let_def flip: ready(2))
qed

definition sample_row :: "int \<Rightarrow> string \<Rightarrow> AssetRow" where
  "sample_row i epc = \<lparr>ar_id = i, ar_asset_code = to_string i, ar_name = ''drill'', ar_type = ''tool'', ar_rfid_epc = epc,
     ar_location = ''A1'', ar_status = ''IN_STOCK'', ar_created_at = 0, ar_updated_at = 0\<rparr>"

definition sample_inventory :: InventoryWorld where
  "sample_inventory = \<lparr>iw_pool = db_new (map Some [0 ..< 20]), iw_idem = im_new 0,
     iw_assets = [sample_row 1 ''ABCDEF12'', sample_row 2 ''00000002'', sample_row 3 ''abcdef34''],
     iw_tasks = [is_no_task\<lparr>it_id := 1, it_location := ''A1''\<rparr>], iw_next_task = 2, iw_scan_records = [], iw_dirty = []\<rparr>"

text \<open>A first scan of one tag, written in lower case and with separators, and a broken one.\<close>

definition first_scan :: "(fault + InventoryResult) \<times> InventoryWorld" where
  "first_scan = is_scanEPCs env_full 0 [''ab-cd ef:12'', ''XY''] 1 sample_inventory"

lemma first_scan_ok: "\<exists>res w'. first_scan = (Inr res, w') \<and> ir_found res = [''ABCDEF12''] \<and>
    pool_ready env_full (iw_pool w') \<and> db_availableConnections (iw_pool w') \<noteq> []"
proof -
  have *: "(case fst first_scan of Inl e \<Rightarrow> False | Inr res \<Rightarrow> ir_found res = [''ABCDEF12'']) \<and>
      length (db_pool (iw_pool (snd first_scan))) = 20 \<and> db_availableConnections (iw_pool (snd first_scan)) \<noteq> []"
    by code_simp
  obtain r w' where f: "first_scan = (r, w')" by (cases first_scan)
  obtain res where "r = Inr res" "ir_found res = [''ABCDEF12'']" "length (db_pool (iw_pool w')) = 20"
    "db_availableConnections (iw_pool w') \<noteq> []" using * [unfolded f fst_conv snd_conv] by (cases r) simp_all
  moreover from this(3) have "pool_ready env_full (iw_pool w')"
    by (simp add: pool_ready_def env_full_def MAX_CONNECTIONS_def)
  ultimately show ?thesis using f by blast
qed

lemma is_scan_exact_witness:
  "case first_scan of (Inr res, w') \<Rightarrow> is_seen (iw_idem w') 1 ''ABCDEF12'' \<and> ''00000002'' \<in> set (ir_missing res) | _ \<Rightarrow> False"
proof -
  obtain res w' where f: "first_scan = (Inr res, w')" "ir_found res = [''ABCDEF12'']" using first_scan_ok by blast
  note th = is_scan_exact [OF f(1) [unfolded first_scan_def] refl]
  have "set (ir_found res) \<subseteq> is_batch [''ab-cd ef:12'', ''XY'']" using th by blast
  then have "''ABCDEF12'' \<in> is_batch [''ab-cd ef:12'', ''XY'']" by (simp add: f(2))
  then have "is_seen (iw_idem w') 1 ''ABCDEF12''" using th by auto
  moreover have "''00000002'' \<notin> is_batch [''ab-cd ef:12'', ''XY'']"
  proof -
    have "is_batch [''ab-cd ef:12'', ''XY''] = {''ABCDEF12''}" by code_simp
    then show ?thesis by simp
  qed
  moreover have "sample_row 2 ''00000002'' \<in> {r \<in> set (iw_assets sample_inventory). ar_status r \<noteq> ''SCRAPPED''}"
    by (simp add: sample_inventory_def sample_row_def)
  then have "ar_rfid_epc (sample_row 2 ''00000002'') \<in> ar_rfid_epc ` {r \<in> set (iw_assets sample_inventory). ar_status r \<noteq> ''SCRAPPED''}"
    by (rule imageI)
  then have "''00000002'' \<in> ar_rfid_epc ` {r \<in> set (iw_assets sample_inventory). ar_status r \<noteq> ''SCRAPPED''}"
    unfolding sample_row_def AssetRow.simps .
  ultimately show ?thesis using th unfolding f(1) prod.case sum.case by blast
qed

lemma is_rescan_fails_witness:
  "case first_scan of (Inr res, w') \<Rightarrow> fst (is_scanEPCs env_full 5 [''ab-cd ef:12''] 1 w') = Inl SQL_ERROR | _ \<Rightarrow> False"
proof -
  obtain res w' where f: "first_scan = (Inr res, w')" "pool_ready env_full (iw_pool w')"
    "db_availableConnections (iw_pool w') \<noteq> []" using first_scan_ok by blast
  have "is_batch [''ab-cd ef:12''] \<subseteq> is_batch [''ab-cd ef:12'', ''XY'']" by (auto simp: is_batch_def)
  from is_rescan_fails [OF f(1) [unfolded first_scan_def] _ this f(2,3), of 5] show ?thesis by (auto simp: f(1))
qed

lemma updated_task:
  "t \<in> set (map (\<lambda>u. if it_id u = k then f u else u) ts) \<Longrightarrow> it_id t = k \<Longrightarrow> \<exists>u. t = f u"
  by auto

text \<open>A task remembers its last scan only. Of two successful scans in one task the second one reports as missing every
  asset that the first one found (unless scrapped), and the counters stored with the task are those of
  the second scan alone.\<close>

theorem is_second_scan_forgets:
  assumes "is_scanEPCs env now epcs taskId w = (Inr res, w1)" "taskId > 0"
    and "is_scanEPCs env' now' epcs' taskId w1 = (Inr res', w2)"
  shows "(\<forall>r \<in> set (iw_assets w). ar_rfid_epc r \<in> set (ir_found res) \<and> ar_status r \<noteq> ''SCRAPPED'' \<longrightarrow>
      ar_rfid_epc r \<in> set (ir_missing res')) \<and>
    (\<forall>t \<in> set (iw_tasks w2). it_id t = taskId \<longrightarrow>
      it_found_count t = length (ir_found res') \<and> it_missing_count t = length (ir_missing res') \<and>
      it_extra_count t = length (ir_extra res') \<and> it_scanned_count t = length (ir_found res') + length (ir_extra res'))"
proof -
  note s1 = is_scan_exact [OF assms(1) refl] and s2 = is_scan_exact [OF assms(3) refl]
  have "ar_rfid_epc r \<in> set (ir_missing res')"
    if "r \<in> set (iw_assets w)" "ar_rfid_epc r \<in> set (ir_found res)" "ar_status r \<noteq> ''SCRAPPED''" for r
  proof -
    have "is_seen (iw_idem w1) taskId (ar_rfid_epc r)" using s1 that(2) assms(2) by blast
    moreover have "r \<in> set (iw_assets w1)" using s1 that(1) by simp
    ultimately show ?thesis using s2 that(3) assms(2) by auto
  qed
  moreover obtain es wp where p: "is_prepare env' now' epcs' taskId w1 = (es, wp)" by (cases "is_prepare env' now' epcs' taskId w1")
  from is_scan_success [OF assms(3) p]
  have "res' = is_classify es (iw_assets wp)" and tasks: "iw_tasks w2 = map (\<lambda>t. if it_id t = taskId
       then t\<lparr>it_scanned_count := length es, it_found_count := length (ir_found res'),
              it_missing_count := length (ir_missing res'), it_extra_count := length (ir_extra res'),
              it_status := ''IN_PROGRESS''\<rparr> else t) (iw_tasks wp)" using assms(2) by blast+
  then have len: "length es = length (ir_found res') + length (ir_extra res')"
    by (simp only: is_classify_length)
  moreover have "\<forall>t \<in> set (iw_tasks w2). it_id t = taskId \<longrightarrow>
      it_found_count t = length (ir_found res') \<and> it_missing_count t = length (ir_missing res') \<and>
      it_extra_count t = length (ir_extra res') \<and> it_scanned_count t = length (ir_found res') + length (ir_extra res')"
  proof (intro ballI impI)
    fix t assume t: "t \<in> set (iw_tasks w2)" "it_id t = taskId"
    from updated_task [OF t(1) [unfolded tasks] t(2)]
    show "it_found_count t = length (ir_found res') \<and> it_missing_count t = length (ir_missing res') \<and>
      it_extra_count t = length (ir_extra res') \<and> it_scanned_count t = length (ir_found res') + length (ir_extra res')"
      by (elim exE) (simp add: len)
  qed
  ultimately show ?thesis by blast
qed

lemma is_second_scan_forgets_witness:
  "\<exists>res w1 res' w2. first_scan = (Inr res, w1) \<and> is_scanEPCs env_full 9 [''00000002''] 1 w1 = (Inr res', w2) \<and>
     ''ABCDEF12'' \<in> set (ir_missing res')"
proof -
  obtain res w1 where f: "first_scan = (Inr res, w1)" "ir_found res = [''ABCDEF12'']" using first_scan_ok by blast
  have *: "\<not> isl (fst (is_scanEPCs env_full 9 [''00000002''] 1 (snd first_scan)))" by code_simp
  obtain r w2 where s: "is_scanEPCs env_full 9 [''00000002''] 1 w1 = (r, w2)"
    by (cases "is_scanEPCs env_full 9 [''00000002''] 1 w1")
  obtain res' where r: "r = Inr res'" using * [unfolded f snd_conv s fst_conv] by (cases r) simp_all
  have "sample_row 1 ''ABCDEF12'' \<in> set (iw_assets sample_inventory)" by (simp add: sample_inventory_def)
  moreover have "ar_rfid_epc (sample_row 1 ''ABCDEF12'') = ''ABCDEF12''" "ar_status (sample_row 1 ''ABCDEF12'') \<noteq> ''SCRAPPED''"
    by (simp_all add: sample_row_def)
  moreover have "''ABCDEF12'' \<in> set (ir_found res)" by (simp add: f(2))
  ultimately have "''ABCDEF12'' \<in> set (ir_missing res')"
    using is_second_scan_forgets [OF f(1) [unfolded first_scan_def] _ s [unfolded r]] by fastforce
  then show ?thesis using f(1) s r by blast
qed

text \<open>A tag that is not in normal form is never found. Creating an asset stores the tag as given, scanning looks for normal
  forms only: an asset whose tag has a lower-case letter or a separator is missing in every scan.\<close>

theorem is_unnormalised_never_found:
  assumes "is_scanEPCs env now epcs taskId w = (Inr res, w')"
    and "r \<in> set (iw_assets w)" "ev_normalizeEPC (ar_rfid_epc r) \<noteq> ar_rfid_epc r" "ar_status r \<noteq> ''SCRAPPED''"
  shows "ar_rfid_epc r \<notin> set (ir_found res) \<and> ar_rfid_epc r \<in> set (ir_missing res)"
proof -
  have "ar_rfid_epc r \<notin> is_batch epcs" using assms(3) by (auto simp: is_batch_def)
  then show ?thesis using is_scan_exact [OF assms(1) refl] assms(2,4) by auto
qed

lemma is_unnormalised_never_found_witness:
  "case first_scan of (Inr res, w') \<Rightarrow> ''abcdef34'' \<in> set (ir_missing res) | _ \<Rightarrow> False"
proof -
  obtain res w' where f: "first_scan = (Inr res, w')" using first_scan_ok by blast
  have "ev_normalizeEPC ''abcdef34'' \<noteq> ''abcdef34''" by code_simp
  then show ?thesis
    using is_unnormalised_never_found [OF f [unfolded first_scan_def], of "sample_row 3 ''abcdef34''"]
    by (auto simp: f sample_inventory_def sample_row_def)
qed

lemma real_fraction_sum:
  "real a + real b = real n \<Longrightarrow> 0 < n \<Longrightarrow> real a / real n + real b / real n = 1"
  by (simp flip: add_divide_distrib)

text \<open>C32: Reconciliation compares two sets. With a connection, found and missing split the tags of the assets at
  the task's location that are not scrapped, found and extra split the scanned tags, the totals are their
  sizes, and when something is expected accuracy and loss add up to one.\<close>

theorem rs_reconcile_exact:
  assumes "rs_reconcile env taskId scanned w = (Some rr, w')" "find (\<lambda>t. it_id t = taskId) (iw_tasks w) = Some t"
    and "E = ar_rfid_epc ` {r \<in> set (iw_assets w). ar_location r = it_location t \<and> ar_status r \<noteq> ''SCRAPPED''}"
  shows "set (rr_found_epcs rr) = E \<inter> set scanned \<and> set (rr_missing_epcs rr) = E - set scanned \<and>
    set (rr_extra_epcs rr) = set scanned - E \<and>
    rr_total_expected rr = card E \<and> rr_total_found rr = card (E \<inter> set scanned) \<and>
    rr_total_missing rr = card (E - set scanned) \<and> rr_total_extra rr = card (set scanned - E) \<and>
    (E \<noteq> {} \<longrightarrow> rr_accuracy_rate rr + rr_loss_rate rr = 1)"
proof -
  let ?exp = "remdups (map ar_rfid_epc (filter (\<lambda>r. ar_location r = it_location t \<and> ar_status r \<noteq> ''SCRAPPED'') (iw_assets w)))"
  have E: "set ?exp = E" by (auto simp: assms(3))
  obtain c p1 where "db_acquire env (iw_pool w) = (Inr c, p1)"
    using assms(1) by (auto simp: rs_reconcile_def split: prod.splits sum.splits)
  then have rr: "rr_found_epcs rr = filter (\<lambda>e. e \<in> set scanned) ?exp" "rr_missing_epcs rr = filter (\<lambda>e. e \<notin> set scanned) ?exp"
    "rr_extra_epcs rr = filter (\<lambda>e. e \<notin> set ?exp) (remdups scanned)" "rr_total_expected rr = length ?exp"
    "rr_total_found rr = length (rr_found_epcs rr)" "rr_total_missing rr = length (rr_missing_epcs rr)"
    "rr_total_extra rr = length (rr_extra_epcs rr)"
    "0 < length ?exp \<longrightarrow> rr_accuracy_rate rr = real (length (rr_found_epcs rr)) / real (length ?exp) \<and>
       rr_loss_rate rr = real (length (rr_missing_epcs rr)) / real (length ?exp)"
    using assms(1) by (auto simp: rs_reconcile_def assms(2) Let_def)
  have sets: "set (rr_found_epcs rr) = E \<inter> set scanned" "set (rr_missing_epcs rr) = E - set scanned"
    "set (rr_extra_epcs rr) = set scanned - E"
    unfolding rr(1-3) set_filter E by auto
  have dis: "distinct (rr_found_epcs rr)" "distinct (rr_missing_epcs rr)" "distinct (rr_extra_epcs rr)"
    unfolding rr(1-3) by auto
  have cards: "rr_total_expected rr = card E" "rr_total_found rr = card (E \<inter> set scanned)"
    "rr_total_missing rr = card (E - set scanned)" "rr_total_extra rr = card (set scanned - E)"
    using distinct_card [OF dis(1)] distinct_card [OF dis(2)] distinct_card [OF dis(3)]
      distinct_card [of ?exp] unfolding sets E rr(4-7) by simp_all
  have "rr_accuracy_rate rr + rr_loss_rate rr = 1" if "E \<noteq> {}"
  proof -
    have "?exp \<noteq> []" using that E by force
    then have pos: "0 < length ?exp" by (rule length_greater_0_conv [THEN iffD2])
    have "length (rr_found_epcs rr) + length (rr_missing_epcs rr) = length ?exp"
      unfolding rr(1,2) by (rule sum_length_filter_compl)
    then have "real (length (rr_found_epcs rr)) + real (length (rr_missing_epcs rr)) = real (length ?exp)"
      by (metis of_nat_add)
    moreover have "rr_accuracy_rate rr = real (length (rr_found_epcs rr)) / real (length ?exp)"
      "rr_loss_rate rr = real (length (rr_missing_epcs rr)) / real (length ?exp)" using rr(8) pos by blast+
    ultimately show ?thesis using real_fraction_sum [of _ _ "length ?exp"] pos by (simp only:)
  qed
  with sets cards show ?thesis by blast
qed

lemma rs_reconcile_exact_witness:
  "case rs_reconcile env_full 1 [''ABCDEF12'', ''FF''] sample_inventory of
     (Some rr, _) \<Rightarrow> set (rr_found_epcs rr) = {''ABCDEF12''} \<and> rr_total_extra rr = 1 | _ \<Rightarrow> False"
proof -
  have "fst (rs_reconcile env_full 1 [''ABCDEF12'', ''FF''] sample_inventory) \<noteq> None" by code_simp
  then obtain rr w' where e: "rs_reconcile env_full 1 [''ABCDEF12'', ''FF''] sample_inventory = (Some rr, w')"
    by (metis option.exhaust prod.collapse)
  let ?t = "is_no_task\<lparr>it_id := 1, it_location := ''A1''\<rparr>"
  have "find (\<lambda>t. it_id t = 1) (iw_tasks sample_inventory) = Some ?t" by (simp add: sample_inventory_def)
  note rr = rs_reconcile_exact [OF e this refl]
  have E: "ar_rfid_epc ` {r \<in> set (iw_assets sample_inventory). ar_location r = it_location ?t \<and> ar_status r \<noteq> ''SCRAPPED''} =
      {''ABCDEF12'', ''00000002'', ''abcdef34''}"
  proof -
    have "{r \<in> set (iw_assets sample_inventory). ar_location r = it_location ?t \<and> ar_status r \<noteq> ''SCRAPPED''} =
        {sample_row 1 ''ABCDEF12'', sample_row 2 ''00000002'', sample_row 3 ''abcdef34''}"
      by (auto simp: sample_inventory_def sample_row_def)
    then show ?thesis by (simp add: sample_row_def)
  qed
  have "set (rr_found_epcs rr) = {''ABCDEF12'', ''00000002'', ''abcdef34''} \<inter> set [''ABCDEF12'', ''FF'']"
    "rr_total_extra rr = card (set [''ABCDEF12'', ''FF''] - {''ABCDEF12'', ''00000002'', ''abcdef34''})"
    using rr unfolding E by blast+
  then have "set (rr_found_epcs rr) = {''ABCDEF12''}" "rr_total_extra rr = 1" by auto
  then show ?thesis unfolding e by simp
qed

end
