(* ===== verification/Coordinate_Systems.thy ===== *)
theory Coordinate_Systems
  imports Complex_Main Base
begin

text \<open>
  The registry of coordinate systems (\<open>spatial_truth/coordinate_system/coordinate_system_manager\<close>)
  and the transformer between them (\<open>coordinate_transformer\<close>).

  Every id has the vector of its versions, the last one current; \<open>parent_id\<close> of the current version is
  the edge of the hierarchy. The transformer asks the registry for every step of a path, so its
  operations take the registry as an argument. The registered versions are numbered by one counter of
  64 bits. \<open>cos\<close>, \<open>sin\<close> and \<open>sqrt\<close> are those of the reals.
\<close>

section \<open>Data\<close>

datatype CoordinateUnit = METER | CENTIMETER | MILLIMETER

definition coordinateUnitToString :: "CoordinateUnit \<Rightarrow> string" where
  "coordinateUnitToString u =
     (case u of METER \<Rightarrow> ''meter'' | CENTIMETER \<Rightarrow> ''centimeter'' | MILLIMETER \<Rightarrow> ''millimeter'')"

definition stringToCoordinateUnit :: "string \<Rightarrow> CoordinateUnit" where
  "stringToCoordinateUnit s =
     (if s = ''meter'' then METER else if s = ''centimeter'' then CENTIMETER
      else if s = ''millimeter'' then MILLIMETER else METER)"

record SpatialCoordinateSystem =
  sc_id :: string
  sc_parent_id :: string
  sc_origin_x :: real
  sc_origin_y :: real
  sc_origin_z :: real
  sc_rotation :: real
  sc_unit :: CoordinateUnit
  sc_version :: u64

record Point3D =
  pt_x :: real
  pt_y :: real
  pt_z :: real

definition sc_default :: SpatialCoordinateSystem where
  "sc_default = \<lparr>sc_id = '''', sc_parent_id = '''', sc_origin_x = 0, sc_origin_y = 0, sc_origin_z = 0,
     sc_rotation = 0, sc_unit = METER, sc_version = 1\<rparr>"

datatype CoordinateSystemError =
    CS_NONE | CYCLIC_PARENT_REFERENCE | PARENT_NOT_FOUND | INVALID_UNIT
  | CS_COORDINATE_SYSTEM_NOT_FOUND | ALREADY_EXISTS

text \<open>\<open>CreateCSResult\<close>: an error, or the id and the version given.\<close>

type_synonym CreateCSResult = "CoordinateSystemError + string \<times> u64"

datatype HierarchyNode = HierarchyNode SpatialCoordinateSystem "HierarchyNode list"

section \<open>The registry\<close>

record CoordinateSystemManager =
  cm_systems_by_id :: "(string \<times> SpatialCoordinateSystem list) list"
  cm_next_version :: u64

definition cm_new :: CoordinateSystemManager where
  "cm_new = \<lparr>cm_systems_by_id = [(''global'', [sc_default\<lparr>sc_id := ''global''\<rparr>])], cm_next_version = 1\<rparr>"

text \<open>The current version of an id: \<open>find\<close>, then \<open>back()\<close> of a vector that is not empty.\<close>

definition cm_current :: "CoordinateSystemManager \<Rightarrow> string \<Rightarrow> SpatialCoordinateSystem option" where
  "cm_current m i =
     (case map_of (cm_systems_by_id m) i of
        None \<Rightarrow> None
      | Some vs \<Rightarrow> if vs = [] then None else Some (last vs))"

text \<open>The loop of \<open>wouldCreateCycle\<close> with \<open>max_depth\<close> steps left.\<close>

fun cm_ancestor_within :: "CoordinateSystemManager \<Rightarrow> string \<Rightarrow> nat \<Rightarrow> string \<Rightarrow> bool" where
  "cm_ancestor_within m i 0 current = False"
| "cm_ancestor_within m i (Suc depth) current =
     (if current = [] then False
      else if current = i then True
      else case cm_current m current of
          None \<Rightarrow> False
        | Some c \<Rightarrow> cm_ancestor_within m i depth (sc_parent_id c))"

definition cm_wouldCreateCycle :: "CoordinateSystemManager \<Rightarrow> string \<Rightarrow> string \<Rightarrow> bool" where
  "cm_wouldCreateCycle m i parent =
     (if i = parent then True else if parent = [] then False else cm_ancestor_within m i 10 parent)"

definition cm_isValidUnit :: "CoordinateUnit \<Rightarrow> bool" where
  "cm_isValidUnit u \<longleftrightarrow> u = METER \<or> u = CENTIMETER \<or> u = MILLIMETER"

definition cm_create ::
  "SpatialCoordinateSystem \<Rightarrow> CoordinateSystemManager \<Rightarrow> CreateCSResult \<times> CoordinateSystemManager" where
  "cm_create cs m =
     (if map_of (cm_systems_by_id m) (sc_id cs) \<noteq> None \<and> sc_id cs \<noteq> [] then (Inl ALREADY_EXISTS, m)
      else if sc_parent_id cs \<noteq> [] \<and> cm_current m (sc_parent_id cs) = None then (Inl PARENT_NOT_FOUND, m)
      else if cm_wouldCreateCycle m (sc_id cs) (sc_parent_id cs) then (Inl CYCLIC_PARENT_REFERENCE, m)
      else if \<not> cm_isValidUnit (sc_unit cs) then (Inl INVALID_UNIT, m)
      else let v = cm_next_version m in
        (Inr (sc_id cs, v),
         m\<lparr>cm_systems_by_id := AList.update (sc_id cs) [cs\<lparr>sc_version := v\<rparr>] (cm_systems_by_id m),
           cm_next_version := v + 1\<rparr>))"

definition cm_update ::
  "string \<Rightarrow> SpatialCoordinateSystem \<Rightarrow> CoordinateSystemManager \<Rightarrow> CreateCSResult \<times> CoordinateSystemManager" where
  "cm_update i cs m =
     (if cm_current m i = None then (Inl CS_COORDINATE_SYSTEM_NOT_FOUND, m)
      else if sc_parent_id cs \<noteq> [] \<and> sc_parent_id cs \<noteq> i \<and> cm_wouldCreateCycle m i (sc_parent_id cs)
        then (Inl CYCLIC_PARENT_REFERENCE, m)
      else if sc_parent_id cs \<noteq> [] \<and> sc_parent_id cs \<noteq> i \<and> cm_current m (sc_parent_id cs) = None
        then (Inl PARENT_NOT_FOUND, m)
      else if \<not> cm_isValidUnit (sc_unit cs) then (Inl INVALID_UNIT, m)
      else let v = cm_next_version m; versions = the (map_of (cm_systems_by_id m) i) in
        (Inr (i, v),
         m\<lparr>cm_systems_by_id := AList.update i (versions @ [cs\<lparr>sc_id := i, sc_version := v\<rparr>]) (cm_systems_by_id m),
           cm_next_version := v + 1\<rparr>))"

definition cm_get :: "string \<Rightarrow> u64 \<Rightarrow> CoordinateSystemManager \<Rightarrow> SpatialCoordinateSystem option" where
  "cm_get i version m =
     (case map_of (cm_systems_by_id m) i of
        None \<Rightarrow> None
      | Some vs \<Rightarrow> if vs = [] then None
          else if version = 0 then Some (last vs) else find (\<lambda>c. sc_version c = version) vs)"

definition cm_isRegistered :: "string \<Rightarrow> CoordinateSystemManager \<Rightarrow> bool" where
  "cm_isRegistered i m \<longleftrightarrow> map_of (cm_systems_by_id m) i \<noteq> None"

definition cm_listByParent :: "string \<Rightarrow> CoordinateSystemManager \<Rightarrow> SpatialCoordinateSystem list" where
  "cm_listByParent parent m =
     map (\<lambda>(_, vs). last vs)
       (filter (\<lambda>(_, vs). vs \<noteq> [] \<and> sc_parent_id (last vs) = parent) (cm_systems_by_id m))"

text \<open>\<open>getHierarchyTree\<close> holds the mutex and calls \<open>listByParent\<close>, which locks it, when the root exists.\<close>

definition cm_getHierarchyTree :: "string \<Rightarrow> CoordinateSystemManager \<Rightarrow> fault + HierarchyNode" where
  "cm_getHierarchyTree root_id m =
     (case cm_current m root_id of
        None \<Rightarrow> Inr (HierarchyNode sc_default [])
      | Some _ \<Rightarrow> Inl SelfDeadlock)"

section \<open>The transformer\<close>

fun tf_toMeters :: "real \<Rightarrow> CoordinateUnit \<Rightarrow> real" where
  "tf_toMeters v METER = v"
| "tf_toMeters v CENTIMETER = v / 100"
| "tf_toMeters v MILLIMETER = v / 1000"

fun tf_fromMeters :: "real \<Rightarrow> CoordinateUnit \<Rightarrow> real" where
  "tf_fromMeters v METER = v"
| "tf_fromMeters v CENTIMETER = v * 100"
| "tf_fromMeters v MILLIMETER = v * 1000"

definition tf_applyTransform :: "Point3D \<Rightarrow> SpatialCoordinateSystem \<Rightarrow> Point3D" where
  "tf_applyTransform p cs =
     (let px = tf_toMeters (pt_x p) (sc_unit cs);
          py = tf_toMeters (pt_y p) (sc_unit cs);
          pz = tf_toMeters (pt_z p) (sc_unit cs);
          cos_r = cos (sc_rotation cs); sin_r = sin (sc_rotation cs)
      in \<lparr>pt_x = sc_origin_x cs + cos_r * px - sin_r * py,
          pt_y = sc_origin_y cs + sin_r * px + cos_r * py,
          pt_z = sc_origin_z cs + pz\<rparr>)"

definition tf_applyInverseTransform :: "Point3D \<Rightarrow> SpatialCoordinateSystem \<Rightarrow> Point3D" where
  "tf_applyInverseTransform p cs =
     (let dx = pt_x p - sc_origin_x cs; dy = pt_y p - sc_origin_y cs; dz = pt_z p - sc_origin_z cs;
          cos_r = cos (- sc_rotation cs); sin_r = sin (- sc_rotation cs);
          rx = cos_r * dx - sin_r * dy; ry = sin_r * dx + cos_r * dy
      in \<lparr>pt_x = tf_fromMeters rx (sc_unit cs), pt_y = tf_fromMeters ry (sc_unit cs),
          pt_z = tf_fromMeters dz (sc_unit cs)\<rparr>)"

text \<open>The loop of \<open>getPathToRoot\<close> with \<open>max_depth\<close> steps left.\<close>

fun tf_path :: "CoordinateSystemManager \<Rightarrow> nat \<Rightarrow> string \<Rightarrow> string list" where
  "tf_path m 0 current = []"
| "tf_path m (Suc depth) current =
     (if current = [] then []
      else case cm_get current 0 m of
          None \<Rightarrow> []
        | Some cs \<Rightarrow> if sc_parent_id cs = [] then [current] else current # tf_path m depth (sc_parent_id cs))"

definition tf_getPathToRoot :: "CoordinateSystemManager \<Rightarrow> string \<Rightarrow> string list" where
  "tf_getPathToRoot m i = tf_path m 10 i"

datatype TransformError = TF_COORDINATE_SYSTEM_NOT_FOUND | TRANSFORM_CHAIN_BROKEN

text \<open>Applying a step of a path, read from the registry; a missing system breaks the chain.\<close>

fun tf_run ::
  "CoordinateSystemManager \<Rightarrow> (Point3D \<Rightarrow> SpatialCoordinateSystem \<Rightarrow> Point3D) \<Rightarrow> string list \<Rightarrow> Point3D
    \<Rightarrow> TransformError + Point3D" where
  "tf_run m f [] p = Inr p"
| "tf_run m f (i # ids) p =
     (case cm_get i 0 m of None \<Rightarrow> Inl TRANSFORM_CHAIN_BROKEN | Some cs \<Rightarrow> tf_run m f ids (f p cs))"

definition tf_transform ::
  "CoordinateSystemManager \<Rightarrow> Point3D \<Rightarrow> string \<Rightarrow> string \<Rightarrow> TransformError + Point3D" where
  "tf_transform m point source target =
     (if source = target then Inr point
      else if cm_get source 0 m = None \<or> cm_get target 0 m = None then Inl TF_COORDINATE_SYSTEM_NOT_FOUND
      else case tf_run m tf_applyTransform (filter (\<lambda>i. i \<noteq> source) (tf_getPathToRoot m source)) point of
          Inl e \<Rightarrow> Inl e
        | Inr current \<Rightarrow> tf_run m tf_applyInverseTransform (rev (tf_getPathToRoot m target)) current)"

fun tf_transformChain :: "CoordinateSystemManager \<Rightarrow> Point3D \<Rightarrow> string list \<Rightarrow> TransformError + Point3D" where
  "tf_transformChain m p (a # b # ids) =
     (case tf_transform m p a b of Inl e \<Rightarrow> Inl e | Inr q \<Rightarrow> tf_transformChain m q (b # ids))"
| "tf_transformChain m p ids = Inr p"

definition pt_dist :: "Point3D \<Rightarrow> Point3D \<Rightarrow> real" where
  "pt_dist p q =
     (let dx = pt_x p - pt_x q; dy = pt_y p - pt_y q; dz = pt_z p - pt_z q
      in sqrt (dx * dx + dy * dy + dz * dz))"

definition tf_validateRoundTrip :: "CoordinateSystemManager \<Rightarrow> Point3D \<Rightarrow> string \<Rightarrow> string \<Rightarrow> bool" where
  "tf_validateRoundTrip m point source target =
     (case tf_transform m point source target of
        Inl _ \<Rightarrow> False
      | Inr fwd \<Rightarrow> (case tf_transform m fwd target source of
            Inl _ \<Rightarrow> False
          | Inr back \<Rightarrow> pt_dist point back \<le> 1 / 1000))"

section \<open>Histories of versions\<close>

datatype cm_op = CreateOp SpatialCoordinateSystem | UpdateOp string SpatialCoordinateSystem

fun cm_step :: "cm_op \<Rightarrow> CoordinateSystemManager \<Rightarrow> CreateCSResult \<times> CoordinateSystemManager" where
  "cm_step (CreateOp cs) m = cm_create cs m"
| "cm_step (UpdateOp i cs) m = cm_update i cs m"

definition cm_run :: "cm_op list \<Rightarrow> CoordinateSystemManager \<Rightarrow> CoordinateSystemManager" where
  "cm_run ops m = foldl (\<lambda>m a. snd (cm_step a m)) m ops"

lemma cm_run_simps [simp]: "cm_run [] m = m" "cm_run (a # ops) m = cm_run ops (snd (cm_step a m))"
  by (simp_all add: cm_run_def)

text \<open>What an accepted operation stores under its id, and that a refused one changes nothing.\<close>

lemma cm_step_cases:
  obtains (refused) e where "cm_step a m = (Inl e, m)"
  | (created) cs v m' where "a = CreateOp cs" "v = cm_next_version m" "cm_step a m = (Inr (sc_id cs, v), m')"
      "sc_id cs = [] \<or> map_of (cm_systems_by_id m) (sc_id cs) = None"
      "sc_parent_id cs \<noteq> [] \<longrightarrow> cm_current m (sc_parent_id cs) \<noteq> None"
      "\<not> cm_wouldCreateCycle m (sc_id cs) (sc_parent_id cs)"
      "m' = m\<lparr>cm_systems_by_id := AList.update (sc_id cs) [cs\<lparr>sc_version := v\<rparr>] (cm_systems_by_id m),
         cm_next_version := v + 1\<rparr>"
  | (updated) i cs v vs m' where "a = UpdateOp i cs" "v = cm_next_version m" "cm_step a m = (Inr (i, v), m')"
      "map_of (cm_systems_by_id m) i = Some vs" "vs \<noteq> []"
      "sc_parent_id cs \<noteq> [] \<and> sc_parent_id cs \<noteq> i \<longrightarrow>
         \<not> cm_wouldCreateCycle m i (sc_parent_id cs) \<and> cm_current m (sc_parent_id cs) \<noteq> None"
      "m' = m\<lparr>cm_systems_by_id := AList.update i (vs @ [cs\<lparr>sc_id := i, sc_version := v\<rparr>]) (cm_systems_by_id m),
         cm_next_version := v + 1\<rparr>"
proof (cases a)
  case (CreateOp cs)
  show ?thesis
  proof (cases "fst (cm_step a m)")
    case (Inl e)
    with CreateOp have "cm_step a m = (Inl e, m)"
      by (auto simp: cm_create_def Let_def split: if_splits)
    then show ?thesis by (rule refused)
  next
    case (Inr r)
    with CreateOp show ?thesis
      using created [of cs "cm_next_version m"]
      by (auto simp: cm_create_def Let_def split: if_splits)
  qed
next
  case (UpdateOp i cs)
  show ?thesis
  proof (cases "fst (cm_step a m)")
    case (Inl e)
    with UpdateOp have "cm_step a m = (Inl e, m)"
      by (auto simp: cm_update_def Let_def split: if_splits)
    then show ?thesis by (rule refused)
  next
    case (Inr r)
    with UpdateOp obtain c where "cm_current m i = Some c"
      by (auto simp: cm_update_def split: if_splits)
    then obtain vs where vs: "map_of (cm_systems_by_id m) i = Some vs" "vs \<noteq> []"
      by (auto simp: cm_current_def split: option.splits if_splits)
    with Inr UpdateOp show ?thesis
      using updated [of i cs "cm_next_version m" _ vs]
      by (auto simp: cm_update_def Let_def split: if_splits)
  qed
qed

lemma cm_current_update:
  "vs \<noteq> [] \<Longrightarrow> cm_current (m\<lparr>cm_systems_by_id := AList.update i vs (cm_systems_by_id m), cm_next_version := v\<rparr>) j =
     (if j = i then Some (last vs) else cm_current m j)"
  by (simp add: cm_current_def update_conv')

text \<open>
  The invariant of the registry after \<open>n\<close> accepted operations: every registered id has a history of
  its own versions, numbered below the counter; parents are registered.
\<close>

definition cm_wf :: "nat \<Rightarrow> CoordinateSystemManager \<Rightarrow> bool" where
  "cm_wf n m \<longleftrightarrow>
     cm_next_version m = of_nat (Suc n) \<and>
     (\<forall>i vs. map_of (cm_systems_by_id m) i = Some vs \<longrightarrow>
        vs \<noteq> [] \<and> (\<forall>c \<in> set vs. sc_id c = i) \<and>
        (\<forall>c \<in> set vs. (i = ''global'' \<and> sc_version c = 1) \<or> unat (sc_version c) \<le> n) \<and>
        (sc_parent_id (last vs) = [] \<or> cm_current m (sc_parent_id (last vs)) \<noteq> None))"

lemma cm_wf_new: "cm_wf 0 cm_new"
  by (auto simp: cm_wf_def cm_new_def sc_default_def split: if_splits)

lemma unat_Suc_word: "Suc n < 2 ^ 64 \<Longrightarrow> unat (of_nat (Suc n) :: u64) = Suc n"
  by (simp add: unat_of_nat take_bit_nat_eq_self_iff del: of_nat_Suc)

definition cm_accepted :: "CreateCSResult \<times> CoordinateSystemManager \<Rightarrow> bool" where
  "cm_accepted r \<longleftrightarrow> (\<exists>x. fst r = Inr x)"

lemma cm_wf_store:
  assumes wf: "cm_wf n m" and n: "Suc n < 2 ^ 64"
    and vs: "vs \<noteq> []" "\<forall>c \<in> set vs. sc_id c = i"
      "\<forall>c \<in> set vs. (i = ''global'' \<and> sc_version c = 1) \<or> unat (sc_version c) \<le> Suc n"
    and parent: "sc_parent_id (last vs) = [] \<or> sc_parent_id (last vs) = i \<or> cm_current m (sc_parent_id (last vs)) \<noteq> None"
  shows "cm_wf (Suc n) (m\<lparr>cm_systems_by_id := AList.update i vs (cm_systems_by_id m),
     cm_next_version := cm_next_version m + 1\<rparr>)"
proof -
  have next_v: "cm_next_version m + 1 = of_nat (Suc (Suc n))" using wf by (simp add: cm_wf_def)
  have other: "ws \<noteq> [] \<and> (\<forall>c \<in> set ws. sc_id c = j) \<and>
      (\<forall>c \<in> set ws. (j = ''global'' \<and> sc_version c = 1) \<or> unat (sc_version c) \<le> Suc n) \<and>
      (sc_parent_id (last ws) = [] \<or> cm_current m (sc_parent_id (last ws)) \<noteq> None)"
    if "map_of (cm_systems_by_id m) j = Some ws" for j ws
    using that wf by (fastforce simp: cm_wf_def)
  show ?thesis
    unfolding cm_wf_def cm_current_update [OF vs(1)]
    using next_v other vs parent by (auto simp: update_conv' split: if_splits)
qed

lemma cm_wf_step:
  assumes wf: "cm_wf n m" and n: "Suc n < 2 ^ 64"
  shows "cm_wf (if cm_accepted (cm_step a m) then Suc n else n) (snd (cm_step a m))"
proof (cases rule: cm_step_cases [of a m])
  case (refused e)
  then show ?thesis using wf by (simp add: cm_accepted_def)
next
  case (created cs v m')
  have "unat v = Suc n" using wf unat_Suc_word [OF n] created(2) by (simp add: cm_wf_def)
  then show ?thesis
    using cm_wf_store [OF wf n, of "[cs\<lparr>sc_version := v\<rparr>]" "sc_id cs"] created by (auto simp: cm_accepted_def)
next
  case (updated i cs v vs m')
  have "unat v = Suc n" using wf unat_Suc_word [OF n] updated(2) by (simp add: cm_wf_def)
  moreover have "\<forall>c \<in> set vs. sc_id c = i"
    "\<forall>c \<in> set vs. (i = ''global'' \<and> sc_version c = 1) \<or> unat (sc_version c) \<le> Suc n"
    using wf updated(4) by (auto simp: cm_wf_def dest: le_SucI)
  ultimately have "cm_wf (Suc n) m'"
    unfolding updated(7) using updated(2,6)
    by (intro cm_wf_store [OF wf n, of "vs @ [cs\<lparr>sc_id := i, sc_version := v\<rparr>]" i, folded updated(2)]) auto
  with updated(3) show ?thesis by (simp add: cm_accepted_def)
qed

lemma cm_wf_run:
  "cm_wf n m \<Longrightarrow> n + length ops < 2 ^ 64 - 1 \<Longrightarrow> \<exists>k \<le> n + length ops. cm_wf k (cm_run ops m)"
proof (induction ops arbitrary: n m)
  case Nil
  then show ?case by auto
next
  case (Cons a ops)
  have "Suc n < 2 ^ 64" using Cons.prems(2) by simp
  from cm_wf_step [OF Cons.prems(1) this, of a]
  obtain k where "k \<le> Suc n" "cm_wf k (snd (cm_step a m))" by (metis le_SucI order_refl)
  then obtain k' where "k' \<le> k + length ops" "cm_wf k' (cm_run ops (snd (cm_step a m)))"
    using Cons.IH [of k "snd (cm_step a m)"] Cons.prems(2) by auto
  with \<open>k \<le> Suc n\<close> show ?case by (auto intro: exI [of _ k'])
qed

text \<open>A version that can be found stays findable, for every id but the empty one.\<close>

lemma find_snoc: "find P (xs @ [x]) = (case find P xs of Some y \<Rightarrow> Some y | None \<Rightarrow> if P x then Some x else None)"
  by (induction xs) auto

lemma cm_get_step:
  assumes "cm_get i v m = Some c" "v \<noteq> 0" "i \<noteq> []"
  shows "cm_get i v (snd (cm_step a m)) = Some c"
proof (cases rule: cm_step_cases [of a m])
  case (refused e)
  then show ?thesis using assms by simp
next
  case (created cs w m')
  then have "sc_id cs \<noteq> i" using assms by (auto simp: cm_get_def split: option.splits if_splits)
  then show ?thesis using assms created by (simp add: cm_get_def update_conv')
next
  case (updated j cs w vs m')
  then show ?thesis using assms
    by (auto simp: cm_get_def update_conv' find_snoc split: option.splits if_splits)
qed

lemma cm_get_run:
  "cm_get i v m = Some c \<Longrightarrow> v \<noteq> 0 \<Longrightarrow> i \<noteq> [] \<Longrightarrow> cm_get i v (cm_run ops m) = Some c"
  by (induction ops arbitrary: m) (auto intro: cm_get_step)

fun cm_definition :: "cm_op \<Rightarrow> SpatialCoordinateSystem" where
  "cm_definition (CreateOp cs) = cs"
| "cm_definition (UpdateOp i cs) = cs\<lparr>sc_id := i\<rparr>"

lemma cm_get_accepted:
  assumes wf: "cm_wf n m" and n: "Suc n < 2 ^ 64" and acc: "cm_step a m = (Inr (i, v), m')"
    and glob: "(i, v) \<noteq> (''global'', 1)"
  shows "v \<noteq> 0 \<and> cm_get i v m' = Some (cm_definition a\<lparr>sc_version := v\<rparr>)"
proof -
  have v: "unat (cm_next_version m) = Suc n" using wf unat_Suc_word [OF n] by (simp add: cm_wf_def)
  then have nz: "cm_next_version m \<noteq> 0" by (metis Zero_not_Suc unat_0)
  show ?thesis
  proof (cases rule: cm_step_cases [of a m])
    case (refused e)
    then show ?thesis using acc by simp
  next
    case (created cs w m'')
    then show ?thesis using acc nz by (auto simp: cm_get_def update_conv')
  next
    case (updated j cs w vs m'')
    with acc have iv: "i = j" "v = cm_next_version m"
      "m' = m\<lparr>cm_systems_by_id := AList.update j (vs @ [cs\<lparr>sc_id := j, sc_version := w\<rparr>]) (cm_systems_by_id m),
         cm_next_version := w + 1\<rparr>" by auto
    have "sc_version c \<noteq> v" if "c \<in> set vs" for c
    proof -
      have "(j = ''global'' \<and> sc_version c = 1) \<or> unat (sc_version c) \<le> n"
        using wf updated(4) that by (simp add: cm_wf_def)
      then show ?thesis using glob v iv by auto
    qed
    then have "find (\<lambda>c. sc_version c = v) vs = None" by (auto simp: find_None_iff)
    then show ?thesis using iv nz updated by (simp add: cm_get_def update_conv' find_snoc)
  qed
qed

text \<open>C22: A registered version can be read back for ever: after any sequence of requests, the definition an
  accepted create or update stored is what \<open>get\<close> returns for the id and version that were given out, however
  many requests follow. The exceptions are the ones the code has: a system with the empty id, which a later
  create replaces, and version 1 of \<open>global\<close>, which the default entry already holds.\<close>

theorem cm_versions_persist:
  assumes "length ops < 2 ^ 64 - 2" and "cm_step a (cm_run ops cm_new) = (Inr (i, v), m')"
    and "i \<noteq> []" "(i, v) \<noteq> (''global'', 1)"
  shows "cm_get i v (cm_run later m') = Some (cm_definition a\<lparr>sc_version := v\<rparr>)"
proof -
  obtain k where k: "k \<le> length ops" "cm_wf k (cm_run ops cm_new)"
    using cm_wf_run [OF cm_wf_new, of ops] assms(1) by auto
  then have "Suc k < 2 ^ 64" using assms(1) by linarith
  from cm_get_accepted [OF k(2) this assms(2,4)] show ?thesis using cm_get_run assms(3) by blast
qed

definition cs_line :: "string \<Rightarrow> SpatialCoordinateSystem" where
  "cs_line i = sc_default\<lparr>sc_id := i, sc_parent_id := ''global'', sc_origin_x := 5\<rparr>"

lemma cm_versions_persist_witness:
  "cm_get ''line'' 1 (cm_run [UpdateOp ''line'' (cs_line ''line''\<lparr>sc_origin_x := 7\<rparr>), CreateOp (cs_line ''cell'')]
      (snd (cm_create (cs_line ''line'') cm_new))) = Some (cs_line ''line'')"
proof -
  have "cm_step (CreateOp (cs_line ''line'')) (cm_run [] cm_new) =
      (Inr (''line'', 1), snd (cm_create (cs_line ''line'') cm_new))"
    by (simp add: cm_create_def cm_new_def cs_line_def sc_default_def cm_current_def cm_wouldCreateCycle_def
        cm_isValidUnit_def numeral_eq_Suc)
  from cm_versions_persist [OF _ this, of "[UpdateOp ''line'' (cs_line ''line''\<lparr>sc_origin_x := 7\<rparr>),
      CreateOp (cs_line ''cell'')]"]
  show ?thesis by (simp del: cm_run_simps add: cs_line_def sc_default_def)
qed

text \<open>The exception of \<open>global\<close>: its first update, before any create, is given version 1 too, and asking
  for version 1 returns the default.\<close>

lemma cm_global_version_clash:
  "(case cm_update ''global'' (cs_line ''global''\<lparr>sc_parent_id := ''''\<rparr>) cm_new of
      (r, m) \<Rightarrow> r = Inr (''global'', 1) \<and> cm_get ''global'' 1 m = Some (sc_default\<lparr>sc_id := ''global''\<rparr>) \<and>
        map_option sc_origin_x (cm_get ''global'' 0 m) = Some 5)"
  by (simp add: cm_update_def cm_new_def cs_line_def sc_default_def cm_current_def cm_isValidUnit_def cm_get_def)

section \<open>The hierarchy\<close>

definition cm_parent_of :: "CoordinateSystemManager \<Rightarrow> (string \<times> string) set" where
  "cm_parent_of m = {(i, p). \<exists>c. i \<noteq> [] \<and> cm_current m i = Some c \<and> sc_parent_id c = p \<and> p \<noteq> []}"

lemma cm_get_current: "cm_get i 0 m = cm_current m i"
  by (auto simp: cm_get_def cm_current_def split: option.splits)

lemma tf_path_Suc:
  "tf_path m (Suc d) i = (case cm_current m i of None \<Rightarrow> [] | Some c \<Rightarrow>
     if i = [] then [] else if sc_parent_id c = [] then [i] else i # tf_path m d (sc_parent_id c))"
  by (auto simp: cm_get_current split: option.splits)

lemma length_tf_path: "length (tf_path m d i) \<le> d"
  by (induction d arbitrary: i) (auto simp: tf_path_Suc simp del: tf_path.simps(2) split: option.splits)

lemma tf_path_complete:
  assumes "length (tf_path m d i) < d" "(i, j) \<in> (cm_parent_of m)\<^sup>*" "i \<noteq> []" "cm_current m i \<noteq> None"
    and closed: "\<And>i c. cm_current m i = Some c \<Longrightarrow> sc_parent_id c \<noteq> [] \<Longrightarrow> cm_current m (sc_parent_id c) \<noteq> None"
  shows "j \<in> set (tf_path m d i)"
  using assms(1-4)
proof (induction d arbitrary: i)
  case 0
  then show ?case by simp
next
  case (Suc d)
  then obtain c where c: "cm_current m i = Some c" by auto
  from Suc.prems(2) show ?case
  proof (cases rule: converse_rtranclE)
    case base
    then show ?thesis using Suc.prems c by (simp add: tf_path_Suc del: tf_path.simps(2))
  next
    case (step k)
    then have k: "k = sc_parent_id c" "k \<noteq> []" using c by (auto simp: cm_parent_of_def)
    then have "j \<in> set (tf_path m d k)"
      using Suc.IH [of k] Suc.prems step(2) closed [OF c] c by (simp add: tf_path_Suc del: tf_path.simps(2))
    then show ?thesis using k c Suc.prems(3) by (simp add: tf_path_Suc del: tf_path.simps(2))
  qed
qed

lemma tf_path_root [simp]: "tf_path m d [] = []"
  by (cases d) simp_all

lemma cm_ancestor_within_root [simp]: "\<not> cm_ancestor_within m i d []"
  by (cases d) simp_all

lemma cm_ancestor_within_path:
  assumes "cm_current m i \<noteq> None" "i \<noteq> []"
  shows "cm_ancestor_within m i d p \<longleftrightarrow> i \<in> set (tf_path m d p)"
  using assms
proof (induction d arbitrary: p)
  case 0
  then show ?case by simp
next
  case (Suc d)
  then show ?case
    by (cases "cm_current m p") (auto simp: tf_path_Suc simp del: tf_path.simps(2))
qed

lemma tf_path_reach: "j \<in> set (tf_path m d i) \<Longrightarrow> (i, j) \<in> (cm_parent_of m)\<^sup>*"
proof (induction d arbitrary: i)
  case 0
  then show ?case by simp
next
  case (Suc d)
  show ?case
  proof (cases "j = i")
    case False
    with Suc.prems obtain c where c: "cm_current m i = Some c" "i \<noteq> []" "sc_parent_id c \<noteq> []"
      "j \<in> set (tf_path m d (sc_parent_id c))"
      by (cases "cm_current m i") (auto simp: tf_path_Suc simp del: tf_path.simps(2) split: if_splits)
    then have "(i, sc_parent_id c) \<in> cm_parent_of m" by (auto simp: cm_parent_of_def)
    then show ?thesis using Suc.IH [OF c(4)] by (rule converse_rtrancl_into_rtrancl)
  qed simp
qed

lemma cm_parent_closed:
  "cm_wf n m \<Longrightarrow> cm_current m i = Some c \<Longrightarrow> sc_parent_id c \<noteq> [] \<Longrightarrow> cm_current m (sc_parent_id c) \<noteq> None"
  by (auto simp: cm_wf_def cm_current_def split: option.splits if_splits)

lemma cm_parent_of_target: "cm_wf n m \<Longrightarrow> (j, i) \<in> cm_parent_of m \<Longrightarrow> cm_current m i \<noteq> None"
  using cm_parent_closed [of n m] by (auto simp: cm_parent_of_def)

lemma cm_parent_of_store:
  assumes "vs \<noteq> []" "sc_parent_id (last vs) = p"
  shows "cm_parent_of (m\<lparr>cm_systems_by_id := AList.update i vs (cm_systems_by_id m), cm_next_version := v\<rparr>)
    \<subseteq> (if p = [] then cm_parent_of m else insert (i, p) (cm_parent_of m))"
  using assms by (auto simp: cm_parent_of_def cm_current_update [OF assms(1)] split: if_splits)

lemma acyclic_store:
  assumes "acyclic (cm_parent_of m)" "vs \<noteq> []" "sc_parent_id (last vs) = p"
    and "p \<noteq> [] \<Longrightarrow> (p, i) \<notin> (cm_parent_of m)\<^sup>*"
  shows "acyclic (cm_parent_of (m\<lparr>cm_systems_by_id := AList.update i vs (cm_systems_by_id m), cm_next_version := v\<rparr>))"
  using acyclic_subset [OF _ cm_parent_of_store [OF assms(2,3)]] assms(1,4) by (auto simp: acyclic_insert)

text \<open>
  What a request must not do for the check of the code to suffice: make a system its own parent, use
  the empty id, or hang a system below a parent that is ten or more levels deep.
\<close>

fun cm_careful :: "cm_op \<Rightarrow> CoordinateSystemManager \<Rightarrow> bool" where
  "cm_careful (CreateOp cs) m \<longleftrightarrow> sc_id cs \<noteq> []"
| "cm_careful (UpdateOp i cs) m \<longleftrightarrow> sc_parent_id cs \<noteq> i \<and> length (tf_getPathToRoot m (sc_parent_id cs)) < 10"

fun cm_careful_run :: "cm_op list \<Rightarrow> CoordinateSystemManager \<Rightarrow> bool" where
  "cm_careful_run [] m = True"
| "cm_careful_run (a # ops) m = (cm_careful a m \<and> cm_careful_run ops (snd (cm_step a m)))"

lemma cm_acyclic_step:
  assumes wf: "cm_wf n m" and ac: "acyclic (cm_parent_of m)" and careful: "cm_careful a m"
  shows "acyclic (cm_parent_of (snd (cm_step a m)))"
proof (cases rule: cm_step_cases [of a m])
  case (refused e)
  then show ?thesis using ac by simp
next
  case (created cs v m')
  let ?i = "sc_id cs" and ?p = "sc_parent_id cs"
  have "?p \<noteq> ?i" using created(6) by (auto simp: cm_wouldCreateCycle_def)
  have fresh: "cm_current m ?i = None" using created(1,4) careful by (auto simp: cm_current_def)
  have "(?p, ?i) \<notin> (cm_parent_of m)\<^sup>*"
    using \<open>?p \<noteq> ?i\<close> fresh cm_parent_of_target [OF wf] by (metis rtranclE)
  then show ?thesis
    using acyclic_store [OF ac, of "[cs\<lparr>sc_version := v\<rparr>]" ?p ?i] created(3,7) by simp
next
  case (updated i cs v vs m')
  let ?p = "sc_parent_id cs"
  have "(?p, i) \<notin> (cm_parent_of m)\<^sup>*" if "?p \<noteq> []"
  proof
    assume "(?p, i) \<in> (cm_parent_of m)\<^sup>*"
    moreover have c: "?p \<noteq> i" "\<not> cm_wouldCreateCycle m i ?p" "cm_current m ?p \<noteq> None"
      "length (tf_path m 10 ?p) < 10"
      using updated(1,6) careful that by (auto simp: tf_getPathToRoot_def)
    moreover have i: "cm_current m i \<noteq> None" using updated(4,5) by (simp add: cm_current_def)
    ultimately have mem: "i \<in> set (tf_path m 10 ?p)"
      using tf_path_complete [OF c(4)] that cm_parent_closed [OF wf] by blast
    have "i \<noteq> []"
    proof
      assume "i = []"
      with \<open>(?p, i) \<in> (cm_parent_of m)\<^sup>*\<close> that show False by (auto simp: cm_parent_of_def elim: rtranclE)
    qed
    with mem i have "cm_ancestor_within m i 10 ?p" using cm_ancestor_within_path by blast
    then show False using c(1,2) that by (simp add: cm_wouldCreateCycle_def)
  qed
  then show ?thesis
    using acyclic_store [OF ac, of "vs @ [cs\<lparr>sc_id := i, sc_version := v\<rparr>]" ?p i] updated(3,7) by simp
qed

lemma cm_acyclic_run:
  "cm_wf n m \<Longrightarrow> n + length ops < 2 ^ 64 - 1 \<Longrightarrow> acyclic (cm_parent_of m) \<Longrightarrow> cm_careful_run ops m \<Longrightarrow>
   acyclic (cm_parent_of (cm_run ops m))"
proof (induction ops arbitrary: n m)
  case Nil
  then show ?case by simp
next
  case (Cons a ops)
  have "Suc n < 2 ^ 64" using Cons.prems(2) by simp
  from cm_wf_step [OF Cons.prems(1) this, of a]
  obtain k where "k \<le> Suc n" "cm_wf k (snd (cm_step a m))" by (metis le_SucI order_refl)
  then show ?case
    using Cons.IH [of k "snd (cm_step a m)"] Cons.prems cm_acyclic_step [OF Cons.prems(1,3), of a] by simp
qed

lemma cm_acyclic_new: "acyclic (cm_parent_of cm_new)"
proof -
  have "cm_parent_of cm_new = {}"
    by (auto simp: cm_parent_of_def cm_current_def cm_new_def sc_default_def split: if_splits)
  then show ?thesis by (simp add: acyclic_def)
qed

text \<open>C23: The hierarchy stays a forest under careful requests: starting from the default registry, creates with
  a non-empty id and updates that neither name the system itself as its parent nor hang it below a parent
  that is ten levels deep never close a cycle of parents.\<close>

theorem cm_hierarchy_acyclic:
  assumes "length ops < 2 ^ 64 - 1" and "cm_careful_run ops cm_new"
  shows "acyclic (cm_parent_of (cm_run ops cm_new))"
  using cm_acyclic_run [OF cm_wf_new _ cm_acyclic_new] assms by simp

lemma cm_hierarchy_acyclic_witness:
  "acyclic (cm_parent_of (cm_run [CreateOp (cs_line ''line''),
      UpdateOp ''line'' (cs_line ''line''\<lparr>sc_parent_id := ''''\<rparr>)] cm_new))"
  by (rule cm_hierarchy_acyclic) (simp_all add: cs_line_def sc_default_def tf_getPathToRoot_def)

text \<open>Both conditions on updates are needed: the code accepts a system as its own parent, and below a parent
  that is ten levels deep its check no longer sees the system.\<close>

lemma cm_self_parent_accepted:
  "(case cm_update ''global'' (cs_line ''global'') cm_new of
      (r, m) \<Rightarrow> r = Inr (''global'', 1) \<and> (''global'', ''global'') \<in> cm_parent_of m \<and>
        length (tf_getPathToRoot m ''global'') = 10)"
  by (simp add: cm_update_def cm_new_def cs_line_def sc_default_def cm_current_def cm_isValidUnit_def
      cm_parent_of_def tf_getPathToRoot_def cm_get_def numeral_eq_Suc)

definition cm_deep :: "cm_op list" where
  "cm_deep = CreateOp (cs_line ''a'') # map (\<lambda>n. CreateOp ((cs_line (replicate (Suc (Suc n)) (CHR ''a'')))
     \<lparr>sc_parent_id := replicate (Suc n) (CHR ''a'')\<rparr>)) [0..<10]"

lemma cm_deep_cycle_accepted:
  "fst (cm_update ''a'' (cs_line ''a''\<lparr>sc_parent_id := replicate 11 (CHR ''a'')\<rparr>) (cm_run cm_deep cm_new)) =
     Inr (''a'', 12)"
  by code_simp

section \<open>Paths to the root\<close>

lemma tf_path_edges:
  "k + 1 < length (tf_path m d i) \<Longrightarrow> (tf_path m d i ! k, tf_path m d i ! (k + 1)) \<in> cm_parent_of m"
proof (induction d arbitrary: i k)
  case 0
  then show ?case by simp
next
  case (Suc d)
  then obtain c where c: "cm_current m i = Some c" "i \<noteq> []" "sc_parent_id c \<noteq> []"
    "tf_path m (Suc d) i = i # tf_path m d (sc_parent_id c)"
    by (cases "cm_current m i") (auto simp: tf_path_Suc simp del: tf_path.simps(2) split: if_splits)
  show ?case
  proof (cases k)
    case 0
    with Suc.prems c have "tf_path m d (sc_parent_id c) \<noteq> []" by auto
    then have "hd (tf_path m d (sc_parent_id c)) = sc_parent_id c"
      by (cases d) (auto simp: tf_path_Suc simp del: tf_path.simps(2) split: option.splits if_splits)
    with c 0 \<open>tf_path m d (sc_parent_id c) \<noteq> []\<close> show ?thesis
      by (auto simp: cm_parent_of_def hd_conv_nth simp del: tf_path.simps(2))
  next
    case (Suc l)
    with Suc.prems c(4) have "l + 1 < length (tf_path m d (sc_parent_id c))" by (simp del: tf_path.simps(2))
    from Suc.IH [OF this] show ?thesis using c(4) Suc by (simp del: tf_path.simps(2))
  qed
qed

text \<open>C24: \<open>getPathToRoot\<close> always ends, on cyclic hierarchies too, after at most ten levels. On a registry
  reached by requests it lists the system first and then parent after parent; a path of fewer than ten
  entries is the complete set of the system's ancestors, so a cycle shows as a path of ten.\<close>

theorem tf_path_total:
  assumes "length ops < 2 ^ 64 - 1" and "m = cm_run ops cm_new"
  shows "length (tf_getPathToRoot m i) \<le> 10 \<and>
    (\<forall>k. k + 1 < length (tf_getPathToRoot m i) \<longrightarrow>
       (tf_getPathToRoot m i ! k, tf_getPathToRoot m i ! (k + 1)) \<in> cm_parent_of m) \<and>
    (length (tf_getPathToRoot m i) < 10 \<and> i \<noteq> [] \<and> cm_isRegistered i m \<longrightarrow>
       set (tf_getPathToRoot m i) = {j. (i, j) \<in> (cm_parent_of m)\<^sup>*})"
proof -
  obtain k where k: "cm_wf k m"
    using cm_wf_run [OF cm_wf_new, of ops] assms by auto
  have reg: "cm_current m i \<noteq> None" if "cm_isRegistered i m"
    using that k by (auto simp: cm_isRegistered_def cm_current_def cm_wf_def)
  have "{j. (i, j) \<in> (cm_parent_of m)\<^sup>*} \<subseteq> set (tf_path m 10 i)"
    if "length (tf_path m 10 i) < 10" "i \<noteq> []" "cm_isRegistered i m"
    using tf_path_complete [OF that(1) _ that(2) reg [OF that(3)]] cm_parent_closed [OF k] by blast
  then show ?thesis
    unfolding tf_getPathToRoot_def using length_tf_path tf_path_edges tf_path_reach by blast
qed

lemma tf_path_total_witness:
  "set (tf_getPathToRoot (cm_run [CreateOp (cs_line ''line'')] cm_new) ''line'') = {''line'', ''global''} \<and>
   {j. (''line'', j) \<in> (cm_parent_of (cm_run [CreateOp (cs_line ''line'')] cm_new))\<^sup>*} = {''line'', ''global''}"
proof -
  have path: "tf_getPathToRoot (cm_run [CreateOp (cs_line ''line'')] cm_new) ''line'' = [''line'', ''global'']"
    "cm_isRegistered ''line'' (cm_run [CreateOp (cs_line ''line'')] cm_new)" by code_simp+
  then show ?thesis
    using tf_path_total [OF _ refl, of "[CreateOp (cs_line ''line'')]" "''line''"] by simp
qed

section \<open>The transformer\<close>

lemma tf_meters [simp]: "tf_fromMeters (tf_toMeters v u) u = v" "tf_toMeters (tf_fromMeters v u) u = v"
  by (cases u; simp)+

lemma cos_sin_rotate:
  fixes c s x y :: real
  assumes "c\<^sup>2 + s\<^sup>2 = 1"
  shows "c * (c * x - s * y) + s * (s * x + c * y) = x" "c * (s * x + c * y) - s * (c * x - s * y) = y"
    "c * (c * x + s * y) - s * (c * y - s * x) = x" "s * (c * x + s * y) + c * (c * y - s * x) = y"
proof -
  have "c * (c * x - s * y) + s * (s * x + c * y) = (c\<^sup>2 + s\<^sup>2) * x"
    "c * (s * x + c * y) - s * (c * x - s * y) = (c\<^sup>2 + s\<^sup>2) * y"
    "c * (c * x + s * y) - s * (c * y - s * x) = (c\<^sup>2 + s\<^sup>2) * x"
    "s * (c * x + s * y) + c * (c * y - s * x) = (c\<^sup>2 + s\<^sup>2) * y"
    by (simp_all add: power2_eq_square algebra_simps)
  then show "c * (c * x - s * y) + s * (s * x + c * y) = x" "c * (s * x + c * y) - s * (c * x - s * y) = y"
    "c * (c * x + s * y) - s * (c * y - s * x) = x" "s * (c * x + s * y) + c * (c * y - s * x) = y"
    using assms by simp_all
qed

lemma tf_inverse_apply [simp]: "tf_applyInverseTransform (tf_applyTransform p cs) cs = p"
  using cos_sin_rotate(1,2) [of "cos (sc_rotation cs)" "sin (sc_rotation cs)"]
  by (simp add: tf_applyInverseTransform_def tf_applyTransform_def Let_def)

lemma tf_apply_inverse [simp]: "tf_applyTransform (tf_applyInverseTransform p cs) cs = p"
  using cos_sin_rotate(3,4) [of "cos (sc_rotation cs)" "sin (sc_rotation cs)"]
  by (simp add: tf_applyInverseTransform_def tf_applyTransform_def Let_def algebra_simps)

lemma pt_dist_self [simp]: "pt_dist p p = 0"
  by (simp add: pt_dist_def)

text \<open>\<open>a\<close> hangs directly below \<open>global\<close>, which is as the registry made it.\<close>

definition tf_below_global :: "CoordinateSystemManager \<Rightarrow> string \<Rightarrow> SpatialCoordinateSystem \<Rightarrow> bool" where
  "tf_below_global m a cs \<longleftrightarrow>
     cm_current m ''global'' = Some (sc_default\<lparr>sc_id := ''global''\<rparr>) \<and>
     a \<noteq> ''global'' \<and> a \<noteq> [] \<and> cm_current m a = Some cs \<and> sc_parent_id cs = ''global''"

lemma tf_default_identity:
  "tf_applyTransform p (sc_default\<lparr>sc_id := i\<rparr>) = p" "tf_applyInverseTransform p (sc_default\<lparr>sc_id := i\<rparr>) = p"
  by (simp_all add: tf_applyTransform_def tf_applyInverseTransform_def sc_default_def)

lemma tf_path_below_global:
  assumes "tf_below_global m a cs"
  shows "tf_getPathToRoot m a = [a, ''global'']" "tf_getPathToRoot m ''global'' = [''global'']"
  using assms by (simp_all add: tf_below_global_def tf_getPathToRoot_def cm_get_current sc_default_def numeral_eq_Suc)

lemma tf_transform_below_global:
  assumes "tf_below_global m a cs"
  shows "tf_transform m p a ''global'' = Inr p"
    "tf_transform m p ''global'' a = Inr (tf_applyInverseTransform p cs)"
    "tf_below_global m b cs' \<Longrightarrow> a \<noteq> b \<Longrightarrow> tf_transform m p a b = Inr (tf_applyInverseTransform p cs')"
proof -
  note path = tf_path_below_global [OF assms]
  from assms show "tf_transform m p a ''global'' = Inr p"
    "tf_transform m p ''global'' a = Inr (tf_applyInverseTransform p cs)"
    unfolding tf_transform_def path
    by (auto simp: tf_below_global_def cm_get_current tf_default_identity)
  show "tf_transform m p a b = Inr (tf_applyInverseTransform p cs')"
    if b: "tf_below_global m b cs'" and "a \<noteq> b"
    using assms that unfolding tf_transform_def path tf_path_below_global [OF b]
    by (auto simp: tf_below_global_def cm_get_current tf_default_identity)
qed

text \<open>Transforming out of a system leaves out that system's own transform. The single steps are inverse
  to each other, but for a system below \<open>global\<close> the way up is the identity whatever its origin, rotation
  and unit, while the way down is the inverse transform; hence the round trip through \<open>global\<close> validates
  exactly for the points the inverse transform moves by at most a millimetre, and from any two siblings a
  point reaches a third with the same coordinates.\<close>

theorem tf_source_dropped:
  assumes "tf_below_global m a cs"
  shows "tf_applyInverseTransform (tf_applyTransform p cs) cs = p \<and>
    tf_applyTransform (tf_applyInverseTransform p cs) cs = p \<and>
    tf_transform m p a ''global'' = Inr p \<and>
    tf_transform m p ''global'' a = Inr (tf_applyInverseTransform p cs) \<and>
    (tf_validateRoundTrip m p a ''global'' \<longleftrightarrow> pt_dist p (tf_applyInverseTransform p cs) \<le> 1 / 1000) \<and>
    (tf_below_global m b ba \<and> tf_below_global m c ca \<and> a \<noteq> c \<and> b \<noteq> c \<longrightarrow>
       tf_transform m p a c = tf_transform m p b c)"
  using tf_transform_below_global [OF assms]
    tf_transform_below_global(3) [of m b ba c ca] by (auto simp: tf_validateRoundTrip_def)

lemma tf_source_dropped_witness:
  "tf_transform (cm_run [CreateOp (cs_line ''line'')] cm_new) \<lparr>pt_x = 1, pt_y = 2, pt_z = 3\<rparr> ''line'' ''global'' =
     Inr \<lparr>pt_x = 1, pt_y = 2, pt_z = 3\<rparr> \<and>
   \<not> tf_validateRoundTrip (cm_run [CreateOp (cs_line ''line'')] cm_new) \<lparr>pt_x = 1, pt_y = 2, pt_z = 3\<rparr> ''line'' ''global''"
proof -
  have "tf_below_global (cm_run [CreateOp (cs_line ''line'')] cm_new) ''line'' (cs_line ''line'')"
    by (simp add: tf_below_global_def cm_create_def cm_new_def cs_line_def sc_default_def cm_current_def
        cm_wouldCreateCycle_def cm_isValidUnit_def numeral_eq_Suc)
  from tf_source_dropped [OF this, of "\<lparr>pt_x = 1, pt_y = 2, pt_z = 3\<rparr>"]
  show ?thesis
    by (simp add: tf_applyInverseTransform_def cs_line_def sc_default_def pt_dist_def del: cm_run_simps)
qed

text \<open>The tree below \<open>global\<close> is never returned: the method waits for its own mutex.\<close>

lemma cm_current_step: "cm_current m i \<noteq> None \<Longrightarrow> cm_current (snd (cm_step a m)) i \<noteq> None"
  by (cases rule: cm_step_cases [of a m]) (auto simp: cm_current_update)

lemma cm_tree_deadlocks: "cm_getHierarchyTree ''global'' (cm_run ops cm_new) = Inl SelfDeadlock"
proof -
  have "cm_current m i \<noteq> None \<Longrightarrow> cm_current (cm_run ops m) i \<noteq> None" for m i
    by (induction ops arbitrary: m) (use cm_current_step in auto)
  from this [of cm_new "''global''"] show ?thesis
    by (auto simp: cm_getHierarchyTree_def cm_current_def cm_new_def split: option.splits)
qed

lemma unit_roundtrip: "stringToCoordinateUnit (coordinateUnitToString u) = u"
  by (cases u) (simp_all add: stringToCoordinateUnit_def coordinateUnitToString_def)

end
