(* ===== verification/Spatial_Estimate.thy ===== *)
theory Spatial_Estimate
  imports Complex_Main Base "HOL-Library.List_Lexorder" "HOL-Library.Char_ord"
begin

text \<open>
  The estimate of a position (\<open>spatial_truth/spatial_estimate\<close>): its builder with the repair of the
  covariance and the error radius, the judge that calls it trusted, the projection to tag positions, and
  the hash of the observations it was made from. \<open>std::to_string(double)\<close> prints six decimals.
\<close>

unbundle bit_operations_syntax

datatype LocalizationMode = RSSI_ONLY | RSSI_TRIANGULATION | RSSI_PHASE | AOA | BEAMFORMING

record SpatialEstimate =
  se_x :: real
  se_y :: real
  se_z :: real
  se_confidence :: real
  se_covariance_xx :: real
  se_covariance_xy :: real
  se_covariance_yy :: real
  se_error_radius :: real
  se_source_hash :: u64
  se_environment_hash :: u64
  se_calibration_version :: u64
  se_mode :: LocalizationMode
  se_trusted :: bool

record TagPosition =
  tp_x :: real
  tp_y :: real
  tp_confidence :: real
  tp_velocity_x :: real
  tp_velocity_y :: real
  tp_timestamp :: u64

definition toTagPosition :: "SpatialEstimate \<Rightarrow> u64 \<Rightarrow> TagPosition" where
  "toTagPosition est timestamp =
     \<lparr>tp_x = se_x est, tp_y = se_y est, tp_confidence = se_confidence est, tp_velocity_x = 0,
      tp_velocity_y = 0, tp_timestamp = timestamp\<rparr>"

definition pj_toTagPositionList :: "SpatialEstimate list \<Rightarrow> u64 \<Rightarrow> TagPosition list" where
  "pj_toTagPositionList estimates timestamp = map (\<lambda>est. toTagPosition est timestamp) estimates"

section \<open>Error radius and trust\<close>

definition er_calculate :: "real \<Rightarrow> real \<Rightarrow> real \<Rightarrow> real \<Rightarrow> real" where
  "er_calculate cov_xx cov_xy cov_yy confidence_level =
     (let trace = cov_xx + cov_yy;
          det = cov_xx * cov_yy - cov_xy * cov_xy;
          discriminant = max 0 (trace * trace - 4 * det);
          lambda_max0 = (trace + sqrt discriminant) / 2;
          lambda_max = (if lambda_max0 < 0 then 0 else lambda_max0);
          z_score = (if confidence_level < 99 / 100 then 196 / 100 else 2576 / 1000)
      in z_score * sqrt lambda_max)"

definition er_calculateFromP95 :: "real \<Rightarrow> real" where
  "er_calculateFromP95 p95 = p95"

record TrustedJudge =
  tj_confidence_threshold :: real
  tj_error_radius_threshold :: real

definition tj_default :: TrustedJudge where
  "tj_default = \<lparr>tj_confidence_threshold = 7 / 10, tj_error_radius_threshold = 20 / 100\<rparr>"

definition tj_judge :: "TrustedJudge \<Rightarrow> real \<Rightarrow> real \<Rightarrow> u64 \<Rightarrow> bool" where
  "tj_judge j confidence error_radius calibration_version \<longleftrightarrow>
     confidence \<ge> tj_confidence_threshold j \<and> error_radius \<le> tj_error_radius_threshold j \<and>
     calibration_version > 0"

section \<open>The builder\<close>

record FusionResult =
  fr_x :: real
  fr_y :: real
  fr_z :: real
  fr_mode :: LocalizationMode

record SpatialProbability =
  sp_covariance_xx :: real
  sp_covariance_xy :: real
  sp_covariance_yy :: real

definition sp_det :: "SpatialProbability \<Rightarrow> real" where
  "sp_det prob = sp_covariance_xx prob * sp_covariance_yy prob - sp_covariance_xy prob * sp_covariance_xy prob"

definition eb_epsilon :: real where
  "eb_epsilon = 1 / 1000000000"

definition eb_fixPositiveDefinite :: "SpatialProbability \<Rightarrow> SpatialProbability" where
  "eb_fixPositiveDefinite prob =
     (if sp_det prob \<le> 0 then
        let xx = \<bar>sp_covariance_xx prob\<bar>; yy = \<bar>sp_covariance_yy prob\<bar>
        in prob\<lparr>sp_covariance_xy := 0,
                sp_covariance_xx := (if xx < eb_epsilon then eb_epsilon else xx),
                sp_covariance_yy := (if yy < eb_epsilon then eb_epsilon else yy)\<rparr>
      else prob)"

definition eb_build ::
  "FusionResult \<Rightarrow> SpatialProbability \<Rightarrow> real \<Rightarrow> u64 \<Rightarrow> u64 \<Rightarrow> u64 \<Rightarrow> real \<Rightarrow> SpatialEstimate" where
  "eb_build fusion prob confidence calibration_version source_hash environment_hash p95_from_calibration =
     (let fixed = eb_fixPositiveDefinite prob;
          radius1 = (if p95_from_calibration > 0 then er_calculateFromP95 p95_from_calibration
                     else er_calculate (sp_covariance_xx fixed) (sp_covariance_xy fixed)
                            (sp_covariance_yy fixed) (95 / 100));
          radius = (if sp_det prob \<le> 0 then 1 else radius1)
      in \<lparr>se_x = fr_x fusion, se_y = fr_y fusion, se_z = fr_z fusion, se_confidence = confidence,
          se_covariance_xx = sp_covariance_xx fixed, se_covariance_xy = sp_covariance_xy fixed,
          se_covariance_yy = sp_covariance_yy fixed, se_error_radius = radius, se_source_hash = source_hash,
          se_environment_hash = environment_hash, se_calibration_version = calibration_version,
          se_mode = fr_mode fusion, se_trusted = tj_judge tj_default confidence radius calibration_version\<rparr>)"

section \<open>The hash of the observations\<close>

text \<open>\<open>fnv1a\<close>: a \<open>char\<close> is signed, so its cast to 64 bits extends the sign.\<close>

definition fnv1a :: "string \<Rightarrow> u64" where
  "fnv1a s = foldl (\<lambda>hash c. (hash XOR scast (of_char c :: 8 word)) * 1099511628211) 14695981039346656037 s"

text \<open>\<open>std::to_string(double)\<close>: six decimals, rounded half to even.\<close>

definition round_half_even :: "real \<Rightarrow> int" where
  "round_half_even r =
     (let f = \<lfloor>r\<rfloor>; d = r - of_int f in if d < 1 / 2 \<or> d = 1 / 2 \<and> even f then f else f + 1)"

definition to_string_f :: "real \<Rightarrow> string" where
  "to_string_f r =
     (let n = nat (round_half_even (\<bar>r\<bar> * 1000000)); frac = digits_of (n mod 1000000)
      in (if r < 0 then ''-'' else '''') @ digits_of (n div 1000000) @ ''.'' @ replicate (6 - length frac) (CHR ''0'') @ frac)"

record ObservationData =
  ob_epc :: string
  ob_rssi :: real
  ob_phase :: real
  ob_reader_id :: string
  ob_timestamp :: u64

record RFEnvironmentFeatures =
  rf_channel_quality :: real
  rf_interference_level :: real
  rf_multipath_factor :: real

definition ob_print :: "ObservationData \<Rightarrow> string" where
  "ob_print obs = ob_epc obs @ ''|'' @ ob_reader_id obs @ ''|'' @ to_string_f (ob_rssi obs) @ ''|'' @
     to_string_f (ob_phase obs) @ ''|'' @ to_string (uint (ob_timestamp obs)) @ '';''"

definition sh_calculate :: "ObservationData list \<Rightarrow> u64" where
  "sh_calculate observations =
     fnv1a (concat (map ob_print
       (std_sort (\<lambda>a b. if ob_reader_id a \<noteq> ob_reader_id b then ob_reader_id a < ob_reader_id b
                        else ob_timestamp a < ob_timestamp b) observations)))"

definition sh_calculateEnvironmentHash :: "RFEnvironmentFeatures \<Rightarrow> u64" where
  "sh_calculateEnvironmentHash rf =
     fnv1a (to_string_f (rf_channel_quality rf) @ ''|'' @ to_string_f (rf_interference_level rf) @ ''|'' @
            to_string_f (rf_multipath_factor rf))"

section \<open>Which estimates are trusted\<close>

text \<open>A covariance that passes the repair unchanged and is negative gets the radius 0.\<close>

lemma er_negative:
  assumes "xx < 0" "xx * yy - xy * xy > 0"
  shows "er_calculate xx xy yy c = 0"
proof -
  have "xx * yy > 0" using assms(2) zero_le_square [of xy] by linarith
  then have yy: "yy < 0" using assms(1) by (simp add: zero_less_mult_iff)
  let ?t = "xx + yy" and ?d = "xx * yy - xy * xy"
  have "?t < 0" using assms(1) yy by simp
  then have "max 0 (?t * ?t - 4 * ?d) < ?t * ?t" using assms(2) mult_neg_neg [of ?t ?t] by simp
  then have "sqrt (max 0 (?t * ?t - 4 * ?d)) < sqrt (?t * ?t)" by (rule real_sqrt_less_mono)
  also have "sqrt (?t * ?t) = - ?t" using assms(1) yy by simp
  finally show ?thesis by (simp add: er_calculate_def Let_def)
qed

lemma eb_fix_diagonal:
  assumes "sp_det prob \<le> 0"
  shows "sp_covariance_xy (eb_fixPositiveDefinite prob) = 0"
    "eb_epsilon \<le> sp_covariance_xx (eb_fixPositiveDefinite prob)"
    "eb_epsilon \<le> sp_covariance_yy (eb_fixPositiveDefinite prob)"
  using assms by (auto simp: eb_fixPositiveDefinite_def Let_def)

lemma eb_fix_pd:
  "(sp_covariance_xx (eb_fixPositiveDefinite prob) > 0 \<and> sp_det (eb_fixPositiveDefinite prob) > 0) \<longleftrightarrow>
   (sp_det prob \<le> 0 \<or> sp_covariance_xx prob > 0)"
proof (cases "sp_det prob \<le> 0")
  case True
  have "eb_epsilon > 0" by (simp add: eb_epsilon_def)
  with eb_fix_diagonal [OF True] have
    "sp_covariance_xx (eb_fixPositiveDefinite prob) > 0" "sp_covariance_yy (eb_fixPositiveDefinite prob) > 0"
    by linarith+
  then show ?thesis using True eb_fix_diagonal(1) [OF True] by (simp add: sp_det_def)
next
  case False
  then show ?thesis by (simp add: eb_fixPositiveDefinite_def not_le)
qed

text \<open>Which estimates are trusted: the builder keeps position and versions, trusts exactly the calibrated
  estimates of confidence at least 0.7 whose covariance has a positive determinant and whose radius (the
  calibrated p95 if positive, else 1.96 standard deviations of the covariance) is at most 0.2. The
  covariance it reports is positive definite unless the given one is negative definite; that one is
  kept, and its radius counts as 0.\<close>

theorem eb_trusted_exact:
  assumes "est = eb_build fusion prob confidence ver src env p95"
  shows "(se_trusted est \<longleftrightarrow> confidence \<ge> 7 / 10 \<and> ver \<noteq> 0 \<and> sp_det prob > 0 \<and>
       (if p95 > 0 then p95
        else er_calculate (sp_covariance_xx prob) (sp_covariance_xy prob) (sp_covariance_yy prob) (95 / 100)) \<le> 2 / 10) \<and>
    (se_covariance_xx est > 0 \<and> se_covariance_xx est * se_covariance_yy est > se_covariance_xy est * se_covariance_xy est
       \<longleftrightarrow> sp_det prob \<le> 0 \<or> sp_covariance_xx prob > 0) \<and>
    (sp_det prob > 0 \<and> sp_covariance_xx prob < 0 \<and> p95 \<le> 0 \<longrightarrow> se_error_radius est = 0) \<and>
    (se_x est, se_y est, se_z est) = (fr_x fusion, fr_y fusion, fr_z fusion)"
proof -
  have "(se_covariance_xx est > 0 \<and>
      se_covariance_xx est * se_covariance_yy est > se_covariance_xy est * se_covariance_xy est)
      \<longleftrightarrow> sp_det prob \<le> 0 \<or> sp_covariance_xx prob > 0"
    using eb_fix_pd [of prob] by (simp add: assms eb_build_def Let_def sp_det_def [of "eb_fixPositiveDefinite prob"])
  moreover have "er_calculate (sp_covariance_xx prob) (sp_covariance_xy prob) (sp_covariance_yy prob) (95 / 100) = 0"
    if "sp_det prob > 0" "sp_covariance_xx prob < 0"
    using er_negative that by (simp add: sp_det_def)
  ultimately show ?thesis
    by (auto simp: assms eb_build_def Let_def tj_judge_def tj_default_def eb_fixPositiveDefinite_def
        er_calculateFromP95_def word_neq_0_conv)
qed

definition est_sample :: "real \<Rightarrow> SpatialEstimate" where
  "est_sample xx = eb_build \<lparr>fr_x = 1, fr_y = 2, fr_z = 0, fr_mode = AOA\<rparr>
     \<lparr>sp_covariance_xx = xx, sp_covariance_xy = 0, sp_covariance_yy = xx\<rparr> (9 / 10) 1 7 8 0"

lemma eb_trusted_exact_witness: "se_trusted (est_sample (- 1)) \<and> se_error_radius (est_sample (- 1)) = 0"
  using eb_trusted_exact [OF est_sample_def, of "- 1"] by (simp add: sp_det_def er_negative)

text \<open>The hash of the observations does not depend on their order, as long as no reader reports twice at
  the same time.\<close>

lemma ob_less:
  "(\<lambda>a b. if ob_reader_id a \<noteq> ob_reader_id b then ob_reader_id a < ob_reader_id b
          else ob_timestamp a < ob_timestamp b) =
   (\<lambda>a b. (ob_reader_id a, ob_timestamp a) < (ob_reader_id b, ob_timestamp b))"
  by (intro ext) auto

lemma sh_order_independent:
  "mset xs = mset ys \<Longrightarrow> distinct (map (\<lambda>o'. (ob_reader_id o', ob_timestamp o')) xs) \<Longrightarrow>
   sh_calculate xs = sh_calculate ys"
  unfolding sh_calculate_def ob_less
  using std_sort_key_perm [of xs ys "\<lambda>o'. (ob_reader_id o', ob_timestamp o')"] by simp

lemma pj_toTagPositionList_nth:
  "i < length es \<Longrightarrow> tp_x (pj_toTagPositionList es t ! i) = se_x (es ! i) \<and>
   tp_timestamp (pj_toTagPositionList es t ! i) = t"
  by (simp add: pj_toTagPositionList_def toTagPosition_def)

end
