(* ===== verification/Ground_Truth.thy ===== *)
theory Ground_Truth
  imports Complex_Main Base
begin

text \<open>
  Ground truth points (\<open>spatial_truth/ground_truth\<close>): the store with its deduplication window and the
  service in front of it. Every operation of \<open>GroundTruthStore\<close> and \<open>GroundTruthService\<close> is a
  definition. The store is the association list of \<open>points_by_id_\<close> in iteration order.
\<close>

datatype GroundTruthSource = MANUAL | TOTAL_STATION | LASER | REFERENCE_POINT | KNOWN_TAG

record GroundTruthPoint =
  gp_point_id :: string
  gp_tag_id :: string
  gp_x :: real
  gp_y :: real
  gp_z :: real
  gp_timestamp :: u64
  gp_coordinate_system_id :: string
  gp_accuracy :: real
  gp_source :: GroundTruthSource
  gp_created_at :: u64

definition groundTruthSourceToString :: "GroundTruthSource \<Rightarrow> string" where
  "groundTruthSourceToString s = (case s of MANUAL \<Rightarrow> ''manual'' | TOTAL_STATION \<Rightarrow> ''total_station''
     | LASER \<Rightarrow> ''laser'' | REFERENCE_POINT \<Rightarrow> ''reference_point'' | KNOWN_TAG \<Rightarrow> ''known_tag'')"

definition stringToGroundTruthSource :: "string \<Rightarrow> GroundTruthSource" where
  "stringToGroundTruthSource s =
     (if s = ''manual'' then MANUAL else if s = ''total_station'' then TOTAL_STATION
      else if s = ''laser'' then LASER else if s = ''reference_point'' then REFERENCE_POINT
      else if s = ''known_tag'' then KNOWN_TAG else MANUAL)"

section \<open>The store\<close>

record GroundTruthStore =
  gs_points_by_id :: "(string \<times> GroundTruthPoint) list"
  gs_dedup_window_ms :: u64

definition gs_new :: GroundTruthStore where
  "gs_new = \<lparr>gs_points_by_id = [], gs_dedup_window_ms = 1000\<rparr>"

text \<open>The distance of two unsigned times.\<close>

definition ts_diff :: "u64 \<Rightarrow> u64 \<Rightarrow> u64" where
  "ts_diff a b = (if a > b then a - b else b - a)"

definition gs_isDuplicateConflict :: "u64 \<Rightarrow> GroundTruthPoint \<Rightarrow> GroundTruthPoint \<Rightarrow> bool" where
  "gs_isDuplicateConflict window existing incoming \<longleftrightarrow>
     gp_tag_id existing = gp_tag_id incoming \<and>
     gp_coordinate_system_id existing = gp_coordinate_system_id incoming \<and>
     ts_diff (gp_timestamp existing) (gp_timestamp incoming) \<le> window"

text \<open>\<open>DedupResult\<close> as filled by \<open>addPoint\<close>: the conflicting entry that was found first.\<close>

type_synonym DedupResult = "(string \<times> real) option"

definition gs_addPoint :: "GroundTruthPoint \<Rightarrow> GroundTruthStore \<Rightarrow> bool \<times> DedupResult \<times> GroundTruthStore" where
  "gs_addPoint point s =
     (let inserted = s\<lparr>gs_points_by_id := AList.update (gp_point_id point) point (gs_points_by_id s)\<rparr> in
      case find (\<lambda>(_, existing). gs_isDuplicateConflict (gs_dedup_window_ms s) existing point) (gs_points_by_id s) of
        None \<Rightarrow> (True, None, inserted)
      | Some (i, existing) \<Rightarrow>
          (if gp_accuracy point \<ge> gp_accuracy existing then (False, Some (i, gp_accuracy existing), s)
           else (True, Some (i, gp_accuracy existing), inserted)))"

definition gs_getPoint :: "string \<Rightarrow> GroundTruthStore \<Rightarrow> GroundTruthPoint option" where
  "gs_getPoint i s = map_of (gs_points_by_id s) i"

definition gs_select :: "(GroundTruthPoint \<Rightarrow> bool) \<Rightarrow> GroundTruthStore \<Rightarrow> GroundTruthPoint list" where
  "gs_select P s = filter P (map snd (gs_points_by_id s))"

definition gs_listByTagId :: "string \<Rightarrow> GroundTruthStore \<Rightarrow> GroundTruthPoint list" where
  "gs_listByTagId tag = gs_select (\<lambda>p. gp_tag_id p = tag)"

definition gs_listByCoordinateSystem :: "string \<Rightarrow> GroundTruthStore \<Rightarrow> GroundTruthPoint list" where
  "gs_listByCoordinateSystem cs = gs_select (\<lambda>p. gp_coordinate_system_id p = cs)"

definition gs_listBySource :: "GroundTruthSource \<Rightarrow> GroundTruthStore \<Rightarrow> GroundTruthPoint list" where
  "gs_listBySource src = gs_select (\<lambda>p. gp_source p = src)"

definition gs_listByTimeRange :: "u64 \<Rightarrow> u64 \<Rightarrow> GroundTruthStore \<Rightarrow> GroundTruthPoint list" where
  "gs_listByTimeRange start_ts end_ts = gs_select (\<lambda>p. gp_timestamp p \<ge> start_ts \<and> gp_timestamp p \<le> end_ts)"

definition gs_listByTagIdAndCoordinateSystem :: "string \<Rightarrow> string \<Rightarrow> GroundTruthStore \<Rightarrow> GroundTruthPoint list" where
  "gs_listByTagIdAndCoordinateSystem tag cs = gs_select (\<lambda>p. gp_tag_id p = tag \<and> gp_coordinate_system_id p = cs)"

definition gs_removePoint :: "string \<Rightarrow> GroundTruthStore \<Rightarrow> bool \<times> GroundTruthStore" where
  "gs_removePoint i s = (map_of (gs_points_by_id s) i \<noteq> None, s\<lparr>gs_points_by_id := AList.delete i (gs_points_by_id s)\<rparr>)"

definition gs_count :: "GroundTruthStore \<Rightarrow> nat" where
  "gs_count s = length (gs_points_by_id s)"

definition gs_setDedupWindowMs :: "u64 \<Rightarrow> GroundTruthStore \<Rightarrow> GroundTruthStore" where
  "gs_setDedupWindowMs w s = s\<lparr>gs_dedup_window_ms := w\<rparr>"

section \<open>The service\<close>

datatype GroundTruthError =
    FIELD_MISSING | INVALID_ACCURACY | INVALID_SOURCE | COORDINATE_SYSTEM_NOT_REGISTERED
  | POINT_REFERENCED_BY_CALIBRATION | POINT_NOT_FOUND | ACCURACY_CONFLICT

text \<open>\<open>AddGroundTruthResult\<close>: the error with its message and the conflicting entry, or the point's id.\<close>

type_synonym AddGroundTruthResult = "(GroundTruthError \<times> string \<times> DedupResult) + string"

definition gv_validateFields :: "GroundTruthPoint \<Rightarrow> string option" where
  "gv_validateFields p =
     (if gp_point_id p = [] then Some ''point_id is required''
      else if gp_tag_id p = [] then Some ''tag_id is required''
      else if gp_coordinate_system_id p = [] then Some ''coordinate_system_id is required''
      else if gp_timestamp p = 0 then Some ''timestamp is required''
      else if gp_accuracy p < 0 then Some ''accuracy must be non-negative''
      else None)"

definition gv_isCoordinateSystemRegistered :: "string \<Rightarrow> bool" where
  "gv_isCoordinateSystemRegistered cs = (if cs = ''global'' then True else True)"

definition gv_isReferencedByCalibration :: "string \<Rightarrow> bool" where
  "gv_isReferencedByCalibration i = False"

definition gv_addGroundTruth :: "GroundTruthPoint \<Rightarrow> GroundTruthStore \<Rightarrow> AddGroundTruthResult \<times> GroundTruthStore" where
  "gv_addGroundTruth point s =
     (case gv_validateFields point of
        Some msg \<Rightarrow> (Inl (FIELD_MISSING, msg, None), s)
      | None \<Rightarrow>
          if \<not> gv_isCoordinateSystemRegistered (gp_coordinate_system_id point) then
            (Inl (COORDINATE_SYSTEM_NOT_REGISTERED,
                  ''Coordinate system not registered: '' @ gp_coordinate_system_id point, None), s)
          else
            let p = (if gp_created_at point = 0 then point\<lparr>gp_created_at := gp_timestamp point\<rparr> else point) in
            case gs_addPoint p s of (success, dedup, s') \<Rightarrow>
              if \<not> success \<and> dedup \<noteq> None then
                (Inl (ACCURACY_CONFLICT, ''Higher accuracy point exists for same tag_id within dedup window'', dedup), s')
              else (Inr (gp_point_id p), s'))"

text \<open>The loop that copies a page out of a vector.\<close>

definition page_of :: "int \<Rightarrow> int \<Rightarrow> 'a list \<Rightarrow> 'a list" where
  "page_of offset limit xs = take (nat limit) (drop (nat offset) xs)"

definition gv_listGroundTruth ::
  "string option \<Rightarrow> string option \<Rightarrow> GroundTruthSource option \<Rightarrow> int \<Rightarrow> int \<Rightarrow> GroundTruthStore \<Rightarrow> GroundTruthPoint list" where
  "gv_listGroundTruth tag cs src offset limit s =
     (let all1 = (case (tag, cs) of
                    (Some t, Some c) \<Rightarrow> gs_listByTagIdAndCoordinateSystem t c s
                  | (Some t, None) \<Rightarrow> gs_listByTagId t s
                  | (None, Some c) \<Rightarrow> gs_listByCoordinateSystem c s
                  | (None, None) \<Rightarrow> gs_listByTimeRange 0 (- 1) s);
          all2 = (case src of Some x \<Rightarrow> filter (\<lambda>p. gp_source p = x) all1 | None \<Rightarrow> all1)
      in page_of (if offset < 0 then 0 else offset) (if limit < 0 then 100 else limit) all2)"

definition gv_deleteGroundTruth :: "string \<Rightarrow> GroundTruthStore \<Rightarrow> GroundTruthError option \<times> GroundTruthStore" where
  "gv_deleteGroundTruth i s =
     (if gs_getPoint i s = None then (Some POINT_NOT_FOUND, s)
      else if gv_isReferencedByCalibration i then (Some POINT_REFERENCED_BY_CALIBRATION, s)
      else (None, snd (gs_removePoint i s)))"

definition gv_hasGroundTruth :: "string \<Rightarrow> GroundTruthStore \<Rightarrow> bool" where
  "gv_hasGroundTruth cs s \<longleftrightarrow> gs_listByCoordinateSystem cs s \<noteq> []"

definition gv_getPointsForCalibration ::
  "string \<Rightarrow> GroundTruthSource option \<Rightarrow> GroundTruthStore \<Rightarrow> GroundTruthPoint list" where
  "gv_getPointsForCalibration cs src s =
     (let points = gs_listByCoordinateSystem cs s in
      case src of Some x \<Rightarrow> filter (\<lambda>p. gp_source p = x) points | None \<Rightarrow> points)"

section \<open>Sequences of requests\<close>

datatype gv_op = AddPoint GroundTruthPoint | DeletePoint string

fun gv_step :: "GroundTruthStore \<Rightarrow> gv_op \<Rightarrow> GroundTruthStore" where
  "gv_step s (AddPoint p) = snd (gv_addGroundTruth p s)"
| "gv_step s (DeletePoint i) = snd (gv_deleteGroundTruth i s)"

definition gv_run :: "gv_op list \<Rightarrow> GroundTruthStore" where
  "gv_run ops = foldl gv_step gs_new ops"

text \<open>What is stored under which id: every stored point is valid and stands under its own id.\<close>

definition gs_wf :: "GroundTruthStore \<Rightarrow> bool" where
  "gs_wf s \<longleftrightarrow> distinct (map fst (gs_points_by_id s)) \<and>
     (\<forall>(i, p) \<in> set (gs_points_by_id s). i = gp_point_id p \<and> gv_validateFields p = None \<and> gp_created_at p \<noteq> 0)"

text \<open>The effect of an accepted or refused addition.\<close>

definition gv_stamped :: "GroundTruthPoint \<Rightarrow> GroundTruthPoint" where
  "gv_stamped p = (if gp_created_at p = 0 then p\<lparr>gp_created_at := gp_timestamp p\<rparr> else p)"

lemma gv_stamped_fields [simp]:
  "gp_point_id (gv_stamped p) = gp_point_id p" "gp_tag_id (gv_stamped p) = gp_tag_id p"
  "gp_coordinate_system_id (gv_stamped p) = gp_coordinate_system_id p"
  "gp_timestamp (gv_stamped p) = gp_timestamp p" "gp_accuracy (gv_stamped p) = gp_accuracy p"
  "gp_source (gv_stamped p) = gp_source p"
  "gv_validateFields (gv_stamped p) = gv_validateFields p"
  "gs_isDuplicateConflict w q (gv_stamped p) = gs_isDuplicateConflict w q p"
  by (simp_all add: gv_stamped_def gv_validateFields_def gs_isDuplicateConflict_def)

lemma gv_add_cases:
  obtains (invalid) msg where "gv_validateFields p = Some msg"
      "gv_addGroundTruth p s = (Inl (FIELD_MISSING, msg, None), s)"
  | (conflict) i q where "gv_validateFields p = None"
      "find (\<lambda>(_, q). gs_isDuplicateConflict (gs_dedup_window_ms s) q p) (gs_points_by_id s) = Some (i, q)"
      "gp_accuracy q \<le> gp_accuracy p"
      "gv_addGroundTruth p s = (Inl (ACCURACY_CONFLICT,
         ''Higher accuracy point exists for same tag_id within dedup window'', Some (i, gp_accuracy q)), s)"
  | (stored) "gv_validateFields p = None"
      "\<And>i q. find (\<lambda>(_, q). gs_isDuplicateConflict (gs_dedup_window_ms s) q p) (gs_points_by_id s) = Some (i, q)
         \<Longrightarrow> gp_accuracy p < gp_accuracy q"
      "gv_addGroundTruth p s = (Inr (gp_point_id p),
         s\<lparr>gs_points_by_id := AList.update (gp_point_id p) (gv_stamped p) (gs_points_by_id s)\<rparr>)"
proof (cases "gv_validateFields p")
  case (Some msg)
  then show ?thesis using invalid by (simp add: gv_addGroundTruth_def)
next
  case None
  have "gv_addGroundTruth p s =
     (case gs_addPoint (gv_stamped p) s of (success, dedup, s') \<Rightarrow>
        if \<not> success \<and> dedup \<noteq> None then
          (Inl (ACCURACY_CONFLICT, ''Higher accuracy point exists for same tag_id within dedup window'', dedup), s')
        else (Inr (gp_point_id p), s'))"
    using None by (simp add: gv_addGroundTruth_def gv_isCoordinateSystemRegistered_def gv_stamped_def Let_def
        split: prod.split)
  then show ?thesis
    using None conflict stored
    by (cases "find (\<lambda>(_, q). gs_isDuplicateConflict (gs_dedup_window_ms s) q p) (gs_points_by_id s)")
      (auto simp: gs_addPoint_def Let_def split: if_splits prod.splits)
qed

lemma map_of_find_snd: "find (\<lambda>(_, q). P q) xs = Some (i, q) \<Longrightarrow> (i, q) \<in> set xs \<and> P q"
  by (induction xs) (auto split: if_splits)

lemma gs_wf_new [simp]: "gs_wf gs_new"
  by (simp add: gs_wf_def gs_new_def)

lemma gv_stamped_created: "gv_validateFields p = None \<Longrightarrow> gp_created_at (gv_stamped p) \<noteq> 0"
  by (auto simp: gv_stamped_def gv_validateFields_def split: if_splits)

lemma set_AList_update:
  "distinct (map fst xs) \<Longrightarrow> set (AList.update k v xs) = insert (k, v) {(i, q) \<in> set xs. i \<noteq> k}"
  by (induction xs) (auto simp: image_iff)

lemma gs_wf_step: "gs_wf s \<Longrightarrow> gs_wf (gv_step s a)"
proof (cases a)
  case (AddPoint p)
  assume wf: "gs_wf s"
  from AddPoint show ?thesis
    by (cases rule: gv_add_cases [of p s])
      (use wf gv_stamped_created in \<open>auto simp: gs_wf_def set_AList_update distinct_update\<close>)
next
  case (DeletePoint i)
  assume "gs_wf s"
  then show ?thesis using DeletePoint
    by (auto simp: gv_deleteGroundTruth_def gs_removePoint_def gs_wf_def AList.delete_eq distinct_map_filter)
qed

lemma gs_wf_run: "gs_wf (gv_run ops)"
proof -
  have "gs_wf s \<Longrightarrow> gs_wf (foldl gv_step s ops)" for s
    by (induction ops arbitrary: s) (auto intro: gs_wf_step)
  then show ?thesis by (simp add: gv_run_def)
qed

section \<open>The best measurement is kept\<close>

text \<open>\<open>q\<close> answers for \<open>p\<close>: same tag and system, within the window, and at least as accurate.\<close>

definition gs_answers :: "u64 \<Rightarrow> GroundTruthPoint \<Rightarrow> GroundTruthPoint \<Rightarrow> bool" where
  "gs_answers w q p \<longleftrightarrow> gs_isDuplicateConflict w q p \<and> gp_accuracy q \<le> gp_accuracy p"

lemma gs_answers_self: "gs_answers w (gv_stamped p) p"
  by (simp add: gs_answers_def gs_isDuplicateConflict_def ts_diff_def)

lemma gv_add_keeps:
  assumes "(gp_point_id q, q) \<in> set (gs_points_by_id s)" "gp_point_id q \<noteq> gp_point_id p" "gs_wf s"
  shows "(gp_point_id q, q) \<in> set (gs_points_by_id (gv_step s (AddPoint p)))"
  using assms by (cases rule: gv_add_cases [of p s]) (auto simp: gs_wf_def set_AList_update)

lemma gv_add_answers:
  assumes "gs_wf s" "gv_validateFields p = None"
  shows "\<exists>q. (gp_point_id q, q) \<in> set (gs_points_by_id (gv_step s (AddPoint p))) \<and>
    gs_answers (gs_dedup_window_ms s) q p"
proof (cases rule: gv_add_cases [of p s])
  case (invalid msg)
  then show ?thesis using assms by simp
next
  case (conflict i q)
  then show ?thesis using assms map_of_find_snd [OF conflict(2)]
    by (auto simp: gs_wf_def gs_answers_def intro!: exI [of _ q])
next
  case stored
  then show ?thesis using assms gs_answers_self
    by (auto simp: gs_wf_def set_AList_update intro!: exI [of _ "gv_stamped p"])
qed

lemma gv_add_source:
  assumes "gs_wf s" "(i, q) \<in> set (gs_points_by_id (gv_step s (AddPoint p)))"
  shows "(i, q) \<in> set (gs_points_by_id s) \<or> (q = gv_stamped p \<and> i = gp_point_id p)"
  using assms by (cases rule: gv_add_cases [of p s]) (auto simp: gs_wf_def set_AList_update)

lemma gv_step_window [simp]: "gs_dedup_window_ms (gv_step s a) = gs_dedup_window_ms s"
proof (cases a)
  case (AddPoint p)
  then show ?thesis by (cases rule: gv_add_cases [of p s]) auto
qed (simp add: gv_deleteGroundTruth_def gs_removePoint_def)

declare gv_step.simps [simp del]

lemma gv_add_all:
  assumes "gs_wf s" "distinct (map gp_point_id ps)" "gp_point_id ` set ps \<inter> fst ` set (gs_points_by_id s) = {}"
  shows "set (gs_points_by_id s) \<subseteq> set (gs_points_by_id (foldl gv_step s (map AddPoint ps))) \<and>
    snd ` set (gs_points_by_id (foldl gv_step s (map AddPoint ps))) \<subseteq>
      snd ` set (gs_points_by_id s) \<union> gv_stamped ` set ps \<and>
    (\<forall>p \<in> set ps. gv_validateFields p = None \<longrightarrow>
       (\<exists>q \<in> snd ` set (gs_points_by_id (foldl gv_step s (map AddPoint ps))). gs_answers (gs_dedup_window_ms s) q p))"
  using assms
proof (induction ps arbitrary: s)
  case Nil
  then show ?case by simp
next
  case (Cons p ps)
  let ?s = "gv_step s (AddPoint p)"
  have wf: "gs_wf ?s" using Cons.prems(1) by (rule gs_wf_step)
  have src: "(i, q) \<in> set (gs_points_by_id s) \<or> (q = gv_stamped p \<and> i = gp_point_id p)"
    if "(i, q) \<in> set (gs_points_by_id ?s)" for i q
    using gv_add_source [OF Cons.prems(1) that] .
  have "gp_point_id ` set ps \<inter> fst ` set (gs_points_by_id ?s) = {}"
  proof (rule equals0I)
    fix i assume i: "i \<in> gp_point_id ` set ps \<inter> fst ` set (gs_points_by_id ?s)"
    then obtain q where "(i, q) \<in> set (gs_points_by_id ?s)" by auto
    from src [OF this] have "i \<in> fst ` set (gs_points_by_id s) \<or> i = gp_point_id p" by force
    moreover have "i \<in> gp_point_id ` set ps" using i by blast
    moreover have "gp_point_id p \<notin> gp_point_id ` set ps"
      "gp_point_id ` set ps \<inter> fst ` set (gs_points_by_id s) = {}"
      using Cons.prems(2,3) by auto
    ultimately show False by (metis IntI empty_iff)
  qed
  note IH = Cons.IH [OF wf _ this]
  have keep: "set (gs_points_by_id s) \<subseteq> set (gs_points_by_id ?s)"
  proof (rule subsetI)
    fix x assume x: "x \<in> set (gs_points_by_id s)"
    then have own: "x = (gp_point_id (snd x), snd x)" using Cons.prems(1) by (auto simp: gs_wf_def)
    have "fst x \<noteq> gp_point_id p" 
      using Cons.prems(3) imageI [OF x, of fst] by (metis disjoint_iff image_eqI list.set_intros(1))
    with own have "gp_point_id (snd x) \<noteq> gp_point_id p" by (metis fst_conv)
    from gv_add_keeps [OF _ this Cons.prems(1)] x own show "x \<in> set (gs_points_by_id ?s)" by metis
  qed
  have ans: "\<exists>q \<in> snd ` set (gs_points_by_id ?s). gs_answers (gs_dedup_window_ms s) q p"
    if "gv_validateFields p = None"
    using gv_add_answers [OF Cons.prems(1) that] by force
  have sub: "set (gs_points_by_id ?s) \<subseteq> set (gs_points_by_id (foldl gv_step ?s (map AddPoint ps)))"
    and from_ps: "snd ` set (gs_points_by_id (foldl gv_step ?s (map AddPoint ps))) \<subseteq>
      snd ` set (gs_points_by_id ?s) \<union> gv_stamped ` set ps"
    and answered: "\<forall>p \<in> set ps. gv_validateFields p = None \<longrightarrow>
      (\<exists>q \<in> snd ` set (gs_points_by_id (foldl gv_step ?s (map AddPoint ps))). gs_answers (gs_dedup_window_ms s) q p)"
    using IH Cons.prems(2) by auto
  have new: "snd ` set (gs_points_by_id ?s) \<subseteq> insert (gv_stamped p) (snd ` set (gs_points_by_id s))"
    using src by force
  have mono: "snd ` set (gs_points_by_id ?s) \<subseteq> snd ` set (gs_points_by_id (foldl gv_step ?s (map AddPoint ps)))"
    using sub by (rule image_mono)
  show ?case
    unfolding list.map foldl.simps
  proof (intro conjI ballI impI)
    show "set (gs_points_by_id s) \<subseteq> set (gs_points_by_id (foldl gv_step ?s (map AddPoint ps)))"
      using keep sub by (rule subset_trans)
    show "snd ` set (gs_points_by_id (foldl gv_step ?s (map AddPoint ps))) \<subseteq>
        snd ` set (gs_points_by_id s) \<union> gv_stamped ` set (p # ps)"
      using from_ps new by (simp only: list.set image_insert) blast
    fix r assume r: "r \<in> set (p # ps)" "gv_validateFields r = None"
    show "\<exists>q \<in> snd ` set (gs_points_by_id (foldl gv_step ?s (map AddPoint ps))). gs_answers (gs_dedup_window_ms s) q r"
    proof (cases "r = p")
      case True
      with r(2) have "gv_validateFields p = None" by simp
      from ans [OF this] True show ?thesis by (elim bexE) (rule bexI [OF _ subsetD [OF mono]], simp_all)
    next
      case False
      with r answered show ?thesis by simp
    qed
  qed
qed

text \<open>C26: The best measurement is never lost: after points with pairwise different ids were submitted to the empty
  store, whatever was refused, every stored point was submitted, every submission with valid fields is
  answered by a stored point of the same tag and coordinate system within the window that is at least as
  accurate, and stored points stand under their own ids.\<close>

theorem gv_best_kept:
  assumes "distinct (map gp_point_id ps)" and "st = gv_run (map AddPoint ps)"
  shows "gs_wf st \<and> set (gs_listByTimeRange 0 (- 1) st) \<subseteq> gv_stamped ` set ps \<and>
    (\<forall>p \<in> set ps. gv_validateFields p = None \<longrightarrow>
       (\<exists>q \<in> set (gs_listByTimeRange 0 (- 1) st). gs_answers 1000 q p))"
proof -
  have all: "set (gs_listByTimeRange 0 (- 1) st) = snd ` set (gs_points_by_id st)"
    by (auto simp: gs_listByTimeRange_def gs_select_def)
  have "gs_points_by_id gs_new = []" "gs_dedup_window_ms gs_new = 1000" by (simp_all add: gs_new_def)
  then show ?thesis
    using gv_add_all [OF gs_wf_new assms(1)] gs_wf_run [of "map AddPoint ps"]
    unfolding all unfolding assms(2) gv_run_def by simp
qed

definition gp_sample :: "string \<Rightarrow> real \<Rightarrow> GroundTruthPoint" where
  "gp_sample i acc = \<lparr>gp_point_id = i, gp_tag_id = ''T'', gp_x = 1, gp_y = 2, gp_z = 0, gp_timestamp = 5000,
     gp_coordinate_system_id = ''global'', gp_accuracy = acc, gp_source = LASER, gp_created_at = 0\<rparr>"

lemma gv_best_kept_witness:
  "gs_wf (gv_run (map AddPoint [gp_sample ''p1'' 2, gp_sample ''p2'' 1, gp_sample ''p3'' 3]))"
  using gv_best_kept [OF _ refl, of "[gp_sample ''p1'' 2, gp_sample ''p2'' 1, gp_sample ''p3'' 3]"]
  by (simp add: gp_sample_def)

text \<open>
  What is not removed: a more accurate point is stored beside the one it supersedes, so the two stay in
  conflict and both are used; and only the first conflicting entry decides, so a point can be accepted
  although a more accurate one is stored.
\<close>

lemma gs_superseded_stays:
  "length (gs_listByTagId ''T'' (gv_run (map AddPoint [gp_sample ''p1'' 2, gp_sample ''p2'' 1]))) = 2 \<and>
   gs_getPoint ''p3'' (gv_run (map AddPoint [gp_sample ''p1'' 3, gp_sample ''p2'' 1, gp_sample ''p3'' 2])) \<noteq> None"
  by code_simp

text \<open>Deleting is exact, and every id that was accepted can be deleted.\<close>

lemma gv_delete_exact:
  "gs_wf s \<Longrightarrow> gs_getPoint i s = Some p \<Longrightarrow>
   (case gv_deleteGroundTruth i s of (e, s') \<Rightarrow> e = None \<and> gs_getPoint i s' = None \<and>
      (\<forall>j. j \<noteq> i \<longrightarrow> gs_getPoint j s' = gs_getPoint j s) \<and> gs_count s = gs_count s' + 1)"
proof -
  assume wf: "gs_wf s" and p: "gs_getPoint i s = Some p"
  have "length xs = length (AList.delete i xs) + 1" if "distinct (map fst xs)" "map_of xs i = Some p" for xs
    using that
  proof (induction xs)
    case (Cons x xs)
    then show ?case
      by (cases "fst x = i") (auto simp: AList.delete_eq map_of_eq_None_iff filter_id_conv image_iff
          intro!: arg_cong [of _ _ length] sym [OF filter_True])
  qed simp
  then show ?thesis using wf p
    by (auto simp: gv_deleteGroundTruth_def gv_isReferencedByCalibration_def gs_removePoint_def gs_getPoint_def
        gs_count_def gs_wf_def delete_conv')
qed

end
