(* ===== verification/Truth_Gate.thy ===== *)
theory Truth_Gate
  imports Spatial_Estimate Ground_Truth Recovery_Engine
begin

text \<open>
  The truth gate (\<open>spatial_truth/truth_gate\<close>): it compares an estimate with the ground truth of its tag,
  and its verdict feeds the degradation chain, the publisher of drift failures on the failure bus, and
  the asynchronous runner. The reasons are the UTF-8 bytes of the literals of the source.
\<close>

definition bytes_str :: "nat list \<Rightarrow> string" where
  "bytes_str bs = map char_of bs"

definition reason_uncalibrated :: string where
  "reason_uncalibrated = bytes_str [230, 156, 170, 230, 160, 135, 229, 174, 154, 239, 188, 140, 232, 189, 175, 229, 136,
     164, 229, 174, 154]"

definition reason_no_ground_truth :: string where
  "reason_no_ground_truth = bytes_str [230, 151, 160, 32, 71, 114, 111, 117, 110, 100, 32, 84, 114, 117, 116, 104, 239,
     188, 140, 232, 189, 175, 229, 136, 164, 229, 174, 154]"

definition reason_drift :: string where
  "reason_drift = bytes_str [228, 189, 141, 231, 189, 174, 230, 188, 130, 231, 167, 187, 232, 182, 133, 232, 191,
     135, 233, 152, 136, 229, 128, 188]"

definition reason_pass :: string where
  "reason_pass = bytes_str [233, 128, 154, 232, 191, 135]"

definition reason_soft_pass :: string where
  "reason_soft_pass = bytes_str [232, 189, 175, 229, 136, 164, 229, 174, 154, 233, 128, 154, 232, 191, 135]"

definition reason_soft_fail :: string where
  "reason_soft_fail = bytes_str [232, 189, 175, 229, 136, 164, 229, 174, 154, 228, 184, 141, 233, 128, 154, 232, 191,
     135]"

section \<open>The gates\<close>

record TruthGateResult =
  tg_pass :: bool
  tg_soft :: bool
  tg_error_value :: real
  tg_threshold :: real
  tg_tag_id :: string
  tg_frame_id :: u64
  tg_reason :: string

definition tg_result0 :: TruthGateResult where
  "tg_result0 = \<lparr>tg_pass = False, tg_soft = False, tg_error_value = 0, tg_threshold = 0, tg_tag_id = '''',
     tg_frame_id = 0, tg_reason = ''''\<rparr>"

record TruthGate =
  tg_drift_threshold :: real
  tg_query_timeout_ms :: u64

definition tg_default :: TruthGate where
  "tg_default = \<lparr>tg_drift_threshold = 20 / 100, tg_query_timeout_ms = 10\<rparr>"

text \<open>The loop of \<open>queryGroundTruth\<close>: the first point with the least distance in time below \<open>UINT64_MAX\<close>.\<close>

definition tg_nearest :: "u64 \<Rightarrow> GroundTruthPoint list \<Rightarrow> GroundTruthPoint option" where
  "tg_nearest timestamp points =
     fst (foldl (\<lambda>(best, min_diff) p. let diff = ts_diff (gp_timestamp p) timestamp in
                   if diff < min_diff then (Some p, diff) else (best, min_diff)) (None, - 1) points)"

definition tg_queryGroundTruth :: "GroundTruthStore \<Rightarrow> string \<Rightarrow> u64 \<Rightarrow> GroundTruthPoint option" where
  "tg_queryGroundTruth st tag timestamp = tg_nearest timestamp (gs_listByTagId tag st)"

definition tgate_evaluate :: "TruthGate \<Rightarrow> GroundTruthStore \<Rightarrow> SpatialEstimate \<Rightarrow> u64 \<Rightarrow> TruthGateResult" where
  "tgate_evaluate g st est frame_id =
     (let r = tg_result0\<lparr>tg_tag_id := '''', tg_frame_id := frame_id, tg_threshold := tg_drift_threshold g\<rparr> in
      if se_calibration_version est = 0 then
        r\<lparr>tg_soft := True, tg_pass := se_confidence est \<ge> 7 / 10, tg_reason := reason_uncalibrated\<rparr>
      else case tg_queryGroundTruth st '''' (se_source_hash est) of
        None \<Rightarrow> r\<lparr>tg_soft := True, tg_pass := se_confidence est \<ge> 7 / 10, tg_reason := reason_no_ground_truth\<rparr>
      | Some gt \<Rightarrow>
          (let dx = se_x est - gp_x gt; dy = se_y est - gp_y gt; dz = se_z est - gp_z gt;
               err = sqrt (dx * dx + dy * dy + dz * dz);
               pass = err \<le> tg_drift_threshold g
           in r\<lparr>tg_error_value := err, tg_pass := pass,
                tg_reason := (if \<not> pass then reason_drift else reason_pass)\<rparr>))"

definition stg_evaluate :: "real \<Rightarrow> SpatialEstimate \<Rightarrow> TruthGateResult" where
  "stg_evaluate confidence_threshold est =
     (let r = tg_result0\<lparr>tg_soft := True\<rparr> in
      if se_calibration_version est = 0 then r\<lparr>tg_pass := False, tg_reason := reason_uncalibrated\<rparr>
      else let pass = se_confidence est \<ge> confidence_threshold
           in r\<lparr>tg_pass := pass, tg_reason := (if pass then reason_soft_pass else reason_soft_fail)\<rparr>)"

section \<open>The degradation chain\<close>

record DriftDegradationChain =
  dc_consecutive_fail_count :: int
  dc_fail_threshold :: int

definition dc_new :: DriftDegradationChain where
  "dc_new = \<lparr>dc_consecutive_fail_count = 0, dc_fail_threshold = 3\<rparr>"

definition dc_reset :: "DriftDegradationChain \<Rightarrow> DriftDegradationChain" where
  "dc_reset c = c\<lparr>dc_consecutive_fail_count := 0\<rparr>"

text \<open>\<open>triggerDegradation\<close> calls two methods with empty bodies.\<close>

definition dc_triggerDegradation :: "DriftDegradationChain \<Rightarrow> DriftDegradationChain" where
  "dc_triggerDegradation c = c"

definition dc_onTruthGateFailed :: "TruthGateResult \<Rightarrow> DriftDegradationChain \<Rightarrow> DriftDegradationChain" where
  "dc_onTruthGateFailed r c =
     (if tg_pass r then dc_reset c
      else let c1 = c\<lparr>dc_consecutive_fail_count := dc_consecutive_fail_count c + 1\<rparr>
           in if dc_consecutive_fail_count c1 \<ge> dc_fail_threshold c1 then dc_triggerDegradation c1 else c1)"

section \<open>The publisher\<close>

text \<open>\<open>RuntimeFailureBus::publish\<close> swallows what its callbacks throw, so the branch that caches the event
  is not reached. \<open>now\<close> is the time \<open>publish\<close> of the bus reads, which replaces the one set here.\<close>

definition dp_event :: "TruthGateResult \<Rightarrow> u64 \<Rightarrow> u64 \<Rightarrow> FailureEvent" where
  "dp_event r frame_id now0 = fe_default\<lparr>fe_type := SPATIAL_LOCALIZATION_DRIFT, fe_frame_id := frame_id,
     fe_timestamp := now0, fe_message := tg_reason r, fe_severity := 8 / 10, fe_acknowledged := False,
     fe_tag_id := (if tg_tag_id r \<noteq> '''' then Some (tg_tag_id r) else None),
     fe_error_value := Some (tg_error_value r), fe_threshold := Some (tg_threshold r)\<rparr>"

definition dp_publish :: "TruthGateResult \<Rightarrow> u64 \<Rightarrow> u64 \<Rightarrow> u64 \<Rightarrow> RuntimeFailureBus \<Rightarrow> bool \<times> RuntimeFailureBus" where
  "dp_publish r frame_id now0 now b =
     (if tg_pass r then (True, b) else (True, fb_publish (dp_event r frame_id now0, now) b))"

section \<open>The self-healing loop\<close>

definition hl_run :: "bool \<Rightarrow> bool" where
  "hl_run was_closed = (let stored = False; stored = True in stored)"

section \<open>The asynchronous runner\<close>

record TruthGateAsyncRunner =
  tr_queue :: "(SpatialEstimate \<times> u64) list"
  tr_results :: "(u64 \<times> TruthGateResult) list"
  tr_running :: bool
  tr_max_queue_size :: nat
  tr_task :: "(SpatialEstimate \<times> u64) option"  \<comment> \<open>the local of the worker between its two locks\<close>

definition tr_new :: TruthGateAsyncRunner where
  "tr_new = \<lparr>tr_queue = [], tr_results = [], tr_running = False, tr_max_queue_size = 1024, tr_task = None\<rparr>"

definition tr_start :: "TruthGateAsyncRunner \<Rightarrow> TruthGateAsyncRunner" where
  "tr_start s = (if tr_running s then s else s\<lparr>tr_running := True\<rparr>)"

text \<open>\<open>pop\<close> on an empty queue, which a maximal size of 0 leads to, is undefined.\<close>

definition tr_submit :: "SpatialEstimate \<Rightarrow> u64 \<Rightarrow> TruthGateAsyncRunner \<Rightarrow> fault + TruthGateAsyncRunner" where
  "tr_submit est frame_id s =
     (if length (tr_queue s) \<ge> tr_max_queue_size s then
        (if tr_queue s = [] then Inl OutOfRange
         else Inr (s\<lparr>tr_queue := tl (tr_queue s) @ [(est, frame_id)]\<rparr>))
      else Inr (s\<lparr>tr_queue := tr_queue s @ [(est, frame_id)]\<rparr>))"

definition tr_getResult :: "u64 \<Rightarrow> TruthGateAsyncRunner \<Rightarrow> TruthGateResult option \<times> TruthGateAsyncRunner" where
  "tr_getResult frame_id s =
     (case map_of (tr_results s) frame_id of
        None \<Rightarrow> (None, s)
      | Some r \<Rightarrow> (Some r, s\<lparr>tr_results := AList.delete frame_id (tr_results s)\<rparr>))"

definition tr_setQueueSize :: "nat \<Rightarrow> TruthGateAsyncRunner \<Rightarrow> TruthGateAsyncRunner" where
  "tr_setQueueSize n s = s\<lparr>tr_max_queue_size := n\<rparr>"

text \<open>The two critical sections of a round of \<open>workerLoop\<close>.\<close>

definition tr_pick :: "TruthGateAsyncRunner \<Rightarrow> TruthGateAsyncRunner" where
  "tr_pick s = s\<lparr>tr_task := Some (hd (tr_queue s)), tr_queue := tl (tr_queue s)\<rparr>"

definition tr_finish :: "GroundTruthStore \<Rightarrow> TruthGateAsyncRunner \<Rightarrow> TruthGateAsyncRunner" where
  "tr_finish st s =
     (case tr_task s of
        None \<Rightarrow> s
      | Some (est, f) \<Rightarrow> s\<lparr>tr_results := AList.update f (tgate_evaluate tg_default st est f) (tr_results s), tr_task := None\<rparr>)"

text \<open>\<open>stop\<close> waits for the worker, which finishes the task it holds.\<close>

definition tr_stop :: "GroundTruthStore \<Rightarrow> TruthGateAsyncRunner \<Rightarrow> TruthGateAsyncRunner" where
  "tr_stop st s = tr_finish st (s\<lparr>tr_running := False\<rparr>)"

section \<open>The gate never measures a drift\<close>

text \<open>The verdict both soft branches give.\<close>

definition tg_soft_verdict :: "real \<Rightarrow> SpatialEstimate \<Rightarrow> u64 \<Rightarrow> TruthGateResult \<Rightarrow> bool" where
  "tg_soft_verdict threshold est frame_id r \<longleftrightarrow>
     tg_soft r \<and> tg_error_value r = 0 \<and> tg_threshold r = threshold \<and> tg_frame_id r = frame_id \<and>
     tg_tag_id r = '''' \<and> (tg_pass r \<longleftrightarrow> se_confidence est \<ge> 7 / 10)"

lemma no_untagged_points: "gs_wf s \<Longrightarrow> gs_listByTagId '''' s = []"
  by (auto simp: gs_wf_def gs_listByTagId_def gs_select_def gv_validateFields_def filter_empty_conv
      split: if_splits)

lemma tgate_evaluate_soft: "gs_wf st \<Longrightarrow> tg_soft_verdict (tg_drift_threshold g) est f (tgate_evaluate g st est f)"
  by (simp add: tgate_evaluate_def tg_queryGroundTruth_def no_untagged_points tg_nearest_def tg_soft_verdict_def
      tg_result0_def Let_def)

text \<open>The drift threshold is never used: whatever ground truth was added and deleted through the service, the
  gate looks it up under the empty tag, which the service refuses, so every verdict is the soft one: no
  error is measured, and an estimate passes exactly if its confidence is at least 0.7, however far it is from the truth.
  The soft gate agrees with it on calibrated estimates only: uncalibrated ones always fail there.\<close>

theorem tg_never_measures:
  "tg_soft_verdict (tg_drift_threshold g) est f (tgate_evaluate g (gv_run ops) est f) \<and>
   (tg_pass (stg_evaluate (7 / 10) est) \<longleftrightarrow>
      tg_pass (tgate_evaluate g (gv_run ops) est f) \<and> se_calibration_version est \<noteq> 0)"
  using tgate_evaluate_soft [OF gs_wf_run, of g est f ops]
  by (simp add: tg_soft_verdict_def stg_evaluate_def Let_def tg_result0_def)

text \<open>With ground truth of the tag the estimate is for, the query would find the nearest point in time.\<close>

lemma tg_nearest_fold:
  "(case foldl (\<lambda>(best, min_diff) p. let diff = ts_diff (gp_timestamp p) t in
        if diff < min_diff then (Some p, diff) else (best, min_diff)) (b, m) ps of
      (b', m') \<Rightarrow> m' \<le> m \<and> (\<forall>p \<in> set ps. m' \<le> ts_diff (gp_timestamp p) t) \<and>
        (b' = b \<and> m' = m \<or> (\<exists>p \<in> set ps. b' = Some p \<and> ts_diff (gp_timestamp p) t = m')))"
proof (induction ps arbitrary: b m)
  case Nil
  then show ?case by simp
next
  case (Cons p ps)
  show ?case
  proof (cases "ts_diff (gp_timestamp p) t < m")
    case True
    then show ?thesis using Cons.IH [where b = "Some p" and m = "ts_diff (gp_timestamp p) t"]
      by (auto simp: Let_def split: prod.splits intro: order_trans less_imp_le)
  next
    case False
    then show ?thesis using Cons.IH [where b = b and m = m] by (auto simp: Let_def not_less split: prod.splits)
  qed
qed

lemma tg_nearest_exact:
  "tg_nearest t ps = Some q \<Longrightarrow> q \<in> set ps \<and> (\<forall>p \<in> set ps. ts_diff (gp_timestamp q) t \<le> ts_diff (gp_timestamp p) t)"
  using tg_nearest_fold [where t = t and b = None and m = "- 1" and ps = ps] by (auto simp: tg_nearest_def split: prod.splits)

section \<open>Failed verdicts alarm but do not heal\<close>

text \<open>The chain counts the failures since the last pass, and reaching its threshold changes nothing.\<close>

lemma dc_counts_failures:
  "foldl (\<lambda>c r. dc_onTruthGateFailed r c) dc_new rs =
   dc_new\<lparr>dc_consecutive_fail_count := int (length (takeWhile (\<lambda>r. \<not> tg_pass r) (rev rs)))\<rparr>"
proof (induction rs rule: rev_induct)
  case Nil
  then show ?case by (simp add: dc_new_def)
next
  case (snoc r rs)
  then show ?case
    by (simp add: dc_onTruthGateFailed_def dc_reset_def dc_triggerDegradation_def dc_new_def Let_def)
qed

text \<open>A failed verdict raises an alarm that nothing answers: publishing the verdict on an estimate of confidence
  below 0.7 stores a drift failure with error 0 and no tag on the bus, counts it and leaves the bus in the
  critical condition, but the recovery engine decides on no action for it and executing that leaves the
  engine as it was; the verdict on any other estimate leaves the bus alone.\<close>

theorem tg_alarm_without_recovery:
  assumes "r = tgate_evaluate g (gv_run ops) est f" and "dp_publish r f now0 now b = (ok, b')"
  shows "ok \<and>
    (se_confidence est < 7 / 10 \<longrightarrow>
       fb_hasCriticalFailure b' \<and>
       fb_getFailureCount b' SPATIAL_LOCALIZATION_DRIFT = fb_getFailureCount b SPATIAL_LOCALIZATION_DRIFT + 1 \<and>
       (\<exists>e. last (fb_recent_failures b') = e \<and> fe_type e = SPATIAL_LOCALIZATION_DRIFT \<and> fe_tag_id e = None \<and>
          fe_error_value e = Some 0 \<and> re_execute_trace env (re_decide e) eng = (True, eng, []))) \<and>
    (se_confidence est \<ge> 7 / 10 \<longrightarrow> b' = b)"
proof -
  have v: "tg_soft_verdict (tg_drift_threshold g) est f r"
    unfolding assms(1) by (rule tgate_evaluate_soft [OF gs_wf_run])
  then show ?thesis
    using assms(2)
    by (auto simp: dp_publish_def dp_event_def tg_soft_verdict_def fb_hasCriticalFailure_def
        fb_getFailureCount_def fe_default_def CRITICAL_SEVERITY_THRESHOLD_def bounded_push_def
        re_execute_trace_def re_decide_def split: if_splits)
qed

lemma tg_alarm_without_recovery_witness:
  "fb_hasCriticalFailure (snd (dp_publish (tgate_evaluate tg_default (gv_run []) (est_sample 1\<lparr>se_confidence := 0\<rparr>) 3) 3 0 0 fb_new))"
  using tg_alarm_without_recovery [OF refl, of tg_default "[]" "est_sample 1\<lparr>se_confidence := 0\<rparr>" 3 0 0 fb_new]
  by (cases "dp_publish (tgate_evaluate tg_default (gv_run []) (est_sample 1\<lparr>se_confidence := 0\<rparr>) 3) 3 0 0 fb_new") simp

section \<open>The runner: which verdicts come out\<close>

text \<open>
  The histories of the runner, newest event first: clients submit and fetch, the worker picks a task in
  one critical section and stores its verdict in another, with ground truth that the service may have
  changed in between.
\<close>

datatype tr_label =
    Started | Stopped | Submitted SpatialEstimate u64 | Resized nat | Picked | Stored
  | Got u64 "TruthGateResult option"

inductive tr_history :: "tr_label list \<Rightarrow> TruthGateAsyncRunner \<Rightarrow> bool" where
  Init: "tr_history [] tr_new"
| Start: "tr_history ls s \<Longrightarrow> tr_history (Started # ls) (tr_start s)"
| Stop: "tr_history ls s \<Longrightarrow> tr_history (Stopped # ls) (tr_stop (gv_run ops) s)"
| Submit: "tr_history ls s \<Longrightarrow> tr_submit est f s = Inr s' \<Longrightarrow> tr_history (Submitted est f # ls) s'"
| Resize: "tr_history ls s \<Longrightarrow> tr_history (Resized n # ls) (tr_setQueueSize n s)"
| Pick: "tr_history ls s \<Longrightarrow> tr_running s \<Longrightarrow> tr_task s = None \<Longrightarrow> tr_queue s \<noteq> [] \<Longrightarrow>
    tr_history (Picked # ls) (tr_pick s)"
| Store: "tr_history ls s \<Longrightarrow> tr_task s \<noteq> None \<Longrightarrow> tr_history (Stored # ls) (tr_finish (gv_run ops) s)"
| Get: "tr_history ls s \<Longrightarrow> tr_getResult f s = (r, s') \<Longrightarrow> tr_history (Got f r # ls) s'"

inductive_cases tr_history_Cons: "tr_history (l # ls) s"

text \<open>A verdict on a task that was submitted.\<close>

definition tr_verdict :: "tr_label list \<Rightarrow> u64 \<Rightarrow> TruthGateResult \<Rightarrow> bool" where
  "tr_verdict ls f r \<longleftrightarrow>
     (\<exists>est. Submitted est f \<in> set ls \<and> tg_soft_verdict (tg_drift_threshold tg_default) est f r)"

definition tr_tasks :: "TruthGateAsyncRunner \<Rightarrow> (SpatialEstimate \<times> u64) set" where
  "tr_tasks s = set (tr_queue s) \<union> set_option (tr_task s)"

definition tr_sound :: "tr_label list \<Rightarrow> TruthGateAsyncRunner \<Rightarrow> bool" where
  "tr_sound ls s \<longleftrightarrow>
     (\<forall>t \<in> tr_tasks s. Submitted (fst t) (snd t) \<in> set ls) \<and>
     (\<forall>x \<in> set (tr_results s). tr_verdict ls (fst x) (snd x)) \<and>
     (\<forall>f r. Got f (Some r) \<in> set ls \<longrightarrow> tr_verdict ls f r)"

lemma tr_verdict_mono: "tr_verdict ls f r \<Longrightarrow> tr_verdict (l # ls) f r"
  by (auto simp: tr_verdict_def)

text \<open>One event: no task or result out of nothing, except the task it submits.\<close>

lemma tr_sound_grow:
  assumes "tr_sound ls s" "\<And>t. t \<in> tr_tasks s' \<Longrightarrow> t \<in> tr_tasks s \<or> l = Submitted (fst t) (snd t)"
    and "\<And>x. x \<in> set (tr_results s') \<Longrightarrow> x \<in> set (tr_results s) \<or> tr_verdict ls (fst x) (snd x)"
    and "\<And>f r. l = Got f (Some r) \<Longrightarrow> (f, r) \<in> set (tr_results s)"
  shows "tr_sound (l # ls) s'"
  unfolding tr_sound_def
proof (intro conjI ballI allI impI)
  show "Submitted (fst t) (snd t) \<in> set (l # ls)" if "t \<in> tr_tasks s'" for t
    using assms(1) assms(2) [OF that] by (auto simp: tr_sound_def)
  show "tr_verdict (l # ls) (fst x) (snd x)" if "x \<in> set (tr_results s')" for x
    using assms(1) assms(3) [OF that] tr_verdict_mono by (auto simp: tr_sound_def)
  show "tr_verdict (l # ls) f r" if "Got f (Some r) \<in> set (l # ls)" for f r
    using assms(1) assms(4) [of f r] that tr_verdict_mono [of ls f r] by (force simp: tr_sound_def)
qed

lemma set_AList_update_subset: "x \<in> set (AList.update k v xs) \<Longrightarrow> x \<in> set xs \<or> x = (k, v)"
  by (induction xs) (auto split: if_splits)

lemma tr_sound_finish:
  assumes "tr_sound ls s" "\<And>f r. l \<noteq> Got f r"
  shows "tr_sound (l # ls) (tr_finish (gv_run ops) s)"
proof (rule tr_sound_grow [OF assms(1)])
  fix x assume x: "x \<in> set (tr_results (tr_finish (gv_run ops) s))"
  show "x \<in> set (tr_results s) \<or> tr_verdict ls (fst x) (snd x)"
  proof (cases "tr_task s")
    case None
    with x show ?thesis by (simp add: tr_finish_def)
  next
    case (Some t)
    then have "Submitted (fst t) (snd t) \<in> set ls" using assms(1) by (auto simp: tr_sound_def tr_tasks_def)
    then have "tr_verdict ls (snd t) (tgate_evaluate tg_default (gv_run ops) (fst t) (snd t))"
      using tgate_evaluate_soft [OF gs_wf_run] by (auto simp: tr_verdict_def)
    moreover have "x \<in> set (tr_results s) \<or> x = (snd t, tgate_evaluate tg_default (gv_run ops) (fst t) (snd t))"
      using x Some by (intro set_AList_update_subset) (simp add: tr_finish_def split: prod.splits)
    ultimately show ?thesis by auto
  qed
qed (use assms(2) in \<open>auto simp: tr_tasks_def tr_finish_def split: option.splits\<close>)

lemma tr_sound_history: "tr_history ls s \<Longrightarrow> tr_sound ls s"
proof (induction rule: tr_history.induct)
  case Init
  show ?case by (simp add: tr_sound_def tr_new_def tr_tasks_def)
next
  case (Start ls s)
  show ?case by (rule tr_sound_grow [OF Start.IH]) (auto simp: tr_start_def tr_tasks_def split: if_splits)
next
  case (Stop ls s ops)
  then have "tr_sound ls (s\<lparr>tr_running := False\<rparr>)" by (simp add: tr_sound_def tr_tasks_def)
  then show ?case unfolding tr_stop_def by (rule tr_sound_finish) auto
next
  case (Submit ls s est f s')
  show ?case using Submit.hyps(2)
    by (intro tr_sound_grow [OF Submit.IH])
      (auto simp: tr_submit_def tr_tasks_def split: if_splits dest: list.set_sel(2))
next
  case (Resize ls s n)
  show ?case by (rule tr_sound_grow [OF Resize.IH]) (auto simp: tr_setQueueSize_def tr_tasks_def)
next
  case (Pick ls s)
  show ?case using Pick.hyps
    by (intro tr_sound_grow [OF Pick.IH]) (auto simp: tr_pick_def tr_tasks_def dest: list.set_sel(2))
next
  case (Store ls s ops)
  show ?case by (rule tr_sound_finish [OF Store.IH]) auto
next
  case (Get ls s f r s')
  show ?case using Get.hyps(2)
    by (intro tr_sound_grow [OF Get.IH])
      (auto simp: tr_getResult_def tr_tasks_def AList.delete_eq split: option.splits dest: map_of_SomeD)
qed

text \<open>How many verdicts on a frame are on their way or fetched, against how often it was submitted.\<close>

fun tr_is_got :: "u64 \<Rightarrow> tr_label \<Rightarrow> bool" where
  "tr_is_got f (Got g (Some r)) = (g = f)"
| "tr_is_got f l = False"

fun tr_is_submitted :: "u64 \<Rightarrow> tr_label \<Rightarrow> bool" where
  "tr_is_submitted f (Submitted est g) = (g = f)"
| "tr_is_submitted f l = False"

definition tr_pending :: "u64 \<Rightarrow> TruthGateAsyncRunner \<Rightarrow> nat" where
  "tr_pending f s =
     length (filter (\<lambda>t. snd t = f) (tr_queue s)) +
     (case tr_task s of Some t \<Rightarrow> (if snd t = f then 1 else 0) | None \<Rightarrow> 0) +
     (if map_of (tr_results s) f = None then 0 else 1)"

lemma tr_pending_finish: "tr_pending f (tr_finish st s) \<le> tr_pending f s"
  by (auto simp: tr_pending_def tr_finish_def update_conv' split: option.splits)

lemma filter_tl_le: "length (filter P (tl xs)) \<le> length (filter P xs)"
  by (cases xs) auto

lemma tr_count_history:
  "tr_history ls s \<Longrightarrow>
   length (filter (tr_is_got f) ls) + tr_pending f s \<le> length (filter (tr_is_submitted f) ls)"
proof (induction rule: tr_history.induct)
  case Init
  show ?case by (simp add: tr_pending_def tr_new_def)
next
  case (Start ls s)
  then show ?case by (cases "tr_running s") (simp_all add: tr_pending_def tr_start_def)
next
  case (Stop ls s ops)
  have "tr_pending f (s\<lparr>tr_running := False\<rparr>) = tr_pending f s" by (simp add: tr_pending_def)
  then show ?case
    using Stop.IH tr_pending_finish [of f "gv_run ops" "s\<lparr>tr_running := False\<rparr>"] by (simp add: tr_stop_def)
next
  case (Submit ls s est g s')
  then show ?case using filter_tl_le [of "\<lambda>t. snd t = f" "tr_queue s"]
    by (auto simp: tr_pending_def tr_submit_def split: if_splits)
next
  case (Resize ls s n)
  then show ?case by (simp add: tr_pending_def tr_setQueueSize_def)
next
  case (Pick ls s)
  then show ?case by (cases "tr_queue s") (auto simp: tr_pending_def tr_pick_def)
next
  case (Store ls s ops)
  then show ?case using tr_pending_finish [of f "gv_run ops" s] by simp
next
  case (Get ls s g r s')
  show ?case
  proof (cases "map_of (tr_results s) g")
    case None
    then have "r = None" "s' = s" using Get.hyps(2) by (simp_all add: tr_getResult_def)
    then show ?thesis using Get.IH by simp
  next
    case (Some v)
    then have "r = Some v" "s' = s\<lparr>tr_results := AList.delete g (tr_results s)\<rparr>"
      using Get.hyps(2) by (simp_all add: tr_getResult_def)
    then show ?thesis using Get.IH Some by (cases "g = f") (auto simp: tr_pending_def delete_conv')
  qed
qed

text \<open>C25: Which verdicts the runner hands out: in every history of submissions, fetches, restarts and changes of
  the ground truth, a fetched verdict is the soft verdict on some estimate that was submitted for that
  frame, and a frame never yields more verdicts than submissions (fewer, when a full queue dropped it or
  a later verdict replaced it).\<close>

theorem tr_results_exact:
  assumes "tr_history ls s"
  shows "(Got f (Some r) \<in> set ls \<longrightarrow>
      (\<exists>est. Submitted est f \<in> set ls \<and> tg_soft_verdict (20 / 100) est f r)) \<and>
    length (filter (tr_is_got f) ls) + tr_pending f s \<le> length (filter (tr_is_submitted f) ls)"
  using tr_sound_history [OF assms] tr_count_history [OF assms, of f]
  by (force simp: tr_sound_def tr_verdict_def tg_default_def)

lemma tr_results_exact_witness:
  "\<exists>s r. tr_history [Got 3 (Some r), Stored, Picked, Started, Submitted (est_sample 1) 3] s \<and>
     tg_soft_verdict (20 / 100) (est_sample 1) 3 r"
proof -
  let ?e = "est_sample 1" and ?r = "tgate_evaluate tg_default (gv_run []) (est_sample 1) 3"
  have "tr_history [Submitted ?e 3] (tr_new\<lparr>tr_queue := [(?e, 3)]\<rparr>)"
    by (rule tr_history.Submit [OF tr_history.Init]) (simp add: tr_submit_def tr_new_def)
  from tr_history.Store [OF tr_history.Pick [OF tr_history.Start [OF this]], of "[]"]
  have "tr_history [Stored, Picked, Started, Submitted ?e 3]
      (tr_new\<lparr>tr_running := True, tr_results := [(3, ?r)]\<rparr>)"
    by (simp add: tr_start_def tr_pick_def tr_finish_def tr_new_def)
  from tr_history.Get [OF this, of 3 "Some ?r"]
  have h: "tr_history [Got 3 (Some ?r), Stored, Picked, Started, Submitted ?e 3] (tr_new\<lparr>tr_running := True\<rparr>)"
    by (simp add: tr_getResult_def tr_new_def)
  from tr_results_exact [OF h, of 3 ?r] have "tg_soft_verdict (20 / 100) ?e 3 ?r" by auto
  with h show ?thesis by blast
qed

text \<open>The queue keeps its bound, and a bound of 0 makes the first submission pop an empty queue.\<close>

lemma tr_queue_bounded:
  "tr_history ls s \<Longrightarrow> (\<And>n. Resized n \<notin> set ls) \<Longrightarrow>
   tr_max_queue_size s = 1024 \<and> length (tr_queue s) \<le> 1024"
proof (induction rule: tr_history.induct)
  case (Submit ls s est f s')
  then show ?case by (auto simp: tr_submit_def split: if_splits)
next
  case (Get ls s f r s')
  then show ?case by (auto simp: tr_getResult_def split: option.splits)
qed (auto simp: tr_new_def tr_start_def tr_stop_def tr_finish_def tr_pick_def tr_setQueueSize_def
      split: option.splits)

lemma tr_zero_size: "tr_submit est f (tr_setQueueSize 0 tr_new) = Inl OutOfRange"
  by (simp add: tr_submit_def tr_setQueueSize_def tr_new_def)

end
