(* ===== verification/Calibration_Session.thy ===== *)
theory Calibration_Session
  imports Truth_Gate
begin

text \<open>
  Calibration sessions (\<open>spatial_truth/calibration_session\<close>): the accuracy report of compared positions
  and the manager that runs a session. The session id is printed from the nanoseconds \<open>ns\<close> of the
  steady clock, \<open>t1\<close> and \<open>t2\<close> are the times read at the start and at the end of a calibration.
\<close>

datatype CalibrationSessionStatus = CREATED | RUNNING | ANALYZING | COMPLETED | FAILED

record CalibrationSession =
  cs_session_id :: string
  cs_status :: CalibrationSessionStatus
  cs_localization_mode :: LocalizationMode
  cs_coordinate_system_id :: string
  cs_ground_truth_count :: int
  cs_target_accuracy :: real
  cs_calibration_version :: u64
  cs_start_timestamp :: u64
  cs_completion_timestamp :: u64
  cs_repeatability_verified :: bool

record ComparisonRecord =
  cr_record_id :: string
  cr_session_id :: string
  cr_ground_truth :: GroundTruthPoint
  cr_estimated_x :: real
  cr_estimated_y :: real
  cr_estimated_z :: real
  cr_error_x :: real
  cr_error_y :: real
  cr_error_z :: real
  cr_error_total :: real
  cr_skipped :: bool
  cr_skip_reason :: string

fun cs_canTransition :: "CalibrationSessionStatus \<Rightarrow> CalibrationSessionStatus \<Rightarrow> bool" where
  "cs_canTransition from FAILED = True"
| "cs_canTransition CREATED t = (t = RUNNING)"
| "cs_canTransition RUNNING t = (t = ANALYZING)"
| "cs_canTransition ANALYZING t = (t = COMPLETED)"
| "cs_canTransition from t = False"

definition calibrationStatusToString :: "CalibrationSessionStatus \<Rightarrow> string" where
  "calibrationStatusToString s = (case s of CREATED \<Rightarrow> ''created'' | RUNNING \<Rightarrow> ''running''
     | ANALYZING \<Rightarrow> ''analyzing'' | COMPLETED \<Rightarrow> ''completed'' | FAILED \<Rightarrow> ''failed'')"

section \<open>The accuracy report\<close>

record AccuracyReport =
  rp_position_error :: real
  rp_x_error :: real
  rp_y_error :: real
  rp_rmse :: real
  rp_mae :: real
  rp_p50 :: real
  rp_p90 :: real
  rp_p95 :: real
  rp_max_error :: real
  rp_confidence :: real
  rp_sample_count :: int

definition rp_empty :: AccuracyReport where
  "rp_empty = \<lparr>rp_position_error = 0, rp_x_error = 0, rp_y_error = 0, rp_rmse = 0, rp_mae = 0, rp_p50 = 0,
     rp_p90 = 0, rp_p95 = 0, rp_max_error = 0, rp_confidence = 0, rp_sample_count = 0\<rparr>"

text \<open>The interpolation between the two entries around a rank.\<close>

definition ac_interpolate :: "real list \<Rightarrow> real \<Rightarrow> real" where
  "ac_interpolate xs rank =
     (let lo = nat \<lfloor>rank\<rfloor>; hi = nat \<lceil>rank\<rceil>; frac = rank - real lo
      in xs ! lo * (1 - frac) + xs ! hi * frac)"

definition ac_computePercentile :: "real list \<Rightarrow> real \<Rightarrow> real" where
  "ac_computePercentile errors percentile =
     (if errors = [] then 0 else if length errors = 1 then errors ! 0
      else ac_interpolate (std_sort (\<lambda>a b. a < b) errors) (percentile / 100 * real (length errors - 1)))"

definition ac_calculate :: "ComparisonRecord list \<Rightarrow> AccuracyReport" where
  "ac_calculate records =
     (let valid = filter (\<lambda>r. \<not> cr_skipped r) records in
      if valid = [] then rp_empty
      else
        let errors = map cr_error_total valid;
            sum_error_sq = foldl (\<lambda>s r. s + cr_error_total r * cr_error_total r) 0 valid;
            sum_abs_x = foldl (\<lambda>s r. s + \<bar>cr_error_x r\<bar>) 0 valid;
            sum_abs_y = foldl (\<lambda>s r. s + \<bar>cr_error_y r\<bar>) 0 valid;
            sum_abs_total = foldl (\<lambda>s r. s + \<bar>cr_error_total r\<bar>) 0 valid;
            max_err = foldl (\<lambda>m r. if cr_error_total r > m then cr_error_total r else m) 0 valid;
            sum_confidence = foldl (\<lambda>s r. s + 1) 0 valid;
            n = real (length valid)
        in \<lparr>rp_position_error = sum_abs_total / n, rp_x_error = sum_abs_x / n, rp_y_error = sum_abs_y / n,
            rp_rmse = sqrt (sum_error_sq / n), rp_mae = sum_abs_total / n,
            rp_p50 = ac_computePercentile errors 50, rp_p90 = ac_computePercentile errors 90,
            rp_p95 = ac_computePercentile errors 95, rp_max_error = max_err,
            rp_confidence = sum_confidence / n, rp_sample_count = int (length valid)\<rparr>)"

section \<open>The manager\<close>

datatype CalibrationError =
    NO_GROUND_TRUTH | NO_ONLINE_READER | ALGORITHM_NOT_SUPPORTED | SESSION_NOT_FOUND
  | SESSION_ALREADY_COMPLETED | SESSION_TIMEOUT | REPEATABILITY_FAILED

record CreateSessionRequest =
  rq_localization_mode :: LocalizationMode
  rq_coordinate_system_id :: string
  rq_target_accuracy :: real
  rq_source_filter :: "GroundTruthSource option"

record VersionInfo =
  vi_version :: u64
  vi_timestamp :: u64
  vi_session_id :: string
  vi_rmse :: real
  vi_p95 :: real

record CalibrationSessionManager =
  cal_sessions :: "(string \<times> CalibrationSession) list"
  cal_comparison_records :: "(string \<times> ComparisonRecord list) list"
  cal_reports :: "(string \<times> AccuracyReport) list"
  cal_next_version :: u64
  cal_session_timeout_ms :: u64

definition cal_new :: CalibrationSessionManager where
  "cal_new = \<lparr>cal_sessions = [], cal_comparison_records = [], cal_reports = [], cal_next_version = 1,
     cal_session_timeout_ms = 300000\<rparr>"

definition cal_generateSessionId :: "int \<Rightarrow> string" where
  "cal_generateSessionId ns = ''cal-'' @ to_string ns"

definition cal_hasOnlineReader :: bool where
  "cal_hasOnlineReader = True"

definition cal_compare :: "string \<Rightarrow> nat \<times> GroundTruthPoint \<Rightarrow> ComparisonRecord" where
  "cal_compare session_id = (\<lambda>(i, gt).
     let ex = gp_x gt; ey = gp_y gt; ez = gp_z gt; dx = ex - gp_x gt; dy = ey - gp_y gt; dz = ez - gp_z gt
     in \<lparr>cr_record_id = session_id @ ''-rec-'' @ to_string (int i), cr_session_id = session_id,
         cr_ground_truth = gt, cr_estimated_x = ex, cr_estimated_y = ey, cr_estimated_z = ez,
         cr_error_x = dx, cr_error_y = dy, cr_error_z = dz,
         cr_error_total = sqrt (dx * dx + dy * dy + dz * dz), cr_skipped = False, cr_skip_reason = ''''\<rparr>)"

definition cal_checkDeviation :: "real \<Rightarrow> real \<Rightarrow> bool" where
  "cal_checkDeviation a b \<longleftrightarrow> (if b = 0 then True else \<bar>a - b\<bar> / b \<le> 5 / 100)"

definition cal_verifyRepeatability :: "ComparisonRecord list \<Rightarrow> bool" where
  "cal_verifyRepeatability records =
     (if records = [] then True
      else let report1 = ac_calculate records; report2 = ac_calculate records; report3 = ac_calculate records
           in cal_checkDeviation (rp_rmse report1) (rp_rmse report2) \<and>
              cal_checkDeviation (rp_rmse report2) (rp_rmse report3) \<and>
              cal_checkDeviation (rp_p50 report1) (rp_p50 report2) \<and>
              cal_checkDeviation (rp_p90 report1) (rp_p90 report2) \<and>
              cal_checkDeviation (rp_p95 report1) (rp_p95 report2))"

text \<open>\<open>executeCalibration\<close> on the session it finds under the id, through the statuses in turn.\<close>

definition cal_executeCalibration ::
  "GroundTruthStore \<Rightarrow> u64 \<Rightarrow> u64 \<Rightarrow> string \<Rightarrow> CreateSessionRequest \<Rightarrow> CalibrationSession
    \<Rightarrow> CalibrationSessionManager \<Rightarrow> CalibrationSessionManager" where
  "cal_executeCalibration st t1 t2 session_id req session0 m =
     (let session1 = session0\<lparr>cs_status := RUNNING, cs_start_timestamp := t1\<rparr>;
          gt_points = gv_getPointsForCalibration (rq_coordinate_system_id req) (rq_source_filter req) st;
          records = map (cal_compare session_id) (enumerate 0 gt_points);
          session2 = session1\<lparr>cs_status := ANALYZING\<rparr>;
          report = ac_calculate records;
          session3 = session2\<lparr>cs_calibration_version := cal_next_version m, cs_completion_timestamp := t2,
                       cs_repeatability_verified := cal_verifyRepeatability records, cs_status := COMPLETED\<rparr>
      in m\<lparr>cal_comparison_records := AList.update session_id records (cal_comparison_records m),
           cal_reports := AList.update session_id report (cal_reports m),
           cal_next_version := cal_next_version m + 1,
           cal_sessions := AList.update session_id session3 (cal_sessions m)\<rparr>)"

definition cal_createSession ::
  "GroundTruthStore \<Rightarrow> int \<Rightarrow> u64 \<Rightarrow> u64 \<Rightarrow> CreateSessionRequest \<Rightarrow> CalibrationSessionManager
    \<Rightarrow> (CalibrationError \<times> string + string) \<times> CalibrationSessionManager" where
  "cal_createSession st ns t1 t2 req m =
     (let gt_points = gv_getPointsForCalibration (rq_coordinate_system_id req) (rq_source_filter req) st in
      if gt_points = [] then
        (Inl (NO_GROUND_TRUTH, ''No ground truth points found for coordinate system: '' @ rq_coordinate_system_id req), m)
      else if \<not> cal_hasOnlineReader then (Inl (NO_ONLINE_READER, ''No online reader available''), m)
      else
        let i = cal_generateSessionId ns;
            session = \<lparr>cs_session_id = i, cs_status = CREATED, cs_localization_mode = rq_localization_mode req,
              cs_coordinate_system_id = rq_coordinate_system_id req, cs_ground_truth_count = int (length gt_points),
              cs_target_accuracy = rq_target_accuracy req, cs_calibration_version = 0, cs_start_timestamp = 0,
              cs_completion_timestamp = 0, cs_repeatability_verified = False\<rparr>;
            m1 = m\<lparr>cal_sessions := AList.update i session (cal_sessions m)\<rparr>
        in (Inr i, cal_executeCalibration st t1 t2 i req session m1))"

definition cal_startSession :: "string \<Rightarrow> u64 \<Rightarrow> CalibrationSessionManager \<Rightarrow> bool \<times> CalibrationSessionManager" where
  "cal_startSession i now m =
     (case map_of (cal_sessions m) i of
        None \<Rightarrow> (False, m)
      | Some s \<Rightarrow>
          if \<not> cs_canTransition (cs_status s) RUNNING then (False, m)
          else (True, m\<lparr>cal_sessions :=
                 AList.update i (s\<lparr>cs_status := RUNNING, cs_start_timestamp := now\<rparr>) (cal_sessions m)\<rparr>))"

definition cal_getSession :: "string \<Rightarrow> CalibrationSessionManager \<Rightarrow> CalibrationSession option" where
  "cal_getSession i m = map_of (cal_sessions m) i"

definition cal_getSessionStatus :: "string \<Rightarrow> CalibrationSessionManager \<Rightarrow> CalibrationSessionStatus option" where
  "cal_getSessionStatus i m = map_option cs_status (map_of (cal_sessions m) i)"

definition cal_getSessionReport :: "string \<Rightarrow> CalibrationSessionManager \<Rightarrow> AccuracyReport option" where
  "cal_getSessionReport i m = map_of (cal_reports m) i"

definition cal_getComparisonRecords :: "string \<Rightarrow> CalibrationSessionManager \<Rightarrow> ComparisonRecord list" where
  "cal_getComparisonRecords i m = (case map_of (cal_comparison_records m) i of None \<Rightarrow> [] | Some rs \<Rightarrow> rs)"

definition cal_version_info :: "CalibrationSessionManager \<Rightarrow> string \<times> CalibrationSession \<Rightarrow> VersionInfo" where
  "cal_version_info m = (\<lambda>(i, s).
     \<lparr>vi_version = cs_calibration_version s, vi_timestamp = cs_completion_timestamp s, vi_session_id = cs_session_id s,
      vi_rmse = (case map_of (cal_reports m) i of None \<Rightarrow> 0 | Some r \<Rightarrow> rp_rmse r),
      vi_p95 = (case map_of (cal_reports m) i of None \<Rightarrow> 0 | Some r \<Rightarrow> rp_p95 r)\<rparr>)"

definition cal_listVersions :: "int \<Rightarrow> int \<Rightarrow> CalibrationSessionManager \<Rightarrow> VersionInfo list" where
  "cal_listVersions offset limit m =
     (let versions = std_sort (\<lambda>a b. vi_version a > vi_version b)
            (map (cal_version_info m) (filter (\<lambda>(i, s). \<not> cs_status s \<noteq> COMPLETED) (cal_sessions m)))
      in page_of (if offset < 0 then 0 else offset) (if limit < 0 then 20 else limit) versions)"

section \<open>The report orders its figures\<close>

lemma interpolate_between:
  assumes "0 \<le> r" "r \<le> real (length xs - 1)" "xs \<noteq> []" "sorted xs"
  shows "xs ! nat \<lfloor>r\<rfloor> \<le> ac_interpolate xs r" "ac_interpolate xs r \<le> xs ! nat \<lceil>r\<rceil>"
proof -
  let ?lo = "nat \<lfloor>r\<rfloor>" and ?hi = "nat \<lceil>r\<rceil>"
  have hi: "?hi < length xs"
  proof -
    have "\<lceil>r\<rceil> \<le> int (length xs - 1)" using assms(2) by (simp add: ceiling_le_iff)
    then show ?thesis using assms(3) by (cases xs) auto
  qed
  have "?lo \<le> ?hi" by (simp add: floor_le_ceiling nat_mono)
  then have le: "xs ! ?lo \<le> xs ! ?hi" using assms(4) hi by (simp add: sorted_iff_nth_mono)
  have f: "real ?lo = of_int \<lfloor>r\<rfloor>" using assms(1) by simp
  have frac: "0 \<le> r - real ?lo" "r - real ?lo \<le> 1" unfolding f by linarith+
  have eq: "ac_interpolate xs r = xs ! ?lo + (xs ! ?hi - xs ! ?lo) * (r - real ?lo)"
    by (simp add: ac_interpolate_def Let_def algebra_simps)
  show "xs ! ?lo \<le> ac_interpolate xs r" unfolding eq using le frac by simp
  have "(xs ! ?hi - xs ! ?lo) * (r - real ?lo) \<le> (xs ! ?hi - xs ! ?lo) * 1"
    using le frac by (intro mult_left_mono) simp_all
  then show "ac_interpolate xs r \<le> xs ! ?hi" unfolding eq by simp
qed

lemma interpolate_mono:
  assumes "0 \<le> r" "r \<le> s" "s \<le> real (length xs - 1)" "xs \<noteq> []" "sorted xs"
  shows "ac_interpolate xs r \<le> ac_interpolate xs s"
proof (cases "\<lfloor>r\<rfloor> = \<lfloor>s\<rfloor>")
  case True
  show ?thesis
  proof (cases "r = of_int \<lfloor>r\<rfloor>")
    case int: True
    then have "ac_interpolate xs r = xs ! nat \<lfloor>r\<rfloor>"
      using assms(1) by (simp add: ac_interpolate_def Let_def)
    with True interpolate_between(1) [of s xs] assms show ?thesis by simp
  next
    case False
    then have ceil: "\<lceil>r\<rceil> = \<lfloor>r\<rfloor> + 1" "\<lceil>s\<rceil> = \<lfloor>r\<rfloor> + 1"
      using True assms(2) by (auto simp: ceiling_altdef) linarith+
    let ?a = "xs ! nat \<lfloor>r\<rfloor>" and ?b = "xs ! nat (\<lfloor>r\<rfloor> + 1)"
    have "?a \<le> ?b" using interpolate_between [of r xs] assms ceil by simp
    moreover have "ac_interpolate xs t = ?a + (?b - ?a) * (t - real (nat \<lfloor>r\<rfloor>))"
      if "\<lfloor>t\<rfloor> = \<lfloor>r\<rfloor>" "\<lceil>t\<rceil> = \<lfloor>r\<rfloor> + 1" for t
      using that by (simp add: ac_interpolate_def Let_def algebra_simps)
    ultimately show ?thesis
      using ceil True assms(2) by (simp add: mult_left_mono)
  qed
next
  case False
  then have "\<lceil>r\<rceil> \<le> \<lfloor>s\<rfloor>" using assms(2) by linarith
  then have "nat \<lceil>r\<rceil> \<le> nat \<lfloor>s\<rfloor>" by (rule nat_mono)
  moreover have "nat \<lfloor>s\<rfloor> < length xs"
  proof -
    have "\<lfloor>s\<rfloor> \<le> int (length xs - 1)" using assms(3) by linarith
    then show ?thesis using assms(4) by (cases xs) auto
  qed
  ultimately have "xs ! nat \<lceil>r\<rceil> \<le> xs ! nat \<lfloor>s\<rfloor>" using assms(5) by (simp add: sorted_iff_nth_mono)
  then show ?thesis
    using interpolate_between(2) [of r xs] interpolate_between(1) [of s xs] assms by linarith
qed

lemma sorted_std_sort_real: "sorted (std_sort (\<lambda>a b. a < b) (xs :: real list))"
  using sorted_std_sort_key [of "\<lambda>x. x" xs] by simp

lemma percentile_mono:
  assumes "0 \<le> p" "p \<le> q" "q \<le> 100"
  shows "ac_computePercentile xs p \<le> ac_computePercentile xs q"
proof -
  have "q / 100 * real (length xs - 1) \<le> 1 * real (length xs - 1)"
    using assms by (intro mult_right_mono) simp_all
  then show ?thesis
    using assms interpolate_mono [OF _ _ _ _ sorted_std_sort_real, of "p / 100 * real (length xs - 1)"
        "q / 100 * real (length xs - 1)" xs]
    by (simp add: ac_computePercentile_def mult_right_mono)
qed

lemma percentile_in_range:
  assumes "xs \<noteq> []" "0 \<le> p" "p \<le> 100"
  shows "\<exists>x \<in> set xs. ac_computePercentile xs p \<le> x" "\<exists>x \<in> set xs. x \<le> ac_computePercentile xs p"
proof -
  let ?s = "std_sort (\<lambda>a b. a < b) xs" and ?r = "p / 100 * real (length xs - 1)"
  have "?r \<le> 1 * real (length xs - 1)" using assms by (intro mult_right_mono) simp_all
  then have r: "0 \<le> ?r" "?r \<le> real (length ?s - 1)" using assms by simp_all
  have "\<lceil>?r\<rceil> \<le> int (length ?s - 1)" using r(2) by (simp only: ceiling_le_iff of_int_of_nat_eq)
  then have "nat \<lceil>?r\<rceil> \<le> length ?s - 1" by (simp only: nat_le_iff)
  moreover have "nat \<lfloor>?r\<rfloor> \<le> nat \<lceil>?r\<rceil>" by (rule nat_mono [OF floor_le_ceiling])
  moreover have "length ?s - 1 < length ?s" using assms(1) by simp
  ultimately have "nat \<lceil>?r\<rceil> < length ?s" "nat \<lfloor>?r\<rfloor> < length ?s" by linarith+
  then have mem: "?s ! nat \<lceil>?r\<rceil> \<in> set xs" "?s ! nat \<lfloor>?r\<rfloor> \<in> set xs"
    using nth_mem [of _ ?s] by (metis set_std_sort)+
  note between = interpolate_between [OF r _ sorted_std_sort_real]
  show "\<exists>x \<in> set xs. ac_computePercentile xs p \<le> x"
  proof (cases "length xs = 1")
    case True
    then show ?thesis using assms(1) by (auto simp: ac_computePercentile_def)
  next
    case False
    then show ?thesis using assms(1) between(2) mem(1) by (auto simp: ac_computePercentile_def)
  qed
  show "\<exists>x \<in> set xs. x \<le> ac_computePercentile xs p"
  proof (cases "length xs = 1")
    case True
    then show ?thesis using assms(1) by (auto simp: ac_computePercentile_def)
  next
    case False
    then show ?thesis using assms(1) between(1) mem(2) by (auto simp: ac_computePercentile_def)
  qed
qed

lemma foldl_sum_list: "foldl (\<lambda>s r. s + f r) (a :: real) xs = a + sum_list (map f xs)"
  by (induction xs arbitrary: a) auto

lemma sum_of_squares_mean:
  "(\<Sum>e \<leftarrow> es. (e - m) * (e - m)) = (\<Sum>e \<leftarrow> es. e * e) - 2 * m * sum_list es + real (length es) * (m * m)"
  by (induction es) (simp_all add: algebra_simps)

lemma mean_le_root_mean_square:
  assumes "es \<noteq> []"
  shows "sum_list es / real (length es) \<le> sqrt ((\<Sum>e \<leftarrow> es. e * e) / real (length es))"
proof (rule real_le_rsqrt)
  let ?n = "real (length es)" and ?m = "sum_list es / real (length es)"
  have n: "?n > 0" using assms by simp
  have "0 \<le> (\<Sum>e \<leftarrow> es. (e - ?m) * (e - ?m))" by (rule sum_list_nonneg) auto
  also have "\<dots> = (\<Sum>e \<leftarrow> es. e * e) - ?n * (?m * ?m)"
    unfolding sum_of_squares_mean using n by (simp add: field_simps)
  finally have "?n * (?m * ?m) \<le> (\<Sum>e \<leftarrow> es. e * e)" by simp
  then show "?m\<^sup>2 \<le> (\<Sum>e \<leftarrow> es. e * e) / ?n" using n by (simp add: power2_eq_square field_simps)
qed

lemma foldl_max: "foldl (\<lambda>m r. if f r > m then f r else m) (a :: real) xs = Max (insert a (f ` set xs))"
proof (induction xs arbitrary: a)
  case Nil
  then show ?case by simp
next
  case (Cons x xs)
  have "Max (insert (max a (f x)) (f ` set xs)) = Max (insert a (insert (f x) (f ` set xs)))"
    by (cases "set xs = {}") (auto simp: Max_insert max.assoc)
  moreover have "(if f x > a then f x else a) = max a (f x)" by (simp add: max_def)
  ultimately show ?case using Cons.IH by simp
qed

lemma sum_list_le_bound: "(\<And>e. e \<in> set es \<Longrightarrow> e \<le> (b :: real)) \<Longrightarrow> sum_list es \<le> real (length es) * b"
  by (induction es) (auto simp: algebra_simps add_mono)

text \<open>The figures of an accuracy report are ordered: with non-negative errors and at least one record that was
  not skipped, the median, the 90th and the 95th percentile and the maximum ascend, the mean absolute
  error is at most the root mean square error, which is at most the maximum, and the sample count is the
  number of records not skipped; without such a record every figure is 0.\<close>

theorem ac_report_ordered:
  assumes "\<forall>r \<in> set records. cr_error_total r \<ge> 0" and "rep = ac_calculate records"
  shows "(if list_all cr_skipped records then rep = rp_empty
     else 0 \<le> rp_p50 rep \<and> rp_p50 rep \<le> rp_p90 rep \<and> rp_p90 rep \<le> rp_p95 rep \<and> rp_p95 rep \<le> rp_max_error rep \<and>
       rp_mae rep \<le> rp_rmse rep \<and> rp_rmse rep \<le> rp_max_error rep \<and>
       rp_sample_count rep = int (length (filter (\<lambda>r. \<not> cr_skipped r) records)))"
proof (cases "list_all cr_skipped records")
  case True
  then have "filter (\<lambda>r. \<not> cr_skipped r) records = []" by (auto simp: list_all_iff filter_empty_conv)
  then show ?thesis using True assms(2) by (simp add: ac_calculate_def Let_def)
next
  case False
  define valid where "valid = filter (\<lambda>r. \<not> cr_skipped r) records"
  let ?es = "map cr_error_total valid"
  have ne: "valid \<noteq> []" using False by (auto simp: valid_def list_all_iff filter_empty_conv)
  have pos: "\<forall>e \<in> set ?es. e \<ge> 0" using assms(1) by (auto simp: valid_def)
  have rep: "rp_p50 rep = ac_computePercentile ?es 50" "rp_p90 rep = ac_computePercentile ?es 90"
    "rp_p95 rep = ac_computePercentile ?es 95" "rp_max_error rep = Max (insert 0 (set ?es))"
    "rp_mae rep = sum_list ?es / real (length ?es)"
    "rp_rmse rep = sqrt ((\<Sum>e \<leftarrow> ?es. e * e) / real (length ?es))" "rp_sample_count rep = int (length valid)"
  proof -
    have abs: "map (\<lambda>r. \<bar>cr_error_total r\<bar>) valid = ?es" using pos by (intro map_cong) auto
    show "rp_mae rep = sum_list ?es / real (length ?es)"
      using ne by (simp add: assms(2) ac_calculate_def Let_def valid_def [symmetric] foldl_sum_list abs)
  qed (use ne in \<open>simp_all add: assms(2) ac_calculate_def Let_def valid_def [symmetric] foldl_sum_list foldl_max comp_def\<close>)
  have le_max: "e \<le> rp_max_error rep" if "e \<in> set ?es" for e using that unfolding rep by (intro Max_ge) auto
  have "0 \<le> rp_max_error rep" unfolding rep by (intro Max_ge) auto
  have "(\<Sum>e \<leftarrow> ?es. e * e) \<le> real (length ?es) * (rp_max_error rep * rp_max_error rep)"
  proof -
    have "e * e \<le> rp_max_error rep * rp_max_error rep" if "e \<in> set ?es" for e
      using pos le_max that \<open>0 \<le> rp_max_error rep\<close> by (intro mult_mono) auto
    then show ?thesis
      using sum_list_le_bound [of "map (\<lambda>e. e * e) ?es" "rp_max_error rep * rp_max_error rep"] by auto
  qed
  then have "(\<Sum>e \<leftarrow> ?es. e * e) / real (length ?es) \<le> rp_max_error rep * rp_max_error rep"
    using ne by (simp add: field_simps)
  then have "rp_rmse rep \<le> sqrt (rp_max_error rep * rp_max_error rep)" unfolding rep(6) by (rule real_sqrt_le_mono)
  also have "\<dots> = rp_max_error rep" using \<open>0 \<le> rp_max_error rep\<close> by simp
  finally have rmse: "rp_rmse rep \<le> rp_max_error rep" .
  have mae: "rp_mae rep \<le> rp_rmse rep" unfolding rep(5,6) using ne by (intro mean_le_root_mean_square) simp
  have p: "rp_p50 rep \<le> rp_p90 rep" "rp_p90 rep \<le> rp_p95 rep" unfolding rep(1-3) by (simp_all add: percentile_mono)
  obtain e where "e \<in> set ?es" "rp_p95 rep \<le> e"
    using percentile_in_range(1) [of ?es 95] ne unfolding rep(3) by auto
  with le_max have "rp_p95 rep \<le> rp_max_error rep" by force
  moreover obtain e where "e \<in> set ?es" "e \<le> rp_p50 rep"
    using percentile_in_range(2) [of ?es 50] ne unfolding rep(1) by auto
  with pos have "0 \<le> rp_p50 rep" by force
  ultimately show ?thesis using False p rmse mae rep(7) by (simp add: valid_def)
qed

definition cr_sample :: "real \<Rightarrow> bool \<Rightarrow> ComparisonRecord" where
  "cr_sample e sk = \<lparr>cr_record_id = '''', cr_session_id = '''', cr_ground_truth = gp_sample ''p'' 1,
     cr_estimated_x = e, cr_estimated_y = 0, cr_estimated_z = 0, cr_error_x = e, cr_error_y = 0, cr_error_z = 0,
     cr_error_total = e, cr_skipped = sk, cr_skip_reason = ''''\<rparr>"

lemma ac_report_ordered_witness:
  "rp_p95 (ac_calculate [cr_sample 3 False, cr_sample 9 True, cr_sample 4 False]) \<le>
     rp_max_error (ac_calculate [cr_sample 3 False, cr_sample 9 True, cr_sample 4 False]) \<and>
   rp_sample_count (ac_calculate [cr_sample 3 False, cr_sample 9 True, cr_sample 4 False]) = 2"
  using ac_report_ordered [OF _ refl, of "[cr_sample 3 False, cr_sample 9 True, cr_sample 4 False]"]
  by (simp add: cr_sample_def)

section \<open>What a calibration establishes\<close>

lemma cal_compare_zero [simp]:
  "cr_error_total (cal_compare i x) = 0" "cr_error_x (cal_compare i x) = 0" "cr_error_y (cal_compare i x) = 0"
  "\<not> cr_skipped (cal_compare i x)" "cr_ground_truth (cal_compare i x) = snd x"
  by (simp_all add: cal_compare_def Let_def split: prod.splits)

lemma percentile_zeros: "set xs \<subseteq> {0} \<Longrightarrow> 0 \<le> p \<Longrightarrow> p \<le> 100 \<Longrightarrow> ac_computePercentile xs p = 0"
proof (cases "xs = []")
  case False
  assume "set xs \<subseteq> {0}" "0 \<le> p" "p \<le> 100"
  with False percentile_in_range [of xs p] obtain x y where
    "x = 0" "ac_computePercentile xs p \<le> x" "y = 0" "y \<le> ac_computePercentile xs p" by blast
  then show ?thesis by simp
qed (simp add: ac_computePercentile_def)

definition rp_perfect :: "nat \<Rightarrow> AccuracyReport" where
  "rp_perfect n = rp_empty\<lparr>rp_confidence := 1, rp_sample_count := int n\<rparr>"

lemma ac_calculate_compared:
  assumes "xs \<noteq> []"
  shows "ac_calculate (map (cal_compare i) xs) = rp_perfect (length xs)"
proof -
  have valid: "filter (\<lambda>r. \<not> cr_skipped r) (map (cal_compare i) xs) = map (cal_compare i) xs"
    by (simp add: filter_id_conv)
  have p: "ac_computePercentile (map cr_error_total (map (cal_compare i) xs)) p = 0" if "0 \<le> p" "p \<le> 100" for p
    using that by (intro percentile_zeros) auto
  have sums: "sum_list (map (\<lambda>r. f (cal_compare i r)) xs) = (0 :: real)" if "\<And>r. f (cal_compare i r) = 0" for f
    using that by (induction xs) auto
  have "Max (insert 0 (cr_error_total ` set (map (cal_compare i) xs))) = 0"
    using assms by (intro Max_eqI) auto
  then have m: "foldl (\<lambda>m r. if cr_error_total r > m then cr_error_total r else m) 0 (map (cal_compare i) xs) = 0"
    by (simp only: foldl_max)
  show ?thesis
    unfolding ac_calculate_def valid Let_def
    using assms p m
    by (simp add: foldl_sum_list rp_perfect_def rp_empty_def comp_def sum_list_triv)
qed

lemma cal_verify_compared: "cal_verifyRepeatability (map (cal_compare i) xs)"
  by (cases "xs = []") (simp_all add: cal_verifyRepeatability_def ac_calculate_compared rp_perfect_def
      rp_empty_def cal_checkDeviation_def Let_def)

text \<open>A calibration session always succeeds perfectly: for any ground truth, localization mode and target accuracy,
  creating a session with at least one point of ground truth completes it at once with repeatability
  verified and a report in which every error is 0 and the confidence is 1, because the estimates are copies
  of the ground truth; the session can then not be started any more. Without such a point it is refused and nothing changes.\<close>

theorem cal_session_vacuous:
  assumes "cal_createSession st ns t1 t2 req m = (res, m')"
    and "n = length (gv_getPointsForCalibration (rq_coordinate_system_id req) (rq_source_filter req) st)"
  shows "(if n = 0 then (\<exists>msg. res = Inl (NO_GROUND_TRUTH, msg)) \<and> m' = m
     else (\<exists>i s. res = Inr i \<and> cal_getSession i m' = Some s \<and> cs_status s = COMPLETED \<and>
        cs_repeatability_verified s \<and> cs_calibration_version s = cal_next_version m \<and>
        cal_getSessionReport i m' = Some (rp_perfect n) \<and> length (cal_getComparisonRecords i m') = n \<and>
        cal_startSession i now m' = (False, m')))"
proof (cases "n = 0")
  case True
  then show ?thesis using assms by (auto simp: cal_createSession_def Let_def)
next
  case False
  let ?pts = "gv_getPointsForCalibration (rq_coordinate_system_id req) (rq_source_filter req) st"
  have ne: "enumerate 0 ?pts \<noteq> []" "length (enumerate 0 ?pts) = n"
    using False assms(2) by (metis length_0_conv length_enumerate)+
  have "m' = snd (cal_createSession st ns t1 t2 req m)" "res = Inr (cal_generateSessionId ns)"
    using assms False by (auto simp: cal_createSession_def cal_hasOnlineReader_def Let_def)
  with False show ?thesis
    using ac_calculate_compared [OF ne(1), of "cal_generateSessionId ns"] ne(2) cal_verify_compared assms(2)
    by (simp add: cal_createSession_def cal_hasOnlineReader_def cal_executeCalibration_def Let_def
        cal_getSession_def cal_getSessionReport_def cal_getComparisonRecords_def cal_startSession_def update_conv')
qed

definition rq_sample :: CreateSessionRequest where
  "rq_sample = \<lparr>rq_localization_mode = AOA, rq_coordinate_system_id = ''global'', rq_target_accuracy = 0,
     rq_source_filter = None\<rparr>"

lemma cal_session_vacuous_witness:
  "\<exists>i s. cal_getSession i (snd (cal_createSession (gv_run [AddPoint (gp_sample ''p'' 1)]) 5 1 2 rq_sample cal_new)) = Some s \<and>
     cs_repeatability_verified s"
proof -
  have n: "length (gv_getPointsForCalibration (rq_coordinate_system_id rq_sample) (rq_source_filter rq_sample)
      (gv_run [AddPoint (gp_sample ''p'' 1)])) = 1" by code_simp
  from cal_session_vacuous [OF prod.collapse [symmetric] refl, of rq_sample "gv_run [AddPoint (gp_sample ''p'' 1)]"
      5 1 2 cal_new]
  show ?thesis unfolding n by (simp only: one_neq_zero if_False) blast
qed

section \<open>The list of versions\<close>

record cal_call =
  cc_store :: GroundTruthStore
  cc_ns :: int
  cc_t1 :: u64
  cc_t2 :: u64
  cc_req :: CreateSessionRequest

definition cal_call_step :: "CalibrationSessionManager \<Rightarrow> cal_call \<Rightarrow> CalibrationSessionManager" where
  "cal_call_step m c = snd (cal_createSession (cc_store c) (cc_ns c) (cc_t1 c) (cc_t2 c) (cc_req c) m)"

definition cal_call_accepted :: "cal_call \<Rightarrow> bool" where
  "cal_call_accepted c \<longleftrightarrow>
     gv_getPointsForCalibration (rq_coordinate_system_id (cc_req c)) (rq_source_filter (cc_req c)) (cc_store c) \<noteq> []"

definition cal_inv :: "nat \<Rightarrow> int set \<Rightarrow> CalibrationSessionManager \<Rightarrow> bool" where
  "cal_inv k seen m \<longleftrightarrow>
     cal_next_version m = of_nat (Suc k) \<and> distinct (map fst (cal_sessions m)) \<and>
     fst ` set (cal_sessions m) \<subseteq> cal_generateSessionId ` seen \<and>
     (\<forall>(i, s) \<in> set (cal_sessions m). cs_status s = COMPLETED) \<and>
     mset (map (cs_calibration_version \<circ> snd) (cal_sessions m)) = mset (map of_nat [1..<Suc k])"

lemma cal_inv_new: "cal_inv 0 {} cal_new"
  by (simp add: cal_inv_def cal_new_def)

lemma AList_update_fresh: "k \<notin> fst ` set xs \<Longrightarrow> AList.update k v xs = xs @ [(k, v)]"
  by (induction xs) auto

lemma AList_update_twice: "AList.update k v (AList.update k w xs) = AList.update k v xs"
  by (induction xs) auto

lemma cal_inv_step:
  assumes inv: "cal_inv k seen m" and new: "cc_ns c \<notin> seen"
  shows "cal_inv (if cal_call_accepted c then Suc k else k) (insert (cc_ns c) seen) (cal_call_step m c)"
proof (cases "cal_call_accepted c")
  case False
  then have "cal_call_step m c = m" by (simp add: cal_call_step_def cal_createSession_def cal_call_accepted_def)
  with False inv show ?thesis by (auto simp: cal_inv_def)
next
  case True
  have "cal_generateSessionId (cc_ns c) \<notin> cal_generateSessionId ` seen"
    using new to_string_inj by (auto simp: cal_generateSessionId_def)
  then have fresh: "cal_generateSessionId (cc_ns c) \<notin> fst ` set (cal_sessions m)"
    using inv by (auto simp: cal_inv_def)
  define s where "s = the (map_of (cal_sessions (cal_call_step m c)) (cal_generateSessionId (cc_ns c)))"
  have "map_of (cal_sessions m) (cal_generateSessionId (cc_ns c)) = None"
    using fresh by (simp add: map_of_eq_None_iff)
  then have "cs_status s = COMPLETED" "cs_calibration_version s = cal_next_version m"
    "cal_sessions (cal_call_step m c) = cal_sessions m @ [(cal_generateSessionId (cc_ns c), s)]"
    "cal_next_version (cal_call_step m c) = cal_next_version m + 1"
    using True fresh by (simp_all add: s_def cal_call_step_def cal_createSession_def cal_call_accepted_def Let_def
        cal_hasOnlineReader_def cal_executeCalibration_def AList_update_twice AList_update_fresh map_add_def)
  then show ?thesis using inv fresh True by (auto simp: cal_inv_def)
qed

lemma cal_inv_run:
  "cal_inv k seen m \<Longrightarrow> distinct (map cc_ns cs) \<Longrightarrow> cc_ns ` set cs \<inter> seen = {} \<Longrightarrow>
   cal_inv (k + length (filter cal_call_accepted cs)) (seen \<union> cc_ns ` set cs) (foldl cal_call_step m cs)"
proof (induction cs arbitrary: k seen m)
  case Nil
  then show ?case by simp
next
  case (Cons c cs)
  have "cc_ns c \<notin> seen" "cc_ns ` set cs \<inter> insert (cc_ns c) seen = {}" using Cons.prems(2,3) by auto
  from Cons.IH [OF cal_inv_step [OF Cons.prems(1) this(1)] _ this(2)] Cons.prems(2)
  show ?case by (simp add: insert_commute split: if_splits)
qed

lemma sorted_of_nats: "k < 2 ^ 64 \<Longrightarrow> sorted (map (of_nat :: nat \<Rightarrow> u64) [1..<Suc k])"
proof (induction k)
  case (Suc k)
  have "\<forall>n \<in> set [1..<Suc k]. (of_nat n :: u64) \<le> of_nat (Suc k)"
    using Suc.prems by (auto simp: word_le_nat_alt unat_of_nat take_bit_nat_eq_self_iff simp del: of_nat_Suc)
  moreover have "map (of_nat :: nat \<Rightarrow> u64) [1..<Suc (Suc k)] = map of_nat [1..<Suc k] @ [of_nat (Suc k)]" by simp
  moreover have "sorted (map (of_nat :: nat \<Rightarrow> u64) [1..<Suc k])" using Suc by simp
  ultimately show ?case by (simp only: sorted_append) simp
qed simp

lemma sorted_desc_versions:
  assumes "mset (map vi_version vs) = mset (map (of_nat :: nat \<Rightarrow> u64) [1..<Suc k])" "k < 2 ^ 64"
  shows "map vi_version (std_sort (\<lambda>a b. vi_version a > vi_version b) vs) = rev (map of_nat [1..<Suc k])"
proof -
  let ?s = "std_sort (\<lambda>a b. vi_version a > vi_version b) vs"
  have "sorted_wrt (\<lambda>a b. \<not> vi_version b > vi_version a) ?s" by (rule sorted_std_sort) auto
  then have "sorted (rev (map vi_version ?s))"
    by (simp add: sorted_wrt_rev sorted_wrt_map rev_map not_less)
  moreover have "mset (rev (map vi_version ?s)) = mset (map (of_nat :: nat \<Rightarrow> u64) [1..<Suc k])"
  proof -
    have "mset (map vi_version ?s) = mset (map vi_version vs)" by simp
    then show ?thesis using assms(1) by (simp only: mset_rev)
  qed
  ultimately have "rev (map vi_version ?s) = map of_nat [1..<Suc k]"
    using sorted_of_nats [OF assms(2)] by (metis properties_for_sort sorted_sort_id)
  then show ?thesis by (metis rev_rev_ident)
qed

text \<open>The versions are counted without gaps and listed newest first: after creations at different times of the
  nanosecond clock, of which \<open>k\<close> had ground truth, listing \<open>k\<close> versions yields exactly \<open>k\<close> down to 1.\<close>

theorem cal_versions_listed:
  assumes "distinct (map cc_ns cs)" and "length cs < 2 ^ 64"
    and "k = length (filter cal_call_accepted cs)"
  shows "map vi_version (cal_listVersions 0 (int k) (foldl cal_call_step cal_new cs)) = map of_nat (rev [1..<Suc k])"
proof -
  let ?m = "foldl cal_call_step cal_new cs"
  have inv: "cal_inv k (cc_ns ` set cs) ?m" using cal_inv_run [OF cal_inv_new assms(1)] assms(3) by simp
  have k: "k < 2 ^ 64" using assms(2,3) length_filter_le [of cal_call_accepted cs] by linarith
  have all: "filter (\<lambda>(i, s). \<not> cs_status s \<noteq> COMPLETED) (cal_sessions ?m) = cal_sessions ?m"
    using inv by (auto simp: cal_inv_def filter_id_conv)
  have vs: "map vi_version (map (cal_version_info ?m) (cal_sessions ?m)) = map (cs_calibration_version \<circ> snd) (cal_sessions ?m)"
    by (auto simp: cal_version_info_def split: prod.splits)
  have sorted: "map vi_version (std_sort (\<lambda>a b. vi_version a > vi_version b)
      (map (cal_version_info ?m) (cal_sessions ?m))) = rev (map of_nat [1..<Suc k])"
    using inv by (intro sorted_desc_versions [OF _ k]) (simp only: vs cal_inv_def)
  from arg_cong [OF this, of length]
  have "length (std_sort (\<lambda>a b. vi_version a > vi_version b) (map (cal_version_info ?m) (cal_sessions ?m))) = k"
    by (simp del: upt_Suc)
  then have "page_of 0 (int k) (std_sort (\<lambda>a b. vi_version a > vi_version b) (map (cal_version_info ?m) (cal_sessions ?m))) =
      std_sort (\<lambda>a b. vi_version a > vi_version b) (map (cal_version_info ?m) (cal_sessions ?m))"
    by (simp only: page_of_def nat_int nat_0 drop_0 take_all order_refl)
  then show ?thesis unfolding cal_listVersions_def all Let_def using sorted
    by (simp only: if_False less_irrefl of_nat_less_0_iff rev_map)
qed

definition cc_sample :: "int \<Rightarrow> cal_call" where
  "cc_sample ns = \<lparr>cc_store = gv_run [AddPoint (gp_sample ''p'' 1)], cc_ns = ns, cc_t1 = 1, cc_t2 = 2, cc_req = rq_sample\<rparr>"

lemma cal_versions_listed_witness:
  "map vi_version (cal_listVersions 0 2 (foldl cal_call_step cal_new [cc_sample 5, cc_sample 9])) = [2, 1]"
proof -
  have acc: "cal_call_accepted (cc_sample ns)" for ns
  proof -
    have "gv_getPointsForCalibration (rq_coordinate_system_id rq_sample) (rq_source_filter rq_sample)
      (gv_run [AddPoint (gp_sample ''p'' 1)]) \<noteq> []" by code_simp
    then show ?thesis by (simp add: cal_call_accepted_def cc_sample_def)
  qed
  have ns: "map cc_ns [cc_sample 5, cc_sample 9] = [5, 9]" by (simp add: cc_sample_def)
  have "filter cal_call_accepted [cc_sample 5, cc_sample 9] = [cc_sample 5, cc_sample 9]" by (simp add: acc)
  with cal_versions_listed [of "[cc_sample 5, cc_sample 9]" 2] show ?thesis
    unfolding ns by (simp add: upt_rec)
qed

end
