(* ===== verification/Frame_Clock.thy ===== *)
theory Frame_Clock
  imports Complex_Main Base
begin

text \<open>
  The clock all modules of the runtime share (\<open>runtime/spatial_clock\<close>) and the tracker of the time
  budget of a frame (\<open>runtime/frame_budget\<close>). A time point of the high-resolution clock is a number of
  seconds for the clock and of milliseconds for the tracker; it is an argument of the operation that reads it.
\<close>

section \<open>The clock\<close>

datatype ClockMode = REALTIME | PLAYBACK | SIMULATION

record SpatialClock =
  clk_currentTime :: real
  clk_currentTimestamp :: int
  clk_mode :: ClockMode
  clk_playbackTime :: real
  clk_playbackSpeed :: real
  clk_simulationStartTime :: real
  clk_simulationSpeed :: real
  clk_simulationElapsed :: real
  clk_startTime :: real
  clk_deterministic :: bool

definition clk_new :: "real \<Rightarrow> SpatialClock" where
  "clk_new t = \<lparr>clk_currentTime = 0, clk_currentTimestamp = 0, clk_mode = REALTIME, clk_playbackTime = 0,
     clk_playbackSpeed = 1, clk_simulationStartTime = 0, clk_simulationSpeed = 1, clk_simulationElapsed = 0,
     clk_startTime = t, clk_deterministic = False\<rparr>"

text \<open>\<open>static_cast<int64_t>\<close> of a \<open>double\<close>: truncation.\<close>

definition trunc :: "real \<Rightarrow> int" where
  "trunc r = (if r < 0 then \<lceil>r\<rceil> else \<lfloor>r\<rfloor>)"

definition clk_setMode :: "real \<Rightarrow> ClockMode \<Rightarrow> SpatialClock \<Rightarrow> SpatialClock" where
  "clk_setMode wall mode c =
     (if clk_mode c = mode then c
      else case mode of
          REALTIME \<Rightarrow> c\<lparr>clk_mode := mode, clk_startTime := wall, clk_simulationElapsed := 0, clk_deterministic := False\<rparr>
        | PLAYBACK \<Rightarrow> c\<lparr>clk_mode := mode, clk_deterministic := True\<rparr>
        | SIMULATION \<Rightarrow> c\<lparr>clk_mode := mode, clk_simulationStartTime := clk_currentTime c, clk_simulationElapsed := 0,
              clk_deterministic := True\<rparr>)"

definition clk_setPlaybackTime :: "real \<Rightarrow> SpatialClock \<Rightarrow> SpatialClock" where
  "clk_setPlaybackTime time c =
     c\<lparr>clk_playbackTime := time, clk_currentTime := time, clk_currentTimestamp := trunc (time * 1000)\<rparr>"

definition clk_setPlaybackSpeed :: "real \<Rightarrow> SpatialClock \<Rightarrow> SpatialClock" where
  "clk_setPlaybackSpeed speed c = c\<lparr>clk_playbackSpeed := max (1 / 10) (min 16 speed)\<rparr>"

definition clk_setSimulationStartTime :: "real \<Rightarrow> SpatialClock \<Rightarrow> SpatialClock" where
  "clk_setSimulationStartTime time c = c\<lparr>clk_simulationStartTime := time\<rparr>"

definition clk_setSimulationSpeed :: "real \<Rightarrow> SpatialClock \<Rightarrow> SpatialClock" where
  "clk_setSimulationSpeed speed c = c\<lparr>clk_simulationSpeed := speed\<rparr>"

definition clk_tick :: "real \<Rightarrow> SpatialClock \<Rightarrow> SpatialClock" where
  "clk_tick wall c =
     (case clk_mode c of
        REALTIME \<Rightarrow> (let elapsed = wall - clk_startTime c
                     in c\<lparr>clk_currentTime := elapsed, clk_currentTimestamp := trunc (elapsed * 1000)\<rparr>)
      | PLAYBACK \<Rightarrow> (let t = clk_playbackTime c + 1 / 10 * clk_playbackSpeed c
                     in c\<lparr>clk_playbackTime := t, clk_currentTime := t, clk_currentTimestamp := trunc (t * 1000)\<rparr>)
      | SIMULATION \<Rightarrow> (let e = clk_simulationElapsed c + 1 / 10;
                           t = clk_simulationStartTime c + e * clk_simulationSpeed c
                     in c\<lparr>clk_simulationElapsed := e, clk_currentTime := t, clk_currentTimestamp := trunc (t * 1000)\<rparr>))"

definition clk_initialize :: "real \<Rightarrow> SpatialClock \<Rightarrow> SpatialClock" where
  "clk_initialize wall c = clk_tick wall c"

definition clk_now :: "SpatialClock \<Rightarrow> real" where
  "clk_now c = clk_currentTime c"

definition clk_timestamp :: "SpatialClock \<Rightarrow> int" where
  "clk_timestamp c = clk_currentTimestamp c"

definition clk_isDeterministic :: "SpatialClock \<Rightarrow> bool" where
  "clk_isDeterministic c = clk_deterministic c"

text \<open>The operations of the clock, each with the time the machine's clock shows.\<close>

datatype clk_op =
    SetMode ClockMode | SetPlaybackTime real | SetPlaybackSpeed real | SetSimulationStartTime real
  | SetSimulationSpeed real | Tick

fun clk_step :: "SpatialClock \<Rightarrow> clk_op \<times> real \<Rightarrow> SpatialClock" where
  "clk_step c (SetMode m, wall) = clk_setMode wall m c"
| "clk_step c (SetPlaybackTime t, wall) = clk_setPlaybackTime t c"
| "clk_step c (SetPlaybackSpeed s, wall) = clk_setPlaybackSpeed s c"
| "clk_step c (SetSimulationStartTime t, wall) = clk_setSimulationStartTime t c"
| "clk_step c (SetSimulationSpeed s, wall) = clk_setSimulationSpeed s c"
| "clk_step c (Tick, wall) = clk_tick wall c"

definition clk_run :: "SpatialClock \<Rightarrow> (clk_op \<times> real) list \<Rightarrow> SpatialClock" where
  "clk_run = foldl clk_step"

definition clk_inv :: "SpatialClock \<Rightarrow> bool" where
  "clk_inv c \<longleftrightarrow> (clk_deterministic c \<longleftrightarrow> clk_mode c \<noteq> REALTIME) \<and> 1 / 10 \<le> clk_playbackSpeed c \<and> clk_playbackSpeed c \<le> 16"

lemma clk_inv_step: "clk_inv c \<Longrightarrow> clk_inv (clk_step c a)"
  by (cases "(c, a)" rule: clk_step.cases; simp add: clk_inv_def clk_setMode_def clk_setPlaybackTime_def
      clk_setPlaybackSpeed_def clk_setSimulationStartTime_def clk_setSimulationSpeed_def clk_tick_def Let_def
      split: ClockMode.split)

lemma clk_inv_run: "clk_inv (clk_run (clk_new t) ops)"
proof -
  have "clk_inv c \<Longrightarrow> clk_inv (foldl clk_step c ops)" for c
    by (induction ops arbitrary: c) (auto intro: clk_inv_step)
  then show ?thesis by (simp add: clk_run_def clk_inv_def clk_new_def)
qed

text \<open>Two clocks that differ at most in when they were last switched to real time.\<close>

definition clk_same :: "SpatialClock \<Rightarrow> SpatialClock \<Rightarrow> bool" where
  "clk_same c d \<longleftrightarrow> d = c\<lparr>clk_startTime := clk_startTime d\<rparr>"

lemma clk_same_step:
  assumes "clk_same c d" "clk_mode c \<noteq> REALTIME" "op \<noteq> SetMode REALTIME"
  shows "clk_same (clk_step c (op, w)) (clk_step d (op, w')) \<and> clk_mode (clk_step c (op, w)) \<noteq> REALTIME"
proof -
  obtain s where d: "d = c\<lparr>clk_startTime := s\<rparr>" using assms(1) unfolding clk_same_def by blast
  show ?thesis
    using assms(2,3) unfolding d
    by (cases op; cases c) (auto simp: clk_same_def clk_setMode_def clk_setPlaybackTime_def
      clk_setPlaybackSpeed_def clk_setSimulationStartTime_def clk_setSimulationSpeed_def clk_tick_def Let_def
      split: ClockMode.split)
qed

text \<open>A deterministic clock does not depend on the machine's time: once the clock reports being deterministic,
  any sequence of operations that does not switch it to real time gives the same times, timestamps and mode
  whatever the machine's clock shows at each of them, and it stays deterministic; the playback speed is always
  between 0.1 and 16.\<close>

theorem clk_deterministic_sound:
  assumes "c = clk_run (clk_new t0) prefix" and "clk_isDeterministic c" and "SetMode REALTIME \<notin> set ops"
    and "length ws = length ops" and "length ws' = length ops"
  shows "(let d = clk_run c (zip ops ws); d' = clk_run c (zip ops ws') in
    clk_now d = clk_now d' \<and> clk_timestamp d = clk_timestamp d' \<and> clk_mode d = clk_mode d' \<and> clk_isDeterministic d \<and>
    1 / 10 \<le> clk_playbackSpeed d \<and> clk_playbackSpeed d \<le> 16)"
proof -
  have "clk_same (clk_run a (zip ops ws)) (clk_run b (zip ops ws')) \<and> clk_mode (clk_run a (zip ops ws)) \<noteq> REALTIME"
    if "clk_same a b" "clk_mode a \<noteq> REALTIME" "length ws = length ops" "length ops = length ws'"
      "SetMode REALTIME \<notin> set ops" for a b ops ws ws'
    using that(3,4,1,2,5)
  proof (induction ws ops ws' arbitrary: a b rule: list_induct3)
    case Nil
    then show ?case by (simp add: clk_run_def)
  next
    case (Cons w ws op ops w' ws')
    then have "op \<noteq> SetMode REALTIME" by auto
    from clk_same_step [OF Cons.prems(1,2) this, of w w'] Cons.IH Cons.prems(3)
    show ?case by (auto simp: clk_run_def)
  qed
  moreover have "clk_mode c \<noteq> REALTIME"
    using clk_inv_run [of t0 prefix] assms(1,2) by (simp add: clk_inv_def clk_isDeterministic_def)
  moreover have "clk_same c c" by (simp add: clk_same_def)
  ultimately have same: "clk_same (clk_run c (zip ops ws)) (clk_run c (zip ops ws'))"
    "clk_mode (clk_run c (zip ops ws)) \<noteq> REALTIME"
    using assms(3,4) assms(5) [symmetric] by blast+
  have "clk_run c (zip ops ws) = clk_run (clk_new t0) (prefix @ zip ops ws)" using assms(1) by (simp add: clk_run_def)
  then have "clk_inv (clk_run c (zip ops ws))" using clk_inv_run [of t0 "prefix @ zip ops ws"] by simp
  then show ?thesis
    using same by (cases "clk_run c (zip ops ws)"; cases "clk_run c (zip ops ws')")
      (simp add: clk_same_def clk_inv_def clk_now_def clk_timestamp_def clk_isDeterministic_def Let_def)
qed

lemma clk_deterministic_sound_witness:
  "clk_now (clk_run (clk_run (clk_new 5) [(SetMode PLAYBACK, 6)]) (zip [Tick, Tick] [7, 8])) =
   clk_now (clk_run (clk_run (clk_new 5) [(SetMode PLAYBACK, 6)]) (zip [Tick, Tick] [100, 900]))"
proof -
  have "clk_isDeterministic (clk_run (clk_new 5) [(SetMode PLAYBACK, 6)])"
    by (simp add: clk_run_def clk_setMode_def clk_new_def clk_isDeterministic_def)
  from clk_deterministic_sound [OF refl this, of "[Tick, Tick]" "[7, 8]" "[100, 900]"]
  show ?thesis by (simp add: Let_def del: zip_Cons_Cons)
qed

text \<open>Playback time moves by at least ten milliseconds with every tick.\<close>

lemma clk_playback_advances:
  assumes "c = clk_run (clk_new t) ops" "clk_mode c = PLAYBACK"
  shows "clk_playbackTime c + 1 / 100 \<le> clk_now (clk_tick wall c)" "clk_mode (clk_tick wall c) = PLAYBACK"
  using clk_inv_run [of t ops] assms by (simp_all add: clk_inv_def clk_tick_def clk_now_def Let_def)

end
