(* ===== verification/Frame_Scheduler.thy ===== *)
theory Frame_Scheduler
  imports Complex_Main Base
begin

text \<open>
  The scheduler that builds the frames of the live view (\<open>runtime/frame_scheduler\<close>) and the tracker of
  the time budget of a frame (\<open>runtime/frame_budget\<close>).

  The members of a frame that the scheduler computes are reals here. What the code draws from its random
  engine is an argument: one \<open>Draws\<close> per asset. What a timer measures and the measured length of the
  frame are arguments too, in milliseconds. \<open>appendDecisionOverlay\<close>, which the code calls but nothing
  under \<open>src\<close> declares or defines, is the parameter \<open>overlay\<close>: any change of the frame.
\<close>

section \<open>The budget tracker\<close>

record FrameBudget =
  bg_collect_ms :: real
  bg_heatmap_ms :: real
  bg_congestion_ms :: real
  bg_decision_ms :: real
  bg_overlay_ms :: real
  bg_upload_ms :: real
  bg_render_ms :: real
  bg_total_ms :: real

definition bg_reset :: FrameBudget where
  "bg_reset = \<lparr>bg_collect_ms = 0, bg_heatmap_ms = 0, bg_congestion_ms = 0, bg_decision_ms = 0,
     bg_overlay_ms = 0, bg_upload_ms = 0, bg_render_ms = 0, bg_total_ms = 0\<rparr>"

definition bg_updateTotal :: "FrameBudget \<Rightarrow> FrameBudget" where
  "bg_updateTotal b = b\<lparr>bg_total_ms := bg_collect_ms b + bg_heatmap_ms b + bg_congestion_ms b + bg_decision_ms b +
     bg_overlay_ms b + bg_upload_ms b + bg_render_ms b\<rparr>"

record FrameBudgetTracker =
  bt_current :: FrameBudget
  bt_average :: FrameBudget
  bt_frame_count :: u64
  bt_warning_count :: u64
  bt_drop_count :: u64

definition bt_new :: FrameBudgetTracker where
  "bt_new = \<lparr>bt_current = bg_reset, bt_average = bg_reset, bt_frame_count = 0, bt_warning_count = 0, bt_drop_count = 0\<rparr>"

definition bt_startFrame :: "FrameBudgetTracker \<Rightarrow> FrameBudgetTracker" where
  "bt_startFrame t = t\<lparr>bt_current := bg_reset\<rparr>"

definition bg_smooth :: "real \<Rightarrow> real \<Rightarrow> real" where
  "bg_smooth cur avg = 5 / 100 * cur + (1 - 5 / 100) * avg"

definition bt_endFrame :: "real \<Rightarrow> FrameBudgetTracker \<Rightarrow> FrameBudgetTracker" where
  "bt_endFrame duration t =
     (let cur = (bt_current t)\<lparr>bg_total_ms := duration\<rparr>; avg = bt_average t;
          avg' = \<lparr>bg_collect_ms = bg_smooth (bg_collect_ms cur) (bg_collect_ms avg),
            bg_heatmap_ms = bg_smooth (bg_heatmap_ms cur) (bg_heatmap_ms avg),
            bg_congestion_ms = bg_smooth (bg_congestion_ms cur) (bg_congestion_ms avg),
            bg_decision_ms = bg_smooth (bg_decision_ms cur) (bg_decision_ms avg),
            bg_overlay_ms = bg_smooth (bg_overlay_ms cur) (bg_overlay_ms avg),
            bg_upload_ms = bg_smooth (bg_upload_ms cur) (bg_upload_ms avg),
            bg_render_ms = bg_smooth (bg_render_ms cur) (bg_render_ms avg),
            bg_total_ms = bg_smooth (bg_total_ms cur) (bg_total_ms avg)\<rparr>;
          t1 = t\<lparr>bt_current := cur, bt_average := avg', bt_frame_count := bt_frame_count t + 1\<rparr>
      in if bg_total_ms cur > 300 then t1\<lparr>bt_drop_count := bt_drop_count t1 + 1\<rparr>
         else if bg_total_ms cur > 100 then t1\<lparr>bt_warning_count := bt_warning_count t1 + 1\<rparr>
         else t1)"

definition bt_recordCollect :: "real \<Rightarrow> FrameBudgetTracker \<Rightarrow> FrameBudgetTracker" where
  "bt_recordCollect ms t = t\<lparr>bt_current := (bt_current t)\<lparr>bg_collect_ms := ms\<rparr>\<rparr>"

definition bt_recordHeatmap :: "real \<Rightarrow> FrameBudgetTracker \<Rightarrow> FrameBudgetTracker" where
  "bt_recordHeatmap ms t = t\<lparr>bt_current := (bt_current t)\<lparr>bg_heatmap_ms := ms\<rparr>\<rparr>"

definition bt_recordCongestion :: "real \<Rightarrow> FrameBudgetTracker \<Rightarrow> FrameBudgetTracker" where
  "bt_recordCongestion ms t = t\<lparr>bt_current := (bt_current t)\<lparr>bg_congestion_ms := ms\<rparr>\<rparr>"

definition bt_recordDecision :: "real \<Rightarrow> FrameBudgetTracker \<Rightarrow> FrameBudgetTracker" where
  "bt_recordDecision ms t = t\<lparr>bt_current := (bt_current t)\<lparr>bg_decision_ms := ms\<rparr>\<rparr>"

definition bt_recordOverlay :: "real \<Rightarrow> FrameBudgetTracker \<Rightarrow> FrameBudgetTracker" where
  "bt_recordOverlay ms t = t\<lparr>bt_current := (bt_current t)\<lparr>bg_overlay_ms := ms\<rparr>\<rparr>"

definition bt_recordUpload :: "real \<Rightarrow> FrameBudgetTracker \<Rightarrow> FrameBudgetTracker" where
  "bt_recordUpload ms t = t\<lparr>bt_current := (bt_current t)\<lparr>bg_upload_ms := ms\<rparr>\<rparr>"

definition bt_recordRender :: "real \<Rightarrow> FrameBudgetTracker \<Rightarrow> FrameBudgetTracker" where
  "bt_recordRender ms t = t\<lparr>bt_current := (bt_current t)\<lparr>bg_render_ms := ms\<rparr>\<rparr>"

definition bt_isOverBudget :: "FrameBudgetTracker \<Rightarrow> bool" where
  "bt_isOverBudget t \<longleftrightarrow> bg_total_ms (bt_current t) > 100"

definition bt_shouldDropOptionalPasses :: "FrameBudgetTracker \<Rightarrow> bool" where
  "bt_shouldDropOptionalPasses t \<longleftrightarrow> bg_total_ms (bt_current t) > 300"

definition bt_getFps :: "FrameBudgetTracker \<Rightarrow> real" where
  "bt_getFps t = (if bg_total_ms (bt_average t) \<le> 0 then 0 else 1000 / bg_total_ms (bt_average t))"

section \<open>The frame as the scheduler fills it\<close>

record LiveAsset =
  la_asset_id :: int
  la_asset_name :: string
  la_tag_id :: string
  la_x :: real
  la_y :: real
  la_vx :: real
  la_vy :: real
  la_risk_score :: real
  la_state :: int
  la_predicted_x :: real
  la_predicted_y :: real
  la_prediction_confidence :: real
  la_top_action :: string
  la_top_score :: real

record LivePrediction =
  lp_asset_id :: int
  lp_x :: real
  lp_y :: real
  lp_confidence :: real
  lp_timestamp :: int

record LiveZone =
  lz_id :: int
  lz_name :: string
  lz_x :: real
  lz_y :: real
  lz_radius :: real
  lz_asset_count :: nat
  lz_density :: real
  lz_level :: string

record LiveDecision =
  ld_asset_id :: int
  ld_action :: string
  ld_confidence :: real
  ld_expected_reward :: real
  ld_reason :: string

record LiveOverlay =
  lo_asset_id :: u64
  lo_x :: real
  lo_y :: real
  lo_action :: u32
  lo_confidence :: real
  lo_missing_risk :: real
  lo_abnormal_risk :: real
  lo_inactivity_risk :: real
  lo_reason :: string
  lo_timestamp :: u64

record LiveFrame =
  lf_frame_id :: u64
  lf_timestamp :: int
  lf_assets :: "LiveAsset list"
  lf_predictions :: "LivePrediction list"
  lf_heatmap :: "((nat \<times> nat) \<times> nat) list"  \<comment> \<open>cell and value\<close>
  lf_congestion :: "LiveZone list"
  lf_decisions :: "LiveDecision list"
  lf_overlays :: "LiveOverlay list"
  lf_collect_ms :: real
  lf_heatmap_ms :: real
  lf_congestion_ms :: real
  lf_decision_ms :: real
  lf_overlay_ms :: real
  lf_processing_time_ms :: real

definition lf_empty :: LiveFrame where
  "lf_empty = \<lparr>lf_frame_id = 0, lf_timestamp = 0, lf_assets = [], lf_predictions = [], lf_heatmap = [],
     lf_congestion = [], lf_decisions = [], lf_overlays = [], lf_collect_ms = 0,
     lf_heatmap_ms = 0, lf_congestion_ms = 0, lf_decision_ms = 0, lf_overlay_ms = 0, lf_processing_time_ms = 0\<rparr>"

definition CELL_SIZE :: real where "CELL_SIZE = 10"
definition GRID_SIZE :: nat where "GRID_SIZE = 64"

text \<open>The draws for one asset: a first position, its movement, velocity and risk.\<close>

record Draws =
  dr_x :: real
  dr_y :: real
  dr_dx :: real
  dr_dy :: real
  dr_vx :: real
  dr_vy :: real
  dr_risk :: real

text \<open>\<open>std::fmod\<close>: the remainder of the division rounded towards zero.\<close>

definition std_fmod :: "real \<Rightarrow> real \<Rightarrow> real" where
  "std_fmod a b = a - b * of_int (if a / b < 0 then \<lceil>a / b\<rceil> else \<lfloor>a / b\<rfloor>)"

text \<open>One round of the loop of \<open>collectAssets\<close>; \<open>ps\<close> is the static map of positions.\<close>

definition fs_collect_one ::
  "nat \<Rightarrow> Draws \<Rightarrow> (nat \<Rightarrow> (real \<times> real) option) \<Rightarrow> LiveAsset \<times> (nat \<Rightarrow> (real \<times> real) option)" where
  "fs_collect_one i d ps =
     (let (x0, y0) = (case ps i of None \<Rightarrow> (dr_x d, dr_y d) | Some p \<Rightarrow> p);
          x = std_fmod (x0 + dr_dx d + 640) 640; y = std_fmod (y0 + dr_dy d + 640) 640
      in (\<lparr>la_asset_id = int i + 1, la_asset_name = ''Asset-'' @ to_string (int i + 1),
           la_tag_id = ''EPC-'' @ to_string (10000 + int i), la_x = x, la_y = y, la_vx = dr_vx d, la_vy = dr_vy d,
           la_risk_score = dr_risk d,
           la_state = (if dr_risk d > 8 / 10 then 2 else if dr_risk d > 5 / 10 then 1 else 0),
           la_predicted_x = x + dr_vx d * 3, la_predicted_y = y + dr_vy d * 3, la_prediction_confidence = 7 / 10,
           la_top_action = (if dr_risk d > 8 / 10 then ''INSPECT'' else ''NO_ACTION''), la_top_score = dr_risk d\<rparr>,
          ps(i \<mapsto> (x, y))))"

fun fs_collect_loop ::
  "(nat \<Rightarrow> Draws) \<Rightarrow> nat list \<Rightarrow> (nat \<Rightarrow> (real \<times> real) option) \<Rightarrow> LiveAsset list \<times> (nat \<Rightarrow> (real \<times> real) option)" where
  "fs_collect_loop draws [] ps = ([], ps)"
| "fs_collect_loop draws (i # is) ps =
     (case fs_collect_one i (draws i) ps of (a, ps1) \<Rightarrow>
        case fs_collect_loop draws is ps1 of (as, ps2) \<Rightarrow> (a # as, ps2))"

definition fs_asset_count :: "u64 \<Rightarrow> nat" where
  "fs_asset_count frame_id = 100 + unat (frame_id mod 100)"

definition fs_collectAssets ::
  "u64 \<Rightarrow> (nat \<Rightarrow> Draws) \<Rightarrow> LiveFrame \<times> (nat \<Rightarrow> (real \<times> real) option) \<Rightarrow> LiveFrame \<times> (nat \<Rightarrow> (real \<times> real) option)" where
  "fs_collectAssets frame_id draws = (\<lambda>(f, ps).
     case fs_collect_loop draws [0..<fs_asset_count frame_id] ps of (as, ps') \<Rightarrow>
       (f\<lparr>lf_assets := as,
          lf_predictions := map (\<lambda>a. \<lparr>lp_asset_id = la_asset_id a, lp_x = la_predicted_x a, lp_y = la_predicted_y a,
            lp_confidence = 7 / 10, lp_timestamp = lf_timestamp f + 3000\<rparr>) as\<rparr>, ps'))"

text \<open>The grid both passes fill: how many assets fall into a cell; the casts truncate.\<close>

definition fs_cell :: "real \<Rightarrow> int" where
  "fs_cell x = (if x / CELL_SIZE < 0 then \<lceil>x / CELL_SIZE\<rceil> else \<lfloor>x / CELL_SIZE\<rfloor>)"

definition fs_in_cell :: "nat \<times> nat \<Rightarrow> LiveAsset \<Rightarrow> bool" where
  "fs_in_cell c a \<longleftrightarrow> fs_cell (la_x a) = int (fst c) \<and> fs_cell (la_y a) = int (snd c)"

definition fs_grid :: "LiveAsset list \<Rightarrow> nat \<times> nat \<Rightarrow> nat" where
  "fs_grid as c = length (filter (fs_in_cell c) as)"

definition fs_cells :: "(nat \<times> nat) list" where
  "fs_cells = List.product [0..<GRID_SIZE] [0..<GRID_SIZE]"

definition fs_updateHeatmap :: "LiveFrame \<Rightarrow> LiveFrame" where
  "fs_updateHeatmap f =
     f\<lparr>lf_heatmap := map (\<lambda>c. (c, fs_grid (lf_assets f) c)) (filter (\<lambda>c. fs_grid (lf_assets f) c > 0) fs_cells)\<rparr>"

definition fs_zone :: "LiveAsset list \<Rightarrow> nat \<times> nat \<times> nat \<Rightarrow> LiveZone" where
  "fs_zone as = (\<lambda>(i, x, y). let n = fs_grid as (x, y) in
     \<lparr>lz_id = int i, lz_name = ''Zone-'' @ to_string (int i), lz_x = real x * CELL_SIZE + CELL_SIZE / 2,
      lz_y = real y * CELL_SIZE + CELL_SIZE / 2, lz_radius = CELL_SIZE / 2, lz_asset_count = n,
      lz_density = real n / 40, lz_level = (if n > 30 then ''CONGESTED'' else ''HIGH_DENSITY'')\<rparr>)"

definition fs_analyzeCongestion :: "LiveFrame \<Rightarrow> LiveFrame" where
  "fs_analyzeCongestion f =
     f\<lparr>lf_congestion := map (fs_zone (lf_assets f)) (enumerate 0 (filter (\<lambda>c. fs_grid (lf_assets f) c > 20) fs_cells))\<rparr>"

definition fs_appendBanditDecisions :: "LiveFrame \<Rightarrow> LiveFrame" where
  "fs_appendBanditDecisions f =
     f\<lparr>lf_decisions := map (\<lambda>a. \<lparr>ld_asset_id = la_asset_id a, ld_action = la_top_action a, ld_confidence = la_top_score a,
         ld_expected_reward = 1 - la_risk_score a,
         ld_reason = (if la_risk_score a > 8 / 10 then ''High risk score'' else ''Medium risk score'')\<rparr>)
       (filter (\<lambda>a. la_risk_score a > 7 / 10) (lf_assets f))\<rparr>"

text \<open>What the timers measure in a frame, and the time from \<open>startFrame\<close> to \<open>endFrame\<close>.\<close>

record Timings =
  tm_collect :: real
  tm_heatmap :: real
  tm_congestion :: real
  tm_decision :: real
  tm_overlay :: real
  tm_total :: real

record FrameScheduler =
  fs_running :: bool
  fs_frame_id :: u64
  fs_skipped_frames :: int
  fs_positions :: "nat \<Rightarrow> (real \<times> real) option"
  fs_tracker :: FrameBudgetTracker


definition fs_buildFrame ::
  "(LiveFrame \<Rightarrow> LiveFrame) \<Rightarrow> int \<Rightarrow> (nat \<Rightarrow> Draws) \<Rightarrow> Timings \<Rightarrow> FrameScheduler \<Rightarrow> LiveFrame \<times> FrameScheduler" where
  "fs_buildFrame overlay now draws tm s =
     (let t1 = bt_startFrame (fs_tracker s);
          f0 = lf_empty\<lparr>lf_frame_id := fs_frame_id s, lf_timestamp := now\<rparr>;
          (c1, ps) = fs_collectAssets (fs_frame_id s) draws (f0, fs_positions s);
          f1 = c1\<lparr>lf_collect_ms := tm_collect tm\<rparr>;
          f2 = (if \<not> bt_shouldDropOptionalPasses t1
                then (fs_updateHeatmap f1)\<lparr>lf_heatmap_ms := tm_heatmap tm\<rparr> else f1);
          f3 = (fs_analyzeCongestion f2)\<lparr>lf_congestion_ms := tm_congestion tm\<rparr>;
          f4 = (fs_appendBanditDecisions f3)\<lparr>lf_decision_ms := tm_decision tm\<rparr>;
          f5 = (overlay f4)\<lparr>lf_overlay_ms := tm_overlay tm\<rparr>;
          t2 = bt_recordOverlay (lf_overlay_ms f5) (bt_recordDecision (lf_decision_ms f5)
                 (bt_recordCongestion (lf_congestion_ms f5)
                 (bt_recordHeatmap (lf_heatmap_ms f5) (bt_recordCollect (lf_collect_ms f5) t1))));
          t3 = bt_endFrame (tm_total tm) t2
      in (f5\<lparr>lf_processing_time_ms := bg_total_ms (bt_current t3)\<rparr>, s\<lparr>fs_tracker := t3, fs_positions := ps\<rparr>))"

text \<open>One round of \<open>frameLoop\<close> at 10 frames per second; \<open>elapsed\<close> is its length in seconds.\<close>

definition fs_round ::
  "(LiveFrame \<Rightarrow> LiveFrame) \<Rightarrow> int \<Rightarrow> (nat \<Rightarrow> Draws) \<Rightarrow> Timings \<Rightarrow> real \<Rightarrow> FrameScheduler \<Rightarrow> LiveFrame \<times> FrameScheduler" where
  "fs_round overlay now draws tm elapsed s =
     (case fs_buildFrame overlay now draws tm s of (f, s1) \<Rightarrow>
       let s2 = s1\<lparr>fs_frame_id := fs_frame_id s1 + 1\<rparr>
       in (f, if elapsed < 1 / 10 then s2 else s2\<lparr>fs_skipped_frames := fs_skipped_frames s2 + 1\<rparr>))"

section \<open>Positions stay on the map\<close>












section \<open>The grid counts every asset once\<close>




lemma sum_list_filter_le: "sum_list (map f (filter P xs)) \<le> (sum_list (map f xs) :: nat)"
  by (induction xs) auto
















section \<open>Budgets\<close>

text \<open>The smoothed total lies between the smallest and the largest frame, and slow frames are counted once.\<close>

definition bt_frames :: "real list \<Rightarrow> FrameBudgetTracker" where
  "bt_frames ds = foldl (\<lambda>t d. bt_endFrame d (bt_startFrame t)) bt_new ds"

lemma bg_smooth_between: "a \<le> lo \<Longrightarrow> lo \<le> x \<Longrightarrow> x \<le> b \<Longrightarrow> a \<le> y \<Longrightarrow> y \<le> b \<Longrightarrow> a \<le> bg_smooth x y \<and> bg_smooth x y \<le> b"
  by (simp add: bg_smooth_def)

lemma bt_frames_bounds:
  assumes "\<forall>d \<in> set ds. 0 \<le> d \<and> d \<le> b" "0 \<le> b" "length ds < 2 ^ 64"
  shows "0 \<le> bg_total_ms (bt_average (bt_frames ds)) \<and> bg_total_ms (bt_average (bt_frames ds)) \<le> b \<and>
    unat (bt_frame_count (bt_frames ds)) = length ds \<and>
    unat (bt_drop_count (bt_frames ds)) = length (filter (\<lambda>d. d > 300) ds) \<and>
    unat (bt_warning_count (bt_frames ds)) = length (filter (\<lambda>d. 100 < d \<and> d \<le> 300) ds)"
  using assms
proof (induction ds rule: rev_induct)
  case Nil
  then show ?case by (simp add: bt_frames_def bt_new_def bg_reset_def)
next
  case (snoc d ds)
  let ?t = "bt_frames ds"
  have IH: "0 \<le> bg_total_ms (bt_average ?t)" "bg_total_ms (bt_average ?t) \<le> b" "unat (bt_frame_count ?t) = length ds"
    "unat (bt_drop_count ?t) = length (filter (\<lambda>d. d > 300) ds)"
    "unat (bt_warning_count ?t) = length (filter (\<lambda>d. 100 < d \<and> d \<le> 300) ds)"
    using snoc by auto
  have len: "length ds < 2 ^ 64 - 1" using snoc.prems(3) by simp
  have suc: "unat (w + 1) = Suc n" if "unat w = n" "n \<le> length ds" for w :: u64 and n
    using that len by (simp add: unat_word_ariths(1))
  have step: "bt_frames (ds @ [d]) = bt_endFrame d (bt_startFrame ?t)" by (simp add: bt_frames_def)
  have avg: "bg_total_ms (bt_average (bt_frames (ds @ [d]))) = bg_smooth d (bg_total_ms (bt_average ?t))"
    by (simp add: step bt_endFrame_def bt_startFrame_def Let_def)
  have "0 \<le> bg_smooth d (bg_total_ms (bt_average ?t)) \<and> bg_smooth d (bg_total_ms (bt_average ?t)) \<le> b"
    using IH(1,2) snoc.prems(1) by (intro bg_smooth_between [of 0 0]) auto
  moreover have "unat (bt_frame_count (bt_frames (ds @ [d]))) = Suc (length ds)"
    using suc [OF IH(3)] by (simp add: step bt_endFrame_def bt_startFrame_def Let_def)
  moreover have "length (filter (\<lambda>d. d > 300) ds) \<le> length ds" "length (filter (\<lambda>d. 100 < d \<and> d \<le> 300) ds) \<le> length ds"
    by (rule length_filter_le)+
  then have "unat (bt_drop_count (bt_frames (ds @ [d]))) = length (filter (\<lambda>d. d > 300) (ds @ [d]))"
    "unat (bt_warning_count (bt_frames (ds @ [d]))) = length (filter (\<lambda>d. 100 < d \<and> d \<le> 300) (ds @ [d]))"
    using suc [OF IH(4)] suc [OF IH(5)] IH(4,5)
    by (simp_all add: step bt_endFrame_def bt_startFrame_def Let_def)
  ultimately show ?case using avg by simp
qed

end
