(* ===== verification/Trajectory.thy ===== *)
theory Trajectory
  imports Asset_Service
begin

text \<open>
  The trajectory engine (\<open>analytics/trajectory_engine\<close>): the stays of the assets in the table
  \<open>asset_location_history\<close>, over the connection pool. An SQL statement is modelled by what it reads and
  writes. \<open>now\<close> is the time of the transaction in seconds, which all its statements share. An insert fails on
  an asset that does not exist or a text too long for its column; then the transaction is undone, the
  exception is swallowed and the connection is not released. \<open>ORDER BY\<close> is \<open>std_sort\<close>; the order of equal
  keys is open, and the properties do not depend on it.
\<close>

record StayRow =
  sy_id :: int
  sy_asset_id :: int
  sy_epc :: string
  sy_location :: string
  sy_previous_location :: string
  sy_entry_time :: int
  sy_exit_time :: "int option"
  sy_duration_seconds :: int
  sy_source_reader :: string

record TrajectoryPoint =
  tj_location :: string
  tj_timestamp :: int
  tj_reader_id :: string

record AssetTrajectory =
  tj_asset_id :: int
  tj_epc :: string
  tj_points :: "TrajectoryPoint list"

record LocationRecord =
  lr_id :: int
  lr_asset_id :: int
  lr_epc :: string
  lr_location :: string
  lr_previous_location :: string
  lr_entry_time :: int
  lr_exit_time :: int
  lr_duration_seconds :: int
  lr_source_reader :: string
  lr_confidence :: int
  lr_event_type :: string

definition lr_zero :: LocationRecord where
  "lr_zero = \<lparr>lr_id = 0, lr_asset_id = 0, lr_epc = '''', lr_location = '''', lr_previous_location = '''',
     lr_entry_time = 0, lr_exit_time = 0, lr_duration_seconds = 0, lr_source_reader = '''', lr_confidence = 0,
     lr_event_type = ''''\<rparr>"

record TrajectoryWorld =
  tw_pool :: DBPool
  tw_rows :: "StayRow list"
  tw_next_id :: int
  tw_assets :: "(int \<times> string) list"  \<comment> \<open>id and location of the rows of \<open>assets\<close>\<close>

definition te_open :: "int \<Rightarrow> StayRow \<Rightarrow> bool" where
  "te_open i r \<longleftrightarrow> sy_asset_id r = i \<and> sy_exit_time r = None"

text \<open>\<^verbatim>\<open>WHERE .. AND exit_time IS NULL ORDER BY entry_time DESC LIMIT 1\<close>\<close>

definition te_latest :: "(StayRow \<Rightarrow> bool) \<Rightarrow> StayRow list \<Rightarrow> StayRow option" where
  "te_latest P rows =
     (case std_sort (\<lambda>a b. sy_entry_time a > sy_entry_time b) (filter P rows) of [] \<Rightarrow> None | r # _ \<Rightarrow> Some r)"

definition te_getPreviousLocation :: "DBEnv \<Rightarrow> int \<Rightarrow> TrajectoryWorld \<Rightarrow> string \<times> TrajectoryWorld" where
  "te_getPreviousLocation env i w =
     (case db_acquire env (tw_pool w) of
        (Inl _, p1) \<Rightarrow> ('''', w\<lparr>tw_pool := p1\<rparr>)
      | (Inr c, p1) \<Rightarrow>
          ((case te_latest (te_open i) (tw_rows w) of None \<Rightarrow> '''' | Some r \<Rightarrow> sy_location r),
           w\<lparr>tw_pool := db_release env c p1\<rparr>))"

definition te_close_rows :: "int \<Rightarrow> int \<Rightarrow> StayRow list \<Rightarrow> StayRow list" where
  "te_close_rows now i rows =
     map (\<lambda>r. if te_open i r then r\<lparr>sy_exit_time := Some now, sy_duration_seconds := now - sy_entry_time r\<rparr> else r) rows"

definition te_touch_rows :: "int \<Rightarrow> int \<Rightarrow> StayRow list \<Rightarrow> StayRow list" where
  "te_touch_rows now i rows =
     map (\<lambda>r. if te_open i r then r\<lparr>sy_duration_seconds := now - sy_entry_time r\<rparr> else r) rows"

definition te_set_location :: "int \<Rightarrow> string \<Rightarrow> (int \<times> string) list \<Rightarrow> (int \<times> string) list" where
  "te_set_location i loc = map (\<lambda>(j, l). if j = i then (j, loc) else (j, l))"

definition te_insert_ok :: "int \<Rightarrow> string \<Rightarrow> string \<Rightarrow> string \<Rightarrow> string \<Rightarrow> TrajectoryWorld \<Rightarrow> bool" where
  "te_insert_ok i epc loc prev reader w \<longleftrightarrow>
     i \<in> fst ` set (tw_assets w) \<and> length epc \<le> 24 \<and> length loc \<le> 100 \<and> length prev \<le> 100 \<and> length reader \<le> 100"

definition te_recordLocation ::
  "DBEnv \<Rightarrow> int \<Rightarrow> int \<Rightarrow> string \<Rightarrow> string \<Rightarrow> string \<Rightarrow> TrajectoryWorld \<Rightarrow> TrajectoryWorld" where
  "te_recordLocation env now i epc loc reader w =
     (case db_acquire env (tw_pool w) of
        (Inl _, p1) \<Rightarrow> w\<lparr>tw_pool := p1\<rparr>
      | (Inr c, p1) \<Rightarrow>
          (case te_getPreviousLocation env i (w\<lparr>tw_pool := p1\<rparr>) of (prev, w1) \<Rightarrow>
             if prev \<noteq> '''' \<and> prev = loc then
               w1\<lparr>tw_rows := te_touch_rows now i (tw_rows w1), tw_pool := db_release env c (tw_pool w1)\<rparr>
             else if \<not> te_insert_ok i epc loc prev reader w1 then w1\<lparr>tw_next_id := tw_next_id w1 + 1\<rparr>
             else
               let rows = (if prev \<noteq> '''' then te_close_rows now i (tw_rows w1) else tw_rows w1);
                   row = \<lparr>sy_id = tw_next_id w1, sy_asset_id = i, sy_epc = epc, sy_location = loc,
                          sy_previous_location = prev, sy_entry_time = now, sy_exit_time = None,
                          sy_duration_seconds = 0, sy_source_reader = reader\<rparr>
               in w1\<lparr>tw_rows := rows @ [row], tw_next_id := tw_next_id w1 + 1,
                     tw_assets := te_set_location i loc (tw_assets w1),
                     tw_pool := db_release env c (tw_pool w1)\<rparr>))"

definition te_closeLocation :: "DBEnv \<Rightarrow> int \<Rightarrow> int \<Rightarrow> string \<Rightarrow> TrajectoryWorld \<Rightarrow> TrajectoryWorld" where
  "te_closeLocation env now i newLocation w =
     (case db_acquire env (tw_pool w) of
        (Inl _, p1) \<Rightarrow> w\<lparr>tw_pool := p1\<rparr>
      | (Inr c, p1) \<Rightarrow>
          w\<lparr>tw_rows := te_close_rows now i (tw_rows w),
            tw_assets := (if newLocation \<noteq> '''' then te_set_location i newLocation (tw_assets w) else tw_assets w),
            tw_pool := db_release env c p1\<rparr>)"

text \<open>The window of times both queries share; 0 leaves a side open.\<close>

definition te_in_window :: "int \<Rightarrow> int \<Rightarrow> StayRow \<Rightarrow> bool" where
  "te_in_window startTime endTime r \<longleftrightarrow>
     (startTime > 0 \<longrightarrow> sy_entry_time r \<ge> startTime) \<and> (endTime > 0 \<longrightarrow> sy_entry_time r \<le> endTime)"

definition te_point :: "StayRow \<Rightarrow> TrajectoryPoint" where
  "te_point r = \<lparr>tj_location = sy_location r, tj_timestamp = sy_entry_time r, tj_reader_id = sy_source_reader r\<rparr>"

text \<open>The first element with a property of its key, as the loops keep it.\<close>

definition te_first :: "('a \<Rightarrow> 'b) \<Rightarrow> 'b \<Rightarrow> 'b \<Rightarrow> 'a list \<Rightarrow> 'b" where
  "te_first k none start = foldl (\<lambda>v x. if v = none then k x else v) start"

definition te_getTrajectory :: "DBEnv \<Rightarrow> int \<Rightarrow> int \<Rightarrow> int \<Rightarrow> TrajectoryWorld \<Rightarrow> AssetTrajectory \<times> TrajectoryWorld" where
  "te_getTrajectory env i startTime endTime w =
     (case db_acquire env (tw_pool w) of
        (Inl _, p1) \<Rightarrow> (\<lparr>tj_asset_id = i, tj_epc = '''', tj_points = []\<rparr>, w\<lparr>tw_pool := p1\<rparr>)
      | (Inr c, p1) \<Rightarrow>
          (let rows = std_sort (\<lambda>a b. sy_entry_time a < sy_entry_time b)
                 (filter (\<lambda>r. sy_asset_id r = i \<and> te_in_window startTime endTime r) (tw_rows w))
           in (\<lparr>tj_asset_id = i, tj_epc = te_first sy_epc '''' '''' rows, tj_points = map te_point rows\<rparr>,
               w\<lparr>tw_pool := db_release env c p1\<rparr>)))"

text \<open>\<open>asset_id\<close> of the result is not initialised; \<open>junk\<close> is what it holds.\<close>

definition te_getTrajectoryByEPC ::
  "DBEnv \<Rightarrow> int \<Rightarrow> string \<Rightarrow> int \<Rightarrow> int \<Rightarrow> TrajectoryWorld \<Rightarrow> AssetTrajectory \<times> TrajectoryWorld" where
  "te_getTrajectoryByEPC env junk epc startTime endTime w =
     (case db_acquire env (tw_pool w) of
        (Inl _, p1) \<Rightarrow> (\<lparr>tj_asset_id = junk, tj_epc = epc, tj_points = []\<rparr>, w\<lparr>tw_pool := p1\<rparr>)
      | (Inr c, p1) \<Rightarrow>
          (let rows = std_sort (\<lambda>a b. sy_entry_time a < sy_entry_time b)
                 (filter (\<lambda>r. sy_epc r = epc \<and> te_in_window startTime endTime r) (tw_rows w))
           in (\<lparr>tj_asset_id = te_first sy_asset_id 0 junk rows, tj_epc = epc, tj_points = map te_point rows\<rparr>,
               w\<lparr>tw_pool := db_release env c p1\<rparr>)))"

definition te_of_row :: "StayRow \<Rightarrow> LocationRecord" where
  "te_of_row r = \<lparr>lr_id = sy_id r, lr_asset_id = sy_asset_id r, lr_epc = sy_epc r, lr_location = sy_location r,
     lr_previous_location = sy_previous_location r, lr_entry_time = sy_entry_time r,
     lr_exit_time = (case sy_exit_time r of None \<Rightarrow> 0 | Some t \<Rightarrow> t), lr_duration_seconds = sy_duration_seconds r,
     lr_source_reader = sy_source_reader r, lr_confidence = 1, lr_event_type = ''SCAN''\<rparr>"

definition te_current :: "DBEnv \<Rightarrow> (StayRow \<Rightarrow> bool) \<Rightarrow> TrajectoryWorld \<Rightarrow> LocationRecord \<times> TrajectoryWorld" where
  "te_current env P w =
     (case db_acquire env (tw_pool w) of
        (Inl _, p1) \<Rightarrow> (lr_zero, w\<lparr>tw_pool := p1\<rparr>)
      | (Inr c, p1) \<Rightarrow>
          ((case te_latest P (tw_rows w) of None \<Rightarrow> lr_zero | Some r \<Rightarrow> te_of_row r),
           w\<lparr>tw_pool := db_release env c p1\<rparr>))"

definition te_getCurrentLocation :: "DBEnv \<Rightarrow> int \<Rightarrow> TrajectoryWorld \<Rightarrow> LocationRecord \<times> TrajectoryWorld" where
  "te_getCurrentLocation env i = te_current env (te_open i)"

definition te_getCurrentLocationByEPC :: "DBEnv \<Rightarrow> string \<Rightarrow> TrajectoryWorld \<Rightarrow> LocationRecord \<times> TrajectoryWorld" where
  "te_getCurrentLocationByEPC env epc = te_current env (\<lambda>r. sy_epc r = epc \<and> sy_exit_time r = None)"

text \<open>A negative limit is an error of the statement; the connection is not released.\<close>

definition te_history :: "DBEnv \<Rightarrow> (StayRow \<Rightarrow> bool) \<Rightarrow> int \<Rightarrow> TrajectoryWorld \<Rightarrow> LocationRecord list \<times> TrajectoryWorld" where
  "te_history env P limit w =
     (case db_acquire env (tw_pool w) of
        (Inl _, p1) \<Rightarrow> ([], w\<lparr>tw_pool := p1\<rparr>)
      | (Inr c, p1) \<Rightarrow>
          (if limit < 0 then ([], w\<lparr>tw_pool := p1\<rparr>)
           else (map te_of_row (take (nat limit)
                   (std_sort (\<lambda>a b. sy_entry_time a > sy_entry_time b) (filter P (tw_rows w)))),
                 w\<lparr>tw_pool := db_release env c p1\<rparr>)))"

definition te_getLocationHistory :: "DBEnv \<Rightarrow> int \<Rightarrow> int \<Rightarrow> TrajectoryWorld \<Rightarrow> LocationRecord list \<times> TrajectoryWorld" where
  "te_getLocationHistory env i = te_history env (\<lambda>r. sy_asset_id r = i)"

definition te_getLocationHistoryByEPC ::
  "DBEnv \<Rightarrow> string \<Rightarrow> int \<Rightarrow> TrajectoryWorld \<Rightarrow> LocationRecord list \<times> TrajectoryWorld" where
  "te_getLocationHistoryByEPC env epc = te_history env (\<lambda>r. sy_epc r = epc)"

definition te_getMoveCount :: "DBEnv \<Rightarrow> int \<Rightarrow> int \<Rightarrow> int \<Rightarrow> TrajectoryWorld \<Rightarrow> nat \<times> TrajectoryWorld" where
  "te_getMoveCount env i startTime endTime w =
     (case db_acquire env (tw_pool w) of
        (Inl _, p1) \<Rightarrow> (0, w\<lparr>tw_pool := p1\<rparr>)
      | (Inr c, p1) \<Rightarrow>
          (length (filter (\<lambda>r. sy_asset_id r = i \<and> te_in_window startTime endTime r) (tw_rows w)),
           w\<lparr>tw_pool := db_release env c p1\<rparr>))"

subsection \<open>What the histories hold\<close>

definition te_rows_of :: "int \<Rightarrow> TrajectoryWorld \<Rightarrow> StayRow list" where
  "te_rows_of i w = filter (\<lambda>r. sy_asset_id r = i) (tw_rows w)"

text \<open>Stays that follow each other without a gap, the last one open.\<close>

fun te_linked :: "StayRow list \<Rightarrow> bool" where
  "te_linked [] = True"
| "te_linked [r] = (sy_exit_time r = None)"
| "te_linked (r # s # rs) =
     (sy_exit_time r = Some (sy_entry_time s) \<and> sy_previous_location s = sy_location r \<and> te_linked (s # rs))"

lemma te_linked_open:
  "te_linked xs \<Longrightarrow> filter (\<lambda>r. sy_exit_time r = None) xs = (if xs = [] then [] else [last xs])"
  by (induction xs rule: te_linked.induct) auto

lemma te_linked_snoc:
  "te_linked (xs @ [r]) \<Longrightarrow> sy_exit_time s = None \<Longrightarrow> sy_previous_location s = sy_location r \<Longrightarrow>
   te_linked (xs @ [r\<lparr>sy_exit_time := Some (sy_entry_time s), sy_duration_seconds := d\<rparr>, s])"
proof (induction xs rule: te_linked.induct)
  case (3 a b rs)
  then show ?case by simp
qed simp_all

lemma te_linked_map_last:
  "te_linked (xs @ [r]) \<Longrightarrow> te_linked (xs @ [r\<lparr>sy_duration_seconds := d\<rparr>])"
  by (induction xs rule: te_linked.induct) simp_all

lemma te_linked_closed: "te_linked (xs @ [r]) \<Longrightarrow> r' \<in> set xs \<Longrightarrow> sy_exit_time r' \<noteq> None"
  by (induction xs rule: te_linked.induct) auto

text \<open>What a statement does to the open stays of \<open>i\<close> it does to the last row of \<open>i\<close> and to no other.\<close>

lemma te_upd_rows_of:
  assumes keep: "\<And>r. sy_asset_id (f r) = sy_asset_id r"
  shows "filter (\<lambda>r. sy_asset_id r = j) (map (\<lambda>r. if te_open i r then f r else r) rows) =
    (if j = i then map (\<lambda>r. if sy_exit_time r = None then f r else r) (filter (\<lambda>r. sy_asset_id r = j) rows)
     else filter (\<lambda>r. sy_asset_id r = j) rows)"
  by (induction rows) (auto simp: te_open_def keep)

lemma te_upd_last:
  "te_linked (xs @ [r]) \<Longrightarrow> map (\<lambda>r. if sy_exit_time r = None then f r else r) (xs @ [r]) = xs @ [f r]"
proof (induction xs rule: te_linked.induct)
  case (3 a b rs)
  then show ?case by simp
qed simp_all

record MoveOp =
  mo_now :: int
  mo_asset :: int
  mo_epc :: string
  mo_location :: string
  mo_reader :: string

definition te_records :: "DBEnv \<Rightarrow> MoveOp list \<Rightarrow> TrajectoryWorld \<Rightarrow> TrajectoryWorld" where
  "te_records env ops w =
     foldl (\<lambda>w m. te_recordLocation env (mo_now m) (mo_asset m) (mo_epc m) (mo_location m) (mo_reader m) w) w ops"

text \<open>A move the table accepts: a known asset, a named place, texts that fit their columns.\<close>

definition mo_ok :: "(int \<times> string) list \<Rightarrow> MoveOp \<Rightarrow> bool" where
  "mo_ok assets m \<longleftrightarrow> mo_asset m \<in> fst ` set assets \<and> mo_location m \<noteq> '''' \<and> length (mo_epc m) \<le> 24 \<and>
     length (mo_location m) \<le> 100 \<and> length (mo_reader m) \<le> 100"

definition mo_locs :: "int \<Rightarrow> MoveOp list \<Rightarrow> string list" where
  "mo_locs i ops = map mo_location (filter (\<lambda>m. mo_asset m = i) ops)"

definition te_ready :: "DBEnv \<Rightarrow> TrajectoryWorld \<Rightarrow> bool" where
  "te_ready env w \<longleftrightarrow> pool_ready env (tw_pool w) \<and> 2 \<le> length (db_availableConnections (tw_pool w))"

definition te_inv :: "DBEnv \<Rightarrow> (int \<times> string) list \<Rightarrow> MoveOp list \<Rightarrow> TrajectoryWorld \<Rightarrow> bool" where
  "te_inv env assets ops w \<longleftrightarrow>
     te_ready env w \<and> fst ` set (tw_assets w) = fst ` set assets \<and>
     (\<forall>i. map sy_location (te_rows_of i w) = remdups_adj (mo_locs i ops) \<and> te_linked (te_rows_of i w)) \<and>
     sorted_wrt (<) (map sy_entry_time (tw_rows w)) \<and> sy_entry_time ` set (tw_rows w) \<subseteq> mo_now ` set ops"

lemma ready_give_back:
  assumes "pool_ready env p"
  shows "db_release env c (p\<lparr>db_availableConnections := ds, db_inUseCount := Suc (db_inUseCount p)\<rparr>) =
    p\<lparr>db_availableConnections := ds @ [c]\<rparr>"
proof -
  have "pool_ready env (p\<lparr>db_availableConnections := ds, db_inUseCount := Suc (db_inUseCount p)\<rparr>)"
    using assms by simp
  from ready_release [OF this] show ?thesis by (cases p) simp
qed

lemma te_prev_ready:
  assumes "pool_ready env (tw_pool w)" "db_availableConnections (tw_pool w) = c # cs"
  shows "te_getPreviousLocation env i w =
    ((case te_latest (te_open i) (tw_rows w) of None \<Rightarrow> '''' | Some r \<Rightarrow> sy_location r),
     w\<lparr>tw_pool := (tw_pool w)\<lparr>db_availableConnections := cs @ [c]\<rparr>\<rparr>)"
  using assms by (simp add: te_getPreviousLocation_def ready_acquire ready_give_back)

lemma te_latest_linked:
  assumes "te_linked (te_rows_of i w)"
  shows "te_latest (te_open i) (tw_rows w) = (if te_rows_of i w = [] then None else Some (last (te_rows_of i w)))"
proof -
  have "filter (te_open i) (tw_rows w) = filter (\<lambda>r. sy_exit_time r = None) (te_rows_of i w)"
    by (simp add: te_rows_of_def te_open_def [abs_def] conj_commute)
  with te_linked_open [OF assms] show ?thesis by (simp add: te_latest_def std_sort_def)
qed

text \<open>The table's rows after a recorded move.\<close>

definition te_moved :: "MoveOp \<Rightarrow> string \<Rightarrow> int \<Rightarrow> StayRow list \<Rightarrow> StayRow list" where
  "te_moved m prev n rows =
     (if prev = mo_location m then te_touch_rows (mo_now m) (mo_asset m) rows
      else (if prev \<noteq> '''' then te_close_rows (mo_now m) (mo_asset m) rows else rows) @
        [\<lparr>sy_id = n, sy_asset_id = mo_asset m, sy_epc = mo_epc m, sy_location = mo_location m,
          sy_previous_location = prev, sy_entry_time = mo_now m, sy_exit_time = None,
          sy_duration_seconds = 0, sy_source_reader = mo_reader m\<rparr>])"

lemma te_set_location_fst: "fst ` set (te_set_location i loc xs) = fst ` set xs"
  by (force simp: te_set_location_def image_iff split: if_splits prod.splits)

lemma te_record_ready:
  assumes "te_ready env w" "mo_ok (tw_assets w) m"
    and prev: "prev = (case te_latest (te_open (mo_asset m)) (tw_rows w) of None \<Rightarrow> '''' | Some r \<Rightarrow> sy_location r)"
      "length prev \<le> 100"
    and w': "w' = te_recordLocation env (mo_now m) (mo_asset m) (mo_epc m) (mo_location m) (mo_reader m) w"
  shows "te_ready env w' \<and> fst ` set (tw_assets w') = fst ` set (tw_assets w) \<and>
    tw_rows w' = te_moved m prev (tw_next_id w) (tw_rows w)"
proof -
  obtain c d cs where a: "db_availableConnections (tw_pool w) = c # d # cs"
    using assms(1) by (auto simp: te_ready_def numeral_2_eq_2 Suc_le_length_iff)
  have p: "pool_ready env (tw_pool w)" using assms(1) by (simp add: te_ready_def)
  have m: "mo_location m \<noteq> ''''" "mo_asset m \<in> fst ` set (tw_assets w)" "length (mo_epc m) \<le> 24"
    "length (mo_location m) \<le> 100" "length (mo_reader m) \<le> 100"
    using assms(2) by (simp_all add: mo_ok_def)
  let ?p = "(tw_pool w)\<lparr>db_availableConnections := cs @ [d, c]\<rparr>"
  let ?p1 = "(tw_pool w)\<lparr>db_availableConnections := d # cs, db_inUseCount := Suc (db_inUseCount (tw_pool w))\<rparr>"
  let ?p2 = "(tw_pool w)\<lparr>db_availableConnections := cs @ [d], db_inUseCount := Suc (db_inUseCount (tw_pool w))\<rparr>"
  have acq: "db_acquire env (tw_pool w) = (Inr c, ?p1)" using p a by (simp add: ready_acquire)
  have get: "te_getPreviousLocation env i (w\<lparr>tw_pool := ?p1\<rparr>) =
      ((case te_latest (te_open i) (tw_rows w) of None \<Rightarrow> '''' | Some r \<Rightarrow> sy_location r), w\<lparr>tw_pool := ?p2\<rparr>)" for i
    using te_prev_ready [of env "w\<lparr>tw_pool := ?p1\<rparr>" d cs i] p by simp
  have rel: "db_release env c ?p2 = ?p" using ready_give_back [OF p, of c "cs @ [d]"] by simp
  have ok: "te_insert_ok (mo_asset m) (mo_epc m) (mo_location m) prev (mo_reader m) (w\<lparr>tw_pool := ?p2\<rparr>)"
    using m prev(2) by (simp add: te_insert_ok_def)
  have g: "te_recordLocation env (mo_now m) (mo_asset m) (mo_epc m) (mo_location m) (mo_reader m) w =
    (if prev = mo_location m then w\<lparr>tw_rows := te_moved m prev (tw_next_id w) (tw_rows w), tw_pool := ?p\<rparr>
     else w\<lparr>tw_rows := te_moved m prev (tw_next_id w) (tw_rows w), tw_next_id := tw_next_id w + 1,
        tw_assets := te_set_location (mo_asset m) (mo_location m) (tw_assets w), tw_pool := ?p\<rparr>)"
    unfolding te_recordLocation_def acq using m(1) ok rel
    by (simp add: get prev(1) [symmetric] te_moved_def Let_def)
  have "te_ready env (w\<lparr>tw_pool := ?p\<rparr>)" using p by (simp add: te_ready_def)
  then show ?thesis unfolding w' g by (simp add: te_ready_def te_set_location_fst)
qed

lemma remdups_adj_snoc:
  "remdups_adj (xs @ [x]) = (if xs \<noteq> [] \<and> last xs = x then remdups_adj xs else remdups_adj xs @ [x])"
proof (cases xs rule: rev_cases)
  case (snoc ys y)
  then show ?thesis using remdups_adj_append_two [of ys y x] by simp
qed simp

lemma te_touch_entry [simp]: "map sy_entry_time (te_touch_rows now i rows) = map sy_entry_time rows"
  by (simp add: te_touch_rows_def)

lemma te_close_entry [simp]: "map sy_entry_time (te_close_rows now i rows) = map sy_entry_time rows"
  by (simp add: te_close_rows_def)

lemma te_touch_entry_set [simp]: "sy_entry_time ` set (te_touch_rows now i rows) = sy_entry_time ` set rows"
  by (metis set_map te_touch_entry)

lemma te_close_entry_set [simp]: "sy_entry_time ` set (te_close_rows now i rows) = sy_entry_time ` set rows"
  by (metis set_map te_close_entry)

text \<open>The rows of one asset after a move, from the rows it had.\<close>

lemma te_moved_rows:
  assumes "te_linked (te_rows_of (mo_asset m) w)"
    and "prev = (if te_rows_of (mo_asset m) w = [] then '''' else sy_location (last (te_rows_of (mo_asset m) w)))"
    and "prev = '''' \<Longrightarrow> te_rows_of (mo_asset m) w = []" "mo_location m \<noteq> ''''"
    and "rows = filter (\<lambda>r. sy_asset_id r = j) (te_moved m prev n (tw_rows w))"
  shows "map sy_location rows = map sy_location (te_rows_of j w) @
      (if j = mo_asset m \<and> prev \<noteq> mo_location m then [mo_location m] else []) \<and>
    (te_linked (te_rows_of j w) \<longrightarrow> te_linked rows)"
proof (cases "te_rows_of (mo_asset m) w" rule: rev_cases)
  case Nil
  then show ?thesis using assms(2,4,5) by (auto simp: te_moved_def te_rows_of_def)
next
  case (snoc xs r)
  let ?t = "\<lambda>r. r\<lparr>sy_duration_seconds := mo_now m - sy_entry_time r\<rparr>"
  let ?c = "\<lambda>r. r\<lparr>sy_exit_time := Some (mo_now m), sy_duration_seconds := mo_now m - sy_entry_time r\<rparr>"
  have prev: "prev = sy_location r" "prev \<noteq> ''''" using assms(2,3) snoc by auto
  have lk: "te_linked (xs @ [r])" using assms(1) snoc by simp
  have touch: "filter (\<lambda>r. sy_asset_id r = j) (te_touch_rows (mo_now m) (mo_asset m) (tw_rows w)) =
      (if j = mo_asset m then xs @ [?t r] else te_rows_of j w)"
    unfolding te_touch_rows_def
    by (subst te_upd_rows_of) (use te_upd_last [OF lk, of ?t] snoc in \<open>auto simp: te_rows_of_def\<close>)
  have close: "filter (\<lambda>r. sy_asset_id r = j) (te_close_rows (mo_now m) (mo_asset m) (tw_rows w)) =
      (if j = mo_asset m then xs @ [?c r] else te_rows_of j w)"
    unfolding te_close_rows_def
    by (subst te_upd_rows_of) (use te_upd_last [OF lk, of ?c] snoc in \<open>auto simp: te_rows_of_def\<close>)
  show ?thesis
  proof (cases "prev = mo_location m")
    case True
    then show ?thesis using te_linked_map_last [OF lk] snoc by (simp add: assms(5) te_moved_def touch)
  next
    case False
    let ?new = "\<lparr>sy_id = n, sy_asset_id = mo_asset m, sy_epc = mo_epc m, sy_location = mo_location m,
          sy_previous_location = prev, sy_entry_time = mo_now m, sy_exit_time = None,
          sy_duration_seconds = 0, sy_source_reader = mo_reader m\<rparr>"
    have "te_linked (xs @ [?c r, ?new])" using te_linked_snoc [OF lk, of ?new] prev by simp
    with False prev snoc show ?thesis by (auto simp: assms(5) te_moved_def close)
  qed
qed

lemma te_inv_step:
  assumes inv: "te_inv env assets ops w" and ok: "mo_ok assets m" "\<And>x. x \<in> set ops \<Longrightarrow> mo_ok assets x"
    and late: "\<And>x. x \<in> set ops \<Longrightarrow> mo_now x < mo_now m"
  shows "te_inv env assets (ops @ [m])
    (te_recordLocation env (mo_now m) (mo_asset m) (mo_epc m) (mo_location m) (mo_reader m) w)" (is "te_inv _ _ _ ?w'")
proof -
  let ?i = "mo_asset m" and ?R = "te_rows_of (mo_asset m) w"
  define prev where "prev = (if ?R = [] then '''' else sy_location (last ?R))"
  have rd: "te_ready env w" and fs: "fst ` set (tw_assets w) = fst ` set assets"
    and rows: "\<And>i. map sy_location (te_rows_of i w) = remdups_adj (mo_locs i ops)" "\<And>i. te_linked (te_rows_of i w)"
    and srt: "sorted_wrt (<) (map sy_entry_time (tw_rows w))" and ts: "sy_entry_time ` set (tw_rows w) \<subseteq> mo_now ` set ops"
    using inv by (auto simp: te_inv_def)
  have R: "?R = [] \<longleftrightarrow> mo_locs ?i ops = []" using rows(1) [of ?i] by (metis map_is_Nil_conv remdups_adj_Nil_iff)
  have last: "?R \<noteq> [] \<Longrightarrow> prev = last (mo_locs ?i ops)"
    using rows(1) [of ?i] by (metis prev_def last_map last_remdups_adj)
  have "?R \<noteq> [] \<Longrightarrow> prev \<in> mo_location ` set ops"
    using last R last_in_set [of "mo_locs ?i ops"] by (auto simp: mo_locs_def)
  then have pok: "?R \<noteq> [] \<Longrightarrow> prev \<noteq> '''' \<and> length prev \<le> 100" using ok(2) by (auto simp: mo_ok_def)
  have len: "length prev \<le> 100" using pok by (cases "?R = []") (auto simp: prev_def)
  have okm: "mo_ok (tw_assets w) m" and ne: "mo_location m \<noteq> ''''" using ok(1) fs by (auto simp: mo_ok_def)
  have pl: "prev = (case te_latest (te_open ?i) (tw_rows w) of None \<Rightarrow> '''' | Some r \<Rightarrow> sy_location r)"
    by (simp add: te_latest_linked [OF rows(2)] prev_def)
  note step = te_record_ready [OF rd okm pl len refl]
  have empt: "prev = [] \<Longrightarrow> ?R = []" using pok by blast
  have rows': "map sy_location (te_rows_of j ?w') = map sy_location (te_rows_of j w) @
      (if j = ?i \<and> prev \<noteq> mo_location m then [mo_location m] else [])" "te_linked (te_rows_of j ?w')" for j
    using te_moved_rows [OF rows(2) prev_def empt ne refl, of j "tw_next_id w"] rows(2) [of j] step
    by (simp_all add: te_rows_of_def [of j ?w'])
  have "remdups_adj (mo_locs j (ops @ [m])) = remdups_adj (mo_locs j ops) @
      (if j = ?i \<and> prev \<noteq> mo_location m then [mo_location m] else [])" for j
    using R last ne by (auto simp: mo_locs_def remdups_adj_snoc prev_def)
  moreover have "sorted_wrt (<) (map sy_entry_time (tw_rows ?w'))"
  proof -
    have "x \<in> set (map sy_entry_time (tw_rows w)) \<Longrightarrow> x < mo_now m" for x using ts late by fastforce
    then show ?thesis using step srt by (auto simp: te_moved_def sorted_wrt_append simp flip: set_map)
  qed
  moreover have "sy_entry_time ` set (tw_rows ?w') \<subseteq> mo_now ` set (ops @ [m])"
    using step ts by (auto simp: te_moved_def image_Un)
  ultimately show ?thesis using step fs rows rows' by (simp add: te_inv_def)
qed

lemma te_inv_records:
  assumes "te_ready env w" "tw_rows w = []" "\<And>m. m \<in> set ops \<Longrightarrow> mo_ok (tw_assets w) m"
    and "sorted_wrt (<) (map mo_now ops)"
  shows "te_inv env (tw_assets w) ops (te_records env ops w)"
  using assms(3,4)
proof (induction ops rule: rev_induct)
  case Nil
  then show ?case using assms(1,2) by (simp add: te_inv_def te_records_def te_rows_of_def mo_locs_def)
next
  case (snoc m ops)
  have "te_inv env (tw_assets w) ops (te_records env ops w)" using snoc by (simp add: sorted_wrt_append)
  from te_inv_step [OF this, of m] snoc.prems show ?case by (simp add: te_records_def sorted_wrt_append)
qed

text \<open>Ascending or descending, sorting strictly ordered rows finds the only order there is.\<close>

lemma te_sort_sorted:
  assumes "sorted_wrt (<) (map sy_entry_time rows)"
  shows "std_sort (\<lambda>a b. sy_entry_time a < sy_entry_time b) rows = rows"
proof (rule sorted_wrt_key_unique [where k = sy_entry_time, symmetric])
  show "distinct (map sy_entry_time rows)" using assms by (simp add: strict_sorted_iff)
  show "sorted_wrt (\<lambda>a b. sy_entry_time a \<le> sy_entry_time b) rows"
    using assms by (simp add: strict_sorted_iff sorted_map)
qed (simp_all add: sorted_std_sort_key)

lemma te_in_window_open [simp]: "te_in_window 0 0 r"
  by (simp add: te_in_window_def)

text \<open>C14: The trajectory of an asset is the sequence of its recorded places without the repetitions, the
  number of moves is its length, the current location is the place recorded last, with the place before it;
  the stays follow each other without a gap and exactly the last is open. This takes two connections at a
  time for each call.\<close>

theorem te_trajectory_exact:
  assumes "te_ready env w" "tw_rows w = []" "list_all (mo_ok (tw_assets w)) ops" "sorted_wrt (<) (map mo_now ops)"
    and "w' = te_records env ops w" "locs = mo_locs i ops"
  shows "map tj_location (tj_points (fst (te_getTrajectory env i 0 0 w'))) = remdups_adj locs \<and>
    fst (te_getMoveCount env i 0 0 w') = length (remdups_adj locs) \<and>
    (if locs = [] then fst (te_getCurrentLocation env i w') = lr_zero
     else lr_location (fst (te_getCurrentLocation env i w')) = last locs) \<and>
    te_linked (te_rows_of i w')"
proof -
  have inv: "te_inv env (tw_assets w) ops w'"
    unfolding assms(5) using assms(1-4) by (intro te_inv_records) (auto simp: list_all_iff)
  then have rows: "map sy_location (te_rows_of i w') = remdups_adj locs" "te_linked (te_rows_of i w')"
    and srt: "sorted_wrt (<) (map sy_entry_time (tw_rows w'))"
    and p: "pool_ready env (tw_pool w')" "2 \<le> length (db_availableConnections (tw_pool w'))"
    by (auto simp: te_inv_def te_ready_def assms(6))
  obtain c cs where a: "db_availableConnections (tw_pool w') = c # cs"
    using p(2) by (cases "db_availableConnections (tw_pool w')") auto
  have "sorted_wrt (<) (map sy_entry_time (te_rows_of i w'))"
    using srt by (simp add: te_rows_of_def sorted_wrt_map sorted_wrt_filter)
  then have tr: "map tj_location (tj_points (fst (te_getTrajectory env i 0 0 w'))) = remdups_adj locs"
    using te_sort_sorted [of "te_rows_of i w'"] rows(1) p(1) a
    by (simp add: te_getTrajectory_def ready_acquire Let_def te_rows_of_def te_point_def o_def)
  have mc: "fst (te_getMoveCount env i 0 0 w') = length (remdups_adj locs)"
    using arg_cong [OF rows(1), of length] p(1) a by (simp add: te_getMoveCount_def ready_acquire te_rows_of_def)
  have e: "te_rows_of i w' = [] \<longleftrightarrow> locs = []" using rows(1) by (metis map_is_Nil_conv remdups_adj_Nil_iff)
  have "locs \<noteq> [] \<Longrightarrow> sy_location (last (te_rows_of i w')) = last locs"
    using rows(1) e by (metis last_map last_remdups_adj)
  then have "if locs = [] then fst (te_getCurrentLocation env i w') = lr_zero
     else lr_location (fst (te_getCurrentLocation env i w')) = last locs"
    using p(1) a e
    by (simp add: te_getCurrentLocation_def te_current_def ready_acquire te_latest_linked [OF rows(2)] te_of_row_def)
  with tr mc rows(2) show ?thesis by blast
qed

definition te_world :: "nat \<Rightarrow> TrajectoryWorld" where
  "te_world n = \<lparr>tw_pool = (db_new (map Some [0 ..< 20]))\<lparr>db_availableConnections := [0 ..< n], db_inUseCount := 20 - n\<rparr>,
     tw_rows = [], tw_next_id = 1, tw_assets = [(1, ''''), (2, '''')]\<rparr>"

definition sample_moves :: "MoveOp list" where
  "sample_moves =
     [\<lparr>mo_now = 10, mo_asset = 1, mo_epc = ''E1'', mo_location = ''A'', mo_reader = ''r''\<rparr>,
      \<lparr>mo_now = 20, mo_asset = 2, mo_epc = ''E2'', mo_location = ''A'', mo_reader = ''r''\<rparr>,
      \<lparr>mo_now = 30, mo_asset = 1, mo_epc = ''E1'', mo_location = ''A'', mo_reader = ''r''\<rparr>,
      \<lparr>mo_now = 40, mo_asset = 1, mo_epc = ''E1'', mo_location = ''B'', mo_reader = ''r''\<rparr>]"

lemma te_world_ready: "pool_ready env_full (tw_pool (te_world n))" "db_availableConnections (tw_pool (te_world n)) = [0 ..< n]"
  by (simp_all add: pool_ready_def te_world_def env_full_def db_new_def Let_def List.map_filter_def MAX_CONNECTIONS_def o_def)

lemma te_trajectory_exact_witness:
  "map tj_location (tj_points (fst (te_getTrajectory env_full 1 0 0 (te_records env_full sample_moves (te_world 20))))) =
     [''A'', ''B'']"
proof -
  have "te_ready env_full (te_world 20)" by (simp add: te_ready_def te_world_ready)
  from te_trajectory_exact [OF this _ _ _ refl refl, of sample_moves 1] show ?thesis
    by (simp add: te_world_def sample_moves_def mo_ok_def mo_locs_def)
qed

text \<open>With one connection left the inner call times out, and nothing shows it.\<close>

lemma te_record_alone:
  assumes "pool_ready env (tw_pool w)" "db_availableConnections (tw_pool w) = [c]" "mo_ok (tw_assets w) m"
    and w': "w' = te_recordLocation env (mo_now m) (mo_asset m) (mo_epc m) (mo_location m) (mo_reader m) w"
  shows "pool_ready env (tw_pool w') \<and> db_availableConnections (tw_pool w') = [c] \<and>
    fst ` set (tw_assets w') = fst ` set (tw_assets w) \<and>
    tw_rows w' = tw_rows w @ [\<lparr>sy_id = tw_next_id w, sy_asset_id = mo_asset m, sy_epc = mo_epc m,
      sy_location = mo_location m, sy_previous_location = '''', sy_entry_time = mo_now m, sy_exit_time = None,
      sy_duration_seconds = 0, sy_source_reader = mo_reader m\<rparr>]"
proof -
  let ?p = "(tw_pool w)\<lparr>db_availableConnections := [], db_inUseCount := Suc (db_inUseCount (tw_pool w))\<rparr>"
  have acq: "db_acquire env (tw_pool w) = (Inr c, ?p)" using assms(1,2) by (simp add: ready_acquire)
  have p: "pool_ready env ?p" using assms(1) by simp
  have get: "te_getPreviousLocation env i (w\<lparr>tw_pool := ?p\<rparr>) = ('''', w\<lparr>tw_pool := ?p\<rparr>)" for i
    using p by (simp add: te_getPreviousLocation_def ready_acquire)
  show ?thesis
    using assms(1,3) ready_give_back [OF assms(1), of c "[]"] p
    unfolding w' te_recordLocation_def acq
    by (simp add: get mo_ok_def te_insert_ok_def te_set_location_fst Let_def)
qed

text \<open>When one connection is left, recording a move cannot see the asset's last place: every move opens one
  more stay, even at the same place, without a previous place, and no stay is ever closed.\<close>

theorem te_one_connection:
  assumes "pool_ready env (tw_pool w)" "db_availableConnections (tw_pool w) = [c]"
    and "list_all (mo_ok (tw_assets w)) ops" "w' = te_records env ops w"
  shows "\<exists>new. tw_rows w' = tw_rows w @ new \<and>
    map (\<lambda>r. (sy_asset_id r, sy_location r, sy_previous_location r, sy_exit_time r)) new =
      map (\<lambda>m. (mo_asset m, mo_location m, '''', None)) ops"
proof -
  have "pool_ready env (tw_pool w') \<and> db_availableConnections (tw_pool w') = [c] \<and>
    fst ` set (tw_assets w') = fst ` set (tw_assets w) \<and> (\<exists>new. tw_rows w' = tw_rows w @ new \<and>
    map (\<lambda>r. (sy_asset_id r, sy_location r, sy_previous_location r, sy_exit_time r)) new =
      map (\<lambda>m. (mo_asset m, mo_location m, '''', None)) ops)"
    using assms(3) unfolding assms(4)
  proof (induction ops rule: rev_induct)
    case Nil
    then show ?case using assms(1,2) by (simp add: te_records_def)
  next
    case (snoc m ops)
    let ?w = "te_records env ops w"
    have ih: "pool_ready env (tw_pool ?w)" "db_availableConnections (tw_pool ?w) = [c]"
      "fst ` set (tw_assets ?w) = fst ` set (tw_assets w)"
      using snoc by simp_all
    have "mo_ok (tw_assets ?w) m" using snoc.prems ih(3) by (simp add: mo_ok_def)
    note te_record_alone [OF ih(1,2) this refl]
    moreover obtain new where "tw_rows ?w = tw_rows w @ new"
      "map (\<lambda>r. (sy_asset_id r, sy_location r, sy_previous_location r, sy_exit_time r)) new =
        map (\<lambda>m. (mo_asset m, mo_location m, '''', None)) ops" using snoc by auto
    ultimately show ?case using ih(3) by (simp add: te_records_def)
  qed
  then show ?thesis by blast
qed

lemma te_one_connection_witness:
  "\<exists>new. tw_rows (te_records env_full sample_moves (te_world 1)) = new \<and>
     map sy_exit_time new = [None, None, None, None]"
proof -
  obtain new where new: "tw_rows (te_records env_full sample_moves (te_world 1)) = tw_rows (te_world 1) @ new"
    "map (\<lambda>r. (sy_asset_id r, sy_location r, sy_previous_location r, sy_exit_time r)) new =
      map (\<lambda>m. (mo_asset m, mo_location m, '''', None)) sample_moves"
    using te_one_connection [OF te_world_ready(1) _ _ refl, of 1 0 sample_moves]
    by (auto simp: te_world_ready te_world_def sample_moves_def mo_ok_def)
  from arg_cong [OF new(2), of "map (snd \<circ> snd \<circ> snd)"] new(1) show ?thesis
    by (simp add: te_world_def sample_moves_def o_def)
qed

end
