(* ===== verification/Spatial_Graph.thy ===== *)
theory Spatial_Graph
  imports Decimal
begin

text \<open>
  The spatial graph (\<open>spatial_truth/spatial_graph\<close>): discovery of the readers and their overlaps, the
  bindings of tags to assets, the zones the tags lie in, the builder that joins them and drops what dangles,
  and the projection onto the readers. Attributes are strings: coordinates go through \<open>std::to_string\<close> and
  come back through \<open>std::stod\<close>. The time of a build is an argument.
\<close>

section \<open>Data\<close>

datatype SpatialNodeType = READER | TAG | ASSET | ZONE | WORKSHOP

datatype SpatialEdgeType = READER_TAG | TAG_ASSET | ASSET_ZONE | ZONE_WORKSHOP | READER_READER

datatype EdgeSource = READER_TOPOLOGY | SPATIAL_TOPOLOGY | RF_ENVIRONMENT

record SpatialGraphNode =
  gn_id :: string
  gn_type :: SpatialNodeType
  gn_attributes :: "(string \<times> string) list"

record SpatialGraphEdge =
  ge_from :: string
  ge_to :: string
  ge_type :: SpatialEdgeType
  ge_source :: EdgeSource
  ge_weight :: real

record SpatialGraph =
  sgr_nodes :: "SpatialGraphNode list"
  sgr_edges :: "SpatialGraphEdge list"
  sgr_timestamp :: u64

fun nodeTypeToString :: "SpatialNodeType \<Rightarrow> string" where
  "nodeTypeToString READER = ''reader''"
| "nodeTypeToString TAG = ''tag''"
| "nodeTypeToString ASSET = ''asset''"
| "nodeTypeToString ZONE = ''zone''"
| "nodeTypeToString WORKSHOP = ''workshop''"

fun edgeTypeToString :: "SpatialEdgeType \<Rightarrow> string" where
  "edgeTypeToString READER_TAG = ''reader_tag''"
| "edgeTypeToString TAG_ASSET = ''tag_asset''"
| "edgeTypeToString ASSET_ZONE = ''asset_zone''"
| "edgeTypeToString ZONE_WORKSHOP = ''zone_workshop''"
| "edgeTypeToString READER_READER = ''reader_reader''"

record ReaderInfo =
  ri_id :: string
  ri_x :: real
  ri_y :: real
  ri_coverage_radius :: real
  ri_antenna_count :: int
  ri_online :: bool
  ri_name :: string

record TagAssetBinding =
  tb_tag :: string
  tb_asset :: string

record ZoneInfo =
  zi_id :: string
  zi_min_x :: real
  zi_max_x :: real
  zi_min_y :: real
  zi_max_y :: real

record TagEstimate =
  tes_tag :: string
  tes_x :: real
  tes_y :: real

record RFObservation =
  ro_reader :: string
  ro_tag :: string
  ro_rssi :: real

section \<open>Readers\<close>

definition sg_reader_node :: "ReaderInfo \<Rightarrow> SpatialGraphNode" where
  "sg_reader_node r = \<lparr>gn_id = ri_id r, gn_type = READER,
     gn_attributes = om_put ''name'' (ri_name r) (om_put ''antenna_count'' (to_string (ri_antenna_count r))
       (om_put ''coverage_radius'' (fixed6 (ri_coverage_radius r)) (om_put ''y'' (fixed6 (ri_y r))
         (om_put ''x'' (fixed6 (ri_x r)) []))))\<rparr>"

definition sg_discover :: "ReaderInfo list \<Rightarrow> SpatialGraphNode list" where
  "sg_discover readers = map sg_reader_node (filter ri_online readers)"

definition sg_dist :: "ReaderInfo \<Rightarrow> ReaderInfo \<Rightarrow> real" where
  "sg_dist a b = sqrt ((ri_x a - ri_x b) * (ri_x a - ri_x b) + (ri_y a - ri_y b) * (ri_y a - ri_y b))"

definition sg_pair_edges :: "ReaderInfo \<Rightarrow> ReaderInfo \<Rightarrow> SpatialGraphEdge list" where
  "sg_pair_edges a b =
     (if \<not> ri_online b then []
      else if sg_dist a b \<le> ri_coverage_radius a + ri_coverage_radius b then
        [\<lparr>ge_from = ri_id a, ge_to = ri_id b, ge_type = READER_READER, ge_source = READER_TOPOLOGY,
          ge_weight = 1 / (1 + sg_dist a b)\<rparr>]
      else [])"

fun sg_discoverEdges :: "ReaderInfo list \<Rightarrow> SpatialGraphEdge list" where
  "sg_discoverEdges [] = []"
| "sg_discoverEdges (a # rest) =
     (if \<not> ri_online a then [] else concat (map (sg_pair_edges a) rest)) @ sg_discoverEdges rest"

definition sg_removeOfflineReader :: "string \<Rightarrow> SpatialGraph \<Rightarrow> SpatialGraph" where
  "sg_removeOfflineReader rid g =
     \<lparr>sgr_nodes = filter (\<lambda>n. \<not> (gn_id n = rid \<and> gn_type n = READER)) (sgr_nodes g),
      sgr_edges = filter (\<lambda>e. \<not> (ge_from e = rid \<or> ge_to e = rid)) (sgr_edges g),
      sgr_timestamp = sgr_timestamp g\<rparr>"

section \<open>Bindings and zones\<close>

definition sg_sync :: "TagAssetBinding list \<Rightarrow> SpatialGraphEdge list" where
  "sg_sync bindings = map (\<lambda>b. \<lparr>ge_from = tb_tag b, ge_to = tb_asset b, ge_type = TAG_ASSET,
     ge_source = SPATIAL_TOPOLOGY, ge_weight = 1\<rparr>) bindings"

fun sg_buildNodes :: "string \<Rightarrow> TagAssetBinding list \<Rightarrow> SpatialGraphNode list" where
  "sg_buildNodes last_tag [] = []"
| "sg_buildNodes last_tag (b # bs) =
     (if tb_tag b \<noteq> last_tag then [\<lparr>gn_id = tb_tag b, gn_type = TAG, gn_attributes = []\<rparr>] else []) @
     \<lparr>gn_id = tb_asset b, gn_type = ASSET, gn_attributes = []\<rparr> # sg_buildNodes (tb_tag b) bs"

definition sg_inside :: "TagEstimate \<Rightarrow> ZoneInfo \<Rightarrow> bool" where
  "sg_inside t z \<longleftrightarrow> tes_x t \<ge> zi_min_x z \<and> tes_x t \<le> zi_max_x z \<and> tes_y t \<ge> zi_min_y z \<and> tes_y t \<le> zi_max_y z"

definition sg_resolve_one :: "ZoneInfo list \<Rightarrow> TagEstimate \<Rightarrow> SpatialGraphEdge list" where
  "sg_resolve_one zones t =
     (case find (sg_inside t) zones of None \<Rightarrow> []
      | Some z \<Rightarrow> [\<lparr>ge_from = tes_tag t, ge_to = zi_id z, ge_type = ASSET_ZONE, ge_source = SPATIAL_TOPOLOGY,
                    ge_weight = 1\<rparr>])"

definition sg_resolve :: "TagEstimate list \<Rightarrow> ZoneInfo list \<Rightarrow> SpatialGraphEdge list" where
  "sg_resolve estimates zones = concat (map (sg_resolve_one zones) estimates)"

section \<open>The builder\<close>

definition sg_zone_node :: "ZoneInfo \<Rightarrow> SpatialGraphNode" where
  "sg_zone_node z = \<lparr>gn_id = zi_id z, gn_type = ZONE,
     gn_attributes = om_put ''max_y'' (fixed6 (zi_max_y z)) (om_put ''min_y'' (fixed6 (zi_min_y z))
       (om_put ''max_x'' (fixed6 (zi_max_x z)) (om_put ''min_x'' (fixed6 (zi_min_x z)) [])))\<rparr>"

definition sg_observation_edge :: "RFObservation \<Rightarrow> SpatialGraphEdge" where
  "sg_observation_edge ob = \<lparr>ge_from = ro_reader ob, ge_to = ro_tag ob, ge_type = READER_TAG,
     ge_source = RF_ENVIRONMENT, ge_weight = max 0 ((ro_rssi ob + 100) / 100)\<rparr>"

definition sg_removeDanglingReferences :: "SpatialGraph \<Rightarrow> SpatialGraph" where
  "sg_removeDanglingReferences g =
     g\<lparr>sgr_edges := filter (\<lambda>e. ge_from e \<in> gn_id ` set (sgr_nodes g) \<and> ge_to e \<in> gn_id ` set (sgr_nodes g)) (sgr_edges g)\<rparr>"

definition sg_build ::
  "ReaderInfo list \<Rightarrow> TagAssetBinding list \<Rightarrow> TagEstimate list \<Rightarrow> ZoneInfo list \<Rightarrow> RFObservation list \<Rightarrow> u64 \<Rightarrow> SpatialGraph" where
  "sg_build readers bindings estimates zones observations now =
     (sg_removeDanglingReferences
       \<lparr>sgr_nodes = sg_discover readers @ sg_buildNodes '''' bindings @ map sg_zone_node zones,
        sgr_edges = sg_discoverEdges readers @ sg_sync bindings @ sg_resolve estimates zones @
          map sg_observation_edge observations,
        sgr_timestamp = 0\<rparr>)\<lparr>sgr_timestamp := now\<rparr>"

section \<open>The projection\<close>

record TopologyNode =
  tn_reader :: string
  tn_x :: real
  tn_y :: real
  tn_coverage_radius :: real
  tn_load :: real
  tn_online :: bool
  tn_name :: string

record TopologyEdge =
  tg_from :: string
  tg_to :: string
  tg_strength :: real

record TopologyGraph =
  tp_nodes :: "TopologyNode list"
  tp_edges :: "TopologyEdge list"

definition sg_attribute :: "string \<Rightarrow> real \<Rightarrow> SpatialGraphNode \<Rightarrow> fault + real" where
  "sg_attribute key dflt n = (case map_of (gn_attributes n) key of None \<Rightarrow> Inr dflt | Some s \<Rightarrow> std_stod s)"

definition sg_topology_node :: "SpatialGraphNode \<Rightarrow> fault + TopologyNode" where
  "sg_topology_node n =
     (case sg_attribute ''x'' 0 n of Inl e \<Rightarrow> Inl e | Inr x \<Rightarrow>
      case sg_attribute ''y'' 0 n of Inl e \<Rightarrow> Inl e | Inr y \<Rightarrow>
      case sg_attribute ''coverage_radius'' 10 n of Inl e \<Rightarrow> Inl e | Inr r \<Rightarrow>
        Inr \<lparr>tn_reader = gn_id n, tn_x = x, tn_y = y, tn_coverage_radius = r, tn_load = 0, tn_online = True,
             tn_name = (case map_of (gn_attributes n) ''name'' of None \<Rightarrow> '''' | Some s \<Rightarrow> s)\<rparr>)"

fun sg_map_result :: "('a \<Rightarrow> fault + 'b) \<Rightarrow> 'a list \<Rightarrow> fault + 'b list" where
  "sg_map_result f [] = Inr []"
| "sg_map_result f (x # xs) =
     (case f x of Inl e \<Rightarrow> Inl e | Inr y \<Rightarrow> case sg_map_result f xs of Inl e \<Rightarrow> Inl e | Inr ys \<Rightarrow> Inr (y # ys))"

definition sg_toTopologyGraph :: "SpatialGraph \<Rightarrow> fault + TopologyGraph" where
  "sg_toTopologyGraph g =
     (case sg_map_result sg_topology_node (filter (\<lambda>n. gn_type n = READER) (sgr_nodes g)) of
        Inl e \<Rightarrow> Inl e
      | Inr ns \<Rightarrow> Inr \<lparr>tp_nodes = ns, tp_edges =
          map (\<lambda>e. \<lparr>tg_from = ge_from e, tg_to = ge_to e, tg_strength = ge_weight e\<rparr>)
            (filter (\<lambda>e. ge_type e = READER_READER) (sgr_edges g))\<rparr>)"

section \<open>What the graph holds\<close>

lemma set_sg_discoverEdges:
  "e \<in> set (sg_discoverEdges rs) \<longleftrightarrow>
     (\<exists>i j. i < j \<and> j < length rs \<and> ri_online (rs ! i) \<and> e \<in> set (sg_pair_edges (rs ! i) (rs ! j)))"
proof (induction rs)
  case (Cons a rs)
  let ?P = "\<lambda>l i j. i < j \<and> j < length l \<and> ri_online (l ! i) \<and> e \<in> set (sg_pair_edges (l ! i) (l ! j))"
  have "(\<exists>i j. ?P (a # rs) i j) \<longleftrightarrow> (\<exists>j. ?P (a # rs) 0 (Suc j)) \<or> (\<exists>i j. ?P (a # rs) (Suc i) (Suc j))"
    (is "?l \<longleftrightarrow> ?r")
  proof
    assume ?l
    then obtain i j where "?P (a # rs) i j" by blast
    then show ?r by (cases i; cases j) auto
  qed blast
  moreover have "e \<in> set (concat (map (sg_pair_edges a) rs)) \<longleftrightarrow>
      (\<exists>j < length rs. e \<in> set (sg_pair_edges a (rs ! j)))"
    by simp (metis in_set_conv_nth)
  ultimately show ?case by (simp add: Cons.IH del: set_concat)
qed simp

lemma ids_sg_buildNodes:
  "last_tag \<notin> tb_tag ` set bs \<or> last_tag \<in> X \<Longrightarrow>
   gn_id ` set (sg_buildNodes last_tag bs) \<union> X = tb_tag ` set bs \<union> tb_asset ` set bs \<union> X"
proof (induction last_tag bs arbitrary: X rule: sg_buildNodes.induct)
  case (2 last_tag b bs)
  have "gn_id ` set (sg_buildNodes (tb_tag b) bs) \<union> insert (tb_tag b) (insert (tb_asset b) X) =
      tb_tag ` set bs \<union> tb_asset ` set bs \<union> insert (tb_tag b) (insert (tb_asset b) X)"
    by (rule "2.IH") simp
  moreover have "gn_id ` set (sg_buildNodes last_tag (b # bs)) \<union> X =
      gn_id ` set (sg_buildNodes (tb_tag b) bs) \<union> insert (tb_tag b) (insert (tb_asset b) X)"
    using "2.prems" by (cases "tb_tag b = last_tag") (simp_all add: insert_absorb insert_commute)
  ultimately show ?case by (simp add: insert_commute)
qed simp

lemma sg_buildNodes_types: "n \<in> set (sg_buildNodes l bs) \<Longrightarrow> gn_type n \<noteq> READER"
  by (induction l bs rule: sg_buildNodes.induct) (auto split: if_splits)

lemma sg_node_ids [simp]: "gn_id (sg_reader_node r) = ri_id r" "gn_id (sg_zone_node z) = zi_id z"
  "gn_type (sg_reader_node r) = READER" "gn_type (sg_zone_node z) = ZONE"
  by (simp_all add: sg_reader_node_def sg_zone_node_def)

lemma ids_sg_build:
  "gn_id ` set (sgr_nodes (sg_build readers bindings estimates zones observations now)) =
     ri_id ` {r \<in> set readers. ri_online r} \<union> gn_id ` set (sg_buildNodes '''' bindings) \<union> zi_id ` set zones"
  by (simp add: sg_build_def sg_removeDanglingReferences_def sg_discover_def image_Un image_image Un_assoc)

lemma sg_pair_edges_iff:
  "e \<in> set (sg_pair_edges a b) \<longleftrightarrow> ri_online b \<and> sg_dist a b \<le> ri_coverage_radius a + ri_coverage_radius b \<and>
     e = \<lparr>ge_from = ri_id a, ge_to = ri_id b, ge_type = READER_READER, ge_source = READER_TOPOLOGY,
          ge_weight = 1 / (1 + sg_dist a b)\<rparr>"
  by (auto simp: sg_pair_edges_def)

lemma set_sg_resolve_one:
  "e \<in> set (sg_resolve_one zones t) \<longleftrightarrow> (\<exists>z. find (sg_inside t) zones = Some z \<and>
     e = \<lparr>ge_from = tes_tag t, ge_to = zi_id z, ge_type = ASSET_ZONE, ge_source = SPATIAL_TOPOLOGY, ge_weight = 1\<rparr>)"
  by (cases "find (sg_inside t) zones") (simp_all add: sg_resolve_one_def)

lemma set_sg_resolve:
  "e \<in> set (sg_resolve estimates zones) \<longleftrightarrow> (\<exists>t \<in> set estimates. \<exists>z. find (sg_inside t) zones = Some z \<and>
     e = \<lparr>ge_from = tes_tag t, ge_to = zi_id z, ge_type = ASSET_ZONE, ge_source = SPATIAL_TOPOLOGY, ge_weight = 1\<rparr>)"
  by (simp add: sg_resolve_def set_sg_resolve_one)


definition sample_readers :: "ReaderInfo list" where
  "sample_readers =
     [\<lparr>ri_id = ''R1'', ri_x = 0, ri_y = 0, ri_coverage_radius = 10, ri_antenna_count = 1, ri_online = True, ri_name = ''a''\<rparr>,
      \<lparr>ri_id = ''R2'', ri_x = 3, ri_y = 4, ri_coverage_radius = 10, ri_antenna_count = 1, ri_online = True, ri_name = ''b''\<rparr>]"


text \<open>An asset has as many nodes as it has bindings.\<close>

lemma sg_asset_nodes:
  "length (filter (\<lambda>n. gn_type n = ASSET \<and> gn_id n = a) (sg_buildNodes l bs)) = length (filter (\<lambda>b. tb_asset b = a) bs)"
  by (induction l bs rule: sg_buildNodes.induct) auto

subsection \<open>Removing a reader\<close>

definition ge_touches :: "string \<Rightarrow> SpatialGraphEdge \<Rightarrow> bool" where
  "ge_touches r e \<longleftrightarrow> ge_from e = r \<or> ge_to e = r"

lemma sg_pair_touches:
  "filter (\<lambda>e. \<not> ge_touches r e) (sg_pair_edges a b) = (if ri_id a = r \<or> ri_id b = r then [] else sg_pair_edges a b)"
  by (auto simp: sg_pair_edges_def ge_touches_def)

lemma sg_pairs_touches:
  "filter (\<lambda>e. \<not> ge_touches r e) (concat (map (sg_pair_edges a) rs)) =
     (if ri_id a = r then [] else concat (map (sg_pair_edges a) (filter (\<lambda>x. ri_id x \<noteq> r) rs)))"
  by (induction rs) (auto simp: sg_pair_touches)

lemma sg_discoverEdges_without:
  "filter (\<lambda>e. \<not> ge_touches r e) (sg_discoverEdges rs) = sg_discoverEdges (filter (\<lambda>x. ri_id x \<noteq> r) rs)"
  by (induction rs) (auto simp: sg_pairs_touches)

text \<open>C27: Removing a reader from a graph gives the graph that is built without the reader, as long as no
  tag, asset or zone has the reader's id.\<close>

theorem sg_remove_is_rebuild:
  assumes "r \<notin> tb_tag ` set bindings \<union> tb_asset ` set bindings \<union> zi_id ` set zones" "r \<noteq> ''''"
  shows "sg_removeOfflineReader r (sg_build readers bindings estimates zones observations now) =
    sg_build (filter (\<lambda>x. ri_id x \<noteq> r) readers) bindings estimates zones observations now"
proof -
  let ?rs = "filter (\<lambda>x. ri_id x \<noteq> r) readers"
  let ?N = "sgr_nodes (sg_build readers bindings estimates zones observations now)"
  let ?N' = "sgr_nodes (sg_build ?rs bindings estimates zones observations now)"
  let ?rest = "sg_sync bindings @ sg_resolve estimates zones @ map sg_observation_edge observations"
  have "filter (\<lambda>n. \<not> (gn_id n = r \<and> gn_type n = READER)) (sg_buildNodes '''' bindings) = sg_buildNodes '''' bindings"
    using sg_buildNodes_types by (intro filter_True) blast
  then have nodes: "filter (\<lambda>n. \<not> (gn_id n = r \<and> gn_type n = READER)) ?N = ?N'"
    by (simp add: sg_build_def sg_removeDanglingReferences_def sg_discover_def filter_map o_def)
      (simp add: conj_commute)
  have "gn_id ` set (sg_buildNodes '''' bindings) \<subseteq> tb_tag ` set bindings \<union> tb_asset ` set bindings \<union> {''''}"
    using ids_sg_buildNodes [of "''''" bindings "{''''}"] by blast
  then have new: "r \<notin> gn_id ` set (sg_buildNodes '''' bindings)" using assms by blast
  have ids: "gn_id ` set ?N' = gn_id ` set ?N - {r}"
    using new assms(1) by (auto simp: ids_sg_build)
  have "filter (\<lambda>e. \<not> ge_touches r e) (filter (\<lambda>e. ge_from e \<in> gn_id ` set ?N \<and> ge_to e \<in> gn_id ` set ?N)
      (sg_discoverEdges readers @ ?rest)) =
    filter (\<lambda>e. ge_from e \<in> gn_id ` set ?N' \<and> ge_to e \<in> gn_id ` set ?N')
      (filter (\<lambda>e. \<not> ge_touches r e) (sg_discoverEdges readers) @ ?rest)"
    unfolding ids by (auto simp: ge_touches_def conj_ac intro!: filter_cong arg_cong2 [where f = "(@)"])
  then have edges: "filter (\<lambda>e. \<not> ge_touches r e) (sgr_edges (sg_build readers bindings estimates zones observations now)) =
      sgr_edges (sg_build ?rs bindings estimates zones observations now)"
    unfolding sg_discoverEdges_without by (simp add: sg_build_def sg_removeDanglingReferences_def)
  show ?thesis
    using nodes edges unfolding sg_removeOfflineReader_def ge_touches_def
    by (simp add: sg_build_def sg_removeDanglingReferences_def)
qed

lemma sg_remove_is_rebuild_witness:
  "sg_removeOfflineReader ''R1'' (sg_build sample_readers [\<lparr>tb_tag = ''T'', tb_asset = ''A''\<rparr>] [] []
      [\<lparr>ro_reader = ''R1'', ro_tag = ''T'', ro_rssi = -50\<rparr>] 5) =
   sg_build [sample_readers ! 1] [\<lparr>tb_tag = ''T'', tb_asset = ''A''\<rparr>] [] []
      [\<lparr>ro_reader = ''R1'', ro_tag = ''T'', ro_rssi = -50\<rparr>] 5"
  using sg_remove_is_rebuild [of "''R1''" "[\<lparr>tb_tag = ''T'', tb_asset = ''A''\<rparr>]" "[]" sample_readers "[]"
      "[\<lparr>ro_reader = ''R1'', ro_tag = ''T'', ro_rssi = -50\<rparr>]" 5]
  by (simp add: sample_readers_def)

subsection \<open>Projecting a graph\<close>

lemma sg_map_result_all2:
  "(\<And>x. x \<in> set xs \<Longrightarrow> \<exists>y. f x = Inr y \<and> P x y) \<Longrightarrow> \<exists>ys. sg_map_result f xs = Inr ys \<and> list_all2 P xs ys"
proof (induction xs)
  case (Cons x xs)
  obtain y where "f x = Inr y" "P x y" using Cons.prems by auto
  moreover obtain ys where "sg_map_result f xs = Inr ys" "list_all2 P xs ys" using Cons by auto
  ultimately show ?case by simp
qed simp

text \<open>A reader as the projection shows it: its place and radius to half a millionth.\<close>

definition sg_shows :: "ReaderInfo \<Rightarrow> TopologyNode \<Rightarrow> bool" where
  "sg_shows r n \<longleftrightarrow> tn_reader n = ri_id r \<and> tn_name n = ri_name r \<and> tn_online n \<and> tn_load n = 0 \<and>
     \<bar>tn_x n - ri_x r\<bar> \<le> 1 / 2000000 \<and> \<bar>tn_y n - ri_y r\<bar> \<le> 1 / 2000000 \<and>
     \<bar>tn_coverage_radius n - ri_coverage_radius r\<bar> \<le> 1 / 2000000"

definition ri_finite :: "ReaderInfo \<Rightarrow> bool" where
  "ri_finite r \<longleftrightarrow> \<bar>ri_x r\<bar> \<le> 2 ^ 1000 \<and> \<bar>ri_y r\<bar> \<le> 2 ^ 1000 \<and> \<bar>ri_coverage_radius r\<bar> \<le> 2 ^ 1000"

lemma sg_reader_attributes:
  "map_of (gn_attributes (sg_reader_node r)) ''x'' = Some (fixed6 (ri_x r))"
  "map_of (gn_attributes (sg_reader_node r)) ''y'' = Some (fixed6 (ri_y r))"
  "map_of (gn_attributes (sg_reader_node r)) ''coverage_radius'' = Some (fixed6 (ri_coverage_radius r))"
  "map_of (gn_attributes (sg_reader_node r)) ''name'' = Some (ri_name r)"
  by (simp_all add: sg_reader_node_def del: om_put.simps)

lemma sg_topology_node_shows:
  assumes "ri_finite r"
  shows "\<exists>n. sg_topology_node (sg_reader_node r) = Inr n \<and> sg_shows r n"
proof -
  obtain x y c where "std_stod (fixed6 (ri_x r)) = Inr x" "\<bar>x - ri_x r\<bar> \<le> 1 / 2000000"
    "std_stod (fixed6 (ri_y r)) = Inr y" "\<bar>y - ri_y r\<bar> \<le> 1 / 2000000"
    "std_stod (fixed6 (ri_coverage_radius r)) = Inr c" "\<bar>c - ri_coverage_radius r\<bar> \<le> 1 / 2000000"
    using assms stod_fixed6_close unfolding ri_finite_def by metis
  then show ?thesis
    by (simp add: sg_topology_node_def sg_attribute_def sg_reader_attributes sg_shows_def)
qed

lemma sg_edge_kinds:
  "filter (\<lambda>e. ge_type e = READER_READER) (sg_sync bs) = []"
  "filter (\<lambda>e. ge_type e = READER_READER) (sg_resolve es zs) = []"
  "filter (\<lambda>e. ge_type e = READER_READER) (map sg_observation_edge os) = []"
  "filter (\<lambda>e. ge_type e = READER_READER) (sg_discoverEdges rs) = sg_discoverEdges rs"
  by (auto simp: filter_empty_conv sg_sync_def set_sg_resolve sg_observation_edge_def set_sg_discoverEdges
      sg_pair_edges_iff intro!: filter_True)

lemma sg_discoverEdges_ends:
  "e \<in> set (sg_discoverEdges rs) \<Longrightarrow>
   ge_from e \<in> ri_id ` {r \<in> set rs. ri_online r} \<and> ge_to e \<in> ri_id ` {r \<in> set rs. ri_online r}"
  by (fastforce simp: set_sg_discoverEdges sg_pair_edges_iff)

text \<open>C28: Projecting a built graph gives back the readers: the online ones in order, each at its place up to
  the six decimals of the attributes, and exactly the overlaps between them, whatever else the graph holds.\<close>

theorem sg_project_build:
  assumes "list_all ri_finite (filter ri_online readers)"
  shows "\<exists>t. sg_toTopologyGraph (sg_build readers bindings estimates zones observations now) = Inr t \<and>
    list_all2 sg_shows (filter ri_online readers) (tp_nodes t) \<and>
    tp_edges t = map (\<lambda>e. \<lparr>tg_from = ge_from e, tg_to = ge_to e, tg_strength = ge_weight e\<rparr>) (sg_discoverEdges readers)"
proof -
  let ?g = "sg_build readers bindings estimates zones observations now"
  let ?ends = "\<lambda>e. ge_from e \<in> gn_id ` set (sgr_nodes ?g) \<and> ge_to e \<in> gn_id ` set (sgr_nodes ?g)"
  have "filter (\<lambda>n. gn_type n = READER) (sg_buildNodes '''' bindings) = []"
    using sg_buildNodes_types by (auto simp: filter_empty_conv)
  then have nodes: "filter (\<lambda>n. gn_type n = READER) (sgr_nodes ?g) = map sg_reader_node (filter ri_online readers)"
    by (simp add: sg_build_def sg_removeDanglingReferences_def sg_discover_def filter_map o_def)
  obtain ns where ns: "sg_map_result sg_topology_node (map sg_reader_node (filter ri_online readers)) = Inr ns"
      "list_all2 sg_shows (filter ri_online readers) ns"
  proof -
    have "\<exists>ns. sg_map_result (sg_topology_node \<circ> sg_reader_node) (filter ri_online readers) = Inr ns \<and>
        list_all2 sg_shows (filter ri_online readers) ns"
      using assms sg_topology_node_shows by (intro sg_map_result_all2) (auto simp: list_all_iff)
    moreover have "sg_map_result f (map g xs) = sg_map_result (f \<circ> g) xs" for f :: "SpatialGraphNode \<Rightarrow> fault + TopologyNode"
      and g :: "ReaderInfo \<Rightarrow> SpatialGraphNode" and xs by (induction xs) (simp_all cong: sum.case_cong)
    ultimately show ?thesis using that by auto
  qed
  have "sgr_edges ?g = filter ?ends
      (sg_discoverEdges readers @ sg_sync bindings @ sg_resolve estimates zones @ map sg_observation_edge observations)"
    by (simp add: sg_build_def sg_removeDanglingReferences_def)
  then have "filter (\<lambda>e. ge_type e = READER_READER) (sgr_edges ?g) = filter ?ends (filter (\<lambda>e. ge_type e = READER_READER)
      (sg_discoverEdges readers @ sg_sync bindings @ sg_resolve estimates zones @ map sg_observation_edge observations))"
    by (simp only: filter_filter conj_ac)
  also have "\<dots> = filter ?ends (sg_discoverEdges readers)"
    unfolding filter_append sg_edge_kinds by simp
  also have "\<dots> = sg_discoverEdges readers"
    using sg_discoverEdges_ends unfolding ids_sg_build by (intro filter_True) blast
  finally show ?thesis using nodes ns by (simp add: sg_toTopologyGraph_def)
qed

lemma sg_project_build_witness:
  "\<exists>t. sg_toTopologyGraph (sg_build sample_readers [] [] [] [] 5) = Inr t \<and> length (tp_nodes t) = 2"
proof -
  have "list_all ri_finite (filter ri_online sample_readers)" by (simp add: sample_readers_def ri_finite_def)
  from sg_project_build [OF this, of "[]" "[]" "[]" "[]" 5] obtain t where
    t: "sg_toTopologyGraph (sg_build sample_readers [] [] [] [] 5) = Inr t"
      "list_all2 sg_shows (filter ri_online sample_readers) (tp_nodes t)" by blast
  from list_all2_lengthD [OF t(2)] t(1) show ?thesis by (simp add: sample_readers_def)
qed

end
