(* ===== verification/Factory_Map.thy ===== *)
theory Factory_Map
  imports Spatial_Graph Spatial_Estimate Coordinate_Systems Spatial_Random
begin

text \<open>
  The factory map (\<open>spatial_truth/factory_map\<close>): the heat map of the radio environment, the trails of the
  tags, the flows through the zones, the status of the nodes, and the generator that joins them with the
  spatial graph, cuts out a zone or a viewport. The clock's readings are arguments. A grid's resolution is not
  0 here: the code would convert an infinity to an integer, which C++ leaves undefined.
\<close>

section \<open>Data\<close>

record Heatmap =
  hm_grid :: "real list list"
  hm_resolution :: real

record AoAVector =
  av_reader :: string
  av_origin_x :: real
  av_origin_y :: real
  av_direction_x :: real
  av_direction_y :: real

record Trail =
  tl_tag :: string
  tl_points :: "Point3D list"
  tl_timestamps :: "u64 list"

record Flow =
  fw_zone :: string
  fw_in :: int
  fw_out :: int
  fw_timestamp :: u64

datatype NodeStatus = NORMAL | UNCERTAIN | RISK

record FactoryMap =
  fm_graph :: SpatialGraph
  fm_heatmap :: Heatmap
  fm_aoa_vectors :: "AoAVector list"
  fm_trails :: "Trail list"
  fm_flows :: "Flow list"
  fm_node_status :: "(string \<times> NodeStatus) list"
  fm_update_timestamp :: u64

record RFEnvironmentData =
  rf_x :: real
  rf_y :: real
  rf_rssi :: real
  rf_interference :: real

record AoAObservation =
  ao_reader :: string
  ao_x :: real
  ao_y :: real
  ao_angle :: real

section \<open>Heat map and directions\<close>

definition grid_add :: "nat \<Rightarrow> nat \<Rightarrow> 'a \<Rightarrow> ('a :: plus) list list \<Rightarrow> 'a list list" where
  "grid_add r c v g = g[r := (g ! r)[c := g ! r ! c + v]]"

definition hm_add ::
  "real \<Rightarrow> real \<Rightarrow> real \<Rightarrow> int \<Rightarrow> int \<Rightarrow> RFEnvironmentData \<Rightarrow> real list list \<times> int list list \<Rightarrow> real list list \<times> int list list" where
  "hm_add resolution min_x min_y rows cols d gc =
     (let col = trunc_int ((rf_x d - min_x) / resolution);
          row = trunc_int ((rf_y d - min_y) / resolution)
      in if col \<ge> 0 \<and> col < cols \<and> row \<ge> 0 \<and> row < rows then
           (grid_add (nat row) (nat col) (rf_rssi d) (fst gc), grid_add (nat row) (nat col) 1 (snd gc))
         else gc)"

definition hm_build :: "RFEnvironmentData list \<Rightarrow> real \<Rightarrow> real \<Rightarrow> real \<Rightarrow> real \<Rightarrow> real \<Rightarrow> Heatmap" where
  "hm_build rf_data resolution min_x max_x min_y max_y =
     (if rf_data = [] then \<lparr>hm_grid = [], hm_resolution = resolution\<rparr>
      else let cols = trunc_int ((max_x - min_x) / resolution) + 1;
               rows = trunc_int ((max_y - min_y) / resolution) + 1
           in if cols \<le> 0 \<or> rows \<le> 0 then \<lparr>hm_grid = [], hm_resolution = resolution\<rparr>
              else case fold (hm_add resolution min_x min_y rows cols) rf_data
                     (replicate (nat rows) (replicate (nat cols) 0), replicate (nat rows) (replicate (nat cols) 0)) of
                (grid, counts) \<Rightarrow>
                  \<lparr>hm_grid = map2 (map2 (\<lambda>g n. if n > 0 then g / of_int n else g)) grid counts,
                   hm_resolution = resolution\<rparr>)"

definition aoa_build :: "AoAObservation list \<Rightarrow> AoAVector list" where
  "aoa_build obs = map (\<lambda>ob. \<lparr>av_reader = ao_reader ob, av_origin_x = ao_x ob, av_origin_y = ao_y ob,
     av_direction_x = cos (ao_angle ob), av_direction_y = sin (ao_angle ob)\<rparr>) obs"

section \<open>Trails and flows\<close>

definition saturating_minus :: "u64 \<Rightarrow> u64 \<Rightarrow> u64" where
  "saturating_minus t w = (if t > w then t - w else 0)"

record TrailCollector =
  tc_trails :: "(string \<times> Trail) list"
  tc_time_window_ms :: u64

definition tc_new :: TrailCollector where
  "tc_new = \<lparr>tc_trails = [], tc_time_window_ms = 60000\<rparr>"

definition tc_setTimeWindowMs :: "u64 \<Rightarrow> TrailCollector \<Rightarrow> TrailCollector" where
  "tc_setTimeWindowMs window c = c\<lparr>tc_time_window_ms := window\<rparr>"

fun tc_trim :: "u64 \<Rightarrow> Point3D list \<Rightarrow> u64 list \<Rightarrow> Point3D list \<times> u64 list" where
  "tc_trim cutoff (p # ps) (t # ts) = (if t < cutoff then tc_trim cutoff ps ts else (p # ps, t # ts))"
| "tc_trim cutoff ps ts = (ps, ts)"

definition tc_addPoint :: "string \<Rightarrow> Point3D \<Rightarrow> u64 \<Rightarrow> TrailCollector \<Rightarrow> TrailCollector" where
  "tc_addPoint tag p t c =
     (let old = (case map_of (tc_trails c) tag of None \<Rightarrow> \<lparr>tl_tag = '''', tl_points = [], tl_timestamps = []\<rparr> | Some tr \<Rightarrow> tr)
      in case tc_trim (saturating_minus t (tc_time_window_ms c)) (tl_points old @ [p]) (tl_timestamps old @ [t]) of
           (ps, ts) \<Rightarrow>
             c\<lparr>tc_trails := om_put tag \<lparr>tl_tag = tag, tl_points = ps, tl_timestamps = ts\<rparr> (tc_trails c)\<rparr>)"

definition tc_window :: "u64 \<Rightarrow> Trail \<Rightarrow> Trail option" where
  "tc_window window tr =
     (if tl_timestamps tr = [] then None
      else let cutoff = saturating_minus (last (tl_timestamps tr)) window;
               kept = filter (\<lambda>(p, t). t \<ge> cutoff) (zip (tl_points tr) (tl_timestamps tr))
           in if kept = [] then None
              else Some \<lparr>tl_tag = tl_tag tr, tl_points = map fst kept, tl_timestamps = map snd kept\<rparr>)"

definition tc_getTrails :: "u64 \<Rightarrow> TrailCollector \<Rightarrow> Trail list" where
  "tc_getTrails window c = List.map_filter (\<lambda>(tag, tr). tc_window window tr) (tc_trails c)"

datatype CrossDirection = CROSS_IN | CROSS_OUT

definition fl_recordCrossing :: "string \<Rightarrow> string \<Rightarrow> CrossDirection \<Rightarrow> u64 \<Rightarrow> Flow list \<Rightarrow> Flow list" where
  "fl_recordCrossing tag zone dir t flows =
     flows @ [\<lparr>fw_zone = zone, fw_in = (if dir = CROSS_IN then 1 else 0),
               fw_out = (if dir = CROSS_IN then 0 else 1), fw_timestamp = t\<rparr>]"

definition fl_aggregate :: "Flow \<Rightarrow> (string \<times> Flow) list \<Rightarrow> (string \<times> Flow) list" where
  "fl_aggregate f m =
     (let agg = (case map_of m (fw_zone f) of
                   None \<Rightarrow> \<lparr>fw_zone = '''', fw_in = 0, fw_out = 0, fw_timestamp = 0\<rparr> | Some a \<Rightarrow> a)
      in om_put (fw_zone f) \<lparr>fw_zone = fw_zone f, fw_in = fw_in agg + fw_in f, fw_out = fw_out agg + fw_out f,
           fw_timestamp = max (fw_timestamp agg) (fw_timestamp f)\<rparr> m)"

definition fl_getFlows :: "u64 \<Rightarrow> Flow list \<Rightarrow> Flow list" where
  "fl_getFlows window flows =
     (let now = fold (\<lambda>f n. if fw_timestamp f > n then fw_timestamp f else n) flows 0;
          cutoff = saturating_minus now window
      in map snd (fold (\<lambda>f m. if fw_timestamp f < cutoff then m else fl_aggregate f m) flows []))"

section \<open>Status, generator and partition\<close>

definition ns_encode :: "SpatialEstimate \<Rightarrow> NodeStatus" where
  "ns_encode e = (if se_trusted e then NORMAL else if se_confidence e > 0 then UNCERTAIN else RISK)"

definition ns_encodeAll :: "(string \<times> SpatialEstimate) list \<Rightarrow> (string \<times> NodeStatus) list" where
  "ns_encodeAll estimates = fold (\<lambda>(k, e). om_put k (ns_encode e)) estimates []"

record FactoryMapInput =
  fi_readers :: "ReaderInfo list"
  fi_bindings :: "TagAssetBinding list"
  fi_tag_estimates :: "TagEstimate list"
  fi_zones :: "ZoneInfo list"
  fi_rf_observations :: "RFObservation list"
  fi_rf_env_data :: "RFEnvironmentData list"
  fi_aoa_observations :: "AoAObservation list"
  fi_estimates :: "(string \<times> SpatialEstimate) list"
  fi_min_x :: real
  fi_max_x :: real
  fi_min_y :: real
  fi_max_y :: real
  fi_heatmap_resolution :: real

definition fm_generate :: "FactoryMapInput \<Rightarrow> u64 \<Rightarrow> u64 \<Rightarrow> FactoryMap" where
  "fm_generate i t1 t2 =
     \<lparr>fm_graph = sg_build (fi_readers i) (fi_bindings i) (fi_tag_estimates i) (fi_zones i) (fi_rf_observations i) t1,
      fm_heatmap = hm_build (fi_rf_env_data i) (fi_heatmap_resolution i) (fi_min_x i) (fi_max_x i) (fi_min_y i) (fi_max_y i),
      fm_aoa_vectors = aoa_build (fi_aoa_observations i), fm_trails = [], fm_flows = [],
      fm_node_status = ns_encodeAll (fi_estimates i), fm_update_timestamp = t2\<rparr>"

definition fm_blank :: FactoryMap where
  "fm_blank = \<lparr>fm_graph = \<lparr>sgr_nodes = [], sgr_edges = [], sgr_timestamp = 0\<rparr>,
     fm_heatmap = \<lparr>hm_grid = [], hm_resolution = 1\<rparr>, fm_aoa_vectors = [], fm_trails = [], fm_flows = [],
     fm_node_status = [], fm_update_timestamp = 0\<rparr>"

definition fm_zone_part :: "FactoryMap \<Rightarrow> SpatialGraphNode \<Rightarrow> FactoryMap" where
  "fm_zone_part m n = fm_blank\<lparr>fm_graph := \<lparr>sgr_nodes = [n], sgr_edges = [], sgr_timestamp = sgr_timestamp (fm_graph m)\<rparr>,
     fm_update_timestamp := fm_update_timestamp m\<rparr>"

definition fm_partitionByZone :: "FactoryMap \<Rightarrow> (string \<times> FactoryMap) list" where
  "fm_partitionByZone m =
     fold (\<lambda>n r. if gn_type n \<noteq> ZONE then r else om_put (gn_id n) (fm_zone_part m n) r) (sgr_nodes (fm_graph m)) []"

definition fm_generateByZone :: "FactoryMapInput \<Rightarrow> string \<Rightarrow> u64 \<Rightarrow> u64 \<Rightarrow> FactoryMap" where
  "fm_generateByZone i zone t1 t2 =
     (let full = fm_generate i t1 t2
      in case map_of (fm_partitionByZone full) zone of Some part \<Rightarrow> part | None \<Rightarrow> full)"

definition fm_in_view :: "real \<Rightarrow> real \<Rightarrow> real \<Rightarrow> real \<Rightarrow> SpatialGraphNode \<Rightarrow> fault + bool" where
  "fm_in_view min_x max_x min_y max_y n =
     (case (map_of (gn_attributes n) ''x'', map_of (gn_attributes n) ''y'') of
        (Some sx, Some sy) \<Rightarrow>
          (case std_stod sx of Inl e \<Rightarrow> Inl e | Inr x \<Rightarrow>
           case std_stod sy of Inl e \<Rightarrow> Inl e | Inr y \<Rightarrow> Inr (x \<ge> min_x \<and> x \<le> max_x \<and> y \<ge> min_y \<and> y \<le> max_y))
      | _ \<Rightarrow> Inr True)"

fun fm_view_nodes :: "(SpatialGraphNode \<Rightarrow> fault + bool) \<Rightarrow> SpatialGraphNode list \<Rightarrow> fault + SpatialGraphNode list" where
  "fm_view_nodes P [] = Inr []"
| "fm_view_nodes P (n # ns) =
     (case P n of Inl e \<Rightarrow> Inl e | Inr b \<Rightarrow>
      case fm_view_nodes P ns of Inl e \<Rightarrow> Inl e | Inr r \<Rightarrow> Inr (if b then n # r else r))"

definition fm_getViewport :: "FactoryMap \<Rightarrow> real \<Rightarrow> real \<Rightarrow> real \<Rightarrow> real \<Rightarrow> fault + FactoryMap" where
  "fm_getViewport m min_x max_x min_y max_y =
     (case fm_view_nodes (fm_in_view min_x max_x min_y max_y) (sgr_nodes (fm_graph m)) of
        Inl e \<Rightarrow> Inl e
      | Inr ns \<Rightarrow> Inr (fm_blank\<lparr>fm_graph := \<lparr>sgr_nodes = ns, sgr_edges = [], sgr_timestamp = sgr_timestamp (fm_graph m)\<rparr>,
          fm_update_timestamp := fm_update_timestamp m\<rparr>))"

section \<open>The heat map\<close>

definition grid_shape :: "nat \<Rightarrow> nat \<Rightarrow> 'a list list \<Rightarrow> bool" where
  "grid_shape R C g \<longleftrightarrow> length g = R \<and> (\<forall>r < R. length (g ! r) = C)"

lemma grid_add_shape [simp]: "grid_shape R C g \<Longrightarrow> grid_shape R C (grid_add r c v g)"
  by (cases "r < length g") (auto simp: grid_shape_def grid_add_def nth_list_update)

lemma grid_add_nth:
  "grid_shape R C g \<Longrightarrow> r < R \<Longrightarrow> c < C \<Longrightarrow> r' < R \<Longrightarrow> c' < C \<Longrightarrow>
   grid_add r' c' v g ! r ! c = (if r = r' \<and> c = c' then g ! r ! c + v else g ! r ! c)"
  by (auto simp: grid_shape_def grid_add_def nth_list_update)

text \<open>The data of a cell, by the row and column the code computes.\<close>

definition hm_at :: "real \<Rightarrow> real \<Rightarrow> real \<Rightarrow> nat \<Rightarrow> nat \<Rightarrow> RFEnvironmentData \<Rightarrow> bool" where
  "hm_at res min_x min_y r c d \<longleftrightarrow>
     trunc_int ((rf_x d - min_x) / res) = int c \<and> trunc_int ((rf_y d - min_y) / res) = int r"

lemma hm_add_fold:
  assumes "grid_shape R C g" "grid_shape R C n"
    and "fold (hm_add res min_x min_y (int R) (int C)) data (g, n) = (g', n')"
  shows "grid_shape R C g' \<and> grid_shape R C n' \<and>
    (\<forall>r < R. \<forall>c < C. g' ! r ! c = g ! r ! c + sum_list (map rf_rssi (filter (hm_at res min_x min_y r c) data)) \<and>
       n' ! r ! c = n ! r ! c + int (length (filter (hm_at res min_x min_y r c) data)))"
  using assms
proof (induction data arbitrary: g n)
  case Nil
  then show ?case by simp
next
  case (Cons d data)
  let ?col = "trunc_int ((rf_x d - min_x) / res)" and ?row = "trunc_int ((rf_y d - min_y) / res)"
  show ?case
  proof (cases "?col \<ge> 0 \<and> ?col < int C \<and> ?row \<ge> 0 \<and> ?row < int R")
    case True
    let ?g = "grid_add (nat ?row) (nat ?col) (rf_rssi d) g" and ?n = "grid_add (nat ?row) (nat ?col) 1 n"
    have "hm_add res min_x min_y (int R) (int C) d (g, n) = (?g, ?n)" using True by (simp add: hm_add_def Let_def)
    then have "fold (hm_add res min_x min_y (int R) (int C)) data (?g, ?n) = (g', n')" using Cons.prems(3) by simp
    from Cons.IH [OF _ _ this] Cons.prems(1,2)
    have ih: "grid_shape R C g' \<and> grid_shape R C n' \<and>
      (\<forall>r < R. \<forall>c < C. g' ! r ! c = ?g ! r ! c + sum_list (map rf_rssi (filter (hm_at res min_x min_y r c) data)) \<and>
       n' ! r ! c = ?n ! r ! c + int (length (filter (hm_at res min_x min_y r c) data)))" by simp
    have "hm_at res min_x min_y r c d \<longleftrightarrow> r = nat ?row \<and> c = nat ?col" for r c
      using True by (auto simp: hm_at_def)
    with ih True Cons.prems(1,2) show ?thesis by (auto simp: grid_add_nth)
  next
    case False
    then have "hm_add res min_x min_y (int R) (int C) d (g, n) = (g, n)" by (auto simp: hm_add_def Let_def)
    then have "fold (hm_add res min_x min_y (int R) (int C)) data (g, n) = (g', n')" using Cons.prems(3) by simp
    moreover have "\<not> hm_at res min_x min_y r c d" if "r < R" "c < C" for r c using False that by (auto simp: hm_at_def)
    ultimately show ?thesis using Cons.IH Cons.prems(1,2) by simp
  qed
qed

text \<open>The strip of a row or column: the cast drops the fraction, so the first one is two cells wide.\<close>

definition hm_in :: "real \<Rightarrow> real \<Rightarrow> nat \<Rightarrow> real \<Rightarrow> bool" where
  "hm_in res lo k v \<longleftrightarrow> (if k = 0 then lo - res < v else lo + real k * res \<le> v) \<and> v < lo + (real k + 1) * res"

lemma trunc_int_eq:
  "trunc_int q = int k \<longleftrightarrow> (if k = 0 then - 1 < q else real k \<le> q) \<and> q < real k + 1"
proof (cases "q < 0")
  case True
  then have "\<lceil>q\<rceil> \<le> 0" by (simp add: ceiling_le_zero)
  with True show ?thesis by (auto simp: trunc_int_def ceiling_eq_iff)
next
  case False
  then show ?thesis by (auto simp: trunc_int_def floor_eq_iff)
qed

lemma hm_at_in:
  assumes "res > 0"
  shows "hm_at res min_x min_y r c d \<longleftrightarrow> hm_in res min_x c (rf_x d) \<and> hm_in res min_y r (rf_y d)"
proof -
  have "trunc_int ((v - lo) / res) = int k \<longleftrightarrow> hm_in res lo k v" for v lo k
    using assms by (simp add: trunc_int_eq hm_in_def field_simps)
  then show ?thesis by (simp add: hm_at_def)
qed

text \<open>Every cell of the heat map holds the mean signal strength of the data in it, 0 without data; the
  first row and column also collect the data up to one resolution outside the map.\<close>

theorem hm_cells_exact:
  assumes "res > 0" "min_x \<le> max_x" "min_y \<le> max_y" "data \<noteq> []"
    and "grid = hm_grid (hm_build data res min_x max_x min_y max_y)"
    and "R = nat \<lfloor>(max_y - min_y) / res\<rfloor> + 1" "C = nat \<lfloor>(max_x - min_x) / res\<rfloor> + 1"
  shows "length grid = R \<and> (\<forall>r < R. length (grid ! r) = C \<and> (\<forall>c < C.
    let ds = filter (\<lambda>d. hm_in res min_x c (rf_x d) \<and> hm_in res min_y r (rf_y d)) data
    in grid ! r ! c = (if ds = [] then 0 else sum_list (map rf_rssi ds) / real (length ds))))"
proof -
  have t: "trunc_int ((max_x - min_x) / res) + 1 = int C" "trunc_int ((max_y - min_y) / res) + 1 = int R"
    using assms(1-3,6,7) by (simp_all add: trunc_int_def not_less)
  have pos: "R > 0" "C > 0" by (simp_all add: assms(6,7))
  let ?zg = "replicate R (replicate C 0) :: real list list" and ?zn = "replicate R (replicate C 0) :: int list list"
  obtain g n where f: "fold (hm_add res min_x min_y (int R) (int C)) data (?zg, ?zn) = (g, n)" by fastforce
  have "grid_shape R C ?zg" "grid_shape R C ?zn" by (simp_all add: grid_shape_def)
  from hm_add_fold [OF this f] have h: "grid_shape R C g" "grid_shape R C n"
    "\<And>r c. r < R \<Longrightarrow> c < C \<Longrightarrow> g ! r ! c = sum_list (map rf_rssi (filter (hm_at res min_x min_y r c) data)) \<and>
       n ! r ! c = int (length (filter (hm_at res min_x min_y r c) data))" by simp_all
  have grid: "grid = map2 (map2 (\<lambda>g n. if n > 0 then g / of_int n else g)) g n"
    using assms(4) pos f by (simp add: assms(5) hm_build_def t)
  have "filter (hm_at res min_x min_y r c) data = filter (\<lambda>d. hm_in res min_x c (rf_x d) \<and> hm_in res min_y r (rf_y d)) data" for r c
    by (simp add: hm_at_in [OF assms(1), abs_def])
  with h show ?thesis unfolding grid grid_shape_def by (auto simp: Let_def)
qed

lemma hm_cells_exact_witness:
  "hm_grid (hm_build [\<lparr>rf_x = 0, rf_y = 0, rf_rssi = -40, rf_interference = 0\<rparr>,
     \<lparr>rf_x = - 1 / 2, rf_y = 0, rf_rssi = -60, rf_interference = 0\<rparr>] 1 0 1 0 1) ! 0 ! 0 = -50"
proof -
  let ?d = "[\<lparr>rf_x = 0, rf_y = 0, rf_rssi = -40, rf_interference = 0\<rparr>,
     \<lparr>rf_x = - 1 / 2, rf_y = 0, rf_rssi = -60, rf_interference = 0\<rparr>]"
  from hm_cells_exact [of 1 0 1 0 1 ?d, OF _ _ _ _ refl refl refl] show ?thesis
    by (simp add: hm_in_def Let_def)
qed

section \<open>Trails and flows\<close>

text \<open>For times in order, dropping the old front is keeping what is recent.\<close>

lemma tc_trim_sorted:
  "sorted (map snd zs) \<Longrightarrow>
   tc_trim c (map fst zs) (map snd zs) = (map fst (filter (\<lambda>(p, t). t \<ge> c) zs), map snd (filter (\<lambda>(p, t). t \<ge> c) zs))"
proof (induction zs)
  case (Cons z zs)
  show ?case
  proof (cases "snd z < c")
    case True
    then show ?thesis using Cons by (cases z) auto
  next
    case False
    then have "\<forall>y \<in> set (z # zs). snd y \<ge> c" using Cons.prems by fastforce
    then have "filter (\<lambda>(p, t). t \<ge> c) (z # zs) = z # zs" by (intro filter_True) auto
    with False show ?thesis by (cases z) simp
  qed
qed simp

text \<open>A measured point of a tag.\<close>

type_synonym tag_point = "string \<times> Point3D \<times> u64"

definition tc_run :: "tag_point list \<Rightarrow> TrailCollector \<Rightarrow> TrailCollector" where
  "tc_run xs c = fold (\<lambda>(tag, p, t). tc_addPoint tag p t) xs c"

definition tag_points :: "string \<Rightarrow> tag_point list \<Rightarrow> (Point3D \<times> u64) list" where
  "tag_points tag xs = map snd (filter (\<lambda>x. fst x = tag) xs)"

definition recent_points :: "u64 \<Rightarrow> (Point3D \<times> u64) list \<Rightarrow> (Point3D \<times> u64) list" where
  "recent_points w zs = filter (\<lambda>(p, t). t \<ge> saturating_minus (snd (last zs)) w) zs"

definition trail_of :: "string \<Rightarrow> (Point3D \<times> u64) list \<Rightarrow> Trail" where
  "trail_of tag zs = \<lparr>tl_tag = tag, tl_points = map fst zs, tl_timestamps = map snd zs\<rparr>"

lemma saturating_minus_mono: "s \<le> t \<Longrightarrow> saturating_minus s w \<le> saturating_minus t w"
  by (auto simp: saturating_minus_def word_le_nat_alt word_less_nat_alt unat_sub)

lemma saturating_minus_le: "saturating_minus t w \<le> t"
  by (auto simp: saturating_minus_def word_le_nat_alt word_less_nat_alt unat_sub)

text \<open>One more point keeps what is recent for the newest time.\<close>

lemma recent_points_snoc:
  assumes "sorted (map snd (zs @ [z]))"
  shows "filter (\<lambda>(p, t). t \<ge> saturating_minus (snd z) w) (recent_points w zs @ [z]) = recent_points w (zs @ [z])"
proof (cases "zs = []")
  case True
  then show ?thesis by (simp add: recent_points_def)
next
  case False
  then have "snd (last zs) \<le> snd z" using assms by (simp add: sorted_append)
  then have "saturating_minus (snd (last zs)) w \<le> saturating_minus (snd z) w" by (rule saturating_minus_mono)
  then show ?thesis by (auto simp: recent_points_def intro!: filter_cong)
qed

lemma tc_run_exact:
  assumes "\<And>tag. sorted (map snd (tag_points tag xs))" "c = tc_new\<lparr>tc_time_window_ms := w\<rparr>"
  shows "tc_time_window_ms (tc_run xs c) = w \<and> om_ok (tc_trails (tc_run xs c)) \<and>
    (\<forall>tag. map_of (tc_trails (tc_run xs c)) tag =
      (if tag_points tag xs = [] then None else Some (trail_of tag (recent_points w (tag_points tag xs)))))"
  using assms(1)
proof (induction xs rule: rev_induct)
  case Nil
  then show ?case by (simp add: assms(2) tc_run_def tc_new_def tag_points_def)
next
  case (snoc x xs)
  obtain tag p t where x: "x = (tag, p, t)" by (metis prod_cases3)
  have pts: "tag_points k (xs @ [x]) = tag_points k xs @ (if k = tag then [(p, t)] else [])" for k
    by (simp add: tag_points_def x)
  have srt: "sorted (map snd (tag_points k xs))" "sorted (map snd (tag_points tag xs @ [(p, t)]))" for k
    using snoc.prems [of k] snoc.prems [of tag] by (simp_all add: pts sorted_append)
  have ih: "tc_time_window_ms (tc_run xs c) = w" "om_ok (tc_trails (tc_run xs c))"
    "\<And>tag. map_of (tc_trails (tc_run xs c)) tag =
      (if tag_points tag xs = [] then None else Some (trail_of tag (recent_points w (tag_points tag xs))))"
    using snoc.IH srt(1) by blast+
  let ?old = "case map_of (tc_trails (tc_run xs c)) tag of None \<Rightarrow> \<lparr>tl_tag = '''', tl_points = [], tl_timestamps = []\<rparr> | Some tr \<Rightarrow> tr"
  let ?zs = "recent_points w (tag_points tag xs) @ [(p, t)]"
  have old: "tl_points ?old @ [p] = map fst ?zs" "tl_timestamps ?old @ [t] = map snd ?zs"
    by (simp_all add: ih(3) trail_of_def recent_points_def)
  have "sorted (map snd ?zs)"
    using srt(2) by (auto simp: sorted_append recent_points_def intro: sorted_filter)
  note trim = tc_trim_sorted [OF this, of "saturating_minus t w"]
  have "filter (\<lambda>(p, y). y \<ge> saturating_minus t w) ?zs = recent_points w (tag_points tag xs @ [(p, t)])"
    using recent_points_snoc [OF srt(2), of w] by (simp only: snd_conv)
  then have "tc_trim (saturating_minus t w) (map fst ?zs) (map snd ?zs) =
      (map fst (recent_points w (tag_points tag xs @ [(p, t)])), map snd (recent_points w (tag_points tag xs @ [(p, t)])))"
    using trim by (simp only:)
  then have "tc_run (xs @ [x]) c = (tc_run xs c)\<lparr>tc_trails := om_put tag
      (trail_of tag (recent_points w (tag_points tag xs @ [(p, t)]))) (tc_trails (tc_run xs c))\<rparr>"
    by (simp add: tc_run_def x tc_addPoint_def Let_def old [unfolded tc_run_def] ih(1) [unfolded tc_run_def] trail_of_def)
  then show ?case using ih by (auto simp: pts)
qed

lemma recent_points_nonempty: "zs \<noteq> [] \<Longrightarrow> recent_points w zs \<noteq> [] \<and> last (recent_points w zs) = last zs"
proof (cases zs rule: rev_cases)
  case (snoc ys y)
  then show ?thesis using saturating_minus_le [of "snd y" w] by (cases y) (auto simp: recent_points_def)
qed simp

lemma saturating_minus_min:
  "saturating_minus l v \<le> t \<and> saturating_minus l w \<le> t \<longleftrightarrow> saturating_minus l (min v w) \<le> t"
  by (auto simp: saturating_minus_def min_def word_le_nat_alt word_less_nat_alt unat_sub)

lemma recent_points_twice: "recent_points v (recent_points w zs) = recent_points (min v w) zs"
proof (cases "zs = []")
  case False
  have "filter (\<lambda>(p, t). saturating_minus l v \<le> t) (filter (\<lambda>(p, t). saturating_minus l w \<le> t) zs) =
      filter (\<lambda>(p, t). saturating_minus l (min v w) \<le> t) zs" for l
    by (auto simp: saturating_minus_min [symmetric] intro!: filter_cong)
  moreover have "last (recent_points w zs) = last zs" using recent_points_nonempty [OF False] by blast
  ultimately show ?thesis by (simp add: recent_points_def)
qed (simp add: recent_points_def)

lemma tc_window_trail_of:
  assumes "zs \<noteq> []"
  shows "tc_window v (trail_of tag zs) = Some (trail_of tag (recent_points v zs))"
  using recent_points_nonempty [OF assms, of v] assms
  by (simp add: tc_window_def trail_of_def recent_points_def Let_def zip_map_fst_snd last_map)

text \<open>When the times of every tag come in order, the collector gives, in the order of the tags, for each
  tag exactly the points within the smaller of the two windows of its newest one.\<close>

theorem tc_trails_exact:
  assumes "\<And>tag. sorted (map snd (tag_points tag xs))" "c = tc_run xs (tc_setTimeWindowMs w tc_new)"
  shows "tc_getTrails v c =
    map (\<lambda>tag. trail_of tag (recent_points (min v w) (tag_points tag xs))) (sorted_list_of_set (fst ` set xs))"
proof -
  let ?f = "\<lambda>tag. trail_of tag (recent_points w (tag_points tag xs))"
  note run = tc_run_exact [OF assms(1) refl, of w, folded tc_setTimeWindowMs_def, folded assms(2)]
  have k: "tag_points tag xs = [] \<longleftrightarrow> tag \<notin> fst ` set xs" for tag
    by (auto simp: tag_points_def filter_empty_conv)
  have "tc_trails c = map (\<lambda>tag. (tag, ?f tag)) (sorted_list_of_set (fst ` set xs))"
    using run by (intro om_by_lookup) (auto simp: k)
  moreover have "tc_window v (?f tag) = Some (trail_of tag (recent_points (min v w) (tag_points tag xs)))"
    if "tag \<in> fst ` set xs" for tag
    using that recent_points_nonempty [of "tag_points tag xs" w] by (simp add: k tc_window_trail_of recent_points_twice)
  ultimately show ?thesis
    by (simp add: tc_getTrails_def List.map_filter_def o_def cong: map_cong)
qed

definition sample_points :: "tag_point list" where
  "sample_points = [(''t'', \<lparr>pt_x = 0, pt_y = 0, pt_z = 0\<rparr>, 10), (''t'', \<lparr>pt_x = 1, pt_y = 0, pt_z = 0\<rparr>, 200)]"

lemma tc_trails_exact_witness:
  "map tl_timestamps (tc_getTrails 1000 (tc_run sample_points (tc_setTimeWindowMs 50 tc_new))) = [[200]]"
proof -
  have p: "tag_points tag sample_points = (if tag = ''t'' then map snd sample_points else [])" for tag
    by (simp add: tag_points_def sample_points_def)
  have "sorted (map snd (tag_points tag sample_points))" for tag
    by (simp add: p) (simp add: sample_points_def)
  from tc_trails_exact [OF this refl, of 1000 50] show ?thesis
    by (simp add: p) (simp add: sample_points_def trail_of_def recent_points_def saturating_minus_def)
qed

text \<open>A crossing: tag, zone, direction, time.\<close>

type_synonym crossing = "string \<times> string \<times> CrossDirection \<times> u64"

definition fl_run :: "crossing list \<Rightarrow> Flow list" where
  "fl_run xs = fold (\<lambda>(tag, zone, dir, t). fl_recordCrossing tag zone dir t) xs []"

definition cr_time :: "crossing \<Rightarrow> u64" where
  "cr_time x = snd (snd (snd x))"

definition cr_zone :: "crossing \<Rightarrow> string" where
  "cr_zone x = fst (snd x)"

definition cr_dir :: "crossing \<Rightarrow> CrossDirection" where
  "cr_dir x = fst (snd (snd x))"

definition cr_flow :: "crossing \<Rightarrow> Flow" where
  "cr_flow x = \<lparr>fw_zone = cr_zone x, fw_in = (if cr_dir x = CROSS_IN then 1 else 0),
     fw_out = (if cr_dir x = CROSS_IN then 0 else 1), fw_timestamp = cr_time x\<rparr>"

lemma fl_run_eq: "fl_run xs = map cr_flow xs"
proof -
  have "fold (\<lambda>(tag, zone, dir, t). fl_recordCrossing tag zone dir t) xs fs = fs @ map cr_flow xs" for fs
    by (induction xs arbitrary: fs)
      (auto simp: fl_recordCrossing_def cr_flow_def cr_zone_def cr_dir_def cr_time_def)
  then show ?thesis by (simp add: fl_run_def)
qed

lemma fold_newest:
  "fold (\<lambda>f n. if fw_timestamp f > n then fw_timestamp f else n) fs a = Max (insert a (fw_timestamp ` set fs))"
proof -
  have "fold (\<lambda>f n. if fw_timestamp f > n then fw_timestamp f else n) fs a = fold (\<lambda>f. max (fw_timestamp f)) fs a"
    by (intro fold_cong refl ext) (auto simp: max_def)
  also have "\<dots> = fold max (map fw_timestamp fs) a" by (simp add: fold_map o_def)
  also have "\<dots> = Max (set (a # map fw_timestamp fs))" by (simp only: Max.set_eq_fold)
  finally show ?thesis by simp
qed

text \<open>The flow of a zone over a list of crossings.\<close>

definition cr_count :: "CrossDirection \<Rightarrow> string \<Rightarrow> crossing list \<Rightarrow> int" where
  "cr_count dir zone xs = int (length (filter (\<lambda>x. cr_dir x = dir \<and> cr_zone x = zone) xs))"

definition cr_summary :: "string \<Rightarrow> crossing list \<Rightarrow> Flow" where
  "cr_summary zone xs = \<lparr>fw_zone = zone, fw_in = cr_count CROSS_IN zone xs, fw_out = cr_count CROSS_OUT zone xs,
     fw_timestamp = fold max (map cr_time (filter (\<lambda>x. cr_zone x = zone) xs)) 0\<rparr>"

lemma fl_aggregate_fold:
  "om_ok (fold fl_aggregate (map cr_flow xs) []) \<and>
   (\<forall>z. map_of (fold fl_aggregate (map cr_flow xs) []) z = (if z \<in> cr_zone ` set xs then Some (cr_summary z xs) else None))"
proof (induction xs rule: rev_induct)
  case (snoc x xs)
  let ?m = "fold fl_aggregate (map cr_flow xs) []"
  have lookup: "map_of ?m z = (if z \<in> cr_zone ` set xs then Some (cr_summary z xs) else None)" for z
    using snoc.IH by blast
  have zero: "z \<notin> cr_zone ` set xs \<Longrightarrow> cr_summary z xs = \<lparr>fw_zone = z, fw_in = 0, fw_out = 0, fw_timestamp = 0\<rparr>" for z
  proof -
    assume "z \<notin> cr_zone ` set xs"
    then have e: "filter (\<lambda>x. cr_zone x = z) xs = []" and c: "filter (\<lambda>x. cr_dir x = d \<and> cr_zone x = z) xs = []" for d
      by (auto simp: filter_empty_conv)
    show ?thesis unfolding cr_summary_def cr_count_def e c by simp
  qed
  have agg: "fl_aggregate f ?m = om_put (fw_zone f) \<lparr>fw_zone = fw_zone f, fw_in = fw_in (cr_summary (fw_zone f) xs) + fw_in f,
      fw_out = fw_out (cr_summary (fw_zone f) xs) + fw_out f,
      fw_timestamp = max (fw_timestamp (cr_summary (fw_zone f) xs)) (fw_timestamp f)\<rparr> ?m" for f
    by (simp add: fl_aggregate_def lookup zero)
  have other: "z \<noteq> cr_zone x \<Longrightarrow> cr_summary z (xs @ [x]) = cr_summary z xs" for z
    by (simp add: cr_summary_def cr_count_def)
  have dir: "cr_dir x \<noteq> CROSS_IN \<Longrightarrow> cr_dir x = CROSS_OUT" by (cases "cr_dir x") simp_all
  have same: "cr_summary (cr_zone x) (xs @ [x]) = \<lparr>fw_zone = cr_zone x,
      fw_in = fw_in (cr_summary (cr_zone x) xs) + fw_in (cr_flow x),
      fw_out = fw_out (cr_summary (cr_zone x) xs) + fw_out (cr_flow x),
      fw_timestamp = max (fw_timestamp (cr_summary (cr_zone x) xs)) (cr_time x)\<rparr>"
    using dir by (auto simp: cr_summary_def cr_count_def cr_flow_def max.commute)
  have z: "fw_zone (cr_flow x) = cr_zone x" "fw_timestamp (cr_flow x) = cr_time x" by (simp_all add: cr_flow_def)
  show ?case using snoc.IH other by (auto simp: agg z same lookup)
qed simp

text \<open>The flows are exact: for every zone crossed within the window of the newest crossing, in the zones' order, how
  many tags went in and out in it and when the last one did.\<close>

theorem fl_flows_exact:
  assumes "recent = filter (\<lambda>x. cr_time x \<ge> saturating_minus (Max (insert 0 (cr_time ` set xs))) window) xs"
  shows "fl_getFlows window (fl_run xs) = map (\<lambda>zone. cr_summary zone recent) (sorted_list_of_set (cr_zone ` set recent))"
proof -
  let ?cut = "saturating_minus (Max (insert 0 (cr_time ` set xs))) window"
  have "fw_timestamp ` set (map cr_flow xs) = cr_time ` set xs" by (simp add: image_image cr_flow_def)
  then have now: "fold (\<lambda>f n. if fw_timestamp f > n then fw_timestamp f else n) (map cr_flow xs) 0 =
      Max (insert 0 (cr_time ` set xs))"
    unfolding fold_newest by simp
  have "fold (\<lambda>f m. if fw_timestamp f < ?cut then m else fl_aggregate f m) (map cr_flow xs) [] =
      fold fl_aggregate (filter (\<lambda>f. \<not> fw_timestamp f < ?cut) (map cr_flow xs)) []"
    unfolding fold_filter by (intro fold_cong refl ext) auto
  also have "filter (\<lambda>f. \<not> fw_timestamp f < ?cut) (map cr_flow xs) = map cr_flow recent"
    by (simp add: filter_map o_def cr_flow_def assms not_less)
  finally have f: "fold (\<lambda>f m. if fw_timestamp f < ?cut then m else fl_aggregate f m) (map cr_flow xs) [] =
      fold fl_aggregate (map cr_flow recent) []" .
  have "fold fl_aggregate (map cr_flow recent) [] =
      map (\<lambda>z. (z, cr_summary z recent)) (sorted_list_of_set (cr_zone ` set recent))"
    using fl_aggregate_fold [of recent] by (intro om_by_lookup) auto
  then show ?thesis by (simp add: fl_getFlows_def fl_run_eq now f o_def)
qed

lemma fl_flows_exact_witness:
  "fl_getFlows 10 (fl_run [(''a'', ''Z'', CROSS_IN, 5), (''a'', ''Z'', CROSS_IN, 100), (''a'', ''Z'', CROSS_OUT, 105)]) =
     [\<lparr>fw_zone = ''Z'', fw_in = 1, fw_out = 1, fw_timestamp = 105\<rparr>]"
proof -
  let ?xs = "[(''a'', ''Z'', CROSS_IN, 5), (''a'', ''Z'', CROSS_IN, 100), (''a'', ''Z'', CROSS_OUT, 105)] :: crossing list"
  have m: "Max (insert 0 (cr_time ` set ?xs)) = 105" by (simp add: cr_time_def)
  have r: "filter (\<lambda>x. cr_time x \<ge> saturating_minus 105 10) ?xs = tl ?xs" by (simp add: cr_time_def saturating_minus_def)
  from fl_flows_exact [OF refl, of 10 ?xs] show ?thesis
    unfolding m r by (simp add: cr_summary_def cr_count_def cr_time_def cr_dir_def cr_zone_def)
qed

section \<open>Zones and viewports\<close>

lemma fm_partition_fold:
  "map_of (fold (\<lambda>n r. if gn_type n \<noteq> ZONE then r else om_put (gn_id n) (f n) r) ns m) z =
    (case find (\<lambda>n. gn_type n = ZONE \<and> gn_id n = z) (rev ns) of None \<Rightarrow> map_of m z | Some n \<Rightarrow> Some (f n))"
  by (induction ns rule: rev_induct) auto

lemma find_map: "find P (map f xs) = map_option f (find (\<lambda>x. P (f x)) xs)"
  by (induction xs) auto

lemma sg_buildNodes_no_zone: "n \<in> set (sg_buildNodes l bs) \<Longrightarrow> gn_type n = TAG \<or> gn_type n = ASSET"
  by (induction l bs rule: sg_buildNodes.induct) (auto split: if_splits)

lemma sgr_nodes_build:
  "sgr_nodes (sg_build readers bindings estimates zones observations now) =
     map sg_reader_node (filter ri_online readers) @ sg_buildNodes '''' bindings @ map sg_zone_node zones"
  by (simp add: sg_build_def sg_removeDanglingReferences_def sg_discover_def)

lemma sgr_timestamp_build [simp]: "sgr_timestamp (sg_build readers bindings estimates zones observations now) = now"
  by (simp add: sg_build_def)

text \<open>The map of a zone is the zone's node alone: no heat map, edges, readers, tags or statuses. For an
  unknown zone it is the whole map. Of zones with the same id the last one counts.\<close>

theorem fm_zone_map_exact:
  "fm_generateByZone i zone t1 t2 =
     (case find (\<lambda>z. zi_id z = zone) (rev (fi_zones i)) of
        None \<Rightarrow> fm_generate i t1 t2
      | Some z \<Rightarrow> \<lparr>fm_graph = \<lparr>sgr_nodes = [sg_zone_node z], sgr_edges = [], sgr_timestamp = t1\<rparr>,
          fm_heatmap = \<lparr>hm_grid = [], hm_resolution = 1\<rparr>, fm_aoa_vectors = [], fm_trails = [], fm_flows = [],
          fm_node_status = [], fm_update_timestamp = t2\<rparr>)"
proof -
  let ?P = "\<lambda>n. gn_type n = ZONE \<and> gn_id n = zone"
  have "find ?P (rev (sg_buildNodes '''' bs)) = None" for bs
    using sg_buildNodes_no_zone by (fastforce simp: find_None_iff)
  moreover have "find ?P (rev (map sg_reader_node rs)) = None" for rs by (auto simp: find_None_iff)
  moreover have "find ?P (rev (map sg_zone_node zs)) = map_option sg_zone_node (find (\<lambda>z. zi_id z = zone) (rev zs))" for zs
    by (simp add: rev_map find_map)
  ultimately have "map_of (fm_partitionByZone (fm_generate i t1 t2)) zone =
      map_option (\<lambda>z. fm_zone_part (fm_generate i t1 t2) (sg_zone_node z)) (find (\<lambda>z. zi_id z = zone) (rev (fi_zones i)))"
    unfolding fm_partitionByZone_def fm_partition_fold
    by (simp add: fm_generate_def sgr_nodes_build find_app split: option.split)
  then show ?thesis
    by (simp add: fm_generateByZone_def Let_def fm_zone_part_def fm_blank_def fm_generate_def split: option.split)
qed

text \<open>The place of a reader as its attributes give it.\<close>

definition six_decimals :: "real \<Rightarrow> real" where
  "six_decimals x = sgn x * (real (micros x) / 1000000)"

definition ri_in_view :: "real \<Rightarrow> real \<Rightarrow> real \<Rightarrow> real \<Rightarrow> ReaderInfo \<Rightarrow> bool" where
  "ri_in_view min_x max_x min_y max_y r \<longleftrightarrow> min_x \<le> six_decimals (ri_x r) \<and> six_decimals (ri_x r) \<le> max_x \<and>
     min_y \<le> six_decimals (ri_y r) \<and> six_decimals (ri_y r) \<le> max_y"

lemma fm_view_nodes_append:
  "fm_view_nodes P (xs @ ys) = (case fm_view_nodes P xs of Inl e \<Rightarrow> Inl e | Inr u \<Rightarrow>
     case fm_view_nodes P ys of Inl e \<Rightarrow> Inl e | Inr v \<Rightarrow> Inr (u @ v))"
  by (induction xs) (auto split: sum.split)

lemma fm_view_nodes_filter:
  "(\<And>n. n \<in> set ns \<Longrightarrow> P n = Inr (Q n)) \<Longrightarrow> fm_view_nodes P ns = Inr (filter Q ns)"
  by (induction ns) auto

lemma fm_in_view_reader:
  assumes "ri_finite r"
  shows "fm_in_view x0 x1 y0 y1 (sg_reader_node r) = Inr (ri_in_view x0 x1 y0 y1 r)"
proof -
  have "std_stod (fixed6 (ri_x r)) = Inr (six_decimals (ri_x r))" "std_stod (fixed6 (ri_y r)) = Inr (six_decimals (ri_y r))"
    using assms by (simp_all add: ri_finite_def stod_fixed6 six_decimals_def)
  then show ?thesis by (simp add: fm_in_view_def sg_reader_attributes ri_in_view_def)
qed

lemma fm_in_view_zone: "fm_in_view x0 x1 y0 y1 (sg_zone_node z) = Inr True"
  by (simp add: fm_in_view_def sg_zone_node_def del: om_put.simps)

lemma fm_in_view_binding: "n \<in> set (sg_buildNodes l bs) \<Longrightarrow> fm_in_view x0 x1 y0 y1 n = Inr True"
  by (induction l bs rule: sg_buildNodes.induct) (auto simp: fm_in_view_def split: if_splits)

text \<open>A viewport of a generated map keeps exactly the online readers whose printed place lies in it, but
  every tag, asset and zone wherever it is; it drops all edges and the heat map.\<close>

theorem fm_viewport_exact:
  assumes "list_all ri_finite (filter ri_online (fi_readers i))"
  shows "\<exists>v. fm_getViewport (fm_generate i t1 t2) x0 x1 y0 y1 = Inr v \<and>
    sgr_nodes (fm_graph v) = map sg_reader_node (filter (\<lambda>r. ri_online r \<and> ri_in_view x0 x1 y0 y1 r) (fi_readers i)) @
      sg_buildNodes '''' (fi_bindings i) @ map sg_zone_node (fi_zones i) \<and>
    sgr_edges (fm_graph v) = [] \<and> hm_grid (fm_heatmap v) = []"
proof -
  let ?P = "fm_in_view x0 x1 y0 y1"
  let ?rs = "filter ri_online (fi_readers i)"
  have "fm_view_nodes ?P (map sg_reader_node rs) = Inr (map sg_reader_node (filter (ri_in_view x0 x1 y0 y1) rs))"
    if "list_all ri_finite rs" for rs
    using that by (induction rs) (simp_all add: fm_in_view_reader)
  then have r: "fm_view_nodes ?P (map sg_reader_node ?rs) = Inr (map sg_reader_node (filter (ri_in_view x0 x1 y0 y1) ?rs))"
    using assms by blast
  have b: "fm_view_nodes ?P (sg_buildNodes '''' (fi_bindings i)) = Inr (filter (\<lambda>_. True) (sg_buildNodes '''' (fi_bindings i)))"
    using fm_in_view_binding by (intro fm_view_nodes_filter)
  have z: "fm_view_nodes ?P (map sg_zone_node (fi_zones i)) = Inr (filter (\<lambda>_. True) (map sg_zone_node (fi_zones i)))"
    using fm_in_view_zone by (intro fm_view_nodes_filter) auto
  have g: "fm_graph (fm_generate i t1 t2) =
      sg_build (fi_readers i) (fi_bindings i) (fi_tag_estimates i) (fi_zones i) (fi_rf_observations i) t1"
    by (simp add: fm_generate_def)
  show ?thesis
    unfolding fm_getViewport_def g sgr_nodes_build fm_view_nodes_append r b z
    by (simp add: fm_blank_def)
qed

definition sample_map_input :: FactoryMapInput where
  "sample_map_input = \<lparr>fi_readers = sample_readers, fi_bindings = [\<lparr>tb_tag = ''T'', tb_asset = ''A''\<rparr>],
     fi_tag_estimates = [], fi_zones = [], fi_rf_observations = [], fi_rf_env_data = [], fi_aoa_observations = [],
     fi_estimates = [], fi_min_x = 0, fi_max_x = 100, fi_min_y = 0, fi_max_y = 100, fi_heatmap_resolution = 1\<rparr>"

lemma fm_viewport_exact_witness:
  "\<exists>v. fm_getViewport (fm_generate sample_map_input 1 2) 1 10 0 10 = Inr v \<and> map gn_id (sgr_nodes (fm_graph v)) = [''R2'', ''T'', ''A'']"
proof -
  have "list_all ri_finite (filter ri_online (fi_readers sample_map_input))"
    by (simp add: sample_map_input_def sample_readers_def ri_finite_def)
  from fm_viewport_exact [OF this, of 1 2 1 10 0 10] obtain v where
    v: "fm_getViewport (fm_generate sample_map_input 1 2) 1 10 0 10 = Inr v"
    "sgr_nodes (fm_graph v) = map sg_reader_node (filter (\<lambda>r. ri_online r \<and> ri_in_view 1 10 0 10 r) (fi_readers sample_map_input)) @
      sg_buildNodes '''' (fi_bindings sample_map_input) @ map sg_zone_node (fi_zones sample_map_input)" by blast
  have "micros 3 = 3000000" "micros 4 = 4000000" by (simp_all add: micros_def round_even_def)
  then have d: "six_decimals 0 = 0" "six_decimals 3 = 3" "six_decimals 4 = 4" by (simp_all add: six_decimals_def)
  have "filter (\<lambda>r. ri_online r \<and> ri_in_view 1 10 0 10 r) (fi_readers sample_map_input) = [sample_readers ! 1]"
    unfolding sample_map_input_def sample_readers_def ri_in_view_def by (simp add: d)
  then have "map gn_id (sgr_nodes (fm_graph v)) =
      map gn_id (map sg_reader_node [sample_readers ! 1] @ sg_buildNodes '''' [\<lparr>tb_tag = ''T'', tb_asset = ''A''\<rparr>])"
    unfolding v(2) by (simp add: sample_map_input_def)
  also have "\<dots> = [''R2'', ''T'', ''A'']" by (simp add: sample_readers_def)
  finally show ?thesis using v(1) by (intro exI [of _ v] conjI)
qed

end
