(* ===== verification/Decision_Engine.thy ===== *)
theory Decision_Engine
  imports Complex_Main Spatial_Random
begin

text \<open>
  The decisions on assets (\<open>analytics/predictor\<close>, \<open>analytics/scoring\<close>, \<open>analytics/decision/decision_engine\<close>,
  \<open>analytics/decision/action_generator\<close>): risks from an asset's history, its score, the decision taken on
  them and the report of actions. The literals of actions and reasons, which are Chinese, are the constructors
  of \<open>Phrase\<close>, a number or place printed in one is its argument. The layout of the report as text is not
  modelled.
\<close>

section \<open>Risks and scores\<close>

record RiskScore =
  missing_risk :: real
  inactivity_risk :: real
  abnormal_risk :: real
  total_risk :: real

definition pr_calculateRiskScore :: "real \<Rightarrow> real \<Rightarrow> int \<Rightarrow> int \<Rightarrow> RiskScore" where
  "pr_calculateRiskScore hoursSinceLastSeen dailyAvgScans abnormalEvents locationChanges =
     (let timeFactor = min 1 (hoursSinceLastSeen / 24);
          freqFactor = 1 / (dailyAvgScans + 1);
          missing = min 1 (timeFactor * (6 / 10) + freqFactor * (4 / 10));
          inactivity = (if dailyAvgScans < 1 / 10 then 1 else if dailyAvgScans < 5 / 10 then 5 / 10 else 1 / 10);
          abnormalFactor = min 1 (of_int abnormalEvents / 5);
          locationFactor = min 1 (of_int locationChanges / 10);
          abnormal = min 1 (abnormalFactor * (7 / 10) + locationFactor * (3 / 10))
      in \<lparr>missing_risk = missing, inactivity_risk = inactivity, abnormal_risk = abnormal,
          total_risk = min 1 (missing * (5 / 10) + inactivity * (2 / 10) + abnormal * (3 / 10))\<rparr>)"

definition pr_forecastUsage :: "real \<Rightarrow> real \<Rightarrow> real" where
  "pr_forecastUsage weeklyAvgScans dailyAvgScans = weeklyAvgScans * (7 / 10) + dailyAvgScans * (3 / 10)"

datatype PredictedStatus = AT_RISK_LOST | INACTIVE | ABNORMAL | OVERUSED | PS_NORMAL

record AssetPrediction =
  predicted_status :: PredictedStatus
  usage_forecast :: real
  risk_score_of :: RiskScore

definition pr_predictAssetStatus :: "real \<Rightarrow> real \<Rightarrow> real \<Rightarrow> int \<Rightarrow> int \<Rightarrow> AssetPrediction" where
  "pr_predictAssetStatus hoursSinceLastSeen dailyAvgScans weeklyAvgScans abnormalEvents locationChanges =
     (let r = pr_calculateRiskScore hoursSinceLastSeen dailyAvgScans abnormalEvents locationChanges;
          f = pr_forecastUsage weeklyAvgScans dailyAvgScans
      in \<lparr>predicted_status =
            (if missing_risk r > 8 / 10 then AT_RISK_LOST
             else if inactivity_risk r > 6 / 10 then INACTIVE
             else if abnormal_risk r > 7 / 10 then ABNORMAL
             else if f > weeklyAvgScans * (15 / 10) then OVERUSED
             else PS_NORMAL),
          usage_forecast = f, risk_score_of = r\<rparr>)"

datatype RiskLevel = LOW | MEDIUM | HIGH | CRITICAL_LEVEL

datatype RiskNote = N_lost | N_watch_place | N_idle | N_abnormal | N_repairs | N_good

record AssetScore =
  health_score :: real
  risk_score :: real
  risk_level :: RiskLevel
  risk_summary :: "RiskNote list"

definition sco_determineRiskLevel :: "real \<Rightarrow> RiskLevel" where
  "sco_determineRiskLevel h = (if h < 60 then CRITICAL_LEVEL else if h < 80 then HIGH else if h < 90 then MEDIUM else LOW)"

definition sco_generateRiskSummary :: "real \<Rightarrow> real \<Rightarrow> real \<Rightarrow> int \<Rightarrow> RiskNote list" where
  "sco_generateRiskSummary missing inactivity abnormal repairCount =
     (let risks = (if missing > 7 / 10 then [N_lost] else if missing > 4 / 10 then [N_watch_place] else []) @
            (if inactivity > 6 / 10 then [N_idle] else []) @ (if abnormal > 5 / 10 then [N_abnormal] else []) @
            (if repairCount > 3 then [N_repairs] else [])
      in if risks = [] then [N_good] else risks)"

definition sco_calculateAssetScore :: "real \<Rightarrow> real \<Rightarrow> real \<Rightarrow> real \<Rightarrow> int \<Rightarrow> AssetScore" where
  "sco_calculateAssetScore missing inactivity abnormal dailyAvgScans repairCount =
     (let base = 100 - missing * 40 - abnormal * 30 - inactivity * 20 - min 10 (of_int repairCount * 2);
          base1 = (if dailyAvgScans > 10 then base + 5 else base);
          h = max 0 (min 100 base1)
      in \<lparr>health_score = h, risk_score = min 1 (missing * (5 / 10) + abnormal * (3 / 10) + inactivity * (2 / 10)),
          risk_level = sco_determineRiskLevel h,
          risk_summary = sco_generateRiskSummary missing inactivity abnormal repairCount\<rparr>)"

fun sco_getRiskLevelString :: "RiskLevel \<Rightarrow> string" where
  "sco_getRiskLevelString LOW = ''LOW''"
| "sco_getRiskLevelString MEDIUM = ''MEDIUM''"
| "sco_getRiskLevelString HIGH = ''HIGH''"
| "sco_getRiskLevelString CRITICAL_LEVEL = ''CRITICAL''"

section \<open>The engine\<close>

datatype ActionType = INSPECT | CHECK_USAGE | SECURITY_ALERT | RELOCATE | MAINTENANCE | NOTIFICATION | NO_ACTION

fun de_getActionTypeString :: "ActionType \<Rightarrow> string" where
  "de_getActionTypeString INSPECT = ''INSPECT''"
| "de_getActionTypeString CHECK_USAGE = ''CHECK_USAGE''"
| "de_getActionTypeString SECURITY_ALERT = ''SECURITY_ALERT''"
| "de_getActionTypeString RELOCATE = ''RELOCATE''"
| "de_getActionTypeString MAINTENANCE = ''MAINTENANCE''"
| "de_getActionTypeString NOTIFICATION = ''NOTIFICATION''"
| "de_getActionTypeString NO_ACTION = ''NO_ACTION''"

datatype Phrase =
    Nothing_said
  | Do_nothing | Do_nothing_inactive | Do_nothing_backup | Inspect_now | Check_soon | Watch_status
  | Security_check | Check_use | Reassign | Evaluate_use | Move_out | Urgent_maintenance | Planned_maintenance
  | Low_frequency_device | Unseen_hours int | Unseen_long | Unseen_a_day | State_normal
  | Moved_often int | Moves_high | Behaviour_normal | Backup_idle_normal | Idle_long | Used_rarely | Use_normal
  | In_illegal_area string | Health_very_low int | Health_low int | Health_good
  | Unseen_hours_high_risk int | Scan_rate_abnormal | Security_anomaly | Moves_out_of_range | Idle_reassign
  | Health_very_low_urgent int | Health_falling | Needs_attention | Device_normal

record Decision =
  dn_asset_id :: int
  dn_asset_name :: string
  dn_action_type :: ActionType
  dn_action :: Phrase
  dn_reason :: Phrase
  dn_priority :: int
  dn_suggested_location :: string
  dn_is_shadow_mode :: bool

record DecisionEngine =
  missing_risk_threshold :: real
  abnormal_risk_threshold :: real
  inactive_risk_threshold :: real
  active_asset_threshold :: real

definition de_new :: DecisionEngine where
  "de_new = \<lparr>missing_risk_threshold = 8 / 10, abnormal_risk_threshold = 7 / 10,
     inactive_risk_threshold = 7 / 10, active_asset_threshold = 1\<rparr>"

definition de_setMissingRiskThreshold :: "real \<Rightarrow> DecisionEngine \<Rightarrow> DecisionEngine" where
  "de_setMissingRiskThreshold t e = e\<lparr>missing_risk_threshold := t\<rparr>"

definition de_setAbnormalRiskThreshold :: "real \<Rightarrow> DecisionEngine \<Rightarrow> DecisionEngine" where
  "de_setAbnormalRiskThreshold t e = e\<lparr>abnormal_risk_threshold := t\<rparr>"

definition de_setInactiveRiskThreshold :: "real \<Rightarrow> DecisionEngine \<Rightarrow> DecisionEngine" where
  "de_setInactiveRiskThreshold t e = e\<lparr>inactive_risk_threshold := t\<rparr>"

definition de_setActiveAssetThreshold :: "real \<Rightarrow> DecisionEngine \<Rightarrow> DecisionEngine" where
  "de_setActiveAssetThreshold t e = e\<lparr>active_asset_threshold := t\<rparr>"

definition de_decision :: "int \<Rightarrow> string \<Rightarrow> string \<Rightarrow> ActionType \<Rightarrow> Phrase \<Rightarrow> Phrase \<Rightarrow> int \<Rightarrow> Decision" where
  "de_decision i name loc ty act reason prio = \<lparr>dn_asset_id = i, dn_asset_name = name, dn_action_type = ty,
     dn_action = act, dn_reason = reason, dn_priority = prio, dn_suggested_location = loc, dn_is_shadow_mode = False\<rparr>"

definition de_handleMissingRisk :: "DecisionEngine \<Rightarrow> int \<Rightarrow> string \<Rightarrow> string \<Rightarrow> real \<Rightarrow> int \<Rightarrow> real \<Rightarrow> Decision" where
  "de_handleMissingRisk e i name loc missingRisk missingHours dailyAvgScans =
     (if \<not> dailyAvgScans > active_asset_threshold e then de_decision i name loc NO_ACTION Do_nothing_inactive Low_frequency_device 5
      else if missingRisk > missing_risk_threshold e \<or> missingHours > 72 then
        de_decision i name loc INSPECT Inspect_now (Unseen_hours missingHours) 1
      else if missingRisk > 6 / 10 \<or> missingHours > 48 then de_decision i name loc INSPECT Check_soon Unseen_long 2
      else if missingRisk > 4 / 10 \<or> missingHours > 24 then de_decision i name loc NOTIFICATION Watch_status Unseen_a_day 3
      else de_decision i name loc NO_ACTION Do_nothing State_normal 5)"

definition de_handleAbnormalRisk :: "DecisionEngine \<Rightarrow> int \<Rightarrow> string \<Rightarrow> string \<Rightarrow> real \<Rightarrow> int \<Rightarrow> Decision" where
  "de_handleAbnormalRisk e i name loc abnormalRisk moveCount24h =
     (if abnormalRisk > abnormal_risk_threshold e \<or> moveCount24h > 20 then
        de_decision i name loc SECURITY_ALERT Security_check (Moved_often moveCount24h) 1
      else if abnormalRisk > 5 / 10 \<or> moveCount24h > 10 then de_decision i name loc CHECK_USAGE Check_use Moves_high 3
      else de_decision i name loc NO_ACTION Do_nothing Behaviour_normal 5)"

definition de_handleInactiveRisk :: "DecisionEngine \<Rightarrow> int \<Rightarrow> string \<Rightarrow> string \<Rightarrow> real \<Rightarrow> bool \<Rightarrow> Decision" where
  "de_handleInactiveRisk e i name loc inactivityRisk isBackup =
     (if isBackup then de_decision i name loc NO_ACTION Do_nothing_backup Backup_idle_normal 5
      else if inactivityRisk > inactive_risk_threshold e then de_decision i name loc RELOCATE Reassign Idle_long 4
      else if inactivityRisk > 6 / 10 then de_decision i name loc NOTIFICATION Evaluate_use Used_rarely 4
      else de_decision i name loc NO_ACTION Do_nothing Use_normal 5)"

definition de_handleIllegalLocation :: "int \<Rightarrow> string \<Rightarrow> string \<Rightarrow> Decision" where
  "de_handleIllegalLocation i name loc = de_decision i name '''' SECURITY_ALERT Move_out (In_illegal_area loc) 1"

text \<open>The score is printed as an integer, without its fraction.\<close>

definition de_handleLowHealth :: "int \<Rightarrow> string \<Rightarrow> string \<Rightarrow> real \<Rightarrow> Decision" where
  "de_handleLowHealth i name loc healthScore =
     (if healthScore < 60 then de_decision i name loc MAINTENANCE Urgent_maintenance (Health_very_low (trunc_int healthScore)) 2
      else if healthScore < 80 then de_decision i name loc MAINTENANCE Planned_maintenance (Health_low (trunc_int healthScore)) 3
      else de_decision i name loc NO_ACTION Do_nothing Health_good 5)"

definition de_possible ::
  "DecisionEngine \<Rightarrow> int \<Rightarrow> string \<Rightarrow> string \<Rightarrow> RiskScore \<Rightarrow> AssetScore \<Rightarrow> int \<Rightarrow> int \<Rightarrow> real \<Rightarrow> bool \<Rightarrow> Decision list" where
  "de_possible e i name loc r s moveCount24h missingHours dailyAvgScans isBackup =
     (if missing_risk r > 4 / 10 \<or> missingHours > 24
      then [de_handleMissingRisk e i name loc (missing_risk r) missingHours dailyAvgScans] else []) @
     (if abnormal_risk r > 5 / 10 \<or> moveCount24h > 10
      then [de_handleAbnormalRisk e i name loc (abnormal_risk r) moveCount24h] else []) @
     (if inactivity_risk r > 6 / 10 then [de_handleInactiveRisk e i name loc (inactivity_risk r) isBackup] else []) @
     (if health_score s < 80 then [de_handleLowHealth i name loc (health_score s)] else [])"

definition de_makeDecision ::
  "DecisionEngine \<Rightarrow> int \<Rightarrow> string \<Rightarrow> string \<Rightarrow> RiskScore \<Rightarrow> AssetScore \<Rightarrow> bool \<Rightarrow> int \<Rightarrow> int \<Rightarrow> real \<Rightarrow> bool \<Rightarrow> Decision" where
  "de_makeDecision e i name loc r s inIllegalLocation moveCount24h missingHours dailyAvgScans isBackup =
     (if inIllegalLocation then de_handleIllegalLocation i name loc
      else case std_sort (\<lambda>a b. dn_priority a < dn_priority b)
          (de_possible e i name loc r s moveCount24h missingHours dailyAvgScans isBackup) of
        [] \<Rightarrow> de_decision i name loc NO_ACTION Do_nothing State_normal 5
      | d # _ \<Rightarrow> d)"

record DecisionResult =
  high_priority :: "Decision list"
  medium_priority :: "Decision list"
  low_priority :: "Decision list"

definition de_analyzeAllAssets :: "Decision list \<Rightarrow> DecisionResult" where
  "de_analyzeAllAssets decisions =
     fold (\<lambda>d r. if dn_priority d \<le> 2 then r\<lparr>high_priority := high_priority r @ [d]\<rparr>
               else if dn_priority d \<le> 3 then r\<lparr>medium_priority := medium_priority r @ [d]\<rparr>
               else r\<lparr>low_priority := low_priority r @ [d]\<rparr>)
       decisions \<lparr>high_priority = [], medium_priority = [], low_priority = []\<rparr>"

section \<open>The actions\<close>

record ActionItem =
  act_action :: Phrase
  act_reason :: Phrase
  act_asset_name :: string
  act_priority :: int
  act_location :: string
  act_is_automatic :: bool

record ActionReport =
  urgent_actions :: "ActionItem list"
  normal_actions :: "ActionItem list"
  routine_actions :: "ActionItem list"
  total_assets_analyzed :: int

definition act_create :: "bool \<Rightarrow> Decision \<Rightarrow> ActionItem" where
  "act_create auto d = \<lparr>act_action = dn_action d, act_reason = dn_reason d, act_asset_name = dn_asset_name d,
     act_priority = dn_priority d, act_location = dn_suggested_location d, act_is_automatic = auto\<rparr>"

definition act_createUrgentAction :: "Decision \<Rightarrow> ActionItem" where "act_createUrgentAction = act_create False"

definition act_createNormalAction :: "Decision \<Rightarrow> ActionItem" where "act_createNormalAction = act_create False"

definition act_createRoutineAction :: "Decision \<Rightarrow> ActionItem" where "act_createRoutineAction = act_create True"

definition act_generateReport :: "DecisionResult \<Rightarrow> ActionReport" where
  "act_generateReport ds =
     (let wanted = filter (\<lambda>d. dn_action_type d \<noteq> NO_ACTION)
      in \<lparr>urgent_actions = std_sort (\<lambda>a b. act_priority a < act_priority b) (map act_createUrgentAction (wanted (high_priority ds))),
          normal_actions = map act_createNormalAction (wanted (medium_priority ds)),
          routine_actions = map act_createRoutineAction (wanted (low_priority ds)),
          total_assets_analyzed = int (length (high_priority ds) + length (medium_priority ds) + length (low_priority ds))\<rparr>)"

section \<open>What is decided\<close>

lemma std_sort_hd:
  fixes k :: "'a \<Rightarrow> 'b :: linorder"
  assumes "std_sort (\<lambda>a b. k a < k b) xs = y # ys"
  shows "y \<in> set xs \<and> (\<forall>x \<in> set xs. k y \<le> k x)"
proof -
  have "set xs = set (y # ys)" unfolding assms [symmetric] by simp
  with sorted_std_sort_key [of k xs] show ?thesis unfolding assms by auto
qed

lemma weighted_le_one:
  fixes a b :: real
  assumes "a \<le> 1" "b \<le> 1" "0 \<le> u" "0 \<le> v" "u + v = 1"
  shows "a * u + b * v \<le> 1"
  using mult_right_mono [OF assms(1,3)] mult_right_mono [OF assms(2,4)] assms(5) by simp

text \<open>The risks of real data are weighted means: no cap ever cuts one off. So they lie between 0 and 1, and
  the score's risk is the predictor's total risk.\<close>

theorem pr_risks_exact:
  assumes "0 \<le> hours" "0 \<le> daily" "0 \<le> events" "0 \<le> changes"
    and "r = pr_calculateRiskScore hours daily events changes"
  shows "missing_risk r = min 1 (hours / 24) * (6 / 10) + 1 / (daily + 1) * (4 / 10) \<and>
    abnormal_risk r = min 1 (of_int events / 5) * (7 / 10) + min 1 (of_int changes / 10) * (3 / 10) \<and>
    0 \<le> missing_risk r \<and> missing_risk r \<le> 1 \<and> 0 \<le> abnormal_risk r \<and> abnormal_risk r \<le> 1 \<and>
    0 \<le> total_risk r \<and> total_risk r \<le> 1 \<and>
    risk_score (sco_calculateAssetScore (missing_risk r) (inactivity_risk r) (abnormal_risk r) daily repairs) = total_risk r"
proof -
  let ?t = "min 1 (hours / 24)" and ?f = "1 / (daily + 1)"
  let ?a = "min 1 (of_int events / 5) :: real" and ?l = "min 1 (of_int changes / 10) :: real"
  have t: "0 \<le> ?t" "?t \<le> 1" "0 \<le> ?f" "?f \<le> 1" using assms(1,2) by simp_all
  have a: "0 \<le> ?a" "?a \<le> 1" "0 \<le> ?l" "?l \<le> 1" using assms(3,4) by simp_all
  have m: "missing_risk r = ?t * (6 / 10) + ?f * (4 / 10)"
  proof -
    have "missing_risk r = min 1 (?t * (6 / 10) + ?f * (4 / 10))"
      unfolding assms(5) pr_calculateRiskScore_def Let_def by (simp only: RiskScore.simps)
    moreover have "?t * (6 / 10) + ?f * (4 / 10) \<le> 1" using t by (intro weighted_le_one) simp_all
    ultimately show ?thesis by (simp only: min_absorb2)
  qed
  have b: "abnormal_risk r = ?a * (7 / 10) + ?l * (3 / 10)"
  proof -
    have "abnormal_risk r = min 1 (?a * (7 / 10) + ?l * (3 / 10))"
      unfolding assms(5) pr_calculateRiskScore_def Let_def by (simp only: RiskScore.simps)
    moreover have "?a * (7 / 10) + ?l * (3 / 10) \<le> 1" using a by (intro weighted_le_one) simp_all
    ultimately show ?thesis by (simp only: min_absorb2)
  qed
  have i: "0 \<le> inactivity_risk r" "inactivity_risk r \<le> 1"
    by (simp_all add: assms(5) pr_calculateRiskScore_def Let_def)
  have bounds: "0 \<le> missing_risk r" "missing_risk r \<le> 1" "0 \<le> abnormal_risk r" "abnormal_risk r \<le> 1"
    unfolding m b using t a
    by (intro weighted_le_one add_nonneg_nonneg mult_nonneg_nonneg; simp)+
  have tot: "total_risk r = min 1 (missing_risk r * (5 / 10) + inactivity_risk r * (2 / 10) + abnormal_risk r * (3 / 10))"
    by (simp add: assms(5) pr_calculateRiskScore_def Let_def)
  have "total_risk r = missing_risk r * (5 / 10) + inactivity_risk r * (2 / 10) + abnormal_risk r * (3 / 10)"
    unfolding tot using bounds i by linarith
  moreover have "risk_score (sco_calculateAssetScore (missing_risk r) (inactivity_risk r) (abnormal_risk r) daily repairs) =
      min 1 (missing_risk r * (5 / 10) + abnormal_risk r * (3 / 10) + inactivity_risk r * (2 / 10))"
    by (simp add: sco_calculateAssetScore_def Let_def)
  ultimately show ?thesis using m b bounds i by linarith
qed

lemma pr_risks_exact_witness: "missing_risk (pr_calculateRiskScore 12 1 0 0) = 1 / 2"
  using pr_risks_exact [of 12 1 0 0, OF _ _ _ _ refl, THEN conjunct1] by simp

text \<open>An asset that is predicted to be lost is one that was scanned less than once a day before; such an
  asset counts as inactive, so no decision on it is ever an inspection, however long it has been missing.\<close>

theorem de_lost_never_inspected:
  assumes "0 \<le> hours" "0 \<le> daily" "p = pr_predictAssetStatus hours daily weekly events changes"
    and "predicted_status p = AT_RISK_LOST"
  shows "daily < 1 \<and>
    dn_action_type (de_makeDecision de_new i name loc (risk_score_of p) s illegal moves missingHours daily backup) \<noteq> INSPECT"
proof -
  have "missing_risk (pr_calculateRiskScore hours daily events changes) > 8 / 10"
    using assms(4) by (simp add: assms(3) pr_predictAssetStatus_def Let_def split: if_splits)
  then have "min 1 (hours / 24) * (6 / 10) + 1 / (daily + 1) * (4 / 10) > 8 / 10"
    unfolding pr_calculateRiskScore_def Let_def RiskScore.simps by linarith
  moreover have "1 / 2 < b" if "8 / 10 < a * (6 / 10) + b * (4 / 10)" "a \<le> 1" for a b :: real
    using that by linarith
  ultimately have "1 / (daily + 1) > 1 / 2" by (metis min.cobounded1)
  then have d: "daily < 1" using assms(2) by (simp add: field_simps)
  have "dn_action_type x \<noteq> INSPECT"
    if "x \<in> set (de_possible de_new i name loc r s moves missingHours daily backup)" for x r
    using that d by (auto simp: de_possible_def de_handleMissingRisk_def de_handleAbnormalRisk_def
        de_handleInactiveRisk_def de_handleLowHealth_def de_decision_def de_new_def split: if_splits)
  then have "dn_action_type (de_makeDecision de_new i name loc (risk_score_of p) s illegal moves missingHours daily backup) \<noteq> INSPECT"
    by (auto simp: de_makeDecision_def de_handleIllegalLocation_def de_decision_def split: list.split dest: std_sort_hd)
  with d show ?thesis ..
qed

lemma de_lost_never_inspected_witness:
  "dn_action_type (de_makeDecision de_new 1 ''a'' ''b'' (risk_score_of (pr_predictAssetStatus 500 (1 / 4) 2 0 0))
     (sco_calculateAssetScore (9 / 10) (5 / 10) 0 (1 / 4) 0) False 0 500 (1 / 4) False) \<noteq> INSPECT"
proof -
  have "predicted_status (pr_predictAssetStatus 500 (1 / 4) 2 0 0) = AT_RISK_LOST"
    by (simp add: pr_predictAssetStatus_def pr_calculateRiskScore_def Let_def)
  from de_lost_never_inspected [OF _ _ refl this] show ?thesis by simp
qed

text \<open>Which levels the four checks reach, with the thresholds the engine starts with.\<close>

lemma de_possible_le:
  "(\<exists>x \<in> set (de_possible e i name loc r s moves hours daily backup). dn_priority x \<le> k) \<longleftrightarrow>
     ((missing_risk r > 4 / 10 \<or> hours > 24) \<and> dn_priority (de_handleMissingRisk e i name loc (missing_risk r) hours daily) \<le> k) \<or>
     ((abnormal_risk r > 5 / 10 \<or> moves > 10) \<and> dn_priority (de_handleAbnormalRisk e i name loc (abnormal_risk r) moves) \<le> k) \<or>
     (inactivity_risk r > 6 / 10 \<and> dn_priority (de_handleInactiveRisk e i name loc (inactivity_risk r) backup) \<le> k) \<or>
     (health_score s < 80 \<and> dn_priority (de_handleLowHealth i name loc (health_score s)) \<le> k)"
  unfolding de_possible_def set_append by (simp only: bex_Un) (simp split: if_split)

lemma de_missing_level:
  fixes m :: real and hours :: int
  shows "((m > 4 / 10 \<or> hours > 24) \<and> dn_priority (de_handleMissingRisk de_new i name loc m hours daily) \<le> 1) =
      (daily > 1 \<and> (m > 8 / 10 \<or> hours > 72))"
    "((m > 4 / 10 \<or> hours > 24) \<and> dn_priority (de_handleMissingRisk de_new i name loc m hours daily) \<le> 2) =
      (daily > 1 \<and> (m > 6 / 10 \<or> hours > 48))"
    "((m > 4 / 10 \<or> hours > 24) \<and> dn_priority (de_handleMissingRisk de_new i name loc m hours daily) \<le> 3) =
      (daily > 1 \<and> (m > 4 / 10 \<or> hours > 24))"
    "((m > 4 / 10 \<or> hours > 24) \<and> dn_priority (de_handleMissingRisk de_new i name loc m hours daily) \<le> 4) =
      (daily > 1 \<and> (m > 4 / 10 \<or> hours > 24))"
  by (auto simp: de_handleMissingRisk_def de_decision_def de_new_def)

lemma de_abnormal_level:
  fixes a :: real and moves :: int
  shows "((a > 5 / 10 \<or> moves > 10) \<and> dn_priority (de_handleAbnormalRisk de_new i name loc a moves) \<le> 1) = (a > 7 / 10 \<or> moves > 20)"
    "((a > 5 / 10 \<or> moves > 10) \<and> dn_priority (de_handleAbnormalRisk de_new i name loc a moves) \<le> 2) = (a > 7 / 10 \<or> moves > 20)"
    "((a > 5 / 10 \<or> moves > 10) \<and> dn_priority (de_handleAbnormalRisk de_new i name loc a moves) \<le> 3) = (a > 5 / 10 \<or> moves > 10)"
    "((a > 5 / 10 \<or> moves > 10) \<and> dn_priority (de_handleAbnormalRisk de_new i name loc a moves) \<le> 4) = (a > 5 / 10 \<or> moves > 10)"
  by (auto simp: de_handleAbnormalRisk_def de_decision_def de_new_def)

lemma de_other_levels:
  "(u > 6 / 10 \<and> dn_priority (de_handleInactiveRisk de_new i name loc u backup) \<le> 1) = False"
  "(u > 6 / 10 \<and> dn_priority (de_handleInactiveRisk de_new i name loc u backup) \<le> 2) = False"
  "(u > 6 / 10 \<and> dn_priority (de_handleInactiveRisk de_new i name loc u backup) \<le> 3) = False"
  "(u > 6 / 10 \<and> dn_priority (de_handleInactiveRisk de_new i name loc u backup) \<le> 4) = (u > 6 / 10 \<and> \<not> backup)"
  "(h < 80 \<and> dn_priority (de_handleLowHealth i name loc h) \<le> 1) = False"
  "(h < 80 \<and> dn_priority (de_handleLowHealth i name loc h) \<le> 2) = (h < 60)"
  "(h < 80 \<and> dn_priority (de_handleLowHealth i name loc h) \<le> 3) = (h < 80)"
  "(h < 80 \<and> dn_priority (de_handleLowHealth i name loc h) \<le> 4) = (h < 80)"
  by (auto simp: de_handleInactiveRisk_def de_handleLowHealth_def de_decision_def de_new_def)

lemmas de_levels = de_missing_level de_abnormal_level de_other_levels

lemma de_range:
  "1 \<le> dn_priority (de_handleMissingRisk e i name loc m hours daily)" "dn_priority (de_handleMissingRisk e i name loc m hours daily) \<le> 5"
  "1 \<le> dn_priority (de_handleAbnormalRisk e i name loc a moves)" "dn_priority (de_handleAbnormalRisk e i name loc a moves) \<le> 5"
  "1 \<le> dn_priority (de_handleInactiveRisk e i name loc u backup)" "dn_priority (de_handleInactiveRisk e i name loc u backup) \<le> 5"
  "1 \<le> dn_priority (de_handleLowHealth i name loc h)" "dn_priority (de_handleLowHealth i name loc h) \<le> 5"
  by (simp_all add: de_handleMissingRisk_def de_handleAbnormalRisk_def de_handleInactiveRisk_def
      de_handleLowHealth_def de_decision_def)

text \<open>C30: The decision is one of the most urgent that apply: its priority is exactly the level of the worst
  condition that holds.\<close>

theorem de_priority_exact:
  assumes "d = de_makeDecision de_new i name loc r s illegal moves missingHours daily backup"
  shows "dn_priority d =
    (if illegal \<or> (daily > 1 \<and> (missing_risk r > 8 / 10 \<or> missingHours > 72)) \<or> abnormal_risk r > 7 / 10 \<or> moves > 20 then 1
     else if (daily > 1 \<and> (missing_risk r > 6 / 10 \<or> missingHours > 48)) \<or> health_score s < 60 then 2
     else if (daily > 1 \<and> (missing_risk r > 4 / 10 \<or> missingHours > 24)) \<or> abnormal_risk r > 5 / 10 \<or> moves > 10 \<or>
       health_score s < 80 then 3
     else if inactivity_risk r > 6 / 10 \<and> \<not> backup then 4
     else 5)"
proof (cases illegal)
  case True
  then show ?thesis by (simp add: assms de_makeDecision_def de_handleIllegalLocation_def de_decision_def)
next
  case False
  let ?P = "de_possible de_new i name loc r s moves missingHours daily backup"
  show ?thesis
  proof (cases "std_sort (\<lambda>a b. dn_priority a < dn_priority b) ?P")
    case Nil
    then have "?P = []" by simp
    with False Nil show ?thesis
      by (auto simp: assms de_makeDecision_def de_decision_def de_possible_def std_sort_def split: if_splits)
  next
    case (Cons y ys)
    then have d: "d = y" using False by (simp add: assms de_makeDecision_def)
    from std_sort_hd [OF Cons] have m: "y \<in> set ?P" "\<And>x. x \<in> set ?P \<Longrightarrow> dn_priority y \<le> dn_priority x" by auto
    then have le: "dn_priority y \<le> k \<longleftrightarrow> (\<exists>x \<in> set ?P. dn_priority x \<le> k)" for k by (meson order_trans)
    have "dn_priority y \<le> 1 \<longleftrightarrow> (daily > 1 \<and> (missing_risk r > 8 / 10 \<or> missingHours > 72)) \<or> abnormal_risk r > 7 / 10 \<or> moves > 20"
      unfolding le de_possible_le de_levels by blast
    moreover have "dn_priority y \<le> 2 \<longleftrightarrow> (daily > 1 \<and> (missing_risk r > 6 / 10 \<or> missingHours > 48)) \<or>
        (abnormal_risk r > 7 / 10 \<or> moves > 20) \<or> health_score s < 60"
      unfolding le de_possible_le de_levels by blast
    moreover have "dn_priority y \<le> 3 \<longleftrightarrow> (daily > 1 \<and> (missing_risk r > 4 / 10 \<or> missingHours > 24)) \<or>
        (abnormal_risk r > 5 / 10 \<or> moves > 10) \<or> health_score s < 80"
      unfolding le de_possible_le de_levels by blast
    moreover have "dn_priority y \<le> 4 \<longleftrightarrow> (daily > 1 \<and> (missing_risk r > 4 / 10 \<or> missingHours > 24)) \<or>
        (abnormal_risk r > 5 / 10 \<or> moves > 10) \<or> (inactivity_risk r > 6 / 10 \<and> \<not> backup) \<or> health_score s < 80"
      unfolding le de_possible_le de_levels by blast
    moreover have "1 \<le> dn_priority y \<and> dn_priority y \<le> 5" using m(1)
      by (auto simp: de_possible_def de_range split: if_splits)
    ultimately show ?thesis using False unfolding d by (smt (verit))
  qed
qed

lemma de_priority_exact_witness:
  "dn_priority (de_makeDecision de_new 1 ''a'' ''b'' (pr_calculateRiskScore 80 2 0 0)
     (sco_calculateAssetScore (6 / 10) (1 / 10) 0 2 0) False 0 80 2 False) = 1"
  by (subst de_priority_exact [OF refl]) simp

lemma de_analyze_fold:
  "fold (\<lambda>d r. if dn_priority d \<le> 2 then r\<lparr>high_priority := high_priority r @ [d]\<rparr>
               else if dn_priority d \<le> 3 then r\<lparr>medium_priority := medium_priority r @ [d]\<rparr>
               else r\<lparr>low_priority := low_priority r @ [d]\<rparr>) ds \<lparr>high_priority = a, medium_priority = b, low_priority = c\<rparr> =
   \<lparr>high_priority = a @ filter (\<lambda>d. dn_priority d \<le> 2) ds, medium_priority = b @ filter (\<lambda>d. dn_priority d = 3) ds,
    low_priority = c @ filter (\<lambda>d. dn_priority d > 3) ds\<rparr>"
  by (induction ds arbitrary: a b c) auto

text \<open>A report holds every decision to act exactly once: the urgent ones sorted by priority, the others in
  their order; only those below priority 3 are automatic. It counts every decision.\<close>

theorem act_report_exact:
  "mset (urgent_actions (act_generateReport (de_analyzeAllAssets ds))) =
     mset (map (act_create False) (filter (\<lambda>d. dn_priority d \<le> 2 \<and> dn_action_type d \<noteq> NO_ACTION) ds)) \<and>
   sorted (map act_priority (urgent_actions (act_generateReport (de_analyzeAllAssets ds)))) \<and>
   normal_actions (act_generateReport (de_analyzeAllAssets ds)) =
     map (act_create False) (filter (\<lambda>d. dn_priority d = 3 \<and> dn_action_type d \<noteq> NO_ACTION) ds) \<and>
   routine_actions (act_generateReport (de_analyzeAllAssets ds)) =
     map (act_create True) (filter (\<lambda>d. dn_priority d > 3 \<and> dn_action_type d \<noteq> NO_ACTION) ds) \<and>
   total_assets_analyzed (act_generateReport (de_analyzeAllAssets ds)) = int (length ds)"
proof -
  have l: "length (filter (\<lambda>d. dn_priority d \<le> 2) ds) + length (filter (\<lambda>d. dn_priority d = 3) ds) +
      length (filter (\<lambda>d. dn_priority d > 3) ds) = length ds"
    by (induction ds) auto
  have s: "sorted (map act_priority (std_sort (\<lambda>a b. act_priority a < act_priority b) xs))" for xs
    using sorted_std_sort_key [of act_priority xs] by (simp add: sorted_map)
  show ?thesis
    using l s by (simp add: act_generateReport_def de_analyzeAllAssets_def de_analyze_fold Let_def
        act_createUrgentAction_def act_createNormalAction_def act_createRoutineAction_def conj_ac)
qed

end
