(* ===== verification/Decision_Stability.thy ===== *)
theory Decision_Stability
  imports Decision_Engine
begin

text \<open>
  The stability manager of the decisions (\<open>analytics/decision/decision_stability\<close>): a fresh decision with the
  same action as the asset's last recorded one is replaced by the recorded one while its cool-down lasts.
  Times are ticks of the clock, nanoseconds. The history is a \<open>std::map\<close> that is only read by key here. What
  goes to the database through the repository is a list of the rows written; the repository swallows the
  errors of SQL statements but not the failure to get a connection: its outcomes are arguments.
\<close>

datatype DecisionMode = SHADOW | SUGGESTION | AUTO

record DecisionRecord =
  dr_asset_id :: int
  dr_asset_name :: string
  dr_action_type :: ActionType
  dr_action :: Phrase
  dr_reason :: Phrase
  dr_priority :: int
  dr_suggested_location :: string
  dr_timestamp :: int
  dr_was_executed :: bool
  dr_was_ignored :: bool
  dr_executed_by :: string
  dr_mode :: DecisionMode

record CooldownConfig =
  inspect_cooldown_minutes :: int
  alert_cooldown_minutes :: int
  idle_cooldown_minutes :: int
  maintenance_cooldown_minutes :: int
  notification_cooldown_minutes :: int

definition cd_default :: CooldownConfig where
  "cd_default = \<lparr>inspect_cooldown_minutes = 30, alert_cooldown_minutes = 10, idle_cooldown_minutes = 60,
     maintenance_cooldown_minutes = 120, notification_cooldown_minutes = 60\<rparr>"

text \<open>A row for the table of decisions.\<close>

record DecisionRow =
  row_asset_id :: int
  row_asset_name :: string
  row_location :: string
  row_action :: Phrase
  row_reason :: Phrase
  row_risk_level :: string

text \<open>
  A snapshot of a decision, its thresholds a JSON object (in key order). The id of its row and the text of the
  rules, which the database gives, are left out.
\<close>

record DecisionSnapshot =
  sn_asset_id :: int
  sn_risk_missing :: real
  sn_risk_inactivity :: real
  sn_risk_abnormal :: real
  sn_score :: int
  sn_rule_version :: string
  sn_engine_version :: string
  sn_threshold_snapshot :: "(string \<times> real) list"

record DecisionStability =
  dm_mode :: DecisionMode
  dm_cooldown :: CooldownConfig
  dm_history :: "(int \<times> DecisionRecord list) list"
  dm_last_cleanup :: int
  dm_written :: "DecisionRow list"
  dm_snapshots :: "DecisionSnapshot list"

definition dm_new :: "int \<Rightarrow> DecisionStability" where
  "dm_new now = \<lparr>dm_mode = SHADOW, dm_cooldown = cd_default, dm_history = [], dm_last_cleanup = now, dm_written = [], dm_snapshots = []\<rparr>"

definition dm_setMode :: "DecisionMode \<Rightarrow> DecisionStability \<Rightarrow> DecisionStability" where
  "dm_setMode mode m = m\<lparr>dm_mode := mode\<rparr>"

definition dm_setCooldownConfig :: "CooldownConfig \<Rightarrow> DecisionStability \<Rightarrow> DecisionStability" where
  "dm_setCooldownConfig c m = m\<lparr>dm_cooldown := c\<rparr>"

definition dm_clearHistory :: "DecisionStability \<Rightarrow> DecisionStability" where
  "dm_clearHistory m = m\<lparr>dm_history := []\<rparr>"

definition TICKS_MINUTE :: int where "TICKS_MINUTE = 60000000000"

definition TICKS_HOUR :: int where "TICKS_HOUR = 3600000000000"

text \<open>\<open>std::chrono::duration_cast\<close> truncates towards zero.\<close>

definition duration_cast :: "int \<Rightarrow> int \<Rightarrow> int" where
  "duration_cast unit d = (if d < 0 then - ((- d) div unit) else d div unit)"

definition dm_records :: "int \<Rightarrow> DecisionStability \<Rightarrow> DecisionRecord list" where
  "dm_records i m = (case map_of (dm_history m) i of None \<Rightarrow> [] | Some rs \<Rightarrow> rs)"

fun dm_getCooldownMinutes :: "CooldownConfig \<Rightarrow> ActionType \<Rightarrow> int" where
  "dm_getCooldownMinutes c SECURITY_ALERT = alert_cooldown_minutes c"
| "dm_getCooldownMinutes c INSPECT = inspect_cooldown_minutes c"
| "dm_getCooldownMinutes c CHECK_USAGE = idle_cooldown_minutes c"
| "dm_getCooldownMinutes c RELOCATE = idle_cooldown_minutes c"
| "dm_getCooldownMinutes c MAINTENANCE = maintenance_cooldown_minutes c"
| "dm_getCooldownMinutes c NOTIFICATION = notification_cooldown_minutes c"
| "dm_getCooldownMinutes c NO_ACTION = 60"

text \<open>\<open>isInCooldown\<close> and \<open>isInCooldownInternal\<close>: the same test, with and without the lock.\<close>

definition dm_isInCooldown :: "int \<Rightarrow> ActionType \<Rightarrow> int \<Rightarrow> DecisionStability \<Rightarrow> bool" where
  "dm_isInCooldown i ty now m =
     (dm_records i m \<noteq> [] \<and> dr_action_type (last (dm_records i m)) = ty \<and>
      duration_cast TICKS_MINUTE (now - dr_timestamp (last (dm_records i m))) < dm_getCooldownMinutes (dm_cooldown m) ty)"

definition dm_cleanupOldRecords :: "int \<Rightarrow> DecisionStability \<Rightarrow> DecisionStability" where
  "dm_cleanupOldRecords now m =
     (if duration_cast TICKS_HOUR (now - dm_last_cleanup m) < 1 then m
      else m\<lparr>dm_history := map (\<lambda>(i, rs). (i, filter (\<lambda>r. \<not> dr_timestamp r < now - 24 * TICKS_HOUR) rs)) (dm_history m),
             dm_last_cleanup := now\<rparr>)"

fun dm_generateConsistentReason :: "ActionType \<Rightarrow> RiskScore \<Rightarrow> AssetScore \<Rightarrow> int \<Rightarrow> Phrase" where
  "dm_generateConsistentReason INSPECT r s missingHours =
     (if missing_risk r > 8 / 10 then Unseen_hours_high_risk missingHours
      else if missing_risk r > 6 / 10 then Unseen_long else Scan_rate_abnormal)"
| "dm_generateConsistentReason SECURITY_ALERT r s missingHours = Security_anomaly"
| "dm_generateConsistentReason CHECK_USAGE r s missingHours = Moves_out_of_range"
| "dm_generateConsistentReason RELOCATE r s missingHours = Idle_reassign"
| "dm_generateConsistentReason MAINTENANCE r s missingHours =
     (if health_score s < 60 then Health_very_low_urgent (trunc_int (health_score s)) else Health_falling)"
| "dm_generateConsistentReason NOTIFICATION r s missingHours = Needs_attention"
| "dm_generateConsistentReason NO_ACTION r s missingHours = Device_normal"

record DecisionInput =
  in_asset_id :: int
  in_asset_name :: string
  in_location :: string
  in_risk :: RiskScore
  in_score :: AssetScore
  in_illegal :: bool
  in_moves :: int
  in_missing_hours :: int
  in_daily :: real
  in_backup :: bool

definition dm_fresh :: "DecisionEngine \<Rightarrow> DecisionInput \<Rightarrow> Decision" where
  "dm_fresh e i = de_makeDecision e (in_asset_id i) (in_asset_name i) (in_location i) (in_risk i) (in_score i)
     (in_illegal i) (in_moves i) (in_missing_hours i) (in_daily i) (in_backup i)"

definition dm_cached :: "DecisionRecord \<Rightarrow> Decision" where
  "dm_cached r = \<lparr>dn_asset_id = dr_asset_id r, dn_asset_name = dr_asset_name r, dn_action_type = dr_action_type r,
     dn_action = dr_action r, dn_reason = dr_reason r, dn_priority = dr_priority r,
     dn_suggested_location = dr_suggested_location r, dn_is_shadow_mode = (dr_mode r = SHADOW)\<rparr>"

definition dm_record_of :: "DecisionInput \<Rightarrow> Decision \<Rightarrow> int \<Rightarrow> DecisionMode \<Rightarrow> DecisionRecord" where
  "dm_record_of i d now mode = \<lparr>dr_asset_id = in_asset_id i, dr_asset_name = in_asset_name i,
     dr_action_type = dn_action_type d, dr_action = dn_action d,
     dr_reason = dm_generateConsistentReason (dn_action_type d) (in_risk i) (in_score i) (in_missing_hours i),
     dr_priority = dn_priority d, dr_suggested_location = dn_suggested_location d, dr_timestamp = now,
     dr_was_executed = False, dr_was_ignored = False, dr_executed_by = '''', dr_mode = mode\<rparr>"

definition dm_row_of :: "DecisionInput \<Rightarrow> Decision \<Rightarrow> DecisionRow" where
  "dm_row_of i d = \<lparr>row_asset_id = in_asset_id i, row_asset_name = in_asset_name i, row_location = in_location i,
     row_action = dn_action d,
     row_reason = dm_generateConsistentReason (dn_action_type d) (in_risk i) (in_score i) (in_missing_hours i),
     row_risk_level = (if dn_priority d \<le> 2 then ''HIGH'' else if dn_priority d \<le> 3 then ''MEDIUM'' else ''LOW'')\<rparr>"

text \<open>The thresholds are constants of the code, not the configuration in force.\<close>

definition dm_snapshot_of :: "DecisionInput \<Rightarrow> Decision \<Rightarrow> DecisionSnapshot" where
  "dm_snapshot_of i d = \<lparr>sn_asset_id = in_asset_id i, sn_risk_missing = missing_risk (in_risk i),
     sn_risk_inactivity = inactivity_risk (in_risk i), sn_risk_abnormal = abnormal_risk (in_risk i),
     sn_score = dn_priority d, sn_rule_version = ''v2.3'', sn_engine_version = ''v2.3'',
     sn_threshold_snapshot = [(''abnormal_threshold'', 8 / 10), (''cooldown_alert'', 60), (''cooldown_inspect'', 30),
       (''cooldown_noaction'', 15), (''inactivity_threshold'', 48), (''missing_threshold'', 72)]\<rparr>"

text \<open>
  What the repository does with a row: it writes it, swallows an SQL error, or throws because it gets no
  connection. The snapshot is written after the row and reads the rules from the database first.
\<close>

datatype DbOutcome = Db_written | Db_swallowed | Db_throws fault

definition dm_makeStableDecision ::
  "DecisionEngine \<Rightarrow> DbOutcome \<Rightarrow> DbOutcome \<Rightarrow> int \<Rightarrow> DecisionInput \<Rightarrow> DecisionStability \<Rightarrow>
   (fault + Decision) \<times> DecisionStability" where
  "dm_makeStableDecision e db_row db_snapshot now i m =
     (let m1 = dm_cleanupOldRecords now m;
          fresh = dm_fresh e i;
          k = in_asset_id i
      in if dm_isInCooldown k (dn_action_type fresh) now m1 \<and> dr_asset_id (last (dm_records k m1)) \<noteq> 0 then
           (Inr (dm_cached (last (dm_records k m1))), m1)
         else
           let m2 = m1\<lparr>dm_history := AList.update k (dm_records k m1 @ [dm_record_of i fresh now (dm_mode m1)]) (dm_history m1)\<rparr>
           in case db_row of
                Db_throws f \<Rightarrow> (Inl f, m2)
              | _ \<Rightarrow>
                  (let m3 = (if db_row = Db_written then m2\<lparr>dm_written := dm_written m2 @ [dm_row_of i fresh]\<rparr> else m2)
                   in case db_snapshot of
                        Db_throws f \<Rightarrow> (Inl f, m3)
                      | Db_written \<Rightarrow> (Inr fresh, m3\<lparr>dm_snapshots := dm_snapshots m3 @ [dm_snapshot_of i fresh]\<rparr>)
                      | Db_swallowed \<Rightarrow> (Inr fresh, m3)))"

definition dm_recordDecisionExecution :: "int \<Rightarrow> bool \<Rightarrow> bool \<Rightarrow> string \<Rightarrow> DecisionStability \<Rightarrow> DecisionStability" where
  "dm_recordDecisionExecution i executed ignored user m =
     (if dm_records i m = [] then m
      else m\<lparr>dm_history := AList.update i (butlast (dm_records i m) @ [(last (dm_records i m))\<lparr>dr_was_executed := executed,
             dr_was_ignored := ignored, dr_executed_by := user\<rparr>]) (dm_history m)\<rparr>)"

definition dm_getLastDecision :: "int \<Rightarrow> DecisionStability \<Rightarrow> DecisionRecord option" where
  "dm_getLastDecision i m = (if dm_records i m = [] then None else Some (last (dm_records i m)))"

text \<open>\<open>records.size() > count\<close> compares unsigned: a negative count becomes huge.\<close>

definition dm_getRecentDecisions :: "int \<Rightarrow> int \<Rightarrow> DecisionStability \<Rightarrow> DecisionRecord list" where
  "dm_getRecentDecisions i n m =
     (let rs = dm_records i m;
          start = (if (of_nat (length rs) :: u64) > of_int n then unat ((of_nat (length rs) :: u64) - of_int n) else 0)
      in drop start rs)"

record StabilityStats =
  st_total_decisions :: nat
  st_cooldown_hits :: nat
  st_executions :: nat
  st_ignored :: nat
  st_adoption_rate :: real

definition dm_getStats :: "DecisionStability \<Rightarrow> StabilityStats" where
  "dm_getStats m =
     (let rs = concat (map snd (dm_history m));
          n = length rs; e = length (filter dr_was_executed rs)
      in \<lparr>st_total_decisions = n, st_cooldown_hits = 0, st_executions = e, st_ignored = length (filter dr_was_ignored rs),
          st_adoption_rate = (if n > 0 then real e / real n * 100 else 0)\<rparr>)"

section \<open>Cool-downs\<close>

lemma dm_records_put [simp]:
  "dm_records k (m\<lparr>dm_history := AList.update j rs (dm_history m)\<rparr>) = (if k = j then rs else dm_records k m)"
  by (simp add: dm_records_def update_conv')

lemma dm_records_cong [simp]:
  "dm_records k (m\<lparr>dm_written := w\<rparr>) = dm_records k m" "dm_records k (m\<lparr>dm_snapshots := u\<rparr>) = dm_records k m"
  by (simp_all add: dm_records_def)

lemma dm_records_cleanup:
  "dm_records k (dm_cleanupOldRecords now m) =
     (if duration_cast TICKS_HOUR (now - dm_last_cleanup m) < 1 then dm_records k m
      else filter (\<lambda>r. \<not> dr_timestamp r < now - 24 * TICKS_HOUR) (dm_records k m))"
  by (cases "map_of (dm_history m) k") (simp_all add: dm_cleanupOldRecords_def dm_records_def map_of_map)

lemma dm_cleanup_fields [simp]:
  "dm_cooldown (dm_cleanupOldRecords now m) = dm_cooldown m" "dm_mode (dm_cleanupOldRecords now m) = dm_mode m"
  "dm_written (dm_cleanupOldRecords now m) = dm_written m" "dm_snapshots (dm_cleanupOldRecords now m) = dm_snapshots m"
  by (simp_all add: dm_cleanupOldRecords_def)

text \<open>The records of a call: unchanged, or one more.\<close>

lemma dm_make_records:
  assumes "m' = snd (dm_makeStableDecision e db1 db2 now i m)" "m1 = dm_cleanupOldRecords now m"
  shows "dm_cooldown m' = dm_cooldown m \<and>
    (\<forall>k. dm_records k m' = dm_records k m1 @
      (if k = in_asset_id i \<and> \<not> (dm_isInCooldown k (dn_action_type (dm_fresh e i)) now m1 \<and> dr_asset_id (last (dm_records k m1)) \<noteq> 0)
       then [dm_record_of i (dm_fresh e i) now (dm_mode m)] else []))"
  unfolding assms
  by (auto simp: dm_makeStableDecision_def Let_def split: DbOutcome.split)

text \<open>Records of one asset: in the order of time, its own, and those with the same action as the one before
  them a full cool-down after it.\<close>

fun dm_spaced :: "CooldownConfig \<Rightarrow> DecisionRecord list \<Rightarrow> bool" where
  "dm_spaced c (r # s # rs) =
     (dr_timestamp r \<le> dr_timestamp s \<and>
      (dr_action_type r = dr_action_type s \<longrightarrow>
        duration_cast TICKS_MINUTE (dr_timestamp s - dr_timestamp r) \<ge> dm_getCooldownMinutes c (dr_action_type s)) \<and>
      dm_spaced c (s # rs))"
| "dm_spaced c rs = True"

lemma dm_spaced_snoc:
  "dm_spaced c (rs @ [s]) \<longleftrightarrow> dm_spaced c rs \<and> (rs \<noteq> [] \<longrightarrow> dr_timestamp (last rs) \<le> dr_timestamp s \<and>
     (dr_action_type (last rs) = dr_action_type s \<longrightarrow>
        duration_cast TICKS_MINUTE (dr_timestamp s - dr_timestamp (last rs)) \<ge> dm_getCooldownMinutes c (dr_action_type s)))"
  by (induction c rs rule: dm_spaced.induct) auto

lemma dm_spaced_Cons: "dm_spaced c (r # rs) \<Longrightarrow> dm_spaced c rs"
  by (cases rs) auto

lemma dm_spaced_later: "dm_spaced c (r # rs) \<Longrightarrow> s \<in> set rs \<Longrightarrow> dr_timestamp r \<le> dr_timestamp s"
  by (induction rs arbitrary: r) (auto intro: order_trans)

lemma dm_spaced_filter: "dm_spaced c rs \<Longrightarrow> dm_spaced c (filter (\<lambda>r. \<not> dr_timestamp r < t) rs)"
proof (induction rs)
  case (Cons r rs)
  show ?case
  proof (cases "dr_timestamp r < t")
    case True
    then show ?thesis using Cons dm_spaced_Cons by auto
  next
    case False
    then have "filter (\<lambda>r. \<not> dr_timestamp r < t) (r # rs) = r # rs"
      using dm_spaced_later [OF Cons.prems] by (intro filter_True) fastforce
    with Cons.prems show ?thesis by simp
  qed
qed simp

text \<open>A call of the manager, by its inputs; a run of calls.\<close>

record StableCall =
  sc_row :: DbOutcome
  sc_snapshot :: DbOutcome
  sc_now :: int
  sc_input :: DecisionInput

definition dm_run :: "DecisionEngine \<Rightarrow> StableCall list \<Rightarrow> DecisionStability \<Rightarrow> DecisionStability" where
  "dm_run e cs m = fold (\<lambda>c m. snd (dm_makeStableDecision e (sc_row c) (sc_snapshot c) (sc_now c) (sc_input c) m)) cs m"

lemma dm_run_spaced:
  assumes "sorted (map sc_now cs)" "m = dm_new t\<lparr>dm_cooldown := cd\<rparr>"
  shows "dm_cooldown (dm_run e cs m) = cd \<and>
    (\<forall>k. k \<noteq> 0 \<longrightarrow> dm_spaced cd (dm_records k (dm_run e cs m)) \<and>
      (\<forall>r \<in> set (dm_records k (dm_run e cs m)). dr_asset_id r = k \<and> dr_timestamp r \<in> sc_now ` set cs))"
  using assms(1)
proof (induction cs rule: rev_induct)
  case Nil
  then show ?case by (simp add: dm_run_def assms(2) dm_records_def dm_new_def)
next
  case (snoc c cs)
  let ?m = "dm_run e cs m" and ?now = "sc_now c"
  let ?m1 = "dm_cleanupOldRecords ?now ?m"
  have srt: "sorted (map sc_now cs)" "\<forall>x \<in> sc_now ` set cs. x \<le> ?now" using snoc.prems by (auto simp: sorted_append)
  note ih = snoc.IH [OF srt(1)]
  have run: "dm_run e (cs @ [c]) m = snd (dm_makeStableDecision e (sc_row c) (sc_snapshot c) ?now (sc_input c) ?m)"
    by (simp add: dm_run_def)
  note step = dm_make_records [OF run refl]
  have old: "dm_spaced cd (dm_records k ?m1)" "\<forall>r \<in> set (dm_records k ?m1). dr_asset_id r = k \<and> dr_timestamp r \<in> sc_now ` set cs"
    if "k \<noteq> 0" for k using ih that by (auto simp: dm_records_cleanup intro: dm_spaced_filter)
  show ?case
  proof (intro conjI allI impI)
    show "dm_cooldown (dm_run e (cs @ [c]) m) = cd" using step ih by simp
  next
    fix k :: int
    assume k: "k \<noteq> 0"
    let ?new = "k = in_asset_id (sc_input c) \<and> \<not> (dm_isInCooldown k (dn_action_type (dm_fresh e (sc_input c))) ?now ?m1 \<and>
      dr_asset_id (last (dm_records k ?m1)) \<noteq> 0)"
    let ?r = "dm_record_of (sc_input c) (dm_fresh e (sc_input c)) ?now (dm_mode ?m)"
    have rec: "dm_records k (dm_run e (cs @ [c]) m) = dm_records k ?m1 @ (if ?new then [?r] else [])"
      using step by blast
    have last: "dr_timestamp (last (dm_records k ?m1)) \<le> ?now" "dr_asset_id (last (dm_records k ?m1)) = k"
      if "dm_records k ?m1 \<noteq> []"
      using old(2) [OF k] srt(2) last_in_set [OF that] by blast+
    show "dm_spaced cd (dm_records k (dm_run e (cs @ [c]) m))"
    proof (cases ?new)
      case True
      have "dm_cooldown ?m1 = cd" using ih by simp
      then have "dm_spaced cd (dm_records k ?m1 @ [?r])"
        using old(1) [OF k] last True k unfolding dm_spaced_snoc
        by (auto simp: dm_isInCooldown_def dm_record_of_def)
      then show ?thesis unfolding rec if_P [OF True] .
    next
      case False
      show ?thesis unfolding rec if_not_P [OF False] append_Nil2 by (rule old(1) [OF k])
    qed
    show "\<forall>r \<in> set (dm_records k (dm_run e (cs @ [c]) m)). dr_asset_id r = k \<and> dr_timestamp r \<in> sc_now ` set (cs @ [c])"
      unfolding rec using old(2) [OF k] by (auto simp: dm_record_of_def)
  qed
qed

text \<open>C15: Whatever the risks do, two consecutive records of an asset with the same action are a full cool-down
  apart. Asset 0 is the exception: the manager takes its records for missing ones.\<close>

theorem dm_cooldown_enforced:
  assumes "sorted (map sc_now cs)" "k \<noteq> 0" "m = dm_run e cs (dm_setCooldownConfig cd (dm_new t))"
  shows "dm_spaced cd (dm_records k m)"
  using dm_run_spaced [OF assms(1) refl, of e cd t] assms(2,3) by (simp add: dm_setCooldownConfig_def)

definition sample_input :: "int \<Rightarrow> DecisionInput" where
  "sample_input hours = \<lparr>in_asset_id = 1, in_asset_name = ''a'', in_location = ''b'',
     in_risk = \<lparr>missing_risk = 0, inactivity_risk = 0, abnormal_risk = 0, total_risk = 0\<rparr>,
     in_score = \<lparr>health_score = 100, risk_score = 0, risk_level = LOW, risk_summary = []\<rparr>, in_illegal = False,
     in_moves = 0, in_missing_hours = hours, in_daily = 2, in_backup = False\<rparr>"

lemma sample_input_id [simp]: "in_asset_id (sample_input h) = 1"
  by (simp add: sample_input_def)

definition sample_call :: "int \<Rightarrow> int \<Rightarrow> StableCall" where
  "sample_call t hours = \<lparr>sc_row = Db_written, sc_snapshot = Db_written, sc_now = t, sc_input = sample_input hours\<rparr>"

lemma dm_cooldown_enforced_witness:
  "dm_spaced cd_default (dm_records 1 (dm_run de_new [sample_call 0 50, sample_call 60000000000 80]
     (dm_setCooldownConfig cd_default (dm_new 0))))"
  by (rule dm_cooldown_enforced [OF _ _ refl]) (simp_all add: sample_call_def)

text \<open>The first call of an asset records its decision, whatever the database does.\<close>

lemma dm_first_call:
  assumes "dm_records (in_asset_id i) (dm_cleanupOldRecords now m) = []"
    and "call = dm_makeStableDecision e db1 db2 now i m"
  shows "dm_records (in_asset_id i) (snd call) = [dm_record_of i (dm_fresh e i) now (dm_mode m)] \<and>
    dm_cooldown (snd call) = dm_cooldown m \<and> (\<forall>f. fst call = Inl f \<longrightarrow> dm_snapshots (snd call) = dm_snapshots m) \<and>
    (db1 = Db_throws f \<longrightarrow> fst call = Inl f \<and> dm_written (snd call) = dm_written m)"
  using assms(1) unfolding assms(2)
  by (auto simp: dm_makeStableDecision_def Let_def dm_isInCooldown_def split: DbOutcome.split)

text \<open>A call in the cool-down of a record returns the record and writes nothing.\<close>

lemma dm_cached_call:
  assumes "dm_records (in_asset_id i) m = [r]" "dr_asset_id r \<noteq> 0" "dr_action_type r = dn_action_type (dm_fresh e i)"
    and "dr_timestamp r \<le> now" "duration_cast TICKS_MINUTE (now - dr_timestamp r) < dm_getCooldownMinutes (dm_cooldown m) (dr_action_type r)"
    and "dm_getCooldownMinutes (dm_cooldown m) (dr_action_type r) \<le> 1440"
  shows "fst (dm_makeStableDecision e db1 db2 now i m) = Inr (dm_cached r) \<and>
    dm_written (snd (dm_makeStableDecision e db1 db2 now i m)) = dm_written m"
proof -
  have "(now - dr_timestamp r) div TICKS_MINUTE < 1440"
    using assms(4-6) by (simp add: duration_cast_def split: if_splits)
  then have "now - dr_timestamp r < 1440 * TICKS_MINUTE" by (simp add: TICKS_MINUTE_def)
  then have "\<not> dr_timestamp r < now - 24 * TICKS_HOUR" by (simp add: TICKS_MINUTE_def TICKS_HOUR_def)
  then have rec: "dm_records (in_asset_id i) (dm_cleanupOldRecords now m) = [r]"
    by (simp add: dm_records_cleanup assms(1))
  then have "dm_isInCooldown (in_asset_id i) (dn_action_type (dm_fresh e i)) now (dm_cleanupOldRecords now m)"
    using assms(3,5) by (simp add: dm_isInCooldown_def)
  with rec assms(2) show ?thesis by (simp add: dm_makeStableDecision_def Let_def)
qed

text \<open>An escalation is not seen. When an asset's action stays the same, a call in the cool-down answers with the old
  priority, place and reason, however much worse the asset has become; only the engine itself tells.\<close>

theorem dm_escalation_hidden:
  assumes "m = dm_run e [\<lparr>sc_row = db1, sc_snapshot = db2, sc_now = t1, sc_input = i1\<rparr>] (dm_new t0)"
    and "in_asset_id i2 = in_asset_id i1" "in_asset_id i1 \<noteq> 0"
    and "dn_action_type (dm_fresh e i2) = dn_action_type (dm_fresh e i1)"
    and "t1 \<le> t2" "duration_cast TICKS_MINUTE (t2 - t1) < dm_getCooldownMinutes cd_default (dn_action_type (dm_fresh e i1))"
  shows "\<exists>d. fst (dm_makeStableDecision e db3 db4 t2 i2 m) = Inr d \<and> dn_priority d = dn_priority (dm_fresh e i1) \<and>
    dn_suggested_location d = dn_suggested_location (dm_fresh e i1) \<and>
    dm_written (snd (dm_makeStableDecision e db3 db4 t2 i2 m)) = dm_written m"
proof -
  have m: "m = snd (dm_makeStableDecision e db1 db2 t1 i1 (dm_new t0))" by (simp add: assms(1) dm_run_def)
  have "dm_records (in_asset_id i1) (dm_cleanupOldRecords t1 (dm_new t0)) = []"
    by (simp add: dm_records_cleanup) (simp add: dm_records_def dm_new_def)
  from dm_first_call [OF this refl, of e db1 db2] have
    rec: "dm_records (in_asset_id i2) m = [dm_record_of i1 (dm_fresh e i1) t1 SHADOW]" and cd: "dm_cooldown m = cd_default"
    by (simp_all add: m assms(2) dm_new_def)
  have "dm_getCooldownMinutes cd_default ty \<le> 1440" for ty by (cases ty) (simp_all add: cd_default_def)
  with dm_cached_call [OF rec, of e t2 db3 db4] assms(3-6) show ?thesis
    by (simp add: cd dm_record_of_def dm_cached_def)
qed

lemma dm_escalation_hidden_witness:
  "\<exists>d. fst (dm_makeStableDecision de_new Db_written Db_written 60000000000 (sample_input 80)
       (dm_run de_new [sample_call 0 50] (dm_new 0))) = Inr d \<and> dn_priority d = 2 \<and>
     dn_priority (dm_fresh de_new (sample_input 80)) = 1"
proof -
  have f: "dm_fresh de_new (sample_input 50) = de_decision 1 ''a'' ''b'' INSPECT Check_soon Unseen_long 2"
    "dm_fresh de_new (sample_input 80) = de_decision 1 ''a'' ''b'' INSPECT Inspect_now (Unseen_hours 80) 1"
    by (simp_all add: dm_fresh_def sample_input_def de_makeDecision_def de_possible_def de_handleMissingRisk_def
        de_new_def std_sort_def)
  have "\<exists>d. fst (dm_makeStableDecision de_new Db_written Db_written 60000000000 (sample_input 80)
      (dm_run de_new [sample_call 0 50] (dm_new 0))) = Inr d \<and> dn_priority d = dn_priority (dm_fresh de_new (sample_input 50)) \<and>
    dn_suggested_location d = dn_suggested_location (dm_fresh de_new (sample_input 50)) \<and>
    dm_written (snd (dm_makeStableDecision de_new Db_written Db_written 60000000000 (sample_input 80)
      (dm_run de_new [sample_call 0 50] (dm_new 0)))) = dm_written (dm_run de_new [sample_call 0 50] (dm_new 0))"
    by (rule dm_escalation_hidden [OF sample_call_def [THEN arg_cong, of "\<lambda>c. dm_run de_new [c] (dm_new 0)"]])
      (simp_all add: f de_decision_def cd_default_def duration_cast_def TICKS_MINUTE_def)
  then show ?thesis by (auto simp: f de_decision_def)
qed

text \<open>A decision whose database row cannot be written is thrown away as an exception, but stays in the memory: the retry
  in the cool-down answers from the memory and writes no row either.\<close>

theorem dm_lost_row:
  assumes "first = dm_makeStableDecision e (Db_throws f) db2 t1 i (dm_new t0)"
    and "retry = dm_makeStableDecision e Db_written Db_written t2 i (snd first)"
    and "in_asset_id i \<noteq> 0" "t1 \<le> t2"
    and "duration_cast TICKS_MINUTE (t2 - t1) < dm_getCooldownMinutes cd_default (dn_action_type (dm_fresh e i))"
  shows "fst first = Inl f \<and> (\<exists>d. fst retry = Inr d \<and> dn_action_type d = dn_action_type (dm_fresh e i)) \<and>
    dm_written (snd retry) = []"
proof -
  have "dm_records (in_asset_id i) (dm_cleanupOldRecords t1 (dm_new t0)) = []"
    by (simp add: dm_records_cleanup) (simp add: dm_records_def dm_new_def)
  from dm_first_call [OF this assms(1)] have
    rec: "dm_records (in_asset_id i) (snd first) = [dm_record_of i (dm_fresh e i) t1 SHADOW]"
    and cd: "dm_cooldown (snd first) = cd_default" and fl: "fst first = Inl f" "dm_written (snd first) = []"
    by (simp_all add: dm_new_def)
  have "dm_getCooldownMinutes cd_default ty \<le> 1440" for ty by (cases ty) (simp_all add: cd_default_def)
  with dm_cached_call [OF rec, of e t2 Db_written Db_written] assms(3-5) fl show ?thesis
    by (simp add: cd assms(2) dm_record_of_def dm_cached_def)
qed

lemma dm_lost_row_witness:
  "dm_written (snd (dm_makeStableDecision de_new Db_written Db_written 60000000000 (sample_input 80)
     (snd (dm_makeStableDecision de_new (Db_throws SelfDeadlock) Db_written 0 (sample_input 80) (dm_new 0))))) = []"
proof -
  have f: "dm_fresh de_new (sample_input 80) = de_decision 1 ''a'' ''b'' INSPECT Inspect_now (Unseen_hours 80) 1"
    by (simp add: dm_fresh_def sample_input_def de_makeDecision_def de_possible_def de_handleMissingRisk_def
        de_new_def std_sort_def)
  from dm_lost_row [OF refl refl, of "sample_input 80" 0 60000000000 de_new SelfDeadlock Db_written 0] show ?thesis
    by (simp add: f de_decision_def cd_default_def duration_cast_def TICKS_MINUTE_def)
qed

end
