(* ===== verification/Alerts.thy ===== *)
theory Alerts
  imports Base
begin

text \<open>
  The alert manager (\<open>core/alert\<close>): the list of recent alerts and where an alert goes. What leaves the manager
  is a trace: the registered callback, the mail and the web hook. The clock and its printed time are
  arguments; the mail is only logged in the code, the hook's payload is not modelled.
\<close>

datatype AlertLevel = ALERT_INFO | ALERT_WARNING | ALERT_ERROR | ALERT_CRITICAL

fun alert_rank :: "AlertLevel \<Rightarrow> nat" where
  "alert_rank ALERT_INFO = 0"
| "alert_rank ALERT_WARNING = 1"
| "alert_rank ALERT_ERROR = 2"
| "alert_rank ALERT_CRITICAL = 3"

record Alert =
  alr_id :: string
  alr_type :: string
  alr_message :: string
  alr_level :: AlertLevel
  alr_timestamp :: string
  alr_source :: string

datatype AlertSink = To_callback Alert | To_mail Alert | To_hook Alert

record AlertManager =
  alm_recent :: "Alert list"
  alm_counter :: int
  alm_email_enabled :: bool
  alm_hook_enabled :: bool
  alm_callback :: bool
  alm_trace :: "AlertSink list"

definition MAX_ALERTS :: nat where "MAX_ALERTS = 1000"

definition alm_new :: AlertManager where
  "alm_new = \<lparr>alm_recent = [], alm_counter = 0, alm_email_enabled = False, alm_hook_enabled = False,
     alm_callback = False, alm_trace = []\<rparr>"

definition alm_setEmailConfig :: "string \<Rightarrow> string \<Rightarrow> string list \<Rightarrow> AlertManager \<Rightarrow> AlertManager" where
  "alm_setEmailConfig smtpHost from to m = m\<lparr>alm_email_enabled := (smtpHost \<noteq> '''' \<and> from \<noteq> '''' \<and> to \<noteq> [])\<rparr>"

definition alm_setDingtalkConfig :: "string \<Rightarrow> AlertManager \<Rightarrow> AlertManager" where
  "alm_setDingtalkConfig url m = m\<lparr>alm_hook_enabled := (url \<noteq> '''')\<rparr>"

definition alm_setAlertCallback :: "bool \<Rightarrow> AlertManager \<Rightarrow> AlertManager" where
  "alm_setAlertCallback b m = m\<lparr>alm_callback := b\<rparr>"

definition alm_generateAlertId :: "int \<Rightarrow> int \<Rightarrow> string" where
  "alm_generateAlertId now counter = ''ALT-'' @ to_string now @ ''-'' @ to_string counter"

definition alm_sendAlert ::
  "int \<Rightarrow> string \<Rightarrow> string \<Rightarrow> string \<Rightarrow> AlertLevel \<Rightarrow> string \<Rightarrow> AlertManager \<Rightarrow> AlertManager" where
  "alm_sendAlert now stamp ty msg level src m =
     (let a = \<lparr>alr_id = alm_generateAlertId now (alm_counter m + 1), alr_type = ty, alr_message = msg,
                alr_level = level, alr_timestamp = stamp, alr_source = src\<rparr>;
          recent = alm_recent m @ [a]
      in m\<lparr>alm_counter := alm_counter m + 1,
           alm_recent := (if length recent > MAX_ALERTS then tl recent else recent),
           alm_trace := alm_trace m @ (if alm_callback m then [To_callback a] else []) @
             (if alm_email_enabled m \<and> alert_rank level \<ge> alert_rank ALERT_ERROR then [To_mail a] else []) @
             (if alm_hook_enabled m \<and> alert_rank level \<ge> alert_rank ALERT_WARNING then [To_hook a] else [])\<rparr>)"

definition alm_getRecentAlerts :: "int \<Rightarrow> AlertManager \<Rightarrow> Alert list" where
  "alm_getRecentAlerts limit m =
     (let n = min limit (int (length (alm_recent m)))
      in if n > 0 then drop (length (alm_recent m) - nat n) (alm_recent m) else [])"

definition alm_clearAlerts :: "AlertManager \<Rightarrow> AlertManager" where
  "alm_clearAlerts m = m\<lparr>alm_recent := []\<rparr>"

section \<open>What is kept and sent\<close>

record AlertCall =
  alc_now :: int
  alc_stamp :: string
  alc_type :: string
  alc_message :: string
  alc_level :: AlertLevel
  alc_source :: string

definition alm_send :: "AlertCall \<Rightarrow> AlertManager \<Rightarrow> AlertManager" where
  "alm_send c = alm_sendAlert (alc_now c) (alc_stamp c) (alc_type c) (alc_message c) (alc_level c) (alc_source c)"

fun alm_alerts :: "int \<Rightarrow> AlertCall list \<Rightarrow> Alert list" where
  "alm_alerts k [] = []"
| "alm_alerts k (c # cs) =
     \<lparr>alr_id = alm_generateAlertId (alc_now c) (k + 1), alr_type = alc_type c, alr_message = alc_message c,
      alr_level = alc_level c, alr_timestamp = alc_stamp c, alr_source = alc_source c\<rparr> # alm_alerts (k + 1) cs"

lemma alm_alerts_append: "alm_alerts k (xs @ ys) = alm_alerts k xs @ alm_alerts (k + int (length xs)) ys"
  by (induction xs arbitrary: k) (auto simp: algebra_simps)

lemma length_alm_alerts [simp]: "length (alm_alerts k cs) = length cs"
  by (induction cs arbitrary: k) auto

lemma alm_send_fields:
  "alm_counter (alm_send c m) = alm_counter m + 1" "alm_email_enabled (alm_send c m) = alm_email_enabled m"
  "alm_hook_enabled (alm_send c m) = alm_hook_enabled m" "alm_callback (alm_send c m) = alm_callback m"
  by (simp_all add: alm_send_def alm_sendAlert_def Let_def)

lemma alm_recent_send:
  "alm_recent (alm_send c m) = (let r = alm_recent m @ alm_alerts (alm_counter m) [c] in if length r > MAX_ALERTS then tl r else r)"
  by (simp add: alm_send_def alm_sendAlert_def Let_def)

lemma last_n_step: "(let r = last_n n xs @ [x] in if length r > n then tl r else r) = last_n n (xs @ [x])" if "0 < n"
proof (cases "n \<le> length xs")
  case True
  then have "last_n n xs \<noteq> []" using that by (simp add: last_n_def)
  with True that show ?thesis by (simp add: last_n_snoc Let_def min_def)
qed (simp add: Let_def)

lemma generateAlertId_inj: "alm_generateAlertId t k = alm_generateAlertId t' k' \<Longrightarrow> 0 < k \<Longrightarrow> 0 < k' \<Longrightarrow> k = k'"
proof -
  assume eq: "alm_generateAlertId t k = alm_generateAlertId t' k'" and pos: "0 < k" "0 < k'"
  have no: "CHR ''-'' \<notin> set (rev (to_string j))" if "0 < j" for j
    using that digits_of_no_sep by (simp add: to_string_def)
  have "rev (to_string k) @ CHR ''-'' # rev (''ALT-'' @ to_string t) = rev (to_string k') @ CHR ''-'' # rev (''ALT-'' @ to_string t')"
    using arg_cong [OF eq, of rev] by (simp add: alm_generateAlertId_def)
  then have "rev (to_string k) = rev (to_string k')"
    using split_at_first [OF no [OF pos(1)] no [OF pos(2)]] by blast
  then show "k = k'" using to_string_inj by simp
qed

lemma alm_alerts_ids: "a \<in> set (alm_alerts k cs) \<Longrightarrow> \<exists>t j. alr_id a = alm_generateAlertId t j \<and> k < j"
proof (induction cs arbitrary: k)
  case (Cons c cs)
  show ?case
  proof (cases "a \<in> set (alm_alerts (k + 1) cs)")
    case True
    from Cons.IH [OF this] obtain t j where "alr_id a = alm_generateAlertId t j" "k + 1 < j" by blast
    then show ?thesis by (intro exI [of _ t] exI [of _ j]) simp
  next
    case False
    with Cons.prems have "alr_id a = alm_generateAlertId (alc_now c) (k + 1)" by auto
    then show ?thesis by (intro exI [of _ "alc_now c"] exI [of _ "k + 1"]) simp
  qed
qed simp

lemma distinct_alm_alerts: "0 \<le> k \<Longrightarrow> distinct (map alr_id (alm_alerts k cs))"
proof (induction cs arbitrary: k)
  case (Cons c cs)
  have "alm_generateAlertId (alc_now c) (k + 1) \<noteq> alr_id a" if "a \<in> set (alm_alerts (k + 1) cs)" for a
    using alm_alerts_ids [OF that] generateAlertId_inj [of "alc_now c" "k + 1"] Cons.prems by fastforce
  moreover have "distinct (map alr_id (alm_alerts (k + 1) cs))" using Cons by simp
  ultimately show ?case by auto
qed simp

text \<open>The manager keeps exactly the last 1000 alerts, hands out the last ones asked for in their order, and
  every id is given once.\<close>

theorem alm_recent_exact:
  assumes "m = fold alm_send cs alm_new" "0 \<le> limit"
  shows "alm_recent m = last_n MAX_ALERTS (alm_alerts 0 cs) \<and>
    alm_getRecentAlerts limit m = last_n (min (nat limit) MAX_ALERTS) (alm_alerts 0 cs) \<and>
    distinct (map alr_id (alm_alerts 0 cs))"
proof -
  have run: "alm_recent (fold alm_send cs alm_new) = last_n MAX_ALERTS (alm_alerts 0 cs) \<and>
      alm_counter (fold alm_send cs alm_new) = int (length cs)" for cs
  proof (induction cs rule: rev_induct)
    case Nil
    then show ?case by (simp add: alm_new_def last_n_def)
  next
    case (snoc c cs)
    have "0 < MAX_ALERTS" by (simp add: MAX_ALERTS_def)
    from last_n_step [OF this, of "alm_alerts 0 cs" "hd (alm_alerts (int (length cs)) [c])"] snoc show ?case
      by (simp add: alm_recent_send alm_send_fields alm_alerts_append)
  qed
  let ?as = "alm_alerts 0 cs" and ?l = "min MAX_ALERTS (length cs)"
  have rec: "alm_recent m = drop (length cs - MAX_ALERTS) ?as" using run by (simp add: assms(1) last_n_def)
  have "alm_getRecentAlerts limit m = last_n (min (nat limit) MAX_ALERTS) ?as"
  proof (cases "length cs = 0 \<or> limit = 0")
    case True
    then show ?thesis by (auto simp: alm_getRecentAlerts_def rec last_n_def Let_def MAX_ALERTS_def)
  next
    case False
    let ?n = "nat (min limit (int (length (alm_recent m))))"
    have dd: "drop k (alm_recent m) = drop (k + (length cs - MAX_ALERTS)) ?as" for k by (simp add: rec add.commute)
    have pos: "min limit (int (length (alm_recent m))) > 0" using False assms(2) by (simp add: rec MAX_ALERTS_def)
    have "length (alm_recent m) - ?n + (length cs - MAX_ALERTS) = length cs - min (nat limit) MAX_ALERTS"
      using assms(2) by (simp add: rec)
    then have "drop (length (alm_recent m) - ?n) (alm_recent m) = drop (length cs - min (nat limit) MAX_ALERTS) ?as"
      by (simp only: dd)
    then show ?thesis using pos by (simp add: alm_getRecentAlerts_def Let_def last_n_def)
  qed
  then show ?thesis using run distinct_alm_alerts [of 0 cs] by (simp add: assms(1))
qed

lemma alm_recent_exact_witness:
  "map alr_type (alm_getRecentAlerts 1 (fold alm_send
     [\<lparr>alc_now = 1, alc_stamp = '''', alc_type = ''A'', alc_message = '''', alc_level = ALERT_ERROR, alc_source = ''s''\<rparr>,
      \<lparr>alc_now = 1, alc_stamp = '''', alc_type = ''B'', alc_message = '''', alc_level = ALERT_INFO, alc_source = ''s''\<rparr>]
     alm_new)) = [''B'']"
  using alm_recent_exact [OF refl, of 1 "[\<lparr>alc_now = 1, alc_stamp = '''', alc_type = ''A'', alc_message = '''', alc_level = ALERT_ERROR, alc_source = ''s''\<rparr>,
      \<lparr>alc_now = 1, alc_stamp = '''', alc_type = ''B'', alc_message = '''', alc_level = ALERT_INFO, alc_source = ''s''\<rparr>]"]
  by (simp add: last_n_def MAX_ALERTS_def del: fold_simps)

end
