(* ===== verification/Anomaly.thy ===== *)
theory Anomaly
  imports Trajectory Alerts
begin

text \<open>
  The anomaly detector (\<open>analytics/anomaly_detector\<close>) over the pool, the table of anomalies, the assets, the
  stays and the scan records. A statement is what it reads and writes; the rows of a query come in the order of
  the table, the newest first where the query sorts them. Times are seconds; \<open>now\<close> is the time of a
  call's transactions. The scripts of the repository create \<open>scan_records\<close> without the column \<open>asset_id\<close> the
  queries use: the scans are \<open>None\<close> then, and such a query fails. A value that is \<open>NULL\<close> cannot be read
  as a string: the conversion throws. An exception is caught by the method it reaches, whose connection is
  not released.
\<close>

datatype AnomalySeverity = SEV_INFO | SEV_WARNING | SEV_ERROR | SEV_CRITICAL

datatype AnomalyType =
  ASSET_MISSING | HIGH_FREQUENCY_MOVE | ILLEGAL_LOCATION | STALE_DATA | UNEXPECTED_READER | DUPLICATE_EPC

fun an_typeToString :: "AnomalyType \<Rightarrow> string" where
  "an_typeToString ASSET_MISSING = ''ASSET_MISSING''"
| "an_typeToString HIGH_FREQUENCY_MOVE = ''HIGH_FREQUENCY_MOVE''"
| "an_typeToString ILLEGAL_LOCATION = ''ILLEGAL_LOCATION''"
| "an_typeToString STALE_DATA = ''STALE_DATA''"
| "an_typeToString UNEXPECTED_READER = ''UNEXPECTED_READER''"
| "an_typeToString DUPLICATE_EPC = ''DUPLICATE_EPC''"

fun an_severityToString :: "AnomalySeverity \<Rightarrow> string" where
  "an_severityToString SEV_INFO = ''INFO''"
| "an_severityToString SEV_WARNING = ''WARNING''"
| "an_severityToString SEV_ERROR = ''ERROR''"
| "an_severityToString SEV_CRITICAL = ''CRITICAL''"

fun sev_rank :: "AnomalySeverity \<Rightarrow> nat" where
  "sev_rank SEV_INFO = 0"
| "sev_rank SEV_WARNING = 1"
| "sev_rank SEV_ERROR = 2"
| "sev_rank SEV_CRITICAL = 3"

record AnomalyRow =
  ano_id :: int
  ano_asset :: int
  ano_epc :: string
  ano_type :: string
  ano_severity :: string
  ano_message :: string
  ano_location :: string
  ano_detected_at :: int
  ano_resolved_at :: "int option"
  ano_resolved_by :: "string option"
  ano_is_resolved :: bool

record AnomalyEvent =
  aev_id :: int
  aev_asset_id :: int
  aev_epc :: string
  aev_type :: string
  aev_severity :: string
  aev_message :: string
  aev_location :: string
  aev_detected_at :: int
  aev_resolved_at :: int
  aev_resolved_by :: string
  aev_is_resolved :: bool

text \<open>Asset: id, tag, location, status. Scan: asset and last time.\<close>

record AnomalyWorld =
  anw_pool :: DBPool
  anw_rows :: "AnomalyRow list"
  anw_next_id :: int
  anw_assets :: "(int \<times> string \<times> string \<times> string) list"
  anw_stays :: "StayRow list"
  anw_scans :: "(int \<times> int) list option"
  anw_alerts :: AlertManager

record AnomalyDetector =
  ad_missingThresholdMinutes :: int
  ad_highFrequencyMoveCount :: int
  ad_highFrequencyTimeWindowMinutes :: int
  ad_validLocations :: "string list"
  ad_illegalLocations :: "string list"

definition ad_new :: AnomalyDetector where
  "ad_new = \<lparr>ad_missingThresholdMinutes = 30, ad_highFrequencyMoveCount = 10,
     ad_highFrequencyTimeWindowMinutes = 60, ad_validLocations = [], ad_illegalLocations = []\<rparr>"

definition ad_setMissingThreshold :: "int \<Rightarrow> AnomalyDetector \<Rightarrow> AnomalyDetector" where
  "ad_setMissingThreshold minutes d = d\<lparr>ad_missingThresholdMinutes := minutes\<rparr>"

definition ad_setHighFrequencyThreshold :: "int \<Rightarrow> int \<Rightarrow> AnomalyDetector \<Rightarrow> AnomalyDetector" where
  "ad_setHighFrequencyThreshold moves minutes d =
     d\<lparr>ad_highFrequencyMoveCount := moves, ad_highFrequencyTimeWindowMinutes := minutes\<rparr>"

definition ad_setValidLocations :: "string list \<Rightarrow> AnomalyDetector \<Rightarrow> AnomalyDetector" where
  "ad_setValidLocations ls d = d\<lparr>ad_validLocations := ls\<rparr>"

definition ad_addIllegalLocation :: "string \<Rightarrow> AnomalyDetector \<Rightarrow> AnomalyDetector" where
  "ad_addIllegalLocation l d =
     (if l \<in> set (ad_illegalLocations d) then d else d\<lparr>ad_illegalLocations := ad_illegalLocations d @ [l]\<rparr>)"

section \<open>Recording\<close>

definition ano_open :: "int \<Rightarrow> string \<Rightarrow> AnomalyRow \<Rightarrow> bool" where
  "ano_open i ty r \<longleftrightarrow> ano_asset r = i \<and> ano_type r = ty \<and> \<not> ano_is_resolved r"

definition ano_alert :: "int \<Rightarrow> string \<Rightarrow> AnomalyType \<Rightarrow> AnomalySeverity \<Rightarrow> string \<Rightarrow> AnomalyWorld \<Rightarrow> AnomalyWorld" where
  "ano_alert now stamp ty sev msg w =
     (if sev_rank sev \<ge> sev_rank SEV_WARNING
      then w\<lparr>anw_alerts := alm_sendAlert (now * 1000) stamp (an_typeToString ty) msg ALERT_WARNING ''system'' (anw_alerts w)\<rparr>
      else w)"

definition an_recordAnomaly ::
  "DBEnv \<Rightarrow> int \<Rightarrow> string \<Rightarrow> int \<Rightarrow> string \<Rightarrow> AnomalyType \<Rightarrow> AnomalySeverity \<Rightarrow> string \<Rightarrow> string \<Rightarrow> AnomalyWorld \<Rightarrow> AnomalyWorld" where
  "an_recordAnomaly env now stamp i epc ty sev msg loc w =
     (case db_acquire env (anw_pool w) of
        (Inl _, p1) \<Rightarrow> w\<lparr>anw_pool := p1\<rparr>
      | (Inr c, p1) \<Rightarrow>
          (case find (ano_open i (an_typeToString ty)) (anw_rows w) of
             Some r \<Rightarrow> ano_alert now stamp ty sev msg
               (w\<lparr>anw_pool := db_release env c p1,
                  anw_rows := map (\<lambda>x. if ano_id x = ano_id r then x\<lparr>ano_detected_at := now, ano_message := msg\<rparr> else x) (anw_rows w)\<rparr>)
           | None \<Rightarrow>
               if i \<in> fst ` set (anw_assets w) \<and> length epc \<le> 24 \<and> length loc \<le> 100 then
                 ano_alert now stamp ty sev msg
                   (w\<lparr>anw_pool := db_release env c p1, anw_next_id := anw_next_id w + 1,
                      anw_rows := anw_rows w @ [\<lparr>ano_id = anw_next_id w, ano_asset = i, ano_epc = epc,
                        ano_type = an_typeToString ty, ano_severity = an_severityToString sev, ano_message = msg,
                        ano_location = loc, ano_detected_at = now, ano_resolved_at = None, ano_resolved_by = None,
                        ano_is_resolved = False\<rparr>]\<rparr>)
               else w\<lparr>anw_pool := p1, anw_next_id := anw_next_id w + 1\<rparr>))"

section \<open>Detecting\<close>

definition an_missing_message :: "int \<Rightarrow> string" where
  "an_missing_message minutes = ''Asset not scanned for '' @ to_string minutes @ '' minutes''"

definition an_illegal_message :: "string \<Rightarrow> string" where
  "an_illegal_message loc = ''Asset detected in restricted area: '' @ loc"

definition an_moves_message :: "string \<Rightarrow> int \<Rightarrow> int \<Rightarrow> string" where
  "an_moves_message prefix n minutes = prefix @ to_string n @ '' moves in '' @ to_string minutes @ '' minutes''"

text \<open>The left join of the assets with the scans: a row for every old scan of an asset, one for an asset without.\<close>

definition an_missing_rows :: "int \<Rightarrow> int \<Rightarrow> (int \<times> int) list \<Rightarrow> (int \<times> string \<times> string \<times> string) list \<Rightarrow> (int \<times> string \<times> string) list" where
  "an_missing_rows now minutes scans assets =
     concat (map (\<lambda>(i, epc, loc, status).
       if status = ''SCRAPPED'' then []
       else if filter (\<lambda>s. fst s = i) scans = [] then [(i, epc, loc)]
       else map (\<lambda>_. (i, epc, loc)) (filter (\<lambda>s. fst s = i \<and> snd s < now - minutes * 60) scans)) assets)"

definition an_recent_stays :: "int \<Rightarrow> int \<Rightarrow> StayRow list \<Rightarrow> StayRow list" where
  "an_recent_stays now minutes rows = filter (\<lambda>r. sy_entry_time r \<ge> now - minutes * 60) rows"

definition an_frequent_rows :: "int \<Rightarrow> int \<Rightarrow> int \<Rightarrow> StayRow list \<Rightarrow> (int \<times> string \<times> int) list" where
  "an_frequent_rows now minutes moves rows =
     (let ks = map (\<lambda>r. (sy_asset_id r, sy_epc r)) (an_recent_stays now minutes rows)
      in filter (\<lambda>(_, _, n). n > moves) (map (\<lambda>(i, e). (i, e, int (count_list ks (i, e)))) (remdups ks)))"

definition an_scanForAnomalies :: "DBEnv \<Rightarrow> int \<Rightarrow> string \<Rightarrow> AnomalyDetector \<Rightarrow> AnomalyWorld \<Rightarrow> AnomalyWorld" where
  "an_scanForAnomalies env now stamp d w =
     (case db_acquire env (anw_pool w) of
        (Inl _, p1) \<Rightarrow> w\<lparr>anw_pool := p1\<rparr>
      | (Inr c, p1) \<Rightarrow>
          (case anw_scans w of
             None \<Rightarrow> w\<lparr>anw_pool := p1\<rparr>
           | Some scans \<Rightarrow>
               (let w1 = fold (\<lambda>(i, epc, loc). an_recordAnomaly env now stamp i epc ASSET_MISSING SEV_WARNING
                            (an_missing_message (ad_missingThresholdMinutes d)) loc)
                          (an_missing_rows now (ad_missingThresholdMinutes d) scans (anw_assets w)) (w\<lparr>anw_pool := p1\<rparr>);
                    w2 = fold (\<lambda>(i, epc, n). an_recordAnomaly env now stamp i epc HIGH_FREQUENCY_MOVE SEV_WARNING
                            (an_moves_message ''High frequency movement detected: '' n (ad_highFrequencyTimeWindowMinutes d)) '''')
                          (an_frequent_rows now (ad_highFrequencyTimeWindowMinutes d) (ad_highFrequencyMoveCount d) (anw_stays w)) w1;
                    w3 = fold (\<lambda>(i, epc, loc, _). an_recordAnomaly env now stamp i epc ILLEGAL_LOCATION SEV_ERROR
                            (an_illegal_message loc) loc)
                          (filter (\<lambda>(_, _, loc, _). loc \<in> set (ad_illegalLocations d)) (anw_assets w)) w2
                in w3\<lparr>anw_pool := db_release env c (anw_pool w3)\<rparr>)))"

text \<open>\<open>EXTRACT(MINUTE FROM ..)\<close> is the minutes of the clock face: 0 to 59.\<close>

definition extract_minute :: "int \<Rightarrow> int" where
  "extract_minute seconds = (seconds div 60) mod 60"

definition an_detectAssetMissing :: "DBEnv \<Rightarrow> int \<Rightarrow> string \<Rightarrow> AnomalyDetector \<Rightarrow> int \<Rightarrow> string \<Rightarrow> AnomalyWorld \<Rightarrow> AnomalyWorld" where
  "an_detectAssetMissing env now stamp d i epc w =
     (case db_acquire env (anw_pool w) of
        (Inl _, p1) \<Rightarrow> w\<lparr>anw_pool := p1\<rparr>
      | (Inr c, p1) \<Rightarrow>
          (case anw_scans w of
             None \<Rightarrow> w\<lparr>anw_pool := p1\<rparr>
           | Some scans \<Rightarrow>
               (let times = map snd (filter (\<lambda>s. fst s = i) scans);
                    w1 = (if times = [] then an_recordAnomaly env now stamp i epc ASSET_MISSING SEV_WARNING
                            ''Asset never scanned'' '''' (w\<lparr>anw_pool := p1\<rparr>)
                          else let minutes = extract_minute (now - Max (set times)) in
                            if minutes > ad_missingThresholdMinutes d then
                              an_recordAnomaly env now stamp i epc ASSET_MISSING SEV_WARNING (an_missing_message minutes) ''''
                                (w\<lparr>anw_pool := p1\<rparr>)
                            else w\<lparr>anw_pool := p1\<rparr>)
                in w1\<lparr>anw_pool := db_release env c (anw_pool w1)\<rparr>)))"

definition an_detectHighFrequencyMove :: "DBEnv \<Rightarrow> int \<Rightarrow> string \<Rightarrow> AnomalyDetector \<Rightarrow> int \<Rightarrow> string \<Rightarrow> AnomalyWorld \<Rightarrow> AnomalyWorld" where
  "an_detectHighFrequencyMove env now stamp d i epc w =
     (case db_acquire env (anw_pool w) of
        (Inl _, p1) \<Rightarrow> w\<lparr>anw_pool := p1\<rparr>
      | (Inr c, p1) \<Rightarrow>
          (let n = int (length (filter (\<lambda>r. sy_asset_id r = i) (an_recent_stays now (ad_highFrequencyTimeWindowMinutes d) (anw_stays w))));
               w1 = (if n > ad_highFrequencyMoveCount d then
                       an_recordAnomaly env now stamp i epc HIGH_FREQUENCY_MOVE SEV_WARNING
                         (an_moves_message ''High frequency movement: '' n (ad_highFrequencyTimeWindowMinutes d)) '''' (w\<lparr>anw_pool := p1\<rparr>)
                     else w\<lparr>anw_pool := p1\<rparr>)
           in w1\<lparr>anw_pool := db_release env c (anw_pool w1)\<rparr>))"

definition an_detectIllegalLocation :: "DBEnv \<Rightarrow> int \<Rightarrow> string \<Rightarrow> AnomalyDetector \<Rightarrow> int \<Rightarrow> string \<Rightarrow> string \<Rightarrow> AnomalyWorld \<Rightarrow> AnomalyWorld" where
  "an_detectIllegalLocation env now stamp d i epc loc w =
     (if loc \<in> set (ad_illegalLocations d)
      then an_recordAnomaly env now stamp i epc ILLEGAL_LOCATION SEV_ERROR (an_illegal_message loc) loc w else w)"

section \<open>Reading and resolving\<close>

text \<open>
  The types a query knows: all in \<open>getActiveAnomalies\<close>, three in \<open>getAnomaliesByAsset\<close>; another
  type's member is left uninitialised, \<open>junk\<close>.
\<close>

definition aev_of_row :: "string list \<Rightarrow> string \<Rightarrow> AnomalyRow \<Rightarrow> AnomalyEvent option" where
  "aev_of_row known junk r =
     (case ano_resolved_by r of
        None \<Rightarrow> None
      | Some who \<Rightarrow> Some \<lparr>aev_id = ano_id r, aev_asset_id = ano_asset r, aev_epc = ano_epc r,
          aev_type = (if ano_type r \<in> set known then ano_type r else junk), aev_severity = ano_severity r,
          aev_message = ano_message r, aev_location = ano_location r, aev_detected_at = ano_detected_at r,
          aev_resolved_at = (case ano_resolved_at r of None \<Rightarrow> 0 | Some t \<Rightarrow> t), aev_resolved_by = who,
          aev_is_resolved = ano_is_resolved r\<rparr>)"

text \<open>The loop over the rows: the events before the first row that throws, and whether none did.\<close>

fun aev_convert :: "string list \<Rightarrow> string \<Rightarrow> AnomalyRow list \<Rightarrow> AnomalyEvent list \<times> bool" where
  "aev_convert known junk [] = ([], True)"
| "aev_convert known junk (r # rs) =
     (case aev_of_row known junk r of
        None \<Rightarrow> ([], False)
      | Some e \<Rightarrow> (case aev_convert known junk rs of (es, ok) \<Rightarrow> (e # es, ok)))"

definition an_query :: "DBEnv \<Rightarrow> string list \<Rightarrow> string \<Rightarrow> (AnomalyRow \<Rightarrow> bool) \<Rightarrow> AnomalyWorld \<Rightarrow> AnomalyEvent list \<times> AnomalyWorld" where
  "an_query env known junk P w =
     (case db_acquire env (anw_pool w) of
        (Inl _, p1) \<Rightarrow> ([], w\<lparr>anw_pool := p1\<rparr>)
      | (Inr c, p1) \<Rightarrow>
          (case aev_convert known junk (std_sort (\<lambda>a b. ano_detected_at a > ano_detected_at b) (filter P (anw_rows w))) of
             (es, ok) \<Rightarrow> (es, w\<lparr>anw_pool := (if ok then db_release env c p1 else p1)\<rparr>)))"

definition an_getActiveAnomalies :: "DBEnv \<Rightarrow> string \<Rightarrow> AnomalyWorld \<Rightarrow> AnomalyEvent list \<times> AnomalyWorld" where
  "an_getActiveAnomalies env junk = an_query env
     [''ASSET_MISSING'', ''HIGH_FREQUENCY_MOVE'', ''ILLEGAL_LOCATION'', ''STALE_DATA'', ''UNEXPECTED_READER'', ''DUPLICATE_EPC'']
     junk (\<lambda>r. \<not> ano_is_resolved r)"

definition an_getAnomaliesByAsset :: "DBEnv \<Rightarrow> string \<Rightarrow> int \<Rightarrow> AnomalyWorld \<Rightarrow> AnomalyEvent list \<times> AnomalyWorld" where
  "an_getAnomaliesByAsset env junk i = an_query env
     [''ASSET_MISSING'', ''HIGH_FREQUENCY_MOVE'', ''ILLEGAL_LOCATION''] junk (\<lambda>r. ano_asset r = i)"

definition an_getAnomaliesByType :: "DBEnv \<Rightarrow> AnomalyType \<Rightarrow> AnomalyWorld \<Rightarrow> AnomalyEvent list \<times> AnomalyWorld" where
  "an_getAnomaliesByType env ty = an_query env [an_typeToString ty] (an_typeToString ty) (\<lambda>r. ano_type r = an_typeToString ty)"

definition an_resolveAnomaly :: "DBEnv \<Rightarrow> int \<Rightarrow> int \<Rightarrow> string \<Rightarrow> AnomalyWorld \<Rightarrow> bool \<times> AnomalyWorld" where
  "an_resolveAnomaly env now k who w =
     (case db_acquire env (anw_pool w) of
        (Inl _, p1) \<Rightarrow> (False, w\<lparr>anw_pool := p1\<rparr>)
      | (Inr c, p1) \<Rightarrow>
          if (\<exists>r \<in> set (anw_rows w). ano_id r = k) \<and> length who > 100 then (False, w\<lparr>anw_pool := p1\<rparr>)
          else (True, w\<lparr>anw_pool := db_release env c p1,
            anw_rows := map (\<lambda>r. if ano_id r = k then r\<lparr>ano_is_resolved := True, ano_resolved_at := Some now,
              ano_resolved_by := Some who\<rparr> else r) (anw_rows w)\<rparr>))"

definition an_getActiveAnomalyCount :: "DBEnv \<Rightarrow> AnomalyWorld \<Rightarrow> nat \<times> AnomalyWorld" where
  "an_getActiveAnomalyCount env w =
     (case db_acquire env (anw_pool w) of
        (Inl _, p1) \<Rightarrow> (0, w\<lparr>anw_pool := p1\<rparr>)
      | (Inr c, p1) \<Rightarrow> (length (filter (\<lambda>r. \<not> ano_is_resolved r) (anw_rows w)), w\<lparr>anw_pool := db_release env c p1\<rparr>))"

section \<open>What holds of the table\<close>

text \<open>The worlds the detector and its users reach from an empty table.\<close>

inductive an_reach :: "DBEnv \<Rightarrow> AnomalyDetector \<Rightarrow> AnomalyWorld \<Rightarrow> bool" for env d where
  start: "anw_rows w = [] \<Longrightarrow> an_reach env d w"
| scan: "an_reach env d w \<Longrightarrow> an_reach env d (an_scanForAnomalies env now stamp d w)"
| missing: "an_reach env d w \<Longrightarrow> an_reach env d (an_detectAssetMissing env now stamp d i epc w)"
| moves: "an_reach env d w \<Longrightarrow> an_reach env d (an_detectHighFrequencyMove env now stamp d i epc w)"
| illegal: "an_reach env d w \<Longrightarrow> an_reach env d (an_detectIllegalLocation env now stamp d i epc loc w)"
| resolve: "an_reach env d w \<Longrightarrow> an_reach env d (snd (an_resolveAnomaly env now k who w))"
| query: "an_reach env d w \<Longrightarrow> an_reach env d (snd (an_getActiveAnomalies env junk w))"

definition ano_key :: "AnomalyRow \<Rightarrow> int \<times> string" where
  "ano_key r = (ano_asset r, ano_type r)"

definition an_ok :: "AnomalyWorld \<Rightarrow> bool" where
  "an_ok w \<longleftrightarrow> (\<forall>r \<in> set (anw_rows w). ano_is_resolved r \<longleftrightarrow> ano_resolved_by r \<noteq> None) \<and>
     distinct (map ano_key (filter (\<lambda>r. \<not> ano_is_resolved r) (anw_rows w)))"

lemma an_ok_cong [simp]: "an_ok (w\<lparr>anw_pool := p\<rparr>) = an_ok w" "an_ok (w\<lparr>anw_next_id := n\<rparr>) = an_ok w"
  "an_ok (ano_alert now stamp ty sev msg w) = an_ok w"
  by (simp_all add: an_ok_def ano_alert_def)

text \<open>Rewriting rows without touching what makes them open keeps the invariant; so does resolving some.\<close>

lemma distinct_keys_map:
  assumes key: "\<And>r. ano_key (f r) = ano_key r" and res: "\<And>r. ano_is_resolved r \<Longrightarrow> ano_is_resolved (f r)"
  shows "distinct (map ano_key (filter (\<lambda>r. \<not> ano_is_resolved r) rs)) \<Longrightarrow>
    distinct (map ano_key (filter (\<lambda>r. \<not> ano_is_resolved r) (map f rs)))"
proof (induction rs)
  case (Cons r rs)
  have "ano_key ` {x \<in> f ` set rs. \<not> ano_is_resolved x} \<subseteq> ano_key ` {x \<in> set rs. \<not> ano_is_resolved x}"
  proof
    fix k assume "k \<in> ano_key ` {x \<in> f ` set rs. \<not> ano_is_resolved x}"
    then obtain x where x: "x \<in> set rs" "k = ano_key (f x)" "\<not> ano_is_resolved (f x)" by blast
    then have "k = ano_key x" "\<not> ano_is_resolved x" using key res by auto
    with x(1) show "k \<in> ano_key ` {x \<in> set rs. \<not> ano_is_resolved x}" by blast
  qed
  moreover have "\<not> ano_is_resolved (f r) \<Longrightarrow> \<not> ano_is_resolved r" using res by blast
  ultimately show ?case using Cons key by (auto split: if_splits)
qed simp

lemma an_ok_map:
  assumes "an_ok w" "\<And>r. ano_key (f r) = ano_key r" "\<And>r. ano_is_resolved r \<Longrightarrow> ano_is_resolved (f r)"
    and "\<And>r. (ano_is_resolved r \<longleftrightarrow> ano_resolved_by r \<noteq> None) \<Longrightarrow> (ano_is_resolved (f r) \<longleftrightarrow> ano_resolved_by (f r) \<noteq> None)"
  shows "an_ok (w\<lparr>anw_rows := map f (anw_rows w)\<rparr>)"
  using assms(1) distinct_keys_map [OF assms(2,3)] assms(4) by (simp add: an_ok_def)

lemma an_ok_record: "an_ok w \<Longrightarrow> an_ok (an_recordAnomaly env now stamp i epc ty sev msg loc w)"
proof -
  assume ok: "an_ok w"
  show ?thesis
  proof (cases "find (ano_open i (an_typeToString ty)) (anw_rows w)")
    case None
    then have "\<forall>r \<in> set (anw_rows w). \<not> ano_open i (an_typeToString ty) r" by (simp add: find_None_iff)
    with None ok show ?thesis
      by (auto simp: an_recordAnomaly_def split: sum.split prod.split) (auto simp: an_ok_def ano_open_def ano_key_def)
  next
    case (Some r)
    have "an_ok (w\<lparr>anw_rows := map (\<lambda>x. if ano_id x = ano_id r then x\<lparr>ano_detected_at := now, ano_message := msg\<rparr> else x) (anw_rows w)\<rparr>)"
      using ok by (rule an_ok_map) (auto simp: ano_key_def)
    then have "an_ok (w\<lparr>anw_pool := p, anw_rows := map (\<lambda>x. if ano_id x = ano_id r then x\<lparr>ano_detected_at := now, ano_message := msg\<rparr> else x) (anw_rows w)\<rparr>)" for p
      by (simp add: an_ok_def)
    with Some ok show ?thesis by (simp add: an_recordAnomaly_def split: sum.split prod.split)
  qed
qed

lemma an_ok_fold: "(\<And>x w. an_ok w \<Longrightarrow> an_ok (f x w)) \<Longrightarrow> an_ok w \<Longrightarrow> an_ok (fold f xs w)"
  by (induction xs arbitrary: w) auto

lemma an_ok_resolve: "an_ok w \<Longrightarrow> an_ok (snd (an_resolveAnomaly env now k who w))"
proof -
  assume ok: "an_ok w"
  have "an_ok (w\<lparr>anw_rows := map (\<lambda>r. if ano_id r = k then r\<lparr>ano_is_resolved := True, ano_resolved_at := Some now,
              ano_resolved_by := Some who\<rparr> else r) (anw_rows w)\<rparr>)"
    using ok by (rule an_ok_map) (auto simp: ano_key_def)
  then have "an_ok (w\<lparr>anw_pool := p, anw_rows := map (\<lambda>r. if ano_id r = k then r\<lparr>ano_is_resolved := True, ano_resolved_at := Some now,
              ano_resolved_by := Some who\<rparr> else r) (anw_rows w)\<rparr>)" for p
    by (simp add: an_ok_def)
  with ok show ?thesis by (simp add: an_resolveAnomaly_def split: sum.split prod.split)
qed

text \<open>C29: An asset has at most one open anomaly of a type, and exactly the resolved ones name who resolved them.\<close>

theorem an_one_open:
  assumes "an_reach env d w"
  shows "(\<forall>r \<in> set (anw_rows w). ano_is_resolved r \<longleftrightarrow> ano_resolved_by r \<noteq> None) \<and>
    distinct (map (\<lambda>r. (ano_asset r, ano_type r)) (filter (\<lambda>r. \<not> ano_is_resolved r) (anw_rows w)))"
proof -
  have "an_ok w" using assms
  proof (induction rule: an_reach.induct)
    case (start w)
    then show ?case by (simp add: an_ok_def)
  next
    case (scan w now stamp)
    then show ?case
      by (auto simp: an_scanForAnomalies_def Let_def intro!: an_ok_fold an_ok_record split: sum.split prod.split option.split)
  next
    case (missing w now stamp i epc)
    then show ?case
      by (auto simp: an_detectAssetMissing_def Let_def intro!: an_ok_record split: sum.split prod.split option.split)
  next
    case (moves w now stamp i epc)
    then show ?case
      by (auto simp: an_detectHighFrequencyMove_def Let_def intro!: an_ok_record split: sum.split prod.split)
  next
    case (query w junk)
    then show ?case by (simp add: an_getActiveAnomalies_def an_query_def split: sum.split prod.split)
  qed (simp_all add: an_detectIllegalLocation_def an_ok_record an_ok_resolve)
  then show ?thesis by (simp add: an_ok_def ano_key_def [abs_def])
qed

definition an_world :: "bool \<Rightarrow> AnomalyWorld" where
  "an_world column = \<lparr>anw_pool = tw_pool (te_world 20), anw_rows = [], anw_next_id = 1,
     anw_assets = [(1, ''E1'', ''A'', ''IN_USE'')], anw_stays = [],
     anw_scans = (if column then Some [(1, 0)] else None), anw_alerts = alm_new\<rparr>"

definition an_detector :: AnomalyDetector where
  "an_detector = ad_addIllegalLocation ''A'' ad_new"

lemma an_world_ready: "pool_ready env_full (anw_pool (an_world b))" "db_availableConnections (anw_pool (an_world b)) = [0 ..< 20]"
  by (simp_all add: an_world_def te_world_ready)

lemma an_one_open_witness:
  "distinct (map (\<lambda>r. (ano_asset r, ano_type r)) (filter (\<lambda>r. \<not> ano_is_resolved r)
     (anw_rows (an_detectIllegalLocation env_full 5 '''' an_detector 1 ''E1'' ''A'' (an_world True)))))"
  by (rule an_one_open [of env_full an_detector, THEN conjunct2], rule an_reach.illegal, rule an_reach.start)
    (simp add: an_world_def)

lemma aev_convert_open:
  "rs \<noteq> [] \<Longrightarrow> \<forall>r \<in> set rs. ano_resolved_by r = None \<Longrightarrow> aev_convert known junk rs = ([], False)"
  by (cases rs) (auto simp: aev_of_row_def)

text \<open>The list of the active anomalies is always empty: who resolved an active one is \<open>NULL\<close>, which throws. Each
  call while one is active costs a connection.\<close>

theorem an_active_never_listed:
  assumes "an_reach env d w" "w' = snd (an_getActiveAnomalies env junk w)"
  shows "fst (an_getActiveAnomalies env junk w) = [] \<and>
    (pool_ready env (anw_pool w) \<and> (\<exists>r \<in> set (anw_rows w). \<not> ano_is_resolved r) \<longrightarrow>
      db_availableConnections (anw_pool w') = tl (db_availableConnections (anw_pool w)))"
proof -
  let ?rs = "std_sort (\<lambda>a b. ano_detected_at a > ano_detected_at b) (filter (\<lambda>r. \<not> ano_is_resolved r) (anw_rows w))"
  have "\<forall>r \<in> set ?rs. ano_resolved_by r = None" using an_one_open [OF assms(1), THEN conjunct1] by auto
  then have conv: "?rs \<noteq> [] \<Longrightarrow> aev_convert known junk ?rs = ([], False)" for known by (rule aev_convert_open [rotated])
  have e: "?rs = [] \<longleftrightarrow> \<not> (\<exists>r \<in> set (anw_rows w). \<not> ano_is_resolved r)" by (simp add: filter_empty_conv)
  have "fst (an_getActiveAnomalies env junk w) = []"
    unfolding an_getActiveAnomalies_def an_query_def
    by (cases "?rs = []") (simp_all add: conv split: sum.split prod.split)
  moreover have "db_availableConnections (anw_pool w') = tl (db_availableConnections (anw_pool w))"
    if "pool_ready env (anw_pool w)" "?rs \<noteq> []"
    unfolding assms(2) an_getActiveAnomalies_def an_query_def ready_acquire [OF that(1)] conv [OF that(2)]
    by (cases "db_availableConnections (anw_pool w)") simp_all
  ultimately show ?thesis using e by blast
qed

lemma an_active_never_listed_witness:
  "fst (an_getActiveAnomalies env_full '''' (an_detectIllegalLocation env_full 5 '''' an_detector 1 ''E1'' ''A'' (an_world True))) = []"
  by (rule an_active_never_listed [of env_full an_detector, THEN conjunct1, OF _ refl], rule an_reach.illegal, rule an_reach.start)
    (simp add: an_world_def)

text \<open>On the schema of the scripts the scan finds nothing. Every scan fails on the missing column and loses a
  connection; after as many scans as there are connections nothing is recorded any more by anyone.\<close>

theorem an_scan_drains:
  assumes "pool_ready env (anw_pool w)" "anw_scans w = None"
    and "f = (\<lambda>w. an_scanForAnomalies env now stamp d w)" "n = length (db_availableConnections (anw_pool w))"
  shows "anw_rows ((f ^^ k) w) = anw_rows w \<and> anw_alerts ((f ^^ k) w) = anw_alerts w \<and>
    db_availableConnections (anw_pool ((f ^^ k) w)) = drop k (db_availableConnections (anw_pool w)) \<and>
    anw_rows (an_detectIllegalLocation env now stamp d i epc loc ((f ^^ n) w)) = anw_rows w"
proof -
  have step: "pool_ready env (anw_pool (f v)) \<and> anw_scans (f v) = None \<and> anw_rows (f v) = anw_rows v \<and>
      anw_alerts (f v) = anw_alerts v \<and>
      db_availableConnections (anw_pool (f v)) = tl (db_availableConnections (anw_pool v))"
    if "pool_ready env (anw_pool v)" "anw_scans v = None" for v
    using that by (cases "db_availableConnections (anw_pool v)") (simp_all add: assms(3) an_scanForAnomalies_def ready_acquire)
  have run: "pool_ready env (anw_pool ((f ^^ k) w)) \<and> anw_scans ((f ^^ k) w) = None \<and> anw_rows ((f ^^ k) w) = anw_rows w \<and>
      anw_alerts ((f ^^ k) w) = anw_alerts w \<and>
      db_availableConnections (anw_pool ((f ^^ k) w)) = drop k (db_availableConnections (anw_pool w))" for k
  proof (induction k)
    case (Suc k)
    from step [of "(f ^^ k) w"] Suc show ?case by (simp add: tl_drop drop_Suc)
  qed (simp add: assms(1,2))
  have "an_recordAnomaly env now stamp i epc ty sev msg loc ((f ^^ n) w) = (f ^^ n) w" for ty sev msg
    using run [of n] by (simp add: an_recordAnomaly_def ready_acquire assms(4))
  then show ?thesis using run [of k] run [of n] by (simp add: an_detectIllegalLocation_def)
qed

lemma an_scan_drains_witness:
  "db_availableConnections (anw_pool (((\<lambda>w. an_scanForAnomalies env_full 5 '''' ad_new w) ^^ 19) (an_world False))) = [19]"
  using an_scan_drains [OF an_world_ready(1) _ refl refl, of False 19 5 "''''" ad_new]
  by (simp add: an_world_ready(2)) (simp add: an_world_def)

lemma an_record_first:
  assumes "pool_ready env (anw_pool w)" "db_availableConnections (anw_pool w) = c # cs" "anw_rows w = []"
    and "i \<in> fst ` set (anw_assets w)" "length epc \<le> 24" "length loc \<le> 100"
  shows "anw_rows (an_recordAnomaly env now stamp i epc ty sev msg loc w) \<noteq> []"
  using assms(2-6) by (simp add: an_recordAnomaly_def ready_acquire [OF assms(1)] ano_alert_def)

text \<open>Missing time is read off the clock face. With the column there, an asset without an open anomaly is
  reported as missing exactly when the minutes of its age, without the hours, exceed the threshold: not
  after an hour and ten minutes with the threshold of 30, and never with a threshold of 59 or more.\<close>

theorem an_missing_exact:
  assumes "pool_ready env (anw_pool w)" "2 \<le> length (db_availableConnections (anw_pool w))"
    and "anw_scans w = Some scans" "seen = map snd (filter (\<lambda>s. fst s = i) scans)" "seen \<noteq> []"
    and "i \<in> fst ` set (anw_assets w)" "length epc \<le> 24" "anw_rows w = []"
    and "w' = an_detectAssetMissing env now stamp d i epc w"
  shows "(anw_rows w' \<noteq> [] \<longleftrightarrow> ((now - Max (set seen)) div 60) mod 60 > ad_missingThresholdMinutes d) \<and>
    (ad_missingThresholdMinutes d \<ge> 59 \<longrightarrow> anw_rows w' = [])"
proof -
  obtain c e cs where a: "db_availableConnections (anw_pool w) = c # e # cs"
    using assms(2) by (auto simp: numeral_2_eq_2 Suc_le_length_iff)
  let ?p = "(anw_pool w)\<lparr>db_availableConnections := e # cs, db_inUseCount := db_inUseCount (anw_pool w) + 1\<rparr>"
  have acq: "db_acquire env (anw_pool w) = (Inr c, ?p)" using a by (simp add: ready_acquire [OF assms(1)])
  have p: "pool_ready env ?p" using assms(1) by simp
  have rec: "anw_rows (an_recordAnomaly env now stamp i epc ASSET_MISSING SEV_WARNING msg '''' (w\<lparr>anw_pool := ?p\<rparr>)) \<noteq> []" for msg
    using assms(6-8) p by (intro an_record_first [of _ _ e cs]) simp_all
  have "anw_rows w' \<noteq> [] \<longleftrightarrow> extract_minute (now - Max (set seen)) > ad_missingThresholdMinutes d"
    using rec assms(5,8) by (simp add: assms(9) an_detectAssetMissing_def acq assms(3) assms(4) [symmetric] Let_def)
  moreover have "((now - Max (set seen)) div 60) mod 60 < 60" by simp
  ultimately show ?thesis unfolding extract_minute_def by linarith
qed

lemma an_missing_exact_witness:
  "anw_rows (an_detectAssetMissing env_full 4200 '''' ad_new 1 ''E1'' (an_world True)) = []"
proof -
  have "length (db_availableConnections (anw_pool (an_world True))) \<ge> 2" by (simp add: an_world_ready(2))
  from an_missing_exact [OF an_world_ready(1) this _ refl _ _ _ _ refl, of "[(1, 0)]" 1 "''E1''" 4200 "''''" ad_new]
  show ?thesis by (simp add: an_world_def ad_new_def)
qed

end
