(* ===== verification/Risk_Field.thy ===== *)
theory Risk_Field
  imports Spatial_Random
begin

text \<open>
  The risk side of the AI pipeline: the grid of risks (\<open>runtime/risk_field\<close>) and the analysis of a frame
  (\<open>runtime/ai_analysis_context\<close>). Both spread the risk of a cell over its neighbours by the same double
  loop, with their own radius and decay; the loop is \<open>spread\<close>, its fixpoint-free meaning is \<open>spread_exact\<close>.
  The conversion of a world coordinate to a cell is exact for coordinates whose cell fits an \<open>int32_t\<close>.
\<close>

record RiskCell =
  rc_x :: int
  rc_y :: int
  rc_risk_value :: real
  rc_propagation_risk :: real
  rc_source_asset_count :: u32

definition rc_distance :: "RiskCell \<Rightarrow> RiskCell \<Rightarrow> real" where
  "rc_distance a b = sqrt ((real_of_int (rc_x a - rc_x b))\<^sup>2 + (real_of_int (rc_y a - rc_y b))\<^sup>2)"

section \<open>Spreading the risk of one cell over the others\<close>

text \<open>Cell \<open>i\<close> offers its risk, decayed by the distance, to every other cell closer than the radius.\<close>

definition spread_from :: "real \<Rightarrow> real \<Rightarrow> nat \<Rightarrow> RiskCell list \<Rightarrow> RiskCell list" where
  "spread_from radius decay i m =
     map (\<lambda>j. let source = m ! i; target = m ! j; distance = rc_distance source target in
        if i = j then target
        else if distance < radius
        then target\<lparr>rc_propagation_risk := max (rc_propagation_risk target) (rc_risk_value source * exp (- decay * distance))\<rparr>
        else target) [0..<length m]"

definition spread :: "(real \<Rightarrow> bool) \<Rightarrow> real \<Rightarrow> real \<Rightarrow> RiskCell list \<Rightarrow> RiskCell list" where
  "spread skip radius decay m =
     foldl (\<lambda>m' i. if skip (rc_risk_value (m' ! i)) then m' else spread_from radius decay i m') m [0..<length m]"

text \<open>The offers that reach cell \<open>j\<close> from the cells \<open>is\<close>.\<close>

definition reaches :: "(real \<Rightarrow> bool) \<Rightarrow> real \<Rightarrow> RiskCell list \<Rightarrow> nat \<Rightarrow> nat \<Rightarrow> bool" where
  "reaches skip radius m j i \<longleftrightarrow> i \<noteq> j \<and> \<not> skip (rc_risk_value (m ! i)) \<and> rc_distance (m ! i) (m ! j) < radius"

definition offer :: "real \<Rightarrow> RiskCell list \<Rightarrow> nat \<Rightarrow> nat \<Rightarrow> real" where
  "offer decay m j i = rc_risk_value (m ! i) * exp (- decay * rc_distance (m ! i) (m ! j))"

definition offers :: "(real \<Rightarrow> bool) \<Rightarrow> real \<Rightarrow> real \<Rightarrow> RiskCell list \<Rightarrow> nat \<Rightarrow> nat list \<Rightarrow> real list" where
  "offers skip radius decay m j is = map (offer decay m j) (filter (reaches skip radius m j) is)"

definition raised :: "RiskCell \<Rightarrow> real list \<Rightarrow> RiskCell" where
  "raised c os = c\<lparr>rc_propagation_risk := foldl max (rc_propagation_risk c) os\<rparr>"

lemma raised_base [simp]:
  "rc_x (raised c os) = rc_x c" "rc_y (raised c os) = rc_y c" "rc_risk_value (raised c os) = rc_risk_value c"
  "rc_source_asset_count (raised c os) = rc_source_asset_count c"
  "rc_propagation_risk (raised c os) = foldl max (rc_propagation_risk c) os"
  by (simp_all add: raised_def)

lemma rc_distance_raised [simp]: "rc_distance (raised c os) (raised d os') = rc_distance c d"
  by (simp add: rc_distance_def)

lemma spread_loop:
  assumes "set is \<subseteq> {..<length m}"
  shows "foldl (\<lambda>m' i. if skip (rc_risk_value (m' ! i)) then m' else spread_from radius decay i m') m is =
    map (\<lambda>j. raised (m ! j) (offers skip radius decay m j is)) [0..<length m]"
  using assms
proof (induction "is" rule: rev_induct)
  case Nil
  show ?case by (simp add: offers_def raised_def map_nth)
next
  case (snoc i "is")
  let ?m = "map (\<lambda>j. raised (m ! j) (offers skip radius decay m j is)) [0..<length m]"
  have i: "i < length m" using snoc.prems by simp
  have snoc_raised: "raised (m ! j) (offers skip radius decay m j (is @ [i])) =
      (if reaches skip radius m j i
       then raised (m ! j) (offers skip radius decay m j is)
         \<lparr>rc_propagation_risk := max (rc_propagation_risk (raised (m ! j) (offers skip radius decay m j is))) (offer decay m j i)\<rparr>
       else raised (m ! j) (offers skip radius decay m j is))" for j
    by (simp add: offers_def raised_def)
  show ?case
  proof (cases "skip (rc_risk_value (m ! i))")
    case True
    then have "\<not> reaches skip radius m j i" for j by (simp add: reaches_def)
    with True snoc i show ?thesis by (simp add: snoc_raised)
  next
    case False
    have "spread_from radius decay i ?m = map (\<lambda>j. raised (m ! j) (offers skip radius decay m j (is @ [i]))) [0..<length m]"
      by (rule nth_equalityI) (use False i in \<open>auto simp: spread_from_def Let_def snoc_raised reaches_def offer_def\<close>)
    with False snoc i show ?thesis by simp
  qed
qed

text \<open>The double loop raises every cell to the largest offer that reaches it: the order of the loop, and that it
  reads the list it writes, do not matter.\<close>

lemma spread_exact:
  "spread skip radius decay m = map (\<lambda>j. raised (m ! j) (offers skip radius decay m j [0..<length m])) [0..<length m]"
  unfolding spread_def by (rule spread_loop) auto

lemma length_spread [simp]: "length (spread skip radius decay m) = length m"
  by (simp add: spread_exact)

lemma foldl_max_Max: "foldl max (x::real) ys = Max (insert x (set ys))"
proof (induction ys rule: rev_induct)
  case (snoc y ys)
  have "insert x (set (ys @ [y])) = insert y (insert x (set ys))" by auto
  then show ?case using snoc by (simp add: max.commute)
qed simp

lemma spread_nth:
  assumes "j < length m"
  shows "rc_propagation_risk (spread skip radius decay m ! j) =
    Max (insert (rc_propagation_risk (m ! j)) (offer decay m j ` {i. i < length m \<and> reaches skip radius m j i}))"
proof -
  have "set (offers skip radius decay m j [0..<length m]) = offer decay m j ` {i. i < length m \<and> reaches skip radius m j i}"
    by (auto simp: offers_def)
  with assms show ?thesis by (simp add: spread_exact foldl_max_Max)
qed

section \<open>The grid of risks\<close>

record RiskField =
  rf_grid_size :: int
  rf_cell_size :: real
  rf_risk_map :: "RiskCell list"
  rf_global_risk_index :: real
  rf_propagation_intensity :: real

definition RF_DECAY_FACTOR :: real where "RF_DECAY_FACTOR = 3 / 10"
definition RF_PROPAGATION_RADIUS :: real where "RF_PROPAGATION_RADIUS = 3"

definition rf_new :: RiskField where
  "rf_new = \<lparr>rf_grid_size = 64, rf_cell_size = 10, rf_risk_map = [], rf_global_risk_index = 0, rf_propagation_intensity = 0\<rparr>"

definition rc_zero :: "int \<Rightarrow> int \<Rightarrow> RiskCell" where
  "rc_zero x y = \<lparr>rc_x = x, rc_y = y, rc_risk_value = 0, rc_propagation_risk = 0, rc_source_asset_count = 0\<rparr>"

text \<open>\<open>vector::resize\<close>: new elements are value initialised. For a negative size the loops do not run.\<close>

definition rf_initialize :: "int \<Rightarrow> real \<Rightarrow> RiskField \<Rightarrow> RiskField" where
  "rf_initialize gridSize cellSize f = f\<lparr>rf_grid_size := gridSize, rf_cell_size := cellSize,
     rf_risk_map := (if 0 \<le> gridSize
       then concat (map (\<lambda>i. map (\<lambda>j. rc_zero (int i) (int j)) [0..<nat gridSize]) [0..<nat gridSize])
       else take (nat (gridSize * gridSize)) (rf_risk_map f) @
            replicate (nat (gridSize * gridSize) - length (rf_risk_map f)) (rc_zero 0 0))\<rparr>"

definition rf_shutdown :: "RiskField \<Rightarrow> RiskField" where
  "rf_shutdown f = f\<lparr>rf_risk_map := []\<rparr>"

definition rf_worldToCell :: "RiskField \<Rightarrow> real \<Rightarrow> int" where
  "rf_worldToCell f worldCoord = max 0 (min (rf_grid_size f - 1) (trunc_int (worldCoord / rf_cell_size f)))"

definition rf_inside :: "RiskField \<Rightarrow> int \<Rightarrow> int \<Rightarrow> bool" where
  "rf_inside f x y \<longleftrightarrow> x \<ge> 0 \<and> x < rf_grid_size f \<and> y \<ge> 0 \<and> y < rf_grid_size f"

definition rc_add :: "real \<Rightarrow> RiskCell \<Rightarrow> RiskCell" where
  "rc_add risk c = c\<lparr>rc_risk_value := max (rc_risk_value c) risk, rc_source_asset_count := rc_source_asset_count c + 1\<rparr>"

text \<open>One asset; an index past the end of the map is out of range. The ids are not used.\<close>

definition rf_add :: "(u64 \<times> real) \<times> (real \<times> real) \<Rightarrow> RiskField \<Rightarrow> fault + RiskField" where
  "rf_add a f =
     (case a of ((assetId, risk), (x, y)) \<Rightarrow>
        let cellX = rf_worldToCell f x; cellY = rf_worldToCell f y in
        if rf_inside f cellX cellY then
          let k = nat (cellX * rf_grid_size f + cellY) in
          if k < length (rf_risk_map f)
          then Inr (f\<lparr>rf_risk_map := (rf_risk_map f)[k := rc_add risk (rf_risk_map f ! k)]\<rparr>)
          else Inl OutOfRange
        else Inr f)"

fun rf_add_all :: "((u64 \<times> real) \<times> (real \<times> real)) list \<Rightarrow> RiskField \<Rightarrow> fault + RiskField" where
  "rf_add_all [] f = Inr f"
| "rf_add_all (a # as) f = (case rf_add a f of Inl e \<Rightarrow> Inl e | Inr f' \<Rightarrow> rf_add_all as f')"

definition rc_cleared :: "RiskCell \<Rightarrow> RiskCell" where
  "rc_cleared c = c\<lparr>rc_risk_value := 0, rc_source_asset_count := 0\<rparr>"

definition rf_updateFromAssets :: "(u64 \<times> real) list \<Rightarrow> (real \<times> real) list \<Rightarrow> RiskField \<Rightarrow> fault + RiskField" where
  "rf_updateFromAssets assetRisks assetPositions f =
     rf_add_all (zip assetRisks assetPositions) (f\<lparr>rf_risk_map := map rc_cleared (rf_risk_map f)\<rparr>)"

definition rf_computePropagation :: "RiskField \<Rightarrow> RiskField" where
  "rf_computePropagation f =
     (let start = map (\<lambda>c. c\<lparr>rc_propagation_risk := rc_risk_value c\<rparr>) (rf_risk_map f);
          m = spread (\<lambda>r. r < 1 / 100) RF_PROPAGATION_RADIUS RF_DECAY_FACTOR start;
          n = real (length m);
          sumRisk = foldl (\<lambda>a c. a + rc_risk_value c) 0 m;
          sumPropagation = foldl (\<lambda>a c. a + rc_propagation_risk c) 0 m;
          maxRisk = foldl (\<lambda>a c. max a (rc_risk_value c)) 0 m;
          maxPropagation = foldl (\<lambda>a c. max a (rc_propagation_risk c)) 0 m
      in if m = [] then f\<lparr>rf_risk_map := m\<rparr>
         else f\<lparr>rf_risk_map := m, rf_global_risk_index := sumRisk / n * (6 / 10) + maxRisk * (4 / 10),
                rf_propagation_intensity := sumPropagation / n * (6 / 10) + maxPropagation * (4 / 10)\<rparr>)"

definition rf_getCell :: "(RiskCell \<Rightarrow> real) \<Rightarrow> int \<Rightarrow> int \<Rightarrow> RiskField \<Rightarrow> fault + real" where
  "rf_getCell member x y f =
     (if x < 0 \<or> x \<ge> rf_grid_size f \<or> y < 0 \<or> y \<ge> rf_grid_size f then Inr 0
      else let k = nat (x * rf_grid_size f + y) in
        if k < length (rf_risk_map f) then Inr (member (rf_risk_map f ! k)) else Inl OutOfRange)"

definition rf_getCellRisk :: "int \<Rightarrow> int \<Rightarrow> RiskField \<Rightarrow> fault + real" where
  "rf_getCellRisk = rf_getCell rc_risk_value"

definition rf_getCellPropagationRisk :: "int \<Rightarrow> int \<Rightarrow> RiskField \<Rightarrow> fault + real" where
  "rf_getCellPropagationRisk = rf_getCell rc_propagation_risk"

section \<open>What the grid holds\<close>

definition rf_ready :: "RiskField \<Rightarrow> bool" where
  "rf_ready f \<longleftrightarrow> 0 < rf_grid_size f \<and> length (rf_risk_map f) = nat (rf_grid_size f) * nat (rf_grid_size f)"

definition rf_cell_of :: "RiskField \<Rightarrow> real \<times> real \<Rightarrow> nat" where
  "rf_cell_of f p = nat (rf_worldToCell f (fst p)) * nat (rf_grid_size f) + nat (rf_worldToCell f (snd p))"

lemma length_square: "length (concat (map (\<lambda>i. map (f i) [0..<n]) [0..<m])) = m * n"
  by (simp add: length_concat o_def sum_list_triv)

lemma nth_square: "i < m \<Longrightarrow> j < n \<Longrightarrow> concat (map (\<lambda>i. map (f i) [0..<n]) [0..<m]) ! (i * n + j) = f i j"
proof (induction m)
  case (Suc m)
  show ?case
  proof (cases "i < m")
    case True
    then have "i * n + j < m * n" using Suc.prems(2)
      by (metis add.commute add_less_cancel_left less_le_trans mult_Suc mult_le_mono1 Suc_leI)
    with True Suc show ?thesis by (simp add: nth_append length_square)
  next
    case False
    then have "i = m" using Suc.prems by simp
    then show ?thesis using Suc.prems by (simp add: nth_append length_square)
  qed
qed simp

lemma rf_initialize_ready: "0 < g \<Longrightarrow> rf_ready (rf_initialize g c f)"
  by (simp add: rf_ready_def rf_initialize_def length_square)

lemma rf_worldToCell_range: "0 < rf_grid_size f \<Longrightarrow> 0 \<le> rf_worldToCell f w \<and> rf_worldToCell f w < rf_grid_size f"
  by (simp add: rf_worldToCell_def)

lemma square_index: "i < n \<Longrightarrow> j < n \<Longrightarrow> i * n + j < n * (n::nat)"
  by (metis add.commute add_less_cancel_left less_le_trans mult_Suc mult_le_mono1 Suc_leI)

lemma rf_cell_of_less: "rf_ready f \<Longrightarrow> rf_cell_of f p < length (rf_risk_map f)"
  using rf_worldToCell_range [of f] by (auto simp: rf_ready_def rf_cell_of_def intro!: square_index)

lemma rf_add_ready:
  assumes "rf_ready f"
  shows "rf_add ((i, r), p) f = Inr (f\<lparr>rf_risk_map := (rf_risk_map f)[rf_cell_of f p := rc_add r (rf_risk_map f ! rf_cell_of f p)]\<rparr>)"
proof -
  have g: "0 < rf_grid_size f" using assms by (simp add: rf_ready_def)
  have "nat (rf_worldToCell f (fst p) * rf_grid_size f + rf_worldToCell f (snd p)) = rf_cell_of f p"
    using rf_worldToCell_range [OF g] g by (simp add: rf_cell_of_def nat_add_distrib nat_mult_distrib)
  then show ?thesis using rf_worldToCell_range [OF g] rf_cell_of_less [OF assms, of p]
    by (cases p) (simp add: rf_add_def Let_def rf_inside_def)
qed

definition rf_hits :: "RiskField \<Rightarrow> ((u64 \<times> real) \<times> (real \<times> real)) list \<Rightarrow> nat \<Rightarrow> real list" where
  "rf_hits f as k = map (snd \<circ> fst) (filter (\<lambda>a. rf_cell_of f (snd a) = k) as)"

text \<open>The cell \<open>c\<close> after the assets with risks \<open>rs\<close> were counted in it.\<close>

definition rc_hit :: "RiskCell \<Rightarrow> real list \<Rightarrow> RiskCell" where
  "rc_hit c rs = c\<lparr>rc_risk_value := foldl max (rc_risk_value c) rs,
     rc_source_asset_count := rc_source_asset_count c + of_nat (length rs)\<rparr>"

lemma rc_hit_Nil [simp]: "rc_hit c [] = c"
  by (simp add: rc_hit_def)

lemma rc_hit_Cons: "rc_hit c (r # rs) = rc_hit (rc_add r c) rs"
  by (simp add: rc_hit_def rc_add_def algebra_simps)

lemma rf_cell_of_cong: "rf_cell_of (f\<lparr>rf_risk_map := m\<rparr>) p = rf_cell_of f p"
  by (simp add: rf_cell_of_def rf_worldToCell_def)

lemma rf_add_all_ready:
  "rf_ready f \<Longrightarrow> rf_add_all as f =
     Inr (f\<lparr>rf_risk_map := map (\<lambda>k. rc_hit (rf_risk_map f ! k) (rf_hits f as k)) [0..<length (rf_risk_map f)]\<rparr>)"
proof (induction as arbitrary: f)
  case Nil
  then show ?case by (simp add: rf_hits_def map_nth)
next
  case (Cons a as)
  obtain i r p where a: "a = ((i, r), p)" by (metis surj_pair)
  let ?m = "rf_risk_map f" and ?k = "rf_cell_of f p"
  let ?f = "f\<lparr>rf_risk_map := ?m[?k := rc_add r (?m ! ?k)]\<rparr>"
  have ready: "rf_ready ?f" using Cons.prems by (simp add: rf_ready_def)
  have hits: "rf_hits f (a # as) k = (if k = ?k then r # rf_hits f as k else rf_hits f as k)" for k
    by (simp add: rf_hits_def a)
  have same: "rf_hits ?f as k = rf_hits f as k" for k by (simp add: rf_hits_def rf_cell_of_cong)
  have k: "?k < length ?m" by (rule rf_cell_of_less [OF Cons.prems])
  have cell: "rc_hit (?m[?k := rc_add r (?m ! ?k)] ! k) (rf_hits f as k) = rc_hit (?m ! k) (rf_hits f (a # as) k)" if "k < length ?m" for k
    using that k by (simp add: hits nth_list_update rc_hit_Cons)
  show ?case
    using Cons.IH [OF ready] rf_add_ready [OF Cons.prems, of i r p] cell
    by (simp add: a same del: rf_add_all.simps(1) cong: map_cong)
qed

text \<open>The largest risk among the assets of a cell, 0 if there is none.\<close>

definition rf_density :: "RiskField \<Rightarrow> ((u64 \<times> real) \<times> (real \<times> real)) list \<Rightarrow> int \<Rightarrow> int \<Rightarrow> real" where
  "rf_density f as x y = foldl max 0
     (map (snd \<circ> fst) (filter (\<lambda>a. rf_worldToCell f (fst (snd a)) = x \<and> rf_worldToCell f (snd (snd a)) = y) as))"

definition cell_distance :: "int \<Rightarrow> int \<Rightarrow> int \<Rightarrow> int \<Rightarrow> real" where
  "cell_distance a b x y = sqrt ((real_of_int (a - x))\<^sup>2 + (real_of_int (b - y))\<^sup>2)"

lemma square_index_eq:
  assumes "i < n" "j < n" "a < n" "b < (n::nat)"
  shows "a * n + b = i * n + j \<longleftrightarrow> a = i \<and> b = j"
proof
  assume eq: "a * n + b = i * n + j"
  then have "(a * n + b) div n = (i * n + j) div n" "(a * n + b) mod n = (i * n + j) mod n" by simp_all
  then show "a = i \<and> b = j" using assms by simp
qed simp

lemma rf_hits_density:
  assumes "rf_ready f" "0 \<le> x" "x < rf_grid_size f" "0 \<le> y" "y < rf_grid_size f"
  shows "foldl max 0 (rf_hits f as (nat x * nat (rf_grid_size f) + nat y)) = rf_density f as x y"
proof -
  have "rf_cell_of f (snd a) = nat x * nat (rf_grid_size f) + nat y \<longleftrightarrow>
      rf_worldToCell f (fst (snd a)) = x \<and> rf_worldToCell f (snd (snd a)) = y" for a :: "(u64 \<times> real) \<times> (real \<times> real)"
  proof -
    have w: "0 \<le> rf_worldToCell f v \<and> rf_worldToCell f v < rf_grid_size f" for v
      using rf_worldToCell_range assms(1) by (simp add: rf_ready_def)
    show ?thesis unfolding rf_cell_of_def
      by (subst square_index_eq) (use w assms in \<open>auto simp: eq_nat_nat_iff\<close>)
  qed
  then show ?thesis by (simp add: rf_hits_def rf_density_def)
qed

lemma rf_updated:
  assumes "0 < g" "f = rf_initialize g c f0"
  obtains f1 where "rf_updateFromAssets rs ps f = Inr f1" "rf_ready f1" "rf_grid_size f1 = g"
    "\<And>x y. 0 \<le> x \<Longrightarrow> x < g \<Longrightarrow> 0 \<le> y \<Longrightarrow> y < g \<Longrightarrow>
      rc_x (rf_risk_map f1 ! (nat x * nat g + nat y)) = x \<and> rc_y (rf_risk_map f1 ! (nat x * nat g + nat y)) = y \<and>
      rc_risk_value (rf_risk_map f1 ! (nat x * nat g + nat y)) = rf_density f (zip rs ps) x y"
proof -
  let ?f = "f\<lparr>rf_risk_map := map rc_cleared (rf_risk_map f)\<rparr>"
  let ?m = "map (\<lambda>k. rc_hit (rf_risk_map ?f ! k) (rf_hits f (zip rs ps) k)) [0..<nat g * nat g]"
  have g: "rf_grid_size f = g" using assms(2) by (simp add: rf_initialize_def)
  have f: "rf_ready f" using rf_initialize_ready [OF assms(1)] assms(2) by simp
  then have len: "length (rf_risk_map f) = nat g * nat g" by (simp add: rf_ready_def g)
  have "rf_hits ?f (zip rs ps) k = rf_hits f (zip rs ps) k" for k by (simp add: rf_hits_def rf_cell_of_cong)
  moreover have ready: "rf_ready ?f" using f by (simp add: rf_ready_def)
  ultimately have upd: "rf_updateFromAssets rs ps f = Inr (f\<lparr>rf_risk_map := ?m\<rparr>)"
    using rf_add_all_ready [OF ready, of "zip rs ps"] by (simp add: rf_updateFromAssets_def len)
  show ?thesis
  proof (rule that [OF upd])
    show "rf_ready (f\<lparr>rf_risk_map := ?m\<rparr>)" using assms(1) by (simp add: rf_ready_def g)
    show "rf_grid_size (f\<lparr>rf_risk_map := ?m\<rparr>) = g" by (simp add: g)
    fix x y assume xy: "0 \<le> x" "x < g" "0 \<le> y" "y < g"
    let ?k = "nat x * nat g + nat y"
    have k: "?k < nat g * nat g" by (rule square_index) (use xy in auto)
    have "rf_risk_map f ! ?k = rc_zero (int (nat x)) (int (nat y))"
      using xy nth_square [of "nat x" "nat g" "nat y" "nat g" "\<lambda>i j. rc_zero (int i) (int j)"] assms by (simp add: rf_initialize_def)
    then show "rc_x (rf_risk_map (f\<lparr>rf_risk_map := ?m\<rparr>) ! ?k) = x \<and> rc_y (rf_risk_map (f\<lparr>rf_risk_map := ?m\<rparr>) ! ?k) = y \<and>
        rc_risk_value (rf_risk_map (f\<lparr>rf_risk_map := ?m\<rparr>) ! ?k) = rf_density f (zip rs ps) x y"
      using xy k len rf_hits_density [OF f, of x y "zip rs ps"] by (simp add: g rc_hit_def rc_cleared_def rc_zero_def)
  qed
qed

lemma rf_getCell_ready:
  assumes "rf_ready f" "rf_grid_size f = g" "0 \<le> x" "x < g" "0 \<le> y" "y < g"
  shows "rf_getCell member x y f = Inr (member (rf_risk_map f ! (nat x * nat g + nat y)))"
  using assms square_index [of "nat x" "nat g" "nat y"]
  by (simp add: rf_getCell_def rf_ready_def Let_def nat_add_distrib nat_mult_distrib)

lemma rf_propagated_map:
  "rf_risk_map (rf_computePropagation f) = spread (\<lambda>r. r < 1 / 100) RF_PROPAGATION_RADIUS RF_DECAY_FACTOR
     (map (\<lambda>c. c\<lparr>rc_propagation_risk := rc_risk_value c\<rparr>) (rf_risk_map f))"
  "rf_grid_size (rf_computePropagation f) = rf_grid_size f"
  by (simp_all add: rf_computePropagation_def Let_def)

text \<open>The list holds the square of cells in row order, with the risks \<open>d\<close>.\<close>

definition grid_of :: "int \<Rightarrow> RiskCell list \<Rightarrow> (int \<Rightarrow> int \<Rightarrow> real) \<Rightarrow> bool" where
  "grid_of g s d \<longleftrightarrow> (\<forall>a b. 0 \<le> a \<and> a < g \<and> 0 \<le> b \<and> b < g \<longrightarrow> rc_x (s ! (nat a * nat g + nat b)) = a \<and>
      rc_y (s ! (nat a * nat g + nat b)) = b \<and> rc_risk_value (s ! (nat a * nat g + nat b)) = d a b)"

lemma grid_ofD:
  assumes "grid_of g s d" "0 \<le> a" "a < g" "0 \<le> b" "b < g"
  shows "rc_x (s ! (nat a * nat g + nat b)) = a" "rc_y (s ! (nat a * nat g + nat b)) = b"
    "rc_risk_value (s ! (nat a * nat g + nat b)) = d a b"
  using assms unfolding grid_of_def by blast+

lemma grid_offer:
  assumes cell: "grid_of g s d"
    and xy: "0 \<le> x" "x < g" "0 \<le> y" "y < g" and ab: "0 \<le> a" "a < g" "0 \<le> b" "b < g"
  shows "offer decay s (nat x * nat g + nat y) (nat a * nat g + nat b) = d a b * exp (- decay * cell_distance a b x y)"
    "reaches skip radius s (nat x * nat g + nat y) (nat a * nat g + nat b) \<longleftrightarrow>
      (a, b) \<noteq> (x, y) \<and> \<not> skip (d a b) \<and> cell_distance a b x y < radius"
proof -
  have dist: "rc_distance (s ! (nat a * nat g + nat b)) (s ! (nat x * nat g + nat y)) = cell_distance a b x y"
    by (simp add: rc_distance_def cell_distance_def grid_ofD [OF cell ab] grid_ofD [OF cell xy])
  show "offer decay s (nat x * nat g + nat y) (nat a * nat g + nat b) = d a b * exp (- decay * cell_distance a b x y)"
    by (simp only: offer_def dist grid_ofD [OF cell ab])
  have "nat a * nat g + nat b = nat x * nat g + nat y \<longleftrightarrow> nat a = nat x \<and> nat b = nat y"
    by (rule square_index_eq) (use ab xy in auto)
  also have "\<dots> \<longleftrightarrow> (a, b) = (x, y)" using ab xy by (simp add: eq_nat_nat_iff)
  finally show "reaches skip radius s (nat x * nat g + nat y) (nat a * nat g + nat b) \<longleftrightarrow>
      (a, b) \<noteq> (x, y) \<and> \<not> skip (d a b) \<and> cell_distance a b x y < radius"
    by (simp only: reaches_def dist grid_ofD [OF cell ab])
qed

lemma grid_coords:
  assumes "i < nat g * nat g"
  obtains a b where "0 \<le> a" "a < g" "0 \<le> b" "b < g" "i = nat a * nat g + nat b"
proof (rule that [of "int (i div nat g)" "int (i mod nat g)"])
  have g: "0 < nat g" using assms by (cases "nat g") auto
  show "int (i div nat g) < g" using less_mult_imp_div_less [OF assms] g by linarith
  have "i mod nat g < nat g" using g by simp
  then show "int (i mod nat g) < g" by linarith
  show "i = nat (int (i div nat g)) * nat g + nat (int (i mod nat g))" by simp
qed simp_all

lemma grid_spread:
  assumes cell: "grid_of g s d"
    and len: "length s = nat g * nat g" and xy: "0 \<le> x" "x < g" "0 \<le> y" "y < g"
  shows "rc_propagation_risk (spread skip radius decay s ! (nat x * nat g + nat y)) =
    Max (insert (rc_propagation_risk (s ! (nat x * nat g + nat y)))
      {d a b * exp (- decay * cell_distance a b x y) | a b. 0 \<le> a \<and> a < g \<and> 0 \<le> b \<and> b < g \<and>
         (a, b) \<noteq> (x, y) \<and> \<not> skip (d a b) \<and> cell_distance a b x y < radius})"
proof -
  let ?k = "nat x * nat g + nat y"
  have at: "nat a * nat g + nat b < nat g * nat g" if "0 \<le> a" "a < g" "0 \<le> b" "b < g" for a b
    by (rule square_index) (use that in auto)
  have "offer decay s ?k ` {i. i < length s \<and> reaches skip radius s ?k i} =
    {d a b * exp (- decay * cell_distance a b x y) | a b. 0 \<le> a \<and> a < g \<and> 0 \<le> b \<and> b < g \<and>
       (a, b) \<noteq> (x, y) \<and> \<not> skip (d a b) \<and> cell_distance a b x y < radius}" (is "?L = ?R")
  proof
    show "?L \<subseteq> ?R"
    proof
      fix v assume "v \<in> ?L"
      then obtain i where i: "i < nat g * nat g" "reaches skip radius s ?k i" "v = offer decay s ?k i" using len by auto
      from i(1) obtain a b where ab: "0 \<le> a" "a < g" "0 \<le> b" "b < g" "i = nat a * nat g + nat b" by (rule grid_coords)
      have "v = d a b * exp (- decay * cell_distance a b x y)"
        by (rule trans [OF i(3) [unfolded ab(5)] grid_offer(1) [OF cell xy ab(1-4)]])
      moreover have "(a, b) \<noteq> (x, y) \<and> \<not> skip (d a b) \<and> cell_distance a b x y < radius"
        using i(2) by (simp only: ab(5) grid_offer(2) [OF cell xy ab(1-4)] simp_thms)
      ultimately show "v \<in> ?R" using ab(1-4) by blast
    qed
    show "?R \<subseteq> ?L"
    proof
      fix v assume "v \<in> ?R"
      then obtain a b where ab: "0 \<le> a" "a < g" "0 \<le> b" "b < g"
        and v: "v = d a b * exp (- decay * cell_distance a b x y)"
          "(a, b) \<noteq> (x, y) \<and> \<not> skip (d a b) \<and> cell_distance a b x y < radius" by blast
      have "reaches skip radius s ?k (nat a * nat g + nat b)" using v(2) by (simp only: grid_offer(2) [OF cell xy ab] simp_thms)
      moreover have "v = offer decay s ?k (nat a * nat g + nat b)"
        by (rule trans [OF v(1) grid_offer(1) [OF cell xy ab, symmetric]])
      ultimately show "v \<in> ?L" using at [OF ab] len by (intro image_eqI [of _ _ "nat a * nat g + nat b"]) simp_all
    qed
  qed
  then show ?thesis using spread_nth [of ?k s skip radius decay] at [OF xy] len by simp
qed

lemma spread_risk: "k < length m \<Longrightarrow> rc_risk_value (spread skip radius decay m ! k) = rc_risk_value (m ! k)"
  by (simp add: spread_exact)

text \<open>After a frame every cell of the grid shows the largest risk of the assets in it, and its propagated risk is the
  largest of that and of what the cells closer than three cells offer, decayed by the distance.\<close>

theorem rf_frame_exact:
  assumes "0 < g" "f = rf_initialize g c f0"
  shows "\<exists>f1 f2. rf_updateFromAssets rs ps f = Inr f1 \<and> f2 = rf_computePropagation f1 \<and>
    (\<forall>x y. 0 \<le> x \<and> x < g \<and> 0 \<le> y \<and> y < g \<longrightarrow>
      rf_getCellRisk x y f2 = Inr (rf_density f (zip rs ps) x y) \<and>
      rf_getCellPropagationRisk x y f2 = Inr (Max (insert (rf_density f (zip rs ps) x y)
        {rf_density f (zip rs ps) a b * exp (- (3 / 10) * cell_distance a b x y) | a b.
           0 \<le> a \<and> a < g \<and> 0 \<le> b \<and> b < g \<and> (a, b) \<noteq> (x, y) \<and>
           \<not> rf_density f (zip rs ps) a b < 1 / 100 \<and> cell_distance a b x y < 3})))"
proof -
  let ?d = "rf_density f (zip rs ps)"
  obtain f1 where f1: "rf_updateFromAssets rs ps f = Inr f1" "rf_ready f1" "rf_grid_size f1 = g"
    and cell: "\<And>x y. 0 \<le> x \<Longrightarrow> x < g \<Longrightarrow> 0 \<le> y \<Longrightarrow> y < g \<Longrightarrow>
      rc_x (rf_risk_map f1 ! (nat x * nat g + nat y)) = x \<and> rc_y (rf_risk_map f1 ! (nat x * nat g + nat y)) = y \<and>
      rc_risk_value (rf_risk_map f1 ! (nat x * nat g + nat y)) = ?d x y"
    using rf_updated [OF assms] by metis
  let ?f2 = "rf_computePropagation f1" and ?s = "map (\<lambda>c. c\<lparr>rc_propagation_risk := rc_risk_value c\<rparr>) (rf_risk_map f1)"
  have len: "length (rf_risk_map f1) = nat g * nat g" using f1 by (simp add: rf_ready_def)
  have f2: "rf_ready ?f2" "rf_grid_size ?f2 = g" using f1 by (simp_all add: rf_ready_def rf_propagated_map)
  have at: "nat a * nat g + nat b < nat g * nat g" if "0 \<le> a" "a < g" "0 \<le> b" "b < g" for a b
    by (rule square_index) (use that in auto)
  have start: "grid_of g ?s ?d" unfolding grid_of_def using cell at len by simp
  have "rf_getCellRisk x y ?f2 = Inr (?d x y) \<and> rf_getCellPropagationRisk x y ?f2 = Inr (Max (insert (?d x y)
        {?d a b * exp (- (3 / 10) * cell_distance a b x y) | a b. 0 \<le> a \<and> a < g \<and> 0 \<le> b \<and> b < g \<and>
           (a, b) \<noteq> (x, y) \<and> \<not> ?d a b < 1 / 100 \<and> cell_distance a b x y < 3}))"
    if xy: "0 \<le> x" "x < g" "0 \<le> y" "y < g" for x y
  proof -
    have own: "rc_propagation_risk (?s ! (nat x * nat g + nat y)) = ?d x y" using cell [OF xy] at [OF xy] len by simp
    have slen: "length ?s = nat g * nat g" using len by simp
    have "rc_propagation_risk (rf_risk_map ?f2 ! (nat x * nat g + nat y)) = Max (insert (?d x y)
        {?d a b * exp (- (3 / 10) * cell_distance a b x y) | a b. 0 \<le> a \<and> a < g \<and> 0 \<le> b \<and> b < g \<and>
           (a, b) \<noteq> (x, y) \<and> \<not> ?d a b < 1 / 100 \<and> cell_distance a b x y < 3})"
      using grid_spread [OF start slen xy, of "\<lambda>r. r < 1 / 100" 3 "3 / 10", unfolded own]
      by (simp only: rf_propagated_map RF_PROPAGATION_RADIUS_def RF_DECAY_FACTOR_def)
    moreover have "rc_risk_value (rf_risk_map ?f2 ! (nat x * nat g + nat y)) = ?d x y"
      using grid_ofD [OF start xy] at [OF xy] slen by (simp only: rf_propagated_map spread_risk)
    ultimately show ?thesis
      by (simp only: rf_getCellRisk_def rf_getCellPropagationRisk_def rf_getCell_ready [OF f2 xy])
  qed
  then show ?thesis using f1(1) by blast
qed

section \<open>The indices of the grid\<close>

text \<open>\<open>mixed\<close>: six tenths of the mean and four tenths of the maximum, as both indices are made.\<close>

definition mixed :: "real list \<Rightarrow> real" where
  "mixed xs = foldl (+) 0 xs / real (length xs) * (6 / 10) + foldl max 0 xs * (4 / 10)"

lemma foldl_field: "foldl (\<lambda>a c. h a (v c)) z xs = foldl h z (map v xs)"
  by (induction xs arbitrary: z) auto

lemma foldl_plus_sum: "foldl (+) (z::real) xs = z + sum_list xs"
  by (induction xs arbitrary: z) auto

lemma sum_list_bounds:
  assumes "\<And>x. x \<in> set xs \<Longrightarrow> (l::real) \<le> x \<and> x \<le> u"
  shows "real (length xs) * l \<le> sum_list xs \<and> sum_list xs \<le> real (length xs) * u"
  using assms by (induction xs) (fastforce simp: algebra_simps)+

lemma foldl_max_bounds:
  assumes "\<And>x. x \<in> set xs \<Longrightarrow> x \<le> (u::real)" "z \<le> u"
  shows "z \<le> foldl max z xs \<and> foldl max z xs \<le> u"
  using assms by (auto simp: foldl_max_Max)

lemma mixed_bounds:
  assumes "\<And>x. x \<in> set xs \<Longrightarrow> 0 \<le> x \<and> x \<le> 1" "xs \<noteq> []"
  shows "0 \<le> mixed xs \<and> mixed xs \<le> 1"
proof -
  have n: "0 < real (length xs)" using assms(2) by simp
  have "0 \<le> sum_list xs" "sum_list xs \<le> real (length xs)" using sum_list_bounds [of xs 0 1] assms(1) by auto
  then have mean: "0 \<le> sum_list xs / real (length xs)" "sum_list xs / real (length xs) \<le> 1"
    using n by (simp_all add: divide_simps)
  have "0 \<le> foldl max 0 xs" "foldl max 0 xs \<le> 1" using foldl_max_bounds [of xs 1 0] assms(1) by auto
  with mean show ?thesis by (simp add: mixed_def foldl_plus_sum)
qed

lemma mixed_mono:
  assumes "length xs = length ys" "\<And>k. k < length xs \<Longrightarrow> xs ! k \<le> ys ! k"
  shows "mixed xs \<le> mixed ys"
proof -
  have all: "list_all2 (\<le>) xs ys" using assms by (simp add: list_all2_conv_all_nth)
  have "sum_list xs \<le> sum_list ys" using all by (induction rule: list_all2_induct) auto
  then have "sum_list xs / real (length xs) \<le> sum_list ys / real (length ys)"
    using assms(1) by (simp add: divide_right_mono)
  moreover have "foldl max a xs \<le> foldl max b ys" if "a \<le> b" for a b
    using all that
  proof (induction arbitrary: a b rule: list_all2_induct)
    case (Cons x xs y ys)
    show ?case using Cons.IH [OF max.mono [OF Cons.prems Cons.hyps(1)]] by simp
  qed simp
  then have "foldl max 0 xs \<le> foldl max 0 ys" by blast
  ultimately show ?thesis by (simp add: mixed_def foldl_plus_sum)
qed

lemma rf_indices:
  assumes "rf_risk_map f \<noteq> []"
  shows "rf_global_risk_index (rf_computePropagation f) = mixed (map rc_risk_value (rf_risk_map (rf_computePropagation f)))"
    "rf_propagation_intensity (rf_computePropagation f) = mixed (map rc_propagation_risk (rf_risk_map (rf_computePropagation f)))"
proof -
  have "spread (\<lambda>r. r < 1 / 100) RF_PROPAGATION_RADIUS RF_DECAY_FACTOR
     (map (\<lambda>c. c\<lparr>rc_propagation_risk := rc_risk_value c\<rparr>) (rf_risk_map f)) \<noteq> []"
    using assms by (simp flip: length_greater_0_conv)
  then show "rf_global_risk_index (rf_computePropagation f) = mixed (map rc_risk_value (rf_risk_map (rf_computePropagation f)))"
    "rf_propagation_intensity (rf_computePropagation f) = mixed (map rc_propagation_risk (rf_risk_map (rf_computePropagation f)))"
    by (simp_all add: rf_computePropagation_def Let_def mixed_def foldl_field [of "(+)" rc_risk_value] foldl_field [of "(+)" rc_propagation_risk]
        foldl_field [of max rc_risk_value] foldl_field [of max rc_propagation_risk])
qed

lemma offer_bounds:
  assumes "0 \<le> rc_risk_value (m ! i)" "rc_risk_value (m ! i) \<le> 1" "0 \<le> decay"
  shows "0 \<le> offer decay m j i \<and> offer decay m j i \<le> 1"
proof -
  have "exp (- decay * rc_distance (m ! i) (m ! j)) \<le> 1" using assms(3) by (simp add: rc_distance_def)
  then have "rc_risk_value (m ! i) * exp (- decay * rc_distance (m ! i) (m ! j)) \<le> 1 * 1"
    using assms by (intro mult_mono) auto
  then show ?thesis using assms by (simp add: offer_def)
qed

lemma spread_bounds:
  assumes "\<And>c. c \<in> set m \<Longrightarrow> 0 \<le> rc_risk_value c \<and> rc_risk_value c \<le> 1"
    "\<And>c. c \<in> set m \<Longrightarrow> rc_propagation_risk c \<le> 1" "k < length m" "0 \<le> decay"
  shows "rc_propagation_risk (m ! k) \<le> rc_propagation_risk (spread skip radius decay m ! k) \<and>
    rc_propagation_risk (spread skip radius decay m ! k) \<le> 1"
proof -
  have "offer decay m k i \<le> 1" if "i < length m" for i
    using offer_bounds [of m i decay k] assms(1) [OF nth_mem [OF that]] assms(4) by simp
  moreover have "rc_propagation_risk (m ! k) \<le> 1" using assms(2) [OF nth_mem [OF assms(3)]] .
  ultimately show ?thesis using assms(3) by (auto simp: spread_nth)
qed

text \<open>Risks between 0 and 1 give indices between 0 and 1, and the propagated index is never below the global one.\<close>

theorem rf_indices_bounded:
  assumes "rf_ready f" "list_all (\<lambda>c. 0 \<le> rc_risk_value c \<and> rc_risk_value c \<le> 1) (rf_risk_map f)"
    "f' = rf_computePropagation f"
  shows "0 \<le> rf_global_risk_index f' \<and> rf_global_risk_index f' \<le> rf_propagation_intensity f' \<and> rf_propagation_intensity f' \<le> 1"
proof -
  let ?s = "map (\<lambda>c. c\<lparr>rc_propagation_risk := rc_risk_value c\<rparr>) (rf_risk_map f)"
  have risk: "0 \<le> rc_risk_value c \<and> rc_risk_value c \<le> 1" if "c \<in> set (rf_risk_map f)" for c
    using assms(2) that by (simp add: list_all_iff)
  have nonempty: "rf_risk_map f \<noteq> []" using assms(1) by (auto simp: rf_ready_def)
  have map': "rf_risk_map f' = spread (\<lambda>r. r < 1 / 100) RF_PROPAGATION_RADIUS RF_DECAY_FACTOR ?s"
    by (simp add: assms(3) rf_propagated_map)
  have len: "length (rf_risk_map f') = length ?s" by (simp add: map')
  have cell: "rc_risk_value (rf_risk_map f' ! k) = rc_risk_value (rf_risk_map f ! k)"
    "rc_risk_value (rf_risk_map f ! k) \<le> rc_propagation_risk (rf_risk_map f' ! k) \<and> rc_propagation_risk (rf_risk_map f' ! k) \<le> 1"
    if k: "k < length (rf_risk_map f)" for k
  proof -
    show "rc_risk_value (rf_risk_map f' ! k) = rc_risk_value (rf_risk_map f ! k)" using k by (simp add: map' spread_risk)
    have "rc_propagation_risk (?s ! k) \<le> rc_propagation_risk (rf_risk_map f' ! k) \<and> rc_propagation_risk (rf_risk_map f' ! k) \<le> 1"
      unfolding map' by (rule spread_bounds) (use risk k in \<open>auto simp: RF_DECAY_FACTOR_def\<close>)
    then show "rc_risk_value (rf_risk_map f ! k) \<le> rc_propagation_risk (rf_risk_map f' ! k) \<and> rc_propagation_risk (rf_risk_map f' ! k) \<le> 1"
      using k by simp
  qed
  have r: "0 \<le> rc_risk_value (rf_risk_map f ! k)" "rc_risk_value (rf_risk_map f ! k) \<le> 1" if "k < length (rf_risk_map f)" for k
    using risk [OF nth_mem [OF that]] by auto
  have p: "0 \<le> rc_propagation_risk (rf_risk_map f' ! k)" if "k < length (rf_risk_map f)" for k
    using r(1) [OF that] cell(2) [OF that] by linarith
  have "0 \<le> mixed (map rc_risk_value (rf_risk_map f'))"
    by (rule conjunct1 [OF mixed_bounds]) (use len nonempty cell r in \<open>auto simp: in_set_conv_nth\<close>)
  moreover have "mixed (map rc_risk_value (rf_risk_map f')) \<le> mixed (map rc_propagation_risk (rf_risk_map f'))"
    by (rule mixed_mono) (use len cell in auto)
  moreover have "mixed (map rc_propagation_risk (rf_risk_map f')) \<le> 1"
    by (rule conjunct2 [OF mixed_bounds]) (use len nonempty cell p in \<open>auto simp: in_set_conv_nth\<close>)
  ultimately show ?thesis by (simp add: assms(3) rf_indices [OF nonempty])
qed

text \<open>Before \<open>initialize\<close> and after \<open>shutdown\<close> the grid has its size but no cells: every query of a cell of the
  grid, and every asset, indexes past the end of the empty vector.\<close>

theorem rf_empty_out_of_range:
  assumes "rf_risk_map f = []" "0 \<le> x" "x < rf_grid_size f" "0 \<le> y" "y < rf_grid_size f"
  shows "rf_getCellRisk x y f = Inl OutOfRange \<and> rf_getCellPropagationRisk x y f = Inl OutOfRange \<and>
    rf_updateFromAssets [(i, r)] [p] f = Inl OutOfRange"
proof -
  have "rf_inside f (rf_worldToCell f v) (rf_worldToCell f w)" for v w
    using assms rf_worldToCell_range [of f] by (simp add: rf_inside_def)
  then show ?thesis using assms
    by (cases p) (simp add: rf_getCellRisk_def rf_getCellPropagationRisk_def rf_getCell_def rf_updateFromAssets_def rf_add_def
        Let_def rf_worldToCell_def rf_inside_def)
qed

lemma rf_indices_bounded_witness:
  "rf_propagation_intensity (rf_computePropagation (rf_initialize 2 10 rf_new)) \<le> 1 \<and> rf_ready (rf_initialize 2 10 rf_new)"
proof -
  have ready: "rf_ready (rf_initialize 2 10 rf_new)" by (rule rf_initialize_ready) simp
  have "list_all (\<lambda>c. 0 \<le> rc_risk_value c \<and> rc_risk_value c \<le> 1) (rf_risk_map (rf_initialize 2 10 rf_new))"
    by (auto simp: rf_initialize_def list_all_iff rc_zero_def)
  from rf_indices_bounded [OF ready this refl] ready show ?thesis by blast
qed

lemma rf_empty_out_of_range_witness:
  "rf_getCellRisk 3 4 (rf_shutdown (rf_initialize 64 10 rf_new)) = Inl OutOfRange"
  using rf_empty_out_of_range [of "rf_shutdown (rf_initialize 64 10 rf_new)" 3 4 0 0 "(0, 0)"]
  by (simp add: rf_shutdown_def rf_initialize_def)

lemma rf_frame_exact_witness:
  "\<exists>f1. rf_updateFromAssets [(1, 1 / 2)] [(- 50, 700)] (rf_initialize 64 10 rf_new) = Inr f1 \<and>
    rf_getCellRisk 0 63 (rf_computePropagation f1) = Inr (1 / 2)"
proof -
  let ?f = "rf_initialize 64 10 rf_new"
  have w: "rf_worldToCell ?f (- 50) = 0" "rf_worldToCell ?f 700 = 63"
    by (simp_all add: rf_worldToCell_def rf_initialize_def trunc_int_def)
  have "rf_density ?f (zip [(1, 1 / 2)] [(- 50, 700)]) 0 63 = 1 / 2" by (simp add: rf_density_def w)
  moreover obtain f1 where "rf_updateFromAssets [(1, 1 / 2)] [(- 50, 700)] ?f = Inr f1"
    "rf_getCellRisk 0 63 (rf_computePropagation f1) = Inr (rf_density ?f (zip [(1, 1 / 2)] [(- 50, 700)]) 0 63)"
    using rf_frame_exact [of 64 ?f 10 rf_new "[(1, 1 / 2)]" "[(- 50, 700)]"] by auto
  ultimately show ?thesis by metis
qed

end
