(* ===== verification/AI_Analysis.thy ===== *)
theory AI_Analysis
  imports Risk_Field
begin

text \<open>
  The analysis of a frame (\<open>runtime/ai_analysis_context\<close>): from the cells of the risk grid that are not
  negligible to the context of the frame, its propagated risks and the influence of risky cells. The time
  stamp is an argument.
\<close>

record AIFrameContext =
  fc_global_risk_index :: real
  fc_system_congestion :: real
  fc_anomaly_score :: real
  fc_prediction_confidence :: real
  fc_high_risk_asset_count :: u32
  fc_total_asset_count :: u32
  fc_timestamp :: u64

record ZonePrediction =
  zp_zone_id :: int
  zp_predicted_x :: int
  zp_predicted_y :: int
  zp_confidence :: real
  zp_risk_level :: real
  zp_prediction_horizon_ms :: u64

record AssetInfluence =
  inf_asset_id :: u64
  inf_influence_radius :: real
  inf_risk_contribution :: real
  inf_affected_zone_ids :: "u64 list"

record AIAnalysisPass =
  aip_context :: AIFrameContext
  aip_map :: "RiskCell list"
  aip_influences :: "AssetInfluence list"

definition RISK_DECAY_FACTOR :: real where "RISK_DECAY_FACTOR = 85 / 100"
definition ANOMALY_THRESHOLD :: real where "ANOMALY_THRESHOLD = 7 / 10"

definition fc_zero :: AIFrameContext where
  "fc_zero = \<lparr>fc_global_risk_index = 0, fc_system_congestion = 0, fc_anomaly_score = 0, fc_prediction_confidence = 0,
     fc_high_risk_asset_count = 0, fc_total_asset_count = 0, fc_timestamp = 0\<rparr>"

definition aip_new :: AIAnalysisPass where
  "aip_new = \<lparr>aip_context = fc_zero, aip_map = [], aip_influences = []\<rparr>"

definition aip_initialize :: "AIAnalysisPass \<Rightarrow> AIAnalysisPass" where
  "aip_initialize p = p\<lparr>aip_map := [], aip_influences := []\<rparr>"

definition aip_shutdown :: "AIAnalysisPass \<Rightarrow> AIAnalysisPass" where
  "aip_shutdown p = p\<lparr>aip_map := [], aip_influences := []\<rparr>"

definition aip_globalRiskIndex :: "RiskCell list \<Rightarrow> real" where
  "aip_globalRiskIndex m =
     (if m = [] then 0
      else let sum_risk = foldl (\<lambda>a c. a + rc_risk_value c) 0 m;
               max_risk = foldl (\<lambda>a c. max a (rc_risk_value c)) 0 m;
               avg_risk = sum_risk / real (length m)
           in 6 / 10 * avg_risk + 4 / 10 * max_risk)"

definition aip_computeGlobalRiskIndex :: "AIAnalysisPass \<Rightarrow> AIAnalysisPass" where
  "aip_computeGlobalRiskIndex p = p\<lparr>aip_context := (aip_context p)\<lparr>fc_global_risk_index := aip_globalRiskIndex (aip_map p)\<rparr>\<rparr>"

definition aip_systemCongestion :: "RiskCell list \<Rightarrow> real" where
  "aip_systemCongestion m =
     (if m = [] then 0 else real (length (filter (\<lambda>c. rc_risk_value c > 7 / 10) m)) / real (length m))"

definition aip_computeSystemCongestion :: "AIAnalysisPass \<Rightarrow> AIAnalysisPass" where
  "aip_computeSystemCongestion p = p\<lparr>aip_context := (aip_context p)\<lparr>fc_system_congestion := aip_systemCongestion (aip_map p)\<rparr>\<rparr>"

definition aip_anomalyScore :: "real \<Rightarrow> RiskCell list \<Rightarrow> real" where
  "aip_anomalyScore mean_risk m =
     (let s = foldl (\<lambda>a c. let diff = rc_risk_value c - mean_risk in a + diff * diff) 0 m;
          risk_variance = (if m = [] then s else s / real (length m))
      in min 1 (sqrt risk_variance * 2))"

definition aip_computeAnomalyScore :: "AIAnalysisPass \<Rightarrow> AIAnalysisPass" where
  "aip_computeAnomalyScore p = p\<lparr>aip_context := (aip_context p)\<lparr>fc_anomaly_score :=
     aip_anomalyScore (fc_global_risk_index (aip_context p)) (aip_map p)\<rparr>\<rparr>"

definition aip_propagateRisk :: "AIAnalysisPass \<Rightarrow> AIAnalysisPass" where
  "aip_propagateRisk p = p\<lparr>aip_map := spread (\<lambda>r. False) 5 (5 / 10)
     (map (\<lambda>c. c\<lparr>rc_propagation_risk := rc_risk_value c * RISK_DECAY_FACTOR\<rparr>) (aip_map p))\<rparr>"

definition aip_influence :: "RiskCell list \<Rightarrow> RiskCell \<Rightarrow> AssetInfluence" where
  "aip_influence m cell =
     (let radius = rc_risk_value cell * 10 in
      \<lparr>inf_asset_id = ucast (rc_source_asset_count cell), inf_influence_radius = radius,
       inf_risk_contribution = rc_risk_value cell,
       inf_affected_zone_ids = map (\<lambda>c. ucast (rc_source_asset_count c))
         (filter (\<lambda>other. rc_distance cell other < radius \<and> rc_risk_value other > ANOMALY_THRESHOLD) m)\<rparr>)"

definition aip_computeAssetInfluences :: "AIAnalysisPass \<Rightarrow> AIAnalysisPass" where
  "aip_computeAssetInfluences p = p\<lparr>aip_influences := aip_influences p @
     map (aip_influence (aip_map p)) (filter (\<lambda>c. rc_risk_value c > ANOMALY_THRESHOLD) (aip_map p))\<rparr>"

definition aip_analyze :: "u64 \<Rightarrow> RiskCell list \<Rightarrow> ZonePrediction list \<Rightarrow> AIAnalysisPass \<Rightarrow> AIAnalysisPass" where
  "aip_analyze now riskMap predictions p =
     (let p1 = aip_computeAssetInfluences (aip_propagateRisk (aip_computeAnomalyScore
            (aip_computeSystemCongestion (aip_computeGlobalRiskIndex (p\<lparr>aip_map := riskMap\<rparr>)))));
          c1 = (aip_context p1)\<lparr>fc_timestamp := now\<rparr>;
          c2 = (if predictions \<noteq> []
            then c1\<lparr>fc_prediction_confidence := foldl (\<lambda>a z. a + zp_confidence z) 0 predictions / real (length predictions)\<rparr>
            else c1)
      in p1\<lparr>aip_context := c2\<rparr>)"

section \<open>The context of a frame\<close>

lemma aip_globalRiskIndex_mixed: "m \<noteq> [] \<Longrightarrow> aip_globalRiskIndex m = mixed (map rc_risk_value m)"
  by (simp add: aip_globalRiskIndex_def Let_def mixed_def foldl_field [of "(+)" rc_risk_value] foldl_field [of max rc_risk_value])

lemma aip_analyze_fields:
  "aip_context (aip_analyze now m [] p) = \<lparr>fc_global_risk_index = aip_globalRiskIndex m, fc_system_congestion = aip_systemCongestion m,
     fc_anomaly_score = aip_anomalyScore (aip_globalRiskIndex m) m, fc_prediction_confidence = fc_prediction_confidence (aip_context p),
     fc_high_risk_asset_count = fc_high_risk_asset_count (aip_context p), fc_total_asset_count = fc_total_asset_count (aip_context p),
     fc_timestamp = now\<rparr>"
  by (simp add: aip_analyze_def Let_def aip_computeAssetInfluences_def aip_propagateRisk_def aip_computeAnomalyScore_def
      aip_computeSystemCongestion_def aip_computeGlobalRiskIndex_def)

lemma aip_systemCongestion_bounds: "0 \<le> aip_systemCongestion m \<and> aip_systemCongestion m \<le> 1"
proof (cases "m = []")
  case False
  have "length (filter (\<lambda>c. rc_risk_value c > 7 / 10) m) \<le> length m" by (rule length_filter_le)
  with False show ?thesis by (simp add: aip_systemCongestion_def divide_simps)
qed (simp add: aip_systemCongestion_def)

lemma foldl_squares: "0 \<le> z \<Longrightarrow> 0 \<le> foldl (\<lambda>a c. let diff = v c - (r::real) in a + diff * diff) z m"
  by (induction m arbitrary: z) (auto simp: Let_def)

lemma aip_anomalyScore_bounds: "0 \<le> aip_anomalyScore r m \<and> aip_anomalyScore r m \<le> 1"
  using foldl_squares [of 0 rc_risk_value r m] by (simp add: aip_anomalyScore_def Let_def)

text \<open>The influences that one analysis of \<open>m\<close> adds.\<close>

definition aip_new_influences :: "RiskCell list \<Rightarrow> AssetInfluence list" where
  "aip_new_influences m = map (aip_influence m) (filter (\<lambda>c. rc_risk_value c > ANOMALY_THRESHOLD) m)"

definition same_cell :: "RiskCell \<Rightarrow> RiskCell \<Rightarrow> bool" where
  "same_cell c d \<longleftrightarrow> rc_x c = rc_x d \<and> rc_y c = rc_y d \<and> rc_risk_value c = rc_risk_value d \<and>
     rc_source_asset_count c = rc_source_asset_count d"

lemma all2_filter:
  assumes "list_all2 R xs ys" "\<And>c d. R c d \<Longrightarrow> P c = Q d"
  shows "list_all2 R (filter P xs) (filter Q ys)"
  using assms(1)
proof (induction rule: list_all2_induct)
  case (Cons x xs y ys)
  then show ?case using assms(2) [OF Cons.hyps(1)] by simp
qed simp

lemma all2_map_eq:
  assumes "list_all2 R xs ys" "\<And>c d. R c d \<Longrightarrow> f c = g d"
  shows "map f xs = map g ys"
  using assms(1) by (induction rule: list_all2_induct) (auto intro: assms(2))

lemma aip_influence_cong:
  assumes "list_all2 same_cell m m'"
  shows "aip_new_influences m = aip_new_influences m'"
proof -
  have "aip_influence m c = aip_influence m' d" if cd: "same_cell c d" for c d
  proof -
    have "list_all2 same_cell (filter (\<lambda>other. rc_distance c other < rc_risk_value c * 10 \<and> rc_risk_value other > ANOMALY_THRESHOLD) m)
        (filter (\<lambda>other. rc_distance d other < rc_risk_value d * 10 \<and> rc_risk_value other > ANOMALY_THRESHOLD) m')"
      by (rule all2_filter [OF assms]) (use cd in \<open>simp add: rc_distance_def same_cell_def\<close>)
    then have "map (\<lambda>c. ucast (rc_source_asset_count c) :: u64)
        (filter (\<lambda>other. rc_distance c other < rc_risk_value c * 10 \<and> rc_risk_value other > ANOMALY_THRESHOLD) m) =
      map (\<lambda>c. ucast (rc_source_asset_count c))
        (filter (\<lambda>other. rc_distance d other < rc_risk_value d * 10 \<and> rc_risk_value other > ANOMALY_THRESHOLD) m')"
      by (rule all2_map_eq) (simp add: same_cell_def)
    with cd show ?thesis by (simp add: aip_influence_def Let_def same_cell_def)
  qed
  moreover have "list_all2 same_cell (filter (\<lambda>c. rc_risk_value c > ANOMALY_THRESHOLD) m) (filter (\<lambda>c. rc_risk_value c > ANOMALY_THRESHOLD) m')"
    by (rule all2_filter [OF assms]) (simp add: same_cell_def)
  ultimately show ?thesis unfolding aip_new_influences_def by (metis (no_types, lifting) all2_map_eq)
qed

lemma aip_analyze_influences:
  "aip_influences (aip_analyze now m preds p) = aip_influences p @ aip_new_influences m"
proof -
  let ?s = "map (\<lambda>c. c\<lparr>rc_propagation_risk := rc_risk_value c * RISK_DECAY_FACTOR\<rparr>) m"
  have "aip_new_influences (spread (\<lambda>r. False) 5 (5 / 10) ?s) = aip_new_influences m"
    by (rule aip_influence_cong) (simp add: spread_exact list_all2_conv_all_nth same_cell_def)
  then show ?thesis
    by (simp add: aip_analyze_def Let_def aip_computeAssetInfluences_def aip_propagateRisk_def aip_computeAnomalyScore_def
        aip_computeSystemCongestion_def aip_computeGlobalRiskIndex_def aip_new_influences_def)
qed

text \<open>Risks between 0 and 1 give a context between 0 and 1; the counters of assets stay what they were.\<close>

theorem aip_context_bounded:
  assumes "list_all (\<lambda>c. 0 \<le> rc_risk_value c \<and> rc_risk_value c \<le> 1) m" "c = aip_context (aip_analyze now m [] p)"
  shows "0 \<le> fc_global_risk_index c \<and> fc_global_risk_index c \<le> 1 \<and> 0 \<le> fc_system_congestion c \<and> fc_system_congestion c \<le> 1 \<and>
    0 \<le> fc_anomaly_score c \<and> fc_anomaly_score c \<le> 1 \<and> fc_prediction_confidence c = fc_prediction_confidence (aip_context p) \<and>
    fc_high_risk_asset_count c = fc_high_risk_asset_count (aip_context p) \<and> fc_total_asset_count c = fc_total_asset_count (aip_context p)"
proof -
  have "0 \<le> aip_globalRiskIndex m \<and> aip_globalRiskIndex m \<le> 1"
  proof (cases "m = []")
    case False
    show ?thesis unfolding aip_globalRiskIndex_mixed [OF False]
      by (rule mixed_bounds) (use assms(1) False in \<open>auto simp: list_all_iff\<close>)
  qed (simp add: aip_globalRiskIndex_def)
  then show ?thesis
    using aip_systemCongestion_bounds [of m] aip_anomalyScore_bounds [of "aip_globalRiskIndex m" m]
    by (simp add: assms(2) aip_analyze_fields)
qed

text \<open>No analysis drops the influences of the ones before it: the list is what all analyses since \<open>initialize\<close> added.\<close>

theorem aip_influences_accumulate:
  "aip_influences (fold (\<lambda>(now, m, preds). aip_analyze now m preds) fs (aip_initialize p)) =
    concat (map (\<lambda>(now, m, preds). aip_new_influences m) fs)"
proof -
  have "aip_influences (fold (\<lambda>(now, m, preds). aip_analyze now m preds) fs q) =
      aip_influences q @ concat (map (\<lambda>(now, m, preds). aip_new_influences m) fs)" for q
    by (induction fs arbitrary: q) (auto simp: aip_analyze_influences split: prod.splits)
  then show ?thesis by (simp add: aip_initialize_def)
qed

text \<open>Equal risks in every cell: the index is that risk and there is no anomaly.\<close>

lemma aip_uniform_risk_is_no_anomaly:
  assumes "m \<noteq> []" "list_all (\<lambda>c. rc_risk_value c = r) m" "0 \<le> r"
  shows "aip_globalRiskIndex m = r \<and> aip_anomalyScore (aip_globalRiskIndex m) m = 0"
proof -
  have sum: "foldl (\<lambda>a c. a + rc_risk_value c) z m = z + real (length m) * r" for z
    using assms(2) by (induction m arbitrary: z) (auto simp: algebra_simps)
  have mx: "foldl (\<lambda>a c. max a (rc_risk_value c)) z m = max z (if m = [] then z else r)" for z
    using assms(2) by (induction m arbitrary: z) auto
  have g: "aip_globalRiskIndex m = r" using assms(1,3) by (simp add: aip_globalRiskIndex_def sum mx Let_def)
  have "foldl (\<lambda>a c. let diff = rc_risk_value c - r in a + diff * diff) z m = z" for z
    using assms(2) by (induction m arbitrary: z) (auto simp: Let_def)
  then show ?thesis by (simp add: g aip_anomalyScore_def Let_def)
qed

lemma aip_context_bounded_witness:
  "fc_anomaly_score (aip_context (aip_analyze 7 [rc_zero 1 1, (rc_zero 1 2)\<lparr>rc_risk_value := 1\<rparr>] [] aip_new)) \<le> 1"
  using aip_context_bounded [of "[rc_zero 1 1, (rc_zero 1 2)\<lparr>rc_risk_value := 1\<rparr>]", OF _ refl, of 7 aip_new]
  by (simp add: rc_zero_def)

end
