(* ===== verification/Trajectory_Graph.thy ===== *)
theory Trajectory_Graph
  imports Spatial_Random
begin

text \<open>
  The graph of the moves of the assets between the zones of a grid (\<open>runtime/trajectory_graph\<close>): how often each
  zone was left for each other zone, and the predictions made from it. The counters of single events are
  naturals. The members of a prediction that the code leaves uninitialised for an unknown asset are the
  argument \<open>junk\<close>. \<open>last_positions_\<close> and \<open>last_timestamps_\<close> are only looked up: they are maps.
\<close>

record TrajectoryNode =
  tn_zone_x :: int
  tn_zone_y :: int
  tn_visit_count :: nat
  tn_avg_dwell_time_ms :: real
  tn_last_visit_timestamp :: u64

record TrajectoryEdge =
  tje_from_zone_x :: int
  tje_from_zone_y :: int
  tje_to_zone_x :: int
  tje_to_zone_y :: int
  tje_transition_count :: nat
  tje_transition_probability :: real
  tje_avg_transition_time_ms :: real

record TrajectoryPrediction =
  tjp_current_zone_x :: int
  tjp_current_zone_y :: int
  tjp_predicted_zone_x :: int
  tjp_predicted_zone_y :: int
  tjp_confidence :: real
  tjp_prediction_horizon_ms :: u64

record TrajectoryGraph =
  trj_grid_size :: int
  trj_cell_size :: real
  trj_last_positions :: "u64 \<rightharpoonup> int \<times> int"
  trj_last_timestamps :: "u64 \<rightharpoonup> u64"
  trj_nodes :: "TrajectoryNode list"
  trj_edges :: "TrajectoryEdge list"

definition trj_new :: TrajectoryGraph where
  "trj_new = \<lparr>trj_grid_size = 64, trj_cell_size = 10, trj_last_positions = Map.empty, trj_last_timestamps = Map.empty,
     trj_nodes = [], trj_edges = []\<rparr>"

definition tn_zero :: "int \<Rightarrow> int \<Rightarrow> TrajectoryNode" where
  "tn_zero x y = \<lparr>tn_zone_x = x, tn_zone_y = y, tn_visit_count = 0, tn_avg_dwell_time_ms = 0, tn_last_visit_timestamp = 0\<rparr>"

definition trj_initialize :: "int \<Rightarrow> real \<Rightarrow> TrajectoryGraph \<Rightarrow> TrajectoryGraph" where
  "trj_initialize gridSize cellSize t = t\<lparr>trj_grid_size := gridSize, trj_cell_size := cellSize,
     trj_nodes := (if 0 \<le> gridSize
       then concat (map (\<lambda>i. map (\<lambda>j. tn_zero (int i) (int j)) [0..<nat gridSize]) [0..<nat gridSize])
       else replicate (nat (gridSize * gridSize)) (tn_zero 0 0)),
     trj_edges := []\<rparr>"

definition trj_shutdown :: "TrajectoryGraph \<Rightarrow> TrajectoryGraph" where
  "trj_shutdown t = t\<lparr>trj_nodes := [], trj_edges := [], trj_last_positions := Map.empty, trj_last_timestamps := Map.empty\<rparr>"

definition trj_worldToZone :: "TrajectoryGraph \<Rightarrow> real \<Rightarrow> int" where
  "trj_worldToZone t worldCoord = max 0 (min (trj_grid_size t - 1) (trunc_int (worldCoord / trj_cell_size t)))"

definition tje_is :: "int \<times> int \<Rightarrow> int \<times> int \<Rightarrow> TrajectoryEdge \<Rightarrow> bool" where
  "tje_is from to e \<longleftrightarrow> tje_from_zone_x e = fst from \<and> tje_from_zone_y e = snd from \<and>
     tje_to_zone_x e = fst to \<and> tje_to_zone_y e = snd to"

definition tje_bump :: "TrajectoryEdge \<Rightarrow> TrajectoryEdge" where
  "tje_bump e = e\<lparr>tje_transition_count := tje_transition_count e + 1\<rparr>"

definition trj_updateEdge :: "int \<times> int \<Rightarrow> int \<times> int \<Rightarrow> TrajectoryGraph \<Rightarrow> TrajectoryGraph" where
  "trj_updateEdge from to t =
     (if find (tje_is from to) (trj_edges t) \<noteq> None
      then t\<lparr>trj_edges := update_first (tje_is from to) tje_bump (trj_edges t)\<rparr>
      else t\<lparr>trj_edges := trj_edges t @ [\<lparr>tje_from_zone_x = fst from, tje_from_zone_y = snd from,
             tje_to_zone_x = fst to, tje_to_zone_y = snd to, tje_transition_count = 1,
             tje_transition_probability = 0, tje_avg_transition_time_ms = 0\<rparr>]\<rparr>)"

text \<open>The visit of a zone: the time since the last visit, by any asset, is averaged as the dwell time.\<close>

definition tn_visit :: "u64 \<Rightarrow> TrajectoryNode \<Rightarrow> TrajectoryNode" where
  "tn_visit now n =
     (let n1 = (if tn_last_visit_timestamp n > 0
        then n\<lparr>tn_avg_dwell_time_ms := (tn_avg_dwell_time_ms n * (real (tn_visit_count n) - 1) +
               real (unat (now - tn_last_visit_timestamp n))) / real (tn_visit_count n)\<rparr>
        else n)
      in n1\<lparr>tn_visit_count := tn_visit_count n1 + 1, tn_last_visit_timestamp := now\<rparr>)"

definition trj_updateAssetPosition :: "u64 \<Rightarrow> real \<Rightarrow> real \<Rightarrow> u64 \<Rightarrow> TrajectoryGraph \<Rightarrow> TrajectoryGraph" where
  "trj_updateAssetPosition assetId x y timestamp t =
     (let zoneX = trj_worldToZone t x; zoneY = trj_worldToZone t y;
          t1 = (case trj_last_positions t assetId of
             None \<Rightarrow> t
           | Some (lastX, lastY) \<Rightarrow>
               if lastX \<noteq> zoneX \<or> lastY \<noteq> zoneY then trj_updateEdge (lastX, lastY) (zoneX, zoneY) t else t);
          t2 = t1\<lparr>trj_last_positions := (trj_last_positions t1)(assetId \<mapsto> (zoneX, zoneY)),
                  trj_last_timestamps := (trj_last_timestamps t1)(assetId \<mapsto> timestamp)\<rparr>;
          nodeIdx = nat (zoneX * trj_grid_size t2 + zoneY)
      in if nodeIdx < length (trj_nodes t2)
         then t2\<lparr>trj_nodes := (trj_nodes t2)[nodeIdx := tn_visit timestamp (trj_nodes t2 ! nodeIdx)]\<rparr>
         else t2)"

definition tje_key :: "TrajectoryEdge \<Rightarrow> int" where
  "tje_key e = tje_from_zone_x e * 1000 + tje_from_zone_y e"

definition trj_fromCounts :: "TrajectoryEdge list \<Rightarrow> (int \<times> nat) list" where
  "trj_fromCounts es = fold (\<lambda>e m. AList.update (tje_key e)
     ((case map_of m (tje_key e) of None \<Rightarrow> 0 | Some n \<Rightarrow> n) + tje_transition_count e) m) es []"

definition trj_computeTransitionProbabilities :: "TrajectoryGraph \<Rightarrow> TrajectoryGraph" where
  "trj_computeTransitionProbabilities t =
     (let fromCounts = trj_fromCounts (trj_edges t) in
      t\<lparr>trj_edges := map (\<lambda>e. case map_of fromCounts (tje_key e) of
           None \<Rightarrow> e
         | Some n \<Rightarrow> if n > 0 then e\<lparr>tje_transition_probability := real (tje_transition_count e) / real n\<rparr> else e)
         (trj_edges t)\<rparr>)"

definition trj_finalizeFrame :: "u64 \<Rightarrow> TrajectoryGraph \<Rightarrow> TrajectoryGraph" where
  "trj_finalizeFrame timestamp t = trj_computeTransitionProbabilities t"

definition trj_predictNextZone :: "TrajectoryPrediction \<Rightarrow> u64 \<Rightarrow> u64 \<Rightarrow> TrajectoryGraph \<Rightarrow> TrajectoryPrediction" where
  "trj_predictNextZone junk assetId currentTime t =
     (let result = junk\<lparr>tjp_confidence := 0, tjp_prediction_horizon_ms := 3000\<rparr> in
      case trj_last_positions t assetId of
        None \<Rightarrow> result
      | Some (cx, cy) \<Rightarrow>
          (case fold (\<lambda>e (maxProb, bestX, bestY).
               if tje_from_zone_x e = cx \<and> tje_from_zone_y e = cy \<and> tje_transition_probability e > maxProb
               then (tje_transition_probability e, tje_to_zone_x e, tje_to_zone_y e) else (maxProb, bestX, bestY))
             (trj_edges t) (0, cx, cy) of
            (maxProb, bestX, bestY) \<Rightarrow>
              result\<lparr>tjp_current_zone_x := cx, tjp_current_zone_y := cy, tjp_predicted_zone_x := bestX,
                tjp_predicted_zone_y := bestY, tjp_confidence := maxProb\<rparr>))"

definition trj_predictTopKZones :: "u64 \<Rightarrow> u64 \<Rightarrow> int \<Rightarrow> TrajectoryGraph \<Rightarrow> TrajectoryPrediction list" where
  "trj_predictTopKZones assetId currentTime k t =
     (case trj_last_positions t assetId of
        None \<Rightarrow> []
      | Some (cx, cy) \<Rightarrow>
          let candidates = std_sort (\<lambda>a b. tje_transition_probability a > tje_transition_probability b)
                (filter (\<lambda>e. tje_from_zone_x e = cx \<and> tje_from_zone_y e = cy) (trj_edges t));
              count = min (unat (word_of_int k :: u64)) (length candidates)
          in map (\<lambda>e. \<lparr>tjp_current_zone_x = cx, tjp_current_zone_y = cy, tjp_predicted_zone_x = tje_to_zone_x e,
                tjp_predicted_zone_y = tje_to_zone_y e, tjp_confidence = tje_transition_probability e,
                tjp_prediction_horizon_ms = 3000\<rparr>) (take count candidates))"

definition trj_getZoneTransitionProbability :: "int \<Rightarrow> int \<Rightarrow> int \<Rightarrow> int \<Rightarrow> TrajectoryGraph \<Rightarrow> real" where
  "trj_getZoneTransitionProbability fromX fromY toX toY t =
     (case find (tje_is (fromX, fromY) (toX, toY)) (trj_edges t) of None \<Rightarrow> 0 | Some e \<Rightarrow> tje_transition_probability e)"

section \<open>The moves of a history\<close>

text \<open>What is reported for one asset in a frame, and the moves between zones that a history of reports shows.\<close>

record Sighting =
  sgt_asset :: u64
  sgt_x :: real
  sgt_y :: real
  sgt_timestamp :: u64

definition trj_see :: "Sighting \<Rightarrow> TrajectoryGraph \<Rightarrow> TrajectoryGraph" where
  "trj_see s = trj_updateAssetPosition (sgt_asset s) (sgt_x s) (sgt_y s) (sgt_timestamp s)"

definition trj_zone :: "TrajectoryGraph \<Rightarrow> Sighting \<Rightarrow> int \<times> int" where
  "trj_zone t s = (trj_worldToZone t (sgt_x s), trj_worldToZone t (sgt_y s))"

definition zone_move :: "(u64 \<rightharpoonup> int \<times> int) \<Rightarrow> u64 \<Rightarrow> int \<times> int \<Rightarrow> ((int \<times> int) \<times> int \<times> int) list" where
  "zone_move pos a z = (case pos a of None \<Rightarrow> [] | Some z' \<Rightarrow> if z' \<noteq> z then [(z', z)] else [])"

fun trj_moves :: "TrajectoryGraph \<Rightarrow> (u64 \<rightharpoonup> int \<times> int) \<Rightarrow> Sighting list \<Rightarrow> ((int \<times> int) \<times> int \<times> int) list" where
  "trj_moves t pos [] = []"
| "trj_moves t pos (s # h) =
     zone_move pos (sgt_asset s) (trj_zone t s) @ trj_moves t (pos(sgt_asset s \<mapsto> trj_zone t s)) h"

definition tje_ends :: "TrajectoryEdge \<Rightarrow> (int \<times> int) \<times> int \<times> int" where
  "tje_ends e = ((tje_from_zone_x e, tje_from_zone_y e), (tje_to_zone_x e, tje_to_zone_y e))"

lemma tje_is_ends: "tje_is from to e \<longleftrightarrow> tje_ends e = (from, to)"
  by (auto simp: tje_is_def tje_ends_def)

text \<open>The edges count the moves.\<close>

definition tje_counts :: "TrajectoryEdge list \<Rightarrow> ((int \<times> int) \<times> int \<times> int) list \<Rightarrow> bool" where
  "tje_counts es ms \<longleftrightarrow> distinct (map tje_ends es) \<and> tje_ends ` set es = set ms \<and>
     list_all (\<lambda>e. tje_transition_count e = count_list ms (tje_ends e)) es"

lemma count_list_snoc: "count_list (ms @ [m]) x = count_list ms x + (if m = x then 1 else 0)"
  by (induction ms) auto

lemma set_update_first_key:
  assumes "distinct (map k xs)" "\<And>x. k (f x) = k x"
  shows "set (update_first (\<lambda>x. k x = a) f xs) = (\<lambda>x. if k x = a then f x else x) ` set xs"
proof -
  have "update_first (\<lambda>x. k x = a) f xs = map (\<lambda>x. if k x = a then f x else x) xs"
    using assms(1)
  proof (induction xs)
    case (Cons x xs)
    show ?case
    proof (cases "k x = a")
      case True
      have "map (\<lambda>x. if k x = a then f x else x) xs = map id xs"
      proof (rule map_cong [OF refl])
        fix y assume "y \<in> set xs"
        then have "k y \<noteq> a" using Cons.prems True by (metis distinct.simps(2) imageI list.simps(9) set_map)
        then show "(if k y = a then f y else y) = id y" by simp
      qed
      with True show ?thesis by simp
    qed (use Cons in auto)
  qed simp
  then show ?thesis by simp
qed

lemma tje_counts_updateEdge:
  assumes "tje_counts (trj_edges t) ms"
  shows "tje_counts (trj_edges (trj_updateEdge from to t)) (ms @ [(from, to)])"
proof (cases "find (tje_is from to) (trj_edges t) = None")
  case True
  then have new: "(from, to) \<notin> tje_ends ` set (trj_edges t)" by (auto simp: find_None_iff tje_is_ends)
  then have zero: "count_list ms (from, to) = 0" using assms by (simp add: tje_counts_def count_list_0_iff)
  have ne: "(from, to) \<noteq> tje_ends e" if "e \<in> set (trj_edges t)" for e using new that by (metis imageI)
  have "list_all (\<lambda>e. tje_transition_count e = count_list ms (tje_ends e)) (trj_edges t)" using assms by (simp add: tje_counts_def)
  then have old: "list_all (\<lambda>e. tje_transition_count e = count_list (ms @ [(from, to)]) (tje_ends e)) (trj_edges t)"
    by (simp add: list_all_iff count_list_snoc ne)
  obtain e where e: "trj_edges (trj_updateEdge from to t) = trj_edges t @ [e]" "tje_ends e = (from, to)" "tje_transition_count e = 1"
    using True by (simp add: trj_updateEdge_def tje_ends_def)
  show ?thesis using assms new zero old unfolding tje_counts_def e(1) by (auto simp: e(2,3) count_list_snoc)
next
  case False
  then obtain e where "e \<in> set (trj_edges t)" "tje_ends e = (from, to)" by (auto simp: find_None_iff tje_is_ends)
  then have known: "(from, to) \<in> tje_ends ` set (trj_edges t)" by (metis imageI)
  have same: "tje_ends (tje_bump e) = tje_ends e" for e by (simp add: tje_ends_def tje_bump_def)
  have is_eq: "tje_is from to = (\<lambda>e. tje_ends e = (from, to))" by (simp add: fun_eq_iff tje_is_ends)
  have edges: "trj_edges (trj_updateEdge from to t) = update_first (\<lambda>e. tje_ends e = (from, to)) tje_bump (trj_edges t)"
    using False by (simp add: trj_updateEdge_def is_eq)
  have dist: "distinct (map tje_ends (trj_edges t))" using assms by (simp add: tje_counts_def)
  let ?F = "\<lambda>e. if tje_ends e = (from, to) then tje_bump e else e"
  have S: "set (trj_edges (trj_updateEdge from to t)) = ?F ` set (trj_edges t)"
    unfolding edges by (rule set_update_first_key [where k = tje_ends and f = tje_bump, OF dist]) (rule same)
  have ends: "map tje_ends (trj_edges (trj_updateEdge from to t)) = map tje_ends (trj_edges t)"
    unfolding edges by (rule map_update_first) (simp only: same)
  have ends_set: "tje_ends ` set (trj_edges (trj_updateEdge from to t)) = tje_ends ` set (trj_edges t)"
    using arg_cong [OF ends, of set] unfolding list.set_map .
  have F: "tje_ends (?F e) = tje_ends e" "tje_transition_count (?F e) = tje_transition_count e + (if (from, to) = tje_ends e then 1 else 0)" for e
    subgoal by (simp add: same)
    subgoal by (auto simp: tje_bump_def)
    done
  have "tje_transition_count e = count_list ms (tje_ends e)" if "e \<in> set (trj_edges t)" for e
    using assms that by (simp add: tje_counts_def list_all_iff)
  then have "tje_transition_count (?F e) = count_list (ms @ [(from, to)]) (tje_ends (?F e))" if "e \<in> set (trj_edges t)" for e
    using that by (simp only: F count_list_snoc)
  then have "list_all (\<lambda>e. tje_transition_count e = count_list (ms @ [(from, to)]) (tje_ends e)) (trj_edges (trj_updateEdge from to t))"
    unfolding list_all_iff S ball_simps by blast
  moreover have "insert (from, to) (set ms) = set ms" using known assms by (auto simp: tje_counts_def)
  ultimately show ?thesis using assms dist unfolding tje_counts_def ends ends_set by simp
qed

definition trj_shape :: "TrajectoryGraph \<Rightarrow> int \<times> real" where
  "trj_shape t = (trj_grid_size t, trj_cell_size t)"

lemma trj_zone_cong: "trj_shape t = trj_shape t' \<Longrightarrow> trj_zone t s = trj_zone t' s"
  by (simp add: trj_shape_def trj_zone_def trj_worldToZone_def)

lemma trj_moves_cong:
  assumes "trj_shape t = trj_shape t'"
  shows "trj_moves t pos h = trj_moves t' pos h"
proof -
  have "trj_zone t s = trj_zone t' s" for s by (rule trj_zone_cong [OF assms])
  then show ?thesis by (induction h arbitrary: pos) simp_all
qed

lemma trj_updateEdge_fields [simp]:
  "trj_last_positions (trj_updateEdge from to t) = trj_last_positions t"
  "trj_shape (trj_updateEdge from to t) = trj_shape t"
  by (simp_all add: trj_updateEdge_def trj_shape_def)

lemma trj_see_fields:
  "trj_last_positions (trj_see s t) = (trj_last_positions t)(sgt_asset s \<mapsto> trj_zone t s)"
  "trj_shape (trj_see s t) = trj_shape t"
  "trj_edges (trj_see s t) = (case trj_last_positions t (sgt_asset s) of None \<Rightarrow> trj_edges t
     | Some z \<Rightarrow> if z \<noteq> trj_zone t s then trj_edges (trj_updateEdge z (trj_zone t s) t) else trj_edges t)"
  by (auto simp: trj_see_def trj_updateAssetPosition_def Let_def trj_zone_def trj_shape_def trj_updateEdge_def split: option.splits)

lemma trj_run:
  assumes "tje_counts (trj_edges t) ms"
  shows "tje_counts (trj_edges (fold trj_see h t)) (ms @ trj_moves t (trj_last_positions t) h) \<and>
    trj_shape (fold trj_see h t) = trj_shape t"
  using assms
proof (induction h arbitrary: t ms)
  case (Cons s h)
  let ?z = "trj_zone t s"
  have "tje_counts (trj_edges (trj_see s t)) (ms @ zone_move (trj_last_positions t) (sgt_asset s) ?z)"
    using Cons.prems tje_counts_updateEdge
    by (auto simp: trj_see_fields zone_move_def split: option.splits)
  from Cons.IH [OF this] show ?case
    by (simp add: trj_see_fields trj_moves_cong [of "trj_see s t" t] del: fun_upd_apply)
qed simp

section \<open>Probabilities\<close>

lemma trj_fromCounts_lookup:
  "map_of (trj_fromCounts es) k = (if k \<in> tje_key ` set es then Some (sum_list (map tje_transition_count (filter (\<lambda>e. tje_key e = k) es))) else None)"
proof (induction es rule: rev_induct)
  case Nil
  show ?case by (simp add: trj_fromCounts_def)
next
  case (snoc e es)
  have "trj_fromCounts (es @ [e]) = AList.update (tje_key e)
      ((case map_of (trj_fromCounts es) (tje_key e) of None \<Rightarrow> 0 | Some n \<Rightarrow> n) + tje_transition_count e) (trj_fromCounts es)"
    by (simp add: trj_fromCounts_def)
  moreover have "sum_list (map tje_transition_count (filter (\<lambda>e'. tje_key e' = tje_key e) es)) = 0" if "tje_key e \<notin> tje_key ` set es"
    using that by (induction es) auto
  ultimately show ?case using snoc by (auto simp: update_Some_unfold AList.update_conv')
qed

lemma sum_list_mem_le: "(x::nat) \<in> set xs \<Longrightarrow> x \<le> sum_list xs"
  by (induction xs) auto

text \<open>The edges out of the zone of an edge, as the code's key tells zones apart.\<close>

definition tje_siblings :: "TrajectoryEdge list \<Rightarrow> TrajectoryEdge \<Rightarrow> TrajectoryEdge list" where
  "tje_siblings es e = filter (\<lambda>e'. tje_key e' = tje_key e) es"

lemma trj_probability_edge:
  assumes "list_all (\<lambda>e. 0 < tje_transition_count e) (trj_edges t)"
  shows "trj_edges (trj_computeTransitionProbabilities t) = map (\<lambda>e. e\<lparr>tje_transition_probability :=
    real (tje_transition_count e) / real (sum_list (map tje_transition_count (tje_siblings (trj_edges t) e)))\<rparr>) (trj_edges t)"
proof -
  have "0 < sum_list (map tje_transition_count (tje_siblings (trj_edges t) e))" if "e \<in> set (trj_edges t)" for e
  proof -
    have "tje_transition_count e \<le> sum_list (map tje_transition_count (tje_siblings (trj_edges t) e))"
      by (rule sum_list_mem_le) (use that in \<open>simp add: tje_siblings_def\<close>)
    moreover have "0 < tje_transition_count e" using assms that by (simp add: list_all_iff)
    ultimately show ?thesis by linarith
  qed
  then show ?thesis
    by (simp add: trj_computeTransitionProbabilities_def Let_def trj_fromCounts_lookup tje_siblings_def cong: map_cong)
qed

lemma count_list_pos: "x \<in> set xs \<Longrightarrow> 0 < count_list xs x"
  using count_list_0_iff [of xs x] by simp

lemma count_list_filter: "P x \<Longrightarrow> count_list (filter P xs) x = count_list xs x"
  by (induction xs) auto

text \<open>The moves out of a zone.\<close>

definition moves_from :: "((int \<times> int) \<times> int \<times> int) list \<Rightarrow> int \<times> int \<Rightarrow> ((int \<times> int) \<times> int \<times> int) list" where
  "moves_from ms z = filter (\<lambda>m. fst m = z) ms"

lemma thousand_key:
  assumes "0 \<le> (b::int)" "b < 1000" "0 \<le> d" "d < 1000"
  shows "a * 1000 + b = c * 1000 + d \<longleftrightarrow> a = c \<and> b = d"
proof
  assume eq: "a * 1000 + b = c * 1000 + d"
  have "a \<le> c" using eq assms by linarith
  moreover have "c \<le> a" using eq assms by linarith
  ultimately show "a = c \<and> b = d" using eq by simp
qed simp

lemma tje_siblings_total:
  assumes "tje_counts es ms" "list_all (\<lambda>m. 0 \<le> snd (fst m) \<and> snd (fst m) < 1000) ms" "e \<in> set es"
  shows "sum_list (map tje_transition_count (tje_siblings es e)) = length (moves_from ms (fst (tje_ends e)))"
proof -
  have ends: "tje_ends ` set es = set ms" using assms(1) by (simp add: tje_counts_def)
  have key: "tje_key e' = tje_key e \<longleftrightarrow> fst (tje_ends e') = fst (tje_ends e)" if "e' \<in> set es" for e'
  proof -
    have mem: "tje_ends e' \<in> set ms" "tje_ends e \<in> set ms" using ends that assms(3) by blast+
    have "0 \<le> tje_from_zone_y e'" "tje_from_zone_y e' < 1000" "0 \<le> tje_from_zone_y e" "tje_from_zone_y e < 1000"
      using mem assms(2) by (auto simp: list_all_iff tje_ends_def)
    then show ?thesis by (simp add: tje_key_def tje_ends_def thousand_key)
  qed
  let ?out = "filter (\<lambda>e'. fst (tje_ends e') = fst (tje_ends e)) es"
  have "sum_list (map tje_transition_count (tje_siblings es e)) = sum_list (map tje_transition_count ?out)"
    unfolding tje_siblings_def by (simp add: key cong: filter_cong)
  also have "\<dots> = sum_list (map (\<lambda>e'. count_list ms (tje_ends e')) ?out)"
    using assms(1) by (intro arg_cong [where f = sum_list] map_cong) (auto simp: tje_counts_def list_all_iff)
  also have "\<dots> = sum_list (map (count_list ms) (map tje_ends ?out))" by (simp add: o_def)
  also have "\<dots> = sum (count_list ms) (set (map tje_ends ?out))"
  proof (rule sum_list_distinct_conv_sum_set)
    show "distinct (map tje_ends ?out)" using assms(1) by (simp add: tje_counts_def distinct_map_filter)
  qed
  also have "set (map tje_ends ?out) = {m \<in> tje_ends ` set es. fst m = fst (tje_ends e)}" by auto
  also have "\<dots> = set (moves_from ms (fst (tje_ends e)))" unfolding ends moves_from_def by simp
  also have "sum (count_list ms) \<dots> = sum (count_list (moves_from ms (fst (tje_ends e)))) (set (moves_from ms (fst (tje_ends e))))"
    by (rule sum.cong) (auto simp: moves_from_def count_list_filter)
  also have "\<dots> = length (moves_from ms (fst (tje_ends e)))" by (rule sum_count_set) auto
  finally show ?thesis .
qed

text \<open>How often a zone was left for another, among the times it was left.\<close>

definition move_share :: "((int \<times> int) \<times> int \<times> int) list \<Rightarrow> int \<times> int \<Rightarrow> int \<times> int \<Rightarrow> real" where
  "move_share ms a b = real (count_list ms (a, b)) / real (length (moves_from ms a))"

definition tje_shared :: "((int \<times> int) \<times> int \<times> int) list \<Rightarrow> TrajectoryEdge \<Rightarrow> TrajectoryEdge" where
  "tje_shared ms e = e\<lparr>tje_transition_probability := move_share ms (fst (tje_ends e)) (snd (tje_ends e))\<rparr>"

lemma tje_shared_ends [simp]: "tje_ends (tje_shared ms e) = tje_ends e"
  by (simp add: tje_shared_def tje_ends_def)

lemma trj_finalized_edges:
  assumes "tje_counts (trj_edges t) ms" "list_all (\<lambda>m. 0 \<le> snd (fst m) \<and> snd (fst m) < 1000) ms"
  shows "trj_edges (trj_finalizeFrame now t) = map (tje_shared ms) (trj_edges t)"
proof -
  have mem: "tje_ends e \<in> set ms" "tje_transition_count e = count_list ms (tje_ends e)" if "e \<in> set (trj_edges t)" for e
    using assms(1) that by (auto simp: tje_counts_def list_all_iff)
  then have pos: "list_all (\<lambda>e. 0 < tje_transition_count e) (trj_edges t)"
    by (simp add: list_all_iff count_list_pos)
  show ?thesis unfolding trj_finalizeFrame_def trj_probability_edge [OF pos]
    by (rule map_cong [OF refl]) (simp add: tje_siblings_total [OF assms] mem(2) move_share_def tje_shared_def)
qed

lemma trj_zone_range: "0 < trj_grid_size t \<Longrightarrow> 0 \<le> snd (trj_zone t s) \<and> snd (trj_zone t s) < trj_grid_size t"
  by (simp add: trj_zone_def trj_worldToZone_def)

lemma trj_moves_range:
  assumes "0 < trj_grid_size t" "trj_grid_size t \<le> 1000" "\<And>a z. pos a = Some z \<Longrightarrow> 0 \<le> snd z \<and> snd z < trj_grid_size t"
  shows "list_all (\<lambda>m. 0 \<le> snd (fst m) \<and> snd (fst m) < 1000) (trj_moves t pos h)"
  using assms(3)
proof (induction h arbitrary: pos)
  case (Cons s h)
  have step: "list_all (\<lambda>m. 0 \<le> snd (fst m) \<and> snd (fst m) < 1000) (zone_move pos (sgt_asset s) (trj_zone t s))"
    using Cons.prems [of "sgt_asset s"] assms(2) by (force simp: zone_move_def split: option.splits)
  have rest: "list_all (\<lambda>m. 0 \<le> snd (fst m) \<and> snd (fst m) < 1000) (trj_moves t (pos(sgt_asset s \<mapsto> trj_zone t s)) h)"
    by (rule Cons.IH) (use Cons.prems trj_zone_range [OF assms(1), of s] in \<open>auto split: if_splits\<close>)
  show ?case using step rest by simp
qed simp

lemma find_distinct_map:
  assumes "distinct (map k xs)" "x \<in> set xs"
  shows "find (\<lambda>y. k y = k x) xs = Some x"
  using assms by (induction xs) (auto simp: image_iff)

lemma trj_lookup:
  assumes "tje_counts (trj_edges t) ms" "list_all (\<lambda>m. 0 \<le> snd (fst m) \<and> snd (fst m) < 1000) ms"
  shows "trj_getZoneTransitionProbability (fst a) (snd a) (fst b) (snd b) (trj_finalizeFrame now t) = move_share ms a b"
proof -
  have is_eq: "tje_is a b = (\<lambda>e. tje_ends e = (a, b))" by (simp add: fun_eq_iff tje_is_ends)
  have dist: "distinct (map tje_ends (map (tje_shared ms) (trj_edges t)))" using assms(1) by (simp add: tje_counts_def o_def)
  show ?thesis
  proof (cases "(a, b) \<in> set ms")
    case True
    then have "(a, b) \<in> tje_ends ` set (trj_edges t)" using assms(1) by (simp add: tje_counts_def)
    then obtain e where e: "e \<in> set (trj_edges t)" "(a, b) = tje_ends e" by (rule imageE)
    have "tje_shared ms e \<in> set (map (tje_shared ms) (trj_edges t))" using e(1) by simp
    from find_distinct_map [OF dist this]
    have "find (\<lambda>y. tje_ends y = (a, b)) (map (tje_shared ms) (trj_edges t)) = Some (tje_shared ms e)"
      by (simp only: tje_shared_ends e(2))
    then show ?thesis
      by (simp add: trj_getZoneTransitionProbability_def is_eq trj_finalized_edges [OF assms] tje_shared_def flip: e(2))
  next
    case False
    then have "(a, b) \<notin> tje_ends ` set (trj_edges t)" using assms(1) by (simp add: tje_counts_def)
    then have "tje_ends e \<noteq> (a, b)" if "e \<in> set (trj_edges t)" for e using that by (metis imageI)
    then have "find (\<lambda>e. tje_ends e = (a, b)) (map (tje_shared ms) (trj_edges t)) = None" by (auto simp: find_None_iff)
    moreover have "count_list ms (a, b) = 0" using False by (simp add: count_list_0_iff)
    ultimately show ?thesis
      by (simp add: trj_getZoneTransitionProbability_def is_eq trj_finalized_edges [OF assms] move_share_def)
  qed
qed

lemma move_share_total:
  assumes "moves_from ms a \<noteq> []"
  shows "(\<Sum>b \<in> snd ` set (moves_from ms a). move_share ms a b) = 1"
proof -
  have inj: "inj_on snd (set (moves_from ms a))" by (auto simp: inj_on_def moves_from_def)
  have "(\<Sum>b \<in> snd ` set (moves_from ms a). count_list ms (a, b)) = (\<Sum>m \<in> set (moves_from ms a). count_list ms (a, snd m))"
    by (simp add: sum.reindex [OF inj])
  also have "\<dots> = sum (count_list (moves_from ms a)) (set (moves_from ms a))"
    by (rule sum.cong) (auto simp: moves_from_def count_list_filter)
  also have "\<dots> = length (moves_from ms a)" by (rule sum_count_set) auto
  finally have "(\<Sum>b \<in> snd ` set (moves_from ms a). real (count_list ms (a, b))) = real (length (moves_from ms a))"
    by (metis of_nat_sum)
  then show ?thesis using assms by (simp add: move_share_def flip: sum_divide_distrib)
qed

lemma trj_initialize_fields:
  "trj_shape (trj_initialize g c t) = (g, c)" "trj_edges (trj_initialize g c t) = []"
  "trj_last_positions (trj_initialize g c t) = trj_last_positions t"
  by (simp_all add: trj_initialize_def trj_shape_def)

lemma trj_history:
  assumes "0 < g" "g \<le> 1000" "t = trj_initialize g c (trj_shutdown t0)"
  shows "tje_counts (trj_edges (fold trj_see h t)) (trj_moves t Map.empty h)"
    "list_all (\<lambda>m. 0 \<le> snd (fst m) \<and> snd (fst m) < 1000) (trj_moves t Map.empty h)"
proof -
  have "tje_counts (trj_edges t) []" by (simp add: assms(3) trj_initialize_fields tje_counts_def)
  from conjunct1 [OF trj_run [OF this, of h]]
  show "tje_counts (trj_edges (fold trj_see h t)) (trj_moves t Map.empty h)"
    by (simp add: assms(3) trj_initialize_fields trj_shutdown_def)
  have "trj_grid_size t = g" by (simp add: assms(3) trj_initialize_def)
  then show "list_all (\<lambda>m. 0 \<le> snd (fst m) \<and> snd (fst m) < 1000) (trj_moves t Map.empty h)"
    using assms(1,2) by (intro trj_moves_range) auto
qed

text \<open>On a grid of up to 1000 cells a side the probability of a transition, at the end of a frame, is its share of the
  moves out of the zone; out of every zone that was left the probabilities add up to 1.\<close>

theorem trj_probabilities_exact:
  assumes "0 < g" "g \<le> 1000" "t = trj_initialize g c (trj_shutdown t0)" "t' = trj_finalizeFrame now (fold trj_see h t)"
  shows "\<forall>a b. trj_getZoneTransitionProbability (fst a) (snd a) (fst b) (snd b) t' = move_share (trj_moves t Map.empty h) a b \<and>
    (moves_from (trj_moves t Map.empty h) a \<noteq> [] \<longrightarrow>
      (\<Sum>z \<in> snd ` set (moves_from (trj_moves t Map.empty h) a).
         trj_getZoneTransitionProbability (fst a) (snd a) (fst z) (snd z) t') = 1)"
  using trj_lookup [OF trj_history [OF assms(1-3)]] move_share_total by (simp add: assms(4))

lemma trj_probabilities_exact_witness:
  "trj_getZoneTransitionProbability 0 0 0 1 (trj_finalizeFrame 9 (fold trj_see
     [\<lparr>sgt_asset = 1, sgt_x = 1, sgt_y = 1, sgt_timestamp = 1\<rparr>, \<lparr>sgt_asset = 1, sgt_x = 1, sgt_y = 15, sgt_timestamp = 2\<rparr>]
     (trj_initialize 64 10 (trj_shutdown trj_new)))) = 1"
proof -
  let ?t = "trj_initialize 64 10 (trj_shutdown trj_new)"
  let ?h = "[\<lparr>sgt_asset = 1, sgt_x = 1, sgt_y = 1, sgt_timestamp = 1\<rparr>, \<lparr>sgt_asset = 1, sgt_x = 1, sgt_y = 15, sgt_timestamp = 2\<rparr>]"
  have ms: "trj_moves ?t Map.empty ?h = [((0, 0), (0, 1))]"
    by (simp add: trj_zone_def trj_worldToZone_def trj_initialize_def trunc_int_def zone_move_def)
  have "move_share [((0, 0), (0, 1))] (0, 0) (0, 1) = 1" by (simp add: move_share_def moves_from_def)
  moreover have "\<forall>a b. trj_getZoneTransitionProbability (fst a) (snd a) (fst b) (snd b) (trj_finalizeFrame 9 (fold trj_see ?h ?t)) =
      move_share (trj_moves ?t Map.empty ?h) a b"
    using trj_probabilities_exact [of 64 ?t 10 trj_new _ 9 ?h, OF _ _ refl refl] by (simp only: le_numeral_extra) simp
  ultimately show ?thesis unfolding ms by (metis fst_conv snd_conv)
qed

section \<open>The prediction\<close>

lemma fold_best:
  fixes v :: "'a \<Rightarrow> real"
  assumes "\<And>e m bx by. st e (m, bx, by) = (if P e \<and> v e > m then (v e, f e, g e) else (m, bx, by))"
  shows "0 \<le> fst (fold st es (0, cx, cy)) \<and> (\<forall>e \<in> set es. P e \<longrightarrow> v e \<le> fst (fold st es (0, cx, cy))) \<and>
    (fold st es (0, cx, cy) = (0, cx, cy) \<or> (\<exists>e \<in> set es. P e \<and> fold st es (0, cx, cy) = (v e, f e, g e)))"
proof (induction es rule: rev_induct)
  case (snoc e es)
  obtain m bx "by" where r: "fold st es (0, cx, cy) = (m, bx, by)" by (metis surj_pair)
  have r': "fold st (es @ [e]) (0, cx, cy) = (if P e \<and> v e > m then (v e, f e, g e) else (m, bx, by))"
    by (simp add: r assms)
  show ?case using snoc.IH unfolding r r' by auto
qed simp

text \<open>The zone predicted for an asset is one that its zone was left for most often; the confidence is that share. An
  asset in a zone that was never left is predicted to stay, without confidence.\<close>

theorem trj_prediction_best:
  assumes "0 < g" "g \<le> 1000" "t = trj_initialize g c (trj_shutdown t0)" "t' = trj_finalizeFrame now (fold trj_see h t)"
    "ms = trj_moves t Map.empty h" "trj_last_positions t' a = Some z" "p = trj_predictNextZone junk a now' t'"
  shows "(tjp_current_zone_x p, tjp_current_zone_y p) = z \<and> (\<forall>b. move_share ms z b \<le> tjp_confidence p) \<and>
    (if moves_from ms z = [] then (tjp_predicted_zone_x p, tjp_predicted_zone_y p) = z \<and> tjp_confidence p = 0
     else (z, tjp_predicted_zone_x p, tjp_predicted_zone_y p) \<in> set ms \<and>
       tjp_confidence p = move_share ms z (tjp_predicted_zone_x p, tjp_predicted_zone_y p))"
proof -
  let ?es = "trj_edges (fold trj_see h t)"
  have counts: "tje_counts ?es ms" and range: "list_all (\<lambda>m. 0 \<le> snd (fst m) \<and> snd (fst m) < 1000) ms"
    using trj_history [OF assms(1-3)] by (simp_all add: assms(5))
  have edges: "trj_edges t' = map (tje_shared ms) ?es" unfolding assms(4) by (rule trj_finalized_edges [OF counts range])
  obtain cx cy where z: "z = (cx, cy)" by (cases z)
  define r where "r = fold (\<lambda>e (m, bx, by). if (tje_from_zone_x e = cx \<and> tje_from_zone_y e = cy) \<and> tje_transition_probability e > m
    then (tje_transition_probability e, tje_to_zone_x e, tje_to_zone_y e) else (m, bx, by)) (trj_edges t') (0, cx, cy)"
  have p: "tjp_current_zone_x p = cx" "tjp_current_zone_y p = cy" "tjp_confidence p = fst r"
    "tjp_predicted_zone_x p = fst (snd r)" "tjp_predicted_zone_y p = snd (snd r)"
    using assms(6) by (simp_all add: assms(7) trj_predictNextZone_def z r_def conj_assoc case_prod_beta)
  have best: "0 \<le> fst r" "\<And>e. e \<in> set (trj_edges t') \<Longrightarrow> tje_from_zone_x e = cx \<Longrightarrow> tje_from_zone_y e = cy \<Longrightarrow> tje_transition_probability e \<le> fst r"
    "r = (0, cx, cy) \<or> (\<exists>e \<in> set (trj_edges t'). (tje_from_zone_x e = cx \<and> tje_from_zone_y e = cy) \<and>
       r = (tje_transition_probability e, tje_to_zone_x e, tje_to_zone_y e))"
    using fold_best [of "\<lambda>e (m, bx, by). if (tje_from_zone_x e = cx \<and> tje_from_zone_y e = cy) \<and> tje_transition_probability e > m
      then (tje_transition_probability e, tje_to_zone_x e, tje_to_zone_y e) else (m, bx, by)"
      "\<lambda>e. tje_from_zone_x e = cx \<and> tje_from_zone_y e = cy" tje_transition_probability tje_to_zone_x tje_to_zone_y "trj_edges t'" cx cy]
    by (simp_all only: r_def [symmetric] prod.case)
  have edge: "\<exists>e \<in> set (trj_edges t'). tje_ends e = (z, b) \<and> tje_transition_probability e = move_share ms z b"
    if b: "(z, b) \<in> set ms" for b
  proof -
    have "(z, b) \<in> tje_ends ` set ?es" using b counts by (simp add: tje_counts_def)
    then obtain e where e: "e \<in> set ?es" "(z, b) = tje_ends e" by (rule imageE)
    have "tje_shared ms e \<in> set (trj_edges t')" using e(1) by (simp add: edges)
    moreover have "tje_transition_probability (tje_shared ms e) = move_share ms z b" by (simp add: tje_shared_def flip: e(2))
    ultimately show ?thesis using e(2) by (metis tje_shared_ends)
  qed
  have le: "move_share ms z b \<le> fst r" for b
  proof (cases "(z, b) \<in> set ms")
    case True
    from edge [OF this] best(2) show ?thesis by (fastforce simp: tje_ends_def z)
  next
    case False
    then have "move_share ms z b = 0" by (simp add: move_share_def count_list_0_iff)
    then show ?thesis using best(1) by simp
  qed
  have from_ends: "(z, b) \<in> set ms \<and> tje_transition_probability e = move_share ms z b"
    if e: "e \<in> set (trj_edges t')" "tje_from_zone_x e = cx" "tje_from_zone_y e = cy" "b = (tje_to_zone_x e, tje_to_zone_y e)" for e b
  proof -
    obtain e0 where e0: "e0 \<in> set ?es" "e = tje_shared ms e0" using e(1) by (auto simp: edges)
    have ends: "tje_ends e = (z, b)" using e by (simp add: tje_ends_def z)
    then have "(z, b) \<in> tje_ends ` set ?es" using e0 by (metis imageI tje_shared_ends)
    moreover have "tje_transition_probability e = move_share ms z b"
      using ends e0(2) by (simp add: tje_shared_def tje_ends_def)
    ultimately show ?thesis using counts by (simp add: tje_counts_def)
  qed
  show ?thesis
  proof (cases "moves_from ms z = []")
    case True
    then have "(z, b) \<notin> set ms" for b by (auto simp: moves_from_def filter_empty_conv)
    then have "r = (0, cx, cy)" using best(3) from_ends by blast
    then show ?thesis using True le p by (simp add: z)
  next
    case False
    then obtain m where m: "m \<in> set ms" "fst m = z" by (auto simp: moves_from_def filter_empty_conv)
    then have b: "(z, snd m) \<in> set ms" by (metis prod.collapse)
    have "0 < move_share ms z (snd m)" using False count_list_pos [OF b] by (simp add: move_share_def)
    then have "r \<noteq> (0, cx, cy)" using le [of "snd m"] by auto
    then obtain e where e: "e \<in> set (trj_edges t')" "tje_from_zone_x e = cx" "tje_from_zone_y e = cy"
      "r = (tje_transition_probability e, tje_to_zone_x e, tje_to_zone_y e)" using best(3) by blast
    from from_ends [OF e(1-3) refl] show ?thesis using False le p e(4) by (simp add: z)
  qed
qed

definition two_moves :: "Sighting list" where
  "two_moves = [\<lparr>sgt_asset = 1, sgt_x = 1, sgt_y = 1, sgt_timestamp = 1\<rparr>, \<lparr>sgt_asset = 1, sgt_x = 1, sgt_y = 15, sgt_timestamp = 2\<rparr>,
     \<lparr>sgt_asset = 2, sgt_x = 1, sgt_y = 1, sgt_timestamp = 3\<rparr>]"

lemma trj_prediction_best_witness:
  "let t = trj_initialize 64 10 (trj_shutdown trj_new); p = trj_predictNextZone junk 2 4 (trj_finalizeFrame 3 (fold trj_see two_moves t))
   in (tjp_predicted_zone_x p, tjp_predicted_zone_y p) = (0, 1) \<and> tjp_confidence p = 1"
proof -
  let ?t = "trj_initialize 64 10 (trj_shutdown trj_new)"
  let ?p = "trj_predictNextZone junk 2 4 (trj_finalizeFrame 3 (fold trj_see two_moves ?t))"
  have zone: "trj_zone ?t \<lparr>sgt_asset = a, sgt_x = x, sgt_y = y, sgt_timestamp = n\<rparr> =
      (max 0 (min 63 (trunc_int (x / 10))), max 0 (min 63 (trunc_int (y / 10))))" for a x y n
    by (simp add: trj_zone_def trj_worldToZone_def trj_initialize_def)
  have ms: "trj_moves ?t Map.empty two_moves = [((0, 0), (0, 1))]"
    by (simp add: two_moves_def zone zone_move_def trunc_int_def)
  have shape: "trj_zone (trj_see s t) s' = trj_zone t s'" for s s' t by (rule trj_zone_cong) (simp add: trj_see_fields)
  have "trj_last_positions (trj_finalizeFrame 3 (fold trj_see two_moves ?t)) 2 = Some (0, 0)"
    by (simp add: trj_finalizeFrame_def trj_computeTransitionProbabilities_def Let_def two_moves_def trj_see_fields shape zone trunc_int_def)
  from trj_prediction_best [OF _ _ refl refl refl this refl, of junk 4]
  show ?thesis unfolding ms Let_def by (simp add: moves_from_def move_share_def)
qed

text \<open>On a wider grid the key confuses zones: (0, 1000) and (1, 0) are counted together, and the probabilities out of
  a zone that was left for one other zone only do not add up to 1.\<close>

definition wide_moves :: "Sighting list" where
  "wide_moves = [\<lparr>sgt_asset = 1, sgt_x = 0, sgt_y = 1000, sgt_timestamp = 1\<rparr>, \<lparr>sgt_asset = 1, sgt_x = 0, sgt_y = 999, sgt_timestamp = 2\<rparr>,
     \<lparr>sgt_asset = 2, sgt_x = 1, sgt_y = 0, sgt_timestamp = 1\<rparr>, \<lparr>sgt_asset = 2, sgt_x = 1, sgt_y = 1, sgt_timestamp = 2\<rparr>]"

theorem trj_wide_grid_confuses:
  "trj_getZoneTransitionProbability 0 1000 0 999
     (trj_finalizeFrame 3 (fold trj_see wide_moves (trj_initialize 1001 1 trj_new))) = 1 / 2"
proof -
  let ?t = "trj_initialize 1001 1 trj_new"
  have zone: "trj_zone ?t \<lparr>sgt_asset = a, sgt_x = x, sgt_y = y, sgt_timestamp = n\<rparr> =
      (max 0 (min 1000 (trunc_int x)), max 0 (min 1000 (trunc_int y)))" for a x y n
    by (simp add: trj_zone_def trj_worldToZone_def trj_initialize_def)
  have shape: "trj_zone (trj_see s t) s' = trj_zone t s'" for s s' t by (rule trj_zone_cong) (simp add: trj_see_fields)
  have pos: "trj_last_positions trj_new = Map.empty" by (simp add: trj_new_def)
  have "trj_edges (fold trj_see wide_moves ?t) =
      [\<lparr>tje_from_zone_x = 0, tje_from_zone_y = 1000, tje_to_zone_x = 0, tje_to_zone_y = 999, tje_transition_count = 1,
         tje_transition_probability = 0, tje_avg_transition_time_ms = 0\<rparr>,
       \<lparr>tje_from_zone_x = 1, tje_from_zone_y = 0, tje_to_zone_x = 1, tje_to_zone_y = 1, tje_transition_count = 1,
         tje_transition_probability = 0, tje_avg_transition_time_ms = 0\<rparr>]"
    by (simp add: wide_moves_def trj_see_fields trj_updateEdge_def shape zone trunc_int_def trj_initialize_fields pos tje_is_def)
  then show ?thesis
    by (simp add: trj_finalizeFrame_def trj_computeTransitionProbabilities_def Let_def trj_fromCounts_def tje_key_def
        trj_getZoneTransitionProbability_def tje_is_def)
qed

end
