(* ===== verification/AI_Executor.thy ===== *)
theory AI_Executor
  imports AI_Analysis Trajectory_Graph Frame_Scheduler
begin

text \<open>
  The executor that analyses frames in its own thread (\<open>runtime/ai_executor\<close>): the queue of frames, the analysis of
  one frame by the trajectory graph, the risk field and the analysis pass, and the callbacks. A callback is a
  number; what the callbacks are called with is the trace (an exception they throw is swallowed). One round of
  \<open>processingLoop\<close> is a step; the time stamp of an analysis is an argument.
\<close>

record AIExecutor =
  aix_running :: bool
  aix_enabled :: bool
  aix_worker :: bool  \<comment> \<open>\<open>worker_thread_\<close> is joinable\<close>
  aix_queue :: "LiveFrame list"
  aix_queue_size :: nat
  aix_processed :: nat
  aix_callbacks :: "nat list"
  aix_pass :: AIAnalysisPass
  aix_graph :: TrajectoryGraph
  aix_field :: RiskField
  aix_trace :: "(nat \<times> AIFrameContext) list"

definition aix_new :: AIExecutor where
  "aix_new = \<lparr>aix_running = False, aix_enabled = True, aix_worker = False, aix_queue = [], aix_queue_size = 0,
     aix_processed = 0, aix_callbacks = [], aix_pass = aip_new, aix_graph = trj_new, aix_field = rf_new, aix_trace = []\<rparr>"

text \<open>Assigning a new thread to one that is still joinable ends the program.\<close>

definition aix_initialize :: "AIExecutor \<Rightarrow> fault + AIExecutor" where
  "aix_initialize e =
     (let e1 = e\<lparr>aix_pass := aip_initialize (aix_pass e), aix_graph := trj_initialize 64 10 (aix_graph e),
                 aix_field := rf_initialize 64 10 (aix_field e), aix_running := True, aix_enabled := True\<rparr>
      in if aix_worker e then Inl (Thrown ''std::terminate'') else Inr (e1\<lparr>aix_worker := True\<rparr>))"

definition aix_shutdown :: "AIExecutor \<Rightarrow> AIExecutor" where
  "aix_shutdown e = e\<lparr>aix_running := False, aix_worker := False, aix_pass := aip_shutdown (aix_pass e),
     aix_graph := trj_shutdown (aix_graph e), aix_field := rf_shutdown (aix_field e), aix_queue := []\<rparr>"

definition aix_submitFrame :: "LiveFrame \<Rightarrow> AIExecutor \<Rightarrow> AIExecutor" where
  "aix_submitFrame frame e =
     (if \<not> aix_enabled e then e
      else e\<lparr>aix_queue := aix_queue e @ [frame], aix_queue_size := length (aix_queue e @ [frame])\<rparr>)"

definition aix_registerCallback :: "nat \<Rightarrow> AIExecutor \<Rightarrow> AIExecutor" where
  "aix_registerCallback cb e = e\<lparr>aix_callbacks := aix_callbacks e @ [cb]\<rparr>"

definition aix_hasPendingWork :: "AIExecutor \<Rightarrow> bool" where
  "aix_hasPendingWork e \<longleftrightarrow> aix_queue e \<noteq> []"

definition aix_getQueueSize :: "AIExecutor \<Rightarrow> nat" where
  "aix_getQueueSize e = aix_queue_size e"

definition aix_setEnabled :: "bool \<Rightarrow> AIExecutor \<Rightarrow> AIExecutor" where
  "aix_setEnabled enabled e = e\<lparr>aix_enabled := enabled\<rparr>"

definition aix_isEnabled :: "AIExecutor \<Rightarrow> bool" where
  "aix_isEnabled e = aix_enabled e"

definition aix_analyzeFrame :: "u64 \<Rightarrow> LiveFrame \<Rightarrow> AIExecutor \<Rightarrow> fault + (AIFrameContext \<times> AIExecutor)" where
  "aix_analyzeFrame now frame e =
     (let timestamp = word_of_int (lf_timestamp frame) :: u64;
          graph = trj_finalizeFrame timestamp
            (fold (\<lambda>a. trj_updateAssetPosition (word_of_int (la_asset_id a)) (la_x a) (la_y a) timestamp) (lf_assets frame) (aix_graph e));
          assetRisks = map (\<lambda>a. (word_of_int (la_asset_id a), la_risk_score a)) (lf_assets frame);
          assetPositions = map (\<lambda>a. (la_x a, la_y a)) (lf_assets frame)
      in case rf_updateFromAssets assetRisks assetPositions (aix_field e) of
           Inl f \<Rightarrow> Inl f
         | Inr field \<Rightarrow>
             let field' = rf_computePropagation field;
                 riskCells = filter (\<lambda>c. rc_risk_value c > 1 / 100 \<or> rc_propagation_risk c > 1 / 100) (rf_risk_map field');
                 pass = aip_analyze now riskCells [] (aix_pass e)
             in Inr (aip_context pass, e\<lparr>aix_graph := graph, aix_field := field', aix_pass := pass\<rparr>))"

definition aix_processFrame :: "u64 \<Rightarrow> LiveFrame \<Rightarrow> AIExecutor \<Rightarrow> fault + AIExecutor" where
  "aix_processFrame now frame e =
     (case aix_analyzeFrame now frame e of
        Inl f \<Rightarrow> Inl f
      | Inr (context, e1) \<Rightarrow>
          Inr (e1\<lparr>aix_trace := aix_trace e1 @ map (\<lambda>cb. (cb, context)) (aix_callbacks e1), aix_processed := aix_processed e1 + 1\<rparr>))"

text \<open>One round of the loop; the wait ends at once when the executor is disabled, so a round then does nothing.\<close>

definition aix_round :: "u64 \<Rightarrow> AIExecutor \<Rightarrow> fault + AIExecutor" where
  "aix_round now e =
     (if \<not> aix_running e \<or> \<not> aix_enabled e then Inr e
      else case aix_queue e of
        [] \<Rightarrow> Inr e
      | frame # rest \<Rightarrow> aix_processFrame now frame (e\<lparr>aix_queue := rest, aix_queue_size := length rest\<rparr>))"

section \<open>Frames in, contexts out\<close>

datatype AIEvent = Frame_submitted LiveFrame | Enabled_set bool | Loop_round u64

fun aix_step :: "AIEvent \<Rightarrow> AIExecutor \<Rightarrow> fault + AIExecutor" where
  "aix_step (Frame_submitted f) e = Inr (aix_submitFrame f e)"
| "aix_step (Enabled_set b) e = Inr (aix_setEnabled b e)"
| "aix_step (Loop_round now) e = aix_round now e"

fun aix_session :: "AIEvent list \<Rightarrow> AIExecutor \<Rightarrow> fault + AIExecutor" where
  "aix_session [] e = Inr e"
| "aix_session (v # vs) e = (case aix_step v e of Inl f \<Rightarrow> Inl f | Inr e' \<Rightarrow> aix_session vs e')"

text \<open>The frames that are accepted: those submitted while the executor is enabled.\<close>

fun aix_accepted :: "AIEvent list \<Rightarrow> bool \<Rightarrow> LiveFrame list" where
  "aix_accepted [] b = []"
| "aix_accepted (Frame_submitted f # vs) b = (if b then f # aix_accepted vs b else aix_accepted vs b)"
| "aix_accepted (Enabled_set b' # vs) b = aix_accepted vs b'"
| "aix_accepted (Loop_round now # vs) b = aix_accepted vs b"

text \<open>The contexts of a sequence of frames, each analysed at its time after the ones before it.\<close>

definition aix_after :: "u64 \<Rightarrow> LiveFrame \<Rightarrow> AIExecutor \<Rightarrow> AIFrameContext \<times> AIExecutor" where
  "aix_after now f e = projr (aix_analyzeFrame now f e)"

fun aix_contexts :: "(u64 \<times> LiveFrame) list \<Rightarrow> AIExecutor \<Rightarrow> AIFrameContext list" where
  "aix_contexts [] e = []"
| "aix_contexts ((now, f) # fs) e = fst (aix_after now f e) # aix_contexts fs (snd (aix_after now f e))"

definition aix_same_core :: "AIExecutor \<Rightarrow> AIExecutor \<Rightarrow> bool" where
  "aix_same_core e e' \<longleftrightarrow> aix_pass e = aix_pass e' \<and> aix_graph e = aix_graph e' \<and> aix_field e = aix_field e'"

lemma rf_update_ready:
  assumes "rf_ready f"
  shows "\<exists>f'. rf_updateFromAssets rs ps f = Inr f' \<and> rf_ready (rf_computePropagation f')"
proof -
  have "rf_ready (f\<lparr>rf_risk_map := map rc_cleared (rf_risk_map f)\<rparr>)" using assms by (simp add: rf_ready_def)
  from rf_add_all_ready [OF this, of "zip rs ps"] show ?thesis
    using assms by (simp add: rf_updateFromAssets_def rf_ready_def rf_propagated_map)
qed

lemma aix_analyze_ready:
  assumes "rf_ready (aix_field e)"
  shows "aix_analyzeFrame now f e = Inr (aix_after now f e)" "rf_ready (aix_field (snd (aix_after now f e)))"
    "aix_callbacks (snd (aix_after now f e)) = aix_callbacks e" "aix_trace (snd (aix_after now f e)) = aix_trace e"
    "aix_processed (snd (aix_after now f e)) = aix_processed e" "aix_queue (snd (aix_after now f e)) = aix_queue e"
    "aix_enabled (snd (aix_after now f e)) = aix_enabled e" "aix_running (snd (aix_after now f e)) = aix_running e"
    "fc_prediction_confidence (fst (aix_after now f e)) = fc_prediction_confidence (aip_context (aix_pass e))"
    "aip_context (aix_pass (snd (aix_after now f e))) = fst (aix_after now f e)"
proof -
  obtain fd where fd: "rf_updateFromAssets (map (\<lambda>a. (word_of_int (la_asset_id a), la_risk_score a)) (lf_assets f))
      (map (\<lambda>a. (la_x a, la_y a)) (lf_assets f)) (aix_field e) = Inr fd" "rf_ready (rf_computePropagation fd)"
    using rf_update_ready [OF assms] by blast
  show "aix_analyzeFrame now f e = Inr (aix_after now f e)" "rf_ready (aix_field (snd (aix_after now f e)))"
    "aix_callbacks (snd (aix_after now f e)) = aix_callbacks e" "aix_trace (snd (aix_after now f e)) = aix_trace e"
    "aix_processed (snd (aix_after now f e)) = aix_processed e" "aix_queue (snd (aix_after now f e)) = aix_queue e"
    "aix_enabled (snd (aix_after now f e)) = aix_enabled e" "aix_running (snd (aix_after now f e)) = aix_running e"
    "fc_prediction_confidence (fst (aix_after now f e)) = fc_prediction_confidence (aip_context (aix_pass e))"
    "aip_context (aix_pass (snd (aix_after now f e))) = fst (aix_after now f e)"
    using fd(2) by (simp_all add: aix_after_def aix_analyzeFrame_def Let_def fd(1) aip_analyze_fields)
qed

lemma aix_after_cong:
  assumes "aix_same_core e e'" "rf_ready (aix_field e)"
  shows "fst (aix_after now f e) = fst (aix_after now f e') \<and> aix_same_core (snd (aix_after now f e)) (snd (aix_after now f e'))"
proof -
  have "rf_ready (aix_field e')" using assms by (simp add: aix_same_core_def)
  obtain fd where "rf_updateFromAssets (map (\<lambda>a. (word_of_int (la_asset_id a), la_risk_score a)) (lf_assets f))
      (map (\<lambda>a. (la_x a, la_y a)) (lf_assets f)) (aix_field e) = Inr fd"
    using rf_update_ready [OF assms(2)] by blast
  then show ?thesis using assms(1) by (simp add: aix_after_def aix_analyzeFrame_def Let_def aix_same_core_def)
qed

lemma aix_contexts_cong:
  "aix_same_core e e' \<Longrightarrow> rf_ready (aix_field e) \<Longrightarrow> aix_contexts fs e = aix_contexts fs e'"
proof (induction fs arbitrary: e e')
  case (Cons x fs)
  obtain now f where x: "x = (now, f)" by (cases x)
  show ?case using aix_after_cong [OF Cons.prems, of now f] Cons.IH aix_analyze_ready(2) [OF Cons.prems(2), of now f]
    by (simp add: x)
qed simp

definition aix_calls :: "nat list \<Rightarrow> AIFrameContext list \<Rightarrow> (nat \<times> AIFrameContext) list" where
  "aix_calls cbs cs = concat (map (\<lambda>c. map (\<lambda>cb. (cb, c)) cbs) cs)"

text \<open>What a session did: the frames \<open>done\<close> were taken from the front, analysed in order and reported.\<close>

definition aix_did :: "AIExecutor \<Rightarrow> AIEvent list \<Rightarrow> (u64 \<times> LiveFrame) list \<Rightarrow> AIExecutor \<Rightarrow> bool" where
  "aix_did e vs done e' \<longleftrightarrow> aix_queue e @ aix_accepted vs (aix_enabled e) = map snd done @ aix_queue e' \<and>
     aix_processed e' = aix_processed e + length done \<and>
     aix_trace e' = aix_trace e @ aix_calls (aix_callbacks e) (aix_contexts done e)"

lemma aix_did_skip:
  assumes "aix_did e1 vs done e'" "aix_same_core e e1" "rf_ready (aix_field e)" "aix_callbacks e1 = aix_callbacks e"
    "aix_trace e1 = aix_trace e" "aix_processed e1 = aix_processed e"
    "aix_queue e1 @ aix_accepted vs (aix_enabled e1) = aix_queue e @ aix_accepted (v # vs) (aix_enabled e)"
  shows "aix_did e (v # vs) done e'"
  using assms aix_contexts_cong [OF assms(2,3), of "done"] by (simp add: aix_did_def)

lemma aix_session_did:
  "rf_ready (aix_field e) \<Longrightarrow> \<exists>e' done. aix_session vs e = Inr e' \<and> aix_did e vs done e'"
proof (induction vs arbitrary: e)
  case Nil
  show ?case by (intro exI [of _ e] exI [of _ "[]"]) (simp add: aix_did_def aix_calls_def)
next
  case (Cons v vs)
  consider (idle) e1 where "aix_step v e = Inr e1" "aix_same_core e e1" "aix_callbacks e1 = aix_callbacks e" "aix_trace e1 = aix_trace e"
      "aix_processed e1 = aix_processed e"
      "aix_queue e1 @ aix_accepted vs (aix_enabled e1) = aix_queue e @ aix_accepted (v # vs) (aix_enabled e)"
    | (work) now f rest where "v = Loop_round now" "aix_running e" "aix_enabled e" "aix_queue e = f # rest"
  proof (cases v)
    case (Loop_round now)
    show ?thesis
    proof (cases "aix_running e \<and> aix_enabled e \<and> aix_queue e \<noteq> []")
      case True
      then show ?thesis using work Loop_round by (cases "aix_queue e") auto
    next
      case False
      show ?thesis by (rule idle [of e]) (use False Loop_round in \<open>auto simp: aix_round_def aix_same_core_def split: list.splits\<close>)
    qed
  qed (use idle in \<open>auto simp: aix_submitFrame_def aix_setEnabled_def aix_same_core_def\<close>)
  then show ?case
  proof cases
    case idle
    have "rf_ready (aix_field e1)" using idle(2) Cons.prems by (simp add: aix_same_core_def)
    from Cons.IH [OF this] obtain e' "done" where "aix_session vs e1 = Inr e'" "aix_did e1 vs done e'" by blast
    then show ?thesis using aix_did_skip [OF _ idle(2) Cons.prems idle(3-6)] idle(1) by auto
  next
    case work
    let ?e0 = "e\<lparr>aix_queue := rest, aix_queue_size := length rest\<rparr>"
    have ready0: "rf_ready (aix_field ?e0)" using Cons.prems by simp
    have core0: "aix_same_core e ?e0" by (simp add: aix_same_core_def)
    note after = aix_analyze_ready [OF ready0, of now f]
    let ?a = "aix_after now f ?e0"
    define e2 where "e2 = snd ?a\<lparr>aix_trace := aix_trace (snd ?a) @ map (\<lambda>cb. (cb, fst ?a)) (aix_callbacks (snd ?a)),
      aix_processed := aix_processed (snd ?a) + 1\<rparr>"
    have step: "aix_step v e = Inr e2"
      using work after(1) by (simp add: aix_round_def aix_processFrame_def e2_def case_prod_beta)
    have ready2: "rf_ready (aix_field e2)" using after(2) by (simp add: e2_def)
    from Cons.IH [OF ready2] obtain e' "done" where rest': "aix_session vs e2 = Inr e'" "aix_did e2 vs done e'" by blast
    have core2: "aix_same_core (snd (aix_after now f e)) e2"
      using aix_after_cong [OF core0 Cons.prems, of now f] by (simp add: aix_same_core_def e2_def)
    have fst': "fst ?a = fst (aix_after now f e)" using aix_after_cong [OF core0 Cons.prems, of now f] by simp
    have e2: "aix_queue e2 = rest" "aix_enabled e2 = aix_enabled e" "aix_callbacks e2 = aix_callbacks e"
      "aix_processed e2 = aix_processed e + 1" "aix_trace e2 = aix_trace e @ map (\<lambda>cb. (cb, fst (aix_after now f e))) (aix_callbacks e)"
      using after(3-7) by (simp_all add: e2_def fst')
    have cont: "aix_contexts done e2 = aix_contexts done (snd (aix_after now f e))"
      using aix_contexts_cong [OF core2 aix_analyze_ready(2) [OF Cons.prems]] by simp
    have "aix_did e (v # vs) ((now, f) # done) e'"
      using rest'(2) work e2 by (simp add: aix_did_def cont aix_calls_def)
    then show ?thesis using step rest'(1) by auto
  qed
qed

lemma aix_contexts_confidence:
  "rf_ready (aix_field e) \<Longrightarrow> list_all (\<lambda>c. fc_prediction_confidence c = fc_prediction_confidence (aip_context (aix_pass e))) (aix_contexts fs e)"
proof (induction fs arbitrary: e)
  case (Cons x fs)
  obtain now f where x: "x = (now, f)" by (cases x)
  note after = aix_analyze_ready [OF Cons.prems, of now f]
  from Cons.IH [OF after(2)] show ?case by (simp add: x after(9,10))
qed simp

lemma aix_callbacks_registered:
  "fold aix_registerCallback cbs e = e\<lparr>aix_callbacks := aix_callbacks e @ cbs\<rparr>"
  by (induction cbs arbitrary: e) (auto simp: aix_registerCallback_def)

text \<open>Whatever is submitted, enabled, disabled and processed after the initialisation: no analysis fails; the frames are
  analysed in the order they were accepted, none twice and none left out; every callback is called once with the
  context of each; and the confidence of a prediction is 0 in all of them.\<close>

theorem aix_frames_in_order:
  assumes "aix_initialize (fold aix_registerCallback cbs aix_new) = Inr e"
  shows "\<exists>e' done. aix_session vs e = Inr e' \<and> aix_accepted vs True = map snd done @ aix_queue e' \<and>
    aix_processed e' = length done \<and> aix_trace e' = aix_calls cbs (aix_contexts done e) \<and>
    list_all (\<lambda>c. fc_prediction_confidence c = 0) (aix_contexts done e)"
proof -
  have e: "e = (fold aix_registerCallback cbs aix_new)\<lparr>aix_pass := aip_initialize aip_new, aix_graph := trj_initialize 64 10 trj_new,
      aix_field := rf_initialize 64 10 rf_new, aix_running := True, aix_enabled := True, aix_worker := True\<rparr>"
    using assms by (simp add: aix_initialize_def aix_callbacks_registered aix_new_def)
  have ready: "rf_ready (aix_field e)" by (simp add: e rf_initialize_ready)
  from aix_session_did [OF ready] obtain e' "done" where "aix_session vs e = Inr e'" "aix_did e vs done e'" by blast
  moreover have "aix_queue e = []" "aix_enabled e" "aix_processed e = 0" "aix_trace e = []" "aix_callbacks e = cbs"
    "fc_prediction_confidence (aip_context (aix_pass e)) = 0"
    by (simp_all add: e aix_callbacks_registered aix_new_def aip_initialize_def aip_new_def fc_zero_def)
  ultimately show ?thesis using aix_contexts_confidence [OF ready, of "done"] by (auto simp: aix_did_def)
qed

lemma aix_frames_in_order_witness:
  "\<forall>f. \<exists>e e'. aix_initialize (fold aix_registerCallback [1, 2] aix_new) = Inr e \<and>
    aix_session [Enabled_set False, Frame_submitted f, Enabled_set True, Frame_submitted f, Loop_round 5] e = Inr e' \<and>
    aix_processed e' + length (aix_queue e') = 1"
proof
  fix f :: LiveFrame
  let ?vs = "[Enabled_set False, Frame_submitted f, Enabled_set True, Frame_submitted f, Loop_round 5]"
  have "\<not> aix_worker (fold aix_registerCallback [1, 2] aix_new)" unfolding aix_callbacks_registered by (simp add: aix_new_def)
  then obtain e where e: "aix_initialize (fold aix_registerCallback [1, 2] aix_new) = Inr e"
    by (cases "aix_initialize (fold aix_registerCallback [1, 2] aix_new)") (simp_all add: aix_initialize_def Let_def)
  from aix_frames_in_order [OF this, of ?vs] obtain e' and "done" :: "(u64 \<times> LiveFrame) list" where
    "aix_session ?vs e = Inr e'" "aix_accepted ?vs True = map snd done @ aix_queue e'" "aix_processed e' = length done"
    by blast
  moreover have "length (aix_accepted ?vs True) = 1" by simp
  ultimately have "aix_processed e' + length (aix_queue e') = 1" by (metis length_append length_map)
  with e \<open>aix_session ?vs e = Inr e'\<close> show "\<exists>e e'. aix_initialize (fold aix_registerCallback [1, 2] aix_new) = Inr e \<and>
    aix_session ?vs e = Inr e' \<and> aix_processed e' + length (aix_queue e') = 1" by blast
qed

text \<open>A second initialisation without a shutdown ends the program, and the size reported after a shutdown is that of the
  queue before it.\<close>

theorem aix_restart:
  "aix_initialize e = Inr e1 \<Longrightarrow> aix_initialize e1 = Inl (Thrown ''std::terminate'') \<and>
    aix_getQueueSize (aix_shutdown (aix_submitFrame f e1)) = length (aix_queue e1) + 1 \<and>
    \<not> aix_hasPendingWork (aix_shutdown (aix_submitFrame f e1))"
  by (auto simp: aix_initialize_def Let_def aix_getQueueSize_def aix_shutdown_def aix_submitFrame_def aix_hasPendingWork_def split: if_splits)

end
