(* ===== verification/Factories.thy ===== *)
theory Factories
  imports Spatial_Frame AI_Analysis
begin

text \<open>
  The factories of the system: their registry with the last frame and context of each
  (\<open>runtime/factory_namespace\<close>), and the federation that spreads risk between them (\<open>runtime/factory_federation\<close>).
  A shared pointer that may be null is an option. The federation's helper \<open>processEvent\<close> locks the mutex that most
  of its callers hold: such a call is \<open>SelfDeadlock\<close>. A callback is a number, and what it is called with the trace.
\<close>

section \<open>The registry\<close>

record FactoryContext =
  fac_id :: u32
  fac_name :: string
  fac_location :: string
  fac_is_online :: bool
  fac_last_sync_timestamp :: u64
  fac_current_frame :: "SpatialFrame option"
  fac_ai_context :: "AIFrameContext option"

record FactoryNamespace =
  fn_factories :: "FactoryContext list"
  fn_next_factory_id :: u32

definition fn_new :: FactoryNamespace where
  "fn_new = \<lparr>fn_factories = [], fn_next_factory_id = 1\<rparr>"

definition fn_registerFactory :: "u64 \<Rightarrow> string \<Rightarrow> string \<Rightarrow> FactoryNamespace \<Rightarrow> u32 \<times> FactoryNamespace" where
  "fn_registerFactory now name location n =
     (let context = \<lparr>fac_id = fn_next_factory_id n, fac_name = name, fac_location = location, fac_is_online = True,
                     fac_last_sync_timestamp = now, fac_current_frame = None, fac_ai_context = None\<rparr>
      in (fac_id context, \<lparr>fn_factories = fn_factories n @ [context], fn_next_factory_id = fn_next_factory_id n + 1\<rparr>))"

definition fn_unregisterFactory :: "u32 \<Rightarrow> FactoryNamespace \<Rightarrow> FactoryNamespace" where
  "fn_unregisterFactory i n = n\<lparr>fn_factories := update_first (\<lambda>f. fac_id f = i) (fac_is_online_update (\<lambda>_. False)) (fn_factories n)\<rparr>"

definition fn_updateFactoryFrame :: "u64 \<Rightarrow> u32 \<Rightarrow> SpatialFrame option \<Rightarrow> FactoryNamespace \<Rightarrow> bool \<times> FactoryNamespace" where
  "fn_updateFactoryFrame now i frame n =
     (if find (\<lambda>f. fac_id f = i) (fn_factories n) \<noteq> None
      then (True, n\<lparr>fn_factories := update_first (\<lambda>f. fac_id f = i)
             (\<lambda>f. f\<lparr>fac_current_frame := frame, fac_last_sync_timestamp := now\<rparr>) (fn_factories n)\<rparr>)
      else (False, n))"

definition fn_updateFactoryAIContext :: "u64 \<Rightarrow> u32 \<Rightarrow> AIFrameContext option \<Rightarrow> FactoryNamespace \<Rightarrow> bool \<times> FactoryNamespace" where
  "fn_updateFactoryAIContext now i context n =
     (if find (\<lambda>f. fac_id f = i) (fn_factories n) \<noteq> None
      then (True, n\<lparr>fn_factories := update_first (\<lambda>f. fac_id f = i)
             (\<lambda>f. f\<lparr>fac_ai_context := context, fac_last_sync_timestamp := now\<rparr>) (fn_factories n)\<rparr>)
      else (False, n))"

definition fn_getFactory :: "u32 \<Rightarrow> FactoryNamespace \<Rightarrow> FactoryContext option" where
  "fn_getFactory i n = find (\<lambda>f. fac_id f = i) (fn_factories n)"

definition fn_getAllFactories :: "FactoryNamespace \<Rightarrow> FactoryContext list" where
  "fn_getAllFactories n = fn_factories n"

definition fn_getOnlineFactories :: "FactoryNamespace \<Rightarrow> u32 list" where
  "fn_getOnlineFactories n = map fac_id (filter fac_is_online (fn_factories n))"

definition fn_getTotalAssetCount :: "FactoryNamespace \<Rightarrow> nat" where
  "fn_getTotalAssetCount n = foldl (\<lambda>total f. case fac_current_frame f of
     None \<Rightarrow> total | Some frame \<Rightarrow> total + length (sf_assets frame)) 0 (fn_factories n)"

definition fn_getGlobalRiskIndex :: "FactoryNamespace \<Rightarrow> real" where
  "fn_getGlobalRiskIndex n =
     (let (sumRisk, k) = foldl (\<lambda>(s, k) f. case fac_ai_context f of
            None \<Rightarrow> (s, k) | Some c \<Rightarrow> (s + fc_global_risk_index c, k + 1)) (0, 0::nat) (fn_factories n)
      in if k > 0 then sumRisk / real k else 0)"

subsection \<open>Identities and what the totals count\<close>

datatype FactoryOp =
    Fac_register u64 string string
  | Fac_unregister u32
  | Fac_frame u64 u32 "SpatialFrame option"
  | Fac_context u64 u32 "AIFrameContext option"

fun fn_step :: "FactoryOp \<Rightarrow> FactoryNamespace \<Rightarrow> FactoryNamespace" where
  "fn_step (Fac_register now name loc) n = snd (fn_registerFactory now name loc n)"
| "fn_step (Fac_unregister i) n = fn_unregisterFactory i n"
| "fn_step (Fac_frame now i fr) n = snd (fn_updateFactoryFrame now i fr n)"
| "fn_step (Fac_context now i c) n = snd (fn_updateFactoryAIContext now i c n)"

text \<open>The registrations of a history, and the factories that are online after it: registered, and not unregistered since.\<close>

fun fn_registrations :: "FactoryOp list \<Rightarrow> nat" where
  "fn_registrations [] = 0"
| "fn_registrations (Fac_register now name loc # ops) = Suc (fn_registrations ops)"
| "fn_registrations (_ # ops) = fn_registrations ops"

fun fn_online_after :: "FactoryOp list \<Rightarrow> nat \<Rightarrow> u32 list \<Rightarrow> u32 list" where
  "fn_online_after [] k on = on"
| "fn_online_after (Fac_register now name loc # ops) k on = fn_online_after ops (Suc k) (on @ [of_nat (Suc k)])"
| "fn_online_after (Fac_unregister i # ops) k on = fn_online_after ops k (filter (\<lambda>j. j \<noteq> i) on)"
| "fn_online_after (_ # ops) k on = fn_online_after ops k on"

definition fn_rel :: "nat \<Rightarrow> u32 list \<Rightarrow> FactoryNamespace \<Rightarrow> bool" where
  "fn_rel k on n \<longleftrightarrow> map fac_id (fn_factories n) = map of_nat [1..<Suc k] \<and> fn_next_factory_id n = of_nat (Suc k) \<and>
     fn_getOnlineFactories n = on"

lemma distinct_ids: "k < 2 ^ 32 \<Longrightarrow> distinct (map (of_nat :: nat \<Rightarrow> u32) [1..<Suc k])"
proof -
  assume k: "k < 2 ^ 32"
  have "unat (of_nat i :: u32) = i" if "i \<in> set [1..<Suc k]" for i using that k by (auto simp: unat_of_nat)
  then show ?thesis unfolding distinct_map by (metis distinct_upt inj_onI)
qed

lemma filter_update_first:
  assumes "distinct (map k xs)" "\<And>x. k (f x) = k x" "\<And>x. k x = a \<Longrightarrow> \<not> P (f x)"
  shows "map k (filter P (update_first (\<lambda>x. k x = a) f xs)) = filter (\<lambda>j. j \<noteq> a) (map k (filter P xs))"
  using assms(1)
proof (induction xs)
  case (Cons x xs)
  have id: "filter (\<lambda>j. j \<noteq> a) ys = ys" if "a \<notin> set ys" for ys using that by (induction ys) auto
  show ?case
  proof (cases "k x = a")
    case True
    then have "a \<notin> set (map k (filter P xs))" using Cons.prems by auto
    with True show ?thesis using assms(3) [OF True] by (simp add: id)
  qed (use Cons in auto)
qed simp

lemma fn_update_same:
  assumes "\<And>x. fac_id (g x) = fac_id x" "\<And>x. fac_is_online (g x) = fac_is_online x" "fn_rel k on n"
  shows "fn_rel k on (n\<lparr>fn_factories := update_first (\<lambda>f. fac_id f = i) g (fn_factories n)\<rparr>)"
proof -
  have ids: "map fac_id (update_first (\<lambda>f. fac_id f = i) g xs) = map fac_id xs" for xs
    by (rule map_update_first) (rule assms(1))
  have "map fac_id (filter fac_is_online (update_first (\<lambda>f. fac_id f = i) g xs)) = map fac_id (filter fac_is_online xs)" for xs
    by (induction xs) (auto simp: assms(1,2))
  then show ?thesis using assms(3) by (simp add: fn_rel_def ids fn_getOnlineFactories_def)
qed

lemma fn_run:
  assumes "fn_rel k on n" "k + fn_registrations ops < 2 ^ 32"
  shows "fn_rel (k + fn_registrations ops) (fn_online_after ops k on) (fold fn_step ops n)"
  using assms
proof (induction ops arbitrary: k on n)
  case (Cons x ops)
  show ?case
  proof (cases x)
    case (Fac_register now name loc)
    have "fn_rel (Suc k) (on @ [of_nat (Suc k)]) (fn_step x n)"
      using Cons.prems(1) by (simp add: Fac_register fn_rel_def fn_registerFactory_def Let_def fn_getOnlineFactories_def)
    from Cons.IH [OF this] Cons.prems(2) show ?thesis by (simp add: Fac_register)
  next
    case (Fac_unregister i)
    have dist: "distinct (map fac_id (fn_factories n))"
      using Cons.prems distinct_ids [of k] by (simp add: fn_rel_def del: upt_Suc)
    have "map fac_id (update_first (\<lambda>f. fac_id f = i) (fac_is_online_update (\<lambda>_. False)) (fn_factories n)) = map fac_id (fn_factories n)"
      by (rule map_update_first) simp
    then have "fn_rel k (filter (\<lambda>j. j \<noteq> i) on) (fn_step x n)"
      using Cons.prems(1) filter_update_first [OF dist, of "fac_is_online_update (\<lambda>_. False)" i fac_is_online]
      by (simp add: Fac_unregister fn_rel_def fn_unregisterFactory_def fn_getOnlineFactories_def)
    from Cons.IH [OF this] Cons.prems(2) show ?thesis by (simp add: Fac_unregister)
  next
    case (Fac_frame now i fr)
    have "fn_rel k on (fn_step x n)"
      using Cons.prems(1) fn_update_same [of "\<lambda>f. f\<lparr>fac_current_frame := fr, fac_last_sync_timestamp := now\<rparr>"]
      by (simp add: Fac_frame fn_updateFactoryFrame_def)
    from Cons.IH [OF this] Cons.prems(2) show ?thesis by (simp add: Fac_frame)
  next
    case (Fac_context now i c)
    have "fn_rel k on (fn_step x n)"
      using Cons.prems(1) fn_update_same [of "\<lambda>f. f\<lparr>fac_ai_context := c, fac_last_sync_timestamp := now\<rparr>"]
      by (simp add: Fac_context fn_updateFactoryAIContext_def)
    from Cons.IH [OF this] Cons.prems(2) show ?thesis by (simp add: Fac_context)
  qed
qed simp

text \<open>Factories are numbered 1, 2, \<dots> in the order of their registration, none is ever removed, and the online
  factories are those registered and not unregistered since.\<close>

theorem fn_registry_exact:
  assumes "fn_registrations ops < 2 ^ 32" "n = fold fn_step ops fn_new"
  shows "map fac_id (fn_getAllFactories n) = map of_nat [1..<Suc (fn_registrations ops)] \<and>
    fn_getOnlineFactories n = fn_online_after ops 0 []"
proof -
  have "fn_rel 0 [] fn_new" by (simp add: fn_rel_def fn_new_def fn_getOnlineFactories_def)
  from fn_run [OF this, of ops] assms show ?thesis by (simp add: fn_rel_def fn_getAllFactories_def del: upt_Suc)
qed

lemma fn_registry_exact_witness:
  "fn_getOnlineFactories (fold fn_step [Fac_register 1 ''a'' '''', Fac_register 2 ''b'' '''', Fac_unregister 1] fn_new) = [2]"
  using fn_registry_exact [of "[Fac_register 1 ''a'' '''', Fac_register 2 ''b'' '''', Fac_unregister 1]", OF _ refl] by simp

lemma foldl_update_first: "(\<And>z x. h z (f x) = h z x) \<Longrightarrow> foldl h z (update_first P f xs) = foldl h z xs"
  by (induction xs arbitrary: z) auto

text \<open>Unregistering does not change what the totals count.\<close>

theorem fn_totals_ignore_unregister:
  "fn_getTotalAssetCount (fn_unregisterFactory i n) = fn_getTotalAssetCount n \<and>
   fn_getGlobalRiskIndex (fn_unregisterFactory i n) = fn_getGlobalRiskIndex n"
  by (simp add: fn_getTotalAssetCount_def fn_getGlobalRiskIndex_def fn_unregisterFactory_def foldl_update_first case_prod_beta)

section \<open>The federation\<close>

datatype FactoryEventType = RISK_THRESHOLD_EXCEEDED | ANOMALY_DETECTED | FACTORY_OFFLINE | FACTORY_ONLINE | SYNC_REQUEST | SYNC_COMPLETE

record FactoryEvent =
  fev_type :: FactoryEventType
  fev_factory_id :: u32
  fev_timestamp :: u64
  fev_risk_value :: real
  fev_message :: string

record FactoryRiskData =
  frd_factory_id :: u32
  frd_current_risk :: real
  frd_historical_average :: real
  frd_last_update :: u64
  frd_is_abnormal :: bool

text \<open>\<open>mutex_\<close> is held by the call in progress: \<open>ff_locked\<close>.\<close>

record FactoryFederation =
  ff_risk_data :: "FactoryRiskData list"
  ff_recent_events :: "FactoryEvent list"
  ff_callbacks :: "nat list"
  ff_locked :: bool
  ff_global_risk :: real
  ff_propagation_count :: nat
  ff_trace :: "(nat \<times> FactoryEvent) list"

definition FF_MAX_EVENTS :: nat where "FF_MAX_EVENTS = 1000"
definition GLOBAL_RISK_WEIGHT :: real where "GLOBAL_RISK_WEIGHT = 3 / 10"

definition ff_new :: FactoryFederation where
  "ff_new = \<lparr>ff_risk_data = [], ff_recent_events = [], ff_callbacks = [], ff_locked = False, ff_global_risk = 0,
     ff_propagation_count = 0, ff_trace = []\<rparr>"

text \<open>A method under its lock guard.\<close>

definition ff_guarded :: "(FactoryFederation \<Rightarrow> fault + FactoryFederation) \<Rightarrow> FactoryFederation \<Rightarrow> fault + FactoryFederation" where
  "ff_guarded body f =
     (if ff_locked f then Inl SelfDeadlock
      else case body (f\<lparr>ff_locked := True\<rparr>) of Inl e \<Rightarrow> Inl e | Inr f' \<Rightarrow> Inr (f'\<lparr>ff_locked := False\<rparr>))"

fun ff_seq :: "fault + FactoryFederation \<Rightarrow> (FactoryFederation \<Rightarrow> fault + FactoryFederation) \<Rightarrow> fault + FactoryFederation" where
  "ff_seq (Inl e) k = Inl e"
| "ff_seq (Inr f) k = k f"

definition ff_processEvent :: "FactoryEvent \<Rightarrow> FactoryFederation \<Rightarrow> fault + FactoryFederation" where
  "ff_processEvent event = ff_guarded (\<lambda>f. Inr (f\<lparr>ff_recent_events := bounded_push FF_MAX_EVENTS (ff_recent_events f) event,
     ff_trace := ff_trace f @ map (\<lambda>cb. (cb, event)) (ff_callbacks f)\<rparr>))"

definition ff_initialize :: "FactoryFederation \<Rightarrow> FactoryFederation" where
  "ff_initialize f = f\<lparr>ff_global_risk := 0, ff_propagation_count := 0\<rparr>"

definition ff_shutdown :: "FactoryFederation \<Rightarrow> fault + FactoryFederation" where
  "ff_shutdown = ff_guarded (\<lambda>f. Inr (f\<lparr>ff_risk_data := [], ff_recent_events := []\<rparr>))"

definition ff_registerFactory :: "u64 \<Rightarrow> u32 \<Rightarrow> string \<Rightarrow> string \<Rightarrow> FactoryFederation \<Rightarrow> fault + FactoryFederation" where
  "ff_registerFactory now factoryId name location = ff_guarded (\<lambda>f.
     if find (\<lambda>d. frd_factory_id d = factoryId) (ff_risk_data f) = None then
       let data = \<lparr>frd_factory_id = factoryId, frd_current_risk = 0, frd_historical_average = 0, frd_last_update = 0, frd_is_abnormal = False\<rparr>
       in ff_processEvent \<lparr>fev_type = FACTORY_ONLINE, fev_factory_id = factoryId, fev_timestamp = now, fev_risk_value = 0,
              fev_message = ''Factory registered: '' @ name\<rparr> (f\<lparr>ff_risk_data := ff_risk_data f @ [data]\<rparr>)
     else Inr f)"

definition ff_unregisterFactory :: "u64 \<Rightarrow> u32 \<Rightarrow> FactoryFederation \<Rightarrow> fault + FactoryFederation" where
  "ff_unregisterFactory now factoryId = ff_guarded (\<lambda>f.
     case find (\<lambda>d. frd_factory_id d = factoryId) (ff_risk_data f) of
       None \<Rightarrow> Inr f
     | Some d \<Rightarrow>
         ff_seq (ff_processEvent \<lparr>fev_type = FACTORY_OFFLINE, fev_factory_id = factoryId, fev_timestamp = now,
                   fev_risk_value = frd_current_risk d, fev_message = ''Factory unregistered''\<rparr> f)
           (\<lambda>f1. Inr (f1\<lparr>ff_risk_data := (let i = find_index_if (\<lambda>d. frd_factory_id d = factoryId) (ff_risk_data f1) in
                    take i (ff_risk_data f1) @ drop (Suc i) (ff_risk_data f1))\<rparr>)))"

definition frd_drawn :: "real \<Rightarrow> FactoryRiskData \<Rightarrow> FactoryRiskData" where
  "frd_drawn r d = d\<lparr>frd_current_risk := min 1 (frd_current_risk d + GLOBAL_RISK_WEIGHT * (r - frd_current_risk d))\<rparr>"

text \<open>An unknown source leaves the event's risk uninitialised: \<open>junk\<close>.\<close>

definition ff_propagateAnomaly :: "real \<Rightarrow> u64 \<Rightarrow> u32 \<Rightarrow> FactoryFederation \<Rightarrow> fault + FactoryFederation" where
  "ff_propagateAnomaly junk now sourceFactoryId = ff_guarded (\<lambda>f.
     let risk = (case find (\<lambda>d. frd_factory_id d = sourceFactoryId) (ff_risk_data f) of None \<Rightarrow> junk | Some d \<Rightarrow> frd_current_risk d) in
     ff_seq (ff_processEvent \<lparr>fev_type = ANOMALY_DETECTED, fev_factory_id = sourceFactoryId, fev_timestamp = now,
               fev_risk_value = risk, fev_message = ''Anomaly detected, propagating to connected factories''\<rparr> f)
       (\<lambda>f1. Inr (f1\<lparr>ff_risk_data := map (\<lambda>d. if frd_factory_id d \<noteq> sourceFactoryId then frd_drawn risk d else d) (ff_risk_data f1),
                     ff_propagation_count := ff_propagation_count f1 + 1\<rparr>)))"

definition frd_measured :: "u64 \<Rightarrow> real \<Rightarrow> FactoryRiskData \<Rightarrow> FactoryRiskData" where
  "frd_measured now risk d =
     (let avg = (frd_historical_average d * 9 + risk) / 10 in
      d\<lparr>frd_current_risk := risk, frd_last_update := now, frd_historical_average := avg, frd_is_abnormal := (\<bar>risk - avg\<bar> > 3 / 10)\<rparr>)"

definition ff_updateFactoryRisk :: "real \<Rightarrow> u64 \<Rightarrow> u32 \<Rightarrow> real \<Rightarrow> FactoryFederation \<Rightarrow> fault + FactoryFederation" where
  "ff_updateFactoryRisk junk now factoryId risk = ff_guarded (\<lambda>f.
     ff_seq
       (case find (\<lambda>d. frd_factory_id d = factoryId) (ff_risk_data f) of
          None \<Rightarrow> Inr f
        | Some d \<Rightarrow>
            let f1 = f\<lparr>ff_risk_data := update_first (\<lambda>d. frd_factory_id d = factoryId) (frd_measured now risk) (ff_risk_data f)\<rparr> in
            if risk > 7 / 10 then
              ff_seq (ff_processEvent \<lparr>fev_type = RISK_THRESHOLD_EXCEEDED, fev_factory_id = factoryId, fev_timestamp = now,
                        fev_risk_value = risk, fev_message = ''Risk threshold exceeded''\<rparr> f1)
                (\<lambda>f2. if frd_is_abnormal (frd_measured now risk d) then ff_propagateAnomaly junk now factoryId f2 else Inr f2)
            else Inr f1)
       (\<lambda>f3. let s = foldl (\<lambda>a d. a + frd_current_risk d) 0 (ff_risk_data f3) in
          Inr (f3\<lparr>ff_global_risk := (if ff_risk_data f3 \<noteq> [] then s / real (length (ff_risk_data f3)) else s)\<rparr>)))"

definition ff_getGlobalRisk :: "FactoryFederation \<Rightarrow> real" where
  "ff_getGlobalRisk f = ff_global_risk f"

definition ff_getHighRiskFactories :: "real \<Rightarrow> FactoryFederation \<Rightarrow> u32 list" where
  "ff_getHighRiskFactories threshold f = map frd_factory_id (filter (\<lambda>d. frd_current_risk d > threshold) (ff_risk_data f))"

definition ff_detectCrossFactoryAnomaly :: "u64 \<Rightarrow> FactoryFederation \<Rightarrow> fault + FactoryFederation" where
  "ff_detectCrossFactoryAnomaly now = ff_guarded (\<lambda>f.
     let abnormalCount = length (filter frd_is_abnormal (ff_risk_data f)) in
     if abnormalCount > 1 \<and> abnormalCount \<ge> length (ff_risk_data f) div 2 then
       ff_processEvent \<lparr>fev_type = ANOMALY_DETECTED, fev_factory_id = 0, fev_timestamp = now, fev_risk_value = ff_global_risk f,
         fev_message = ''Cross-factory anomaly detected: multiple factories showing abnormal behavior''\<rparr> f
     else Inr f)"

definition ff_syncFactories :: "u64 \<Rightarrow> FactoryFederation \<Rightarrow> fault + FactoryFederation" where
  "ff_syncFactories now f =
     (let event = \<lparr>fev_type = SYNC_REQUEST, fev_factory_id = 0, fev_timestamp = now, fev_risk_value = ff_global_risk f,
                   fev_message = ''Initiating event-based sync''\<rparr>
      in ff_seq (ff_seq (ff_processEvent event f) (ff_detectCrossFactoryAnomaly now))
           (ff_processEvent (event\<lparr>fev_type := SYNC_COMPLETE, fev_message := ''Sync completed''\<rparr>)))"

definition ff_registerEventCallback :: "nat \<Rightarrow> FactoryFederation \<Rightarrow> fault + FactoryFederation" where
  "ff_registerEventCallback cb = ff_guarded (\<lambda>f. Inr (f\<lparr>ff_callbacks := ff_callbacks f @ [cb]\<rparr>))"

definition ff_getRecentEvents :: "nat \<Rightarrow> FactoryFederation \<Rightarrow> FactoryEvent list" where
  "ff_getRecentEvents n f =
     (let start = (if n \<ge> length (ff_recent_events f) then 0 else length (ff_recent_events f) - n)
      in drop start (ff_recent_events f))"

subsection \<open>No factory ever joins\<close>

datatype FederationOp =
    Fed_initialize | Fed_shutdown | Fed_register u64 u32 string string | Fed_unregister u64 u32
  | Fed_risk u64 u32 real | Fed_propagate u64 u32 | Fed_sync u64 | Fed_callback nat

fun ff_step :: "real \<Rightarrow> FederationOp \<Rightarrow> FactoryFederation \<Rightarrow> fault + FactoryFederation" where
  "ff_step junk Fed_initialize f = Inr (ff_initialize f)"
| "ff_step junk Fed_shutdown f = ff_shutdown f"
| "ff_step junk (Fed_register now i name loc) f = ff_registerFactory now i name loc f"
| "ff_step junk (Fed_unregister now i) f = ff_unregisterFactory now i f"
| "ff_step junk (Fed_risk now i risk) f = ff_updateFactoryRisk junk now i risk f"
| "ff_step junk (Fed_propagate now i) f = ff_propagateAnomaly junk now i f"
| "ff_step junk (Fed_sync now) f = ff_syncFactories now f"
| "ff_step junk (Fed_callback cb) f = ff_registerEventCallback cb f"

fun ff_session :: "real \<Rightarrow> FederationOp list \<Rightarrow> FactoryFederation \<Rightarrow> fault + FactoryFederation" where
  "ff_session junk [] f = Inr f"
| "ff_session junk (x # xs) f = ff_seq (ff_step junk x f) (ff_session junk xs)"

fun fed_blocks :: "FederationOp \<Rightarrow> bool" where
  "fed_blocks (Fed_register now i name loc) = True"
| "fed_blocks (Fed_propagate now i) = True"
| "fed_blocks _ = False"

definition ff_idle :: "FactoryFederation \<Rightarrow> bool" where
  "ff_idle f \<longleftrightarrow> ff_risk_data f = [] \<and> \<not> ff_locked f \<and> ff_global_risk f = 0 \<and> ff_propagation_count f = 0"

lemma ff_processEvent_locked: "ff_locked f \<Longrightarrow> ff_processEvent e f = Inl SelfDeadlock"
  by (simp add: ff_processEvent_def ff_guarded_def)

lemma ff_processEvent_free: "ff_idle f \<Longrightarrow> \<exists>f'. ff_processEvent e f = Inr f' \<and> ff_idle f'"
  by (simp add: ff_processEvent_def ff_guarded_def ff_idle_def)

lemma ff_step_idle:
  assumes "ff_idle f"
  shows "if fed_blocks x then ff_step junk x f = Inl SelfDeadlock else \<exists>f'. ff_step junk x f = Inr f' \<and> ff_idle f'"
proof (cases x)
  case (Fed_sync now)
  obtain f1 where f1: "ff_processEvent \<lparr>fev_type = SYNC_REQUEST, fev_factory_id = 0, fev_timestamp = now, fev_risk_value = ff_global_risk f,
      fev_message = ''Initiating event-based sync''\<rparr> f = Inr f1" "ff_idle f1" using ff_processEvent_free [OF assms] by blast
  then have "ff_detectCrossFactoryAnomaly now f1 = Inr f1"
    by (simp add: ff_detectCrossFactoryAnomaly_def ff_guarded_def ff_idle_def)
  then show ?thesis using ff_processEvent_free [OF f1(2)] by (simp add: Fed_sync ff_syncFactories_def f1(1))
qed (use assms in \<open>simp_all add: ff_idle_def ff_initialize_def ff_shutdown_def ff_registerFactory_def ff_unregisterFactory_def
   ff_updateFactoryRisk_def ff_propagateAnomaly_def ff_registerEventCallback_def ff_guarded_def ff_processEvent_locked Let_def\<close>)

text \<open>The first registration, or propagation, never returns; whatever returns before it leaves the federation without
  factories and without risk.\<close>

theorem ff_registration_deadlocks:
  "if list_ex fed_blocks xs then ff_session junk xs ff_new = Inl SelfDeadlock
   else \<exists>f. ff_session junk xs ff_new = Inr f \<and> ff_getGlobalRisk f = 0 \<and> ff_getHighRiskFactories threshold f = []"
proof -
  have "if list_ex fed_blocks xs then ff_session junk xs f = Inl SelfDeadlock
      else \<exists>f'. ff_session junk xs f = Inr f' \<and> ff_idle f'" if "ff_idle f" for f
    using that
  proof (induction xs arbitrary: f)
    case (Cons x xs)
    show ?case
    proof (cases "fed_blocks x")
      case True
      then show ?thesis using ff_step_idle [OF Cons.prems, of x junk] by simp
    next
      case False
      then obtain f1 where "ff_step junk x f = Inr f1" "ff_idle f1" using ff_step_idle [OF Cons.prems, of x junk] by auto
      then show ?thesis using Cons.IH [of f1] False by simp
    qed
  qed simp
  moreover have "ff_idle ff_new" by (simp add: ff_idle_def ff_new_def)
  ultimately show ?thesis
    by (fastforce simp: ff_idle_def ff_getGlobalRisk_def ff_getHighRiskFactories_def split: if_splits)
qed

end
