(* ===== verification/Binary_Files.thy ===== *)
theory Binary_Files
  imports Frame_Recording Frame_Player "HOL-Library.State_Monad"
begin

text \<open>
  Reading the members of a struct one by one from a binary file, as the data sets of the runtime do:
  \<open>file.read\<close> into a member is a computation in the state monad over the input stream. A read that comes
  short writes the bytes there are and leaves the others of the member as they were. The locale \<open>codec\<close> is the
  contract between what a writer puts and what a reader gets.
\<close>

section \<open>Reading a member in place\<close>

definition get_word :: "nat \<Rightarrow> 'a::len word \<Rightarrow> (ifstream, 'a word) state" where
  "get_word n old = State (\<lambda>s. case is_read n s of (bs, s') \<Rightarrow> (le_word (bs @ drop (length bs) (le_bytes n old)), s'))"

definition get_bool :: "bool \<Rightarrow> (ifstream, bool) state" where
  "get_bool old = do { w \<leftarrow> get_word 1 (if old then 1 else 0 :: byte); State_Monad.return (w \<noteq> 0) }"

definition bool_bytes :: "bool \<Rightarrow> byte list" where
  "bool_bytes b = le_bytes 1 (if b then 1 else 0 :: byte)"

fun get_list :: "('a \<Rightarrow> (ifstream, 'a) state) \<Rightarrow> 'a list \<Rightarrow> (ifstream, 'a list) state" where
  "get_list get [] = State_Monad.return []"
| "get_list get (x # xs) = do { y \<leftarrow> get x; ys \<leftarrow> get_list get xs; State_Monad.return (y # ys) }"

section \<open>What a reader gets\<close>

text \<open>The reader \<open>m\<close>, at bytes \<open>bs\<close> anywhere in a file, gets \<open>v\<close> and stands behind them.\<close>

definition reads :: "(ifstream, 'a) state \<Rightarrow> byte list \<Rightarrow> 'a \<Rightarrow> bool" where
  "reads m bs v \<longleftrightarrow> (\<forall>pre post s. is_at (pre @ bs @ post) (length pre) s \<longrightarrow>
     (\<exists>s'. run_state m s = (v, s') \<and> is_at (pre @ bs @ post) (length pre + length bs) s'))"

lemma run_state_return [simp]: "run_state (State_Monad.return x) s = (x, s)"
  by (simp add: State_Monad.return_def)

lemma run_state_bind [simp]: "run_state (m \<bind> k) s = (case run_state m s of (x, s') \<Rightarrow> run_state (k x) s')"
  by (simp add: State_Monad.bind_def)

lemma reads_return [intro]: "reads (State_Monad.return v) [] v"
  by (auto simp: reads_def)

lemma reads_bind [intro]:
  assumes "reads m bs v" "reads (k v) cs w"
  shows "reads (m \<bind> k) (bs @ cs) w"
  unfolding reads_def
proof (intro allI impI)
  fix pre post s assume at: "is_at (pre @ (bs @ cs) @ post) (length pre) s"
  then have "is_at (pre @ bs @ (cs @ post)) (length pre) s" by simp
  then obtain s1 where s1: "run_state m s = (v, s1)" "is_at (pre @ bs @ (cs @ post)) (length pre + length bs) s1"
    using assms(1) unfolding reads_def by blast
  then have "is_at ((pre @ bs) @ cs @ post) (length (pre @ bs)) s1" by simp
  then obtain s2 where s2: "run_state (k v) s1 = (w, s2)" "is_at ((pre @ bs) @ cs @ post) (length (pre @ bs) + length cs) s2"
    using assms(2) unfolding reads_def by blast
  show "\<exists>s'. run_state (m \<bind> k) s = (w, s') \<and> is_at (pre @ (bs @ cs) @ post) (length pre + length (bs @ cs)) s'"
    using s1(1) s2 by (intro exI [of _ s2]) (simp add: algebra_simps)
qed

lemma reads_bind_return: "reads m bs v \<Longrightarrow> reads (m \<bind> (\<lambda>x. State_Monad.return (f x))) bs (f v)"
  using reads_bind [of m bs v "\<lambda>x. State_Monad.return (f x)" "[]" "f v"] by auto

lemma reads_word [intro]:
  assumes "LENGTH('a::len) \<le> 8 * n"
  shows "reads (get_word n (old :: 'a word)) (le_bytes n v) v"
  unfolding reads_def
proof (intro allI impI)
  fix pre post s assume "is_at (pre @ le_bytes n v @ post) (length pre) s"
  from is_read_at [OF this] obtain s' where "is_read n s = (le_bytes n v, s')"
    "is_at (pre @ le_bytes n v @ post) (length pre + n) s'" by auto
  then show "\<exists>s'. run_state (get_word n old) s = (v, s') \<and> is_at (pre @ le_bytes n v @ post) (length pre + length (le_bytes n v)) s'"
    using assms by (simp add: get_word_def le_word_bytes_full)
qed

lemma reads_bool [intro]: "reads (get_bool old) (bool_bytes b) b"
proof -
  have "reads (get_word 1 (if old then 1 else 0 :: byte)) (bool_bytes b) (if b then 1 else 0)"
    unfolding bool_bytes_def by (rule reads_word) simp
  from reads_bind_return [OF this, of "\<lambda>w. w \<noteq> 0"] show ?thesis by (cases b) (simp_all add: get_bool_def)
qed

text \<open>A reader that never fails on what the writer of the same type put.\<close>

locale codec =
  fixes put :: "'a \<Rightarrow> byte list"
    and get :: "'a \<Rightarrow> (ifstream, 'a) state"
    and valid :: "'a \<Rightarrow> bool"
    and fresh :: "'a \<Rightarrow> bool"
  assumes get_put: "valid x \<Longrightarrow> fresh old \<Longrightarrow> reads (get old) (put x) x"
begin

lemma get_put_list:
  "list_all valid xs \<Longrightarrow> list_all fresh olds \<Longrightarrow> length olds = length xs \<Longrightarrow>
   reads (get_list get olds) (concat (map put xs)) xs"
proof (induction xs arbitrary: olds)
  case (Cons x xs)
  then obtain o' os where olds: "olds = o' # os" by (cases olds) auto
  have "reads (get o') (put x) x" using Cons.prems by (intro get_put) (simp_all add: olds)
  moreover have "reads (get_list get os) (concat (map put xs)) xs" using Cons by (simp add: olds)
  ultimately show ?case by (simp add: olds reads_bind reads_bind_return)
qed auto

lemma get_put_fresh:
  "list_all valid xs \<Longrightarrow> fresh old \<Longrightarrow> n = length xs \<Longrightarrow>
   reads (get_list get (replicate n old)) (concat (map put xs)) xs"
  by (rule get_put_list) (simp_all add: list_all_length)

end

interpretation word32: codec "le_bytes 4 :: 32 word \<Rightarrow> byte list" "get_word 4" "\<lambda>_. True" "\<lambda>_. True"
  by unfold_locales (rule reads_word, simp)

section \<open>Past the end of the file\<close>

text \<open>A stream with nothing left leaves every member as it was.\<close>

definition starved :: "ifstream \<Rightarrow> bool" where
  "starved s \<longleftrightarrow> \<not> is_good s \<or> length (is_bytes s) \<le> is_pos s"

definition keeps :: "(ifstream, 'a) state \<Rightarrow> 'a \<Rightarrow> bool" where
  "keeps m v \<longleftrightarrow> (\<forall>s. starved s \<longrightarrow> (\<exists>s'. run_state m s = (v, s') \<and> starved s'))"

lemma keeps_return [intro]: "keeps (State_Monad.return v) v"
  by (auto simp: keeps_def)

lemma keeps_bind [intro]: "keeps m v \<Longrightarrow> keeps (k v) w \<Longrightarrow> keeps (m \<bind> k) w"
  unfolding keeps_def by fastforce

lemma keeps_word [intro]: "LENGTH('a::len) \<le> 8 * n \<Longrightarrow> keeps (get_word n (old :: 'a word)) old"
  by (auto simp: keeps_def starved_def get_word_def is_read_def is_good_def Let_def le_word_bytes_full)

lemma keeps_bind_return: "keeps m v \<Longrightarrow> keeps (m \<bind> (\<lambda>x. State_Monad.return (f x))) (f v)"
  by (rule keeps_bind) auto

lemma keeps_bool [intro]: "keeps (get_bool old) old"
proof -
  have "keeps (get_word 1 (if old then 1 else 0 :: byte)) (if old then 1 else 0)" by (rule keeps_word) simp
  from keeps_bind_return [OF this, of "\<lambda>w. w \<noteq> 0"] show ?thesis by (cases old) (simp_all add: get_bool_def)
qed

lemma keeps_list [intro]: "(\<And>x. x \<in> set xs \<Longrightarrow> keeps (get x) x) \<Longrightarrow> keeps (get_list get xs) xs"
  by (induction xs) auto

end
