(* ===== verification/Policy_Dataset.thy ===== *)
theory Policy_Dataset
  imports Binary_Files
begin

text \<open>
  The two data sets of the learner: flat records (\<open>runtime/policy_dataset\<close>) and episodes
  (\<open>runtime/policy_dataset_v2\<close>), with their binary files. Members of type \<open>float\<close> are their bits, as they are
  copied to and from the file unchanged; the arithmetic on them is the parameter \<open>fp\<close>. A file is its bytes, or
  \<open>None\<close> if it cannot be opened. Members that a constructor leaves uninitialised are the parameter \<open>junk\<close>.
\<close>

section \<open>Records\<close>

record PolicyRecord =
  plr_record_id :: u64
  plr_timestamp :: u64
  plr_asset_id :: u64
  plr_zone_x :: u32
  plr_zone_y :: u32
  plr_state_vector :: "f32 list"
  plr_state_dim :: u64
  plr_action :: u32
  plr_action_probability :: f32
  plr_reward :: f32
  plr_cumulative_reward :: f32
  plr_next_state_vector :: "f32 list"
  plr_next_state_dim :: u64
  plr_human_feedback :: f32
  plr_is_human_override :: bool

record PolicyDataset =
  pds_records :: "PolicyRecord list"
  pds_next_record_id :: u64

definition PDS_MAX_RECORDS :: nat where "PDS_MAX_RECORDS = 1000000"

definition plr_default :: "f32 list \<Rightarrow> PolicyRecord" where
  "plr_default junk = \<lparr>plr_record_id = 0, plr_timestamp = 0, plr_asset_id = 0, plr_zone_x = 0, plr_zone_y = 0,
     plr_state_vector = junk, plr_state_dim = 0, plr_action = 0, plr_action_probability = 0, plr_reward = 0,
     plr_cumulative_reward = 0, plr_next_state_vector = junk, plr_next_state_dim = 0, plr_human_feedback = 0,
     plr_is_human_override = False\<rparr>"

definition pds_new :: PolicyDataset where
  "pds_new = \<lparr>pds_records = [], pds_next_record_id = 1\<rparr>"

definition pds_initialize :: "PolicyDataset \<Rightarrow> PolicyDataset" where
  "pds_initialize d = \<lparr>pds_records = [], pds_next_record_id = 1\<rparr>"

definition pds_shutdown :: "PolicyDataset \<Rightarrow> PolicyDataset" where
  "pds_shutdown d = d\<lparr>pds_records := []\<rparr>"

definition pds_clear :: "PolicyDataset \<Rightarrow> PolicyDataset" where
  "pds_clear d = d\<lparr>pds_records := []\<rparr>"

definition pds_record :: "PolicyRecord \<Rightarrow> PolicyDataset \<Rightarrow> PolicyDataset" where
  "pds_record r d = d\<lparr>pds_records := bounded_push PDS_MAX_RECORDS (pds_records d) (r\<lparr>plr_record_id := pds_next_record_id d\<rparr>),
     pds_next_record_id := pds_next_record_id d + 1\<rparr>"

definition pds_addHumanFeedback :: "u64 \<Rightarrow> f32 \<Rightarrow> PolicyDataset \<Rightarrow> PolicyDataset" where
  "pds_addHumanFeedback i feedback d = d\<lparr>pds_records :=
     update_first (\<lambda>r. plr_record_id r = i) (plr_human_feedback_update (\<lambda>_. feedback)) (pds_records d)\<rparr>"

definition pds_markHumanOverride :: "u64 \<Rightarrow> PolicyDataset \<Rightarrow> PolicyDataset" where
  "pds_markHumanOverride i d = d\<lparr>pds_records :=
     update_first (\<lambda>r. plr_record_id r = i) (plr_is_human_override_update (\<lambda>_. True)) (pds_records d)\<rparr>"

definition pds_size :: "PolicyDataset \<Rightarrow> nat" where
  "pds_size d = length (pds_records d)"

text \<open>\<open>offset + count\<close> is a \<open>size_t\<close> and wraps.\<close>

definition pds_getRecords :: "u64 \<Rightarrow> u64 \<Rightarrow> PolicyDataset \<Rightarrow> PolicyRecord list" where
  "pds_getRecords offset n d =
     (let start = min (unat offset) (length (pds_records d)); stop = min (unat (offset + n)) (length (pds_records d))
      in drop start (take stop (pds_records d)))"

definition pds_getRecentRecords :: "nat \<Rightarrow> PolicyDataset \<Rightarrow> PolicyRecord list" where
  "pds_getRecentRecords n d =
     (let start = (if n \<ge> length (pds_records d) then 0 else length (pds_records d) - n) in drop start (pds_records d))"

text \<open>A float is zero with either sign.\<close>

definition float_is_zero :: "f32 \<Rightarrow> bool" where
  "float_is_zero x \<longleftrightarrow> x = 0 \<or> x = 0x80000000"

definition pds_getHumanFeedbackCount :: "PolicyDataset \<Rightarrow> nat" where
  "pds_getHumanFeedbackCount d = length (filter (\<lambda>r. \<not> float_is_zero (plr_human_feedback r)) (pds_records d))"

definition pds_getHumanOverrideCount :: "PolicyDataset \<Rightarrow> nat" where
  "pds_getHumanOverrideCount d = length (filter plr_is_human_override (pds_records d))"

subsection \<open>The file of records\<close>

definition plr_bytes :: "PolicyRecord \<Rightarrow> byte list" where
  "plr_bytes r = le_bytes 8 (plr_record_id r) @ le_bytes 8 (plr_timestamp r) @ le_bytes 8 (plr_asset_id r) @
     le_bytes 4 (plr_zone_x r) @ le_bytes 4 (plr_zone_y r) @
     le_bytes 8 (plr_state_dim r) @ concat (map (le_bytes 4) (plr_state_vector r)) @
     le_bytes 4 (plr_action r) @ le_bytes 4 (plr_action_probability r) @ le_bytes 4 (plr_reward r) @
     le_bytes 4 (plr_cumulative_reward r) @
     le_bytes 8 (plr_next_state_dim r) @ concat (map (le_bytes 4) (plr_next_state_vector r)) @
     le_bytes 4 (plr_human_feedback r) @ bool_bytes (plr_is_human_override r)"

definition pds_exportToFile :: "PolicyDataset \<Rightarrow> byte list" where
  "pds_exportToFile d = le_bytes 8 (of_nat (length (pds_records d)) :: u64) @ concat (map plr_bytes (pds_records d))"

definition plr_get :: "PolicyRecord \<Rightarrow> (ifstream, PolicyRecord) state" where
  "plr_get r = do {
     i \<leftarrow> get_word 8 (plr_record_id r);
     t \<leftarrow> get_word 8 (plr_timestamp r);
     a \<leftarrow> get_word 8 (plr_asset_id r);
     x \<leftarrow> get_word 4 (plr_zone_x r);
     y \<leftarrow> get_word 4 (plr_zone_y r);
     sd \<leftarrow> get_word 8 (plr_state_dim r);
     sv \<leftarrow> get_list (get_word 4) (plr_state_vector r);
     ac \<leftarrow> get_word 4 (plr_action r);
     ap \<leftarrow> get_word 4 (plr_action_probability r);
     rw \<leftarrow> get_word 4 (plr_reward r);
     cr \<leftarrow> get_word 4 (plr_cumulative_reward r);
     nd \<leftarrow> get_word 8 (plr_next_state_dim r);
     nv \<leftarrow> get_list (get_word 4) (plr_next_state_vector r);
     hf \<leftarrow> get_word 4 (plr_human_feedback r);
     ho \<leftarrow> get_bool (plr_is_human_override r);
     State_Monad.return \<lparr>plr_record_id = i, plr_timestamp = t, plr_asset_id = a, plr_zone_x = x, plr_zone_y = y,
       plr_state_vector = sv, plr_state_dim = sd, plr_action = ac, plr_action_probability = ap, plr_reward = rw,
       plr_cumulative_reward = cr, plr_next_state_vector = nv, plr_next_state_dim = nd, plr_human_feedback = hf,
       plr_is_human_override = ho\<rparr>
   }"

definition pds_load :: "f32 list \<Rightarrow> (ifstream, PolicyRecord list) state" where
  "pds_load junk = do {
     n \<leftarrow> get_word 8 (0 :: u64);
     get_list plr_get (replicate (unat n) (plr_default junk))
   }"

definition pds_loadFromFile :: "f32 list \<Rightarrow> byte list option \<Rightarrow> PolicyDataset \<Rightarrow> bool \<times> PolicyDataset" where
  "pds_loadFromFile junk file d =
     (case file of
        None \<Rightarrow> (False, d)
      | Some bs \<Rightarrow>
          let rs = fst (run_state (pds_load junk) (is_open_file bs))
          in (True, d\<lparr>pds_records := rs,
                pds_next_record_id := (if rs \<noteq> [] then plr_record_id (last rs) + 1 else pds_next_record_id d)\<rparr>))"

section \<open>Round trip of the records\<close>

text \<open>The two vectors are arrays of 16.\<close>

definition plr_ok :: "PolicyRecord \<Rightarrow> bool" where
  "plr_ok r \<longleftrightarrow> length (plr_state_vector r) = 16 \<and> length (plr_next_state_vector r) = 16"

lemma reads_floats:
  "length old = length xs \<Longrightarrow> reads (get_list (get_word 4) old) (concat (map (le_bytes 4) xs)) (xs :: f32 list)"
  by (rule word32.get_put_list) (simp_all add: list_all_length)

lemma plr_reads:
  assumes "plr_ok r" "plr_ok old"
  shows "reads (plr_get old) (plr_bytes r) r"
proof -
  have r: "r = \<lparr>plr_record_id = plr_record_id r, plr_timestamp = plr_timestamp r, plr_asset_id = plr_asset_id r,
      plr_zone_x = plr_zone_x r, plr_zone_y = plr_zone_y r,
      plr_state_vector = plr_state_vector r, plr_state_dim = plr_state_dim r, plr_action = plr_action r,
      plr_action_probability = plr_action_probability r, plr_reward = plr_reward r, plr_cumulative_reward = plr_cumulative_reward r,
      plr_next_state_vector = plr_next_state_vector r, plr_next_state_dim = plr_next_state_dim r,
      plr_human_feedback = plr_human_feedback r, plr_is_human_override = plr_is_human_override r\<rparr>" by simp
  have lens: "length (plr_state_vector old) = length (plr_state_vector r)" "length (plr_next_state_vector old) = length (plr_next_state_vector r)"
    using assms by (simp_all add: plr_ok_def)
  show ?thesis unfolding plr_get_def plr_bytes_def
    by (rule reads_bind, rule reads_word, simp)+
       (rule reads_bind, rule reads_floats [OF lens(1)], (rule reads_bind, rule reads_word, simp)+,
        rule reads_bind, rule reads_floats [OF lens(2)], rule reads_bind, rule reads_word, simp,
        subst r, rule reads_bind_return, rule reads_bool)
qed

interpretation plr: codec plr_bytes plr_get plr_ok plr_ok
  by unfold_locales (rule plr_reads)

lemma run_from_start:
  assumes "reads m bs v"
  shows "fst (run_state m (is_open_file bs)) = v"
proof -
  have "is_at ([] @ bs @ []) (length ([] :: byte list)) (is_open_file bs)"
    by (simp add: is_at_def is_open_file_def is_good_def)
  then obtain s' where "run_state m (is_open_file bs) = (v, s')" using assms unfolding reads_def by blast
  then show ?thesis by simp
qed

lemma unat_length: "n < 2 ^ 64 \<Longrightarrow> unat (of_nat n :: u64) = n"
  by (simp add: unat_of_nat)

text \<open>What is exported is what is loaded, whatever was there before; new ids go on after the last one.\<close>

theorem pds_file_roundtrip:
  assumes "list_all plr_ok (pds_records d)" "length (pds_records d) < 2 ^ 64" "length junk = 16"
  shows "pds_loadFromFile junk (Some (pds_exportToFile d)) d' =
    (True, d'\<lparr>pds_records := pds_records d, pds_next_record_id :=
       (if pds_records d \<noteq> [] then plr_record_id (last (pds_records d)) + 1 else pds_next_record_id d')\<rparr>)"
proof -
  have fresh: "plr_ok (plr_default junk)" using assms(3) by (simp add: plr_ok_def plr_default_def)
  have "reads (pds_load junk) (pds_exportToFile d) (pds_records d)"
    unfolding pds_load_def pds_exportToFile_def
  proof (rule reads_bind)
    show "reads (get_word 8 (0 :: u64)) (le_bytes 8 (of_nat (length (pds_records d)) :: u64)) (of_nat (length (pds_records d)))"
      by (rule reads_word) simp
    show "reads (get_list plr_get (replicate (unat (of_nat (length (pds_records d)) :: u64)) (plr_default junk)))
        (concat (map plr_bytes (pds_records d))) (pds_records d)"
      by (rule plr.get_put_fresh [OF assms(1) fresh unat_length [OF assms(2)]])
  qed
  then show ?thesis by (simp add: pds_loadFromFile_def run_from_start Let_def)
qed

definition plr_example :: PolicyRecord where
  "plr_example = (plr_default (replicate 16 7))\<lparr>plr_record_id := 5, plr_zone_x := 3, plr_is_human_override := True\<rparr>"

lemma pds_file_roundtrip_witness:
  "pds_loadFromFile (replicate 16 0) (Some (pds_exportToFile \<lparr>pds_records = [plr_example], pds_next_record_id = 9\<rparr>)) pds_new =
    (True, \<lparr>pds_records = [plr_example], pds_next_record_id = 6\<rparr>)"
proof -
  have "list_all plr_ok (pds_records \<lparr>pds_records = [plr_example], pds_next_record_id = 9\<rparr>)"
    by (simp add: plr_ok_def plr_example_def plr_default_def)
  from pds_file_roundtrip [OF this, of "replicate 16 0" pds_new] show ?thesis by (simp add: pds_new_def plr_example_def)
qed

lemma keeps_plr: "keeps (plr_get r) r"
proof -
  have r: "r = \<lparr>plr_record_id = plr_record_id r, plr_timestamp = plr_timestamp r, plr_asset_id = plr_asset_id r,
      plr_zone_x = plr_zone_x r, plr_zone_y = plr_zone_y r,
      plr_state_vector = plr_state_vector r, plr_state_dim = plr_state_dim r, plr_action = plr_action r,
      plr_action_probability = plr_action_probability r, plr_reward = plr_reward r, plr_cumulative_reward = plr_cumulative_reward r,
      plr_next_state_vector = plr_next_state_vector r, plr_next_state_dim = plr_next_state_dim r,
      plr_human_feedback = plr_human_feedback r, plr_is_human_override = plr_is_human_override r\<rparr>" by simp
  have floats: "keeps (get_list (get_word 4) xs) xs" for xs :: "f32 list" by (rule keeps_list) (rule keeps_word, simp)
  show ?thesis unfolding plr_get_def
    by (rule keeps_bind, rule keeps_word, simp)+
       (rule keeps_bind, rule floats, (rule keeps_bind, rule keeps_word, simp)+,
        rule keeps_bind, rule floats, rule keeps_bind, rule keeps_word, simp,
        subst (4) r, rule keeps_bind_return, rule keeps_bool)
qed

text \<open>The load believes the count in the file: a file of nothing but a count is loaded as that many default records,
  and the load succeeds.\<close>

theorem pds_short_file_accepted:
  "pds_loadFromFile junk (Some (le_bytes 8 (n :: u64))) d =
    (True, d\<lparr>pds_records := replicate (unat n) (plr_default junk),
       pds_next_record_id := (if n \<noteq> 0 then 1 else pds_next_record_id d)\<rparr>)"
proof -
  have at: "is_at ([] @ le_bytes 8 n @ []) (length ([] :: byte list)) (is_open_file (le_bytes 8 n))"
    by (simp add: is_at_def is_open_file_def is_good_def)
  have "reads (get_word 8 (0 :: u64)) (le_bytes 8 n) n" by (rule reads_word) simp
  with at obtain s where s: "run_state (get_word 8 (0 :: u64)) (is_open_file (le_bytes 8 n)) = (n, s)"
    "is_at ([] @ le_bytes 8 n @ []) (length ([] :: byte list) + length (le_bytes 8 n)) s" unfolding reads_def by blast
  then have "starved s" by (simp add: is_at_def starved_def)
  moreover have "keeps (get_list plr_get (replicate (unat n) (plr_default junk))) (replicate (unat n) (plr_default junk))"
    by (rule keeps_list) (rule keeps_plr)
  ultimately obtain s' where s': "run_state (get_list plr_get (replicate (unat n) (plr_default junk))) s = (replicate (unat n) (plr_default junk), s')"
    unfolding keeps_def by blast
  have "run_state (pds_load junk) (is_open_file (le_bytes 8 n)) = (replicate (unat n) (plr_default junk), s')"
    unfolding pds_load_def by (simp only: run_state_bind s(1) prod.case s')
  then show ?thesis by (auto simp: pds_loadFromFile_def Let_def plr_default_def unat_eq_zero)
qed

text \<open>A range that ends past the largest \<open>size_t\<close> is empty, not the rest of the records.\<close>

theorem pds_range_wraps:
  assumes "0 < offset"
  shows "pds_getRecords offset (- 1) d = []"
proof -
  have "unat (offset + (- 1)) < unat offset" using assms
    by (simp add: unat_minus_one word_neq_0_conv) (metis diff_less unat_gt_0 word_neq_0_conv zero_less_one One_nat_def)
  then show ?thesis by (simp add: pds_getRecords_def)
qed

lemma pds_range_wraps_witness:
  "pds_getRecords 1 (- 1) \<lparr>pds_records = [plr_example, plr_example], pds_next_record_id = 9\<rparr> = []"
  by (rule pds_range_wraps) simp

subsection \<open>The ids\<close>

datatype DatasetOp = Rec_add PolicyRecord | Rec_feedback u64 f32 | Rec_override u64

fun pds_step :: "DatasetOp \<Rightarrow> PolicyDataset \<Rightarrow> PolicyDataset" where
  "pds_step (Rec_add r) d = pds_record r d"
| "pds_step (Rec_feedback i x) d = pds_addHumanFeedback i x d"
| "pds_step (Rec_override i) d = pds_markHumanOverride i d"

fun rec_added :: "DatasetOp list \<Rightarrow> nat" where
  "rec_added [] = 0"
| "rec_added (Rec_add r # ops) = Suc (rec_added ops)"
| "rec_added (_ # ops) = rec_added ops"

definition ids_upto :: "nat \<Rightarrow> u64 list" where
  "ids_upto k = map of_nat [1..<Suc k]"

lemma ids_upto_Suc: "ids_upto (Suc k) = ids_upto k @ [of_nat (Suc k)]"
  by (simp add: ids_upto_def)

definition pds_numbered :: "nat \<Rightarrow> PolicyDataset \<Rightarrow> bool" where
  "pds_numbered k d \<longleftrightarrow> map plr_record_id (pds_records d) = last_n PDS_MAX_RECORDS (ids_upto k) \<and>
     pds_next_record_id d = of_nat (Suc k)"

lemma pds_numbered_record: "pds_numbered k d \<Longrightarrow> pds_numbered (Suc k) (pds_record r d)"
proof -
  assume d: "pds_numbered k d"
  have push: "map f (bounded_push n xs y) = bounded_push n (map f xs) (f y)" for f :: "PolicyRecord \<Rightarrow> u64" and n xs y
    by (simp add: bounded_push_def map_tl)
  have "0 < PDS_MAX_RECORDS" by (simp add: PDS_MAX_RECORDS_def)
  from bounded_push_last_n [OF this, of "ids_upto k" "of_nat (Suc k)"] d show ?thesis
    by (simp add: pds_numbered_def pds_record_def push ids_upto_Suc)
qed

lemma pds_numbered_mark:
  "pds_numbered k d \<Longrightarrow> pds_numbered k (pds_addHumanFeedback i x d)" "pds_numbered k d \<Longrightarrow> pds_numbered k (pds_markHumanOverride i d)"
  by (simp_all add: pds_numbered_def pds_addHumanFeedback_def pds_markHumanOverride_def map_update_first)

text \<open>The records kept are the last million, numbered from 1 in the order they came; feedback changes no id.\<close>

theorem pds_ids_exact:
  "map plr_record_id (pds_records (fold pds_step ops pds_new)) = last_n PDS_MAX_RECORDS (map of_nat [1..<Suc (rec_added ops)])"
proof -
  have "pds_numbered (k + rec_added ops) (fold pds_step ops d)" if "pds_numbered k d" for d k
    using that
  proof (induction ops arbitrary: d k)
    case (Cons x ops)
    show ?case
    proof (cases x)
      case (Rec_add r)
      with Cons.IH [OF pds_numbered_record [OF Cons.prems]] show ?thesis by simp
    next
      case (Rec_feedback i y)
      with Cons.IH [OF pds_numbered_mark(1) [OF Cons.prems]] show ?thesis by simp
    next
      case (Rec_override i)
      with Cons.IH [OF pds_numbered_mark(2) [OF Cons.prems]] show ?thesis by simp
    qed
  qed simp
  from this [of 0 pds_new] show ?thesis by (simp add: pds_numbered_def ids_upto_def pds_new_def del: upt_Suc)
qed

section \<open>Episodes\<close>

record FrameState =
  fst_frame_id :: u64
  fst_timestamp :: u64
  fst_risk_index :: f32
  fst_congestion :: f32
  fst_anomaly_score :: f32
  fst_asset_count :: u32
  fst_high_risk_count :: u32

record EpisodeAction =
  epa_action_type :: u32
  epa_target_asset_id :: u64
  epa_confidence :: f32

record SARSDRecord =
  sard_state :: FrameState
  sard_action :: EpisodeAction
  sard_reward :: f32
  sard_next_state :: FrameState
  sard_done :: bool
  sard_human_feedback :: f32

record Episode =
  eps_episode_id :: u64
  eps_start_timestamp :: u64
  eps_end_timestamp :: u64
  eps_is_complete :: bool
  eps_states :: "FrameState list"
  eps_actions :: "EpisodeAction list"
  eps_rewards :: "f32 list"
  eps_human_feedbacks :: "f32 list"
  eps_total_reward :: f32
  eps_average_confidence :: f32

text \<open>The float operations of the machine that the code uses.\<close>

record float_ops =
  fp_add :: "f32 \<Rightarrow> f32 \<Rightarrow> f32"
  fp_mul :: "f32 \<Rightarrow> f32 \<Rightarrow> f32"
  fp_div :: "f32 \<Rightarrow> f32 \<Rightarrow> f32"
  fp_of_nat :: "nat \<Rightarrow> f32"

record PolicyDatasetV2 =
  pdv_episodes :: "Episode list"
  pdv_next_episode_id :: u64

definition fst_default :: FrameState where
  "fst_default = \<lparr>fst_frame_id = 0, fst_timestamp = 0, fst_risk_index = 0, fst_congestion = 0, fst_anomaly_score = 0,
     fst_asset_count = 0, fst_high_risk_count = 0\<rparr>"

definition epa_default :: EpisodeAction where
  "epa_default = \<lparr>epa_action_type = 0, epa_target_asset_id = 0, epa_confidence = 0\<rparr>"

definition eps_default :: Episode where
  "eps_default = \<lparr>eps_episode_id = 0, eps_start_timestamp = 0, eps_end_timestamp = 0, eps_is_complete = False, eps_states = [],
     eps_actions = [], eps_rewards = [], eps_human_feedbacks = [], eps_total_reward = 0, eps_average_confidence = 0\<rparr>"

definition pdv_new :: PolicyDatasetV2 where
  "pdv_new = \<lparr>pdv_episodes = [], pdv_next_episode_id = 1\<rparr>"

definition pdv_initialize :: "PolicyDatasetV2 \<Rightarrow> PolicyDatasetV2" where
  "pdv_initialize d = \<lparr>pdv_episodes = [], pdv_next_episode_id = 1\<rparr>"

definition pdv_shutdown :: "PolicyDatasetV2 \<Rightarrow> PolicyDatasetV2" where
  "pdv_shutdown d = d\<lparr>pdv_episodes := []\<rparr>"

definition pdv_startEpisode :: "u64 \<Rightarrow> PolicyDatasetV2 \<Rightarrow> u64 \<times> PolicyDatasetV2" where
  "pdv_startEpisode now d =
     (pdv_next_episode_id d,
      \<lparr>pdv_episodes = pdv_episodes d @ [eps_default\<lparr>eps_episode_id := pdv_next_episode_id d, eps_start_timestamp := now\<rparr>],
       pdv_next_episode_id = pdv_next_episode_id d + 1\<rparr>)"

text \<open>\<open>locked\<close>: the caller holds the mutex.\<close>

definition pdv_finalizeEpisode :: "float_ops \<Rightarrow> bool \<Rightarrow> u64 \<Rightarrow> PolicyDatasetV2 \<Rightarrow> fault + PolicyDatasetV2" where
  "pdv_finalizeEpisode fp locked i d =
     (if locked then Inl SelfDeadlock
      else Inr (d\<lparr>pdv_episodes := update_first (\<lambda>e. eps_episode_id e = i)
        (\<lambda>e. if eps_actions e \<noteq> []
             then e\<lparr>eps_average_confidence := fp_div fp (foldl (\<lambda>s a. fp_add fp s (epa_confidence a)) 0 (eps_actions e))
                      (fp_of_nat fp (length (eps_actions e)))\<rparr>
             else e) (pdv_episodes d)\<rparr>))"

definition pdv_endEpisode :: "float_ops \<Rightarrow> u64 \<Rightarrow> u64 \<Rightarrow> bool \<Rightarrow> PolicyDatasetV2 \<Rightarrow> fault + PolicyDatasetV2" where
  "pdv_endEpisode fp now i isComplete d =
     (if find (\<lambda>e. eps_episode_id e = i) (pdv_episodes d) \<noteq> None
      then pdv_finalizeEpisode fp True i (d\<lparr>pdv_episodes := update_first (\<lambda>e. eps_episode_id e = i)
             (\<lambda>e. e\<lparr>eps_is_complete := isComplete, eps_end_timestamp := now\<rparr>) (pdv_episodes d)\<rparr>)
      else Inr d)"

text \<open>\<open>weight\<close> is the constant 0.5 in its bits.\<close>

definition HUMAN_FEEDBACK_WEIGHT :: f32 where "HUMAN_FEEDBACK_WEIGHT = 0x3F000000"

definition pdv_addTransition :: "float_ops \<Rightarrow> u64 \<Rightarrow> FrameState \<Rightarrow> EpisodeAction \<Rightarrow> f32 \<Rightarrow> f32 \<Rightarrow> PolicyDatasetV2 \<Rightarrow> PolicyDatasetV2" where
  "pdv_addTransition fp i st act reward humanFeedback d = d\<lparr>pdv_episodes := update_first (\<lambda>e. eps_episode_id e = i)
     (\<lambda>e. let adjusted = fp_add fp reward (fp_mul fp humanFeedback HUMAN_FEEDBACK_WEIGHT) in
        e\<lparr>eps_states := eps_states e @ [st], eps_actions := eps_actions e @ [act], eps_rewards := eps_rewards e @ [adjusted],
          eps_human_feedbacks := eps_human_feedbacks e @ [humanFeedback],
          eps_total_reward := fp_add fp (eps_total_reward e) adjusted\<rparr>) (pdv_episodes d)\<rparr>"

definition pdv_getEpisode :: "u64 \<Rightarrow> PolicyDatasetV2 \<Rightarrow> Episode" where
  "pdv_getEpisode i d = (case find (\<lambda>e. eps_episode_id e = i) (pdv_episodes d) of None \<Rightarrow> eps_default | Some e \<Rightarrow> e)"

definition eps_sarsd :: "Episode \<Rightarrow> SARSDRecord list" where
  "eps_sarsd e = map (\<lambda>i. \<lparr>sard_state = eps_states e ! i, sard_action = eps_actions e ! i, sard_reward = eps_rewards e ! i,
     sard_next_state = (if i + 1 < length (eps_states e) then eps_states e ! (i + 1) else fst_default),
     sard_done = (if i + 1 < length (eps_states e) then False else eps_is_complete e),
     sard_human_feedback = eps_human_feedbacks e ! i\<rparr>) [0..<length (eps_states e)]"

definition pdv_exportSARSDFormat :: "PolicyDatasetV2 \<Rightarrow> SARSDRecord list" where
  "pdv_exportSARSDFormat d = concat (map eps_sarsd (pdv_episodes d))"

definition pdv_getTotalTransitionCount :: "PolicyDatasetV2 \<Rightarrow> nat" where
  "pdv_getTotalTransitionCount d = sum_list (map (length \<circ> eps_states) (pdv_episodes d))"

definition pdv_getAverageHumanFeedback :: "float_ops \<Rightarrow> PolicyDatasetV2 \<Rightarrow> f32" where
  "pdv_getAverageHumanFeedback fp d =
     (let all = concat (map eps_human_feedbacks (pdv_episodes d))
      in if length all > 0 then fp_div fp (foldl (fp_add fp) 0 all) (fp_of_nat fp (length all)) else 0)"

subsection \<open>The file of episodes\<close>

definition fst_bytes :: "FrameState \<Rightarrow> byte list" where
  "fst_bytes f = le_bytes 8 (fst_frame_id f) @ le_bytes 8 (fst_timestamp f) @ le_bytes 4 (fst_risk_index f) @
     le_bytes 4 (fst_congestion f) @ le_bytes 4 (fst_anomaly_score f) @ le_bytes 4 (fst_asset_count f) @
     le_bytes 4 (fst_high_risk_count f)"

definition epa_bytes :: "EpisodeAction \<Rightarrow> byte list" where
  "epa_bytes a = le_bytes 4 (epa_action_type a) @ le_bytes 8 (epa_target_asset_id a) @ le_bytes 4 (epa_confidence a)"

definition eps_bytes :: "Episode \<Rightarrow> byte list" where
  "eps_bytes e = le_bytes 8 (eps_episode_id e) @ le_bytes 8 (eps_start_timestamp e) @ le_bytes 8 (eps_end_timestamp e) @
     bool_bytes (eps_is_complete e) @ le_bytes 8 (of_nat (length (eps_states e)) :: u64) @
     concat (map fst_bytes (eps_states e)) @ concat (map epa_bytes (eps_actions e)) @
     concat (map (le_bytes 4) (eps_rewards e)) @ concat (map (le_bytes 4) (eps_human_feedbacks e)) @
     le_bytes 4 (eps_total_reward e) @ le_bytes 4 (eps_average_confidence e)"

definition pdv_exportToFile :: "PolicyDatasetV2 \<Rightarrow> byte list" where
  "pdv_exportToFile d = le_bytes 8 (of_nat (length (pdv_episodes d)) :: u64) @ concat (map eps_bytes (pdv_episodes d))"

definition fst_get :: "FrameState \<Rightarrow> (ifstream, FrameState) state" where
  "fst_get f = do {
     i \<leftarrow> get_word 8 (fst_frame_id f);
     t \<leftarrow> get_word 8 (fst_timestamp f);
     r \<leftarrow> get_word 4 (fst_risk_index f);
     c \<leftarrow> get_word 4 (fst_congestion f);
     a \<leftarrow> get_word 4 (fst_anomaly_score f);
     n \<leftarrow> get_word 4 (fst_asset_count f);
     h \<leftarrow> get_word 4 (fst_high_risk_count f);
     State_Monad.return \<lparr>fst_frame_id = i, fst_timestamp = t, fst_risk_index = r, fst_congestion = c, fst_anomaly_score = a,
       fst_asset_count = n, fst_high_risk_count = h\<rparr>
   }"

definition epa_get :: "EpisodeAction \<Rightarrow> (ifstream, EpisodeAction) state" where
  "epa_get a = do {
     t \<leftarrow> get_word 4 (epa_action_type a);
     i \<leftarrow> get_word 8 (epa_target_asset_id a);
     c \<leftarrow> get_word 4 (epa_confidence a);
     State_Monad.return \<lparr>epa_action_type = t, epa_target_asset_id = i, epa_confidence = c\<rparr>
   }"

definition eps_get :: "Episode \<Rightarrow> (ifstream, Episode) state" where
  "eps_get e = do {
     i \<leftarrow> get_word 8 (eps_episode_id e);
     st \<leftarrow> get_word 8 (eps_start_timestamp e);
     en \<leftarrow> get_word 8 (eps_end_timestamp e);
     ic \<leftarrow> get_bool (eps_is_complete e);
     stateCount \<leftarrow> get_word 8 (0 :: u64);
     ss \<leftarrow> get_list fst_get (replicate (unat stateCount) fst_default);
     as \<leftarrow> get_list epa_get (replicate (unat stateCount) epa_default);
     rs \<leftarrow> get_list (get_word 4) (replicate (unat stateCount) 0);
     hs \<leftarrow> get_list (get_word 4) (replicate (unat stateCount) 0);
     tr \<leftarrow> get_word 4 (eps_total_reward e);
     ac \<leftarrow> get_word 4 (eps_average_confidence e);
     State_Monad.return \<lparr>eps_episode_id = i, eps_start_timestamp = st, eps_end_timestamp = en, eps_is_complete = ic, eps_states = ss,
       eps_actions = as, eps_rewards = rs, eps_human_feedbacks = hs, eps_total_reward = tr, eps_average_confidence = ac\<rparr>
   }"

definition pdv_load :: "(ifstream, Episode list) state" where
  "pdv_load = do {
     n \<leftarrow> get_word 8 (0 :: u64);
     get_list eps_get (replicate (unat n) eps_default)
   }"

definition pdv_loadFromFile :: "byte list option \<Rightarrow> PolicyDatasetV2 \<Rightarrow> bool \<times> PolicyDatasetV2" where
  "pdv_loadFromFile file d =
     (case file of
        None \<Rightarrow> (False, d)
      | Some bs \<Rightarrow>
          let es = fst (run_state pdv_load (is_open_file bs))
          in (True, d\<lparr>pdv_episodes := es,
                pdv_next_episode_id := (if es \<noteq> [] then eps_episode_id (last es) + 1 else pdv_next_episode_id d)\<rparr>))"

text \<open>The four vectors of an episode have one length, which a \<open>uint64_t\<close> can count.\<close>

definition eps_ok :: "Episode \<Rightarrow> bool" where
  "eps_ok e \<longleftrightarrow> length (eps_actions e) = length (eps_states e) \<and> length (eps_rewards e) = length (eps_states e) \<and>
     length (eps_human_feedbacks e) = length (eps_states e) \<and> length (eps_states e) < 2 ^ 64"

interpretation fst_codec: codec fst_bytes fst_get "\<lambda>_. True" "\<lambda>_. True"
proof
  fix f old :: FrameState
  have f: "f = \<lparr>fst_frame_id = fst_frame_id f, fst_timestamp = fst_timestamp f, fst_risk_index = fst_risk_index f,
      fst_congestion = fst_congestion f, fst_anomaly_score = fst_anomaly_score f, fst_asset_count = fst_asset_count f,
      fst_high_risk_count = fst_high_risk_count f\<rparr>" by simp
  show "reads (fst_get old) (fst_bytes f) f" unfolding fst_get_def fst_bytes_def
    by ((rule reads_bind, rule reads_word, simp)+, subst (8) f, rule reads_bind_return, rule reads_word, simp)
qed

interpretation epa_codec: codec epa_bytes epa_get "\<lambda>_. True" "\<lambda>_. True"
proof
  fix a old :: EpisodeAction
  have a: "a = \<lparr>epa_action_type = epa_action_type a, epa_target_asset_id = epa_target_asset_id a, epa_confidence = epa_confidence a\<rparr>"
    by simp
  show "reads (epa_get old) (epa_bytes a) a" unfolding epa_get_def epa_bytes_def
    by ((rule reads_bind, rule reads_word, simp)+, subst (4) a, rule reads_bind_return, rule reads_word, simp)
qed

lemma eps_reads:
  assumes "eps_ok e"
  shows "reads (eps_get old) (eps_bytes e) e"
proof -
  let ?n = "of_nat (length (eps_states e)) :: u64"
  have n: "unat ?n = length (eps_states e)" using assms by (intro unat_length) (simp add: eps_ok_def)
  have all: "list_all (\<lambda>_. True) xs" for xs :: "'a list" by (simp add: list_all_iff)
  have states: "reads (get_list fst_get (replicate (unat ?n) fst_default)) (concat (map fst_bytes (eps_states e))) (eps_states e)"
    by (rule fst_codec.get_put_fresh [OF all TrueI]) (simp add: n)
  have actions: "reads (get_list epa_get (replicate (unat ?n) epa_default)) (concat (map epa_bytes (eps_actions e))) (eps_actions e)"
    by (rule epa_codec.get_put_fresh [OF all TrueI]) (use assms n in \<open>simp add: eps_ok_def\<close>)
  have floats: "reads (get_list (get_word 4) (replicate (unat ?n) 0)) (concat (map (le_bytes 4) xs)) xs"
    if "length xs = length (eps_states e)" for xs :: "f32 list"
    by (rule word32.get_put_fresh [OF all TrueI]) (simp add: n that)
  have e: "e = \<lparr>eps_episode_id = eps_episode_id e, eps_start_timestamp = eps_start_timestamp e, eps_end_timestamp = eps_end_timestamp e,
      eps_is_complete = eps_is_complete e, eps_states = eps_states e, eps_actions = eps_actions e, eps_rewards = eps_rewards e,
      eps_human_feedbacks = eps_human_feedbacks e, eps_total_reward = eps_total_reward e,
      eps_average_confidence = eps_average_confidence e\<rparr>" by simp
  have lens: "length (eps_rewards e) = length (eps_states e)" "length (eps_human_feedbacks e) = length (eps_states e)"
    using assms by (simp_all add: eps_ok_def)
  show ?thesis unfolding eps_get_def eps_bytes_def
    by ((rule reads_bind, rule reads_word, simp)+, rule reads_bind, rule reads_bool, rule reads_bind, rule reads_word, simp,
        rule reads_bind, rule states, rule reads_bind, rule actions, rule reads_bind, rule floats [OF lens(1)],
        rule reads_bind, rule floats [OF lens(2)], rule reads_bind, rule reads_word, simp,
        subst (11) e, rule reads_bind_return, rule reads_word, simp)
qed

interpretation eps_codec: codec eps_bytes eps_get eps_ok "\<lambda>_. True"
  by unfold_locales (rule eps_reads)

section \<open>Episodes: round trip and what a session can reach\<close>

text \<open>What is exported is what is loaded.\<close>

theorem pdv_file_roundtrip:
  assumes "list_all eps_ok (pdv_episodes d)" "length (pdv_episodes d) < 2 ^ 64"
  shows "pdv_loadFromFile (Some (pdv_exportToFile d)) d' =
    (True, d'\<lparr>pdv_episodes := pdv_episodes d, pdv_next_episode_id :=
       (if pdv_episodes d \<noteq> [] then eps_episode_id (last (pdv_episodes d)) + 1 else pdv_next_episode_id d')\<rparr>)"
proof -
  have "reads pdv_load (pdv_exportToFile d) (pdv_episodes d)"
    unfolding pdv_load_def pdv_exportToFile_def
  proof (rule reads_bind)
    show "reads (get_word 8 (0 :: u64)) (le_bytes 8 (of_nat (length (pdv_episodes d)) :: u64)) (of_nat (length (pdv_episodes d)))"
      by (rule reads_word) simp
    show "reads (get_list eps_get (replicate (unat (of_nat (length (pdv_episodes d)) :: u64)) eps_default))
        (concat (map eps_bytes (pdv_episodes d))) (pdv_episodes d)"
      by (rule eps_codec.get_put_fresh [OF assms(1) TrueI unat_length [OF assms(2)]])
  qed
  then show ?thesis by (simp add: pdv_loadFromFile_def run_from_start Let_def)
qed

definition eps_example :: Episode where
  "eps_example = eps_default\<lparr>eps_episode_id := 4, eps_states := [fst_default, fst_default\<lparr>fst_frame_id := 8\<rparr>],
     eps_actions := [epa_default, epa_default], eps_rewards := [1, 2], eps_human_feedbacks := [0, 0]\<rparr>"

lemma pdv_file_roundtrip_witness:
  "pdv_loadFromFile (Some (pdv_exportToFile \<lparr>pdv_episodes = [eps_example], pdv_next_episode_id = 9\<rparr>)) pdv_new =
    (True, \<lparr>pdv_episodes = [eps_example], pdv_next_episode_id = 5\<rparr>)"
proof -
  have "list_all eps_ok (pdv_episodes \<lparr>pdv_episodes = [eps_example], pdv_next_episode_id = 9\<rparr>)"
    by (simp add: eps_ok_def eps_example_def eps_default_def)
  from pdv_file_roundtrip [OF this, of pdv_new] show ?thesis by (simp add: pdv_new_def eps_example_def eps_default_def)
qed

datatype EpisodeOp =
    Ep_start u64
  | Ep_end u64 u64 bool
  | Ep_transition u64 FrameState EpisodeAction f32 f32
  | Ep_finalize u64

fun pdv_step :: "float_ops \<Rightarrow> EpisodeOp \<Rightarrow> PolicyDatasetV2 \<Rightarrow> fault + PolicyDatasetV2" where
  "pdv_step fp (Ep_start now) d = Inr (snd (pdv_startEpisode now d))"
| "pdv_step fp (Ep_end now i c) d = pdv_endEpisode fp now i c d"
| "pdv_step fp (Ep_transition i st a r h) d = Inr (pdv_addTransition fp i st a r h d)"
| "pdv_step fp (Ep_finalize i) d = pdv_finalizeEpisode fp False i d"

fun pdv_session :: "float_ops \<Rightarrow> EpisodeOp list \<Rightarrow> PolicyDatasetV2 \<Rightarrow> fault + PolicyDatasetV2" where
  "pdv_session fp [] d = Inr d"
| "pdv_session fp (x # xs) d = (case pdv_step fp x d of Inl e \<Rightarrow> Inl e | Inr d' \<Rightarrow> pdv_session fp xs d')"

definition eps_open :: "Episode \<Rightarrow> bool" where
  "eps_open e \<longleftrightarrow> \<not> eps_is_complete e \<and> length (eps_actions e) = length (eps_states e) \<and>
     length (eps_rewards e) = length (eps_states e) \<and> length (eps_human_feedbacks e) = length (eps_states e)"

lemma list_all_update_first: "list_all P xs \<Longrightarrow> (\<And>x. P x \<Longrightarrow> P (f x)) \<Longrightarrow> list_all P (update_first Q f xs)"
  by (induction xs) auto

lemma pdv_step_open:
  assumes "list_all eps_open (pdv_episodes d)" "pdv_step fp x d = Inr d'"
  shows "list_all eps_open (pdv_episodes d')"
proof (cases x)
  case (Ep_transition i st a r h)
  have "list_all eps_open (pdv_episodes (pdv_addTransition fp i st a r h d))"
    unfolding pdv_addTransition_def by (simp, rule list_all_update_first [OF assms(1)]) (simp add: eps_open_def Let_def)
  then show ?thesis using assms(2) by (simp add: Ep_transition)
next
  case (Ep_finalize i)
  have "list_all eps_open (pdv_episodes d')" if "pdv_finalizeEpisode fp False i d = Inr d'"
    using that by (auto simp: pdv_finalizeEpisode_def eps_open_def intro!: list_all_update_first [OF assms(1)])
  then show ?thesis using assms(2) by (simp add: Ep_finalize)
qed (use assms in \<open>auto simp: pdv_startEpisode_def eps_open_def eps_default_def pdv_endEpisode_def pdv_finalizeEpisode_def split: if_splits\<close>)

text \<open>Ending a known episode locks the mutex twice. So in every session that returns no episode is complete, and no
  exported record is marked as the end of one; the four vectors of every episode stay aligned.\<close>

theorem pdv_never_complete:
  assumes "pdv_session fp xs pdv_new = Inr d"
  shows "list_all (\<lambda>e. \<not> eps_is_complete e) (pdv_episodes d) \<and> list_all (\<lambda>r. \<not> sard_done r) (pdv_exportSARSDFormat d) \<and>
    list_all (\<lambda>e. length (eps_actions e) = length (eps_states e)) (pdv_episodes d) \<and>
    length (pdv_exportSARSDFormat d) = pdv_getTotalTransitionCount d"
proof -
  have "list_all eps_open (pdv_episodes d)" if "pdv_session fp xs d0 = Inr d" "list_all eps_open (pdv_episodes d0)" for d0
    using that
  proof (induction xs arbitrary: d0)
    case (Cons x xs)
    obtain d1 where d1: "pdv_step fp x d0 = Inr d1" "pdv_session fp xs d1 = Inr d" using Cons.prems(1) by (auto split: sum.splits)
    from Cons.IH [OF d1(2) pdv_step_open [OF Cons.prems(2) d1(1)]] show ?case .
  qed simp
  then have all: "list_all eps_open (pdv_episodes d)" using assms by (simp add: pdv_new_def)
  have "length (pdv_exportSARSDFormat d) = pdv_getTotalTransitionCount d"
    by (simp add: pdv_exportSARSDFormat_def pdv_getTotalTransitionCount_def length_concat eps_sarsd_def o_def)
  then show ?thesis using all by (auto simp: list_all_iff eps_open_def pdv_exportSARSDFormat_def eps_sarsd_def)
qed

lemma pdv_never_complete_witness:
  "\<exists>d. pdv_session \<lparr>fp_add = (+), fp_mul = (*), fp_div = (div), fp_of_nat = of_nat\<rparr>
      [Ep_start 5, Ep_transition 1 fst_default epa_default 3 0, Ep_end 6 2 True] pdv_new = Inr d \<and>
    length (pdv_exportSARSDFormat d) = 1 \<and> list_all (\<lambda>r. \<not> sard_done r) (pdv_exportSARSDFormat d)"
proof -
  let ?fp = "\<lparr>fp_add = (+), fp_mul = (*), fp_div = (div), fp_of_nat = of_nat\<rparr> :: float_ops"
  obtain d where d: "pdv_session ?fp [Ep_start 5, Ep_transition 1 fst_default epa_default 3 0, Ep_end 6 2 True] pdv_new = Inr d"
    "pdv_getTotalTransitionCount d = 1"
    by (simp add: pdv_startEpisode_def pdv_new_def eps_default_def pdv_addTransition_def pdv_endEpisode_def Let_def
        pdv_getTotalTransitionCount_def)
  from pdv_never_complete [OF d(1)] d show ?thesis by metis
qed

theorem pdv_end_deadlocks:
  "find (\<lambda>e. eps_episode_id e = i) (pdv_episodes d) \<noteq> None \<Longrightarrow> pdv_endEpisode fp now i c d = Inl SelfDeadlock"
  by (simp add: pdv_endEpisode_def pdv_finalizeEpisode_def)

end
