(* ===== verification/Access_Control.thy ===== *)
theory Access_Control
  imports Asset_Service
begin

text \<open>
  \<open>server/services/auth_service.\{h,cpp\}\<close> and \<open>audit_service.\{h,cpp\}\<close>: users, roles, permissions, log in,
  and the audit log. The SQL statements are modelled by what they do to the tables of \<open>scripts/init_db.sql\<close>: unique
  user names, role assignments that refer to existing rows and go with them, audit entries that keep their user
  from being deleted. The digest of OpenSSL is the argument \<open>digest\<close>, the text statements of the audit log go to
  an argument \<open>exec\<close>.
\<close>

section \<open>Password hashes\<close>

definition hex_digit :: "nat \<Rightarrow> char" where
  "hex_digit n = (if n < 10 then char_of (48 + n) else char_of (87 + n))"

text \<open>A byte through \<open>std::hex\<close>, \<open>std::setw(2)\<close> and \<open>std::setfill('0')\<close>.\<close>

definition hex_byte :: "8 word \<Rightarrow> string" where
  "hex_byte b = [hex_digit (unat b div 16), hex_digit (unat b mod 16)]"

definition sha256 :: "(string \<Rightarrow> 8 word list) \<Rightarrow> string \<Rightarrow> string" where
  "sha256 digest password = concat (map hex_byte (digest password))"

lemma hex_digit_inj: "m < 16 \<Longrightarrow> n < 16 \<Longrightarrow> hex_digit m = hex_digit n \<longleftrightarrow> m = n"
proof -
  assume "m < 16" "n < 16"
  have code: "of_char (hex_digit k) = (if k < 10 then 48 + k else 87 + k)" if "k < 16" for k
    using that by (simp add: hex_digit_def)
  show ?thesis
  proof
    assume "hex_digit m = hex_digit n"
    then have "(of_char (hex_digit m) :: nat) = of_char (hex_digit n)" by simp
    then show "m = n" using \<open>m < 16\<close> \<open>n < 16\<close> by (simp add: code split: if_splits)
  qed simp
qed

lemma hex_byte_inj: "hex_byte a = hex_byte b \<longleftrightarrow> a = b"
proof
  have lt: "unat c < 256" for c :: "8 word" by (rule less_le_trans [OF unsigned_less]) simp
  assume "hex_byte a = hex_byte b"
  then have "unat a div 16 = unat b div 16" "unat a mod 16 = unat b mod 16"
    using lt [of a] lt [of b] by (auto simp: hex_byte_def hex_digit_inj less_mult_imp_div_less)
  then have "unat a = unat b" by (metis div_mult_mod_eq)
  then show "a = b" by (rule unsigned_word_eqI)
qed simp

lemma hex_concat_inj: "concat (map hex_byte xs) = concat (map hex_byte ys) \<longleftrightarrow> xs = ys"
proof (induction xs arbitrary: ys)
  case Nil
  then show ?case by (cases ys) (auto simp: hex_byte_def)
next
  case (Cons x xs)
  have len: "length (hex_byte b) = 2" for b by (simp add: hex_byte_def)
  show ?case
  proof (cases ys)
    case Nil
    then show ?thesis by (auto simp: hex_byte_def)
  next
    case (Cons y zs)
    then show ?thesis using Cons.IH [of zs] len [of x] len [of y] by (auto simp: append_eq_append_conv hex_byte_inj)
  qed
qed

lemma sha256_eq: "sha256 digest p = sha256 digest q \<longleftrightarrow> digest p = digest q"
  by (simp add: sha256_def hex_concat_inj)

section \<open>The tables\<close>

record User =
  us_id :: int
  us_username :: string
  us_password_hash :: string
  us_real_name :: string
  us_email :: string
  us_status :: string

record Role =
  ro_id :: int
  ro_name :: string
  ro_description :: string

record AuditRecord =
  au_id :: int
  au_user_id :: int
  au_action :: string
  au_target_type :: string
  au_target_id :: int
  au_result :: string
  au_ip_address :: string
  au_details :: string
  au_created_at :: int

record AuthWorld =
  aw_conns :: DBPool
  aw_users :: "User list"
  aw_next_user :: int
  aw_roles :: "Role list"
  aw_user_roles :: "(int \<times> int) list"
  aw_permissions :: "(int \<times> string) list"
  aw_role_permissions :: "(int \<times> int) list"
  aw_audit_logs :: "AuditRecord list"
  aw_next_audit :: int

definition user_default :: User where
  "user_default = \<lparr>us_id = 0, us_username = [], us_password_hash = [], us_real_name = [], us_email = [], us_status = []\<rparr>"

section \<open>The service\<close>

text \<open>
  A statement that fails leaves \<open>Inl\<close> of its error; the connection then is not given back, since only the
  code after the statement does. \<open>au_with\<close> is the frame all the methods but \<open>assignRole\<close> share.
\<close>

definition au_with ::
  "DBEnv \<Rightarrow> (AuthWorld \<Rightarrow> (fault + 'a) \<times> AuthWorld) \<Rightarrow> AuthWorld \<Rightarrow> (fault + 'a) \<times> AuthWorld" where
  "au_with env statement w =
     (case db_acquire env (aw_conns w) of
        (Inl e, p1) \<Rightarrow> (Inl e, w\<lparr>aw_conns := p1\<rparr>)
      | (Inr c, p1) \<Rightarrow>
          (case statement (w\<lparr>aw_conns := p1\<rparr>) of
             (Inl e, w1) \<Rightarrow> (Inl e, w1)
           | (Inr v, w1) \<Rightarrow> (Inr v, w1\<lparr>aw_conns := db_release env c (aw_conns w1)\<rparr>)))"

definition au_insert_user :: "User \<Rightarrow> AuthWorld \<Rightarrow> (fault + int) \<times> AuthWorld" where
  "au_insert_user u w =
     (let i = aw_next_user w; w1 = w\<lparr>aw_next_user := i + 1\<rparr> in
      if us_username u \<in> us_username ` set (aw_users w) then (Inl SQL_ERROR, w1)
      else (Inr i, w1\<lparr>aw_users := aw_users w1 @ [u\<lparr>us_id := i\<rparr>]\<rparr>))"

definition au_createUser ::
  "DBEnv \<Rightarrow> (string \<Rightarrow> 8 word list) \<Rightarrow> string \<Rightarrow> string \<Rightarrow> string \<Rightarrow> string \<Rightarrow> AuthWorld \<Rightarrow> (fault + int) \<times> AuthWorld" where
  "au_createUser env digest username password realName email =
     au_with env (au_insert_user
       \<lparr>us_id = 0, us_username = username, us_password_hash = sha256 digest password, us_real_name = realName,
        us_email = email, us_status = ''ACTIVE''\<rparr>)"

definition au_delete_user_row :: "int \<Rightarrow> AuthWorld \<Rightarrow> (fault + bool) \<times> AuthWorld" where
  "au_delete_user_row i w =
     (if i \<in> us_id ` set (aw_users w) \<and> i \<in> au_user_id ` set (aw_audit_logs w) then (Inl SQL_ERROR, w)
      else (Inr True, w\<lparr>aw_users := filter (\<lambda>u. us_id u \<noteq> i) (aw_users w),
                        aw_user_roles := filter (\<lambda>ur. fst ur \<noteq> i) (aw_user_roles w)\<rparr>))"

definition au_deleteUser :: "DBEnv \<Rightarrow> int \<Rightarrow> AuthWorld \<Rightarrow> (fault + bool) \<times> AuthWorld" where
  "au_deleteUser env i = au_with env (au_delete_user_row i)"

definition au_updateUserStatus :: "DBEnv \<Rightarrow> int \<Rightarrow> string \<Rightarrow> AuthWorld \<Rightarrow> (fault + bool) \<times> AuthWorld" where
  "au_updateUserStatus env i status = au_with env (\<lambda>w.
     (Inr True, w\<lparr>aw_users := map (\<lambda>u. if us_id u = i then u\<lparr>us_status := status\<rparr> else u) (aw_users w)\<rparr>))"

definition au_getUser :: "DBEnv \<Rightarrow> int \<Rightarrow> AuthWorld \<Rightarrow> (fault + User) \<times> AuthWorld" where
  "au_getUser env i = au_with env (\<lambda>w.
     (Inr (case find (\<lambda>u. us_id u = i) (aw_users w) of Some u \<Rightarrow> u | None \<Rightarrow> user_default), w))"

definition au_getUserByUsername :: "DBEnv \<Rightarrow> string \<Rightarrow> AuthWorld \<Rightarrow> (fault + User) \<times> AuthWorld" where
  "au_getUserByUsername env username = au_with env (\<lambda>w.
     (Inr (case find (\<lambda>u. us_username u = username) (aw_users w) of Some u \<Rightarrow> u | None \<Rightarrow> user_default), w))"

definition au_listUsers :: "DBEnv \<Rightarrow> AuthWorld \<Rightarrow> (fault + User list) \<times> AuthWorld" where
  "au_listUsers env = au_with env (\<lambda>w. (Inr (aw_users w), w))"

text \<open>The names of the permissions of a user, one row for every way the joins give it.\<close>

definition au_join :: "int \<Rightarrow> AuthWorld \<Rightarrow> string list" where
  "au_join i w =
     concat (map (\<lambda>ur. concat (map (\<lambda>rp. map snd (filter (\<lambda>p. fst p = snd rp) (aw_permissions w)))
                          (filter (\<lambda>rp. fst rp = snd ur) (aw_role_permissions w))))
        (filter (\<lambda>ur. fst ur = i) (aw_user_roles w)))"

definition au_checkPermission :: "DBEnv \<Rightarrow> int \<Rightarrow> string \<Rightarrow> AuthWorld \<Rightarrow> (fault + bool) \<times> AuthWorld" where
  "au_checkPermission env i permission = au_with env (\<lambda>w.
     (Inr (length (filter (\<lambda>n. n = permission) (au_join i w)) > 0), w))"

definition au_getUserPermissions :: "DBEnv \<Rightarrow> int \<Rightarrow> AuthWorld \<Rightarrow> (fault + string set) \<times> AuthWorld" where
  "au_getUserPermissions env i = au_with env (\<lambda>w. (Inr (set (remdups (au_join i w))), w))"

text \<open>\<open>assignRole\<close> catches what the statement throws; \<open>acquire\<close> and the start of the transaction are outside.\<close>

definition au_assignRole :: "DBEnv \<Rightarrow> int \<Rightarrow> int \<Rightarrow> AuthWorld \<Rightarrow> (fault + bool) \<times> AuthWorld" where
  "au_assignRole env i r w =
     (case db_acquire env (aw_conns w) of
        (Inl e, p1) \<Rightarrow> (Inl e, w\<lparr>aw_conns := p1\<rparr>)
      | (Inr c, p1) \<Rightarrow>
          (let w1 = w\<lparr>aw_conns := db_release env c p1\<rparr> in
           if i \<notin> us_id ` set (aw_users w) \<or> r \<notin> ro_id ` set (aw_roles w) \<or> (i, r) \<in> set (aw_user_roles w)
           then (Inr False, w1)
           else (Inr True, w1\<lparr>aw_user_roles := aw_user_roles w @ [(i, r)]\<rparr>)))"

definition au_removeRole :: "DBEnv \<Rightarrow> int \<Rightarrow> int \<Rightarrow> AuthWorld \<Rightarrow> (fault + bool) \<times> AuthWorld" where
  "au_removeRole env i r = au_with env (\<lambda>w.
     (Inr True, w\<lparr>aw_user_roles := filter (\<lambda>ur. ur \<noteq> (i, r)) (aw_user_roles w)\<rparr>))"

definition au_getUserRoles :: "DBEnv \<Rightarrow> int \<Rightarrow> AuthWorld \<Rightarrow> (fault + Role list) \<times> AuthWorld" where
  "au_getUserRoles env i = au_with env (\<lambda>w.
     (Inr (filter (\<lambda>r. (i, ro_id r) \<in> set (aw_user_roles w)) (aw_roles w)), w))"

definition au_authenticate ::
  "DBEnv \<Rightarrow> (string \<Rightarrow> 8 word list) \<Rightarrow> string \<Rightarrow> string \<Rightarrow> AuthWorld \<Rightarrow> (fault + bool) \<times> AuthWorld" where
  "au_authenticate env digest username password = au_with env (\<lambda>w.
     (Inr (length (filter (\<lambda>u. us_username u = username \<and> us_password_hash u = sha256 digest password \<and>
                               us_status u = ''ACTIVE'') (aw_users w)) > 0), w))"

definition pc_canCreateAsset :: "DBEnv \<Rightarrow> int \<Rightarrow> AuthWorld \<Rightarrow> (fault + bool) \<times> AuthWorld" where
  "pc_canCreateAsset env i = au_checkPermission env i ''asset:create''"

definition pc_canUpdateAsset :: "DBEnv \<Rightarrow> int \<Rightarrow> AuthWorld \<Rightarrow> (fault + bool) \<times> AuthWorld" where
  "pc_canUpdateAsset env i = au_checkPermission env i ''asset:update''"

definition pc_canDeleteAsset :: "DBEnv \<Rightarrow> int \<Rightarrow> AuthWorld \<Rightarrow> (fault + bool) \<times> AuthWorld" where
  "pc_canDeleteAsset env i = au_checkPermission env i ''asset:delete''"

definition pc_canViewAsset :: "DBEnv \<Rightarrow> int \<Rightarrow> AuthWorld \<Rightarrow> (fault + bool) \<times> AuthWorld" where
  "pc_canViewAsset env i = au_checkPermission env i ''asset:read''"

definition pc_canCreateInventoryTask :: "DBEnv \<Rightarrow> int \<Rightarrow> AuthWorld \<Rightarrow> (fault + bool) \<times> AuthWorld" where
  "pc_canCreateInventoryTask env i = au_checkPermission env i ''inventory:create''"

definition pc_canStartInventory :: "DBEnv \<Rightarrow> int \<Rightarrow> AuthWorld \<Rightarrow> (fault + bool) \<times> AuthWorld" where
  "pc_canStartInventory env i = au_checkPermission env i ''inventory:start''"

definition pc_canViewInventory :: "DBEnv \<Rightarrow> int \<Rightarrow> AuthWorld \<Rightarrow> (fault + bool) \<times> AuthWorld" where
  "pc_canViewInventory env i = au_checkPermission env i ''inventory:view''"

definition pc_canManageUsers :: "DBEnv \<Rightarrow> int \<Rightarrow> AuthWorld \<Rightarrow> (fault + bool) \<times> AuthWorld" where
  "pc_canManageUsers env i = au_checkPermission env i ''user:manage''"


section \<open>The audit log\<close>

text \<open>
  \<open>getConnection\<close>, which the pool does not declare, is the argument \<open>conn\<close>: whether it returns. Every method
  catches what is thrown.
\<close>

definition ad_logAction ::
  "bool \<Rightarrow> int \<Rightarrow> int \<Rightarrow> string \<Rightarrow> string \<Rightarrow> int \<Rightarrow> string \<Rightarrow> string \<Rightarrow> string \<Rightarrow> AuthWorld \<Rightarrow> bool \<times> AuthWorld" where
  "ad_logAction conn now userId action targetType targetId result ipAddress details w =
     (if \<not> conn then (False, w)
      else
        let i = aw_next_audit w; w1 = w\<lparr>aw_next_audit := i + 1\<rparr> in
        if userId \<notin> us_id ` set (aw_users w) then (False, w1)
        else (True, w1\<lparr>aw_audit_logs := aw_audit_logs w @
               [\<lparr>au_id = i, au_user_id = userId, au_action = action, au_target_type = targetType, au_target_id = targetId,
                 au_result = result, au_ip_address = ipAddress, au_details = details, au_created_at = now\<rparr>]\<rparr>))"

text \<open>The text of a query and its parameters; a condition adds a placeholder with the next number.\<close>

type_synonym query = "string \<times> string list \<times> int"

definition ad_condition :: "bool \<Rightarrow> string \<Rightarrow> string \<Rightarrow> query \<Rightarrow> query" where
  "ad_condition present column value q =
     (case q of (text, params, paramIndex) \<Rightarrow>
        if present then (text @ '' AND '' @ column @ '' $'' @ to_string paramIndex, params @ [value], paramIndex + 1)
        else q)"

definition AUDIT_COLUMNS :: string where
  "AUDIT_COLUMNS = ''SELECT id, user_id, action, target_type, target_id, result, ip_address, details, created_at FROM audit_logs''"

definition ad_query :: "int \<Rightarrow> string \<Rightarrow> string \<Rightarrow> int \<Rightarrow> string \<Rightarrow> string \<Rightarrow> query" where
  "ad_query userId action targetType targetId startTime endTime =
     (let q0 = (AUDIT_COLUMNS @ '' WHERE 1=1'', [], 1);
          q1 = ad_condition (userId > 0) ''user_id ='' (to_string userId) q0;
          q2 = ad_condition (action \<noteq> []) ''action ='' action q1;
          q3 = ad_condition (targetType \<noteq> []) ''target_type ='' targetType q2;
          q4 = ad_condition (targetId > 0) ''target_id ='' (to_string targetId) q3;
          q5 = ad_condition (startTime \<noteq> []) ''created_at >='' startTime q4;
          q6 = ad_condition (endTime \<noteq> []) ''created_at <='' endTime q5
      in (fst q6 @ '' ORDER BY created_at DESC LIMIT 1000'', snd q6))"

text \<open>The call of \<open>exec\<close> is given the text alone: the parameters stay behind.\<close>

definition ad_queryLogs ::
  "bool \<Rightarrow> (string \<Rightarrow> fault + AuditRecord list) \<Rightarrow> int \<Rightarrow> string \<Rightarrow> string \<Rightarrow> int \<Rightarrow> string \<Rightarrow> string \<Rightarrow> AuditRecord list" where
  "ad_queryLogs conn exec userId action targetType targetId startTime endTime =
     (if \<not> conn then []
      else case exec (fst (ad_query userId action targetType targetId startTime endTime)) of
        Inl e \<Rightarrow> []
      | Inr rows \<Rightarrow> rows)"

text \<open>\<open>ORDER BY created_at DESC LIMIT $1\<close>; a negative limit is an error of the database.\<close>

definition ad_getRecentLogs :: "bool \<Rightarrow> int \<Rightarrow> AuthWorld \<Rightarrow> AuditRecord list" where
  "ad_getRecentLogs conn limit w =
     (if \<not> conn \<or> limit < 0 then []
      else take (nat limit) (sort_key (\<lambda>r. - au_created_at r) (aw_audit_logs w)))"

definition ad_count_query :: "string \<Rightarrow> string \<Rightarrow> string \<Rightarrow> string \<Rightarrow> query" where
  "ad_count_query action result startTime endTime =
     (let q0 = (''SELECT COUNT(*) FROM audit_logs WHERE 1=1'', [], 1);
          q1 = ad_condition (action \<noteq> []) ''action ='' action q0;
          q2 = ad_condition (result \<noteq> []) ''result ='' result q1;
          q3 = ad_condition (startTime \<noteq> []) ''created_at >='' startTime q2
      in ad_condition (endTime \<noteq> []) ''created_at <='' endTime q3)"

definition ad_getActionCount ::
  "bool \<Rightarrow> (string \<Rightarrow> fault + int) \<Rightarrow> string \<Rightarrow> string \<Rightarrow> string \<Rightarrow> string \<Rightarrow> int" where
  "ad_getActionCount conn exec action result startTime endTime =
     (if \<not> conn then 0
      else case exec (fst (ad_count_query action result startTime endTime)) of Inl e \<Rightarrow> 0 | Inr n \<Rightarrow> n)"

text \<open>
  The parameters are collected as they should be: as many as there are placeholders, and the text has a
  placeholder as soon as one condition is present.
\<close>

definition ad_placeholders :: "string \<Rightarrow> nat" where
  "ad_placeholders text = length (filter (\<lambda>c. c = CHR ''$'') text)"

lemma ad_placeholders_append [simp]: "ad_placeholders (s @ t) = ad_placeholders s + ad_placeholders t"
  by (simp add: ad_placeholders_def)

lemma to_string_no_dollar [simp]: "ad_placeholders (to_string i) = 0"
proof -
  have "CHR ''$'' \<notin> set (digits_of n)" for n using digits_of_range [of "CHR ''$''" n] by auto
  then have "CHR ''$'' \<notin> set (to_string i)" by (auto simp: to_string_def)
  then show ?thesis by (auto simp: ad_placeholders_def filter_empty_conv)
qed

lemma ad_condition_placeholders:
  "ad_placeholders column = 0 \<Longrightarrow>
   ad_placeholders (fst (ad_condition present column value q)) = ad_placeholders (fst q) + of_bool present"
  "length (fst (snd (ad_condition present column value q))) = length (fst (snd q)) + of_bool present"
  using to_string_no_dollar [unfolded ad_placeholders_def]
  by (cases q; simp add: ad_condition_def; simp add: ad_placeholders_def)+


lemma ad_query_counts:
  "ad_placeholders (fst (ad_query userId action targetType targetId startTime endTime)) =
     length (fst (snd (ad_query userId action targetType targetId startTime endTime)))"
  "length (fst (snd (ad_query userId action targetType targetId startTime endTime))) =
     of_bool (userId > 0) + of_bool (action \<noteq> []) + of_bool (targetType \<noteq> []) + of_bool (targetId > 0) +
     of_bool (startTime \<noteq> []) + of_bool (endTime \<noteq> [])"
proof -
  have c: "ad_placeholders s = 0"
    if "s \<in> {''user_id ='', ''action ='', ''target_type ='', ''target_id ='', ''created_at >='', ''created_at <='',
              '' ORDER BY created_at DESC LIMIT 1000'', '' WHERE 1=1'', AUDIT_COLUMNS}" for s
    using that by (auto simp: ad_placeholders_def AUDIT_COLUMNS_def)
  show "length (fst (snd (ad_query userId action targetType targetId startTime endTime))) =
     of_bool (userId > 0) + of_bool (action \<noteq> []) + of_bool (targetType \<noteq> []) + of_bool (targetId > 0) +
     of_bool (startTime \<noteq> []) + of_bool (endTime \<noteq> [])"
    by (simp add: ad_query_def Let_def ad_condition_placeholders(2) del: of_bool_eq_0_iff)
  then show "ad_placeholders (fst (ad_query userId action targetType targetId startTime endTime)) =
     length (fst (snd (ad_query userId action targetType targetId startTime endTime)))"
    by (simp add: ad_query_def Let_def ad_condition_placeholders c)
qed

lemma ad_count_query_counts:
  "ad_placeholders (fst (ad_count_query action result startTime endTime)) =
     of_bool (action \<noteq> []) + of_bool (result \<noteq> []) + of_bool (startTime \<noteq> []) + of_bool (endTime \<noteq> [])"
proof -
  have c: "ad_placeholders s = 0"
    if "s \<in> {''action ='', ''result ='', ''created_at >='', ''created_at <='',
              ''SELECT COUNT(*) FROM audit_logs WHERE 1=1''}" for s
    using that by (auto simp: ad_placeholders_def)
  show ?thesis by (simp add: ad_count_query_def Let_def ad_condition_placeholders c)
qed

text \<open>
  What the database documents: a statement sent without parameters fails if it has a placeholder. The texts
  built here quote nothing, so a dollar sign is a placeholder.
\<close>

definition rejects_placeholders :: "(string \<Rightarrow> fault + 'a) \<Rightarrow> bool" where
  "rejects_placeholders exec \<longleftrightarrow> (\<forall>text. ad_placeholders text > 0 \<longrightarrow> CHR 39 \<notin> set text \<longrightarrow> exec text = Inl SQL_ERROR)"


lemma no_quote_digits [simp]: "CHR 39 \<notin> set (to_string i)"
proof -
  have "CHR 39 \<notin> set (digits_of n)" for n using digits_of_range [of "CHR 39" n] by auto
  then show ?thesis by (auto simp: to_string_def)
qed

lemma no_quote_condition:
  "CHR 39 \<notin> set column \<Longrightarrow>
   CHR 39 \<in> set (fst (ad_condition present column value q)) \<longleftrightarrow> CHR 39 \<in> set (fst q)"
  by (cases q) (auto simp: ad_condition_def)

lemma ad_query_no_quote: "CHR 39 \<notin> set (fst (ad_query userId action targetType targetId startTime endTime))"
  by (simp add: ad_query_def Let_def no_quote_condition AUDIT_COLUMNS_def)

lemma ad_count_query_no_quote: "CHR 39 \<notin> set (fst (ad_count_query action result startTime endTime))"
  by (simp add: ad_count_query_def Let_def no_quote_condition)

text \<open>
  Audit queries. The query methods build one parameter per placeholder, but pass only the text on: on a
  database that rejects a statement with unbound placeholders every query with a condition finds nothing,
  and every count with a condition is zero, whatever the log holds.
\<close>

theorem ad_filters_find_nothing:
  assumes rows: "rejects_placeholders exec" and counts: "rejects_placeholders exec_count"
    and filter: "0 < userId \<or> action \<noteq> [] \<or> targetType \<noteq> [] \<or> 0 < targetId \<or> startTime \<noteq> [] \<or> endTime \<noteq> []"
    and count_filter: "action' \<noteq> [] \<or> result \<noteq> [] \<or> startTime' \<noteq> [] \<or> endTime' \<noteq> []"
  shows "ad_queryLogs conn exec userId action targetType targetId startTime endTime = [] \<and>
    ad_getActionCount conn exec_count action' result startTime' endTime' = 0 \<and>
    ad_placeholders (fst (ad_query userId action targetType targetId startTime endTime)) =
      length (fst (snd (ad_query userId action targetType targetId startTime endTime)))"
proof (intro conjI)
  have "0 < ad_placeholders (fst (ad_query userId action targetType targetId startTime endTime))"
    unfolding ad_query_counts using filter by auto
  then have "exec (fst (ad_query userId action targetType targetId startTime endTime)) = Inl SQL_ERROR"
    using rows ad_query_no_quote by (simp add: rejects_placeholders_def)
  then show "ad_queryLogs conn exec userId action targetType targetId startTime endTime = []"
    by (simp add: ad_queryLogs_def)
  have "0 < ad_placeholders (fst (ad_count_query action' result startTime' endTime'))"
    unfolding ad_count_query_counts using count_filter by auto
  then have "exec_count (fst (ad_count_query action' result startTime' endTime')) = Inl SQL_ERROR"
    using counts ad_count_query_no_quote by (simp add: rejects_placeholders_def)
  then show "ad_getActionCount conn exec_count action' result startTime' endTime' = 0"
    by (simp add: ad_getActionCount_def)
qed (rule ad_query_counts)

definition strict_exec :: "'a \<Rightarrow> string \<Rightarrow> fault + 'a" where
  "strict_exec rows text = (if CHR ''$'' \<in> set text then Inl SQL_ERROR else Inr rows)"

lemma strict_exec_rejects: "rejects_placeholders (strict_exec rows)"
  by (auto simp: rejects_placeholders_def strict_exec_def ad_placeholders_def filter_empty_conv)

lemma ad_filters_find_nothing_witness:
  "ad_queryLogs True (strict_exec [r]) 0 ''LOGIN'' [] 0 [] [] = [] \<and>
   ad_queryLogs True (strict_exec [r]) 0 [] [] 0 [] [] = [r] \<and>
   ad_getActionCount True (strict_exec 5) ''LOGIN'' [] [] [] = 0"
  using ad_filters_find_nothing [OF strict_exec_rejects strict_exec_rejects,
      of 0 "''LOGIN''" "[]" 0 "[]" "[]" "''LOGIN''" "[]" "[]" "[]" True "[r]" 5]
  by (simp add: ad_queryLogs_def ad_query_def ad_condition_def AUDIT_COLUMNS_def strict_exec_def Let_def)

section \<open>Histories of calls\<close>

datatype AuthCall =
    CreateUser string string string string
  | DeleteUser int
  | SetStatus int string
  | AssignRole int int
  | RemoveRole int int
  | Login string string
  | CheckPermission int string
  | LogAction bool int int string string int string string string

definition outcome :: "(fault + 'a) \<times> AuthWorld \<Rightarrow> bool \<times> AuthWorld" where
  "outcome r = (case fst r of Inl _ \<Rightarrow> False | Inr _ \<Rightarrow> True, snd r)"

text \<open>One call: whether it returned, and the tables after it.\<close>

fun au_call :: "DBEnv \<Rightarrow> (string \<Rightarrow> 8 word list) \<Rightarrow> AuthCall \<Rightarrow> AuthWorld \<Rightarrow> bool \<times> AuthWorld" where
  "au_call env digest (CreateUser n p r e) w = outcome (au_createUser env digest n p r e w)"
| "au_call env digest (DeleteUser i) w = outcome (au_deleteUser env i w)"
| "au_call env digest (SetStatus i s) w = outcome (au_updateUserStatus env i s w)"
| "au_call env digest (AssignRole i r) w = outcome (au_assignRole env i r w)"
| "au_call env digest (RemoveRole i r) w = outcome (au_removeRole env i r w)"
| "au_call env digest (Login n p) w = outcome (au_authenticate env digest n p w)"
| "au_call env digest (CheckPermission i p) w = outcome (au_checkPermission env i p w)"
| "au_call env digest (LogAction c now i a tt t r ip d) w = (True, snd (ad_logAction c now i a tt t r ip d w))"

fun au_calls :: "DBEnv \<Rightarrow> (string \<Rightarrow> 8 word list) \<Rightarrow> AuthCall list \<Rightarrow> AuthWorld \<Rightarrow> AuthWorld" where
  "au_calls env digest [] w = w"
| "au_calls env digest (c # cs) w = au_calls env digest cs (snd (au_call env digest c w))"

text \<open>What the keys and the references of the tables ask for.\<close>

definition au_inv :: "AuthWorld \<Rightarrow> bool" where
  "au_inv w \<longleftrightarrow>
     distinct (map us_id (aw_users w)) \<and> distinct (map us_username (aw_users w)) \<and>
     (\<forall>u \<in> set (aw_users w). us_id u < aw_next_user w) \<and>
     distinct (aw_user_roles w) \<and>
     fst ` set (aw_user_roles w) \<subseteq> us_id ` set (aw_users w) \<and>
     snd ` set (aw_user_roles w) \<subseteq> ro_id ` set (aw_roles w) \<and>
     au_user_id ` set (aw_audit_logs w) \<subseteq> us_id ` set (aw_users w)"

definition au_new :: "DBPool \<Rightarrow> Role list \<Rightarrow> (int \<times> string) list \<Rightarrow> (int \<times> int) list \<Rightarrow> AuthWorld" where
  "au_new p roles permissions rps =
     \<lparr>aw_conns = p, aw_users = [], aw_next_user = 1, aw_roles = roles, aw_user_roles = [],
      aw_permissions = permissions, aw_role_permissions = rps, aw_audit_logs = [], aw_next_audit = 1\<rparr>"

lemma au_inv_new: "au_inv (au_new p roles permissions rps)"
  by (simp add: au_inv_def au_new_def)

lemma au_inv_conns [simp]: "au_inv (w\<lparr>aw_conns := p\<rparr>) = au_inv w"
  by (simp add: au_inv_def)

lemma au_with_inv:
  assumes "au_inv w" "\<And>v. au_inv v \<Longrightarrow> au_inv (snd (statement v))"
  shows "au_inv (snd (au_with env statement w))"
proof -
  have "au_inv (snd (statement (w\<lparr>aw_conns := p\<rparr>)))" for p using assms by simp
  then show ?thesis
    by (auto simp: au_with_def assms(1) split: prod.split sum.split) (metis snd_conv)+
qed

lemma au_insert_user_inv: "au_inv v \<Longrightarrow> au_inv (snd (au_insert_user u v))"
proof -
  assume v: "au_inv v"
  have "aw_next_user v \<notin> us_id ` set (aw_users v)" using v by (auto simp: au_inv_def)
  moreover have "A \<subseteq> insert x B" if "A \<subseteq> B" for A B and x :: int using that by auto
  ultimately show ?thesis using v by (simp add: au_inv_def au_insert_user_def Let_def order_less_imp_le)
qed

lemma image_filter_neq: "f ` {x \<in> A. f x \<noteq> i} = f ` A - {i}"
  by auto

lemma au_delete_user_row_inv: "au_inv v \<Longrightarrow> au_inv (snd (au_delete_user_row i v))"
proof -
  assume v: "au_inv v"
  have "fst ` {x \<in> set (aw_user_roles v). fst x \<noteq> i} = fst ` set (aw_user_roles v) - {i}" by auto
  moreover have "snd ` {x \<in> set (aw_user_roles v). fst x \<noteq> i} \<subseteq> snd ` set (aw_user_roles v)" by auto
  ultimately show ?thesis
    using v by (simp add: au_inv_def au_delete_user_row_def distinct_map_filter image_filter_neq, auto)
qed

definition us_set_status :: "int \<Rightarrow> string \<Rightarrow> User \<Rightarrow> User" where
  "us_set_status i s u = (if us_id u = i then u\<lparr>us_status := s\<rparr> else u)"

lemma us_set_status_fields [simp]:
  "us_id (us_set_status i s u) = us_id u" "us_username (us_set_status i s u) = us_username u"
  "us_password_hash (us_set_status i s u) = us_password_hash u"
  by (simp_all add: us_set_status_def)

lemma au_updateUserStatus_alt:
  "au_updateUserStatus env i s =
     au_with env (\<lambda>w. (Inr True, w\<lparr>aw_users := map (us_set_status i s) (aw_users w)\<rparr>))"
  by (simp add: au_updateUserStatus_def us_set_status_def [abs_def])

lemma us_set_status_inv: "au_inv v \<Longrightarrow> au_inv (v\<lparr>aw_users := map (us_set_status i s) (aw_users v)\<rparr>)"
  by (auto simp: au_inv_def image_image o_def comp_def)

lemma au_remove_role_inv: "au_inv v \<Longrightarrow> au_inv (v\<lparr>aw_user_roles := filter P (aw_user_roles v)\<rparr>)"
  by (auto simp: au_inv_def)

lemma au_call_inv: "au_inv w \<Longrightarrow> au_inv (snd (au_call env digest c w))"
proof (cases c)
  case (AssignRole i r)
  then show "au_inv w \<Longrightarrow> ?thesis"
    by (auto simp: outcome_def au_assignRole_def au_inv_def Let_def split: prod.split sum.split)
next
  case (LogAction cn now i a tt t r ip d)
  then show "au_inv w \<Longrightarrow> ?thesis"
    by (auto simp: outcome_def ad_logAction_def au_inv_def Let_def)
qed (auto simp: outcome_def au_createUser_def au_deleteUser_def au_updateUserStatus_alt au_removeRole_def
      au_authenticate_def au_checkPermission_def
      intro!: au_with_inv au_insert_user_inv au_delete_user_row_inv us_set_status_inv au_remove_role_inv)


lemma au_calls_inv: "au_inv w \<Longrightarrow> au_inv (au_calls env digest cs w)"
  by (induction cs arbitrary: w) (auto intro: au_call_inv)

section \<open>Log in\<close>

lemma au_with_snd_P:
  assumes "P (aw_users w)" "\<And>v. P (aw_users v) \<Longrightarrow> P (aw_users (snd (statement v)))"
  shows "P (aw_users (snd (au_with env statement w)))"
proof -
  have "P (aw_users (snd (statement (w\<lparr>aw_conns := p\<rparr>))))" for p using assms by simp
  then show ?thesis
    by (auto simp: au_with_def assms(1) split: prod.split sum.split) (metis snd_conv)+
qed

text \<open>A row stays until its user is deleted or gets a status.\<close>

fun touches :: "int \<Rightarrow> AuthCall \<Rightarrow> bool" where
  "touches i (DeleteUser j) = (i = j)"
| "touches i (SetStatus j s) = (i = j)"
| "touches i _ = False"

lemma au_call_keeps:
  assumes "u \<in> set (aw_users w)" "\<not> touches (us_id u) c"
  shows "u \<in> set (aw_users (snd (au_call env digest c w)))"
proof (cases c)
  case (AssignRole i r)
  then show ?thesis using assms
    by (auto simp: outcome_def au_assignRole_def Let_def split: prod.split sum.split)
next
  case (LogAction cn now i a tt t r ip d)
  then show ?thesis using assms by (auto simp: outcome_def ad_logAction_def Let_def)
qed (use assms in \<open>auto simp: outcome_def au_createUser_def au_deleteUser_def au_updateUserStatus_def au_removeRole_def
      au_authenticate_def au_checkPermission_def au_insert_user_def au_delete_user_row_def Let_def image_iff
      intro!: au_with_snd_P [where P = "\<lambda>us. u \<in> set us"] split: if_splits\<close>)

lemma au_calls_keep:
  "u \<in> set (aw_users w) \<Longrightarrow> \<forall>c \<in> set cs. \<not> touches (us_id u) c \<Longrightarrow> u \<in> set (aw_users (au_calls env digest cs w))"
  by (induction cs arbitrary: w) (auto intro: au_call_keeps)

lemma au_authenticate_result:
  assumes "au_inv w" "u \<in> set (aw_users w)"
  shows "fst (au_authenticate env digest (us_username u) password w) \<in>
    range Inl \<union> {Inr (us_password_hash u = sha256 digest password \<and> us_status u = ''ACTIVE'')}"
proof -
  have same: "v = u" if "v \<in> set (aw_users w)" "us_username v = us_username u" for v
    using assms that by (intro eq_key_imp_eq [of us_username "aw_users w"]) (auto simp: au_inv_def)
  have "(filter (\<lambda>v. us_username v = us_username u \<and> us_password_hash v = sha256 digest password \<and>
           us_status v = ''ACTIVE'') (aw_users w) \<noteq> []) \<longleftrightarrow>
        us_password_hash u = sha256 digest password \<and> us_status u = ''ACTIVE''"
    using assms(2) same by (auto simp: filter_empty_conv)
  then show ?thesis
    by (auto simp: au_authenticate_def au_with_def split: prod.split sum.split)
qed

text \<open>
  Log in after a registration. After \<open>createUser\<close> returned, through any calls about other users, and however
  often roles, permissions and the log change, a log in of this user that returns says yes exactly for the
  passwords with the digest of the registered one; from a call of \<open>updateUserStatus\<close> with another status
  than \<open>ACTIVE\<close> on it says no to every password.
\<close>

theorem au_login_exact:
  assumes "au_inv w"
    and created: "au_createUser env digest name password realName email w = (Inr i, w1)"
    and others: "list_all (\<lambda>c. \<not> touches i c) cs" "list_all (\<lambda>c. \<not> touches i c) cs'"
    and status: "au_updateUserStatus env i status (au_calls env digest cs w1) = (Inr ok, w2)" "status \<noteq> ''ACTIVE''"
  shows "fst (au_authenticate env digest name given (au_calls env digest cs w1))
           \<in> range Inl \<union> {Inr (digest given = digest password)} \<and>
    fst (au_authenticate env digest name given (au_calls env digest cs' w2)) \<in> range Inl \<union> {Inr False}"
proof -
  define u where "u = \<lparr>us_id = i, us_username = name, us_password_hash = sha256 digest password,
    us_real_name = realName, us_email = email, us_status = ''ACTIVE''\<rparr>"
  have u1: "u \<in> set (aw_users w1)"
    using created
    by (auto simp: au_createUser_def au_with_def au_insert_user_def Let_def u_def split: prod.splits sum.splits if_splits)
  have inv1: "au_inv (au_calls env digest cs w1)"
    using au_call_inv [OF \<open>au_inv w\<close>, of env digest "CreateUser name password realName email"] created
    by (auto simp: outcome_def intro: au_calls_inv)
  have u2: "u \<in> set (aw_users (au_calls env digest cs w1))"
    using u1 others by (auto intro!: au_calls_keep simp: u_def list_all_iff)
  have first: "fst (au_authenticate env digest name given (au_calls env digest cs w1))
      \<in> range Inl \<union> {Inr (digest given = digest password)}"
    using au_authenticate_result [OF inv1 u2, of env digest given] by (auto simp: u_def sha256_eq)
  have u3: "u\<lparr>us_status := status\<rparr> \<in> set (aw_users w2)"
    using status(1) u2
    by (auto simp: au_updateUserStatus_def au_with_def u_def image_iff split: prod.splits sum.splits
        intro!: bexI [of _ u])
  have inv2: "au_inv (au_calls env digest cs' w2)"
    using au_call_inv [OF inv1, of env digest "SetStatus i status"] status(1)
    by (auto simp: outcome_def intro: au_calls_inv)
  have "u\<lparr>us_status := status\<rparr> \<in> set (aw_users (au_calls env digest cs' w2))"
    using u3 others by (auto intro!: au_calls_keep simp: u_def list_all_iff)
  from au_authenticate_result [OF inv2 this, of env digest given] first status(2) show ?thesis
    by (auto simp: u_def)
qed


text \<open>A pool of two connections, all of them alive.\<close>

definition two_conns :: DBPool where
  "two_conns = \<lparr>db_pool = replicate 20 0, db_availableConnections = [0, 1], db_inUseCount = 0\<rparr>"

definition toy_digest :: "string \<Rightarrow> 8 word list" where
  "toy_digest s = map (\<lambda>c. word_of_nat (of_char c)) s"

lemma au_login_exact_witness:
  "let env = env_full;
       w0 = au_new two_conns [] [] [];
       w1 = snd (au_createUser env toy_digest ''ann'' ''pw'' [] [] w0);
       w2 = snd (au_updateUserStatus env 1 ''LOCKED'' w1)
   in fst (au_authenticate env toy_digest ''ann'' ''pw'' w1) \<in> range Inl \<union> {Inr True} \<and>
      fst (au_authenticate env toy_digest ''ann'' ''px'' w1) \<in> range Inl \<union> {Inr False} \<and>
      fst (au_authenticate env toy_digest ''ann'' ''pw'' w2) \<in> range Inl \<union> {Inr False}"
proof -
  define w0 where "w0 = au_new two_conns [] [] []"
  define w1 where "w1 = snd (au_createUser env_full toy_digest ''ann'' ''pw'' [] [] w0)"
  define w2 where "w2 = snd (au_updateUserStatus env_full 1 ''LOCKED'' w1)"
  have created: "au_createUser env_full toy_digest ''ann'' ''pw'' [] [] w0 = (Inr 1, w1)"
    by (simp add: w1_def w0_def prod_eq_iff au_createUser_def au_with_def au_insert_user_def au_new_def two_conns_def
        db_acquire_def db_acquire_start_def env_full_def Let_def)
  have locked: "au_updateUserStatus env_full 1 ''LOCKED'' (au_calls env_full toy_digest [] w1) = (Inr True, w2)"
    by (simp add: w2_def w1_def w0_def prod_eq_iff au_createUser_def au_updateUserStatus_def au_with_def
        au_insert_user_def au_new_def two_conns_def db_release_def
        db_acquire_def db_acquire_start_def env_full_def Let_def)
  have inv: "au_inv w0" by (simp add: w0_def au_inv_new)
  have "toy_digest ''px'' \<noteq> toy_digest ''pw''" by (simp add: toy_digest_def of_char_def)
  then show ?thesis
    using au_login_exact [OF inv created _ _ locked, of "[]" "''pw''"]
      au_login_exact [OF inv created _ _ locked, of "[]" "''px''"]
    by (simp add: w0_def [symmetric] w1_def [symmetric] w2_def [symmetric] Let_def)
qed

section \<open>Permissions\<close>

definition au_has :: "AuthWorld \<Rightarrow> int \<Rightarrow> string \<Rightarrow> bool" where
  "au_has w i n \<longleftrightarrow> (\<exists>r p. (i, r) \<in> set (aw_user_roles w) \<and> (r, p) \<in> set (aw_role_permissions w) \<and> (p, n) \<in> set (aw_permissions w))"

lemma au_join_iff: "n \<in> set (au_join i w) \<longleftrightarrow> au_has w i n"
  by (force simp: au_join_def au_has_def)

lemma au_has_conns [simp]: "au_has (w\<lparr>aw_conns := p\<rparr>) = au_has w"
  by (simp add: au_has_def fun_eq_iff)

text \<open>
  Permissions. Asking for one permission and listing all of them agree, on their failures and on what they do to
  the pool as well, and both say what the role tables say; no user is asked for: a permission of a user that is
  locked, or whose name was never registered, counts the same.
\<close>

theorem au_permission_lists_agree:
  "fst (au_checkPermission env i n w) = map_sum id (\<lambda>S. n \<in> S) (fst (au_getUserPermissions env i w)) \<and>
   snd (au_checkPermission env i n w) = snd (au_getUserPermissions env i w) \<and>
   fst (au_checkPermission env i n w) \<in> range Inl \<union> {Inr (au_has w i n)}"
proof -
  have "(filter (\<lambda>m. m = n) (au_join i v) \<noteq> []) \<longleftrightarrow> n \<in> set (au_join i v)" for v
    by (auto simp: filter_empty_conv)
  then show ?thesis
    by (auto simp: au_checkPermission_def au_getUserPermissions_def au_with_def au_join_iff split: prod.split sum.split)
qed

text \<open>
  Locking a user out. \<open>updateUserStatus\<close> keeps every permission of everyone: what the service refuses after
  it is the log in alone, and no check of a permission asks for the status.
\<close>

theorem au_lock_keeps_permissions:
  assumes "au_updateUserStatus env i status w = (Inr ok, w1)"
  shows "au_has w1 = au_has w \<and> fst (pc_canManageUsers env j w1) \<in> range Inl \<union> {Inr (au_has w j ''user:manage'')}"
proof -
  have "aw_user_roles w1 = aw_user_roles w" "aw_role_permissions w1 = aw_role_permissions w"
    "aw_permissions w1 = aw_permissions w"
    using assms by (auto simp: au_updateUserStatus_def au_with_def split: prod.splits sum.splits)
  then have "au_has w1 = au_has w" by (simp add: au_has_def fun_eq_iff)
  then show ?thesis
    using conjunct2 [OF conjunct2 [OF au_permission_lists_agree [of env j "''user:manage''" w1]]]
    by (simp add: pc_canManageUsers_def)
qed

definition lock_world :: AuthWorld where
  "lock_world = au_new two_conns [\<lparr>ro_id = 1, ro_name = ''admin'', ro_description = []\<rparr>] [(9, ''user:manage'')] [(1, 9)]"

lemma au_lock_keeps_permissions_witness:
  "let w = au_calls env_full toy_digest [CreateUser ''ann'' ''pw'' [] [], AssignRole 1 1] lock_world;
       w1 = snd (au_updateUserStatus env_full 1 ''LOCKED'' w)
   in fst (pc_canManageUsers env_full 1 w1) \<in> range Inl \<union> {Inr True}"
proof -
  define w where "w = au_calls env_full toy_digest [CreateUser ''ann'' ''pw'' [] [], AssignRole 1 1] lock_world"
  define w1 where "w1 = snd (au_updateUserStatus env_full 1 ''LOCKED'' w)"
  note defs = w_def lock_world_def outcome_def au_createUser_def au_assignRole_def au_with_def au_insert_user_def
    au_new_def two_conns_def db_release_def db_acquire_def db_acquire_start_def env_full_def Let_def
  have "au_updateUserStatus env_full 1 ''LOCKED'' w = (Inr True, w1)"
    by (simp add: w1_def prod_eq_iff au_updateUserStatus_def defs)
  from au_lock_keeps_permissions [OF this, of 1] have "fst (pc_canManageUsers env_full 1 w1) \<in> range Inl \<union> {Inr (au_has w 1 ''user:manage'')}"
    by simp
  moreover have "au_has w 1 ''user:manage''" by (simp add: au_has_def defs)
  ultimately show ?thesis by (simp only: w_def [symmetric] w1_def [symmetric] Let_def)
qed

text \<open>The rows \<open>scripts/init_db.sql\<close> inserts, the ids in the order of the statements.\<close>

definition DEFAULT_PERMISSIONS :: "(int \<times> string) list" where
  "DEFAULT_PERMISSIONS = zip [1 .. 9]
     [''asset:create'', ''asset:read'', ''asset:update'', ''asset:delete'', ''inventory:create'', ''inventory:start'',
      ''inventory:view'', ''user:create'', ''user:manage'']"

definition DEFAULT_ROLES :: "Role list" where
  "DEFAULT_ROLES =
     [\<lparr>ro_id = 1, ro_name = ''admin'', ro_description = ''System administrator with full access''\<rparr>,
      \<lparr>ro_id = 2, ro_name = ''operator'', ro_description = ''Warehouse operator with inventory access''\<rparr>,
      \<lparr>ro_id = 3, ro_name = ''viewer'', ro_description = ''Read-only access to view assets and inventory''\<rparr>]"

definition DEFAULT_ROLE_PERMISSIONS :: "(int \<times> int) list" where
  "DEFAULT_ROLE_PERMISSIONS =
     map (Pair 1) [1 .. 9] @
     map (Pair 2) (map fst (filter (\<lambda>p. snd p \<in> {''asset:create'', ''asset:read'', ''asset:update'',
        ''inventory:create'', ''inventory:start'', ''inventory:view''}) DEFAULT_PERMISSIONS)) @
     map (Pair 3) (map fst (filter (\<lambda>p. snd p \<in> {''asset:read'', ''inventory:view''}) DEFAULT_PERMISSIONS))"

text \<open>The checks of \<open>PermissionChecker\<close>, in the order of the class.\<close>

definition pc_all :: "DBEnv \<Rightarrow> int \<Rightarrow> AuthWorld \<Rightarrow> (fault + bool) list" where
  "pc_all env i w =
     [fst (pc_canCreateAsset env i w), fst (pc_canUpdateAsset env i w), fst (pc_canDeleteAsset env i w),
      fst (pc_canViewAsset env i w), fst (pc_canCreateInventoryTask env i w), fst (pc_canStartInventory env i w),
      fst (pc_canViewInventory env i w), fst (pc_canManageUsers env i w)]"

definition default_world :: "(int \<times> int) list \<Rightarrow> AuthWorld" where
  "default_world roles =
     (au_new two_conns DEFAULT_ROLES DEFAULT_PERMISSIONS DEFAULT_ROLE_PERMISSIONS)\<lparr>aw_user_roles := roles\<rparr>"

lemma checkPermission_default:
  "fst (au_checkPermission env_full i n (default_world roles)) = Inr (au_has (default_world roles) i n)"
  using au_permission_lists_agree [of env_full i n "default_world roles"]
  by (auto simp: au_checkPermission_def au_with_def default_world_def au_new_def two_conns_def env_full_def
      db_acquire_def db_acquire_start_def)

text \<open>
  The default roles. With the rows of the installation an administrator passes every check, an operator every
  one but deleting assets and managing users, a viewer the two checks for viewing, and a user without a
  role none.
\<close>

theorem pc_default_roles:
  "pc_all env_full 7 (default_world [(7, 1)]) = map Inr [True, True, True, True, True, True, True, True] \<and>
   pc_all env_full 7 (default_world [(7, 2)]) = map Inr [True, True, False, True, True, True, True, False] \<and>
   pc_all env_full 7 (default_world [(7, 3)]) = map Inr [False, False, False, True, False, False, True, False] \<and>
   pc_all env_full 7 (default_world [(8, 1)]) = map Inr (replicate 8 False)"
proof -
  have eval: "fst (au_checkPermission env_full i n (default_world roles)) =
      Inr (n \<in> set (au_join i (default_world roles)))" for i n roles
    by (simp only: checkPermission_default au_join_iff)
  show ?thesis
    unfolding pc_all_def pc_canCreateAsset_def pc_canUpdateAsset_def pc_canDeleteAsset_def pc_canViewAsset_def
      pc_canCreateInventoryTask_def pc_canStartInventory_def pc_canViewInventory_def pc_canManageUsers_def eval
    by code_simp
qed

text \<open>
  Audited users stay. Once the log has an entry of a user, no sequence of calls removes the user: the reference
  of the entry makes every \<open>deleteUser\<close> throw, and each such call on a full pool keeps its connection.
\<close>

theorem au_audited_user_stays:
  assumes "au_inv w" "l \<in> set (aw_audit_logs w)" and "pool_ready env (aw_conns w)"
    and "db_availableConnections (aw_conns w) = c # cs"
  shows "au_user_id l \<in> us_id ` set (aw_users (au_calls env digest calls w)) \<and>
    au_deleteUser env (au_user_id l) w =
      (Inl SQL_ERROR, w\<lparr>aw_conns := (aw_conns w)\<lparr>db_availableConnections := cs,
                                               db_inUseCount := db_inUseCount (aw_conns w) + 1\<rparr>\<rparr>)"
proof
  have keep: "l \<in> set (aw_audit_logs v) \<Longrightarrow> l \<in> set (aw_audit_logs (snd (au_call env digest d v)))" for d v
    by (cases d) (auto simp: outcome_def au_createUser_def au_deleteUser_def au_updateUserStatus_def au_assignRole_def
        au_removeRole_def au_authenticate_def au_checkPermission_def au_insert_user_def au_delete_user_row_def
        ad_logAction_def au_with_def Let_def split: prod.split sum.split)
  have "l \<in> set (aw_audit_logs (au_calls env digest calls w))"
    using assms(2) by (induction calls arbitrary: w) (auto intro: keep)
  then show "au_user_id l \<in> us_id ` set (aw_users (au_calls env digest calls w))"
    using au_calls_inv [OF assms(1), of env digest calls] by (auto simp: au_inv_def)
  have "au_user_id l \<in> us_id ` set (aw_users w) \<and> au_user_id l \<in> au_user_id ` set (aw_audit_logs w)"
    using assms(1,2) by (auto simp: au_inv_def)
  then show "au_deleteUser env (au_user_id l) w = (Inl SQL_ERROR, w\<lparr>aw_conns := (aw_conns w)
      \<lparr>db_availableConnections := cs, db_inUseCount := db_inUseCount (aw_conns w) + 1\<rparr>\<rparr>)"
    using ready_acquire [OF assms(3)] assms(4) by (simp add: au_deleteUser_def au_with_def au_delete_user_row_def)
qed

lemma au_audited_user_stays_witness:
  "let w = au_calls env_full toy_digest
             [CreateUser ''ann'' ''pw'' [] [], LogAction True 5 1 ''LOGIN'' ''user'' 1 ''OK'' [] []] lock_world
   in 1 \<in> us_id ` set (aw_users (au_calls env_full toy_digest [DeleteUser 1, DeleteUser 1] w)) \<and>
      fst (au_deleteUser env_full 1 w) = Inl SQL_ERROR"
proof -
  define w where "w = au_calls env_full toy_digest
    [CreateUser ''ann'' ''pw'' [] [], LogAction True 5 1 ''LOGIN'' ''user'' 1 ''OK'' [] []] lock_world"
  define l where "l = \<lparr>au_id = 1, au_user_id = 1, au_action = ''LOGIN'', au_target_type = ''user'', au_target_id = 1,
    au_result = ''OK'', au_ip_address = [], au_details = [], au_created_at = 5\<rparr>"
  note defs = w_def lock_world_def outcome_def au_createUser_def ad_logAction_def au_with_def au_insert_user_def
    au_new_def two_conns_def db_release_def db_acquire_def db_acquire_start_def env_full_def Let_def
  have "au_inv w" unfolding w_def lock_world_def by (rule au_calls_inv [OF au_inv_new])
  moreover have "l \<in> set (aw_audit_logs w)" by (simp add: l_def defs)
  moreover have "pool_ready env_full (aw_conns w)" by (simp add: pool_ready_def MAX_CONNECTIONS_def defs)
  moreover have "db_availableConnections (aw_conns w) = 1 # [0]" by (simp add: defs)
  ultimately have "au_user_id l \<in> us_id ` set (aw_users (au_calls env_full toy_digest [DeleteUser 1, DeleteUser 1] w)) \<and>
      fst (au_deleteUser env_full (au_user_id l) w) = Inl SQL_ERROR"
    using au_audited_user_stays [of w l env_full 1 "[0]" toy_digest "[DeleteUser 1, DeleteUser 1]"] by simp
  then show ?thesis by (simp only: w_def [symmetric] Let_def l_def AuditRecord.simps)
qed

end
