(* ===== verification/Bandit.thy ===== *)
theory Bandit
  imports Decimal "HOL-Library.Sublist"
begin

text \<open>
  \<open>server/tuning/bandit\<close>: the contextual bandit that picks actions. The linear model of every arm
  (\<open>linucb_algorithm.h\<close>), the guardrails (\<open>guardrail_module.h\<close>), the mixing of both (\<open>policy_mixer.h\<close>) and the
  engine with its statistics and cached decisions (\<open>bandit_engine.cpp\<close>). Matrices are functions of their
  indices; the inverse, which the matrix library computes, is the argument \<open>eig\<close>, \<open>None\<close> where it throws. The
  engine drawing random numbers is two more arguments.
\<close>

section \<open>Types\<close>

datatype BanditActionType = NO_ACTION | INSPECT | ALERT | REALLOCATE

record BanditAction =
  bac_type :: BanditActionType
  bac_threshold_adjustment :: real
  bac_confidence_boost :: real

fun bac_typeString :: "BanditActionType \<Rightarrow> string" where
  "bac_typeString NO_ACTION = ''NO_ACTION''"
| "bac_typeString INSPECT = ''INSPECT''"
| "bac_typeString ALERT = ''ALERT''"
| "bac_typeString REALLOCATE = ''REALLOCATE''"

definition bac_toString :: "BanditAction \<Rightarrow> string" where
  "bac_toString a = bac_typeString (bac_type a)"

definition bac_fromString :: "string \<Rightarrow> BanditActionType" where
  "bac_fromString s =
     (if s = ''NO_ACTION'' then NO_ACTION
      else if s = ''INSPECT'' then INSPECT
      else if s = ''ALERT'' then ALERT
      else if s = ''REALLOCATE'' then REALLOCATE
      else NO_ACTION)"

lemma bac_string_roundtrip [simp]: "bac_fromString (bac_toString a) = bac_type a"
  by (cases "bac_type a") (simp_all add: bac_toString_def bac_fromString_def)

record ContextFeatures =
  cx_missing_risk :: real
  cx_inactivity_risk :: real
  cx_abnormal_risk :: real
  cx_daily_avg_scans :: real
  cx_weekly_avg_scans :: real
  cx_move_count_24h :: int
  cx_hours_since_last_seen :: int
  cx_in_illegal_location :: bool
  cx_is_backup :: bool
  cx_asset_type :: int
  cx_last_seen_variance :: real
  cx_location_stability :: real
  cx_historical_missing_rate :: real

definition cx_toVector :: "ContextFeatures \<Rightarrow> real list" where
  "cx_toVector c =
     [cx_missing_risk c, cx_inactivity_risk c, cx_abnormal_risk c, cx_daily_avg_scans c, cx_weekly_avg_scans c,
      of_int (cx_move_count_24h c), of_int (cx_hours_since_last_seen c),
      if cx_in_illegal_location c then 1 else 0, if cx_is_backup c then 1 else 0, of_int (cx_asset_type c),
      cx_last_seen_variance c, cx_location_stability c, cx_historical_missing_rate c, 1]"

record BanditRanked =
  brk_action :: BanditAction
  brk_score :: real
  brk_uncertainty :: real
  brk_confidence :: real

datatype GuardrailType = GR_NONE | GR_HIGH_RISK | GR_ILLEGAL_LOCATION | GR_LOW_CONFIDENCE

record GuardrailDecision =
  gd_action :: BanditAction
  gd_type :: GuardrailType
  gd_reason :: string
  gd_triggered :: bool

fun gd_typeString :: "GuardrailType \<Rightarrow> string" where
  "gd_typeString GR_HIGH_RISK = ''HIGH_RISK_GUARDRAIL''"
| "gd_typeString GR_ILLEGAL_LOCATION = ''ILLEGAL_LOCATION_GUARDRAIL''"
| "gd_typeString GR_LOW_CONFIDENCE = ''LOW_CONFIDENCE_GUARDRAIL''"
| "gd_typeString GR_NONE = ''NONE''"

definition getActionCost :: "BanditActionType \<Rightarrow> real \<Rightarrow> real" where
  "getActionCost t risk =
     (let base = (case t of INSPECT \<Rightarrow> 3 / 10 | ALERT \<Rightarrow> 2 / 10 | REALLOCATE \<Rightarrow> 4 / 10 | NO_ACTION \<Rightarrow> 0)
      in if risk > 8 / 10 then base * (3 / 10) else if risk > 5 / 10 then base * (6 / 10) else base)"

definition getDistributionPenalty :: "real \<Rightarrow> real \<Rightarrow> real \<Rightarrow> real" where
  "getDistributionPenalty inspect_ratio no_action_ratio target_inspect =
     (let penalty = - (1 / 10) * \<bar>inspect_ratio - target_inspect\<bar>
      in if no_action_ratio > 85 / 100 then penalty - 15 / 100 else penalty)"

section \<open>The linear model of the arms\<close>

type_synonym matrix = "nat \<Rightarrow> nat \<Rightarrow> real"

record ArmModel =
  am_action :: BanditAction
  am_A :: matrix
  am_b :: "nat \<Rightarrow> real"
  am_sample_count :: int

definition am_new :: "BanditAction \<Rightarrow> ArmModel" where
  "am_new act =
     \<lparr>am_action = act, am_A = \<lambda>i j. if i = j then 1 / 100 else 0, am_b = \<lambda>_. 0, am_sample_count = 0\<rparr>"

record LinUCB =
  lu_feature_dim :: nat
  lu_alpha :: real
  lu_epsilon :: real
  lu_epsilon_min :: real
  lu_total_samples :: int
  lu_arms :: "ArmModel list"

definition bac_of :: "BanditActionType \<Rightarrow> BanditAction" where
  "bac_of t = \<lparr>bac_type = t, bac_threshold_adjustment = 0, bac_confidence_boost = 1\<rparr>"

definition lu_base_actions :: "BanditAction list" where
  "lu_base_actions = map bac_of [NO_ACTION, INSPECT, ALERT, REALLOCATE]"

definition lu_new :: "nat \<Rightarrow> real \<Rightarrow> LinUCB" where
  "lu_new d alpha = \<lparr>lu_feature_dim = d, lu_alpha = alpha, lu_epsilon = 1 / 10, lu_epsilon_min = 5 / 100,
     lu_total_samples = 0, lu_arms = map am_new lu_base_actions\<rparr>"

definition lu_setEpsilon :: "real \<Rightarrow> LinUCB \<Rightarrow> LinUCB" where
  "lu_setEpsilon eps m = m\<lparr>lu_epsilon := eps\<rparr>"

definition lu_setAlpha :: "real \<Rightarrow> LinUCB \<Rightarrow> LinUCB" where
  "lu_setAlpha alpha m = m\<lparr>lu_alpha := alpha\<rparr>"

definition lu_getCurrentEpsilon :: "LinUCB \<Rightarrow> real" where
  "lu_getCurrentEpsilon m =
     (let decay = max 0 (1 - of_int (lu_total_samples m) / 10000) in max (lu_epsilon_min m) (lu_epsilon m * decay))"

text \<open>\<open>theta\<close> is \<open>A.inverse() * b\<close>; then its product with the context, and \<open>sqrt(x' A.inverse() x)\<close>.\<close>

definition vdot :: "(nat \<Rightarrow> real) \<Rightarrow> real list \<Rightarrow> real" where
  "vdot v x = (\<Sum>i \<leftarrow> [0 ..< length x]. v i * x ! i)"

definition am_exploit :: "(matrix \<Rightarrow> matrix option) \<Rightarrow> real list \<Rightarrow> ArmModel \<Rightarrow> real option" where
  "am_exploit eig x arm =
     map_option (\<lambda>B. vdot (\<lambda>i. \<Sum>j \<leftarrow> [0 ..< length x]. B i j * am_b arm j) x) (eig (am_A arm))"

definition am_uncertainty :: "(matrix \<Rightarrow> matrix option) \<Rightarrow> real list \<Rightarrow> ArmModel \<Rightarrow> real option" where
  "am_uncertainty eig x arm =
     map_option (\<lambda>B. sqrt (vdot (\<lambda>i. \<Sum>j \<leftarrow> [0 ..< length x]. B i j * x ! j) x)) (eig (am_A arm))"

definition am_score :: "(matrix \<Rightarrow> matrix option) \<Rightarrow> real \<Rightarrow> real list \<Rightarrow> ArmModel \<Rightarrow> real option" where
  "am_score eig alpha x arm =
     (case (am_exploit eig x arm, am_uncertainty eig x arm) of
        (Some e, Some u) \<Rightarrow> Some (e + alpha * u)
      | _ \<Rightarrow> None)"

definition lu_better :: "(matrix \<Rightarrow> matrix option) \<Rightarrow> real \<Rightarrow> real list \<Rightarrow> real \<times> BanditAction \<Rightarrow> ArmModel \<Rightarrow> real \<times> BanditAction" where
  "lu_better eig alpha x best arm =
     (case am_score eig alpha x arm of
        Some s \<Rightarrow> if s > fst best then (s, am_action arm) else best
      | None \<Rightarrow> best)"

text \<open>\<open>junk\<close> is the uninitialised action the loop starts from, \<open>u\<close> and \<open>pick\<close> are drawn.\<close>

definition lu_selectAction ::
  "(matrix \<Rightarrow> matrix option) \<Rightarrow> real \<Rightarrow> nat \<Rightarrow> BanditAction \<Rightarrow> ContextFeatures \<Rightarrow> LinUCB \<Rightarrow> BanditAction" where
  "lu_selectAction eig u pick junk c m =
     (if u < lu_getCurrentEpsilon m then am_action (lu_arms m ! pick)
      else snd (foldl (lu_better eig (lu_alpha m) (cx_toVector c)) (- 1000000000, junk) (lu_arms m)))"

definition am_matches :: "BanditAction \<Rightarrow> ArmModel \<Rightarrow> bool" where
  "am_matches act arm \<longleftrightarrow> bac_type (am_action arm) = bac_type act \<and>
     \<bar>bac_threshold_adjustment (am_action arm) - bac_threshold_adjustment act\<bar> < 1 / 100"

definition am_learn :: "real list \<Rightarrow> real \<Rightarrow> ArmModel \<Rightarrow> ArmModel" where
  "am_learn x net arm = arm\<lparr>am_A := \<lambda>i j. am_A arm i j + x ! i * x ! j, am_b := \<lambda>i. am_b arm i + net * x ! i,
     am_sample_count := am_sample_count arm + 1\<rparr>"

definition lu_learn :: "ContextFeatures \<Rightarrow> BanditAction \<Rightarrow> real \<Rightarrow> LinUCB \<Rightarrow> LinUCB" where
  "lu_learn c act net m =
     (if \<exists>arm \<in> set (lu_arms m). am_matches act arm
      then m\<lparr>lu_arms := update_first (am_matches act) (am_learn (cx_toVector c) net) (lu_arms m),
             lu_total_samples := lu_total_samples m + 1\<rparr>
      else m)"

definition lu_update :: "ContextFeatures \<Rightarrow> BanditAction \<Rightarrow> real \<Rightarrow> LinUCB \<Rightarrow> LinUCB" where
  "lu_update c act reward = lu_learn c act (reward - getActionCost (bac_type act) (5 / 10))"

definition lu_net_v33 :: "ContextFeatures \<Rightarrow> BanditAction \<Rightarrow> real \<Rightarrow> bool \<Rightarrow> real \<Rightarrow> real \<Rightarrow> real" where
  "lu_net_v33 c act reward actually_missing inspect_ratio no_action_ratio =
     (let risk = 5 / 10 * cx_missing_risk c + 3 / 10 * cx_inactivity_risk c + 2 / 10 * cx_abnormal_risk c;
          net = reward * (1 - getActionCost (bac_type act) risk);
          net' = (if bac_type act = NO_ACTION \<and> actually_missing then net - 5 / 10 else net)
      in net' + getDistributionPenalty inspect_ratio no_action_ratio (2 / 10))"

definition lu_updateV33 ::
  "ContextFeatures \<Rightarrow> BanditAction \<Rightarrow> real \<Rightarrow> bool \<Rightarrow> real \<Rightarrow> real \<Rightarrow> LinUCB \<Rightarrow> LinUCB" where
  "lu_updateV33 c act reward actually_missing inspect_ratio no_action_ratio =
     lu_learn c act (lu_net_v33 c act reward actually_missing inspect_ratio no_action_ratio)"

definition lu_predictReward :: "(matrix \<Rightarrow> matrix option) \<Rightarrow> ContextFeatures \<Rightarrow> BanditAction \<Rightarrow> LinUCB \<Rightarrow> real" where
  "lu_predictReward eig c act m =
     (case find (\<lambda>arm. bac_type (am_action arm) = bac_type act) (lu_arms m) of
        None \<Rightarrow> 0
      | Some arm \<Rightarrow> (case am_exploit eig (cx_toVector c) arm of None \<Rightarrow> 0 | Some r \<Rightarrow> r))"

definition lu_getAllPredictions ::
  "(matrix \<Rightarrow> matrix option) \<Rightarrow> ContextFeatures \<Rightarrow> LinUCB \<Rightarrow> (BanditAction \<times> real) list" where
  "lu_getAllPredictions eig c m =
     map (\<lambda>arm. (am_action arm, case am_exploit eig (cx_toVector c) arm of None \<Rightarrow> 0 | Some r \<Rightarrow> r)) (lu_arms m)"

text \<open>The first pass over the arms: the least and the largest of their predictions.\<close>

definition lu_range :: "(matrix \<Rightarrow> matrix option) \<Rightarrow> real list \<Rightarrow> ArmModel list \<Rightarrow> real \<times> real" where
  "lu_range eig x arms =
     foldl (\<lambda>(lo, hi) s. (if s < lo then s else lo, if s > hi then s else hi)) (1000000000, - 1000000000)
       (List.map_filter (am_exploit eig x) arms)"

definition lu_rank :: "(matrix \<Rightarrow> matrix option) \<Rightarrow> real \<Rightarrow> real list \<Rightarrow> real \<times> real \<Rightarrow> ArmModel \<Rightarrow> BanditRanked" where
  "lu_rank eig alpha x lohi arm =
     (case (am_exploit eig x arm, am_uncertainty eig x arm) of
        (Some e, Some u) \<Rightarrow>
          (let width = (if snd lohi - fst lohi > 0 then snd lohi - fst lohi else 1);
               score = e + alpha * u
           in \<lparr>brk_action = am_action arm, brk_score = score, brk_uncertainty = u,
               brk_confidence = max 0 (min 1 ((score - fst lohi) / width))\<rparr>)
      | _ \<Rightarrow> \<lparr>brk_action = am_action arm, brk_score = 0, brk_uncertainty = 1, brk_confidence = 0\<rparr>)"

text \<open>A negative \<open>k\<close> becomes a size no vector exceeds.\<close>

definition lu_getTopKRankedActions ::
  "(matrix \<Rightarrow> matrix option) \<Rightarrow> ContextFeatures \<Rightarrow> int \<Rightarrow> LinUCB \<Rightarrow> BanditRanked list" where
  "lu_getTopKRankedActions eig c k m =
     (let x = cx_toVector c;
          ranked = std_sort (\<lambda>a b. brk_score b < brk_score a) (map (lu_rank eig (lu_alpha m) x (lu_range eig x (lu_arms m))) (lu_arms m))
      in if k < 0 then ranked else take (nat k) ranked)"


section \<open>What the arms have learned\<close>

datatype BanditUpdate =
    V32 ContextFeatures BanditAction real
  | V33 ContextFeatures BanditAction real bool real real

fun up_context :: "BanditUpdate \<Rightarrow> ContextFeatures" where
  "up_context (V32 c a r) = c"
| "up_context (V33 c a r mis ir nr) = c"

fun up_action :: "BanditUpdate \<Rightarrow> BanditAction" where
  "up_action (V32 c a r) = a"
| "up_action (V33 c a r mis ir nr) = a"

fun up_net :: "BanditUpdate \<Rightarrow> real" where
  "up_net (V32 c a r) = r - getActionCost (bac_type a) (5 / 10)"
| "up_net (V33 c a r mis ir nr) = lu_net_v33 c a r mis ir nr"

fun lu_apply :: "LinUCB \<Rightarrow> BanditUpdate \<Rightarrow> LinUCB" where
  "lu_apply m (V32 c a r) = lu_update c a r m"
| "lu_apply m (V33 c a r mis ir nr) = lu_updateV33 c a r mis ir nr m"

lemma lu_apply_learn: "lu_apply m u = lu_learn (up_context u) (up_action u) (up_net u) m"
  by (cases u) (simp_all add: lu_update_def lu_updateV33_def)

text \<open>The updates that reach the arm of an action, and the arm that has seen them.\<close>

definition hits :: "BanditAction \<Rightarrow> BanditUpdate \<Rightarrow> bool" where
  "hits act u \<longleftrightarrow> bac_type act = bac_type (up_action u) \<and>
     \<bar>bac_threshold_adjustment act - bac_threshold_adjustment (up_action u)\<bar> < 1 / 100"

definition up_x :: "BanditUpdate \<Rightarrow> nat \<Rightarrow> real" where
  "up_x u i = cx_toVector (up_context u) ! i"

definition arm_after :: "BanditUpdate list \<Rightarrow> BanditAction \<Rightarrow> ArmModel" where
  "arm_after us act = (let seen = filter (hits act) us in
     \<lparr>am_action = act,
      am_A = \<lambda>i j. (if i = j then 1 / 100 else 0) + (\<Sum>u \<leftarrow> seen. up_x u i * up_x u j),
      am_b = \<lambda>i. \<Sum>u \<leftarrow> seen. up_net u * up_x u i,
      am_sample_count = int (length seen)\<rparr>)"

lemma update_first_unique:
  assumes "distinct (map k xs)" "\<And>x y. P x \<Longrightarrow> P y \<Longrightarrow> k x = k y"
  shows "update_first P f xs = map (\<lambda>x. if P x then f x else x) xs"
  using assms(1)
proof (induction xs)
  case (Cons x xs)
  show ?case
  proof (cases "P x")
    case True
    then have "\<not> P y" if "y \<in> set xs" for y using assms(2) [of x y] Cons.prems that by force
    then have "map (\<lambda>x. if P x then f x else x) xs = xs" by (intro map_idI) auto
    then show ?thesis using True by simp
  next
    case False
    then show ?thesis using Cons by simp
  qed
qed simp

lemma am_matches_after: "am_matches (up_action u) (arm_after us act) = hits act u"
  by (simp add: am_matches_def hits_def arm_after_def Let_def)

lemma am_learn_after:
  "hits act u \<Longrightarrow> am_learn (cx_toVector (up_context u)) (up_net u) (arm_after us act) = arm_after (us @ [u]) act"
  by (simp add: am_learn_def arm_after_def Let_def up_x_def fun_eq_iff)

lemma arm_after_other: "\<not> hits act u \<Longrightarrow> arm_after (us @ [u]) act = arm_after us act"
  by (simp add: arm_after_def)

lemma lu_after:
  "foldl lu_apply (lu_new 14 alpha) us =
     (lu_new 14 alpha)\<lparr>lu_arms := map (arm_after us) lu_base_actions,
                       lu_total_samples := int (length (filter (\<lambda>u. \<exists>a \<in> set lu_base_actions. hits a u) us))\<rparr>"
proof (induction us rule: rev_induct)
  case Nil
  then show ?case by (simp add: lu_new_def arm_after_def am_new_def)
next
  case (snoc u us)
  define m where "m = foldl lu_apply (lu_new 14 alpha) us"
  note m = snoc.IH [folded m_def]
  have arms: "lu_arms m = map (arm_after us) lu_base_actions" by (simp add: m)
  have uniq: "update_first (am_matches (up_action u)) f (map (arm_after us) lu_base_actions) =
      map (\<lambda>arm. if am_matches (up_action u) arm then f arm else arm) (map (arm_after us) lu_base_actions)" for f
    by (rule update_first_unique [of "\<lambda>arm. bac_type (am_action arm)"])
      (auto simp: lu_base_actions_def bac_of_def arm_after_def am_matches_def Let_def)
  have step: "map (\<lambda>arm. if am_matches (up_action u) arm then am_learn (cx_toVector (up_context u)) (up_net u) arm else arm)
      (map (arm_after us) lu_base_actions) = map (arm_after (us @ [u])) lu_base_actions"
    by (simp add: am_matches_after am_learn_after arm_after_other)
  have upd: "update_first (am_matches (up_action u)) (am_learn (cx_toVector (up_context u)) (up_net u))
      (map (arm_after us) lu_base_actions) = map (arm_after (us @ [u])) lu_base_actions"
    by (simp only: uniq step)
  have ex: "(\<exists>arm \<in> set (lu_arms m). am_matches (up_action u) arm) = (\<exists>a \<in> set lu_base_actions. hits a u)"
    by (simp add: arms am_matches_after)
  have last: "foldl lu_apply (lu_new 14 alpha) (us @ [u]) = lu_learn (up_context u) (up_action u) (up_net u) m"
    unfolding m_def by (simp only: foldl_append foldl.simps lu_apply_learn [of _ u])
  show ?case
  proof (cases "\<exists>a \<in> set lu_base_actions. hits a u")
    case True
    then show ?thesis
      using ex unfolding last by (simp add: lu_learn_def arms upd) (simp add: m)
  next
    case False
    then have "map (arm_after (us @ [u])) lu_base_actions = map (arm_after us) lu_base_actions"
      by (auto simp: arm_after_other)
    with False show ?thesis
      using ex unfolding last by (simp add: lu_learn_def) (simp add: m)
  qed
qed

text \<open>C39: The arms hold the statistics of their history. After any updates of either kind, every arm has the ridge matrix
  plus the outer products of the contexts it was updated with, the contexts weighted by the net rewards, and
  their number; an update whose threshold is off by a hundredth or more reaches no arm.
\<close>

theorem lu_statistics_exact:
  "foldl lu_apply (lu_new 14 alpha) us =
     (lu_new 14 alpha)\<lparr>lu_arms := map (arm_after us) lu_base_actions,
                       lu_total_samples := int (length (filter (\<lambda>u. \<exists>a \<in> set lu_base_actions. hits a u) us))\<rparr>"
  by (rule lu_after)

text \<open>The quadratic form of an arm's matrix.\<close>

definition quadratic :: "nat \<Rightarrow> matrix \<Rightarrow> (nat \<Rightarrow> real) \<Rightarrow> real" where
  "quadratic n A z = (\<Sum>i<n. \<Sum>j<n. z i * A i j * z j)"

lemma quadratic_diagonal: "quadratic n (\<lambda>i j. if i = j then c else 0) z = c * (\<Sum>i<n. (z i)\<^sup>2)"
proof -
  have "(\<Sum>j<n. z i * (if i = j then c else 0) * z j) = c * (z i)\<^sup>2" if "i < n" for i
    using that by (simp add: if_distrib [of "\<lambda>t. _ * t * _"] sum.delta power2_eq_square cong: if_cong)
  then show ?thesis by (simp add: quadratic_def sum_distrib_left)
qed

lemma quadratic_outer: "quadratic n (\<lambda>i j. v i * v j) z = (\<Sum>i<n. z i * v i)\<^sup>2"
  by (simp add: quadratic_def power2_eq_square sum_product ac_simps)

lemma quadratic_add: "quadratic n (\<lambda>i j. A i j + B i j) z = quadratic n A z + quadratic n B z"
  by (simp add: quadratic_def algebra_simps sum.distrib)

lemma quadratic_zero: "quadratic n (\<lambda>i j. 0) z = 0"
  by (simp add: quadratic_def)

lemma quadratic_sum: "quadratic n (\<lambda>i j. \<Sum>u \<leftarrow> us. f u i j) z = (\<Sum>u \<leftarrow> us. quadratic n (f u) z)"
  by (induction us) (simp_all add: quadratic_zero quadratic_add)

text \<open>
  The matrices stay positive definite. After any updates the matrix of every arm is symmetric and its quadratic
  form is at least a hundredth of the square of the argument: it is invertible, so the branches for
  singular matrices are never needed.
\<close>

theorem lu_positive_definite:
  "list_all (\<lambda>arm. am_A arm i j = am_A arm j i \<and>
       1 / 100 * (\<Sum>k<14. (z k)\<^sup>2) \<le> quadratic 14 (am_A arm) z)
     (lu_arms (foldl lu_apply (lu_new 14 alpha) us))"
proof -
  have A: "am_A (arm_after us a) =
      (\<lambda>i j. (if i = j then 1 / 100 else 0) + (\<Sum>u \<leftarrow> filter (hits a) us. up_x u i * up_x u j))" for a
    by (simp add: arm_after_def Let_def)
  have "0 \<le> (\<Sum>u \<leftarrow> filter (hits a) us. (\<Sum>i<14. z i * up_x u i)\<^sup>2)" for a
    by (rule sum_list_nonneg) auto
  then have "1 / 100 * (\<Sum>k<14. (z k)\<^sup>2) \<le> quadratic 14 (am_A (arm_after us a)) z" for a
    unfolding A quadratic_add quadratic_diagonal quadratic_sum quadratic_outer by simp
  moreover have "am_A (arm_after us a) i j = am_A (arm_after us a) j i" for a
    by (simp add: A mult.commute)
  moreover have "lu_arms (foldl lu_apply (lu_new 14 alpha) us) = map (arm_after us) lu_base_actions"
    by (simp add: lu_after)
  ultimately show ?thesis by (simp only: list_all_iff) auto
qed


section \<open>The ranking\<close>

text \<open>
  The ranking. \<open>getTopKRankedActions\<close> returns the \<open>k\<close> best arms (all of them when there are fewer, or when \<open>k\<close>
  is negative), best first, each with a confidence between 0 and 1; no arm that is left out scores better
  than one that is returned.
\<close>

theorem lu_ranking_exact:
  "length (lu_getTopKRankedActions eig c k m) =
     (if k < 0 then length (lu_arms m) else min (nat k) (length (lu_arms m))) \<and>
   list_all (\<lambda>r. 0 \<le> brk_confidence r \<and> brk_confidence r \<le> 1) (lu_getTopKRankedActions eig c k m) \<and>
   (\<exists>others.
      mset (lu_getTopKRankedActions eig c k m @ others) =
        mset (map (lu_rank eig (lu_alpha m) (cx_toVector c) (lu_range eig (cx_toVector c) (lu_arms m))) (lu_arms m)) \<and>
      sorted_wrt (\<lambda>a b. brk_score b \<le> brk_score a) (lu_getTopKRankedActions eig c k m @ others))"
proof -
  define ranked where "ranked = std_sort (\<lambda>a b. brk_score b < brk_score a)
    (map (lu_rank eig (lu_alpha m) (cx_toVector c) (lu_range eig (cx_toVector c) (lu_arms m))) (lu_arms m))"
  have top: "lu_getTopKRankedActions eig c k m = (if k < 0 then ranked else take (nat k) ranked)"
    by (simp add: lu_getTopKRankedActions_def ranked_def Let_def)
  have len: "length ranked = length (lu_arms m)" by (simp add: ranked_def)
  have ms: "mset ranked = mset (map (lu_rank eig (lu_alpha m) (cx_toVector c)
      (lu_range eig (cx_toVector c) (lu_arms m))) (lu_arms m))" by (simp add: ranked_def)
  have conf: "0 \<le> brk_confidence r \<and> brk_confidence r \<le> 1" if "r \<in> set ranked" for r
    using that by (auto simp: ranked_def lu_rank_def Let_def split: option.split)
  have sorted: "sorted_wrt (\<lambda>a b. brk_score b \<le> brk_score a) ranked"
    using sorted_std_sort [of "\<lambda>a b. brk_score b < brk_score a"
        "map (lu_rank eig (lu_alpha m) (cx_toVector c) (lu_range eig (cx_toVector c) (lu_arms m))) (lu_arms m)"]
    by (simp add: ranked_def not_less)
  have "\<exists>others. lu_getTopKRankedActions eig c k m @ others = ranked"
    by (cases "k < 0") (auto simp: top intro: exI [of _ "drop (nat k) ranked"])
  then obtain others where o: "lu_getTopKRankedActions eig c k m @ others = ranked" ..
  have "list_all (\<lambda>r. 0 \<le> brk_confidence r \<and> brk_confidence r \<le> 1) (lu_getTopKRankedActions eig c k m)"
    using conf by (auto simp: top list_all_iff dest: in_set_takeD)
  moreover have "length (lu_getTopKRankedActions eig c k m) =
      (if k < 0 then length (lu_arms m) else min (nat k) (length (lu_arms m)))" by (simp add: top len min.commute)
  ultimately show ?thesis using ms sorted by (intro conjI exI [of _ others]) (simp_all only: o)
qed

section \<open>Guardrails and the mixed policy\<close>

definition gm_checkGuardrail :: "ContextFeatures \<Rightarrow> real \<Rightarrow> GuardrailDecision" where
  "gm_checkGuardrail c bandit_confidence =
     (if cx_missing_risk c > 9 / 10 then
        \<lparr>gd_action = bac_of INSPECT, gd_type = GR_HIGH_RISK,
         gd_reason = ''High missing risk ('' @ fixed6 (cx_missing_risk c) @ '' > 0.9)'', gd_triggered = True\<rparr>
      else if cx_in_illegal_location c then
        \<lparr>gd_action = bac_of ALERT, gd_type = GR_ILLEGAL_LOCATION, gd_reason = ''Asset in illegal location'',
         gd_triggered = True\<rparr>
      else if bandit_confidence < 6 / 10 then
        \<lparr>gd_action = bac_of NO_ACTION, gd_type = GR_LOW_CONFIDENCE,
         gd_reason = ''Bandit confidence too low ('' @ fixed6 bandit_confidence @ '' < 0.6)'', gd_triggered = True\<rparr>
      else
        \<lparr>gd_action = bac_of NO_ACTION, gd_type = GR_NONE, gd_reason = ''No guardrail triggered'', gd_triggered = False\<rparr>)"

record MixedDecision =
  md_final_action :: BanditAction
  md_source :: string
  md_reason :: string
  md_top_k_actions :: "BanditRanked list"

definition pm_simulateRuleEngine :: "ContextFeatures \<Rightarrow> BanditAction" where
  "pm_simulateRuleEngine c =
     (if cx_missing_risk c > 7 / 10 then bac_of INSPECT
      else if cx_missing_risk c > 4 / 10 then bac_of ALERT else bac_of NO_ACTION)"

text \<open>\<open>Inl OutOfRange\<close> is the access to the first element of an empty vector.\<close>

definition pm_decide ::
  "(matrix \<Rightarrow> matrix option) \<Rightarrow> ContextFeatures \<Rightarrow> int \<Rightarrow> LinUCB \<Rightarrow> fault + MixedDecision" where
  "pm_decide eig c k m =
     (let top = lu_getTopKRankedActions eig c k m;
          confidence = (if top = [] then 0 else brk_confidence (hd top));
          uncertainty = (if top = [] then 0 else brk_uncertainty (hd top));
          g = gm_checkGuardrail c confidence;
          first = (if top = [] then Inl OutOfRange else Inr (brk_action (hd top)))
      in if gd_triggered g then
           Inr \<lparr>md_final_action = gd_action g, md_source = ''GUARDRAIL'',
                md_reason = gd_typeString (gd_type g) @ '': '' @ gd_reason g, md_top_k_actions = top\<rparr>
         else if uncertainty > 4 / 10 then
           map_sum id (\<lambda>a. \<lparr>md_final_action = a, md_source = ''TOP_K'',
             md_reason = ''High uncertainty ('' @ fixed6 uncertainty @ '' > 0.4), showing Top-K options'',
             md_top_k_actions = top\<rparr>) first
         else if confidence < 6 / 10 then
           Inr \<lparr>md_final_action = pm_simulateRuleEngine c, md_source = ''RULE'',
                md_reason = ''Low confidence ('' @ fixed6 confidence @ '' < 0.6), fallback to rule engine'',
                md_top_k_actions = top\<rparr>
         else
           map_sum id (\<lambda>a. \<lparr>md_final_action = a, md_source = ''BANDIT'',
             md_reason = ''Bandit decision with confidence '' @ fixed6 confidence, md_top_k_actions = top\<rparr>) first)"

lemma pm_decide_total: "\<exists>d. pm_decide eig c k m = Inr d"
  by (cases "lu_getTopKRankedActions eig c k m") (auto simp: pm_decide_def gm_checkGuardrail_def Let_def)

text \<open>
  The mixed policy, case by case. A decision is always made. A missing risk above 0.9 is answered by an
  inspection, also in an illegal location, which otherwise is answered by an alert; otherwise a best arm with
  confidence below 0.6, or no arm at all, means no action; otherwise the best arm is taken. The guardrail has
  claimed every low confidence before the mixer asks for it, so its fallback to the rules is never taken.
\<close>

theorem pm_decide_exact:
  "\<exists>d. pm_decide eig c k m = Inr d \<and> md_source d \<noteq> ''RULE'' \<and>
     md_top_k_actions d = lu_getTopKRankedActions eig c k m \<and>
     md_final_action d =
       (if cx_missing_risk c > 9 / 10 then bac_of INSPECT
        else if cx_in_illegal_location c then bac_of ALERT
        else case md_top_k_actions d of
          [] \<Rightarrow> bac_of NO_ACTION
        | r # rs \<Rightarrow> if brk_confidence r < 6 / 10 then bac_of NO_ACTION else brk_action r)"
  by (cases "lu_getTopKRankedActions eig c k m") (auto simp: pm_decide_def gm_checkGuardrail_def Let_def)

section \<open>The engine\<close>

datatype BanditMode = SHADOW | SUGGESTION | AUTO

record BanditRecord =
  brc_context :: ContextFeatures
  brc_action :: BanditAction
  brc_decision_source :: string
  brc_confidence :: real
  brc_uncertainty :: real
  brc_reward_received :: bool

record BanditDelayed =
  bdl_decision_id :: int
  bdl_reward :: real
  bdl_delay_hours :: int
  bdl_status :: string

record BanditEngine =
  be_algorithm :: LinUCB
  be_mode :: BanditMode
  be_decision_cache :: "(int \<times> BanditRecord) list"
  be_delayed_rewards :: "BanditDelayed list"
  be_total_decisions :: int
  be_shadow_decisions :: int
  be_suggestion_decisions :: int
  be_auto_decisions :: int
  be_high_risk :: int
  be_illegal_location :: int
  be_low_confidence :: int
  be_total_reward :: real
  be_total_confidence :: real
  be_total_uncertainty :: real
  be_model_updates :: int
  be_shadow_matches_rule :: int
  be_shadow_differs_from_rule :: int
  be_shadow_guardrail_triggered :: int

definition be_new :: BanditEngine where
  "be_new = \<lparr>be_algorithm = lu_new 14 1, be_mode = SHADOW, be_decision_cache = [], be_delayed_rewards = [],
     be_total_decisions = 0, be_shadow_decisions = 0, be_suggestion_decisions = 0, be_auto_decisions = 0,
     be_high_risk = 0, be_illegal_location = 0, be_low_confidence = 0, be_total_reward = 0,
     be_total_confidence = 0, be_total_uncertainty = 0, be_model_updates = 0,
     be_shadow_matches_rule = 0, be_shadow_differs_from_rule = 0, be_shadow_guardrail_triggered = 0\<rparr>"

definition be_reset :: "BanditEngine \<Rightarrow> BanditEngine" where
  "be_reset e = be_new\<lparr>be_mode := be_mode e\<rparr>"

definition be_setMode :: "BanditMode \<Rightarrow> BanditEngine \<Rightarrow> BanditEngine" where
  "be_setMode mode e = e\<lparr>be_mode := mode\<rparr>"

definition be_count_mode :: "BanditEngine \<Rightarrow> BanditEngine" where
  "be_count_mode e =
     (case be_mode e of
        SHADOW \<Rightarrow> e\<lparr>be_shadow_decisions := be_shadow_decisions e + 1\<rparr>
      | SUGGESTION \<Rightarrow> e\<lparr>be_suggestion_decisions := be_suggestion_decisions e + 1\<rparr>
      | AUTO \<Rightarrow> e\<lparr>be_auto_decisions := be_auto_decisions e + 1\<rparr>)"

definition be_selectAction ::
  "(matrix \<Rightarrow> matrix option) \<Rightarrow> real \<Rightarrow> nat \<Rightarrow> BanditAction \<Rightarrow> ContextFeatures \<Rightarrow> BanditEngine \<Rightarrow> BanditAction \<times> BanditEngine" where
  "be_selectAction eig u pick junk c e =
     (let e1 = be_count_mode (e\<lparr>be_total_decisions := be_total_decisions e + 1\<rparr>)
      in (lu_selectAction eig u pick junk c (be_algorithm e1), e1))"

text \<open>\<open>reason.find(w) != npos\<close>.\<close>

definition str_contains :: "string \<Rightarrow> string \<Rightarrow> bool" where
  "str_contains w s \<longleftrightarrow> sublist w s"

definition be_count_kind :: "string \<Rightarrow> BanditEngine \<Rightarrow> BanditEngine" where
  "be_count_kind reason e =
     (if str_contains ''HIGH_RISK'' reason then e\<lparr>be_high_risk := be_high_risk e + 1\<rparr>
      else if str_contains ''ILLEGAL_LOCATION'' reason then e\<lparr>be_illegal_location := be_illegal_location e + 1\<rparr>
      else if str_contains ''LOW_CONFIDENCE'' reason then e\<lparr>be_low_confidence := be_low_confidence e + 1\<rparr>
      else e)"

definition be_count_guardrail :: "MixedDecision \<Rightarrow> BanditEngine \<Rightarrow> BanditEngine" where
  "be_count_guardrail d e =
     (if md_source d = ''GUARDRAIL'' then
        let e1 = be_count_kind (md_reason d) e
        in if be_mode e1 = SHADOW
           then e1\<lparr>be_shadow_guardrail_triggered := be_shadow_guardrail_triggered e1 + 1\<rparr> else e1
      else e)"

definition be_decide ::
  "(matrix \<Rightarrow> matrix option) \<Rightarrow> ContextFeatures \<Rightarrow> int \<Rightarrow> BanditEngine \<Rightarrow> (fault + MixedDecision) \<times> BanditEngine" where
  "be_decide eig c k e =
     (let e0 = e\<lparr>be_total_decisions := be_total_decisions e + 1\<rparr> in
      case pm_decide eig c k (be_algorithm e0) of
        Inl f \<Rightarrow> (Inl f, e0)
      | Inr d \<Rightarrow>
          let e1 = be_count_guardrail d e0;
              e2 = (case md_top_k_actions d of
                      [] \<Rightarrow> e1
                    | r # rs \<Rightarrow> e1\<lparr>be_total_confidence := be_total_confidence e1 + brk_confidence r,
                                  be_total_uncertainty := be_total_uncertainty e1 + brk_uncertainty r\<rparr>)
          in (Inr d, be_count_mode e2))"

definition be_recordDecision ::
  "int \<Rightarrow> ContextFeatures \<Rightarrow> BanditAction \<Rightarrow> string \<Rightarrow> real \<Rightarrow> real \<Rightarrow> BanditEngine \<Rightarrow> BanditEngine" where
  "be_recordDecision i c a source confidence uncertainty e =
     e\<lparr>be_decision_cache := AList.update i
         \<lparr>brc_context = c, brc_action = a, brc_decision_source = source, brc_confidence = confidence,
          brc_uncertainty = uncertainty, brc_reward_received = False\<rparr> (be_decision_cache e)\<rparr>"

text \<open>What both kinds of reward do once the model is updated; the eviction is in the order of the map.\<close>

definition be_rewarded :: "int \<Rightarrow> BanditRecord \<Rightarrow> real \<Rightarrow> BanditEngine \<Rightarrow> BanditEngine" where
  "be_rewarded i r reward e =
     (let cache = AList.update i (r\<lparr>brc_reward_received := True\<rparr>) (be_decision_cache e)
      in e\<lparr>be_total_reward := be_total_reward e + reward, be_model_updates := be_model_updates e + 1,
           be_decision_cache := (if length cache > 1000 then drop 500 cache else cache)\<rparr>)"

definition be_updateReward :: "int \<Rightarrow> real \<Rightarrow> BanditEngine \<Rightarrow> BanditEngine" where
  "be_updateReward i reward e =
     (case map_of (be_decision_cache e) i of
        None \<Rightarrow> e
      | Some r \<Rightarrow> be_rewarded i r reward
          (e\<lparr>be_algorithm := lu_update (brc_context r) (brc_action r) reward (be_algorithm e)\<rparr>))"

definition be_updateRewardV33 :: "int \<Rightarrow> real \<Rightarrow> bool \<Rightarrow> real \<Rightarrow> real \<Rightarrow> BanditEngine \<Rightarrow> BanditEngine" where
  "be_updateRewardV33 i reward actually_missing inspect_ratio no_action_ratio e =
     (case map_of (be_decision_cache e) i of
        None \<Rightarrow> e
      | Some r \<Rightarrow> be_rewarded i r reward
          (e\<lparr>be_algorithm := lu_updateV33 (brc_context r) (brc_action r) reward actually_missing
               inspect_ratio no_action_ratio (be_algorithm e)\<rparr>))"

definition be_addDelayedReward :: "int \<Rightarrow> real \<Rightarrow> int \<Rightarrow> BanditEngine \<Rightarrow> BanditEngine" where
  "be_addDelayedReward i reward hours e =
     e\<lparr>be_delayed_rewards := be_delayed_rewards e @
        [\<lparr>bdl_decision_id = i, bdl_reward = reward, bdl_delay_hours = hours, bdl_status = ''pending''\<rparr>]\<rparr>"

text \<open>The loop calls \<open>updateReward\<close>, which locks the mutex the loop holds.\<close>

definition be_processDelayedRewards :: "BanditEngine \<Rightarrow> fault + BanditEngine" where
  "be_processDelayedRewards e = (if be_delayed_rewards e = [] then Inr e else Inl SelfDeadlock)"

record BanditStatistics =
  bs_total_decisions :: int
  bs_shadow_decisions :: int
  bs_suggestion_decisions :: int
  bs_auto_decisions :: int
  bs_high_risk :: int
  bs_illegal_location :: int
  bs_low_confidence :: int
  bs_avg_reward :: real
  bs_avg_confidence :: real
  bs_avg_uncertainty :: real
  bs_model_updates :: int

definition be_getStatistics :: "BanditEngine \<Rightarrow> BanditStatistics" where
  "be_getStatistics e =
     \<lparr>bs_total_decisions = be_total_decisions e, bs_shadow_decisions = be_shadow_decisions e,
      bs_suggestion_decisions = be_suggestion_decisions e, bs_auto_decisions = be_auto_decisions e,
      bs_high_risk = be_high_risk e, bs_illegal_location = be_illegal_location e,
      bs_low_confidence = be_low_confidence e,
      bs_avg_reward = (if be_model_updates e > 0 then be_total_reward e / of_int (be_model_updates e) else 0),
      bs_avg_confidence = (if be_total_decisions e > 0 then be_total_confidence e / of_int (be_total_decisions e) else 0),
      bs_avg_uncertainty = (if be_total_decisions e > 0 then be_total_uncertainty e / of_int (be_total_decisions e) else 0),
      bs_model_updates = be_model_updates e\<rparr>"

definition be_getShadowStats :: "BanditEngine \<Rightarrow> int \<times> int \<times> int" where
  "be_getShadowStats e = (be_shadow_matches_rule e, be_shadow_differs_from_rule e, be_shadow_guardrail_triggered e)"

section \<open>Histories of the engine\<close>

datatype BanditCall =
    SelectAction real nat BanditAction ContextFeatures
  | Decide ContextFeatures int
  | RecordDecision int ContextFeatures BanditAction string real real
  | Reward int real
  | RewardV33 int real bool real real
  | DelayReward int real int
  | SetMode BanditMode

fun be_call :: "(matrix \<Rightarrow> matrix option) \<Rightarrow> BanditEngine \<Rightarrow> BanditCall \<Rightarrow> BanditEngine" where
  "be_call eig e (SelectAction u pick junk c) = snd (be_selectAction eig u pick junk c e)"
| "be_call eig e (Decide c k) = snd (be_decide eig c k e)"
| "be_call eig e (RecordDecision i c a s cf un) = be_recordDecision i c a s cf un e"
| "be_call eig e (Reward i r) = be_updateReward i r e"
| "be_call eig e (RewardV33 i r mis ir nr) = be_updateRewardV33 i r mis ir nr e"
| "be_call eig e (DelayReward i r h) = be_addDelayedReward i r h e"
| "be_call eig e (SetMode md) = be_setMode md e"

text \<open>A guardrail decision counts for its kind, whatever the numbers in its reason.\<close>

lemma fixed6_chars: "c \<in> set (fixed6 x) \<Longrightarrow> is_digit_char c \<or> c = CHR ''.'' \<or> c = CHR ''-''"
  by (auto simp: fixed6_def is_digit_digits_of six_digits_digit)

lemma fixed6_no_letters: "CHR ''H'' \<notin> set (fixed6 x)" "CHR ''T'' \<notin> set (fixed6 x)"
  using fixed6_chars [of "CHR ''H''" x] fixed6_chars [of "CHR ''T''" x] by (auto simp: is_digit_char_def)

lemma not_contains: "c \<in> set w \<Longrightarrow> c \<notin> set s \<Longrightarrow> \<not> str_contains w s"
  by (auto simp: str_contains_def dest: set_mono_sublist)

lemma contains_prefix: "str_contains w (w @ s)"
  by (simp add: str_contains_def)

definition guardrail_reason :: "GuardrailDecision \<Rightarrow> string" where
  "guardrail_reason g = gd_typeString (gd_type g) @ '': '' @ gd_reason g"

lemma reason_kinds:
  assumes "gd_triggered g" "g = gm_checkGuardrail c cf"
  shows "str_contains ''HIGH_RISK'' (guardrail_reason g) \<longleftrightarrow> gd_type g = GR_HIGH_RISK"
    "gd_type g \<noteq> GR_HIGH_RISK \<Longrightarrow>
       str_contains ''ILLEGAL_LOCATION'' (guardrail_reason g) \<longleftrightarrow> gd_type g = GR_ILLEGAL_LOCATION"
    "gd_type g = GR_LOW_CONFIDENCE \<Longrightarrow> str_contains ''LOW_CONFIDENCE'' (guardrail_reason g)"
proof -
  have h: "str_contains ''HIGH_RISK'' (''HIGH_RISK_GUARDRAIL'' @ s)"
    "str_contains ''ILLEGAL_LOCATION'' (''ILLEGAL_LOCATION_GUARDRAIL'' @ s)"
    "str_contains ''LOW_CONFIDENCE'' (''LOW_CONFIDENCE_GUARDRAIL'' @ s)" for s
    using contains_prefix [of "''HIGH_RISK''" "''_GUARDRAIL'' @ s"]
      contains_prefix [of "''ILLEGAL_LOCATION''" "''_GUARDRAIL'' @ s"]
      contains_prefix [of "''LOW_CONFIDENCE''" "''_GUARDRAIL'' @ s"] by simp_all
  have il: "\<not> str_contains ''HIGH_RISK'' (''ILLEGAL_LOCATION_GUARDRAIL'' @ '': '' @ ''Asset in illegal location'')"
    by (rule not_contains [of "CHR ''H''"]) auto
  have lo: "\<not> str_contains ''HIGH_RISK''
      (''LOW_CONFIDENCE_GUARDRAIL'' @ '': '' @ ''Bandit confidence too low ('' @ fixed6 cf @ '' < 0.6)'')"
    by (rule not_contains [of "CHR ''H''"]) (auto simp: fixed6_no_letters)
  have lo': "\<not> str_contains ''ILLEGAL_LOCATION''
      (''LOW_CONFIDENCE_GUARDRAIL'' @ '': '' @ ''Bandit confidence too low ('' @ fixed6 cf @ '' < 0.6)'')"
    by (rule not_contains [of "CHR ''T''"]) (auto simp: fixed6_no_letters)
  show "str_contains ''HIGH_RISK'' (guardrail_reason g) \<longleftrightarrow> gd_type g = GR_HIGH_RISK"
    using assms h il lo unfolding guardrail_reason_def gm_checkGuardrail_def
    by (auto simp del: append.simps append_assoc split: if_splits)
  show "gd_type g \<noteq> GR_HIGH_RISK \<Longrightarrow>
       str_contains ''ILLEGAL_LOCATION'' (guardrail_reason g) \<longleftrightarrow> gd_type g = GR_ILLEGAL_LOCATION"
    using assms h lo' unfolding guardrail_reason_def gm_checkGuardrail_def
    by (auto simp del: append.simps append_assoc split: if_splits)
  show "gd_type g = GR_LOW_CONFIDENCE \<Longrightarrow> str_contains ''LOW_CONFIDENCE'' (guardrail_reason g)"
    using assms h unfolding guardrail_reason_def gm_checkGuardrail_def
    by (auto simp del: append.simps append_assoc split: if_splits)
qed

text \<open>The counters that belong together.\<close>

definition be_counts :: "BanditEngine \<Rightarrow> bool" where
  "be_counts e \<longleftrightarrow>
     be_total_decisions e = be_shadow_decisions e + be_suggestion_decisions e + be_auto_decisions e \<and>
     0 \<le> be_shadow_guardrail_triggered e \<and>
     be_shadow_guardrail_triggered e \<le> be_high_risk e + be_illegal_location e + be_low_confidence e \<and>
     be_high_risk e + be_illegal_location e + be_low_confidence e \<le> be_total_decisions e \<and>
     be_shadow_matches_rule e = 0 \<and> be_shadow_differs_from_rule e = 0"

definition be_trained :: "BanditEngine \<Rightarrow> BanditUpdate list \<Rightarrow> bool" where
  "be_trained e us \<longleftrightarrow>
     be_algorithm e = foldl lu_apply (lu_new 14 1) us \<and> be_model_updates e = int (length us)"

lemma be_count_mode_counts:
  "be_counts (be_count_mode e) \<longleftrightarrow>
     be_counts (e\<lparr>be_shadow_decisions := be_shadow_decisions e + 1\<rparr>)"
  by (cases "be_mode e") (auto simp: be_count_mode_def be_counts_def)

lemma be_counts_confidence [simp]:
  "be_counts (be_count_mode (e\<lparr>be_total_confidence := tc, be_total_uncertainty := tu\<rparr>)) = be_counts (be_count_mode e)"
  unfolding be_count_mode_counts by (simp add: be_counts_def)

lemma gm_triggered_iff: "gd_triggered (gm_checkGuardrail c cf) \<longleftrightarrow> gd_type (gm_checkGuardrail c cf) \<noteq> GR_NONE"
  by (simp add: gm_checkGuardrail_def)

lemma be_count_mode_trained [simp]: "be_trained (be_count_mode e) us = be_trained e us"
  by (cases "be_mode e") (simp_all add: be_count_mode_def be_trained_def)

text \<open>How many decisions the guardrails made, by what they are counted as.\<close>

lemma be_count_guardrail_exact:
  assumes "pm_decide eig c k m = Inr d"
  shows "be_count_guardrail d e =
    (let g = gm_checkGuardrail c (case md_top_k_actions d of [] \<Rightarrow> 0 | r # rs \<Rightarrow> brk_confidence r);
         e1 = (case gd_type g of
                 GR_NONE \<Rightarrow> e
               | GR_HIGH_RISK \<Rightarrow> e\<lparr>be_high_risk := be_high_risk e + 1\<rparr>
               | GR_ILLEGAL_LOCATION \<Rightarrow> e\<lparr>be_illegal_location := be_illegal_location e + 1\<rparr>
               | GR_LOW_CONFIDENCE \<Rightarrow> e\<lparr>be_low_confidence := be_low_confidence e + 1\<rparr>)
     in if gd_triggered g \<and> be_mode e = SHADOW
        then e1\<lparr>be_shadow_guardrail_triggered := be_shadow_guardrail_triggered e1 + 1\<rparr> else e1)"
proof -
  define top where "top = lu_getTopKRankedActions eig c k m"
  define cf where "cf = (if top = [] then 0 else brk_confidence (hd top))"
  define g where "g = gm_checkGuardrail c cf"
  note dec = assms [unfolded pm_decide_def Let_def, folded top_def, folded cf_def, folded g_def]
  have d: "md_top_k_actions d = top \<and> (md_source d = ''GUARDRAIL'' \<longleftrightarrow> gd_triggered g) \<and>
      (gd_triggered g \<longrightarrow> md_reason d = guardrail_reason g)"
  proof (cases "gd_triggered g")
    case True
    then have "d = \<lparr>md_final_action = gd_action g, md_source = ''GUARDRAIL'', md_reason = guardrail_reason g,
        md_top_k_actions = top\<rparr>" using dec by (simp add: guardrail_reason_def)
    with True show ?thesis by simp
  next
    case False
    from False dec show ?thesis by (auto split: if_splits)
  qed
  have cf: "(case md_top_k_actions d of [] \<Rightarrow> 0 | r # rs \<Rightarrow> brk_confidence r) = cf"
    by (cases top) (simp_all add: d [THEN conjunct1] cf_def)
  have kind: "gd_triggered g \<longleftrightarrow> gd_type g \<noteq> GR_NONE"
    by (simp add: g_def gm_checkGuardrail_def)
  show ?thesis
  proof (cases "gd_triggered g")
    case False
    with kind have "gd_type g = GR_NONE" by simp
    moreover have "md_source d \<noteq> ''GUARDRAIL''" using d False by blast
    ultimately show ?thesis
      unfolding cf g_def [symmetric] Let_def be_count_guardrail_def using False by simp
  next
    case True
    have src: "md_source d = ''GUARDRAIL''" and reason: "md_reason d = guardrail_reason g" using d True by blast+
    have hr: "str_contains ''HIGH_RISK'' (md_reason d) = (gd_type g = GR_HIGH_RISK)"
      unfolding reason by (rule reason_kinds(1) [OF True g_def])
    have il: "str_contains ''ILLEGAL_LOCATION'' (md_reason d) = (gd_type g = GR_ILLEGAL_LOCATION)"
      if "gd_type g \<noteq> GR_HIGH_RISK"
      unfolding reason by (rule reason_kinds(2) [OF True g_def that])
    have lo: "str_contains ''LOW_CONFIDENCE'' (md_reason d)" if "gd_type g = GR_LOW_CONFIDENCE"
      unfolding reason by (rule reason_kinds(3) [OF True g_def that])
    have none: "gd_type g \<noteq> GR_NONE" using kind True by simp
    have kinds: "be_count_kind (md_reason d) e = (case gd_type g of
                 GR_NONE \<Rightarrow> e
               | GR_HIGH_RISK \<Rightarrow> e\<lparr>be_high_risk := be_high_risk e + 1\<rparr>
               | GR_ILLEGAL_LOCATION \<Rightarrow> e\<lparr>be_illegal_location := be_illegal_location e + 1\<rparr>
               | GR_LOW_CONFIDENCE \<Rightarrow> e\<lparr>be_low_confidence := be_low_confidence e + 1\<rparr>)"
      unfolding be_count_kind_def hr
      by (cases "gd_type g")
        (simp_all only: none il lo if_True if_False GuardrailType.distinct GuardrailType.case simp_thms)
    have mode: "be_mode (case gd_type g of
                 GR_NONE \<Rightarrow> e
               | GR_HIGH_RISK \<Rightarrow> e\<lparr>be_high_risk := be_high_risk e + 1\<rparr>
               | GR_ILLEGAL_LOCATION \<Rightarrow> e\<lparr>be_illegal_location := be_illegal_location e + 1\<rparr>
               | GR_LOW_CONFIDENCE \<Rightarrow> e\<lparr>be_low_confidence := be_low_confidence e + 1\<rparr>) = be_mode e"
      by (cases "gd_type g") simp_all
    show ?thesis
      unfolding be_count_guardrail_def if_P [OF src] cf g_def [symmetric] Let_def kinds mode
      by (simp only: True simp_thms)
  qed
qed

lemma be_count_guardrail_counts:
  assumes "pm_decide eig c k m = Inr d" "be_counts e"
  shows "be_counts (be_count_mode (be_count_guardrail d (e\<lparr>be_total_decisions := be_total_decisions e + 1\<rparr>)))"
  unfolding be_count_mode_counts be_count_guardrail_exact [OF assms(1)] Let_def
  using assms(2) by (cases "gd_type (gm_checkGuardrail c (case md_top_k_actions d of [] \<Rightarrow> 0 | r # rs \<Rightarrow> brk_confidence r))")
    (auto simp: be_counts_def gm_triggered_iff)

lemma be_count_guardrail_trained [simp]: "be_trained (be_count_guardrail d e) us = be_trained e us"
  by (simp add: be_count_guardrail_def be_count_kind_def be_trained_def Let_def)

lemma be_rewarded_counts [simp]: "be_counts (be_rewarded i r x e) = be_counts e"
  by (simp add: be_rewarded_def be_counts_def Let_def)

lemma be_rewarded_trained:
  "be_trained e us \<Longrightarrow>
   be_trained (be_rewarded i r x (e\<lparr>be_algorithm := lu_apply (be_algorithm e) u\<rparr>)) (us @ [u])"
  by (simp add: be_rewarded_def be_trained_def Let_def)

lemma be_call_counts: "be_counts e \<Longrightarrow> be_counts (be_call eig e call)"
proof (induction call)
  case (Decide c k)
  obtain d where d: "pm_decide eig c k (be_algorithm e) = Inr d"
    using pm_decide_total by blast
  show ?case
    using be_count_guardrail_counts [OF d Decide]
    by (simp add: be_decide_def d Let_def split: list.split)
next
  case (SelectAction u pick junk c)
  then show ?case by (simp add: be_selectAction_def Let_def be_count_mode_counts, simp add: be_counts_def)
next
  case (Reward i r)
  have "be_counts (e\<lparr>be_algorithm := m\<rparr>) = be_counts e" for m by (simp add: be_counts_def)
  with Reward show ?case by (simp add: be_updateReward_def split: option.split)
next
  case (RewardV33 i r mis ir nr)
  have "be_counts (e\<lparr>be_algorithm := m\<rparr>) = be_counts e" for m by (simp add: be_counts_def)
  with RewardV33 show ?case by (simp add: be_updateRewardV33_def split: option.split)
qed (simp_all add: be_recordDecision_def be_addDelayedReward_def be_setMode_def be_counts_def)

lemma be_call_trained: "be_trained e us \<Longrightarrow> \<exists>vs. be_trained (be_call eig e call) (us @ vs)"
proof (induction call)
  case (Decide c k)
  obtain d where d: "pm_decide eig c k (be_algorithm e) = Inr d" using pm_decide_total by blast
  have up: "be_trained (x\<lparr>be_total_confidence := tc, be_total_uncertainty := tu\<rparr>) us = be_trained x us"
    "be_trained (x\<lparr>be_total_decisions := n\<rparr>) us = be_trained x us" for x tc tu n
    by (simp_all add: be_trained_def)
  show ?case using Decide
    by (intro exI [of _ "[]"]) (simp add: be_decide_def d Let_def up split: list.split)
next
  case (SelectAction u pick junk c)
  have up: "be_trained (x\<lparr>be_total_decisions := n\<rparr>) us = be_trained x us" for x n by (simp add: be_trained_def)
  show ?case using SelectAction by (intro exI [of _ "[]"]) (simp add: be_selectAction_def Let_def up)
next
  case (Reward i r)
  show ?case
  proof (cases "map_of (be_decision_cache e) i")
    case (Some rec)
    have "lu_update (brc_context rec) (brc_action rec) r (be_algorithm e) =
        lu_apply (be_algorithm e) (V32 (brc_context rec) (brc_action rec) r)" by simp
    then have "be_trained (be_call eig e (Reward i r)) (us @ [V32 (brc_context rec) (brc_action rec) r])"
      using be_rewarded_trained [OF Reward, of i rec r "V32 (brc_context rec) (brc_action rec) r"]
      by (simp add: be_updateReward_def Some)
    then show ?thesis by blast
  qed (use Reward in \<open>auto simp: be_updateReward_def intro: exI [of _ "[]"]\<close>)
next
  case (RewardV33 i r mis ir nr)
  show ?case
  proof (cases "map_of (be_decision_cache e) i")
    case (Some rec)
    then have "be_trained (be_call eig e (RewardV33 i r mis ir nr))
        (us @ [V33 (brc_context rec) (brc_action rec) r mis ir nr])"
      using be_rewarded_trained [OF RewardV33, of i rec r "V33 (brc_context rec) (brc_action rec) r mis ir nr"]
      by (simp add: be_updateRewardV33_def)
    then show ?thesis by blast
  qed (use RewardV33 in \<open>auto simp: be_updateRewardV33_def intro: exI [of _ "[]"]\<close>)
qed (auto simp: be_recordDecision_def be_addDelayedReward_def be_setMode_def be_trained_def intro!: exI [of _ "[]"])

text \<open>
  The engine over any history. Whatever is called on a fresh engine, in any order: the decisions of the three
  modes add up to all of them, every guardrail decision is counted under one kind and never more of them than
  decisions, the two counters of agreement with the rules stay zero, and the model is the one of some updates,
  as many as are counted.
\<close>

theorem be_engine_invariant:
  "be_counts (foldl (be_call eig) be_new calls) \<and>
   (\<exists>us. be_trained (foldl (be_call eig) be_new calls) us)"
proof (induction calls rule: rev_induct)
  case Nil
  have "be_trained be_new []" by (simp add: be_trained_def be_new_def)
  then show ?case by (auto simp: be_counts_def be_new_def)
next
  case (snoc call calls)
  then show ?case using be_call_counts be_call_trained by (fastforce simp only: foldl_append foldl.simps)
qed

text \<open>
  Delayed rewards. Once a reward was put off, processing the queue locks a mutex the thread already holds,
  after whatever other calls: no delayed reward ever reaches the model.
\<close>

theorem be_delayed_never_applied:
  "be_processDelayedRewards (foldl (be_call eig) (be_addDelayedReward i r hours e) calls) = Inl SelfDeadlock"
proof -
  have "be_delayed_rewards (be_call eig x call) \<noteq> []" if "be_delayed_rewards x \<noteq> []" for x call
    using that
  proof (induction call)
    case (Decide c k)
    have cm: "be_delayed_rewards (be_count_mode y) = be_delayed_rewards y" for y
      by (simp add: be_count_mode_def split: BanditMode.split)
    have cg: "be_delayed_rewards (be_count_guardrail d y) = be_delayed_rewards y" for d y
      by (simp add: be_count_guardrail_def be_count_kind_def Let_def)
    show ?case using Decide by (simp add: be_decide_def Let_def cm cg split: sum.split list.split)
  qed (simp_all add: be_selectAction_def be_count_mode_def be_recordDecision_def be_updateReward_def be_rewarded_def
      be_updateRewardV33_def be_addDelayedReward_def be_setMode_def Let_def split: option.split BanditMode.split)
  then have "be_delayed_rewards (foldl (be_call eig) x calls) \<noteq> []" if "be_delayed_rewards x \<noteq> []" for x
    using that by (induction calls arbitrary: x) auto
  then show ?thesis by (simp add: be_processDelayedRewards_def be_addDelayedReward_def)
qed


text \<open>
  Rewards that come too late. Once more than a thousand decisions are cached, the next reward drops the first
  five hundred of them, rewarded or not: a reward for one of those is ignored from then on.
\<close>

theorem be_eviction_loses:
  assumes "distinct (map fst (be_decision_cache e))" "length (be_decision_cache e) > 1000"
    and "i \<in> set (map fst (be_decision_cache e))" "j \<in> set (take 500 (map fst (be_decision_cache e)))"
  shows "length (be_decision_cache (be_updateReward i r e)) = length (be_decision_cache e) - 500 \<and>
    be_updateReward j r' (be_updateReward i r e) = be_updateReward i r e"
proof -
  obtain rec where rec: "map_of (be_decision_cache e) i = Some rec"
    using assms(3) by (metis map_of_eq_None_iff option.exhaust set_map)
  define cache where "cache = AList.update i (rec\<lparr>brc_reward_received := True\<rparr>) (be_decision_cache e)"
  have keys: "map fst cache = map fst (be_decision_cache e)"
    using assms(3) by (simp add: cache_def AList.update_keys)
  then have len: "length cache = length (be_decision_cache e)" by (metis length_map)
  have after: "be_decision_cache (be_updateReward i r e) = drop 500 cache"
    using assms(2) by (simp add: be_updateReward_def rec be_rewarded_def cache_def [symmetric] Let_def len)
  have "distinct (take 500 (map fst cache) @ drop 500 (map fst cache))"
    using assms(1) by (simp only: append_take_drop_id keys)
  then have "j \<notin> set (drop 500 (map fst cache))"
    using assms(4) unfolding keys distinct_append by blast
  then have "j \<notin> fst ` set (drop 500 cache)" by (metis drop_map set_map)
  then have "map_of (drop 500 cache) j = None" by (simp add: map_of_eq_None_iff)
  then show ?thesis using after len by (simp add: be_updateReward_def [of j])
qed

definition calm :: ContextFeatures where
  "calm = \<lparr>cx_missing_risk = 0, cx_inactivity_risk = 0, cx_abnormal_risk = 0, cx_daily_avg_scans = 0,
     cx_weekly_avg_scans = 0, cx_move_count_24h = 0, cx_hours_since_last_seen = 0, cx_in_illegal_location = False,
     cx_is_backup = False, cx_asset_type = 0, cx_last_seen_variance = 0, cx_location_stability = 0,
     cx_historical_missing_rate = 0\<rparr>"

definition full_cache :: "(int \<times> BanditRecord) list" where
  "full_cache = map (\<lambda>n. (int n, \<lparr>brc_context = calm, brc_action = bac_of INSPECT, brc_decision_source = ''BANDIT'',
     brc_confidence = 1, brc_uncertainty = 0, brc_reward_received = False\<rparr>)) [0 ..< 1001]"

lemma be_eviction_loses_witness:
  "length (be_decision_cache (be_updateReward 1000 1 (be_new\<lparr>be_decision_cache := full_cache\<rparr>))) = 501 \<and>
   be_updateReward 3 1 (be_updateReward 1000 1 (be_new\<lparr>be_decision_cache := full_cache\<rparr>)) =
     be_updateReward 1000 1 (be_new\<lparr>be_decision_cache := full_cache\<rparr>)"
proof -
  have keys: "map fst full_cache = map int [0 ..< 1001]" by (simp add: full_cache_def comp_def del: upt_Suc)
  have len: "length full_cache = 1001" by (simp add: full_cache_def del: upt_Suc)
  have "distinct (map fst full_cache)" unfolding keys by (simp add: distinct_map del: upt_Suc)
  moreover have "1000 \<in> set (map fst full_cache)"
    unfolding keys set_map set_upt by (rule image_eqI [of _ _ 1000]) auto
  moreover have "3 \<in> set (take 500 (map fst full_cache))"
    unfolding keys take_map set_map take_upt by (rule image_eqI [of _ _ 3]) auto
  ultimately show ?thesis
    using be_eviction_loses [of "be_new\<lparr>be_decision_cache := full_cache\<rparr>" 1000 3 1 1]
    by (simp add: len)
qed

end
