(* ===== verification/Delayed_Reward.thy ===== *)
theory Delayed_Reward
  imports Bandit
begin

text \<open>
  \<open>server/tuning/bandit/delayed_reward_handler.\{h,cpp\}\<close>: the worker that applies rewards when their time has
  come, next to the threads that add, cancel and correct them. The mutex makes each step of the worker between
  two of its unlocks atomic; in between, and while it waits or applies a reward, any call of the others may run.
  The wait without a bound and the one with a time are states of the worker. The comparison of an iterator with
  the map itself is read as the one with its end.
\<close>

section \<open>The handler\<close>

record PendingReward =
  pr_reward :: real
  pr_trigger_time :: int
  pr_status :: string

datatype Worker =
    Looking                        \<comment> \<open>at the head of the loop\<close>
  | Waiting "int option"           \<comment> \<open>in one of the waits, with the time it is bounded by\<close>
  | Processing "int list"          \<comment> \<open>in the loop over what is due\<close>
  | Applying int PendingReward "int list"
  | Erasing int "int list"

text \<open>\<open>dh_applied\<close> is what reached the engine: the decision, the entry and the time.\<close>

record DelayedRewardHandler =
  dh_pending :: "(int \<times> PendingReward) list"
  dh_worker :: Worker
  dh_clock :: int
  dh_applied :: "(int \<times> PendingReward \<times> int) list"

definition dh_new :: "int \<Rightarrow> DelayedRewardHandler" where
  "dh_new now = \<lparr>dh_pending = [], dh_worker = Looking, dh_clock = now, dh_applied = []\<rparr>"

definition HOUR :: int where
  "HOUR = 3600"

definition dh_addDelayedReward :: "int \<Rightarrow> real \<Rightarrow> int \<Rightarrow> DelayedRewardHandler \<Rightarrow> DelayedRewardHandler" where
  "dh_addDelayedReward i reward hours h =
     h\<lparr>dh_pending := AList.update i
         \<lparr>pr_reward = reward, pr_trigger_time = dh_clock h + hours * HOUR, pr_status = ''pending''\<rparr> (dh_pending h)\<rparr>"

definition dh_cancelReward :: "int \<Rightarrow> DelayedRewardHandler \<Rightarrow> DelayedRewardHandler" where
  "dh_cancelReward i h = h\<lparr>dh_pending := AList.delete i (dh_pending h)\<rparr>"

definition dh_updateReward :: "int \<Rightarrow> real \<Rightarrow> DelayedRewardHandler \<Rightarrow> DelayedRewardHandler" where
  "dh_updateReward i reward h =
     (case map_of (dh_pending h) i of
        None \<Rightarrow> h
      | Some p \<Rightarrow> h\<lparr>dh_pending := AList.update i (p\<lparr>pr_reward := reward\<rparr>) (dh_pending h)\<rparr>)"

definition dh_getPendingCount :: "DelayedRewardHandler \<Rightarrow> nat" where
  "dh_getPendingCount h = length (dh_pending h)"

definition pr_due :: "int \<Rightarrow> PendingReward \<Rightarrow> bool" where
  "pr_due now p \<longleftrightarrow> pr_status p = ''pending'' \<and> pr_trigger_time p \<le> now"

definition dh_earliest :: "(int \<times> PendingReward) list \<Rightarrow> int option" where
  "dh_earliest ps =
     foldl (\<lambda>t p. if pr_status (snd p) = ''pending'' \<and> (case t of None \<Rightarrow> True | Some u \<Rightarrow> pr_trigger_time (snd p) < u)
                  then Some (pr_trigger_time (snd p)) else t) None ps"

text \<open>The worker: where it stands and what it does next, \<open>None\<close> while it has to wait.\<close>

fun dh_work :: "Worker \<Rightarrow> DelayedRewardHandler \<Rightarrow> DelayedRewardHandler option" where
  "dh_work Looking h = Some (h\<lparr>dh_worker := Waiting (dh_earliest (dh_pending h))\<rparr>)"
| "dh_work (Waiting t) h =
     (if (case t of Some u \<Rightarrow> u \<le> dh_clock h | None \<Rightarrow> dh_pending h \<noteq> [])
      then Some (h\<lparr>dh_worker := Processing (map fst (filter (\<lambda>p. pr_due (dh_clock h) (snd p)) (dh_pending h)))\<rparr>)
      else None)"
| "dh_work (Processing []) h = Some (h\<lparr>dh_worker := Looking\<rparr>)"
| "dh_work (Processing (i # is)) h =
     (case map_of (dh_pending h) i of
        Some p \<Rightarrow>
          if pr_status p = ''pending''
          then Some (h\<lparr>dh_pending := AList.update i (p\<lparr>pr_status := ''processed''\<rparr>) (dh_pending h),
                       dh_worker := Applying i p is\<rparr>)
          else Some (h\<lparr>dh_worker := Processing is\<rparr>)
      | None \<Rightarrow> Some (h\<lparr>dh_worker := Processing is\<rparr>))"
| "dh_work (Applying i p is) h =
     Some (h\<lparr>dh_applied := dh_applied h @ [(i, p, dh_clock h)], dh_worker := Erasing i is\<rparr>)"
| "dh_work (Erasing i is) h = Some (h\<lparr>dh_pending := AList.delete i (dh_pending h), dh_worker := Processing is\<rparr>)"

datatype HandlerEvent =
    Add int real int
  | Cancel int
  | Correct int real
  | Work
  | Tick int

text \<open>One event; a clock does not run backwards, and a worker that has to wait does nothing.\<close>

fun dh_event :: "DelayedRewardHandler \<Rightarrow> HandlerEvent \<Rightarrow> DelayedRewardHandler" where
  "dh_event h (Add i r n) = dh_addDelayedReward i r n h"
| "dh_event h (Cancel i) = dh_cancelReward i h"
| "dh_event h (Correct i r) = dh_updateReward i r h"
| "dh_event h Work = (case dh_work (dh_worker h) h of Some h' \<Rightarrow> h' | None \<Rightarrow> h)"
| "dh_event h (Tick t) = h\<lparr>dh_clock := max (dh_clock h) t\<rparr>"

definition dh_run :: "int \<Rightarrow> HandlerEvent list \<Rightarrow> DelayedRewardHandler" where
  "dh_run now es = foldl dh_event (dh_new now) es"

lemma dh_run_Nil [simp]: "dh_run now [] = dh_new now"
  by (simp add: dh_run_def)

lemma dh_run_snoc [simp]: "dh_run now (es @ [e]) = dh_event (dh_run now es) e"
  by (simp add: dh_run_def)

section \<open>At most once\<close>

fun adds :: "int \<Rightarrow> HandlerEvent \<Rightarrow> bool" where
  "adds i (Add j r n) = (i = j)"
| "adds i _ = False"

definition added :: "int \<Rightarrow> HandlerEvent list \<Rightarrow> nat" where
  "added i es = length (filter (adds i) es)"

definition times_applied :: "int \<Rightarrow> DelayedRewardHandler \<Rightarrow> nat" where
  "times_applied i h = length (filter (\<lambda>a. fst a = i) (dh_applied h))"

definition waits :: "int \<Rightarrow> DelayedRewardHandler \<Rightarrow> bool" where
  "waits i h \<longleftrightarrow> (\<exists>p. map_of (dh_pending h) i = Some p \<and> pr_status p = ''pending'')"

definition in_hand :: "int \<Rightarrow> DelayedRewardHandler \<Rightarrow> bool" where
  "in_hand i h \<longleftrightarrow> (case dh_worker h of Applying j p is \<Rightarrow> i = j | _ \<Rightarrow> False)"

definition spent :: "int \<Rightarrow> DelayedRewardHandler \<Rightarrow> nat" where
  "spent i h = times_applied i h + of_bool (in_hand i h) + of_bool (waits i h)"

lemma spent_event: "spent i (dh_event h e) \<le> spent i h + of_bool (adds i e)"
proof (cases e)
  case (Add j r n)
  then show ?thesis
    by (simp add: spent_def dh_addDelayedReward_def times_applied_def in_hand_def waits_def update_conv')
next
  case (Cancel j)
  then show ?thesis
    by (simp add: spent_def dh_cancelReward_def times_applied_def in_hand_def waits_def delete_conv')
next
  case (Correct j r)
  then show ?thesis
    by (auto simp: spent_def dh_updateReward_def times_applied_def in_hand_def waits_def update_conv' split: option.split)
next
  case (Tick t)
  then show ?thesis by (simp add: spent_def times_applied_def in_hand_def waits_def)
next
  case Work
  show ?thesis
  proof (cases "dh_worker h")
    case (Processing js)
    show ?thesis
    proof (cases js)
      case Nil
      then show ?thesis using Processing
        by (simp add: Work spent_def times_applied_def in_hand_def waits_def)
    next
      case (Cons j ks)
      consider (gone) "map_of (dh_pending h) j = None"
        | (pending) p where "map_of (dh_pending h) j = Some p" "pr_status p = ''pending''"
        | (other) p where "map_of (dh_pending h) j = Some p" "pr_status p \<noteq> ''pending''" by fastforce
      then show ?thesis
        by cases (use Processing Cons in \<open>simp_all add: Work spent_def times_applied_def in_hand_def waits_def update_conv'\<close>)
    qed
  qed (simp_all add: Work spent_def times_applied_def in_hand_def waits_def delete_conv' split: option.split)
qed

lemma spent_added: "spent i (dh_run now es) \<le> added i es"
proof (induction es rule: rev_induct)
  case Nil
  then show ?case by (simp add: spent_def dh_new_def times_applied_def in_hand_def waits_def)
next
  case (snoc e es)
  then show ?case using spent_event [of i "dh_run now es" e] by (cases "adds i e") (simp_all add: added_def)
qed

text \<open>
  At most once. Under any interleaving of the worker with calls that add, cancel and correct rewards, the
  rewards applied for a decision, the one in the worker's hands and the one that still waits are together no
  more than were added.
\<close>

theorem dh_at_most_once:
  "times_applied i (dh_run now es) + of_bool (in_hand i (dh_run now es)) + of_bool (waits i (dh_run now es)) \<le> added i es"
  using spent_added [of i now es] by (simp add: spent_def)


section \<open>On time\<close>

fun dh_queue :: "Worker \<Rightarrow> int list" where
  "dh_queue (Processing is) = is"
| "dh_queue (Applying i p is) = is"
| "dh_queue (Erasing i is) = is"
| "dh_queue _ = []"

definition dh_timely :: "(int \<Rightarrow> bool) \<Rightarrow> DelayedRewardHandler \<Rightarrow> bool" where
  "dh_timely known h \<longleftrightarrow>
     (\<forall>j \<in> set (dh_queue (dh_worker h)). known j \<and>
        (\<forall>p. map_of (dh_pending h) j = Some p \<longrightarrow> pr_trigger_time p \<le> dh_clock h)) \<and>
     (\<forall>j p. map_of (dh_pending h) j = Some p \<longrightarrow> known j) \<and>
     (\<forall>i p is. dh_worker h = Applying i p is \<longrightarrow> pr_trigger_time p \<le> dh_clock h) \<and>
     (\<forall>a \<in> set (dh_applied h). pr_trigger_time (fst (snd a)) \<le> snd (snd a))"

lemma dh_timely_mono: "dh_timely known h \<Longrightarrow> (\<And>j. known j \<Longrightarrow> known' j) \<Longrightarrow> dh_timely known' h"
  unfolding dh_timely_def by blast

lemma dh_timely_add:
  "dh_timely known h \<Longrightarrow> \<not> known i \<Longrightarrow> dh_timely (\<lambda>j. known j \<or> j = i) (dh_addDelayedReward i r n h)"
  by (fastforce simp: dh_timely_def dh_addDelayedReward_def update_conv' split: if_splits)

lemma dh_timely_cancel: "dh_timely known h \<Longrightarrow> dh_timely known (dh_cancelReward i h)"
  by (fastforce simp: dh_timely_def dh_cancelReward_def delete_conv' split: if_splits)

lemma dh_timely_correct: "dh_timely known h \<Longrightarrow> dh_timely known (dh_updateReward i r h)"
  by (cases "map_of (dh_pending h) i")
    (fastforce simp: dh_timely_def dh_updateReward_def update_conv' split: if_splits)+

lemma dh_timely_tick: "dh_timely known h \<Longrightarrow> dh_timely known (h\<lparr>dh_clock := max (dh_clock h) t\<rparr>)"
  by (fastforce simp: dh_timely_def)

lemma dh_event_distinct:
  "distinct (map fst (dh_pending h)) \<Longrightarrow> distinct (map fst (dh_pending (dh_event h e)))"
proof (cases e)
  case Work
  moreover assume "distinct (map fst (dh_pending h))"
  ultimately show ?thesis
  proof (cases "dh_worker h")
    case (Processing js)
    then show ?thesis using \<open>distinct (map fst (dh_pending h))\<close> Work
      by (cases js) (simp_all add: distinct_update split: option.split)
  qed (simp_all add: distinct_delete)
qed (simp_all add: dh_addDelayedReward_def dh_cancelReward_def dh_updateReward_def distinct_update distinct_delete
      split: option.split)

lemma dh_run_distinct: "distinct (map fst (dh_pending (dh_run now es)))"
  by (induction es rule: rev_induct) (simp_all add: dh_event_distinct dh_new_def del: dh_event.simps)

lemma dh_timely_work:
  assumes "dh_timely known h" "distinct (map fst (dh_pending h))"
  shows "dh_timely known (dh_event h Work)"
proof (cases "dh_worker h")
  case (Waiting t)
  have "known j \<and> (\<forall>p. map_of (dh_pending h) j = Some p \<longrightarrow> pr_trigger_time p \<le> dh_clock h)"
    if j: "j \<in> set (map fst (filter (\<lambda>p. pr_due (dh_clock h) (snd p)) (dh_pending h)))" for j
  proof -
    obtain p where "(j, p) \<in> set (dh_pending h)" "pr_due (dh_clock h) p" using j by auto
    then have "map_of (dh_pending h) j = Some p" "pr_trigger_time p \<le> dh_clock h"
      using assms(2) by (simp_all add: pr_due_def)
    then show ?thesis using assms(1) by (auto simp: dh_timely_def)
  qed
  then show ?thesis using assms(1) Waiting by (simp add: dh_timely_def split: option.split)
next
  case (Processing js)
  show ?thesis
  proof (cases js)
    case Nil
    then show ?thesis using Processing assms by (simp add: dh_timely_def)
  next
    case (Cons j ks)
    have work: "dh_event h Work = (case map_of (dh_pending h) j of
        Some p \<Rightarrow> if pr_status p = ''pending''
                  then h\<lparr>dh_pending := AList.update j (p\<lparr>pr_status := ''processed''\<rparr>) (dh_pending h),
                         dh_worker := Applying j p ks\<rparr>
                  else h\<lparr>dh_worker := Processing ks\<rparr>
      | None \<Rightarrow> h\<lparr>dh_worker := Processing ks\<rparr>)"
      using Processing Cons by (simp split: option.split)
    consider (idle) "dh_event h Work = h\<lparr>dh_worker := Processing ks\<rparr>"
      | (taken) p where "map_of (dh_pending h) j = Some p"
          "dh_event h Work = h\<lparr>dh_pending := AList.update j (p\<lparr>pr_status := ''processed''\<rparr>) (dh_pending h),
                               dh_worker := Applying j p ks\<rparr>"
      by (cases "map_of (dh_pending h) j"; cases "pr_status (the (map_of (dh_pending h) j)) = ''pending''")
        (simp_all add: work del: dh_event.simps)
    then show ?thesis
    proof cases
      case idle
      show ?thesis using Processing Cons assms(1) unfolding idle by (simp add: dh_timely_def)
    next
      case (taken p)
      show ?thesis using taken(1) Processing Cons assms(1) unfolding taken(2)
        by (simp add: dh_timely_def update_conv')
    qed
  qed
next
  case (Erasing i js)
  then show ?thesis using assms(1) by (simp add: dh_timely_def delete_conv')
qed (use assms(1) in \<open>auto simp: dh_timely_def\<close>)

definition adds_once :: "HandlerEvent list \<Rightarrow> bool" where
  "adds_once es \<longleftrightarrow> (\<forall>i. added i es \<le> 1)"

lemma dh_run_timely:
  "adds_once es \<Longrightarrow> dh_timely (\<lambda>i. added i es > 0) (dh_run now es)"
proof (induction es rule: rev_induct)
  case Nil
  then show ?case by (simp add: dh_timely_def dh_new_def)
next
  case (snoc e es)
  have le: "added i es \<le> added i (es @ [e])" for i by (simp add: added_def)
  have "added i es \<le> 1" for i using le_trans [OF le spec [OF snoc.prems [unfolded adds_once_def]]] .
  then have "adds_once es" by (simp add: adds_once_def)
  with snoc.IH have h: "dh_timely (\<lambda>i. added i es > 0) (dh_run now es)" .
  have grow: "dh_timely (\<lambda>i. added i es > 0) x \<Longrightarrow> dh_timely (\<lambda>i. added i (es @ [e]) > 0) x" for x
    by (erule dh_timely_mono) (rule less_le_trans [OF _ le])
  show ?case
  proof (cases e)
    case (Add i r n)
    have "added i (es @ [e]) \<le> 1" using snoc.prems by (simp add: adds_once_def)
    then have "\<not> added i es > 0" using Add by (simp add: added_def)
    from dh_timely_add [OF h this, of r n] show ?thesis
      unfolding dh_run_snoc Add by (auto simp: added_def elim!: dh_timely_mono)
  next
    case Work
    show ?thesis using grow [OF dh_timely_work [OF h dh_run_distinct]] unfolding dh_run_snoc Work .
  qed (use grow h in \<open>auto intro: dh_timely_cancel dh_timely_correct dh_timely_tick\<close>)
qed

text \<open>
  On time. As long as no decision gets a second delayed reward, a reward is applied no earlier than its time,
  however the calls and the worker interleave.
\<close>

theorem dh_on_time:
  assumes "adds_once es"
  shows "list_all (\<lambda>a. pr_trigger_time (fst (snd a)) \<le> snd (snd a)) (dh_applied (dh_run now es))"
  using dh_run_timely [OF assms, of now] by (simp add: dh_timely_def list_all_iff)

lemma dh_on_time_witness:
  "dh_applied (dh_run 0 [Add 7 1 1, Work, Tick 4000, Work, Correct 7 2, Work, Work, Work]) =
     [(7, \<lparr>pr_reward = 2, pr_trigger_time = 3600, pr_status = ''pending''\<rparr>, 4000)] \<and>
   list_all (\<lambda>a. pr_trigger_time (fst (snd a)) \<le> snd (snd a))
     (dh_applied (dh_run 0 [Add 7 1 1, Work, Tick 4000, Work, Correct 7 2, Work, Work, Work]))"
proof
  show "dh_applied (dh_run 0 [Add 7 1 1, Work, Tick 4000, Work, Correct 7 2, Work, Work, Work]) =
      [(7, \<lparr>pr_reward = 2, pr_trigger_time = 3600, pr_status = ''pending''\<rparr>, 4000)]"
    by (simp add: dh_run_def dh_new_def dh_addDelayedReward_def dh_updateReward_def dh_earliest_def HOUR_def pr_due_def)
  have "adds_once [Add 7 1 1, Work, Tick 4000, Work, Correct 7 2, Work, Work, Work]"
    by (simp add: adds_once_def added_def)
  then show "list_all (\<lambda>a. pr_trigger_time (fst (snd a)) \<le> snd (snd a))
      (dh_applied (dh_run 0 [Add 7 1 1, Work, Tick 4000, Work, Correct 7 2, Work, Work, Work]))"
    by (rule dh_on_time)
qed

section \<open>Two races\<close>

text \<open>
  Races of the worker with a second reward. A reward that replaces the one being applied is erased with it: it
  was never cancelled, is not applied and no longer waits. And a reward that replaces one already chosen as due
  is applied at once, a day before its time.
\<close>

theorem dh_replacement_races:
  "(let h = dh_run 0 [Add 7 1 0, Work, Work, Work, Add 7 2 24, Work, Work, Work] in
      dh_pending h = [] \<and> dh_worker h = Looking \<and> map (\<lambda>a. pr_reward (fst (snd a))) (dh_applied h) = [1]) \<and>
   (let h = dh_run 0 [Add 7 1 0, Work, Work, Add 7 2 24, Work, Work] in
      map (\<lambda>a. (pr_reward (fst (snd a)), pr_trigger_time (fst (snd a)), snd (snd a))) (dh_applied h) = [(2, 86400, 0)])"
  by (simp add: dh_run_def dh_new_def dh_addDelayedReward_def dh_earliest_def HOUR_def pr_due_def Let_def)

end
