(* ===== verification/Decision_Agent.thy ===== *)
theory Decision_Agent
  imports Bandit Asset_Service
begin

text \<open>
  The decision agent of version 3.3: \<open>server/decision_agent\<close> (guardrail, policy mixer, agent), the rewards of
  \<open>server/reward/reward_engine\<close> and the feedback of \<open>server/feedback/feedback_collector\<close>. The agent has the
  actions of the bandit under names of its own; here they share the datatype.
\<close>

section \<open>Guardrail, mixer and agent\<close>

record AgentRisk =
  ark_missing_risk :: real
  ark_inactivity_risk :: real
  ark_abnormal_risk :: real

record AgentRanked =
  agk_action :: BanditActionType
  agk_score :: real
  agk_uncertainty :: real
  agk_confidence :: real

datatype GuardrailTrigger =
  TR_NONE | TR_HIGH_RISK_MISSING | TR_HIGH_RISK_INACTIVITY | TR_ILLEGAL_LOCATION | TR_HIGH_UNCERTAINTY | TR_LOW_CONFIDENCE

record AgentDecision =
  agd_final_action :: BanditActionType
  agd_candidates :: "AgentRanked list"
  agd_reason :: string
  agd_confidence :: real
  agd_trigger :: GuardrailTrigger
  agd_is_shadow_mode :: bool

definition gr_shouldForceInspect :: "AgentRisk \<Rightarrow> bool" where
  "gr_shouldForceInspect risk \<longleftrightarrow> ark_missing_risk risk > 9 / 10 \<or> ark_inactivity_risk risk > 9 / 10"

definition gr_shouldForceAlert :: "bool \<Rightarrow> bool" where
  "gr_shouldForceAlert in_illegal_location = in_illegal_location"

definition gr_checkTrigger :: "AgentRisk \<Rightarrow> bool \<Rightarrow> GuardrailTrigger" where
  "gr_checkTrigger risk in_illegal_location =
     (if in_illegal_location then TR_ILLEGAL_LOCATION
      else if ark_missing_risk risk > 9 / 10 then TR_HIGH_RISK_MISSING
      else if ark_inactivity_risk risk > 9 / 10 then TR_HIGH_RISK_INACTIVITY
      else TR_NONE)"

fun gr_getReason :: "GuardrailTrigger \<Rightarrow> string" where
  "gr_getReason TR_ILLEGAL_LOCATION = ''ILLEGAL_LOCATION_GUARDRAIL''"
| "gr_getReason TR_HIGH_RISK_MISSING = ''HIGH_RISK_MISSING_GUARDRAIL''"
| "gr_getReason TR_HIGH_RISK_INACTIVITY = ''HIGH_RISK_INACTIVITY_GUARDRAIL''"
| "gr_getReason TR_HIGH_UNCERTAINTY = ''HIGH_UNCERTAINTY_FALLBACK''"
| "gr_getReason TR_LOW_CONFIDENCE = ''LOW_CONFIDENCE_SHOW_TOPK''"
| "gr_getReason TR_NONE = ''Triggered by Guardrail''"

definition mx_makeGuardrailDecision :: "GuardrailTrigger \<Rightarrow> bool \<Rightarrow> AgentDecision" where
  "mx_makeGuardrailDecision trigger shadow =
     (let (action, confidence) =
        (case trigger of
           TR_ILLEGAL_LOCATION \<Rightarrow> (ALERT, 1)
         | TR_HIGH_RISK_MISSING \<Rightarrow> (INSPECT, 1)
         | TR_HIGH_RISK_INACTIVITY \<Rightarrow> (INSPECT, 1)
         | _ \<Rightarrow> (NO_ACTION, 0))
      in \<lparr>agd_final_action = action, agd_candidates = [], agd_reason = gr_getReason trigger,
          agd_confidence = confidence, agd_trigger = trigger, agd_is_shadow_mode = shadow\<rparr>)"

definition mx_makeBanditDecision :: "AgentRanked list \<Rightarrow> bool \<Rightarrow> AgentDecision" where
  "mx_makeBanditDecision actions shadow =
     \<lparr>agd_final_action = agk_action (hd actions), agd_candidates = actions, agd_reason = ''BANDIT_DECISION'',
      agd_confidence = agk_confidence (hd actions), agd_trigger = TR_NONE, agd_is_shadow_mode = shadow\<rparr>"

definition mx_makeUncertaintyFallback :: "AgentRanked list \<Rightarrow> bool \<Rightarrow> AgentDecision" where
  "mx_makeUncertaintyFallback actions shadow =
     \<lparr>agd_final_action = INSPECT, agd_candidates = actions, agd_reason = gr_getReason TR_HIGH_UNCERTAINTY,
      agd_confidence = 5 / 10, agd_trigger = TR_HIGH_UNCERTAINTY, agd_is_shadow_mode = shadow\<rparr>"

definition mx_makeLowConfidenceDecision :: "AgentRanked list \<Rightarrow> bool \<Rightarrow> AgentDecision" where
  "mx_makeLowConfidenceDecision actions shadow =
     \<lparr>agd_final_action = (case actions of [] \<Rightarrow> NO_ACTION | a # as \<Rightarrow> agk_action a), agd_candidates = actions,
      agd_reason = gr_getReason TR_LOW_CONFIDENCE,
      agd_confidence = (case actions of [] \<Rightarrow> 0 | a # as \<Rightarrow> agk_confidence a),
      agd_trigger = TR_LOW_CONFIDENCE, agd_is_shadow_mode = shadow\<rparr>"

definition mx_decide :: "AgentRisk \<Rightarrow> bool \<Rightarrow> AgentRanked list \<Rightarrow> bool \<Rightarrow> AgentDecision" where
  "mx_decide risk in_illegal_location actions shadow =
     (let trigger = gr_checkTrigger risk in_illegal_location in
      if trigger \<noteq> TR_NONE then mx_makeGuardrailDecision trigger shadow
      else if actions = [] then
        \<lparr>agd_final_action = NO_ACTION, agd_candidates = [], agd_reason = ''NO_BANDIT_ACTIONS'', agd_confidence = 0,
         agd_trigger = TR_NONE, agd_is_shadow_mode = shadow\<rparr>
      else if agk_uncertainty (hd actions) > 4 / 10 then mx_makeUncertaintyFallback actions shadow
      else if agk_confidence (hd actions) < 6 / 10 then mx_makeLowConfidenceDecision actions shadow
      else mx_makeBanditDecision actions shadow)"

text \<open>The agent; its shadow mode is on from the start.\<close>

record DecisionAgent =
  da_shadow_mode_enabled :: bool

definition da_new :: DecisionAgent where
  "da_new = \<lparr>da_shadow_mode_enabled = True\<rparr>"

definition da_setShadowMode :: "bool \<Rightarrow> DecisionAgent \<Rightarrow> DecisionAgent" where
  "da_setShadowMode enable a = a\<lparr>da_shadow_mode_enabled := enable\<rparr>"

definition da_makeDecision :: "AgentRisk \<Rightarrow> bool \<Rightarrow> AgentRanked list \<Rightarrow> bool \<Rightarrow> DecisionAgent \<Rightarrow> AgentDecision" where
  "da_makeDecision risk illegal_location actions shadow a =
     mx_decide risk illegal_location actions (shadow \<or> da_shadow_mode_enabled a)"

text \<open>
  The agent's decisions, case by case: an illegal location is an alert, a missing or inactivity risk above 0.9 an
  inspection, both of full confidence and without the candidates; then nothing to choose from is no action,
  an uncertain best candidate an inspection, and any other best candidate is taken, with a low confidence only
  marked as such. The decision is in shadow mode exactly when the call or the agent asks for it.
\<close>

theorem da_decision_exact:
  "agd_is_shadow_mode (da_makeDecision risk illegal actions shadow a) = (shadow \<or> da_shadow_mode_enabled a) \<and>
   agd_final_action (da_makeDecision risk illegal actions shadow a) =
     (if illegal then ALERT
      else if gr_shouldForceInspect risk then INSPECT
      else case actions of
        [] \<Rightarrow> NO_ACTION
      | b # bs \<Rightarrow> if agk_uncertainty b > 4 / 10 then INSPECT else agk_action b) \<and>
   agd_candidates (da_makeDecision risk illegal actions shadow a) =
     (if illegal \<or> gr_shouldForceInspect risk then [] else actions) \<and>
   (agd_trigger (da_makeDecision risk illegal actions shadow a) = TR_LOW_CONFIDENCE \<longleftrightarrow>
      \<not> illegal \<and> \<not> gr_shouldForceInspect risk \<and> actions \<noteq> [] \<and>
      agk_uncertainty (hd actions) \<le> 4 / 10 \<and> agk_confidence (hd actions) < 6 / 10)"
  by (cases actions)
    (simp_all add: da_makeDecision_def mx_decide_def gr_checkTrigger_def gr_shouldForceInspect_def Let_def
      mx_makeGuardrailDecision_def mx_makeUncertaintyFallback_def mx_makeLowConfidenceDecision_def
      mx_makeBanditDecision_def not_less)

text \<open>What the agent is given when it is fed from the ranking of the bandit.\<close>

definition agk_of :: "BanditRanked \<Rightarrow> AgentRanked" where
  "agk_of r = \<lparr>agk_action = bac_type (brk_action r), agk_score = brk_score r, agk_uncertainty = brk_uncertainty r,
     agk_confidence = brk_confidence r\<rparr>"

definition ark_of :: "ContextFeatures \<Rightarrow> AgentRisk" where
  "ark_of c = \<lparr>ark_missing_risk = cx_missing_risk c, ark_inactivity_risk = cx_inactivity_risk c,
     ark_abnormal_risk = cx_abnormal_risk c\<rparr>"

lemma pm_action:
  "pm_decide eig c k m = Inr d \<Longrightarrow> md_final_action d =
     (if cx_missing_risk c > 9 / 10 then bac_of INSPECT
      else if cx_in_illegal_location c then bac_of ALERT
      else case lu_getTopKRankedActions eig c k m of
        [] \<Rightarrow> bac_of NO_ACTION
      | r # rs \<Rightarrow> if brk_confidence r < 6 / 10 then bac_of NO_ACTION else brk_action r)"
  by (cases "lu_getTopKRankedActions eig c k m")
    (auto simp: pm_decide_def gm_checkGuardrail_def Let_def split: if_splits)

text \<open>
  Two policies on the same input. On the same context and ranking the mixer of the bandit and the agent decide
  the same, except: a missing risk above 0.9 in an illegal location is an inspection for one and an alert for
  the other; the inactivity risk forces an inspection only in the agent; and a best candidate that is uncertain
  or of low confidence makes the agent inspect or take it, the mixer take it or do nothing.
\<close>

theorem policies_compared:
  assumes "pm_decide eig c k m = Inr d" and "lu_getTopKRankedActions eig c k m = r # rs"
  shows "bac_type (md_final_action d) =
      agd_final_action (da_makeDecision (ark_of c) (cx_in_illegal_location c) (map agk_of (r # rs)) shadow a) \<longleftrightarrow>
    (if cx_in_illegal_location c then cx_missing_risk c \<le> 9 / 10
     else if cx_missing_risk c > 9 / 10 then True
     else if cx_inactivity_risk c > 9 / 10 \<or> brk_uncertainty r > 4 / 10
          then brk_confidence r \<ge> 6 / 10 \<and> bac_type (brk_action r) = INSPECT
     else brk_confidence r \<ge> 6 / 10 \<or> bac_type (brk_action r) = NO_ACTION)"
  using pm_action [OF assms(1)] assms(2)
  by (auto simp: da_makeDecision_def mx_decide_def gr_checkTrigger_def Let_def mx_makeGuardrailDecision_def
      mx_makeUncertaintyFallback_def mx_makeLowConfidenceDecision_def mx_makeBanditDecision_def
      ark_of_def agk_of_def bac_of_def)


lemma policies_compared_witness:
  "\<exists>d. pm_decide (\<lambda>_. None) calm 2 (lu_new 14 1) = Inr d \<and>
     bac_type (md_final_action d) \<noteq> agd_final_action (da_makeDecision (ark_of calm) False
       (map agk_of (lu_getTopKRankedActions (\<lambda>_. None) calm 2 (lu_new 14 1))) False da_new)"
proof -
  have top: "lu_getTopKRankedActions (\<lambda>_. None) calm 2 (lu_new 14 1) =
      [\<lparr>brk_action = bac_of NO_ACTION, brk_score = 0, brk_uncertainty = 1, brk_confidence = 0\<rparr>,
       \<lparr>brk_action = bac_of INSPECT, brk_score = 0, brk_uncertainty = 1, brk_confidence = 0\<rparr>]"
    by (simp add: lu_getTopKRankedActions_def lu_new_def lu_base_actions_def lu_rank_def am_exploit_def am_new_def
        std_sort_def Let_def numeral_2_eq_2)
  obtain d where d: "pm_decide (\<lambda>_. None) calm 2 (lu_new 14 1) = Inr d" using pm_decide_total by blast
  have calm: "\<not> cx_in_illegal_location calm" "cx_missing_risk calm = 0" "cx_inactivity_risk calm = 0"
    by (simp_all add: calm_def)
  from policies_compared [OF d top, of False da_new] d show ?thesis
    unfolding top by (intro exI [of _ d]) (simp add: calm)
qed

section \<open>Rewards\<close>

record DecisionOutcome =
  do_decision_id :: int
  do_actual_missing :: bool
  do_actual_issue :: bool
  do_verified_after_hours :: int
  do_timestamp :: int

record RewardResult =
  rw_reward :: real
  rw_true_positive :: real
  rw_false_positive :: real
  rw_false_negative :: real
  rw_true_negative :: real
  rw_reward_type :: string

definition rw_none :: RewardResult where
  "rw_none = \<lparr>rw_reward = 0, rw_true_positive = 0, rw_false_positive = 0, rw_false_negative = 0, rw_true_negative = 0,
     rw_reward_type = ''NONE''\<rparr>"

definition rw_computeDetailedReward :: "DecisionOutcome \<Rightarrow> string \<Rightarrow> RewardResult" where
  "rw_computeDetailedReward outcome action =
     (if action = ''NO_ACTION'' \<and> do_actual_missing outcome then
        rw_none\<lparr>rw_reward := - 1, rw_false_negative := 1, rw_reward_type := ''FALSE_NEGATIVE''\<rparr>
      else if action = ''NO_ACTION'' \<and> \<not> do_actual_missing outcome \<and> \<not> do_actual_issue outcome then
        rw_none\<lparr>rw_reward := 1 / 10, rw_true_negative := 1, rw_reward_type := ''TRUE_NEGATIVE''\<rparr>
      else if action = ''INSPECT'' \<and> do_actual_issue outcome then
        rw_none\<lparr>rw_reward := 8 / 10, rw_true_positive := 1, rw_reward_type := ''TRUE_POSITIVE''\<rparr>
      else if action = ''INSPECT'' \<and> \<not> do_actual_issue outcome then
        rw_none\<lparr>rw_reward := - (2 / 10), rw_false_positive := 1, rw_reward_type := ''FALSE_POSITIVE''\<rparr>
      else if action = ''ALERT'' \<and> do_actual_issue outcome then
        rw_none\<lparr>rw_reward := 8 / 10 * (12 / 10), rw_true_positive := 1, rw_reward_type := ''TRUE_POSITIVE_ALERT''\<rparr>
      else rw_none)"

definition rw_computeReward :: "DecisionOutcome \<Rightarrow> string \<Rightarrow> real" where
  "rw_computeReward outcome action = rw_reward (rw_computeDetailedReward outcome action)"

text \<open>
  Rewards. The best action for an outcome with an issue is the alert, for one without issue and without loss it
  is no action; and with no issue found a needless alert costs nothing, less than the needless inspection, and no
  action on an issue that is not a loss costs nothing either.
\<close>

theorem rw_rewards_exact:
  "rw_computeReward outcome (bac_typeString t) =
     (case t of
        NO_ACTION \<Rightarrow> if do_actual_missing outcome then - 1 else if do_actual_issue outcome then 0 else 1 / 10
      | INSPECT \<Rightarrow> if do_actual_issue outcome then 8 / 10 else - (2 / 10)
      | ALERT \<Rightarrow> if do_actual_issue outcome then 96 / 100 else 0
      | REALLOCATE \<Rightarrow> 0) \<and>
   rw_true_positive (rw_computeDetailedReward outcome act) + rw_false_positive (rw_computeDetailedReward outcome act) +
     rw_false_negative (rw_computeDetailedReward outcome act) + rw_true_negative (rw_computeDetailedReward outcome act) =
     of_bool (rw_reward_type (rw_computeDetailedReward outcome act) \<noteq> ''NONE'')"
  by (cases t) (simp_all add: rw_computeReward_def rw_computeDetailedReward_def rw_none_def)

section \<open>Feedback\<close>

record AgentFeedback =
  afb_decision_id :: int
  afb_user_id :: string
  afb_selected_action :: string
  afb_was_top1 :: bool
  afb_response_time_ms :: int
  afb_confidence_shown :: real
  afb_executed :: bool
  afb_ignored :: bool
  afb_timestamp :: int

text \<open>The collector with the pool and the table it writes to.\<close>

record FeedbackCollector =
  fbc_pending :: "AgentFeedback list"
  fbc_pool :: DBPool
  fbc_table :: "AgentFeedback list"

text \<open>The connection is not given back, and a failure is only logged.\<close>

definition fbc_persistToDatabase :: "DBEnv \<Rightarrow> AgentFeedback \<Rightarrow> FeedbackCollector \<Rightarrow> FeedbackCollector" where
  "fbc_persistToDatabase env fb s =
     (case db_acquire env (fbc_pool s) of
        (Inl e, p1) \<Rightarrow> s\<lparr>fbc_pool := p1\<rparr>
      | (Inr c, p1) \<Rightarrow> s\<lparr>fbc_pool := p1, fbc_table := fbc_table s @ [fb]\<rparr>)"

definition fbc_record :: "DBEnv \<Rightarrow> AgentFeedback \<Rightarrow> FeedbackCollector \<Rightarrow> FeedbackCollector" where
  "fbc_record env fb s =
     (let s1 = s\<lparr>fbc_pending := fbc_pending s @ [fb]\<rparr> in
      if length (fbc_pending s1) \<ge> 100
      then (fold (fbc_persistToDatabase env) (fbc_pending s1) s1)\<lparr>fbc_pending := []\<rparr>
      else s1)"

definition fbc_recordHumanFeedback ::
  "DBEnv \<Rightarrow> int \<Rightarrow> int \<Rightarrow> string \<Rightarrow> string \<Rightarrow> bool \<Rightarrow> int \<Rightarrow> real \<Rightarrow> FeedbackCollector \<Rightarrow> FeedbackCollector" where
  "fbc_recordHumanFeedback env now decision_id user_id selected_action was_top1 response_time_ms confidence_shown =
     fbc_record env \<lparr>afb_decision_id = decision_id, afb_user_id = user_id, afb_selected_action = selected_action,
       afb_was_top1 = was_top1, afb_response_time_ms = response_time_ms, afb_confidence_shown = confidence_shown,
       afb_executed = False, afb_ignored = False, afb_timestamp = now\<rparr>"

definition fbc_getPendingCount :: "FeedbackCollector \<Rightarrow> nat" where
  "fbc_getPendingCount s = length (fbc_pending s)"

definition fbc_new :: "DBPool \<Rightarrow> FeedbackCollector" where
  "fbc_new p = \<lparr>fbc_pending = [], fbc_pool = p, fbc_table = []\<rparr>"

lemma fbc_persist_one:
  "pool_ready env (fbc_pool s) \<Longrightarrow> fbc_persistToDatabase env fb s =
     (case db_availableConnections (fbc_pool s) of
        [] \<Rightarrow> s
      | c # cs \<Rightarrow> s\<lparr>fbc_pool := (fbc_pool s)\<lparr>db_availableConnections := cs, db_inUseCount := db_inUseCount (fbc_pool s) + 1\<rparr>,
                    fbc_table := fbc_table s @ [fb]\<rparr>)"
  by (simp add: fbc_persistToDatabase_def ready_acquire split: list.split)

lemma fbc_persist_all:
  "pool_ready env (fbc_pool s) \<Longrightarrow>
   fold (fbc_persistToDatabase env) fbs s =
     s\<lparr>fbc_table := fbc_table s @ take (length (db_availableConnections (fbc_pool s))) fbs,
       fbc_pool := (fbc_pool s)\<lparr>db_availableConnections := drop (length fbs) (db_availableConnections (fbc_pool s)),
          db_inUseCount := db_inUseCount (fbc_pool s) +
            min (length fbs) (length (db_availableConnections (fbc_pool s)))\<rparr>\<rparr>"
proof (induction fbs arbitrary: s)
  case (Cons fb fbs)
  show ?case
  proof (cases "db_availableConnections (fbc_pool s)")
    case Nil
    then show ?thesis using Cons by (simp add: fbc_persist_one)
  next
    case (Cons c cs)
    then show ?thesis using Cons.prems
      by (simp add: Cons.IH fbc_persist_one)
  qed
qed simp

text \<open>The state after some feedback: only whole batches of a hundred are written, and only over free connections.\<close>

definition fbc_after :: "DBPool \<Rightarrow> AgentFeedback list \<Rightarrow> FeedbackCollector" where
  "fbc_after p fbs =
     (let flushed = 100 * (length fbs div 100); n = length (db_availableConnections p) in
      \<lparr>fbc_pending = drop flushed fbs,
       fbc_pool = p\<lparr>db_availableConnections := drop flushed (db_availableConnections p),
                    db_inUseCount := db_inUseCount p + min flushed n\<rparr>,
       fbc_table = take (min flushed n) fbs\<rparr>)"

lemma fbc_record_after:
  assumes "pool_ready env p"
  shows "fbc_record env fb (fbc_after p fbs) = fbc_after p (fbs @ [fb])"
proof -
  define flushed where "flushed = 100 * (length fbs div 100)"
  define n where "n = length (db_availableConnections p)"
  have le: "flushed \<le> length fbs" and pend: "length fbs - flushed = length fbs mod 100"
    by (simp_all add: flushed_def minus_mult_div_eq_mod)
  have after: "fbc_after p fbs =
      \<lparr>fbc_pending = drop flushed fbs,
       fbc_pool = p\<lparr>db_availableConnections := drop flushed (db_availableConnections p),
                    db_inUseCount := db_inUseCount p + min flushed n\<rparr>,
       fbc_table = take (min flushed n) fbs\<rparr>"
    by (simp add: fbc_after_def Let_def flushed_def n_def)
  show ?thesis
  proof (cases "length fbs mod 100 = 99")
    case False
    then have "length fbs mod 100 < 99" using mod_less_divisor [of 100 "length fbs"] by linarith
    then have "100 * (Suc (length fbs) div 100) = flushed" using False unfolding flushed_def by (simp add: div_Suc mod_Suc)
    then have goal: "fbc_after p (fbs @ [fb]) =
        \<lparr>fbc_pending = drop flushed fbs @ [fb],
         fbc_pool = p\<lparr>db_availableConnections := drop flushed (db_availableConnections p),
                      db_inUseCount := db_inUseCount p + min flushed n\<rparr>,
         fbc_table = take (min flushed n) fbs\<rparr>"
      using le by (simp add: fbc_after_def n_def Let_def)
    have "length (drop flushed fbs @ [fb]) < 100" using \<open>length fbs mod 100 < 99\<close> pend by simp
    then show ?thesis unfolding goal fbc_record_def after Let_def by simp
  next
    case True
    have nxt: "100 * (Suc (length fbs) div 100) = flushed + 100"
      using True unfolding flushed_def by (simp add: div_Suc mod_Suc)
    have len: "Suc (length fbs) = flushed + 100" using True le pend by simp
    have ready: "pool_ready env (p\<lparr>db_availableConnections := xs, db_inUseCount := k\<rparr>)" for xs k
      using assms by simp
    have table: "take (min flushed n) fbs @ take (n - flushed) (drop flushed fbs @ [fb]) =
        take (min (flushed + 100) n) (fbs @ [fb])"
    proof (cases "n \<le> flushed")
      case True
      then show ?thesis using le by simp
    next
      case False
      then have "take n (fbs @ [fb]) = take flushed (fbs @ [fb]) @ take (n - flushed) (drop flushed (fbs @ [fb]))"
        by (metis le_add_diff_inverse linorder_le_cases take_add)
      then show ?thesis using False le len by (simp add: min_def)
    qed
    have count: "min flushed n + min 100 (n - flushed) = min (flushed + 100) n" by linarith
    have goal: "fbc_after p (fbs @ [fb]) =
        \<lparr>fbc_pending = [],
         fbc_pool = p\<lparr>db_availableConnections := drop (flushed + 100) (db_availableConnections p),
                      db_inUseCount := db_inUseCount p + min (flushed + 100) n\<rparr>,
         fbc_table = take (min (flushed + 100) n) (fbs @ [fb])\<rparr>"
      unfolding fbc_after_def length_append_singleton nxt Let_def n_def using len by simp
    define batch where "batch = drop flushed fbs @ [fb]"
    define s1 where "s1 =
        \<lparr>fbc_pending = batch,
         fbc_pool = p\<lparr>db_availableConnections := drop flushed (db_availableConnections p),
                      db_inUseCount := db_inUseCount p + min flushed n\<rparr>,
         fbc_table = take (min flushed n) fbs\<rparr>"
    have len_batch: "length batch = 100" using True pend by (simp add: batch_def)
    have rec: "fbc_record env fb (fbc_after p fbs) = (fold (fbc_persistToDatabase env) batch s1)\<lparr>fbc_pending := []\<rparr>"
      using True pend by (simp add: fbc_record_def after Let_def s1_def batch_def)
    have r1: "pool_ready env (fbc_pool s1)" using ready by (simp add: s1_def)
    have flush: "fold (fbc_persistToDatabase env) batch s1 =
        s1\<lparr>fbc_table := take (min flushed n) fbs @ take (n - flushed) batch,
           fbc_pool := p\<lparr>db_availableConnections := drop (flushed + 100) (db_availableConnections p),
                        db_inUseCount := db_inUseCount p + (min flushed n + min 100 (n - flushed))\<rparr>\<rparr>"
      unfolding fbc_persist_all [OF r1] by (simp add: s1_def len_batch n_def add.commute add.left_commute)
    show ?thesis unfolding rec flush goal count table [folded batch_def] by (simp add: s1_def)
  qed
qed

text \<open>
  Stored feedback. On a full pool of live connections the collector writes whole batches of a hundred, each entry
  over a connection it never gives back: whatever is recorded, the table ends up with the first entries, as many
  as there were connections, and everything after them is lost, together with the pool.
\<close>

theorem fbc_store_exact:
  assumes "pool_ready env p"
  shows "fold (fbc_record env) fbs (fbc_new p) = fbc_after p fbs"
proof (induction fbs rule: rev_induct)
  case Nil
  then show ?case by (simp add: fbc_new_def fbc_after_def)
next
  case (snoc fb fbs)
  then show ?case by (simp add: fbc_record_after [OF assms])
qed


definition fresh_pool :: DBPool where
  "fresh_pool = \<lparr>db_pool = [0 ..< 20], db_availableConnections = [0 ..< 20], db_inUseCount = 0\<rparr>"

definition yes_feedback :: AgentFeedback where
  "yes_feedback = \<lparr>afb_decision_id = 1, afb_user_id = ''ann'', afb_selected_action = ''INSPECT'', afb_was_top1 = True,
     afb_response_time_ms = 900, afb_confidence_shown = 1, afb_executed = False, afb_ignored = False, afb_timestamp = 0\<rparr>"

lemma fbc_store_exact_witness:
  "fbc_table (fold (fbc_record env_full) (replicate 100 yes_feedback) (fbc_new fresh_pool)) = replicate 20 yes_feedback \<and>
   db_availableConnections (fbc_pool (fold (fbc_record env_full) (replicate 100 yes_feedback) (fbc_new fresh_pool))) = []"
proof -
  have "pool_ready env_full fresh_pool"
    by (simp add: pool_ready_def env_full_def fresh_pool_def MAX_CONNECTIONS_def del: upt_Suc)
  from fbc_store_exact [OF this, of "replicate 100 yes_feedback"] show ?thesis
    by (simp add: fbc_after_def fresh_pool_def Let_def del: upt_Suc upt_rec_numeral replicate_Suc)
qed

end
