(* ===== verification/Trajectory_Archive.thy ===== *)
theory Trajectory_Archive
  imports Binary_Files
begin

text \<open>
  \<open>server/spatial_memory/trajectory_archive.\{h,cpp\}\<close>: the points of the assets, the recent ones in memory (the hot
  layer), the older ones in a file that is appended to (the cold layer). Doubles are their bits; the conversions
  between \<open>double\<close> and \<open>float\<close> are the argument \<open>conv\<close>. The file is empty when it is opened; what of it a reader
  sees depends on when the output stream was last flushed and is the argument \<open>visible\<close>. Maps are iterated in
  the order of their entries.
\<close>

section \<open>Points and records\<close>

record ArchivePoint =
  tp_x :: f64
  tp_y :: f64
  tp_timestamp :: u64
  tp_location :: string
  tp_risk_score :: f64

record TrajectoryRecord =
  trc_asset_id :: u32
  trc_x :: f64
  trc_y :: f64
  trc_timestamp :: u64
  trc_risk_score :: f32
  trc_location_length :: "16 word"

record FloatConv =
  to_float :: "f64 \<Rightarrow> f32"
  to_double :: "f32 \<Rightarrow> f64"

definition trc_of :: "FloatConv \<Rightarrow> int \<Rightarrow> ArchivePoint \<Rightarrow> TrajectoryRecord" where
  "trc_of conv i p =
     \<lparr>trc_asset_id = word_of_int i, trc_x = tp_x p, trc_y = tp_y p, trc_timestamp = tp_timestamp p,
      trc_risk_score = to_float conv (tp_risk_score p), trc_location_length = of_nat (length (tp_location p))\<rparr>"

definition trc_bytes :: "TrajectoryRecord \<Rightarrow> byte list" where
  "trc_bytes r = le_bytes 4 (trc_asset_id r) @ le_bytes 8 (trc_x r) @ le_bytes 8 (trc_y r) @ le_bytes 8 (trc_timestamp r) @
     le_bytes 4 (trc_risk_score r) @ le_bytes 2 (trc_location_length r)"

definition trc_get :: "TrajectoryRecord \<Rightarrow> (ifstream, TrajectoryRecord) state" where
  "trc_get r = do {
     asset \<leftarrow> get_word 4 (trc_asset_id r);
     x \<leftarrow> get_word 8 (trc_x r);
     y \<leftarrow> get_word 8 (trc_y r);
     t \<leftarrow> get_word 8 (trc_timestamp r);
     risk \<leftarrow> get_word 4 (trc_risk_score r);
     n \<leftarrow> get_word 2 (trc_location_length r);
     State_Monad.return \<lparr>trc_asset_id = asset, trc_x = x, trc_y = y, trc_timestamp = t, trc_risk_score = risk,
       trc_location_length = n\<rparr> }"

lemma length_trc_bytes [simp]: "length (trc_bytes r) = 34"
  by (simp add: trc_bytes_def)

lemma trc_reads: "reads (trc_get old) (trc_bytes r) r"
proof -
  have r: "r = \<lparr>trc_asset_id = trc_asset_id r, trc_x = trc_x r, trc_y = trc_y r, trc_timestamp = trc_timestamp r,
      trc_risk_score = trc_risk_score r, trc_location_length = trc_location_length r\<rparr>" by simp
  show ?thesis unfolding trc_get_def trc_bytes_def
    by (rule reads_bind, rule reads_word, simp)+ (subst r, rule reads_bind_return, rule reads_word, simp)
qed

interpretation trc: codec trc_bytes trc_get "\<lambda>_. True" "\<lambda>_. True"
  by unfold_locales (rule trc_reads)

section \<open>The archive\<close>

record TrajectoryArchive =
  ta_hotLayer :: "(int \<times> ArchivePoint list) list"
  ta_maxHotPoints :: int
  ta_currentHotPoints :: int
  ta_useColdStorage :: bool
  ta_coldFile :: "byte list"
  ta_coldIndex :: "(int \<times> nat list) list"

definition ta_new :: TrajectoryArchive where
  "ta_new = \<lparr>ta_hotLayer = [], ta_maxHotPoints = 5000, ta_currentHotPoints = 0, ta_useColdStorage = False,
     ta_coldFile = [], ta_coldIndex = []\<rparr>"

text \<open>\<open>opened\<close> is whether a path is given and its file could be opened.\<close>

definition ta_initialize :: "int \<Rightarrow> bool \<Rightarrow> TrajectoryArchive \<Rightarrow> TrajectoryArchive" where
  "ta_initialize maxHot opened a = a\<lparr>ta_maxHotPoints := maxHot, ta_useColdStorage := opened\<rparr>"

text \<open>\<open>map[key]\<close> on a map of vectors.\<close>

definition vec_at :: "(int \<times> 'a list) list \<Rightarrow> int \<Rightarrow> 'a list" where
  "vec_at m i = (case map_of m i of None \<Rightarrow> [] | Some v \<Rightarrow> v)"

definition ta_writeCold :: "FloatConv \<Rightarrow> int \<Rightarrow> ArchivePoint \<Rightarrow> TrajectoryArchive \<Rightarrow> TrajectoryArchive" where
  "ta_writeCold conv i p a =
     a\<lparr>ta_coldFile := ta_coldFile a @ trc_bytes (trc_of conv i p),
       ta_coldIndex := AList.update i (vec_at (ta_coldIndex a) i @ [length (ta_coldFile a)]) (ta_coldIndex a)\<rparr>"

text \<open>The asset with most points, \<open>-1\<close> for none.\<close>

definition ta_biggest :: "(int \<times> ArchivePoint list) list \<Rightarrow> int \<times> nat" where
  "ta_biggest hot = foldl (\<lambda>(i, n) p. if length (snd p) > n then (fst p, length (snd p)) else (i, n)) (- 1, 0) hot"

text \<open>The oldest point of asset \<open>i\<close> leaves the hot layer.\<close>

definition ta_evict :: "FloatConv \<Rightarrow> int \<Rightarrow> TrajectoryArchive \<Rightarrow> TrajectoryArchive" where
  "ta_evict conv i a =
     (case vec_at (ta_hotLayer a) i of
        [] \<Rightarrow> a
      | p # ps \<Rightarrow>
          let a1 = (if ta_useColdStorage a then ta_writeCold conv i p a else a)
          in a1\<lparr>ta_hotLayer := AList.update i ps (ta_hotLayer a1), ta_currentHotPoints := ta_currentHotPoints a1 - 1\<rparr>)"

text \<open>The asset that has the most points has one, so every round of the loop takes a point away.\<close>

function ta_trimHotLayer :: "FloatConv \<Rightarrow> TrajectoryArchive \<Rightarrow> TrajectoryArchive" where
  "ta_trimHotLayer conv a =
     (if ta_currentHotPoints a > ta_maxHotPoints a then
        let i = fst (ta_biggest (ta_hotLayer a)) in
        if i = - 1 \<or> vec_at (ta_hotLayer a) i = [] then a
        else ta_trimHotLayer conv (ta_evict conv i a)
      else a)"
  by pat_completeness auto
termination
  by (relation "measure (\<lambda>(conv, a). nat (ta_currentHotPoints a - ta_maxHotPoints a))")
    (auto simp: ta_evict_def ta_writeCold_def Let_def split: list.split)

declare ta_trimHotLayer.simps [simp del]

definition ta_appendPoints :: "FloatConv \<Rightarrow> int \<Rightarrow> ArchivePoint list \<Rightarrow> TrajectoryArchive \<Rightarrow> TrajectoryArchive" where
  "ta_appendPoints conv i ps a =
     ta_trimHotLayer conv (a\<lparr>ta_hotLayer := AList.update i (vec_at (ta_hotLayer a) i @ ps) (ta_hotLayer a),
                             ta_currentHotPoints := ta_currentHotPoints a + int (length ps)\<rparr>)"

definition ta_appendPoint ::
  "FloatConv \<Rightarrow> int \<Rightarrow> f64 \<Rightarrow> f64 \<Rightarrow> u64 \<Rightarrow> string \<Rightarrow> f64 \<Rightarrow> TrajectoryArchive \<Rightarrow> TrajectoryArchive" where
  "ta_appendPoint conv i x y timestamp location riskScore a =
     (let point = \<lparr>tp_x = x, tp_y = y, tp_timestamp = timestamp, tp_location = location, tp_risk_score = riskScore\<rparr>
      in ta_trimHotLayer conv (a\<lparr>ta_hotLayer := AList.update i (vec_at (ta_hotLayer a) i @ [point]) (ta_hotLayer a),
                                 ta_currentHotPoints := ta_currentHotPoints a + 1\<rparr>))"

definition ta_setMaxHotPoints :: "FloatConv \<Rightarrow> int \<Rightarrow> TrajectoryArchive \<Rightarrow> TrajectoryArchive" where
  "ta_setMaxHotPoints conv n a = ta_trimHotLayer conv (a\<lparr>ta_maxHotPoints := n\<rparr>)"

definition ta_flushHotToCold :: "FloatConv \<Rightarrow> TrajectoryArchive \<Rightarrow> TrajectoryArchive" where
  "ta_flushHotToCold conv a =
     (if \<not> ta_useColdStorage a then a
      else (fold (\<lambda>(i, ps) b. fold (ta_writeCold conv i) ps b) (ta_hotLayer a) a)
             \<lparr>ta_hotLayer := [], ta_currentHotPoints := 0\<rparr>)"

definition ta_removeAsset :: "int \<Rightarrow> TrajectoryArchive \<Rightarrow> TrajectoryArchive" where
  "ta_removeAsset i a =
     a\<lparr>ta_currentHotPoints := ta_currentHotPoints a - int (length (vec_at (ta_hotLayer a) i)),
       ta_hotLayer := AList.delete i (ta_hotLayer a), ta_coldIndex := AList.delete i (ta_coldIndex a)\<rparr>"

definition ta_clear :: "TrajectoryArchive \<Rightarrow> TrajectoryArchive" where
  "ta_clear a = a\<lparr>ta_hotLayer := [], ta_coldIndex := [], ta_currentHotPoints := 0\<rparr>"

definition ta_assetCount :: "TrajectoryArchive \<Rightarrow> nat" where
  "ta_assetCount a = length (ta_hotLayer a)"

definition ta_totalPointCount :: "TrajectoryArchive \<Rightarrow> int" where
  "ta_totalPointCount a = ta_currentHotPoints a"


section \<open>Queries\<close>

definition trc_junk :: TrajectoryRecord where
  "trc_junk = \<lparr>trc_asset_id = 0, trc_x = 0, trc_y = 0, trc_timestamp = 0, trc_risk_score = 0, trc_location_length = 0\<rparr>"

definition chars_of :: "byte list \<Rightarrow> string" where
  "chars_of bs = map (\<lambda>b. char_of (unat b)) bs"

text \<open>One record; the location is read from where the record ends, and a buffer that is not filled has zeros.\<close>

definition ta_load_at :: "FloatConv \<Rightarrow> nat \<Rightarrow> ifstream \<Rightarrow> ArchivePoint list \<times> ifstream" where
  "ta_load_at conv pos s =
     (case run_state (trc_get trc_junk) (is_seek pos s) of (r, s1) \<Rightarrow>
        if \<not> is_good s1 then ([], s1)
        else
          let n = unat (trc_location_length r);
              point = \<lparr>tp_x = trc_x r, tp_y = trc_y r, tp_timestamp = trc_timestamp r, tp_location = [],
                       tp_risk_score = to_double conv (trc_risk_score r)\<rparr>
          in if n > 0 then
               (case is_read n s1 of (bs, s2) \<Rightarrow>
                  ([point\<lparr>tp_location := chars_of (bs @ replicate (n - length bs) 0)\<rparr>], s2))
             else ([point], s1))"

fun ta_load_all :: "FloatConv \<Rightarrow> nat list \<Rightarrow> ifstream \<Rightarrow> ArchivePoint list" where
  "ta_load_all conv [] s = []"
| "ta_load_all conv (pos # ps) s = (case ta_load_at conv pos s of (p, s1) \<Rightarrow> p @ ta_load_all conv ps s1)"

definition ta_loadFromCold :: "FloatConv \<Rightarrow> byte list \<Rightarrow> int \<Rightarrow> TrajectoryArchive \<Rightarrow> ArchivePoint list" where
  "ta_loadFromCold conv visible i a =
     (if \<not> ta_useColdStorage a then []
      else ta_load_all conv (vec_at (ta_coldIndex a) i) (is_open_file visible))"

definition ta_getTrajectory :: "FloatConv \<Rightarrow> byte list \<Rightarrow> int \<Rightarrow> TrajectoryArchive \<Rightarrow> ArchivePoint list" where
  "ta_getTrajectory conv visible i a = ta_loadFromCold conv visible i a @ vec_at (ta_hotLayer a) i"

text \<open>A negative number starts behind the end of the points.\<close>

definition ta_getRecentPoints :: "int \<Rightarrow> int \<Rightarrow> TrajectoryArchive \<Rightarrow> fault + ArchivePoint list" where
  "ta_getRecentPoints i n a =
     (case map_of (ta_hotLayer a) i of
        None \<Rightarrow> Inr []
      | Some ps \<Rightarrow>
          let start = max 0 (int (length ps) - n)
          in if start > int (length ps) then Inl OutOfRange else Inr (drop (nat start) ps))"

definition ta_getTrajectoryRange ::
  "FloatConv \<Rightarrow> byte list \<Rightarrow> int \<Rightarrow> u64 \<Rightarrow> u64 \<Rightarrow> TrajectoryArchive \<Rightarrow> ArchivePoint list" where
  "ta_getTrajectoryRange conv visible i startTime endTime a =
     filter (\<lambda>p. sint (tp_timestamp p) \<ge> sint startTime \<and> sint (tp_timestamp p) \<le> sint endTime)
       (ta_getTrajectory conv visible i a)"

text \<open>The numbers behind the bits are the argument \<open>val\<close>.\<close>

definition ta_step :: "(f64 \<Rightarrow> real) \<Rightarrow> ArchivePoint \<Rightarrow> ArchivePoint \<Rightarrow> real" where
  "ta_step val p q =
     (let dx = val (tp_x q) - val (tp_x p); dy = val (tp_y q) - val (tp_y p) in sqrt (dx * dx + dy * dy))"

fun ta_distance :: "(f64 \<Rightarrow> real) \<Rightarrow> ArchivePoint list \<Rightarrow> real" where
  "ta_distance val (p # q # ps) = ta_step val p q + ta_distance val (q # ps)"
| "ta_distance val _ = 0"

definition ta_getTotalDistance :: "(f64 \<Rightarrow> real) \<Rightarrow> FloatConv \<Rightarrow> byte list \<Rightarrow> int \<Rightarrow> TrajectoryArchive \<Rightarrow> real" where
  "ta_getTotalDistance val conv visible i a = ta_distance val (ta_getTrajectory conv visible i a)"

definition ta_getAverageSpeed :: "(f64 \<Rightarrow> real) \<Rightarrow> FloatConv \<Rightarrow> byte list \<Rightarrow> int \<Rightarrow> TrajectoryArchive \<Rightarrow> real" where
  "ta_getAverageSpeed val conv visible i a =
     (let ps = ta_getTrajectory conv visible i a in
      if length ps < 2 then 0
      else
        let duration = of_int (sint (tp_timestamp (last ps) - tp_timestamp (hd ps))) / 1000
        in if duration \<le> 0 then 0 else ta_distance val ps / duration)"

text \<open>The counts so far, the largest of them and who had it first.\<close>

definition ta_vote :: "(string \<times> nat) list \<times> nat \<times> string \<Rightarrow> string \<Rightarrow> (string \<times> nat) list \<times> nat \<times> string" where
  "ta_vote s loc =
     (case s of (counts, best, who) \<Rightarrow>
        let c = (case map_of counts loc of None \<Rightarrow> 0 | Some k \<Rightarrow> k) + 1
        in (AList.update loc c counts, if c > best then (c, loc) else (best, who)))"

definition ta_getMostFrequentLocation :: "FloatConv \<Rightarrow> byte list \<Rightarrow> int \<Rightarrow> TrajectoryArchive \<Rightarrow> string" where
  "ta_getMostFrequentLocation conv visible i a =
     snd (snd (foldl ta_vote ([], 0, []) (filter (\<lambda>l. l \<noteq> []) (map tp_location (ta_getTrajectory conv visible i a)))))"

section \<open>Size of the hot layer\<close>

definition hot_size :: "(int \<times> ArchivePoint list) list \<Rightarrow> nat" where
  "hot_size hot = (\<Sum>p \<leftarrow> hot. length (snd p))"

definition ta_counted :: "TrajectoryArchive \<Rightarrow> bool" where
  "ta_counted a \<longleftrightarrow> distinct (map fst (ta_hotLayer a)) \<and> ta_currentHotPoints a = int (hot_size (ta_hotLayer a))"

lemma hot_size_Cons [simp]: "hot_size (p # hot) = length (snd p) + hot_size hot"
  by (simp add: hot_size_def)

lemma hot_size_Nil [simp]: "hot_size [] = 0"
  by (simp add: hot_size_def)

lemma hot_size_update:
  "distinct (map fst hot) \<Longrightarrow> hot_size (AList.update i v hot) + length (vec_at hot i) = hot_size hot + length v"
  by (induction hot) (auto simp: vec_at_def map_of_eq_None_iff split: option.splits)

lemma hot_size_delete:
  "distinct (map fst hot) \<Longrightarrow> hot_size (AList.delete i hot) + length (vec_at hot i) = hot_size hot"
proof (induction hot)
  case (Cons p hot)
  have "hot_size (AList.delete i hot) = hot_size hot" if "i \<notin> fst ` set hot"
    using that by (simp add: delete_id)
  with Cons show ?case
    by (cases "fst p = i") (auto simp: vec_at_def AList.delete_eq map_of_eq_None_iff split: option.splits)
qed (simp add: vec_at_def)

lemma ta_writeCold_fields [simp]:
  "ta_hotLayer (ta_writeCold conv i p a) = ta_hotLayer a"
  "ta_currentHotPoints (ta_writeCold conv i p a) = ta_currentHotPoints a"
  "ta_maxHotPoints (ta_writeCold conv i p a) = ta_maxHotPoints a"
  "ta_useColdStorage (ta_writeCold conv i p a) = ta_useColdStorage a"
  by (simp_all add: ta_writeCold_def)

lemma ta_evict_counted: "ta_counted a \<Longrightarrow> ta_counted (ta_evict conv i a)"
proof (cases "vec_at (ta_hotLayer a) i")
  case (Cons p ps)
  moreover assume "ta_counted a"
  ultimately show ?thesis
    using hot_size_update [of "ta_hotLayer a" i ps]
    by (auto simp: ta_counted_def ta_evict_def Let_def distinct_update)
qed (simp add: ta_evict_def)

lemma ta_trim_counted: "ta_counted a \<Longrightarrow> ta_counted (ta_trimHotLayer conv a)"
proof (induction conv a rule: ta_trimHotLayer.induct)
  case (1 conv a)
  then show ?case
    by (subst ta_trimHotLayer.simps) (auto simp: Let_def intro: ta_evict_counted)
qed


lemma vec_at_update [simp]: "vec_at (AList.update i v m) j = (if i = j then v else vec_at m j)"
  by (simp add: vec_at_def update_conv')

lemma vec_at_delete [simp]: "vec_at (AList.delete i m) j = (if i = j then [] else vec_at m j)"
  by (simp add: vec_at_def delete_conv')

lemma ta_biggest_exact:
  assumes "foldl (\<lambda>(i, n) p. if length (snd p) > n then (fst p, length (snd p)) else (i, n)) (i0, n0) hot = (i, n)"
  shows "n0 \<le> n \<and> ((i, n) = (i0, n0) \<and> (\<forall>p \<in> set hot. length (snd p) \<le> n0) \<or>
    n0 < n \<and> (\<exists>ps. (i, ps) \<in> set hot \<and> length ps = n))"
  using assms
proof (induction hot arbitrary: i0 n0)
  case (Cons p hot)
  show ?case
  proof (cases "n0 < length (snd p)")
    case True
    have "foldl (\<lambda>(i, n) p. if length (snd p) > n then (fst p, length (snd p)) else (i, n)) (fst p, length (snd p)) hot = (i, n)"
      using Cons.prems True by simp
    from Cons.IH [OF this] True show ?thesis
      by (cases p) auto
  next
    case False
    then have "foldl (\<lambda>(i, n) p. if length (snd p) > n then (fst p, length (snd p)) else (i, n)) (i0, n0) hot = (i, n)"
      using Cons.prems by simp
    from Cons.IH [OF this] False show ?thesis by auto
  qed
qed simp

lemma ta_biggest_some:
  assumes "ta_counted a" "0 < ta_currentHotPoints a"
  obtains i ps where "fst (ta_biggest (ta_hotLayer a)) = i" "(i, ps) \<in> set (ta_hotLayer a)"
    "vec_at (ta_hotLayer a) i \<noteq> []"
proof -
  obtain i n where b: "ta_biggest (ta_hotLayer a) = (i, n)" by fastforce
  have ex: "\<exists>p \<in> set (ta_hotLayer a). 0 < length (snd p)"
  proof (rule ccontr)
    assume "\<not> ?thesis"
    then have "hot_size (ta_hotLayer a) = 0" by (auto simp: hot_size_def)
    then show False using assms by (simp add: ta_counted_def)
  qed
  from ta_biggest_exact [OF b [unfolded ta_biggest_def]] ex obtain ps
    where ps: "(i, ps) \<in> set (ta_hotLayer a)" "0 < length ps" by fastforce
  then have "vec_at (ta_hotLayer a) i = ps"
    using assms(1) by (auto simp: vec_at_def ta_counted_def map_of_is_SomeI)
  then show ?thesis using that [of i ps] b ps by auto
qed

lemma ta_evict_less:
  "vec_at (ta_hotLayer a) i \<noteq> [] \<Longrightarrow> ta_currentHotPoints (ta_evict conv i a) = ta_currentHotPoints a - 1"
  by (auto simp: ta_evict_def Let_def split: list.split)

lemma ta_evict_fields [simp]:
  "ta_maxHotPoints (ta_evict conv i a) = ta_maxHotPoints a" "ta_useColdStorage (ta_evict conv i a) = ta_useColdStorage a"
  by (auto simp: ta_evict_def Let_def split: list.split)

lemma ta_evict_keys: "fst ` set (ta_hotLayer (ta_evict conv i a)) \<subseteq> fst ` set (ta_hotLayer a)"
proof (cases "vec_at (ta_hotLayer a) i")
  case (Cons p ps)
  then have "i \<in> fst ` set (ta_hotLayer a)"
    by (auto simp: vec_at_def split: option.splits dest!: map_of_SomeD intro: rev_image_eqI)
  with Cons show ?thesis by (auto simp: ta_evict_def Let_def dom_update [unfolded dom_map_of_conv_image_fst] insert_absorb)
qed (simp add: ta_evict_def)

lemma ta_trim_bounded:
  "ta_counted a \<Longrightarrow> 0 \<le> ta_maxHotPoints a \<Longrightarrow> - 1 \<notin> fst ` set (ta_hotLayer a) \<Longrightarrow>
   ta_currentHotPoints (ta_trimHotLayer conv a) \<le> ta_maxHotPoints a"
proof (induction conv a rule: ta_trimHotLayer.induct)
  case (1 conv a)
  show ?case
  proof (cases "ta_currentHotPoints a > ta_maxHotPoints a")
    case False
    then show ?thesis by (subst ta_trimHotLayer.simps) simp
  next
    case True
    then have "0 < ta_currentHotPoints a" using 1(3) by simp
    then obtain i ps where i: "fst (ta_biggest (ta_hotLayer a)) = i" "(i, ps) \<in> set (ta_hotLayer a)"
      "vec_at (ta_hotLayer a) i \<noteq> []" using ta_biggest_some [OF 1(2)] by metis
    then have "i \<noteq> - 1" using 1(4) by force
    with True i have trim: "ta_trimHotLayer conv a = ta_trimHotLayer conv (ta_evict conv i a)"
      by (subst ta_trimHotLayer.simps) simp
    have "ta_currentHotPoints (ta_trimHotLayer conv (ta_evict conv i a)) \<le> ta_maxHotPoints (ta_evict conv i a)"
      by (rule 1(1)) (use True i 1(2,3,4) \<open>i \<noteq> - 1\<close> ta_evict_keys [of conv i a] in \<open>auto simp: ta_evict_counted\<close>)
    then show ?thesis by (simp add: trim)
  qed
qed

lemma ta_trim_fields [simp]:
  "ta_maxHotPoints (ta_trimHotLayer conv a) = ta_maxHotPoints a"
  "ta_useColdStorage (ta_trimHotLayer conv a) = ta_useColdStorage a"
proof (induction conv a rule: ta_trimHotLayer.induct)
  case (1 conv a)
  { case 1 then show ?case using "1.IH"(1) by (subst ta_trimHotLayer.simps) (simp add: Let_def) next
    case 2 then show ?case using "1.IH"(2) by (subst ta_trimHotLayer.simps) (simp add: Let_def) }
qed

section \<open>Histories\<close>

datatype ArchiveCall =
    AppendPoint int f64 f64 u64 string f64
  | AppendPoints int "ArchivePoint list"
  | SetMaxHotPoints int

fun ta_call :: "FloatConv \<Rightarrow> TrajectoryArchive \<Rightarrow> ArchiveCall \<Rightarrow> TrajectoryArchive" where
  "ta_call conv a (AppendPoint i x y t l r) = ta_appendPoint conv i x y t l r a"
| "ta_call conv a (AppendPoints i ps) = ta_appendPoints conv i ps a"
| "ta_call conv a (SetMaxHotPoints n) = ta_setMaxHotPoints conv n a"

text \<open>What the calls append to an asset.\<close>

fun appended1 :: "int \<Rightarrow> ArchiveCall \<Rightarrow> ArchivePoint list" where
  "appended1 j (AppendPoint i x y t l r) =
     (if i = j then [\<lparr>tp_x = x, tp_y = y, tp_timestamp = t, tp_location = l, tp_risk_score = r\<rparr>] else [])"
| "appended1 j (AppendPoints i ps) = (if i = j then ps else [])"
| "appended1 j (SetMaxHotPoints n) = []"

definition appended :: "int \<Rightarrow> ArchiveCall list \<Rightarrow> ArchivePoint list" where
  "appended j cs = concat (map (appended1 j) cs)"

text \<open>Every call is an append of some points and a trim.\<close>

lemma ta_appendPoint_points:
  "ta_appendPoint conv i x y t l r a =
     ta_appendPoints conv i [\<lparr>tp_x = x, tp_y = y, tp_timestamp = t, tp_location = l, tp_risk_score = r\<rparr>] a"
  by (simp add: ta_appendPoint_def ta_appendPoints_def Let_def)

definition stored :: "FloatConv \<Rightarrow> int \<Rightarrow> byte list \<Rightarrow> nat \<Rightarrow> ArchivePoint \<Rightarrow> bool" where
  "stored conv i file pos p \<longleftrightarrow> (\<exists>pre post. file = pre @ trc_bytes (trc_of conv i p) @ post \<and> length pre = pos)"

definition ta_holds :: "FloatConv \<Rightarrow> (int \<Rightarrow> ArchivePoint list) \<Rightarrow> TrajectoryArchive \<Rightarrow> bool" where
  "ta_holds conv hist a \<longleftrightarrow> (\<forall>i. \<exists>old. hist i = old @ vec_at (ta_hotLayer a) i \<and>
     list_all2 (stored conv i (ta_coldFile a)) (vec_at (ta_coldIndex a) i) old)"

lemma stored_append: "stored conv i file pos p \<Longrightarrow> stored conv i (file @ rest) pos p"
  unfolding stored_def by (metis append.assoc)

lemma stored_new: "stored conv i (file @ trc_bytes (trc_of conv i p)) (length file) p"
  unfolding stored_def by (metis append.right_neutral)

lemma ta_evict_holds:
  assumes "ta_holds conv hist a" "ta_useColdStorage a"
  shows "ta_holds conv hist (ta_evict conv i a)"
proof (cases "vec_at (ta_hotLayer a) i")
  case (Cons p ps)
  have ev: "ta_evict conv i a = (ta_writeCold conv i p a)\<lparr>ta_hotLayer := AList.update i ps (ta_hotLayer a),
      ta_currentHotPoints := ta_currentHotPoints a - 1\<rparr>"
    using assms(2) by (simp add: ta_evict_def Cons Let_def)
  show ?thesis unfolding ta_holds_def
  proof
    fix j
    obtain old where old: "hist j = old @ vec_at (ta_hotLayer a) j"
      "list_all2 (stored conv j (ta_coldFile a)) (vec_at (ta_coldIndex a) j) old"
      using assms(1) by (auto simp: ta_holds_def)
    have more: "list_all2 (stored conv j (ta_coldFile a @ x)) (vec_at (ta_coldIndex a) j) old" for x
      using old(2) by (rule list_all2_mono) (rule stored_append)
    show "\<exists>old. hist j = old @ vec_at (ta_hotLayer (ta_evict conv i a)) j \<and>
        list_all2 (stored conv j (ta_coldFile (ta_evict conv i a))) (vec_at (ta_coldIndex (ta_evict conv i a)) j) old"
    proof (cases "j = i")
      case True
      have "list_all2 (stored conv j (ta_coldFile a @ trc_bytes (trc_of conv j p)))
          (vec_at (ta_coldIndex a) j @ [length (ta_coldFile a)]) (old @ [p])"
        using more stored_new by (intro list_all2_appendI) auto
      then show ?thesis using old(1) True Cons
        by (intro exI [of _ "old @ [p]"]) (simp add: ev ta_writeCold_def)
    next
      case False
      then show ?thesis using old(1) more by (intro exI [of _ old]) (simp add: ev ta_writeCold_def)
    qed
  qed
qed (use assms in \<open>simp add: ta_evict_def\<close>)

lemma ta_trim_holds:
  "ta_holds conv hist a \<Longrightarrow> ta_useColdStorage a \<Longrightarrow> ta_holds conv hist (ta_trimHotLayer conv a)"
proof (induction conv a rule: ta_trimHotLayer.induct)
  case (1 conv a)
  then show ?case by (subst ta_trimHotLayer.simps) (auto simp: Let_def intro: ta_evict_holds)
qed

lemma ta_append_holds:
  assumes "ta_holds conv hist a"
  shows "ta_holds conv (\<lambda>j. hist j @ (if i = j then ps else []))
    (a\<lparr>ta_hotLayer := AList.update i (vec_at (ta_hotLayer a) i @ ps) (ta_hotLayer a), ta_currentHotPoints := n\<rparr>)"
  unfolding ta_holds_def
proof
  fix j
  obtain old where "hist j = old @ vec_at (ta_hotLayer a) j"
    "list_all2 (stored conv j (ta_coldFile a)) (vec_at (ta_coldIndex a) j) old"
    using assms by (auto simp: ta_holds_def)
  then show "\<exists>old. hist j @ (if i = j then ps else []) = old @ vec_at (ta_hotLayer (a\<lparr>ta_hotLayer :=
      AList.update i (vec_at (ta_hotLayer a) i @ ps) (ta_hotLayer a), ta_currentHotPoints := n\<rparr>)) j \<and>
      list_all2 (stored conv j (ta_coldFile (a\<lparr>ta_hotLayer := AList.update i (vec_at (ta_hotLayer a) i @ ps)
        (ta_hotLayer a), ta_currentHotPoints := n\<rparr>))) (vec_at (ta_coldIndex (a\<lparr>ta_hotLayer :=
        AList.update i (vec_at (ta_hotLayer a) i @ ps) (ta_hotLayer a), ta_currentHotPoints := n\<rparr>)) j) old"
    by (intro exI [of _ old]) simp
qed

lemma ta_call_holds:
  assumes "ta_holds conv hist a" "ta_useColdStorage a"
  shows "ta_holds conv (\<lambda>j. hist j @ appended1 j c) (ta_call conv a c) \<and> ta_useColdStorage (ta_call conv a c)"
proof (cases c)
  case (AppendPoint i x y t l r)
  then show ?thesis
    using ta_trim_holds [OF ta_append_holds [OF assms(1), of i "[\<lparr>tp_x = x, tp_y = y, tp_timestamp = t, tp_location = l, tp_risk_score = r\<rparr>]"]] assms(2)
    by (simp add: ta_appendPoint_def Let_def if_distrib cong: if_cong)
next
  case (AppendPoints i ps)
  then show ?thesis
    using ta_trim_holds [OF ta_append_holds [OF assms(1), of i ps]] assms(2) by (simp add: ta_appendPoints_def)
next
  case (SetMaxHotPoints n)
  have "ta_holds conv hist (a\<lparr>ta_maxHotPoints := n\<rparr>)" using assms(1) by (simp add: ta_holds_def)
  then show ?thesis using ta_trim_holds [of conv hist "a\<lparr>ta_maxHotPoints := n\<rparr>"] assms(2) SetMaxHotPoints
    by (simp add: ta_setMaxHotPoints_def)
qed

definition ta_run :: "FloatConv \<Rightarrow> int \<Rightarrow> ArchiveCall list \<Rightarrow> TrajectoryArchive" where
  "ta_run conv maxHot cs = foldl (ta_call conv) (ta_initialize maxHot True ta_new) cs"

lemma ta_run_holds:
  "ta_holds conv (\<lambda>j. appended j cs) (ta_run conv maxHot cs) \<and> ta_useColdStorage (ta_run conv maxHot cs)"
proof (induction cs rule: rev_induct)
  case Nil
  then show ?case by (simp add: ta_holds_def ta_run_def ta_initialize_def ta_new_def appended_def vec_at_def)
next
  case (snoc c cs)
  then show ?case using ta_call_holds [of conv "\<lambda>j. appended j cs" "ta_run conv maxHot cs" c]
    by (simp add: ta_run_def appended_def)
qed

lemma ta_load_stored:
  assumes "stored conv i file pos p" "is_good s" "is_bytes s = file" "tp_location p = []"
  shows "\<exists>s'. ta_load_at conv pos s = ([p\<lparr>tp_risk_score := to_double conv (to_float conv (tp_risk_score p))\<rparr>], s') \<and>
    is_good s' \<and> is_bytes s' = file"
proof -
  obtain pre post where f: "file = pre @ trc_bytes (trc_of conv i p) @ post" "length pre = pos"
    using assms(1) by (auto simp: stored_def)
  have "is_at (pre @ trc_bytes (trc_of conv i p) @ post) (length pre) (is_seek pos s)"
    using assms(2,3) f by (simp add: is_at_def is_good_def)
  then obtain s1 where "run_state (trc_get trc_junk) (is_seek pos s) = (trc_of conv i p, s1)"
    "is_at (pre @ trc_bytes (trc_of conv i p) @ post) (length pre + 34) s1"
    using trc_reads [of trc_junk "trc_of conv i p"] unfolding reads_def by (metis length_trc_bytes)
  then show ?thesis
    using assms(4) f by (simp add: ta_load_at_def is_at_def trc_of_def)
qed

lemma ta_load_all_stored:
  "list_all2 (stored conv i file) ps old \<Longrightarrow> is_good s \<Longrightarrow> is_bytes s = file \<Longrightarrow>
   list_all (\<lambda>p. tp_location p = []) old \<Longrightarrow>
   ta_load_all conv ps s = map (\<lambda>p. p\<lparr>tp_risk_score := to_double conv (to_float conv (tp_risk_score p))\<rparr>) old"
proof (induction ps old arbitrary: s rule: list_all2_induct)
  case (Cons pos ps p old)
  from ta_load_stored [OF Cons.hyps(1) Cons.prems(1,2)] Cons.prems(3) obtain s'
    where "ta_load_at conv pos s = ([p\<lparr>tp_risk_score := to_double conv (to_float conv (tp_risk_score p))\<rparr>], s')"
      "is_good s'" "is_bytes s' = file" by auto
  then show ?case using Cons.IH [of s'] Cons.prems(3) by simp
qed simp

text \<open>A reader on a stream without any bytes leaves it failed.\<close>

definition drains :: "(ifstream, 'a) state \<Rightarrow> bool" where
  "drains m \<longleftrightarrow> (\<forall>s. is_bytes s = [] \<longrightarrow> (\<exists>v s'. run_state m s = (v, s') \<and> \<not> is_good s' \<and> is_bytes s' = []))"

lemma drains_word: "0 < n \<Longrightarrow> drains (get_word n old)"
  by (simp add: drains_def get_word_def is_read_def is_good_def Let_def)

lemma drains_bind: "drains m \<Longrightarrow> (\<And>v. drains (k v)) \<Longrightarrow> drains (m \<bind> k)"
  unfolding drains_def by fastforce

lemma drains_bind_return: "drains m \<Longrightarrow> drains (m \<bind> (\<lambda>x. State_Monad.return (f x)))"
  unfolding drains_def by fastforce

lemma ta_load_nothing: "is_bytes s = [] \<Longrightarrow> ta_load_all conv ps s = []"
proof (induction ps arbitrary: s)
  case (Cons pos ps)
  have "drains (trc_get trc_junk)"
    unfolding trc_get_def by (intro drains_bind drains_bind_return drains_word) simp_all
  then obtain r s1 where "run_state (trc_get trc_junk) (is_seek pos s) = (r, s1)" "\<not> is_good s1" "is_bytes s1 = []"
    using Cons.prems unfolding drains_def by (metis is_seek_simps(1))
  then show ?case using Cons.IH [of s1] by (simp add: ta_load_at_def)
qed simp

text \<open>C40: Two layers, one trajectory. However many points are appended to however many assets and whatever the bound of
  the hot layer, the points of an asset whose points have no location come back complete and in order: first
  those that were moved to the file, with the risk rounded to \<open>float\<close>, then those in memory. That takes a flush of
  the output stream, which none of the calls makes: of what is not on disk yet the archive returns nothing.
\<close>

theorem ta_trajectory_exact:
  assumes "list_all (\<lambda>p. tp_location p = []) (appended i cs)"
  shows "\<exists>old new. appended i cs = old @ new \<and>
    ta_getTrajectory conv (ta_coldFile (ta_run conv maxHot cs)) i (ta_run conv maxHot cs) =
      map (\<lambda>p. p\<lparr>tp_risk_score := to_double conv (to_float conv (tp_risk_score p))\<rparr>) old @ new \<and>
    ta_getTrajectory conv [] i (ta_run conv maxHot cs) = new"
proof -
  let ?a = "ta_run conv maxHot cs"
  obtain old where old: "appended i cs = old @ vec_at (ta_hotLayer ?a) i"
    "list_all2 (stored conv i (ta_coldFile ?a)) (vec_at (ta_coldIndex ?a) i) old"
    using ta_run_holds [of conv cs maxHot] by (auto simp: ta_holds_def)
  have "is_good (is_open_file b)" "is_bytes (is_open_file b) = b" for b
    by (simp_all add: is_open_file_def is_good_def)
  then show ?thesis
    using old assms ta_run_holds [of conv cs maxHot] ta_load_all_stored [OF old(2), of "is_open_file (ta_coldFile ?a)"]
    by (intro exI [of _ old] exI [of _ "vec_at (ta_hotLayer ?a) i"])
      (simp add: ta_getTrajectory_def ta_loadFromCold_def ta_load_nothing)
qed


definition idle_point :: ArchivePoint where
  "idle_point = \<lparr>tp_x = 5, tp_y = 6, tp_timestamp = 7, tp_location = [], tp_risk_score = 8\<rparr>"

definition low_bits :: FloatConv where
  "low_bits = \<lparr>to_float = ucast, to_double = ucast\<rparr>"

lemma ta_trajectory_exact_witness:
  "\<exists>old new. [idle_point, idle_point] = old @ new \<and>
    ta_getTrajectory low_bits (ta_coldFile (ta_run low_bits 1 [AppendPoints 3 [idle_point, idle_point]])) 3
      (ta_run low_bits 1 [AppendPoints 3 [idle_point, idle_point]]) =
      map (\<lambda>p. p\<lparr>tp_risk_score := to_double low_bits (to_float low_bits (tp_risk_score p))\<rparr>) old @ new"
proof -
  have a: "appended 3 [AppendPoints 3 [idle_point, idle_point]] = [idle_point, idle_point]"
    by (simp add: appended_def)
  then have "list_all (\<lambda>p. tp_location p = []) (appended 3 [AppendPoints 3 [idle_point, idle_point]])"
    by (simp add: idle_point_def)
  from ta_trajectory_exact [OF this, of low_bits 1] show ?thesis unfolding a by blast
qed

lemma ta_trim_keys: "fst ` set (ta_hotLayer (ta_trimHotLayer conv a)) \<subseteq> fst ` set (ta_hotLayer a)"
proof (induction conv a rule: ta_trimHotLayer.induct)
  case (1 conv a)
  then show ?case
    by (subst ta_trimHotLayer.simps) (simp add: Let_def, use ta_evict_keys in blast)
qed

lemma ta_two_cold:
  assumes "i \<noteq> - 1"
  shows "ta_run conv 0 [AppendPoints i [p, q]] =
    \<lparr>ta_hotLayer = [(i, [])], ta_maxHotPoints = 0, ta_currentHotPoints = 0, ta_useColdStorage = True,
     ta_coldFile = trc_bytes (trc_of conv i p) @ trc_bytes (trc_of conv i q), ta_coldIndex = [(i, [0, 34])]\<rparr>"
  using assms
  by (simp add: ta_run_def ta_initialize_def ta_new_def ta_appendPoints_def vec_at_def ta_trimHotLayer.simps
      ta_biggest_def ta_evict_def ta_writeCold_def Let_def)

text \<open>A failed stream stays failed.\<close>

definition stays_bad :: "(ifstream, 'a) state \<Rightarrow> bool" where
  "stays_bad m \<longleftrightarrow> (\<forall>s. \<not> is_good s \<longrightarrow> \<not> is_good (snd (run_state m s)))"

lemma stays_bad_word: "stays_bad (get_word n old)"
  by (simp add: stays_bad_def get_word_def is_read_def is_good_def)

lemma stays_bad_return: "stays_bad (State_Monad.return v)"
  by (simp add: stays_bad_def)

lemma stays_bad_bind: "stays_bad m \<Longrightarrow> (\<And>v. stays_bad (k v)) \<Longrightarrow> stays_bad (m \<bind> k)"
  unfolding stays_bad_def by (simp split: prod.split) (metis snd_conv)

lemma trc_get_bad: "\<not> is_good s \<Longrightarrow> \<not> is_good (snd (run_state (trc_get old) s))"
proof -
  have "stays_bad (trc_get old)"
    unfolding trc_get_def by (intro stays_bad_bind stays_bad_return stays_bad_word)
  then show "\<not> is_good s \<Longrightarrow> ?thesis" by (simp add: stays_bad_def)
qed

text \<open>
  Locations are lost. The record in the file has the length of the location but not the location. What comes back
  instead is whatever the file has behind the record; and when that is less than the length, the read fails the
  stream and hides every later point of the asset: of two points, the first with a location longer than a
  record, only the first comes back, with the bytes of the second as its location.
\<close>

theorem ta_location_lost:
  assumes "i \<noteq> - 1" "34 < length (tp_location p)" "length (tp_location p) < 65536"
  shows "ta_getTrajectory conv (ta_coldFile (ta_run conv 0 [AppendPoints i [p, q]])) i
      (ta_run conv 0 [AppendPoints i [p, q]]) =
    [p\<lparr>tp_risk_score := to_double conv (to_float conv (tp_risk_score p)),
       tp_location := chars_of (trc_bytes (trc_of conv i q) @ replicate (length (tp_location p) - 34) 0)\<rparr>]"
proof -
  let ?f = "trc_bytes (trc_of conv i p) @ trc_bytes (trc_of conv i q)"
  have n: "unat (trc_location_length (trc_of conv i p)) = length (tp_location p)"
    using assms(3) by (simp add: trc_of_def unat_of_nat)
  have ne: "tp_location p \<noteq> []" using assms(2) by auto
  have "is_at ([] @ trc_bytes (trc_of conv i p) @ trc_bytes (trc_of conv i q)) (length ([] :: byte list)) (is_seek 0 (is_open_file ?f))"
    by (simp add: is_at_def is_open_file_def is_good_def is_seek_def)
  then obtain s1 where s1: "run_state (trc_get trc_junk) (is_seek 0 (is_open_file ?f)) = (trc_of conv i p, s1)"
    "is_bytes s1 = ?f" "is_pos s1 = 34" "is_good s1"
    using trc_reads [of trc_junk "trc_of conv i p"] unfolding reads_def is_at_def by fastforce
  obtain s2 where s2: "is_read (length (tp_location p)) s1 = (trc_bytes (trc_of conv i q), s2)" "is_fail s2" "\<not> is_good s2"
    using s1 assms(2) by (auto simp: is_read_def is_good_def Let_def)
  have load: "ta_load_at conv 0 (is_open_file ?f) =
      ([p\<lparr>tp_risk_score := to_double conv (to_float conv (tp_risk_score p)),
          tp_location := chars_of (trc_bytes (trc_of conv i q) @ replicate (length (tp_location p) - 34) 0)\<rparr>], s2)"
    using s1 s2(1) n ne by (simp add: ta_load_at_def Let_def) (simp add: trc_of_def)
  have "\<not> is_good (is_seek 34 s2)" using s2(2) by (simp add: is_good_def)
  then obtain s3 where "ta_load_at conv 34 s2 = ([], s3)"
    using trc_get_bad [of "is_seek 34 s2" trc_junk] by (cases "run_state (trc_get trc_junk) (is_seek 34 s2)") (simp add: ta_load_at_def)
  with load show ?thesis
    by (simp add: ta_two_cold [OF assms(1)] ta_getTrajectory_def ta_loadFromCold_def vec_at_def)
qed

fun regular :: "ArchiveCall \<Rightarrow> bool" where
  "regular (AppendPoint i x y t l r) = (i \<noteq> - 1)"
| "regular (AppendPoints i ps) = (i \<noteq> - 1)"
| "regular (SetMaxHotPoints n) = (0 \<le> n)"

lemma ta_call_bounded:
  assumes "ta_counted a" "0 \<le> ta_maxHotPoints a" "- 1 \<notin> fst ` set (ta_hotLayer a)" "regular c"
  shows "ta_counted (ta_call conv a c) \<and> 0 \<le> ta_maxHotPoints (ta_call conv a c) \<and>
    - 1 \<notin> fst ` set (ta_hotLayer (ta_call conv a c)) \<and>
    ta_currentHotPoints (ta_call conv a c) \<le> ta_maxHotPoints (ta_call conv a c)"
proof -
  have trim: "ta_counted (ta_trimHotLayer conv b) \<and> 0 \<le> ta_maxHotPoints (ta_trimHotLayer conv b) \<and>
      - 1 \<notin> fst ` set (ta_hotLayer (ta_trimHotLayer conv b)) \<and>
      ta_currentHotPoints (ta_trimHotLayer conv b) \<le> ta_maxHotPoints (ta_trimHotLayer conv b)"
    if "ta_counted b" "0 \<le> ta_maxHotPoints b" "- 1 \<notin> fst ` set (ta_hotLayer b)" for b
    using that ta_trim_counted ta_trim_bounded ta_trim_keys by (simp add: subset_iff) blast
  have append: "ta_counted (a\<lparr>ta_hotLayer := AList.update i (vec_at (ta_hotLayer a) i @ ps) (ta_hotLayer a),
      ta_currentHotPoints := ta_currentHotPoints a + int (length ps)\<rparr>)" for i ps
    using assms(1) hot_size_update [of "ta_hotLayer a" i "vec_at (ta_hotLayer a) i @ ps"]
    by (auto simp: ta_counted_def distinct_update)
  have keys: "- 1 \<notin> fst ` set (AList.update i v (ta_hotLayer a))" if "i \<noteq> - 1" for i v
    using assms(3) that by (simp add: dom_update [unfolded dom_map_of_conv_image_fst])
  have appends: "ta_counted (ta_appendPoints conv i ps a) \<and> 0 \<le> ta_maxHotPoints (ta_appendPoints conv i ps a) \<and>
      - 1 \<notin> fst ` set (ta_hotLayer (ta_appendPoints conv i ps a)) \<and>
      ta_currentHotPoints (ta_appendPoints conv i ps a) \<le> ta_maxHotPoints (ta_appendPoints conv i ps a)"
    if "i \<noteq> - 1" for i ps
    unfolding ta_appendPoints_def by (rule trim [OF append]) (simp_all add: assms(2) keys [OF that])
  show ?thesis
  proof (cases c)
    case (AppendPoint i x y t l r)
    then show ?thesis using appends assms(4) by (simp add: ta_appendPoint_points)
  next
    case (AppendPoints i ps)
    then show ?thesis using appends assms(4) by simp
  next
    case (SetMaxHotPoints n)
    then show ?thesis unfolding ta_call.simps SetMaxHotPoints ta_setMaxHotPoints_def
      using assms SetMaxHotPoints by (intro trim) (simp_all add: ta_counted_def)
  qed
qed

text \<open>
  The hot layer. Whatever is appended to assets other than \<open>-1\<close>, under a bound that is not negative: the count of the
  hot points is the number of points in memory, and after every call it is within the bound.
\<close>

theorem ta_hot_bounded:
  assumes "list_all regular cs" "0 \<le> maxHot"
  shows "ta_totalPointCount (ta_run conv maxHot cs) = int (hot_size (ta_hotLayer (ta_run conv maxHot cs))) \<and>
    ta_totalPointCount (ta_run conv maxHot cs) \<le> ta_maxHotPoints (ta_run conv maxHot cs)"
proof -
  have "ta_counted (ta_run conv maxHot cs) \<and> 0 \<le> ta_maxHotPoints (ta_run conv maxHot cs) \<and>
      - 1 \<notin> fst ` set (ta_hotLayer (ta_run conv maxHot cs)) \<and>
      ta_currentHotPoints (ta_run conv maxHot cs) \<le> ta_maxHotPoints (ta_run conv maxHot cs)"
    using assms(1)
  proof (induction cs rule: rev_induct)
    case Nil
    then show ?case using assms(2) by (simp add: ta_run_def ta_initialize_def ta_new_def ta_counted_def)
  next
    case (snoc c cs)
    then show ?case using ta_call_bounded [of "ta_run conv maxHot cs" c conv] by (simp add: ta_run_def)
  qed
  then show ?thesis by (simp add: ta_counted_def ta_totalPointCount_def)
qed

lemma ta_hot_bounded_witness:
  "ta_totalPointCount (ta_run low_bits 2 [AppendPoints 3 [idle_point, idle_point, idle_point], SetMaxHotPoints 1]) \<le>
   ta_maxHotPoints (ta_run low_bits 2 [AppendPoints 3 [idle_point, idle_point, idle_point], SetMaxHotPoints 1])"
  using ta_hot_bounded [of "[AppendPoints 3 [idle_point, idle_point, idle_point], SetMaxHotPoints 1]" 2 low_bits] by simp

end
