(* ===== verification/Compute_Economy.thy ===== *)
theory Compute_Economy
  imports Decimal
begin

text \<open>
  \<open>server/economy\<close>: the budget of the runtime's resources (\<open>runtime_budget\<close>) and the allocator that draws on it
  (\<open>compute_allocator\<close>). The locale \<open>resource_pool\<close> is what the allocator relies on; the budget interprets it.
\<close>

section \<open>The budget\<close>

record BudgetAllocation =
  bg_resource_type :: string
  bg_allocated :: real
  bg_used :: real
  bg_limit :: real

type_synonym RuntimeBudget = "(string \<times> BudgetAllocation) list"

definition bg_entry :: "string \<Rightarrow> real \<Rightarrow> string \<times> BudgetAllocation" where
  "bg_entry t limit = (t, \<lparr>bg_resource_type = t, bg_allocated = 0, bg_used = 0, bg_limit = limit\<rparr>)"

definition bg_new :: RuntimeBudget where
  "bg_new = [bg_entry ''ai_inference'' 50, bg_entry ''bandwidth'' 1000, bg_entry ''compute_units'' 100,
             bg_entry ''gpu_memory'' 4096]"

definition bg_allocateResource :: "string \<Rightarrow> real \<Rightarrow> RuntimeBudget \<Rightarrow> bool \<times> RuntimeBudget" where
  "bg_allocateResource t amount b =
     (case map_of b t of
        None \<Rightarrow> (False, b)
      | Some e \<Rightarrow>
          if bg_used e + amount > bg_limit e then (False, b)
          else (True, om_put t (e\<lparr>bg_used := bg_used e + amount\<rparr>) b))"

definition bg_releaseResource :: "string \<Rightarrow> real \<Rightarrow> RuntimeBudget \<Rightarrow> RuntimeBudget" where
  "bg_releaseResource t amount b =
     (case map_of b t of
        None \<Rightarrow> b
      | Some e \<Rightarrow> om_put t (e\<lparr>bg_used := max 0 (bg_used e - amount)\<rparr>) b)"

definition bg_getRemaining :: "string \<Rightarrow> RuntimeBudget \<Rightarrow> real" where
  "bg_getRemaining t b = (case map_of b t of None \<Rightarrow> 0 | Some e \<Rightarrow> bg_limit e - bg_used e)"

definition bg_hasBudget :: "string \<Rightarrow> real \<Rightarrow> RuntimeBudget \<Rightarrow> bool" where
  "bg_hasBudget t amount b \<longleftrightarrow> bg_getRemaining t b \<ge> amount"

text \<open>An unknown resource gets an entry whose other members are value-initialised.\<close>

definition bg_setLimit :: "string \<Rightarrow> real \<Rightarrow> RuntimeBudget \<Rightarrow> RuntimeBudget" where
  "bg_setLimit t limit b =
     (case map_of b t of
        None \<Rightarrow> om_put t \<lparr>bg_resource_type = [], bg_allocated = 0, bg_used = 0, bg_limit = limit\<rparr> b
      | Some e \<Rightarrow> om_put t (e\<lparr>bg_limit := limit\<rparr>) b)"

definition bg_getAllAllocations :: "RuntimeBudget \<Rightarrow> (string \<times> BudgetAllocation) list" where
  "bg_getAllAllocations b = b"

definition bg_used_of :: "RuntimeBudget \<Rightarrow> string \<Rightarrow> real" where
  "bg_used_of b t = (case map_of b t of None \<Rightarrow> 0 | Some e \<Rightarrow> bg_used e)"

section \<open>What an allocator relies on\<close>

text \<open>
  A pool of resources: an amount that is not negative is taken whole or not at all, and what was taken can be
  given back; the other resources keep what they have.
\<close>

locale resource_pool =
  fixes take_res :: "string \<Rightarrow> real \<Rightarrow> 's \<Rightarrow> bool \<times> 's"
    and give_res :: "string \<Rightarrow> real \<Rightarrow> 's \<Rightarrow> 's"
    and used :: "'s \<Rightarrow> string \<Rightarrow> real"
  assumes take_ok: "take_res t x s = (True, s') \<Longrightarrow> used s' = (used s)(t := used s t + x)"
    and take_fail: "take_res t x s = (False, s') \<Longrightarrow> s' = s"
    and give_back: "0 \<le> x \<Longrightarrow> x \<le> used s t \<Longrightarrow> used (give_res t x s) = (used s)(t := used s t - x)"
begin

text \<open>Takes and returns, each return of an amount still out: what is used is what is out.\<close>

inductive ledger :: "'s \<Rightarrow> (string \<times> real) list \<Rightarrow> 's \<Rightarrow> (string \<times> real) list \<Rightarrow> bool" where
  refl: "ledger s out s out"
| taken: "ledger s out s1 out1 \<Longrightarrow> 0 \<le> x \<Longrightarrow> take_res t x s1 = (True, s2) \<Longrightarrow> ledger s out s2 ((t, x) # out1)"
| refused: "ledger s out s1 out1 \<Longrightarrow> take_res t x s1 = (False, s2) \<Longrightarrow> ledger s out s2 out1"
| given: "ledger s out s1 out1 \<Longrightarrow> (t, x) \<in> set out1 \<Longrightarrow> ledger s out (give_res t x s1) (remove1 (t, x) out1)"

definition out_sum :: "(string \<times> real) list \<Rightarrow> string \<Rightarrow> real" where
  "out_sum out t = (\<Sum>p \<leftarrow> filter (\<lambda>p. fst p = t) out. snd p)"

lemma out_sum_Cons [simp]: "out_sum (p # out) t = (if fst p = t then snd p else 0) + out_sum out t"
  by (simp add: out_sum_def)

lemma out_sum_remove1:
  "p \<in> set out \<Longrightarrow> out_sum (remove1 p out) t = out_sum out t - (if fst p = t then snd p else 0)"
  by (induction out) auto

lemma out_sum_member:
  "p \<in> set out \<Longrightarrow> \<forall>q \<in> set out. 0 \<le> snd q \<Longrightarrow> snd p \<le> out_sum out (fst p)"
proof -
  assume p: "p \<in> set out" and nonneg: "\<forall>q \<in> set out. 0 \<le> snd q"
  have "0 \<le> out_sum (remove1 p out) (fst p)"
    unfolding out_sum_def using nonneg by (intro sum_list_nonneg) (auto dest: notin_set_remove1 set_remove1_subset [THEN subsetD])
  then show "snd p \<le> out_sum out (fst p)" using out_sum_remove1 [OF p, of "fst p"] by simp
qed

theorem ledger_balanced:
  "ledger s out s' out' \<Longrightarrow> (\<forall>q \<in> set out. 0 \<le> snd q) \<Longrightarrow> (\<And>t. used s t = out_sum out t) \<Longrightarrow>
   (\<forall>q \<in> set out'. 0 \<le> snd q) \<and> (\<forall>t. used s' t = out_sum out' t)"
proof (induction rule: ledger.induct)
  case (refl s out)
  then show ?case by simp
next
  case (taken s out s1 out1 x t s2)
  then show ?case using take_ok [OF taken.hyps(3)] by simp
next
  case (refused s out s1 out1 t x s2)
  then show ?case using take_fail [OF refused.hyps(2)] by simp
next
  case (given s out s1 out1 t x)
  then have ih: "\<forall>q \<in> set out1. 0 \<le> snd q" "\<forall>t. used s1 t = out_sum out1 t" by auto
  have x: "0 \<le> x" using ih(1) given.hyps(2) by force
  have "x \<le> used s1 t" using out_sum_member [OF given.hyps(2) ih(1)] ih(2) by simp
  then have "used (give_res t x s1) = (used s1)(t := used s1 t - x)" by (rule give_back [OF x])
  moreover have "\<forall>q \<in> set (remove1 (t, x) out1). 0 \<le> snd q"
    using ih(1) by (meson notin_set_remove1)
  ultimately show ?case using ih(2) out_sum_remove1 [OF given.hyps(2)] by simp
qed

end

interpretation budget: resource_pool bg_allocateResource bg_releaseResource bg_used_of
  by unfold_locales
    (auto simp: bg_allocateResource_def bg_releaseResource_def bg_used_of_def fun_eq_iff max_def split: option.splits if_splits)


section \<open>The allocator\<close>

record ComputeRequest =
  cq_requester :: string
  cq_resource_type :: string
  cq_amount :: real
  cq_priority :: real
  cq_timestamp :: u64

record Allocation =
  cl_allocation_id :: u64
  cl_requester :: string
  cl_resource_type :: string
  cl_amount :: real
  cl_granted_at :: u64

text \<open>The allocator and the budget it draws on.\<close>

record ComputeAllocator =
  ca_allocations :: "(u64 \<times> Allocation) list"
  ca_next_allocation_id :: u64
  ca_budget :: RuntimeBudget

definition ca_new :: ComputeAllocator where
  "ca_new = \<lparr>ca_allocations = [], ca_next_allocation_id = 1, ca_budget = bg_new\<rparr>"

definition ca_allocate :: "u64 \<Rightarrow> ComputeRequest \<Rightarrow> ComputeAllocator \<Rightarrow> u64 \<times> ComputeAllocator" where
  "ca_allocate now q c =
     (case bg_allocateResource (cq_resource_type q) (cq_amount q) (ca_budget c) of
        (False, b) \<Rightarrow> (0, c\<lparr>ca_budget := b\<rparr>)
      | (True, b) \<Rightarrow>
          let i = ca_next_allocation_id c;
              a = \<lparr>cl_allocation_id = i, cl_requester = cq_requester q, cl_resource_type = cq_resource_type q,
                   cl_amount = cq_amount q, cl_granted_at = now\<rparr>
          in (i, c\<lparr>ca_next_allocation_id := i + 1, ca_budget := b,
                   ca_allocations := om_put i a (ca_allocations c)\<rparr>))"

definition ca_release :: "u64 \<Rightarrow> ComputeAllocator \<Rightarrow> bool \<times> ComputeAllocator" where
  "ca_release i c =
     (case map_of (ca_allocations c) i of
        None \<Rightarrow> (False, c)
      | Some a \<Rightarrow> (True, c\<lparr>ca_budget := bg_releaseResource (cl_resource_type a) (cl_amount a) (ca_budget c),
                           ca_allocations := AList.delete i (ca_allocations c)\<rparr>))"

definition ca_getAllocationsFor :: "string \<Rightarrow> ComputeAllocator \<Rightarrow> Allocation list" where
  "ca_getAllocationsFor requester c = filter (\<lambda>a. cl_requester a = requester) (map snd (ca_allocations c))"

definition ca_hasAllocation :: "string \<Rightarrow> string \<Rightarrow> ComputeAllocator \<Rightarrow> bool" where
  "ca_hasAllocation requester t c \<longleftrightarrow>
     (\<exists>a \<in> set (map snd (ca_allocations c)). cl_requester a = requester \<and> cl_resource_type a = t)"

datatype EconomyCall = Allocate u64 ComputeRequest | Release u64

fun ca_call :: "ComputeAllocator \<Rightarrow> EconomyCall \<Rightarrow> ComputeAllocator" where
  "ca_call c (Allocate now q) = snd (ca_allocate now q c)"
| "ca_call c (Release i) = snd (ca_release i c)"

definition ca_run :: "EconomyCall list \<Rightarrow> ComputeAllocator" where
  "ca_run cs = foldl ca_call ca_new cs"

fun call_nonneg :: "EconomyCall \<Rightarrow> bool" where
  "call_nonneg (Allocate now q) = (0 \<le> cq_amount q)"
| "call_nonneg (Release i) = True"

definition cl_key :: "u64 \<times> Allocation \<Rightarrow> string \<times> real" where
  "cl_key p = (cl_resource_type (snd p), cl_amount (snd p))"

definition ca_granted :: "ComputeAllocator \<Rightarrow> string \<Rightarrow> real" where
  "ca_granted c t = (\<Sum>a \<leftarrow> filter (\<lambda>a. cl_resource_type a = t) (map snd (ca_allocations c)). cl_amount a)"

definition ca_inv :: "nat \<Rightarrow> ComputeAllocator \<Rightarrow> bool" where
  "ca_inv n c \<longleftrightarrow>
     om_ok (ca_allocations c) \<and> unat (ca_next_allocation_id c) \<le> Suc n \<and> 0 < ca_next_allocation_id c \<and>
     (\<forall>i \<in> fst ` set (ca_allocations c). i < ca_next_allocation_id c) \<and>
     (\<exists>out. budget.ledger bg_new [] (ca_budget c) out \<and> mset out = mset (map cl_key (ca_allocations c)))"

lemma om_put_mset: "k \<notin> fst ` set m \<Longrightarrow> mset (om_put k v m) = add_mset (k, v) (mset m)"
  by (induction k v m rule: om_put.induct) auto

lemma delete_mset:
  "distinct (map fst m) \<Longrightarrow> map_of m k = Some v \<Longrightarrow> mset m = add_mset (k, v) (mset (AList.delete k m))"
proof (induction m)
  case (Cons p m)
  show ?case
  proof (cases "fst p = k")
    case True
    then have "AList.delete k m = m" using Cons.prems(1) by (simp add: delete_id)
    then show ?thesis using True Cons.prems by (cases p) (simp add: AList.delete_eq)
  next
    case False
    then show ?thesis using Cons by (cases p) (simp add: AList.delete_eq)
  qed
qed simp

lemma om_ok_delete: "om_ok m \<Longrightarrow> om_ok (AList.delete k m)"
  by (induction m) (auto simp: AList.delete_eq)

lemma out_sum_mset: "budget.out_sum out t = (\<Sum>p \<in># filter_mset (\<lambda>p. fst p = t) (mset out). snd p)"
  by (simp add: budget.out_sum_def sum_mset_sum_list [symmetric])

lemma out_sum_keys:
  "budget.out_sum (map cl_key m) t = (\<Sum>a \<leftarrow> filter (\<lambda>a. cl_resource_type a = t) (map snd m). cl_amount a)"
  by (induction m) (simp_all add: budget.out_sum_def cl_key_def)

lemma ca_granted_out:
  "mset out = mset (map cl_key (ca_allocations c)) \<Longrightarrow> budget.out_sum out t = ca_granted c t"
  unfolding ca_granted_def out_sum_keys [symmetric] by (simp only: out_sum_mset)

lemma ca_call_inv:
  assumes "ca_inv n c" "call_nonneg call" "Suc n < 2 ^ 64 - 1"
  shows "ca_inv (Suc n) (ca_call c call)"
proof (cases call)
  case (Allocate now q)
  obtain out where out: "budget.ledger bg_new [] (ca_budget c) out" "mset out = mset (map cl_key (ca_allocations c))"
    using assms(1) by (auto simp: ca_inv_def)
  obtain ok b where take: "bg_allocateResource (cq_resource_type q) (cq_amount q) (ca_budget c) = (ok, b)" by fastforce
  show ?thesis
  proof (cases ok)
    case False
    then have "budget.ledger bg_new [] b out" using budget.refused [OF out(1)] take by simp
    then show ?thesis using assms(1) out(2) False take Allocate
      by (auto simp: ca_inv_def ca_allocate_def)
  next
    case True
    have led: "budget.ledger bg_new [] b ((cq_resource_type q, cq_amount q) # out)"
      using budget.taken [OF out(1)] take True assms(2) Allocate by simp
    let ?i = "ca_next_allocation_id c"
    have i: "unat (?i + 1) = Suc (unat ?i)" "?i < ?i + 1"
      using assms(1,3) by (auto simp: ca_inv_def unat_word_ariths word_less_nat_alt)
    have fresh: "?i \<notin> fst ` set (ca_allocations c)" using assms(1) by (auto simp: ca_inv_def)
    show ?thesis using assms(1) out(2) led True take Allocate i fresh
      by (auto simp: ca_inv_def ca_allocate_def Let_def om_put_mset cl_key_def intro: less_trans intro!: exI [of _ "(cq_resource_type q, cq_amount q) # out"])
  qed
next
  case (Release i)
  obtain out where out: "budget.ledger bg_new [] (ca_budget c) out" "mset out = mset (map cl_key (ca_allocations c))"
    using assms(1) by (auto simp: ca_inv_def)
  show ?thesis
  proof (cases "map_of (ca_allocations c) i")
    case None
    then show ?thesis using assms(1) Release by (auto simp: ca_inv_def ca_release_def)
  next
    case (Some a)
    have ms: "mset (ca_allocations c) = add_mset (i, a) (mset (AList.delete i (ca_allocations c)))"
      using assms(1) Some by (intro delete_mset) (simp_all add: ca_inv_def om_ok_distinct)
    let ?p = "(cl_resource_type a, cl_amount a)"
    have p: "mset out = add_mset ?p (mset (map cl_key (AList.delete i (ca_allocations c))))"
      by (simp add: out(2) ms cl_key_def)
    then have "?p \<in> set out" by (metis set_mset_mset union_single_eq_member)
    from budget.given [OF out(1) this] have
      "budget.ledger bg_new [] (bg_releaseResource (cl_resource_type a) (cl_amount a) (ca_budget c)) (remove1 ?p out)" .
    moreover have "mset (remove1 ?p out) = mset (map cl_key (AList.delete i (ca_allocations c)))" by (simp add: p)
    moreover have "set (AList.delete i (ca_allocations c)) \<subseteq> set (ca_allocations c)"
      by (auto simp: AList.delete_eq)
    ultimately show ?thesis using assms(1) Some Release
      by (auto simp: ca_inv_def ca_release_def om_ok_delete)
  qed
qed

text \<open>C36: Conservation. After any allocations of amounts that are not negative and any releases, in any order, what the budget
  of a resource has as used is exactly the sum of the allocations of it that are still live.
\<close>

theorem ca_conservation:
  assumes "list_all call_nonneg cs" "length cs < 2 ^ 64 - 1"
  shows "bg_used_of (ca_budget (ca_run cs)) t = ca_granted (ca_run cs) t"
proof -
  have "ca_inv (length cs) (ca_run cs)"
    using assms
  proof (induction cs rule: rev_induct)
    case Nil
    then show ?case by (auto simp: ca_inv_def ca_run_def ca_new_def intro: budget.ledger.refl)
  next
    case (snoc call cs)
    then show ?case using ca_call_inv [of "length cs" "ca_run cs" call] by (simp add: ca_run_def)
  qed
  then obtain out where out: "budget.ledger bg_new [] (ca_budget (ca_run cs)) out"
    "mset out = mset (map cl_key (ca_allocations (ca_run cs)))" by (auto simp: ca_inv_def)
  have "bg_used_of bg_new t = budget.out_sum [] t" for t
    by (simp add: bg_used_of_def bg_new_def bg_entry_def budget.out_sum_def)
  from budget.ledger_balanced [OF out(1) _ this] show ?thesis by (simp add: ca_granted_out [OF out(2)])
qed

definition gpu_request :: "real \<Rightarrow> ComputeRequest" where
  "gpu_request amount = \<lparr>cq_requester = ''healer'', cq_resource_type = ''gpu_memory'', cq_amount = amount, cq_priority = 1,
     cq_timestamp = 0\<rparr>"

lemma ca_conservation_witness:
  "bg_used_of (ca_budget (ca_run [Allocate 5 (gpu_request 4000), Allocate 6 (gpu_request 100), Release 1,
      Allocate 7 (gpu_request 90), Release 1])) ''gpu_memory'' =
   ca_granted (ca_run [Allocate 5 (gpu_request 4000), Allocate 6 (gpu_request 100), Release 1,
      Allocate 7 (gpu_request 90), Release 1]) ''gpu_memory''"
  by (rule ca_conservation) (simp_all add: gpu_request_def)

text \<open>
  Limits. No history of allocations of amounts that are not negative and of releases takes more of a resource than its
  limit. Nothing refuses a negative amount, though: one of them, a large allocation and its release leave
  more in use than the limit.
\<close>

theorem ca_within_limits:
  assumes "list_all call_nonneg cs"
  shows "list_all (\<lambda>p. bg_used (snd p) \<le> bg_limit (snd p)) (ca_budget (ca_run cs)) \<and>
    bg_used_of (ca_budget (ca_run [Allocate 5 (gpu_request (- 1000)), Allocate 6 (gpu_request 5096), Release 1]))
      ''gpu_memory'' = 5096"
proof
  have put: "list_all P (om_put k v m)" if "list_all P m" "P (k, v)" for P k and v :: 'v and m :: "('k::linorder \<times> 'v) list"
    using that by (induction k v m rule: om_put.induct) auto
  let ?P = "\<lambda>p. 0 \<le> bg_limit (snd p) \<and> bg_used (snd p) \<le> bg_limit (snd (p :: string \<times> BudgetAllocation))"
  let ?Q = "\<lambda>p. 0 \<le> cl_amount (snd (p :: u64 \<times> Allocation))"
  have get: "?P (k, e)" if "list_all ?P m" "map_of m k = Some e" for m k e
    using that(1) map_of_SomeD [OF that(2)] unfolding list_all_iff by (rule bspec)
  have alloc: "list_all ?P (snd (bg_allocateResource t x b))" if "list_all ?P b" for t x b
    using that by (auto simp: bg_allocateResource_def not_less split: option.split intro!: put dest: get [OF that])
  have rel: "list_all ?P (bg_releaseResource t x b)" if "list_all ?P b" "0 \<le> x" for t x b
    using that by (auto simp: bg_releaseResource_def split: option.split intro!: put dest: get [OF that(1)])
  have "list_all ?P (ca_budget (ca_run cs)) \<and> list_all ?Q (ca_allocations (ca_run cs))"
    using assms
  proof (induction cs rule: rev_induct)
    case Nil
    then show ?case by (simp add: ca_run_def ca_new_def bg_new_def bg_entry_def)
  next
    case (snoc c cs)
    then have ih: "list_all ?P (ca_budget (ca_run cs))" "list_all ?Q (ca_allocations (ca_run cs))" by auto
    show ?case
    proof (cases c)
      case (Allocate now q)
      obtain ok b where take: "bg_allocateResource (cq_resource_type q) (cq_amount q) (ca_budget (ca_run cs)) = (ok, b)"
        by fastforce
      then have "list_all ?P b" using alloc [OF ih(1), of "cq_resource_type q" "cq_amount q"] by simp
      then show ?thesis using ih snoc.prems Allocate take
        by (cases ok) (auto simp: ca_run_def ca_allocate_def Let_def intro!: put)
    next
      case (Release i)
      show ?thesis
      proof (cases "map_of (ca_allocations (ca_run cs)) i")
        case None
        then show ?thesis using ih Release by (simp add: ca_run_def ca_release_def)
      next
        case (Some a)
        then have "0 \<le> cl_amount a" using ih(2) map_of_SomeD [OF Some] by (fastforce simp: list_all_iff)
        then have "list_all ?P (bg_releaseResource (cl_resource_type a) (cl_amount a) (ca_budget (ca_run cs)))"
          by (rule rel [OF ih(1)])
        moreover have "list_all ?Q (AList.delete i (ca_allocations (ca_run cs)))"
          using ih(2) by (auto simp: AList.delete_eq list_all_iff)
        ultimately show ?thesis using Some Release by (simp add: ca_run_def ca_release_def)
      qed
    qed
  qed
  then show "list_all (\<lambda>p. bg_used (snd p) \<le> bg_limit (snd p)) (ca_budget (ca_run cs))"
    by (auto simp: list_all_iff)
  show "bg_used_of (ca_budget (ca_run [Allocate 5 (gpu_request (- 1000)), Allocate 6 (gpu_request 5096), Release 1]))
      ''gpu_memory'' = 5096"
    by (simp add: ca_run_def ca_new_def ca_allocate_def ca_release_def gpu_request_def bg_allocateResource_def
        bg_releaseResource_def bg_used_of_def bg_new_def bg_entry_def Let_def)
qed

lemma ca_within_limits_witness:
  "list_all (\<lambda>p. bg_used (snd p) \<le> bg_limit (snd p))
     (ca_budget (ca_run [Allocate 5 (gpu_request 4000), Allocate 6 (gpu_request 100)]))"
  using ca_within_limits [of "[Allocate 5 (gpu_request 4000), Allocate 6 (gpu_request 100)]"]
  by (simp add: gpu_request_def)

end
