(* ===== verification/Governance.thy ===== *)
theory Governance
  imports Complex_Main Base
begin

text \<open>
  \<open>server/governance\<close>: the constitution that decisions of the AI are checked against (\<open>ai_constitution\<close>), the older
  engine for the same purpose (\<open>constitution_engine\<close>) and the permissions of the roles (\<open>permission_model\<close>).
\<close>

section \<open>The constitution\<close>

datatype ConstitutionRuleType = SAFETY | RECOVERABILITY | EXPLAINABILITY | HUMAN_APPROVAL | RESOURCE_LIMIT

record ConstitutionRule =
  cr_id :: u64
  cr_type :: ConstitutionRuleType
  cr_description :: string
  cr_mandatory :: bool

record RuntimeDecision =
  rtd_decision_id :: u64
  rtd_action :: string
  rtd_target_id :: u64
  rtd_payload :: string
  rtd_timestamp :: u64

record AIConstitution =
  aic_rules :: "ConstitutionRule list"
  aic_last_violations :: "string list"

definition aic_rule :: "u64 \<Rightarrow> ConstitutionRuleType \<Rightarrow> string \<Rightarrow> ConstitutionRule" where
  "aic_rule i t d = \<lparr>cr_id = i, cr_type = t, cr_description = d, cr_mandatory = True\<rparr>"

definition aic_new :: AIConstitution where
  "aic_new = \<lparr>aic_rules =
     [aic_rule 1 SAFETY ''AI cannot shutdown all Readers simultaneously'',
      aic_rule 2 SAFETY ''AI cannot delete topology across factories'',
      aic_rule 3 SAFETY ''AI cannot reduce safety policy'',
      aic_rule 4 RECOVERABILITY ''AI cannot modify Proof Ledger'',
      aic_rule 5 EXPLAINABILITY ''All decisions must be explainable'',
      aic_rule 6 RECOVERABILITY ''All recovery must be replayable''],
     aic_last_violations = []\<rparr>"

definition aic_checkSafety :: "RuntimeDecision \<Rightarrow> bool" where
  "aic_checkSafety d \<longleftrightarrow>
     rtd_action d \<noteq> ''shutdown_all_readers'' \<and> \<not> (rtd_action d = ''delete_topology'' \<and> rtd_target_id d = 0) \<and>
     rtd_action d \<noteq> ''reduce_safety_policy''"

definition aic_checkRecoverability :: "RuntimeDecision \<Rightarrow> bool" where
  "aic_checkRecoverability d \<longleftrightarrow> rtd_action d \<noteq> ''modify_proof_ledger''"

definition aic_checkExplainability :: "RuntimeDecision \<Rightarrow> bool" where
  "aic_checkExplainability d \<longleftrightarrow> rtd_action d \<noteq> []"

definition aic_checkResourceLimit :: "RuntimeDecision \<Rightarrow> bool" where
  "aic_checkResourceLimit d \<longleftrightarrow> True"

definition aic_validate :: "RuntimeDecision \<Rightarrow> AIConstitution \<Rightarrow> bool \<times> AIConstitution" where
  "aic_validate d c =
     (let v = (if aic_checkSafety d then [] else [''SAFETY violation'']) @
              (if aic_checkRecoverability d then [] else [''RECOVERABILITY violation'']) @
              (if aic_checkExplainability d then [] else [''EXPLAINABILITY violation'']) @
              (if aic_checkResourceLimit d then [] else [''RESOURCE_LIMIT violation''])
      in (v = [], c\<lparr>aic_last_violations := v\<rparr>))"

definition aic_violations :: "AIConstitution \<Rightarrow> string list" where
  "aic_violations c = aic_last_violations c"

definition aic_addRule :: "ConstitutionRule \<Rightarrow> AIConstitution \<Rightarrow> AIConstitution" where
  "aic_addRule r c = c\<lparr>aic_rules := aic_rules c @ [r]\<rparr>"

definition aic_clearRules :: "AIConstitution \<Rightarrow> AIConstitution" where
  "aic_clearRules c = c\<lparr>aic_rules := []\<rparr>"

section \<open>The engine\<close>

datatype EngineRuleType = ER_SAFETY | ER_RECOVERABILITY | ER_EXPLAINABILITY | ER_ETHICAL | ER_RESOURCE_LIMIT

record EngineRule =
  er_id :: u64
  er_type :: EngineRuleType
  er_description :: string
  er_mandatory :: bool
  er_threshold :: real

record ConstitutionViolation =
  cv_rule_id :: u64
  cv_rule_description :: string
  cv_violation_details :: string

record ConstitutionEngine =
  coe_rules :: "EngineRule list"
  coe_violations :: "ConstitutionViolation list"

definition coe_rule :: "u64 \<Rightarrow> EngineRuleType \<Rightarrow> string \<Rightarrow> real \<Rightarrow> EngineRule" where
  "coe_rule i t d x = \<lparr>er_id = i, er_type = t, er_description = d, er_mandatory = True, er_threshold = x\<rparr>"

definition coe_new :: ConstitutionEngine where
  "coe_new = \<lparr>coe_rules =
     [coe_rule 1 ER_SAFETY ''No more than 5 consecutive INSPECT actions'' 5,
      coe_rule 2 ER_SAFETY ''Cannot isolate all factories simultaneously'' 0,
      coe_rule 3 ER_ETHICAL ''Cannot reduce safety level for performance'' 0,
      coe_rule 4 ER_SAFETY ''Cannot disable reader in high-risk zone'' (7 / 10),
      coe_rule 5 ER_RECOVERABILITY ''All decisions must be rollbackable'' 0],
     coe_violations = []\<rparr>"

definition coe_checkSafetyRules :: "string \<Rightarrow> u64 \<Rightarrow> ConstitutionEngine \<Rightarrow> bool \<times> ConstitutionEngine" where
  "coe_checkSafetyRules action target e =
     (if action = ''isolate_all_factories'' then
        (False, e\<lparr>coe_violations := coe_violations e @
           [\<lparr>cv_rule_id = 2, cv_rule_description = ''Cannot isolate all factories'',
             cv_violation_details = ''Action: '' @ action\<rparr>]\<rparr>)
      else if action = ''disable_reader'' \<and> target > 100 then
        (False, e\<lparr>coe_violations := coe_violations e @
           [\<lparr>cv_rule_id = 4, cv_rule_description = ''Cannot disable reader in high-risk zone'',
             cv_violation_details = ''Target: '' @ to_string (uint target)\<rparr>]\<rparr>)
      else (True, e))"

definition coe_checkEthicalRules :: "string \<Rightarrow> u64 \<Rightarrow> ConstitutionEngine \<Rightarrow> bool \<times> ConstitutionEngine" where
  "coe_checkEthicalRules action target e =
     (if action = ''reduce_safety_for_performance'' then
        (False, e\<lparr>coe_violations := coe_violations e @
           [\<lparr>cv_rule_id = 3, cv_rule_description = ''Cannot reduce safety for performance'',
             cv_violation_details = ''Action: '' @ action\<rparr>]\<rparr>)
      else (True, e))"

definition coe_checkResourceRules :: "string \<Rightarrow> u64 \<Rightarrow> ConstitutionEngine \<Rightarrow> bool \<times> ConstitutionEngine" where
  "coe_checkResourceRules action target e = (True, e)"

definition coe_validate :: "string \<Rightarrow> u64 \<Rightarrow> ConstitutionEngine \<Rightarrow> bool \<times> ConstitutionEngine" where
  "coe_validate action target e =
     (case coe_checkSafetyRules action target (e\<lparr>coe_violations := []\<rparr>) of (safe, e1) \<Rightarrow>
      case coe_checkEthicalRules action target e1 of (ethical, e2) \<Rightarrow>
      case coe_checkResourceRules action target e2 of (resource, e3) \<Rightarrow>
        (safe \<and> ethical \<and> resource, e3))"

definition coe_getViolations :: "ConstitutionEngine \<Rightarrow> ConstitutionViolation list" where
  "coe_getViolations e = coe_violations e"

definition coe_addRule :: "EngineRule \<Rightarrow> ConstitutionEngine \<Rightarrow> ConstitutionEngine" where
  "coe_addRule r e = e\<lparr>coe_rules := coe_rules e @ [r]\<rparr>"

definition coe_removeRule :: "u64 \<Rightarrow> ConstitutionEngine \<Rightarrow> ConstitutionEngine" where
  "coe_removeRule i e = e\<lparr>coe_rules := filter (\<lambda>r. er_id r \<noteq> i) (coe_rules e)\<rparr>"

text \<open>
  What the two check. The constitution refuses exactly five kinds of decision and the engine exactly three, and each
  reports a violation exactly when it refuses. Neither asks its rules: any rules may be added or removed without
  changing an answer, the rules on consecutive inspections, on roll back and on replay are checked by nobody, and the
  high-risk zone is the reader numbers above a hundred.
\<close>

theorem constitution_exact:
  "(fst (aic_validate d c) \<longleftrightarrow>
      rtd_action d \<notin> {[], ''shutdown_all_readers'', ''reduce_safety_policy'', ''modify_proof_ledger''} \<and>
      (rtd_action d, rtd_target_id d) \<noteq> (''delete_topology'', 0)) \<and>
   (aic_violations (snd (aic_validate d c)) = [] \<longleftrightarrow> fst (aic_validate d c)) \<and>
   aic_validate d (aic_addRule r c) = map_prod id (aic_addRule r) (aic_validate d c) \<and>
   aic_validate d (aic_clearRules c) = map_prod id aic_clearRules (aic_validate d c) \<and>
   (fst (coe_validate a t e) \<longleftrightarrow>
      a \<notin> {''isolate_all_factories'', ''reduce_safety_for_performance''} \<and> (a, 100 < t) \<noteq> (''disable_reader'', True)) \<and>
   (coe_getViolations (snd (coe_validate a t e)) = [] \<longleftrightarrow> fst (coe_validate a t e)) \<and>
   coe_validate a t (coe_addRule er e) = map_prod id (coe_addRule er) (coe_validate a t e) \<and>
   coe_validate a t (coe_removeRule i e) = map_prod id (coe_removeRule i) (coe_validate a t e)"
proof -
  have "(fst (aic_validate d c) \<longleftrightarrow>
      rtd_action d \<notin> {[], ''shutdown_all_readers'', ''reduce_safety_policy'', ''modify_proof_ledger''} \<and>
      (rtd_action d, rtd_target_id d) \<noteq> (''delete_topology'', 0))"
    "(aic_violations (snd (aic_validate d c)) = [] \<longleftrightarrow> fst (aic_validate d c))"
    "aic_validate d (aic_addRule r c) = map_prod id (aic_addRule r) (aic_validate d c)"
    "aic_validate d (aic_clearRules c) = map_prod id aic_clearRules (aic_validate d c)"
    by (auto simp: aic_validate_def aic_violations_def aic_addRule_def aic_clearRules_def aic_checkSafety_def
        aic_checkRecoverability_def aic_checkExplainability_def aic_checkResourceLimit_def Let_def)
  moreover have "(fst (coe_validate a t e) \<longleftrightarrow>
      a \<notin> {''isolate_all_factories'', ''reduce_safety_for_performance''} \<and> (a, 100 < t) \<noteq> (''disable_reader'', True))"
    "(coe_getViolations (snd (coe_validate a t e)) = [] \<longleftrightarrow> fst (coe_validate a t e))"
    "coe_validate a t (coe_addRule er e) = map_prod id (coe_addRule er) (coe_validate a t e)"
    "coe_validate a t (coe_removeRule i e) = map_prod id (coe_removeRule i) (coe_validate a t e)"
    by (auto simp: coe_validate_def coe_getViolations_def coe_removeRule_def coe_addRule_def coe_checkSafetyRules_def
        coe_checkEthicalRules_def coe_checkResourceRules_def)
  ultimately show ?thesis by blast
qed

section \<open>Permissions\<close>

datatype RuntimePermission =
  READ_ONLY | MODIFY_POLICY | MODIFY_TOPOLOGY | CONTROL_GPU | FACTORY_ISOLATION | EMERGENCY_STOP

datatype AIRole = OBSERVER | OPTIMIZER | HEALER | ADMINISTRATOR

record PermissionModel =
  pmd_current_role :: AIRole

definition pmd_new :: PermissionModel where
  "pmd_new = \<lparr>pmd_current_role = OBSERVER\<rparr>"

fun pmd_getPermissionsForRole :: "AIRole \<Rightarrow> RuntimePermission list" where
  "pmd_getPermissionsForRole OBSERVER = [READ_ONLY]"
| "pmd_getPermissionsForRole OPTIMIZER = [READ_ONLY, MODIFY_POLICY, MODIFY_TOPOLOGY, CONTROL_GPU]"
| "pmd_getPermissionsForRole HEALER = [READ_ONLY, FACTORY_ISOLATION, EMERGENCY_STOP]"
| "pmd_getPermissionsForRole ADMINISTRATOR =
     [READ_ONLY, MODIFY_POLICY, MODIFY_TOPOLOGY, CONTROL_GPU, FACTORY_ISOLATION, EMERGENCY_STOP]"

definition pmd_hasPermission :: "AIRole \<Rightarrow> RuntimePermission \<Rightarrow> PermissionModel \<Rightarrow> bool" where
  "pmd_hasPermission role p m \<longleftrightarrow> p \<in> set (pmd_getPermissionsForRole role)"

definition pmd_grantPermission :: "AIRole \<Rightarrow> RuntimePermission \<Rightarrow> PermissionModel \<Rightarrow> PermissionModel" where
  "pmd_grantPermission role p m = m"

definition pmd_revokePermission :: "AIRole \<Rightarrow> RuntimePermission \<Rightarrow> PermissionModel \<Rightarrow> PermissionModel" where
  "pmd_revokePermission role p m = m"

definition pmd_setRole :: "AIRole \<Rightarrow> PermissionModel \<Rightarrow> PermissionModel" where
  "pmd_setRole role m = m\<lparr>pmd_current_role := role\<rparr>"

definition pmd_getCurrentRole :: "PermissionModel \<Rightarrow> AIRole" where
  "pmd_getCurrentRole m = pmd_current_role m"

text \<open>
  Permissions of the roles. The administrator may everything, every role may read, and what the optimizer and the healer
  may besides reading has nothing in common; a permission that was just granted is missing and one that was just
  revoked is there, whenever the role did not have it, or had it, from the start.
\<close>

theorem permissions_fixed:
  "pmd_hasPermission ADMINISTRATOR p m \<and> pmd_hasPermission role READ_ONLY m \<and>
   (pmd_hasPermission OPTIMIZER p m \<and> pmd_hasPermission HEALER p m \<longleftrightarrow> p = READ_ONLY) \<and>
   pmd_hasPermission role p (pmd_grantPermission role p m) = pmd_hasPermission role p pmd_new \<and>
   pmd_hasPermission role p (pmd_revokePermission role p m) = pmd_hasPermission role p pmd_new"
  by (cases p; cases role)
    (simp_all add: pmd_hasPermission_def pmd_grantPermission_def pmd_revokePermission_def)

end
