(* ===== verification/Spatial_Query.thy ===== *)
theory Spatial_Query
  imports Factory_Map
begin

text \<open>
  \<open>server/spatial_query\<close>: the index of asset positions (\<open>spatial_index_v2\<close>), the zones (\<open>geofence_query\<close>), the
  trajectories (\<open>trajectory_query\<close>) and the engine in front of them (\<open>spatial_query_engine\<close>). The four singletons
  are the members of one record. Floats are reals; a division by zero, which gives infinities and NaN in the code,
  is the value \<open>None\<close> where the code can come to it.
\<close>

section \<open>The index\<close>

record SpatialPoint =
  spt_id :: u64
  spt_x :: real
  spt_y :: real
  spt_z :: real
  spt_timestamp :: u64

record SpatialRect =
  srt_min_x :: real
  srt_max_x :: real
  srt_min_y :: real
  srt_max_y :: real

record SpatialCircle =
  scl_center_x :: real
  scl_center_y :: real
  scl_radius :: real

definition six_insert :: "SpatialPoint \<Rightarrow> SpatialPoint list \<Rightarrow> SpatialPoint list" where
  "six_insert p ix = ix @ [p]"

definition six_remove :: "u64 \<Rightarrow> SpatialPoint list \<Rightarrow> SpatialPoint list" where
  "six_remove i ix = filter (\<lambda>p. spt_id p \<noteq> i) ix"

definition six_update :: "u64 \<Rightarrow> real \<Rightarrow> real \<Rightarrow> real \<Rightarrow> SpatialPoint list \<Rightarrow> SpatialPoint list" where
  "six_update i x y z ix =
     update_first (\<lambda>p. spt_id p = i) (\<lambda>p. p\<lparr>spt_x := x, spt_y := y, spt_z := z, spt_timestamp := 0\<rparr>) ix"

definition six_queryRect :: "SpatialRect \<Rightarrow> SpatialPoint list \<Rightarrow> SpatialPoint list" where
  "six_queryRect r ix = filter (\<lambda>p. spt_x p \<ge> srt_min_x r \<and> spt_x p \<le> srt_max_x r \<and>
     spt_y p \<ge> srt_min_y r \<and> spt_y p \<le> srt_max_y r) ix"

definition six_queryCircle :: "SpatialCircle \<Rightarrow> SpatialPoint list \<Rightarrow> SpatialPoint list" where
  "six_queryCircle c ix =
     filter (\<lambda>p. let dx = spt_x p - scl_center_x c; dy = spt_y p - scl_center_y c; dist_sq = dx * dx + dy * dy
                 in dist_sq \<le> scl_radius c * scl_radius c) ix"

definition six_queryNearby :: "real \<Rightarrow> real \<Rightarrow> real \<Rightarrow> SpatialPoint list \<Rightarrow> SpatialPoint list" where
  "six_queryNearby x y radius ix =
     six_queryCircle \<lparr>scl_center_x = x, scl_center_y = y, scl_radius = radius\<rparr> ix"

definition six_size :: "SpatialPoint list \<Rightarrow> nat" where
  "six_size ix = length ix"

definition six_clear :: "SpatialPoint list \<Rightarrow> SpatialPoint list" where
  "six_clear ix = []"

section \<open>Zones\<close>

datatype GeofenceType = RECTANGLE | CIRCLE | POLYGON

record Geofence =
  gf_zone_id :: u64
  gf_name :: string
  gf_type :: GeofenceType
  gf_rect :: SpatialRect
  gf_circle :: SpatialCircle
  gf_polygon :: "(real \<times> real) list"

record AssetInZone =
  az_asset_id :: u64
  az_epc :: string
  az_x :: real
  az_y :: real
  az_confidence :: real

type_synonym zone_map = "(u64 \<times> Geofence) list"

definition gq_addZone :: "Geofence \<Rightarrow> zone_map \<Rightarrow> zone_map" where
  "gq_addZone z zs = om_put (gf_zone_id z) z zs"

definition gq_removeZone :: "u64 \<Rightarrow> zone_map \<Rightarrow> zone_map" where
  "gq_removeZone i zs = AList.delete i zs"

definition gq_updateZone :: "u64 \<Rightarrow> Geofence \<Rightarrow> zone_map \<Rightarrow> zone_map" where
  "gq_updateZone i z zs = om_put i z zs"

definition az_of :: "SpatialPoint \<Rightarrow> AssetInZone" where
  "az_of p = \<lparr>az_asset_id = spt_id p, az_epc = [], az_x = spt_x p, az_y = spt_y p, az_confidence = 1\<rparr>"

text \<open>One edge of the polygon: does the ray from the point to the right cross it?\<close>

definition gq_crosses :: "real \<Rightarrow> real \<Rightarrow> real \<times> real \<Rightarrow> real \<times> real \<Rightarrow> bool" where
  "gq_crosses x y j i =
     (case i of (xi, yi) \<Rightarrow> case j of (xj, yj) \<Rightarrow>
        (yi > y) \<noteq> (yj > y) \<and> x < (xj - xi) * (y - yi) / (yj - yi) + xi)"

text \<open>The loop over the edges; \<open>j\<close> is the vertex before.\<close>

fun gq_edges :: "real \<Rightarrow> real \<Rightarrow> real \<times> real \<Rightarrow> (real \<times> real) list \<Rightarrow> bool \<Rightarrow> bool" where
  "gq_edges x y j [] inside = inside"
| "gq_edges x y j (i # is) inside = gq_edges x y i is (if gq_crosses x y j i then \<not> inside else inside)"

definition gq_isPointInPolygon :: "real \<Rightarrow> real \<Rightarrow> (real \<times> real) list \<Rightarrow> bool" where
  "gq_isPointInPolygon x y polygon = (if polygon = [] then False else gq_edges x y (last polygon) polygon False)"

definition gq_queryAssetsInZone :: "u64 \<Rightarrow> zone_map \<Rightarrow> SpatialPoint list \<Rightarrow> fault + AssetInZone list" where
  "gq_queryAssetsInZone i zs ix =
     (case map_of zs i of
        None \<Rightarrow> Inr []
      | Some zone \<Rightarrow>
          (case gf_type zone of
             RECTANGLE \<Rightarrow> Inr (map az_of (six_queryRect (gf_rect zone) ix))
           | CIRCLE \<Rightarrow> Inr (map az_of (six_queryCircle (gf_circle zone) ix))
           | POLYGON \<Rightarrow>
               (case gf_polygon zone of
                  [] \<Rightarrow> Inl OutOfRange
                | v # vs \<Rightarrow>
                    Inr (map az_of (filter (\<lambda>p. gq_isPointInPolygon (spt_x p) (spt_y p) (v # vs))
                      (six_queryNearby (fst v) (snd v) 100 ix))))))"

definition gq_queryAssetsInZoneByName :: "string \<Rightarrow> zone_map \<Rightarrow> SpatialPoint list \<Rightarrow> fault + AssetInZone list" where
  "gq_queryAssetsInZoneByName name zs ix =
     (case find (\<lambda>p. gf_name (snd p) = name) zs of
        None \<Rightarrow> Inr []
      | Some p \<Rightarrow> gq_queryAssetsInZone (fst p) zs ix)"

definition gq_getZones :: "zone_map \<Rightarrow> Geofence list" where
  "gq_getZones zs = map snd zs"

definition gq_getZone :: "u64 \<Rightarrow> zone_map \<Rightarrow> Geofence option" where
  "gq_getZone i zs = map_of zs i"

definition gq_isPointInZone :: "real \<Rightarrow> real \<Rightarrow> u64 \<Rightarrow> zone_map \<Rightarrow> bool" where
  "gq_isPointInZone x y i zs =
     (case map_of zs i of
        None \<Rightarrow> False
      | Some zone \<Rightarrow>
          (case gf_type zone of
             RECTANGLE \<Rightarrow> x \<ge> srt_min_x (gf_rect zone) \<and> x \<le> srt_max_x (gf_rect zone) \<and>
               y \<ge> srt_min_y (gf_rect zone) \<and> y \<le> srt_max_y (gf_rect zone)
           | CIRCLE \<Rightarrow>
               (let dx = x - scl_center_x (gf_circle zone); dy = y - scl_center_y (gf_circle zone)
                in dx * dx + dy * dy \<le> scl_radius (gf_circle zone) * scl_radius (gf_circle zone))
           | POLYGON \<Rightarrow> gq_isPointInPolygon x y (gf_polygon zone)))"

section \<open>Trajectories\<close>

record QueryPoint =
  qp_asset_id :: u64
  qp_x :: real
  qp_y :: real
  qp_z :: real
  qp_timestamp :: u64
  qp_confidence :: real

record TrajectoryQueryResult =
  tqr_asset_id :: u64
  tqr_epc :: string
  tqr_points :: "QueryPoint list"

type_synonym trajectory_map = "(u64 \<times> QueryPoint list) list"

definition tqy_addPoint :: "QueryPoint \<Rightarrow> trajectory_map \<Rightarrow> trajectory_map" where
  "tqy_addPoint p m =
     om_put (qp_asset_id p) ((case map_of m (qp_asset_id p) of None \<Rightarrow> [] | Some ps \<Rightarrow> ps) @ [p]) m"

definition tqy_within :: "u64 \<Rightarrow> u64 \<Rightarrow> QueryPoint \<Rightarrow> bool" where
  "tqy_within start_time end_time p \<longleftrightarrow> qp_timestamp p \<ge> start_time \<and> qp_timestamp p \<le> end_time"

definition tqy_queryAssetTrajectory :: "u64 \<Rightarrow> u64 \<Rightarrow> u64 \<Rightarrow> trajectory_map \<Rightarrow> TrajectoryQueryResult" where
  "tqy_queryAssetTrajectory i start_time end_time m =
     \<lparr>tqr_asset_id = i, tqr_epc = [],
      tqr_points = (case map_of m i of None \<Rightarrow> [] | Some ps \<Rightarrow> filter (tqy_within start_time end_time) ps)\<rparr>"

definition tqy_queryAssetRecent :: "u64 \<Rightarrow> u64 \<Rightarrow> trajectory_map \<Rightarrow> TrajectoryQueryResult" where
  "tqy_queryAssetRecent i duration_ms m =
     (let end_time = 0; start_time = end_time - duration_ms in tqy_queryAssetTrajectory i start_time end_time m)"

definition tqy_queryZoneTrajectory :: "u64 \<Rightarrow> u64 \<Rightarrow> u64 \<Rightarrow> trajectory_map \<Rightarrow> QueryPoint list" where
  "tqy_queryZoneTrajectory zone start_time end_time m =
     concat (map (\<lambda>p. filter (tqy_within start_time end_time) (snd p)) m)"

definition tqy_getPointCount :: "u64 \<Rightarrow> trajectory_map \<Rightarrow> nat" where
  "tqy_getPointCount i m = (case map_of m i of None \<Rightarrow> 0 | Some ps \<Rightarrow> length ps)"

definition tqy_clearAssetHistory :: "u64 \<Rightarrow> trajectory_map \<Rightarrow> trajectory_map" where
  "tqy_clearAssetHistory i m = AList.delete i m"

definition tqy_clearAllHistory :: "trajectory_map \<Rightarrow> trajectory_map" where
  "tqy_clearAllHistory m = []"

section \<open>The engine\<close>

record HeatmapCell =
  hcl_x :: real
  hcl_y :: real
  hcl_density :: "real option"
  hcl_count :: int

record QueryStatistics =
  qst_query_count :: u64
  qst_result_count :: u64
  qst_avg_latency_ms :: real

record SpatialQueryEngine =
  sqe_index :: "SpatialPoint list"
  sqe_zones :: zone_map
  sqe_trajectories :: trajectory_map
  sqe_stats :: QueryStatistics

definition qst_zero :: QueryStatistics where
  "qst_zero = \<lparr>qst_query_count = 0, qst_result_count = 0, qst_avg_latency_ms = 0\<rparr>"

definition sqe_new :: SpatialQueryEngine where
  "sqe_new = \<lparr>sqe_index = [], sqe_zones = [], sqe_trajectories = [], sqe_stats = qst_zero\<rparr>"

definition sqe_initialize :: "SpatialQueryEngine \<Rightarrow> SpatialQueryEngine" where
  "sqe_initialize e = e\<lparr>sqe_stats := qst_zero\<rparr>"

definition sqe_clearCache :: "SpatialQueryEngine \<Rightarrow> SpatialQueryEngine" where
  "sqe_clearCache e = e\<lparr>sqe_index := six_clear (sqe_index e)\<rparr>"

definition sqe_shutdown :: "SpatialQueryEngine \<Rightarrow> SpatialQueryEngine" where
  "sqe_shutdown e = sqe_clearCache e"

definition sqe_tick :: "SpatialQueryEngine \<Rightarrow> SpatialQueryEngine" where
  "sqe_tick e = e"

definition sqe_queryGeofence :: "u64 \<Rightarrow> SpatialQueryEngine \<Rightarrow> fault + AssetInZone list" where
  "sqe_queryGeofence zone e = gq_queryAssetsInZone zone (sqe_zones e) (sqe_index e)"

definition sqe_queryTrajectory :: "u64 \<Rightarrow> u64 \<Rightarrow> u64 \<Rightarrow> SpatialQueryEngine \<Rightarrow> TrajectoryQueryResult" where
  "sqe_queryTrajectory i start_time end_time e = tqy_queryAssetTrajectory i start_time end_time (sqe_trajectories e)"

definition sqe_queryNearby :: "real \<Rightarrow> real \<Rightarrow> real \<Rightarrow> SpatialQueryEngine \<Rightarrow> SpatialPoint list" where
  "sqe_queryNearby x y radius e = six_queryNearby x y radius (sqe_index e)"

definition hcl_add :: "SpatialRect \<Rightarrow> real \<Rightarrow> int \<Rightarrow> int \<Rightarrow> int list list \<Rightarrow> SpatialPoint \<Rightarrow> int list list" where
  "hcl_add area cell_size cells_x cells_y grid p =
     (let ix = trunc_int ((spt_x p - srt_min_x area) / cell_size);
          iy = trunc_int ((spt_y p - srt_min_y area) / cell_size)
      in if ix \<ge> 0 \<and> ix < cells_x \<and> iy \<ge> 0 \<and> iy < cells_y then grid_add (nat iy) (nat ix) 1 grid else grid)"

text \<open>A vector of negative size is a vector of a size beyond the maximal one; 0 / 0 is NaN.\<close>

definition sqe_queryHeatmap :: "SpatialRect \<Rightarrow> real \<Rightarrow> SpatialQueryEngine \<Rightarrow> fault + HeatmapCell list" where
  "sqe_queryHeatmap area cell_size e =
     (let cells_x = trunc_int ((srt_max_x area - srt_min_x area) / cell_size) + 1;
          cells_y = trunc_int ((srt_max_y area - srt_min_y area) / cell_size) + 1
      in if cells_x < 0 \<or> cells_y < 0 then Inl (Thrown ''std::length_error'')
         else let points = six_queryRect area (sqe_index e);
                  grid = foldl (hcl_add area cell_size cells_x cells_y)
                    (replicate (nat cells_y) (replicate (nat cells_x) 0)) points
              in Inr (concat (map (\<lambda>iy. map (\<lambda>ix.
                   \<lparr>hcl_x = srt_min_x area + real ix * cell_size, hcl_y = srt_min_y area + real iy * cell_size,
                    hcl_density = (if points = [] then None else Some (of_int (grid ! iy ! ix) / real (length points))),
                    hcl_count = grid ! iy ! ix\<rparr>) [0..<nat cells_x]) [0..<nat cells_y])))"

definition sqe_updateAssetPosition :: "u64 \<Rightarrow> real \<Rightarrow> real \<Rightarrow> real \<Rightarrow> u64 \<Rightarrow> SpatialQueryEngine \<Rightarrow> SpatialQueryEngine" where
  "sqe_updateAssetPosition i x y z timestamp e = e\<lparr>sqe_index := six_update i x y z (sqe_index e)\<rparr>"

definition sqe_updateAssetTrajectory :: "u64 \<Rightarrow> real \<Rightarrow> real \<Rightarrow> real \<Rightarrow> u64 \<Rightarrow> SpatialQueryEngine \<Rightarrow> SpatialQueryEngine" where
  "sqe_updateAssetTrajectory i x y z timestamp e =
     e\<lparr>sqe_trajectories := tqy_addPoint \<lparr>qp_asset_id = i, qp_x = x, qp_y = y, qp_z = z, qp_timestamp = timestamp,
        qp_confidence = 1\<rparr> (sqe_trajectories e)\<rparr>"

definition sqe_getStatistics :: "SpatialQueryEngine \<Rightarrow> QueryStatistics" where
  "sqe_getStatistics e = sqe_stats e"

definition sqe_updateStatistics :: "u64 \<Rightarrow> real \<Rightarrow> SpatialQueryEngine \<Rightarrow> SpatialQueryEngine" where
  "sqe_updateStatistics result_count latency_ms e =
     (let s = sqe_stats e; n = qst_query_count s + 1
      in e\<lparr>sqe_stats := \<lparr>qst_query_count = n, qst_result_count = qst_result_count s + result_count,
         qst_avg_latency_ms = (qst_avg_latency_ms s * real (unat (n - 1)) + latency_ms) / real (unat n)\<rparr>\<rparr>)"

section \<open>Zones: the queries and the membership test agree\<close>

text \<open>
  What a query of a zone answers. The assets that pass the membership test of the zone, in the order of the index; of a
  polygon only those up to 100 away from its first vertex, and a polygon without vertices is read out of range.
\<close>

theorem gq_zone_query_exact:
  "gq_queryAssetsInZone i zs ix =
     (case map_of zs i of
        None \<Rightarrow> Inr []
      | Some z \<Rightarrow>
          if gf_type z = POLYGON \<and> gf_polygon z = [] then Inl OutOfRange
          else Inr (map az_of (filter (\<lambda>p. gq_isPointInZone (spt_x p) (spt_y p) i zs \<and>
            (if gf_type z = POLYGON
             then (spt_x p - fst (hd (gf_polygon z)))\<^sup>2 + (spt_y p - snd (hd (gf_polygon z)))\<^sup>2 \<le> 100\<^sup>2 else True)) ix)))"
  by (auto simp: gq_queryAssetsInZone_def gq_isPointInZone_def six_queryRect_def six_queryCircle_def six_queryNearby_def
      power2_eq_square Let_def conj_ac split: option.split list.split GeofenceType.split intro!: filter_cong)

section \<open>Polygons\<close>

lemma gq_crosses_sym: "gq_crosses x y j i = gq_crosses x y i j"
proof -
  obtain xi yi xj yj where ij: "i = (xi, yi)" "j = (xj, yj)" by (cases i; cases j)
  have "(xj - xi) * (y - yi) / (yj - yi) + xi = (xi - xj) * (y - yj) / (yi - yj) + xj" if "yi \<noteq> yj"
    using that by (simp add: field_simps)
  then show ?thesis by (auto simp: gq_crosses_def ij)
qed

lemma gq_edges_parity: "gq_edges x y j vs b \<longleftrightarrow> b \<noteq> gq_edges x y j vs False"
proof (induction vs arbitrary: j b)
  case (Cons v vs)
  show ?case using Cons.IH [of v "\<not> b"] Cons.IH [of v True] Cons.IH [of v b] by auto
qed simp

lemma gq_edges_append:
  "gq_edges x y j (us @ vs) b = (gq_edges x y j us b \<noteq> gq_edges x y (last (j # us)) vs False)"
proof (induction us arbitrary: j b)
  case Nil
  then show ?case using gq_edges_parity [of x y j vs b] by auto
next
  case (Cons u us)
  then show ?case by (simp del: last.simps add: last_ConsR)
qed

lemma gq_edges_one [simp]: "gq_edges x y j [i] b = (b \<noteq> gq_crosses x y j i)"
  by auto

lemma gq_inside_path: "gq_isPointInPolygon x y (a # vs) = gq_edges x y a (vs @ [a]) False"
  using gq_edges_append [of x y a vs "[a]" False] gq_edges_append [of x y "last (a # vs)" "[a]" vs False]
  by (cases vs rule: rev_cases) (auto simp: gq_isPointInPolygon_def)

lemma gq_edges_rev: "gq_edges x y a (vs @ [b]) False = gq_edges x y b (rev vs @ [a]) False"
proof (induction vs arbitrary: a)
  case Nil
  then show ?case by (simp add: gq_crosses_sym)
next
  case (Cons v vs)
  have "gq_edges x y a ((v # vs) @ [b]) False = (gq_crosses x y a v \<noteq> gq_edges x y v (vs @ [b]) False)"
    using gq_edges_parity [of x y v "vs @ [b]" True] by auto
  also have "\<dots> = (gq_crosses x y v a \<noteq> gq_edges x y b (rev vs @ [v]) False)"
    by (simp only: Cons.IH gq_crosses_sym [of x y a v])
  also have "\<dots> = gq_edges x y b (rev (v # vs) @ [a]) False"
    using gq_edges_append [of x y b "rev vs @ [v]" "[a]" False] by auto
  finally show ?case .
qed

text \<open>C33: The polygon test. Cutting a polygon along any chord splits its inside (a point is inside the whole exactly when it
  is inside one of the two parts); neither the vertex the list starts with nor its direction matters; and a box
  given by its corners is the box closed to the left and below and open to the right and above.
\<close>

theorem gq_polygon_exact:
  assumes "x0 < x1" "y0 < y1"
  shows "gq_isPointInPolygon x y (a # us @ b # vs) =
      (gq_isPointInPolygon x y (a # us @ [b]) \<noteq> gq_isPointInPolygon x y (b # vs @ [a])) \<and>
    gq_isPointInPolygon x y (rotate1 ps) = gq_isPointInPolygon x y ps \<and>
    gq_isPointInPolygon x y (rev ps) = gq_isPointInPolygon x y ps \<and>
    (gq_isPointInPolygon x y [(x0, y0), (x1, y0), (x1, y1), (x0, y1)] \<longleftrightarrow> x0 \<le> x \<and> x < x1 \<and> y0 \<le> y \<and> y < y1)"
proof (intro conjI)
  show "gq_isPointInPolygon x y (a # us @ b # vs) =
      (gq_isPointInPolygon x y (a # us @ [b]) \<noteq> gq_isPointInPolygon x y (b # vs @ [a]))"
    using gq_edges_append [of x y a "us @ [b]" "vs @ [a]" False] gq_edges_append [of x y a "us @ [b]" "[a]" False]
      gq_edges_append [of x y b "vs @ [a]" "[b]" False]
    by (simp add: gq_inside_path gq_crosses_sym [of x y a b]) blast
  show "gq_isPointInPolygon x y (rotate1 ps) = gq_isPointInPolygon x y ps"
  proof (cases ps)
    case (Cons p qs)
    show ?thesis
    proof (cases qs)
      case (Cons q rs)
      then show ?thesis
        using gq_edges_append [of x y q "rs @ [p]" "[q]" False] gq_edges_append [of x y p "[q]" "rs @ [p]" False] \<open>ps = p # qs\<close>
        by (auto simp: gq_inside_path)
    qed (simp add: \<open>ps = p # qs\<close>)
  qed simp
  show "gq_isPointInPolygon x y (rev ps) = gq_isPointInPolygon x y ps"
  proof (cases ps)
    case (Cons p qs)
    have "gq_isPointInPolygon x y (rev qs @ [p]) = gq_isPointInPolygon x y (p # rev qs)"
    proof (cases "rev qs")
      case (Cons r rs)
      then show ?thesis
        using gq_edges_append [of x y r "rs @ [p]" "[r]" False] gq_edges_append [of x y p "[r]" "rs @ [p]" False]
        by (auto simp: gq_inside_path)
    qed simp
    also have "\<dots> = gq_isPointInPolygon x y (p # qs)"
      using gq_edges_rev [of x y p qs p] by (simp add: gq_inside_path)
    finally show ?thesis by (simp add: Cons)
  qed simp
  show "gq_isPointInPolygon x y [(x0, y0), (x1, y0), (x1, y1), (x0, y1)] \<longleftrightarrow> x0 \<le> x \<and> x < x1 \<and> y0 \<le> y \<and> y < y1"
    using assms by (auto simp: gq_isPointInPolygon_def gq_crosses_def)
qed

lemma gq_polygon_exact_witness:
  "gq_isPointInPolygon 1 1 [(0, 0), (2, 0), (2, 2), (0, 2)] \<and> \<not> gq_isPointInPolygon 2 1 [(0, 0), (2, 0), (2, 2), (0, 2)]"
  using gq_polygon_exact [of 0 2 0 2 1 1] gq_polygon_exact [of 0 2 0 2 2 1] by simp

section \<open>Trajectories\<close>

definition tqy_run :: "QueryPoint list \<Rightarrow> trajectory_map" where
  "tqy_run ps = foldl (\<lambda>m p. tqy_addPoint p m) [] ps"

lemma tqy_run_of:
  "om_ok (tqy_run ps) \<and> map_of (tqy_run ps) i =
     (let qs = filter (\<lambda>p. qp_asset_id p = i) ps in if qs = [] then None else Some qs)"
proof (induction ps arbitrary: i rule: rev_induct)
  case (snoc p ps)
  then show ?case by (auto simp: tqy_run_def tqy_addPoint_def Let_def split: option.split)
qed (simp add: tqy_run_def)

text \<open>
  Trajectories by time. A query gives exactly the points added for the asset with a time in the closed range, in the
  order they were added. A query of the recent points ends at the time 0 instead of now: unless the duration is 0 it
  is empty; the query by zone does not depend on the zone.
\<close>

theorem tqy_trajectory_exact:
  "tqr_points (tqy_queryAssetTrajectory i s t (tqy_run ps)) =
     filter (\<lambda>p. qp_asset_id p = i \<and> s \<le> qp_timestamp p \<and> qp_timestamp p \<le> t) ps \<and>
   tqy_getPointCount i (tqy_run ps) = length (filter (\<lambda>p. qp_asset_id p = i) ps) \<and>
   tqr_points (tqy_queryAssetRecent i d (tqy_run ps)) =
     (if d = 0 then filter (\<lambda>p. qp_asset_id p = i \<and> qp_timestamp p = 0) ps else []) \<and>
   tqy_queryZoneTrajectory z s t m = tqy_queryZoneTrajectory z' s t m"
proof -
  have q: "tqr_points (tqy_queryAssetTrajectory i s t (tqy_run ps)) =
     filter (\<lambda>p. qp_asset_id p = i \<and> s \<le> qp_timestamp p \<and> qp_timestamp p \<le> t) ps" for s t
    using tqy_run_of [of ps i]
    by (auto simp: tqy_queryAssetTrajectory_def tqy_within_def [abs_def] Let_def filter_empty_conv conj_ac intro!: filter_cong)
  have "tqy_getPointCount i (tqy_run ps) = length (filter (\<lambda>p. qp_asset_id p = i) ps)"
    using tqy_run_of [of ps i] by (auto simp: tqy_getPointCount_def Let_def)
  moreover have "tqr_points (tqy_queryAssetRecent i d (tqy_run ps)) =
     (if d = 0 then filter (\<lambda>p. qp_asset_id p = i \<and> qp_timestamp p = 0) ps else [])"
    unfolding tqy_queryAssetRecent_def Let_def q by (auto simp: filter_empty_conv)
  ultimately show ?thesis by (simp add: q tqy_queryZoneTrajectory_def)
qed

section \<open>The heat map\<close>

definition rf_at :: "SpatialPoint \<Rightarrow> RFEnvironmentData" where
  "rf_at p = \<lparr>rf_x = spt_x p, rf_y = spt_y p, rf_rssi = 0, rf_interference = 0\<rparr>"

lemma hcl_add_hm:
  "foldl (hcl_add area cs cx cy) n ps =
     snd (fold (hm_add cs (srt_min_x area) (srt_min_y area) cy cx) (map rf_at ps) (g, n))"
proof (induction ps arbitrary: g n)
  case (Cons p ps)
  obtain g' where "hm_add cs (srt_min_x area) (srt_min_y area) cy cx (rf_at p) (g, n) = (g', hcl_add area cs cx cy n p)"
  proof
    show "hm_add cs (srt_min_x area) (srt_min_y area) cy cx (rf_at p) (g, n) =
        (fst (hm_add cs (srt_min_x area) (srt_min_y area) cy cx (rf_at p) (g, n)), hcl_add area cs cx cy n p)"
      by (simp add: hm_add_def hcl_add_def rf_at_def Let_def)
  qed
  then show ?case by (simp add: Cons.IH [of _ g'])
qed simp

lemma sum_cells:
  fixes f g :: "'a \<Rightarrow> nat"
  assumes "\<forall>p \<in> set ps. f p < C \<and> g p < R"
  shows "(\<Sum>r \<leftarrow> [0..<R]. \<Sum>c \<leftarrow> [0..<C]. int (length (filter (\<lambda>p. f p = c \<and> g p = r) ps))) = int (length ps)"
  using assms
proof (induction ps)
  case (Cons p ps)
  have one: "(\<Sum>r = 0..<R. \<Sum>c = 0..<C. if f p = c \<and> g p = r then 1 else 0) = (1 :: int)"
  proof -
    have "(\<Sum>c = 0..<C. if f p = c \<and> g p = r then 1 else 0) = (if g p = r then 1 else (0 :: int))" for r
      using Cons.prems by (cases "g p = r") simp_all
    then show ?thesis using Cons.prems by simp
  qed
  have "int (length (filter (\<lambda>p. f p = c \<and> g p = r) (p # ps))) =
      (if f p = c \<and> g p = r then 1 else 0) + int (length (filter (\<lambda>p. f p = c \<and> g p = r) ps))" for r c
    by simp
  then show ?case using Cons.IH Cons.prems one
    unfolding interv_sum_list_conv_sum_set_nat by (simp only: sum.distrib) simp
qed (simp add: sum_list_0)

definition hcl_in :: "SpatialRect \<Rightarrow> real \<Rightarrow> nat \<Rightarrow> nat \<Rightarrow> SpatialPoint \<Rightarrow> bool" where
  "hcl_in area cs r c p \<longleftrightarrow>
     srt_min_x area + real c * cs \<le> spt_x p \<and> spt_x p < srt_min_x area + (real c + 1) * cs \<and>
     srt_min_y area + real r * cs \<le> spt_y p \<and> spt_y p < srt_min_y area + (real r + 1) * cs"

text \<open>
  The heat map of an area that is not empty, by cells of a positive size. A cell counts exactly the assets of the area
  in it, closed to the left and below; every asset of the area is counted once; and the densities are NaN when the
  area holds no asset.
\<close>

theorem sqe_heatmap_exact:
  fixes area :: SpatialRect and cs :: real and e :: SpatialQueryEngine
  assumes "0 < cs" "srt_min_x area \<le> srt_max_x area" "srt_min_y area \<le> srt_max_y area"
  defines "ps \<equiv> six_queryRect area (sqe_index e)"
    and "R \<equiv> nat \<lfloor>(srt_max_y area - srt_min_y area) / cs\<rfloor> + 1"
    and "C \<equiv> nat \<lfloor>(srt_max_x area - srt_min_x area) / cs\<rfloor> + 1"
    and "n \<equiv> \<lambda>r c. int (length (filter (hcl_in area cs r c) (six_queryRect area (sqe_index e))))"
  shows "sqe_queryHeatmap area cs e =
      Inr (concat (map (\<lambda>r. map (\<lambda>c. \<lparr>hcl_x = srt_min_x area + real c * cs, hcl_y = srt_min_y area + real r * cs,
        hcl_density = (if ps = [] then None else Some (of_int (n r c) / real (length ps))), hcl_count = n r c\<rparr>)
        [0..<C]) [0..<R])) \<and>
    (\<Sum>r \<leftarrow> [0..<R]. \<Sum>c \<leftarrow> [0..<C]. n r c) = int (length ps)"
proof -
  let ?fx = "\<lambda>p. nat \<lfloor>(spt_x p - srt_min_x area) / cs\<rfloor>" and ?fy = "\<lambda>p. nat \<lfloor>(spt_y p - srt_min_y area) / cs\<rfloor>"
  have t: "trunc_int ((srt_max_x area - srt_min_x area) / cs) + 1 = int C"
    "trunc_int ((srt_max_y area - srt_min_y area) / cs) + 1 = int R"
    using assms(1-3) by (simp_all add: C_def R_def trunc_int_def not_less)
  have area: "srt_min_x area \<le> spt_x p \<and> spt_x p \<le> srt_max_x area \<and> srt_min_y area \<le> spt_y p \<and> spt_y p \<le> srt_max_y area"
    if "p \<in> set ps" for p using that by (auto simp: ps_def six_queryRect_def)
  have cell: "nat \<lfloor>(v - lo) / cs\<rfloor> = k \<longleftrightarrow> lo + real k * cs \<le> v \<and> v < lo + (real k + 1) * cs" if "lo \<le> v" for v lo k
  proof -
    have "nat \<lfloor>(v - lo) / cs\<rfloor> = k \<longleftrightarrow> \<lfloor>(v - lo) / cs\<rfloor> = int k" using that assms(1) by auto
    also have "\<dots> \<longleftrightarrow> real k \<le> (v - lo) / cs \<and> (v - lo) / cs < real k + 1" by (simp add: floor_eq_iff)
    finally show ?thesis using assms(1) by (simp add: field_simps)
  qed
  have inside: "hcl_in area cs r c p \<longleftrightarrow> ?fx p = c \<and> ?fy p = r" if "p \<in> set ps" for r c p
    using area [OF that] by (simp add: hcl_in_def cell conj_assoc)
  have n: "n r c = int (length (filter (\<lambda>p. ?fx p = c \<and> ?fy p = r) ps))" for r c
    unfolding n_def ps_def [symmetric] by (simp only: filter_cong [OF refl inside])
  have at: "hm_at cs (srt_min_x area) (srt_min_y area) r c (rf_at p) \<longleftrightarrow> ?fx p = c \<and> ?fy p = r" if "p \<in> set ps" for r c p
    using area [OF that] assms(1) by (auto simp: hm_at_def rf_at_def trunc_int_def)
  let ?z = "replicate R (replicate C 0) :: int list list"
  let ?zr = "replicate R (replicate C 0) :: real list list"
  obtain g grid where f: "fold (hm_add cs (srt_min_x area) (srt_min_y area) (int R) (int C)) (map rf_at ps) (?zr, ?z) = (g, grid)"
    by fastforce
  have shape: "grid_shape R C ?zr" "grid_shape R C ?z" by (simp_all add: grid_shape_def)
  have grid: "grid ! r ! c = n r c" if "r < R" "c < C" for r c
  proof -
    have "grid ! r ! c = int (length (filter (hm_at cs (srt_min_x area) (srt_min_y area) r c) (map rf_at ps)))"
      using hm_add_fold [OF shape f] that by simp
    also have "\<dots> = n r c"
      unfolding n filter_map o_def length_map by (simp only: filter_cong [OF refl at])
    finally show ?thesis .
  qed
  have folded: "foldl (hcl_add area cs (int C) (int R)) ?z ps = grid" using f by (simp add: hcl_add_hm [where g = ?zr])
  have "sqe_queryHeatmap area cs e = Inr (concat (map (\<lambda>r. map (\<lambda>c. \<lparr>hcl_x = srt_min_x area + real c * cs,
      hcl_y = srt_min_y area + real r * cs,
      hcl_density = (if ps = [] then None else Some (of_int (grid ! r ! c) / real (length ps))), hcl_count = grid ! r ! c\<rparr>)
      [0..<C]) [0..<R]))"
    unfolding sqe_queryHeatmap_def t Let_def ps_def [symmetric] nat_int folded by simp
  moreover have "\<forall>p \<in> set ps. ?fx p < C \<and> ?fy p < R"
  proof
    fix p assume "p \<in> set ps"
    then have "(spt_x p - srt_min_x area) / cs \<le> (srt_max_x area - srt_min_x area) / cs"
      "(spt_y p - srt_min_y area) / cs \<le> (srt_max_y area - srt_min_y area) / cs"
      using area assms(1) by (simp_all add: divide_right_mono)
    then have "?fx p \<le> nat \<lfloor>(srt_max_x area - srt_min_x area) / cs\<rfloor>" "?fy p \<le> nat \<lfloor>(srt_max_y area - srt_min_y area) / cs\<rfloor>"
      by (simp_all add: nat_mono floor_mono)
    then show "?fx p < C \<and> ?fy p < R" by (simp add: C_def R_def)
  qed
  then have "(\<Sum>r \<leftarrow> [0..<R]. \<Sum>c \<leftarrow> [0..<C]. n r c) = int (length ps)" unfolding n by (rule sum_cells)
  moreover have "map (\<lambda>r. map (\<lambda>c. \<lparr>hcl_x = srt_min_x area + real c * cs, hcl_y = srt_min_y area + real r * cs,
      hcl_density = (if ps = [] then None else Some (of_int (grid ! r ! c) / real (length ps))), hcl_count = grid ! r ! c\<rparr>)
      [0..<C]) [0..<R] =
    map (\<lambda>r. map (\<lambda>c. \<lparr>hcl_x = srt_min_x area + real c * cs, hcl_y = srt_min_y area + real r * cs,
      hcl_density = (if ps = [] then None else Some (of_int (n r c) / real (length ps))), hcl_count = n r c\<rparr>)
      [0..<C]) [0..<R]"
    by (intro map_cong refl) (auto simp: grid)
  ultimately show ?thesis by simp
qed

definition sample_area :: SpatialRect where
  "sample_area = \<lparr>srt_min_x = 0, srt_max_x = 1, srt_min_y = 0, srt_max_y = 0\<rparr>"

definition sample_positions :: SpatialQueryEngine where
  "sample_positions = sqe_new\<lparr>sqe_index := six_insert \<lparr>spt_id = 7, spt_x = 1, spt_y = 0, spt_z = 0, spt_timestamp = 0\<rparr> []\<rparr>"

lemma sqe_heatmap_exact_witness:
  "map_sum id (map hcl_count) (sqe_queryHeatmap sample_area 1 sample_positions) = Inr [0, 1]"
  using conjunct1 [OF sqe_heatmap_exact [of 1 sample_area sample_positions]]
  by (simp add: sample_area_def sample_positions_def six_insert_def six_queryRect_def hcl_in_def upt_rec)

section \<open>The engine\<close>

datatype SpatialQueryCall =
    UpdatePosition u64 real real real u64
  | UpdateTrajectory u64 real real real u64
  | AddZone Geofence
  | RemoveZone u64
  | UpdateZone u64 Geofence
  | ClearCache

fun sqe_call :: "SpatialQueryEngine \<Rightarrow> SpatialQueryCall \<Rightarrow> SpatialQueryEngine" where
  "sqe_call e (UpdatePosition i x y z t) = sqe_updateAssetPosition i x y z t e"
| "sqe_call e (UpdateTrajectory i x y z t) = sqe_updateAssetTrajectory i x y z t e"
| "sqe_call e (AddZone g) = e\<lparr>sqe_zones := gq_addZone g (sqe_zones e)\<rparr>"
| "sqe_call e (RemoveZone i) = e\<lparr>sqe_zones := gq_removeZone i (sqe_zones e)\<rparr>"
| "sqe_call e (UpdateZone i g) = e\<lparr>sqe_zones := gq_updateZone i g (sqe_zones e)\<rparr>"
| "sqe_call e ClearCache = sqe_clearCache e"

definition sqe_run :: "SpatialQueryCall list \<Rightarrow> SpatialQueryEngine" where
  "sqe_run cs = foldl sqe_call sqe_new cs"

lemma sqe_call_no_index: "sqe_index e = [] \<Longrightarrow> sqe_index (sqe_call e c) = []"
  by (cases c) (simp_all add: sqe_updateAssetPosition_def sqe_updateAssetTrajectory_def sqe_clearCache_def
      six_update_def six_clear_def)

lemma sqe_run_no_index: "sqe_index (sqe_run cs) = []"
  unfolding sqe_run_def by (induction cs rule: rev_induct) (simp_all add: sqe_new_def sqe_call_no_index)

text \<open>
  The engine's own updates never put an asset into the index: an update of a position changes an entry that is there
  and is otherwise dropped. After any calls of the engine no zone has an asset, nothing is nearby and no heat map has
  a density, while the trajectories hold every point.
\<close>

theorem sqe_positions_lost:
  "sqe_queryGeofence zone (sqe_run cs) \<in> {Inr [], Inl OutOfRange} \<and>
   sqe_queryNearby x y radius (sqe_run cs) = [] \<and>
   (case sqe_queryHeatmap area cell (sqe_run cs) of
      Inl err \<Rightarrow> True | Inr cells \<Rightarrow> list_all (\<lambda>c. hcl_density c = None) cells) \<and>
   tqr_points (sqe_queryTrajectory i 0 (- 1) (sqe_run [UpdatePosition i x y 0 t, UpdateTrajectory i x y 0 t])) =
     [\<lparr>qp_asset_id = i, qp_x = x, qp_y = y, qp_z = 0, qp_timestamp = t, qp_confidence = 1\<rparr>]"
proof -
  have "sqe_queryGeofence zone (sqe_run cs) \<in> {Inr [], Inl OutOfRange}"
    by (simp add: sqe_queryGeofence_def sqe_run_no_index gq_queryAssetsInZone_def six_queryRect_def six_queryCircle_def
        six_queryNearby_def split: option.split GeofenceType.split list.split)
  moreover have "sqe_queryNearby x y radius (sqe_run cs) = []"
    by (simp add: sqe_queryNearby_def sqe_run_no_index six_queryNearby_def six_queryCircle_def)
  moreover have "case sqe_queryHeatmap area cell (sqe_run cs) of
      Inl err \<Rightarrow> True | Inr cells \<Rightarrow> list_all (\<lambda>c. hcl_density c = None) cells"
    by (simp add: sqe_queryHeatmap_def Let_def sqe_run_no_index six_queryRect_def list_all_iff)
  moreover have "t \<le> - 1" for t :: u64 by (rule word_n1_ge)
  then have "tqr_points (sqe_queryTrajectory i 0 (- 1) (sqe_run [UpdatePosition i x y 0 t, UpdateTrajectory i x y 0 t])) =
     [\<lparr>qp_asset_id = i, qp_x = x, qp_y = y, qp_z = 0, qp_timestamp = t, qp_confidence = 1\<rparr>]"
    by (simp add: sqe_run_def sqe_new_def sqe_updateAssetPosition_def sqe_updateAssetTrajectory_def sqe_queryTrajectory_def
        tqy_queryAssetTrajectory_def tqy_addPoint_def tqy_within_def)
  ultimately show ?thesis by blast
qed

end
