(* ===== verification/Localizers.thy ===== *)
theory Localizers
  imports Spatial_Random
begin

text \<open>
  The solvers of \<open>server/spatial_positioning\<close>: distances from signal strengths (\<open>rssi_localizer\<close>), angles from phases
  (\<open>phase_localizer\<close>, \<open>aoa_solver\<close>), triangulation (\<open>triangulation_engine\<close>), filters over positions (\<open>spatial_filter\<close>)
  and beams (\<open>beamforming_engine\<close>). Doubles and floats are reals, \<open>M_PI\<close> is \<open>pi\<close>. What an uninitialised
  \<open>TagPosition\<close> holds is the argument \<open>u\<close>.
\<close>

section \<open>Data\<close>

record TagObservation =
  lob_epc :: string
  lob_rssi :: real
  lob_phase :: real
  lob_antenna_id :: int
  lob_reader_id :: u64
  lob_timestamp :: real

record TrackedPosition =
  lps_x :: real
  lps_y :: real
  lps_confidence :: real
  lps_velocity_x :: real
  lps_velocity_y :: real
  lps_timestamp :: u64

record PositionProbability =
  lpr_mean_x :: real
  lpr_mean_y :: real
  lpr_covariance_xx :: real
  lpr_covariance_xy :: real
  lpr_covariance_yy :: real

record ReaderPlace =
  lrd_reader_id :: u64
  lrd_x :: real
  lrd_y :: real
  lrd_coverage_radius :: real
  lrd_antenna_count :: int

definition lpr_default :: PositionProbability where
  "lpr_default = \<lparr>lpr_mean_x = 0, lpr_mean_y = 0, lpr_covariance_xx = 1, lpr_covariance_xy = 0, lpr_covariance_yy = 1\<rparr>"

text \<open>One round of the loops that form a weighted mean: the sums of the weighted coordinates and of the weights.\<close>

definition weigh :: "real \<Rightarrow> real \<Rightarrow> real \<Rightarrow> real \<times> real \<times> real \<Rightarrow> real \<times> real \<times> real" where
  "weigh x y w s = (case s of (sx, sy, sw) \<Rightarrow> (sx + x * w, sy + y * w, sw + w))"

section \<open>Signal strength\<close>

definition rsl_estimateDistance :: "real \<Rightarrow> real \<Rightarrow> real \<Rightarrow> real" where
  "rsl_estimateDistance rssi tx_power n =
     (if rssi \<ge> tx_power then 0 else 10 powr ((tx_power - rssi) / (10 * n)))"

definition rsl_calculateDistance :: "real \<Rightarrow> real" where
  "rsl_calculateDistance rssi = rsl_estimateDistance rssi 30 2"

definition rsl_weight :: "TagObservation \<Rightarrow> real" where
  "rsl_weight ob =
     (let distance = rsl_estimateDistance (lob_rssi ob) 30 2 in max (1 / 10) (1 / (distance * distance + 1 / 10)))"

definition lrd_find :: "u64 \<Rightarrow> ReaderPlace list \<Rightarrow> ReaderPlace option" where
  "lrd_find i readers = find (\<lambda>r. lrd_reader_id r = i) readers"

definition rsl_add :: "ReaderPlace list \<Rightarrow> real \<times> real \<times> real \<Rightarrow> TagObservation \<Rightarrow> real \<times> real \<times> real" where
  "rsl_add readers s ob =
     (case lrd_find (lob_reader_id ob) readers of
        None \<Rightarrow> s
      | Some r \<Rightarrow> weigh (lrd_x r) (lrd_y r) (rsl_weight ob) s)"

definition rsl_localize :: "TagObservation list \<Rightarrow> ReaderPlace list \<Rightarrow> PositionProbability" where
  "rsl_localize obs readers =
     (if obs = [] then lpr_default
      else case foldl (rsl_add readers) (0, 0, 0) obs of
        (sum_x, sum_y, sum_weight) \<Rightarrow>
          if sum_weight > 0 then
            lpr_default\<lparr>lpr_mean_x := sum_x / sum_weight, lpr_mean_y := sum_y / sum_weight,
              lpr_covariance_xx := 9, lpr_covariance_yy := 9\<rparr>
          else lpr_default)"

section \<open>Phases\<close>

function wrap_down :: "real \<Rightarrow> real" where
  "wrap_down angle = (if angle > pi then wrap_down (angle - 2 * pi) else angle)"
  by pat_completeness auto
termination
proof (relation "measure (\<lambda>angle. nat \<lceil>angle\<rceil>)")
  fix angle :: real
  assume a: "pi < angle"
  have "\<lceil>angle - 2 * pi\<rceil> \<le> \<lceil>angle - 1\<rceil>" using pi_ge_two by (intro ceiling_mono) simp
  then have "\<lceil>angle - 2 * pi\<rceil> < \<lceil>angle\<rceil>" by simp
  moreover have "0 < \<lceil>angle\<rceil>" using a pi_ge_two by (simp add: less_ceiling_iff)
  ultimately show "(angle - 2 * pi, angle) \<in> measure (\<lambda>angle. nat \<lceil>angle\<rceil>)" by simp
qed simp

function wrap_up :: "real \<Rightarrow> real" where
  "wrap_up angle = (if angle < - pi then wrap_up (angle + 2 * pi) else angle)"
  by pat_completeness auto
termination
proof (relation "measure (\<lambda>angle. nat \<lceil>- angle\<rceil>)")
  fix angle :: real
  assume a: "angle < - pi"
  have "\<lceil>- (angle + 2 * pi)\<rceil> \<le> \<lceil>- angle - 1\<rceil>" using pi_ge_two by (intro ceiling_mono) simp
  then have "\<lceil>- (angle + 2 * pi)\<rceil> < \<lceil>- angle\<rceil>" by simp
  moreover have "0 < \<lceil>- angle\<rceil>" using a pi_ge_two by (simp add: less_ceiling_iff)
  ultimately show "(angle + 2 * pi, angle) \<in> measure (\<lambda>angle. nat \<lceil>- angle\<rceil>)" by simp
qed simp

declare wrap_down.simps [simp del] wrap_up.simps [simp del]

definition wrapToPi :: "real \<Rightarrow> real" where
  "wrapToPi angle = wrap_up (wrap_down angle)"

definition phl_calculatePhaseDifference :: "real \<Rightarrow> real \<Rightarrow> real" where
  "phl_calculatePhaseDifference phase1 phase2 = wrapToPi (phase2 - phase1)"

definition phl_estimateAngle :: "real \<Rightarrow> real \<Rightarrow> real \<Rightarrow> real" where
  "phl_estimateAngle phase_diff antenna_spacing_m wavelength_m =
     (let sin_theta = (phase_diff * wavelength_m) / (2 * pi * antenna_spacing_m)
      in arcsin (max (- 1) (min 1 sin_theta)))"

text \<open>The angle is computed and not used.\<close>

definition phl_localize :: "TagObservation list \<Rightarrow> ReaderPlace list \<Rightarrow> PositionProbability" where
  "phl_localize obs readers =
     (if length obs < 2 then lpr_default
      else case lrd_find (lob_reader_id (obs ! 0)) readers of
        None \<Rightarrow> lpr_default
      | Some r \<Rightarrow>
          let phase_sum = foldl (\<lambda>s i. s + phl_calculatePhaseDifference (lob_phase (obs ! 0)) (lob_phase (obs ! i))) 0
                [1..<length obs];
              avg_phase_diff = phase_sum / real (length obs - 1);
              angle = phl_estimateAngle avg_phase_diff (5 / 100) (122 / 1000)
          in lpr_default\<lparr>lpr_mean_x := lrd_x r, lpr_mean_y := lrd_y r, lpr_covariance_xx := 4, lpr_covariance_yy := 4\<rparr>)"

definition aoas_estimateAngleMUSIC :: "real list \<Rightarrow> real \<Rightarrow> real \<Rightarrow> real" where
  "aoas_estimateAngleMUSIC phases antenna_spacing_m wavelength_m =
     (if length phases < 2 then 0
      else let sum_phase_diff = foldl (\<lambda>s i. s + wrapToPi (phases ! i - phases ! 0)) 0 [1..<length phases];
               avg_diff = sum_phase_diff / real (length phases - 1);
               sin_theta = (avg_diff * wavelength_m) / (2 * pi * antenna_spacing_m)
           in arcsin (max (- 1) (min 1 sin_theta)))"

definition aoas_estimateAngleESPRIT :: "real list \<Rightarrow> real \<Rightarrow> real \<Rightarrow> real" where
  "aoas_estimateAngleESPRIT phases antenna_spacing_m wavelength_m =
     (if length phases < 2 then 0
      else case foldl (\<lambda>(sum_diff, cnt) i. (sum_diff + wrapToPi (phases ! (i + 1) - phases ! i), cnt + 1)) (0, 0 :: int)
             [0..<length phases - 1] of
        (sum_diff, cnt) \<Rightarrow>
          if cnt = 0 then 0
          else let avg_diff = sum_diff / of_int cnt;
                   sin_theta = (avg_diff * wavelength_m) / (2 * pi * antenna_spacing_m)
               in arcsin (max (- 1) (min 1 sin_theta)))"

definition aoas_solve :: "TagObservation list \<Rightarrow> real" where
  "aoas_solve obs =
     (let phases = map lob_phase obs
      in if phases = [] then 0 else aoas_estimateAngleESPRIT phases (5 / 100) (122 / 1000))"

section \<open>Triangulation\<close>

record AngleMeasurement =
  agm_reader_x :: real
  agm_reader_y :: real
  agm_angle_rad :: real
  agm_confidence :: real

definition tri_distance :: "real \<Rightarrow> real \<Rightarrow> real \<Rightarrow> real \<Rightarrow> real" where
  "tri_distance x1 y1 x2 y2 = (let dx = x2 - x1; dy = y2 - y1 in sqrt (dx * dx + dy * dy))"

definition tri_inverse_square :: "real \<Rightarrow> real" where
  "tri_inverse_square d0 = (let d = (if d0 < 1 / 100 then 1 / 100 else d0) in 1 / (d * d))"

definition tri_fromDistances :: "TrackedPosition \<Rightarrow> ReaderPlace list \<Rightarrow> real list \<Rightarrow> TrackedPosition" where
  "tri_fromDistances u readers distances =
     (let pos = u\<lparr>lps_confidence := 0\<rparr>
      in if length readers < 2 \<or> length distances \<noteq> length readers then pos
         else case foldl (\<lambda>s (r, d). weigh (lrd_x r) (lrd_y r) (tri_inverse_square d) s) (0, 0, 0) (zip readers distances) of
           (sum_x, sum_y, sum_weight) \<Rightarrow>
             if sum_weight > 0 then pos\<lparr>lps_x := sum_x / sum_weight, lps_y := sum_y / sum_weight, lps_confidence := 7 / 10\<rparr>
             else pos)"

definition tri_fromAngles :: "TrackedPosition \<Rightarrow> AngleMeasurement list \<Rightarrow> TrackedPosition" where
  "tri_fromAngles u ms =
     (let pos = u\<lparr>lps_confidence := 0\<rparr>
      in if length ms < 2 then pos
         else case foldl (\<lambda>s m. weigh (agm_reader_x m + cos (agm_angle_rad m) * 10) (agm_reader_y m + sin (agm_angle_rad m) * 10)
                (agm_confidence m) s) (0, 0, 0) ms of
           (sum_x, sum_y, sum_weight) \<Rightarrow>
             if sum_weight > 0 then
               pos\<lparr>lps_x := sum_x / sum_weight, lps_y := sum_y / sum_weight, lps_confidence := sum_weight / real (length ms)\<rparr>
             else pos)"

definition tri_triangulate :: "TrackedPosition \<Rightarrow> AngleMeasurement list \<Rightarrow> TrackedPosition" where
  "tri_triangulate u ms = tri_fromAngles u ms"

section \<open>Filters\<close>

definition sfl_gaussian :: "real \<Rightarrow> real \<Rightarrow> real" where
  "sfl_gaussian x sigma = exp (- x * x / (2 * sigma * sigma))"

definition sfl_applyMovingAverage :: "TrackedPosition \<Rightarrow> TrackedPosition list \<Rightarrow> TrackedPosition" where
  "sfl_applyMovingAverage u ps =
     (let pos = u\<lparr>lps_confidence := 0\<rparr>
      in if ps = [] then pos
         else case foldl (\<lambda>s p. weigh (lps_x p) (lps_y p) (lps_confidence p) s) (0, 0, 0) ps of
           (sum_x, sum_y, sum_conf) \<Rightarrow>
             if sum_conf > 0 then
               pos\<lparr>lps_x := sum_x / sum_conf, lps_y := sum_y / sum_conf, lps_confidence := sum_conf / real (length ps)\<rparr>
             else pos)"

definition sfl_median :: "real list \<Rightarrow> real" where
  "sfl_median vs =
     (let xs = sort vs; n = length xs
      in if n mod 2 = 0 then (xs ! (n div 2 - 1) + xs ! (n div 2)) / 2 else xs ! (n div 2))"

definition sfl_applyMedianFilter :: "TrackedPosition \<Rightarrow> TrackedPosition list \<Rightarrow> TrackedPosition" where
  "sfl_applyMedianFilter u ps =
     (let pos = u\<lparr>lps_confidence := 0\<rparr>
      in if ps = [] then pos
         else pos\<lparr>lps_x := sfl_median (map lps_x ps), lps_y := sfl_median (map lps_y ps), lps_confidence := 85 / 100\<rparr>)"

definition sfl_kernel :: "nat \<Rightarrow> nat \<Rightarrow> real" where
  "sfl_kernel n i = sfl_gaussian (of_int \<bar>int i - int (n div 2)\<bar>) (real n / 3)"

definition sfl_applyGaussianFilter :: "TrackedPosition \<Rightarrow> TrackedPosition list \<Rightarrow> TrackedPosition" where
  "sfl_applyGaussianFilter u ps =
     (let pos = u\<lparr>lps_confidence := 0\<rparr>
      in if ps = [] then pos
         else case foldl (\<lambda>s i. weigh (lps_x (ps ! i)) (lps_y (ps ! i)) (sfl_kernel (length ps) i) s) (0, 0, 0) [0..<length ps] of
           (sum_x, sum_y, sum_weight) \<Rightarrow>
             if sum_weight > 0 then pos\<lparr>lps_x := sum_x / sum_weight, lps_y := sum_y / sum_weight, lps_confidence := 9 / 10\<rparr>
             else pos)"

definition sfl_isValidPosition :: "TrackedPosition \<Rightarrow> TrackedPosition \<Rightarrow> real \<Rightarrow> bool" where
  "sfl_isValidPosition pos last_pos max_speed \<longleftrightarrow>
     (let dx = lps_x pos - lps_x last_pos; dy = lps_y pos - lps_y last_pos
      in sqrt (dx * dx + dy * dy) < max_speed)"

section \<open>Beams\<close>

record Beam =
  beam_angle :: real
  beam_power :: real
  beam_confidence :: real

record SpatialEnergyMap =
  sem_resolution :: real
  sem_energy :: "real list list"
  sem_width :: int
  sem_height :: int

definition bfe_phase :: "real list \<Rightarrow> real \<Rightarrow> nat \<Rightarrow> real" where
  "bfe_phase phases target_angle i = phases ! i + (2 * pi * real i * (5 / 100) * sin target_angle) / (122 / 1000)"

definition bfe_calculateBeamPower :: "real list \<Rightarrow> real \<Rightarrow> real" where
  "bfe_calculateBeamPower phases target_angle =
     (if phases = [] then 0
      else case foldl (\<lambda>(re, im) i. (re + cos (bfe_phase phases target_angle i), im + sin (bfe_phase phases target_angle i)))
             (0, 0) [0..<length phases] of
        (sum_real, sum_imag) \<Rightarrow>
          let magnitude = sqrt (sum_real * sum_real + sum_imag * sum_imag)
          in magnitude * magnitude / real (length phases))"

text \<open>The angles of the scan, from \<open>- pi\<close> in steps of 0.01.\<close>

function bfe_angles :: "real \<Rightarrow> real list" where
  "bfe_angles angle = (if angle \<le> pi then angle # bfe_angles (angle + 1 / 100) else [])"
  by pat_completeness auto
termination
proof (relation "measure (\<lambda>angle. nat (\<lfloor>(pi - angle) * 100\<rfloor> + 1))")
  fix angle :: real
  assume "angle \<le> pi"
  then have "0 \<le> \<lfloor>(pi - angle) * 100\<rfloor>" by simp
  moreover have "\<lfloor>(pi - (angle + 1 / 100)) * 100\<rfloor> = \<lfloor>(pi - angle) * 100\<rfloor> - 1"
    using floor_diff_of_int [of "(pi - angle) * 100" 1] by (simp add: algebra_simps)
  ultimately show "(angle + 1 / 100, angle) \<in> measure (\<lambda>angle. nat (\<lfloor>(pi - angle) * 100\<rfloor> + 1))" by simp
qed simp

declare bfe_angles.simps [simp del]

definition bfe_best :: "('a \<Rightarrow> real) \<Rightarrow> 'a \<Rightarrow> 'a list \<Rightarrow> real \<times> 'a" where
  "bfe_best energy first as = foldl (\<lambda>(mp, ba) a. if energy a > mp then (energy a, a) else (mp, ba)) (0, first) as"

definition bfe_formBeams :: "TagObservation list \<Rightarrow> Beam list" where
  "bfe_formBeams obs =
     (if obs = [] then []
      else case bfe_best (bfe_calculateBeamPower (map lob_phase obs)) 0 (bfe_angles (- pi)) of
        (max_power, best_angle) \<Rightarrow>
          [\<lparr>beam_angle = best_angle, beam_power = max_power, beam_confidence = min 1 (max_power / 10)\<rparr>])"

text \<open>A vector of negative size is a vector of a size beyond the maximal one.\<close>

definition bfe_scanSpace :: "TagObservation list \<Rightarrow> real \<Rightarrow> real \<Rightarrow> real \<Rightarrow> fault + SpatialEnergyMap" where
  "bfe_scanSpace obs min_angle max_angle resolution =
     (let num_points = trunc_int ((max_angle - min_angle) / resolution);
          phases = map lob_phase obs
      in if num_points < 0 then Inl (Thrown ''std::length_error'')
         else Inr \<lparr>sem_resolution = resolution,
           sem_energy = [map (\<lambda>i. bfe_calculateBeamPower phases (min_angle + real i * resolution)) [0..<nat num_points]],
           sem_width = num_points, sem_height = 1\<rparr>)"

definition bfe_findMaxEnergyPosition ::
  "TrackedPosition \<Rightarrow> SpatialEnergyMap \<Rightarrow> real \<Rightarrow> real \<Rightarrow> fault + TrackedPosition" where
  "bfe_findMaxEnergyPosition u m origin_x origin_y =
     (let pos = u\<lparr>lps_confidence := 0\<rparr>
      in case sem_energy m of
        [] \<Rightarrow> Inr pos
      | row # _ \<Rightarrow>
          if sem_width m > int (length row) then Inl OutOfRange
          else case bfe_best (\<lambda>i. row ! i) 0 [0..<nat (sem_width m)] of
            (max_energy, max_idx) \<Rightarrow>
              let angle = real max_idx * sem_resolution m - pi; distance = 5
              in Inr (pos\<lparr>lps_x := origin_x + cos angle * distance, lps_y := origin_y + sin angle * distance,
                   lps_confidence := min 1 (max_energy / 10)\<rparr>))"

section \<open>Weighted means\<close>

lemma weigh_sums:
  "foldl (\<lambda>s a. weigh (f a) (g a) (w a) s) (sx, sy, sw) as =
     (sx + (\<Sum>a \<leftarrow> as. f a * w a), sy + (\<Sum>a \<leftarrow> as. g a * w a), sw + (\<Sum>a \<leftarrow> as. w a))"
  by (induction as arbitrary: sx sy sw) (simp_all add: weigh_def)

lemma weighted_mean_between:
  fixes f w :: "'a \<Rightarrow> real"
  assumes "\<forall>a \<in> set as. 0 \<le> w a" "\<forall>a \<in> set as. lo \<le> f a \<and> f a \<le> hi" "0 < (\<Sum>a \<leftarrow> as. w a)"
  shows "lo \<le> (\<Sum>a \<leftarrow> as. f a * w a) / (\<Sum>a \<leftarrow> as. w a)" "(\<Sum>a \<leftarrow> as. f a * w a) / (\<Sum>a \<leftarrow> as. w a) \<le> hi"
proof -
  have "(\<Sum>a \<leftarrow> as. lo * w a) \<le> (\<Sum>a \<leftarrow> as. f a * w a)" "(\<Sum>a \<leftarrow> as. f a * w a) \<le> (\<Sum>a \<leftarrow> as. hi * w a)"
    using assms(1,2) by (auto intro!: sum_list_mono mult_right_mono)
  then show "lo \<le> (\<Sum>a \<leftarrow> as. f a * w a) / (\<Sum>a \<leftarrow> as. w a)" "(\<Sum>a \<leftarrow> as. f a * w a) / (\<Sum>a \<leftarrow> as. w a) \<le> hi"
    using assms(3) by (simp_all add: sum_list_const_mult field_simps)
qed

text \<open>The filter by \<open>find_if\<close> first, the mean over what is known after it.\<close>

definition known :: "ReaderPlace list \<Rightarrow> TagObservation list \<Rightarrow> (TagObservation \<times> ReaderPlace) list" where
  "known readers obs =
     concat (map (\<lambda>ob. case lrd_find (lob_reader_id ob) readers of None \<Rightarrow> [] | Some r \<Rightarrow> [(ob, r)]) obs)"

lemma rsl_add_known:
  "foldl (rsl_add readers) s obs =
     foldl (\<lambda>s p. weigh (lrd_x (snd p)) (lrd_y (snd p)) (rsl_weight (fst p)) s) s (known readers obs)"
  by (induction obs arbitrary: s) (simp_all add: known_def rsl_add_def split: option.split)

lemma rsl_weight_range: "1 / 10 \<le> rsl_weight ob" "rsl_weight ob \<le> 10"
proof -
  show "1 / 10 \<le> rsl_weight ob" by (simp add: rsl_weight_def Let_def)
  have "1 / (d * d + 1 / 10) \<le> 1 / (1 / 10)" for d :: real
    by (intro divide_left_mono mult_pos_pos add_nonneg_pos) simp_all
  then show "rsl_weight ob \<le> 10" by (simp add: rsl_weight_def Let_def)
qed

lemma sum_list_pos: "xs \<noteq> [] \<Longrightarrow> \<forall>x \<in> set xs. 0 < f x \<Longrightarrow> 0 < (\<Sum>x \<leftarrow> xs. f x :: real)"
proof (induction xs)
  case (Cons x xs)
  then show ?case by (cases "xs = []") (auto intro: add_pos_pos)
qed simp

text \<open>
  The position from signal strengths. Without an observation of a known reader it is the origin; otherwise it lies in every
  box that holds the readers observed, because the weights lie between 0.1 and 10: a reader counts at most a hundred
  times another one, however near or far it is.
\<close>

theorem rsl_localize_exact:
  "let ks = known readers obs; p = rsl_localize obs readers; W = (\<Sum>k \<leftarrow> ks. rsl_weight (fst k))
   in if ks = [] then p = lpr_default
      else lpr_mean_x p = (\<Sum>k \<leftarrow> ks. lrd_x (snd k) * rsl_weight (fst k)) / W \<and>
        lpr_mean_y p = (\<Sum>k \<leftarrow> ks. lrd_y (snd k) * rsl_weight (fst k)) / W \<and>
        Min (lrd_x ` snd ` set ks) \<le> lpr_mean_x p \<and> lpr_mean_x p \<le> Max (lrd_x ` snd ` set ks) \<and>
        Min (lrd_y ` snd ` set ks) \<le> lpr_mean_y p \<and> lpr_mean_y p \<le> Max (lrd_y ` snd ` set ks)"
proof (cases "known readers obs = []")
  case True
  then show ?thesis by (simp add: rsl_localize_def rsl_add_known)
next
  case False
  let ?ks = "known readers obs" and ?w = "\<lambda>k. rsl_weight (fst k)"
  have obs: "obs \<noteq> []" using False by (auto simp: known_def)
  have p: "0 < rsl_weight ob" for ob using rsl_weight_range(1) [of ob] by linarith
  have w: "\<forall>k \<in> set ?ks. 0 \<le> ?w k" and w': "\<forall>k \<in> set ?ks. 0 < ?w k" using p less_imp_le by blast+
  have pos: "0 < (\<Sum>k \<leftarrow> ?ks. ?w k)" by (rule sum_list_pos [OF False w'])
  have loc: "lpr_mean_x (rsl_localize obs readers) = (\<Sum>k \<leftarrow> ?ks. lrd_x (snd k) * ?w k) / (\<Sum>k \<leftarrow> ?ks. ?w k)"
    "lpr_mean_y (rsl_localize obs readers) = (\<Sum>k \<leftarrow> ?ks. lrd_y (snd k) * ?w k) / (\<Sum>k \<leftarrow> ?ks. ?w k)"
    using obs pos by (simp_all add: rsl_localize_def rsl_add_known weigh_sums)
  have box: "\<forall>k \<in> set ?ks. Min (f ` snd ` set ?ks) \<le> f (snd k) \<and> f (snd k) \<le> Max (f ` snd ` set ?ks)" for f :: "ReaderPlace \<Rightarrow> real"
    by (simp add: image_image)
  show ?thesis
    using False weighted_mean_between [OF w box [of lrd_x] pos] weighted_mean_between [OF w box [of lrd_y] pos]
    by (simp only: Let_def if_False loc simp_thms)
qed

text \<open>
  Distances from signal strengths, for a positive exponent: below the transmission power the estimate inverts the
  path-loss law and is more than a metre; from the power on it is 0, so no distance up to a metre is ever told.
\<close>

theorem rsl_distance_exact:
  assumes "0 < n"
  shows "(1 < d \<longrightarrow> rsl_estimateDistance (tx - 10 * n * log 10 d) tx n = d) \<and>
    (0 < d \<and> d \<le> 1 \<longrightarrow> rsl_estimateDistance (tx - 10 * n * log 10 d) tx n = 0) \<and>
    (rssi < rssi' \<and> rssi' < tx \<longrightarrow> rsl_estimateDistance rssi' tx n < rsl_estimateDistance rssi tx n) \<and>
    rsl_estimateDistance rssi tx n \<notin> {0 <.. 1}"
proof -
  have "rsl_estimateDistance rssi tx n \<notin> {0 <.. 1}"
  proof (cases "rssi < tx")
    case True
    then have "(10 :: real) powr 0 < 10 powr ((tx - rssi) / (10 * n))" using assms by (intro powr_less_mono) simp_all
    then show ?thesis using True by (simp add: rsl_estimateDistance_def)
  qed (simp add: rsl_estimateDistance_def)
  then show ?thesis using assms
    by (auto simp: rsl_estimateDistance_def zero_less_log_cancel_iff mult_le_0_iff divide_strict_right_mono not_le)
qed

lemma rsl_distance_exact_witness:
  "rsl_estimateDistance (30 - 10 * 2 * log 10 100) 30 2 = 100 \<and> rsl_estimateDistance (30 - 10 * 2 * log 10 1) 30 2 = 0"
  using rsl_distance_exact [of 2 100 30 0 0] rsl_distance_exact [of 2 1 30 0 0] by simp

section \<open>Angles\<close>

lemma wrap_down_spec: "\<exists>k :: nat. wrap_down a = a - 2 * pi * real k \<and> wrap_down a \<le> pi \<and> (k = 0 \<or> - pi < wrap_down a)"
proof (induction a rule: wrap_down.induct)
  case (1 a)
  show ?case
  proof (cases "a > pi")
    case True
    from 1 [OF True] obtain k :: nat where k: "wrap_down (a - 2 * pi) = a - 2 * pi - 2 * pi * real k"
      "wrap_down (a - 2 * pi) \<le> pi" "k = 0 \<or> - pi < wrap_down (a - 2 * pi)" by blast
    have "wrap_down a = wrap_down (a - 2 * pi)" using True by (subst wrap_down.simps) simp
    moreover have "- pi < wrap_down (a - 2 * pi)" using k True by auto
    ultimately have "wrap_down a = a - 2 * pi * real (Suc k) \<and> wrap_down a \<le> pi \<and> - pi < wrap_down a"
      using k by (simp add: algebra_simps)
    then show ?thesis by blast
  next
    case False
    then have "wrap_down a = a - 2 * pi * real 0 \<and> wrap_down a \<le> pi" by (subst (1 2) wrap_down.simps) simp
    then show ?thesis by blast
  qed
qed

lemma wrap_up_spec: "a \<le> pi \<Longrightarrow> \<exists>k :: nat. wrap_up a = a + 2 * pi * real k \<and> - pi \<le> wrap_up a \<and> wrap_up a \<le> pi"
proof (induction a rule: wrap_up.induct)
  case (1 a)
  show ?case
  proof (cases "a < - pi")
    case True
    then have "a + 2 * pi \<le> pi" by simp
    from 1(1) [OF True this] obtain k :: nat where k: "wrap_up (a + 2 * pi) = a + 2 * pi + 2 * pi * real k"
      "- pi \<le> wrap_up (a + 2 * pi)" "wrap_up (a + 2 * pi) \<le> pi" by blast
    have "wrap_up a = wrap_up (a + 2 * pi)" using True by (subst wrap_up.simps) simp
    then have "wrap_up a = a + 2 * pi * real (Suc k) \<and> - pi \<le> wrap_up a \<and> wrap_up a \<le> pi"
      using k by (simp add: algebra_simps)
    then show ?thesis by blast
  next
    case False
    then have "wrap_up a = a + 2 * pi * real 0 \<and> - pi \<le> wrap_up a \<and> wrap_up a \<le> pi"
      using 1(2) by (subst (1 2 3) wrap_up.simps) simp
    then show ?thesis by blast
  qed
qed

lemma wrapToPi_spec: "\<exists>k :: int. wrapToPi a = a + 2 * pi * of_int k \<and> - pi \<le> wrapToPi a \<and> wrapToPi a \<le> pi"
proof -
  obtain k :: nat where k: "wrap_down a = a - 2 * pi * real k" "wrap_down a \<le> pi" using wrap_down_spec by blast
  obtain l :: nat where l: "wrap_up (wrap_down a) = wrap_down a + 2 * pi * real l" "- pi \<le> wrap_up (wrap_down a)"
    "wrap_up (wrap_down a) \<le> pi" using wrap_up_spec [OF k(2)] by blast
  have "wrapToPi a = a + 2 * pi * of_int (int l - int k)" using k l by (simp add: wrapToPi_def algebra_simps)
  then show ?thesis using l unfolding wrapToPi_def by blast
qed

lemma wrapToPi_id: "- pi \<le> a \<Longrightarrow> a \<le> pi \<Longrightarrow> wrapToPi a = a"
  by (simp add: wrapToPi_def wrap_down.simps wrap_up.simps)

text \<open>The phases a plane wave leaves on antennas in a row, \<open>delta\<close> apart.\<close>

definition wave_phases :: "real \<Rightarrow> real \<Rightarrow> nat \<Rightarrow> real list" where
  "wave_phases phi delta n = map (\<lambda>i. phi + real i * delta) [0..<n]"

lemma foldl_plus_nat: "foldl (\<lambda>s i. s + f i) (s :: real) is = s + (\<Sum>i \<leftarrow> is. f i)"
  by (induction "is" arbitrary: s) simp_all

lemma esprit_fold:
  "foldl (\<lambda>(sd, c) i. (sd + f i, c + 1)) (s :: real, c :: int) is = (s + (\<Sum>i \<leftarrow> is. f i), c + int (length is))"
  by (induction "is" arbitrary: s c) simp_all

lemma sum_upto: "(\<Sum>i \<leftarrow> [1..<Suc m]. real i * d) = real m * (real m + 1) / 2 * d"
  by (induction m) (simp_all add: field_simps)

text \<open>
  Wrapping is total, into the range of an angle, by full turns only. On the phases of a plane wave the angle by ESPRIT is
  exact for antennas at most half a wavelength apart. MUSIC compares all antennas with the first and still
  divides by the number of pairs, so with n antennas the sine it finds is n / 2 times the true one.
\<close>

theorem aoas_angles_exact:
  assumes "0 < d" "2 * d \<le> wl" "- (pi / 2) \<le> theta" "theta \<le> pi / 2" "2 \<le> n"
    and "delta = 2 * pi * d * sin theta / wl" "real (n - 1) * \<bar>delta\<bar> \<le> pi"
  shows "aoas_estimateAngleESPRIT (wave_phases phi delta n) d wl = theta \<and>
    aoas_estimateAngleMUSIC (wave_phases phi delta n) d wl = arcsin (max (- 1) (min 1 (real n / 2 * sin theta))) \<and>
    \<bar>wrapToPi a\<bar> \<le> pi \<and> sin (wrapToPi a) = sin a \<and> cos (wrapToPi a) = cos a"
proof (intro conjI)
  obtain k :: int where k: "wrapToPi a = a + 2 * pi * of_int k" "- pi \<le> wrapToPi a" "wrapToPi a \<le> pi"
    using wrapToPi_spec by blast
  show "\<bar>wrapToPi a\<bar> \<le> pi" using k by (simp add: abs_le_iff)
  have p: "sin (2 * pi * of_int k) = 0" "cos (2 * pi * of_int k) = 1"
    using sin_int_2pin [of k] cos_int_2pin [of k] by simp_all
  show "sin (wrapToPi a) = sin a" "cos (wrapToPi a) = cos a" by (simp_all add: k(1) sin_add cos_add p)
  have wl: "0 < wl" using assms(1,2) by simp
  obtain m where n: "n = Suc m" "m \<ge> 1" using assms(5) by (cases n) auto
  have small: "\<bar>real i * delta\<bar> \<le> pi" if "i \<le> m" for i
  proof -
    have "\<bar>real i * delta\<bar> = real i * \<bar>delta\<bar>" by (simp add: abs_mult)
    also have "\<dots> \<le> real m * \<bar>delta\<bar>" using that by (intro mult_right_mono) simp_all
    finally show ?thesis using assms(7) n by simp
  qed
  have wrap: "wrapToPi (real i * delta) = real i * delta" if "i \<le> m" for i
    using small [OF that] by (intro wrapToPi_id) (simp_all add: abs_le_iff)
  have sine: "delta * wl / (2 * pi * d) = sin theta" using assms(1,6) wl by simp
  have clamp: "arcsin (max (- 1) (min 1 (sin theta))) = theta"
    using assms(3,4) by (simp add: max_absorb2 min_absorb2 arcsin_sin)
  have e: "(\<Sum>i \<leftarrow> [0..<m]. wrapToPi (wave_phases phi delta n ! (i + 1) - wave_phases phi delta n ! i)) = real m * delta"
  proof -
    have "(\<Sum>i \<leftarrow> [0..<m]. wrapToPi (wave_phases phi delta n ! (i + 1) - wave_phases phi delta n ! i)) = (\<Sum>i \<leftarrow> [0..<m]. delta)"
    proof (rule arg_cong [where f = sum_list], rule map_cong [OF refl])
      fix i assume "i \<in> set [0..<m]"
      then have "i + 1 < n" "i < n" using n(1) by auto
      then have "wave_phases phi delta n ! (i + 1) - wave_phases phi delta n ! i = real 1 * delta"
        by (simp add: wave_phases_def algebra_simps)
      then show "wrapToPi (wave_phases phi delta n ! (i + 1) - wave_phases phi delta n ! i) = delta"
        using wrap [of 1] n(2) by simp
    qed
    then show ?thesis by (simp add: sum_list_triv)
  qed
  have len: "length (wave_phases phi delta n) = Suc m" by (simp add: wave_phases_def n)
  show "aoas_estimateAngleESPRIT (wave_phases phi delta n) d wl = theta"
    using n(2) e sine clamp by (simp add: aoas_estimateAngleESPRIT_def len esprit_fold Let_def)
  have mu: "(\<Sum>i \<leftarrow> [1..<Suc m]. wrapToPi (wave_phases phi delta n ! i - wave_phases phi delta n ! 0)) =
      real m * (real m + 1) / 2 * delta"
  proof -
    have "(\<Sum>i \<leftarrow> [1..<Suc m]. wrapToPi (wave_phases phi delta n ! i - wave_phases phi delta n ! 0)) =
        (\<Sum>i \<leftarrow> [1..<Suc m]. real i * delta)"
    proof (rule arg_cong [where f = sum_list], rule map_cong [OF refl])
      fix i assume "i \<in> set [1..<Suc m]"
      then have i: "i \<le> m" "i < n" "0 < n" using n(1) by auto
      then have "wave_phases phi delta n ! i - wave_phases phi delta n ! 0 = real i * delta" by (simp add: wave_phases_def)
      then show "wrapToPi (wave_phases phi delta n ! i - wave_phases phi delta n ! 0) = real i * delta"
        using wrap [OF i(1)] by simp
    qed
    then show ?thesis by (simp only: sum_upto)
  qed
  have avg: "real m * (real m + 1) / 2 * delta / real m * wl / (2 * pi * d) = real n / 2 * sin theta"
  proof -
    have "real m \<noteq> 0" using n(2) by simp
    then have "real m * (real m + 1) / 2 * delta / real m = (real m + 1) / 2 * delta" by (simp add: field_simps)
    then show ?thesis using n(2) unfolding sine [symmetric] by (auto simp: n(1))
  qed
  show "aoas_estimateAngleMUSIC (wave_phases phi delta n) d wl = arcsin (max (- 1) (min 1 (real n / 2 * sin theta)))"
  proof -
    have "\<not> Suc m < 2" using n(2) by simp
    then show ?thesis
      unfolding aoas_estimateAngleMUSIC_def len foldl_plus_nat mu Let_def by (simp only: add_0 diff_Suc_1 avg if_False)
  qed
qed

lemma aoas_angles_exact_witness:
  "aoas_estimateAngleESPRIT (wave_phases 0 (2 * pi * (1 / 2) * sin (pi / 6) / 2) 3) (1 / 2) 2 = pi / 6"
  using aoas_angles_exact [of "1 / 2" 2 "pi / 6" 3, OF _ _ _ _ _ refl, of 0 0] pi_ge_two by (simp add: sin_30)

text \<open>The phase solver never looks at a phase: two lists of observations by the same readers give the same position.\<close>

theorem phl_localize_ignores_phases:
  "phl_localize (map (\<lambda>ob. ob\<lparr>lob_phase := f ob\<rparr>) obs) readers = phl_localize obs readers \<and>
   phl_localize obs readers =
     (if length obs < 2 then lpr_default
      else case lrd_find (lob_reader_id (hd obs)) readers of
        None \<Rightarrow> lpr_default
      | Some r \<Rightarrow> \<lparr>lpr_mean_x = lrd_x r, lpr_mean_y = lrd_y r, lpr_covariance_xx = 4, lpr_covariance_xy = 0, lpr_covariance_yy = 4\<rparr>)"
  by (cases obs) (simp_all add: phl_localize_def lpr_default_def Let_def split: option.split)

section \<open>Triangulation is not\<close>

text \<open>A measurement that is right about a tag: the tag is at distance \<open>range_of m\<close> along the measured ray.\<close>

definition sees :: "real \<Rightarrow> real \<Rightarrow> (AngleMeasurement \<Rightarrow> real) \<Rightarrow> AngleMeasurement \<Rightarrow> bool" where
  "sees tx ty range_of m \<longleftrightarrow>
     tx = agm_reader_x m + cos (agm_angle_rad m) * range_of m \<and> ty = agm_reader_y m + sin (agm_angle_rad m) * range_of m"

lemma sum_list_shift:
  "(\<Sum>m \<leftarrow> ms. (c + e m) * w m) = c * (\<Sum>m \<leftarrow> ms. w m) + (\<Sum>m \<leftarrow> ms. e m * w m :: real)"
  by (induction ms) (simp_all add: algebra_simps)

text \<open>
  The position from angles does not intersect the rays: it is the mean of the points ten away from the readers. Even when every
  ray goes through the tag, the error is the weighted mean of what is missing to ten along each ray; so only tags
  ten away from their readers, or lucky ones, are found. The confidence is the mean of the given ones.
\<close>

theorem tri_angles_error:
  assumes "2 \<le> length ms" "0 < (\<Sum>m \<leftarrow> ms. agm_confidence m)" "\<forall>m \<in> set ms. sees tx ty range_of m"
  shows "lps_x (tri_triangulate u ms) - tx =
      (\<Sum>m \<leftarrow> ms. cos (agm_angle_rad m) * (10 - range_of m) * agm_confidence m) / (\<Sum>m \<leftarrow> ms. agm_confidence m) \<and>
    lps_y (tri_triangulate u ms) - ty =
      (\<Sum>m \<leftarrow> ms. sin (agm_angle_rad m) * (10 - range_of m) * agm_confidence m) / (\<Sum>m \<leftarrow> ms. agm_confidence m) \<and>
    lps_confidence (tri_triangulate u ms) = (\<Sum>m \<leftarrow> ms. agm_confidence m) / real (length ms)"
proof -
  let ?W = "\<Sum>m \<leftarrow> ms. agm_confidence m"
  have x: "(\<Sum>m \<leftarrow> ms. (agm_reader_x m + cos (agm_angle_rad m) * 10) * agm_confidence m) =
      (\<Sum>m \<leftarrow> ms. (tx + cos (agm_angle_rad m) * (10 - range_of m)) * agm_confidence m)"
    using assms(3) by (intro arg_cong [where f = sum_list] map_cong refl) (auto simp: sees_def algebra_simps)
  have y: "(\<Sum>m \<leftarrow> ms. (agm_reader_y m + sin (agm_angle_rad m) * 10) * agm_confidence m) =
      (\<Sum>m \<leftarrow> ms. (ty + sin (agm_angle_rad m) * (10 - range_of m)) * agm_confidence m)"
    using assms(3) by (intro arg_cong [where f = sum_list] map_cong refl) (auto simp: sees_def algebra_simps)
  have "tri_triangulate u ms = u\<lparr>lps_confidence := ?W / real (length ms),
      lps_x := (\<Sum>m \<leftarrow> ms. (agm_reader_x m + cos (agm_angle_rad m) * 10) * agm_confidence m) / ?W,
      lps_y := (\<Sum>m \<leftarrow> ms. (agm_reader_y m + sin (agm_angle_rad m) * 10) * agm_confidence m) / ?W\<rparr>"
    using assms(1,2) by (simp add: tri_triangulate_def tri_fromAngles_def weigh_sums Let_def)
  then show ?thesis
    using assms(2) unfolding x y sum_list_shift by (simp add: add_divide_distrib)
qed

definition sample_position :: "real \<Rightarrow> TrackedPosition" where
  "sample_position x = \<lparr>lps_x = x, lps_y = 0, lps_confidence = 1, lps_velocity_x = 0, lps_velocity_y = 0, lps_timestamp = 0\<rparr>"

definition at_angle :: "real \<Rightarrow> AngleMeasurement" where
  "at_angle a = \<lparr>agm_reader_x = 0, agm_reader_y = 0, agm_angle_rad = a, agm_confidence = 1\<rparr>"

lemma tri_angles_error_witness:
  "lps_x (tri_triangulate (sample_position 0) [at_angle 0, at_angle 0]) - 4 = 6"
  using tri_angles_error [of "[at_angle 0, at_angle 0]" 4 0 "\<lambda>_. 4" "sample_position 0"] by (simp add: at_angle_def sees_def)

section \<open>Filters\<close>

lemma sfl_kernel_pos: "0 < sfl_kernel n i"
  by (simp add: sfl_kernel_def sfl_gaussian_def)

lemma nth_mean_map: "(\<Sum>i \<leftarrow> [0..<length ps]. f (ps ! i) * w i) = (\<Sum>p \<leftarrow> zip ps [0..<length ps]. f (fst p) * w (snd p))"
proof -
  have "map (\<lambda>p. f (fst p) * w (snd p)) (zip ps [0..<length ps]) = map (\<lambda>i. f (ps ! i) * w i) [0..<length ps]"
    by (rule nth_equalityI) simp_all
  then show ?thesis by simp
qed

lemma sorted_count_le: "sorted xs \<Longrightarrow> k < length xs \<Longrightarrow> xs ! k \<le> v \<Longrightarrow> k + 1 \<le> length (filter (\<lambda>x. x \<le> v) xs)"
proof -
  assume s: "sorted xs" "k < length xs" "xs ! k \<le> v"
  have "\<forall>x \<in> set (take (k + 1) xs). x \<le> v"
  proof
    fix x assume "x \<in> set (take (k + 1) xs)"
    then obtain i where "i < length (take (k + 1) xs)" "x = take (k + 1) xs ! i" by (metis in_set_conv_nth)
    then have "x = xs ! i" "i \<le> k" by simp_all
    then show "x \<le> v" using s sorted_nth_mono [OF s(1), of i k] by simp
  qed
  then have "filter (\<lambda>x. x \<le> v) (take (k + 1) xs) = take (k + 1) xs" by (simp add: filter_id_conv)
  moreover have "length (filter (\<lambda>x. x \<le> v) xs) =
      length (filter (\<lambda>x. x \<le> v) (take (k + 1) xs)) + length (filter (\<lambda>x. x \<le> v) (drop (k + 1) xs))"
    by (metis append_take_drop_id filter_append length_append)
  ultimately show ?thesis using s(2) by simp
qed

lemma sorted_count_ge: "sorted xs \<Longrightarrow> k < length xs \<Longrightarrow> v \<le> xs ! k \<Longrightarrow> length xs - k \<le> length (filter (\<lambda>x. v \<le> x) xs)"
proof -
  assume s: "sorted xs" "k < length xs" "v \<le> xs ! k"
  have "\<forall>x \<in> set (drop k xs). v \<le> x"
  proof
    fix x assume "x \<in> set (drop k xs)"
    then obtain i where "i < length (drop k xs)" "x = drop k xs ! i" by (metis in_set_conv_nth)
    then have "x = xs ! (k + i)" "k + i < length xs" by simp_all
    then show "v \<le> x" using s sorted_nth_mono [OF s(1), of k "k + i"] by simp
  qed
  then have "filter (\<lambda>x. v \<le> x) (drop k xs) = drop k xs" by (simp add: filter_id_conv)
  moreover have "length (filter (\<lambda>x. v \<le> x) xs) =
      length (filter (\<lambda>x. v \<le> x) (take k xs)) + length (filter (\<lambda>x. v \<le> x) (drop k xs))"
    by (metis append_take_drop_id filter_append length_append)
  ultimately show ?thesis by simp
qed

lemma filter_sort_length: "length (filter P (sort xs)) = length (filter P xs)"
  by (metis mset_filter mset_sort size_mset)

lemma sfl_median_halves:
  assumes "vs \<noteq> []"
  shows "length vs \<le> 2 * length (filter (\<lambda>v. v \<le> sfl_median vs) vs)"
    "length vs \<le> 2 * length (filter (\<lambda>v. sfl_median vs \<le> v) vs)"
proof -
  let ?xs = "sort vs" and ?n = "length vs"
  have s: "sorted ?xs" by simp
  have n: "0 < ?n" using assms by simp
  have "length vs \<le> 2 * length (filter (\<lambda>v. v \<le> sfl_median vs) ?xs) \<and>
      length vs \<le> 2 * length (filter (\<lambda>v. sfl_median vs \<le> v) ?xs)"
  proof (cases "?n mod 2 = 0")
    case True
    let ?k = "?n div 2 - 1"
    obtain j where j: "?n = 2 * j" using True by (auto elim: evenE simp: even_iff_mod_2_eq_zero)
    then have k: "?k < length ?xs" "?n div 2 < length ?xs" "?k + 1 = ?n div 2" "2 * (?n div 2) = ?n"
      using n unfolding length_sort by simp_all
    have m: "sfl_median vs = (?xs ! ?k + ?xs ! (?n div 2)) / 2" using True by (simp add: sfl_median_def Let_def)
    have "?xs ! ?k \<le> ?xs ! (?n div 2)" using s k by (intro sorted_nth_mono) simp_all
    then have "?xs ! ?k \<le> sfl_median vs" "sfl_median vs \<le> ?xs ! (?n div 2)" unfolding m by simp_all
    from sorted_count_le [OF s k(1) this(1)] sorted_count_ge [OF s k(2) this(2)] show ?thesis using k by simp
  next
    case False
    have k: "?n div 2 < length ?xs" "2 * (?n div 2) + 1 = ?n" using False n by auto presburger
    have m: "sfl_median vs = ?xs ! (?n div 2)" using False by (simp add: sfl_median_def Let_def)
    from sorted_count_le [OF s k(1), of "sfl_median vs"] sorted_count_ge [OF s k(1), of "sfl_median vs"] show ?thesis
      using k by (simp add: m)
  qed
  then show "length vs \<le> 2 * length (filter (\<lambda>v. v \<le> sfl_median vs) vs)"
    "length vs \<le> 2 * length (filter (\<lambda>v. sfl_median vs \<le> v) vs)"
    by (simp_all add: filter_sort_length)
qed

text \<open>
  The filters of a history that is not empty. The Gaussian mean, and the moving average when no confidence is negative and one is
  positive, lie between the extremes of the history; of the median, at least half of the values lie on either side, and the order
  of the history does not matter to it.
\<close>

theorem sfl_filters_exact:
  assumes "ps \<noteq> []" "\<forall>p \<in> set ps. lo \<le> lps_x p \<and> lps_x p \<le> hi" "\<forall>p \<in> set ps. 0 \<le> lps_confidence p"
    and "0 < (\<Sum>p \<leftarrow> ps. lps_confidence p)" "mset qs = mset ps"
  shows "lo \<le> lps_x (sfl_applyGaussianFilter u ps) \<and> lps_x (sfl_applyGaussianFilter u ps) \<le> hi \<and>
    lo \<le> lps_x (sfl_applyMovingAverage u ps) \<and> lps_x (sfl_applyMovingAverage u ps) \<le> hi \<and>
    length ps \<le> 2 * length (filter (\<lambda>p. lps_x p \<le> lps_x (sfl_applyMedianFilter u ps)) ps) \<and>
    length ps \<le> 2 * length (filter (\<lambda>p. lps_x (sfl_applyMedianFilter u ps) \<le> lps_x p) ps) \<and>
    sfl_applyMedianFilter u qs = sfl_applyMedianFilter u ps"
proof -
  let ?zs = "zip ps [0..<length ps]" and ?w = "sfl_kernel (length ps)"
  have z: "\<forall>p \<in> set ?zs. 0 \<le> ?w (snd p)" "\<forall>p \<in> set ?zs. lo \<le> lps_x (fst p) \<and> lps_x (fst p) \<le> hi"
    using assms(2) by (auto dest: set_zip_leftD intro: less_imp_le [OF sfl_kernel_pos])
  have zp: "0 < (\<Sum>p \<leftarrow> ?zs. ?w (snd p))" using assms(1) by (intro sum_list_pos) (simp_all add: sfl_kernel_pos)
  have "lps_x (sfl_applyGaussianFilter u ps) = (\<Sum>p \<leftarrow> ?zs. lps_x (fst p) * ?w (snd p)) / (\<Sum>p \<leftarrow> ?zs. ?w (snd p))"
  proof -
    have "(\<Sum>i \<leftarrow> [0..<length ps]. ?w i) = (\<Sum>p \<leftarrow> ?zs. ?w (snd p))"
      using nth_mean_map [where f = "\<lambda>_. 1" and w = ?w and ps = ps] by simp
    then show ?thesis
      using assms(1) zp nth_mean_map [where f = lps_x and w = ?w and ps = ps]
      by (simp add: sfl_applyGaussianFilter_def weigh_sums Let_def)
  qed
  then have g: "lo \<le> lps_x (sfl_applyGaussianFilter u ps)" "lps_x (sfl_applyGaussianFilter u ps) \<le> hi"
    using weighted_mean_between [OF z zp] by simp_all
  have "lps_x (sfl_applyMovingAverage u ps) =
      (\<Sum>p \<leftarrow> ps. lps_x p * lps_confidence p) / (\<Sum>p \<leftarrow> ps. lps_confidence p)"
    using assms(1,4) by (simp add: sfl_applyMovingAverage_def weigh_sums Let_def)
  then have m: "lo \<le> lps_x (sfl_applyMovingAverage u ps)" "lps_x (sfl_applyMovingAverage u ps) \<le> hi"
    using weighted_mean_between [OF assms(3,2,4)] by simp_all
  have med: "lps_x (sfl_applyMedianFilter u ps) = sfl_median (map lps_x ps)"
    using assms(1) by (simp add: sfl_applyMedianFilter_def Let_def)
  have "mset (map f qs) = mset (map f ps)" for f :: "TrackedPosition \<Rightarrow> real" using assms(5) by simp
  then have "sort (map f qs) = sort (map f ps)" for f :: "TrackedPosition \<Rightarrow> real"
    by (metis properties_for_sort sorted_sort mset_sort)
  moreover have "qs \<noteq> []" using assms(1,5) by auto
  ultimately have "sfl_applyMedianFilter u qs = sfl_applyMedianFilter u ps"
    using assms(1) by (simp add: sfl_applyMedianFilter_def sfl_median_def Let_def)
  then show ?thesis
    using g m sfl_median_halves [of "map lps_x ps"] assms(1) by (simp add: med filter_map o_def)
qed

lemma sfl_filters_exact_witness:
  "lps_x (sfl_applyMovingAverage (sample_position 0) [sample_position 0, sample_position 2]) \<le> 2"
  using sfl_filters_exact [of "[sample_position 0, sample_position 2]" 0 2 "[sample_position 2, sample_position 0]" "sample_position 0"]
  by (simp add: sample_position_def add_mset_commute)

section \<open>Beams\<close>

lemma bfe_sums:
  "foldl (\<lambda>(re, im) i. (re + f i, im + g i)) (a :: real, b :: real) is = (a + (\<Sum>i \<leftarrow> is. f i), b + (\<Sum>i \<leftarrow> is. g i))"
  by (induction "is" arbitrary: a b) simp_all

lemma bfe_power_sums:
  "phases \<noteq> [] \<Longrightarrow> bfe_calculateBeamPower phases a =
     ((\<Sum>i \<leftarrow> [0..<length phases]. cos (bfe_phase phases a i))\<^sup>2 +
      (\<Sum>i \<leftarrow> [0..<length phases]. sin (bfe_phase phases a i))\<^sup>2) / real (length phases)"
  by (simp add: bfe_calculateBeamPower_def bfe_sums Let_def power2_eq_square)

lemma cauchy_two: "(a * c + b * d)\<^sup>2 \<le> (a\<^sup>2 + b\<^sup>2) * (c\<^sup>2 + d\<^sup>2 :: real)"
proof -
  have "0 \<le> (a * d - b * c)\<^sup>2" by simp
  then show ?thesis by (simp add: power2_eq_square algebra_simps)
qed

text \<open>The length of a sum of unit vectors is at most their number.\<close>

lemma unit_sums: "(\<Sum>i \<leftarrow> is. cos (f i))\<^sup>2 + (\<Sum>i \<leftarrow> is. sin (f i))\<^sup>2 \<le> (real (length is))\<^sup>2"
proof (induction "is")
  case (Cons i "is")
  let ?c = "\<Sum>i \<leftarrow> is. cos (f i)" and ?s = "\<Sum>i \<leftarrow> is. sin (f i)" and ?n = "real (length is)"
  have "(cos (f i) * ?c + sin (f i) * ?s)\<^sup>2 \<le> ((cos (f i))\<^sup>2 + (sin (f i))\<^sup>2) * (?c\<^sup>2 + ?s\<^sup>2)"
    by (rule cauchy_two)
  then have "(cos (f i) * ?c + sin (f i) * ?s)\<^sup>2 \<le> ?n\<^sup>2" using Cons.IH by simp
  then have "cos (f i) * ?c + sin (f i) * ?s \<le> ?n" by (rule power2_le_imp_le) simp
  moreover have "(cos (f i) + ?c)\<^sup>2 + (sin (f i) + ?s)\<^sup>2 =
      ((cos (f i))\<^sup>2 + (sin (f i))\<^sup>2) + 2 * (cos (f i) * ?c + sin (f i) * ?s) + (?c\<^sup>2 + ?s\<^sup>2)"
    by (simp add: power2_eq_square algebra_simps)
  ultimately have "(cos (f i) + ?c)\<^sup>2 + (sin (f i) + ?s)\<^sup>2 \<le> 1 + 2 * ?n + ?n\<^sup>2" using Cons.IH by simp
  then show ?case by (simp add: power2_eq_square algebra_simps)
qed simp

lemma bfe_power_range: "0 \<le> bfe_calculateBeamPower phases a" "bfe_calculateBeamPower phases a \<le> real (length phases)"
proof -
  have "bfe_calculateBeamPower phases a \<le> real (length phases)" "0 \<le> bfe_calculateBeamPower phases a" if "phases \<noteq> []"
    using unit_sums [of "bfe_phase phases a" "[0..<length phases]"] that
    by (simp_all add: bfe_power_sums divide_le_eq power2_eq_square)
  then show "0 \<le> bfe_calculateBeamPower phases a" "bfe_calculateBeamPower phases a \<le> real (length phases)"
    by (cases "phases = []"; simp add: bfe_calculateBeamPower_def)+
qed

lemma bfe_best_spec:
  assumes "\<forall>a \<in> set as. 0 \<le> f a" "bfe_best f first as = (mp, ba)"
  shows "(\<forall>a \<in> set as. f a \<le> mp) \<and> ((mp = 0 \<and> ba = first) \<or> (0 < mp \<and> ba \<in> set as \<and> f ba = mp))"
  using assms
proof (induction as arbitrary: mp ba rule: rev_induct)
  case (snoc x as)
  obtain m b where mb: "bfe_best f first as = (m, b)" by fastforce
  from snoc.IH [OF _ mb] snoc.prems show ?case
    by (auto simp: bfe_best_def mb [unfolded bfe_best_def] split: if_splits)
qed (simp add: bfe_best_def)

lemma bfe_angles_step: "v \<in> set (bfe_angles a) \<Longrightarrow> \<exists>k. v = a + real k / 100"
proof (induction a rule: bfe_angles.induct)
  case (1 a)
  have "a \<le> pi" using 1(2) by (subst (asm) bfe_angles.simps) (simp split: if_splits)
  then consider "v = a" | "v \<in> set (bfe_angles (a + 1 / 100))" using 1(2) by (subst (asm) bfe_angles.simps) auto
  then show ?case
  proof cases
    case 1
    then show ?thesis by (intro exI [of _ 0]) simp
  next
    case 2
    then obtain k where "v = a + 1 / 100 + real k / 100" using 1(1) [OF \<open>a \<le> pi\<close>] by blast
    then show ?thesis by (intro exI [of _ "Suc k"]) (simp add: add_divide_distrib)
  qed
qed

lemma bfe_angles_all: "a + real k / 100 \<le> pi \<Longrightarrow> a + real k / 100 \<in> set (bfe_angles a)"
proof (induction k arbitrary: a)
  case 0
  then show ?case by (subst bfe_angles.simps) simp
next
  case (Suc k)
  have eq: "a + real (Suc k) / 100 = a + 1 / 100 + real k / 100" by (simp add: add_divide_distrib)
  have "0 \<le> real (Suc k) / 100" by simp
  then have "a \<le> pi" using Suc.prems by linarith
  moreover have "a + 1 / 100 + real k / 100 \<in> set (bfe_angles (a + 1 / 100))" using Suc by (simp only: eq)
  ultimately show ?case unfolding eq by (subst bfe_angles.simps) simp
qed

text \<open>
  The beam. Powers lie between 0 and the number of antennas; the beam formed is the strongest over the whole scan from \<open>- pi\<close>
  to \<open>pi\<close> in steps of a hundredth, and its confidence is at most 1. A direction and its mirror image have
  the same power, so the scan of the full circle cannot tell front from back.
\<close>

theorem bfe_beam_exact:
  assumes "obs \<noteq> []"
  shows "\<exists>b. bfe_formBeams obs = [b] \<and>
    (\<forall>k. - pi + real k / 100 \<le> pi \<longrightarrow> bfe_calculateBeamPower (map lob_phase obs) (- pi + real k / 100) \<le> beam_power b) \<and>
    0 \<le> beam_power b \<and> beam_power b \<le> real (length obs) \<and>
    (0 < beam_power b \<longrightarrow> bfe_calculateBeamPower (map lob_phase obs) (beam_angle b) = beam_power b \<and>
      (\<exists>k. beam_angle b = - pi + real k / 100)) \<and>
    beam_confidence b = min 1 (beam_power b / 10) \<and>
    bfe_calculateBeamPower phases (pi - a) = bfe_calculateBeamPower phases a"
proof -
  let ?p = "bfe_calculateBeamPower (map lob_phase obs)"
  obtain mp ba where b: "bfe_best ?p 0 (bfe_angles (- pi)) = (mp, ba)" by fastforce
  have spec: "\<forall>a \<in> set (bfe_angles (- pi)). ?p a \<le> mp" "(mp = 0 \<and> ba = 0) \<or> (0 < mp \<and> ba \<in> set (bfe_angles (- pi)) \<and> ?p ba = mp)"
    using bfe_best_spec [OF _ b] bfe_power_range(1) by auto
  have beam: "bfe_formBeams obs = [\<lparr>beam_angle = ba, beam_power = mp, beam_confidence = min 1 (mp / 10)\<rparr>]"
    using assms b by (simp add: bfe_formBeams_def)
  have "\<forall>k. - pi + real k / 100 \<le> pi \<longrightarrow> ?p (- pi + real k / 100) \<le> mp"
    using spec(1) bfe_angles_all by blast
  moreover have "mp \<le> real (length obs)" "0 \<le> mp" using spec(2) bfe_power_range [of "map lob_phase obs" ba] by auto
  moreover have "0 < mp \<longrightarrow> ?p ba = mp \<and> (\<exists>k. ba = - pi + real k / 100)" using spec(2) bfe_angles_step by blast
  moreover have "bfe_calculateBeamPower phases (pi - a) = bfe_calculateBeamPower phases a"
    by (simp add: bfe_calculateBeamPower_def bfe_phase_def)
  ultimately show ?thesis unfolding beam by simp
qed

lemma bfe_beam_exact_witness:
  "\<exists>b. bfe_formBeams [\<lparr>lob_epc = [], lob_rssi = 0, lob_phase = 0, lob_antenna_id = 0, lob_reader_id = 0, lob_timestamp = 0\<rparr>] = [b] \<and>
     beam_power b \<le> 1"
  using bfe_beam_exact [of "[\<lparr>lob_epc = [], lob_rssi = 0, lob_phase = 0, lob_antenna_id = 0, lob_reader_id = 0, lob_timestamp = 0\<rparr>]" "[]" 0]
  by auto

end
