(* ===== verification/Position_Engine.thy ===== *)
theory Position_Engine
  imports Localizers Decimal
begin

text \<open>
  \<open>server/spatial_positioning/kalman_tracker\<close> and \<open>tag_position_engine\<close>: the tracker of a tag and the engine that
  feeds the solvers of \<open>Localizers\<close> and keeps a tracker per tag. Matrices are functions of row and column. What an
  uninitialised \<open>TagPosition\<close> holds is the argument \<open>u\<close>, what the inverse holds when it is not computed is
  \<open>junk\<close>.
\<close>

section \<open>The tracker\<close>

type_synonym matrix = "nat \<Rightarrow> nat \<Rightarrow> real"

record KalmanTracker =
  klm_x :: real
  klm_y :: real
  klm_vx :: real
  klm_vy :: real
  klm_P :: matrix
  klm_Q :: matrix
  klm_R :: matrix

definition klm_reset :: KalmanTracker where
  "klm_reset = \<lparr>klm_x = 0, klm_y = 0, klm_vx = 0, klm_vy = 0,
     klm_P = (\<lambda>i j. if i = j then 100 else 0), klm_Q = (\<lambda>i j. if i = j then 1 / 10 else 0),
     klm_R = (\<lambda>i j. [[1, 0], [0, 1]] ! i ! j)\<rparr>"

definition klm_init :: "real \<Rightarrow> real \<Rightarrow> real \<Rightarrow> real \<Rightarrow> KalmanTracker \<Rightarrow> KalmanTracker" where
  "klm_init x y vx vy t = t\<lparr>klm_x := x, klm_y := y, klm_vx := vx, klm_vy := vy\<rparr>"

definition klm_F :: "real \<Rightarrow> matrix" where
  "klm_F dt i j = [[1, 0, dt, 0], [0, 1, 0, dt], [0, 0, 1, 0], [0, 0, 0, 1]] ! i ! j"

definition klm_H :: matrix where
  "klm_H i j = [[1, 0, 0, 0], [0, 1, 0, 0]] ! i ! j"

definition klm_P_pred :: "real \<Rightarrow> KalmanTracker \<Rightarrow> matrix" where
  "klm_P_pred dt t i j = (\<Sum>k \<leftarrow> [0..<4]. klm_F dt i k * klm_P t k j * klm_F dt i j) + klm_Q t i j"

definition klm_S :: "matrix \<Rightarrow> matrix \<Rightarrow> matrix" where
  "klm_S P_pred R i j =
     (\<Sum>k \<leftarrow> [0..<4]. (\<Sum>l \<leftarrow> [0..<4]. klm_H i l * P_pred l k) * klm_H j k) + R i j"

definition klm_inverse :: "matrix \<Rightarrow> matrix \<Rightarrow> matrix" where
  "klm_inverse junk S =
     (let d = S 0 0 * S 1 1 - S 0 1 * S 1 0
      in if d \<noteq> 0 then (\<lambda>i j. [[S 1 1 / d, - S 0 1 / d], [- S 1 0 / d, S 0 0 / d]] ! i ! j) else junk)"

definition klm_K :: "matrix \<Rightarrow> matrix \<Rightarrow> matrix" where
  "klm_K P_pred S_inv i j = (\<Sum>k \<leftarrow> [0..<2]. P_pred i k * klm_H j k * S_inv k j)"

definition klm_getState :: "TrackedPosition \<Rightarrow> KalmanTracker \<Rightarrow> TrackedPosition" where
  "klm_getState u t = u\<lparr>lps_x := klm_x t, lps_y := klm_y t, lps_velocity_x := klm_vx t, lps_velocity_y := klm_vy t,
     lps_confidence := 9 / 10\<rparr>"

definition klm_update ::
  "TrackedPosition \<Rightarrow> matrix \<Rightarrow> real \<Rightarrow> real \<Rightarrow> real \<Rightarrow> KalmanTracker \<Rightarrow> TrackedPosition \<times> KalmanTracker" where
  "klm_update u junk z_x z_y dt t =
     (let P_pred = klm_P_pred dt t;
          S_inv = klm_inverse junk (klm_S P_pred (klm_R t));
          K = klm_K P_pred S_inv;
          y0 = z_x - klm_x t;
          y1 = z_y - klm_y t;
          t' = t\<lparr>klm_x := klm_x t + K 0 0 * y0 + K 0 1 * y1,
                 klm_y := klm_y t + K 1 0 * y0 + K 1 1 * y1,
                 klm_vx := klm_vx t + K 2 0 * y0 + K 2 1 * y1,
                 klm_vy := klm_vy t + K 3 0 * y0 + K 3 1 * y1,
                 klm_P := (\<lambda>i j. P_pred i j - (\<Sum>k \<leftarrow> [0..<2]. K i k * klm_H k j) * P_pred i j)\<rparr>
      in (u\<lparr>lps_x := klm_x t', lps_y := klm_y t', lps_velocity_x := klm_vx t', lps_velocity_y := klm_vy t',
           lps_confidence := 9 / 10\<rparr>, t'))"

section \<open>What the tracker is\<close>

text \<open>The state that matters: one variance for both coordinates.\<close>

definition klm_inv :: "real \<Rightarrow> KalmanTracker \<Rightarrow> bool" where
  "klm_inv p t \<longleftrightarrow> 0 < p \<and> klm_P t 0 0 = p \<and> klm_P t 1 1 = p \<and> klm_P t 2 0 = 0 \<and> klm_P t 3 1 = 0 \<and>
     klm_Q t = klm_Q klm_reset \<and> klm_R t = klm_R klm_reset"

definition next_gain :: "real \<Rightarrow> real" where
  "next_gain p = (p + 1 / 10) / (p + 11 / 10)"

lemma upt_four: "[0..<4] = [0, 1, 2, 3]" "[0..<2] = [0, 1]"
  by (simp_all add: upt_rec)

lemma klm_update_scalar:
  assumes "klm_inv p t"
  shows "klm_x (snd (klm_update u junk z_x z_y dt t)) = klm_x t + next_gain p * (z_x - klm_x t)"
    "klm_y (snd (klm_update u junk z_x z_y dt t)) = klm_y t + next_gain p * (z_y - klm_y t)"
    "klm_vx (snd (klm_update u junk z_x z_y dt t)) = klm_vx t"
    "klm_vy (snd (klm_update u junk z_x z_y dt t)) = klm_vy t"
    "klm_inv (next_gain p) (snd (klm_update u junk z_x z_y dt t))"
proof -
  have p: "0 < p" and P: "klm_P t 0 0 = p" "klm_P t (Suc 0) (Suc 0) = p" "klm_P t 2 0 = 0" "klm_P t 3 (Suc 0) = 0"
    and QR: "klm_Q t = klm_Q klm_reset" "klm_R t = klm_R klm_reset"
    using assms by (simp_all add: klm_inv_def)
  let ?M = "klm_P_pred dt t"
  have M: "?M 0 0 = p + 1 / 10" "?M (Suc 0) (Suc 0) = p + 1 / 10" "?M 0 (Suc 0) = 0" "?M (Suc 0) 0 = 0"
    "?M 2 0 = 0" "?M 2 (Suc 0) = 0" "?M 3 0 = 0" "?M 3 (Suc 0) = 0"
    by (simp_all add: klm_P_pred_def upt_four klm_F_def P P [unfolded numeral_2_eq_2 numeral_3_eq_3] QR klm_reset_def
        numeral_2_eq_2 numeral_3_eq_3)
  have S: "klm_S ?M (klm_R t) 0 0 = p + 11 / 10" "klm_S ?M (klm_R t) (Suc 0) (Suc 0) = p + 11 / 10"
    "klm_S ?M (klm_R t) 0 (Suc 0) = 0" "klm_S ?M (klm_R t) (Suc 0) 0 = 0"
    by (simp_all add: klm_S_def upt_four klm_H_def QR klm_reset_def M)
  have d: "(p + 11 / 10) * (p + 11 / 10) \<noteq> 0" using p by simp
  let ?I = "klm_inverse junk (klm_S ?M (klm_R t))"
  have I: "?I 0 0 = 1 / (p + 11 / 10)" "?I (Suc 0) (Suc 0) = 1 / (p + 11 / 10)" "?I 0 (Suc 0) = 0" "?I (Suc 0) 0 = 0"
    using p by (simp_all add: klm_inverse_def Let_def S)
  let ?K = "klm_K ?M ?I"
  have K: "?K 0 0 = next_gain p" "?K (Suc 0) (Suc 0) = next_gain p" "?K 0 (Suc 0) = 0" "?K (Suc 0) 0 = 0"
    "?K 2 0 = 0" "?K 2 (Suc 0) = 0" "?K 3 0 = 0" "?K 3 (Suc 0) = 0"
    by (simp_all add: klm_K_def upt_four klm_H_def M I next_gain_def)
  show "klm_x (snd (klm_update u junk z_x z_y dt t)) = klm_x t + next_gain p * (z_x - klm_x t)"
    "klm_y (snd (klm_update u junk z_x z_y dt t)) = klm_y t + next_gain p * (z_y - klm_y t)"
    "klm_vx (snd (klm_update u junk z_x z_y dt t)) = klm_vx t"
    "klm_vy (snd (klm_update u junk z_x z_y dt t)) = klm_vy t"
    by (simp_all add: klm_update_def Let_def K)
  have g: "0 < next_gain p" using p by (simp add: next_gain_def)
  have "(p + 1 / 10) - next_gain p * (p + 1 / 10) = next_gain p" using p by (simp add: next_gain_def field_simps)
  then have "klm_P (snd (klm_update u junk z_x z_y dt t)) 0 0 = next_gain p"
    "klm_P (snd (klm_update u junk z_x z_y dt t)) 1 1 = next_gain p"
    "klm_P (snd (klm_update u junk z_x z_y dt t)) 2 0 = 0" "klm_P (snd (klm_update u junk z_x z_y dt t)) 3 1 = 0"
    by (simp_all add: klm_update_def Let_def K M upt_four klm_H_def)
  moreover have "klm_Q (snd (klm_update u junk z_x z_y dt t)) = klm_Q t" "klm_R (snd (klm_update u junk z_x z_y dt t)) = klm_R t"
    by (simp_all add: klm_update_def Let_def)
  ultimately show "klm_inv (next_gain p) (snd (klm_update u junk z_x z_y dt t))"
    using g QR by (simp add: klm_inv_def)
qed

primrec klm_gain :: "nat \<Rightarrow> real" where
  "klm_gain 0 = 100"
| "klm_gain (Suc n) = next_gain (klm_gain n)"

text \<open>The scalar filter: a coordinate moves towards each measurement by the gain of its number.\<close>

fun smoothed :: "nat \<Rightarrow> real \<Rightarrow> real list \<Rightarrow> real" where
  "smoothed n x [] = x"
| "smoothed n x (z # zs) = smoothed (Suc n) (x + klm_gain (Suc n) * (z - x)) zs"

definition klm_run :: "TrackedPosition \<Rightarrow> matrix \<Rightarrow> KalmanTracker \<Rightarrow> (real \<times> real \<times> real) list \<Rightarrow> KalmanTracker" where
  "klm_run u junk t zs = foldl (\<lambda>t (z_x, z_y, dt). snd (klm_update u junk z_x z_y dt t)) t zs"

lemma klm_run_scalar:
  "klm_inv (klm_gain n) t \<Longrightarrow>
   klm_x (klm_run u junk t zs) = smoothed n (klm_x t) (map fst zs) \<and>
   klm_y (klm_run u junk t zs) = smoothed n (klm_y t) (map (fst \<circ> snd) zs) \<and>
   klm_vx (klm_run u junk t zs) = klm_vx t \<and> klm_vy (klm_run u junk t zs) = klm_vy t \<and>
   klm_inv (klm_gain (n + length zs)) (klm_run u junk t zs)"
proof (induction zs arbitrary: n t)
  case Nil
  then show ?case by (simp add: klm_run_def)
next
  case (Cons z zs)
  obtain z_x z_y dt where z: "z = (z_x, z_y, dt)" by (cases z)
  note s = klm_update_scalar [OF Cons.prems, of u junk z_x z_y dt]
  have "klm_inv (klm_gain (Suc n)) (snd (klm_update u junk z_x z_y dt t))" using s(5) by simp
  from Cons.IH [OF this] show ?case by (simp add: z klm_run_def s(1-4))
qed

lemma klm_gain_range: "27 / 100 < klm_gain n \<and> (n = 0 \<or> klm_gain n < 1)"
proof (induction n)
  case (Suc n)
  then have "27 / 100 < klm_gain n" by simp
  then show ?case by (simp add: next_gain_def field_simps)
qed simp

text \<open>The fixed point of the gains.\<close>

definition limit_gain :: real where
  "limit_gain = (sqrt 41 - 1) / 20"

lemma limit_gain_fixed: "next_gain limit_gain = limit_gain" "27 / 100 < limit_gain" "limit_gain < 28 / 100"
proof -
  have "sqrt 41 < 6.6" by (rule real_less_lsqrt) (simp_all add: power2_eq_square)
  then show "limit_gain < 28 / 100" by (simp add: limit_gain_def)
  have "6.4 < sqrt 41" by (rule real_less_rsqrt) (simp add: power2_eq_square)
  then show l: "27 / 100 < limit_gain" by (simp add: limit_gain_def)
  have "limit_gain * limit_gain + limit_gain / 10 = 1 / 10"
    by (simp add: limit_gain_def field_simps)
  then show "next_gain limit_gain = limit_gain" using l by (simp add: next_gain_def field_simps)
qed

lemma klm_gain_converges: "\<bar>klm_gain n - limit_gain\<bar> \<le> 100 * (5 / 9) ^ n"
proof (induction n)
  case 0
  then show ?case using limit_gain_fixed by simp
next
  case (Suc n)
  let ?p = "klm_gain n" and ?q = limit_gain
  have p: "27 / 100 < ?p" "27 / 100 < ?q" using klm_gain_range limit_gain_fixed by simp_all
  have d: "9 / 5 \<le> (?p + 11 / 10) * (?q + 11 / 10)"
  proof -
    have "137 / 100 * (137 / 100) \<le> (?p + 11 / 10) * (?q + 11 / 10)" using p by (intro mult_mono) simp_all
    then show ?thesis by simp
  qed
  have form: "next_gain p = 1 - 1 / (p + 11 / 10)" if "27 / 100 < p" for p using that by (simp add: next_gain_def field_simps)
  have frac: "1 / b - 1 / a = (a - b) / (a * b)" if "0 < a" "0 < b" for a b :: real
    using that by (simp add: diff_divide_distrib)
  have "next_gain ?p - next_gain ?q = (?p - ?q) / ((?p + 11 / 10) * (?q + 11 / 10))"
    using frac [of "?p + 11 / 10" "?q + 11 / 10"] p by (simp add: form)
  then have step: "klm_gain (Suc n) - ?q = (?p - ?q) / ((?p + 11 / 10) * (?q + 11 / 10))"
    by (simp only: klm_gain.simps limit_gain_fixed(1))
  have "0 \<le> (?p + 11 / 10) * (?q + 11 / 10)" using d by linarith
  then have "\<bar>klm_gain (Suc n) - ?q\<bar> = \<bar>?p - ?q\<bar> / ((?p + 11 / 10) * (?q + 11 / 10))"
    unfolding step abs_divide by (simp only: abs_of_nonneg)
  also have "\<dots> \<le> \<bar>?p - ?q\<bar> / (9 / 5)" using d p by (intro divide_left_mono mult_pos_pos) linarith+
  also have "\<dots> \<le> 100 * (5 / 9) ^ n / (9 / 5)" using Suc.IH by (intro divide_right_mono) simp_all
  also have "\<dots> = 100 * (5 / 9) ^ Suc n" by simp
  finally show ?case .
qed

lemma smoothed_between:
  "lo \<le> x \<Longrightarrow> x \<le> hi \<Longrightarrow> \<forall>z \<in> set zs. lo \<le> z \<and> z \<le> hi \<Longrightarrow> lo \<le> smoothed n x zs \<and> smoothed n x zs \<le> hi"
proof (induction zs arbitrary: n x)
  case (Cons z zs)
  let ?g = "klm_gain (Suc n)"
  have g: "0 \<le> ?g" "0 \<le> 1 - ?g" using klm_gain_range [of "Suc n"] by (simp_all del: klm_gain.simps)
  have eq: "x + ?g * (z - x) = (1 - ?g) * x + ?g * z" by (simp add: algebra_simps del: klm_gain.simps)
  have "(1 - ?g) * lo + ?g * lo \<le> (1 - ?g) * x + ?g * z" "(1 - ?g) * x + ?g * z \<le> (1 - ?g) * hi + ?g * hi"
    using Cons.prems g by (auto intro!: add_mono mult_left_mono simp del: klm_gain.simps)
  then have "lo \<le> x + ?g * (z - x)" "x + ?g * (z - x) \<le> hi" unfolding eq by (simp_all add: algebra_simps del: klm_gain.simps)
  then show ?case using Cons.IH Cons.prems(3) by (simp del: klm_gain.simps)
qed simp

text \<open>C38: The tracker is not a Kalman filter of position and velocity. Because the prediction of the covariance multiplies by the entry of
  the transition itself, the position and the velocity never become correlated: the velocity stays what it was
  initialised to for ever, the time between measurements does not matter, and each coordinate is smoothed on its own
  with gains that fall to 0.2702 at a geometric rate, whatever is measured. So the position stays in every box
  that holds the start and the measurements.
\<close>

theorem klm_scalar_filter:
  fixes x y vx vy lo hi :: real and u :: TrackedPosition and junk :: matrix and zs :: "(real \<times> real \<times> real) list"
  assumes "lo \<le> x \<and> x \<le> hi" "\<forall>z \<in> set zs. lo \<le> fst z \<and> fst z \<le> hi"
  defines "t \<equiv> klm_run u junk (klm_init x y vx vy klm_reset) zs"
  shows "klm_x t = smoothed 0 x (map fst zs) \<and> klm_y t = smoothed 0 y (map (fst \<circ> snd) zs) \<and>
    klm_vx t = vx \<and> klm_vy t = vy \<and> lo \<le> klm_x t \<and> klm_x t \<le> hi \<and>
    \<bar>klm_gain n - (sqrt 41 - 1) / 20\<bar> \<le> 100 * (5 / 9) ^ n"
proof -
  have inv: "klm_inv (klm_gain 0) (klm_init x y vx vy klm_reset)" by (simp add: klm_inv_def klm_init_def klm_reset_def)
  have at: "klm_x (klm_init x y vx vy klm_reset) = x" "klm_y (klm_init x y vx vy klm_reset) = y"
    "klm_vx (klm_init x y vx vy klm_reset) = vx" "klm_vy (klm_init x y vx vy klm_reset) = vy"
    by (simp_all add: klm_init_def)
  have "lo \<le> smoothed 0 x (map fst zs) \<and> smoothed 0 x (map fst zs) \<le> hi" using assms(1,2) by (intro smoothed_between) auto
  then show ?thesis
    using klm_run_scalar [OF inv, of u junk zs] klm_gain_converges [of n] unfolding t_def at limit_gain_def by auto
qed

lemma klm_scalar_filter_witness:
  "klm_vx (klm_run (sample_position 0) (\<lambda>_ _. 0) (klm_init 0 0 0 0 klm_reset) [(1, 0, 1), (2, 0, 1)]) = 0"
  using klm_scalar_filter [of 0 0 2 "[(1, 0, 1), (2, 0, 1)]" "sample_position 0" "\<lambda>_ _. 0" 0 0 0 0] by simp

section \<open>The engine\<close>

datatype TagLocalizationMode = RSSI_ONLY | PHASE_ONLY | RSSI_PHASE | AOA | BEAMFORMING

record TagPositionEngine =
  tpe_mode :: TagLocalizationMode
  tpe_observations :: "(string \<times> TagObservation list) list"
  tpe_trackers :: "(string \<times> KalmanTracker) list"
  tpe_readers :: "ReaderPlace list"

definition tpe_new :: TagPositionEngine where
  "tpe_new = \<lparr>tpe_mode = RSSI_PHASE, tpe_observations = [], tpe_trackers = [], tpe_readers = []\<rparr>"

definition tpe_setMode :: "TagLocalizationMode \<Rightarrow> TagPositionEngine \<Rightarrow> TagPositionEngine" where
  "tpe_setMode m e = e\<lparr>tpe_mode := m\<rparr>"

definition tpe_observed :: "TagPositionEngine \<Rightarrow> string \<Rightarrow> TagObservation list" where
  "tpe_observed e epc = (case map_of (tpe_observations e) epc of None \<Rightarrow> [] | Some v \<Rightarrow> v)"

definition tpe_addObservation :: "TagObservation \<Rightarrow> TagPositionEngine \<Rightarrow> TagPositionEngine" where
  "tpe_addObservation ob e =
     (let v = tpe_observed e (lob_epc ob) @ [ob]
      in e\<lparr>tpe_observations := om_put (lob_epc ob) (if length v > 100 then tl v else v) (tpe_observations e)\<rparr>)"

definition tpe_addReader :: "ReaderPlace \<Rightarrow> TagPositionEngine \<Rightarrow> TagPositionEngine" where
  "tpe_addReader r e =
     (case lrd_find (lrd_reader_id r) (tpe_readers e) of
        None \<Rightarrow> e\<lparr>tpe_readers := tpe_readers e @ [r]\<rparr>
      | Some _ \<Rightarrow> e\<lparr>tpe_readers := update_first (\<lambda>q. lrd_reader_id q = lrd_reader_id r) (\<lambda>_. r) (tpe_readers e)\<rparr>)"

definition tpe_angles :: "ReaderPlace list \<Rightarrow> TagObservation list \<Rightarrow> AngleMeasurement list" where
  "tpe_angles readers obs =
     concat (map (\<lambda>r.
       let mine = filter (\<lambda>ob. \<not> lob_reader_id ob \<noteq> lrd_reader_id r) obs
       in if mine = [] then []
          else [\<lparr>agm_reader_x = lrd_x r, agm_reader_y = lrd_y r, agm_angle_rad = aoas_solve mine, agm_confidence = 8 / 10\<rparr>])
       readers)"

text \<open>The position of one round, uninitialised where no branch writes it.\<close>

definition tpe_measure ::
  "TrackedPosition \<Rightarrow> TagLocalizationMode \<Rightarrow> ReaderPlace list \<Rightarrow> TagObservation list \<Rightarrow> TrackedPosition" where
  "tpe_measure u mode readers obs =
     (case mode of
        RSSI_ONLY \<Rightarrow>
          let prob = rsl_localize obs readers
          in u\<lparr>lps_x := lpr_mean_x prob, lps_y := lpr_mean_y prob, lps_confidence := 5 / 10\<rparr>
      | PHASE_ONLY \<Rightarrow>
          let prob = phl_localize obs readers
          in u\<lparr>lps_x := lpr_mean_x prob, lps_y := lpr_mean_y prob, lps_confidence := 6 / 10\<rparr>
      | RSSI_PHASE \<Rightarrow>
          let rssi_prob = rsl_localize obs readers; phase_prob = phl_localize obs readers
          in u\<lparr>lps_x := (lpr_mean_x rssi_prob + lpr_mean_x phase_prob) / 2,
               lps_y := (lpr_mean_y rssi_prob + lpr_mean_y phase_prob) / 2, lps_confidence := 7 / 10\<rparr>
      | AOA \<Rightarrow>
          if length readers \<ge> 2 \<and> length (tpe_angles readers obs) \<ge> 2 then tri_fromAngles u (tpe_angles readers obs) else u
      | BEAMFORMING \<Rightarrow>
          (case bfe_formBeams obs of
             [] \<Rightarrow> u
           | b # _ \<Rightarrow>
               (case readers of
                  [] \<Rightarrow> u
                | r # _ \<Rightarrow> u\<lparr>lps_x := lrd_x r + cos (beam_angle b) * 5, lps_y := lrd_y r + sin (beam_angle b) * 5,
                    lps_confidence := beam_confidence b\<rparr>)))"

definition tpe_updateTag :: "TrackedPosition \<Rightarrow> matrix \<Rightarrow> string \<times> TagObservation list \<Rightarrow> TagPositionEngine \<Rightarrow> TagPositionEngine" where
  "tpe_updateTag u junk p e =
     (case p of (epc, obs) \<Rightarrow>
        if obs = [] then e
        else let pos = tpe_measure u (tpe_mode e) (tpe_readers e) obs
             in case map_of (tpe_trackers e) epc of
                  Some t \<Rightarrow>
                    e\<lparr>tpe_trackers := om_put epc (snd (klm_update u junk (lps_x pos) (lps_y pos) (1 / 10) t)) (tpe_trackers e)\<rparr>
                | None \<Rightarrow>
                    e\<lparr>tpe_trackers := om_put epc (klm_init (lps_x pos) (lps_y pos) 0 0 klm_reset) (tpe_trackers e)\<rparr>)"

definition tpe_update :: "TrackedPosition \<Rightarrow> matrix \<Rightarrow> TagPositionEngine \<Rightarrow> TagPositionEngine" where
  "tpe_update u junk e = fold (tpe_updateTag u junk) (tpe_observations e) e"

definition tpe_getPosition :: "TrackedPosition \<Rightarrow> string \<Rightarrow> TagPositionEngine \<Rightarrow> TrackedPosition" where
  "tpe_getPosition u epc e =
     (case map_of (tpe_trackers e) epc of
        Some t \<Rightarrow> klm_getState u t
      | None \<Rightarrow>
          if tpe_observed e epc \<noteq> [] then
            let prob = rsl_localize (tpe_observed e epc) (tpe_readers e)
            in u\<lparr>lps_x := lpr_mean_x prob, lps_y := lpr_mean_y prob, lps_confidence := 5 / 10\<rparr>
          else \<lparr>lps_x = 0, lps_y = 0, lps_confidence = 0, lps_velocity_x = 0, lps_velocity_y = 0, lps_timestamp = 0\<rparr>)"

definition tpe_getProbability :: "string \<Rightarrow> TagPositionEngine \<Rightarrow> PositionProbability" where
  "tpe_getProbability epc e =
     (if tpe_observed e epc \<noteq> [] then rsl_localize (tpe_observed e epc) (tpe_readers e) else lpr_default)"

definition tpe_clear :: "TagPositionEngine \<Rightarrow> TagPositionEngine" where
  "tpe_clear e = e\<lparr>tpe_observations := [], tpe_trackers := []\<rparr>"

definition tpe_getTrackedTagCount :: "TagPositionEngine \<Rightarrow> nat" where
  "tpe_getTrackedTagCount e = length (tpe_trackers e)"

section \<open>What the engine keeps\<close>

datatype TagEngineCall =
    Observe TagObservation | Place ReaderPlace | SetMode TagLocalizationMode | UpdateAll TrackedPosition matrix

fun tpe_call :: "TagPositionEngine \<Rightarrow> TagEngineCall \<Rightarrow> TagPositionEngine" where
  "tpe_call e (Observe ob) = tpe_addObservation ob e"
| "tpe_call e (Place r) = tpe_addReader r e"
| "tpe_call e (SetMode m) = tpe_setMode m e"
| "tpe_call e (UpdateAll u junk) = tpe_update u junk e"

definition tpe_run :: "TagEngineCall list \<Rightarrow> TagPositionEngine" where
  "tpe_run cs = foldl tpe_call tpe_new cs"

fun seen_by :: "string \<Rightarrow> TagEngineCall \<Rightarrow> TagObservation list" where
  "seen_by epc (Observe ob) = (if lob_epc ob = epc then [ob] else [])"
| "seen_by epc _ = []"

definition tracked_ok :: "TagPositionEngine \<Rightarrow> bool" where
  "tracked_ok e \<longleftrightarrow> (\<forall>epc t. map_of (tpe_trackers e) epc = Some t \<longrightarrow>
     klm_vx t = 0 \<and> klm_vy t = 0 \<and> (\<exists>n. klm_inv (klm_gain n) t))"

lemma tpe_updateTag_observations [simp]: "tpe_observations (tpe_updateTag u junk p e) = tpe_observations e"
  by (simp add: tpe_updateTag_def Let_def split: prod.split option.split)

lemma tpe_fold_observations [simp]: "tpe_observations (fold (tpe_updateTag u junk) ps e) = tpe_observations e"
  by (induction ps arbitrary: e) simp_all

lemma tpe_updateTag_ok: "tracked_ok e \<Longrightarrow> tracked_ok (tpe_updateTag u junk p e)"
proof (cases p)
  fix epc obs
  assume ok: "tracked_ok e" and p: "p = (epc, obs)"
  have init: "klm_inv (klm_gain 0) (klm_init x y 0 0 klm_reset)" for x y by (simp add: klm_inv_def klm_init_def klm_reset_def)
  have init_v: "klm_vx (klm_init x y 0 0 klm_reset) = 0" "klm_vy (klm_init x y 0 0 klm_reset) = 0" for x y
    by (simp_all add: klm_init_def)
  show "tracked_ok (tpe_updateTag u junk p e)"
  proof (cases "map_of (tpe_trackers e) epc")
    case None
    moreover have "\<exists>n. klm_inv (klm_gain n) (klm_init x y 0 0 klm_reset)" for x y using init by blast
    ultimately show ?thesis using ok init_v by (auto simp del: klm_gain.simps simp: p tpe_updateTag_def Let_def tracked_ok_def)
  next
    case (Some t)
    then obtain n where n: "klm_inv (klm_gain n) t" "klm_vx t = 0" "klm_vy t = 0" using ok by (auto simp: tracked_ok_def)
    have "klm_inv (klm_gain (Suc n)) (snd (klm_update u junk a b d t))" for a b d
      using klm_update_scalar(5) [OF n(1)] by simp
    then show ?thesis
      using ok Some klm_update_scalar(3,4) [OF n(1)] n(2,3)
      by (auto simp del: klm_gain.simps simp: p tpe_updateTag_def Let_def tracked_ok_def)
  qed
qed

lemma tpe_fold_ok: "tracked_ok e \<Longrightarrow> tracked_ok (fold (tpe_updateTag u junk) ps e)"
  by (induction ps arbitrary: e) (simp_all add: tpe_updateTag_ok)

lemma tpe_call_ok: "tracked_ok e \<Longrightarrow> tracked_ok (tpe_call e c)"
proof (cases c)
  case (UpdateAll u junk)
  then show "tracked_ok e \<Longrightarrow> tracked_ok (tpe_call e c)" by (simp add: tpe_update_def tpe_fold_ok)
qed (auto simp: tracked_ok_def tpe_addObservation_def tpe_addReader_def tpe_setMode_def Let_def split: option.splits)

lemma tpe_call_observed:
  "tpe_observed (tpe_call e c) epc =
     (case c of Observe ob \<Rightarrow> if lob_epc ob = epc then (let v = tpe_observed e epc @ [ob] in if length v > 100 then tl v else v)
        else tpe_observed e epc
      | _ \<Rightarrow> tpe_observed e epc)"
  by (cases c) (auto simp: tpe_observed_def tpe_addObservation_def tpe_addReader_def tpe_setMode_def tpe_update_def Let_def
      split: option.splits)

lemma push_hundred: "(let v = w @ [x] in if length v > 100 then tl v else v) = bounded_push 100 w x"
  by (cases w) (auto simp: bounded_push_def)

text \<open>
  The engine over any history of observations, readers, modes and updates: of a tag it keeps exactly the last hundred observations, in
  order; and every position it reports of a tracked tag has the velocity 0.
\<close>

theorem tpe_engine_exact:
  "tpe_observed (tpe_run cs) epc = last_n 100 (concat (map (seen_by epc) cs)) \<and>
   (case map_of (tpe_trackers (tpe_run cs)) epc of
      None \<Rightarrow> True
    | Some t \<Rightarrow> lps_velocity_x (tpe_getPosition u epc (tpe_run cs)) = 0 \<and> lps_velocity_y (tpe_getPosition u epc (tpe_run cs)) = 0 \<and>
        lps_x (tpe_getPosition u epc (tpe_run cs)) = klm_x t)"
proof -
  have "tracked_ok (tpe_run cs)"
    unfolding tpe_run_def
  proof (induction cs rule: rev_induct)
    case Nil
    then show ?case by (simp add: tracked_ok_def tpe_new_def)
  next
    case (snoc c cs)
    then show ?case by (simp add: tpe_call_ok)
  qed
  then have "case map_of (tpe_trackers (tpe_run cs)) epc of
      None \<Rightarrow> True
    | Some t \<Rightarrow> lps_velocity_x (tpe_getPosition u epc (tpe_run cs)) = 0 \<and> lps_velocity_y (tpe_getPosition u epc (tpe_run cs)) = 0 \<and>
        lps_x (tpe_getPosition u epc (tpe_run cs)) = klm_x t"
    by (auto simp: tracked_ok_def tpe_getPosition_def klm_getState_def split: option.split)
  moreover have "tpe_observed (tpe_run cs) epc = last_n 100 (concat (map (seen_by epc) cs))"
  proof (induction cs rule: rev_induct)
    case Nil
    then show ?case by (simp add: tpe_run_def tpe_new_def tpe_observed_def)
  next
    case (snoc c cs)
    let ?v = "last_n 100 (concat (map (seen_by epc) cs))"
    have step: "tpe_observed (tpe_run (cs @ [c])) epc = tpe_observed (tpe_call (tpe_run cs) c) epc" by (simp add: tpe_run_def)
    show ?case
    proof (cases "seen_by epc c")
      case Nil
      then have "tpe_observed (tpe_call (tpe_run cs) c) epc = tpe_observed (tpe_run cs) epc"
        by (cases c) (auto simp del: tpe_call.simps simp: tpe_call_observed split: if_splits)
      then show ?thesis using snoc.IH Nil by (simp add: step)
    next
      case (Cons ob obs)
      then have c: "c = Observe ob" "lob_epc ob = epc" "seen_by epc c = [ob]" by (cases c; auto split: if_splits)+
      have "tpe_observed (tpe_run (cs @ [c])) epc = bounded_push 100 ?v ob"
        unfolding step tpe_call_observed snoc.IH [symmetric] push_hundred [symmetric] using c(1,2) by simp
      also have "\<dots> = last_n 100 (concat (map (seen_by epc) cs) @ [ob])" by (rule bounded_push_last_n) simp
      finally show ?thesis using c(3) by simp
    qed
  qed
  ultimately show ?thesis by blast
qed

end
