(* ===== verification/Localization_Runtime.thy ===== *)
theory Localization_Runtime
  imports Position_Engine
begin

text \<open>
  \<open>server/spatial_runtime\<close>: the budget of the localization modules (\<open>localization_budget\<close>), the pipeline over the solvers
  (\<open>localization_pipeline\<close>), the pool of worker threads (\<open>localization_worker_pool\<close>) and the scheduler that
  owns one of each (\<open>localization_scheduler\<close>). Threads interleave in steps; a step is what a thread does under one
  lock. The pipeline uses the budget that is a singleton, the scheduler its own.
\<close>

section \<open>The budget\<close>

record ModuleBudget =
  mbg_name :: string
  mbg_max_ms :: real
  mbg_current_ms :: real
  mbg_enabled :: bool

type_synonym LocalizationBudget = "(string \<times> ModuleBudget) list"

definition mbg_entry :: "string \<Rightarrow> real \<Rightarrow> string \<times> ModuleBudget" where
  "mbg_entry n m = (n, \<lparr>mbg_name = n, mbg_max_ms = m, mbg_current_ms = 0, mbg_enabled = True\<rparr>)"

definition lbg_new :: LocalizationBudget where
  "lbg_new = [mbg_entry ''aoa'' 10, mbg_entry ''beamforming'' 20, mbg_entry ''kalman'' 5, mbg_entry ''phase'' 5,
     mbg_entry ''rssi'' 5, mbg_entry ''triangulation'' 5]"

definition lbg_reset :: "LocalizationBudget \<Rightarrow> LocalizationBudget" where
  "lbg_reset b = map (\<lambda>(n, m). (n, m\<lparr>mbg_current_ms := 0\<rparr>)) b"

definition lbg_modify :: "string \<Rightarrow> (ModuleBudget \<Rightarrow> ModuleBudget) \<Rightarrow> LocalizationBudget \<Rightarrow> LocalizationBudget" where
  "lbg_modify md f b = (case map_of b md of None \<Rightarrow> b | Some m \<Rightarrow> om_put md (f m) b)"

definition lbg_recordTime :: "string \<Rightarrow> real \<Rightarrow> LocalizationBudget \<Rightarrow> LocalizationBudget" where
  "lbg_recordTime md ms b = lbg_modify md (\<lambda>m. m\<lparr>mbg_current_ms := mbg_current_ms m + ms\<rparr>) b"

definition lbg_hasBudget :: "string \<Rightarrow> LocalizationBudget \<Rightarrow> bool" where
  "lbg_hasBudget md b \<longleftrightarrow>
     (case map_of b md of None \<Rightarrow> False | Some m \<Rightarrow> mbg_enabled m \<and> mbg_current_ms m < mbg_max_ms m)"

definition lbg_getRemaining :: "string \<Rightarrow> LocalizationBudget \<Rightarrow> real" where
  "lbg_getRemaining md b = (case map_of b md of None \<Rightarrow> 0 | Some m \<Rightarrow> max 0 (mbg_max_ms m - mbg_current_ms m))"

definition lbg_disableModule :: "string \<Rightarrow> LocalizationBudget \<Rightarrow> LocalizationBudget" where
  "lbg_disableModule md b = lbg_modify md (\<lambda>m. m\<lparr>mbg_enabled := False\<rparr>) b"

definition lbg_enableModule :: "string \<Rightarrow> LocalizationBudget \<Rightarrow> LocalizationBudget" where
  "lbg_enableModule md b = lbg_modify md (\<lambda>m. m\<lparr>mbg_enabled := True\<rparr>) b"

definition lbg_isOverBudget :: "LocalizationBudget \<Rightarrow> bool" where
  "lbg_isOverBudget b \<longleftrightarrow> (\<exists>p \<in> set b. mbg_enabled (snd p) \<and> mbg_current_ms (snd p) > mbg_max_ms (snd p))"

definition lbg_getTotalTime :: "LocalizationBudget \<Rightarrow> real" where
  "lbg_getTotalTime b = (\<Sum>p \<leftarrow> b. mbg_current_ms (snd p))"

section \<open>The pipeline\<close>

datatype PipelineStage =
  OBSERVATION | RSSI_PROCESSING | PHASE_PROCESSING | AOA_SOLVING | TRIANGULATION | KALMAN_FILTERING | OUTPUT

type_synonym LocalizationPipeline = "PipelineStage \<Rightarrow> bool"

definition lpl_new :: LocalizationPipeline where
  "lpl_new = (\<lambda>_. True)"

definition lpl_process ::
  "TrackedPosition \<Rightarrow> matrix \<Rightarrow> LocalizationBudget \<Rightarrow> LocalizationPipeline \<Rightarrow> TagObservation list \<Rightarrow> TrackedPosition \<Rightarrow> TrackedPosition" where
  "lpl_process u junk budget stages obs out =
     (if \<not> stages OBSERVATION \<or> obs = [] then out
      else
        let o1 = (if stages RSSI_PROCESSING \<and> lbg_hasBudget ''rssi'' budget then
                    let prob = rsl_localize obs [] in out\<lparr>lps_x := lpr_mean_x prob, lps_y := lpr_mean_y prob\<rparr>
                  else out);
            o2 = (if stages PHASE_PROCESSING \<and> lbg_hasBudget ''phase'' budget then
                    let prob = phl_localize obs []
                    in o1\<lparr>lps_x := (lps_x o1 + lpr_mean_x prob) / 2, lps_y := (lps_y o1 + lpr_mean_y prob) / 2\<rparr>
                  else o1);
            o3 = (if stages KALMAN_FILTERING \<and> lbg_hasBudget ''kalman'' budget then
                    fst (klm_update u junk (lps_x o2) (lps_y o2) (1 / 10) (klm_init (lps_x o2) (lps_y o2) 0 0 klm_reset))
                  else o2)
        in o3\<lparr>lps_confidence := 7 / 10\<rparr>)"

definition lpl_setStageEnabled :: "PipelineStage \<Rightarrow> bool \<Rightarrow> LocalizationPipeline \<Rightarrow> LocalizationPipeline" where
  "lpl_setStageEnabled s enabled stages = stages(s := enabled)"

definition lpl_isStageEnabled :: "PipelineStage \<Rightarrow> LocalizationPipeline \<Rightarrow> bool" where
  "lpl_isStageEnabled s stages = stages s"

definition lpl_reset :: "LocalizationPipeline \<Rightarrow> LocalizationPipeline" where
  "lpl_reset stages = (\<lambda>_. True)"

section \<open>The pool and the scheduler\<close>

record LocalizationTask =
  ltk_epc :: string
  ltk_observations :: "TagObservation list"

text \<open>Where a worker thread is in its loop.\<close>

datatype Worker =
    Waiting
  | Observing string "TagObservation list"
  | Updated string
  | Reporting TrackedPosition
  | Gone

record LocalizationWorkerPool =
  lwp_workers :: "Worker list"
  lwp_tasks :: "LocalizationTask list"
  lwp_running :: bool

definition lwp_new :: "nat \<Rightarrow> LocalizationWorkerPool" where
  "lwp_new num_workers = \<lparr>lwp_workers = replicate num_workers Waiting, lwp_tasks = [], lwp_running = False\<rparr>"

definition lwp_start :: "LocalizationWorkerPool \<Rightarrow> LocalizationWorkerPool" where
  "lwp_start p = p\<lparr>lwp_running := True\<rparr>"

text \<open>What \<open>stop\<close> does before it waits for the workers to end.\<close>

definition lwp_stop :: "LocalizationWorkerPool \<Rightarrow> LocalizationWorkerPool" where
  "lwp_stop p = p\<lparr>lwp_running := False\<rparr>"

definition lwp_submitTask :: "LocalizationTask \<Rightarrow> LocalizationWorkerPool \<Rightarrow> LocalizationWorkerPool" where
  "lwp_submitTask t p = p\<lparr>lwp_tasks := lwp_tasks p @ [t]\<rparr>"

definition lwp_getPendingTasks :: "LocalizationWorkerPool \<Rightarrow> nat" where
  "lwp_getPendingTasks p = length (lwp_tasks p)"

text \<open>The head of the loop: wait, end, or take the oldest task.\<close>

definition lwp_take :: "LocalizationWorkerPool \<Rightarrow> Worker \<times> LocalizationTask list" where
  "lwp_take p =
     (case lwp_tasks p of
        [] \<Rightarrow> (if lwp_running p then Waiting else Gone, [])
      | t # ts \<Rightarrow> (Observing (ltk_epc t) (ltk_observations t), ts))"

record LocalizationScheduler =
  lsc_budget :: LocalizationBudget
  lsc_pool :: LocalizationWorkerPool
  lsc_pipeline :: LocalizationPipeline
  lsc_pending_observations :: "TagObservation list"
  lsc_last_positions :: "(string \<times> TrackedPosition) list"
  lsc_max_tags :: nat
  lsc_engine :: TagPositionEngine

definition lsc_new :: LocalizationScheduler where
  "lsc_new = \<lparr>lsc_budget = lbg_new, lsc_pool = lwp_new 4, lsc_pipeline = lpl_new, lsc_pending_observations = [],
     lsc_last_positions = [], lsc_max_tags = 10000, lsc_engine = tpe_new\<rparr>"

definition lsc_initialize :: "LocalizationScheduler \<Rightarrow> LocalizationScheduler" where
  "lsc_initialize s = s\<lparr>lsc_pool := lwp_start (lsc_pool s)\<rparr>"

definition lsc_shutdown :: "LocalizationScheduler \<Rightarrow> LocalizationScheduler" where
  "lsc_shutdown s = s\<lparr>lsc_pool := lwp_stop (lsc_pool s)\<rparr>"

definition lsc_scheduleObservation :: "TagObservation \<Rightarrow> LocalizationScheduler \<Rightarrow> LocalizationScheduler" where
  "lsc_scheduleObservation ob s =
     (if length (lsc_last_positions s) \<ge> lsc_max_tags s then s
      else s\<lparr>lsc_pending_observations := lsc_pending_observations s @ [ob]\<rparr>)"

definition lsc_processPending :: "LocalizationScheduler \<Rightarrow> LocalizationScheduler" where
  "lsc_processPending s =
     s\<lparr>lsc_pool := fold (\<lambda>ob. lwp_submitTask \<lparr>ltk_epc = lob_epc ob, ltk_observations = [ob]\<rparr>)
         (lsc_pending_observations s) (lsc_pool s),
       lsc_pending_observations := []\<rparr>"

definition lsc_applyDegradation :: "LocalizationScheduler \<Rightarrow> LocalizationScheduler" where
  "lsc_applyDegradation s =
     (if lbg_isOverBudget (lsc_budget s) then
        s\<lparr>lsc_pipeline := lpl_setStageEnabled KALMAN_FILTERING False (lsc_pipeline s)\<rparr>
      else s\<lparr>lsc_pipeline := lpl_setStageEnabled KALMAN_FILTERING True (lsc_pipeline s)\<rparr>)"

definition lsc_tick :: "LocalizationScheduler \<Rightarrow> LocalizationScheduler" where
  "lsc_tick s = lsc_applyDegradation (lsc_processPending (s\<lparr>lsc_budget := lbg_reset (lsc_budget s)\<rparr>))"

definition lsc_getPosition :: "string \<Rightarrow> LocalizationScheduler \<Rightarrow> TrackedPosition" where
  "lsc_getPosition epc s =
     (case map_of (lsc_last_positions s) epc of
        Some p \<Rightarrow> p
      | None \<Rightarrow> \<lparr>lps_x = 0, lps_y = 0, lps_confidence = 0, lps_velocity_x = 0, lps_velocity_y = 0, lps_timestamp = 0\<rparr>)"

definition lsc_getTrackedCount :: "LocalizationScheduler \<Rightarrow> nat" where
  "lsc_getTrackedCount s = length (lsc_last_positions s)"

definition lsc_setMaxTags :: "nat \<Rightarrow> LocalizationScheduler \<Rightarrow> LocalizationScheduler" where
  "lsc_setMaxTags m s = s\<lparr>lsc_max_tags := m\<rparr>"

text \<open>The callback the scheduler gives with every task.\<close>

definition lsc_callback :: "TrackedPosition \<Rightarrow> LocalizationScheduler \<Rightarrow> LocalizationScheduler" where
  "lsc_callback pos s =
     s\<lparr>lsc_last_positions := om_put (if lps_x pos > 0 then ''tag'' else '''') pos (lsc_last_positions s)\<rparr>"

text \<open>One step of worker \<open>w\<close>.\<close>

definition lsc_turn :: "nat \<Rightarrow> TrackedPosition \<Rightarrow> matrix \<Rightarrow> LocalizationScheduler \<Rightarrow> LocalizationScheduler" where
  "lsc_turn w u junk s =
     (let ws = lwp_workers (lsc_pool s);
          go = (\<lambda>x s'. s'\<lparr>lsc_pool := lsc_pool s'\<lparr>lwp_workers := ws[w := x]\<rparr>\<rparr>)
      in if w < length ws then
           (case ws ! w of
              Waiting \<Rightarrow>
                (case lwp_take (lsc_pool s) of (x, ts) \<Rightarrow> go x (s\<lparr>lsc_pool := lsc_pool s\<lparr>lwp_tasks := ts\<rparr>\<rparr>))
            | Observing epc (ob # obs) \<Rightarrow> go (Observing epc obs) (s\<lparr>lsc_engine := tpe_addObservation ob (lsc_engine s)\<rparr>)
            | Observing epc [] \<Rightarrow> go (Updated epc) (s\<lparr>lsc_engine := tpe_update u junk (lsc_engine s)\<rparr>)
            | Updated epc \<Rightarrow> go (Reporting (tpe_getPosition u epc (lsc_engine s))) s
            | Reporting pos \<Rightarrow> go Waiting (lsc_callback pos s)
            | Gone \<Rightarrow> s)
         else s)"

datatype SchedulerCall =
    WorkerTurn nat TrackedPosition matrix | Initialize | Shutdown | Schedule TagObservation | Tick | SetMaxTags nat

fun lsc_call :: "LocalizationScheduler \<Rightarrow> SchedulerCall \<Rightarrow> LocalizationScheduler" where
  "lsc_call s (WorkerTurn w u junk) = lsc_turn w u junk s"
| "lsc_call s Initialize = lsc_initialize s"
| "lsc_call s Shutdown = lsc_shutdown s"
| "lsc_call s (Schedule ob) = lsc_scheduleObservation ob s"
| "lsc_call s Tick = lsc_tick s"
| "lsc_call s (SetMaxTags m) = lsc_setMaxTags m s"

definition lsc_run :: "SchedulerCall list \<Rightarrow> LocalizationScheduler" where
  "lsc_run cs = foldl lsc_call lsc_new cs"

section \<open>What the pipeline computes\<close>

text \<open>
  The pipeline gives its solvers no readers. Whenever the signal strengths or the phases are processed without a position from
  before, the result is the origin, whatever was observed; the filter after it is a new one for every call and
  leaves the position alone; the angle is computed and dropped. The confidence is 0.7 all the same.
\<close>

theorem lpl_process_origin:
  assumes "obs \<noteq> []" "stages OBSERVATION" "stages RSSI_PROCESSING" "lbg_hasBudget ''rssi'' budget"
  shows "lps_x (lpl_process u junk budget stages obs out) = 0 \<and> lps_y (lpl_process u junk budget stages obs out) = 0 \<and>
    lps_confidence (lpl_process u junk budget stages obs out) = 7 / 10"
proof -
  have k: "known [] obs = []" by (induction obs) (simp_all add: known_def lrd_find_def)
  have r: "rsl_localize obs [] = lpr_default" by (simp add: rsl_localize_def rsl_add_known k)
  have p: "phl_localize obs [] = lpr_default" by (simp add: phl_localize_def lrd_find_def)
  have inv: "klm_inv (klm_gain 0) (klm_init x y 0 0 klm_reset)" for x y by (simp add: klm_inv_def klm_init_def klm_reset_def)
  have still: "lps_x (fst (klm_update u junk x y d (klm_init x y 0 0 klm_reset))) = x"
    "lps_y (fst (klm_update u junk x y d (klm_init x y 0 0 klm_reset))) = y" for x y d
    by (simp_all add: klm_update_def Let_def klm_init_def)
  show ?thesis using assms by (simp add: lpl_process_def r p Let_def still lpr_default_def)
qed

lemma lpl_process_origin_witness:
  "lps_x (lpl_process (sample_position 0) (\<lambda>_ _. 0) lbg_new lpl_new
     [\<lparr>lob_epc = [], lob_rssi = 0, lob_phase = 0, lob_antenna_id = 0, lob_reader_id = 0, lob_timestamp = 0\<rparr>] (sample_position 3)) = 0"
  using lpl_process_origin [of "[\<lparr>lob_epc = [], lob_rssi = 0, lob_phase = 0, lob_antenna_id = 0, lob_reader_id = 0, lob_timestamp = 0\<rparr>]"
      lpl_new lbg_new "sample_position 0" "\<lambda>_ _. 0" "sample_position 3"]
  by (simp add: lpl_new_def lbg_new_def mbg_entry_def lbg_hasBudget_def)

section \<open>What the scheduler keeps\<close>

definition no_time :: "LocalizationBudget \<Rightarrow> bool" where
  "no_time b \<longleftrightarrow> (\<forall>p \<in> set b. mbg_current_ms (snd p) = 0 \<and> 0 < mbg_max_ms (snd p))"

definition lsc_ok :: "LocalizationScheduler \<Rightarrow> bool" where
  "lsc_ok s \<longleftrightarrow> om_ok (lsc_last_positions s) \<and> fst ` set (lsc_last_positions s) \<subseteq> {''tag'', ''''} \<and>
     no_time (lsc_budget s) \<and> lsc_pipeline s KALMAN_FILTERING"

lemma lsc_processPending_fields [simp]:
  "lsc_last_positions (lsc_processPending s) = lsc_last_positions s"
  "lsc_budget (lsc_processPending s) = lsc_budget s" "lsc_pipeline (lsc_processPending s) = lsc_pipeline s"
  by (simp_all add: lsc_processPending_def)

lemma lsc_call_ok: "lsc_ok s \<Longrightarrow> lsc_ok (lsc_call s c)"
proof (cases c)
  case (WorkerTurn w u junk)
  assume "lsc_ok s"
  then show ?thesis
    by (auto simp: WorkerTurn lsc_turn_def lsc_ok_def Let_def lsc_callback_def split: Worker.split list.split prod.split)
next
  case Tick
  assume ok: "lsc_ok s"
  have "no_time (lbg_reset (lsc_budget s))" using ok by (auto simp: lsc_ok_def no_time_def lbg_reset_def)
  moreover from this have "\<not> lbg_isOverBudget (lbg_reset (lsc_budget s))" by (force simp: no_time_def lbg_isOverBudget_def)
  ultimately show ?thesis using ok
    by (simp add: Tick lsc_tick_def lsc_applyDegradation_def lsc_ok_def lpl_setStageEnabled_def)
qed (simp_all add: lsc_ok_def lsc_initialize_def lsc_shutdown_def lsc_scheduleObservation_def lsc_setMaxTags_def)

lemma lsc_run_ok: "lsc_ok (lsc_run cs)"
  unfolding lsc_run_def
proof (induction cs rule: rev_induct)
  case Nil
  then show ?case
    by (simp add: lsc_ok_def lsc_new_def lbg_new_def mbg_entry_def no_time_def lpl_new_def)
qed (simp add: lsc_call_ok)

text \<open>
  Under every interleaving of the workers with the calls of the scheduler: positions are filed under \<open>tag\<close> or under nothing instead
  of under the tag's number, so at most two tags are tracked and the position of any real tag is the default one; and
  the scheduler never degrades, because nobody records a time in its budget.
\<close>

theorem lsc_positions_misfiled:
  "lsc_getTrackedCount (lsc_run cs) \<le> 2 \<and>
   (if epc = ''tag'' \<or> epc = '''' then True else lps_confidence (lsc_getPosition epc (lsc_run cs)) = 0) \<and>
   lpl_isStageEnabled KALMAN_FILTERING (lsc_pipeline (lsc_run cs)) \<and> \<not> lbg_isOverBudget (lsc_budget (lsc_run cs))"
proof -
  note ok = lsc_run_ok [of cs, unfolded lsc_ok_def]
  have d: "distinct (map fst (lsc_last_positions (lsc_run cs)))" using ok om_ok_distinct by blast
  have "length (lsc_last_positions (lsc_run cs)) = card (fst ` set (lsc_last_positions (lsc_run cs)))"
    using distinct_card [OF d] by simp
  also have "\<dots> \<le> card {''tag'', ''''}" using ok by (intro card_mono) simp_all
  finally have "lsc_getTrackedCount (lsc_run cs) \<le> 2" by (simp add: lsc_getTrackedCount_def)
  moreover have "map_of (lsc_last_positions (lsc_run cs)) epc = None" if "epc \<notin> {''tag'', ''''}"
    using ok that unfolding map_of_eq_None_iff by blast
  moreover have "\<not> lbg_isOverBudget (lsc_budget (lsc_run cs))" using ok by (force simp: no_time_def lbg_isOverBudget_def)
  ultimately show ?thesis using ok by (simp add: lsc_getPosition_def lpl_isStageEnabled_def)
qed

section \<open>The workers\<close>

definition all_gone :: "LocalizationScheduler \<Rightarrow> bool" where
  "all_gone s \<longleftrightarrow> (\<forall>x \<in> set (lwp_workers (lsc_pool s)). x = Gone) \<and> lsc_last_positions s = []"

lemma lwp_submit_workers [simp]:
  "lwp_workers (fold (\<lambda>ob. lwp_submitTask (f ob)) obs p) = lwp_workers p"
  "lwp_running (fold (\<lambda>ob. lwp_submitTask (f ob)) obs p) = lwp_running p"
  by (induction obs arbitrary: p) (simp_all add: lwp_submitTask_def)

lemma lsc_call_gone: "all_gone s \<Longrightarrow> all_gone (lsc_call s c)"
proof (cases c)
  case (WorkerTurn w u junk)
  assume gone: "all_gone s"
  then have "lwp_workers (lsc_pool s) ! w = Gone" if "w < length (lwp_workers (lsc_pool s))"
    using that by (simp add: all_gone_def)
  then have "lsc_turn w u junk s = s" by (simp add: lsc_turn_def Let_def)
  then show ?thesis using gone by (simp add: WorkerTurn)
qed (auto simp: all_gone_def lsc_initialize_def lsc_shutdown_def lsc_scheduleObservation_def lsc_setMaxTags_def
    lsc_tick_def lsc_applyDegradation_def lsc_processPending_def lwp_start_def lwp_stop_def)

lemma lsc_calls_gone: "all_gone s \<Longrightarrow> all_gone (foldl lsc_call s cs)"
  by (induction cs arbitrary: s) (simp_all add: lsc_call_gone)

lemma lsc_turn_running [simp]: "lwp_running (lsc_pool (lsc_turn w u junk s)) = lwp_running (lsc_pool s)"
  by (simp add: lsc_turn_def Let_def lsc_callback_def lwp_take_def split: Worker.split list.split)

lemma lsc_turn_workers:
  assumes "lwp_running (lsc_pool s)" "Gone \<notin> set (lwp_workers (lsc_pool s))"
  shows "Gone \<notin> set (lwp_workers (lsc_pool (lsc_turn w u junk s)))"
proof (cases "w < length (lwp_workers (lsc_pool s))")
  case True
  let ?ws = "lwp_workers (lsc_pool s)"
  have upd: "Gone \<notin> set (?ws[w := x])" if "x \<noteq> Gone" for x
    using that assms(2) set_update_subset_insert [of ?ws w x] by blast
  show ?thesis
  proof (cases "?ws ! w")
    case Waiting
    obtain x ts where t: "lwp_take (lsc_pool s) = (x, ts)" by fastforce
    then have "x \<noteq> Gone" using assms(1) by (auto simp: lwp_take_def split: list.splits)
    then show ?thesis using True Waiting upd by (simp add: lsc_turn_def Let_def t)
  next
    case (Observing epc obs)
    then show ?thesis using True upd by (cases obs) (simp_all add: lsc_turn_def Let_def)
  next
    case (Reporting pos)
    then show ?thesis using True upd by (simp add: lsc_turn_def Let_def lsc_callback_def)
  qed (use True upd assms(2) in \<open>simp_all add: lsc_turn_def Let_def\<close>)
qed (use assms(2) in \<open>simp add: lsc_turn_def Let_def\<close>)

lemma lsc_turn_first:
  assumes "w < length (lwp_workers (lsc_pool s))" "lwp_workers (lsc_pool s) ! w = Waiting" "lwp_tasks (lsc_pool s) = []"
    "\<not> lwp_running (lsc_pool s)"
  shows "lwp_workers (lsc_pool (lsc_turn w u junk s)) = (lwp_workers (lsc_pool s))[w := Gone] \<and>
    lwp_tasks (lsc_pool (lsc_turn w u junk s)) = [] \<and> lsc_last_positions (lsc_turn w u junk s) = lsc_last_positions s"
  using assms by (simp add: lsc_turn_def lwp_take_def Let_def)

lemma lsc_turns_first:
  assumes "lwp_workers (lsc_pool s) = replicate k Gone @ replicate m Waiting" "lwp_tasks (lsc_pool s) = []"
    "\<not> lwp_running (lsc_pool s)" "lsc_last_positions s = []"
  shows "all_gone (foldl lsc_call s (map (\<lambda>w. WorkerTurn w u junk) [k..<k + m]))"
  using assms
proof (induction m arbitrary: k s)
  case 0
  then show ?case by (simp add: all_gone_def)
next
  case (Suc m)
  let ?s = "lsc_turn k u junk s"
  have first: "lwp_workers (lsc_pool ?s) = (lwp_workers (lsc_pool s))[k := Gone] \<and> lwp_tasks (lsc_pool ?s) = [] \<and>
      lsc_last_positions ?s = lsc_last_positions s"
    by (rule lsc_turn_first) (use Suc.prems in \<open>simp_all add: nth_append\<close>)
  have "lwp_workers (lsc_pool ?s) = replicate (Suc k) Gone @ replicate m Waiting"
    using first Suc.prems(1) by (simp add: list_update_append replicate_app_Cons_same)
  from Suc.IH [OF this] first Suc.prems have "all_gone (foldl lsc_call ?s (map (\<lambda>w. WorkerTurn w u junk) [Suc k..<Suc k + m]))"
    by simp
  then show ?case by (simp add: upt_conv_Cons del: upt_Suc)
qed

text \<open>C34: The workers are started in the constructor, when the pool is not running yet. A worker that gets its first turn before \<open>initialize\<close> ends;
  when all four do, no observation is ever located, whatever is called afterwards, \<open>initialize\<close> included. When \<open>initialize\<close>
  comes first and nothing is shut down, no worker ever ends.
\<close>

theorem lsc_pool_dies:
  "lsc_last_positions (lsc_run (map (\<lambda>w. WorkerTurn w u junk) [0, 1, 2, 3] @ cs)) = [] \<and>
   Gone \<notin> set (lwp_workers (lsc_pool (lsc_run (Initialize # filter (\<lambda>c. c \<noteq> Shutdown) cs))))"
proof
  have four: "[0, 1, 2, 3] = [0..<0 + 4]" by (simp add: upt_rec)
  have "all_gone (foldl lsc_call lsc_new (map (\<lambda>w. WorkerTurn w u junk) [0, 1, 2, 3]))"
    unfolding four by (rule lsc_turns_first) (simp_all add: lsc_new_def lwp_new_def)
  from lsc_calls_gone [OF this, of cs]
  show "lsc_last_positions (lsc_run (map (\<lambda>w. WorkerTurn w u junk) [0, 1, 2, 3] @ cs)) = []"
    by (simp add: lsc_run_def all_gone_def)
next
  define alive where "alive s \<longleftrightarrow> lwp_running (lsc_pool s) \<and> Gone \<notin> set (lwp_workers (lsc_pool s))" for s :: LocalizationScheduler
  have call: "alive (lsc_call s c)" if a: "alive s" and c: "c \<noteq> Shutdown" for s :: LocalizationScheduler and c
  proof (cases c)
    case (WorkerTurn w u junk)
    then show ?thesis using a lsc_turn_workers by (simp add: alive_def)
  qed (use a c in \<open>auto simp: alive_def lsc_initialize_def lsc_scheduleObservation_def lsc_setMaxTags_def
      lsc_tick_def lsc_applyDegradation_def lsc_processPending_def lwp_start_def\<close>)
  have "alive (foldl lsc_call s (filter (\<lambda>c. c \<noteq> Shutdown) cs))" if "alive s" for s :: LocalizationScheduler
    using that by (induction cs arbitrary: s) (simp_all add: call)
  moreover have "alive (lsc_call lsc_new Initialize)"
    by (simp add: alive_def lsc_initialize_def lsc_new_def lwp_new_def lwp_start_def)
  ultimately show "Gone \<notin> set (lwp_workers (lsc_pool (lsc_run (Initialize # filter (\<lambda>c. c \<noteq> Shutdown) cs))))"
    by (simp add: lsc_run_def alive_def)
qed

end
