(* ===== verification/Spec2Isabelle.thy ===== *)
theory Spec2Isabelle
  imports Runtime_State_Machine Reader_State_Machine Failure_Bus Event_Bus Control_Plane Chaos
    Replay_Validator Frame_Player Causal_Chain AI_Frame_Locking
    EPC_Buffer EPC_Validator Reader_Link Idempotency Rate_Limiter Society Inventory
    Coordinate_Systems Calibration_Session Frame_Clock Frame_Scheduler Trajectory Factory_Map Decision_Stability Anomaly
    AI_Executor Factories Policy_Dataset Access_Control Delayed_Reward Decision_Agent
    Trajectory_Archive Compute_Economy Governance Spatial_Query Localization_Runtime
begin

text \<open>
  Verification of the server of the RFID asset and spatial runtime (\<open>src/server\<close>).

  \<^bold>\<open>The program.\<close> RFID readers deliver tag reads over serial lines and TCP; the reads are cut into
  lines, parsed, deduplicated, buffered per task and counted against the inventory in a database. On top of the
  assets runs a spatial runtime: it builds a frame of the plant at a fixed rate, records, replays, validates and
  proves frames, watches its own failures and repairs itself; a spatial layer keeps coordinate systems, ground
  truth, estimates, calibrations, a graph of readers and tags and a map of the factory; and an analytics and
  decision layer predicts risks, detects anomalies and decides what to do about an asset.

  \<^bold>\<open>Theories and sources.\<close> Every theory opens with what it holds. Paths are below \<open>src/server\<close>.
  \<^item> \<open>Base\<close>: names of the machine types, \<open>std::to_string\<close>, \<open>std::sort\<close>, bounded vectors, writes through the
    iterator of \<open>find_if\<close>. \<open>Decimal\<close>: fixed decimal printing and \<open>std::stod\<close>, \<open>std::map\<close>. \<open>Binary_Files\<close>:
    reading members of a struct from a file in the state monad, with the contract of writer and reader as a locale.
  \<^item> Lifecycles: \<open>Guarded_Machine\<close> (the contract of a machine with a transition table),
    \<open>Runtime_State_Machine\<close> (\<open>runtime/runtime_state_machine\<close>), \<open>Reader_State_Machine\<close>
    (\<open>reader_runtime/reader_state_machine\<close>).
  \<^item> Buses and recovery: \<open>Event_Log\<close> (the contract of a bounded log), \<open>Failure_Bus\<close>, \<open>Event_Bus\<close>,
    \<open>Recovery_Engine\<close>, \<open>Control_Plane\<close> (\<open>runtime/runtime_*\<close>).
  \<^item> Kernel: \<open>Consistency_Checker\<close>, \<open>Proof_Ledger\<close>, \<open>Proof_Engine\<close>, \<open>Runtime_Kernel\<close> (\<open>runtime/kernel\<close>,
    \<open>runtime/system_*\<close>), \<open>Spatial_Random\<close>, \<open>Chaos\<close> (\<open>runtime/kernel/chaos\<close>).
  \<^item> Frames: \<open>Spatial_Frame\<close>, \<open>Frame_Recording\<close>, \<open>Frame_Player\<close>, \<open>Replay_Validator\<close>, \<open>Causal_Chain\<close>,
    \<open>AI_Frame_Locking\<close>, \<open>Frame_Clock\<close>, \<open>Frame_Scheduler\<close> (\<open>runtime\<close>).
  \<^item> AI pipeline: \<open>Risk_Field\<close>, \<open>AI_Analysis\<close>, \<open>Trajectory_Graph\<close>, \<open>AI_Executor\<close> (\<open>runtime/risk_field\<close>,
    \<open>ai_analysis_context\<close>, \<open>trajectory_graph\<close>, \<open>ai_executor\<close>); \<open>Policy_Dataset\<close> (\<open>runtime/policy_dataset\<close>,
    \<open>policy_dataset_v2\<close>); \<open>Factories\<close> (\<open>runtime/factory_*\<close>).
  \<^item> Reads: \<open>EPC_Reading\<close> and \<open>Reader_Link\<close> (\<open>rfid/reader\<close>, \<open>rfid/epc_processor\<close>), \<open>EPC_Validator\<close>,
    \<open>EPC_Buffer\<close>, \<open>Idempotency\<close>, \<open>Rate_Limiter\<close>, \<open>Alerts\<close> (\<open>core\<close>).
  \<^item> Assets: \<open>DB_Pool\<close> (\<open>db/db_pool\<close>), \<open>Asset_Service\<close>, \<open>Inventory\<close>, \<open>Access_Control\<close> (\<open>services\<close>), \<open>Trajectory\<close>,
    \<open>Anomaly\<close>, \<open>Decision_Engine\<close>, \<open>Decision_Stability\<close> (\<open>analytics\<close>), \<open>Society\<close> (\<open>society\<close>).
  \<^item> Learning: \<open>Bandit\<close> (\<open>tuning/bandit\<close>), \<open>Delayed_Reward\<close> (its delayed hook), \<open>Decision_Agent\<close>
    (\<open>decision_agent\<close>, \<open>reward\<close>, \<open>feedback\<close>).
  \<^item> Governance: \<open>Compute_Economy\<close> (\<open>economy\<close>, with the contract of a resource pool as a locale), \<open>Governance\<close>
    (\<open>governance\<close>).
  \<^item> Positions: \<open>Trajectory_Archive\<close> (\<open>spatial_memory/trajectory_archive\<close>),
    \<open>Spatial_Query\<close> (\<open>spatial_query\<close>), \<open>Localizers\<close> and
    \<open>Position_Engine\<close> (\<open>spatial_positioning\<close>), \<open>Localization_Runtime\<close> (\<open>spatial_runtime\<close>).
  \<^item> Spatial truth (\<open>spatial_truth\<close>): \<open>Coordinate_Systems\<close>, \<open>Ground_Truth\<close>, \<open>Spatial_Estimate\<close>, \<open>Truth_Gate\<close>,
    \<open>Calibration_Session\<close>, \<open>Spatial_Graph\<close>, \<open>Factory_Map\<close>.

  \<^bold>\<open>How code becomes definitions.\<close> A class is a record with its data members; a method is a function from
  its arguments and the object to its result and the object. What a method reads from a clock, a random engine or a
  library that is not under \<open>src\<close> is an argument. A failure is a value: \<open>Inl\<close> of a \<open>fault\<close> (an exception, an
  index out of range, a mutex locked twice by one thread). Calls that leave the model (callbacks, mails, threads)
  are a trace. A database statement is what it reads and writes, with the schema of the scripts. A method that
  holds its mutex throughout is one step; where steps of several threads interleave (the connection pool, the
  change of an asset's status, which reads and writes in two steps, the executor, the truth runner) the theorems
  quantify over all sequences of steps. What a library may do either way (when a buffered stream passes its bytes
  to the file, what a callback does) is an argument too, and the theorems hold for all of it.

  \<^bold>\<open>What the lemmas show.\<close> Per component: an invariant and that every operation keeps it; the exact result of
  the operations over any history of calls; and what the code does on its error paths, including those where it
  does not do what it means to. The properties are numbered C1 to C40 where they stand.

  \<^bold>\<open>Bounds and fuel.\<close> No definition uses fuel. Loops are structural recursions or folds; the walk to the root
  of a coordinate system ends by the bound of ten levels the code has; the line cutter and the indexer of a
  recording recurse on what is left of their input. Counters are words where the code compares or wraps them,
  naturals where they count single events.

  \<^bold>\<open>Not modelled.\<close> Input and output alone, or calls of libraries: the gRPC services (\<open>rpc\<close>), logging,
  \<open>main\<close>, the SQL-only repositories, the Qt client (\<open>src/client\<close>), the GPU upload, generated code
  (\<open>client-build\<close>, \<open>server-build\<close>). The remaining components are listed in the manifest with the reason.
\<close>

end
